(* ===== verification/Prelude.thy ===== *)
theory Prelude imports Main "HOL-Library.AList" begin

text \<open>
  Shared vocabulary of the development: Go maps as association lists, the panics of the Go
  runtime as values, database tables as lists of rows, and the decimal printing and parsing of
  \<open>strconv\<close> on which task keys and task labels rest.  The lemmas here are the ones that several
  components use; they are either simp rules or members of \<open>go_simps\<close>.
\<close>

named_theorems go_simps \<open>rewriting of Go maps, tables and panicking computations\<close>

section \<open>Results\<close>

text \<open>The runtime panics the modelled code can run into, and error messages as strings.\<close>

datatype panic = IndexOutOfRange | NilDereference

type_synonym 'a go = "panic + 'a"
type_synonym err = string
type_synonym 'a result = "err + 'a"

text \<open>
  Times are integers, nanoseconds since the zero value of \<open>time.Time\<close>, so \<open>IsZero\<close> is \<open>t = 0\<close>.  A
  fault is the error a call to the database or the cluster reports, if it reports one.
\<close>

type_synonym time = int
type_synonym fault = "err option"

definition go_bind :: "'e + 'a \<Rightarrow> ('a \<Rightarrow> 'e + 'b) \<Rightarrow> 'e + 'b" where
  "go_bind m f = (case m of Inl e \<Rightarrow> Inl e | Inr x \<Rightarrow> f x)"

lemma go_bind_simps [simp]:
  "go_bind (Inl e) f = Inl e"
  "go_bind (Inr x) f = f x"
  by (simp_all add: go_bind_def)

lemma go_bind_Inr_iff:
  "go_bind m f = Inr y \<longleftrightarrow> (\<exists>x. m = Inr x \<and> f x = Inr y)"
  by (cases m) auto

section \<open>Go maps\<close>

text \<open>
  A Go map is an association list with distinct keys.  The list order stands for the order in
  which one \<open>range\<close> loop visits the entries, which Go leaves open: a statement about every list
  is a statement about every iteration order.
\<close>

type_synonym ('k, 'v) gomap = "('k \<times> 'v) list"

abbreviation gm_get :: "('k, 'v) gomap \<Rightarrow> 'k \<Rightarrow> 'v option" where
  "gm_get \<equiv> map_of"

abbreviation gm_put :: "'k \<Rightarrow> 'v \<Rightarrow> ('k, 'v) gomap \<Rightarrow> ('k, 'v) gomap" where
  "gm_put \<equiv> AList.update"

abbreviation gm_del :: "'k \<Rightarrow> ('k, 'v) gomap \<Rightarrow> ('k, 'v) gomap" where
  "gm_del \<equiv> AList.delete"

definition gm_ok :: "('k, 'v) gomap \<Rightarrow> bool" where
  "gm_ok m \<longleftrightarrow> distinct (map fst m)"

lemma gm_ok_Nil [simp]: "gm_ok []"
  by (simp add: gm_ok_def)

lemma gm_ok_put [simp]: "gm_ok m \<Longrightarrow> gm_ok (gm_put k v m)"
  by (simp add: gm_ok_def distinct_update)

lemma gm_ok_del [simp]: "gm_ok m \<Longrightarrow> gm_ok (gm_del k m)"
  by (simp add: gm_ok_def distinct_delete)

lemma gm_ok_Cons: "gm_ok (p # m) \<longleftrightarrow> fst p \<notin> fst ` set m \<and> gm_ok m"
  by (simp add: gm_ok_def)

lemma gm_get_put [simp]: "gm_get (gm_put k v m) = (gm_get m)(k \<mapsto> v)"
  by (rule update_conv')

lemma gm_get_del [simp]: "gm_get (gm_del k m) = (gm_get m)(k := None)"
  by (rule delete_conv')

lemma gm_get_None_iff: "gm_get m k = None \<longleftrightarrow> k \<notin> fst ` set m"
  by (rule map_of_eq_None_iff)

lemma gm_get_in_set: "gm_ok m \<Longrightarrow> gm_get m k = Some v \<longleftrightarrow> (k, v) \<in> set m"
  by (simp add: gm_ok_def)

lemma gm_get_Some_in: "gm_get m k = Some v \<Longrightarrow> (k, v) \<in> set m"
  by (rule map_of_SomeD)

section \<open>Tables\<close>

text \<open>
  A database table is the list of its rows in primary-key order.  A query of the generated
  query layer selects by a predicate on rows: \<open>First\<close> the first match, \<open>Find\<close> all matches,
  \<open>Updates\<close> a change of every match, \<open>Delete\<close> the removal of every match.
\<close>

type_synonym 'r table = "'r list"

definition tbl_first :: "('r \<Rightarrow> bool) \<Rightarrow> 'r table \<Rightarrow> 'r option" where
  "tbl_first P t = find P t"

definition tbl_find :: "('r \<Rightarrow> bool) \<Rightarrow> 'r table \<Rightarrow> 'r list" where
  "tbl_find P t = filter P t"

definition tbl_updates :: "('r \<Rightarrow> bool) \<Rightarrow> ('r \<Rightarrow> 'r) \<Rightarrow> 'r table \<Rightarrow> 'r table" where
  "tbl_updates P f t = map (\<lambda>r. if P r then f r else r) t"

definition tbl_delete :: "('r \<Rightarrow> bool) \<Rightarrow> 'r table \<Rightarrow> 'r table" where
  "tbl_delete P t = filter (\<lambda>r. \<not> P r) t"

lemma tbl_first_Nil [simp]: "tbl_first P [] = None"
  by (simp add: tbl_first_def)

lemma tbl_first_Cons: "tbl_first P (r # t) = (if P r then Some r else tbl_first P t)"
  by (simp add: tbl_first_def)

lemma tbl_first_Some: "tbl_first P t = Some r \<Longrightarrow> r \<in> set t \<and> P r"
  by (induction t) (auto simp: tbl_first_Cons split: if_splits)

lemma tbl_first_None: "tbl_first P t = None \<longleftrightarrow> (\<forall>r \<in> set t. \<not> P r)"
  by (induction t) (auto simp: tbl_first_Cons)

lemma tbl_first_append: "tbl_first P (xs @ ys) = (case tbl_first P xs of None \<Rightarrow> tbl_first P ys | Some x \<Rightarrow> Some x)"
  by (induction xs) (auto simp: tbl_first_Cons)

lemma tbl_updates_Nil [simp]: "tbl_updates P f [] = []"
  by (simp add: tbl_updates_def)

lemma tbl_updates_Cons [simp]:
  "tbl_updates P f (r # t) = (if P r then f r else r) # tbl_updates P f t"
  by (simp add: tbl_updates_def)

lemma tbl_updates_length [simp]: "length (tbl_updates P f t) = length t"
  by (simp add: tbl_updates_def)

text \<open>Reading back a row that an update has written, when the update keeps the row selected.\<close>

lemma tbl_first_updates_same:
  "(\<And>r. P r \<Longrightarrow> P (f r)) \<Longrightarrow> tbl_first P (tbl_updates P f t) = map_option f (tbl_first P t)"
  by (induction t) (auto simp: tbl_first_Cons)

lemma tbl_first_updates_other:
  "(\<And>r. Q r \<Longrightarrow> Q (f r) = Q r) \<Longrightarrow> (\<And>r. P r \<Longrightarrow> Q (f r) = Q r) \<Longrightarrow> (\<And>r. Q r \<Longrightarrow> \<not> P r) \<Longrightarrow>
   tbl_first Q (tbl_updates P f t) = tbl_first Q t"
  by (induction t) (auto simp: tbl_first_Cons)

lemma distinct_first:
  "distinct (map f t) \<Longrightarrow> r \<in> set t \<Longrightarrow> tbl_first (\<lambda>x. f x = f r) t = Some r"
  by (induction t) (auto simp: tbl_first_Cons)

lemma tbl_first_updates_key:
  "distinct (map k t) \<Longrightarrow> tbl_first P t = Some r \<Longrightarrow> P (f r) \<Longrightarrow> tbl_first P (tbl_updates (\<lambda>x. k x = k r) f t) = Some (f r)"
proof (induction t)
  case (Cons a t)
  then show ?case by (cases "P a") (auto simp: tbl_first_Cons dest: tbl_first_Some)
qed simp

lemma tbl_first_unique:
  assumes "r \<in> set t" "P r" and u: "\<And>x. x \<in> set t \<Longrightarrow> P x \<Longrightarrow> x = r"
  shows "tbl_first P t = Some r"
proof (cases "tbl_first P t")
  case None
  with assms(1,2) show ?thesis unfolding tbl_first_None by blast
next
  case (Some x)
  with u [of x] tbl_first_Some [OF Some] show ?thesis by simp
qed

lemma tbl_delete_updates:
  "(\<And>r. r \<in> set t \<Longrightarrow> P r \<Longrightarrow> Q r) \<Longrightarrow> (\<And>r. Q (f r) = Q r) \<Longrightarrow> tbl_delete Q (tbl_updates P f t) = tbl_delete Q t"
  by (induction t) (auto simp: tbl_delete_def)

lemma map_unique: "distinct (map f t) \<Longrightarrow> y \<in> set t \<Longrightarrow> x \<in> set t \<Longrightarrow> f x = f y \<Longrightarrow> x = y"
  by (auto simp: distinct_map dest: inj_onD)

section \<open>Strings\<close>

text \<open>\<open>strings.Split(s, sep)\<close> for a separator of one character: never the empty list.\<close>

fun split_on :: "char \<Rightarrow> string \<Rightarrow> string list" where
  "split_on c [] = [[]]"
| "split_on c (x # xs) =
     (if x = c then [] # split_on c xs
      else (case split_on c xs of [] \<Rightarrow> [[x]] | y # ys \<Rightarrow> (x # y) # ys))"

lemma split_on_not_Nil [simp]: "split_on c s \<noteq> []"
  by (cases s) (auto split: list.split)

lemma split_on_free: "c \<notin> set s \<Longrightarrow> split_on c s = [s]"
  by (induction s) auto

lemma split_on_append: "c \<notin> set s \<Longrightarrow> split_on c (s @ c # t) = s # split_on c t"
  by (induction s) auto

definition tbl_last :: "('r \<Rightarrow> bool) \<Rightarrow> 'r table \<Rightarrow> 'r option" where
  "tbl_last P t = tbl_first P (rev t)"

lemma tbl_last_Some: "tbl_last P t = Some r \<Longrightarrow> r \<in> set t \<and> P r"
  by (auto simp: tbl_last_def dest: tbl_first_Some)

text \<open>\<open>strings.HasPrefix\<close> and \<open>strings.Contains\<close>.\<close>

definition starts_with :: "string \<Rightarrow> string \<Rightarrow> bool" where
  "starts_with p s \<longleftrightarrow> take (length p) s = p"

fun str_contains :: "string \<Rightarrow> string \<Rightarrow> bool" where
  "str_contains [] p = (p = [])"
| "str_contains (c # s) p = (starts_with p (c # s) \<or> str_contains s p)"

lemma str_contains_self: "str_contains s s"
  by (cases s) (simp_all add: starts_with_def)

lemma str_contains_length: "str_contains s p \<Longrightarrow> length p \<le> length s"
  by (induction s) (auto simp: starts_with_def dest: arg_cong [where f = length])

section \<open>Decimal numbers of strconv\<close>

text \<open>
  \<open>strconv.FormatUint(n, 10)\<close> and \<open>strconv.ParseUint(s, 10, 64)\<close>.  The parser reports a syntax
  error on an empty string or a character that is no digit, and a range error as soon as the
  value leaves 64 bits; its value part is then 0 or the largest 64-bit number, which matters
  where a caller drops the error.
\<close>

definition digit_char :: "nat \<Rightarrow> char" where
  "digit_char d = char_of (48 + d)"

fun fmt_uint :: "nat \<Rightarrow> string" where
  "fmt_uint n = (if n < 10 then [digit_char n] else fmt_uint (n div 10) @ [digit_char (n mod 10)])"

declare fmt_uint.simps [simp del]

datatype parse_error = SyntaxError | RangeError

definition is_digit :: "char \<Rightarrow> bool" where
  "is_digit c \<longleftrightarrow> (48 :: nat) \<le> of_char c \<and> of_char c \<le> (57 :: nat)"

definition digit_val :: "char \<Rightarrow> nat" where
  "digit_val c = of_char c - 48"

fun parse_digits :: "nat \<Rightarrow> string \<Rightarrow> parse_error + nat" where
  "parse_digits n [] = Inr n"
| "parse_digits n (c # cs) =
     (if \<not> is_digit c then Inl SyntaxError
      else if 10 * n + digit_val c \<ge> 2 ^ 64 then Inl RangeError
      else parse_digits (10 * n + digit_val c) cs)"

definition parse_uint :: "string \<Rightarrow> parse_error + nat" where
  "parse_uint s = (if s = [] then Inl SyntaxError else parse_digits 0 s)"

definition parse_uint_value :: "string \<Rightarrow> nat" where
  "parse_uint_value s =
     (case parse_uint s of Inr n \<Rightarrow> n | Inl SyntaxError \<Rightarrow> 0 | Inl RangeError \<Rightarrow> 2 ^ 64 - 1)"

lemma of_char_digit: "d < 10 \<Longrightarrow> of_char (digit_char d) = 48 + d"
  by (simp add: digit_char_def)

lemma is_digit_digit_char [simp]: "d < 10 \<Longrightarrow> is_digit (digit_char d)"
  by (simp add: is_digit_def of_char_digit)

lemma digit_val_digit_char [simp]: "d < 10 \<Longrightarrow> digit_val (digit_char d) = d"
  by (simp add: digit_val_def of_char_digit)

lemma fmt_uint_not_Nil [simp]: "fmt_uint n \<noteq> []" "[] \<noteq> fmt_uint n"
  by (subst fmt_uint.simps, simp)+

lemma parse_digits_append:
  "parse_digits n (xs @ ys) = go_bind (parse_digits n xs) (\<lambda>m. parse_digits m ys)"
  by (induction xs arbitrary: n) auto

lemma parse_digits_fmt: "n < 2 ^ 64 \<Longrightarrow> parse_digits 0 (fmt_uint n) = Inr n"
proof (induction n rule: fmt_uint.induct)
  case (1 n)
  show ?case
  proof (cases "n < 10")
    case True
    then show ?thesis by (simp add: fmt_uint.simps [of n])
  next
    case False
    have "n div 10 < 2 ^ 64" using "1.prems" by (auto intro: le_less_trans [OF div_le_dividend])
    with False "1.IH" have "parse_digits 0 (fmt_uint (n div 10)) = Inr (n div 10)" by blast
    moreover have "10 * (n div 10) + n mod 10 = n" by simp
    ultimately show ?thesis
      using False "1.prems" by (simp add: fmt_uint.simps [of n] parse_digits_append)
  qed
qed

lemma parse_uint_fmt: "n < 2 ^ 64 \<Longrightarrow> parse_uint (fmt_uint n) = Inr n"
  by (simp add: parse_uint_def parse_digits_fmt)

lemma parse_uint_value_fmt [simp]: "n < 2 ^ 64 \<Longrightarrow> parse_uint_value (fmt_uint n) = n"
  by (simp add: parse_uint_value_def parse_uint_fmt)

text \<open>Printing is injective on all naturals: the last digit and the rest determine the number.\<close>

lemma digit_char_inj: "d < 10 \<Longrightarrow> e < 10 \<Longrightarrow> digit_char d = digit_char e \<longleftrightarrow> d = e"
  by (metis digit_val_digit_char)

lemma fmt_uint_inj: "fmt_uint m = fmt_uint n \<longleftrightarrow> m = n"
proof (induction m arbitrary: n rule: fmt_uint.induct)
  case (1 m)
  show ?case
  proof (cases "m < 10 \<or> n < 10")
    case True
    then show ?thesis
      by (auto simp: fmt_uint.simps [of m] fmt_uint.simps [of n] digit_char_inj split: if_splits)
  next
    case False
    with "1.IH" have "fmt_uint (m div 10) = fmt_uint (n div 10) \<longleftrightarrow> m div 10 = n div 10" by simp
    moreover have "m = n \<longleftrightarrow> m div 10 = n div 10 \<and> m mod 10 = n mod 10"
      by (metis mult_div_mod_eq)
    ultimately show ?thesis
      using False by (simp add: fmt_uint.simps [of m] fmt_uint.simps [of n] digit_char_inj)
  qed
qed

section \<open>Signed numbers and names\<close>

text \<open>
  \<open>strconv.Itoa\<close> and the value part of \<open>strconv.Atoi\<close> on a 64-bit platform, the conversions
  between \<open>int\<close> and \<open>uint\<close>, and the operations of \<open>strings\<close> that build object names (on ASCII
  names; \<open>ToLower\<close> knows more of Unicode).
\<close>

definition itoa :: "int \<Rightarrow> string" where
  "itoa i = (if i < 0 then CHR ''-'' # fmt_uint (nat (- i)) else fmt_uint (nat i))"

definition atoi_value :: "string \<Rightarrow> int" where
  "atoi_value s =
     (let (neg, ds) = (case s of [] \<Rightarrow> (False, []) | c # cs \<Rightarrow>
                         if c = CHR ''-'' then (True, cs) else if c = CHR ''+'' then (False, cs) else (False, s))
      in case parse_uint ds of
           Inl SyntaxError \<Rightarrow> 0
         | Inl RangeError \<Rightarrow> if neg then - (2 ^ 63) else 2 ^ 63 - 1
         | Inr n \<Rightarrow> if neg then (if n > 2 ^ 63 then - (2 ^ 63) else - int n)
                    else (if n \<ge> 2 ^ 63 then 2 ^ 63 - 1 else int n))"

definition int_of_uint :: "nat \<Rightarrow> int" where
  "int_of_uint n = (if n < 2 ^ 63 then int n else int n - 2 ^ 64)"

definition uint_of_int :: "int \<Rightarrow> nat" where
  "uint_of_int i = nat (i mod 2 ^ 64)"

definition to_lower_char :: "char \<Rightarrow> char" where
  "to_lower_char c = (if 65 \<le> (of_char c :: nat) \<and> (of_char c :: nat) \<le> 90 then char_of (of_char c + 32 :: nat) else c)"

definition to_lower :: "string \<Rightarrow> string" where
  "to_lower s = map to_lower_char s"

definition replace_char :: "char \<Rightarrow> char \<Rightarrow> string \<Rightarrow> string" where
  "replace_char a b s = map (\<lambda>c. if c = a then b else c) s"

lemma fmt_uint_digits: "c \<in> set (fmt_uint n) \<Longrightarrow> is_digit c"
  by (induction n rule: fmt_uint.induct) (subst (asm) fmt_uint.simps, auto split: if_splits)

lemma not_digit [simp]: "\<not> is_digit (CHR ''-'')" "\<not> is_digit (CHR ''+'')" "\<not> is_digit (CHR ''_'')"
  by (simp_all add: is_digit_def)

lemma to_lower_digit [simp]: "is_digit c \<Longrightarrow> to_lower_char c = c"
  by (simp add: is_digit_def to_lower_char_def)

lemma replace_digit: "is_digit c \<Longrightarrow> (if c = CHR ''_'' then b else c) = c"
  by auto

lemma replace_fmt_uint [simp]: "replace_char (CHR ''_'') b (fmt_uint n) = fmt_uint n"
  unfolding replace_char_def by (rule map_idI) (use fmt_uint_digits in fastforce)

lemma to_lower_fmt_uint [simp]: "to_lower (fmt_uint n) = fmt_uint n"
  unfolding to_lower_def by (rule map_idI) (use fmt_uint_digits in fastforce)

lemma replace_append [simp]: "replace_char a b (xs @ ys) = replace_char a b xs @ replace_char a b ys"
  by (simp add: replace_char_def)

lemma replace_simps [simp]:
  "replace_char a b [] = []"
  "replace_char a b (c # cs) = (if c = a then b else c) # replace_char a b cs"
  by (simp_all add: replace_char_def)

lemma to_lower_append [simp]: "to_lower (xs @ ys) = to_lower xs @ to_lower ys"
  by (simp add: to_lower_def)

lemma itoa_uint: "n < 2 ^ 63 \<Longrightarrow> itoa (int_of_uint n) = fmt_uint n"
  by (simp add: itoa_def int_of_uint_def)

lemma fmt_uint_hd: "fmt_uint n = c # cs \<Longrightarrow> c \<noteq> CHR ''-'' \<and> c \<noteq> CHR ''+''"
  using fmt_uint_digits [of c n] not_digit by (metis list.set_intros(1))

lemma atoi_fmt_uint: "n < 2 ^ 63 \<Longrightarrow> atoi_value (fmt_uint n) = int n"
proof -
  assume n: "n < 2 ^ 63"
  obtain c cs where c: "fmt_uint n = c # cs" by (cases "fmt_uint n") auto
  have "parse_uint (c # cs) = Inr n" using parse_uint_fmt [of n] n c by simp
  then show ?thesis using fmt_uint_hd [OF c] n by (simp add: atoi_value_def c)
qed

lemma uint_int_uint [simp]: "n < 2 ^ 64 \<Longrightarrow> uint_of_int (int_of_uint n) = n"
  by (auto simp: uint_of_int_def int_of_uint_def nat_eq_iff zmod_trivial_iff)

text \<open>Splitting at the last dash: a name of the form \<open>prefix-id\<close> determines its id.\<close>

lemma dash_suffix_inj:
  assumes "xs @ CHR ''-'' # us = ys @ CHR ''-'' # vs"
    and "CHR ''-'' \<notin> set us" and "CHR ''-'' \<notin> set vs"
  shows "xs = ys \<and> us = vs"
proof -
  from assms(1) have "rev us @ CHR ''-'' # rev xs = rev vs @ CHR ''-'' # rev ys"
    by (metis append_assoc append_Cons append_Nil rev_append rev.simps(2))
  moreover have "takeWhile (\<lambda>c. c \<noteq> CHR ''-'') (rev ws @ CHR ''-'' # zs) = rev ws"
    if "CHR ''-'' \<notin> set ws" for ws zs :: string
    using that by (subst takeWhile_append2) auto
  ultimately have "rev us = rev vs" using assms(2,3) by metis
  with assms(1) show ?thesis by auto
qed

end
