(* ===== verification/Keyed_Collection.thy ===== *)
theory Keyed_Collection imports Prelude begin

text \<open>
  The interface the task queues and the profiler expect of a collection of objects keyed by a
  string: insert-or-update, insert-if-absent, removal by key, lookup by key and listing.  Both
  \<open>pkg/util/queue\<close> and \<open>pkg/util/heap\<close> provide it (their \<open>PushOrUpdate\<close>,
  \<open>PushIfNotPresent\<close>, \<open>Delete\<close>, \<open>GetByKey\<close> and \<open>List\<close>); the interpretations stand in
  their theories.  What a client may conclude from the laws is proved here once.
\<close>

locale keyed_collection =
  fixes inv :: "'c \<Rightarrow> bool"
    and look :: "'c \<Rightarrow> string \<Rightarrow> 'a option"
    and key :: "'a \<Rightarrow> string"
    and put :: "'a \<Rightarrow> 'c \<Rightarrow> 'c"
    and put_new :: "'a \<Rightarrow> 'c \<Rightarrow> 'c"
    and del :: "string \<Rightarrow> 'c \<Rightarrow> 'c"
  assumes look_key: "inv c \<Longrightarrow> look c k = Some x \<Longrightarrow> key x = k"
    and inv_put: "inv c \<Longrightarrow> inv (put x c)"
    and inv_put_new: "inv c \<Longrightarrow> inv (put_new x c)"
    and inv_del: "inv c \<Longrightarrow> inv (del k c)"
    and look_put: "inv c \<Longrightarrow> look (put x c) = (look c)(key x \<mapsto> x)"
    and look_put_new: "inv c \<Longrightarrow>
          look (put_new x c) = (if look c (key x) = None then (look c)(key x \<mapsto> x) else look c)"
    and look_del: "inv c \<Longrightarrow> look (del k c) = (look c)(k := None)"
begin

lemmas laws = inv_put inv_put_new inv_del look_put look_put_new look_del

lemma inv_fold_put: "inv c \<Longrightarrow> inv (fold put xs c)"
  by (induction xs arbitrary: c) (auto simp: laws)

lemma inv_fold_put_new: "inv c \<Longrightarrow> inv (fold put_new xs c)"
  by (induction xs arbitrary: c) (auto simp: laws)

text \<open>Inserting a list of objects only where the key is free: the first object of a key wins.\<close>

lemma look_fold_put_new:
  "inv c \<Longrightarrow>
   look (fold put_new xs c) k =
     (case look c k of Some x \<Rightarrow> Some x | None \<Rightarrow> find (\<lambda>x. key x = k) xs)"
  by (induction xs arbitrary: c) (auto simp: laws split: option.splits)

text \<open>Inserting with update: the last object of a key wins.\<close>

lemma look_fold_put:
  "inv c \<Longrightarrow>
   look (fold put xs c) k =
     (case find (\<lambda>x. key x = k) (rev xs) of Some x \<Rightarrow> Some x | None \<Rightarrow> look c k)"
proof (induction xs arbitrary: c)
  case Nil
  then show ?case by simp
next
  case (Cons x xs)
  have "find P (xs @ [y]) = (case find P xs of Some z \<Rightarrow> Some z | None \<Rightarrow> if P y then Some y else None)"
    for P and y :: 'a and xs
    by (induction xs) auto
  with Cons show ?case by (auto simp: laws split: option.splits)
qed

lemma del_after_put: "inv c \<Longrightarrow> look (del (key x) (put x c)) = (look c)(key x := None)"
  by (simp add: laws)

lemma put_twice: "inv c \<Longrightarrow> key x = key y \<Longrightarrow> look (put y (put x c)) = look (put y c)"
  by (simp add: laws)

lemma put_del_commute:
  "inv c \<Longrightarrow> key x \<noteq> k \<Longrightarrow> look (put x (del k c)) = look (del k (put x c))"
  by (auto simp: laws)

end

text \<open>A keyed collection that can also be listed, every stored object exactly once.\<close>

locale listed_collection = keyed_collection inv look key put put_new del
  for inv :: "'c \<Rightarrow> bool" and look :: "'c \<Rightarrow> string \<Rightarrow> 'a option" and key put put_new del +
  fixes elems :: "'c \<Rightarrow> 'a list"
  assumes elems_look: "inv c \<Longrightarrow> x \<in> set (elems c) \<longleftrightarrow> look c (key x) = Some x"
    and elems_distinct: "inv c \<Longrightarrow> distinct (map key (elems c))"
begin

lemma elems_put: "inv c \<Longrightarrow> set (elems (put x c)) = insert x {y \<in> set (elems c). key y \<noteq> key x}"
  by (rule set_eqI) (simp add: elems_look inv_put look_put, metis)

lemma elems_del: "inv c \<Longrightarrow> set (elems (del k c)) = {y \<in> set (elems c). key y \<noteq> k}"
  by (rule set_eqI) (simp add: elems_look inv_del look_del)

lemma elems_put_new:
  "inv c \<Longrightarrow>
   set (elems (put_new x c)) = (if look c (key x) = None then insert x (set (elems c)) else set (elems c))"
  by (rule set_eqI) (simp add: elems_look inv_put_new look_put_new, metis option.distinct(1))

lemma look_iff_elem: "inv c \<Longrightarrow> look c k = Some x \<longleftrightarrow> x \<in> set (elems c) \<and> key x = k"
  using elems_look look_key by blast

lemma elems_inj: "inv c \<Longrightarrow> x \<in> set (elems c) \<Longrightarrow> y \<in> set (elems c) \<Longrightarrow> key x = key y \<Longrightarrow> x = y"
  by (simp add: elems_look)

end

end
