(* ===== verification/Go_Queue.thy ===== *)
theory Go_Queue imports Keyed_Collection "HOL-Library.Multiset" begin

text \<open>
  \<open>pkg/util/queue/queue.go\<close>: the keyed queue behind the per-user task queues and the profiler.
  The structure holds the objects in a map and, separately, the order of the keys.  The
  invariant \<open>queue_inv\<close> ties the two together; every operation but \<open>Top\<close> keeps it.
\<close>

section \<open>Data\<close>

record 'a queue_item =
  qi_obj :: 'a
  qi_index :: nat

record 'a queue =
  q_items :: "(string, 'a queue_item) gomap"
  q_keys :: "string list"
  q_keyFunc :: "'a \<Rightarrow> string"
  q_lessFunc :: "'a \<Rightarrow> 'a \<Rightarrow> bool"

section \<open>The heap-interface operations of the struct\<close>

definition q_Len :: "'a queue \<Rightarrow> nat" where
  "q_Len d = length (q_keys d)"

text \<open>
  The guard compares with \<open>>\<close>, so an index equal to the length passes it and then runs out
  of range.
\<close>

definition q_Less :: "'a queue \<Rightarrow> nat \<Rightarrow> nat \<Rightarrow> bool go" where
  "q_Less d i j =
     (if q_Len d < i \<or> q_Len d < j then Inr False
      else if q_Len d \<le> i then Inl IndexOutOfRange
      else case gm_get (q_items d) (q_keys d ! i) of
           None \<Rightarrow> Inr False
           | Some a \<Rightarrow>
               (if q_Len d \<le> j then Inl IndexOutOfRange
                else (case gm_get (q_items d) (q_keys d ! j) of
                        None \<Rightarrow> Inr False
                      | Some b \<Rightarrow> Inr (q_lessFunc d (qi_obj a) (qi_obj b)))))"

definition set_index :: "string \<Rightarrow> nat \<Rightarrow> 'a queue \<Rightarrow> 'a queue go" where
  "set_index k i d =
     (case gm_get (q_items d) k of
        None \<Rightarrow> Inl NilDereference
      | Some it \<Rightarrow> Inr (d\<lparr>q_items := gm_put k (it\<lparr>qi_index := i\<rparr>) (q_items d)\<rparr>))"

definition q_Swap :: "'a queue \<Rightarrow> nat \<Rightarrow> nat \<Rightarrow> 'a queue go" where
  "q_Swap d i j =
     (if q_Len d \<le> i \<or> q_Len d \<le> j then Inl IndexOutOfRange
      else let ks = (q_keys d)[i := q_keys d ! j, j := q_keys d ! i] in
           go_bind (set_index (ks ! i) i (d\<lparr>q_keys := ks\<rparr>)) (\<lambda>d1. set_index (ks ! j) j d1))"

definition q_push :: "string \<Rightarrow> 'a \<Rightarrow> 'a queue \<Rightarrow> 'a queue" where
  "q_push k x d =
     d\<lparr>q_items := gm_put k \<lparr>qi_obj = x, qi_index = length (q_keys d)\<rparr> (q_items d),
       q_keys := q_keys d @ [k]\<rparr>"

text \<open>
  \<open>pop\<close> and \<open>top\<close> both cut the last key off; only \<open>pop\<close> removes the item from the map.  On
  an empty key list the slice expression panics.
\<close>

definition q_pop :: "'a queue \<Rightarrow> ('a option \<times> 'a queue) go" where
  "q_pop d =
     (if q_keys d = [] then Inl IndexOutOfRange
      else let k = last (q_keys d); d1 = d\<lparr>q_keys := butlast (q_keys d)\<rparr> in
           case gm_get (q_items d1) k of
             None \<Rightarrow> Inr (None, d1)
           | Some it \<Rightarrow> Inr (Some (qi_obj it), d1\<lparr>q_items := gm_del k (q_items d1)\<rparr>))"

definition q_top :: "'a queue \<Rightarrow> ('a option \<times> 'a queue) go" where
  "q_top d =
     (if q_keys d = [] then Inl IndexOutOfRange
      else let k = last (q_keys d); d1 = d\<lparr>q_keys := butlast (q_keys d)\<rparr> in
           case gm_get (q_items d1) k of
             None \<Rightarrow> Inr (None, d1)
           | Some it \<Rightarrow> Inr (Some (qi_obj it), d1))"

definition q_delete :: "string \<Rightarrow> 'a queue \<Rightarrow> 'a option \<times> 'a queue" where
  "q_delete k d =
     (case gm_get (q_items d) k of
        None \<Rightarrow> (None, d)
      | Some it \<Rightarrow>
          (Some (qi_obj it),
           d\<lparr>q_keys := remove1 k (q_keys d), q_items := gm_del k (q_items d)\<rparr>))"

section \<open>The exported operations\<close>

definition q_New :: "('a \<Rightarrow> string) \<Rightarrow> ('a \<Rightarrow> 'a \<Rightarrow> bool) \<Rightarrow> 'a queue" where
  "q_New kf lf = \<lparr>q_items = [], q_keys = [], q_keyFunc = kf, q_lessFunc = lf\<rparr>"

definition q_PushOrUpdate :: "'a \<Rightarrow> 'a queue \<Rightarrow> 'a queue" where
  "q_PushOrUpdate x q =
     (let k = q_keyFunc q x in
      case gm_get (q_items q) k of
        Some it \<Rightarrow> q\<lparr>q_items := gm_put k (it\<lparr>qi_obj := x\<rparr>) (q_items q)\<rparr>
      | None \<Rightarrow> q_push k x q)"

definition q_PushIfNotPresent :: "'a \<Rightarrow> 'a queue \<Rightarrow> bool \<times> 'a queue" where
  "q_PushIfNotPresent x q =
     (let k = q_keyFunc q x in
      case gm_get (q_items q) k of Some it \<Rightarrow> (False, q) | None \<Rightarrow> (True, q_push k x q))"

definition q_DeleteByKey :: "string \<Rightarrow> 'a queue \<Rightarrow> 'a option \<times> 'a queue" where
  "q_DeleteByKey k q = q_delete k q"

definition q_Delete :: "'a \<Rightarrow> 'a queue \<Rightarrow> 'a option \<times> 'a queue" where
  "q_Delete x q = q_delete (q_keyFunc q x) q"

definition q_Pop :: "'a queue \<Rightarrow> ('a option \<times> 'a queue) go" where
  "q_Pop q = q_pop q"

definition q_Top :: "'a queue \<Rightarrow> ('a option \<times> 'a queue) go" where
  "q_Top q = q_top q"

definition q_GetByKey :: "'a queue \<Rightarrow> string \<Rightarrow> 'a option" where
  "q_GetByKey q k = map_option qi_obj (gm_get (q_items q) k)"

definition q_Get :: "'a queue \<Rightarrow> 'a \<Rightarrow> 'a option" where
  "q_Get q x = q_GetByKey q (q_keyFunc q x)"

fun list_keys :: "(string, 'a queue_item) gomap \<Rightarrow> string list \<Rightarrow> 'a list go" where
  "list_keys m [] = Inr []"
| "list_keys m (k # ks) =
     (case gm_get m k of
        None \<Rightarrow> Inl NilDereference
      | Some it \<Rightarrow> go_bind (list_keys m ks) (\<lambda>r. Inr (qi_obj it # r)))"

definition q_List :: "'a queue \<Rightarrow> 'a list go" where
  "q_List q = list_keys (q_items q) (q_keys q)"

text \<open>
  \<open>sort.Sort\<close> through \<open>Less\<close> and \<open>Swap\<close>, as the insertion sort the Go library runs on
  short inputs: the element at \<open>i\<close> is swapped down while it is less than its left neighbour.
\<close>

fun sink_left :: "nat \<Rightarrow> 'a queue \<Rightarrow> 'a queue go" where
  "sink_left 0 q = Inr q"
| "sink_left (Suc j) q =
     go_bind (q_Less q (Suc j) j)
       (\<lambda>b. if b then go_bind (q_Swap q (Suc j) j) (sink_left j) else Inr q)"

fun sort_data :: "nat \<Rightarrow> 'a queue \<Rightarrow> 'a queue go" where
  "sort_data 0 q = Inr q"
| "sort_data (Suc n) q = go_bind (sort_data n q) (sink_left n)"

definition q_Reorder :: "'a queue \<Rightarrow> 'a queue go" where
  "q_Reorder q = sort_data (q_Len q) q"

definition q_ReorderWithFunc :: "('a \<Rightarrow> 'a \<Rightarrow> bool) \<Rightarrow> 'a queue \<Rightarrow> 'a queue go" where
  "q_ReorderWithFunc lf q = q_Reorder (q\<lparr>q_lessFunc := lf\<rparr>)"

section \<open>Invariant\<close>

definition queue_inv :: "'a queue \<Rightarrow> bool" where
  "queue_inv q \<longleftrightarrow>
     distinct (q_keys q) \<and> gm_ok (q_items q) \<and> set (q_keys q) = dom (gm_get (q_items q)) \<and>
     (\<forall>k it. gm_get (q_items q) k = Some it \<longrightarrow> q_keyFunc q (qi_obj it) = k)"

lemma queue_inv_New [simp]: "queue_inv (q_New kf lf)"
  by (simp add: queue_inv_def q_New_def)

lemma queue_inv_key: "queue_inv q \<Longrightarrow> q_GetByKey q k = Some x \<Longrightarrow> q_keyFunc q x = k"
  by (auto simp: queue_inv_def q_GetByKey_def)

lemma queue_inv_keys: "queue_inv q \<Longrightarrow> k \<in> set (q_keys q) \<longleftrightarrow> q_GetByKey q k \<noteq> None"
  by (auto simp: queue_inv_def q_GetByKey_def)

lemma queue_inv_push:
  "queue_inv q \<Longrightarrow> gm_get (q_items q) (q_keyFunc q x) = None \<Longrightarrow> queue_inv (q_push (q_keyFunc q x) x q)"
  by (auto simp: queue_inv_def q_push_def)

lemma queue_inv_PushOrUpdate: "queue_inv q \<Longrightarrow> queue_inv (q_PushOrUpdate x q)"
  unfolding q_PushOrUpdate_def Let_def
  by (auto simp: queue_inv_push split: option.split) (auto simp: queue_inv_def)

lemma queue_inv_PushIfNotPresent: "queue_inv q \<Longrightarrow> queue_inv (snd (q_PushIfNotPresent x q))"
  by (auto simp: q_PushIfNotPresent_def Let_def queue_inv_push split: option.split)

lemma queue_inv_delete: "queue_inv q \<Longrightarrow> queue_inv (snd (q_delete k q))"
  by (auto simp: q_delete_def queue_inv_def split: option.split if_splits)

lemma keyFunc_ops [simp]:
  "q_keyFunc (q_PushOrUpdate x q) = q_keyFunc q"
  "q_keyFunc (snd (q_PushIfNotPresent x q)) = q_keyFunc q"
  "q_keyFunc (snd (q_delete k q)) = q_keyFunc q"
  by (auto simp: q_PushOrUpdate_def q_PushIfNotPresent_def q_push_def q_delete_def Let_def
      split: option.split)

lemma lessFunc_ops [simp]:
  "q_lessFunc (q_PushOrUpdate x q) = q_lessFunc q"
  "q_lessFunc (snd (q_PushIfNotPresent x q)) = q_lessFunc q"
  "q_lessFunc (snd (q_delete k q)) = q_lessFunc q"
  by (auto simp: q_PushOrUpdate_def q_PushIfNotPresent_def q_push_def q_delete_def Let_def
      split: option.split)

section \<open>Lookup and listing\<close>

text \<open>The objects in key order, which is what \<open>List\<close> returns on a well-formed queue.\<close>

definition queue_elems :: "'a queue \<Rightarrow> 'a list" where
  "queue_elems q = (case q_List q of Inr xs \<Rightarrow> xs | Inl _ \<Rightarrow> [])"

lemma list_keys_ok:
  "\<forall>k \<in> set ks. gm_get m k \<noteq> None \<Longrightarrow> list_keys m ks = Inr (map (\<lambda>k. qi_obj (the (gm_get m k))) ks)"
  by (induction ks) auto

lemma queue_inv_list_keys:
  "queue_inv q \<Longrightarrow>
   list_keys (q_items q) (q_keys q) = Inr (map (\<lambda>k. qi_obj (the (gm_get (q_items q) k))) (q_keys q))"
  by (rule list_keys_ok) (auto simp: queue_inv_def)

lemma q_List_ok: "queue_inv q \<Longrightarrow> q_List q = Inr (queue_elems q)"
  by (simp add: queue_elems_def q_List_def queue_inv_list_keys)

lemma queue_elems_map: "queue_inv q \<Longrightarrow> queue_elems q = map (\<lambda>k. the (q_GetByKey q k)) (q_keys q)"
  by (simp add: queue_elems_def q_List_def queue_inv_list_keys q_GetByKey_def)
    (auto simp: queue_inv_def)

lemma length_queue_elems: "queue_inv q \<Longrightarrow> length (queue_elems q) = q_Len q"
  by (simp add: queue_elems_map q_Len_def)

lemma queue_keys_elems: "queue_inv q \<Longrightarrow> q_keys q = map (q_keyFunc q) (queue_elems q)"
  using queue_inv_keys queue_inv_key
  by (fastforce simp: queue_elems_map o_def intro!: map_idI [symmetric])

lemma queue_elems_distinct: "queue_inv q \<Longrightarrow> distinct (map (q_keyFunc q) (queue_elems q))"
  by (metis queue_inv_def queue_keys_elems)

lemma in_queue_elems:
  assumes "queue_inv q"
  shows "x \<in> set (queue_elems q) \<longleftrightarrow> q_GetByKey q (q_keyFunc q x) = Some x"
proof
  assume "x \<in> set (queue_elems q)"
  then obtain k where "k \<in> set (q_keys q)" and "x = the (q_GetByKey q k)"
    by (auto simp: queue_elems_map [OF assms])
  then have "q_GetByKey q k = Some x" by (simp add: queue_inv_keys [OF assms])
  with queue_inv_key [OF assms] show "q_GetByKey q (q_keyFunc q x) = Some x" by simp
next
  assume "q_GetByKey q (q_keyFunc q x) = Some x"
  then show "x \<in> set (queue_elems q)"
    by (auto simp: queue_elems_map [OF assms] queue_inv_keys [OF assms] image_iff
        intro!: bexI [of _ "q_keyFunc q x"])
qed

lemma look_PushOrUpdate:
  "q_GetByKey (q_PushOrUpdate x q) = (q_GetByKey q)(q_keyFunc q x \<mapsto> x)"
  by (auto simp: q_GetByKey_def q_PushOrUpdate_def q_push_def Let_def split: option.split)

lemma look_PushIfNotPresent:
  "q_GetByKey (snd (q_PushIfNotPresent x q)) =
     (if q_GetByKey q (q_keyFunc q x) = None then (q_GetByKey q)(q_keyFunc q x \<mapsto> x) else q_GetByKey q)"
  by (auto simp: q_GetByKey_def q_PushIfNotPresent_def q_push_def Let_def split: option.split)

lemma look_delete: "q_GetByKey (snd (q_delete k q)) = (q_GetByKey q)(k := None)"
  by (auto simp: q_GetByKey_def q_delete_def split: option.split)

lemma delete_result: "fst (q_delete k q) = q_GetByKey q k"
  by (simp add: q_GetByKey_def q_delete_def split: option.split)

interpretation gq: listed_collection
  "\<lambda>q. queue_inv q \<and> q_keyFunc q = kf" q_GetByKey kf q_PushOrUpdate
  "\<lambda>x q. snd (q_PushIfNotPresent x q)" "\<lambda>k q. snd (q_DeleteByKey k q)" queue_elems
  for kf :: "'a \<Rightarrow> string"
  by unfold_locales
    (auto simp: q_DeleteByKey_def queue_inv_PushOrUpdate queue_inv_PushIfNotPresent queue_inv_delete
      look_PushOrUpdate look_PushIfNotPresent look_delete in_queue_elems queue_elems_distinct
      dest: queue_inv_key)

section \<open>The queue as a list with unique keys\<close>

text \<open>
  The abstract view of the queue: a list of objects with distinct keys.  An update replaces the
  object of the same key where it stands, a new object goes to the end.
\<close>

definition al_put :: "('a \<Rightarrow> string) \<Rightarrow> 'a \<Rightarrow> 'a list \<Rightarrow> 'a list" where
  "al_put kf x xs =
     (if kf x \<in> kf ` set xs then map (\<lambda>y. if kf y = kf x then x else y) xs else xs @ [x])"

definition al_put_new :: "('a \<Rightarrow> string) \<Rightarrow> 'a \<Rightarrow> 'a list \<Rightarrow> 'a list" where
  "al_put_new kf x xs = (if kf x \<in> kf ` set xs then xs else xs @ [x])"

definition al_del :: "('a \<Rightarrow> string) \<Rightarrow> string \<Rightarrow> 'a list \<Rightarrow> 'a list" where
  "al_del kf k xs = filter (\<lambda>y. kf y \<noteq> k) xs"

lemma queue_key_present:
  "queue_inv q \<Longrightarrow> k \<in> q_keyFunc q ` set (queue_elems q) \<longleftrightarrow> gm_get (q_items q) k \<noteq> None"
  by (metis (no_types, lifting) image_set queue_keys_elems queue_inv_def domIff)

lemma keys_PushOrUpdate:
  "q_keys (q_PushOrUpdate x q) =
     (if gm_get (q_items q) (q_keyFunc q x) = None then q_keys q @ [q_keyFunc q x] else q_keys q)"
  by (auto simp: q_PushOrUpdate_def q_push_def Let_def split: option.split)

lemma keys_delete:
  "q_keys (snd (q_delete k q)) = (if gm_get (q_items q) k = None then q_keys q else remove1 k (q_keys q))"
  by (auto simp: q_delete_def split: option.split)

lemma elems_PushOrUpdate:
  assumes inv: "queue_inv q"
  shows "queue_elems (q_PushOrUpdate x q) = al_put (q_keyFunc q) x (queue_elems q)"
proof -
  let ?kf = "q_keyFunc q"
  have el: "the (q_GetByKey q (?kf y)) = y" if "y \<in> set (queue_elems q)" for y
    using that inv by (simp add: in_queue_elems)
  have elems: "queue_elems (q_PushOrUpdate x q) =
        map (\<lambda>k. the (((q_GetByKey q)(?kf x \<mapsto> x)) k)) (q_keys (q_PushOrUpdate x q))"
    using inv by (simp add: queue_elems_map queue_inv_PushOrUpdate look_PushOrUpdate)
  show ?thesis
  proof (cases "gm_get (q_items q) (?kf x) = None")
    case True
    then have absent: "?kf x \<notin> ?kf ` set (queue_elems q)" using inv by (simp add: queue_key_present)
    then have "?kf y \<noteq> ?kf x" if "y \<in> set (queue_elems q)" for y
      using that by (metis image_eqI)
    with True absent elems inv show ?thesis
      by (auto simp: keys_PushOrUpdate al_put_def queue_keys_elems el intro!: map_idI)
  next
    case False
    with elems inv show ?thesis
      by (auto simp: keys_PushOrUpdate al_put_def queue_key_present queue_keys_elems el)
  qed
qed

lemma elems_PushIfNotPresent:
  assumes inv: "queue_inv q"
  shows "q_PushIfNotPresent x q =
           (q_keyFunc q x \<notin> q_keyFunc q ` set (queue_elems q),
            if q_keyFunc q x \<in> q_keyFunc q ` set (queue_elems q) then q else q_PushOrUpdate x q)"
  using inv
  by (auto simp: queue_key_present q_PushIfNotPresent_def q_PushOrUpdate_def Let_def
      split: option.split)

lemma elems_delete:
  assumes inv: "queue_inv q"
  shows "queue_elems (snd (q_delete k q)) = al_del (q_keyFunc q) k (queue_elems q)"
proof -
  let ?kf = "q_keyFunc q"
  have el: "the (q_GetByKey q (?kf y)) = y" if "y \<in> set (queue_elems q)" for y
    using that inv by (simp add: in_queue_elems)
  have keys: "q_keys (snd (q_delete k q)) = filter (\<lambda>j. j \<noteq> k) (q_keys q)"
  proof (cases "gm_get (q_items q) k")
    case None
    with inv have "k \<notin> set (q_keys q)" by (auto simp: queue_inv_def)
    with None show ?thesis by (auto simp: keys_delete intro!: filter_True [symmetric])
  next
    case (Some it)
    with inv show ?thesis
      by (auto simp: keys_delete queue_inv_def distinct_remove1_removeAll removeAll_filter_not_eq
          intro!: filter_cong)
  qed
  have "queue_elems (snd (q_delete k q)) = map (\<lambda>j. the (((q_GetByKey q)(k := None)) j)) (q_keys (snd (q_delete k q)))"
    using inv by (simp add: queue_elems_map queue_inv_delete look_delete)
  also have "\<dots> = map (\<lambda>j. the (q_GetByKey q j)) (filter (\<lambda>j. j \<noteq> k) (q_keys q))"
    by (simp add: keys)
  also have "\<dots> = al_del ?kf k (queue_elems q)"
    using inv by (auto simp: al_del_def queue_keys_elems filter_map o_def el intro!: map_idI)
  finally show ?thesis .
qed

section \<open>Pop and Top\<close>

lemma queue_nonempty: "queue_inv q \<Longrightarrow> q_keys q = [] \<longleftrightarrow> queue_elems q = []"
  by (simp add: queue_keys_elems)

lemma last_elem: "queue_inv q \<Longrightarrow> q_keys q \<noteq> [] \<Longrightarrow> q_GetByKey q (last (q_keys q)) = Some (last (queue_elems q))"
  by (metis in_queue_elems last_in_set last_map queue_keys_elems queue_nonempty)

text \<open>\<open>Pop\<close> is the removal of the last listed object.\<close>

lemma q_Pop_ok:
  assumes inv: "queue_inv q" and ne: "queue_elems q \<noteq> []"
  shows "q_Pop q = Inr (Some (last (queue_elems q)), snd (q_delete (last (q_keys q)) q))"
proof -
  from inv ne have kne: "q_keys q \<noteq> []" by (simp add: queue_nonempty)
  from last_elem [OF inv kne] obtain it where it: "gm_get (q_items q) (last (q_keys q)) = Some it"
    and obj: "qi_obj it = last (queue_elems q)"
    by (auto simp: q_GetByKey_def)
  have "last ks \<notin> set (butlast ks)" if "distinct ks" "ks \<noteq> []" for ks :: "string list"
    using that by (metis append_butlast_last_id distinct_append
        disjoint_iff list.set_intros(1))
  then have "remove1 (last (q_keys q)) (q_keys q) = butlast (q_keys q)"
    using inv kne by (metis append_butlast_last_id queue_inv_def remove1.simps(2) remove1_append append.right_neutral)
  with it obj kne show ?thesis by (simp add: q_Pop_def q_pop_def q_delete_def Let_def)
qed

lemma al_del_last: "distinct (map kf xs) \<Longrightarrow> xs \<noteq> [] \<Longrightarrow> al_del kf (kf (last xs)) xs = butlast xs"
  by (cases xs rule: rev_cases) (auto simp: al_del_def intro!: filter_True, metis image_eqI)

lemma last_key: "queue_inv q \<Longrightarrow> queue_elems q \<noteq> [] \<Longrightarrow> last (q_keys q) = q_keyFunc q (last (queue_elems q))"
  by (simp add: queue_keys_elems last_map)

text \<open>
  \<open>Top\<close> takes the key off the order but leaves the object in the map: the queue is then out of
  step until the object is deleted by key, which is what the profiler does next.
\<close>

lemma q_Top_ok:
  assumes inv: "queue_inv q" and ne: "queue_elems q \<noteq> []"
  shows "q_Top q = Inr (Some (last (queue_elems q)), q\<lparr>q_keys := butlast (q_keys q)\<rparr>)"
proof -
  from inv ne have kne: "q_keys q \<noteq> []" by (simp add: queue_nonempty)
  from last_elem [OF inv kne] show ?thesis
    by (auto simp: q_Top_def q_top_def Let_def kne q_GetByKey_def)
qed

lemma q_Top_delete:
  assumes inv: "queue_inv q" and ne: "queue_elems q \<noteq> []"
  shows "q_delete (last (q_keys q)) (q\<lparr>q_keys := butlast (q_keys q)\<rparr>) = q_delete (last (q_keys q)) q"
proof -
  from inv ne have kne: "q_keys q \<noteq> []" by (simp add: queue_nonempty)
  obtain ks k where ks: "q_keys q = ks @ [k]" using kne by (metis append_butlast_last_id)
  with inv have "k \<notin> set ks" by (simp add: queue_inv_def)
  have "gm_get (q_items q) k \<noteq> None" using inv ks by (auto simp: queue_inv_def)
  moreover from \<open>k \<notin> set ks\<close> ks have "remove1 k ks = ks" "remove1 k (ks @ [k]) = ks"
    by (auto simp: remove1_idem remove1_append)
  ultimately show ?thesis using ks by (auto simp: q_delete_def)
qed

section \<open>Reorder\<close>

text \<open>
  The order laws \<open>sort.Sort\<close> asks of \<open>Less\<close>: a strict weak order.  The first-in-first-out
  ordering of the task queues satisfies them.
\<close>

definition weak_order :: "('a \<Rightarrow> 'a \<Rightarrow> bool) \<Rightarrow> bool" where
  "weak_order lt \<longleftrightarrow>
     (\<forall>a b. lt a b \<longrightarrow> \<not> lt b a) \<and> (\<forall>a b c. \<not> lt a b \<longrightarrow> \<not> lt b c \<longrightarrow> \<not> lt a c)"

text \<open>The same sort on the bare list of objects.\<close>

fun sink_list :: "('a \<Rightarrow> 'a \<Rightarrow> bool) \<Rightarrow> nat \<Rightarrow> 'a list \<Rightarrow> 'a list" where
  "sink_list lt 0 xs = xs"
| "sink_list lt (Suc j) xs =
     (if lt (xs ! Suc j) (xs ! j) then sink_list lt j (xs[Suc j := xs ! j, j := xs ! Suc j]) else xs)"

fun sort_list :: "('a \<Rightarrow> 'a \<Rightarrow> bool) \<Rightarrow> nat \<Rightarrow> 'a list \<Rightarrow> 'a list" where
  "sort_list lt 0 xs = xs"
| "sort_list lt (Suc n) xs = sink_list lt n (sort_list lt n xs)"

fun ins_back :: "('a \<Rightarrow> 'a \<Rightarrow> bool) \<Rightarrow> 'a \<Rightarrow> 'a list \<Rightarrow> 'a list" where
  "ins_back lt x [] = [x]"
| "ins_back lt x (y # ys) = (if lt x y then y # ins_back lt x ys else x # y # ys)"

lemma sink_list_ins_back:
  "sink_list lt (length ys) (rev ys @ x # zs) = rev (ins_back lt x ys) @ zs"
proof (induction ys arbitrary: zs)
  case Nil
  then show ?case by simp
next
  case (Cons y ys)
  have nth: "(rev ys @ y # x # zs) ! Suc (length ys) = x" "(rev ys @ y # x # zs) ! length ys = y"
    by (simp_all add: nth_append)
  have upd: "(rev ys @ y # x # zs)[Suc (length ys) := y, length ys := x] = rev ys @ x # y # zs"
    by (simp add: list_update_append)
  show ?case by (simp add: nth upd Cons.IH)
qed

lemma mset_ins_back: "mset (ins_back lt x ys) = add_mset x (mset ys)"
  by (induction ys) auto

lemma set_ins_back: "set (ins_back lt x ys) = insert x (set ys)"
  by (metis mset_ins_back set_mset_add_mset_insert set_mset_mset)

lemma length_ins_back: "length (ins_back lt x ys) = Suc (length ys)"
  by (induction ys) auto

lemma sorted_ins_back:
  assumes "weak_order lt" and "sorted_wrt (\<lambda>a b. \<not> lt a b) ys"
  shows "sorted_wrt (\<lambda>a b. \<not> lt a b) (ins_back lt x ys)"
  using assms(2)
proof (induction ys)
  case Nil
  then show ?case by simp
next
  case (Cons y ys)
  from assms(1) have asym: "\<And>a b. lt a b \<Longrightarrow> \<not> lt b a"
    and ntrans: "\<And>a b c. \<not> lt a b \<Longrightarrow> \<not> lt b c \<Longrightarrow> \<not> lt a c"
    unfolding weak_order_def by blast+
  show ?case
    using Cons by (auto simp: set_ins_back dest: asym) (metis ntrans)
qed

lemma sort_list_prefix:
  assumes "weak_order lt" and "n \<le> length xs"
  shows "\<exists>ys. sort_list lt n xs = rev ys @ drop n xs \<and> mset ys = mset (take n xs) \<and>
              sorted_wrt (\<lambda>a b. \<not> lt a b) ys"
  using assms(2)
proof (induction n)
  case 0
  then show ?case by simp
next
  case (Suc n)
  then obtain ys where ys: "sort_list lt n xs = rev ys @ drop n xs" "mset ys = mset (take n xs)"
    "sorted_wrt (\<lambda>a b. \<not> lt a b) ys" by auto
  from ys(2) Suc.prems have len: "length ys = n"
    by (metis length_take min.absorb2 mset_eq_length Suc_leD)
  from Suc.prems have dr: "drop n xs = xs ! n # drop (Suc n) xs" by (simp add: Cons_nth_drop_Suc)
  have "sort_list lt (Suc n) xs = rev (ins_back lt (xs ! n) ys) @ drop (Suc n) xs"
    using sink_list_ins_back [of lt ys "xs ! n" "drop (Suc n) xs"] by (simp add: ys(1) dr len)
  moreover have "mset (ins_back lt (xs ! n) ys) = mset (take (Suc n) xs)"
    using Suc.prems by (simp add: mset_ins_back ys(2) take_Suc_conv_app_nth)
  ultimately show ?case using sorted_ins_back [OF assms(1) ys(3)] by blast
qed

lemma sort_list_ok:
  assumes "weak_order lt"
  shows "mset (sort_list lt (length xs) xs) = mset xs"
    and "sorted_wrt (\<lambda>a b. \<not> lt b a) (sort_list lt (length xs) xs)"
  using sort_list_prefix [OF assms order_refl, of xs] by (auto simp: sorted_wrt_rev)

text \<open>\<open>Less\<close> and \<open>Swap\<close> of a well-formed queue are comparison and exchange of list elements.\<close>

lemma q_Less_ok:
  assumes inv: "queue_inv q" and "i < q_Len q" and "j < q_Len q"
  shows "q_Less q i j = Inr (q_lessFunc q (queue_elems q ! i) (queue_elems q ! j))"
proof -
  have at: "\<exists>it. gm_get (q_items q) (q_keys q ! k) = Some it \<and> qi_obj it = queue_elems q ! k"
    if "k < q_Len q" for k
  proof -
    from that inv have "q_keys q ! k \<in> dom (gm_get (q_items q))"
      by (metis nth_mem q_Len_def queue_inv_def)
    with that show ?thesis
      using inv by (auto simp: queue_elems_map q_Len_def q_GetByKey_def)
  qed
  from at [OF assms(2)] at [OF assms(3)] assms show ?thesis
    by (auto simp: q_Less_def)
qed

lemma queue_inv_look:
  "queue_inv q \<longleftrightarrow>
     distinct (q_keys q) \<and> gm_ok (q_items q) \<and>
     (\<forall>k. k \<in> set (q_keys q) \<longleftrightarrow> q_GetByKey q k \<noteq> None) \<and>
     (\<forall>k x. q_GetByKey q k = Some x \<longrightarrow> q_keyFunc q x = k)"
  unfolding queue_inv_def q_GetByKey_def by (auto simp: set_eq_iff)

text \<open>Two queues agree when they differ in the key order and the stored indices only.\<close>

definition same_items :: "'a queue \<Rightarrow> 'a queue \<Rightarrow> bool" where
  "same_items q q' \<longleftrightarrow>
     q_GetByKey q' = q_GetByKey q \<and> q_keyFunc q' = q_keyFunc q \<and> q_lessFunc q' = q_lessFunc q \<and>
     (gm_ok (q_items q) \<longrightarrow> gm_ok (q_items q'))"

lemma same_items_refl [simp]: "same_items q q"
  by (simp add: same_items_def)

lemma same_items_trans: "same_items a b \<Longrightarrow> same_items b c \<Longrightarrow> same_items a c"
  by (auto simp: same_items_def)

lemma set_index_ok:
  "q_GetByKey d k \<noteq> None \<Longrightarrow> \<exists>d'. set_index k i d = Inr d' \<and> q_keys d' = q_keys d \<and> same_items d d'"
  by (auto simp: set_index_def q_GetByKey_def same_items_def split: option.split)

lemma same_items_inv:
  "queue_inv q \<Longrightarrow> same_items q q' \<Longrightarrow> mset (q_keys q') = mset (q_keys q) \<Longrightarrow> queue_inv q'"
  unfolding queue_inv_look same_items_def
  by (metis mset_eq_imp_distinct_iff mset_eq_setD)

lemma q_Swap_ok:
  assumes inv: "queue_inv q" and i: "i < q_Len q" and j: "j < q_Len q"
  shows "\<exists>q'. q_Swap q i j = Inr q' \<and> queue_inv q' \<and> same_items q q' \<and>
              queue_elems q' = (queue_elems q)[i := queue_elems q ! j, j := queue_elems q ! i]"
proof -
  define ks where "ks = (q_keys q)[i := q_keys q ! j, j := q_keys q ! i]"
  let ?d = "q\<lparr>q_keys := ks\<rparr>"
  from i j have len: "i < length (q_keys q)" "j < length (q_keys q)" by (simp_all add: q_Len_def)
  have ms: "mset ks = mset (q_keys q)" using len by (simp add: ks_def mset_swap)
  have look: "q_GetByKey ?d = q_GetByKey q" by (simp add: q_GetByKey_def fun_eq_iff)
  have at: "q_GetByKey q (ks ! k) \<noteq> None" if "k < length ks" for k
    using that inv ms by (metis nth_mem mset_eq_setD queue_inv_keys)
  have ki: "i < length ks" and kj: "j < length ks" using len by (simp_all add: ks_def)
  have d: "same_items q ?d" by (simp add: same_items_def look)
  obtain d1 where d1: "set_index (ks ! i) i ?d = Inr d1" "q_keys d1 = ks" "same_items ?d d1"
    using set_index_ok [of ?d "ks ! i" i] at [OF ki] look by auto
  obtain d2 where d2: "set_index (ks ! j) j d1 = Inr d2" "q_keys d2 = ks" "same_items d1 d2"
    using set_index_ok [of d1 "ks ! j" j] at [OF kj] look d1 by (auto simp: same_items_def)
  have same: "same_items q d2" using d d1(3) d2(3) by (blast intro: same_items_trans)
  have inv2: "queue_inv d2" using inv same ms by (simp add: same_items_inv d2(2))
  have "queue_elems d2 = map (\<lambda>k. the (q_GetByKey q k)) ks"
    using inv2 same by (simp add: queue_elems_map d2(2) same_items_def)
  also have "\<dots> = (queue_elems q)[i := queue_elems q ! j, j := queue_elems q ! i]"
    using len by (simp add: ks_def map_update queue_elems_map [OF inv])
  finally show ?thesis
    using i j d1(1) d2(1) inv2 same by (auto simp: q_Swap_def ks_def [symmetric] Let_def)
qed

lemma sink_left_ok:
  "queue_inv q \<Longrightarrow> j < q_Len q \<Longrightarrow>
   \<exists>q'. sink_left j q = Inr q' \<and> queue_inv q' \<and> same_items q q' \<and>
        queue_elems q' = sink_list (q_lessFunc q) j (queue_elems q)"
proof (induction j arbitrary: q)
  case 0
  then show ?case by simp
next
  case (Suc j)
  show ?case
  proof (cases "q_lessFunc q (queue_elems q ! Suc j) (queue_elems q ! j)")
    case False
    with Suc.prems show ?thesis by (simp add: q_Less_ok)
  next
    case True
    obtain q1 where q1: "q_Swap q (Suc j) j = Inr q1" "queue_inv q1" "same_items q q1"
      "queue_elems q1 = (queue_elems q)[Suc j := queue_elems q ! j, j := queue_elems q ! Suc j]"
      using q_Swap_ok [OF Suc.prems(1), of "Suc j" j] Suc.prems(2) by auto
    have "j < q_Len q1"
      using Suc.prems q1 by (metis length_list_update length_queue_elems Suc_lessD)
    from Suc.IH [OF q1(2) this] obtain q2 where "sink_left j q1 = Inr q2" "queue_inv q2"
      "same_items q1 q2" "queue_elems q2 = sink_list (q_lessFunc q1) j (queue_elems q1)" by blast
    moreover have "q_lessFunc q1 = q_lessFunc q" using q1(3) by (simp add: same_items_def)
    ultimately show ?thesis
      using True Suc.prems q1 by (auto simp: q_Less_ok intro: same_items_trans)
  qed
qed

lemma length_sink_list [simp]: "length (sink_list lt j xs) = length xs"
  by (induction lt j xs rule: sink_list.induct) auto

lemma sort_data_ok:
  "queue_inv q \<Longrightarrow> n \<le> q_Len q \<Longrightarrow>
   \<exists>q'. sort_data n q = Inr q' \<and> queue_inv q' \<and> same_items q q' \<and>
        queue_elems q' = sort_list (q_lessFunc q) n (queue_elems q)"
proof (induction n)
  case 0
  then show ?case by simp
next
  case (Suc n)
  then obtain q1 where q1: "sort_data n q = Inr q1" "queue_inv q1" "same_items q q1"
    "queue_elems q1 = sort_list (q_lessFunc q) n (queue_elems q)" by auto
  have "length (sort_list lt m xs) = length xs" for lt :: "'a \<Rightarrow> 'a \<Rightarrow> bool" and m xs
    by (induction m) auto
  then have "n < q_Len q1"
    using Suc.prems q1 by (metis Suc_le_lessD length_queue_elems)
  from sink_left_ok [OF q1(2) this] q1 show ?case
    by (auto simp: same_items_def)
qed

lemma q_Reorder_ok:
  assumes "queue_inv q"
  shows "\<exists>q'. q_Reorder q = Inr q' \<and> queue_inv q' \<and> same_items q q' \<and>
              queue_elems q' = sort_list (q_lessFunc q) (length (queue_elems q)) (queue_elems q)"
  using sort_data_ok [OF assms order_refl] by (simp add: q_Reorder_def length_queue_elems [OF assms])

lemma queue_inv_less_upd [simp]: "queue_inv (q\<lparr>q_lessFunc := lf\<rparr>) \<longleftrightarrow> queue_inv q"
  by (simp add: queue_inv_def)

lemma queue_elems_less_upd [simp]: "queue_elems (q\<lparr>q_lessFunc := lf\<rparr>) = queue_elems q"
  by (simp add: queue_elems_def q_List_def)

lemma q_New_simps [simp]:
  "q_keyFunc (q_New kf lf) = kf" "q_lessFunc (q_New kf lf) = lf" "queue_elems (q_New kf lf) = []"
  "q_GetByKey (q_New kf lf) = Map.empty" "q_keys (q_New kf lf) = []"
  by (simp_all add: q_New_def queue_elems_def q_List_def q_GetByKey_def fun_eq_iff)

lemma q_GetByKey_updates [simp]:
  "q_GetByKey (q\<lparr>q_keys := ks\<rparr>) = q_GetByKey q" "q_GetByKey (q\<lparr>q_lessFunc := lf\<rparr>) = q_GetByKey q"
  by (simp_all add: q_GetByKey_def fun_eq_iff)

lemma last_not_in_butlast: "distinct (map f xs) \<Longrightarrow> xs \<noteq> [] \<Longrightarrow> f (last xs) \<notin> set (map f (butlast xs))"
  by (cases xs rule: rev_cases) auto

section \<open>Properties\<close>

lemma queue_find_key:
  assumes "queue_inv q"
  shows "find (\<lambda>y. q_keyFunc q y = k) (queue_elems q) = q_GetByKey q k"
proof (cases "q_GetByKey q k")
  case None
  have "q_keyFunc q y \<noteq> k" if "y \<in> set (queue_elems q)" for y
    using that None assms by (auto simp: in_queue_elems)
  with None show ?thesis by (simp add: find_None_iff)
next
  case (Some y)
  with assms have "y \<in> set (queue_elems q)" "q_keyFunc q y = k"
    by (auto simp: in_queue_elems dest: queue_inv_key)
  then obtain z where z: "find (\<lambda>y. q_keyFunc q y = k) (queue_elems q) = Some z"
    by (metis (mono_tags, lifting) find_None_iff not_None_eq)
  then have "z \<in> set (queue_elems q)" "q_keyFunc q z = k"
    by (auto simp: find_Some_iff in_set_conv_nth)
  with assms Some z show ?thesis by (simp add: in_queue_elems)
qed

lemma queue_take_last:
  assumes "queue_inv q"
  shows "if queue_elems q = [] then q_Pop q = Inl IndexOutOfRange \<and> q_Top q = Inl IndexOutOfRange
    else \<exists>q'. q_Pop q = Inr (Some (last (queue_elems q)), q') \<and> queue_inv q' \<and>
           queue_elems q' = butlast (queue_elems q)"
proof (cases "queue_elems q = []")
  case True
  then have "q_keys q = []" using queue_nonempty [OF assms] by simp
  with True show ?thesis by (simp add: q_Pop_def q_pop_def q_Top_def q_top_def)
next
  case False
  have "al_del (q_keyFunc q) (last (q_keys q)) (queue_elems q) = butlast (queue_elems q)"
    using assms False by (simp add: last_key al_del_last queue_elems_distinct)
  with False assms show ?thesis by (auto simp: q_Pop_ok queue_inv_delete elems_delete)
qed

text \<open>\<open>Top\<close> is not a read: on a non-empty queue it returns the last object (not the
  head, as the comment says) and drops its key from the order while the object stays in the map,
  so that \<open>List\<close> no longer shows it, \<open>PushIfNotPresent\<close> refuses to insert it again and the
  invariant is broken, until \<open>Delete\<close> of that object puts the queue right.\<close>

theorem queue_top_out_of_step:
  assumes "queue_inv q" and "queue_elems q \<noteq> []"
  shows "\<exists>x q'. q_Top q = Inr (Some x, q') \<and> x = last (queue_elems q) \<and> \<not> queue_inv q' \<and>
    q_List q' = Inr (butlast (queue_elems q)) \<and> q_GetByKey q' = q_GetByKey q \<and> q_GetByKey q' (q_keyFunc q x) = Some x \<and>
    q_PushIfNotPresent x q' = (False, q') \<and>
    queue_inv (snd (q_Delete x q')) \<and> q_List (snd (q_Delete x q')) = Inr (butlast (queue_elems q))"
proof -
  let ?x = "last (queue_elems q)"
  let ?q' = "q\<lparr>q_keys := butlast (q_keys q)\<rparr>"
  let ?d = "snd (q_delete (q_keyFunc q ?x) q)"
  note lk = last_key [OF assms]
  have top: "q_Top q = Inr (Some ?x, ?q')" using assms by (rule q_Top_ok)
  have look: "q_GetByKey q (q_keyFunc q ?x) = Some ?x"
    using assms by (simp add: in_queue_elems [symmetric])
  have keys: "q_keys ?q' = map (q_keyFunc q) (butlast (queue_elems q))"
    using assms by (simp add: queue_keys_elems map_butlast)
  have dist: "distinct (map (q_keyFunc q) (queue_elems q))" using assms by (simp add: queue_elems_distinct)
  have "q_keyFunc q ?x \<notin> set (q_keys ?q')"
    unfolding keys by (rule last_not_in_butlast [OF dist assms(2)])
  with look queue_inv_keys [of ?q' "q_keyFunc q ?x"] have not_inv: "\<not> queue_inv ?q'"
    unfolding q_GetByKey_updates by blast
  have "\<forall>k \<in> set (q_keys ?q'). gm_get (q_items ?q') k \<noteq> None"
    using assms(1) by (auto simp: queue_inv_def dest: in_set_butlastD)
  then have "q_List ?q' = Inr (map (\<lambda>k. the (q_GetByKey q k)) (q_keys ?q'))"
    by (auto simp: q_List_def list_keys_ok q_GetByKey_def)
  also have "\<dots> = Inr (butlast (queue_elems q))"
    unfolding keys using assms(1)
    by (auto simp: in_queue_elems dest: in_set_butlastD intro!: map_idI)
  finally have list: "q_List ?q' = Inr (butlast (queue_elems q))" .
  have del: "snd (q_Delete ?x ?q') = ?d"
    using q_Top_delete [OF assms] by (simp add: q_Delete_def lk [symmetric])
  have push: "q_PushIfNotPresent ?x ?q' = (False, ?q')"
    using look by (auto simp: q_PushIfNotPresent_def q_GetByKey_def Let_def split: option.split)
  have "q_List ?d = Inr (butlast (queue_elems q))"
    using assms dist by (simp add: q_List_ok queue_inv_delete elems_delete al_del_last)
  with top look not_inv list del push queue_inv_delete [OF assms(1)] show ?thesis
    by (intro exI [of _ ?x] exI [of _ ?q']) simp
qed

lemma queue_top_out_of_step_witness:
  "\<exists>q'. q_Top (q_PushOrUpdate (7::nat) (q_New fmt_uint (<))) = Inr (Some 7, q') \<and> \<not> queue_inv q'"
proof -
  let ?q = "q_PushOrUpdate (7::nat) (q_New fmt_uint (<))"
  have inv: "queue_inv ?q" by (simp add: queue_inv_PushOrUpdate)
  have el: "queue_elems ?q = [7]" by (simp add: elems_PushOrUpdate al_put_def)
  show ?thesis using queue_top_out_of_step [OF inv] by (simp add: el) blast
qed

text \<open>\<open>ReorderWithFunc\<close> with a strict weak order never panics, keeps exactly the stored
  objects and their keys, and leaves them listed in ascending order.\<close>

theorem queue_reorder_sorted:
  assumes "queue_inv q" and "weak_order lf"
  shows "\<exists>q' xs. q_ReorderWithFunc lf q = Inr q' \<and> queue_inv q' \<and> q_List q' = Inr xs \<and>
    mset xs = mset (queue_elems q) \<and> sorted_wrt (\<lambda>a b. \<not> lf b a) xs \<and>
    q_GetByKey q' = q_GetByKey q"
  using q_Reorder_ok [of "q\<lparr>q_lessFunc := lf\<rparr>"] sort_list_ok [OF assms(2), of "queue_elems q"] assms(1)
  by (auto simp: q_ReorderWithFunc_def q_List_ok same_items_def)

lemma queue_reorder_sorted_witness:
  "\<exists>q' xs. q_ReorderWithFunc (<) (q_PushOrUpdate (7::nat) (q_New fmt_uint (<))) = Inr q' \<and>
           q_List q' = Inr xs \<and> sorted xs"
proof -
  have "queue_inv (q_PushOrUpdate (7::nat) (q_New fmt_uint (<)))"
    by (simp add: queue_inv_PushOrUpdate)
  moreover have "weak_order ((<) :: nat \<Rightarrow> nat \<Rightarrow> bool)" by (auto simp: weak_order_def)
  ultimately show ?thesis using queue_reorder_sorted by (fastforce simp: linorder_not_less)
qed

text \<open>\<open>Reorder\<close> sorts by the order the queue has.\<close>

lemma queue_reorder_own:
  assumes "queue_inv q" and "weak_order (q_lessFunc q)"
  shows "\<exists>q' xs. q_Reorder q = Inr q' \<and> queue_inv q' \<and> q_List q' = Inr xs \<and> mset xs = mset (queue_elems q) \<and>
    sorted_wrt (\<lambda>a b. \<not> q_lessFunc q b a) xs"
  using q_Reorder_ok [OF assms(1)] sort_list_ok [OF assms(2), of "queue_elems q"] by (auto simp: q_List_ok)

text \<open>Claim C34. The queue is the list of its objects in order, with one object per key, for every queue whose
  item map and key order agree.  A new queue is empty; \<open>PushOrUpdate\<close> replaces the object of the same key in
  place or appends; \<open>PushIfNotPresent\<close> appends only a free key and says so; \<open>Delete\<close> and \<open>DeleteByKey\<close>
  return the stored object, if any, and filter its key out; \<open>Pop\<close> removes and returns the last object (the
  comment says the head) and panics on an empty queue; \<open>Get\<close>, \<open>GetByKey\<close>, \<open>List\<close> and \<open>Len\<close> read the list;
  \<open>Reorder\<close> and \<open>ReorderWithFunc\<close>, by a strict weak order, sort it.  Each of them keeps the agreement.  \<open>Top\<close>
  does not: it panics on an empty queue, and on any other it returns the last object and takes it off the list while
  lookups still find it.\<close>

theorem queue_refines_list:
  assumes "queue_inv q"
  shows "queue_inv (q_New kf lf) \<and> queue_elems (q_New kf lf) = [] \<and>
    queue_inv (q_PushOrUpdate x q) \<and>
    queue_elems (q_PushOrUpdate x q) = al_put (q_keyFunc q) x (queue_elems q) \<and>
    queue_inv (snd (q_PushIfNotPresent x q)) \<and>
    fst (q_PushIfNotPresent x q) = (q_keyFunc q x \<notin> q_keyFunc q ` set (queue_elems q)) \<and>
    queue_elems (snd (q_PushIfNotPresent x q)) = al_put_new (q_keyFunc q) x (queue_elems q) \<and>
    queue_inv (snd (q_DeleteByKey k q)) \<and>
    fst (q_DeleteByKey k q) = find (\<lambda>y. q_keyFunc q y = k) (queue_elems q) \<and>
    queue_elems (snd (q_DeleteByKey k q)) = al_del (q_keyFunc q) k (queue_elems q) \<and>
    q_Delete x q = q_DeleteByKey (q_keyFunc q x) q \<and>
    q_GetByKey q k = find (\<lambda>y. q_keyFunc q y = k) (queue_elems q) \<and> q_Get q x = q_GetByKey q (q_keyFunc q x) \<and>
    q_List q = Inr (queue_elems q) \<and> q_Len q = length (queue_elems q) \<and>
    (if queue_elems q = [] then q_Pop q = Inl IndexOutOfRange \<and> q_Top q = Inl IndexOutOfRange
     else (\<exists>q'. q_Pop q = Inr (Some (last (queue_elems q)), q') \<and> queue_inv q' \<and>
             queue_elems q' = butlast (queue_elems q)) \<and>
          (\<exists>q'. q_Top q = Inr (Some (last (queue_elems q)), q') \<and> \<not> queue_inv q' \<and>
             q_List q' = Inr (butlast (queue_elems q)) \<and> q_GetByKey q' = q_GetByKey q)) \<and>
    (weak_order (q_lessFunc q) \<longrightarrow>
       (\<exists>q' xs. q_Reorder q = Inr q' \<and> queue_inv q' \<and> q_List q' = Inr xs \<and> mset xs = mset (queue_elems q) \<and>
          sorted_wrt (\<lambda>a b. \<not> q_lessFunc q b a) xs)) \<and>
    (weak_order lf \<longrightarrow>
       (\<exists>q' xs. q_ReorderWithFunc lf q = Inr q' \<and> queue_inv q' \<and> q_List q' = Inr xs \<and> mset xs = mset (queue_elems q) \<and>
          sorted_wrt (\<lambda>a b. \<not> lf b a) xs))"
proof -
  have puts: "queue_inv (q_PushOrUpdate x q)"
    "queue_elems (q_PushOrUpdate x q) = al_put (q_keyFunc q) x (queue_elems q)"
    "queue_inv (snd (q_PushIfNotPresent x q))"
    "fst (q_PushIfNotPresent x q) = (q_keyFunc q x \<notin> q_keyFunc q ` set (queue_elems q))"
    "queue_elems (snd (q_PushIfNotPresent x q)) = al_put_new (q_keyFunc q) x (queue_elems q)"
    using assms by (auto simp: queue_inv_PushOrUpdate elems_PushOrUpdate queue_inv_PushIfNotPresent
        elems_PushIfNotPresent al_put_new_def al_put_def)
  have dels: "queue_inv (snd (q_DeleteByKey k q))"
    "fst (q_DeleteByKey k q) = find (\<lambda>y. q_keyFunc q y = k) (queue_elems q)"
    "queue_elems (snd (q_DeleteByKey k q)) = al_del (q_keyFunc q) k (queue_elems q)"
    "q_Delete x q = q_DeleteByKey (q_keyFunc q x) q"
    using assms by (simp_all add: q_DeleteByKey_def q_Delete_def queue_inv_delete elems_delete delete_result queue_find_key)
  have reads: "q_GetByKey q k = find (\<lambda>y. q_keyFunc q y = k) (queue_elems q)" "q_Get q x = q_GetByKey q (q_keyFunc q x)"
    "q_List q = Inr (queue_elems q)" "q_Len q = length (queue_elems q)"
    using assms by (simp_all add: queue_find_key q_Get_def q_List_ok length_queue_elems)
  have takes: "if queue_elems q = [] then q_Pop q = Inl IndexOutOfRange \<and> q_Top q = Inl IndexOutOfRange
     else (\<exists>q'. q_Pop q = Inr (Some (last (queue_elems q)), q') \<and> queue_inv q' \<and>
             queue_elems q' = butlast (queue_elems q)) \<and>
          (\<exists>q'. q_Top q = Inr (Some (last (queue_elems q)), q') \<and> \<not> queue_inv q' \<and>
             q_List q' = Inr (butlast (queue_elems q)) \<and> q_GetByKey q' = q_GetByKey q)"
    using queue_take_last [OF assms] queue_top_out_of_step [OF assms] by (auto split: if_splits)
  have sorts: "weak_order lf \<Longrightarrow> \<exists>q' xs. q_ReorderWithFunc lf q = Inr q' \<and> queue_inv q' \<and> q_List q' = Inr xs \<and>
      mset xs = mset (queue_elems q) \<and> sorted_wrt (\<lambda>a b. \<not> lf b a) xs"
    using queue_reorder_sorted [OF assms, of lf] by blast
  show ?thesis
    by (intro conjI impI, simp, simp, (fact puts dels reads takes queue_reorder_own [OF assms] sorts)+)
qed

lemma queue_refines_list_witness:
  "queue_elems (q_PushOrUpdate (8::nat) (q_PushOrUpdate 7 (q_New fmt_uint (<)))) = [7, 8]"
proof -
  let ?q = "q_PushOrUpdate (7::nat) (q_New fmt_uint (<))"
  have "queue_inv ?q" by (simp add: queue_inv_PushOrUpdate)
  from queue_refines_list [OF this, of fmt_uint "(<)" 8 "[]"]
  have "queue_elems (q_PushOrUpdate 8 ?q) = al_put (q_keyFunc ?q) 8 (queue_elems ?q)" by (simp only:)
  then show ?thesis
    by (simp add: al_put_def elems_PushOrUpdate fmt_uint_inj)
qed

end
