(* ===== verification/Go_Heap.thy ===== *)
theory Go_Heap imports Go_Queue begin

text \<open>
  \<open>pkg/util/heap/heap.go\<close>: the priority queue keyed by strings, over \<open>container/heap\<close>.

  The struct \<open>data\<close> has the fields of the queue's, so the record of \<open>Go_Queue\<close> serves for both, and
  \<open>Less\<close>, \<open>Swap\<close> and \<open>Len\<close> are the same code.  The functions of \<open>container/heap\<close> are written out over
  them; a panic of an index or a nil map entry is a value.  The proofs go through the list of
  objects in key order, on which the functions become \<open>up_l\<close> and \<open>down_l\<close>.
\<close>

section \<open>Operations\<close>

type_synonym 'a heap = "'a queue"

definition h_Len :: "'a heap \<Rightarrow> nat" where
  "h_Len h = q_Len h"

definition h_Less :: "'a heap \<Rightarrow> nat \<Rightarrow> nat \<Rightarrow> bool go" where
  "h_Less h i j = q_Less h i j"

definition h_Swap :: "'a heap \<Rightarrow> nat \<Rightarrow> nat \<Rightarrow> 'a heap go" where
  "h_Swap h i j = q_Swap h i j"

definition h_push :: "string \<Rightarrow> 'a \<Rightarrow> 'a heap \<Rightarrow> 'a heap" where
  "h_push k x h =
     h\<lparr>q_items := gm_put k \<lparr>qi_obj = x, qi_index = length (q_keys h)\<rparr> (q_items h), q_keys := q_keys h @ [k]\<rparr>"

definition h_pop :: "'a heap \<Rightarrow> ('a option \<times> 'a heap) go" where
  "h_pop h =
     (if q_keys h = [] then Inl IndexOutOfRange
      else let key = last (q_keys h); h1 = h\<lparr>q_keys := butlast (q_keys h)\<rparr> in
           case gm_get (q_items h1) key of
             None \<Rightarrow> Inr (None, h1)
           | Some item \<Rightarrow> Inr (Some (qi_obj item), h1\<lparr>q_items := gm_del key (q_items h1)\<rparr>))"

text \<open>\<open>container/heap\<close>.  \<open>heap_down\<close> also returns the index where it stops.\<close>

fun heap_up :: "nat \<Rightarrow> 'a heap \<Rightarrow> 'a heap go" where
  "heap_up j h =
     (if j = 0 then Inr h
      else (let i = (j - 1) div 2 in
            go_bind (h_Less h j i) (\<lambda>b. if b then go_bind (h_Swap h i j) (\<lambda>h1. heap_up i h1) else Inr h)))"

function heap_down :: "nat \<Rightarrow> nat \<Rightarrow> 'a heap \<Rightarrow> (nat \<times> 'a heap) go" where
  "heap_down i n h =
     (if n \<le> 2 * i + 1 then Inr (i, h)
      else
        go_bind (if 2 * i + 2 < n then h_Less h (2 * i + 2) (2 * i + 1) else Inr False)
          (\<lambda>b2. let j = (if b2 then 2 * i + 2 else 2 * i + 1) in
            go_bind (h_Less h j i)
              (\<lambda>b. if b then go_bind (h_Swap h i j) (\<lambda>h1. heap_down j n h1) else Inr (i, h))))"
  by pat_completeness auto
termination by (relation "measure (\<lambda>(i, n, h). n - i)") auto

declare heap_up.simps [simp del] heap_down.simps [simp del]

definition heap_Push :: "string \<Rightarrow> 'a \<Rightarrow> 'a heap \<Rightarrow> 'a heap go" where
  "heap_Push k x h = (let h1 = h_push k x h in heap_up (h_Len h1 - 1) h1)"

definition heap_Fix :: "nat \<Rightarrow> 'a heap \<Rightarrow> 'a heap go" where
  "heap_Fix i h = go_bind (heap_down i (h_Len h) h) (\<lambda>(k, h1). if i < k then Inr h1 else heap_up i h1)"

definition heap_Pop :: "'a heap \<Rightarrow> ('a option \<times> 'a heap) go" where
  "heap_Pop h =
     (if h_Len h = 0 then Inl IndexOutOfRange
      else let n = h_Len h - 1 in
           go_bind (h_Swap h 0 n) (\<lambda>h1. go_bind (heap_down 0 n h1) (\<lambda>(k, h2). h_pop h2)))"

definition heap_Remove :: "nat \<Rightarrow> 'a heap \<Rightarrow> ('a option \<times> 'a heap) go" where
  "heap_Remove i h =
     (if h_Len h = 0 then Inl IndexOutOfRange
      else let n = h_Len h - 1 in
           if n = i then h_pop h
           else go_bind (h_Swap h i n)
                  (\<lambda>h1. go_bind (heap_down i n h1)
                    (\<lambda>(k, h2). if i < k then h_pop h2 else go_bind (heap_up i h2) h_pop)))"

text \<open>The exported operations.\<close>

definition h_New :: "('a \<Rightarrow> string) \<Rightarrow> ('a \<Rightarrow> 'a \<Rightarrow> bool) \<Rightarrow> 'a heap" where
  "h_New keyFn lessFn = \<lparr>q_items = [], q_keys = [], q_keyFunc = keyFn, q_lessFunc = lessFn\<rparr>"

definition h_PushOrUpdate :: "'a \<Rightarrow> 'a heap \<Rightarrow> 'a heap go" where
  "h_PushOrUpdate x h =
     (let key = q_keyFunc h x in
      case gm_get (q_items h) key of
        Some it \<Rightarrow> heap_Fix (qi_index it) (h\<lparr>q_items := gm_put key (it\<lparr>qi_obj := x\<rparr>) (q_items h)\<rparr>)
      | None \<Rightarrow> heap_Push key x h)"

definition h_PushIfNotPresent :: "'a \<Rightarrow> 'a heap \<Rightarrow> (bool \<times> 'a heap) go" where
  "h_PushIfNotPresent x h =
     (let key = q_keyFunc h x in
      case gm_get (q_items h) key of
        Some it \<Rightarrow> Inr (False, h)
      | None \<Rightarrow> go_bind (heap_Push key x h) (\<lambda>h1. Inr (True, h1)))"

definition h_Delete :: "string \<Rightarrow> 'a heap \<Rightarrow> 'a heap go" where
  "h_Delete key h =
     (case gm_get (q_items h) key of
        None \<Rightarrow> Inr h
      | Some it \<Rightarrow> go_bind (heap_Remove (qi_index it) h) (\<lambda>(x, h1). Inr h1))"

definition h_Pop :: "'a heap \<Rightarrow> ('a option \<times> 'a heap) go" where
  "h_Pop h = heap_Pop h"

definition h_GetByKey :: "'a heap \<Rightarrow> string \<Rightarrow> 'a option" where
  "h_GetByKey h key = map_option qi_obj (gm_get (q_items h) key)"

definition h_Get :: "'a heap \<Rightarrow> 'a \<Rightarrow> 'a option" where
  "h_Get h x = h_GetByKey h (q_keyFunc h x)"

definition h_List :: "'a heap \<Rightarrow> 'a list" where
  "h_List h = map (qi_obj \<circ> snd) (q_items h)"

section \<open>The list of objects\<close>

fun up_l :: "('a \<Rightarrow> 'a \<Rightarrow> bool) \<Rightarrow> nat \<Rightarrow> 'a list \<Rightarrow> 'a list" where
  "up_l lf j xs =
     (if j = 0 then xs
      else if lf (xs ! j) (xs ! ((j - 1) div 2))
           then up_l lf ((j - 1) div 2) (xs[(j - 1) div 2 := xs ! j, j := xs ! ((j - 1) div 2)])
           else xs)"

definition min_child :: "('a \<Rightarrow> 'a \<Rightarrow> bool) \<Rightarrow> nat \<Rightarrow> nat \<Rightarrow> 'a list \<Rightarrow> nat" where
  "min_child lf i n xs =
     (if 2 * i + 2 < n \<and> lf (xs ! (2 * i + 2)) (xs ! (2 * i + 1)) then 2 * i + 2 else 2 * i + 1)"

function down_l :: "('a \<Rightarrow> 'a \<Rightarrow> bool) \<Rightarrow> nat \<Rightarrow> nat \<Rightarrow> 'a list \<Rightarrow> nat \<times> 'a list" where
  "down_l lf i n xs =
     (if n \<le> 2 * i + 1 then (i, xs)
      else let j = min_child lf i n xs in
           if lf (xs ! j) (xs ! i) then down_l lf j n (xs[i := xs ! j, j := xs ! i]) else (i, xs))"
  by pat_completeness auto
termination by (relation "measure (\<lambda>(lf, i, n, xs). n - i)") (auto simp: min_child_def)

declare up_l.simps [simp del] down_l.simps [simp del]

lemma down_l_stop: "n \<le> 2 * i + 1 \<Longrightarrow> down_l lf i n xs = (i, xs)"
  by (simp add: down_l.simps)

lemma up_l_mset: "j < length xs \<Longrightarrow> mset (up_l lf j xs) = mset xs"
proof (induction lf j xs rule: up_l.induct)
  case (1 lf j xs)
  then show ?case by (subst up_l.simps) (auto simp: mset_swap)
qed

lemma min_child_less: "\<not> n \<le> 2 * i + 1 \<Longrightarrow> min_child lf i n xs < n"
  by (auto simp: min_child_def)

lemma min_child_gt: "i < min_child lf i n xs"
  by (auto simp: min_child_def)

lemma down_l_keeps:
  "n \<le> length xs \<Longrightarrow> down_l lf i n xs = (k, ys) \<Longrightarrow>
   mset ys = mset xs \<and> (\<forall>m. n \<le> m \<longrightarrow> ys ! m = xs ! m) \<and> i \<le> k"
proof (induction lf i n xs arbitrary: k ys rule: down_l.induct)
  case (1 lf i n xs)
  let ?j = "min_child lf i n xs"
  show ?case
  proof (cases "n \<le> 2 * i + 1 \<or> \<not> lf (xs ! ?j) (xs ! i)")
    case True
    with 1(3) show ?thesis by (auto simp: down_l.simps [of lf i n xs] Let_def split: if_splits)
  next
    case False
    let ?ys = "xs[i := xs ! ?j, ?j := xs ! i]"
    have j: "?j < n" "i < ?j" using False by (auto intro: min_child_less min_child_gt)
    have r: "down_l lf ?j n ?ys = (k, ys)" using False 1(3) by (simp add: down_l.simps [of lf i n xs] Let_def)
    from 1(1) [OF _ refl _ _ r] False 1(2) have "mset ys = mset ?ys \<and> (\<forall>m. n \<le> m \<longrightarrow> ys ! m = ?ys ! m) \<and> ?j \<le> k"
      by simp
    moreover have "mset ?ys = mset xs" using j 1(2) by (simp add: mset_swap)
    ultimately show ?thesis using j by auto
  qed
qed

section \<open>Heap order\<close>

abbreviation par :: "nat \<Rightarrow> nat" where "par k \<equiv> (k - 1) div 2"

definition heap_l :: "('a \<Rightarrow> 'a \<Rightarrow> bool) \<Rightarrow> nat \<Rightarrow> 'a list \<Rightarrow> bool" where
  "heap_l lf n xs \<longleftrightarrow> (\<forall>k. 0 < k \<and> k < n \<longrightarrow> \<not> lf (xs ! k) (xs ! par k))"

lemma weak_orderD:
  assumes "weak_order lf"
  shows "lf a b \<Longrightarrow> \<not> lf b a" and "\<not> lf a b \<Longrightarrow> \<not> lf b c \<Longrightarrow> \<not> lf a c"
  using assms unfolding weak_order_def by blast+

text \<open>Ordered except at \<open>j\<close>, and below \<open>j\<close> nothing less than the parent of \<open>j\<close>.\<close>

definition up_ready :: "('a \<Rightarrow> 'a \<Rightarrow> bool) \<Rightarrow> nat \<Rightarrow> nat \<Rightarrow> 'a list \<Rightarrow> bool" where
  "up_ready lf j n xs \<longleftrightarrow>
     (\<forall>k. 0 < k \<and> k < n \<and> k \<noteq> j \<longrightarrow> \<not> lf (xs ! k) (xs ! par k)) \<and>
     (\<forall>k. 0 < k \<and> k < n \<and> par k = j \<and> 0 < j \<longrightarrow> \<not> lf (xs ! k) (xs ! par j))"

lemma up_ready_step:
  assumes wo: "weak_order lf" and n: "n \<le> length xs" and j: "0 < j" "j < n"
    and ready: "up_ready lf j n xs" and less: "lf (xs ! j) (xs ! par j)"
  shows "up_ready lf (par j) n (xs[par j := xs ! j, j := xs ! par j])" (is "up_ready _ ?i _ ?ys")
proof -
  have i: "?i < j" using j by auto
  have A: "\<not> lf (xs ! k) (xs ! par k)" if "0 < k" "k < n" "k \<noteq> j" for k
    using ready that unfolding up_ready_def by blast
  have B: "\<not> lf (xs ! k) (xs ! ?i)" if "0 < k" "k < n" "par k = j" for k
    using ready that j(1) unfolding up_ready_def by blast
  have yi: "?ys ! ?i = xs ! j" and yj: "?ys ! j = xs ! ?i" using i j n by simp_all
  have yk: "?ys ! k = xs ! k" if "k \<noteq> ?i" "k \<noteq> j" for k using that by simp
  have gt: "\<not> lf (xs ! ?i) (xs ! j)" by (rule weak_orderD(1) [OF wo less])
  have "\<not> lf (?ys ! k) (?ys ! par k)" if "0 < k" "k < n" "k \<noteq> ?i" for k
  proof -
    consider "k = j" | "k \<noteq> j" "par k = ?i" | "k \<noteq> j" "par k = j" | "k \<noteq> j" "par k \<noteq> ?i" "par k \<noteq> j" by blast
    then show ?thesis
    proof cases
      case 1
      then show ?thesis using gt yi yj by simp
    next
      case 2
      then have "\<not> lf (xs ! k) (xs ! ?i)" using A [OF that(1,2)] by simp
      then have "\<not> lf (xs ! k) (xs ! j)" using gt by (rule weak_orderD(2) [OF wo])
      then show ?thesis unfolding 2(2) yi yk [OF that(3) 2(1)] .
    next
      case 3
      show ?thesis unfolding 3(2) yj yk [OF that(3) 3(1)] by (rule B [OF that(1,2) 3(2)])
    next
      case 4
      show ?thesis unfolding yk [OF 4(2,3)] yk [OF that(3) 4(1)] by (rule A [OF that(1,2) 4(1)])
    qed
  qed
  moreover have "\<not> lf (?ys ! k) (?ys ! par ?i)" if "0 < k" "k < n" "par k = ?i" "0 < ?i" for k
  proof -
    have pi: "?ys ! par ?i = xs ! par ?i" using that(4) i by (intro yk) auto
    have ii: "\<not> lf (xs ! ?i) (xs ! par ?i)" using A [of ?i] that(4) i j by auto
    show ?thesis
    proof (cases "k = j")
      case True
      then show ?thesis using pi ii yj by simp
    next
      case False
      then have "\<not> lf (xs ! k) (xs ! ?i)" using A [OF that(1,2)] that(3) by simp
      then have "\<not> lf (xs ! k) (xs ! par ?i)" using ii by (rule weak_orderD(2) [OF wo])
      moreover have "k \<noteq> ?i" using that(3,4) by auto
      ultimately show ?thesis unfolding pi yk [OF \<open>k \<noteq> ?i\<close> False] by blast
    qed
  qed
  ultimately show ?thesis unfolding up_ready_def by blast
qed

lemma up_spec:
  "weak_order lf \<Longrightarrow> n \<le> length xs \<Longrightarrow> j < n \<Longrightarrow> up_ready lf j n xs \<Longrightarrow> heap_l lf n (up_l lf j xs)"
proof (induction lf j xs rule: up_l.induct)
  case (1 lf j xs)
  show ?case
  proof (cases "0 < j \<and> lf (xs ! j) (xs ! par j)")
    case True
    let ?ys = "xs[par j := xs ! j, j := xs ! par j]"
    have "up_ready lf (par j) n ?ys" using 1(2-5) True by (intro up_ready_step) auto
    moreover have "par j < n" using 1(4) True by auto
    ultimately have "heap_l lf n (up_l lf (par j) ?ys)" using 1(1) True 1(2,3) by simp
    then show ?thesis using True by (simp add: up_l.simps [of lf j xs])
  next
    case False
    then have "up_l lf j xs = xs" by (auto simp: up_l.simps [of lf j xs])
    moreover have "heap_l lf n xs"
      using 1(5) False unfolding heap_l_def up_ready_def by metis
    ultimately show ?thesis by simp
  qed
qed

text \<open>Ordered except at \<open>i\<close> and its children, which are not less than the parent of \<open>i\<close>.\<close>

definition down_ready :: "('a \<Rightarrow> 'a \<Rightarrow> bool) \<Rightarrow> nat \<Rightarrow> nat \<Rightarrow> 'a list \<Rightarrow> bool" where
  "down_ready lf i n xs \<longleftrightarrow>
     (\<forall>k. 0 < k \<and> k < n \<and> par k \<noteq> i \<and> k \<noteq> i \<longrightarrow> \<not> lf (xs ! k) (xs ! par k)) \<and>
     (\<forall>k. 0 < k \<and> k < n \<and> par k = i \<and> 0 < i \<longrightarrow> \<not> lf (xs ! k) (xs ! par i))"

lemma par_child: "0 < c \<Longrightarrow> par c = i \<Longrightarrow> c = 2 * i + 1 \<or> c = 2 * i + 2"
  by presburger

lemma par_min_child: "par (min_child lf i n xs) = i"
  by (cases "2 * i + 2 < n \<and> lf (xs ! (2 * i + 2)) (xs ! (2 * i + 1))") (simp_all add: min_child_def)

lemma min_child_min:
  assumes "weak_order lf" and "0 < c" and "c < n" and "par c = i"
  shows "\<not> lf (xs ! c) (xs ! min_child lf i n xs)"
  using par_child [OF assms(2,4)] assms(3) weak_orderD(1) [OF assms(1)] unfolding min_child_def by auto

lemma down_ready_step:
  assumes wo: "weak_order lf" and n: "n \<le> length xs" and j: "j = min_child lf i n xs" "j < n"
    and ready: "down_ready lf i n xs" and less: "lf (xs ! j) (xs ! i)"
  defines "ys \<equiv> xs[i := xs ! j, j := xs ! i]"
  shows "down_ready lf j n ys" and "\<not> lf (ys ! j) (ys ! par j)"
proof -
  have i: "i < j" and pj: "par j = i" unfolding j(1) by (rule min_child_gt, rule par_min_child)
  have A: "\<not> lf (xs ! k) (xs ! par k)" if "0 < k" "k < n" "par k \<noteq> i" "k \<noteq> i" for k
    using ready that unfolding down_ready_def by blast
  have B: "\<not> lf (xs ! k) (xs ! par i)" if "0 < k" "k < n" "par k = i" "0 < i" for k
    using ready that unfolding down_ready_def by blast
  have yi: "ys ! i = xs ! j" and yj: "ys ! j = xs ! i" using i j n by (simp_all add: ys_def)
  have yk: "ys ! k = xs ! k" if "k \<noteq> i" "k \<noteq> j" for k using that by (simp add: ys_def)
  show "\<not> lf (ys ! j) (ys ! par j)" unfolding pj yi yj by (rule weak_orderD(1) [OF wo less])
  have "\<not> lf (ys ! k) (ys ! par k)" if "0 < k" "k < n" "par k \<noteq> j" "k \<noteq> j" for k
  proof -
    consider "k = i" | "k \<noteq> i" "par k = i" | "k \<noteq> i" "par k \<noteq> i" by blast
    then show ?thesis
    proof cases
      case 1
      have "par i \<noteq> i" "par i \<noteq> j" using that(1) 1 i by auto
      with B [of j] 1 that pj j(2) i show ?thesis by (simp add: yi yk)
    next
      case 2
      have "\<not> lf (xs ! k) (xs ! j)" unfolding j(1) by (rule min_child_min [OF wo that(1,2) 2(2)])
      then show ?thesis unfolding 2(2) yi yk [OF 2(1) that(4)] .
    next
      case 3
      show ?thesis unfolding yk [OF 3(2) that(3)] yk [OF 3(1) that(4)] by (rule A [OF that(1,2) 3(2,1)])
    qed
  qed
  moreover have "\<not> lf (ys ! k) (ys ! par j)" if "0 < k" "k < n" "par k = j" for k
  proof -
    have "k \<noteq> i" "k \<noteq> j" using that(1,3) i by auto
    moreover have "par k \<noteq> i" using that(3) i by auto
    ultimately show ?thesis using A [OF that(1,2)] that(3) unfolding pj yi yk [OF \<open>k \<noteq> i\<close> \<open>k \<noteq> j\<close>] by auto
  qed
  ultimately show "down_ready lf j n ys" unfolding down_ready_def by blast
qed

lemma down_spec:
  "weak_order lf \<Longrightarrow> n \<le> length xs \<Longrightarrow> down_ready lf i n xs \<Longrightarrow> down_l lf i n xs = (k, ys) \<Longrightarrow>
   (k = i \<and> ys = xs \<and> (\<forall>c. 0 < c \<and> c < n \<and> par c = i \<longrightarrow> \<not> lf (xs ! c) (xs ! i))) \<or> (i < k \<and> heap_l lf n ys)"
proof (induction lf i n xs arbitrary: k ys rule: down_l.induct)
  case (1 lf i n xs)
  let ?j = "min_child lf i n xs"
  consider "n \<le> 2 * i + 1" | "\<not> n \<le> 2 * i + 1" "\<not> lf (xs ! ?j) (xs ! i)" | "\<not> n \<le> 2 * i + 1" "lf (xs ! ?j) (xs ! i)" by blast
  then show ?case
  proof cases
    case 1
    then have "k = i" "ys = xs" using "1.prems"(4) by (simp_all add: down_l_stop)
    moreover have "\<not> (0 < c \<and> c < n \<and> par c = i)" for c using 1 par_child [of c i] by auto
    ultimately show ?thesis by blast
  next
    case 2
    then have "k = i" "ys = xs" using "1.prems"(4) by (simp_all add: down_l.simps [of lf i n xs] Let_def)
    moreover have "\<not> lf (xs ! c) (xs ! i)" if "0 < c" "c < n" "par c = i" for c
      by (rule weak_orderD(2) [OF "1.prems"(1) min_child_min [OF "1.prems"(1) that] 2(2)])
    ultimately show ?thesis by blast
  next
    case 3
    let ?ys = "xs[i := xs ! ?j, ?j := xs ! i]"
    have j: "?j < n" "i < ?j" using 3 by (auto intro: min_child_less min_child_gt)
    note step = down_ready_step [OF "1.prems"(1,2) refl j(1) "1.prems"(3) 3(2)]
    have r: "down_l lf ?j n ?ys = (k, ys)" using 3 "1.prems"(4) by (simp add: down_l.simps [of lf i n xs] Let_def)
    have "(k = ?j \<and> ys = ?ys \<and> (\<forall>c. 0 < c \<and> c < n \<and> par c = ?j \<longrightarrow> \<not> lf (?ys ! c) (?ys ! ?j))) \<or> (?j < k \<and> heap_l lf n ys)"
      using "1.IH" [OF 3(1) refl 3(2) "1.prems"(1) _ step(1) r] "1.prems"(2) by simp
    then show ?thesis
    proof
      assume stop: "k = ?j \<and> ys = ?ys \<and> (\<forall>c. 0 < c \<and> c < n \<and> par c = ?j \<longrightarrow> \<not> lf (?ys ! c) (?ys ! ?j))"
      have "\<not> lf (?ys ! c) (?ys ! par c)" if "0 < c" "c < n" for c
      proof (cases "c = ?j \<or> par c = ?j")
        case True
        then show ?thesis using stop step(2) that by metis
      next
        case False
        then show ?thesis using step(1) that unfolding down_ready_def by blast
      qed
      with stop j show ?thesis unfolding heap_l_def by blast
    qed (use j in auto)
  qed
qed

lemma heap_l_root:
  assumes "weak_order lf" and "heap_l lf n xs"
  shows "i < n \<Longrightarrow> \<not> lf (xs ! i) (xs ! 0)"
proof (induction i rule: less_induct)
  case (less i)
  show ?case
  proof (cases "i = 0")
    case True
    then show ?thesis using weak_orderD(1) [OF assms(1)] by blast
  next
    case False
    then have "\<not> lf (xs ! i) (xs ! par i)" using assms(2) less.prems unfolding heap_l_def by blast
    moreover have "\<not> lf (xs ! par i) (xs ! 0)" using less.IH [of "par i"] False less.prems by auto
    ultimately show ?thesis by (rule weak_orderD(2) [OF assms(1)])
  qed
qed

text \<open>Sinking or raising a changed element restores the order of a heap.\<close>

definition fix_l :: "('a \<Rightarrow> 'a \<Rightarrow> bool) \<Rightarrow> nat \<Rightarrow> nat \<Rightarrow> 'a list \<Rightarrow> 'a list" where
  "fix_l lf i n xs = (case down_l lf i n xs of (k, ys) \<Rightarrow> if i < k then ys else up_l lf i ys)"

lemma changed_ready:
  assumes wo: "weak_order lf" and h: "heap_l lf n xs" and i: "i < n" "n \<le> length xs"
  shows "down_ready lf i n (xs[i := x])"
proof -
  have ok: "\<not> lf (xs ! k) (xs ! par k)" if "0 < k" "k < n" for k using h that unfolding heap_l_def by blast
  have grand: "\<not> lf (xs[i := x] ! k) (xs[i := x] ! par i)" if "0 < k" "k < n" "par k = i" "0 < i" for k
  proof -
    have "\<not> lf (xs ! k) (xs ! i)" using ok [OF that(1,2)] that(3) by simp
    moreover have "\<not> lf (xs ! i) (xs ! par i)" using ok [OF that(4) i(1)] .
    ultimately have "\<not> lf (xs ! k) (xs ! par i)" by (rule weak_orderD(2) [OF wo])
    moreover have "k \<noteq> i" "par i \<noteq> i" using that by auto
    ultimately show ?thesis by simp
  qed
  have "\<not> lf (xs[i := x] ! k) (xs[i := x] ! par k)" if "0 < k" "k < n" "par k \<noteq> i" "k \<noteq> i" for k
    using ok [OF that(1,2)] that(3,4) by simp
  with grand show ?thesis unfolding down_ready_def by blast
qed

lemma fix_spec:
  assumes wo: "weak_order lf" and n: "n \<le> length xs" and i: "i < n" and ready: "down_ready lf i n xs"
  shows "heap_l lf n (fix_l lf i n xs)"
proof -
  obtain k ys where d: "down_l lf i n xs = (k, ys)" by fastforce
  from down_spec [OF wo n ready d] show ?thesis
  proof
    assume stop: "k = i \<and> ys = xs \<and> (\<forall>c. 0 < c \<and> c < n \<and> par c = i \<longrightarrow> \<not> lf (xs ! c) (xs ! i))"
    then have "up_ready lf i n xs" using ready unfolding up_ready_def down_ready_def by metis
    from up_spec [OF wo n i this] stop d show ?thesis by (simp add: fix_l_def)
  qed (simp add: fix_l_def d)
qed

lemma fix_mset: "n \<le> length xs \<Longrightarrow> i < n \<Longrightarrow> mset (fix_l lf i n xs) = mset xs"
proof -
  assume a: "n \<le> length xs" "i < n"
  obtain k ys where d: "down_l lf i n xs = (k, ys)" by fastforce
  from down_l_keeps [OF a(1) d] have "mset ys = mset xs" by blast
  moreover from this have "length ys = length xs" by (rule mset_eq_length)
  ultimately show ?thesis using a d by (simp add: fix_l_def up_l_mset)
qed

section \<open>The functions on the heap refine those on the list\<close>

definition idx_ok :: "'a heap \<Rightarrow> bool" where
  "idx_ok h \<longleftrightarrow> (\<forall>i < q_Len h. \<exists>it. gm_get (q_items h) (q_keys h ! i) = Some it \<and> qi_index it = i)"

definition h_str :: "'a heap \<Rightarrow> bool" where
  "h_str h \<longleftrightarrow> queue_inv h \<and> idx_ok h"

definition h_inv :: "'a heap \<Rightarrow> bool" where
  "h_inv h \<longleftrightarrow> h_str h \<and> heap_l (q_lessFunc h) (q_Len h) (queue_elems h)"

lemma h_str_len: "h_str h \<Longrightarrow> length (queue_elems h) = q_Len h"
  by (simp add: h_str_def length_queue_elems)

lemma h_Less_ok:
  "h_str h \<Longrightarrow> i < q_Len h \<Longrightarrow> j < q_Len h \<Longrightarrow>
   h_Less h i j = Inr (q_lessFunc h (queue_elems h ! i) (queue_elems h ! j))"
  by (simp add: h_Less_def h_str_def q_Less_ok)

lemma set_index_Inr:
  "set_index k i d = Inr d' \<Longrightarrow>
   \<exists>it. gm_get (q_items d) k = Some it \<and> d' = d\<lparr>q_items := gm_put k (it\<lparr>qi_index := i\<rparr>) (q_items d)\<rparr>"
  by (auto simp: set_index_def split: option.splits)

lemma q_Swap_idx:
  assumes inv: "queue_inv h" and idx: "idx_ok h" and i: "i < q_Len h" and j: "j < q_Len h"
    and swap: "q_Swap h i j = Inr h'"
  shows "idx_ok h'"
proof -
  define ks where "ks = (q_keys h)[i := q_keys h ! j, j := q_keys h ! i]"
  have len: "i < length (q_keys h)" "j < length (q_keys h)" using i j by (simp_all add: q_Len_def)
  have "go_bind (set_index (ks ! i) i (h\<lparr>q_keys := ks\<rparr>)) (\<lambda>d1. set_index (ks ! j) j d1) = Inr h'"
    using swap i j by (simp add: q_Swap_def Let_def ks_def)
  then obtain d1 where "set_index (ks ! i) i (h\<lparr>q_keys := ks\<rparr>) = Inr d1" "set_index (ks ! j) j d1 = Inr h'"
    by (auto simp: go_bind_Inr_iff)
  from this(1,2) [THEN set_index_Inr] obtain a b where
    a: "gm_get (q_items h) (ks ! i) = Some a" and d1: "q_items d1 = gm_put (ks ! i) (a\<lparr>qi_index := i\<rparr>) (q_items h)" "q_keys d1 = ks"
    and b: "gm_get (q_items d1) (ks ! j) = Some b" and
    h': "q_items h' = gm_put (ks ! j) (b\<lparr>qi_index := j\<rparr>) (q_items d1)" "q_keys h' = ks"
    by auto
  have dist: "distinct ks" using inv len by (simp add: ks_def queue_inv_def)
  have lk: "length ks = length (q_keys h)" by (simp add: ks_def)
  have "\<exists>it. gm_get (q_items h') (ks ! m) = Some it \<and> qi_index it = m" if m: "m < length ks" for m
  proof (cases "m = i \<or> m = j")
    case True
    have "ks ! i = ks ! j \<longleftrightarrow> i = j" using dist len lk by (simp add: nth_eq_iff_index_eq)
    with True show ?thesis by (auto simp: h' d1)
  next
    case False
    have "ks ! m \<noteq> ks ! i" "ks ! m \<noteq> ks ! j" using False dist len lk m by (simp_all add: nth_eq_iff_index_eq)
    moreover have "ks ! m = q_keys h ! m" using False by (simp add: ks_def)
    ultimately show ?thesis using idx m lk unfolding idx_ok_def q_Len_def h'(1) d1(1) by simp
  qed
  then show ?thesis by (simp add: idx_ok_def q_Len_def h'(2))
qed

lemma h_Swap_ok:
  assumes "h_str h" and "i < q_Len h" and "j < q_Len h"
  shows "\<exists>h'. h_Swap h i j = Inr h' \<and> h_str h' \<and> same_items h h' \<and>
    queue_elems h' = (queue_elems h)[i := queue_elems h ! j, j := queue_elems h ! i]"
proof -
  from assms have "queue_inv h" "idx_ok h" by (simp_all add: h_str_def)
  with q_Swap_ok [OF this(1) assms(2,3)] q_Swap_idx [OF this assms(2,3)] show ?thesis
    by (auto simp: h_Swap_def h_str_def)
qed

lemma swapped_len:
  "h_str h \<Longrightarrow> h_str h' \<Longrightarrow> queue_elems h' = (queue_elems h)[i := a, j := b] \<Longrightarrow> q_Len h' = q_Len h"
  using h_str_len by (metis length_list_update)

lemma heap_up_ok:
  "h_str h \<Longrightarrow> j < q_Len h \<Longrightarrow>
   \<exists>h'. heap_up j h = Inr h' \<and> h_str h' \<and> same_items h h' \<and> queue_elems h' = up_l (q_lessFunc h) j (queue_elems h)"
proof (induction j arbitrary: h rule: less_induct)
  case (less j)
  let ?i = "(j - 1) div 2"
  show ?case
  proof (cases "0 < j \<and> q_lessFunc h (queue_elems h ! j) (queue_elems h ! ?i)")
    case False
    have i: "?i < q_Len h" using less.prems(2) by auto
    from False h_Less_ok [OF less.prems i] show ?thesis
      using less.prems by (intro exI [of _ h]) (auto simp: heap_up.simps [of j] up_l.simps [of _ j] Let_def)
  next
    case True
    then have i: "?i < q_Len h" "?i < j" using less.prems(2) by auto
    obtain h1 where h1: "h_Swap h ?i j = Inr h1" "h_str h1" "same_items h h1"
      "queue_elems h1 = (queue_elems h)[?i := queue_elems h ! j, j := queue_elems h ! ?i]"
      using h_Swap_ok [OF less.prems(1) i(1) less.prems(2)] by blast
    have "?i < q_Len h1" using swapped_len [OF less.prems(1) h1(2,4)] i by simp
    from less.IH [OF i(2) h1(2) this] obtain h2 where "heap_up ?i h1 = Inr h2" "h_str h2" "same_items h1 h2"
      "queue_elems h2 = up_l (q_lessFunc h1) ?i (queue_elems h1)" by blast
    moreover have "q_lessFunc h1 = q_lessFunc h" using h1(3) by (simp add: same_items_def)
    ultimately show ?thesis
      using True h1 h_Less_ok [OF less.prems i(1)] same_items_trans [OF h1(3)]
      by (intro exI [of _ h2]) (simp add: heap_up.simps [of j] up_l.simps [of _ j] Let_def)
  qed
qed

lemma heap_down_ok:
  "h_str h \<Longrightarrow> n \<le> q_Len h \<Longrightarrow>
   \<exists>k h'. heap_down i n h = Inr (k, h') \<and> h_str h' \<and> same_items h h' \<and>
     down_l (q_lessFunc h) i n (queue_elems h) = (k, queue_elems h')"
proof (induction "n - i" arbitrary: i h rule: less_induct)
  case less
  let ?lf = "q_lessFunc h" and ?xs = "queue_elems h"
  let ?j = "min_child ?lf i n ?xs"
  show ?case
  proof (cases "n \<le> 2 * i + 1")
    case True
    then show ?thesis using less.prems by (intro exI [of _ i] exI [of _ h]) (simp add: heap_down.simps [of i] down_l_stop)
  next
    case False
    have j: "?j < n" "i < ?j" using False by (auto intro: min_child_less min_child_gt)
    then have jl: "?j < q_Len h" "i < q_Len h" using less.prems(2) by linarith+
    have b2: "(if 2 * i + 2 < n then h_Less h (2 * i + 2) (2 * i + 1) else Inr False) =
        Inr (2 * i + 2 < n \<and> ?lf (?xs ! (2 * i + 2)) (?xs ! (2 * i + 1)))"
      using h_Less_ok [OF less.prems(1), of "2 * i + 2" "2 * i + 1"] less.prems(2) by simp
    have jj: "(if 2 * i + 2 < n \<and> ?lf (?xs ! (2 * i + 2)) (?xs ! (2 * i + 1)) then 2 * i + 2 else 2 * i + 1) = ?j"
      by (simp add: min_child_def)
    have down: "heap_down i n h = (if ?lf (?xs ! ?j) (?xs ! i)
        then go_bind (h_Swap h i ?j) (\<lambda>h1. heap_down ?j n h1) else Inr (i, h))"
      unfolding heap_down.simps [of i n h] b2 go_bind_simps Let_def jj
      using False h_Less_ok [OF less.prems(1) jl] by simp
    show ?thesis
    proof (cases "?lf (?xs ! ?j) (?xs ! i)")
      case False
      then show ?thesis
        using down \<open>\<not> n \<le> 2 * i + 1\<close> less.prems(1)
        by (intro exI [of _ i] exI [of _ h]) (simp add: down_l.simps [of ?lf i n ?xs] Let_def)
    next
      case True
      obtain h1 where h1: "h_Swap h i ?j = Inr h1" "h_str h1" "same_items h h1"
        "queue_elems h1 = ?xs[i := ?xs ! ?j, ?j := ?xs ! i]"
        using h_Swap_ok [OF less.prems(1) jl(2,1)] by blast
      have n1: "n \<le> q_Len h1" using swapped_len [OF less.prems(1) h1(2,4)] less.prems(2) by simp
      have "n - ?j < n - i" using j by linarith
      from less.hyps [OF this h1(2) n1] obtain k h2 where "heap_down ?j n h1 = Inr (k, h2)" "h_str h2"
        "same_items h1 h2" "down_l (q_lessFunc h1) ?j n (queue_elems h1) = (k, queue_elems h2)" by blast
      moreover have "q_lessFunc h1 = ?lf" using h1(3) by (simp add: same_items_def)
      ultimately show ?thesis
        using True down h1 False same_items_trans [OF h1(3)]
        by (intro exI [of _ k] exI [of _ h2]) (simp add: down_l.simps [of ?lf i n ?xs] Let_def)
    qed
  qed
qed

section \<open>The exported operations keep the heap\<close>

lemma heap_l_cong: "(\<And>m. m < n \<Longrightarrow> xs ! m = ys ! m) \<Longrightarrow> heap_l lf n xs = heap_l lf n ys"
  unfolding heap_l_def by (metis div_le_dividend diff_le_self le_less_trans)

lemma up_l_keeps: "j < m \<Longrightarrow> up_l lf j xs ! m = xs ! m"
proof (induction lf j xs rule: up_l.induct)
  case (1 lf j xs)
  show ?case
  proof (cases "0 < j \<and> lf (xs ! j) (xs ! par j)")
    case True
    then have "par j < m" using 1(2) by auto
    with 1 True show ?thesis by (simp add: up_l.simps [of lf j xs])
  qed (auto simp: up_l.simps [of lf j xs])
qed

lemma fix_l_keeps:
  assumes "n \<le> length xs" and "i < n" and "n \<le> m"
  shows "fix_l lf i n xs ! m = xs ! m"
proof -
  obtain k ys where d: "down_l lf i n xs = (k, ys)" by fastforce
  from down_l_keeps [OF assms(1) d] assms show ?thesis by (simp add: fix_l_def d up_l_keeps)
qed

lemma same_items_parts:
  assumes "same_items h h'"
  shows "q_GetByKey h' = q_GetByKey h" "q_keyFunc h' = q_keyFunc h" "q_lessFunc h' = q_lessFunc h"
  using assms by (simp_all add: same_items_def)

text \<open>Sinking and raising on the heap: the common part of \<open>Fix\<close> and \<open>Remove\<close>.\<close>

lemma heap_fix_ok:
  assumes str: "h_str h" and n: "n \<le> q_Len h" and i: "i < n"
  shows "\<exists>k h1 h2. heap_down i n h = Inr (k, h1) \<and> (if i < k then Inr h1 else heap_up i h1) = Inr h2 \<and>
    h_str h2 \<and> same_items h h2 \<and> queue_elems h2 = fix_l (q_lessFunc h) i n (queue_elems h)"
proof -
  obtain k h1 where h1: "heap_down i n h = Inr (k, h1)" "h_str h1" "same_items h h1"
    "down_l (q_lessFunc h) i n (queue_elems h) = (k, queue_elems h1)"
    using heap_down_ok [OF str n] by blast
  show ?thesis
  proof (cases "i < k")
    case True
    with h1 show ?thesis by (intro exI [of _ k] exI [of _ h1]) (simp add: fix_l_def)
  next
    case False
    have "mset (queue_elems h1) = mset (queue_elems h)"
      using down_l_keeps [OF _ h1(4)] n h_str_len [OF str] by simp
    then have "q_Len h1 = q_Len h" using h_str_len [OF str] h_str_len [OF h1(2)] by (metis mset_eq_length)
    then have "i < q_Len h1" using i n by simp
    from heap_up_ok [OF h1(2) this] obtain h2 where h2: "heap_up i h1 = Inr h2" "h_str h2" "same_items h1 h2"
      "queue_elems h2 = up_l (q_lessFunc h1) i (queue_elems h1)" by blast
    have "same_items h h2" using h1(3) h2(3) by (rule same_items_trans)
    with h1 h2 False same_items_parts(3) [OF h1(3)] show ?thesis
      by (intro exI [of _ k] exI [of _ h1] exI [of _ h2]) (simp add: fix_l_def)
  qed
qed

lemma h_pop_ok:
  assumes str: "h_str h" and ne: "queue_elems h \<noteq> []"
  shows "\<exists>h'. h_pop h = Inr (Some (last (queue_elems h)), h') \<and> h_str h' \<and> queue_elems h' = butlast (queue_elems h) \<and>
    q_GetByKey h' = (q_GetByKey h)(q_keyFunc h (last (queue_elems h)) := None) \<and>
    q_keyFunc h' = q_keyFunc h \<and> q_lessFunc h' = q_lessFunc h"
proof -
  have inv: "queue_inv h" and idx: "idx_ok h" using str by (simp_all add: h_str_def)
  let ?k = "last (q_keys h)" let ?h' = "snd (q_delete ?k h)"
  have kne: "q_keys h \<noteq> []" using inv ne by (simp add: queue_nonempty)
  have pop: "h_pop h = Inr (Some (last (queue_elems h)), ?h')"
    using q_Pop_ok [OF inv ne] by (simp add: h_pop_def q_Pop_def q_pop_def)
  have key: "?k = q_keyFunc h (last (queue_elems h))" using inv ne by (rule last_key)
  have dist: "distinct (map (q_keyFunc h) (queue_elems h))" using inv by (rule queue_elems_distinct)
  have el: "queue_elems ?h' = butlast (queue_elems h)"
    using elems_delete [OF inv, of ?k] al_del_last [OF dist ne] key by simp
  have inv': "queue_inv ?h'" using inv by (rule queue_inv_delete)
  have keys: "q_keys ?h' = butlast (q_keys h)"
    using queue_keys_elems [OF inv'] queue_keys_elems [OF inv] el by (simp add: map_butlast)
  have items: "gm_get (q_items ?h') = (gm_get (q_items h))(?k := None)"
    by (auto simp: q_delete_def fun_eq_iff split: option.split)
  have "idx_ok ?h'"
    unfolding idx_ok_def
  proof (intro allI impI)
    fix i assume i: "i < q_Len ?h'"
    then have i': "i < q_Len h - 1" using keys by (simp add: q_Len_def)
    have nth: "q_keys ?h' ! i = q_keys h ! i" using i keys by (simp add: q_Len_def nth_butlast)
    have "q_keys h ! i \<noteq> ?k"
      using inv i' kne unfolding queue_inv_def by (simp add: last_conv_nth q_Len_def nth_eq_iff_index_eq)
    with idx i' nth items show "\<exists>it. gm_get (q_items ?h') (q_keys ?h' ! i) = Some it \<and> qi_index it = i"
      unfolding idx_ok_def by simp
  qed
  with pop el inv' key show ?thesis
    by (intro exI [of _ ?h']) (simp add: h_str_def look_delete)
qed

lemma h_push_ok:
  assumes str: "h_str h" and new: "gm_get (q_items h) (q_keyFunc h x) = None"
  shows "h_str (h_push (q_keyFunc h x) x h) \<and> queue_elems (h_push (q_keyFunc h x) x h) = queue_elems h @ [x] \<and>
    q_GetByKey (h_push (q_keyFunc h x) x h) = (q_GetByKey h)(q_keyFunc h x \<mapsto> x) \<and>
    q_keyFunc (h_push (q_keyFunc h x) x h) = q_keyFunc h \<and> q_lessFunc (h_push (q_keyFunc h x) x h) = q_lessFunc h"
proof -
  have inv: "queue_inv h" and idx: "idx_ok h" using str by (simp_all add: h_str_def)
  let ?h = "h_push (q_keyFunc h x) x h"
  have eq: "?h = q_PushOrUpdate x h" using new by (simp add: h_push_def q_PushOrUpdate_def q_push_def Let_def)
  have absent: "q_keyFunc h x \<notin> q_keyFunc h ` set (queue_elems h)" using inv new by (simp add: queue_key_present)
  have "q_keyFunc h x \<notin> set (q_keys h)" using inv new by (simp add: queue_inv_def domIff)
  then have fresh: "q_keys h ! i \<noteq> q_keyFunc h x" if "i < length (q_keys h)" for i
    using that nth_mem by metis
  have "idx_ok ?h"
    unfolding idx_ok_def
  proof (intro allI impI)
    fix i assume i: "i < q_Len ?h"
    show "\<exists>it. gm_get (q_items ?h) (q_keys ?h ! i) = Some it \<and> qi_index it = i"
    proof (cases "i < length (q_keys h)")
      case True
      with idx fresh [OF True] show ?thesis by (simp add: h_push_def nth_append idx_ok_def q_Len_def)
    next
      case False
      then have "i = length (q_keys h)" using i by (simp add: h_push_def q_Len_def)
      then show ?thesis by (simp add: h_push_def)
    qed
  qed
  then show ?thesis
    using inv absent by (simp add: eq h_str_def queue_inv_PushOrUpdate elems_PushOrUpdate al_put_def look_PushOrUpdate)
qed

lemma index_at:
  assumes str: "h_str h" and it: "gm_get (q_items h) k = Some it"
  shows "qi_index it < q_Len h" and "q_keys h ! qi_index it = k" and "queue_elems h ! qi_index it = qi_obj it"
proof -
  have inv: "queue_inv h" and idx: "idx_ok h" using str by (simp_all add: h_str_def)
  have "k \<in> set (q_keys h)" using inv it by (auto simp: queue_inv_def)
  then obtain i where i: "i < length (q_keys h)" "q_keys h ! i = k" by (auto simp: in_set_conv_nth)
  with idx it have "qi_index it = i" unfolding idx_ok_def q_Len_def by auto
  with i show "qi_index it < q_Len h" "q_keys h ! qi_index it = k" by (simp_all add: q_Len_def)
  with inv it show "queue_elems h ! qi_index it = qi_obj it"
    by (simp add: queue_elems_map q_Len_def q_GetByKey_def)
qed

lemma update_ok:
  assumes str: "h_str h" and it: "gm_get (q_items h) (q_keyFunc h x) = Some it"
  defines "h1 \<equiv> h\<lparr>q_items := gm_put (q_keyFunc h x) (it\<lparr>qi_obj := x\<rparr>) (q_items h)\<rparr>"
  shows "h_str h1 \<and> queue_elems h1 = (queue_elems h)[qi_index it := x] \<and>
    q_GetByKey h1 = (q_GetByKey h)(q_keyFunc h x \<mapsto> x) \<and> q_keyFunc h1 = q_keyFunc h \<and> q_lessFunc h1 = q_lessFunc h"
proof -
  have inv: "queue_inv h" and idx: "idx_ok h" using str by (simp_all add: h_str_def)
  have eq: "h1 = q_PushOrUpdate x h" using it by (simp add: h1_def q_PushOrUpdate_def Let_def)
  have inv1: "queue_inv h1" unfolding eq using inv by (rule queue_inv_PushOrUpdate)
  have keys: "q_keys h1 = q_keys h" by (simp add: h1_def)
  note at = index_at [OF str it]
  have "idx_ok h1"
    using idx it at unfolding idx_ok_def h1_def q_Len_def by auto
  moreover have "queue_elems h1 = (queue_elems h)[qi_index it := x]"
  proof (rule nth_equalityI)
    show "length (queue_elems h1) = length ((queue_elems h)[qi_index it := x])"
      using inv inv1 keys by (simp add: length_queue_elems q_Len_def)
  next
    fix m assume "m < length (queue_elems h1)"
    then have m: "m < length (q_keys h)" using inv1 keys by (simp add: length_queue_elems q_Len_def)
    have "q_keys h ! m = q_keyFunc h x \<longleftrightarrow> m = qi_index it"
      using inv m at(1,2) unfolding queue_inv_def q_Len_def by (metis nth_eq_iff_index_eq)
    then show "queue_elems h1 ! m = (queue_elems h)[qi_index it := x] ! m"
      using inv inv1 keys m
      by (simp add: queue_elems_map eq look_PushOrUpdate nth_list_update)
  qed
  ultimately show ?thesis using inv1 by (simp add: h_str_def eq look_PushOrUpdate)
qed

lemma h_inv_str: "h_inv h \<Longrightarrow> h_str h"
  by (simp add: h_inv_def)

lemma heap_l_prefix_update: "n \<le> m \<Longrightarrow> heap_l lf n (xs[m := v]) = heap_l lf n xs"
  by (rule heap_l_cong) simp

lemma heap_Push_ok:
  assumes inv: "h_inv h" and wo: "weak_order (q_lessFunc h)" and new: "gm_get (q_items h) (q_keyFunc h x) = None"
  shows "\<exists>h'. heap_Push (q_keyFunc h x) x h = Inr h' \<and> h_inv h' \<and>
    q_GetByKey h' = (q_GetByKey h)(q_keyFunc h x \<mapsto> x) \<and> q_keyFunc h' = q_keyFunc h \<and> q_lessFunc h' = q_lessFunc h"
proof -
  let ?h1 = "h_push (q_keyFunc h x) x h" and ?xs = "queue_elems h"
  note str = h_inv_str [OF inv]
  from h_push_ok [OF str new] have h1: "h_str ?h1" "queue_elems ?h1 = ?xs @ [x]"
    "q_GetByKey ?h1 = (q_GetByKey h)(q_keyFunc h x \<mapsto> x)" "q_keyFunc ?h1 = q_keyFunc h" "q_lessFunc ?h1 = q_lessFunc h"
    by blast+
  have len: "q_Len ?h1 = Suc (length ?xs)" using h_str_len [OF h1(1)] h1(2) by simp
  then have "length ?xs < q_Len ?h1" by simp
  from heap_up_ok [OF h1(1) this] obtain h2 where h2: "heap_up (length ?xs) ?h1 = Inr h2" "h_str h2" "same_items ?h1 h2"
    "queue_elems h2 = up_l (q_lessFunc h) (length ?xs) (?xs @ [x])" using h1 by auto
  have heap: "heap_l (q_lessFunc h) (length ?xs) ?xs"
    using inv h_str_len [OF str] by (simp add: h_inv_def)
  have "up_ready (q_lessFunc h) (length ?xs) (Suc (length ?xs)) (?xs @ [x])"
    unfolding up_ready_def
  proof (intro conjI allI impI)
    fix k assume k: "0 < k \<and> k < Suc (length ?xs) \<and> k \<noteq> length ?xs"
    then have "k < length ?xs" "par k < length ?xs" by auto
    with heap k show "\<not> q_lessFunc h ((?xs @ [x]) ! k) ((?xs @ [x]) ! par k)"
      unfolding heap_l_def by (simp add: nth_append)
  next
    fix k assume "0 < k \<and> k < Suc (length ?xs) \<and> par k = length ?xs \<and> 0 < length ?xs"
    then show "\<not> q_lessFunc h ((?xs @ [x]) ! k) ((?xs @ [x]) ! par (length ?xs))" by auto
  qed
  from up_spec [OF wo _ _ this] have "heap_l (q_lessFunc h) (Suc (length ?xs)) (queue_elems h2)"
    using h2(4) by simp
  moreover have "q_Len h2 = Suc (length ?xs)"
    using h_str_len [OF h2(2)] h2(4) up_l_mset [of "length ?xs" "?xs @ [x]" "q_lessFunc h"]
    by (metis length_append_singleton lessI mset_eq_length)
  ultimately show ?thesis
    using h2 h1 len same_items_parts [OF h2(3)]
    by (intro exI [of _ h2]) (simp add: heap_Push_def h_Len_def h_inv_def Let_def)
qed

lemma heap_Fix_ok:
  assumes str: "h_str h" and wo: "weak_order (q_lessFunc h)" and i: "i < q_Len h"
    and ready: "down_ready (q_lessFunc h) i (q_Len h) (queue_elems h)"
  shows "\<exists>h'. heap_Fix i h = Inr h' \<and> h_inv h' \<and> same_items h h'"
proof -
  from heap_fix_ok [OF str order_refl i] obtain k h1 h2 where
    d: "heap_down i (q_Len h) h = Inr (k, h1)" "(if i < k then Inr h1 else heap_up i h1) = Inr h2"
    "h_str h2" "same_items h h2" "queue_elems h2 = fix_l (q_lessFunc h) i (q_Len h) (queue_elems h)" by blast
  have len: "q_Len h \<le> length (queue_elems h)" using h_str_len [OF str] by simp
  have "q_Len h2 = q_Len h"
    using fix_mset [OF len i, of "q_lessFunc h"] h_str_len [OF str] h_str_len [OF d(3)] d(5) by (metis mset_eq_length)
  then have "h_inv h2"
    using d fix_spec [OF wo len i ready] same_items_parts(3) [OF d(4)] by (simp add: h_inv_def)
  with d show ?thesis by (intro exI [of _ h2]) (simp add: heap_Fix_def h_Len_def)
qed

lemma h_PushOrUpdate_ok:
  assumes inv: "h_inv h" and wo: "weak_order (q_lessFunc h)"
  shows "\<exists>h'. h_PushOrUpdate x h = Inr h' \<and> h_inv h' \<and> q_GetByKey h' = (q_GetByKey h)(q_keyFunc h x \<mapsto> x) \<and>
    q_keyFunc h' = q_keyFunc h \<and> q_lessFunc h' = q_lessFunc h"
proof (cases "gm_get (q_items h) (q_keyFunc h x)")
  case None
  with heap_Push_ok [OF inv wo this] show ?thesis by (simp add: h_PushOrUpdate_def Let_def)
next
  case (Some it)
  note str = h_inv_str [OF inv] and at = index_at [OF h_inv_str [OF inv] Some]
  let ?h1 = "h\<lparr>q_items := gm_put (q_keyFunc h x) (it\<lparr>qi_obj := x\<rparr>) (q_items h)\<rparr>"
  from update_ok [OF str Some] have h1: "h_str ?h1" "queue_elems ?h1 = (queue_elems h)[qi_index it := x]"
    "q_GetByKey ?h1 = (q_GetByKey h)(q_keyFunc h x \<mapsto> x)" "q_keyFunc ?h1 = q_keyFunc h" "q_lessFunc ?h1 = q_lessFunc h"
    by blast+
  have len: "q_Len ?h1 = q_Len h" by (simp add: q_Len_def)
  have "down_ready (q_lessFunc ?h1) (qi_index it) (q_Len ?h1) (queue_elems ?h1)"
    unfolding h1(2,5) len using inv h_str_len [OF str] at(1)
    by (intro changed_ready [OF wo]) (simp_all add: h_inv_def)
  from heap_Fix_ok [OF h1(1) _ _ this] wo at(1) len h1(5) obtain h' where
    "heap_Fix (qi_index it) ?h1 = Inr h'" "h_inv h'" "same_items ?h1 h'" by auto
  with h1 Some same_items_parts [OF this(3)] show ?thesis by (simp add: h_PushOrUpdate_def Let_def)
qed

lemma h_PushIfNotPresent_ok:
  assumes "h_inv h" and "weak_order (q_lessFunc h)"
  shows "\<exists>h'. h_PushIfNotPresent x h = Inr (q_GetByKey h (q_keyFunc h x) = None, h') \<and> h_inv h' \<and>
    q_GetByKey h' = (if q_GetByKey h (q_keyFunc h x) = None then (q_GetByKey h)(q_keyFunc h x \<mapsto> x) else q_GetByKey h) \<and>
    q_keyFunc h' = q_keyFunc h \<and> q_lessFunc h' = q_lessFunc h"
proof (cases "gm_get (q_items h) (q_keyFunc h x)")
  case None
  then have "q_GetByKey h (q_keyFunc h x) = None" by (simp add: q_GetByKey_def)
  with heap_Push_ok [OF assms None] None show ?thesis by (auto simp: h_PushIfNotPresent_def)
next
  case (Some it)
  then have "q_GetByKey h (q_keyFunc h x) \<noteq> None" by (simp add: q_GetByKey_def)
  with Some assms(1) show ?thesis by (auto simp: h_PushIfNotPresent_def)
qed

text \<open>Removing position \<open>i\<close>: exchange with the last, restore the prefix, drop the last.\<close>

lemma heap_Remove_ok:
  assumes inv: "h_inv h" and wo: "weak_order (q_lessFunc h)" and i: "i < q_Len h"
  shows "\<exists>h'. heap_Remove i h = Inr (Some (queue_elems h ! i), h') \<and> h_inv h' \<and>
    q_GetByKey h' = (q_GetByKey h)(q_keyFunc h (queue_elems h ! i) := None) \<and>
    q_keyFunc h' = q_keyFunc h \<and> q_lessFunc h' = q_lessFunc h"
proof -
  let ?xs = "queue_elems h" and ?n = "q_Len h - 1" and ?lf = "q_lessFunc h"
  note str = h_inv_str [OF inv]
  have len: "length ?xs = q_Len h" by (rule h_str_len [OF str])
  have heap: "heap_l ?lf ?n ?xs" using inv unfolding h_inv_def heap_l_def by auto
  have finish: "\<exists>h'. h_pop g = Inr (Some (?xs ! i), h') \<and> h_inv h' \<and>
      q_GetByKey h' = (q_GetByKey h)(q_keyFunc h (?xs ! i) := None) \<and> q_keyFunc h' = q_keyFunc h \<and> q_lessFunc h' = ?lf"
    if g: "h_str g" "same_items h g" "length (queue_elems g) = q_Len h" "queue_elems g ! ?n = ?xs ! i"
      "heap_l ?lf ?n (queue_elems g)" for g
  proof -
    have ne: "queue_elems g \<noteq> []" using g(3) i by auto
    have last: "last (queue_elems g) = ?xs ! i" using g(3,4) ne by (simp add: last_conv_nth)
    from h_pop_ok [OF g(1) ne] obtain h' where h': "h_pop g = Inr (Some (last (queue_elems g)), h')" "h_str h'"
      "queue_elems h' = butlast (queue_elems g)" "q_GetByKey h' = (q_GetByKey g)(q_keyFunc g (last (queue_elems g)) := None)"
      "q_keyFunc h' = q_keyFunc g" "q_lessFunc h' = q_lessFunc g" by blast
    have "q_Len h' = ?n" using h_str_len [OF h'(2)] h'(3) g(3) by simp
    moreover have "heap_l ?lf ?n (queue_elems h')"
      using g(5) h'(3) g(3) heap_l_cong [of ?n "butlast (queue_elems g)" "queue_elems g" ?lf] by (simp add: nth_butlast)
    ultimately have "h_inv h'" using h'(2,6) same_items_parts(3) [OF g(2)] by (simp add: h_inv_def)
    with h' last same_items_parts [OF g(2)] show ?thesis by simp
  qed
  show ?thesis
  proof (cases "i = ?n")
    case True
    from finish [OF str same_items_refl len _ heap] True i show ?thesis
      by (simp add: heap_Remove_def h_Len_def Let_def)
  next
    case False
    then have lt: "i < ?n" "?n < q_Len h" using i by auto
    obtain h1 where h1: "h_Swap h i ?n = Inr h1" "h_str h1" "same_items h h1"
      "queue_elems h1 = ?xs[i := ?xs ! ?n, ?n := ?xs ! i]"
      using h_Swap_ok [OF str i lt(2)] by blast
    have len1: "q_Len h1 = q_Len h" using swapped_len [OF str h1(2,4)] .
    have lf1: "q_lessFunc h1 = ?lf" using same_items_parts(3) [OF h1(3)] .
    have "queue_elems h1 = (?xs[?n := ?xs ! i])[i := ?xs ! ?n]" using False h1(4) by (simp add: list_update_swap)
    moreover have "heap_l ?lf ?n (?xs[?n := ?xs ! i])" using heap by (simp add: heap_l_prefix_update)
    ultimately have ready: "down_ready ?lf i ?n (queue_elems h1)"
      using changed_ready [OF wo _ lt(1), of "?xs[?n := ?xs ! i]" "?xs ! ?n"] len by simp
    have n1: "?n \<le> q_Len h1" using len1 by simp
    from heap_fix_ok [OF h1(2) n1 lt(1)] obtain k g1 g2 where
      d: "heap_down i ?n h1 = Inr (k, g1)" "(if i < k then Inr g1 else heap_up i g1) = Inr g2" "h_str g2" "same_items h1 g2"
      "queue_elems g2 = fix_l ?lf i ?n (queue_elems h1)" using lf1 by auto
    have n2: "?n \<le> length (queue_elems h1)" using h_str_len [OF h1(2)] len1 by simp
    have "length (queue_elems g2) = q_Len h"
      using d(5) fix_mset [OF n2 lt(1), of ?lf] h_str_len [OF h1(2)] len1 by (metis mset_eq_length)
    moreover have "queue_elems g2 ! ?n = queue_elems h1 ! ?n"
      unfolding d(5) by (rule fix_l_keeps [OF n2 lt(1) order_refl])
    moreover have "queue_elems h1 ! ?n = ?xs ! i" unfolding h1(4) using len lt by simp
    moreover have "heap_l ?lf ?n (queue_elems g2)"
      unfolding d(5) by (rule fix_spec [OF wo n2 lt(1) ready])
    ultimately have "\<exists>h'. h_pop g2 = Inr (Some (?xs ! i), h') \<and> h_inv h' \<and>
      q_GetByKey h' = (q_GetByKey h)(q_keyFunc h (?xs ! i) := None) \<and> q_keyFunc h' = q_keyFunc h \<and> q_lessFunc h' = ?lf"
      using finish [OF d(3) same_items_trans [OF h1(3) d(4)]] by simp
    moreover have "heap_Remove i h = h_pop g2"
      using False lt h1(1) d(1,2) by (auto simp: heap_Remove_def h_Len_def Let_def split: if_splits)
    ultimately show ?thesis by simp
  qed
qed

lemma h_Delete_ok:
  assumes inv: "h_inv h" and wo: "weak_order (q_lessFunc h)"
  shows "\<exists>h'. h_Delete k h = Inr h' \<and> h_inv h' \<and> q_GetByKey h' = (q_GetByKey h)(k := None) \<and>
    q_keyFunc h' = q_keyFunc h \<and> q_lessFunc h' = q_lessFunc h"
proof (cases "gm_get (q_items h) k")
  case None
  then have "(q_GetByKey h)(k := None) = q_GetByKey h" by (simp add: q_GetByKey_def fun_eq_iff)
  with None inv show ?thesis by (simp add: h_Delete_def)
next
  case (Some it)
  note at = index_at [OF h_inv_str [OF inv] Some]
  have "q_keyFunc h (qi_obj it) = k" using inv Some by (auto simp: h_inv_def h_str_def queue_inv_def)
  with heap_Remove_ok [OF inv wo at(1)] at(3) Some show ?thesis by (auto simp: h_Delete_def)
qed

lemma heap_up_0: "heap_up 0 h = Inr h"
  by (simp add: heap_up.simps)

lemma h_Pop_ok:
  assumes inv: "h_inv h" and wo: "weak_order (q_lessFunc h)" and ne: "queue_elems h \<noteq> []"
  shows "\<exists>h'. h_Pop h = Inr (Some (hd (queue_elems h)), h') \<and> h_inv h' \<and>
    q_GetByKey h' = (q_GetByKey h)(q_keyFunc h (hd (queue_elems h)) := None) \<and>
    q_keyFunc h' = q_keyFunc h \<and> q_lessFunc h' = q_lessFunc h"
proof -
  note str = h_inv_str [OF inv]
  have len: "0 < q_Len h" using ne h_str_len [OF str] by (metis length_greater_0_conv)
  have hd: "queue_elems h ! 0 = hd (queue_elems h)" using ne by (simp add: hd_conv_nth)
  show ?thesis
  proof (cases "q_Len h = 1")
    case True
    obtain h1 where h1: "h_Swap h 0 0 = Inr h1" "h_str h1" "same_items h h1" "queue_elems h1 = queue_elems h"
      using h_Swap_ok [OF str len len] by auto
    from h_pop_ok [OF h1(2)] ne h1(4) obtain h' where h': "h_pop h1 = Inr (Some (last (queue_elems h)), h')" "h_str h'"
      "queue_elems h' = butlast (queue_elems h)" "q_GetByKey h' = (q_GetByKey h1)(q_keyFunc h1 (last (queue_elems h)) := None)"
      "q_keyFunc h' = q_keyFunc h1" "q_lessFunc h' = q_lessFunc h1" by auto
    have one: "length (queue_elems h) = 1" using h_str_len [OF str] True by simp
    then have "last (queue_elems h) = hd (queue_elems h)" by (cases "queue_elems h") auto
    moreover have "q_Len h' = 0" using h_str_len [OF h'(2)] h'(3) one by simp
    ultimately show ?thesis
      using h' h1(1) True same_items_parts [OF h1(3)]
      by (simp add: h_Pop_def heap_Pop_def h_Len_def heap_down.simps h_inv_def heap_l_def)
  next
    case False
    with len have "h_Pop h = heap_Remove 0 h"
      by (simp add: h_Pop_def heap_Pop_def heap_Remove_def h_Len_def Let_def heap_up_0 split_def cong: if_cong)
    with heap_Remove_ok [OF inv wo len] hd show ?thesis by simp
  qed
qed

lemma h_Pop_empty: "q_Len h = 0 \<Longrightarrow> h_Pop h = Inl IndexOutOfRange"
  by (simp add: h_Pop_def heap_Pop_def h_Len_def)

lemma h_New_inv: "h_inv (h_New kf lf)"
  using queue_inv_New [of kf lf]
  by (simp add: h_inv_def h_str_def idx_ok_def h_New_def q_New_def q_Len_def heap_l_def)

lemma h_GetByKey_eq: "h_GetByKey h = q_GetByKey h"
  by (rule ext) (simp add: h_GetByKey_def q_GetByKey_def)

lemma h_List_in:
  assumes "queue_inv h"
  shows "x \<in> set (h_List h) \<longleftrightarrow> q_GetByKey h (q_keyFunc h x) = Some x"
proof -
  have ok: "gm_ok (q_items h)" and key: "\<And>k it. gm_get (q_items h) k = Some it \<Longrightarrow> q_keyFunc h (qi_obj it) = k"
    using assms by (auto simp: queue_inv_def)
  have "x \<in> set (h_List h) \<longleftrightarrow> (\<exists>k it. (k, it) \<in> set (q_items h) \<and> qi_obj it = x)"
    by (force simp: h_List_def)
  also have "\<dots> \<longleftrightarrow> (\<exists>k it. gm_get (q_items h) k = Some it \<and> qi_obj it = x)"
    using gm_get_in_set [OF ok] by metis
  also have "\<dots> \<longleftrightarrow> q_GetByKey h (q_keyFunc h x) = Some x"
    using key by (auto simp: q_GetByKey_def)
  finally show ?thesis .
qed

lemma h_List_distinct:
  assumes "queue_inv h"
  shows "distinct (map (q_keyFunc h) (h_List h))"
proof -
  have ok: "gm_ok (q_items h)" using assms by (simp add: queue_inv_def)
  then have "map (q_keyFunc h) (h_List h) = map fst (q_items h)"
    using assms gm_get_in_set [OF ok] by (auto simp: h_List_def queue_inv_def)
  with ok show ?thesis by (simp add: gm_ok_def)
qed

lemma h_List_elems: "queue_inv h \<Longrightarrow> set (h_List h) = set (queue_elems h)"
  by (auto simp: h_List_in in_queue_elems)

section \<open>The heap as a keyed collection with a least element\<close>

text \<open>A collection whose \<open>pop\<close> takes out an object no other is less than, or nothing when empty.\<close>

locale priority_collection = listed_collection inv look key put put_new del elems
  for inv :: "'c \<Rightarrow> bool" and look :: "'c \<Rightarrow> string \<Rightarrow> 'a option" and key put put_new del elems +
  fixes lt :: "'a \<Rightarrow> 'a \<Rightarrow> bool" and pop :: "'c \<Rightarrow> ('a \<times> 'c) option"
  assumes pop_None: "inv c \<Longrightarrow> pop c = None \<longleftrightarrow> elems c = []"
    and pop_Some: "inv c \<Longrightarrow> pop c = Some (x, c') \<Longrightarrow>
      inv c' \<and> x \<in> set (elems c) \<and> (\<forall>y \<in> set (elems c). \<not> lt y x) \<and> look c' = (look c)(key x := None)"
begin

primrec drain :: "nat \<Rightarrow> 'c \<Rightarrow> 'a list" where
  "drain 0 c = []"
| "drain (Suc n) c = (case pop c of None \<Rightarrow> [] | Some (x, c') \<Rightarrow> x # drain n c')"

lemma pop_elems:
  assumes "inv c" and "pop c = Some (x, c')"
  shows "set (elems c') = {y \<in> set (elems c). key y \<noteq> key x}" and "length (elems c) = Suc (length (elems c'))"
proof -
  note p = pop_Some [OF assms]
  show eq: "set (elems c') = {y \<in> set (elems c). key y \<noteq> key x}"
  proof (rule set_eqI)
    fix y
    show "y \<in> set (elems c') \<longleftrightarrow> y \<in> {y \<in> set (elems c). key y \<noteq> key x}"
      using p elems_look [of c' y] elems_look [OF assms(1), of y] by simp
  qed
  have "set (map key (elems c)) = insert (key x) (set (map key (elems c')))"
    unfolding set_map eq using p by auto
  moreover have "key x \<notin> set (map key (elems c'))" unfolding set_map eq by auto
  ultimately have "card (set (map key (elems c))) = Suc (card (set (map key (elems c'))))" by simp
  then show "length (elems c) = Suc (length (elems c'))"
    using elems_distinct [OF assms(1)] elems_distinct p by (metis distinct_card length_map)
qed

text \<open>Taking everything out gives every stored object once, in order.\<close>

lemma drain_sorted:
  "inv c \<Longrightarrow> length (elems c) = n \<Longrightarrow>
   length (drain n c) = n \<and> set (drain n c) = set (elems c) \<and> distinct (map key (drain n c)) \<and>
   sorted_wrt (\<lambda>a b. \<not> lt b a) (drain n c)"
proof (induction n arbitrary: c)
  case (Suc n)
  obtain x c' where pop: "pop c = Some (x, c')" using pop_None [OF Suc.prems(1)] Suc.prems(2) by (cases "pop c") auto
  note p = pop_Some [OF Suc.prems(1) pop] and e = pop_elems [OF Suc.prems(1) pop]
  have "inv c'" "length (elems c') = n" using p e(2) Suc.prems(2) by auto
  note ih = Suc.IH [OF this]
  have "set (x # drain n c') = set (elems c)"
    using ih e(1) p elems_inj [OF Suc.prems(1)] by auto
  moreover have "key x \<notin> key ` set (drain n c')" using ih e(1) by auto
  moreover have "\<forall>y \<in> set (drain n c'). \<not> lt y x" using ih e(1) p by auto
  ultimately show ?case using ih pop by simp
qed simp

end

definition go_or :: "'b \<Rightarrow> 'b go \<Rightarrow> 'b" where
  "go_or d m = (case m of Inl p \<Rightarrow> d | Inr x \<Rightarrow> x)"

definition pop_opt :: "'a heap \<Rightarrow> ('a \<times> 'a heap) option" where
  "pop_opt h = (case h_Pop h of Inr (Some x, h') \<Rightarrow> Some (x, h') | _ \<Rightarrow> None)"

text \<open>The heaps with given key and order functions, the order being a strict weak order.\<close>

definition heap_of :: "('a \<Rightarrow> string) \<Rightarrow> ('a \<Rightarrow> 'a \<Rightarrow> bool) \<Rightarrow> 'a heap \<Rightarrow> bool" where
  "heap_of kf lf h \<longleftrightarrow> h_inv h \<and> q_keyFunc h = kf \<and> q_lessFunc h = lf \<and> weak_order lf"

lemma heap_of_queue: "heap_of kf lf h \<Longrightarrow> queue_inv h"
  by (simp add: heap_of_def h_inv_def h_str_def)

lemma heap_of_put:
  "heap_of kf lf h \<Longrightarrow> \<exists>h'. h_PushOrUpdate x h = Inr h' \<and> heap_of kf lf h' \<and> h_GetByKey h' = (h_GetByKey h)(kf x \<mapsto> x)"
  using h_PushOrUpdate_ok [of h x] by (auto simp: heap_of_def h_GetByKey_eq)

lemma heap_of_put_new:
  "heap_of kf lf h \<Longrightarrow>
   \<exists>h'. h_PushIfNotPresent x h = Inr (h_GetByKey h (kf x) = None, h') \<and> heap_of kf lf h' \<and>
        h_GetByKey h' = (if h_GetByKey h (kf x) = None then (h_GetByKey h)(kf x \<mapsto> x) else h_GetByKey h)"
  using h_PushIfNotPresent_ok [of h x] by (auto simp: heap_of_def h_GetByKey_eq)

lemma heap_of_del:
  "heap_of kf lf h \<Longrightarrow> \<exists>h'. h_Delete k h = Inr h' \<and> heap_of kf lf h' \<and> h_GetByKey h' = (h_GetByKey h)(k := None)"
  using h_Delete_ok [of h k] by (auto simp: heap_of_def h_GetByKey_eq)

lemma heap_of_pop:
  assumes "heap_of kf lf h" and "h_List h \<noteq> []"
  shows "\<exists>x h'. h_Pop h = Inr (Some x, h') \<and> heap_of kf lf h' \<and> x \<in> set (h_List h) \<and>
    (\<forall>y \<in> set (h_List h). \<not> lf y x) \<and> h_GetByKey h' = (h_GetByKey h)(kf x := None)"
proof -
  have inv: "h_inv h" and kf: "q_keyFunc h = kf" and lf: "q_lessFunc h = lf" and wo: "weak_order lf"
    using assms(1) by (simp_all add: heap_of_def)
  note str = h_inv_str [OF inv]
  have set: "set (h_List h) = set (queue_elems h)" using heap_of_queue [OF assms(1)] by (rule h_List_elems)
  with assms(2) have ne: "queue_elems h \<noteq> []" by auto
  have min: "\<not> lf y (hd (queue_elems h))" if "y \<in> set (queue_elems h)" for y
  proof -
    obtain i where "i < length (queue_elems h)" "queue_elems h ! i = y" using \<open>y \<in> set (queue_elems h)\<close> by (auto simp: in_set_conv_nth)
    with heap_l_root [OF wo, of "q_Len h" "queue_elems h" i] inv lf h_str_len [OF str] ne show ?thesis
      by (auto simp: h_inv_def hd_conv_nth)
  qed
  have "weak_order (q_lessFunc h)" using wo lf by simp
  from h_Pop_ok [OF inv this ne] obtain h' where h': "h_Pop h = Inr (Some (hd (queue_elems h)), h')" "h_inv h'"
    "q_GetByKey h' = (q_GetByKey h)(q_keyFunc h (hd (queue_elems h)) := None)" "q_keyFunc h' = q_keyFunc h"
    "q_lessFunc h' = q_lessFunc h" by blast
  have "hd (queue_elems h) \<in> set (h_List h)" using ne set by simp
  with h' min set kf lf wo show ?thesis
    by (intro exI [of _ "hd (queue_elems h)"] exI [of _ h']) (auto simp: heap_of_def h_GetByKey_eq)
qed

interpretation hp: priority_collection "heap_of kf lf" h_GetByKey kf "\<lambda>x h. go_or h (h_PushOrUpdate x h)"
  "\<lambda>x h. snd (go_or (False, h) (h_PushIfNotPresent x h))" "\<lambda>k h. go_or h (h_Delete k h)" h_List lf pop_opt
  for kf :: "'a \<Rightarrow> string" and lf
proof (unfold_locales, goal_cases)
  case (1 c k x)
  then show ?case using queue_inv_key [OF heap_of_queue [OF 1(1)]] by (simp add: heap_of_def h_GetByKey_eq)
next
  case (2 c x)
  then show ?case using heap_of_put [OF 2, of x] by (auto simp: go_or_def)
next
  case (3 c x)
  then show ?case using heap_of_put_new [OF 3, of x] by (auto simp: go_or_def)
next
  case (4 c k)
  then show ?case using heap_of_del [OF 4, of k] by (auto simp: go_or_def)
next
  case (5 c x)
  then show ?case using heap_of_put [OF 5, of x] by (auto simp: go_or_def)
next
  case (6 c x)
  then show ?case using heap_of_put_new [OF 6, of x] by (auto simp: go_or_def)
next
  case (7 c k)
  then show ?case using heap_of_del [OF 7, of k] by (auto simp: go_or_def)
next
  case (8 c x)
  then show ?case using h_List_in [OF heap_of_queue [OF 8]] by (simp add: heap_of_def h_GetByKey_eq)
next
  case (9 c)
  then show ?case using h_List_distinct [OF heap_of_queue [OF 9]] by (simp add: heap_of_def)
next
  case (10 c)
  show ?case
  proof (cases "h_List c = []")
    case True
    then have "set (queue_elems c) = {}" using h_List_elems [OF heap_of_queue [OF 10]] by simp
    then have "q_Len c = 0" using h_str_len [of c] 10 by (simp add: heap_of_def h_inv_def)
    with True show ?thesis by (simp add: pop_opt_def h_Pop_empty)
  next
    case False
    with heap_of_pop [OF 10] show ?thesis by (auto simp: pop_opt_def)
  qed
next
  case (11 c x c')
  have "h_List c \<noteq> []"
  proof
    assume "h_List c = []"
    then have "set (queue_elems c) = {}" using h_List_elems [OF heap_of_queue [OF 11(1)]] by simp
    then have "q_Len c = 0" using h_str_len [of c] 11(1) by (simp add: heap_of_def h_inv_def)
    with 11(2) show False by (simp add: pop_opt_def h_Pop_empty)
  qed
  from heap_of_pop [OF 11(1) this] 11(2) show ?case by (auto simp: pop_opt_def)
qed

section \<open>Properties\<close>

lemma heap_of_empty:
  assumes "heap_of kf lf h" and "h_List h = []"
  shows "h_Pop h = Inl IndexOutOfRange"
proof -
  have "set (queue_elems h) = {}" using assms(2) h_List_elems [OF heap_of_queue [OF assms(1)]] by simp
  then have "q_Len h = 0" using h_str_len [of h] assms(1) by (simp add: heap_of_def h_inv_def)
  then show ?thesis by (rule h_Pop_empty)
qed

lemma heap_of_len:
  assumes "heap_of kf lf h"
  shows "h_Len h = length (h_List h)"
proof -
  have inv: "queue_inv h" using assms by (rule heap_of_queue)
  have "distinct (h_List h)" "distinct (queue_elems h)"
    using h_List_distinct [OF inv] queue_elems_distinct [OF inv] by (simp_all add: distinct_map)
  then have "length (h_List h) = length (queue_elems h)"
    using h_List_elems [OF inv] by (metis distinct_card)
  with length_queue_elems [OF inv] show ?thesis by (simp add: h_Len_def)
qed

text \<open>Claim C33. The heap is a finite map with a least element, for every well-formed heap over a strict weak
  order.  A new heap is empty.  \<open>PushOrUpdate\<close>, \<open>PushIfNotPresent\<close> and \<open>Delete\<close> return, keep the
  heap order and the index of every item, and change exactly the entry of their key; \<open>PushIfNotPresent\<close>
  says whether the key was free.  \<open>Pop\<close> returns an object that no stored object is less than and
  removes exactly it; on an empty heap, and only there, it panics.  \<open>Get\<close> and \<open>GetByKey\<close> read the
  map, \<open>List\<close> holds each stored object once, and \<open>Len\<close> is the length of that list.\<close>

theorem heap_refines_map:
  assumes "heap_of kf lf h"
  shows "heap_of kf lf (h_New kf lf) \<and> h_GetByKey (h_New kf lf) = (\<lambda>_. None) \<and>
    (\<exists>h'. h_PushOrUpdate x h = Inr h' \<and> heap_of kf lf h' \<and> h_GetByKey h' = (h_GetByKey h)(kf x \<mapsto> x)) \<and>
    (\<exists>h'. h_PushIfNotPresent x h = Inr (h_GetByKey h (kf x) = None, h') \<and> heap_of kf lf h' \<and>
       h_GetByKey h' = (if h_GetByKey h (kf x) = None then (h_GetByKey h)(kf x \<mapsto> x) else h_GetByKey h)) \<and>
    (\<exists>h'. h_Delete k h = Inr h' \<and> heap_of kf lf h' \<and> h_GetByKey h' = (h_GetByKey h)(k := None)) \<and>
    (if h_List h = [] then h_Pop h = Inl IndexOutOfRange
     else \<exists>m h'. h_Pop h = Inr (Some m, h') \<and> heap_of kf lf h' \<and> m \<in> set (h_List h) \<and>
       (\<forall>y \<in> set (h_List h). \<not> lf y m) \<and> h_GetByKey h' = (h_GetByKey h)(kf m := None)) \<and>
    h_Get h x = h_GetByKey h (kf x) \<and>
    (x \<in> set (h_List h) \<longleftrightarrow> h_GetByKey h (kf x) = Some x) \<and> distinct (map kf (h_List h)) \<and>
    h_Len h = length (h_List h)"
proof -
  have "heap_of kf lf (h_New kf lf)" using assms h_New_inv [of kf lf] by (simp add: heap_of_def h_New_def)
  moreover have "h_GetByKey (h_New kf lf) = (\<lambda>_. None)" by (simp add: fun_eq_iff h_GetByKey_def h_New_def)
  moreover have "h_Get h x = h_GetByKey h (kf x)" using assms by (simp add: h_Get_def heap_of_def)
  moreover have "distinct (map kf (h_List h))"
    using h_List_distinct [OF heap_of_queue [OF assms]] assms by (simp add: heap_of_def)
  moreover note heap_of_put [OF assms, of x] heap_of_put_new [OF assms, of x] heap_of_del [OF assms, of k]
    hp.elems_look [OF assms, of x] heap_of_len [OF assms]
  moreover have "if h_List h = [] then h_Pop h = Inl IndexOutOfRange
     else \<exists>m h'. h_Pop h = Inr (Some m, h') \<and> heap_of kf lf h' \<and> m \<in> set (h_List h) \<and>
       (\<forall>y \<in> set (h_List h). \<not> lf y m) \<and> h_GetByKey h' = (h_GetByKey h)(kf m := None)"
    using heap_of_empty [OF assms] heap_of_pop [OF assms] by simp
  ultimately show ?thesis by (intro conjI)
qed

lemma sample_heap: "heap_of fmt_uint (<) (h_New fmt_uint (<))"
  using h_New_inv [of fmt_uint "(<)"] by (auto simp: heap_of_def h_New_def weak_order_def)

lemma heap_refines_map_witness:
  "\<exists>h'. h_PushOrUpdate (7 :: nat) (h_New fmt_uint (<)) = Inr h' \<and> h_GetByKey h' (fmt_uint 7) = Some 7"
  using heap_refines_map [OF sample_heap, of 7 "[]"] by auto

text \<open>\<open>Pop\<close> on a non-empty heap returns an object no stored object is less than and removes
  exactly it, so taking everything out lists every stored object once in ascending order; on an
  empty heap \<open>Pop\<close> panics.\<close>

theorem heap_pop_sorted:
  assumes "heap_of kf lf h"
  shows "(h_List h = [] \<longrightarrow> h_Pop h = Inl IndexOutOfRange) \<and>
    (h_List h \<noteq> [] \<longrightarrow> (\<exists>x h'. h_Pop h = Inr (Some x, h') \<and> heap_of kf lf h' \<and> x \<in> set (h_List h) \<and>
       (\<forall>y \<in> set (h_List h). \<not> lf y x) \<and> h_GetByKey h' = (h_GetByKey h)(kf x := None))) \<and>
    (let xs = hp.drain (length (h_List h)) h in
       set xs = set (h_List h) \<and> distinct (map kf xs) \<and> sorted_wrt (\<lambda>a b. \<not> lf b a) xs)"
  using heap_of_empty [OF assms] heap_of_pop [OF assms] hp.drain_sorted [OF assms refl] by (simp add: Let_def)

lemma heap_pop_sorted_witness:
  "h_Pop (h_New fmt_uint ((<) :: nat \<Rightarrow> nat \<Rightarrow> bool)) = Inl IndexOutOfRange"
  using heap_pop_sorted [OF sample_heap] by (simp add: h_List_def h_New_def)

end
