(* ===== verification/AI_Task.thy ===== *)
theory AI_Task imports Prelude begin

text \<open>
  The task row of \<open>dao/model/emias.go\<close> with its constants, and the database service of
  \<open>pkg/aitaskctl/task.go\<close> over the table of rows.

  Whether a database call fails is decided by the argument \<open>task_db_env\<close>: one fault per kind of
  call and task.  A call that succeeds has the effect written out here on the table.  Times are
  integers (nanoseconds), \<open>*time.Time\<close> is an option, and the clock is an argument.
\<close>

section \<open>Rows and constants\<close>


abbreviation (input) EmiasTrainingTask :: string where "EmiasTrainingTask \<equiv> ''training''"
abbreviation (input) EmiasJupyterTask :: string where "EmiasJupyterTask \<equiv> ''jupyter''"

abbreviation (input) EmiasHighSLO :: nat where "EmiasHighSLO \<equiv> 1"
abbreviation (input) EmiasLowSLO :: nat where "EmiasLowSLO \<equiv> 0"

abbreviation (input) EmiasTaskQueueingStatus :: string where "EmiasTaskQueueingStatus \<equiv> ''Queueing''"
abbreviation (input) EmiasTaskCreatedStatus :: string where "EmiasTaskCreatedStatus \<equiv> ''Created''"
abbreviation (input) EmiasTaskPendingStatus :: string where "EmiasTaskPendingStatus \<equiv> ''Pending''"
abbreviation (input) EmiasTaskRunningStatus :: string where "EmiasTaskRunningStatus \<equiv> ''Running''"
abbreviation (input) EmiasTaskFailedStatus :: string where "EmiasTaskFailedStatus \<equiv> ''Failed''"
abbreviation (input) EmiasTaskSucceededStatus :: string where "EmiasTaskSucceededStatus \<equiv> ''Succeeded''"
abbreviation (input) EmiasTaskPreemptedStatus :: string where "EmiasTaskPreemptedStatus \<equiv> ''Preempted''"

abbreviation (input) EmiasUnProfiled :: nat where "EmiasUnProfiled \<equiv> 0"
abbreviation (input) EmiasProfileQueued :: nat where "EmiasProfileQueued \<equiv> 1"
abbreviation (input) EmiasProfiling :: nat where "EmiasProfiling \<equiv> 2"
abbreviation (input) EmiasProfileFinish :: nat where "EmiasProfileFinish \<equiv> 3"
abbreviation (input) EmiasProfileFailed :: nat where "EmiasProfileFailed \<equiv> 4"

definition EmiasTaskOcupiedQuotaStatuses :: "string list" where
  "EmiasTaskOcupiedQuotaStatuses =
     [EmiasTaskCreatedStatus, EmiasTaskPendingStatus, EmiasTaskRunningStatus, EmiasTaskPreemptedStatus]"

definition EmiasTaskQueueingStatuses :: "string list" where
  "EmiasTaskQueueingStatuses = [EmiasTaskQueueingStatus]"

text \<open>
  What the code reads and writes of a pod specification: per container its resource requests (kept
  in serialized form, the code only moves them), whether an affinity is set, the priority class,
  the scheduler, the node selector and the keys of the tolerations.
\<close>

record pod_spec =
  ps_requests :: "string list"
  ps_affinity :: bool
  ps_priorityClass :: string
  ps_scheduler :: string
  ps_nodeSelector :: "(string, string) gomap"
  ps_tolerations :: "string list"

text \<open>The columns \<open>image\<close>, \<open>working_dir\<close>, \<open>share_dirs\<close>, \<open>args\<close> and \<open>schedule_info\<close> are read by none
  of the modelled operations and left out.\<close>

record ai_task =
  t_id :: nat
  t_createdAt :: time
  t_taskName :: string
  t_userName :: string
  t_owner :: string
  t_namespace :: string
  t_taskType :: string
  t_admittedAt :: "time option"
  t_startedAt :: "time option"
  t_finishAt :: "time option"
  t_duration :: nat
  t_jct :: nat
  t_resourceRequest :: string
  t_command :: string
  t_slo :: nat
  t_status :: string
  t_statusReason :: string
  t_jobName :: string
  t_isDeleted :: bool
  t_profileStatus :: nat
  t_profileStat :: string
  t_estimatedTime :: nat
  t_token :: string
  t_nodePort :: int
  t_podTemplate :: pod_spec
  t_node :: string

text \<open>The key under which queues and quota ledgers hold a task, and the submission order.\<close>

definition keyFunc :: "ai_task \<Rightarrow> string" where
  "keyFunc t = fmt_uint (t_id t)"

definition fifoOrdering :: "ai_task \<Rightarrow> ai_task \<Rightarrow> bool" where
  "fifoOrdering tA tB \<longleftrightarrow> t_createdAt tB < t_createdAt tA"

lemma keyFunc_eq [simp]: "keyFunc a = keyFunc b \<longleftrightarrow> t_id a = t_id b"
  by (simp add: keyFunc_def fmt_uint_inj)

text \<open>A task row for the witnesses.\<close>

definition sample_task :: ai_task where
  "sample_task =
     \<lparr>t_id = 7, t_createdAt = 0, t_taskName = ''a'', t_userName = ''u'', t_owner = ''o'',
      t_namespace = ''n'', t_taskType = ''training'', t_admittedAt = None, t_startedAt = None,
      t_finishAt = None, t_duration = 0, t_jct = 0, t_resourceRequest = ''r'', t_command = '''',
      t_slo = 1, t_status = ''Queueing'', t_statusReason = '''', t_jobName = '''', t_isDeleted = False,
      t_profileStatus = 0, t_profileStat = '''', t_estimatedTime = 0, t_token = '''', t_nodePort = 0,
      t_podTemplate = \<lparr>ps_requests = [''r''], ps_affinity = False, ps_priorityClass = [], ps_scheduler = [],
                       ps_nodeSelector = [], ps_tolerations = []\<rparr>,
      t_node = ''''\<rparr>"

lemma sample_task_fields: "t_userName sample_task = ''u''" "t_slo sample_task = EmiasHighSLO"
  "t_resourceRequest sample_task = ''r''" "t_id sample_task = 7" "t_createdAt sample_task = 0"
  "t_status sample_task = ''Queueing''" "t_isDeleted sample_task = False" "t_profileStatus sample_task = 0"
  "t_jobName sample_task = []" "t_node sample_task = []"
  by (simp_all add: sample_task_def)

section \<open>The database service\<close>

record task_db_env =
  get_fault :: "nat \<Rightarrow> fault"
  upd_fault :: "string \<Rightarrow> nat \<Rightarrow> fault"
  list_fault :: "string \<Rightarrow> fault"
  neg_uint :: "time \<Rightarrow> nat"
  now :: time

type_synonym task_db = "ai_task table"

definition svc_Create :: "fault \<Rightarrow> ai_task \<Rightarrow> task_db \<Rightarrow> fault \<times> task_db" where
  "svc_Create f task db = (case f of Some e \<Rightarrow> (Some e, db) | None \<Rightarrow> (None, db @ [task]))"

text \<open>\<open>Save\<close> writes every column of the row with the same primary key, or inserts it.\<close>

definition svc_Update :: "fault \<Rightarrow> ai_task \<Rightarrow> task_db \<Rightarrow> fault \<times> task_db" where
  "svc_Update f task db =
     (case f of
        Some e \<Rightarrow> (Some e, db)
      | None \<Rightarrow> (None, if tbl_first (\<lambda>t. t_id t = t_id task) db = None then db @ [task]
                       else tbl_updates (\<lambda>t. t_id t = t_id task) (\<lambda>_. task) db))"

definition svc_GetByID :: "task_db_env \<Rightarrow> task_db \<Rightarrow> nat \<Rightarrow> ai_task result" where
  "svc_GetByID env db taskID =
     (case get_fault env taskID of
        Some e \<Rightarrow> Inl e
      | None \<Rightarrow> (case tbl_first (\<lambda>t. t_id t = taskID) db of
                  None \<Rightarrow> Inl ''record not found''
                | Some t \<Rightarrow> Inr t))"

text \<open>
  \<open>uint(d.Seconds())\<close>: the fraction is cut off; Go leaves the conversion of a value at or below
  minus one second to the platform.
\<close>

definition uint_seconds :: "task_db_env \<Rightarrow> time \<Rightarrow> nat" where
  "uint_seconds env d =
     (if d \<le> - 1000000000 then neg_uint env d else if d < 0 then 0 else nat (d div 1000000000))"

definition status_update :: "task_db_env \<Rightarrow> ai_task \<Rightarrow> string \<Rightarrow> string \<Rightarrow> ai_task \<Rightarrow> ai_task" where
  "status_update env task status reason row =
     (let row1 = row\<lparr>t_status := status, t_statusReason := reason\<rparr>; t = now env in
      if status = ''Created'' then row1\<lparr>t_admittedAt := Some t\<rparr>
      else if status = ''Running'' then row1\<lparr>t_startedAt := Some t\<rparr>
      else if status = ''Succeeded'' \<or> status = ''Failed'' then
        (case t_startedAt task of
           None \<Rightarrow> row1\<lparr>t_finishAt := Some t, t_jct := uint_seconds env (t - t_createdAt task)\<rparr>
         | Some s \<Rightarrow> row1\<lparr>t_finishAt := Some t, t_duration := uint_seconds env (t - s),
                           t_jct := uint_seconds env (t - t_createdAt task)\<rparr>)
      else row1)"

definition svc_UpdateStatus :: "task_db_env \<Rightarrow> nat \<Rightarrow> string \<Rightarrow> string \<Rightarrow> task_db \<Rightarrow> fault \<times> task_db" where
  "svc_UpdateStatus env taskID status reason db =
     (case svc_GetByID env db taskID of
        Inl e \<Rightarrow> (Some e, db)
      | Inr task \<Rightarrow>
          if t_status task = status then (None, db)
          else (case upd_fault env ''status'' taskID of
                  Some e \<Rightarrow> (Some e, db)
                | None \<Rightarrow> (None, tbl_updates (\<lambda>t. t_id t = taskID) (status_update env task status reason) db)))"

definition svc_UpdateJobName :: "task_db_env \<Rightarrow> nat \<Rightarrow> string \<Rightarrow> task_db \<Rightarrow> fault \<times> task_db" where
  "svc_UpdateJobName env taskID jobname db =
     (case upd_fault env ''jobname'' taskID of
        Some e \<Rightarrow> (Some e, db)
      | None \<Rightarrow> (None, tbl_updates (\<lambda>t. t_id t = taskID) (\<lambda>t. t\<lparr>t_jobName := jobname\<rparr>) db))"

definition svc_UpdateNodeName :: "task_db_env \<Rightarrow> nat \<Rightarrow> string \<Rightarrow> task_db \<Rightarrow> fault \<times> task_db" where
  "svc_UpdateNodeName env taskID nodeName db =
     (case upd_fault env ''node'' taskID of
        Some e \<Rightarrow> (Some e, db)
      | None \<Rightarrow> (None, tbl_updates (\<lambda>t. t_id t = taskID) (\<lambda>t. t\<lparr>t_node := nodeName\<rparr>) db))"

definition svc_UpdateToken :: "task_db_env \<Rightarrow> nat \<Rightarrow> string \<Rightarrow> task_db \<Rightarrow> fault \<times> task_db" where
  "svc_UpdateToken env taskID token db =
     (case upd_fault env ''token'' taskID of
        Some e \<Rightarrow> (Some e, db)
      | None \<Rightarrow> (None, tbl_updates (\<lambda>t. t_id t = taskID) (\<lambda>t. t\<lparr>t_token := token\<rparr>) db))"

definition svc_UpdateNodePort :: "task_db_env \<Rightarrow> nat \<Rightarrow> int \<Rightarrow> task_db \<Rightarrow> fault \<times> task_db" where
  "svc_UpdateNodePort env taskID nodePort db =
     (case upd_fault env ''node_port'' taskID of
        Some e \<Rightarrow> (Some e, db)
      | None \<Rightarrow> (None, tbl_updates (\<lambda>t. t_id t = taskID) (\<lambda>t. t\<lparr>t_nodePort := nodePort\<rparr>) db))"

text \<open>The profile statistics and a job status are written with the status 3 (finished) only.\<close>

definition profiling_update :: "nat \<Rightarrow> string \<Rightarrow> string \<Rightarrow> ai_task \<Rightarrow> ai_task" where
  "profiling_update profileStatus stat status row =
     (let row1 = row\<lparr>t_profileStatus := profileStatus\<rparr> in
      if profileStatus = 3 then
        (let row2 = row1\<lparr>t_profileStat := stat\<rparr> in
         if status \<noteq> [] then row2\<lparr>t_status := status\<rparr> else row2)
      else row1)"

definition svc_UpdateProfilingStat :: "task_db_env \<Rightarrow> nat \<Rightarrow> nat \<Rightarrow> string \<Rightarrow> string \<Rightarrow> task_db \<Rightarrow> fault \<times> task_db" where
  "svc_UpdateProfilingStat env taskID profileStatus stat status db =
     (case upd_fault env ''profile'' taskID of
        Some e \<Rightarrow> (Some e, db)
      | None \<Rightarrow> (None, tbl_updates (\<lambda>t. t_id t = taskID) (profiling_update profileStatus stat status) db))"

definition svc_DeleteByQueueAndID :: "task_db_env \<Rightarrow> string \<Rightarrow> nat \<Rightarrow> task_db \<Rightarrow> fault \<times> task_db" where
  "svc_DeleteByQueueAndID env queue taskID db =
     (case upd_fault env ''is_deleted'' taskID of
        Some e \<Rightarrow> (Some e, db)
      | None \<Rightarrow> (None, tbl_updates (\<lambda>t. t_userName t = queue \<and> t_id t = taskID) (\<lambda>t. t\<lparr>t_isDeleted := True\<rparr>) db))"

definition svc_ForceDeleteByUserAndID :: "task_db_env \<Rightarrow> string \<Rightarrow> nat \<Rightarrow> task_db \<Rightarrow> fault \<times> task_db" where
  "svc_ForceDeleteByUserAndID env userName taskID db =
     (case upd_fault env ''delete'' taskID of
        Some e \<Rightarrow> (Some e, db)
      | None \<Rightarrow> (None, tbl_delete (\<lambda>t. t_userName t = userName \<and> t_id t = taskID) db))"

definition svc_DeleteByID :: "task_db_env \<Rightarrow> nat \<Rightarrow> task_db \<Rightarrow> fault \<times> task_db" where
  "svc_DeleteByID env taskID db =
     (case upd_fault env ''delete'' taskID of
        Some e \<Rightarrow> (Some e, db)
      | None \<Rightarrow> (None, tbl_delete (\<lambda>t. t_id t = taskID) db))"

definition svc_ListByUserAndStatuses :: "task_db_env \<Rightarrow> string \<Rightarrow> string list \<Rightarrow> task_db \<Rightarrow> ai_task list result" where
  "svc_ListByUserAndStatuses env userName statuses db =
     (case list_fault env userName of
        Some e \<Rightarrow> Inl e
      | None \<Rightarrow>
          Inr (if statuses = [] then tbl_find (\<lambda>t. t_userName t = userName) db
               else tbl_find (\<lambda>t. t_userName t = userName \<and> List.member statuses (t_status t) \<and>
                                   \<not> t_isDeleted t) db))"

text \<open>Newest first; the rows come back in this order from the two listings below and the pages.\<close>

definition by_created_desc :: "ai_task list \<Rightarrow> ai_task list" where
  "by_created_desc ts = sort_key (\<lambda>t. - t_createdAt t) ts"

definition svc_ListByTaskType :: "task_db_env \<Rightarrow> string \<Rightarrow> nat \<Rightarrow> int \<Rightarrow> task_db \<Rightarrow> (ai_task list \<times> nat) result" where
  "svc_ListByTaskType env taskType page pageSize db =
     (case list_fault env taskType of
        Some e \<Rightarrow> Inl e
      | None \<Rightarrow>
          (let rows = tbl_find (\<lambda>t. t_taskType t = taskType) db; qu = by_created_desc rows in
           Inr (if 0 < pageSize then take (nat pageSize) (drop (page * nat pageSize) qu) else qu,
                length rows)))"

definition svc_ListByQueue :: "task_db_env \<Rightarrow> string \<Rightarrow> task_db \<Rightarrow> ai_task list result" where
  "svc_ListByQueue env queue db =
     (case list_fault env queue of
        Some e \<Rightarrow> Inl e
      | None \<Rightarrow> Inr (by_created_desc (tbl_find (\<lambda>t. t_userName t = queue) db)))"

definition svc_ListAll :: "task_db_env \<Rightarrow> task_db \<Rightarrow> ai_task list result" where
  "svc_ListAll env db =
     (case list_fault env '''' of Some e \<Rightarrow> Inl e | None \<Rightarrow> Inr (by_created_desc db))"

definition svc_GetByJobName :: "fault \<Rightarrow> string \<Rightarrow> task_db \<Rightarrow> ai_task result" where
  "svc_GetByJobName f jobName db =
     (case f of
        Some e \<Rightarrow> Inl e
      | None \<Rightarrow> (case tbl_first (\<lambda>t. t_jobName t = jobName) db of
                  None \<Rightarrow> Inl ''record not found'' | Some t \<Rightarrow> Inr t))"

definition svc_GetByQueueAndID :: "task_db_env \<Rightarrow> string \<Rightarrow> nat \<Rightarrow> task_db \<Rightarrow> ai_task result" where
  "svc_GetByQueueAndID env userName taskID db =
     (case get_fault env taskID of
        Some e \<Rightarrow> Inl e
      | None \<Rightarrow> (case tbl_first (\<lambda>t. t_userName t = userName \<and> t_id t = taskID) db of
                  None \<Rightarrow> Inl ''record not found'' | Some t \<Rightarrow> Inr t))"

text \<open>\<open>GROUP BY status\<close>: one result per status that occurs, with the number of its rows.\<close>

definition status_counts :: "ai_task list \<Rightarrow> (string \<times> nat) list" where
  "status_counts ts =
     map (\<lambda>s. (s, length (filter (\<lambda>t. t_status t = s) ts))) (remdups (map t_status ts))"

definition svc_GetTaskStatusCount :: "task_db_env \<Rightarrow> task_db \<Rightarrow> (string \<times> nat) list result" where
  "svc_GetTaskStatusCount env db =
     (case list_fault env '''' of
        Some e \<Rightarrow> Inl e
      | None \<Rightarrow> Inr (status_counts (tbl_find (\<lambda>t. \<not> t_isDeleted t) db)))"

definition svc_GetUserTaskStatusCount :: "task_db_env \<Rightarrow> string \<Rightarrow> task_db \<Rightarrow> (string \<times> nat) list result" where
  "svc_GetUserTaskStatusCount env userName db =
     (case list_fault env userName of
        Some e \<Rightarrow> Inl e
      | None \<Rightarrow> Inr (status_counts (tbl_find (\<lambda>t. t_userName t = userName \<and> \<not> t_isDeleted t) db)))"

section \<open>Rows by primary key\<close>

definition task_row :: "task_db \<Rightarrow> nat \<Rightarrow> ai_task option" where
  "task_row db i = tbl_first (\<lambda>t. t_id t = i) db"

definition db_ok :: "task_db \<Rightarrow> bool" where
  "db_ok db \<longleftrightarrow> distinct (map t_id db)"

lemma task_row_id: "task_row db i = Some t \<Longrightarrow> t_id t = i"
  by (auto simp: task_row_def dest: tbl_first_Some)

lemma task_row_in: "task_row db i = Some t \<Longrightarrow> t \<in> set db"
  by (auto simp: task_row_def dest: tbl_first_Some)

lemma task_row_update:
  "(\<And>t. t_id (f t) = t_id t) \<Longrightarrow>
   task_row (tbl_updates (\<lambda>t. t_id t = i) f db) = (task_row db)(i := map_option f (task_row db i))"
  unfolding task_row_def by (rule ext) (induction db, auto simp: tbl_first_Cons)

lemma tbl_updates_ids: "(\<And>t. t_id (f t) = t_id t) \<Longrightarrow> map t_id (tbl_updates P f db) = map t_id db"
  by (simp add: tbl_updates_def)

lemma db_ok_update: "(\<And>t. t_id (f t) = t_id t) \<Longrightarrow> db_ok (tbl_updates P f db) = db_ok db"
  by (simp add: db_ok_def tbl_updates_ids)

lemma svc_GetByID_Inr: "svc_GetByID env db i = Inr t \<longleftrightarrow> get_fault env i = None \<and> task_row db i = Some t"
  by (auto simp: svc_GetByID_def task_row_def split: option.splits)

text \<open>What the update calls never touch: identity, owner, submission time, service level and request.\<close>

definition same_task :: "ai_task \<Rightarrow> ai_task \<Rightarrow> bool" where
  "same_task t t' \<longleftrightarrow>
     t_id t' = t_id t \<and> t_createdAt t' = t_createdAt t \<and> t_userName t' = t_userName t \<and>
     t_taskType t' = t_taskType t \<and> t_taskName t' = t_taskName t \<and>
     t_slo t' = t_slo t \<and> t_resourceRequest t' = t_resourceRequest t \<and> t_isDeleted t' = t_isDeleted t"

lemma same_task_refl [simp]: "same_task t t"
  by (simp add: same_task_def)

lemma same_task_trans: "same_task a b \<Longrightarrow> same_task b c \<Longrightarrow> same_task a c"
  by (simp add: same_task_def)

lemma status_update_same [simp]: "same_task row (status_update env task s r row)"
  by (auto simp: same_task_def status_update_def Let_def split: option.split)

lemma status_update_fields [simp]:
  "t_id (status_update env task s r row) = t_id row"
  "t_status (status_update env task s r row) = s"
  "t_statusReason (status_update env task s r row) = r"
  "t_profileStatus (status_update env task s r row) = t_profileStatus row"
  "t_jobName (status_update env task s r row) = t_jobName row"
  "t_node (status_update env task s r row) = t_node row"
  by (auto simp: status_update_def Let_def split: option.split)

lemma profiling_update_same: "same_task row (profiling_update p st s row)"
  by (auto simp: same_task_def profiling_update_def Let_def)

lemma profiling_update_id [simp]: "t_id (profiling_update p st s row) = t_id row"
  by (auto simp: profiling_update_def Let_def)

section \<open>The service as an interface\<close>

text \<open>
  What the controller relies on when it talks to the service: a call that fails changes nothing,
  a call that succeeds changes the one row it names and only the column it is for.
\<close>

locale task_service =
  fixes look :: "'d \<Rightarrow> nat \<Rightarrow> ai_task option"
    and get :: "'d \<Rightarrow> nat \<Rightarrow> ai_task result"
    and upd_status :: "nat \<Rightarrow> string \<Rightarrow> string \<Rightarrow> 'd \<Rightarrow> fault \<times> 'd"
    and upd_job :: "nat \<Rightarrow> string \<Rightarrow> 'd \<Rightarrow> fault \<times> 'd"
    and upd_node :: "nat \<Rightarrow> string \<Rightarrow> 'd \<Rightarrow> fault \<times> 'd"
  assumes get_ok: "get d i = Inr t \<Longrightarrow> look d i = Some t"
    and upd_status_fault: "upd_status i s r d = (Some e, d') \<Longrightarrow> d' = d"
    and upd_status_ok: "upd_status i s r d = (None, d') \<Longrightarrow>
      \<exists>t t'. look d i = Some t \<and> look d' = (look d)(i \<mapsto> t') \<and> t_status t' = s \<and> same_task t t' \<and>
             t_node t' = t_node t \<and> t_jobName t' = t_jobName t"
    and upd_job_fault: "upd_job i j d = (Some e, d') \<Longrightarrow> d' = d"
    and upd_job_ok: "upd_job i j d = (None, d') \<Longrightarrow>
      look d' = (look d)(i := map_option (\<lambda>t. t\<lparr>t_jobName := j\<rparr>) (look d i))"
    and upd_node_fault: "upd_node i n d = (Some e, d') \<Longrightarrow> d' = d"
    and upd_node_ok: "upd_node i n d = (None, d') \<Longrightarrow>
      look d' = (look d)(i := map_option (\<lambda>t. t\<lparr>t_node := n\<rparr>) (look d i))"
begin

text \<open>The two writes of an admission, and the two writes of a start on a node.\<close>

lemma status_then_job:
  assumes "upd_status i s r d = (None, d1)" and "upd_job i j d1 = (None, d2)"
  shows "\<exists>t t'. look d i = Some t \<and> look d2 = (look d)(i \<mapsto> t') \<and> t_status t' = s \<and>
                t_jobName t' = j \<and> same_task t t'"
proof -
  from upd_status_ok [OF assms(1)] obtain t t' where "look d i = Some t" "look d1 = (look d)(i \<mapsto> t')"
    "t_status t' = s" "same_task t t'" by blast
  with upd_job_ok [OF assms(2)] show ?thesis
    by (intro exI [of _ t] exI [of _ "t'\<lparr>t_jobName := j\<rparr>"]) (simp add: same_task_def)
qed

lemma status_then_node:
  assumes "upd_status i s r d = (None, d1)" and "upd_node i n d1 = (None, d2)"
  shows "\<exists>t t'. look d i = Some t \<and> look d2 = (look d)(i \<mapsto> t') \<and> t_status t' = s \<and>
                t_node t' = n \<and> same_task t t'"
proof -
  from upd_status_ok [OF assms(1)] obtain t t' where "look d i = Some t" "look d1 = (look d)(i \<mapsto> t')"
    "t_status t' = s" "same_task t t'" by blast
  with upd_node_ok [OF assms(2)] show ?thesis
    by (intro exI [of _ t] exI [of _ "t'\<lparr>t_node := n\<rparr>"]) (simp add: same_task_def)
qed

lemma other_rows_kept:
  assumes "upd_status i s r d = (f, d')" and "k \<noteq> i"
  shows "look d' k = look d k"
  using assms upd_status_fault [of i s r d] upd_status_ok [of i s r d] by (cases f) auto

end

interpretation svc: task_service task_row "\<lambda>db. svc_GetByID env db" "svc_UpdateStatus env"
  "svc_UpdateJobName env" "svc_UpdateNodeName env"
  for env
proof (unfold_locales, goal_cases)
  case (3 i s r d d')
  then obtain t where t: "task_row d i = Some t"
    and d': "d' = (if t_status t = s then d
                   else tbl_updates (\<lambda>t. t_id t = i) (status_update env t s r) d)"
    by (auto simp: svc_UpdateStatus_def svc_GetByID_Inr split: sum.splits option.splits if_splits)
  show ?case
  proof (cases "t_status t = s")
    case True
    with t d' show ?thesis by (intro exI [of _ t]) auto
  next
    case False
    with t d' show ?thesis
      by (intro exI [of _ t] exI [of _ "status_update env t s r t"]) (auto simp: task_row_update)
  qed
qed (auto simp: svc_GetByID_Inr svc_UpdateStatus_def svc_UpdateJobName_def svc_UpdateNodeName_def
    task_row_update split: sum.splits option.splits if_splits)

section \<open>Properties\<close>

text \<open>\<open>UpdateStatus\<close> on every branch: an error of either database call leaves the table
  as it was; a status that is already set is left alone; otherwise exactly the row of that id
  takes the new status and reason, a creation, start or finish is stamped with the current time,
  and a finished task gets its completion time from submission, and its run time from the start
  it had when it was read.\<close>

theorem update_status_branches:
  assumes "task_row db i = Some t"
  shows "\<exists>f db'. svc_UpdateStatus env i s r db = (f, db') \<and>
    (\<forall>k. k \<noteq> i \<longrightarrow> task_row db' k = task_row db k) \<and> map t_id db' = map t_id db \<and>
    (case get_fault env i of
       Some e \<Rightarrow> f = Some e \<and> db' = db
     | None \<Rightarrow>
        (if t_status t = s then f = None \<and> db' = db
         else (case upd_fault env ''status'' i of
           Some e \<Rightarrow> f = Some e \<and> db' = db
         | None \<Rightarrow> f = None \<and> (\<exists>t'. task_row db' i = Some t' \<and> same_task t t' \<and>
             t_status t' = s \<and> t_statusReason t' = r \<and>
             t_admittedAt t' = (if s = ''Created'' then Some (now env) else t_admittedAt t) \<and>
             t_startedAt t' = (if s = ''Running'' then Some (now env) else t_startedAt t) \<and>
             t_finishAt t' = (if s = ''Succeeded'' \<or> s = ''Failed'' then Some (now env) else t_finishAt t) \<and>
             ((s = ''Succeeded'' \<or> s = ''Failed'') \<and> t_createdAt t \<le> now env \<longrightarrow>
                t_jct t' = nat ((now env - t_createdAt t) div 1000000000)) \<and>
             ((s = ''Succeeded'' \<or> s = ''Failed'') \<and> t_startedAt t = Some st \<and> st \<le> now env \<longrightarrow>
                t_duration t' = nat ((now env - st) div 1000000000))))))"
proof -
  have get: "svc_GetByID env db i = (case get_fault env i of Some e \<Rightarrow> Inl e | None \<Rightarrow> Inr t)"
    using assms by (simp add: svc_GetByID_def task_row_def split: option.split)
  let ?u = "status_update env t s r"
  let ?db = "tbl_updates (\<lambda>t. t_id t = i) ?u db"
  have row: "task_row ?db = (task_row db)(i \<mapsto> ?u t)"
    using assms by (simp add: task_row_update)
  have ids: "map t_id ?db = map t_id db" by (simp add: tbl_updates_ids)
  show ?thesis
  proof (cases "get_fault env i = None \<and> t_status t \<noteq> s \<and> upd_fault env ''status'' i = None")
    case True
    then have "svc_UpdateStatus env i s r db = (None, ?db)" using get by (simp add: svc_UpdateStatus_def)
    with True row ids show ?thesis
      by (simp add: status_update_same)
        (auto simp: status_update_def uint_seconds_def Let_def split: option.split)
  next
    case False
    with get show ?thesis
      by (cases "get_fault env i"; cases "upd_fault env ''status'' i")
        (auto simp: svc_UpdateStatus_def)
  qed
qed

lemma update_status_branches_witness:
  "\<exists>f db'. svc_UpdateStatus
      \<lparr>get_fault = (\<lambda>_. None), upd_fault = (\<lambda>_ _. None), list_fault = (\<lambda>_. None), neg_uint = (\<lambda>_. 0),
       now = 5000000000\<rparr> 7 ''Failed'' ''oom'' [sample_task\<lparr>t_startedAt := Some 2000000000\<rparr>] = (f, db') \<and>
      f = None \<and> (\<exists>t'. task_row db' 7 = Some t' \<and> t_duration t' = 3 \<and> t_jct t' = 5)"
  using update_status_branches [of "[sample_task\<lparr>t_startedAt := Some 2000000000\<rparr>]" 7 _
      "\<lparr>get_fault = (\<lambda>_. None), upd_fault = (\<lambda>_ _. None), list_fault = (\<lambda>_. None), neg_uint = (\<lambda>_. 0),
       now = 5000000000\<rparr>" "''Failed''" "''oom''" 2000000000]
  by (auto simp: task_row_def tbl_first_Cons sample_task_fields)

text \<open>The pages of \<open>ListByTaskType\<close> partition the listing: for a positive page size the
  pages 0, 1, ... put together are exactly the tasks of the type, newest first, each once, and
  the count returned with every page is their number.\<close>

theorem task_pages_partition:
  assumes "0 < pageSize" and "list_fault env taskType = None"
    and "length (tbl_find (\<lambda>t. t_taskType t = taskType) db) \<le> n * nat pageSize"
  shows "\<exists>pages. length pages = n \<and>
    (\<forall>p < n. svc_ListByTaskType env taskType p pageSize db =
       Inr (pages ! p, length (tbl_find (\<lambda>t. t_taskType t = taskType) db))) \<and>
    concat pages = by_created_desc (tbl_find (\<lambda>t. t_taskType t = taskType) db) \<and>
    sorted_wrt (\<lambda>a b. t_createdAt b \<le> t_createdAt a) (concat pages)"
proof -
  let ?k = "nat pageSize"
  let ?qu = "by_created_desc (tbl_find (\<lambda>t. t_taskType t = taskType) db)"
  let ?pages = "map (\<lambda>p. take ?k (drop (p * ?k) ?qu)) [0..<n]"
  have "concat (map (\<lambda>p. take ?k (drop (p * ?k) xs)) [0..<m]) = take (m * ?k) xs" for xs :: "ai_task list" and m
    by (induction m) (simp_all add: take_add [symmetric] add.commute)
  then have "concat ?pages = take (n * ?k) ?qu" .
  also have "\<dots> = ?qu" using assms(3) by (simp add: by_created_desc_def)
  finally have cc: "concat ?pages = ?qu" .
  have "sorted (map (\<lambda>t. - t_createdAt t) ?qu)" by (simp add: by_created_desc_def)
  then have "sorted_wrt (\<lambda>a b. t_createdAt b \<le> t_createdAt a) ?qu"
    by (simp add: sorted_map)
  then show ?thesis
    using assms cc by (intro exI [of _ ?pages]) (auto simp: svc_ListByTaskType_def Let_def)
qed

lemma task_pages_partition_witness:
  "\<exists>pages. length pages = 1 \<and> concat pages = by_created_desc (tbl_find (\<lambda>t. t_taskType t = ''training'') ([] :: task_db))"
  using task_pages_partition [of 10
      "\<lparr>get_fault = (\<lambda>_. None), upd_fault = (\<lambda>_ _. None), list_fault = (\<lambda>_. None), neg_uint = (\<lambda>_. 0), now = 0\<rparr>"
      "''training''" "[]" 1]
  by (auto simp: tbl_find_def)

text \<open>The per-status counts name every status that occurs among the user's tasks that are
  not marked deleted exactly once, and add up to the number of these tasks.\<close>

theorem user_status_counts_total:
  assumes "list_fault env u = None"
  shows "\<exists>cs. svc_GetUserTaskStatusCount env u db = Inr cs \<and> distinct (map fst cs) \<and>
    set (map fst cs) = t_status ` {t \<in> set db. t_userName t = u \<and> \<not> t_isDeleted t} \<and>
    (\<forall>(s, c) \<in> set cs. c = length (filter (\<lambda>t. t_userName t = u \<and> \<not> t_isDeleted t \<and> t_status t = s) db) \<and> 0 < c) \<and>
    sum_list (map snd cs) = length (filter (\<lambda>t. t_userName t = u \<and> \<not> t_isDeleted t) db)"
proof -
  let ?ts = "tbl_find (\<lambda>t. t_userName t = u \<and> \<not> t_isDeleted t) db"
  have len: "(\<Sum>s \<leftarrow> ss. length (filter (\<lambda>t. t_status t = s) ts)) = length ts"
    if "distinct ss" "t_status ` set ts \<subseteq> set ss" for ss and ts :: "ai_task list"
    using that
  proof (induction ts)
    case Nil
    then show ?case by (induction ss) auto
  next
    case (Cons t ts)
    have one: "(\<Sum>s \<leftarrow> ss. if t_status t = s then Suc (f s) else f s) = Suc (\<Sum>s \<leftarrow> ss. f s)"
      if "distinct ss" "t_status t \<in> set ss" for ss and f :: "string \<Rightarrow> nat"
      using that
    proof (induction ss)
      case (Cons s ss)
      have "(\<Sum>s \<leftarrow> ss. if t_status t = s then Suc (f s) else f s) = (\<Sum>s \<leftarrow> ss. f s)"
        if "t_status t \<notin> set ss"
        using that by (induction ss) auto
      with Cons show ?case by (cases "t_status t = s") auto
    qed simp
    have "(\<Sum>s \<leftarrow> ss. length (filter (\<lambda>t. t_status t = s) (t # ts))) =
          (\<Sum>s \<leftarrow> ss. if t_status t = s then Suc (length (filter (\<lambda>t. t_status t = s) ts))
                    else length (filter (\<lambda>t. t_status t = s) ts))"
      by (induction ss) auto
    with one [OF Cons.prems(1)] Cons show ?case by simp
  qed
  have pos: "s \<in> t_status ` set ?ts \<Longrightarrow> 0 < length (filter (\<lambda>t. t_status t = s) ?ts)" for s
    by (force simp: filter_empty_conv)
  have ff: "filter (\<lambda>t. t_status t = s) ?ts =
     filter (\<lambda>t. t_userName t = u \<and> \<not> t_isDeleted t \<and> t_status t = s) db" for s
    by (simp add: tbl_find_def conj_ac)
  have keys: "map fst (status_counts ?ts) = remdups (map t_status ?ts)"
    by (simp add: status_counts_def comp_def)
  have total: "sum_list (map snd (status_counts ?ts)) = length ?ts"
    using len [of "remdups (map t_status ?ts)" ?ts] by (simp add: status_counts_def comp_def)
  have each: "c = length (filter (\<lambda>t. t_userName t = u \<and> \<not> t_isDeleted t \<and> t_status t = s) db) \<and> 0 < c"
    if "(s, c) \<in> set (status_counts ?ts)" for s c
    using that pos ff by (auto simp: status_counts_def)
  have stat: "t_status ` set ?ts = t_status ` {t \<in> set db. t_userName t = u \<and> \<not> t_isDeleted t}"
    by (simp add: tbl_find_def)
  show ?thesis
  proof (intro exI [of _ "status_counts ?ts"] conjI)
    show "svc_GetUserTaskStatusCount env u db = Inr (status_counts ?ts)"
      using assms by (simp add: svc_GetUserTaskStatusCount_def)
    show "set (map fst (status_counts ?ts)) = t_status ` {t \<in> set db. t_userName t = u \<and> \<not> t_isDeleted t}"
      unfolding keys using stat by simp
    show "sum_list (map snd (status_counts ?ts)) = length (filter (\<lambda>t. t_userName t = u \<and> \<not> t_isDeleted t) db)"
      using total by (simp add: tbl_find_def)
  qed (use keys each in auto)
qed

lemma user_status_counts_total_witness:
  "\<exists>cs. svc_GetUserTaskStatusCount
      \<lparr>get_fault = (\<lambda>_. None), upd_fault = (\<lambda>_ _. None), list_fault = (\<lambda>_. None), neg_uint = (\<lambda>_. 0), now = 0\<rparr>
      ''u'' [] = Inr cs \<and> sum_list (map snd cs) = 0"
  using user_status_counts_total [of
      "\<lparr>get_fault = (\<lambda>_. None), upd_fault = (\<lambda>_ _. None), list_fault = (\<lambda>_. None), neg_uint = (\<lambda>_. 0), now = 0\<rparr>"
      "''u''" "[]"] by auto

end
