(* ===== verification/Task_Queue.thy ===== *)
theory Task_Queue imports Go_Queue AI_Task begin

text \<open>
  \<open>pkg/aitaskctl/userqueue.go\<close> and \<open>taskqueue.go\<close>: per user, one queue of tasks with a
  guaranteed service level and one of best-effort tasks.  The two queues are instances of the
  keyed queue of \<open>Go_Queue\<close>, keyed by the printed task id; the proofs use only the facts of its
  interface.
\<close>

section \<open>State and operations\<close>

record user_queue =
  uq_username :: string
  uq_gauranteed :: "ai_task queue"
  uq_bestEffort :: "ai_task queue"

type_synonym task_queue = "(string, user_queue) gomap"

definition NewTaskQueue :: task_queue where
  "NewTaskQueue = []"

definition NewUserQueue :: "string \<Rightarrow> user_queue" where
  "NewUserQueue username =
     \<lparr>uq_username = username, uq_gauranteed = q_New keyFunc fifoOrdering,
      uq_bestEffort = q_New keyFunc fifoOrdering\<rparr>"

definition init_push :: "ai_task \<Rightarrow> user_queue \<Rightarrow> user_queue" where
  "init_push task q =
     (if t_slo task = EmiasHighSLO then
        q\<lparr>uq_gauranteed := snd (q_PushIfNotPresent task (uq_gauranteed q))\<rparr>
      else if t_slo task = EmiasLowSLO then
        q\<lparr>uq_bestEffort := snd (q_PushIfNotPresent task (uq_bestEffort q))\<rparr>
      else q)"

definition InitUserQueue :: "string \<Rightarrow> ai_task list \<Rightarrow> task_queue \<Rightarrow> task_queue" where
  "InitUserQueue username taskList tq =
     gm_put username (fold init_push taskList (NewUserQueue username)) tq"

text \<open>The operations below do nothing for a user without a queue.\<close>

definition with_user_queue :: "string \<Rightarrow> (user_queue \<Rightarrow> user_queue) \<Rightarrow> task_queue \<Rightarrow> task_queue" where
  "with_user_queue username f tq =
     (case gm_get tq username of None \<Rightarrow> tq | Some q \<Rightarrow> gm_put username (f q) tq)"

definition tq_AddTask :: "ai_task \<Rightarrow> task_queue \<Rightarrow> task_queue" where
  "tq_AddTask task =
     with_user_queue (t_userName task) (\<lambda>q.
       if t_slo task = EmiasHighSLO then
         q\<lparr>uq_gauranteed := q_PushOrUpdate task (uq_gauranteed q)\<rparr>
       else if t_slo task = EmiasLowSLO then
         q\<lparr>uq_bestEffort := q_PushOrUpdate task (uq_bestEffort q)\<rparr>
       else q)"

definition tq_DeleteTask :: "ai_task \<Rightarrow> task_queue \<Rightarrow> task_queue" where
  "tq_DeleteTask task =
     with_user_queue (t_userName task) (\<lambda>q.
       if t_slo task = EmiasHighSLO then
         q\<lparr>uq_gauranteed := snd (q_Delete task (uq_gauranteed q))\<rparr>
       else if t_slo task = EmiasLowSLO then
         q\<lparr>uq_bestEffort := snd (q_Delete task (uq_bestEffort q))\<rparr>
       else q)"

definition tq_DeleteTaskByUserNameAndTaskID :: "string \<Rightarrow> string \<Rightarrow> task_queue \<Rightarrow> task_queue" where
  "tq_DeleteTaskByUserNameAndTaskID username taskid =
     with_user_queue username (\<lambda>q.
       q\<lparr>uq_gauranteed := snd (q_DeleteByKey taskid (uq_gauranteed q)),
         uq_bestEffort := snd (q_DeleteByKey taskid (uq_bestEffort q))\<rparr>)"

definition tq_UpdateTask :: "ai_task \<Rightarrow> task_queue \<Rightarrow> task_queue" where
  "tq_UpdateTask task =
     with_user_queue (t_userName task) (\<lambda>q.
       if t_slo task = EmiasHighSLO then
         q\<lparr>uq_gauranteed := q_PushOrUpdate task (uq_gauranteed q),
           uq_bestEffort := snd (q_Delete task (uq_bestEffort q))\<rparr>
       else if t_slo task = EmiasLowSLO then
         q\<lparr>uq_bestEffort := q_PushOrUpdate task (uq_bestEffort q),
           uq_gauranteed := snd (q_Delete task (uq_gauranteed q))\<rparr>
       else q)"

section \<open>Invariant\<close>

text \<open>
  Both queues are well formed and keyed by the task id, and every task stands in the queue of
  its user and its service level.
\<close>

definition queue_of :: "string \<Rightarrow> nat \<Rightarrow> ai_task queue \<Rightarrow> bool" where
  "queue_of u slo q \<longleftrightarrow>
     (queue_inv q \<and> q_keyFunc q = keyFunc) \<and>
     (\<forall>k t. q_GetByKey q k = Some t \<longrightarrow> t_userName t = u \<and> t_slo t = slo)"

definition uq_inv :: "string \<Rightarrow> user_queue \<Rightarrow> bool" where
  "uq_inv u q \<longleftrightarrow> queue_of u EmiasHighSLO (uq_gauranteed q) \<and> queue_of u EmiasLowSLO (uq_bestEffort q)"

definition tq_inv :: "task_queue \<Rightarrow> bool" where
  "tq_inv tq \<longleftrightarrow> (\<forall>u q. gm_get tq u = Some q \<longrightarrow> uq_inv u q)"

lemma q_Delete_key: "q_keyFunc q = keyFunc \<Longrightarrow> q_Delete t q = q_DeleteByKey (keyFunc t) q"
  by (simp add: q_Delete_def q_DeleteByKey_def)

lemma queue_of_New [simp]: "queue_of u s (q_New keyFunc lf)"
  by (simp add: queue_of_def)

lemma queue_of_put:
  "queue_of u s q \<Longrightarrow> t_userName t = u \<Longrightarrow> t_slo t = s \<Longrightarrow> queue_of u s (q_PushOrUpdate t q)"
  using gq.inv_put [of q keyFunc t] gq.look_put [of q keyFunc t] by (simp add: queue_of_def)

lemma queue_of_put_new:
  "queue_of u s q \<Longrightarrow> t_userName t = u \<Longrightarrow> t_slo t = s \<Longrightarrow> queue_of u s (snd (q_PushIfNotPresent t q))"
  using gq.inv_put_new [of q keyFunc t] gq.look_put_new [of q keyFunc t] by (simp add: queue_of_def)

lemma queue_of_del: "queue_of u s q \<Longrightarrow> queue_of u s (snd (q_DeleteByKey k q))"
  using gq.inv_del [of q keyFunc k] gq.look_del [of q keyFunc k] by (simp add: queue_of_def)

lemma queue_of_Delete: "queue_of u s q \<Longrightarrow> queue_of u s (snd (q_Delete t q))"
  using queue_of_del [of u s q "keyFunc t"] by (simp add: queue_of_def q_Delete_key)

lemmas queue_of_intros = queue_of_put queue_of_put_new queue_of_del queue_of_Delete

lemma tq_inv_with:
  "tq_inv tq \<Longrightarrow> (\<And>q. uq_inv u q \<Longrightarrow> uq_inv u (f q)) \<Longrightarrow> tq_inv (with_user_queue u f tq)"
  by (auto simp: tq_inv_def with_user_queue_def split: option.split)

lemma with_user_queue_get:
  "gm_get (with_user_queue u f tq) v = (if v = u then map_option f (gm_get tq u) else gm_get tq v)"
  by (auto simp: with_user_queue_def split: option.split)

lemma uq_inv_init_push: "uq_inv u q \<Longrightarrow> t_userName t = u \<Longrightarrow> uq_inv u (init_push t q)"
  by (auto simp: uq_inv_def init_push_def intro: queue_of_intros)

lemma uq_inv_NewUserQueue [simp]: "uq_inv u (NewUserQueue v)"
  by (simp add: uq_inv_def NewUserQueue_def)

lemma uq_inv_fold_init:
  "uq_inv u q \<Longrightarrow> \<forall>t \<in> set ts. t_userName t = u \<Longrightarrow> uq_inv u (fold init_push ts q)"
  by (induction ts arbitrary: q) (auto simp: uq_inv_init_push)

lemma tq_inv_New [simp]: "tq_inv NewTaskQueue"
  by (simp add: tq_inv_def NewTaskQueue_def)

lemma tq_inv_Init:
  "tq_inv tq \<Longrightarrow> \<forall>t \<in> set ts. t_userName t = u \<Longrightarrow> tq_inv (InitUserQueue u ts tq)"
  by (auto simp: tq_inv_def InitUserQueue_def uq_inv_fold_init)

lemma tq_inv_Add: "tq_inv tq \<Longrightarrow> tq_inv (tq_AddTask t tq)"
  unfolding tq_AddTask_def by (rule tq_inv_with) (auto simp: uq_inv_def intro: queue_of_intros)

lemma tq_inv_Delete: "tq_inv tq \<Longrightarrow> tq_inv (tq_DeleteTask t tq)"
  unfolding tq_DeleteTask_def by (rule tq_inv_with) (auto simp: uq_inv_def intro: queue_of_intros)

lemma tq_inv_DeleteBy: "tq_inv tq \<Longrightarrow> tq_inv (tq_DeleteTaskByUserNameAndTaskID u k tq)"
  unfolding tq_DeleteTaskByUserNameAndTaskID_def
  by (rule tq_inv_with) (auto simp: uq_inv_def intro: queue_of_intros)

lemma tq_inv_Update: "tq_inv tq \<Longrightarrow> tq_inv (tq_UpdateTask t tq)"
  unfolding tq_UpdateTask_def by (rule tq_inv_with) (auto simp: uq_inv_def intro: queue_of_intros)

lemmas tq_inv_ops = tq_inv_Init tq_inv_Add tq_inv_Delete tq_inv_DeleteBy tq_inv_Update

section \<open>Lookup\<close>

definition guaranteed :: "task_queue \<Rightarrow> string \<Rightarrow> string \<Rightarrow> ai_task option" where
  "guaranteed tq u k = Option.bind (gm_get tq u) (\<lambda>q. q_GetByKey (uq_gauranteed q) k)"

definition besteffort :: "task_queue \<Rightarrow> string \<Rightarrow> string \<Rightarrow> ai_task option" where
  "besteffort tq u k = Option.bind (gm_get tq u) (\<lambda>q. q_GetByKey (uq_bestEffort q) k)"

lemma queue_ofD: "queue_of u s q \<Longrightarrow> queue_inv q \<and> q_keyFunc q = keyFunc"
  by (simp add: queue_of_def)

lemma look_Delete: "queue_of u s q \<Longrightarrow> q_GetByKey (snd (q_Delete t q)) = (q_GetByKey q)(keyFunc t := None)"
  using gq.look_del [of q keyFunc "keyFunc t"] by (simp add: queue_of_def q_Delete_key)

lemma look_put: "queue_of u s q \<Longrightarrow> q_GetByKey (q_PushOrUpdate t q) = (q_GetByKey q)(keyFunc t \<mapsto> t)"
  using gq.look_put [of q keyFunc t] by (simp add: queue_of_def)

lemma look_DeleteByKey: "queue_of u s q \<Longrightarrow> q_GetByKey (snd (q_DeleteByKey k q)) = (q_GetByKey q)(k := None)"
  using gq.look_del [of q keyFunc k] by (simp add: queue_of_def)

lemma tq_inv_uq: "tq_inv tq \<Longrightarrow> gm_get tq u = Some q \<Longrightarrow> uq_inv u q"
  by (simp add: tq_inv_def)

lemma guaranteed_typed: "tq_inv tq \<Longrightarrow> guaranteed tq u k = Some t \<Longrightarrow> t_userName t = u \<and> t_slo t = EmiasHighSLO \<and> keyFunc t = k"
  unfolding guaranteed_def bind_eq_Some_conv
  by (metis gq.look_key queue_of_def tq_inv_uq uq_inv_def)

lemma besteffort_typed: "tq_inv tq \<Longrightarrow> besteffort tq u k = Some t \<Longrightarrow> t_userName t = u \<and> t_slo t = EmiasLowSLO \<and> keyFunc t = k"
  unfolding besteffort_def bind_eq_Some_conv
  by (metis gq.look_key queue_of_def tq_inv_uq uq_inv_def)

lemma init_fold_elems:
  assumes "uq_inv u q" and "\<forall>t \<in> set ts. t_userName t = u"
    and "distinct (map t_id ts)"
    and "\<forall>t \<in> set ts. t_id t \<notin> t_id ` set (queue_elems (uq_gauranteed q)) \<and>
                      t_id t \<notin> t_id ` set (queue_elems (uq_bestEffort q))"
  shows "queue_elems (uq_gauranteed (fold init_push ts q)) =
           queue_elems (uq_gauranteed q) @ filter (\<lambda>t. t_slo t = EmiasHighSLO) ts \<and>
         queue_elems (uq_bestEffort (fold init_push ts q)) =
           queue_elems (uq_bestEffort q) @ filter (\<lambda>t. t_slo t = EmiasLowSLO) ts"
  using assms
proof (induction ts arbitrary: q)
  case Nil
  then show ?case by simp
next
  case (Cons t ts)
  have inv: "uq_inv u (init_push t q)" using Cons.prems by (simp add: uq_inv_init_push)
  have append: "queue_elems (snd (q_PushIfNotPresent t p)) = queue_elems p @ [t]"
    if "queue_of u s p" "t_id t \<notin> t_id ` set (queue_elems p)" for s p
    using that by (auto simp: queue_of_def elems_PushIfNotPresent elems_PushOrUpdate al_put_def)
  have g: "queue_elems (uq_gauranteed (init_push t q)) =
      queue_elems (uq_gauranteed q) @ (if t_slo t = EmiasHighSLO then [t] else [])"
    and b: "queue_elems (uq_bestEffort (init_push t q)) =
      queue_elems (uq_bestEffort q) @ (if t_slo t = EmiasLowSLO then [t] else [])"
    using Cons.prems append by (auto simp: init_push_def uq_inv_def)
  have "\<forall>t' \<in> set ts. t_id t' \<notin> t_id ` set (queue_elems (uq_gauranteed (init_push t q))) \<and>
                     t_id t' \<notin> t_id ` set (queue_elems (uq_bestEffort (init_push t q)))"
    using Cons.prems by (auto simp: g b dest: image_eqI [where f = t_id, OF sym])
  with Cons.IH [OF inv] Cons.prems show ?case by (simp add: g b)
qed

section \<open>Properties\<close>

text \<open>Every operation of the task queue, from the empty one on, keeps both queues of every
  user well formed, keyed by task id and sorted by service level: the guaranteed queue of a user
  holds only that user's guaranteed tasks, the best-effort queue only best-effort ones.\<close>

theorem task_queue_invariant:
  assumes "tq_inv tq" and "\<forall>t \<in> set ts. t_userName t = u"
  shows "tq_inv NewTaskQueue \<and> tq_inv (InitUserQueue u ts tq) \<and> tq_inv (tq_AddTask t tq) \<and>
    tq_inv (tq_DeleteTask t tq) \<and> tq_inv (tq_DeleteTaskByUserNameAndTaskID v k tq) \<and>
    tq_inv (tq_UpdateTask t tq) \<and>
    (guaranteed (tq_AddTask t tq) v k = Some t' \<longrightarrow>
       t_userName t' = v \<and> t_slo t' = EmiasHighSLO \<and> keyFunc t' = k)"
  using assms guaranteed_typed [of "tq_AddTask t tq"] by (auto simp: tq_inv_ops)

lemma task_queue_invariant_witness:
  "tq_inv (tq_AddTask sample_task (InitUserQueue ''u'' [sample_task] NewTaskQueue))"
  using task_queue_invariant [of "InitUserQueue ''u'' [sample_task] NewTaskQueue" "[]" "''u''" sample_task]
  by (simp add: tq_inv_ops sample_task_fields)

text \<open>\<open>UpdateTask\<close> moves a task between the service levels: afterwards the new version
  stands in the queue of its level and the other queue no longer holds its id, while every other
  task of every user stays where it was.\<close>

theorem update_task_moves:
  assumes "tq_inv tq" and "gm_get tq (t_userName t) \<noteq> None" and "t_slo t \<in> {EmiasLowSLO, EmiasHighSLO}"
  shows "guaranteed (tq_UpdateTask t tq) u k =
      (if u = t_userName t \<and> k = keyFunc t then (if t_slo t = EmiasHighSLO then Some t else None)
       else guaranteed tq u k) \<and>
    besteffort (tq_UpdateTask t tq) u k =
      (if u = t_userName t \<and> k = keyFunc t then (if t_slo t = EmiasLowSLO then Some t else None)
       else besteffort tq u k)"
proof -
  obtain q where q: "gm_get tq (t_userName t) = Some q" using assms(2) by auto
  with assms(1) have "uq_inv (t_userName t) q" by (rule tq_inv_uq)
  then have "queue_of (t_userName t) EmiasHighSLO (uq_gauranteed q)"
    "queue_of (t_userName t) EmiasLowSLO (uq_bestEffort q)" by (simp_all add: uq_inv_def)
  with q assms(3) show ?thesis
    by (auto simp: guaranteed_def besteffort_def tq_UpdateTask_def with_user_queue_get
        look_put look_Delete)
qed

text \<open>\<open>AddTask\<close> enters or replaces the task in the queue of its level and leaves the other
  queue alone, so a task re-added after a change of its level stands in both queues; the deletion
  by user and id removes the id from both.\<close>

theorem add_and_delete_by_id:
  assumes "tq_inv tq" and "gm_get tq (t_userName t) \<noteq> None" and "t_slo t = EmiasHighSLO"
  shows "guaranteed (tq_AddTask t tq) (t_userName t) (keyFunc t) = Some t \<and>
    besteffort (tq_AddTask t tq) = besteffort tq \<and>
    guaranteed (tq_DeleteTaskByUserNameAndTaskID (t_userName t) (keyFunc t) tq) (t_userName t) (keyFunc t) = None \<and>
    besteffort (tq_DeleteTaskByUserNameAndTaskID (t_userName t) (keyFunc t) tq) (t_userName t) (keyFunc t) = None"
proof -
  obtain q where q: "gm_get tq (t_userName t) = Some q" using assms(2) by auto
  with assms(1) have "uq_inv (t_userName t) q" by (rule tq_inv_uq)
  then have "queue_of (t_userName t) EmiasHighSLO (uq_gauranteed q)"
    "queue_of (t_userName t) EmiasLowSLO (uq_bestEffort q)" by (simp_all add: uq_inv_def)
  with q assms(3) show ?thesis
    by (auto simp: guaranteed_def besteffort_def tq_AddTask_def tq_DeleteTaskByUserNameAndTaskID_def
        with_user_queue_get look_put look_DeleteByKey fun_eq_iff)
qed

text \<open>Starting a user's queue from the database listing splits the listed tasks by service
  level and keeps their order; a task of any other level is dropped.\<close>

theorem init_user_queue_splits:
  assumes "\<forall>t \<in> set ts. t_userName t = u" and "distinct (map t_id ts)"
  shows "\<exists>q. gm_get (InitUserQueue u ts tq) u = Some q \<and>
    q_List (uq_gauranteed q) = Inr (filter (\<lambda>t. t_slo t = EmiasHighSLO) ts) \<and>
    q_List (uq_bestEffort q) = Inr (filter (\<lambda>t. t_slo t = EmiasLowSLO) ts) \<and>
    (\<forall>v. v \<noteq> u \<longrightarrow> gm_get (InitUserQueue u ts tq) v = gm_get tq v)"
proof -
  let ?q = "fold init_push ts (NewUserQueue u)"
  have "uq_inv u ?q" using assms by (simp add: uq_inv_fold_init)
  then have inv: "queue_inv (uq_gauranteed ?q)" "queue_inv (uq_bestEffort ?q)"
    by (simp_all add: uq_inv_def queue_of_def)
  have "queue_elems (uq_gauranteed (NewUserQueue u)) = []" "queue_elems (uq_bestEffort (NewUserQueue u)) = []"
    by (simp_all add: NewUserQueue_def)
  with init_fold_elems [OF uq_inv_NewUserQueue assms(1,2)]
  have "queue_elems (uq_gauranteed ?q) = filter (\<lambda>t. t_slo t = EmiasHighSLO) ts"
    "queue_elems (uq_bestEffort ?q) = filter (\<lambda>t. t_slo t = EmiasLowSLO) ts"
    by simp_all
  with inv show ?thesis by (simp add: InitUserQueue_def q_List_ok)
qed

definition sample_queue :: task_queue where
  "sample_queue = InitUserQueue ''u'' [sample_task\<lparr>t_slo := 0\<rparr>] NewTaskQueue"

lemma sample_queue_ok: "tq_inv sample_queue" "gm_get sample_queue (t_userName sample_task) \<noteq> None"
  unfolding sample_queue_def
  by (rule tq_inv_Init [OF tq_inv_New]) (simp_all add: sample_task_def InitUserQueue_def)

lemma update_task_moves_witness:
  "guaranteed (tq_UpdateTask sample_task sample_queue) ''u'' (keyFunc sample_task) = Some sample_task \<and>
   besteffort (tq_UpdateTask sample_task sample_queue) ''u'' (keyFunc sample_task) = None"
  using update_task_moves [OF sample_queue_ok, of "''u''" "keyFunc sample_task"]
  by (simp add: sample_task_fields)

lemma add_and_delete_by_id_witness:
  "guaranteed (tq_AddTask sample_task sample_queue) ''u'' (keyFunc sample_task) = Some sample_task"
  using add_and_delete_by_id [OF sample_queue_ok] by (simp add: sample_task_fields)

lemma init_user_queue_splits_witness:
  "\<exists>q. gm_get (InitUserQueue ''u'' [sample_task] NewTaskQueue) ''u'' = Some q \<and>
       q_List (uq_gauranteed q) = Inr [sample_task]"
  using init_user_queue_splits [of "[sample_task]" "''u''" NewTaskQueue]
  by (auto simp: sample_task_def)

end
