(* ===== verification/Resource_List.thy ===== *)
theory Resource_List imports Prelude "HOL-Library.Multiset" begin

text \<open>
  Resource lists and their arithmetic: \<open>pkg/aitaskctl/utils.go\<close> (AddResourceList,
  SubResourceList, CmpResourceListSame, CheckResourceListExceed), \<open>pkg/utils/resource.go\<close>
  (SumResources, CalculateRequsetsByContainers) and the JSON reading of \<open>dao/model/util.go\<close>.

  A resource list is a Go map from resource names to quantities.  The quantity type belongs to
  the Kubernetes libraries, so it is a type variable and its operations are the record
  \<open>quantity_ops\<close>, an argument of every definition that uses them.  What the code relies on is
  \<open>quantity_laws\<close>: a quantity denotes a number, addition and subtraction are exact and
  \<open>Cmp\<close> compares the numbers.  HOL equality on the type variable is Go's \<open>==\<close> on the struct,
  which tells apart quantities that denote the same number.
\<close>

type_synonym 'q resource_list = "(string, 'q) gomap"

record 'q quantity_ops =
  q_add :: "'q \<Rightarrow> 'q \<Rightarrow> 'q"
  q_sub :: "'q \<Rightarrow> 'q \<Rightarrow> 'q"
  q_mul :: "'q \<Rightarrow> int \<Rightarrow> 'q"
  q_cmp :: "'q \<Rightarrow> 'q \<Rightarrow> int"
  q_zero :: "'q"
  q_value :: "'q \<Rightarrow> int"
  q_unmarshal :: "string \<Rightarrow> 'q resource_list option"

definition quantity_laws :: "('q, 'm) quantity_ops_scheme \<Rightarrow> ('q \<Rightarrow> int) \<Rightarrow> bool" where
  "quantity_laws Q val \<longleftrightarrow>
     (\<forall>a b. val (q_add Q a b) = val a + val b) \<and>
     (\<forall>a b. val (q_sub Q a b) = val a - val b) \<and>
     (\<forall>a n. val (q_mul Q a n) = val a * n) \<and>
     (\<forall>a b. q_cmp Q a b = sgn (val a - val b)) \<and>
     val (q_zero Q) = 0 \<and>
     (\<forall>s r. q_unmarshal Q s = Some r \<longrightarrow> gm_ok r)"

section \<open>Operations\<close>

definition AddResourceList :: "('q, 'm) quantity_ops_scheme \<Rightarrow> 'q resource_list \<Rightarrow> 'q resource_list \<Rightarrow> 'q resource_list" where
  "AddResourceList Q a b =
     fold (\<lambda>(k, v) a. gm_put k (case gm_get a k of Some aVal \<Rightarrow> q_add Q v aVal | None \<Rightarrow> v) a) b a"

definition SubResourceList :: "('q, 'm) quantity_ops_scheme \<Rightarrow> 'q resource_list \<Rightarrow> 'q resource_list \<Rightarrow> 'q resource_list" where
  "SubResourceList Q a b =
     map (\<lambda>(k, v). (k, case gm_get b k of Some vb \<Rightarrow> q_sub Q v vb | None \<Rightarrow> v)) a"

definition CmpResourceListSame :: "('q, 'm) quantity_ops_scheme \<Rightarrow> 'q resource_list \<Rightarrow> 'q resource_list \<Rightarrow> bool" where
  "CmpResourceListSame Q a b =
     (length a = length b \<and>
      list_all (\<lambda>(k, v). (case gm_get b k of Some w \<Rightarrow> w | None \<Rightarrow> q_zero Q) = v) a)"

definition CheckResourceListExceed :: "('q, 'm) quantity_ops_scheme \<Rightarrow> 'q resource_list \<Rightarrow> 'q resource_list \<Rightarrow> 'q resource_list \<Rightarrow> bool" where
  "CheckResourceListExceed Q hard used requested =
     list_ex (\<lambda>(k, usedValue). case gm_get hard k of
                None \<Rightarrow> True
              | Some hardValue \<Rightarrow> 0 < q_cmp Q usedValue hardValue)
       (AddResourceList Q used requested)"

definition SumResources :: "('q, 'm) quantity_ops_scheme \<Rightarrow> 'q resource_list list \<Rightarrow> 'q resource_list" where
  "SumResources Q rs =
     fold (\<lambda>res result.
       fold (\<lambda>(name, quantity) result.
         (case gm_get result name of
            None \<Rightarrow> gm_put name quantity result
          | Some v \<Rightarrow> gm_put name (q_add Q v quantity) result)) res result) rs []"

text \<open>Containers are given by their resource requests.\<close>

definition CalculateRequsetsByContainers :: "('q, 'm) quantity_ops_scheme \<Rightarrow> 'q resource_list list \<Rightarrow> 'q resource_list" where
  "CalculateRequsetsByContainers Q containers =
     fold (\<lambda>requests resources. SumResources Q [resources, requests]) containers []"

definition JSONToResourceList :: "('q, 'm) quantity_ops_scheme \<Rightarrow> string \<Rightarrow> 'q resource_list result" where
  "JSONToResourceList Q str =
     (if str = [] then Inr []
      else case q_unmarshal Q str of None \<Rightarrow> Inl ''unmarshal'' | Some res \<Rightarrow> Inr res)"

text \<open>Callers drop the error and go on with the nil list, which reads as empty.\<close>

definition request_list :: "('q, 'm) quantity_ops_scheme \<Rightarrow> string \<Rightarrow> 'q resource_list" where
  "request_list Q str = (case JSONToResourceList Q str of Inl _ \<Rightarrow> [] | Inr res \<Rightarrow> res)"

section \<open>Lemmas\<close>

text \<open>The amount of a resource in a list, zero when the list does not name it.\<close>

definition amount :: "('q \<Rightarrow> int) \<Rightarrow> 'q resource_list \<Rightarrow> string \<Rightarrow> int" where
  "amount val a k = (case gm_get a k of None \<Rightarrow> 0 | Some v \<Rightarrow> val v)"

lemma amount_Nil [simp]: "amount val [] k = 0"
  by (simp add: amount_def)

lemma add_resource_get:
  "gm_ok b \<Longrightarrow>
   gm_get (AddResourceList Q a b) k =
     (case gm_get b k of
        None \<Rightarrow> gm_get a k
      | Some v \<Rightarrow> Some (case gm_get a k of Some aVal \<Rightarrow> q_add Q v aVal | None \<Rightarrow> v))"
proof (induction b arbitrary: a)
  case Nil
  then show ?case by (simp add: AddResourceList_def)
next
  case (Cons p b)
  obtain j v where p: "p = (j, v)" by (cases p)
  let ?a = "gm_put j (case gm_get a j of Some aVal \<Rightarrow> q_add Q v aVal | None \<Rightarrow> v) a"
  have step: "AddResourceList Q a (p # b) = AddResourceList Q ?a b"
    by (simp add: AddResourceList_def p)
  have ok: "gm_ok b" and fresh: "gm_get b j = None"
    using Cons.prems p by (auto simp: gm_ok_Cons gm_get_None_iff)
  show ?case
    unfolding step Cons.IH [OF ok] using fresh p by (auto split: option.split)
qed

lemma add_resource_ok [simp]: "gm_ok a \<Longrightarrow> gm_ok (AddResourceList Q a b)"
  unfolding AddResourceList_def by (induction b arbitrary: a) auto

lemma add_resource_dom:
  "gm_ok b \<Longrightarrow> dom (gm_get (AddResourceList Q a b)) = dom (gm_get a) \<union> dom (gm_get b)"
  by (auto simp: add_resource_get dom_def split: option.splits)

lemma sub_resource_get:
  "gm_get (SubResourceList Q a b) k =
     map_option (\<lambda>v. case gm_get b k of Some vb \<Rightarrow> q_sub Q v vb | None \<Rightarrow> v) (gm_get a k)"
  unfolding SubResourceList_def by (induction a) (auto split: option.split)

lemma sub_resource_keys [simp]: "map fst (SubResourceList Q a b) = map fst a"
  by (simp add: SubResourceList_def split_def comp_def)

lemma sub_resource_ok [simp]: "gm_ok (SubResourceList Q a b) = gm_ok a"
  by (simp add: gm_ok_def)

lemma amount_add:
  "quantity_laws Q val \<Longrightarrow> gm_ok b \<Longrightarrow>
   amount val (AddResourceList Q a b) k = amount val a k + amount val b k"
  by (auto simp: amount_def add_resource_get quantity_laws_def split: option.split)

lemma amount_sub:
  "quantity_laws Q val \<Longrightarrow> gm_get a k \<noteq> None \<Longrightarrow>
   amount val (SubResourceList Q a b) k = amount val a k - amount val b k"
  by (auto simp: amount_def sub_resource_get quantity_laws_def split: option.split)

lemma cmp_pos: "quantity_laws Q val \<Longrightarrow> 0 < q_cmp Q a b \<longleftrightarrow> val b < val a"
  by (simp add: quantity_laws_def)

lemma cmp_eq_1: "quantity_laws Q val \<Longrightarrow> q_cmp Q a b = 1 \<longleftrightarrow> val b < val a"
  by (simp add: quantity_laws_def sgn_if)

text \<open>
  The loop of \<open>CheckResourceListExceed\<close> reads every name of the sum of used and requested:
  a name that \<open>hard\<close> does not list exceeds, whatever its amount.
\<close>

lemma exceed_iff:
  assumes "quantity_laws Q val" and "gm_ok used" and "gm_ok req"
  shows "CheckResourceListExceed Q hard used req \<longleftrightarrow>
    (\<exists>k \<in> dom (gm_get used) \<union> dom (gm_get req).
       case gm_get hard k of None \<Rightarrow> True | Some h \<Rightarrow> val h < amount val used k + amount val req k)"
proof -
  let ?c = "AddResourceList Q used req"
  have ok: "gm_ok ?c" using assms(2) by simp
  have "CheckResourceListExceed Q hard used req \<longleftrightarrow>
    (\<exists>k u. gm_get ?c k = Some u \<and>
       (case gm_get hard k of None \<Rightarrow> True | Some h \<Rightarrow> val h < val u))"
    by (simp add: CheckResourceListExceed_def list_ex_iff Bex_def split_paired_Ex
        gm_get_in_set [OF ok] cmp_pos [OF assms(1)] cong: option.case_cong)
  also have "\<dots> \<longleftrightarrow> (\<exists>k \<in> dom (gm_get ?c).
       case gm_get hard k of None \<Rightarrow> True | Some h \<Rightarrow> val h < amount val ?c k)"
    unfolding Bex_def by (rule iff_exI) (auto simp: amount_def cong: option.case_cong)
  finally show ?thesis
    using assms by (simp add: add_resource_dom amount_add cong: option.case_cong)
qed

lemma request_list_ok [simp]: "quantity_laws Q val \<Longrightarrow> gm_ok (request_list Q s)"
  by (auto simp: request_list_def JSONToResourceList_def quantity_laws_def split: option.splits)

lemma amount_sum_step:
  "quantity_laws Q val \<Longrightarrow> gm_ok res \<Longrightarrow>
   amount val (fold (\<lambda>(name, quantity) result.
       (case gm_get result name of
          None \<Rightarrow> gm_put name quantity result
        | Some v \<Rightarrow> gm_put name (q_add Q v quantity) result)) res result) k =
     amount val result k + amount val res k"
proof (induction res arbitrary: result)
  case Nil
  then show ?case by simp
next
  case (Cons p res)
  obtain j v where p: "p = (j, v)" by (cases p)
  have ok: "gm_ok res" and fresh: "gm_get res j = None"
    using Cons.prems p by (auto simp: gm_ok_Cons gm_get_None_iff)
  show ?case
    using Cons.IH [OF Cons.prems(1) ok] Cons.prems(1) fresh p
    by (auto simp: amount_def quantity_laws_def split: option.split)
qed

lemma amount_SumResources:
  "quantity_laws Q val \<Longrightarrow> \<forall>r \<in> set rs. gm_ok r \<Longrightarrow>
   amount val (SumResources Q rs) k = (\<Sum>r \<leftarrow> rs. amount val r k)"
proof -
  assume laws: "quantity_laws Q val"
  let ?step = "\<lambda>res result. fold (\<lambda>(name, quantity) result.
       (case gm_get result name of
          None \<Rightarrow> gm_put name quantity result
        | Some v \<Rightarrow> gm_put name (q_add Q v quantity) result)) res result"
  have "\<forall>r \<in> set rs. gm_ok r \<Longrightarrow>
    amount val (fold ?step rs result) k = amount val result k + (\<Sum>r \<leftarrow> rs. amount val r k)" for result
    by (induction rs arbitrary: result) (auto simp: amount_sum_step [OF laws])
  then show "\<forall>r \<in> set rs. gm_ok r \<Longrightarrow> ?thesis"
    by (simp add: SumResources_def)
qed

lemma gm_ok_SumResources: "gm_ok (SumResources Q rs)"
proof -
  have inner: "gm_ok result \<Longrightarrow> gm_ok (fold (\<lambda>(name, quantity) result.
       (case gm_get result name of
          None \<Rightarrow> gm_put name quantity result
        | Some v \<Rightarrow> gm_put name (q_add Q v quantity) result)) res result)" for res result
    by (induction res arbitrary: result) (auto split: option.split)
  have "gm_ok result \<Longrightarrow> gm_ok (fold (\<lambda>res result.
       fold (\<lambda>(name, quantity) result.
         (case gm_get result name of
            None \<Rightarrow> gm_put name quantity result
          | Some v \<Rightarrow> gm_put name (q_add Q v quantity) result)) res result) rs result)" for result
    by (induction rs arbitrary: result) (auto intro: inner)
  then show ?thesis by (simp add: SumResources_def)
qed

lemma amount_CalculateRequsets:
  assumes "quantity_laws Q val" and "\<forall>r \<in> set rs. gm_ok r"
  shows "amount val (CalculateRequsetsByContainers Q rs) k = (\<Sum>r \<leftarrow> rs. amount val r k)"
proof -
  have "gm_ok acc \<Longrightarrow> \<forall>r \<in> set rs. gm_ok r \<Longrightarrow>
    amount val (fold (\<lambda>requests resources. SumResources Q [resources, requests]) rs acc) k =
      amount val acc k + (\<Sum>r \<leftarrow> rs. amount val r k)" for acc
    by (induction rs arbitrary: acc) (auto simp: amount_SumResources [OF assms(1)] gm_ok_SumResources)
  then show ?thesis using assms(2) by (simp add: CalculateRequsetsByContainers_def)
qed

text \<open>Integers as quantities satisfy the laws; witnesses use them.\<close>

definition int_quantity :: "int quantity_ops" where
  "int_quantity =
     \<lparr>q_add = (+), q_sub = (-), q_mul = (*), q_cmp = (\<lambda>a b. sgn (a - b)), q_zero = 0,
      q_value = id, q_unmarshal = (\<lambda>s. Some [(''cpu'', int (length s))])\<rparr>"

lemma int_quantity_laws [simp]: "quantity_laws int_quantity (\<lambda>x. x)"
  by (auto simp: quantity_laws_def int_quantity_def gm_ok_def)

section \<open>Properties\<close>

text \<open>Adding one resource list into another is exact for every resource name and does
  not depend on the order in which Go's \<open>range\<close> visits the added map, and subtracting the same
  list again restores every amount (the names added stay listed).\<close>

theorem add_sub_resource_list:
  assumes "quantity_laws Q val" and "gm_ok a" and "gm_ok b" and "mset b = mset b'"
  shows "amount val (AddResourceList Q a b) k = amount val a k + amount val b k \<and>
    gm_get (AddResourceList Q a b') = gm_get (AddResourceList Q a b) \<and>
    amount val (SubResourceList Q (AddResourceList Q a b) b) k = amount val a k \<and>
    dom (gm_get (SubResourceList Q (AddResourceList Q a b) b)) = dom (gm_get a) \<union> dom (gm_get b)"
proof -
  from assms(3,4) have ok': "gm_ok b'"
    unfolding gm_ok_def by (metis mset_eq_imp_distinct_iff mset_map)
  have same: "gm_get b' = gm_get b"
  proof
    fix k
    show "gm_get b' k = gm_get b k"
      using gm_get_in_set [OF assms(3)] gm_get_in_set [OF ok'] mset_eq_setD [OF assms(4)]
      by (metis not_None_eq)
  qed
  have "gm_get (AddResourceList Q a b') = gm_get (AddResourceList Q a b)"
    by (rule ext) (simp add: add_resource_get [OF assms(3)] add_resource_get [OF ok'] same)
  moreover have "amount val (SubResourceList Q (AddResourceList Q a b) b) k = amount val a k"
  proof (cases "gm_get (AddResourceList Q a b) k")
    case None
    then have "gm_get a k = None" by (simp add: add_resource_get [OF assms(3)] split: option.splits)
    with None show ?thesis by (simp add: amount_def sub_resource_get)
  next
    case Some
    then show ?thesis by (simp add: amount_sub [OF assms(1)] amount_add [OF assms(1,3)])
  qed
  moreover have "dom (gm_get (SubResourceList Q (AddResourceList Q a b) b)) = dom (gm_get a) \<union> dom (gm_get b)"
    by (auto simp: sub_resource_get dom_def add_resource_get [OF assms(3)] split: option.splits)
  ultimately show ?thesis by (simp add: amount_add [OF assms(1,3)])
qed

lemma add_sub_resource_list_witness:
  "amount (\<lambda>x. x) (AddResourceList int_quantity [(''cpu'', 2)] [(''cpu'', 3), (''mem'', 5)]) ''cpu'' = 5"
  using add_sub_resource_list [of int_quantity "\<lambda>x. x" "[(''cpu'', 2)]"
      "[(''cpu'', 3), (''mem'', 5)]" "[(''mem'', 5), (''cpu'', 3)]" "''cpu''"]
  by (simp add: gm_ok_def amount_def)

text \<open>\<open>CheckResourceListExceed\<close> answers yes exactly when some resource that is used or
  requested is missing from the hard limits or would go above its limit; in particular a resource
  whose used amount has gone back to zero still blocks every request while the limits do not
  list it.\<close>

theorem check_exceed_exact:
  assumes "quantity_laws Q val" and "gm_ok used" and "gm_ok req"
  shows "(CheckResourceListExceed Q hard used req \<longleftrightarrow>
      (\<exists>k \<in> dom (gm_get used) \<union> dom (gm_get req).
         case gm_get hard k of None \<Rightarrow> True | Some h \<Rightarrow> val h < amount val used k + amount val req k)) \<and>
    (gm_get used k = Some u \<and> gm_get hard k = None \<longrightarrow> CheckResourceListExceed Q hard used req)"
proof (intro conjI impI)
  show "CheckResourceListExceed Q hard used req \<longleftrightarrow>
      (\<exists>k \<in> dom (gm_get used) \<union> dom (gm_get req).
         case gm_get hard k of None \<Rightarrow> True | Some h \<Rightarrow> val h < amount val used k + amount val req k)"
    by (rule exceed_iff [OF assms])
  assume "gm_get used k = Some u \<and> gm_get hard k = None"
  then show "CheckResourceListExceed Q hard used req"
    unfolding exceed_iff [OF assms] by (intro bexI [of _ k]) (auto simp: dom_def)
qed

lemma check_exceed_exact_witness:
  "CheckResourceListExceed int_quantity [(''cpu'', 4)] [(''cpu'', 3), (''gpu'', 0)] [(''cpu'', 1)]"
  using check_exceed_exact [of int_quantity "\<lambda>x. x" "[(''cpu'', 3), (''gpu'', 0)]" "[(''cpu'', 1)]"
      "[(''cpu'', 4)]" "''gpu''" 0]
  by (simp add: gm_ok_def)

text \<open>Summing the requests of a pod's containers gives, for every resource, the sum of
  the containers' amounts, and agrees with adding the lists one by one with \<open>AddResourceList\<close>.\<close>

theorem container_requests_sum:
  assumes "quantity_laws Q val" and "\<forall>r \<in> set rs. gm_ok r"
  shows "amount val (CalculateRequsetsByContainers Q rs) k = (\<Sum>r \<leftarrow> rs. amount val r k) \<and>
    amount val (fold (\<lambda>r a. AddResourceList Q a r) rs []) k =
      amount val (CalculateRequsetsByContainers Q rs) k"
proof -
  have "\<forall>r \<in> set rs. gm_ok r \<Longrightarrow>
    amount val (fold (\<lambda>r a. AddResourceList Q a r) rs acc) k = amount val acc k + (\<Sum>r \<leftarrow> rs. amount val r k)" for acc
    by (induction rs arbitrary: acc) (auto simp: amount_add [OF assms(1)])
  then show ?thesis using assms amount_CalculateRequsets [OF assms] by simp
qed

lemma container_requests_sum_witness:
  "amount (\<lambda>x. x) (CalculateRequsetsByContainers int_quantity [[(''cpu'', 2)], [(''cpu'', 3)]]) ''cpu'' = 5"
  using container_requests_sum [of int_quantity "\<lambda>x. x" "[[(''cpu'', 2)], [(''cpu'', 3)]]" "''cpu''"]
  by (simp add: gm_ok_def amount_def)

end
