(* ===== verification/Data_Model.thy ===== *)
theory Data_Model imports Resource_List begin

text \<open>
  The rows of the platform's tables, \<open>dao/model\<close>: accounts, users, their membership, jobs,
  approval orders, alerts and cron jobs, with the parts of a Volcano job that the backend reads.
  The bookkeeping of \<open>gorm.Model\<close> is the primary key alone, except where a handler reads the
  creation time; a soft-deleted row is one that has left the table.  Datasets, images and the
  association fields that only preload other tables are left out of the records.
\<close>

section \<open>Enumerations\<close>

text \<open>The first constructor of each type is Go's zero value, which no constant names.\<close>

datatype role = NoRole | RoleGuest | RoleUser | RoleAdmin | OtherRole nat
datatype status = NoStatus | StatusPending | StatusActive | StatusInactive
datatype access_mode = NoAccessMode | AccessModeNA | AccessModeRO | AccessModeRW | AccessModeAO | OtherAccessMode nat
datatype alert_type = NoAlert | JobRunningAlert | JobFailedAlert | JobCompletedAlert
  | LowGPUJobRemindedAlert | LowGPUJobDeletedAlert | LongTimeJobRemindedAlert | LongTimeJobDeletedAlert

text \<open>
  Roles and access modes are bytes: the conversion \<open>model.Role(n)\<close> keeps the number modulo 256, and a
  byte beyond the named constants is a value of its own.
\<close>

definition role_of_nat :: "nat \<Rightarrow> role" where
  "role_of_nat n = (let b = n mod 256 in
     if b = 0 then NoRole else if b = 1 then RoleGuest else if b = 2 then RoleUser else if b = 3 then RoleAdmin else OtherRole b)"

definition access_mode_of_nat :: "nat \<Rightarrow> access_mode" where
  "access_mode_of_nat n = (let b = n mod 256 in
     if b = 0 then NoAccessMode else if b = 1 then AccessModeNA else if b = 2 then AccessModeRO
     else if b = 3 then AccessModeRW else if b = 4 then AccessModeAO else OtherAccessMode b)"

section \<open>Accounts and users\<close>

record 'q queue_quota =
  qq_guaranteed :: "'q resource_list"
  qq_deserved :: "'q resource_list"
  qq_capability :: "'q resource_list"

record 'q account =
  ac_id :: nat
  ac_name :: string
  ac_nickname :: string
  ac_space :: string
  ac_expiredAt :: "time option"
  ac_quota :: "'q queue_quota"
  ac_userDefaultQuota :: "'q queue_quota option"

abbreviation (input) DefaultAccountID :: nat where "DefaultAccountID \<equiv> 1"

record 'q user_account =
  ua_id :: nat
  ua_userID :: nat
  ua_accountID :: nat
  ua_role :: role
  ua_accessMode :: access_mode
  ua_quota :: "'q queue_quota"

record user_attribute =
  at_id :: nat
  at_name :: string
  at_nickname :: string
  at_email :: "string option"
  at_teacher :: "string option"
  at_group :: "string option"
  at_expiredAt :: "string option"
  at_phone :: "string option"
  at_avatar :: "string option"
  at_uid :: "string option"
  at_gid :: "string option"

definition no_attributes :: user_attribute where
  "no_attributes = \<lparr>at_id = 0, at_name = [], at_nickname = [], at_email = None, at_teacher = None, at_group = None,
     at_expiredAt = None, at_phone = None, at_avatar = None, at_uid = None, at_gid = None\<rparr>"

record user =
  us_id :: nat
  us_createdAt :: time
  us_name :: string
  us_nickname :: string
  us_password :: "string option"
  us_role :: role
  us_status :: status
  us_space :: string
  us_imageQuota :: int
  us_lastEmailVerifiedAt :: "time option"
  us_attributes :: user_attribute

section \<open>Jobs\<close>

text \<open>What the backend reads of a Volcano job: one entry per task template of its specification,
  with the labels of the template and the resource requests of its containers.\<close>

record 'q vc_task =
  vt_name :: string
  vt_replicas :: int
  vt_labels :: "(string, string) gomap"
  vt_containers :: "'q resource_list list"

record vc_condition =
  cd_status :: string
  cd_lastTransitionTime :: time

record 'q vc_job =
  vj_name :: string
  vj_namespace :: string
  vj_labels :: "(string, string) gomap"
  vj_annotations :: "(string, string) gomap"
  vj_creationTimestamp :: time
  vj_queue :: string
  vj_tasks :: "'q vc_task list"
  vj_phase :: string
  vj_conditions :: "vc_condition list"

record event =
  ev_uid :: string
  ev_reason :: string
  ev_message :: string
  ev_lastTimestamp :: time

record schedule_data =
  sd_imagePullTime :: string
  sd_imageSize :: "string option"

text \<open>
  The profile of a job comes from Prometheus; its type is a type variable, and so is the
  terminated state of a container.  A stored profile may be the null pointer (\<open>Some None\<close>).
\<close>

record ('q, 'p, 't) job =
  jb_id :: nat
  jb_name :: string
  jb_jobName :: string
  jb_userID :: nat
  jb_accountID :: nat
  jb_jobType :: string
  jb_status :: string
  jb_creationTimestamp :: time
  jb_runningTimestamp :: time
  jb_completedTimestamp :: time
  jb_nodes :: "string list"
  jb_resources :: "'q resource_list"
  jb_attributes :: "'q vc_job"
  jb_template :: string
  jb_alertEnabled :: bool
  jb_reminded :: bool
  jb_keepWhenLowResourceUsage :: bool
  jb_lockedTimestamp :: time
  jb_profileData :: "'p option option"
  jb_scheduleData :: "schedule_data option"
  jb_events :: "event list option"
  jb_terminatedStates :: "'t list option"

abbreviation (input) JobTypeJupyter :: string where "JobTypeJupyter \<equiv> ''jupyter''"
abbreviation (input) PhasePending :: string where "PhasePending \<equiv> ''Pending''"
abbreviation (input) PhaseRunning :: string where "PhaseRunning \<equiv> ''Running''"
abbreviation (input) PhaseFailed :: string where "PhaseFailed \<equiv> ''Failed''"
abbreviation (input) PhaseCompleted :: string where "PhaseCompleted \<equiv> ''Completed''"
abbreviation (input) PhaseAborted :: string where "PhaseAborted \<equiv> ''Aborted''"
abbreviation (input) PhaseTerminated :: string where "PhaseTerminated \<equiv> ''Terminated''"
abbreviation (input) PhaseDeleted :: string where "PhaseDeleted \<equiv> ''Deleted''"
abbreviation (input) PhaseFreed :: string where "PhaseFreed \<equiv> ''Freed''"

section \<open>Alerts, approval orders and cron jobs\<close>

record alert =
  al_id :: nat
  al_jobName :: string
  al_alertType :: alert_type
  al_alertTimestamp :: time
  al_allowRepeat :: bool
  al_sendCount :: int

datatype approval_order_type = ApprovalOrderTypeDataset | ApprovalOrderTypeJob | OtherOrderType string

datatype approval_order_status = ApprovalOrderStatusPending | ApprovalOrderStatusApproved
  | ApprovalOrderStatusRejected | ApprovalOrderStatusCancelled | OtherOrderStatus string

record approval_order =
  ao_id :: nat
  ao_createdAt :: time
  ao_name :: string
  ao_type :: approval_order_type
  ao_status :: approval_order_status
  ao_typeID :: nat
  ao_extensionHours :: nat
  ao_reason :: string
  ao_reviewNotes :: string
  ao_creatorID :: nat
  ao_reviewerID :: nat

record cron_job_config =
  cj_name :: string
  cj_type :: string
  cj_spec :: string
  cj_suspend :: "bool option"
  cj_config :: string
  cj_entryID :: int

section \<open>The platform\<close>

text \<open>
  What the handlers below read and write together: the tables, the Volcano jobs and pods the
  cluster holds, and the messages that have left through the mail server.  A message carries the
  address it went to and what its text is built from.
\<close>

record owner_reference =
  or_apiVersion :: string
  or_kind :: string
  or_name :: string

record 't vc_pod =
  vp_name :: string
  vp_namespace :: string
  vp_labels :: "(string, string) gomap"
  vp_ownerReferences :: "owner_reference list"
  vp_nodeName :: string
  vp_phase :: string
  vp_conditions :: "(string \<times> string) list"
  vp_containerStatuses :: "'t option list"

record mail_body =
  mb_username :: string
  mb_name :: string
  mb_jobName :: string
  mb_jobURL :: string
  mb_deleteTime :: "time option"

record mail =
  ml_to :: string
  ml_nickname :: string
  ml_subject :: alert_type
  ml_body :: mail_body

record ('q, 'p, 't) platform =
  pf_jobs :: "('q, 'p, 't) job table"
  pf_users :: "user table"
  pf_accounts :: "'q account table"
  pf_alerts :: "alert table"
  pf_orders :: "approval_order table"
  pf_vcjobs :: "'q vc_job list"
  pf_pods :: "'t vc_pod list"
  pf_outbox :: "mail list"

definition find_vcjob :: "string \<Rightarrow> string \<Rightarrow> ('q, 'p, 't) platform \<Rightarrow> 'q vc_job option" where
  "find_vcjob ns n s = find (\<lambda>j. vj_name j = n \<and> vj_namespace j = ns) (pf_vcjobs s)"

definition find_vcpod :: "string \<Rightarrow> string \<Rightarrow> ('q, 'p, 't) platform \<Rightarrow> 't vc_pod option" where
  "find_vcpod ns n s = find (\<lambda>p. vp_name p = n \<and> vp_namespace p = ns) (pf_pods s)"

definition remove_vcjob :: "string \<Rightarrow> string \<Rightarrow> ('q, 'p, 't) platform \<Rightarrow> ('q, 'p, 't) platform" where
  "remove_vcjob ns n s = s\<lparr>pf_vcjobs := filter (\<lambda>j. \<not> (vj_name j = n \<and> vj_namespace j = ns)) (pf_vcjobs s)\<rparr>"

definition job_named :: "string \<Rightarrow> ('q, 'p, 't) platform \<Rightarrow> ('q, 'p, 't) job option" where
  "job_named n s = tbl_first (\<lambda>j. jb_jobName j = n) (pf_jobs s)"

definition update_job_named ::
  "string \<Rightarrow> (('q, 'p, 't) job \<Rightarrow> ('q, 'p, 't) job) \<Rightarrow> ('q, 'p, 't) platform \<Rightarrow> ('q, 'p, 't) platform" where
  "update_job_named n f s = s\<lparr>pf_jobs := tbl_updates (\<lambda>j. jb_jobName j = n) f (pf_jobs s)\<rparr>"

text \<open>
  The next value of a primary key's sequence; 64-bit arithmetic, which wraps, with the units of durations; and Go's
  \<open>time.Time.Sub\<close>, which saturates.
\<close>

definition next_id :: "nat list \<Rightarrow> nat" where
  "next_id ns = Suc (fold max ns 0)"

lemma fold_max_ge: "(x :: nat) \<in> set xs \<Longrightarrow> x \<le> fold max xs a" "a \<le> fold max xs a"
  by (induction xs arbitrary: a) (auto intro: order_trans [OF max.cobounded2], metis max.bounded_iff)

lemma next_id_fresh: "next_id ns \<notin> set ns"
  using fold_max_ge(1) [of "next_id ns" ns 0] by (auto simp: next_id_def)

definition int64 :: "int \<Rightarrow> int" where
  "int64 i = (i + 2 ^ 63) mod 2 ^ 64 - 2 ^ 63"

abbreviation (input) Minute :: int where "Minute \<equiv> 60000000000"
abbreviation (input) Hour :: int where "Hour \<equiv> 3600000000000"

definition time_sub :: "time \<Rightarrow> time \<Rightarrow> int" where
  "time_sub a b = max (- (2 ^ 63)) (min (2 ^ 63 - 1) (a - b))"

definition GetSuspend :: "cron_job_config \<Rightarrow> bool" where
  "GetSuspend c = (case cj_suspend c of None \<Rightarrow> False | Some v \<Rightarrow> v)"

end
