(* ===== verification/Quota.thy ===== *)
theory Quota imports AI_Task Data_Model begin

text \<open>
  \<open>pkg/aitaskctl/quota.go\<close>: per user, the limits, the amounts in use and the tasks that are
  charged; and the two admission checks of \<open>utils.go\<close> that read the job table instead.

  A \<open>QuotaInfo\<close> and its snapshot have the same fields, so one record serves both.  The pointer
  stored in the controller's \<open>sync.Map\<close> is the entry of the map under the user's name; what the
  code changes through the pointer is changed there.
\<close>

section \<open>State and operations\<close>

record 'q quota_info =
  qi_name :: string
  qi_hard :: "'q resource_list"
  qi_soft :: "'q resource_list"
  qi_hardUsed :: "'q resource_list"
  qi_softUsed :: "'q resource_list"
  qi_usedTasks :: "(string, ai_task) gomap"

definition qi_AddTask :: "'q quantity_ops \<Rightarrow> ai_task \<Rightarrow> 'q quota_info \<Rightarrow> 'q quota_info" where
  "qi_AddTask Q task info =
     (let key = keyFunc task in
      if gm_get (qi_usedTasks info) key = None then
        (let info1 = info\<lparr>qi_usedTasks := gm_put key task (qi_usedTasks info)\<rparr>;
             resourceRequest = request_list Q (t_resourceRequest task) in
         if t_slo task = EmiasHighSLO then
           info1\<lparr>qi_hardUsed := AddResourceList Q (qi_hardUsed info1) resourceRequest\<rparr>
         else if t_slo task = EmiasLowSLO then
           info1\<lparr>qi_softUsed := AddResourceList Q (qi_softUsed info1) resourceRequest\<rparr>
         else info1)
      else info)"

text \<open>The deletion subtracts the request of the stored task, not of the one it is called with.\<close>

definition qi_DeleteTask :: "'q quantity_ops \<Rightarrow> ai_task \<Rightarrow> 'q quota_info \<Rightarrow> 'q quota_info" where
  "qi_DeleteTask Q task0 info =
     (let key = keyFunc task0 in
      case gm_get (qi_usedTasks info) key of
        None \<Rightarrow> info
      | Some task \<Rightarrow>
          (let info1 = info\<lparr>qi_usedTasks := gm_del key (qi_usedTasks info)\<rparr>;
               resourceRequest = request_list Q (t_resourceRequest task) in
           if t_slo task = EmiasHighSLO then
             info1\<lparr>qi_hardUsed := SubResourceList Q (qi_hardUsed info1) resourceRequest\<rparr>
           else if t_slo task = EmiasLowSLO then
             info1\<lparr>qi_softUsed := SubResourceList Q (qi_softUsed info1) resourceRequest\<rparr>
           else info1))"

definition qi_CheckHardQuotaExceed :: "'q quantity_ops \<Rightarrow> ai_task \<Rightarrow> 'q quota_info \<Rightarrow> bool" where
  "qi_CheckHardQuotaExceed Q task info =
     (if t_slo task = EmiasLowSLO then False
      else CheckResourceListExceed Q (qi_hard info) (qi_hardUsed info)
             (request_list Q (t_resourceRequest task)))"

definition qi_Snapshot :: "'q quota_info \<Rightarrow> 'q quota_info" where
  "qi_Snapshot info =
     \<lparr>qi_name = qi_name info, qi_hard = qi_hard info, qi_soft = qi_soft info,
      qi_hardUsed = qi_hardUsed info, qi_softUsed = qi_softUsed info, qi_usedTasks = []\<rparr>"

text \<open>The operations of the snapshot are the same code without the lock.\<close>

definition qs_AddTask :: "'q quantity_ops \<Rightarrow> ai_task \<Rightarrow> 'q quota_info \<Rightarrow> 'q quota_info" where
  "qs_AddTask Q task info =
     (let key = keyFunc task in
      if gm_get (qi_usedTasks info) key = None then
        (let info1 = info\<lparr>qi_usedTasks := gm_put key task (qi_usedTasks info)\<rparr>;
             resourceRequest = request_list Q (t_resourceRequest task) in
         if t_slo task = EmiasHighSLO then
           info1\<lparr>qi_hardUsed := AddResourceList Q (qi_hardUsed info1) resourceRequest\<rparr>
         else if t_slo task = EmiasLowSLO then
           info1\<lparr>qi_softUsed := AddResourceList Q (qi_softUsed info1) resourceRequest\<rparr>
         else info1)
      else info)"

definition qs_CheckHardQuotaExceed :: "'q quantity_ops \<Rightarrow> ai_task \<Rightarrow> 'q quota_info \<Rightarrow> bool" where
  "qs_CheckHardQuotaExceed Q task info =
     (if t_slo task = EmiasLowSLO then False
      else CheckResourceListExceed Q (qi_hard info) (qi_hardUsed info)
             (request_list Q (t_resourceRequest task)))"

text \<open>The tables and services the controller reads.\<close>

record 'q quota_env =
  qe_Q :: "'q quantity_ops"
  qe_db :: task_db_env
  qe_accounts :: "'q account table"
  qe_account_fault :: "string \<Rightarrow> fault"

type_synonym 'q quota_map = "(string, 'q quota_info) gomap"

definition UpdateQuotaInfoHard :: "'q quantity_ops \<Rightarrow> string \<Rightarrow> 'q resource_list \<Rightarrow> 'q quota_map \<Rightarrow> 'q quota_map" where
  "UpdateQuotaInfoHard Q username hard m =
     (case gm_get m username of
        None \<Rightarrow> m
      | Some info \<Rightarrow>
          (if CmpResourceListSame Q (qi_hard info) hard then m
           else gm_put username (info\<lparr>qi_hard := hard\<rparr>) m))"

text \<open>An error of the listing is ignored; the list is then nil and nothing is charged.\<close>

definition AddOrUpdateQuotaInfo :: "'q quota_env \<Rightarrow> task_db \<Rightarrow> 'q account \<Rightarrow> 'q quota_map \<Rightarrow> bool \<times> 'q quota_map" where
  "AddOrUpdateQuotaInfo env db queue m =
     (let name = ac_name queue; quota = ac_quota queue in
      if gm_get m name = None then
        (let info = \<lparr>qi_name = name, qi_hard = qq_deserved quota, qi_soft = qq_capability quota,
                     qi_hardUsed = [], qi_softUsed = [], qi_usedTasks = []\<rparr>;
             tasksRunning = (case svc_ListByUserAndStatuses (qe_db env) name EmiasTaskOcupiedQuotaStatuses db of
                               Inl _ \<Rightarrow> [] | Inr ts \<Rightarrow> ts)
         in (True, gm_put name (fold (qi_AddTask (qe_Q env)) tasksRunning info) m))
      else (False, UpdateQuotaInfoHard (qe_Q env) name (qq_deserved quota) m))"

definition GetQuotaInfo :: "'q quota_env \<Rightarrow> task_db \<Rightarrow> string \<Rightarrow> 'q quota_map \<Rightarrow> 'q quota_info option \<times> 'q quota_map" where
  "GetQuotaInfo env db username m =
     (case gm_get m username of
        Some info \<Rightarrow> (Some info, m)
      | None \<Rightarrow>
          (if qe_account_fault env username \<noteq> None then (None, m)
           else (case tbl_first (\<lambda>a. ac_name a = username) (qe_accounts env) of
              None \<Rightarrow> (None, m)
            | Some quotadb \<Rightarrow>
                (let m1 = snd (AddOrUpdateQuotaInfo env db quotadb m) in
                 (gm_get m1 (ac_name quotadb), m1)))))"

definition GetQuotaInfoSnapshotByUsername :: "string \<Rightarrow> 'q quota_map \<Rightarrow> 'q quota_info option" where
  "GetQuotaInfoSnapshotByUsername username m = map_option qi_Snapshot (gm_get m username)"

definition ListQuotaInfoSnapshot :: "'q quota_map \<Rightarrow> 'q quota_info list" where
  "ListQuotaInfoSnapshot m = map (qi_Snapshot \<circ> snd) m"

definition DeleteQuotaInfo :: "string \<Rightarrow> 'q quota_map \<Rightarrow> 'q quota_map" where
  "DeleteQuotaInfo namespace m = gm_del namespace m"

section \<open>The checks on the job table\<close>

text \<open>
  The query of a column by \<open>Scan\<close> leaves the zero value when no row matches, so a user who is not
  a member has an empty quota.
\<close>

definition scan_member_capability :: "nat \<Rightarrow> nat \<Rightarrow> 'q user_account table \<Rightarrow> 'q resource_list" where
  "scan_member_capability userID accountID uas =
     (case tbl_first (\<lambda>r. ua_userID r = userID \<and> ua_accountID r = accountID) uas of
        None \<Rightarrow> [] | Some r \<Rightarrow> qq_capability (ua_quota r))"

definition active_jobs :: "nat \<Rightarrow> nat \<Rightarrow> ('q, 'p, 't) job table \<Rightarrow> ('q, 'p, 't) job list" where
  "active_jobs userID accountID jobs =
     tbl_find (\<lambda>j. jb_userID j = userID \<and> jb_accountID j = accountID \<and>
                   (jb_status j = PhaseRunning \<or> jb_status j = PhasePending)) jobs"

definition CheckJupyterLimitBeforeCreateJupyter ::
  "'q quantity_ops \<Rightarrow> fault \<Rightarrow> fault \<Rightarrow> fault \<Rightarrow> 'q user_account table \<Rightarrow> ('q, 'p, 't) job table \<Rightarrow> 'q account table \<Rightarrow>
   nat \<Rightarrow> nat \<Rightarrow> fault" where
  "CheckJupyterLimitBeforeCreateJupyter Q f1 f2 f3 uas jobs accounts userID accountID =
     (case f1 of Some e \<Rightarrow> Some e | None \<Rightarrow>
      (let userCap = scan_member_capability userID accountID uas in
       case f2 of Some e \<Rightarrow> Some e | None \<Rightarrow>
       (let jupyterCount = length (filter (\<lambda>j. jb_jobType j = JobTypeJupyter) (active_jobs userID accountID jobs)) in
        case f3 of Some e \<Rightarrow> Some e | None \<Rightarrow>
        (case tbl_first (\<lambda>a. ac_id a = accountID) accounts of
           None \<Rightarrow> Some ''record not found''
         | Some account \<Rightarrow>
             (let max1 = (case ac_userDefaultQuota account of
                            None \<Rightarrow> -1
                          | Some d \<Rightarrow> (case gm_get (qq_capability d) JobTypeJupyter of
                                        None \<Rightarrow> -1 | Some v \<Rightarrow> q_value Q v));
                  max2 = (case gm_get userCap JobTypeJupyter of None \<Rightarrow> max1 | Some v \<Rightarrow> q_value Q v)
              in if max2 = -1 then None
                 else if max2 \<le> int jupyterCount then Some ''limit'' else None)))))"

abbreviation (input) maxJobResources :: nat where "maxJobResources \<equiv> 100"

text \<open>A failing query returns the empty list of exceeded resources.\<close>

definition CheckResourcesBeforeCreateJob ::
  "'q quantity_ops \<Rightarrow> fault \<Rightarrow> fault \<Rightarrow> 'q user_account table \<Rightarrow> ('q, 'p, 't) job table \<Rightarrow>
   nat \<Rightarrow> nat \<Rightarrow> 'q resource_list \<Rightarrow> string list" where
  "CheckResourcesBeforeCreateJob Q f1 f2 uas jobs userID accountID createResources =
     (case f1 of Some e \<Rightarrow> [] | None \<Rightarrow>
      (let uqQuota = scan_member_capability userID accountID uas in
       case f2 of Some e \<Rightarrow> [] | None \<Rightarrow>
       (let jobResources = active_jobs userID accountID jobs in
        if maxJobResources \<le> length jobResources then [''job count exceeded'']
        else if uqQuota = [] then []
        else
          (let JobQuota = AddResourceList Q
                 (fold (\<lambda>j a. AddResourceList Q a (jb_resources j)) jobResources []) createResources
           in map fst (filter (\<lambda>(k, usedValue).
                q_cmp Q usedValue (case gm_get uqQuota k of None \<Rightarrow> q_zero Q | Some h \<Rightarrow> h) = 1) JobQuota)))))"

section \<open>The ledger\<close>

text \<open>The amount of a resource that the tasks of a service level request together.\<close>

definition charged :: "'q quantity_ops \<Rightarrow> ('q \<Rightarrow> int) \<Rightarrow> nat \<Rightarrow> ai_task list \<Rightarrow> string \<Rightarrow> int" where
  "charged Q val slo ts k =
     (\<Sum>t \<leftarrow> ts. if t_slo t = slo then amount val (request_list Q (t_resourceRequest t)) k else 0)"

definition covered :: "'q quantity_ops \<Rightarrow> nat \<Rightarrow> (string \<Rightarrow> ai_task option) \<Rightarrow> string set \<Rightarrow> bool" where
  "covered Q slo m D \<longleftrightarrow>
     (\<forall>key t. m key = Some t \<and> t_slo t = slo \<longrightarrow> dom (gm_get (request_list Q (t_resourceRequest t))) \<subseteq> D)"

text \<open>
  The tasks are stored under their own key, the two usage lists hold exactly what the stored
  tasks of each level request, and list every resource such a task names.
\<close>

definition quota_ok :: "'q quantity_ops \<Rightarrow> ('q \<Rightarrow> int) \<Rightarrow> 'q quota_info \<Rightarrow> bool" where
  "quota_ok Q val i \<longleftrightarrow>
     gm_ok (qi_hardUsed i) \<and> gm_ok (qi_softUsed i) \<and> gm_ok (qi_usedTasks i) \<and>
     (\<forall>k t. gm_get (qi_usedTasks i) k = Some t \<longrightarrow> keyFunc t = k) \<and>
     (\<forall>k. amount val (qi_hardUsed i) k = charged Q val EmiasHighSLO (map snd (qi_usedTasks i)) k) \<and>
     (\<forall>k. amount val (qi_softUsed i) k = charged Q val EmiasLowSLO (map snd (qi_usedTasks i)) k) \<and>
     covered Q EmiasHighSLO (gm_get (qi_usedTasks i)) (dom (gm_get (qi_hardUsed i))) \<and>
     covered Q EmiasLowSLO (gm_get (qi_usedTasks i)) (dom (gm_get (qi_softUsed i)))"

lemma covered_put:
  "covered Q s m D \<Longrightarrow> t_slo t = s \<Longrightarrow>
   covered Q s (m(k \<mapsto> t)) (D \<union> dom (gm_get (request_list Q (t_resourceRequest t))))"
  unfolding covered_def fun_upd_apply by (metis Un_upper1 Un_upper2 option.inject subset_trans)

lemma covered_put_other: "covered Q s m D \<Longrightarrow> t_slo t \<noteq> s \<Longrightarrow> covered Q s (m(k \<mapsto> t)) D"
  unfolding covered_def fun_upd_apply by (metis option.inject)

lemma covered_del: "covered Q s m D \<Longrightarrow> covered Q s (m(k := None)) D"
  unfolding covered_def fun_upd_apply by (metis option.distinct(1))

lemma quota_ok_covers:
  assumes "quota_ok Q val i" and "gm_get (qi_usedTasks i) key = Some t"
  shows "t_slo t = EmiasHighSLO \<Longrightarrow> dom (gm_get (request_list Q (t_resourceRequest t))) \<subseteq> dom (gm_get (qi_hardUsed i))"
    and "t_slo t = EmiasLowSLO \<Longrightarrow> dom (gm_get (request_list Q (t_resourceRequest t))) \<subseteq> dom (gm_get (qi_softUsed i))"
  using assms unfolding quota_ok_def covered_def by blast+

lemma charged_Nil [simp]: "charged Q val s [] k = 0"
  by (simp add: charged_def)

lemma charged_put_new:
  "gm_get m key = None \<Longrightarrow>
   charged Q val s (map snd (gm_put key t m)) k =
     charged Q val s (map snd m) k + (if t_slo t = s then amount val (request_list Q (t_resourceRequest t)) k else 0)"
  by (induction m) (auto simp: charged_def split: if_splits)

lemma charged_del:
  "gm_ok m \<Longrightarrow> gm_get m key = Some t \<Longrightarrow>
   charged Q val s (map snd (gm_del key m)) k =
     charged Q val s (map snd m) k - (if t_slo t = s then amount val (request_list Q (t_resourceRequest t)) k else 0)"
proof (induction m)
  case (Cons p m)
  show ?case
  proof (cases "fst p = key")
    case True
    with Cons.prems have "gm_del key m = m" by (metis gm_ok_Cons delete_id)
    with True Cons.prems show ?thesis by (cases p) (simp add: charged_def)
  next
    case False
    with Cons show ?thesis by (cases p) (auto simp: charged_def gm_ok_Cons)
  qed
qed simp

lemma amount_sub_covered:
  "quantity_laws Q val \<Longrightarrow> dom (gm_get b) \<subseteq> dom (gm_get a) \<Longrightarrow>
   amount val (SubResourceList Q a b) k = amount val a k - amount val b k"
proof (cases "gm_get a k = None")
  case True
  assume "dom (gm_get b) \<subseteq> dom (gm_get a)"
  with True have "gm_get b k = None" by (metis domIff subsetD)
  with True show ?thesis by (simp add: amount_def sub_resource_get)
next
  case False
  assume "quantity_laws Q val"
  with False show ?thesis by (rule amount_sub [rotated])
qed

lemma sub_resource_dom [simp]: "dom (gm_get (SubResourceList Q a b)) = dom (gm_get a)"
  by (auto simp: dom_def sub_resource_get)

lemma qs_AddTask_eq [simp]: "qs_AddTask = qi_AddTask"
  by (intro ext) (simp add: qs_AddTask_def qi_AddTask_def)

lemma qs_Check_eq [simp]: "qs_CheckHardQuotaExceed = qi_CheckHardQuotaExceed"
  by (intro ext) (simp add: qs_CheckHardQuotaExceed_def qi_CheckHardQuotaExceed_def)

lemma qi_AddTask_known:
  "gm_get (qi_usedTasks i) (keyFunc t) \<noteq> None \<Longrightarrow> qi_AddTask Q t i = i"
  by (auto simp: qi_AddTask_def Let_def)

lemma qi_AddTask_used:
  "gm_get (qi_usedTasks (qi_AddTask Q t i)) =
     (if gm_get (qi_usedTasks i) (keyFunc t) = None then (gm_get (qi_usedTasks i))(keyFunc t \<mapsto> t)
      else gm_get (qi_usedTasks i))"
  by (simp add: qi_AddTask_def Let_def)

lemma qi_DeleteTask_used:
  "gm_get (qi_usedTasks (qi_DeleteTask Q t i)) = (gm_get (qi_usedTasks i))(keyFunc t := None)"
  by (auto simp: qi_DeleteTask_def Let_def fun_eq_iff split: option.split)

lemma qi_limits [simp]:
  "qi_hard (qi_AddTask Q t i) = qi_hard i" "qi_hard (qi_DeleteTask Q t i) = qi_hard i"
  "qi_soft (qi_AddTask Q t i) = qi_soft i" "qi_soft (qi_DeleteTask Q t i) = qi_soft i"
  "qi_name (qi_AddTask Q t i) = qi_name i" "qi_name (qi_DeleteTask Q t i) = qi_name i"
  by (auto simp: qi_AddTask_def qi_DeleteTask_def Let_def split: option.split)

lemma quota_ok_AddTask:
  assumes laws: "quantity_laws Q val" and ok: "quota_ok Q val i"
  shows "quota_ok Q val (qi_AddTask Q t i)"
proof (cases "gm_get (qi_usedTasks i) (keyFunc t) = None")
  case True
  note new = charged_put_new [OF True] and r = request_list_ok [OF laws]
  show ?thesis
    using ok unfolding quota_ok_def
    by (simp add: qi_AddTask_def Let_def True new amount_add [OF laws r] add_resource_dom [OF r]
        covered_put covered_put_other)
qed (simp add: qi_AddTask_known ok)

lemma quota_ok_DeleteTask:
  assumes laws: "quantity_laws Q val" and ok: "quota_ok Q val i"
  shows "quota_ok Q val (qi_DeleteTask Q t0 i)"
proof (cases "gm_get (qi_usedTasks i) (keyFunc t0)")
  case None
  then show ?thesis using ok by (simp add: qi_DeleteTask_def Let_def)
next
  case (Some t)
  have mok: "gm_ok (qi_usedTasks i)" using ok by (simp add: quota_ok_def)
  have dom: "t_slo t = EmiasHighSLO \<Longrightarrow> dom (gm_get (request_list Q (t_resourceRequest t))) \<subseteq> dom (gm_get (qi_hardUsed i))"
    "t_slo t = EmiasLowSLO \<Longrightarrow> dom (gm_get (request_list Q (t_resourceRequest t))) \<subseteq> dom (gm_get (qi_softUsed i))"
    using quota_ok_covers [OF ok Some] by simp_all
  show ?thesis
    using ok unfolding quota_ok_def
    by (simp add: qi_DeleteTask_def Let_def Some charged_del [OF mok Some] covered_del
        amount_sub_covered [OF laws dom(1)] amount_sub_covered [OF laws dom(2)])
qed

text \<open>The abstract ledger: the charged tasks by key; an entry is not replaced by a second addition.\<close>

datatype quota_op = QAdd ai_task | QDelete ai_task

primrec quota_step :: "'q quantity_ops \<Rightarrow> quota_op \<Rightarrow> 'q quota_info \<Rightarrow> 'q quota_info" where
  "quota_step Q (QAdd t) i = qi_AddTask Q t i"
| "quota_step Q (QDelete t) i = qi_DeleteTask Q t i"

primrec ledger_step :: "quota_op \<Rightarrow> (string \<Rightarrow> ai_task option) \<Rightarrow> string \<Rightarrow> ai_task option" where
  "ledger_step (QAdd t) m = (if m (keyFunc t) = None then m(keyFunc t \<mapsto> t) else m)"
| "ledger_step (QDelete t) m = m(keyFunc t := None)"

definition ledger_amount :: "'q quantity_ops \<Rightarrow> ('q \<Rightarrow> int) \<Rightarrow> nat \<Rightarrow> (string \<Rightarrow> ai_task option) \<Rightarrow> string \<Rightarrow> int" where
  "ledger_amount Q val slo m k =
     (\<Sum>key \<in> {key \<in> dom m. t_slo (the (m key)) = slo}.
        amount val (request_list Q (t_resourceRequest (the (m key)))) k)"

definition fresh_quota :: "string \<Rightarrow> 'q resource_list \<Rightarrow> 'q resource_list \<Rightarrow> 'q quota_info" where
  "fresh_quota name hard soft =
     \<lparr>qi_name = name, qi_hard = hard, qi_soft = soft, qi_hardUsed = [], qi_softUsed = [], qi_usedTasks = []\<rparr>"

lemma fresh_quota_ok [simp]: "quota_ok Q val (fresh_quota name hard soft)"
  by (simp add: quota_ok_def fresh_quota_def covered_def)

lemma quota_ok_step: "quantity_laws Q val \<Longrightarrow> quota_ok Q val i \<Longrightarrow> quota_ok Q val (quota_step Q op i)"
  by (cases op) (simp_all add: quota_ok_AddTask quota_ok_DeleteTask)

lemma quota_ok_steps: "quantity_laws Q val \<Longrightarrow> quota_ok Q val i \<Longrightarrow> quota_ok Q val (fold (quota_step Q) ops i)"
  by (induction ops arbitrary: i) (simp_all add: quota_ok_step)

lemma quota_ok_adds: "quantity_laws Q val \<Longrightarrow> quota_ok Q val i \<Longrightarrow> quota_ok Q val (fold (qi_AddTask Q) ts i)"
  by (induction ts arbitrary: i) (simp_all add: quota_ok_AddTask)

lemma used_step: "gm_get (qi_usedTasks (quota_step Q op i)) = ledger_step op (gm_get (qi_usedTasks i))"
  by (cases op) (simp_all add: qi_AddTask_used qi_DeleteTask_used)

lemma used_steps:
  "gm_get (qi_usedTasks (fold (quota_step Q) ops i)) = fold ledger_step ops (gm_get (qi_usedTasks i))"
  by (induction ops arbitrary: i) (simp_all add: used_step)

lemma limits_steps: "qi_hard (fold (quota_step Q) ops i) = qi_hard i \<and> qi_soft (fold (quota_step Q) ops i) = qi_soft i"
proof (induction ops arbitrary: i)
  case (Cons op ops)
  then show ?case by (cases op) simp_all
qed simp

lemma charged_ledger:
  "gm_ok m \<Longrightarrow> charged Q val s (map snd m) k = ledger_amount Q val s (gm_get m) k"
proof (induction m)
  case Nil
  then show ?case by (simp add: ledger_amount_def)
next
  case (Cons p m)
  obtain key t where p: "p = (key, t)" by (cases p)
  have ok: "gm_ok m" and fresh: "gm_get m key = None"
    using Cons.prems p by (auto simp: gm_ok_Cons gm_get_None_iff)
  let ?S = "{key \<in> dom (gm_get m). t_slo (the (gm_get m key)) = s}"
  let ?S' = "{key' \<in> dom (gm_get (p # m)). t_slo (the (gm_get (p # m) key')) = s}"
  let ?f = "\<lambda>m key. amount val (request_list Q (t_resourceRequest (the (gm_get m key)))) k"
  have fin: "finite ?S" by (rule finite_subset [OF _ finite_dom_map_of [of m]]) auto
  have S': "?S' = (if t_slo t = s then insert key ?S else ?S)" using fresh p by auto
  have same: "(\<Sum>j \<in> ?S. ?f (p # m) j) = (\<Sum>j \<in> ?S. ?f m j)"
    using fresh p by (intro sum.cong) auto
  have "key \<notin> ?S" using fresh by auto
  then have "ledger_amount Q val s (gm_get (p # m)) k =
      (if t_slo t = s then amount val (request_list Q (t_resourceRequest t)) k else 0) + (\<Sum>j \<in> ?S. ?f m j)"
    unfolding ledger_amount_def S' using fin same p by simp
  moreover have "(\<Sum>j \<in> ?S. ?f m j) = ledger_amount Q val s (gm_get m) k"
    by (simp add: ledger_amount_def)
  moreover have "charged Q val s (map snd (p # m)) k =
      (if t_slo t = s then amount val (request_list Q (t_resourceRequest t)) k else 0) +
      charged Q val s (map snd m) k"
    using p by (simp add: charged_def)
  ultimately show ?case using Cons.IH [OF ok] by (simp only:)
qed

text \<open>Guarded additions, the way the controller admits a task.\<close>

definition guarded_step :: "'q quantity_ops \<Rightarrow> quota_op \<Rightarrow> 'q quota_info \<Rightarrow> 'q quota_info" where
  "guarded_step Q op i =
     (case op of
        QAdd t \<Rightarrow> (if qi_CheckHardQuotaExceed Q t i then i else qi_AddTask Q t i)
      | QDelete t \<Rightarrow> qi_DeleteTask Q t i)"

definition within_hard :: "('q \<Rightarrow> int) \<Rightarrow> 'q quota_info \<Rightarrow> bool" where
  "within_hard val i \<longleftrightarrow>
     (\<forall>k \<in> dom (gm_get (qi_hardUsed i)).
        case gm_get (qi_hard i) k of None \<Rightarrow> False | Some h \<Rightarrow> amount val (qi_hardUsed i) k \<le> val h)"

lemma not_exceeded:
  assumes "quantity_laws Q val" and "gm_ok (qi_hardUsed i)" and "\<not> qi_CheckHardQuotaExceed Q t i"
    and "t_slo t \<noteq> EmiasLowSLO"
  shows "\<forall>k \<in> dom (gm_get (qi_hardUsed i)) \<union> dom (gm_get (request_list Q (t_resourceRequest t))).
    case gm_get (qi_hard i) k of None \<Rightarrow> False
      | Some h \<Rightarrow> amount val (qi_hardUsed i) k + amount val (request_list Q (t_resourceRequest t)) k \<le> val h"
  using exceed_iff [OF assms(1,2) request_list_ok [OF assms(1)]] assms(3,4)
  by (auto simp: qi_CheckHardQuotaExceed_def not_less split: option.splits)

text \<open>A new high-level task that passes the check fits, whatever the usage was before.\<close>

lemma within_hard_add_new:
  assumes laws: "quantity_laws Q val" and ok: "gm_ok (qi_hardUsed i)"
    and check: "\<not> qi_CheckHardQuotaExceed Q t i"
    and new: "gm_get (qi_usedTasks i) (keyFunc t) = None" and high: "t_slo t = EmiasHighSLO"
  shows "within_hard val (qi_AddTask Q t i)"
proof -
  have "t_slo t \<noteq> EmiasLowSLO" using high by simp
  note fits = not_exceeded [OF laws ok check this]
  have r: "gm_ok (request_list Q (t_resourceRequest t))" using laws by simp
  show ?thesis
    using fits new high unfolding within_hard_def
    by (simp add: qi_AddTask_def Let_def add_resource_dom [OF r] amount_add [OF laws r] cong: option.case_cong)
qed

lemma within_hard_add:
  assumes laws: "quantity_laws Q val" and ok: "quota_ok Q val i" and within: "within_hard val i"
    and check: "\<not> qi_CheckHardQuotaExceed Q t i"
  shows "within_hard val (qi_AddTask Q t i)"
proof (cases "gm_get (qi_usedTasks i) (keyFunc t) = None \<and> t_slo t = EmiasHighSLO")
  case True
  have "gm_ok (qi_hardUsed i)" using ok by (simp add: quota_ok_def)
  from within_hard_add_new [OF laws this check] True show ?thesis by simp
next
  case False
  then have "qi_hardUsed (qi_AddTask Q t i) = qi_hardUsed i"
    by (auto simp: qi_AddTask_def Let_def)
  with within show ?thesis by (simp add: within_hard_def cong: option.case_cong)
qed

lemma within_hard_delete:
  assumes laws: "quantity_laws Q val" and ok: "quota_ok Q val i" and within: "within_hard val i"
    and pos: "\<And>key t k. gm_get (qi_usedTasks i) key = Some t \<Longrightarrow> 0 \<le> amount val (request_list Q (t_resourceRequest t)) k"
  shows "within_hard val (qi_DeleteTask Q t0 i)"
proof (cases "gm_get (qi_usedTasks i) (keyFunc t0)")
  case None
  then show ?thesis using within by (simp add: qi_DeleteTask_def Let_def)
next
  case (Some t)
  show ?thesis
  proof (cases "t_slo t = EmiasHighSLO")
    case True
    have cov: "dom (gm_get (request_list Q (t_resourceRequest t))) \<subseteq> dom (gm_get (qi_hardUsed i))"
      using quota_ok_covers [OF ok Some] True by simp
    show ?thesis
      using within True unfolding within_hard_def
      by (auto simp: qi_DeleteTask_def Let_def Some amount_sub_covered [OF laws cov]
          intro: order_trans [OF diff_le_self] split: option.splits)
        (smt (verit) pos [OF Some] domI option.simps(4,5))+
  next
    case False
    then have "qi_hardUsed (qi_DeleteTask Q t0 i) = qi_hardUsed i"
      using Some by (simp add: qi_DeleteTask_def Let_def)
    with within show ?thesis by (simp add: within_hard_def cong: option.case_cong)
  qed
qed

lemma within_guarded_steps:
  assumes laws: "quantity_laws Q val" and pos: "\<And>t k. QAdd t \<in> set ops \<Longrightarrow> 0 \<le> amount val (request_list Q (t_resourceRequest t)) k"
    and "quota_ok Q val i" and "within_hard val i"
    and "\<And>key t k. gm_get (qi_usedTasks i) key = Some t \<Longrightarrow> 0 \<le> amount val (request_list Q (t_resourceRequest t)) k"
  shows "quota_ok Q val (fold (guarded_step Q) ops i) \<and> within_hard val (fold (guarded_step Q) ops i)"
  using assms(2-5)
proof (induction ops arbitrary: i)
  case (Cons op ops)
  have ok: "quota_ok Q val (guarded_step Q op i)"
    using Cons.prems(2) quota_ok_AddTask [OF laws] quota_ok_DeleteTask [OF laws]
    by (auto simp: guarded_step_def split: quota_op.split)
  have within: "within_hard val (guarded_step Q op i)"
  proof (cases op)
    case (QAdd t)
    then show ?thesis using within_hard_add [OF laws Cons.prems(2,3), of t] Cons.prems(3)
      by (simp add: guarded_step_def)
  next
    case (QDelete t)
    then show ?thesis using within_hard_delete [OF laws Cons.prems(2,3,4)] by (simp add: guarded_step_def)
  qed
  have "0 \<le> amount val (request_list Q (t_resourceRequest t)) k"
    if "gm_get (qi_usedTasks (guarded_step Q op i)) key = Some t" for key t k
    using that Cons.prems(1) [of t k] Cons.prems(4) [of key t k]
    by (cases op) (auto simp: guarded_step_def qi_AddTask_used qi_DeleteTask_used split: if_splits)
  from Cons.IH [OF _ ok within this] Cons.prems(1) show ?case by simp
qed simp

section \<open>Properties\<close>

text \<open>Claim C2. The quota cache is an exact ledger: after any sequence of additions and deletions the
  amounts in use are, for every resource and each service level, the sums of the requests of the
  tasks an abstract ledger holds, where adding a task twice charges once and deleting a task
  refunds what was charged for it; the limits do not change.\<close>

theorem quota_refines_ledger:
  assumes "quantity_laws Q val"
  shows "let i = fold (quota_step Q) ops (fresh_quota name hard soft); m = fold ledger_step ops (\<lambda>_. None) in
    gm_get (qi_usedTasks i) = m \<and>
    amount val (qi_hardUsed i) k = ledger_amount Q val EmiasHighSLO m k \<and>
    amount val (qi_softUsed i) k = ledger_amount Q val EmiasLowSLO m k \<and>
    qi_hard i = hard \<and> qi_soft i = soft"
proof -
  let ?i = "fold (quota_step Q) ops (fresh_quota name hard soft)"
  let ?m = "fold ledger_step ops (\<lambda>_. None)"
  have m: "gm_get (qi_usedTasks ?i) = ?m" by (simp add: used_steps fresh_quota_def)
  have "quota_ok Q val ?i" by (rule quota_ok_steps [OF assms fresh_quota_ok])
  then have "gm_ok (qi_usedTasks ?i)"
    "amount val (qi_hardUsed ?i) k = charged Q val EmiasHighSLO (map snd (qi_usedTasks ?i)) k"
    "amount val (qi_softUsed ?i) k = charged Q val EmiasLowSLO (map snd (qi_usedTasks ?i)) k"
    by (simp_all add: quota_ok_def)
  then show ?thesis
    using m limits_steps [of Q ops "fresh_quota name hard soft"]
    by (simp add: Let_def charged_ledger fresh_quota_def)
qed

lemma quota_refines_ledger_witness:
  "amount (\<lambda>x. x) (qi_hardUsed (fold (quota_step int_quantity) [QAdd sample_task, QAdd sample_task]
     (fresh_quota ''u'' [(''cpu'', 4)] []))) ''cpu'' = 1"
  using quota_refines_ledger [OF int_quantity_laws, of "[QAdd sample_task, QAdd sample_task]" "''u''"
      "[(''cpu'', 4)]" "[]" "''cpu''"]
  by (simp add: ledger_amount_def Let_def sample_task_fields request_list_def JSONToResourceList_def
      int_quantity_def amount_def Collect_conv_if)

text \<open>Admission by the quota check is safe: when every addition is guarded by
  \<open>CheckHardQuotaExceed\<close>, no sequence of additions and deletions brings the amount in use of any
  resource above its hard limit, or uses a resource without a limit.  (The requests added are
  non-negative; a deletion would otherwise raise the usage.)\<close>

theorem guarded_quota_within_hard:
  assumes "quantity_laws Q val"
    and "\<And>t k. QAdd t \<in> set ops \<Longrightarrow> 0 \<le> amount val (request_list Q (t_resourceRequest t)) k"
    and "gm_get (qi_hardUsed (fold (guarded_step Q) ops (fresh_quota name hard soft))) k = Some u"
  shows "\<exists>h. gm_get hard k = Some h \<and> val u \<le> val h"
proof -
  let ?i = "fold (guarded_step Q) ops (fresh_quota name hard soft)"
  have start: "within_hard val (fresh_quota name hard soft)"
    "\<And>key t k. gm_get (qi_usedTasks (fresh_quota name hard soft)) key = Some t \<Longrightarrow>
       0 \<le> amount val (request_list Q (t_resourceRequest t)) k"
    by (simp_all add: within_hard_def fresh_quota_def)
  have "qi_hard (fold (guarded_step Q) ops i) = qi_hard i" for i
    by (induction ops arbitrary: i) (auto simp: guarded_step_def split: quota_op.split)
  then have hard: "qi_hard ?i = hard" by (simp add: fresh_quota_def)
  have "within_hard val ?i"
    by (rule within_guarded_steps [OF assms(1), THEN conjunct2]) (use assms(2) start in auto)
  with assms(3) hard show ?thesis
    by (force simp: within_hard_def amount_def split: option.splits)
qed

lemma guarded_quota_within_hard_witness:
  "\<exists>h. gm_get [(''cpu'', 4)] ''cpu'' = Some h \<and> (1 :: int) \<le> h"
  by (rule guarded_quota_within_hard [OF int_quantity_laws, where ops = "[QAdd sample_task]" and k = "''cpu''"
        and name = "''u''" and soft = "[]" and u = 1])
    (auto simp: sample_task_fields request_list_def JSONToResourceList_def int_quantity_def amount_def
      guarded_step_def qi_CheckHardQuotaExceed_def CheckResourceListExceed_def AddResourceList_def
      fresh_quota_def qi_AddTask_def Let_def)

text \<open>The check before a job is created reports exactly the resources in which the user's
  running and pending jobs together with the new job exceed the membership's capability, a
  resource without an entry counting as capability zero; with no capability at all, or when a
  query fails, nothing is reported and the job passes; a hundred active jobs always block.\<close>

theorem check_resources_exact:
  fixes uas :: "'q user_account table" and jobs :: "('q, 'p, 't) job table" and userID accountID :: nat
  assumes "quantity_laws Q val" and "gm_ok createResources"
    and "\<forall>j \<in> set jobs. gm_ok (jb_resources j)"
  defines "cap \<equiv> scan_member_capability userID accountID uas"
    and "active \<equiv> active_jobs userID accountID jobs"
  shows "let res = CheckResourcesBeforeCreateJob Q f1 f2 uas jobs userID accountID createResources in
    (f1 \<noteq> None \<or> f2 \<noteq> None \<longrightarrow> res = []) \<and>
    (f1 = None \<and> f2 = None \<longrightarrow>
      (100 \<le> length active \<longrightarrow> res \<noteq> []) \<and>
      (length active < 100 \<and> cap = [] \<longrightarrow> res = []) \<and>
      (length active < 100 \<and> cap \<noteq> [] \<longrightarrow>
         distinct res \<and>
         (k \<in> set res \<longleftrightarrow>
           k \<in> dom (gm_get createResources) \<union> (\<Union>j \<in> set active. dom (gm_get (jb_resources j))) \<and>
           amount val cap k < (\<Sum>j \<leftarrow> active. amount val (jb_resources j) k) + amount val createResources k)))"
proof -
  let ?add = "\<lambda>js a. fold (\<lambda>j a. AddResourceList Q a (jb_resources j)) js a"
  let ?sum = "AddResourceList Q (?add active []) createResources"
  have adds: "gm_ok (?add js a) \<and>
     amount val (?add js a) k = amount val a k + (\<Sum>j \<leftarrow> js. amount val (jb_resources j) k) \<and>
     dom (gm_get (?add js a)) = dom (gm_get a) \<union> (\<Union>j \<in> set js. dom (gm_get (jb_resources j)))"
    if "gm_ok a" "\<forall>j \<in> set js. gm_ok (jb_resources j)" for js :: "('q, 'p, 't) job list" and a
    using that
  proof (induction js arbitrary: a)
    case (Cons j js)
    then show ?case by (auto simp: amount_add [OF assms(1)] add_resource_dom)
  qed simp
  have act: "\<forall>j \<in> set active. gm_ok (jb_resources j)"
    using assms(3) by (simp add: active_def active_jobs_def tbl_find_def)
  note base = adds [OF gm_ok_Nil act]
  have ok: "gm_ok ?sum" using base by simp
  have amt: "amount val ?sum k = (\<Sum>j \<leftarrow> active. amount val (jb_resources j) k) + amount val createResources k"
    using base by (simp add: amount_add [OF assms(1,2)])
  have dom: "dom (gm_get ?sum) = dom (gm_get createResources) \<union> (\<Union>j \<in> set active. dom (gm_get (jb_resources j)))"
    using base by (auto simp: add_resource_dom [OF assms(2)])
  let ?res = "map fst (filter (\<lambda>(k, usedValue).
      q_cmp Q usedValue (case gm_get cap k of None \<Rightarrow> q_zero Q | Some h \<Rightarrow> h) = 1) ?sum)"
  have zero: "val (case gm_get cap k of None \<Rightarrow> q_zero Q | Some h \<Rightarrow> h) = amount val cap k" for k
    using assms(1) by (simp add: amount_def quantity_laws_def split: option.split)
  have "k \<in> set ?res \<longleftrightarrow> (\<exists>v. gm_get ?sum k = Some v \<and> amount val cap k < val v)"
    unfolding cmp_eq_1 [OF assms(1)] zero gm_get_in_set [OF ok] by force
  also have "\<dots> \<longleftrightarrow> k \<in> dom (gm_get ?sum) \<and> amount val cap k < amount val ?sum k"
    by (auto simp: amount_def)
  finally have mem: "k \<in> set ?res \<longleftrightarrow> k \<in> dom (gm_get ?sum) \<and> amount val cap k < amount val ?sum k" .
  have "distinct ?res" using ok unfolding gm_ok_def by (simp add: distinct_map_filter)
  with mem show ?thesis
    by (simp add: CheckResourcesBeforeCreateJob_def Let_def cap_def [symmetric] active_def [symmetric]
        amt dom split: option.split)
qed

lemma check_resources_exact_witness:
  "''cpu'' \<in> set (CheckResourcesBeforeCreateJob int_quantity None None
     [\<lparr>ua_id = 1, ua_userID = 1, ua_accountID = 2, ua_role = RoleUser, ua_accessMode = AccessModeRW,
       ua_quota = \<lparr>qq_guaranteed = [], qq_deserved = [], qq_capability = [(''mem'', 3)]\<rparr>\<rparr>]
     ([] :: (int, unit, unit) job table) 1 2 [(''cpu'', 1)])"
  using check_resources_exact [OF int_quantity_laws, of "[(''cpu'', 1)]" "[] :: (int, unit, unit) job table" None None
      "[\<lparr>ua_id = 1, ua_userID = 1, ua_accountID = 2, ua_role = RoleUser, ua_accessMode = AccessModeRW,
        ua_quota = \<lparr>qq_guaranteed = [], qq_deserved = [], qq_capability = [(''mem'', 3)]\<rparr>\<rparr>]" 1 2 "''cpu''"]
  by (simp add: Let_def active_jobs_def tbl_find_def scan_member_capability_def tbl_first_Cons amount_def gm_ok_def)

text \<open>The Jupyter limit: the creation passes exactly when the limit is -1 or above the number
  of the user's active Jupyter jobs in the account; the member's own capability overrides the
  account's default, and neither naming the resource means no limit.\<close>

theorem jupyter_limit_exact:
  fixes uas :: "'q user_account table" and jobs :: "('q, 'p, 't) job table" and userID accountID :: nat
    and account :: "'q account"
  assumes "tbl_first (\<lambda>a. ac_id a = accountID) accounts = Some account"
  defines "own \<equiv> gm_get (scan_member_capability userID accountID uas) ''jupyter''"
    and "dflt \<equiv> Option.bind (ac_userDefaultQuota account) (\<lambda>d. gm_get (qq_capability d) ''jupyter'')"
    and "running \<equiv> length (filter (\<lambda>j. jb_jobType j = ''jupyter'') (active_jobs userID accountID jobs))"
  shows "CheckJupyterLimitBeforeCreateJupyter Q None None None uas jobs accounts userID accountID = None \<longleftrightarrow>
    (case (own, dflt) of
       (Some v, _) \<Rightarrow> q_value Q v = -1 \<or> int running < q_value Q v
     | (None, Some v) \<Rightarrow> q_value Q v = -1 \<or> int running < q_value Q v
     | (None, None) \<Rightarrow> True)"
  using assms(1)
  by (auto simp: CheckJupyterLimitBeforeCreateJupyter_def Let_def own_def dflt_def running_def not_le
      split: option.splits)

lemma jupyter_limit_exact_witness:
  "CheckJupyterLimitBeforeCreateJupyter int_quantity None None None [] ([] :: (int, unit, unit) job table)
     [\<lparr>ac_id = 2, ac_name = ''a'', ac_nickname = [], ac_space = [], ac_expiredAt = None,
       ac_quota = \<lparr>qq_guaranteed = [], qq_deserved = [], qq_capability = []\<rparr>,
       ac_userDefaultQuota = Some \<lparr>qq_guaranteed = [], qq_deserved = [], qq_capability = [(''jupyter'', 0)]\<rparr>\<rparr>] 1 2 \<noteq> None"
  by (subst jupyter_limit_exact)
    (auto simp: tbl_first_Cons scan_member_capability_def int_quantity_def)

text \<open>The quota of a user who is not in the cache is loaded from the account row and charged
  with exactly the user's tasks in the created, pending, running and preempted states, and an
  admission is then guarded against these amounts; for a user in the cache nothing is read.  A
  user without an account row stays without quota.\<close>

theorem quota_loading:
  assumes "quantity_laws (qe_Q env) val" and "db_ok db" and "qe_account_fault env u = None"
    and "list_fault (qe_db env) u = None"
  shows "case gm_get m u of
      Some i \<Rightarrow> GetQuotaInfo env db u m = (Some i, m)
    | None \<Rightarrow> (case tbl_first (\<lambda>a. ac_name a = u) (qe_accounts env) of
        None \<Rightarrow> GetQuotaInfo env db u m = (None, m)
      | Some a \<Rightarrow> (\<exists>i. GetQuotaInfo env db u m = (Some i, gm_put u i m) \<and> quota_ok (qe_Q env) val i \<and>
          qi_hard i = qq_deserved (ac_quota a) \<and>
          (\<forall>t. gm_get (qi_usedTasks i) (keyFunc t) = Some t \<longleftrightarrow>
             t \<in> set db \<and> t_userName t = u \<and> \<not> t_isDeleted t \<and>
             t_status t \<in> {''Created'', ''Pending'', ''Running'', ''Preempted''})))"
proof (cases "gm_get m u")
  case None
  show ?thesis
  proof (cases "tbl_first (\<lambda>a. ac_name a = u) (qe_accounts env)")
    case (Some a)
    then have name: "ac_name a = u" using tbl_first_Some by fastforce
    let ?Q = "qe_Q env"
    let ?ts = "tbl_find (\<lambda>t. t_userName t = u \<and> List.member EmiasTaskOcupiedQuotaStatuses (t_status t) \<and> \<not> t_isDeleted t) db"
    let ?i0 = "fresh_quota u (qq_deserved (ac_quota a)) (qq_capability (ac_quota a))"
    let ?i = "fold (qi_AddTask ?Q) ?ts ?i0"
    have get: "GetQuotaInfo env db u m = (Some ?i, gm_put u ?i m)"
      using None Some name assms(3,4)
      by (simp add: GetQuotaInfo_def AddOrUpdateQuotaInfo_def svc_ListByUserAndStatuses_def Let_def
          fresh_quota_def EmiasTaskOcupiedQuotaStatuses_def)
    have ok: "quota_ok ?Q val ?i" by (rule quota_ok_adds [OF assms(1) fresh_quota_ok])
    have used: "gm_get (qi_usedTasks (fold (qi_AddTask ?Q) ts i)) k =
        (case gm_get (qi_usedTasks i) k of Some t \<Rightarrow> Some t | None \<Rightarrow> find (\<lambda>t. keyFunc t = k) ts)" for ts i k
      by (induction ts arbitrary: i) (auto simp: qi_AddTask_used split: option.split)
    have hard: "qi_hard (fold (qi_AddTask ?Q) ts i) = qi_hard i" for ts i
      by (induction ts arbitrary: i) auto
    have dist: "distinct (map t_id ?ts)"
      using assms(2) by (simp add: db_ok_def tbl_find_def distinct_map_filter)
    have find_row: "find (\<lambda>t'. keyFunc t' = keyFunc t) ts = Some t \<longleftrightarrow> t \<in> set ts"
      if "distinct (map t_id ts)" for ts t
      using that by (induction ts) (auto simp: image_iff)
    have "gm_get (qi_usedTasks ?i) (keyFunc t) = Some t \<longleftrightarrow> t \<in> set ?ts" for t
      using find_row [OF dist] by (simp add: used fresh_quota_def)
    with get ok hard None Some show ?thesis
      by (auto simp: fresh_quota_def tbl_find_def EmiasTaskOcupiedQuotaStatuses_def)
  qed (simp add: None GetQuotaInfo_def assms(3))
qed (simp add: GetQuotaInfo_def)

text \<open>An account and an environment without failures for the witnesses.\<close>

definition sample_account :: "int account" where
  "sample_account =
     \<lparr>ac_id = 2, ac_name = ''u'', ac_nickname = ''u'', ac_space = ''s'', ac_expiredAt = None,
      ac_quota = \<lparr>qq_guaranteed = [], qq_deserved = [(''cpu'', 4)], qq_capability = []\<rparr>,
      ac_userDefaultQuota = None\<rparr>"

definition sample_env :: "int quota_env" where
  "sample_env =
     \<lparr>qe_Q = int_quantity,
      qe_db = \<lparr>get_fault = (\<lambda>_. None), upd_fault = (\<lambda>_ _. None), list_fault = (\<lambda>_. None),
               neg_uint = (\<lambda>_. 0), now = 0\<rparr>,
      qe_accounts = [sample_account], qe_account_fault = (\<lambda>_. None)\<rparr>"

lemma quota_loading_witness:
  "\<exists>i. GetQuotaInfo sample_env [sample_task\<lparr>t_status := ''Running''\<rparr>] ''u'' [] = (Some i, [(''u'', i)]) \<and>
       qi_hard i = [(''cpu'', 4)]"
  using quota_loading [of sample_env "\<lambda>x. x" "[sample_task\<lparr>t_status := ''Running''\<rparr>]" "''u''" "[]"]
  by (auto simp: sample_env_def sample_account_def db_ok_def tbl_first_Cons)

end
