(* ===== verification/Job_Status.thy ===== *)
theory Job_Status imports Prelude begin

text \<open>
  The status of an AIJob: the conditions of \<open>pkg/util/status.go\<close>, and the notifications
  \<open>pkg/reconciler/aijob-reconciler.go\<close> sends to the task controller when a job is created or
  changes.
\<close>

section \<open>Conditions\<close>

record job_condition =
  jc_type :: string
  jc_status :: bool
  jc_reason :: string
  jc_message :: string
  jc_lastUpdateTime :: time
  jc_lastTransitionTime :: time

record job_status =
  js_phase :: string
  js_conditions :: "job_condition list"

abbreviation (input) JobCreated :: string where "JobCreated \<equiv> ''Created''"
abbreviation (input) JobRunning :: string where "JobRunning \<equiv> ''Running''"
abbreviation (input) JobSucceeded :: string where "JobSucceeded \<equiv> ''Succeeded''"
abbreviation (input) JobFailed :: string where "JobFailed \<equiv> ''Failed''"
abbreviation (input) JobPreempted :: string where "JobPreempted \<equiv> ''Preempted''"

definition hasCondition :: "job_status \<Rightarrow> string \<Rightarrow> bool" where
  "hasCondition st condType = list_ex (\<lambda>c. jc_type c = condType \<and> jc_status c) (js_conditions st)"

definition IsSucceeded :: "job_status \<Rightarrow> bool" where
  "IsSucceeded st = hasCondition st JobSucceeded"

definition IsFailed :: "job_status \<Rightarrow> bool" where
  "IsFailed st = hasCondition st JobFailed"

definition newCondition :: "time \<Rightarrow> string \<Rightarrow> string \<Rightarrow> string \<Rightarrow> job_condition" where
  "newCondition now conditionType reason message =
     \<lparr>jc_type = conditionType, jc_status = True, jc_reason = reason, jc_message = message,
      jc_lastUpdateTime = now, jc_lastTransitionTime = now\<rparr>"

definition getCondition :: "job_status \<Rightarrow> string \<Rightarrow> job_condition option" where
  "getCondition st condType = find (\<lambda>c. jc_type c = condType) (js_conditions st)"

fun filterOutCondition :: "job_condition list \<Rightarrow> string \<Rightarrow> job_condition list" where
  "filterOutCondition [] condType = []"
| "filterOutCondition (c # cs) condType =
     (if jc_type c = condType then filterOutCondition cs condType
      else (if (condType = JobFailed \<or> condType = JobSucceeded) \<and> jc_type c = JobRunning
            then c\<lparr>jc_status := False\<rparr> else c) # filterOutCondition cs condType)"

definition setCondition :: "job_status \<Rightarrow> job_condition \<Rightarrow> job_status" where
  "setCondition st condition =
     (if IsFailed st then st
      else
        (let currentCond = getCondition st (jc_type condition) in
         case currentCond of
           None \<Rightarrow> st\<lparr>js_conditions := filterOutCondition (js_conditions st) (jc_type condition) @ [condition]\<rparr>
         | Some cur \<Rightarrow>
             (if jc_status cur = jc_status condition \<and> jc_reason cur = jc_reason condition then st
              else
                (let condition1 = (if jc_status cur = jc_status condition
                                   then condition\<lparr>jc_lastTransitionTime := jc_lastTransitionTime cur\<rparr> else condition)
                 in st\<lparr>js_conditions := filterOutCondition (js_conditions st) (jc_type condition) @ [condition1]\<rparr>))))"

definition UpdateJobConditionsAndStatus :: "time \<Rightarrow> string \<Rightarrow> string \<Rightarrow> string \<Rightarrow> string \<Rightarrow> job_status \<Rightarrow> job_status" where
  "UpdateJobConditionsAndStatus now phase conditionType reason message st =
     (setCondition st (newCondition now conditionType reason message))\<lparr>js_phase := phase\<rparr>"

definition IsCompletedStatus :: "string \<Rightarrow> bool" where
  "IsCompletedStatus s = (s = JobFailed \<or> s = JobSucceeded)"

section \<open>Notifications\<close>

record job_status_event =
  ev_taskID :: string
  ev_newStatus :: string
  ev_statusReason :: string

definition getTaskIDFromLabels :: "string \<Rightarrow> (string, string) gomap \<Rightarrow> string" where
  "getTaskIDFromLabels labelKey labels = (case gm_get labels labelKey of None \<Rightarrow> [] | Some v \<Rightarrow> v)"

abbreviation (input) LabelKeyTaskID :: string where "LabelKeyTaskID \<equiv> ''aisystem.github.com/taskid''"

text \<open>The channel is the list of the events sent to it.\<close>

definition notifyJobStatus ::
  "string \<Rightarrow> string \<Rightarrow> (string, string) gomap \<Rightarrow> job_status \<Rightarrow> job_status_event list \<Rightarrow> job_status_event list" where
  "notifyJobStatus jobNamespace namespace labels st chan =
     (if js_phase st \<in> {''Preempted'', ''Running'', ''Succeeded'', ''Failed''} then
        (if namespace \<noteq> jobNamespace then chan
         else chan @ [\<lparr>ev_taskID = getTaskIDFromLabels LabelKeyTaskID labels, ev_newStatus = js_phase st,
                       ev_statusReason = (if js_conditions st = [] then [] else jc_message (last (js_conditions st)))\<rparr>])
      else chan)"

text \<open>The event filters for creation and update; both answer false, so nothing is queued for
  \<open>Reconcile\<close>, which does nothing.\<close>

definition onJobEvent ::
  "string \<Rightarrow> string \<Rightarrow> (string, string) gomap \<Rightarrow> job_status \<Rightarrow> job_status_event list \<Rightarrow> bool \<times> job_status_event list" where
  "onJobEvent jobNamespace namespace labels st chan =
     (if getTaskIDFromLabels LabelKeyTaskID labels = [] then (False, chan)
      else (False, notifyJobStatus jobNamespace namespace labels st chan))"

section \<open>Lemmas\<close>

definition conditions_ok :: "job_status \<Rightarrow> bool" where
  "conditions_ok st \<longleftrightarrow> distinct (map jc_type (js_conditions st))"

lemma filterOut_types:
  "map jc_type (filterOutCondition cs ct) = filter (\<lambda>t. t \<noteq> ct) (map jc_type cs)"
  by (induction cs) auto

lemma filterOut_not_running:
  "ct = JobFailed \<or> ct = JobSucceeded \<Longrightarrow> c \<in> set (filterOutCondition cs ct) \<Longrightarrow> jc_type c = JobRunning \<Longrightarrow>
   \<not> jc_status c"
  by (induction cs) (auto split: if_splits)

lemma find_None_types: "find (\<lambda>c. jc_type c = ct) cs = None \<longleftrightarrow> ct \<notin> jc_type ` set cs"
  by (induction cs) auto

lemma find_append_types:
  "find (\<lambda>c. jc_type c = ct) (xs @ ys) =
     (case find (\<lambda>c. jc_type c = ct) xs of Some c \<Rightarrow> Some c | None \<Rightarrow> find (\<lambda>c. jc_type c = ct) ys)"
  by (induction xs) auto

lemma find_filterOut_same: "find (\<lambda>c. jc_type c = ct) (filterOutCondition cs ct) = None"
proof -
  have "jc_type ` set (filterOutCondition cs ct) = set (filter (\<lambda>t. t \<noteq> ct) (map jc_type cs))"
    using filterOut_types [of cs ct] by (metis list.set_map)
  then show ?thesis by (simp add: find_None_types)
qed

lemma setCondition_ok:
  assumes "conditions_ok st"
  shows "conditions_ok (setCondition st c)"
proof -
  have "distinct (map jc_type (filterOutCondition (js_conditions st) (jc_type c) @ [d]))"
    if "jc_type d = jc_type c" for d
    using assms that by (auto simp: conditions_ok_def filterOut_types simp flip: set_map)
  then show ?thesis
    using assms by (auto simp: setCondition_def Let_def conditions_ok_def split: option.split)
qed

lemma setCondition_failed: "IsFailed st \<Longrightarrow> setCondition st c = st"
  by (simp add: setCondition_def)

lemma setCondition_get:
  "\<not> IsFailed st \<Longrightarrow>
   \<exists>c'. getCondition (setCondition st c) (jc_type c) = Some c' \<and> jc_status c' = jc_status c \<and> jc_reason c' = jc_reason c \<and>
     jc_lastTransitionTime c' =
       (case getCondition st (jc_type c) of
          Some cur \<Rightarrow> if jc_status cur = jc_status c then jc_lastTransitionTime cur else jc_lastTransitionTime c
        | None \<Rightarrow> jc_lastTransitionTime c)"
  by (auto simp: setCondition_def getCondition_def Let_def find_append_types find_filterOut_same split: option.split)

section \<open>Properties\<close>

text \<open>An update of the status, as its arguments.\<close>

type_synonym condition_update = "time \<times> string \<times> string \<times> string \<times> string"

definition apply_update :: "condition_update \<Rightarrow> job_status \<Rightarrow> job_status" where
  "apply_update u st =
     (case u of (now, phase, ct, reason, message) \<Rightarrow> UpdateJobConditionsAndStatus now phase ct reason message st)"

lemma apply_update_conditions:
  "js_conditions (apply_update (now, phase, ct, reason, message) st) =
     js_conditions (setCondition st (newCondition now ct reason message))"
  by (simp add: apply_update_def UpdateJobConditionsAndStatus_def)

lemma apply_update_phase: "js_phase (apply_update (now, phase, ct, reason, message) st) = phase"
  by (simp add: apply_update_def UpdateJobConditionsAndStatus_def)

lemma apply_update_failed:
  assumes "IsFailed st"
  shows "js_conditions (apply_update u st) = js_conditions st \<and> IsFailed (apply_update u st)"
  using assms by (cases u) (simp add: apply_update_conditions setCondition_failed IsFailed_def hasCondition_def)

text \<open>Over any sequence of updates a job keeps at most one condition per type, and failure
  is final for the conditions: once a failed condition is true no update changes any condition.
  The phase is not protected: it is always the phase of the last update.\<close>

theorem job_conditions_run:
  assumes "conditions_ok st"
  shows "conditions_ok (fold apply_update us st) \<and>
    (IsFailed st \<longrightarrow> js_conditions (fold apply_update us st) = js_conditions st \<and> IsFailed (fold apply_update us st)) \<and>
    (us \<noteq> [] \<longrightarrow> js_phase (fold apply_update us st) = fst (snd (last us)))"
proof -
  have ok: "conditions_ok (apply_update u st)" if "conditions_ok st" for u st
    using setCondition_ok [OF that] by (cases u) (simp add: conditions_ok_def apply_update_conditions)
  have "conditions_ok st \<Longrightarrow> conditions_ok (fold apply_update us st)" for st
    by (induction us arbitrary: st) (auto simp: ok)
  moreover have "IsFailed st \<Longrightarrow>
      js_conditions (fold apply_update us st) = js_conditions st \<and> IsFailed (fold apply_update us st)" for st
    by (induction us arbitrary: st) (simp_all add: apply_update_failed)
  moreover have "js_phase (fold apply_update us st) = fst (snd (last us))" if "us \<noteq> []"
    using that by (cases us rule: rev_cases) (auto simp: apply_update_phase split: prod.splits)
  ultimately show ?thesis using assms by blast
qed

lemma job_conditions_run_witness:
  "conditions_ok (fold apply_update [(1, ''Running'', ''Running'', ''r'', ''m''), (2, ''Failed'', ''Failed'', ''r'', ''m''),
     (3, ''Running'', ''Running'', ''r'', ''m'')] \<lparr>js_phase = [], js_conditions = []\<rparr>)"
  by (rule job_conditions_run [THEN conjunct1]) (simp add: conditions_ok_def)

text \<open>One update on a job that has not failed: the condition of the type is set with the
  reason; its transition time is the old one when the status did not change and the current time
  otherwise; and if success or failure is newly set, no condition says any more that the job is running.\<close>

theorem job_condition_update:
  assumes "\<not> IsFailed st"
  shows "\<exists>c. getCondition (apply_update (now, phase, ct, reason, message) st) ct = Some c \<and>
      jc_status c \<and> jc_reason c = reason \<and>
      jc_lastTransitionTime c = (case getCondition st ct of
         Some cur \<Rightarrow> if jc_status cur then jc_lastTransitionTime cur else now | None \<Rightarrow> now) \<and>
      (ct \<in> {''Failed'', ''Succeeded''} \<and> \<not> (\<exists>cur. getCondition st ct = Some cur \<and> jc_status cur \<and> jc_reason cur = reason) \<longrightarrow>
         \<not> hasCondition (apply_update (now, phase, ct, reason, message) st) ''Running'')"
proof -
  let ?st = "apply_update (now, phase, ct, reason, message) st"
  let ?c = "newCondition now ct reason message"
  have get: "getCondition ?st ct = getCondition (setCondition st ?c) ct"
    by (simp add: getCondition_def apply_update_conditions)
  have "\<not> hasCondition ?st ''Running''"
    if "ct = ''Failed'' \<or> ct = ''Succeeded''"
      "\<not> (\<exists>cur. getCondition st ct = Some cur \<and> jc_status cur \<and> jc_reason cur = reason)"
  proof -
    have "\<exists>c. js_conditions (setCondition st ?c) = filterOutCondition (js_conditions st) ct @ [c] \<and> jc_type c = ct"
      using that(2) assms by (auto simp: setCondition_def newCondition_def Let_def split: option.split)
    then obtain c where "js_conditions ?st = filterOutCondition (js_conditions st) ct @ [c]" "jc_type c = ct"
      by (auto simp: apply_update_conditions)
    then show ?thesis
      using that(1) filterOut_not_running [OF that(1)] by (auto simp: hasCondition_def list_ex_iff)
  qed
  with setCondition_get [OF assms, of ?c] get show ?thesis
    by (auto simp: newCondition_def split: option.splits)
qed

lemma job_condition_update_witness:
  "\<not> hasCondition (apply_update (2, ''Failed'', ''Failed'', ''oom'', ''m'')
     \<lparr>js_phase = ''Running'', js_conditions = [newCondition 1 ''Running'' ''r'' ''m'']\<rparr>) ''Running''"
  using job_condition_update [of "\<lparr>js_phase = ''Running'', js_conditions = [newCondition 1 ''Running'' ''r'' ''m'']\<rparr>"
      2 "''Failed''" "''Failed''" "''oom''" "''m''"]
  by (auto simp: IsFailed_def hasCondition_def getCondition_def newCondition_def)

end
