(* ===== verification/Job_Control.thy ===== *)
theory Job_Control imports AI_Task Job_Status begin

text \<open>
  \<open>pkg/crclient/jobclient.go\<close> and \<open>profileclient.go\<close>: the AIJob and the profiling pod of a task.

  The cluster is the list of its AIJobs, pods and ingresses; an API call can fail as the argument
  \<open>cluster_env\<close> decides, creating an object under a name that is taken fails, and so does deleting
  one that is not there.  A successful call has the documented effect on the list.
\<close>

section \<open>The cluster\<close>

record ai_job =
  aj_name :: string
  aj_namespace :: string
  aj_labels :: "(string, string) gomap"
  aj_annotations :: "(string, string) gomap"
  aj_podSpec :: pod_spec
  aj_resourceRequest :: string
  aj_status :: job_status

record pod =
  pd_name :: string
  pd_namespace :: string
  pd_labels :: "(string, string) gomap"
  pd_annotations :: "(string, string) gomap"
  pd_podSpec :: pod_spec
  pd_phase :: string
  pd_startTime :: "time option"
  pd_nodeName :: string

record cluster =
  cl_jobs :: "ai_job list"
  cl_pods :: "pod list"
  cl_ingresses :: "string list"

record cluster_env =
  ce_job :: "string \<Rightarrow> string \<Rightarrow> fault"
  ce_pod :: "string \<Rightarrow> string \<Rightarrow> fault"
  ce_ingress :: "string \<Rightarrow> fault"
  ce_list :: fault

definition find_job :: "string \<Rightarrow> string \<Rightarrow> cluster \<Rightarrow> ai_job option" where
  "find_job ns name cl = find (\<lambda>j. aj_namespace j = ns \<and> aj_name j = name) (cl_jobs cl)"

definition find_pod :: "string \<Rightarrow> string \<Rightarrow> cluster \<Rightarrow> pod option" where
  "find_pod ns name cl = find (\<lambda>p. pd_namespace p = ns \<and> pd_name p = name) (cl_pods cl)"

definition k8s_create_job :: "cluster_env \<Rightarrow> ai_job \<Rightarrow> cluster \<Rightarrow> fault \<times> cluster" where
  "k8s_create_job env job cl =
     (case ce_job env (aj_namespace job) (aj_name job) of
        Some e \<Rightarrow> (Some e, cl)
      | None \<Rightarrow> (if find_job (aj_namespace job) (aj_name job) cl \<noteq> None then (Some ''already exists'', cl)
                 else (None, cl\<lparr>cl_jobs := cl_jobs cl @ [job]\<rparr>)))"

definition k8s_delete_job :: "cluster_env \<Rightarrow> string \<Rightarrow> string \<Rightarrow> cluster \<Rightarrow> fault \<times> cluster" where
  "k8s_delete_job env ns name cl =
     (case ce_job env ns name of
        Some e \<Rightarrow> (Some e, cl)
      | None \<Rightarrow> (if find_job ns name cl = None then (Some ''not found'', cl)
                 else (None, cl\<lparr>cl_jobs := filter (\<lambda>j. \<not> (aj_namespace j = ns \<and> aj_name j = name)) (cl_jobs cl)\<rparr>)))"

definition k8s_create_pod :: "cluster_env \<Rightarrow> pod \<Rightarrow> cluster \<Rightarrow> fault \<times> cluster" where
  "k8s_create_pod env pod cl =
     (case ce_pod env (pd_namespace pod) (pd_name pod) of
        Some e \<Rightarrow> (Some e, cl)
      | None \<Rightarrow> (if find_pod (pd_namespace pod) (pd_name pod) cl \<noteq> None then (Some ''already exists'', cl)
                 else (None, cl\<lparr>cl_pods := cl_pods cl @ [pod]\<rparr>)))"

definition k8s_delete_pod :: "cluster_env \<Rightarrow> string \<Rightarrow> string \<Rightarrow> cluster \<Rightarrow> fault \<times> cluster" where
  "k8s_delete_pod env ns name cl =
     (case ce_pod env ns name of
        Some e \<Rightarrow> (Some e, cl)
      | None \<Rightarrow> (if find_pod ns name cl = None then (Some ''not found'', cl)
                 else (None, cl\<lparr>cl_pods := filter (\<lambda>p. \<not> (pd_namespace p = ns \<and> pd_name p = name)) (cl_pods cl)\<rparr>)))"

definition labels_match :: "(string, string) gomap \<Rightarrow> (string, string) gomap \<Rightarrow> bool" where
  "labels_match selector labels = list_all (\<lambda>(k, v). gm_get labels k = Some v) selector"

section \<open>AIJobs of tasks\<close>

abbreviation (input) EmiasPriorityClassGauranteed :: string where "EmiasPriorityClassGauranteed \<equiv> ''gpu-guaranteed''"
abbreviation (input) EmiasPriorityClassBestEffort :: string where "EmiasPriorityClassBestEffort \<equiv> ''gpu-besteffort''"

abbreviation (input) LabelKeyBaseURL :: string where "LabelKeyBaseURL \<equiv> ''crater.raids.io/base-url''"
abbreviation (input) LabelKeyTaskType :: string where "LabelKeyTaskType \<equiv> ''crater.raids.io/task-type''"
abbreviation (input) LabelKeyTaskUser :: string where "LabelKeyTaskUser \<equiv> ''crater.raids.io/task-user''"

definition job_name_of :: "ai_task \<Rightarrow> string" where
  "job_name_of task = replace_char (CHR ''_'') (CHR ''-'') (to_lower (t_taskName task) @ ''-'' @ fmt_uint (t_id task))"

definition task_labels :: "ai_task \<Rightarrow> (string, string) gomap" where
  "task_labels task =
     [(LabelKeyTaskID, itoa (int_of_uint (t_id task))),
      (''aisystem.github.com/task-user'', t_userName task),
      (''aisystem.github.com/task-type'', t_taskType task),
      (''aisystem.github.com/task-slo'', fmt_uint (t_slo task)),
      (''aisystem.github.com/job-name'', job_name_of task),
      (''aisystem.github.com/estimated-time'', fmt_uint (t_estimatedTime task)),
      (LabelKeyBaseURL, itoa (int_of_uint (t_id task))),
      (LabelKeyTaskType, t_taskType task),
      (LabelKeyTaskUser, t_owner task)]"

definition task_annotations :: "ai_task \<Rightarrow> (string, string) gomap" where
  "task_annotations task =
     (let a = [(''aisystem.github.com/profile-stat'', t_profileStat task)] in
      if t_profileStatus task = EmiasProfileFinish then gm_put ''aisystem.github.com/preempt-count'' ''0'' a else a)"

definition with_scheduler :: "pod_spec \<Rightarrow> pod_spec" where
  "with_scheduler spec =
     (if ps_affinity spec then spec\<lparr>ps_scheduler := ''default-scheduler''\<rparr>
      else spec\<lparr>ps_scheduler := ''kube-gpu-colocate-scheduler''\<rparr>)"

definition build_job :: "ai_task \<Rightarrow> pod_spec \<Rightarrow> ai_job" where
  "build_job task spec =
     \<lparr>aj_name = job_name_of task, aj_namespace = t_namespace task, aj_labels = task_labels task,
      aj_annotations = task_annotations task, aj_podSpec = spec, aj_resourceRequest = hd (ps_requests spec),
      aj_status = \<lparr>js_phase = [], js_conditions = []\<rparr>\<rparr>"

definition createTrainingJobFromTask :: "cluster_env \<Rightarrow> ai_task \<Rightarrow> cluster \<Rightarrow> string result \<times> cluster" where
  "createTrainingJobFromTask env task cl =
     (let podSpec = t_podTemplate task in
      if ps_requests podSpec = [] then (Inl ''no container in pod spec'', cl)
      else
        (let podSpec1 = podSpec\<lparr>ps_priorityClass := (if t_slo task = 0 then EmiasPriorityClassBestEffort
                                                     else EmiasPriorityClassGauranteed)\<rparr>;
             job = build_job task (with_scheduler podSpec1)
         in case k8s_create_job env job cl of
              (Some e, cl1) \<Rightarrow> (Inl (''create job '' @ t_taskName task @ '': '' @ e), cl1)
            | (None, cl1) \<Rightarrow> (Inr (aj_name job), cl1)))"

text \<open>A Jupyter job always gets the guaranteed priority class, and an ingress under the task id.\<close>

definition createJupyterJobFromTask :: "cluster_env \<Rightarrow> ai_task \<Rightarrow> cluster \<Rightarrow> string result \<times> cluster" where
  "createJupyterJobFromTask env task cl =
     (let podSpec = t_podTemplate task in
      if ps_requests podSpec = [] then (Inl ''no container in pod spec'', cl)
      else
        (let podSpec1 = podSpec\<lparr>ps_priorityClass := EmiasPriorityClassGauranteed\<rparr>;
             job = build_job task (with_scheduler podSpec1);
             taskID = itoa (int_of_uint (t_id task))
         in case k8s_create_job env job cl of
              (Some e, cl1) \<Rightarrow> (Inl (''create job '' @ t_taskName task @ '': '' @ e), cl1)
            | (None, cl1) \<Rightarrow>
                (case ce_ingress env taskID of
                   Some e \<Rightarrow> (Inl (''create ingress: '' @ e), cl1)
                 | None \<Rightarrow> (Inr (aj_name job), cl1\<lparr>cl_ingresses := cl_ingresses cl1 @ [taskID]\<rparr>))))"

definition CreateJobFromTask :: "cluster_env \<Rightarrow> ai_task \<Rightarrow> cluster \<Rightarrow> string result \<times> cluster" where
  "CreateJobFromTask env task cl =
     (if t_taskType task = EmiasTrainingTask then createTrainingJobFromTask env task cl
      else if t_taskType task = EmiasJupyterTask then createJupyterJobFromTask env task cl
      else (Inl (''task type is not valid: '' @ t_taskType task), cl))"

definition GetJobStatus :: "cluster_env \<Rightarrow> ai_task \<Rightarrow> cluster \<Rightarrow> string result" where
  "GetJobStatus env task cl =
     (case ce_job env (t_namespace task) (t_jobName task) of
        Some e \<Rightarrow> Inl e
      | None \<Rightarrow> (case find_job (t_namespace task) (t_jobName task) cl of
                  None \<Rightarrow> Inl ''not found'' | Some job \<Rightarrow> Inr (js_phase (aj_status job))))"

definition DeleteJobFromTask :: "cluster_env \<Rightarrow> ai_task \<Rightarrow> cluster \<Rightarrow> fault \<times> cluster" where
  "DeleteJobFromTask env task cl =
     (case k8s_delete_job env (t_namespace task) (t_jobName task) cl of
        (Some e, cl1) \<Rightarrow> (Some (''delete job '' @ t_jobName task @ '' failed: '' @ e), cl1)
      | (None, cl1) \<Rightarrow> (None, cl1))"

definition GetNodeNameFromTask :: "cluster_env \<Rightarrow> ai_task \<Rightarrow> cluster \<Rightarrow> string result" where
  "GetNodeNameFromTask env task cl =
     (let podLabels = [(LabelKeyBaseURL, itoa (int_of_uint (t_id task))),
                       (LabelKeyTaskType, t_taskType task), (LabelKeyTaskUser, t_owner task)]
      in case ce_list env of
           Some e \<Rightarrow> Inl e
         | None \<Rightarrow>
             (case filter (\<lambda>p. pd_namespace p = t_namespace task \<and> labels_match podLabels (pd_labels p)) (cl_pods cl) of
                [] \<Rightarrow> Inl (''no pods found for task '' @ fmt_uint (t_id task))
              | p # _ \<Rightarrow> Inr (pd_nodeName p)))"

section \<open>Profiling pods\<close>

abbreviation (input) ProfilingPodLabels :: "(string, string) gomap" where
  "ProfilingPodLabels \<equiv> [(''aisystem.github.com/profile'', ''true'')]"

definition ListProflingPods :: "cluster_env \<Rightarrow> cluster \<Rightarrow> pod list result" where
  "ListProflingPods env cl =
     (case ce_list env of
        Some e \<Rightarrow> Inl e
      | None \<Rightarrow> Inr (filter (\<lambda>p. labels_match ProfilingPodLabels (pd_labels p)) (cl_pods cl)))"

definition profile_pod_name :: "ai_task \<Rightarrow> string" where
  "profile_pod_name task =
     replace_char (CHR ''_'') (CHR ''-'') (to_lower (t_taskName task @ ''-'' @ fmt_uint (t_id task) @ ''-profiling''))"

definition DeleteProfilePod :: "cluster_env \<Rightarrow> ai_task \<Rightarrow> cluster \<Rightarrow> fault \<times> cluster" where
  "DeleteProfilePod env task cl = k8s_delete_pod env (t_namespace task) (profile_pod_name task) cl"

definition GetTaskIDFromPod :: "pod \<Rightarrow> nat result" where
  "GetTaskIDFromPod pod =
     (case gm_get (pd_labels pod) LabelKeyTaskID of
        None \<Rightarrow> Inl (''taskID not found in pod: '' @ pd_namespace pod @ ''/'' @ pd_name pod)
      | Some i \<Rightarrow> Inr (uint_of_int (atoi_value i)))"

text \<open>The requests of the first container are cleared (serialized, the empty list).\<close>

definition build_profile_pod :: "ai_task \<Rightarrow> pod_spec \<Rightarrow> pod" where
  "build_profile_pod task podSpec =
     \<lparr>pd_name = profile_pod_name task, pd_namespace = t_namespace task,
      pd_labels = (LabelKeyTaskID, itoa (int_of_uint (t_id task))) # ProfilingPodLabels,
      pd_annotations = [(''profiling-pod'', ''true'')],
      pd_podSpec = podSpec\<lparr>ps_requests := [] # tl (ps_requests podSpec),
                           ps_nodeSelector := [(''profile'', ''true'')], ps_tolerations := [''profile'']\<rparr>,
      pd_phase = ''Pending'', pd_startTime = None, pd_nodeName = []\<rparr>"

definition CreateProfilePodFromTask :: "cluster_env \<Rightarrow> ai_task \<Rightarrow> cluster \<Rightarrow> fault \<times> cluster" where
  "CreateProfilePodFromTask env task cl =
     (let podSpec = t_podTemplate task in
      if ps_requests podSpec = [] then (Some ''no container in pod spec'', cl)
      else
        (case k8s_create_pod env (build_profile_pod task podSpec) cl of
           (Some e, cl1) \<Rightarrow> (Some (''create pod '' @ t_taskName task @ '' failed: '' @ e), cl1)
         | (None, cl1) \<Rightarrow> (None, cl1)))"

section \<open>Lemmas\<close>

lemma job_name_form:
  "job_name_of task = replace_char (CHR ''_'') (CHR ''-'') (to_lower (t_taskName task)) @ CHR ''-'' # fmt_uint (t_id task)"
  by (simp add: job_name_of_def)

lemma no_dash_fmt: "CHR ''-'' \<notin> set (fmt_uint n)"
  using fmt_uint_digits not_digit by blast

text \<open>Whatever the task names, two tasks never share a job name.\<close>

lemma job_name_inj: "job_name_of a = job_name_of b \<Longrightarrow> t_id a = t_id b"
  unfolding job_name_form using dash_suffix_inj [OF _ no_dash_fmt no_dash_fmt] fmt_uint_inj by blast

lemma create_job_names:
  "CreateJobFromTask env task cl = (Inr jobname, cl') \<Longrightarrow>
   jobname = job_name_of task \<and>
   (\<exists>job. cl_jobs cl' = cl_jobs cl @ [job] \<and> aj_name job = job_name_of task \<and> aj_namespace job = t_namespace task \<and>
          aj_labels job = task_labels task) \<and>
   cl_pods cl' = cl_pods cl"
  by (auto simp: CreateJobFromTask_def createTrainingJobFromTask_def createJupyterJobFromTask_def Let_def
      k8s_create_job_def build_job_def split: if_splits option.splits prod.splits)

lemma create_profile_pod:
  "CreateProfilePodFromTask env task cl = (None, cl') \<Longrightarrow>
   cl_pods cl' = cl_pods cl @ [build_profile_pod task (t_podTemplate task)] \<and> cl_jobs cl' = cl_jobs cl"
  by (auto simp: CreateProfilePodFromTask_def k8s_create_pod_def Let_def split: if_splits option.splits prod.splits)

lemma find_append: "find P (xs @ ys) = (case find P xs of Some x \<Rightarrow> Some x | None \<Rightarrow> find P ys)"
  by (induction xs) auto

section \<open>Properties\<close>

text \<open>The identity of a task survives the round trip through the cluster: the job created
  for it carries a label from which the event of the reconciler gives back the task id, the
  profiling pod carries one from which the profiler reads it, and no two tasks share a job name,
  whatever their names.\<close>

theorem task_identity_roundtrip:
  assumes "t_id task < 2 ^ 63"
    and "CreateJobFromTask env task cl = (Inr jobname, cl')"
    and "CreateProfilePodFromTask env' task cl2 = (None, cl3)"
  shows "(\<exists>job. cl_jobs cl' = cl_jobs cl @ [job] \<and> aj_name job = jobname \<and>
           parse_uint_value (getTaskIDFromLabels LabelKeyTaskID (aj_labels job)) = t_id task) \<and>
    (\<exists>pod. cl_pods cl3 = cl_pods cl2 @ [pod] \<and> GetTaskIDFromPod pod = Inr (t_id task) \<and>
       labels_match ProfilingPodLabels (pd_labels pod)) \<and>
    (CreateJobFromTask envO other clO = (Inr jobname, clO') \<longrightarrow> t_id other = t_id task)"
proof (intro conjI)
  from create_job_names [OF assms(2)] obtain job where "cl_jobs cl' = cl_jobs cl @ [job]"
    "aj_name job = jobname" "aj_labels job = task_labels task" by auto
  moreover have "parse_uint_value (getTaskIDFromLabels LabelKeyTaskID (task_labels task)) = t_id task"
    using assms(1) by (simp add: getTaskIDFromLabels_def task_labels_def itoa_uint)
  ultimately show "\<exists>job. cl_jobs cl' = cl_jobs cl @ [job] \<and> aj_name job = jobname \<and>
      parse_uint_value (getTaskIDFromLabels LabelKeyTaskID (aj_labels job)) = t_id task" by auto
  have "uint_of_int (int (t_id task)) = t_id task"
    using assms(1) uint_int_uint [of "t_id task"] by (simp add: int_of_uint_def)
  then show "\<exists>pod. cl_pods cl3 = cl_pods cl2 @ [pod] \<and> GetTaskIDFromPod pod = Inr (t_id task) \<and>
      labels_match ProfilingPodLabels (pd_labels pod)"
    using create_profile_pod [OF assms(3)]
    by (intro exI [of _ "build_profile_pod task (t_podTemplate task)"])
      (simp add: build_profile_pod_def GetTaskIDFromPod_def labels_match_def itoa_uint [OF assms(1)] atoi_fmt_uint [OF assms(1)])
  show "CreateJobFromTask envO other clO = (Inr jobname, clO') \<longrightarrow> t_id other = t_id task"
    using create_job_names [OF assms(2)] create_job_names [of envO other clO jobname clO'] job_name_inj [of other task]
    by auto
qed

definition quiet_cluster :: cluster_env where
  "quiet_cluster = \<lparr>ce_job = (\<lambda>_ _. None), ce_pod = (\<lambda>_ _. None), ce_ingress = (\<lambda>_. None), ce_list = None\<rparr>"

definition empty_cluster :: cluster where
  "empty_cluster = \<lparr>cl_jobs = [], cl_pods = [], cl_ingresses = []\<rparr>"

lemma sample_create:
  "\<exists>cl'. CreateJobFromTask quiet_cluster sample_task empty_cluster = (Inr (job_name_of sample_task), cl')"
  "\<exists>cl'. CreateProfilePodFromTask quiet_cluster sample_task empty_cluster = (None, cl')"
  by (simp_all add: CreateJobFromTask_def createTrainingJobFromTask_def CreateProfilePodFromTask_def Let_def
      k8s_create_job_def k8s_create_pod_def quiet_cluster_def empty_cluster_def sample_task_def find_job_def
      find_pod_def build_job_def job_name_of_def)

lemma task_identity_roundtrip_witness:
  "\<exists>job cl'. CreateJobFromTask quiet_cluster sample_task empty_cluster = (Inr (job_name_of sample_task), cl') \<and>
     cl_jobs cl' = cl_jobs empty_cluster @ [job] \<and>
     parse_uint_value (getTaskIDFromLabels LabelKeyTaskID (aj_labels job)) = 7"
proof -
  obtain cl1 cl2 where "CreateJobFromTask quiet_cluster sample_task empty_cluster = (Inr (job_name_of sample_task), cl1)"
    "CreateProfilePodFromTask quiet_cluster sample_task empty_cluster = (None, cl2)"
    using sample_create by blast
  from task_identity_roundtrip [OF _ this, where envO = quiet_cluster and other = sample_task and clO = empty_cluster
      and clO' = cl1] this(1) show ?thesis
    by (auto simp: sample_task_fields)
qed

text \<open>What a failed creation leaves behind: the cluster is as before in every case except
  one, a Jupyter job whose ingress could not be created; its AIJob stays in the cluster although
  the call reports an error.\<close>

theorem failed_creation_leaves:
  assumes "CreateJobFromTask env task cl = (Inl e, cl')"
  shows "cl' = cl \<or>
    (t_taskType task = ''jupyter'' \<and> ce_ingress env (itoa (int_of_uint (t_id task))) \<noteq> None \<and>
     (\<exists>job. cl' = cl\<lparr>cl_jobs := cl_jobs cl @ [job]\<rparr> \<and> aj_name job = job_name_of task))"
  using assms
  by (auto simp: CreateJobFromTask_def createTrainingJobFromTask_def createJupyterJobFromTask_def Let_def
      k8s_create_job_def build_job_def split: if_splits option.splits prod.splits)

lemma failed_creation_leaves_witness:
  "\<exists>e cl'. CreateJobFromTask (quiet_cluster\<lparr>ce_ingress := (\<lambda>_. Some ''no host'')\<rparr>)
     (sample_task\<lparr>t_taskType := ''jupyter''\<rparr>) empty_cluster = (Inl e, cl') \<and> length (cl_jobs cl') \<le> 1"
proof -
  obtain e cl' where r: "CreateJobFromTask (quiet_cluster\<lparr>ce_ingress := (\<lambda>_. Some ''no host'')\<rparr>)
      (sample_task\<lparr>t_taskType := ''jupyter''\<rparr>) empty_cluster = (Inl e, cl')"
    by (auto simp: CreateJobFromTask_def createJupyterJobFromTask_def Let_def
        k8s_create_job_def quiet_cluster_def empty_cluster_def sample_task_def find_job_def build_job_def)
  from failed_creation_leaves [OF this] r show ?thesis by (auto simp: empty_cluster_def)
qed

end
