(* ===== verification/Profiler.thy ===== *)
theory Profiler imports Go_Queue Job_Control "HOL-Library.Word" begin

text \<open>
  \<open>pkg/aitaskctl/profiler.go\<close>: tasks wait in a queue for a profiling pod; every tick of the loop
  starts one pod and looks at the running ones, whose measured utilisation goes into the task row
  and a cache keyed by the hash of the command line.

  The utilisation record, its JSON form and the Prometheus query are arguments.  A nil pointer
  that is dereferenced is the panic \<open>NilDereference\<close>; nothing recovers it in this goroutine.
\<close>

unbundle bit_operations_syntax

section \<open>State\<close>

record 'u profiler =
  pr_taskQueue :: "ai_task queue"
  pr_profilingTimeout :: time
  pr_profileCache :: "(64 word, 'u) gomap"

record 'u profiler_env =
  pe_db :: task_db_env
  pe_cl :: cluster_env
  pe_json :: "'u \<Rightarrow> string"
  pe_metric :: "string \<Rightarrow> string \<Rightarrow> 'u result"
  pe_now :: time

record 'u prof_world =
  pw_prof :: "'u profiler"
  pw_db :: task_db
  pw_cl :: cluster

definition NewProfiler :: "int \<Rightarrow> 'u profiler" where
  "NewProfiler profileTimeout =
     \<lparr>pr_taskQueue = q_New keyFunc fifoOrdering, pr_profilingTimeout = profileTimeout * 1000000000,
      pr_profileCache = []\<rparr>"

section \<open>The cache\<close>

text \<open>\<open>fnv.New64a\<close>: xor a byte in, multiply by the prime, modulo two to the 64.\<close>

definition hashString :: "string \<Rightarrow> 64 word" where
  "hashString s = fold (\<lambda>c h. (h XOR word_of_nat (of_char c)) * 1099511628211) s 14695981039346656037"

definition cache_key :: "ai_task \<Rightarrow> 64 word" where
  "cache_key task = hashString (t_taskType task @ ''-'' @ t_command task)"

definition checkAndGetCache :: "ai_task \<Rightarrow> 'u profiler \<Rightarrow> 'u option" where
  "checkAndGetCache task p = gm_get (pr_profileCache p) (cache_key task)"

definition storeProfileCache :: "ai_task \<Rightarrow> 'u \<Rightarrow> 'u profiler \<Rightarrow> 'u profiler" where
  "storeProfileCache task util p = p\<lparr>pr_profileCache := gm_put (cache_key task) util (pr_profileCache p)\<rparr>"

section \<open>Submission and deletion\<close>

text \<open>Errors of the profiling-status update are logged and dropped.\<close>

definition set_profiling :: "'u profiler_env \<Rightarrow> nat \<Rightarrow> nat \<Rightarrow> string \<Rightarrow> string \<Rightarrow> 'u prof_world \<Rightarrow> 'u prof_world" where
  "set_profiling env taskID profileStatus stat status w =
     w\<lparr>pw_db := snd (svc_UpdateProfilingStat (pe_db env) taskID profileStatus stat status (pw_db w))\<rparr>"

definition SubmitProfileTask :: "'u profiler_env \<Rightarrow> nat \<Rightarrow> 'u prof_world \<Rightarrow> 'u prof_world" where
  "SubmitProfileTask env taskID w =
     (case svc_GetByID (pe_db env) (pw_db w) taskID of
        Inl e \<Rightarrow> w
      | Inr task \<Rightarrow>
          (case checkAndGetCache task (pw_prof w) of
             Some util \<Rightarrow> set_profiling env (t_id task) EmiasProfileFinish (pe_json env util) [] w
           | None \<Rightarrow>
               (if t_profileStatus task = EmiasUnProfiled then
                  (let w1 = set_profiling env (t_id task) EmiasProfileQueued [] [] w in
                   w1\<lparr>pw_prof := (pw_prof w1)\<lparr>pr_taskQueue :=
                        snd (q_PushIfNotPresent task (pr_taskQueue (pw_prof w1)))\<rparr>\<rparr>)
                else w)))"

definition DeleteProfilePodFromTask :: "'u profiler_env \<Rightarrow> nat \<Rightarrow> 'u prof_world \<Rightarrow> 'u prof_world" where
  "DeleteProfilePodFromTask env taskID w =
     (case svc_GetByID (pe_db env) (pw_db w) taskID of
        Inl e \<Rightarrow> w
      | Inr task \<Rightarrow>
          (let w1 = w\<lparr>pw_prof := (pw_prof w)\<lparr>pr_taskQueue := snd (q_Delete task (pr_taskQueue (pw_prof w)))\<rparr>\<rparr>
           in w1\<lparr>pw_cl := snd (DeleteProfilePod (pe_cl env) task (pw_cl w1))\<rparr>))"

section \<open>The loop\<close>

text \<open>The start of one pod.  The boolean tells whether the tick goes on to the pods.\<close>

definition start_next :: "'u profiler_env \<Rightarrow> 'u prof_world \<Rightarrow> (bool \<times> 'u prof_world) go" where
  "start_next env w =
     (if q_Len (pr_taskQueue (pw_prof w)) = 0 then Inr (True, w)
      else
        go_bind (q_Top (pr_taskQueue (pw_prof w)))
          (\<lambda>(t, q).
             let w1 = w\<lparr>pw_prof := (pw_prof w)\<lparr>pr_taskQueue := q\<rparr>\<rparr> in
             case t of
               None \<Rightarrow> Inr (False, w1)
             | Some task \<Rightarrow>
                 (let (f, cl1) = CreateProfilePodFromTask (pe_cl env) task (pw_cl w1);
                      w2 = w1\<lparr>pw_cl := cl1\<rparr>;
                      w3 = (if f \<noteq> None then set_profiling env (t_id task) EmiasProfileFailed [] [] w2
                            else set_profiling env (t_id task) EmiasProfiling [] [] w2)
                  in Inr (True, w3\<lparr>pw_prof := (pw_prof w3)\<lparr>pr_taskQueue :=
                              snd (q_Delete task (pr_taskQueue (pw_prof w3)))\<rparr>\<rparr>))))"

definition delete_pod :: "'u profiler_env \<Rightarrow> pod \<Rightarrow> 'u prof_world \<Rightarrow> 'u prof_world" where
  "delete_pod env pod w = w\<lparr>pw_cl := snd (k8s_delete_pod (pe_cl env) (pd_namespace pod) (pd_name pod) (pw_cl w))\<rparr>"

text \<open>
  The task of a pod is read with its error dropped; if the row is gone the task is the nil
  pointer, which the cache look-up and the cache store dereference.
\<close>

definition check_pod :: "'u profiler_env \<Rightarrow> pod \<Rightarrow> 'u prof_world \<Rightarrow> 'u prof_world go" where
  "check_pod env pod w =
     (case GetTaskIDFromPod pod of
        Inl e \<Rightarrow> Inr w
      | Inr taskID \<Rightarrow>
          (let task = (case svc_GetByID (pe_db env) (pw_db w) taskID of Inl e \<Rightarrow> None | Inr t \<Rightarrow> Some t) in
           if pd_phase pod = ''Pending'' then
             (case task of
                None \<Rightarrow> Inl NilDereference
              | Some t \<Rightarrow>
                  (case checkAndGetCache t (pw_prof w) of
                     Some util \<Rightarrow> Inr (delete_pod env pod
                                     (set_profiling env (t_id t) EmiasProfileFinish (pe_json env util) [] w))
                   | None \<Rightarrow> Inr w))
           else if pd_phase pod = ''Running'' \<and> pd_startTime pod = None then Inl NilDereference
           else if pd_phase pod = ''Running'' \<and> pe_now env - the (pd_startTime pod) < pr_profilingTimeout (pw_prof w) then Inr w
           else if pd_phase pod = ''Unknown'' then Inr (delete_pod env pod w)
           else
             (let jobStatus = (if pd_phase pod = ''Failed'' then EmiasTaskFailedStatus
                               else if pd_phase pod = ''Succeeded'' then EmiasTaskSucceededStatus else [])
              in case pe_metric env (pd_namespace pod) (pd_name pod) of
                   Inl e \<Rightarrow> Inr (delete_pod env pod (set_profiling env taskID EmiasProfileFailed [] jobStatus w))
                 | Inr podUtil \<Rightarrow>
                     (let w1 = set_profiling env taskID EmiasProfileFinish (pe_json env podUtil) jobStatus w in
                      case task of
                        None \<Rightarrow> Inl NilDereference
                      | Some t \<Rightarrow> Inr (delete_pod env pod
                                    (w1\<lparr>pw_prof := storeProfileCache t podUtil (pw_prof w1)\<rparr>))))))"

fun check_pods :: "'u profiler_env \<Rightarrow> pod list \<Rightarrow> 'u prof_world \<Rightarrow> 'u prof_world go" where
  "check_pods env [] w = Inr w"
| "check_pods env (pod # pods) w = go_bind (check_pod env pod w) (check_pods env pods)"

definition profiler_tick :: "'u profiler_env \<Rightarrow> 'u prof_world \<Rightarrow> 'u prof_world go" where
  "profiler_tick env w =
     go_bind (start_next env w)
       (\<lambda>(goOn, w1). if \<not> goOn then Inr w1
          else check_pods env (case ListProflingPods (pe_cl env) (pw_cl w1) of Inl e \<Rightarrow> [] | Inr pods \<Rightarrow> pods) w1)"

section \<open>Lemmas\<close>

abbreviation prof_queue :: "'u prof_world \<Rightarrow> ai_task queue" where
  "prof_queue w \<equiv> pr_taskQueue (pw_prof w)"

definition prof_ok :: "'u prof_world \<Rightarrow> bool" where
  "prof_ok w \<longleftrightarrow> queue_inv (prof_queue w) \<and> q_keyFunc (prof_queue w) = keyFunc"

lemma set_profiling_parts [simp]:
  "pw_prof (set_profiling env i ps st s w) = pw_prof w"
  "pw_cl (set_profiling env i ps st s w) = pw_cl w"
  by (simp_all add: set_profiling_def)

lemma delete_pod_parts [simp]:
  "pw_prof (delete_pod env pod w) = pw_prof w" "pw_db (delete_pod env pod w) = pw_db w"
  by (simp_all add: delete_pod_def)

lemma storeProfileCache_queue [simp]: "pr_taskQueue (storeProfileCache t u p) = pr_taskQueue p"
  by (simp add: storeProfileCache_def)

lemma set_profiling_rows:
  "task_row (pw_db (set_profiling env i ps st s w)) =
     (if upd_fault (pe_db env) ''profile'' i = None
      then (task_row (pw_db w))(i := map_option (profiling_update ps st s) (task_row (pw_db w) i))
      else task_row (pw_db w))"
  by (auto simp: set_profiling_def svc_UpdateProfilingStat_def task_row_update split: option.split)

lemma set_profiling_row_exists [simp]:
  "task_row (pw_db (set_profiling env i ps st s w)) j = None \<longleftrightarrow> task_row (pw_db w) j = None"
  by (auto simp: set_profiling_rows)

text \<open>When the look at one pod panics.\<close>

definition pod_panics :: "'u profiler_env \<Rightarrow> pod \<Rightarrow> 'u prof_world \<Rightarrow> bool" where
  "pod_panics env pod w \<longleftrightarrow>
     (\<exists>i. GetTaskIDFromPod pod = Inr i \<and>
       (let gone = (get_fault (pe_db env) i \<noteq> None \<or> task_row (pw_db w) i = None) in
        (pd_phase pod = ''Pending'' \<and> gone) \<or>
        (pd_phase pod = ''Running'' \<and> pd_startTime pod = None) \<or>
        (pd_phase pod \<noteq> ''Pending'' \<and> pd_phase pod \<noteq> ''Unknown'' \<and> gone \<and>
         (pd_phase pod = ''Running'' \<longrightarrow> pr_profilingTimeout (pw_prof w) \<le> pe_now env - the (pd_startTime pod)) \<and>
         (\<exists>u. pe_metric env (pd_namespace pod) (pd_name pod) = Inr u))))"

lemma get_Inl_iff:
  "(\<exists>e. svc_GetByID env db i = Inl e) \<longleftrightarrow> get_fault env i \<noteq> None \<or> task_row db i = None"
  by (auto simp: svc_GetByID_def task_row_def split: option.split)

lemma check_pod_panics: "isl (check_pod env pod w) \<longleftrightarrow> pod_panics env pod w"
proof (cases "GetTaskIDFromPod pod")
  case (Inl e)
  then show ?thesis by (simp add: check_pod_def pod_panics_def)
next
  case (Inr i)
  show ?thesis
  proof (cases "svc_GetByID (pe_db env) (pw_db w) i")
    case (Inl e)
    then have "get_fault (pe_db env) i \<noteq> None \<or> task_row (pw_db w) i = None" using get_Inl_iff by metis
    then show ?thesis using Inr Inl
      by (auto simp: check_pod_def pod_panics_def Let_def not_less split: sum.splits)
  next
    case (Inr t)
    then have "get_fault (pe_db env) i = None \<and> task_row (pw_db w) i \<noteq> None"
      by (simp add: svc_GetByID_Inr)
    then show ?thesis using Inr \<open>GetTaskIDFromPod pod = Inr i\<close>
      by (auto simp: check_pod_def pod_panics_def Let_def split: sum.splits option.splits)
  qed
qed

lemma check_pod_keeps:
  "check_pod env pod w = Inr w' \<Longrightarrow>
   prof_queue w' = prof_queue w \<and> pr_profilingTimeout (pw_prof w') = pr_profilingTimeout (pw_prof w) \<and>
   (\<forall>j. task_row (pw_db w') j = None \<longleftrightarrow> task_row (pw_db w) j = None)"
  by (auto simp: check_pod_def Let_def storeProfileCache_def split: sum.splits option.splits if_splits)

text \<open>A pod the loop can look at without panic: its task has a row, and it has a start time when it runs.\<close>

definition pod_fine :: "'u profiler_env \<Rightarrow> task_db \<Rightarrow> pod \<Rightarrow> bool" where
  "pod_fine env db pod \<longleftrightarrow>
     (\<forall>i. GetTaskIDFromPod pod = Inr i \<longrightarrow> get_fault (pe_db env) i = None \<and> task_row db i \<noteq> None) \<and>
     (pd_phase pod = ''Running'' \<longrightarrow> pd_startTime pod \<noteq> None)"

lemma check_pods_fine:
  "\<forall>pod \<in> set pods. pod_fine env (pw_db w) pod \<Longrightarrow>
   \<exists>w'. check_pods env pods w = Inr w' \<and> prof_queue w' = prof_queue w"
proof (induction pods arbitrary: w)
  case (Cons pod pods)
  then have "\<not> pod_panics env pod w" by (auto simp: pod_fine_def pod_panics_def Let_def)
  then obtain w1 where w1: "check_pod env pod w = Inr w1" using check_pod_panics by (metis isl_def sum.exhaust)
  from check_pod_keeps [OF w1] Cons.prems have "\<forall>pod \<in> set pods. pod_fine env (pw_db w1) pod"
    by (simp add: pod_fine_def)
  from Cons.IH [OF this] w1 check_pod_keeps [OF w1] show ?case by auto
qed simp

lemma start_next_spec:
  assumes ok: "prof_ok w" and ne: "queue_elems (prof_queue w) \<noteq> []"
  shows "\<exists>w' ps. start_next env w = Inr (True, w') \<and> prof_ok w' \<and>
    queue_elems (prof_queue w') = butlast (queue_elems (prof_queue w)) \<and>
    (let t = last (queue_elems (prof_queue w)); r = CreateProfilePodFromTask (pe_cl env) t (pw_cl w) in
     ps = (if fst r = None then EmiasProfiling else EmiasProfileFailed) \<and> pw_cl w' = snd r \<and>
     pw_db w' = pw_db (set_profiling env (t_id t) ps [] [] w)) \<and>
    pr_profileCache (pw_prof w') = pr_profileCache (pw_prof w)"
proof -
  let ?q = "prof_queue w"
  let ?t = "last (queue_elems ?q)"
  have inv: "queue_inv ?q" and kf: "q_keyFunc ?q = keyFunc" using ok by (simp_all add: prof_ok_def)
  have len: "q_Len ?q \<noteq> 0" using length_queue_elems [OF inv] ne by (metis length_0_conv)
  note top = q_Top_ok [OF inv ne]
  have del: "q_Delete ?t (?q\<lparr>q_keys := butlast (q_keys ?q)\<rparr>) = q_delete (keyFunc ?t) ?q"
    using q_Top_delete [OF inv ne] last_key [OF inv ne] kf by (simp add: q_Delete_def)
  have dist: "distinct (map keyFunc (queue_elems ?q))" using queue_elems_distinct [OF inv] kf by simp
  have el: "queue_elems (snd (q_delete (keyFunc ?t) ?q)) = butlast (queue_elems ?q)"
    using elems_delete [OF inv, of "keyFunc ?t"] al_del_last [OF dist ne] kf by simp
  obtain f cl where r: "CreateProfilePodFromTask (pe_cl env) ?t (pw_cl w) = (f, cl)" by fastforce
  let ?ps = "if f = None then EmiasProfiling else EmiasProfileFailed"
  let ?w' = "w\<lparr>pw_prof := (pw_prof w)\<lparr>pr_taskQueue := snd (q_delete (keyFunc ?t) ?q)\<rparr>,
               pw_db := pw_db (set_profiling env (t_id ?t) ?ps [] [] w), pw_cl := cl\<rparr>"
  have "start_next env w = Inr (True, ?w')"
    using len top r del by (auto simp: start_next_def Let_def set_profiling_def)
  moreover have "prof_ok ?w'" using inv kf by (simp add: prof_ok_def queue_inv_delete)
  ultimately show ?thesis using el r by (intro exI [of _ ?w'] exI [of _ ?ps]) (simp add: Let_def)
qed

lemma last_in_elems: "queue_elems q \<noteq> [] \<Longrightarrow> last (queue_elems q) \<in> set (queue_elems q)"
  by simp

lemma create_profile_pod_pods:
  assumes "CreateProfilePodFromTask env t cl = (f, cl')"
  shows "set (cl_pods cl') \<subseteq> insert (build_profile_pod t (t_podTemplate t)) (set (cl_pods cl))"
  using assms
  by (auto simp: CreateProfilePodFromTask_def k8s_create_pod_def Let_def split: if_splits option.splits prod.splits)

lemma build_profile_pod_id:
  assumes "t_id t < 2 ^ 63"
  shows "GetTaskIDFromPod (build_profile_pod t spec) = Inr (t_id t)"
  using assms uint_int_uint [of "t_id t"]
  by (simp add: build_profile_pod_def GetTaskIDFromPod_def int_of_uint_def itoa_def atoi_fmt_uint [OF assms])

section \<open>Properties\<close>

text \<open>Submission of a task to the profiler: a cached measurement is written to the row at
  once and the queue is left alone; an unprofiled task without one is marked queued and entered
  unless its id already waits; a task already in profiling is left alone.\<close>

theorem submit_profile_branches:
  assumes "prof_ok w" and "task_row (pw_db w) i = Some t"
    and "get_fault (pe_db env) i = None" and "upd_fault (pe_db env) ''profile'' i = None"
  shows "let w' = SubmitProfileTask env i w in
    prof_ok w' \<and> pw_cl w' = pw_cl w \<and> pr_profileCache (pw_prof w') = pr_profileCache (pw_prof w) \<and>
    (case checkAndGetCache t (pw_prof w) of
       Some u \<Rightarrow> queue_elems (prof_queue w') = queue_elems (prof_queue w) \<and>
         task_row (pw_db w') = (task_row (pw_db w))(i \<mapsto> t\<lparr>t_profileStatus := 3, t_profileStat := pe_json env u\<rparr>)
     | None \<Rightarrow>
         (if t_profileStatus t = 0 then
            queue_elems (prof_queue w') = al_put_new keyFunc t (queue_elems (prof_queue w)) \<and>
            task_row (pw_db w') = (task_row (pw_db w))(i \<mapsto> t\<lparr>t_profileStatus := 1\<rparr>)
          else w' = w))"
proof -
  have inv: "queue_inv (prof_queue w)" and kf: "q_keyFunc (prof_queue w) = keyFunc"
    using assms(1) by (simp_all add: prof_ok_def)
  have id: "t_id t = i" using task_row_id [OF assms(2)] .
  have get: "svc_GetByID (pe_db env) (pw_db w) i = Inr t" using assms by (simp add: svc_GetByID_Inr)
  have push: "queue_elems (snd (q_PushIfNotPresent t (prof_queue w))) = al_put_new keyFunc t (queue_elems (prof_queue w))"
    using elems_PushIfNotPresent [OF inv, of t] elems_PushOrUpdate [OF inv, of t] kf
    by (simp add: al_put_new_def al_put_def)
  show ?thesis
    using assms get id inv kf push
    by (simp add: SubmitProfileTask_def Let_def prof_ok_def queue_inv_PushIfNotPresent set_profiling_rows
        profiling_update_def split: option.split)
qed

text \<open>A world without tasks in the cluster and one row, for the witnesses.\<close>

definition sample_prof_env :: "unit profiler_env" where
  "sample_prof_env =
     \<lparr>pe_db = \<lparr>get_fault = (\<lambda>_. None), upd_fault = (\<lambda>_ _. None), list_fault = (\<lambda>_. None), neg_uint = (\<lambda>_. 0), now = 0\<rparr>,
      pe_cl = quiet_cluster, pe_json = (\<lambda>_. ''{}''), pe_metric = (\<lambda>_ _. Inl ''no data''), pe_now = 0\<rparr>"

definition sample_prof_world :: "unit prof_world" where
  "sample_prof_world = \<lparr>pw_prof = NewProfiler 30, pw_db = [sample_task], pw_cl = empty_cluster\<rparr>"

lemma sample_prof_ok: "prof_ok sample_prof_world"
  by (simp add: prof_ok_def sample_prof_world_def NewProfiler_def)

lemma sample_prof_row: "task_row (pw_db sample_prof_world) 7 = Some sample_task"
  by (simp add: sample_prof_world_def task_row_def tbl_first_Cons sample_task_fields)

lemma sample_prof_faults:
  "get_fault (pe_db sample_prof_env) i = None" "upd_fault (pe_db sample_prof_env) s i = None"
  by (simp_all add: sample_prof_env_def)

lemma submit_profile_branches_witness:
  "queue_elems (prof_queue (SubmitProfileTask sample_prof_env 7 sample_prof_world)) = [sample_task]"
  using submit_profile_branches [OF sample_prof_ok sample_prof_row sample_prof_faults]
  by (simp add: Let_def checkAndGetCache_def al_put_new_def sample_task_fields)
    (simp add: sample_prof_world_def NewProfiler_def al_put_new_def sample_task_fields)

text \<open>The tick starts the task submitted last (not first): it leaves the queue, its row
  becomes profiling if the pod could be created and failed otherwise, and no other row changes.\<close>

theorem tick_starts_last_submitted:
  assumes "prof_ok w" and "queue_elems (prof_queue w) = ts @ [t]"
    and "upd_fault (pe_db env) ''profile'' (t_id t) = None"
  shows "\<exists>w'. start_next env w = Inr (True, w') \<and> prof_ok w' \<and> queue_elems (prof_queue w') = ts \<and>
    task_row (pw_db w') = (task_row (pw_db w))(t_id t := map_option
      (\<lambda>r. r\<lparr>t_profileStatus := (if fst (CreateProfilePodFromTask (pe_cl env) t (pw_cl w)) = None then 2 else 4)\<rparr>)
      (task_row (pw_db w) (t_id t)))"
proof -
  have ne: "queue_elems (prof_queue w) \<noteq> []" using assms(2) by simp
  obtain w' ps where w': "start_next env w = Inr (True, w')" "prof_ok w'" "queue_elems (prof_queue w') = ts"
    and ps: "ps = (if fst (CreateProfilePodFromTask (pe_cl env) t (pw_cl w)) = None then 2 else 4)"
    and db: "pw_db w' = pw_db (set_profiling env (t_id t) ps [] [] w)"
    using start_next_spec [OF assms(1) ne, of env] assms(2) by (auto simp: Let_def)
  have "profiling_update ps [] [] = (\<lambda>r. r\<lparr>t_profileStatus := ps\<rparr>)"
    using ps by (auto simp: profiling_update_def fun_eq_iff Let_def)
  with w' ps db assms(3) show ?thesis by (intro exI [of _ w']) (simp add: set_profiling_rows)
qed

lemma tick_starts_last_submitted_witness:
  "\<exists>w'. start_next sample_prof_env (SubmitProfileTask sample_prof_env 7 sample_prof_world) = Inr (True, w') \<and>
        queue_elems (prof_queue w') = []"
proof -
  let ?w = "SubmitProfileTask sample_prof_env 7 sample_prof_world"
  have "prof_ok ?w \<and> queue_elems (prof_queue ?w) = [] @ [sample_task]"
    by (simp add: SubmitProfileTask_def svc_GetByID_Inr [THEN iffD2, OF conjI [OF _ sample_prof_row]] sample_prof_faults)
      (simp add: checkAndGetCache_def sample_prof_world_def NewProfiler_def sample_task_fields Let_def prof_ok_def
        queue_inv_PushIfNotPresent queue_inv_PushOrUpdate elems_PushIfNotPresent elems_PushOrUpdate al_put_def)
  with tick_starts_last_submitted [of ?w "[]" sample_task sample_prof_env] show ?thesis
    by (auto simp: sample_prof_faults)
qed

text \<open>One look of the loop at a profiling pod panics exactly when the task row cannot be read
  while the pod is pending or delivers a measurement, or when the pod runs without a start time:
  a pending profiling pod whose task was deleted takes the whole backend down, because the error
  of the row look-up is dropped.\<close>

theorem profiler_pod_panic_iff:
  "check_pod env pod w = Inl NilDereference \<longleftrightarrow>
     (\<exists>i. GetTaskIDFromPod pod = Inr i \<and>
       (let gone = (get_fault (pe_db env) i \<noteq> None \<or> task_row (pw_db w) i = None) in
        (pd_phase pod = ''Pending'' \<and> gone) \<or>
        (pd_phase pod = ''Running'' \<and> pd_startTime pod = None) \<or>
        (pd_phase pod \<noteq> ''Pending'' \<and> pd_phase pod \<noteq> ''Unknown'' \<and> gone \<and>
         (pd_phase pod = ''Running'' \<longrightarrow> pr_profilingTimeout (pw_prof w) \<le> pe_now env - the (pd_startTime pod)) \<and>
         (\<exists>u. pe_metric env (pd_namespace pod) (pd_name pod) = Inr u))))"
proof -
  have "isl (check_pod env pod w) \<longleftrightarrow> check_pod env pod w = Inl NilDereference"
    by (auto simp: check_pod_def Let_def split: sum.splits option.splits if_splits)
  then show ?thesis using check_pod_panics [of env pod w] by (simp add: pod_panics_def)
qed

lemma profiler_pod_panic_iff_witness:
  "check_pod sample_prof_env (build_profile_pod sample_task (t_podTemplate sample_task))
     (sample_prof_world\<lparr>pw_db := []\<rparr>) = Inl NilDereference"
  unfolding profiler_pod_panic_iff
proof (intro exI [of _ 7] conjI)
  show "GetTaskIDFromPod (build_profile_pod sample_task (t_podTemplate sample_task)) = Inr 7"
    by (simp add: build_profile_pod_id sample_task_fields)
qed (simp add: task_row_def build_profile_pod_def)

text \<open>As long as every waiting task and every profiling pod has its row in the database (and a
  running pod its start time), a tick of the profiler never panics, whatever the database and the
  cluster answer, and it keeps the queue well formed and takes at most the last task from it.\<close>

theorem profiler_tick_safe:
  assumes "prof_ok w" and "\<And>i. get_fault (pe_db env) i = None"
    and "\<forall>t \<in> set (queue_elems (prof_queue w)). t_id t < 2 ^ 63 \<and> task_row (pw_db w) (t_id t) \<noteq> None"
    and "\<forall>pod \<in> set (cl_pods (pw_cl w)). pod_fine env (pw_db w) pod"
  shows "\<exists>w'. profiler_tick env w = Inr w' \<and> prof_ok w' \<and>
    queue_elems (prof_queue w') = butlast (queue_elems (prof_queue w))"
proof -
  have "\<exists>w1. start_next env w = Inr (True, w1) \<and> prof_ok w1 \<and>
      queue_elems (prof_queue w1) = butlast (queue_elems (prof_queue w)) \<and>
      (\<forall>pod \<in> set (cl_pods (pw_cl w1)). pod_fine env (pw_db w1) pod)"
  proof (cases "queue_elems (prof_queue w) = []")
    case True
    then have "q_Len (prof_queue w) = 0"
      using length_queue_elems [of "prof_queue w"] assms(1) by (simp add: prof_ok_def)
    then show ?thesis using assms(1,4) True by (simp add: start_next_def)
  next
    case False
    let ?t = "last (queue_elems (prof_queue w))"
    obtain f cl where r: "CreateProfilePodFromTask (pe_cl env) ?t (pw_cl w) = (f, cl)" by fastforce
    from start_next_spec [OF assms(1) False, of env] r obtain w1 ps where w1: "start_next env w = Inr (True, w1)"
      "prof_ok w1" "queue_elems (prof_queue w1) = butlast (queue_elems (prof_queue w))" "pw_cl w1 = cl"
      "pw_db w1 = pw_db (set_profiling env (t_id ?t) ps [] [] w)" by (auto simp: Let_def)
    have t: "t_id ?t < 2 ^ 63" "task_row (pw_db w) (t_id ?t) \<noteq> None" using assms(3) last_in_elems [OF False] by auto
    have "pod_fine env (pw_db w1) pod = pod_fine env (pw_db w) pod" for pod by (simp add: pod_fine_def w1(5))
    moreover have "pod_fine env (pw_db w) (build_profile_pod ?t (t_podTemplate ?t))"
      using t assms(2) by (simp add: pod_fine_def build_profile_pod_id) (simp add: build_profile_pod_def)
    ultimately have "\<forall>pod \<in> set (cl_pods (pw_cl w1)). pod_fine env (pw_db w1) pod"
      using create_profile_pod_pods [OF r] assms(4) w1(4) by blast
    with w1 show ?thesis by blast
  qed
  then obtain w1 where w1: "start_next env w = Inr (True, w1)" "prof_ok w1"
    "queue_elems (prof_queue w1) = butlast (queue_elems (prof_queue w))"
    and fine: "\<forall>pod \<in> set (cl_pods (pw_cl w1)). pod_fine env (pw_db w1) pod" by blast
  let ?pods = "case ListProflingPods (pe_cl env) (pw_cl w1) of Inl e \<Rightarrow> [] | Inr pods \<Rightarrow> pods"
  have "\<forall>pod \<in> set ?pods. pod_fine env (pw_db w1) pod"
    using fine by (auto simp: ListProflingPods_def split: option.split)
  from check_pods_fine [OF this] obtain w' where "check_pods env ?pods w1 = Inr w'" "prof_queue w' = prof_queue w1"
    by blast
  with w1 show ?thesis by (intro exI [of _ w']) (simp add: profiler_tick_def prof_ok_def)
qed

lemma profiler_tick_safe_witness:
  "\<exists>w'. profiler_tick sample_prof_env sample_prof_world = Inr w' \<and> prof_ok w'"
  using profiler_tick_safe [OF sample_prof_ok sample_prof_faults(1)]
  by (force simp: sample_prof_world_def NewProfiler_def empty_cluster_def)

end
