(* ===== verification/Task_Controller.thy ===== *)
theory Task_Controller imports Task_Queue Quota Profiler begin

text \<open>
  \<open>pkg/aitaskctl/controller.go\<close>: the controller that admits queued tasks within their users'
  quotas, and follows the status events of the cluster and the task events of the server.

  The state is the task queues, the quota cache, the profiler if one is set, the task table and
  the cluster.  Each handler runs to its end before the next (one step of the interleaving).
  \<open>sort.Slice\<close> is the stable insertion sort the library runs on short slices.
\<close>

section \<open>State\<close>

record ('q, 'u) ctl =
  tc_taskQueue :: task_queue
  tc_quotas :: "'q quota_map"
  tc_profiler :: "'u profiler option"
  tc_db :: task_db
  tc_cl :: cluster

record ('q, 'u) ctl_env =
  te_quota :: "'q quota_env"
  te_prof :: "'u profiler_env"

abbreviation te_db :: "('q, 'u) ctl_env \<Rightarrow> task_db_env" where "te_db env \<equiv> qe_db (te_quota env)"
abbreviation te_Q :: "('q, 'u) ctl_env \<Rightarrow> 'q quantity_ops" where "te_Q env \<equiv> qe_Q (te_quota env)"
abbreviation te_cl :: "('q, 'u) ctl_env \<Rightarrow> cluster_env" where "te_cl env \<equiv> pe_cl (te_prof env)"

text \<open>The profiler works on the same table and cluster.\<close>

definition with_profiler :: "('u prof_world \<Rightarrow> 'u prof_world) \<Rightarrow> ('q, 'u) ctl \<Rightarrow> ('q, 'u) ctl" where
  "with_profiler f s =
     (case tc_profiler s of
        None \<Rightarrow> s
      | Some p \<Rightarrow>
          (let w = f \<lparr>pw_prof = p, pw_db = tc_db s, pw_cl = tc_cl s\<rparr>
           in s\<lparr>tc_profiler := Some (pw_prof w), tc_db := pw_db w, tc_cl := pw_cl w\<rparr>))"

section \<open>Start\<close>

fun init_accounts :: "('q, 'u) ctl_env \<Rightarrow> 'q account list \<Rightarrow> ('q, 'u) ctl \<Rightarrow> ('q, 'u) ctl" where
  "init_accounts env [] s = s"
| "init_accounts env (a # as) s =
     (let s1 = s\<lparr>tc_quotas := snd (AddOrUpdateQuotaInfo (te_quota env) (tc_db s) a (tc_quotas s))\<rparr>
      in case svc_ListByUserAndStatuses (te_db env) (ac_name a) EmiasTaskQueueingStatuses (tc_db s1) of
           Inl e \<Rightarrow> init_accounts env as s1
         | Inr queueingList \<Rightarrow>
             init_accounts env as
               (s1\<lparr>tc_taskQueue := InitUserQueue (ac_name a) queueingList (tc_taskQueue s1)\<rparr>))"

text \<open>A failing query of the accounts leaves the nil list and is only logged.\<close>

definition ctl_Init :: "('q, 'u) ctl_env \<Rightarrow> fault \<Rightarrow> ('q, 'u) ctl \<Rightarrow> ('q, 'u) ctl" where
  "ctl_Init env f s = init_accounts env (case f of Some e \<Rightarrow> [] | None \<Rightarrow> qe_accounts (te_quota env)) s"

section \<open>Events\<close>

text \<open>The id in a status event is parsed with the error dropped.\<close>

definition updateTaskStatus :: "('q, 'u) ctl_env \<Rightarrow> string \<Rightarrow> string \<Rightarrow> string \<Rightarrow> ('q, 'u) ctl \<Rightarrow> ai_task result \<times> ('q, 'u) ctl" where
  "updateTaskStatus env taskID status reason s =
     (let tid = parse_uint_value taskID in
      case svc_GetByID (te_db env) (tc_db s) tid of
        Inl e \<Rightarrow> (Inl e, s)
      | Inr t \<Rightarrow>
          (let (f, db1) = (if t_status t \<noteq> status then svc_UpdateStatus (te_db env) tid status reason (tc_db s)
                           else (None, tc_db s));
               s1 = s\<lparr>tc_db := db1\<rparr>
           in case f of
                Some e \<Rightarrow> (Inl e, s1)
              | None \<Rightarrow>
                  (if t_node t = [] \<and> status = ''Running'' then
                     (case GetNodeNameFromTask (te_cl env) t (tc_cl s1) of
                        Inl e \<Rightarrow> (Inr t, s1)
                      | Inr nodeName \<Rightarrow>
                          (let (f2, db2) = svc_UpdateNodeName (te_db env) (t_id t) nodeName (tc_db s1);
                               s2 = s1\<lparr>tc_db := db2\<rparr>
                           in case f2 of
                                Some e \<Rightarrow> (Inl e, s2)
                              | None \<Rightarrow> (Inr (t\<lparr>t_node := nodeName, t_status := status\<rparr>), s2)))
                   else (Inr (t\<lparr>t_status := status\<rparr>), s1))))"

text \<open>\<open>DeleteTask\<close> through the pointer that \<open>GetQuotaInfo\<close> returns; no entry, no effect.\<close>

definition refund_task :: "('q, 'u) ctl_env \<Rightarrow> ai_task \<Rightarrow> ('q, 'u) ctl \<Rightarrow> ('q, 'u) ctl" where
  "refund_task env task s =
     (let (quotaInfo, m1) = GetQuotaInfo (te_quota env) (tc_db s) (t_userName task) (tc_quotas s) in
      case quotaInfo of
        None \<Rightarrow> s\<lparr>tc_quotas := m1\<rparr>
      | Some info \<Rightarrow> s\<lparr>tc_quotas := gm_put (t_userName task) (qi_DeleteTask (te_Q env) task info) m1\<rparr>)"

definition handle_status_event :: "('q, 'u) ctl_env \<Rightarrow> job_status_event \<Rightarrow> ('q, 'u) ctl \<Rightarrow> ('q, 'u) ctl" where
  "handle_status_event env ev s =
     (case updateTaskStatus env (ev_taskID ev) (ev_newStatus ev) (ev_statusReason ev) s of
        (Inl e, s1) \<Rightarrow> s1
      | (Inr task, s1) \<Rightarrow>
          (if IsCompletedStatus (ev_newStatus ev) then refund_task env task s1
           else if ev_newStatus ev = EmiasTaskQueueingStatus then
             s1\<lparr>tc_taskQueue := tq_AddTask task (tc_taskQueue s1)\<rparr>
           else s1))"

datatype task_operation = CreateTask | UpdateTask | DeleteTask

record task_update_event =
  tu_taskID :: nat
  tu_userName :: string
  tu_operation :: task_operation

definition TaskUpdated :: "('q, 'u) ctl_env \<Rightarrow> task_update_event \<Rightarrow> ('q, 'u) ctl \<Rightarrow> ('q, 'u) ctl" where
  "TaskUpdated env event s =
     (case svc_GetByID (te_db env) (tc_db s) (tu_taskID event) of
        Inl e \<Rightarrow> s
      | Inr task \<Rightarrow>
          (case tu_operation event of
             CreateTask \<Rightarrow> s\<lparr>tc_taskQueue := tq_AddTask task (tc_taskQueue s)\<rparr>
           | UpdateTask \<Rightarrow> s\<lparr>tc_taskQueue := tq_UpdateTask task (tc_taskQueue s)\<rparr>
           | DeleteTask \<Rightarrow>
               (let s1 = s\<lparr>tc_taskQueue := tq_DeleteTaskByUserNameAndTaskID (tu_userName event)
                                            (fmt_uint (tu_taskID event)) (tc_taskQueue s)\<rparr>;
                    s2 = refund_task env task s1;
                    s3 = s2\<lparr>tc_cl := snd (DeleteJobFromTask (te_cl env) task (tc_cl s2))\<rparr>
                in if t_profileStatus task = EmiasProfileQueued \<or> t_profileStatus task = EmiasProfiling
                   then with_profiler (DeleteProfilePodFromTask (te_prof env) (t_id task)) s3 else s3)))"

section \<open>Admission\<close>

text \<open>
  When the job cannot be created the error is overwritten by the result of the status update, so
  a recorded failure is returned as nil.
\<close>

definition admitTask :: "('q, 'u) ctl_env \<Rightarrow> ai_task \<Rightarrow> ('q, 'u) ctl \<Rightarrow> fault \<times> ('q, 'u) ctl" where
  "admitTask env task s =
     (let (quotaInfo, m1) = GetQuotaInfo (te_quota env) (tc_db s) (t_userName task) (tc_quotas s);
          s1 = s\<lparr>tc_quotas := m1\<rparr>
      in case quotaInfo of
           None \<Rightarrow> (Some ''quota not found'', s1)
         | Some info \<Rightarrow>
             (if qi_CheckHardQuotaExceed (te_Q env) task info then (Some ''quota exceed'', s1)
              else
                (case CreateJobFromTask (te_cl env) task (tc_cl s1) of
                   (Inl e, cl) \<Rightarrow>
                     (let (f, db) = svc_UpdateStatus (te_db env) (t_id task) EmiasTaskFailedStatus e (tc_db s1);
                          s2 = s1\<lparr>tc_cl := cl, tc_db := db\<rparr>
                      in case f of
                           Some e2 \<Rightarrow> (Some e2, s2)
                         | None \<Rightarrow> (None, s2\<lparr>tc_taskQueue := tq_DeleteTask task (tc_taskQueue s2)\<rparr>))
                 | (Inr jobname, cl) \<Rightarrow>
                     (let (f, db) = svc_UpdateStatus (te_db env) (t_id task) EmiasTaskCreatedStatus ''AIJob created'' (tc_db s1);
                          s2 = s1\<lparr>tc_cl := cl, tc_db := db\<rparr>
                      in case f of
                           Some e2 \<Rightarrow> (Some e2, s2)
                         | None \<Rightarrow>
                             (let (f2, db2) = svc_UpdateJobName (te_db env) (t_id task) jobname (tc_db s2);
                                  s3 = s2\<lparr>tc_db := db2\<rparr>
                              in case f2 of
                                   Some e3 \<Rightarrow> (Some e3, s3)
                                 | None \<Rightarrow>
                                     (None, s3\<lparr>tc_quotas := gm_put (t_userName task)
                                                  (qi_AddTask (te_Q env) task info) (tc_quotas s3),
                                                tc_taskQueue := tq_DeleteTask task (tc_taskQueue s3)\<rparr>))))))"

section \<open>Scheduling\<close>

fun select_within :: "'q quantity_ops \<Rightarrow> ai_task list \<Rightarrow> 'q quota_info \<Rightarrow> ai_task list \<times> 'q quota_info" where
  "select_within Q [] quotaCopy = ([], quotaCopy)"
| "select_within Q (task # ts) quotaCopy =
     (if \<not> qs_CheckHardQuotaExceed Q task quotaCopy then
        (let (sel, q1) = select_within Q ts (qs_AddTask Q task quotaCopy) in (task # sel, q1))
      else select_within Q ts quotaCopy)"

fun guaranteed_candidates :: "('q, 'u) ctl_env \<Rightarrow> task_queue \<Rightarrow> 'q quota_map \<Rightarrow> ai_task list go" where
  "guaranteed_candidates env [] m = Inr []"
| "guaranteed_candidates env ((username, q) # uqs) m =
     (case GetQuotaInfoSnapshotByUsername username m of
        None \<Rightarrow> guaranteed_candidates env uqs m
      | Some quotaCopy \<Rightarrow>
          go_bind (q_List (uq_gauranteed q))
            (\<lambda>ts. go_bind (guaranteed_candidates env uqs m)
              (\<lambda>rest. Inr (fst (select_within (te_Q env) ts quotaCopy) @ rest))))"

text \<open>
  The best-effort loop of one user.  Submitting to the profiler also marks the task object in the
  queue, which the loop holds by pointer.
\<close>

fun besteffort_tasks :: "('q, 'u) ctl_env \<Rightarrow> string \<Rightarrow> ai_task list \<Rightarrow> ('q, 'u) ctl \<Rightarrow> ai_task list \<times> ('q, 'u) ctl" where
  "besteffort_tasks env username [] s = ([], s)"
| "besteffort_tasks env username (task # ts) s =
     (if tc_profiler s \<noteq> None \<and> t_status task = EmiasTaskQueueingStatus \<and> t_profileStatus task = EmiasUnProfiled then
        (let s1 = with_profiler (SubmitProfileTask (te_prof env) (t_id task)) s;
             s2 = s1\<lparr>tc_taskQueue := with_user_queue username
                    (\<lambda>q. q\<lparr>uq_bestEffort := q_PushOrUpdate (task\<lparr>t_profileStatus := EmiasProfileQueued\<rparr>) (uq_bestEffort q)\<rparr>)
                    (tc_taskQueue s1)\<rparr>
         in besteffort_tasks env username ts s2)
      else
        (let (cs, s1) = besteffort_tasks env username ts s in (task # cs, s1)))"

fun besteffort_candidates :: "('q, 'u) ctl_env \<Rightarrow> task_queue \<Rightarrow> ('q, 'u) ctl \<Rightarrow> (ai_task list \<times> ('q, 'u) ctl) go" where
  "besteffort_candidates env [] s = Inr ([], s)"
| "besteffort_candidates env ((username, q) # uqs) s =
     go_bind (q_List (uq_bestEffort q))
       (\<lambda>ts. let (cs, s1) = besteffort_tasks env username ts s in
             go_bind (besteffort_candidates env uqs s1) (\<lambda>(rest, s2). Inr (cs @ rest, s2)))"

definition process_candidate :: "('q, 'u) ctl_env \<Rightarrow> ai_task \<Rightarrow> ('q, 'u) ctl \<Rightarrow> ('q, 'u) ctl" where
  "process_candidate env candidate s =
     (case svc_GetByID (te_db env) (tc_db s) (t_id candidate) of
        Inl e \<Rightarrow> s
      | Inr task \<Rightarrow>
          (if t_profileStatus task = EmiasProfiling \<or> t_profileStatus task = EmiasProfileQueued then s
           else if t_profileStatus task = EmiasProfileFailed then
             s\<lparr>tc_taskQueue := tq_DeleteTask task (tc_taskQueue s)\<rparr>
           else snd (admitTask env task s)))"

definition schedule :: "('q, 'u) ctl_env \<Rightarrow> ('q, 'u) ctl \<Rightarrow> ('q, 'u) ctl go" where
  "schedule env s =
     go_bind (guaranteed_candidates env (tc_taskQueue s) (tc_quotas s))
       (\<lambda>cs1. go_bind (besteffort_candidates env (tc_taskQueue s) s)
         (\<lambda>(cs2, s1). Inr (fold (process_candidate env) (sort_key t_createdAt (cs1 @ cs2)) s1)))"

section \<open>Lemmas on the quota cache\<close>

text \<open>A cached quota within its limits stays cached, exact and within the same limits.\<close>

definition quotas_kept :: "'q quantity_ops \<Rightarrow> ('q \<Rightarrow> int) \<Rightarrow> 'q quota_map \<Rightarrow> 'q quota_map \<Rightarrow> bool" where
  "quotas_kept Q val m m' \<longleftrightarrow>
     (\<forall>u i. gm_get m u = Some i \<and> quota_ok Q val i \<and> within_hard val i \<longrightarrow>
        (\<exists>i'. gm_get m' u = Some i' \<and> qi_hard i' = qi_hard i \<and> quota_ok Q val i' \<and> within_hard val i'))"

lemma quotas_kept_refl [simp]: "quotas_kept Q val m m"
  by (simp add: quotas_kept_def)

lemma quotas_kept_trans: "quotas_kept Q val a b \<Longrightarrow> quotas_kept Q val b c \<Longrightarrow> quotas_kept Q val a c"
  unfolding quotas_kept_def by metis

lemma GetQuotaInfo_cached:
  "GetQuotaInfo env db u m = (r, m1) \<Longrightarrow> gm_get m v = Some i \<Longrightarrow> gm_get m1 v = Some i"
  by (auto simp: GetQuotaInfo_def AddOrUpdateQuotaInfo_def Let_def dest!: tbl_first_Some
      split: option.splits if_splits)

lemma GetQuotaInfo_entry:
  "GetQuotaInfo env db u m = (Some i, m1) \<Longrightarrow> gm_get m1 u = Some i"
  by (auto simp: GetQuotaInfo_def Let_def dest!: tbl_first_Some split: option.splits if_splits)

lemma GetQuotaInfo_kept: "GetQuotaInfo env db u m = (r, m1) \<Longrightarrow> quotas_kept Q val m m1"
  using GetQuotaInfo_cached unfolding quotas_kept_def by metis

lemma quotas_kept_put:
  assumes "gm_get m u = Some i"
    and "quota_ok Q val i \<Longrightarrow> within_hard val i \<Longrightarrow> quota_ok Q val i' \<and> within_hard val i' \<and> qi_hard i' = qi_hard i"
  shows "quotas_kept Q val m (gm_put u i' m)"
  using assms by (auto simp: quotas_kept_def)

lemma admit_keeps_quotas:
  assumes "quantity_laws (te_Q env) val"
  shows "quotas_kept (te_Q env) val (tc_quotas s) (tc_quotas (snd (admitTask env task s)))"
proof -
  obtain r m1 where g: "GetQuotaInfo (te_quota env) (tc_db s) (t_userName task) (tc_quotas s) = (r, m1)" by fastforce
  note kept = GetQuotaInfo_kept [OF g, of "te_Q env" val]
  have put: "quotas_kept (te_Q env) val m1 (gm_put (t_userName task) (qi_AddTask (te_Q env) task info) m1)"
    if "r = Some info" "\<not> qi_CheckHardQuotaExceed (te_Q env) task info" for info
    by (rule quotas_kept_put [OF GetQuotaInfo_entry [OF g [unfolded that(1)]]])
      (use that(2) quota_ok_AddTask [OF assms] within_hard_add [OF assms] in auto)
  show ?thesis
    using g kept quotas_kept_trans [OF kept put]
    by (auto simp: admitTask_def Let_def split: option.split sum.split prod.split)
qed

lemma admit_queue:
  "tc_taskQueue (snd (admitTask env task s)) \<in> {tc_taskQueue s, tq_DeleteTask task (tc_taskQueue s)}"
  by (auto simp: admitTask_def Let_def split: option.split sum.split prod.split)

lemma admit_queue_inv: "tq_inv (tc_taskQueue s) \<Longrightarrow> tq_inv (tc_taskQueue (snd (admitTask env task s)))"
  using admit_queue [of env task s] tq_inv_Delete [of "tc_taskQueue s" task] by auto

lemma admit_profiler [simp]: "tc_profiler (snd (admitTask env task s)) = tc_profiler s"
  by (auto simp: admitTask_def Let_def split: option.split sum.split prod.split)

lemma with_profiler_parts [simp]:
  "tc_taskQueue (with_profiler f s) = tc_taskQueue s" "tc_quotas (with_profiler f s) = tc_quotas s"
  by (simp_all add: with_profiler_def Let_def split: option.split)

lemma process_candidate_quotas:
  "quantity_laws (te_Q env) val \<Longrightarrow>
   quotas_kept (te_Q env) val (tc_quotas s) (tc_quotas (process_candidate env c s))"
  by (auto simp: process_candidate_def admit_keeps_quotas split: sum.split)

lemma process_candidate_queue:
  "tq_inv (tc_taskQueue s) \<Longrightarrow> tq_inv (tc_taskQueue (process_candidate env c s))"
  by (auto simp: process_candidate_def tq_inv_Delete admit_queue_inv split: sum.split)

lemma process_candidates:
  "quantity_laws (te_Q env) val \<Longrightarrow> tq_inv (tc_taskQueue s) \<Longrightarrow>
   quotas_kept (te_Q env) val (tc_quotas s) (tc_quotas (fold (process_candidate env) cs s)) \<and>
   tq_inv (tc_taskQueue (fold (process_candidate env) cs s))"
proof (induction cs arbitrary: s)
  case (Cons c cs)
  from Cons.IH [OF Cons.prems(1) process_candidate_queue [OF Cons.prems(2)]]
    process_candidate_quotas [OF Cons.prems(1)] show ?case
    using quotas_kept_trans by fastforce
qed simp

section \<open>Lemmas on the candidates\<close>

lemma queue_of_elems:
  "queue_of u slo q \<Longrightarrow> t \<in> set (queue_elems q) \<Longrightarrow> t_userName t = u \<and> t_slo t = slo"
proof -
  assume q: "queue_of u slo q" and t: "t \<in> set (queue_elems q)"
  from gq.elems_look [OF queue_ofD [OF q]] t have "q_GetByKey q (keyFunc t) = Some t" by blast
  with q show ?thesis unfolding queue_of_def by blast
qed

lemma guaranteed_candidates_ok:
  "\<forall>(u, q) \<in> set uqs. uq_inv u q \<Longrightarrow> \<exists>cs. guaranteed_candidates env uqs m = Inr cs"
proof (induction uqs)
  case (Cons p uqs)
  obtain u q where p: "p = (u, q)" by (cases p)
  with Cons.prems have "queue_inv (uq_gauranteed q)" by (simp add: uq_inv_def queue_of_def)
  with Cons p show ?case by (auto simp: q_List_ok split: option.split)
qed simp

lemma besteffort_tasks_ok:
  "besteffort_tasks env u ts s = (cs, s') \<Longrightarrow> \<forall>t \<in> set ts. t_userName t = u \<and> t_slo t = EmiasLowSLO \<Longrightarrow>
   tq_inv (tc_taskQueue s) \<Longrightarrow> tq_inv (tc_taskQueue s') \<and> tc_quotas s' = tc_quotas s \<and> set cs \<subseteq> set ts"
proof (induction ts arbitrary: s cs s')
  case (Cons t ts)
  show ?case
  proof (cases "tc_profiler s \<noteq> None \<and> t_status t = EmiasTaskQueueingStatus \<and> t_profileStatus t = EmiasUnProfiled")
    case True
    let ?s1 = "with_profiler (SubmitProfileTask (te_prof env) (t_id t)) s"
    let ?s2 = "?s1\<lparr>tc_taskQueue := with_user_queue u
                 (\<lambda>q. q\<lparr>uq_bestEffort := q_PushOrUpdate (t\<lparr>t_profileStatus := EmiasProfileQueued\<rparr>) (uq_bestEffort q)\<rparr>)
                 (tc_taskQueue ?s1)\<rparr>"
    from True Cons.prems(1) have r: "besteffort_tasks env u ts ?s2 = (cs, s')" by (simp add: Let_def)
    have "tq_inv (tc_taskQueue ?s2)"
      using Cons.prems(2,3) by (auto simp: uq_inv_def intro!: tq_inv_with queue_of_put)
    from Cons.IH [OF r _ this] Cons.prems(2) show ?thesis by auto
  next
    case False
    then obtain cs' where "besteffort_tasks env u ts s = (cs', s')" "cs = t # cs'"
      using Cons.prems(1) by (auto simp: Let_def split: prod.splits)
    with Cons.IH [OF this(1)] Cons.prems(2,3) show ?thesis by auto
  qed
qed simp

lemma besteffort_candidates_ok:
  "\<forall>(u, q) \<in> set uqs. uq_inv u q \<Longrightarrow> tq_inv (tc_taskQueue s) \<Longrightarrow>
   \<exists>cs s'. besteffort_candidates env uqs s = Inr (cs, s') \<and> tq_inv (tc_taskQueue s') \<and> tc_quotas s' = tc_quotas s"
proof (induction uqs arbitrary: s)
  case (Cons p uqs)
  obtain u q where p: "p = (u, q)" by (cases p)
  with Cons.prems have inv: "queue_of u EmiasLowSLO (uq_bestEffort q)" by (simp add: uq_inv_def)
  obtain cs s1 where r: "besteffort_tasks env u (queue_elems (uq_bestEffort q)) s = (cs, s1)" by fastforce
  from besteffort_tasks_ok [OF r _ Cons.prems(2)] queue_of_elems [OF inv]
  have s1: "tq_inv (tc_taskQueue s1)" "tc_quotas s1 = tc_quotas s" by auto
  from Cons.IH [OF _ s1(1)] Cons.prems(1) obtain cs' s2 where "besteffort_candidates env uqs s1 = Inr (cs', s2)"
    "tq_inv (tc_taskQueue s2)" "tc_quotas s2 = tc_quotas s1" by auto
  with r s1 p inv show ?case by (simp add: q_List_ok queue_of_def)
qed simp

text \<open>The selection of one user's guaranteed tasks against the snapshot.\<close>

lemma select_spec:
  assumes laws: "quantity_laws Q val"
  shows "select_within Q ts qc = (sel, q') \<Longrightarrow> gm_ok (qi_hardUsed qc) \<Longrightarrow> distinct (map t_id ts) \<Longrightarrow>
    \<forall>t \<in> set ts. t_slo t = EmiasHighSLO \<and> gm_get (qi_usedTasks qc) (keyFunc t) = None \<Longrightarrow>
    gm_ok (qi_hardUsed q') \<and> qi_hard q' = qi_hard qc \<and>
    (\<forall>k. amount val (qi_hardUsed q') k = amount val (qi_hardUsed qc) k + charged Q val EmiasHighSLO sel k) \<and>
    dom (gm_get (qi_hardUsed qc)) \<subseteq> dom (gm_get (qi_hardUsed q')) \<and>
    (\<forall>t \<in> set sel. dom (gm_get (request_list Q (t_resourceRequest t))) \<subseteq> dom (gm_get (qi_hardUsed q'))) \<and>
    set sel \<subseteq> set ts \<and> (within_hard val qc \<or> sel \<noteq> [] \<longrightarrow> within_hard val q')"
proof (induction ts arbitrary: qc sel)
  case (Cons t ts)
  show ?case
  proof (cases "qi_CheckHardQuotaExceed Q t qc")
    case True
    with Cons.prems have "select_within Q ts qc = (sel, q')" by simp
    from Cons.IH [OF this] Cons.prems show ?thesis by auto
  next
    case False
    let ?qc = "qi_AddTask Q t qc"
    obtain sel' where r: "select_within Q ts ?qc = (sel', q')" and sel: "sel = t # sel'"
      using False Cons.prems(1) by (auto simp: Let_def split: prod.splits)
    have new: "gm_get (qi_usedTasks qc) (keyFunc t) = None" and high: "t_slo t = EmiasHighSLO"
      using Cons.prems(4) by auto
    have req: "gm_ok (request_list Q (t_resourceRequest t))" using laws by simp
    have used: "qi_hardUsed ?qc = AddResourceList Q (qi_hardUsed qc) (request_list Q (t_resourceRequest t))"
      using new high by (simp add: qi_AddTask_def Let_def)
    have "\<forall>t' \<in> set ts. t_slo t' = EmiasHighSLO \<and> gm_get (qi_usedTasks ?qc) (keyFunc t') = None"
      using Cons.prems(3,4) by (auto simp: qi_AddTask_used dest: image_eqI [where f = t_id, OF sym])
    from Cons.IH [OF r _ _ this] Cons.prems(2,3) within_hard_add_new [OF laws Cons.prems(2) False new high]
    show ?thesis
      by (auto simp: sel used add_resource_dom [OF req] amount_add [OF laws req] charged_def high)
  qed
qed simp

section \<open>Lemmas on the handlers\<close>

lemma update_status_row:
  "svc_UpdateStatus env i st r db = (None, db') \<Longrightarrow>
   \<exists>t t'. task_row db i = Some t \<and> task_row db' = (task_row db)(i \<mapsto> t') \<and> t_status t' = st \<and> same_task t t'"
  using svc.upd_status_ok by blast

lemma admitted_row:
  assumes "svc_UpdateStatus env i st r db = (None, d1)" and "svc_UpdateJobName env i j d1 = (None, d2)"
  shows "\<exists>row. task_row d2 i = Some row \<and> t_status row = st \<and> t_jobName row = j"
  using svc.status_then_job [OF assms] by auto

lemma updateTaskStatus_ok:
  assumes "i < 2 ^ 64" and "task_row (tc_db s) i = Some t" and "get_fault (te_db env) i = None"
    and "upd_fault (te_db env) ''status'' i = None" and "st \<noteq> ''Running''"
  shows "\<exists>db'. updateTaskStatus env (fmt_uint i) st r s = (Inr (t\<lparr>t_status := st\<rparr>), s\<lparr>tc_db := db'\<rparr>) \<and>
    (\<exists>row. task_row db' = (task_row (tc_db s))(i \<mapsto> row) \<and> t_status row = st \<and> same_task t row)"
proof -
  have get: "svc_GetByID (te_db env) (tc_db s) i = Inr t" using assms by (simp add: svc_GetByID_Inr)
  show ?thesis
  proof (cases "t_status t = st")
    case True
    with get assms show ?thesis
      by (intro exI [of _ "tc_db s"]) (auto simp: updateTaskStatus_def Let_def intro!: exI [of _ t])
  next
    case False
    have upd: "svc_UpdateStatus (te_db env) i st r (tc_db s) =
        (None, tbl_updates (\<lambda>t. t_id t = i) (status_update (te_db env) t st r) (tc_db s))"
      using get False assms(4) by (simp add: svc_UpdateStatus_def)
    from svc.upd_status_ok [OF upd] assms(2) obtain row where
      "task_row (tbl_updates (\<lambda>t. t_id t = i) (status_update (te_db env) t st r) (tc_db s)) =
        (task_row (tc_db s))(i \<mapsto> row)" "t_status row = st" "same_task t row" by auto
    with get upd False assms show ?thesis
      by (auto simp: updateTaskStatus_def Let_def)
  qed
qed

lemma refund_cached:
  assumes "gm_get (tc_quotas s) (t_userName t) = Some info"
  shows "refund_task env t s = s\<lparr>tc_quotas := gm_put (t_userName t) (qi_DeleteTask (te_Q env) t info) (tc_quotas s)\<rparr>"
  using assms by (simp add: refund_task_def GetQuotaInfo_def)

lemma refund_queue [simp]: "tc_taskQueue (refund_task env t s) = tc_taskQueue s"
  "tc_cl (refund_task env t s) = tc_cl s" "tc_db (refund_task env t s) = tc_db s"
  by (auto simp: refund_task_def split: prod.split option.split)

lemma delete_profile_pod_jobs: "cl_jobs (snd (DeleteProfilePod env t cl)) = cl_jobs cl"
  by (simp add: DeleteProfilePod_def k8s_delete_pod_def split: option.split)

lemma with_profiler_delete_jobs:
  "find_job ns name (tc_cl (with_profiler (DeleteProfilePodFromTask env i) s)) = find_job ns name (tc_cl s)"
  by (simp add: with_profiler_def DeleteProfilePodFromTask_def Let_def find_job_def delete_profile_pod_jobs
      split: option.split sum.split)

lemma delete_job_gone:
  "ce_job env (t_namespace t) (t_jobName t) = None \<Longrightarrow>
   find_job (t_namespace t) (t_jobName t) (snd (DeleteJobFromTask env t cl)) = None"
  by (auto simp: DeleteJobFromTask_def k8s_delete_job_def find_job_def find_None_iff split: option.split)

section \<open>A concrete controller for the witnesses\<close>

definition sample_ctl_env :: "(int, unit) ctl_env" where
  "sample_ctl_env = \<lparr>te_quota = sample_env, te_prof = sample_prof_env\<rparr>"

definition sample_info :: "int quota_info" where
  "sample_info = qi_AddTask int_quantity sample_task (fresh_quota ''u'' [(''cpu'', 4)] [])"

definition sample_ctl :: "(int, unit) ctl" where
  "sample_ctl =
     \<lparr>tc_taskQueue = sample_queue, tc_quotas = [(''u'', sample_info)], tc_profiler = None,
      tc_db = [sample_task\<lparr>t_status := ''Running''\<rparr>], tc_cl = empty_cluster\<rparr>"

lemma sample_ctl_env_simps [simp]:
  "te_Q sample_ctl_env = int_quantity" "get_fault (te_db sample_ctl_env) i = None"
  "upd_fault (te_db sample_ctl_env) x i = None" "te_cl sample_ctl_env = quiet_cluster"
  by (simp_all add: sample_ctl_env_def sample_env_def sample_prof_env_def)

lemma sample_info_ok: "quota_ok int_quantity (\<lambda>x. x) sample_info"
  unfolding sample_info_def by (rule quota_ok_AddTask) simp_all

lemma sample_info_used: "gm_get (qi_usedTasks sample_info) (fmt_uint 7) = Some sample_task"
  by (simp add: sample_info_def qi_AddTask_used keyFunc_def sample_task_fields fresh_quota_def)

lemma sample_info_hard: "qi_hard sample_info = [(''cpu'', 4)]" "qi_hardUsed sample_info = [(''cpu'', 1)]"
  by (simp_all add: sample_info_def fresh_quota_def qi_AddTask_def sample_task_fields Let_def request_list_def
      JSONToResourceList_def int_quantity_def AddResourceList_def)

lemma sample_info_within: "within_hard (\<lambda>x. x) sample_info"
  by (simp add: within_hard_def sample_info_hard amount_def)

lemma sample_ctl_row:
  "task_row (tc_db sample_ctl) 7 = Some (sample_task\<lparr>t_status := ''Running''\<rparr>)"
  by (simp add: sample_ctl_def task_row_def tbl_first_Cons sample_task_fields)

lemma sample_ctl_parts:
  "tc_taskQueue sample_ctl = sample_queue" "gm_get (tc_quotas sample_ctl) ''u'' = Some sample_info"
  "gm_ok sample_queue"
  by (simp_all add: sample_ctl_def sample_queue_def InitUserQueue_def NewTaskQueue_def gm_ok_Cons)

lemma sample_fits: "\<not> qi_CheckHardQuotaExceed int_quantity (sample_task\<lparr>t_status := st\<rparr>) sample_info"
  by (simp add: qi_CheckHardQuotaExceed_def sample_task_fields sample_info_hard request_list_def
      JSONToResourceList_def CheckResourceListExceed_def AddResourceList_def int_quantity_def)

section \<open>Properties\<close>

text \<open>Claim C1. Scheduling is safe: from well-formed queues a round of the scheduler never panics,
  keeps the queues well formed, and leaves every cached quota that was exact and within its hard
  limits exact and within the same limits, whatever the database and the cluster answer.\<close>

theorem schedule_keeps_quotas:
  assumes "quantity_laws (te_Q env) val" and "tq_inv (tc_taskQueue s)" and "gm_ok (tc_taskQueue s)"
    and "gm_get (tc_quotas s) u = Some i" and "quota_ok (te_Q env) val i" and "within_hard val i"
  shows "\<exists>s' i'. schedule env s = Inr s' \<and> tq_inv (tc_taskQueue s') \<and>
    gm_get (tc_quotas s') u = Some i' \<and> qi_hard i' = qi_hard i \<and> quota_ok (te_Q env) val i' \<and> within_hard val i'"
proof -
  have uqs: "\<forall>(u, q) \<in> set (tc_taskQueue s). uq_inv u q"
    using assms(2,3) by (auto simp: tq_inv_def gm_get_in_set)
  obtain cs1 where c1: "guaranteed_candidates env (tc_taskQueue s) (tc_quotas s) = Inr cs1"
    using guaranteed_candidates_ok [OF uqs] by blast
  obtain cs2 s1 where c2: "besteffort_candidates env (tc_taskQueue s) s = Inr (cs2, s1)"
    and s1: "tq_inv (tc_taskQueue s1)" "tc_quotas s1 = tc_quotas s"
    using besteffort_candidates_ok [OF uqs assms(2)] by blast
  let ?s' = "fold (process_candidate env) (sort_key t_createdAt (cs1 @ cs2)) s1"
  from process_candidates [OF assms(1) s1(1), of "sort_key t_createdAt (cs1 @ cs2)"] s1(2) assms(4-6)
  have "tq_inv (tc_taskQueue ?s')" "\<exists>i'. gm_get (tc_quotas ?s') u = Some i' \<and> qi_hard i' = qi_hard i \<and>
      quota_ok (te_Q env) val i' \<and> within_hard val i'"
    unfolding quotas_kept_def by auto
  with c1 c2 show ?thesis by (auto simp: schedule_def)
qed

lemma schedule_keeps_quotas_witness:
  "\<exists>s'. schedule sample_ctl_env sample_ctl = Inr s' \<and> tq_inv (tc_taskQueue s')"
  using schedule_keeps_quotas [of sample_ctl_env "\<lambda>x. x" sample_ctl "''u''" sample_info] sample_queue_ok(1)
  by (auto simp: sample_ctl_parts sample_info_ok sample_info_within)

text \<open>The guaranteed tasks one round selects for a user fit together: added to what the user
  already holds they stay within the hard limit of every resource held or requested, and only
  tasks of the user's guaranteed queue are selected.\<close>

theorem guaranteed_selection_fits:
  assumes "quantity_laws Q val" and "quota_ok Q val i" and "uq_inv u q"
    and "select_within Q (queue_elems (uq_gauranteed q)) (qi_Snapshot i) = (sel, q')" and "sel \<noteq> []"
    and "k \<in> dom (gm_get (qi_hardUsed i)) \<union> (\<Union>t \<in> set sel. dom (gm_get (request_list Q (t_resourceRequest t))))"
  shows "set sel \<subseteq> set (queue_elems (uq_gauranteed q)) \<and>
    (\<exists>h. gm_get (qi_hard i) k = Some h \<and>
         amount val (qi_hardUsed i) k + charged Q val EmiasHighSLO sel k \<le> val h)"
proof -
  have g: "queue_of u EmiasHighSLO (uq_gauranteed q)" using assms(3) by (simp add: uq_inv_def)
  have dist: "distinct (map t_id (queue_elems (uq_gauranteed q)))"
  proof -
    have "distinct (map keyFunc (queue_elems (uq_gauranteed q)))"
      using g gq.elems_distinct by (auto simp: queue_of_def)
    then show ?thesis by (simp add: distinct_map inj_on_def)
  qed
  have "\<forall>t \<in> set (queue_elems (uq_gauranteed q)). t_slo t = EmiasHighSLO \<and>
      gm_get (qi_usedTasks (qi_Snapshot i)) (keyFunc t) = None"
    using queue_of_elems [OF g] by (simp add: qi_Snapshot_def)
  note spec = select_spec [OF assms(1,4) _ dist this]
  have "gm_ok (qi_hardUsed (qi_Snapshot i))" using assms(2) by (simp add: qi_Snapshot_def quota_ok_def)
  note spec = spec [OF this]
  have hard: "qi_hard q' = qi_hard i" and within: "within_hard val q'"
    and amt: "amount val (qi_hardUsed q') k = amount val (qi_hardUsed i) k + charged Q val EmiasHighSLO sel k"
    using spec assms(5) by (simp_all add: qi_Snapshot_def)
  have "dom (gm_get (qi_hardUsed i)) \<subseteq> dom (gm_get (qi_hardUsed q'))"
    "\<forall>t \<in> set sel. dom (gm_get (request_list Q (t_resourceRequest t))) \<subseteq> dom (gm_get (qi_hardUsed q'))"
    "set sel \<subseteq> set (queue_elems (uq_gauranteed q))"
    using spec by (simp_all add: qi_Snapshot_def)
  moreover from this have "k \<in> dom (gm_get (qi_hardUsed q'))" using assms(6) by blast
  ultimately show ?thesis
    using within hard amt unfolding within_hard_def by (force split: option.splits)
qed

lemma guaranteed_selection_fits_witness:
  "\<exists>h. gm_get [(''cpu'', 4)] ''cpu'' = Some h \<and>
       charged int_quantity (\<lambda>x. x) EmiasHighSLO [sample_task] ''cpu'' \<le> h"
proof -
  let ?q = "init_push sample_task (NewUserQueue ''u'')"
  let ?i = "fresh_quota ''u'' [(''cpu'', 4)] [] :: int quota_info"
  have inv: "uq_inv ''u'' ?q" by (rule uq_inv_init_push) (simp_all add: sample_task_fields)
  have el: "queue_elems (uq_gauranteed ?q) = [sample_task]"
    by (simp add: init_push_def sample_task_fields NewUserQueue_def elems_PushIfNotPresent elems_PushOrUpdate al_put_def)
  have "\<not> qi_CheckHardQuotaExceed int_quantity sample_task (qi_Snapshot ?i)"
    by (simp add: qi_CheckHardQuotaExceed_def sample_task_fields fresh_quota_def qi_Snapshot_def request_list_def
      JSONToResourceList_def CheckResourceListExceed_def AddResourceList_def int_quantity_def)
  then obtain q' where sel: "select_within int_quantity (queue_elems (uq_gauranteed ?q)) (qi_Snapshot ?i) = ([sample_task], q')"
    by (simp add: el)
  have "''cpu'' \<in> dom (gm_get (request_list int_quantity (t_resourceRequest sample_task)))"
    by (simp add: sample_task_fields request_list_def JSONToResourceList_def int_quantity_def)
  with guaranteed_selection_fits [OF int_quantity_laws fresh_quota_ok inv sel, of "''cpu''"] show ?thesis
    by (simp add: fresh_quota_def)
qed

text \<open>Claim C7. What an admission leaves behind.  An error keeps the task queued and every cached quota
  as it was.  No error means the task has left the queue, and either its job is in the cluster,
  its row says created with that job's name and its request is charged against a quota that had
  room for it, or the job could not be created, the row says failed and no quota was charged:
  the caller then logs a success.\<close>

theorem admit_task_outcome:
  assumes "admitTask env task s = (f, s')"
  shows "case f of
      Some e \<Rightarrow> tc_taskQueue s' = tc_taskQueue s \<and>
        (\<forall>u i. gm_get (tc_quotas s) u = Some i \<longrightarrow> gm_get (tc_quotas s') u = Some i)
    | None \<Rightarrow> tc_taskQueue s' = tq_DeleteTask task (tc_taskQueue s) \<and>
        ((\<exists>job row i. cl_jobs (tc_cl s') = cl_jobs (tc_cl s) @ [job] \<and> aj_name job = job_name_of task \<and>
            task_row (tc_db s') (t_id task) = Some row \<and> t_status row = ''Created'' \<and> t_jobName row = job_name_of task \<and>
            \<not> qi_CheckHardQuotaExceed (te_Q env) task i \<and>
            gm_get (tc_quotas s') (t_userName task) = Some (qi_AddTask (te_Q env) task i)) \<or>
         (\<exists>e row. fst (CreateJobFromTask (te_cl env) task (tc_cl s)) = Inl e \<and>
            task_row (tc_db s') (t_id task) = Some row \<and> t_status row = ''Failed'' \<and>
            (\<forall>u i. gm_get (tc_quotas s) u = Some i \<longrightarrow> gm_get (tc_quotas s') u = Some i)))"
proof -
  obtain r m1 where g: "GetQuotaInfo (te_quota env) (tc_db s) (t_userName task) (tc_quotas s) = (r, m1)" by fastforce
  note cached = GetQuotaInfo_cached [OF g]
  obtain c cl where c: "CreateJobFromTask (te_cl env) task (tc_cl s) = (c, cl)" by fastforce
  show ?thesis
  proof (cases "\<exists>info. r = Some info \<and> \<not> qi_CheckHardQuotaExceed (te_Q env) task info")
    case False
    with assms g cached show ?thesis by (auto simp: admitTask_def Let_def split: option.splits if_splits)
  next
    case True
    then obtain info where info: "r = Some info" "\<not> qi_CheckHardQuotaExceed (te_Q env) task info" by blast
    show ?thesis
    proof (cases c)
      case (Inl e)
      with assms g c info cached show ?thesis
        by (auto simp: admitTask_def Let_def dest!: update_status_row split: option.splits prod.splits)
    next
      case (Inr jobname)
      note names = create_job_names [OF c [unfolded Inr]]
      from assms g c info Inr cached names show ?thesis
        by (auto simp: admitTask_def Let_def dest!: admitted_row split: option.splits prod.splits)
    qed
  qed
qed

lemma admit_task_outcome_witness:
  "case fst (admitTask sample_ctl_env sample_task sample_ctl) of
     Some e \<Rightarrow> tc_taskQueue (snd (admitTask sample_ctl_env sample_task sample_ctl)) = sample_queue
   | None \<Rightarrow> tc_taskQueue (snd (admitTask sample_ctl_env sample_task sample_ctl)) = tq_DeleteTask sample_task sample_queue"
  using admit_task_outcome [of sample_ctl_env sample_task sample_ctl
      "fst (admitTask sample_ctl_env sample_task sample_ctl)" "snd (admitTask sample_ctl_env sample_task sample_ctl)"]
  by (auto simp: sample_ctl_parts split: option.splits)

text \<open>A change of the service level of a task that already runs queues it again, and its next
  admission finds its job in the cluster, so the row of the running task is set to failed; the
  job itself and the charged quota stay.\<close>

theorem slo_update_fails_running_task:
  assumes "task_row (tc_db s) (t_id task) = Some task" and "t_status task = ''Running''"
    and "t_taskType task = ''training''" and "ps_requests (t_podTemplate task) \<noteq> []"
    and "find_job (t_namespace task) (job_name_of task) (tc_cl s) \<noteq> None"
    and "ce_job (te_cl env) (t_namespace task) (job_name_of task) = None"
    and "get_fault (te_db env) (t_id task) = None" and "upd_fault (te_db env) ''status'' (t_id task) = None"
    and "gm_get (tc_quotas s) (t_userName task) = Some i" and "\<not> qi_CheckHardQuotaExceed (te_Q env) task i"
    and "t_profileStatus task \<in> {0, 3}" and "tq_inv (tc_taskQueue s)"
    and "gm_get (tc_taskQueue s) (t_userName task) \<noteq> None" and "t_slo task = EmiasHighSLO"
  shows "let s1 = TaskUpdated env \<lparr>tu_taskID = t_id task, tu_userName = u, tu_operation = UpdateTask\<rparr> s;
             s2 = process_candidate env task s1 in
    guaranteed (tc_taskQueue s1) (t_userName task) (keyFunc task) = Some task \<and>
    (\<exists>row. task_row (tc_db s2) (t_id task) = Some row \<and> t_status row = ''Failed'') \<and>
    tc_cl s2 = tc_cl s \<and> tc_quotas s2 = tc_quotas s"
proof -
  let ?s1 = "s\<lparr>tc_taskQueue := tq_UpdateTask task (tc_taskQueue s)\<rparr>"
  have get: "svc_GetByID (te_db env) (tc_db s) (t_id task) = Inr task" using assms by (simp add: svc_GetByID_Inr)
  then have s1: "TaskUpdated env \<lparr>tu_taskID = t_id task, tu_userName = u, tu_operation = UpdateTask\<rparr> s = ?s1"
    by (simp add: TaskUpdated_def)
  obtain q where q: "gm_get (tc_taskQueue s) (t_userName task) = Some q" using assms(13) by blast
  have "queue_of (t_userName task) EmiasHighSLO (uq_gauranteed q)"
    using tq_inv_uq [OF assms(12) q] by (simp add: uq_inv_def)
  with q assms(14) have queued: "guaranteed (tc_taskQueue ?s1) (t_userName task) (keyFunc task) = Some task"
    by (simp add: guaranteed_def tq_UpdateTask_def with_user_queue_get look_put)
  have create: "\<exists>e. CreateJobFromTask (te_cl env) task (tc_cl s) = (Inl e, tc_cl s)"
    using assms(3-6) by (auto simp: CreateJobFromTask_def createTrainingJobFromTask_def Let_def k8s_create_job_def build_job_def)
  then obtain e where create: "CreateJobFromTask (te_cl env) task (tc_cl s) = (Inl e, tc_cl s)" by blast
  obtain db' where upd: "svc_UpdateStatus (te_db env) (t_id task) ''Failed'' e (tc_db s) = (None, db')"
    using get assms(2,8) by (simp add: svc_UpdateStatus_def)
  have s2: "process_candidate env task ?s1 =
      s\<lparr>tc_db := db', tc_taskQueue := tq_DeleteTask task (tq_UpdateTask task (tc_taskQueue s))\<rparr>"
    using get assms(9-11) create upd by (auto simp: process_candidate_def admitTask_def GetQuotaInfo_def)
  from update_status_row [OF upd] queued s1 s2 show ?thesis by (auto simp: Let_def)
qed

lemma slo_update_fails_running_task_witness:
  "\<exists>row. task_row (tc_db (process_candidate sample_ctl_env (sample_task\<lparr>t_status := ''Running''\<rparr>)
      (TaskUpdated sample_ctl_env \<lparr>tu_taskID = 7, tu_userName = ''u'', tu_operation = UpdateTask\<rparr>
        (sample_ctl\<lparr>tc_cl := empty_cluster\<lparr>cl_jobs := [build_job sample_task (t_podTemplate sample_task)]\<rparr>\<rparr>)))) 7 = Some row \<and>
     t_status row = ''Failed''"
proof -
  let ?t = "sample_task\<lparr>t_status := ''Running''\<rparr>"
  let ?s = "sample_ctl\<lparr>tc_cl := empty_cluster\<lparr>cl_jobs := [build_job sample_task (t_podTemplate sample_task)]\<rparr>\<rparr>"
  have job: "find_job (t_namespace ?t) (job_name_of ?t) (tc_cl ?s) \<noteq> None"
    by (simp add: find_job_def build_job_def job_name_of_def)
  have tmpl: "t_taskType ?t = ''training''" "ps_requests (t_podTemplate ?t) \<noteq> []" "t_profileStatus ?t \<in> {0, 3}"
    by (simp_all add: sample_task_def)
  show ?thesis
    using slo_update_fails_running_task [of ?s ?t sample_ctl_env sample_info "''u''"] job tmpl sample_ctl_row
      sample_queue_ok sample_fits
    by (simp add: sample_task_fields sample_ctl_parts quiet_cluster_def Let_def)
qed

text \<open>Claim C23. The end of a job gives its quota back once: an event that a charged task succeeded or
  failed, carrying the printed task id, records the status in the row, removes the task from the
  ledger and subtracts the request charged for it; other users are untouched, and a second
  delivery of the event changes no quota.\<close>

theorem completion_refunds_once:
  assumes "quantity_laws (te_Q env) val" and "i < 2 ^ 64" and "task_row (tc_db s) i = Some t"
    and "get_fault (te_db env) i = None" and "upd_fault (te_db env) ''status'' i = None"
    and "gm_get (tc_quotas s) (t_userName t) = Some info" and "quota_ok (te_Q env) val info"
    and "gm_get (qi_usedTasks info) (fmt_uint i) = Some t0"
    and "ev = \<lparr>ev_taskID = fmt_uint i, ev_newStatus = st, ev_statusReason = r\<rparr>" and "st = ''Succeeded'' \<or> st = ''Failed''"
  shows "let s' = handle_status_event env ev s in
    (\<exists>row. task_row (tc_db s') = (task_row (tc_db s))(i \<mapsto> row) \<and> t_status row = st) \<and>
    (\<exists>info'. gm_get (tc_quotas s') = (gm_get (tc_quotas s))(t_userName t \<mapsto> info') \<and> quota_ok (te_Q env) val info' \<and>
       gm_get (qi_usedTasks info') = (gm_get (qi_usedTasks info))(fmt_uint i := None) \<and>
       amount val (qi_hardUsed info') k = amount val (qi_hardUsed info) k -
         (if t_slo t0 = EmiasHighSLO then amount val (request_list (te_Q env) (t_resourceRequest t0)) k else 0)) \<and>
    tc_taskQueue s' = tc_taskQueue s \<and>
    gm_get (tc_quotas (handle_status_event env ev s')) = gm_get (tc_quotas s')"
proof -
  have id: "t_id t = i" using task_row_id [OF assms(3)] .
  have key: "keyFunc t = fmt_uint i" by (simp add: keyFunc_def id)
  have st: "st \<noteq> ''Running''" and fin: "IsCompletedStatus st" using assms(10) by (auto simp: IsCompletedStatus_def)
  obtain db1 row where u1: "updateTaskStatus env (fmt_uint i) st r s = (Inr (t\<lparr>t_status := st\<rparr>), s\<lparr>tc_db := db1\<rparr>)"
    and row: "task_row db1 = (task_row (tc_db s))(i \<mapsto> row)" "t_status row = st" "same_task t row"
    using updateTaskStatus_ok [OF assms(2-5) st] by blast
  let ?info' = "qi_DeleteTask (te_Q env) t info"
  have del: "qi_DeleteTask (te_Q env) (t\<lparr>t_status := st\<rparr>) x = qi_DeleteTask (te_Q env) t x" for x
    by (simp add: qi_DeleteTask_def keyFunc_def)
  let ?s' = "s\<lparr>tc_db := db1, tc_quotas := gm_put (t_userName t) ?info' (tc_quotas s)\<rparr>"
  have s': "handle_status_event env ev s = ?s'"
    using u1 fin refund_cached [of "s\<lparr>tc_db := db1\<rparr>" "t\<lparr>t_status := st\<rparr>" info] assms(6) del
    by (simp add: handle_status_event_def assms(9))
  have used: "gm_get (qi_usedTasks ?info') = (gm_get (qi_usedTasks info))(fmt_uint i := None)"
    by (simp add: qi_DeleteTask_used key)
  have user: "t_userName row = t_userName t" and rid: "t_id row = i" using row(3) id by (simp_all add: same_task_def)
  have row': "task_row (tc_db ?s') i = Some row" using row(1) by simp
  obtain db2 row2 where u2: "updateTaskStatus env (fmt_uint i) st r ?s' = (Inr (row\<lparr>t_status := st\<rparr>), ?s'\<lparr>tc_db := db2\<rparr>)"
    using updateTaskStatus_ok [OF assms(2) row' assms(4,5) st] by blast
  have again: "qi_DeleteTask (te_Q env) (row\<lparr>t_status := st\<rparr>) ?info' = ?info'"
    using used by (simp add: qi_DeleteTask_def [of _ "row\<lparr>t_status := st\<rparr>"] keyFunc_def rid)
  have second: "gm_get (tc_quotas (handle_status_event env ev ?s')) = gm_get (tc_quotas ?s')"
    using u2 fin again user refund_cached [of "?s'\<lparr>tc_db := db2\<rparr>" "row\<lparr>t_status := st\<rparr>" ?info' env]
    by (simp add: handle_status_event_def assms(9))
  have amt: "amount val (qi_hardUsed ?info') k = amount val (qi_hardUsed info) k -
      (if t_slo t0 = EmiasHighSLO then amount val (request_list (te_Q env) (t_resourceRequest t0)) k else 0)"
    using amount_sub_covered [OF assms(1) quota_ok_covers(1) [OF assms(7,8)]] assms(8)
    by (simp add: qi_DeleteTask_def key Let_def)
  show ?thesis
    unfolding s' Let_def
    by (intro conjI exI [of _ row] exI [of _ ?info'] second)
      (use row used amt quota_ok_DeleteTask [OF assms(1,7)] in simp_all)
qed

lemma completion_refunds_once_witness:
  "amount (\<lambda>x. x) (qi_hardUsed (the (gm_get (tc_quotas (handle_status_event sample_ctl_env
     \<lparr>ev_taskID = fmt_uint 7, ev_newStatus = ''Succeeded'', ev_statusReason = ''done''\<rparr> sample_ctl)) ''u''))) ''cpu'' = 0"
proof -
  have "amount (\<lambda>x. x) (request_list int_quantity ''r'') ''cpu'' = 1"
    by (simp add: request_list_def JSONToResourceList_def int_quantity_def amount_def)
  moreover have "amount (\<lambda>x. x) (qi_hardUsed sample_info) ''cpu'' = 1" by (simp add: sample_info_hard amount_def)
  ultimately show ?thesis
    using completion_refunds_once [of sample_ctl_env "\<lambda>x. x" 7 sample_ctl _ sample_info sample_task
        "\<lparr>ev_taskID = fmt_uint 7, ev_newStatus = ''Succeeded'', ev_statusReason = ''done''\<rparr>" "''Succeeded''" "''done''" "''cpu''",
        OF _ _ sample_ctl_row] sample_info_ok sample_info_used
    by (auto simp: sample_task_fields sample_ctl_parts Let_def)
qed

text \<open>The deletion of a task by its owner takes it out of both queues of the account, refunds
  what was charged for it, and removes its job from the cluster when the call to the cluster
  succeeds.\<close>

theorem delete_event_effects:
  assumes "quantity_laws (te_Q env) val" and "tq_inv (tc_taskQueue s)"
    and "task_row (tc_db s) i = Some t" and "get_fault (te_db env) i = None"
    and "gm_get (tc_quotas s) (t_userName t) = Some info" and "quota_ok (te_Q env) val info"
    and "ce_job (te_cl env) (t_namespace t) (t_jobName t) = None"
  shows "let s' = TaskUpdated env \<lparr>tu_taskID = i, tu_userName = t_userName t, tu_operation = DeleteTask\<rparr> s in
    tq_inv (tc_taskQueue s') \<and>
    guaranteed (tc_taskQueue s') (t_userName t) (fmt_uint i) = None \<and>
    besteffort (tc_taskQueue s') (t_userName t) (fmt_uint i) = None \<and>
    (\<exists>info'. gm_get (tc_quotas s') = (gm_get (tc_quotas s))(t_userName t \<mapsto> info') \<and> quota_ok (te_Q env) val info' \<and>
       gm_get (qi_usedTasks info') = (gm_get (qi_usedTasks info))(fmt_uint i := None)) \<and>
    find_job (t_namespace t) (t_jobName t) (tc_cl s') = None"
proof -
  have id: "t_id t = i" using task_row_id [OF assms(3)] .
  have get: "svc_GetByID (te_db env) (tc_db s) i = Inr t" using assms by (simp add: svc_GetByID_Inr)
  let ?tq = "tq_DeleteTaskByUserNameAndTaskID (t_userName t) (fmt_uint i) (tc_taskQueue s)"
  have gone: "guaranteed ?tq (t_userName t) (fmt_uint i) = None \<and> besteffort ?tq (t_userName t) (fmt_uint i) = None"
  proof (cases "gm_get (tc_taskQueue s) (t_userName t)")
    case None
    then show ?thesis
      by (simp add: guaranteed_def besteffort_def tq_DeleteTaskByUserNameAndTaskID_def with_user_queue_get)
  next
    case (Some q)
    from tq_inv_uq [OF assms(2) Some] have "queue_of (t_userName t) EmiasHighSLO (uq_gauranteed q)"
      "queue_of (t_userName t) EmiasLowSLO (uq_bestEffort q)" by (simp_all add: uq_inv_def)
    with Some show ?thesis
      by (simp add: guaranteed_def besteffort_def tq_DeleteTaskByUserNameAndTaskID_def with_user_queue_get look_DeleteByKey)
  qed
  let ?s1 = "s\<lparr>tc_taskQueue := ?tq\<rparr>"
  let ?s2 = "?s1\<lparr>tc_quotas := gm_put (t_userName t) (qi_DeleteTask (te_Q env) t info) (tc_quotas s)\<rparr>"
  have s2: "refund_task env t ?s1 = ?s2" using refund_cached [of ?s1 t info env] assms(5) by simp
  let ?s3 = "?s2\<lparr>tc_cl := snd (DeleteJobFromTask (te_cl env) t (tc_cl s))\<rparr>"
  have "TaskUpdated env \<lparr>tu_taskID = i, tu_userName = t_userName t, tu_operation = DeleteTask\<rparr> s =
      (if t_profileStatus t = EmiasProfileQueued \<or> t_profileStatus t = EmiasProfiling
       then with_profiler (DeleteProfilePodFromTask (te_prof env) (t_id t)) ?s3 else ?s3)" (is "?s' = _")
    using get s2 by (simp add: TaskUpdated_def Let_def)
  then have "tc_taskQueue ?s' = ?tq" "tc_quotas ?s' = tc_quotas ?s2"
    "find_job (t_namespace t) (t_jobName t) (tc_cl ?s') = None"
    using delete_job_gone [OF assms(7)] by (simp_all add: with_profiler_delete_jobs)
  with gone tq_inv_DeleteBy [OF assms(2)] quota_ok_DeleteTask [OF assms(1,6)] show ?thesis
    unfolding Let_def
    by (intro conjI exI [of _ "qi_DeleteTask (te_Q env) t info"]) (simp_all add: qi_DeleteTask_used keyFunc_def id)
qed

lemma delete_event_effects_witness:
  "besteffort (tc_taskQueue (TaskUpdated sample_ctl_env
     \<lparr>tu_taskID = 7, tu_userName = ''u'', tu_operation = DeleteTask\<rparr> sample_ctl)) ''u'' (fmt_uint 7) = None"
  using delete_event_effects [of sample_ctl_env "\<lambda>x. x" sample_ctl 7 _ sample_info, OF _ _ sample_ctl_row]
    sample_info_ok sample_queue_ok(1)
  by (simp add: sample_task_fields sample_ctl_parts Let_def quiet_cluster_def)

end
