(* ===== verification/Alerts.thy ===== *)
theory Alerts imports Data_Model begin

text \<open>
  The notifications of \<open>pkg/alert\<close> (\<open>alert.go\<close>, \<open>smtp.go\<close>) and the reset of their repeat flag
  in \<open>pkg/cleaner/low_gpu_usage.go\<close>.  A message about a job is sent once per kind of message; the
  row of the alert table remembers that, until the flag \<open>AllowRepeat\<close> opens it again.  The mail
  server and the failures of the database are the environment; the fixed wording of the messages
  is named by their kind.
\<close>

record alert_env =
  ae_err :: fault
  ae_host :: string
  ae_jobErr :: fault
  ae_alertErr :: fault
  ae_dialErr :: fault
  ae_createErr :: fault
  ae_saveErr :: fault

abbreviation (input) ErrRecordNotFound :: err where "ErrRecordNotFound \<equiv> ''record not found''"

record job_information =
  ji_name :: string
  ji_jobName :: string
  ji_username :: string
  ji_jobURL :: string
  ji_receiver :: user_attribute
  ji_creationTimestamp :: time
  ji_runningTimestamp :: time

text \<open>A job whose user row is gone is read with the zero value of a user.\<close>

definition attributes_of :: "nat \<Rightarrow> ('q, 'p, 't) platform \<Rightarrow> user_attribute" where
  "attributes_of uid s =
     (case tbl_first (\<lambda>u. us_id u = uid) (pf_users s) of
        Some u \<Rightarrow> us_attributes u
      | None \<Rightarrow> no_attributes)"

definition getJobAlertInfo :: "alert_env \<Rightarrow> string \<Rightarrow> ('q, 'p, 't) platform \<Rightarrow> job_information result" where
  "getJobAlertInfo e n s =
     (case ae_jobErr e of
        Some x \<Rightarrow> Inl x
      | None \<Rightarrow> (case job_named n s of
          None \<Rightarrow> Inl ErrRecordNotFound
        | Some j \<Rightarrow>
            let a = attributes_of (jb_userID j) s in
            Inr \<lparr>ji_name = jb_name j, ji_jobName = jb_jobName j, ji_username = at_nickname a,
                 ji_jobURL = ''https://'' @ ae_host e @ ''/portal/jobs/detail/'' @ jb_jobName j,
                 ji_receiver = a, ji_creationTimestamp = jb_creationTimestamp j,
                 ji_runningTimestamp = jb_runningTimestamp j\<rparr>))"

definition SendMessageTo ::
  "alert_env \<Rightarrow> user_attribute \<Rightarrow> alert_type \<Rightarrow> mail_body \<Rightarrow> ('q, 'p, 't) platform \<Rightarrow> fault \<times> ('q, 'p, 't) platform" where
  "SendMessageTo e r subject body s =
     (case at_email r of
        None \<Rightarrow> (None, s)
      | Some addr \<Rightarrow> (case ae_dialErr e of
          Some x \<Rightarrow> (Some x, s)
        | None \<Rightarrow> (None, s\<lparr>pf_outbox := pf_outbox s @
            [\<lparr>ml_to = addr, ml_nickname = at_nickname r, ml_subject = subject, ml_body = body\<rparr>]\<rparr>)))"

definition alert_for :: "string \<Rightarrow> alert_type \<Rightarrow> ('q, 'p, 't) platform \<Rightarrow> alert option" where
  "alert_for n t s = tbl_first (\<lambda>a. al_jobName a = n \<and> al_alertType a = t) (pf_alerts s)"

definition record_sent ::
  "alert_env \<Rightarrow> time \<Rightarrow> string \<Rightarrow> alert_type \<Rightarrow> alert option \<Rightarrow> ('q, 'p, 't) platform \<Rightarrow> fault \<times> ('q, 'p, 't) platform" where
  "record_sent e now n t r s =
     (case r of
        None \<Rightarrow> (case ae_createErr e of
          Some x \<Rightarrow> (Some x, s)
        | None \<Rightarrow> (None, s\<lparr>pf_alerts := pf_alerts s @
            [\<lparr>al_id = next_id (map al_id (pf_alerts s)), al_jobName = n, al_alertType = t,
              al_alertTimestamp = now, al_allowRepeat = False, al_sendCount = 1\<rparr>]\<rparr>))
      | Some a \<Rightarrow> (case ae_saveErr e of
          Some x \<Rightarrow> (Some x, s)
        | None \<Rightarrow> (None, s\<lparr>pf_alerts := tbl_updates (\<lambda>b. al_id b = al_id a)
            (\<lambda>_. a\<lparr>al_sendCount := al_sendCount a + 1, al_alertTimestamp := now, al_allowRepeat := False\<rparr>)
            (pf_alerts s)\<rparr>)))"

definition sendJobNotification ::
  "alert_env \<Rightarrow> time \<Rightarrow> string \<Rightarrow> alert_type \<Rightarrow> (job_information \<Rightarrow> bool) option \<Rightarrow>
   (job_information \<Rightarrow> mail_body) \<Rightarrow> ('q, 'p, 't) platform \<Rightarrow> fault \<times> ('q, 'p, 't) platform" where
  "sendJobNotification e now n t cond bodyFormatter s =
     (case ae_err e of
        Some x \<Rightarrow> (Some x, s)
      | None \<Rightarrow> (case getJobAlertInfo e n s of
          Inl x \<Rightarrow> (Some x, s)
        | Inr info \<Rightarrow>
            if (case cond of None \<Rightarrow> False | Some c \<Rightarrow> \<not> c info) then (None, s)
            else (case ae_alertErr e of
              Some x \<Rightarrow> (Some x, s)
            | None \<Rightarrow>
                let r = alert_for n t s in
                if (case r of None \<Rightarrow> False | Some a \<Rightarrow> \<not> al_allowRepeat a) then (None, s)
                else (case SendMessageTo e (ji_receiver info) t (bodyFormatter info) s of
                    (Some x, s1) \<Rightarrow> (Some x, s1)
                  | (None, s1) \<Rightarrow> record_sent e now n t r s1))))"

definition job_body :: "time option \<Rightarrow> job_information \<Rightarrow> mail_body" where
  "job_body d info = \<lparr>mb_username = ji_username info, mb_name = ji_name info, mb_jobName = ji_jobName info,
     mb_jobURL = ji_jobURL info, mb_deleteTime = d\<rparr>"

text \<open>Ten minutes, in nanoseconds; \<open>Minutes()\<close> compares as a float that is exact enough here.\<close>

definition waited_long :: "job_information \<Rightarrow> bool" where
  "waited_long info \<longleftrightarrow> time_sub (ji_runningTimestamp info) (ji_creationTimestamp info) > 10 * 60000000000"

type_synonym ('q, 'p, 't) alerting =
  "alert_env \<Rightarrow> time \<Rightarrow> string \<Rightarrow> ('q, 'p, 't) platform \<Rightarrow> fault \<times> ('q, 'p, 't) platform"

definition notify_running :: "('q, 'p, 't) alerting" where
  "notify_running e now n = sendJobNotification e now n JobRunningAlert (Some waited_long) (job_body None)"

definition notify_failure :: "('q, 'p, 't) alerting" where
  "notify_failure e now n = sendJobNotification e now n JobFailedAlert None (job_body None)"

definition notify_complete :: "('q, 'p, 't) alerting" where
  "notify_complete e now n = sendJobNotification e now n JobCompletedAlert None (job_body None)"

definition notify_DeleteJob :: "('q, 'p, 't) alerting" where
  "notify_DeleteJob e now n = sendJobNotification e now n LowGPUJobDeletedAlert None (job_body None)"

definition notify_CleanJob :: "('q, 'p, 't) alerting" where
  "notify_CleanJob e now n = sendJobNotification e now n LongTimeJobDeletedAlert None (job_body None)"

definition RemindLowUsageJob :: "time \<Rightarrow> ('q, 'p, 't) alerting" where
  "RemindLowUsageJob d e now n = sendJobNotification e now n LowGPUJobRemindedAlert None (job_body (Some d))"

definition RemindLongTimeRunningJob :: "time \<Rightarrow> ('q, 'p, 't) alerting" where
  "RemindLongTimeRunningJob d e now n = sendJobNotification e now n LongTimeJobRemindedAlert None (job_body (Some d))"

text \<open>
  The cleaner lets a message be sent again once a job has recovered.  Its error handling is
  the code's: a missing row is an error, any other failure of the query is not.
\<close>

definition allowRepeatAlert ::
  "alert_env \<Rightarrow> string \<Rightarrow> alert_type \<Rightarrow> ('q, 'p, 't) platform \<Rightarrow> fault \<times> ('q, 'p, 't) platform" where
  "allowRepeatAlert e n t s =
     (case ae_alertErr e of
        Some x \<Rightarrow> (None, s)
      | None \<Rightarrow> (case alert_for n t s of
          None \<Rightarrow> (Some ErrRecordNotFound, s)
        | Some a \<Rightarrow> (case ae_saveErr e of
            Some x \<Rightarrow> (Some x, s)
          | None \<Rightarrow> (None, s\<lparr>pf_alerts := tbl_updates (\<lambda>b. al_id b = al_id a)
              (\<lambda>_. a\<lparr>al_allowRepeat := True\<rparr>) (pf_alerts s)\<rparr>))))"

section \<open>How often a message is sent\<close>

text \<open>The table of alerts is keyed by its ids; a save changes the row it was read from.\<close>

definition alerts_ok :: "('q, 'p, 't) platform \<Rightarrow> bool" where
  "alerts_ok s \<longleftrightarrow> distinct (map al_id (pf_alerts s))"

lemma first_saved:
  "distinct (map al_id t) \<Longrightarrow> tbl_first P t = Some a \<Longrightarrow> P a' \<Longrightarrow>
   tbl_first P (tbl_updates (\<lambda>b. al_id b = al_id a) (\<lambda>_. a') t) = Some a'"
proof (induction t)
  case (Cons r t)
  then show ?case using tbl_first_Some [of P t a] by (fastforce simp: tbl_first_Cons split: if_splits)
qed simp

lemma first_saved_other:
  "distinct (map al_id t) \<Longrightarrow> a \<in> set t \<Longrightarrow> \<not> Q a \<Longrightarrow> \<not> Q a' \<Longrightarrow>
   tbl_first Q (tbl_updates (\<lambda>b. al_id b = al_id a) (\<lambda>_. a') t) = tbl_first Q t"
proof (induction t)
  case (Cons r t)
  show ?case
  proof (cases "a = r")
    case True
    have "tbl_updates (\<lambda>b. al_id b = al_id a) (\<lambda>_. a') t = t"
      using Cons.prems(1) True unfolding tbl_updates_def by (intro map_idI) (simp add: image_iff, metis)
    with True Cons.prems show ?thesis by (simp add: tbl_first_Cons)
  next
    case False
    with Cons.prems have "a \<in> set t" "al_id r \<noteq> al_id a" by force+
    with Cons show ?thesis by (simp add: tbl_first_Cons)
  qed
qed simp

lemma ids_saved:
  "al_id a' = al_id a \<Longrightarrow> map al_id (tbl_updates (\<lambda>b. al_id b = al_id a) (\<lambda>_. a') t) = map al_id t"
  by (induction t) auto

definition mails :: "string \<Rightarrow> alert_type \<Rightarrow> ('q, 'p, 't) platform \<Rightarrow> nat" where
  "mails n t s = length (filter (\<lambda>m. ml_subject m = t \<and> mb_jobName (ml_body m) = n) (pf_outbox s))"

definition sendable :: "string \<Rightarrow> alert_type \<Rightarrow> ('q, 'p, 't) platform \<Rightarrow> bool" where
  "sendable n t s = (case alert_for n t s of None \<Rightarrow> True | Some a \<Rightarrow> al_allowRepeat a)"

definition still_due :: "string \<Rightarrow> alert_type \<Rightarrow> ('q, 'p, 't) platform \<Rightarrow> nat" where
  "still_due n t s = mails n t s + (if sendable n t s then 1 else 0)"

lemma record_sent_ok:
  assumes "alerts_ok s" and "r = alert_for n t s" and "ae_createErr e = None" and "ae_saveErr e = None"
  shows "fst (record_sent e now n t r s) = None" and "alerts_ok (snd (record_sent e now n t r s))"
    and "pf_outbox (snd (record_sent e now n t r s)) = pf_outbox s"
    and "sendable n' t' (snd (record_sent e now n t r s)) = (if n' = n \<and> t' = t then False else sendable n' t' s)"
proof -
  note d = record_sent_def sendable_def alert_for_def alerts_ok_def
  show "fst (record_sent e now n t r s) = None" "pf_outbox (snd (record_sent e now n t r s)) = pf_outbox s"
    using assms by (auto simp: record_sent_def split: option.splits)
  show "alerts_ok (snd (record_sent e now n t r s))"
    using assms next_id_fresh [of "map al_id (pf_alerts s)"]
    by (auto simp: record_sent_def alerts_ok_def ids_saved split: option.splits)
  show "sendable n' t' (snd (record_sent e now n t r s)) = (if n' = n \<and> t' = t then False else sendable n' t' s)"
  proof (cases r)
    case None
    with assms show ?thesis by (auto simp: d tbl_first_append tbl_first_Cons split: option.splits)
  next
    case (Some a)
    define a' where "a' = a\<lparr>al_sendCount := al_sendCount a + 1, al_alertTimestamp := now, al_allowRepeat := False\<rparr>"
    let ?P = "\<lambda>n t a. al_jobName a = n \<and> al_alertType a = t"
    have f: "tbl_first (?P n t) (pf_alerts s) = Some a" using assms(2) Some by (simp add: alert_for_def)
    note a = tbl_first_Some [OF f]
    have out: "pf_alerts (snd (record_sent e now n t r s)) = tbl_updates (\<lambda>b. al_id b = al_id a) (\<lambda>_. a') (pf_alerts s)"
      using Some assms by (simp add: record_sent_def a'_def)
    have P': "?P n t a'" "\<not> al_allowRepeat a'" using a by (simp_all add: a'_def)
    show ?thesis
    proof (cases "n' = n \<and> t' = t")
      case True
      have "tbl_first (?P n t) (pf_alerts (snd (record_sent e now n t r s))) = Some a'"
        unfolding out by (rule first_saved) (use assms(1) f P' in \<open>simp_all add: alerts_ok_def\<close>)
      with True P' show ?thesis by (simp add: sendable_def alert_for_def)
    next
      case False
      have "tbl_first (?P n' t') (pf_alerts (snd (record_sent e now n t r s))) = tbl_first (?P n' t') (pf_alerts s)"
        unfolding out by (rule first_saved_other) (use assms(1) a P' False in \<open>auto simp: alerts_ok_def\<close>)
      with False show ?thesis by (auto simp: sendable_def alert_for_def)
    qed
  qed
qed

lemma getJobAlertInfo_name: "getJobAlertInfo e n s = Inr info \<Longrightarrow> ji_jobName info = n"
  by (auto simp: getJobAlertInfo_def job_named_def Let_def dest!: tbl_first_Some split: option.splits)

lemma sendJobNotification_due:
  assumes ok: "alerts_ok s" and w: "ae_createErr e = None" "ae_saveErr e = None"
    and s'_def: "s' = snd (sendJobNotification e now n t cond (job_body d) s)"
  shows "alerts_ok s' \<and> still_due n' t' s' \<le> still_due n' t' s"
proof (cases "s' = s")
  case False
  then obtain info where info: "ae_err e = None" "getJobAlertInfo e n s = Inr info" "ae_alertErr e = None"
    and snd: "sendable n t s" "fst (SendMessageTo e (ji_receiver info) t (job_body d info) s) = None"
    by (auto simp: s'_def sendJobNotification_def Let_def sendable_def SendMessageTo_def
        split: option.splits sum.splits if_splits)
  define s1 where "s1 = snd (SendMessageTo e (ji_receiver info) t (job_body d info) s)"
  have s': "s' = snd (record_sent e now n t (alert_for n t s) s1)"
    using False info snd by (auto simp: s'_def sendJobNotification_def Let_def sendable_def s1_def
        split: option.splits if_splits prod.splits)
  have name: "ji_jobName info = n" using info(2) by (rule getJobAlertInfo_name)
  have s1: "alerts_ok s1" "alert_for n t s = alert_for n t s1" "\<And>n t. sendable n t s1 = sendable n t s"
    using ok by (auto simp: s1_def SendMessageTo_def alerts_ok_def alert_for_def sendable_def split: option.splits)
  have "mails n' t' s1 \<le> mails n' t' s + (if n' = n \<and> t' = t then 1 else 0)"
    using name by (auto simp: s1_def SendMessageTo_def mails_def job_body_def split: option.splits)
  with record_sent_ok [OF s1(1,2) w] s1(3) snd(1) show ?thesis
    by (auto simp: s' still_due_def mails_def)
qed (use ok in simp)

lemma allowRepeat_due:
  assumes ok: "alerts_ok s"
    and s'_def: "s' = snd (allowRepeatAlert e n t s)"
  shows "alerts_ok s' \<and> still_due n' t' s' \<le> still_due n' t' s + (if n' = n \<and> t' = t then 1 else 0)"
proof (cases "s' = s")
  case False
  then obtain a where f: "tbl_first (\<lambda>a. al_jobName a = n \<and> al_alertType a = t) (pf_alerts s) = Some a"
    and s': "s' = s\<lparr>pf_alerts := tbl_updates (\<lambda>b. al_id b = al_id a) (\<lambda>_. a\<lparr>al_allowRepeat := True\<rparr>) (pf_alerts s)\<rparr>"
    by (auto simp: s'_def allowRepeatAlert_def alert_for_def split: option.splits)
  have m: "mails n' t' s' = mails n' t' s" by (simp add: mails_def s')
  have "sendable n' t' s' = sendable n' t' s" if "\<not> (n' = n \<and> t' = t)"
    using first_saved_other [of "pf_alerts s" a "\<lambda>a. al_jobName a = n' \<and> al_alertType a = t'" "a\<lparr>al_allowRepeat := True\<rparr>"]
      tbl_first_Some [OF f] ok that by (auto simp: sendable_def alert_for_def s' alerts_ok_def)
  with m ok show ?thesis by (auto simp: still_due_def s' alerts_ok_def ids_saved)
qed (use ok in simp)

text \<open>What a notification leaves alone.\<close>

lemma record_sent_frame [simp]:
  "pf_vcjobs (snd (record_sent e now n t r s)) = pf_vcjobs s"
  "pf_jobs (snd (record_sent e now n t r s)) = pf_jobs s"
  "pf_pods (snd (record_sent e now n t r s)) = pf_pods s"
  "pf_outbox (snd (record_sent e now n t r s)) = pf_outbox s"
  by (auto simp: record_sent_def split: option.splits)

lemma SendMessageTo_frame [simp]:
  "pf_vcjobs (snd (SendMessageTo e r t b s)) = pf_vcjobs s"
  "pf_jobs (snd (SendMessageTo e r t b s)) = pf_jobs s"
  "pf_pods (snd (SendMessageTo e r t b s)) = pf_pods s"
  by (auto simp: SendMessageTo_def split: option.splits)

lemma sendJobNotification_cases:
  "snd (sendJobNotification e now n t cond f s) = s \<or>
   (\<exists>info. getJobAlertInfo e n s = Inr info \<and>
      (let s1 = snd (SendMessageTo e (ji_receiver info) t (f info) s) in
        snd (sendJobNotification e now n t cond f s) = s1 \<or>
        snd (sendJobNotification e now n t cond f s) = snd (record_sent e now n t (alert_for n t s) s1)))"
proof (cases "ae_err e")
  case None
  show ?thesis
  proof (cases "getJobAlertInfo e n s")
    case (Inr info)
    obtain x s1 where "SendMessageTo e (ji_receiver info) t (f info) s = (x, s1)" by (cases "SendMessageTo e (ji_receiver info) t (f info) s")
    with None Inr show ?thesis by (cases x) (simp_all add: sendJobNotification_def Let_def split: option.split)
  qed (simp add: sendJobNotification_def None)
qed (simp add: sendJobNotification_def)

lemma sendJobNotification_frame [simp]:
  "pf_vcjobs (snd (sendJobNotification e now n t cond f s)) = pf_vcjobs s"
  "pf_jobs (snd (sendJobNotification e now n t cond f s)) = pf_jobs s"
  "pf_pods (snd (sendJobNotification e now n t cond f s)) = pf_pods s"
  using sendJobNotification_cases [of e now n t cond f s] by (auto simp: Let_def)

lemma SendMessageTo_mails:
  "mails n' t' (snd (SendMessageTo e r t b s)) \<le> mails n' t' s + (if n' = mb_jobName b \<and> t' = t then 1 else 0)"
  "n' \<noteq> mb_jobName b \<Longrightarrow> mails n' t' (snd (SendMessageTo e r t b s)) = mails n' t' s"
  by (auto simp: SendMessageTo_def mails_def split: option.splits)

lemma mails_cong: "pf_outbox s' = pf_outbox s \<Longrightarrow> mails n t s' = mails n t s"
  by (simp add: mails_def)

lemma job_body_name [simp]: "mb_jobName (job_body d info) = ji_jobName info"
  by (simp add: job_body_def)

lemma sendJobNotification_mails:
  "n' \<noteq> n \<Longrightarrow> mails n' t' (snd (sendJobNotification e now n t cond (job_body d) s)) = mails n' t' s"
  using sendJobNotification_cases [of e now n t cond "job_body d" s]
  by (auto simp: Let_def SendMessageTo_mails getJobAlertInfo_name mails_cong [OF record_sent_frame(4)])

lemma allowRepeatAlert_frame [simp]:
  "pf_vcjobs (snd (allowRepeatAlert e n t s)) = pf_vcjobs s"
  "pf_jobs (snd (allowRepeatAlert e n t s)) = pf_jobs s"
  "pf_outbox (snd (allowRepeatAlert e n t s)) = pf_outbox s"
  by (auto simp: allowRepeatAlert_def split: option.splits)

lemmas notify_defs = notify_running_def notify_failure_def notify_complete_def notify_DeleteJob_def notify_CleanJob_def
  RemindLowUsageJob_def RemindLongTimeRunningJob_def

datatype alert_step =
    Notify alert_env time string alert_type "(job_information \<Rightarrow> bool) option" "time option"
  | Repeat alert_env string alert_type

primrec alert_step_run :: "alert_step \<Rightarrow> ('q, 'p, 't) platform \<Rightarrow> ('q, 'p, 't) platform" where
  "alert_step_run (Notify e now n t cond d) s = snd (sendJobNotification e now n t cond (job_body d) s)"
| "alert_step_run (Repeat e n t) s = snd (allowRepeatAlert e n t s)"

primrec recorded :: "alert_step \<Rightarrow> bool" where
  "recorded (Notify e now n t cond d) = (ae_createErr e = None \<and> ae_saveErr e = None)"
| "recorded (Repeat e n t) = True"

primrec reopens :: "string \<Rightarrow> alert_type \<Rightarrow> alert_step \<Rightarrow> bool" where
  "reopens n' t' (Notify e now n t cond d) = False"
| "reopens n' t' (Repeat e n t) = (n' = n \<and> t' = t)"

lemma alert_run_due:
  "alerts_ok s \<Longrightarrow> list_all recorded steps \<Longrightarrow>
   alerts_ok (fold alert_step_run steps s) \<and>
   still_due n t (fold alert_step_run steps s) \<le> still_due n t s + length (filter (reopens n t) steps)"
proof (induction steps arbitrary: s)
  case (Cons x steps)
  have "alerts_ok (alert_step_run x s) \<and>
      still_due n t (alert_step_run x s) \<le> still_due n t s + (if reopens n t x then 1 else 0)"
  proof (cases x)
    case (Notify e now n' t' cond d)
    with Cons.prems sendJobNotification_due [where s = s and n' = n and t' = t, OF _ _ _ refl, of e now n' t' cond d] show ?thesis by simp
  next
    case (Repeat e n' t')
    with allowRepeat_due [where n' = n and t' = t, OF Cons.prems(1) refl, of e n' t'] show ?thesis by simp
  qed
  with Cons.IH [of "alert_step_run x s"] Cons.prems(2) show ?case by fastforce
qed simp

text \<open>Claim C35. A message of one kind about one job goes out at most once, plus once more for every
  time the cleaner has allowed a repeat: over any sequence of notifications and resets whose writes
  to the alert table succeed (sending itself, the queries and the conditions may fail at will), the
  number of messages sent is at most one, plus the number of resets of that kind and job.\<close>

theorem notifications_bounded:
  assumes "alerts_ok s" and "list_all recorded steps"
  shows "mails n t (fold alert_step_run steps s) \<le>
    mails n t s + (if sendable n t s then 1 else 0) + length (filter (reopens n t) steps)"
  using alert_run_due [OF assms, of n t] by (simp add: still_due_def)

definition sample_job :: "(int, unit, unit) job" where
  "sample_job = \<lparr>jb_id = 1, jb_name = ''train'', jb_jobName = ''job-1'', jb_userID = 3, jb_accountID = 2,
     jb_jobType = ''pytorch'', jb_status = PhaseRunning, jb_creationTimestamp = 10, jb_runningTimestamp = 20,
     jb_completedTimestamp = 0, jb_nodes = [], jb_resources = [],
     jb_attributes = \<lparr>vj_name = ''job-1'', vj_namespace = ''ns'', vj_labels = [], vj_annotations = [],
       vj_creationTimestamp = 10, vj_queue = ''q'', vj_tasks = [], vj_phase = PhaseRunning, vj_conditions = []\<rparr>,
     jb_template = [], jb_alertEnabled = True, jb_reminded = False, jb_keepWhenLowResourceUsage = False,
     jb_lockedTimestamp = 0, jb_profileData = None, jb_scheduleData = None, jb_events = None,
     jb_terminatedStates = None\<rparr>"

definition sample_platform :: "(int, unit, unit) platform" where
  "sample_platform = \<lparr>pf_jobs = [sample_job],
     pf_users = [\<lparr>us_id = 3, us_createdAt = 0, us_name = ''alice'', us_nickname = ''Al'', us_password = None, us_role = RoleUser, us_status = StatusActive,
       us_space = ''/a'', us_imageQuota = -1, us_lastEmailVerifiedAt = None,
       us_attributes = no_attributes\<lparr>at_name := ''alice'', at_nickname := ''Al'', at_email := Some ''a@x''\<rparr>\<rparr>],
     pf_accounts = [], pf_alerts = [], pf_orders = [], pf_vcjobs = [jb_attributes sample_job], pf_pods = [], pf_outbox = []\<rparr>"

definition quiet_alerts :: alert_env where
  "quiet_alerts = \<lparr>ae_err = None, ae_host = ''h'', ae_jobErr = None, ae_alertErr = None, ae_dialErr = None,
     ae_createErr = None, ae_saveErr = None\<rparr>"

lemma notifications_bounded_witness:
  "mails ''job-1'' JobFailedAlert (fold alert_step_run
     [Notify quiet_alerts 30 ''job-1'' JobFailedAlert None None, Notify quiet_alerts 40 ''job-1'' JobFailedAlert None None]
     sample_platform) \<le> 1"
  using notifications_bounded [of sample_platform
      "[Notify quiet_alerts 30 ''job-1'' JobFailedAlert None None, Notify quiet_alerts 40 ''job-1'' JobFailedAlert None None]"
      "''job-1''" JobFailedAlert]
  by (simp add: alerts_ok_def sample_platform_def quiet_alerts_def mails_def sendable_def alert_for_def)

end
