(* ===== verification/Vcjob_Reconciler.thy ===== *)
theory Vcjob_Reconciler imports Alerts begin

text \<open>
  The reconciler that copies the state of Volcano jobs into the job table,
  \<open>pkg/reconciler/vcjob-reconciler.go\<close> and \<open>vcjob-util.go\<close>, with the parser of image-pull messages
  in \<open>dao/model/job.go\<close>.  One call handles one job name: it creates the row, updates it from the
  job, or marks it when the job has left the cluster.  Prometheus, the events of the cluster and the
  failures of all calls are the environment.
\<close>

section \<open>Image-pull messages\<close>

text \<open>
  The two regular expressions of the code.  The first is \<open>\((.*?) including waiting\)\<close>: from the
  leftmost parenthesis that has a match, the shortest text on its line; the second is
  \<open>Image size: (\d+) bytes\<close>.  Both give the first group of the leftmost match.
\<close>

fun upto_match :: "string \<Rightarrow> string \<Rightarrow> string option" where
  "upto_match p [] = (if p = [] then Some [] else None)"
| "upto_match p (c # s) =
     (if starts_with p (c # s) then Some []
      else if c = CHR 0x0A then None
      else map_option ((#) c) (upto_match p s))"

fun match_waiting :: "string \<Rightarrow> string option" where
  "match_waiting [] = None"
| "match_waiting (c # s) =
     (if c = CHR ''('' then (case upto_match '' including waiting)'' s of Some g \<Rightarrow> Some g | None \<Rightarrow> match_waiting s)
      else match_waiting s)"

fun match_size :: "string \<Rightarrow> string option" where
  "match_size [] = None"
| "match_size (c # s) =
     (let rest = drop 12 (c # s); ds = takeWhile is_digit rest in
      if starts_with ''Image size: '' (c # s) \<and> ds \<noteq> [] \<and> starts_with '' bytes'' (dropWhile is_digit rest)
      then Some ds else match_size s)"

definition ScheduleData_Init :: "string \<Rightarrow> schedule_data result" where
  "ScheduleData_Init msg =
     (if str_contains msg ''already present on machine'' then Inr \<lparr>sd_imagePullTime = ''0s'', sd_imageSize = None\<rparr>
      else if \<not> str_contains msg ''Successfully pulled image'' then Inl ''not a image pull event''
      else Inr \<lparr>sd_imagePullTime = (case match_waiting msg of None \<Rightarrow> [] | Some g \<Rightarrow> g), sd_imageSize = match_size msg\<rparr>)"

section \<open>Pods, events and terminated states of a job\<close>

definition pod_name :: "'q vc_job \<Rightarrow> 'q vc_task \<Rightarrow> nat \<Rightarrow> string" where
  "pod_name job task i = vj_name job @ ''-'' @ vt_name task @ ''-'' @ fmt_uint i"

definition getPodNameFromJobTemplate :: "'q vc_job \<Rightarrow> string" where
  "getPodNameFromJobTemplate job =
     (case find (\<lambda>t. 0 < vt_replicas t) (vj_tasks job) of None \<Rightarrow> [] | Some t \<Rightarrow> pod_name job t 0)"

definition getPodNamesFromJobTemplate :: "'q vc_job \<Rightarrow> string list" where
  "getPodNamesFromJobTemplate job =
     concat (map (\<lambda>t. map (pod_name job t) [0 ..< nat (vt_replicas t)]) (vj_tasks job))"

record ('p, 't) reconcile_env =
  rc_getErr :: fault
  rc_firstErr :: fault
  rc_createErr :: fault
  rc_updateErr :: fault
  rc_userErr :: fault
  rc_queueErr :: fault
  rc_now :: time
  rc_ns :: string
  rc_profile :: "string \<Rightarrow> string \<Rightarrow> time \<Rightarrow> 'p option"
  rc_podErr :: "string \<Rightarrow> fault"
  rc_livePodErr :: "string \<Rightarrow> fault"
  rc_events :: "string \<Rightarrow> string \<Rightarrow> event list result"
  rc_alert :: alert_env

abbreviation (input) MaxJobEvents :: nat where "MaxJobEvents \<equiv> 20"

text \<open>The events are kept in a map by UID; the order in which the map is read is the list's.\<close>

definition getNewEventsForJob ::
  "('p, 't) reconcile_env \<Rightarrow> 'q vc_job \<Rightarrow> ('q, 'p, 't) job \<Rightarrow> event list" where
  "getNewEventsForJob e job old =
     (let podNames = getPodNamesFromJobTemplate job in
      if podNames = [] then []
      else
        (let oldEvents = (case jb_events old of None \<Rightarrow> [] | Some es \<Rightarrow> es);
             allEvents = concat (map (\<lambda>n. case rc_events e (vj_namespace job) n of Inl x \<Rightarrow> [] | Inr es \<Rightarrow> es) podNames)
         in if allEvents = [] then []
            else
              (let m0 = fold (\<lambda>ev m. gm_put (ev_uid ev) ev m) oldEvents [];
                   m1 = fold (\<lambda>ev m. if gm_get m (ev_uid ev) = None then gm_put (ev_uid ev) ev m else m) allEvents m0;
                   events = sort_key (\<lambda>ev. - ev_lastTimestamp ev) (map snd m1)
               in take MaxJobEvents events)))"

definition getTerminatedStates ::
  "('p, 't) reconcile_env \<Rightarrow> 'q vc_job \<Rightarrow> ('q, 'p, 't) job \<Rightarrow> ('q, 'p, 't) platform \<Rightarrow> 't list" where
  "getTerminatedStates e job old s =
     (if jb_terminatedStates old \<noteq> None then []
      else concat (map (\<lambda>n. case (rc_livePodErr e n, find_vcpod (vj_namespace job) n s) of
          (None, Some p) \<Rightarrow> List.map_filter id (vp_containerStatuses p)
        | _ \<Rightarrow> []) (getPodNamesFromJobTemplate job)))"

section \<open>Creating a row\<close>

definition job_resources :: "('q, 'm) quantity_ops_scheme \<Rightarrow> 'q vc_task list \<Rightarrow> 'q resource_list" where
  "job_resources Q tasks =
     fold (\<lambda>task resources.
       fold (\<lambda>requests resources.
         fold (\<lambda>(name, quantity) resources.
           (case gm_get resources name of
              None \<Rightarrow> gm_put name (q_mul Q quantity (vt_replicas task)) resources
            | Some v \<Rightarrow> gm_put name (q_add Q v (q_mul Q quantity (vt_replicas task))) resources))
           requests resources) (vt_containers task) resources) tasks []"

text \<open>\<open>strconv.ParseBool\<close>; a missing annotation reads as the empty string, which it refuses.\<close>

definition parse_bool :: "string \<Rightarrow> bool option" where
  "parse_bool s =
     (if s \<in> set [''1'', ''t'', ''T'', ''true'', ''TRUE'', ''True''] then Some True
      else if s \<in> set [''0'', ''f'', ''F'', ''false'', ''FALSE'', ''False''] then Some False
      else None)"

definition map_value :: "(string, string) gomap \<Rightarrow> string \<Rightarrow> string" where
  "map_value m k = (case gm_get m k of None \<Rightarrow> [] | Some v \<Rightarrow> v)"

definition generateCreateJobModel ::
  "('q, 'm) quantity_ops_scheme \<Rightarrow> ('p, 't) reconcile_env \<Rightarrow> 'q vc_job \<Rightarrow> ('q, 'p, 't) platform \<Rightarrow>
   ('q, 'p, 't) job result" where
  "generateCreateJobModel Q e job s =
     (let uname = map_value (vj_labels job) ''crater.raids.io/task-user'' in
      case (rc_userErr e, tbl_first (\<lambda>u. us_name u = uname) (pf_users s)) of
        (None, Some user) \<Rightarrow>
          (case (rc_queueErr e, tbl_first (\<lambda>a. ac_name a = vj_queue job) (pf_accounts s)) of
             (None, Some queue) \<Rightarrow>
               Inr \<lparr>jb_id = next_id (map jb_id (pf_jobs s)),
                    jb_name = map_value (vj_annotations job) ''crater.raids.io/task-name'',
                    jb_jobName = vj_name job, jb_userID = us_id user, jb_accountID = ac_id queue,
                    jb_jobType = map_value (vj_labels job) ''crater.raids.io/task-type'',
                    jb_status = vj_phase job, jb_creationTimestamp = vj_creationTimestamp job,
                    jb_runningTimestamp = 0, jb_completedTimestamp = 0, jb_nodes = [],
                    jb_resources = job_resources Q (vj_tasks job), jb_attributes = job,
                    jb_template = map_value (vj_annotations job) ''crater.raids.io/task-template'',
                    jb_alertEnabled = (case parse_bool (map_value (vj_annotations job) ''crater.raids.io/alert-enabled'') of
                        None \<Rightarrow> True | Some b \<Rightarrow> b),
                    jb_reminded = False, jb_keepWhenLowResourceUsage = False, jb_lockedTimestamp = 0,
                    jb_profileData = None, jb_scheduleData = None, jb_events = None, jb_terminatedStates = None\<rparr>
           | _ \<Rightarrow> Inl (''unable to get queue '' @ vj_queue job))
      | _ \<Rightarrow> Inl (''unable to get user '' @ uname))"

section \<open>Updating a row\<close>

text \<open>
  What an update carries.  \<open>Updates\<close> with a struct writes the fields that are not zero: an empty
  status, a zero time and an unset value leave the column alone.
\<close>

record ('p, 't) job_patch =
  jp_status :: string
  jp_runningTimestamp :: time
  jp_completedTimestamp :: time
  jp_nodes :: "string list option"
  jp_profileData :: "'p option option"
  jp_scheduleData :: "schedule_data option"
  jp_events :: "event list option"
  jp_terminatedStates :: "'t list option"

definition no_patch :: "('p, 't) job_patch" where
  "no_patch = \<lparr>jp_status = [], jp_runningTimestamp = 0, jp_completedTimestamp = 0, jp_nodes = None,
     jp_profileData = None, jp_scheduleData = None, jp_events = None, jp_terminatedStates = None\<rparr>"

definition apply_patch :: "('p, 't) job_patch \<Rightarrow> ('q, 'p, 't) job \<Rightarrow> ('q, 'p, 't) job" where
  "apply_patch p j = j\<lparr>
     jb_status := (if jp_status p = [] then jb_status j else jp_status p),
     jb_runningTimestamp := (if jp_runningTimestamp p = 0 then jb_runningTimestamp j else jp_runningTimestamp p),
     jb_completedTimestamp := (if jp_completedTimestamp p = 0 then jb_completedTimestamp j else jp_completedTimestamp p),
     jb_nodes := (case jp_nodes p of None \<Rightarrow> jb_nodes j | Some ns \<Rightarrow> ns),
     jb_profileData := (case jp_profileData p of None \<Rightarrow> jb_profileData j | Some d \<Rightarrow> Some d),
     jb_scheduleData := (case jp_scheduleData p of None \<Rightarrow> jb_scheduleData j | Some d \<Rightarrow> Some d),
     jb_events := (case jp_events p of None \<Rightarrow> jb_events j | Some d \<Rightarrow> Some d),
     jb_terminatedStates := (case jp_terminatedStates p of None \<Rightarrow> jb_terminatedStates j | Some d \<Rightarrow> Some d)\<rparr>"

text \<open>The two times of the conditions: the last one of each group wins.\<close>

definition condition_times :: "vc_condition list \<Rightarrow> time \<times> time" where
  "condition_times cs =
     fold (\<lambda>c (r, f).
       if cd_status c = PhaseRunning then (cd_lastTransitionTime c, f)
       else if cd_status c \<in> set [PhaseCompleted, PhaseFailed, PhaseAborted, PhaseTerminated] then (r, cd_lastTransitionTime c)
       else (r, f)) cs (0, 0)"

definition running_nodes :: "('p, 't) reconcile_env \<Rightarrow> 'q vc_job \<Rightarrow> ('q, 'p, 't) platform \<Rightarrow> string list" where
  "running_nodes e job s =
     concat (map (\<lambda>n. case (rc_podErr e n, find_vcpod (rc_ns e) n s) of
         (None, Some p) \<Rightarrow> if vp_phase p = PhaseRunning then [vp_nodeName p] else []
       | _ \<Rightarrow> []) (getPodNamesFromJobTemplate job))"

definition non_empty :: "'a list \<Rightarrow> 'a list option" where
  "non_empty xs = (if xs = [] then None else Some xs)"

primrec first_schedule_data :: "event list \<Rightarrow> schedule_data option" where
  "first_schedule_data [] = None"
| "first_schedule_data (ev # evs) =
     (if ev_reason ev = ''Pulled'' then
        (case ScheduleData_Init (ev_message ev) of Inr d \<Rightarrow> Some d | Inl x \<Rightarrow> first_schedule_data evs)
      else first_schedule_data evs)"

definition generateUpdateJobModel ::
  "('p, 't) reconcile_env \<Rightarrow> 'q vc_job \<Rightarrow> ('q, 'p, 't) job \<Rightarrow> ('q, 'p, 't) platform \<Rightarrow> ('p, 't) job_patch" where
  "generateUpdateJobModel e job old s =
     (let (runningTimestamp, completedTimestamp) = condition_times (vj_conditions job);
          nodes = running_nodes e job s;
          p = no_patch\<lparr>jp_status := vj_phase job, jp_runningTimestamp := runningTimestamp,
                jp_completedTimestamp := completedTimestamp\<rparr>
      in if nodes = [] then
           if completedTimestamp = 0 then p
           else
             (let profile = (if jb_profileData old = None
                      then rc_profile e (vj_namespace job) (getPodNameFromJobTemplate job) runningTimestamp else None);
                  failed = (vj_phase job = PhaseFailed)
              in p\<lparr>jp_profileData := map_option Some profile,
                   jp_events := (if failed then non_empty (getNewEventsForJob e job old) else None),
                   jp_terminatedStates := (if failed then non_empty (getTerminatedStates e job old s) else None)\<rparr>)
         else if vj_phase job = PhaseRunning then
           (let events = getNewEventsForJob e job old
            in p\<lparr>jp_nodes := Some nodes, jp_scheduleData := first_schedule_data events, jp_events := non_empty events\<rparr>)
         else p\<lparr>jp_nodes := Some nodes\<rparr>)"

section \<open>Reconciling one job\<close>

text \<open>A call answers whether to try again and with which error.\<close>

type_synonym outcome = "bool \<times> fault"

definition terminal_phase :: "string \<Rightarrow> bool" where
  "terminal_phase ph \<longleftrightarrow>
     ph \<in> set [PhaseDeleted, PhaseFreed, PhaseFailed, PhaseCompleted, PhaseAborted, PhaseTerminated]"

definition reconcile_gone ::
  "('p, 't) reconcile_env \<Rightarrow> string \<Rightarrow> ('q, 'p, 't) platform \<Rightarrow> outcome \<times> ('q, 'p, 't) platform" where
  "reconcile_gone e n s =
     (case rc_firstErr e of
        Some x \<Rightarrow> ((True, Some x), s)
      | None \<Rightarrow> (case job_named n s of
          None \<Rightarrow> ((False, None), s)
        | Some rec \<Rightarrow>
            let profile = rc_profile e (rc_ns e) (getPodNameFromJobTemplate (jb_attributes rec)) (jb_runningTimestamp rec)
            in if terminal_phase (jb_status rec) then
                 if jb_profileData rec = None then
                   (case rc_updateErr e of
                      Some x \<Rightarrow> ((True, Some x), s)
                    | None \<Rightarrow> ((False, None), update_job_named n (apply_patch (no_patch\<lparr>jp_profileData := Some profile\<rparr>)) s))
                 else ((False, None), s)
               else
                 (case rc_updateErr e of
                    Some x \<Rightarrow> ((True, Some x), s)
                  | None \<Rightarrow> ((False, None), update_job_named n (apply_patch (no_patch\<lparr>jp_status := PhaseFreed,
                      jp_completedTimestamp := rc_now e, jp_profileData := Some profile\<rparr>)) s))))"

definition send_transition_alerts ::
  "('p, 't) reconcile_env \<Rightarrow> string \<Rightarrow> string \<Rightarrow> string \<Rightarrow> ('q, 'p, 't) platform \<Rightarrow> ('q, 'p, 't) platform" where
  "send_transition_alerts e n ph oldph s =
     (let a = rc_alert e; now = rc_now e;
          s1 = (if ph = PhaseRunning \<and> oldph \<noteq> PhaseRunning then snd (notify_running a now n s) else s);
          s2 = (if ph = PhaseFailed \<and> oldph \<noteq> PhaseFailed then snd (notify_failure a now n s1) else s1)
      in (if ph = PhaseCompleted \<and> oldph \<noteq> PhaseCompleted then snd (notify_complete a now n s2) else s2))"

definition Reconcile ::
  "('q, 'm) quantity_ops_scheme \<Rightarrow> ('p, 't) reconcile_env \<Rightarrow> string \<Rightarrow> string \<Rightarrow> ('q, 'p, 't) platform \<Rightarrow>
   outcome \<times> ('q, 'p, 't) platform" where
  "Reconcile Q e ns n s =
     (case rc_getErr e of
        Some x \<Rightarrow> ((False, None), s)
      | None \<Rightarrow> (case find_vcjob ns n s of
          None \<Rightarrow> reconcile_gone e n s
        | Some job \<Rightarrow> (case rc_firstErr e of
            Some x \<Rightarrow> ((True, Some x), s)
          | None \<Rightarrow> (case job_named (vj_name job) s of
              None \<Rightarrow> (case generateCreateJobModel Q e job s of
                  Inl x \<Rightarrow> ((False, Some x), s)
                | Inr row \<Rightarrow> (case rc_createErr e of
                    Some x \<Rightarrow> ((True, Some x), s)
                  | None \<Rightarrow> ((False, None), s\<lparr>pf_jobs := pf_jobs s @ [row]\<rparr>)))
            | Some old \<Rightarrow>
                let s1 = (if jb_alertEnabled old then send_transition_alerts e (vj_name job) (vj_phase job) (jb_status old) s else s);
                    p = generateUpdateJobModel e job old s1
                in (case rc_updateErr e of
                    Some x \<Rightarrow> ((True, Some x), s1)
                  | None \<Rightarrow> ((False, None), update_job_named (vj_name job) (apply_patch p) s1))))))"

section \<open>What a call keeps\<close>

text \<open>
  The part of a row that no call changes, and the history that no call erases: once set, a start or
  completion time, the nodes, the profile, the events and the terminated states stay set.
\<close>

definition same_identity :: "('q, 'p, 't) job \<Rightarrow> ('q, 'p, 't) job \<Rightarrow> bool" where
  "same_identity a b \<longleftrightarrow>
     (jb_id b, jb_name b, jb_jobName b, jb_userID b, jb_accountID b, jb_jobType b) =
       (jb_id a, jb_name a, jb_jobName a, jb_userID a, jb_accountID a, jb_jobType a) \<and>
     (jb_creationTimestamp b, jb_resources b, jb_attributes b, jb_template b, jb_alertEnabled b) =
       (jb_creationTimestamp a, jb_resources a, jb_attributes a, jb_template a, jb_alertEnabled a) \<and>
     (jb_reminded b, jb_keepWhenLowResourceUsage b, jb_lockedTimestamp b) =
       (jb_reminded a, jb_keepWhenLowResourceUsage a, jb_lockedTimestamp a)"

definition keeps_history :: "('q, 'p, 't) job \<Rightarrow> ('q, 'p, 't) job \<Rightarrow> bool" where
  "keeps_history a b \<longleftrightarrow>
     (jb_status a \<noteq> [] \<longrightarrow> jb_status b \<noteq> []) \<and>
     (jb_runningTimestamp a \<noteq> 0 \<longrightarrow> jb_runningTimestamp b \<noteq> 0) \<and>
     (jb_completedTimestamp a \<noteq> 0 \<longrightarrow> jb_completedTimestamp b \<noteq> 0) \<and>
     (jb_nodes a \<noteq> [] \<longrightarrow> jb_nodes b \<noteq> []) \<and>
     (jb_profileData a \<noteq> None \<longrightarrow> jb_profileData b \<noteq> None) \<and>
     (jb_scheduleData a \<noteq> None \<longrightarrow> jb_scheduleData b \<noteq> None) \<and>
     (jb_events a \<noteq> None \<longrightarrow> jb_events b \<noteq> None) \<and>
     (jb_terminatedStates a \<noteq> None \<longrightarrow> jb_terminatedStates b = jb_terminatedStates a)"

definition patch_ok :: "('p, 't) job_patch \<Rightarrow> ('q, 'p, 't) job \<Rightarrow> bool" where
  "patch_ok p j \<longleftrightarrow> jp_nodes p \<noteq> Some [] \<and> (jb_terminatedStates j \<noteq> None \<longrightarrow> jp_terminatedStates p = None)"

lemma apply_patch_identity: "same_identity j (apply_patch p j)"
  by (simp add: same_identity_def apply_patch_def)

lemma apply_patch_history: "patch_ok p j \<Longrightarrow> keeps_history j (apply_patch p j)"
  by (auto simp: keeps_history_def apply_patch_def patch_ok_def split: option.splits)

lemma apply_patch_name [simp]: "jb_jobName (apply_patch p j) = jb_jobName j"
  by (simp add: apply_patch_def)

lemma same_identity_refl [simp]: "same_identity a a" and keeps_history_refl [simp]: "keeps_history a a"
  by (simp_all add: same_identity_def keeps_history_def)

lemma same_identity_trans: "same_identity a b \<Longrightarrow> same_identity b c \<Longrightarrow> same_identity a c"
  by (simp add: same_identity_def)

lemma keeps_history_trans: "keeps_history a b \<Longrightarrow> keeps_history b c \<Longrightarrow> keeps_history a c"
  unfolding keeps_history_def by metis

lemma job_named_update:
  assumes "\<And>j. jb_jobName (f j) = jb_jobName j"
  shows "job_named m (update_job_named n f s) = (if m = n then map_option f (job_named n s) else job_named m s)"
proof (cases "m = n")
  case True
  then show ?thesis using tbl_first_updates_same [of "\<lambda>j. jb_jobName j = n" f "pf_jobs s"] assms
    by (simp add: job_named_def update_job_named_def)
next
  case False
  then show ?thesis using tbl_first_updates_other [of "\<lambda>j. jb_jobName j = m" f "\<lambda>j. jb_jobName j = n" "pf_jobs s"] assms
    by (simp add: job_named_def update_job_named_def)
qed

lemma names_update:
  "(\<And>j. jb_jobName (f j) = jb_jobName j) \<Longrightarrow> map jb_jobName (pf_jobs (update_job_named n f s)) = map jb_jobName (pf_jobs s)"
  by (simp add: update_job_named_def tbl_updates_def comp_def)

lemma job_named_cong: "pf_jobs s' = pf_jobs s \<Longrightarrow> job_named n s' = job_named n s"
  by (simp add: job_named_def)

lemma job_named_name: "job_named n s = Some j \<Longrightarrow> jb_jobName j = n"
  by (auto simp: job_named_def dest: tbl_first_Some)

lemma find_vcjob_name: "find_vcjob ns n s = Some j \<Longrightarrow> vj_name j = n"
  by (auto simp: find_vcjob_def find_Some_iff)

lemma alerts_frame [simp]:
  "pf_jobs (send_transition_alerts e n ph oldph s) = pf_jobs s"
  "pf_vcjobs (send_transition_alerts e n ph oldph s) = pf_vcjobs s"
  "pf_pods (send_transition_alerts e n ph oldph s) = pf_pods s"
  by (simp_all add: send_transition_alerts_def Let_def notify_defs)

lemma update_patch_ok: "patch_ok (generateUpdateJobModel e job old s) old"
  by (auto simp: patch_ok_def generateUpdateJobModel_def no_patch_def getTerminatedStates_def non_empty_def Let_def split_def)

lemma reconcile_gone_cases:
  "pf_jobs (snd (reconcile_gone e n s)) = pf_jobs s \<or>
   (\<exists>p old. job_named n s = Some old \<and> patch_ok p old \<and>
      pf_jobs (snd (reconcile_gone e n s)) = pf_jobs (update_job_named n (apply_patch p) s))"
proof (cases "rc_firstErr e = None \<and> rc_updateErr e = None \<and> job_named n s \<noteq> None")
  case True
  then obtain old where old: "job_named n s = Some old" by auto
  define d where "d = Some (rc_profile e (rc_ns e) (getPodNameFromJobTemplate (jb_attributes old)) (jb_runningTimestamp old))"
  define p q :: "('b, 'c) job_patch" where "p = no_patch\<lparr>jp_profileData := d\<rparr>"
    and "q = no_patch\<lparr>jp_status := PhaseFreed, jp_completedTimestamp := rc_now e, jp_profileData := d\<rparr>"
  have ok: "patch_ok p old" "patch_ok q old" by (simp_all add: p_def q_def patch_ok_def no_patch_def)
  have "snd (reconcile_gone e n s) = s \<or> snd (reconcile_gone e n s) = update_job_named n (apply_patch p) s \<or>
      snd (reconcile_gone e n s) = update_job_named n (apply_patch q) s"
    using True by (simp add: reconcile_gone_def Let_def old p_def q_def d_def)
  with ok old show ?thesis by metis
qed (auto simp: reconcile_gone_def Let_def split: option.splits)

text \<open>A call leaves the rows, appends one whose name is new, or patches the rows of one name.\<close>

lemma Reconcile_cases:
  obtains (same) "pf_jobs (snd (Reconcile Q e ns n s)) = pf_jobs s"
  | (create) row where "job_named n s = None" and "jb_jobName row = n"
      and "pf_jobs (snd (Reconcile Q e ns n s)) = pf_jobs s @ [row]"
  | (patch) p old where "job_named n s = Some old" and "patch_ok p old"
      and "pf_jobs (snd (Reconcile Q e ns n s)) = pf_jobs (update_job_named n (apply_patch p) s)"
proof (cases "rc_getErr e")
  case None
  show thesis
  proof (cases "find_vcjob ns n s")
    case gone: None
    then have eq: "Reconcile Q e ns n s = reconcile_gone e n s" using None by (simp add: Reconcile_def)
    show thesis
      using reconcile_gone_cases [of e n s] same patch unfolding eq by blast
  next
    case (Some job)
    then have n: "vj_name job = n" by (rule find_vcjob_name)
    show thesis
    proof (cases "job_named n s")
      case no: None
      show thesis
      proof (cases "\<exists>row. generateCreateJobModel Q e job s = Inr row \<and> rc_firstErr e = None \<and> rc_createErr e = None")
        case True
        then obtain row where row: "generateCreateJobModel Q e job s = Inr row" "rc_firstErr e = None" "rc_createErr e = None" by blast
        have "jb_jobName row = n"
          using row(1) n by (auto simp: generateCreateJobModel_def Let_def split: option.splits prod.splits)
        with no show thesis by (rule create) (use None Some n no row in \<open>simp add: Reconcile_def\<close>)
      next
        case False
        then have "snd (Reconcile Q e ns n s) = s"
          using None Some n no by (auto simp: Reconcile_def split: option.split sum.split)
        then show thesis by (intro same) simp
      qed
    next
      case old: (Some old)
      let ?s1 = "if jb_alertEnabled old then send_transition_alerts e n (vj_phase job) (jb_status old) s else s"
      show thesis
      proof (cases "rc_firstErr e = None \<and> rc_updateErr e = None")
        case True
        then have "pf_jobs (snd (Reconcile Q e ns n s)) =
            pf_jobs (update_job_named n (apply_patch (generateUpdateJobModel e job old ?s1)) s)"
          using None Some n old by (simp add: Reconcile_def Let_def update_job_named_def)
        with old update_patch_ok show thesis by (rule patch)
      next
        case False
        with None Some n old same show thesis by (auto simp: Reconcile_def Let_def split: option.splits)
      qed
    qed
  qed
qed (use same in \<open>simp add: Reconcile_def\<close>)

text \<open>
  What happens between calls: anything but a write to the table of jobs.  The jobs of the cluster start, change their phase and
  disappear, so do their pods; users, accounts, orders and alerts change.  Such a change is given by the platform after it, of which
  all but the rows of jobs counts.
\<close>

datatype ('q, 'p, 't) reconcile_event =
    ReconcileCall "('p, 't) reconcile_env" string string
  | Elsewhere "('q, 'p, 't) platform"

primrec reconcile_step ::
  "('q, 'm) quantity_ops_scheme \<Rightarrow> ('q, 'p, 't) reconcile_event \<Rightarrow> ('q, 'p, 't) platform \<Rightarrow> ('q, 'p, 't) platform" where
  "reconcile_step Q (ReconcileCall e ns n) s = snd (Reconcile Q e ns n s)"
| "reconcile_step Q (Elsewhere after) s = after\<lparr>pf_jobs := pf_jobs s\<rparr>"

lemma reconcile_call_row:
  assumes "job_named m s = Some a"
  shows "\<exists>b. job_named m (snd (Reconcile Q e ns n s)) = Some b \<and> same_identity a b \<and> keeps_history a b"
proof (rule Reconcile_cases [of Q e ns n s], goal_cases)
  case 1
  then show ?case using assms job_named_cong by fastforce
next
  case (2 row)
  then show ?case using assms by (auto simp: job_named_def tbl_first_append)
next
  case (3 p old)
  have "job_named m (snd (Reconcile Q e ns n s)) = job_named m (update_job_named n (apply_patch p) s)"
    using 3(3) by (simp add: job_named_def)
  also have "\<dots> = (if m = n then Some (apply_patch p old) else job_named m s)"
    using job_named_update [where f = "apply_patch p" and m = m and n = n and s = s] 3(1) by simp
  finally show ?case
    using assms 3(1,2) apply_patch_identity apply_patch_history by (auto split: if_splits)
qed

lemma reconcile_call_names:
  assumes "distinct (map jb_jobName (pf_jobs s))"
  shows "distinct (map jb_jobName (pf_jobs (snd (Reconcile Q e ns n s))))"
proof (rule Reconcile_cases [of Q e ns n s], goal_cases)
  case 1
  then show ?case using assms by simp
next
  case (2 row)
  then show ?case using assms by (auto simp: job_named_def tbl_first_None)
next
  case (3 p old)
  then show ?case using assms by (simp add: names_update)
qed

lemma reconcile_step_row:
  assumes "job_named m s = Some a" and "distinct (map jb_jobName (pf_jobs s))"
  shows "(\<exists>b. job_named m (reconcile_step Q c s) = Some b \<and> same_identity a b \<and> keeps_history a b) \<and>
    distinct (map jb_jobName (pf_jobs (reconcile_step Q c s)))"
proof (cases c)
  case (ReconcileCall e ns n)
  then show ?thesis by (simp add: reconcile_call_row [OF assms(1)] reconcile_call_names [OF assms(2)])
next
  case (Elsewhere after)
  with assms show ?thesis by (auto simp: job_named_def)
qed


definition quiet_reconcile :: "(unit, unit) reconcile_env" where
  "quiet_reconcile = \<lparr>rc_getErr = None, rc_firstErr = None, rc_createErr = None, rc_updateErr = None, rc_userErr = None,
     rc_queueErr = None, rc_now = 900, rc_ns = ''ns'', rc_profile = \<lambda>_ _ _. Some (), rc_podErr = \<lambda>_. None,
     rc_livePodErr = \<lambda>_. None, rc_events = \<lambda>_ _. Inr [], rc_alert = quiet_alerts\<rparr>"


section \<open>A job that has left the cluster\<close>

text \<open>When a job is gone from the cluster and the database answers, its row ends in a final
  state: a final status is kept with its completion time, any other becomes freed with the present
  as completion time; its profile is recorded; no other row changes, and a second call, at any
  time, changes nothing more.\<close>

theorem gone_job_finalised:
  fixes e :: "('p, 't) reconcile_env" and s :: "('q, 'p, 't) platform"
  assumes "find_vcjob ns n s = None" and "job_named n s = Some old" and "rc_now e \<noteq> 0"
    and "rc_getErr e = None" and "rc_firstErr e = None" and "rc_updateErr e = None"
  shows "\<exists>s' new. Reconcile Q e ns n s = ((False, None), s') \<and> job_named n s' = Some new \<and>
    (if terminal_phase (jb_status old)
     then jb_status new = jb_status old \<and> jb_completedTimestamp new = jb_completedTimestamp old
     else jb_status new = PhaseFreed \<and> jb_completedTimestamp new = rc_now e) \<and>
    jb_profileData new \<noteq> None \<and> (\<forall>m. m \<noteq> n \<longrightarrow> job_named m s' = job_named m s) \<and>
    snd (Reconcile Q e' ns n s') = s'"
proof -
  define d where "d = Some (rc_profile e (rc_ns e) (getPodNameFromJobTemplate (jb_attributes old)) (jb_runningTimestamp old))"
  define p :: "('p, 't) job_patch" where "p = no_patch\<lparr>jp_profileData := d\<rparr>"
  define q :: "('p, 't) job_patch" where
    "q = no_patch\<lparr>jp_status := PhaseFreed, jp_completedTimestamp := rc_now e, jp_profileData := d\<rparr>"
  define f :: "('q, 'p, 't) job \<Rightarrow> ('q, 'p, 't) job" where "f = (if terminal_phase (jb_status old) then (if jb_profileData old = None then apply_patch p else id) else apply_patch q)"
  define s' where "s' = (if terminal_phase (jb_status old) \<and> jb_profileData old \<noteq> None then s else update_job_named n f s)"
  have run: "Reconcile Q e ns n s = ((False, None), s')"
    using assms by (simp add: Reconcile_def reconcile_gone_def Let_def s'_def f_def p_def q_def d_def)
  have f: "jb_jobName (f j) = jb_jobName j" for j by (simp add: f_def)
  have new: "job_named n s' = Some (f old)"
    using assms(2) by (simp add: s'_def f_def job_named_update)
  have other: "m \<noteq> n \<Longrightarrow> job_named m s' = job_named m s" for m
    using job_named_update [of f m n s, OF f] by (simp add: s'_def)
  have fin: "terminal_phase (jb_status (f old))" "jb_profileData (f old) \<noteq> None"
    by (auto simp: f_def apply_patch_def p_def q_def no_patch_def d_def terminal_phase_def)
  have "find_vcjob ns n s' = None" using assms(1) by (simp add: s'_def find_vcjob_def update_job_named_def)
  then have "snd (Reconcile Q e' ns n s') = s'"
    using new fin by (auto simp: Reconcile_def reconcile_gone_def Let_def split: option.split)
  moreover have "(if terminal_phase (jb_status old)
     then jb_status (f old) = jb_status old \<and> jb_completedTimestamp (f old) = jb_completedTimestamp old
     else jb_status (f old) = PhaseFreed \<and> jb_completedTimestamp (f old) = rc_now e)"
    using assms(3) by (simp add: f_def apply_patch_def p_def q_def no_patch_def)
  ultimately show ?thesis using run new other fin(2) by blast
qed

lemma gone_job_finalised_witness:
  "\<exists>new. job_named ''job-1'' (snd (Reconcile int_quantity quiet_reconcile ''other'' ''job-1'' sample_platform)) = Some new \<and>
     jb_status new = PhaseFreed"
  using gone_job_finalised [of "''other''" "''job-1''" sample_platform sample_job quiet_reconcile int_quantity quiet_reconcile]
  by (auto simp: find_vcjob_def job_named_def sample_platform_def sample_job_def tbl_first_Cons quiet_reconcile_def terminal_phase_def)

section \<open>Messages on transitions\<close>

lemma transition_alerts_id: "oldph = ph \<or> ph \<notin> {PhaseRunning, PhaseFailed, PhaseCompleted} \<Longrightarrow>
  send_transition_alerts e n ph oldph s = s"
  by (auto simp: send_transition_alerts_def)

lemma reconcile_gone_outbox: "pf_outbox (snd (reconcile_gone e n s)) = pf_outbox s"
  by (auto simp: reconcile_gone_def Let_def update_job_named_def split: option.split)

lemma reconcile_sends:
  assumes ne: "pf_outbox (snd (Reconcile Q e ns n s)) \<noteq> pf_outbox s"
  shows "\<exists>job old. find_vcjob ns n s = Some job \<and> job_named n s = Some old \<and> jb_alertEnabled old \<and>
    jb_status old \<noteq> vj_phase job \<and> vj_phase job \<in> {PhaseRunning, PhaseFailed, PhaseCompleted}"
proof -
  have get: "rc_getErr e = None" using ne by (cases "rc_getErr e") (simp_all add: Reconcile_def)
  obtain job where job: "find_vcjob ns n s = Some job"
    using ne get reconcile_gone_outbox [of e n s] by (cases "find_vcjob ns n s") (simp_all add: Reconcile_def)
  then have name: "vj_name job = n" by (rule find_vcjob_name)
  have first: "rc_firstErr e = None" using ne get job by (cases "rc_firstErr e") (simp_all add: Reconcile_def)
  obtain old where old: "job_named n s = Some old"
    using ne get job name first by (cases "job_named n s") (auto simp: Reconcile_def split: sum.splits option.splits)
  have "send_transition_alerts e n (vj_phase job) (jb_status old) s \<noteq> s \<and> jb_alertEnabled old"
    using ne get job name first old by (auto simp: Reconcile_def Let_def update_job_named_def split: option.splits if_splits)
  then have "jb_alertEnabled old" "jb_status old \<noteq> vj_phase job" "vj_phase job \<in> {PhaseRunning, PhaseFailed, PhaseCompleted}"
    using transition_alerts_id by blast+
  with job old show ?thesis by blast
qed

text \<open>A successful call on a job of the cluster leaves a row with the job's phase.\<close>

lemma reconcile_records_status:
  assumes run: "Reconcile Q e ns n s = ((False, None), s')" and job: "find_vcjob ns n s = Some job"
    and get: "rc_getErr e = None" and ph: "vj_phase job \<noteq> []"
  shows "find_vcjob ns n s' = Some job \<and> (\<exists>new. job_named n s' = Some new \<and> jb_status new = vj_phase job)"
proof -
  have name: "vj_name job = n" using job by (rule find_vcjob_name)
  have first: "rc_firstErr e = None" using run job get by (cases "rc_firstErr e") (simp_all add: Reconcile_def)
  show ?thesis
  proof (cases "job_named n s")
    case None
    then obtain row where row: "generateCreateJobModel Q e job s = Inr row" "s' = s\<lparr>pf_jobs := pf_jobs s @ [row]\<rparr>"
      using run get job name first by (auto simp: Reconcile_def split: sum.splits option.splits)
    then have "jb_jobName row = n" "jb_status row = vj_phase job"
      using name by (auto simp: generateCreateJobModel_def Let_def split: option.splits prod.splits)
    with row(2) None job show ?thesis by (simp add: job_named_def tbl_first_append tbl_first_Cons find_vcjob_def)
  next
    case (Some old)
    define s1 where "s1 = (if jb_alertEnabled old then send_transition_alerts e n (vj_phase job) (jb_status old) s else s)"
    define p where "p = generateUpdateJobModel e job old s1"
    have s': "s' = update_job_named n (apply_patch p) s1"
      using run get job name first Some by (auto simp: Reconcile_def Let_def s1_def p_def split: option.splits)
    have s1: "pf_jobs s1 = pf_jobs s" "pf_vcjobs s1 = pf_vcjobs s" by (simp_all add: s1_def)
    have "job_named n s' = Some (apply_patch p old)"
      using Some s1 by (simp add: s' job_named_update job_named_cong [OF s1(1)])
    moreover have "jp_status p = vj_phase job" by (simp add: p_def generateUpdateJobModel_def Let_def split_def)
    ultimately show ?thesis using ph job s1(2) by (simp add: apply_patch_def s' find_vcjob_def update_job_named_def)
  qed
qed

text \<open>The reconciler sends a message only about a row with alerts enabled whose recorded status
  differs from the job's and only on a change to running, failed or completed; once a call has
  recorded a status, a further call sends nothing until the job changes again.\<close>

theorem alerts_on_transitions_only:
  assumes "Reconcile Q e ns n s = (r, s')"
  shows "(pf_outbox s' \<noteq> pf_outbox s \<longrightarrow>
      (\<exists>job old. find_vcjob ns n s = Some job \<and> job_named n s = Some old \<and> jb_alertEnabled old \<and>
         jb_status old \<noteq> vj_phase job \<and> vj_phase job \<in> {PhaseRunning, PhaseFailed, PhaseCompleted})) \<and>
    (find_vcjob ns n s = Some job \<and> r = (False, None) \<and> rc_getErr e = None \<and> vj_phase job \<noteq> [] \<longrightarrow>
      pf_outbox (snd (Reconcile Q e' ns n s')) = pf_outbox s')"
proof -
  have "pf_outbox (snd (Reconcile Q e' ns n s')) = pf_outbox s'"
    if "find_vcjob ns n s = Some job" "r = (False, None)" "rc_getErr e = None" "vj_phase job \<noteq> []"
    using reconcile_records_status [OF _ that(1,3,4), of Q s'] reconcile_sends [of Q e' ns n s'] assms that(2) by fastforce
  with reconcile_sends [of Q e ns n s] assms show ?thesis by simp
qed

lemma alerts_on_transitions_only_witness:
  "pf_outbox (snd (Reconcile int_quantity quiet_reconcile ''ns'' ''job-1'' sample_platform)) = []"
proof -
  obtain r s' where r: "Reconcile int_quantity quiet_reconcile ''ns'' ''job-1'' sample_platform = (r, s')"
    by (cases "Reconcile int_quantity quiet_reconcile ''ns'' ''job-1'' sample_platform")
  from alerts_on_transitions_only [OF r] show ?thesis
    unfolding r by (auto simp: sample_platform_def sample_job_def find_vcjob_def job_named_def tbl_first_Cons)
qed

section \<open>Events\<close>

definition filed_under :: "event set \<Rightarrow> string \<Rightarrow> event \<Rightarrow> bool" where
  "filed_under U k v \<longleftrightarrow> ev_uid v = k \<and> v \<in> U"

definition known_events :: "(string, event) gomap \<Rightarrow> event set \<Rightarrow> bool" where
  "known_events m U \<longleftrightarrow> gm_ok m \<and> (\<forall>k v. gm_get m k = Some v \<longrightarrow> filed_under U k v)"

lemma known_events_Nil [simp]: "known_events [] U"
  by (simp add: known_events_def)

lemma known_events_put: "known_events m U \<Longrightarrow> ev \<in> U \<Longrightarrow> known_events (gm_put (ev_uid ev) ev m) U"
  by (simp add: known_events_def) (simp add: filed_under_def)

lemma dom_gm_put: "dom (gm_get (gm_put k v m)) = insert k (dom (gm_get m))"
  by auto

lemma fold_old_events:
  "known_events m U \<Longrightarrow> set evs \<subseteq> U \<Longrightarrow>
   known_events (fold (\<lambda>ev m. gm_put (ev_uid ev) ev m) evs m) U \<and>
   dom (gm_get (fold (\<lambda>ev m. gm_put (ev_uid ev) ev m) evs m)) = dom (gm_get m) \<union> ev_uid ` set evs"
proof (induction evs arbitrary: m)
  case (Cons ev evs)
  then have "known_events (gm_put (ev_uid ev) ev m) U" by (simp add: known_events_put)
  from Cons.IH [OF this] Cons.prems(2) show ?case by (simp add: dom_gm_put del: gm_get_put)
qed simp

lemma fold_new_events:
  "known_events m U \<Longrightarrow> set evs \<subseteq> U \<Longrightarrow>
   known_events (fold (\<lambda>ev m. if gm_get m (ev_uid ev) = None then gm_put (ev_uid ev) ev m else m) evs m) U \<and>
   dom (gm_get (fold (\<lambda>ev m. if gm_get m (ev_uid ev) = None then gm_put (ev_uid ev) ev m else m) evs m)) =
     dom (gm_get m) \<union> ev_uid ` set evs"
proof (induction evs arbitrary: m)
  case (Cons ev evs)
  let ?m = "if gm_get m (ev_uid ev) = None then gm_put (ev_uid ev) ev m else m"
  have "known_events ?m U" and "dom (gm_get ?m) = insert (ev_uid ev) (dom (gm_get m))"
    using Cons.prems by (cases "gm_get m (ev_uid ev)"; simp add: known_events_put dom_gm_put insert_absorb domI del: gm_get_put)+
  with Cons.IH [of ?m] Cons.prems(2) show ?case by (simp del: gm_get_put)
qed simp

lemma known_events_values:
  assumes "known_events m U"
  shows "distinct (map ev_uid (map snd m))" and "set (map snd m) \<subseteq> U" and "ev_uid ` set (map snd m) = dom (gm_get m)"
proof -
  have ok: "gm_ok m" and uid: "\<And>k v. (k, v) \<in> set m \<Longrightarrow> ev_uid v = k \<and> v \<in> U"
    using assms gm_get_in_set [of m] unfolding known_events_def filed_under_def by blast+
  have eq: "map ev_uid (map snd m) = map fst m"
    unfolding map_map by (rule map_cong [OF refl]) (metis comp_apply prod.collapse uid)
  show "distinct (map ev_uid (map snd m))" unfolding eq using ok by (simp only: gm_ok_def)
  show "ev_uid ` set (map snd m) = dom (gm_get m)"
    by (simp only: set_map [symmetric] eq dom_map_of_conv_image_fst)
  show "set (map snd m) \<subseteq> U" using uid by auto
qed

text \<open>The first \<open>k\<close> elements of a list sorted by decreasing time.\<close>

lemma newest_of_sorted:
  fixes f :: "'a \<Rightarrow> int"
  assumes "x \<in> set xs" and "x \<notin> set (take k (sort_key (\<lambda>a. - f a) xs))"
  shows "length (take k (sort_key (\<lambda>a. - f a) xs)) = k" and "\<forall>y \<in> set (take k (sort_key (\<lambda>a. - f a) xs)). f x \<le> f y"
proof -
  let ?ys = "sort_key (\<lambda>a. - f a) xs"
  have "x \<in> set (take k ?ys) \<union> set (drop k ?ys)"
    using assms(1) by (metis append_take_drop_id set_append set_sort)
  then have x: "x \<in> set (drop k ?ys)" using assms(2) by blast
  then have "drop k ?ys \<noteq> []" by auto
  then show "length (take k ?ys) = k" by auto
  have "sorted (map (\<lambda>a. - f a) (take k ?ys @ drop k ?ys))" by simp
  then show "\<forall>y \<in> set (take k ?ys). f x \<le> f y"
    using x by (auto simp only: map_append sorted_append set_map image_iff) fastforce
qed

text \<open>The events stored for a job are at most twenty, newest first, one per UID, each one an event
  already stored or one the cluster reported; an event left out is no newer than all twenty that
  are kept.\<close>

theorem job_events_newest:
  assumes "getPodNamesFromJobTemplate job \<noteq> []"
    and "fresh = concat (map (\<lambda>n. case rc_events e (vj_namespace job) n of Inl x \<Rightarrow> [] | Inr es \<Rightarrow> es) (getPodNamesFromJobTemplate job))"
    and "stored = (case jb_events old of None \<Rightarrow> [] | Some es \<Rightarrow> es)" and "fresh \<noteq> []"
  defines "es \<equiv> getNewEventsForJob e job old"
  shows "length es \<le> 20 \<and> sorted_wrt (\<lambda>a b. ev_lastTimestamp b \<le> ev_lastTimestamp a) es \<and>
    distinct (map ev_uid es) \<and> set es \<subseteq> set stored \<union> set fresh \<and>
    (\<forall>ev \<in> set stored \<union> set fresh. \<exists>v \<in> set stored \<union> set fresh. ev_uid v = ev_uid ev \<and>
       (v \<in> set es \<or> length es = 20 \<and> (\<forall>w \<in> set es. ev_lastTimestamp v \<le> ev_lastTimestamp w)))"
proof -
  let ?U = "set stored \<union> set fresh"
  define m0 where "m0 = fold (\<lambda>ev m. gm_put (ev_uid ev) ev m) stored []"
  define m1 where "m1 = fold (\<lambda>ev m. if gm_get m (ev_uid ev) = None then gm_put (ev_uid ev) ev m else m) fresh m0"
  have es: "es = take 20 (sort_key (\<lambda>ev. - ev_lastTimestamp ev) (map snd m1))"
    unfolding es_def getNewEventsForJob_def Let_def m1_def m0_def assms(2,3) [symmetric] using assms(1,4) by simp
  have m0: "known_events m0 ?U" "dom (gm_get m0) = ev_uid ` set stored"
    unfolding m0_def using fold_old_events [of "[]" ?U stored] by simp_all
  have m1: "known_events m1 ?U" "dom (gm_get m1) = ev_uid ` set stored \<union> ev_uid ` set fresh"
    unfolding m1_def using fold_new_events [OF m0(1), of fresh] m0(2) by simp_all
  note vals = known_events_values [OF m1(1)]
  have sub: "set es \<subseteq> set (map snd m1)" unfolding es by (metis set_sort set_take_subset)
  have dist: "distinct (map ev_uid (sort_key (\<lambda>ev. - ev_lastTimestamp ev) (map snd m1)))"
    using vals(1) unfolding distinct_map [where f = ev_uid] by simp
  have "sorted (map (\<lambda>ev. - ev_lastTimestamp ev) (sort_key (\<lambda>ev. - ev_lastTimestamp ev) (map snd m1)))" by (rule sorted_sort_key)
  then have "sorted (map (\<lambda>ev. - ev_lastTimestamp ev) es)" unfolding es by (metis sorted_wrt_take take_map)
  then have "sorted_wrt (\<lambda>a b. ev_lastTimestamp b \<le> ev_lastTimestamp a) es" by (simp add: sorted_map)
  moreover have "distinct (map ev_uid es)" unfolding es using dist by (metis distinct_take take_map)
  moreover have "\<exists>v \<in> ?U. ev_uid v = ev_uid ev \<and>
      (v \<in> set es \<or> length es = 20 \<and> (\<forall>w \<in> set es. ev_lastTimestamp v \<le> ev_lastTimestamp w))" if "ev \<in> ?U" for ev
  proof -
    have "ev_uid ev \<in> ev_uid ` set (map snd m1)" using that m1(2) vals(3) by auto
    then obtain v where v: "v \<in> set (map snd m1)" "ev_uid v = ev_uid ev" by (metis imageE)
    then show ?thesis using vals(2) newest_of_sorted [OF v(1), of 20 ev_lastTimestamp] unfolding es by blast
  qed
  moreover have "length es \<le> 20" by (simp add: es)
  ultimately show ?thesis using sub vals(2) by blast
qed

definition sample_vc_job :: "int vc_job" where
  "sample_vc_job = \<lparr>vj_name = ''job-2'', vj_namespace = ''ns'',
     vj_labels = [(''crater.raids.io/task-user'', ''alice''), (''crater.raids.io/task-type'', ''pytorch'')],
     vj_annotations = [], vj_creationTimestamp = 5, vj_queue = ''q'',
     vj_tasks = [\<lparr>vt_name = ''w'', vt_replicas = 2, vt_labels = [], vt_containers = [[(''gpu'', 4)], [(''gpu'', 1)]]\<rparr>],
     vj_phase = PhasePending, vj_conditions = []\<rparr>"

definition sample_event :: event where
  "sample_event = \<lparr>ev_uid = ''u1'', ev_reason = ''Pulled'', ev_message = [], ev_lastTimestamp = 7\<rparr>"

lemma job_events_newest_witness:
  "length (getNewEventsForJob (quiet_reconcile\<lparr>rc_events := \<lambda>_ _. Inr [sample_event]\<rparr>) sample_vc_job sample_job) \<le> 20 \<and>
   (\<exists>v \<in> {sample_event}. ev_uid v = ''u1'')"
proof -
  let ?e = "quiet_reconcile\<lparr>rc_events := \<lambda>_ _. Inr [sample_event]\<rparr>"
  obtain a b where pods: "getPodNamesFromJobTemplate sample_vc_job = [a, b]"
    by (simp add: getPodNamesFromJobTemplate_def sample_vc_job_def upt_rec [of 0 "Suc (Suc 0)"] numeral_2_eq_2)
  from job_events_newest [of sample_vc_job "[sample_event, sample_event]" ?e "[]" sample_job] show ?thesis
    by (simp add: pods sample_job_def sample_event_def)
qed

section \<open>Created rows\<close>

lemma amount_scaled_requests:
  assumes laws: "quantity_laws Q val"
  shows "gm_ok res \<Longrightarrow>
   amount val (fold (\<lambda>(name, quantity) resources.
       (case gm_get resources name of
          None \<Rightarrow> gm_put name (q_mul Q quantity n) resources
        | Some v \<Rightarrow> gm_put name (q_add Q v (q_mul Q quantity n)) resources)) res result) k =
     amount val result k + n * amount val res k"
proof (induction res arbitrary: result)
  case (Cons p res)
  obtain j v where p: "p = (j, v)" by (cases p)
  have ok: "gm_ok res" and fresh: "gm_get res j = None"
    using Cons.prems p by (auto simp: gm_ok_Cons gm_get_None_iff)
  show ?case
    using Cons.IH [OF ok] laws fresh p by (auto simp: amount_def quantity_laws_def algebra_simps split: option.split)
qed simp

lemma amount_job_resources:
  assumes laws: "quantity_laws Q val" and ok: "\<forall>t \<in> set tasks. \<forall>r \<in> set (vt_containers t). gm_ok r"
  shows "amount val (job_resources Q tasks) k = (\<Sum>t \<leftarrow> tasks. vt_replicas t * (\<Sum>r \<leftarrow> vt_containers t. amount val r k))"
proof -
  let ?req = "\<lambda>n res result. fold (\<lambda>(name, quantity) resources.
       (case gm_get resources name of
          None \<Rightarrow> gm_put name (q_mul Q quantity n) resources
        | Some v \<Rightarrow> gm_put name (q_add Q v (q_mul Q quantity n)) resources)) res result"
  have cont: "\<forall>r \<in> set rs. gm_ok r \<Longrightarrow>
      amount val (fold (?req n) rs acc) k = amount val acc k + n * (\<Sum>r \<leftarrow> rs. amount val r k)" for rs n acc
    by (induction rs arbitrary: acc) (auto simp: amount_scaled_requests [OF laws] algebra_simps)
  have "\<forall>t \<in> set tasks. \<forall>r \<in> set (vt_containers t). gm_ok r \<Longrightarrow>
      amount val (fold (\<lambda>t acc. fold (?req (vt_replicas t)) (vt_containers t) acc) tasks acc) k =
        amount val acc k + (\<Sum>t \<leftarrow> tasks. vt_replicas t * (\<Sum>r \<leftarrow> vt_containers t. amount val r k))" for acc
    by (induction tasks arbitrary: acc) (auto simp: cont)
  from this [OF ok, of "[]"] show ?thesis by (simp add: job_resources_def)
qed

text \<open>The row created for a new job belongs to the user its label names and the account its queue
  names, records the job's phase and, for every resource, the sum over the tasks of the replicas
  times the containers' requests; alerts are on unless the annotation is a false boolean.\<close>

theorem created_row_exact:
  assumes "generateCreateJobModel Q e job s = Inr row" and "quantity_laws Q val"
    and "\<forall>t \<in> set (vj_tasks job). \<forall>r \<in> set (vt_containers t). gm_ok r"
  shows "(\<exists>u \<in> set (pf_users s). us_id u = jb_userID row \<and> us_name u = map_value (vj_labels job) ''crater.raids.io/task-user'') \<and>
    (\<exists>a \<in> set (pf_accounts s). ac_id a = jb_accountID row \<and> ac_name a = vj_queue job) \<and>
    jb_jobName row = vj_name job \<and> jb_status row = vj_phase job \<and> jb_id row \<notin> jb_id ` set (pf_jobs s) \<and>
    amount val (jb_resources row) k =
      (\<Sum>t \<leftarrow> vj_tasks job. vt_replicas t * (\<Sum>r \<leftarrow> vt_containers t. amount val r k)) \<and>
    (jb_alertEnabled row \<longleftrightarrow>
      parse_bool (map_value (vj_annotations job) ''crater.raids.io/alert-enabled'') \<noteq> Some False)"
proof -
  let ?u = "\<lambda>u. us_name u = map_value (vj_labels job) ''crater.raids.io/task-user''" and ?a = "\<lambda>a. ac_name a = vj_queue job"
  obtain u a where ua: "tbl_first ?u (pf_users s) = Some u" "tbl_first ?a (pf_accounts s) = Some a"
    and row: "jb_userID row = us_id u" "jb_accountID row = ac_id a" "jb_jobName row = vj_name job" "jb_status row = vj_phase job"
      "jb_id row = next_id (map jb_id (pf_jobs s))" "jb_resources row = job_resources Q (vj_tasks job)"
      "jb_alertEnabled row = (case parse_bool (map_value (vj_annotations job) ''crater.raids.io/alert-enabled'') of None \<Rightarrow> True | Some b \<Rightarrow> b)"
    using assms(1) by (auto simp: generateCreateJobModel_def Let_def split: option.splits prod.splits)
  show ?thesis
    unfolding row amount_job_resources [OF assms(2,3)]
    using tbl_first_Some [OF ua(1)] tbl_first_Some [OF ua(2)] next_id_fresh [of "map jb_id (pf_jobs s)"]
    by (auto split: option.split)
qed

lemma created_row_exact_witness:
  "\<exists>row. generateCreateJobModel int_quantity quiet_reconcile sample_vc_job
       (sample_platform\<lparr>pf_accounts := [\<lparr>ac_id = 2, ac_name = ''q'', ac_nickname = [], ac_space = [], ac_expiredAt = None,
          ac_quota = \<lparr>qq_guaranteed = [], qq_deserved = [], qq_capability = []\<rparr>, ac_userDefaultQuota = None\<rparr>]\<rparr>) = Inr row \<and>
     amount (\<lambda>x. x) (jb_resources row) ''gpu'' = 10 \<and> jb_alertEnabled row"
proof -
  let ?s = "sample_platform\<lparr>pf_accounts := [\<lparr>ac_id = 2, ac_name = ''q'', ac_nickname = [], ac_space = [], ac_expiredAt = None,
          ac_quota = \<lparr>qq_guaranteed = [], qq_deserved = [], qq_capability = []\<rparr>, ac_userDefaultQuota = None\<rparr>]\<rparr>"
  obtain row where row: "generateCreateJobModel int_quantity quiet_reconcile sample_vc_job ?s = Inr row"
    by (simp add: generateCreateJobModel_def quiet_reconcile_def sample_platform_def sample_vc_job_def tbl_first_Cons map_value_def Let_def)
  from created_row_exact [OF row int_quantity_laws, of "''gpu''"] have
    "amount (\<lambda>x. x) (jb_resources row) ''gpu'' = 10 \<and> jb_alertEnabled row"
    by (simp add: sample_vc_job_def gm_ok_def amount_def map_value_def parse_bool_def)
  with row show ?thesis by blast
qed

section \<open>Parsing image-pull messages\<close>

lemma starts_with_append [simp]: "starts_with p (p @ s)"
  by (simp add: starts_with_def)

lemma starts_with_hd: "p \<noteq> [] \<Longrightarrow> starts_with p (c # s) \<Longrightarrow> hd p = c"
  by (cases p) (auto simp: starts_with_def)

lemma upto_match_found:
  "CHR '' '' \<notin> set d \<Longrightarrow> CHR 0x0A \<notin> set d \<Longrightarrow>
   upto_match '' including waiting)'' (d @ '' including waiting)'' @ s) = Some d"
proof (induction d)
  case Nil
  show ?case by (simp add: starts_with_def)
next
  case (Cons c d)
  then have "\<not> starts_with '' including waiting)'' (c # d @ '' including waiting)'' @ s)"
    using starts_with_hd [of "'' including waiting)''" c] by auto
  with Cons show ?case by auto
qed

lemma match_waiting_skip: "CHR ''('' \<notin> set xs \<Longrightarrow> match_waiting (xs @ s) = match_waiting s"
  by (induction xs) auto

lemma match_size_skip: "CHR ''I'' \<notin> set xs \<Longrightarrow> match_size (xs @ s) = match_size s"
proof (induction xs)
  case (Cons c xs)
  then have "\<not> starts_with ''Image size: '' (c # xs @ s)" using starts_with_hd [of "''Image size: ''" c "xs @ s"] by auto
  with Cons show ?case by (simp add: Let_def)
qed simp

lemma match_size_found:
  assumes "ds \<noteq> []" and "\<forall>c \<in> set ds. is_digit c"
  shows "match_size (''Image size: '' @ ds @ '' bytes'' @ s) = Some ds"
proof -
  have "takeWhile is_digit (ds @ '' bytes'' @ s) = ds" "dropWhile is_digit (ds @ '' bytes'' @ s) = '' bytes'' @ s"
    using assms(2) by (auto simp: takeWhile_append dropWhile_append is_digit_def)
  with assms(1) show ?thesis by (simp add: Let_def starts_with_def)
qed

text \<open>From the message the kubelet writes after a pull, the parser recovers the time the pull took
  with waiting and the size of the image; a message about a present image gives a time of zero and
  any other message is refused.\<close>

theorem schedule_data_parse:
  assumes "msg = ''Successfully pulled image '' @ img @ '' in '' @ pull @ '' ('' @ waited @ '' including waiting). Image size: '' @
      sz @ '' bytes.''"
    and "{CHR ''('', CHR ''I''} \<inter> set (img @ pull) = {}" and "{CHR '' '', CHR ''I'', CHR 0x0A} \<inter> set waited = {}"
    and "sz \<noteq> []" and "\<forall>c \<in> set sz. is_digit c"
    and "\<not> str_contains msg ''already present on machine''"
  shows "ScheduleData_Init msg = Inr \<lparr>sd_imagePullTime = waited, sd_imageSize = Some sz\<rparr> \<and>
    (str_contains msg2 ''already present on machine'' \<longrightarrow>
       ScheduleData_Init msg2 = Inr \<lparr>sd_imagePullTime = ''0s'', sd_imageSize = None\<rparr>) \<and>
    (\<not> str_contains msg2 ''already present on machine'' \<and> \<not> str_contains msg2 ''Successfully pulled image'' \<longrightarrow>
       (\<exists>err. ScheduleData_Init msg2 = Inl err))"
proof -
  let ?pre = "''Successfully pulled image '' @ img @ '' in '' @ pull @ '' ''"
  let ?tail = "''. '' @ ''Image size: '' @ sz @ '' bytes'' @ ''.''"
  have msg: "msg = ?pre @ ''('' @ waited @ '' including waiting)'' @ ?tail" using assms(1) by simp
  have "match_waiting msg = Some waited"
    unfolding msg by (subst match_waiting_skip)
      (use assms(2,3) upto_match_found [of waited ?tail] in auto)
  moreover have "match_size msg = Some sz"
  proof -
    have "match_size msg = match_size ((?pre @ ''('' @ waited @ '' including waiting). '') @ ''Image size: '' @ sz @ '' bytes'' @ ''.'')"
      unfolding msg by simp
    also have "\<dots> = match_size (''Image size: '' @ sz @ '' bytes'' @ ''.'')"
      by (rule match_size_skip) (use assms(2,3) in auto)
    finally show ?thesis using match_size_found [OF assms(4,5)] by simp
  qed
  moreover have "str_contains msg ''Successfully pulled image''" unfolding msg by (simp add: starts_with_def)
  ultimately show ?thesis using assms(6) by (simp add: ScheduleData_Init_def)
qed

lemma schedule_data_parse_witness:
  "ScheduleData_Init ''Successfully pulled image a/b in 1s (2m46.503s including waiting). Image size: 8341 bytes.'' =
     Inr \<lparr>sd_imagePullTime = ''2m46.503s'', sd_imageSize = Some ''8341''\<rparr>"
proof -
  have "\<not> str_contains ''Successfully pulled image a/b in 1s (2m46.503s including waiting). Image size: 8341 bytes.''
      ''already present on machine''"
    by (simp add: starts_with_def)
  with schedule_data_parse [of "''Successfully pulled image a/b in 1s (2m46.503s including waiting). Image size: 8341 bytes.''"
      "''a/b''" "''1s''" "''2m46.503s''" "''8341''"]
  show ?thesis by (simp add: is_digit_def)
qed

end
