(* ===== verification/Cleaner.thy ===== *)
theory Cleaner imports Alerts begin

text \<open>
  The clean-up policies of \<open>pkg/cleaner\<close>: jobs that run too long (\<open>long_time_running.go\<close>), jobs
  that leave their GPUs idle (\<open>low_gpu_usage.go\<close>) and Jupyter jobs that never get scheduled
  (\<open>waiting_jupyter.go\<close>); their dispatch is in \<open>Cron_Jobs\<close>.  A policy reads the job table, the
  white list of locked jobs, Prometheus and the pods, deletes jobs in the cluster and sends
  messages.  The clock is read several times in a run: reading \<open>i\<close> is \<open>cl_clock e i\<close>.  Durations
  and the numbers of a request are 64-bit integers, so their products wrap.
\<close>

record cleaner_env =
  cl_ns :: string
  cl_clock :: "nat \<Rightarrow> time"
  cl_runningErr :: "nat \<Rightarrow> fault"
  cl_whiteErr :: "nat \<Rightarrow> fault"
  cl_firstErr :: "string \<Rightarrow> fault"
  cl_getErr :: "string \<Rightarrow> fault"
  cl_deleteErr :: "string \<Rightarrow> fault"
  cl_podErr :: "string \<Rightarrow> fault"
  cl_listPodsErr :: "string \<Rightarrow> fault"
  cl_gpuUtilPods :: "string \<Rightarrow> string list"
  cl_leastUsed :: "string \<Rightarrow> string \<Rightarrow> string \<Rightarrow> int"
  cl_alert :: "string \<Rightarrow> alert_env"
  cl_alertNow :: "string \<Rightarrow> time"

section \<open>Shared parts\<close>

text \<open>A loop over jobs that goes on after an error and collects the names of the jobs that went well.\<close>

primrec for_each_ok ::
  "(('q, 'p, 't) job \<Rightarrow> ('q, 'p, 't) platform \<Rightarrow> fault \<times> ('q, 'p, 't) platform) \<Rightarrow> ('q, 'p, 't) job list \<Rightarrow>
   ('q, 'p, 't) platform \<Rightarrow> string list \<times> ('q, 'p, 't) platform" where
  "for_each_ok f [] s = ([], s)"
| "for_each_ok f (j # js) s =
     (let (err, s1) = f j s; (ns, s2) = for_each_ok f js s1
      in (if err = None then jb_jobName j # ns else ns, s2))"

definition getJobWhiteList :: "fault \<Rightarrow> time \<Rightarrow> ('q, 'p, 't) platform \<Rightarrow> string list result" where
  "getJobWhiteList err cur s =
     (case err of
        Some x \<Rightarrow> Inl x
      | None \<Rightarrow> Inr (map jb_jobName (tbl_find (\<lambda>j. jb_lockedTimestamp j > cur) (pf_jobs s))))"

definition running_jobs :: "('q, 'p, 't) platform \<Rightarrow> ('q, 'p, 't) job list" where
  "running_jobs s = tbl_find (\<lambda>j. jb_status j = PhaseRunning) (pf_jobs s)"

definition deleteVCjobInCluster ::
  "cleaner_env \<Rightarrow> string \<Rightarrow> ('q, 'p, 't) platform \<Rightarrow> fault \<times> ('q, 'p, 't) platform" where
  "deleteVCjobInCluster e n s =
     (case cl_getErr e n of
        Some x \<Rightarrow> (Some x, s)
      | None \<Rightarrow> (case find_vcjob (cl_ns e) n s of
          None \<Rightarrow> (Some ''not found'', s)
        | Some vj \<Rightarrow> (case cl_deleteErr e n of
            Some x \<Rightarrow> (Some x, s)
          | None \<Rightarrow> (None, remove_vcjob (cl_ns e) n s))))"

section \<open>Jobs that run too long\<close>

definition getLongTimeVCjobs ::
  "cleaner_env \<Rightarrow> nat \<Rightarrow> int \<Rightarrow> int \<Rightarrow> ('q, 'p, 't) platform \<Rightarrow> ('q, 'p, 't) job list" where
  "getLongTimeVCjobs e i batchTimeout interactiveTimeout s =
     (case cl_runningErr e i of
        Some x \<Rightarrow> []
      | None \<Rightarrow> (case getJobWhiteList (cl_whiteErr e i) (cl_clock e (2 * i)) s of
          Inl x \<Rightarrow> []
        | Inr whiteList \<Rightarrow>
            filter (\<lambda>j. jb_jobName j \<notin> set whiteList \<and>
              time_sub (cl_clock e (2 * i + 1)) (jb_runningTimestamp j) >
                (if jb_jobType j = JobTypeJupyter \<or> jb_jobType j = ''webide'' then interactiveTimeout else batchTimeout))
              (running_jobs s)))"

definition classifyLongTimeJobs ::
  "cleaner_env \<Rightarrow> int \<Rightarrow> int \<Rightarrow> int \<Rightarrow> ('q, 'p, 't) platform \<Rightarrow> ('q, 'p, 't) job list \<times> ('q, 'p, 't) job list" where
  "classifyLongTimeJobs e bt it rt s =
     (let deletionJobs = getLongTimeVCjobs e 0 bt it s;
          toRemind = getLongTimeVCjobs e 1 (int64 (bt - rt)) (int64 (it - rt)) s
      in (deletionJobs, filter (\<lambda>j. jb_jobName j \<notin> jb_jobName ` set deletionJobs) toRemind))"

definition freeLongTimeVCjob ::
  "cleaner_env \<Rightarrow> ('q, 'p, 't) job \<Rightarrow> ('q, 'p, 't) platform \<Rightarrow> fault \<times> ('q, 'p, 't) platform" where
  "freeLongTimeVCjob e j s =
     (case deleteVCjobInCluster e (jb_jobName j) s of
        (Some x, s1) \<Rightarrow> (Some x, s1)
      | (None, s1) \<Rightarrow>
          if \<not> jb_alertEnabled j then (None, s1)
          else notify_CleanJob (cl_alert e (jb_jobName j)) (cl_alertNow e (jb_jobName j)) (jb_jobName j) s1)"

definition remindLongTimeVCjob ::
  "cleaner_env \<Rightarrow> time \<Rightarrow> ('q, 'p, 't) job \<Rightarrow> ('q, 'p, 't) platform \<Rightarrow> fault \<times> ('q, 'p, 't) platform" where
  "remindLongTimeVCjob e d j s =
     (if \<not> jb_alertEnabled j then (None, s)
      else RemindLongTimeRunningJob d (cl_alert e (jb_jobName j)) (cl_alertNow e (jb_jobName j)) (jb_jobName j) s)"

definition cleanLongTimeRunningJobs ::
  "cleaner_env \<Rightarrow> int \<Rightarrow> int \<Rightarrow> int \<Rightarrow> ('q, 'p, 't) platform \<Rightarrow> (string list \<times> string list) \<times> ('q, 'p, 't) platform" where
  "cleanLongTimeRunningJobs e bt it rt s =
     (let (deletionJobs, remindJobs) = classifyLongTimeJobs e bt it rt s;
          (deleted, s1) = for_each_ok (freeLongTimeVCjob e) deletionJobs s;
          (reminded, s2) = for_each_ok (remindLongTimeVCjob e (cl_clock e 4 + rt)) remindJobs s1
      in ((reminded, deleted), s2))"

text \<open>A policy's request, and its report: the names of the jobs reminded and of those deleted.\<close>

record clean_long_time_request =
  lt_batchDays :: "int option"
  lt_interactiveDays :: "int option"

definition CleanLongTimeRunningJobs ::
  "cleaner_env \<Rightarrow> clean_long_time_request option \<Rightarrow> ('q, 'p, 't) platform \<Rightarrow>
   (string list \<times> string list) result \<times> ('q, 'p, 't) platform" where
  "CleanLongTimeRunningJobs e req s =
     (case req of
        None \<Rightarrow> (Inl ''invalid request'', s)
      | Some r \<Rightarrow>
          let bt = (case lt_batchDays r of None \<Rightarrow> 4 * 24 * Hour | Some d \<Rightarrow> int64 (int64 (d * 24) * Hour));
              it = (case lt_interactiveDays r of None \<Rightarrow> 24 * Hour | Some d \<Rightarrow> int64 (int64 (d * 24) * Hour));
              (report, s') = cleanLongTimeRunningJobs e bt it (24 * Hour) s
          in (Inr report, s'))"

section \<open>Jobs that leave their GPUs idle\<close>

definition getLowGPUUsagePods ::
  "cleaner_env \<Rightarrow> int \<Rightarrow> int \<Rightarrow> ('q, 'p, 't) platform \<Rightarrow> 't vc_pod list" where
  "getLowGPUUsagePods e duration gpuUtil s =
     concat (map (\<lambda>n. case (cl_podErr e n, find_vcpod (cl_ns e) n s) of
         (None, Some p) \<Rightarrow> if cl_leastUsed e n (itoa duration) (itoa gpuUtil) \<le> 0 then [] else [p]
       | _ \<Rightarrow> [])
       (cl_gpuUtilPods e (cl_ns e)))"

definition getLowGPUUsageVCjobs ::
  "cleaner_env \<Rightarrow> nat \<Rightarrow> int \<Rightarrow> int \<Rightarrow> ('q, 'p, 't) platform \<Rightarrow> ('q, 'p, 't) job list" where
  "getLowGPUUsageVCjobs e i duration gpuUtil s =
     (case getJobWhiteList (cl_whiteErr e i) (cl_clock e i) s of
        Inl x \<Rightarrow> []
      | Inr whiteList \<Rightarrow>
          concat (map (\<lambda>p. case vp_ownerReferences p of
              [] \<Rightarrow> []
            | ow # _ \<Rightarrow>
                if or_kind ow \<noteq> ''Job'' \<or> or_apiVersion ow \<noteq> ''batch.volcano.sh/v1alpha1'' then []
                else if or_name ow \<in> set whiteList then []
                else (case (cl_firstErr e (or_name ow), job_named (or_name ow) s) of
                    (None, Some j) \<Rightarrow> [j]
                  | _ \<Rightarrow> []))
            (getLowGPUUsagePods e duration gpuUtil s)))"

definition classifyLowGPUUsageJobs ::
  "cleaner_env \<Rightarrow> int \<Rightarrow> int \<Rightarrow> int \<Rightarrow> ('q, 'p, 't) platform \<Rightarrow>
   ('q, 'p, 't) job list \<times> ('q, 'p, 't) job list \<times> ('q, 'p, 't) job list" where
  "classifyLowGPUUsageJobs e timeRange waitTime gpuUtil s =
     (let deletionJobs = getLowGPUUsageVCjobs e 0 (int64 (timeRange + waitTime)) gpuUtil s;
          toRemind = getLowGPUUsageVCjobs e 1 timeRange gpuUtil s;
          running = (case cl_runningErr e 0 of Some x \<Rightarrow> [] | None \<Rightarrow> running_jobs s);
          remindJobs = filter (\<lambda>j. jb_jobName j \<notin> jb_jobName ` set deletionJobs) toRemind;
          normalJobs = filter (\<lambda>j. jb_jobName j \<notin> jb_jobName ` set deletionJobs \<and>
                                   jb_jobName j \<notin> jb_jobName ` set remindJobs) running
      in (deletionJobs, remindJobs, normalJobs))"

definition freeLowGPUUsageVCjob ::
  "cleaner_env \<Rightarrow> ('q, 'p, 't) job \<Rightarrow> ('q, 'p, 't) platform \<Rightarrow> fault \<times> ('q, 'p, 't) platform" where
  "freeLowGPUUsageVCjob e j s =
     (case deleteVCjobInCluster e (jb_jobName j) s of
        (Some x, s1) \<Rightarrow> (Some x, s1)
      | (None, s1) \<Rightarrow>
          if \<not> jb_alertEnabled j then (None, s1)
          else (None, snd (notify_DeleteJob (cl_alert e (jb_jobName j)) (cl_alertNow e (jb_jobName j)) (jb_jobName j) s1)))"

definition remindLowGPUUsageVCjob ::
  "cleaner_env \<Rightarrow> time \<Rightarrow> ('q, 'p, 't) job \<Rightarrow> ('q, 'p, 't) platform \<Rightarrow> fault \<times> ('q, 'p, 't) platform" where
  "remindLowGPUUsageVCjob e d j s =
     (if \<not> jb_alertEnabled j then (None, s)
      else RemindLowUsageJob d (cl_alert e (jb_jobName j)) (cl_alertNow e (jb_jobName j)) (jb_jobName j) s)"

definition cleanLowGPUUsageJobs ::
  "cleaner_env \<Rightarrow> int \<Rightarrow> int \<Rightarrow> int \<Rightarrow> ('q, 'p, 't) platform \<Rightarrow> (string list \<times> string list) \<times> ('q, 'p, 't) platform" where
  "cleanLowGPUUsageJobs e timeRange waitTime gpuUtil s =
     (let (deletionJobs, remindJobs, normalJobs) = classifyLowGPUUsageJobs e timeRange waitTime gpuUtil s;
          (deleted, s1) = for_each_ok (freeLowGPUUsageVCjob e) deletionJobs s;
          deleteTime = cl_clock e 2 + int64 (waitTime * Minute);
          (reminded, s2) = for_each_ok (remindLowGPUUsageVCjob e deleteTime) remindJobs s1;
          s3 = snd (for_each_ok (\<lambda>j. allowRepeatAlert (cl_alert e (jb_jobName j)) (jb_jobName j) LowGPUJobRemindedAlert)
                 normalJobs s2)
      in ((reminded, deleted), s3))"

record clean_low_gpu_request =
  lg_timeRange :: int
  lg_waitTime :: int
  lg_util :: int

definition CleanLowGPUUsageJobs ::
  "cleaner_env \<Rightarrow> clean_low_gpu_request option \<Rightarrow> ('q, 'p, 't) platform \<Rightarrow>
   (string list \<times> string list) result \<times> ('q, 'p, 't) platform" where
  "CleanLowGPUUsageJobs e req s =
     (case req of
        None \<Rightarrow> (Inl ''invalid request'', s)
      | Some r \<Rightarrow>
          if lg_timeRange r \<le> 0 \<or> lg_waitTime r \<le> 0 then (Inl ''timeRange and waitTime must be greater than 0'', s)
          else (let (report, s') = cleanLowGPUUsageJobs e (lg_timeRange r) (lg_waitTime r) (lg_util r) s
                in (Inr report, s')))"

section \<open>Jupyter jobs that wait for a node\<close>

text \<open>What one pod's conditions say: scheduled, refused, or nothing yet.  A refusal ends the check.\<close>

fun pod_scheduled :: "(string \<times> string) list \<Rightarrow> bool option" where
  "pod_scheduled [] = Some False"
| "pod_scheduled ((ty, st) # cs) =
     (if ty \<noteq> ''PodScheduled'' then pod_scheduled cs
      else if st = ''True'' then Some True
      else if st = ''False'' then None
      else pod_scheduled cs)"

primrec pods_scheduled :: "'t vc_pod list \<Rightarrow> bool \<Rightarrow> bool" where
  "pods_scheduled [] result = result"
| "pods_scheduled (p # ps) result =
     (case pod_scheduled (vp_conditions p) of
        None \<Rightarrow> False
      | Some b \<Rightarrow> pods_scheduled ps (result \<and> b))"

definition isJobscheduled :: "cleaner_env \<Rightarrow> string \<Rightarrow> ('q, 'p, 't) platform \<Rightarrow> bool" where
  "isJobscheduled e n s =
     (case cl_listPodsErr e n of
        Some x \<Rightarrow> False
      | None \<Rightarrow>
          let pods = filter (\<lambda>p. vp_namespace p = cl_ns e \<and> gm_get (vp_labels p) ''volcano.sh/job-name'' = Some n) (pf_pods s)
          in if pods = [] then False else pods_scheduled pods True)"

definition delete_unscheduled ::
  "cleaner_env \<Rightarrow> ('q, 'p, 't) job \<Rightarrow> ('q, 'p, 't) platform \<Rightarrow> fault \<times> ('q, 'p, 't) platform" where
  "delete_unscheduled e j s =
     (if isJobscheduled e (jb_jobName j) s then (Some ''scheduled'', s) else deleteVCjobInCluster e (jb_jobName j) s)"

definition deleteUnscheduledJupyterJobs ::
  "cleaner_env \<Rightarrow> int \<Rightarrow> ('q, 'p, 't) platform \<Rightarrow> string list \<times> ('q, 'p, 't) platform" where
  "deleteUnscheduledJupyterJobs e waitMinutes s =
     (case cl_runningErr e 0 of
        Some x \<Rightarrow> ([], s)
      | None \<Rightarrow> for_each_ok (delete_unscheduled e)
          (tbl_find (\<lambda>j. jb_status j = PhasePending \<and> jb_jobType j = JobTypeJupyter \<and>
             jb_creationTimestamp j < cl_clock e 0 + int64 (int64 (- waitMinutes) * Minute)) (pf_jobs s)) s)"

record cancel_waiting_jupyter_request =
  wj_waitMinutes :: int

definition CleanWaitingJupyterJobs ::
  "cleaner_env \<Rightarrow> cancel_waiting_jupyter_request option \<Rightarrow> ('q, 'p, 't) platform \<Rightarrow>
   string list result \<times> ('q, 'p, 't) platform" where
  "CleanWaitingJupyterJobs e req s =
     (case req of
        None \<Rightarrow> (Inl ''invalid request'', s)
      | Some r \<Rightarrow> (let (deleted, s') = deleteUnscheduledJupyterJobs e (wj_waitMinutes r) s in (Inr deleted, s')))"

section \<open>What a policy does to the cluster\<close>

definition calls_ok :: "cleaner_env \<Rightarrow> string \<Rightarrow> bool" where
  "calls_ok e n \<longleftrightarrow> cl_getErr e n = None \<and> cl_deleteErr e n = None"

lemma find_vcjob_cong: "pf_vcjobs s' = pf_vcjobs s \<Longrightarrow> find_vcjob ns n s' = find_vcjob ns n s"
  by (simp add: find_vcjob_def)

lemma find_remove_vcjob: "find_vcjob ns m (remove_vcjob ns n s) = (if m = n then None else find_vcjob ns m s)"
proof -
  have *: "find (\<lambda>j. vj_name j = m \<and> vj_namespace j = ns) (filter (\<lambda>j. \<not> (vj_name j = n \<and> vj_namespace j = ns)) js) =
      (if m = n then None else find (\<lambda>j. vj_name j = m \<and> vj_namespace j = ns) js)" for js :: "'q vc_job list"
    by (induction js) auto
  show ?thesis unfolding find_vcjob_def remove_vcjob_def using * [of "pf_vcjobs s"] by simp
qed

lemma deleteVCjob_cluster:
  "find_vcjob (cl_ns e) m (snd (deleteVCjobInCluster e n s)) =
     (if m = n \<and> calls_ok e n then None else find_vcjob (cl_ns e) m s)"
  "fst (deleteVCjobInCluster e n s) = None \<longleftrightarrow> calls_ok e n \<and> find_vcjob (cl_ns e) n s \<noteq> None"
  by (auto simp: deleteVCjobInCluster_def calls_ok_def find_remove_vcjob split: option.splits)

lemma deleteVCjob_frame [simp]:
  "pf_jobs (snd (deleteVCjobInCluster e n s)) = pf_jobs s"
  "pf_outbox (snd (deleteVCjobInCluster e n s)) = pf_outbox s"
  "pf_alerts (snd (deleteVCjobInCluster e n s)) = pf_alerts s"
  by (auto simp: deleteVCjobInCluster_def remove_vcjob_def split: option.splits)

lemma for_each_ok_Cons:
  "for_each_ok f (j # js) s =
     (if fst (f j s) = None then jb_jobName j # fst (for_each_ok f js (snd (f j s))) else fst (for_each_ok f js (snd (f j s))),
      snd (for_each_ok f js (snd (f j s))))"
  by (simp add: split_def Let_def)

lemma for_each_ok_subset: "set (fst (for_each_ok f js s)) \<subseteq> jb_jobName ` set js"
proof (induction js arbitrary: s)
  case (Cons j js)
  with Cons.IH [of "snd (f j s)"] show ?case by (auto simp: for_each_ok_Cons simp del: for_each_ok.simps(2))
qed simp

lemma for_each_ok_invariant:
  "(\<And>j s. j \<in> set js \<Longrightarrow> I s \<Longrightarrow> I (snd (f j s))) \<Longrightarrow> I s \<Longrightarrow> I (snd (for_each_ok f js s))"
  by (induction js arbitrary: s) (simp_all add: for_each_ok_Cons del: for_each_ok.simps(2))

text \<open>A loop of deletions removes from the cluster the jobs named whose calls succeed, and no others.\<close>

lemma for_each_deletes:
  assumes "\<And>j s m. find_vcjob (cl_ns e) m (snd (f j s)) =
      (if m = jb_jobName j \<and> calls_ok e m then None else find_vcjob (cl_ns e) m s)"
  shows "find_vcjob (cl_ns e) m (snd (for_each_ok f js s)) =
      (if m \<in> jb_jobName ` set js \<and> calls_ok e m then None else find_vcjob (cl_ns e) m s)"
  by (induction js arbitrary: s) (auto simp: for_each_ok_Cons assms simp del: for_each_ok.simps(2))

lemma for_each_reported:
  assumes del: "\<And>j s m. find_vcjob (cl_ns e) m (snd (f j s)) =
      (if m = jb_jobName j \<and> calls_ok e m then None else find_vcjob (cl_ns e) m s)"
    and rep: "\<And>j s. fst (f j s) = None \<longleftrightarrow> calls_ok e (jb_jobName j) \<and> find_vcjob (cl_ns e) (jb_jobName j) s \<noteq> None"
  shows "m \<in> set (fst (for_each_ok f js s)) \<longleftrightarrow>
      m \<in> jb_jobName ` set js \<and> calls_ok e m \<and> find_vcjob (cl_ns e) m s \<noteq> None"
proof (induction js arbitrary: s)
  case (Cons j js)
  then show ?case using rep [of j s] del [of m j s] by (auto simp: for_each_ok_Cons simp del: for_each_ok.simps(2))
qed simp

lemma free_low_cluster:
  "find_vcjob (cl_ns e) m (snd (freeLowGPUUsageVCjob e j s)) =
     (if m = jb_jobName j \<and> calls_ok e m then None else find_vcjob (cl_ns e) m s)"
  "fst (freeLowGPUUsageVCjob e j s) = None \<longleftrightarrow>
     calls_ok e (jb_jobName j) \<and> find_vcjob (cl_ns e) (jb_jobName j) s \<noteq> None"
proof -
  obtain x s1 where d: "deleteVCjobInCluster e (jb_jobName j) s = (x, s1)" by (cases "deleteVCjobInCluster e (jb_jobName j) s")
  have s1: "find_vcjob (cl_ns e) m s1 = (if m = jb_jobName j \<and> calls_ok e m then None else find_vcjob (cl_ns e) m s)" for m
    using deleteVCjob_cluster(1) [of e m "jb_jobName j" s] d by auto
  show "find_vcjob (cl_ns e) m (snd (freeLowGPUUsageVCjob e j s)) =
     (if m = jb_jobName j \<and> calls_ok e m then None else find_vcjob (cl_ns e) m s)"
    using s1 [of m] by (auto simp: freeLowGPUUsageVCjob_def d notify_defs find_vcjob_def split: option.splits)
  show "fst (freeLowGPUUsageVCjob e j s) = None \<longleftrightarrow>
     calls_ok e (jb_jobName j) \<and> find_vcjob (cl_ns e) (jb_jobName j) s \<noteq> None"
    using deleteVCjob_cluster(2) [of e "jb_jobName j" s] by (auto simp: freeLowGPUUsageVCjob_def d split: option.splits)
qed

lemma free_long_cluster:
  "find_vcjob (cl_ns e) m (snd (freeLongTimeVCjob e j s)) =
     (if m = jb_jobName j \<and> calls_ok e m then None else find_vcjob (cl_ns e) m s)"
  "fst (freeLongTimeVCjob e j s) = None \<Longrightarrow> calls_ok e (jb_jobName j) \<and> find_vcjob (cl_ns e) (jb_jobName j) s \<noteq> None"
proof -
  obtain x s1 where d: "deleteVCjobInCluster e (jb_jobName j) s = (x, s1)" by (cases "deleteVCjobInCluster e (jb_jobName j) s")
  have s1: "find_vcjob (cl_ns e) m s1 = (if m = jb_jobName j \<and> calls_ok e m then None else find_vcjob (cl_ns e) m s)" for m
    using deleteVCjob_cluster(1) [of e m "jb_jobName j" s] d by auto
  show "find_vcjob (cl_ns e) m (snd (freeLongTimeVCjob e j s)) =
     (if m = jb_jobName j \<and> calls_ok e m then None else find_vcjob (cl_ns e) m s)"
    using s1 [of m] by (auto simp: freeLongTimeVCjob_def d notify_defs find_vcjob_def split: option.splits)
  show "fst (freeLongTimeVCjob e j s) = None \<Longrightarrow>
     calls_ok e (jb_jobName j) \<and> find_vcjob (cl_ns e) (jb_jobName j) s \<noteq> None"
    using deleteVCjob_cluster(2) [of e "jb_jobName j" s] by (auto simp: freeLongTimeVCjob_def d split: option.splits)
qed

lemma remind_frame [simp]:
  "pf_vcjobs (snd (remindLongTimeVCjob e d j s)) = pf_vcjobs s"
  "pf_vcjobs (snd (remindLowGPUUsageVCjob e d j s)) = pf_vcjobs s"
  by (simp_all add: remindLongTimeVCjob_def remindLowGPUUsageVCjob_def notify_defs)

lemma for_each_same_cluster:
  "(\<And>j s. pf_vcjobs (snd (f j s)) = pf_vcjobs s) \<Longrightarrow> pf_vcjobs (snd (for_each_ok f js s)) = pf_vcjobs s"
  by (induction js arbitrary: s) (simp_all add: for_each_ok_Cons del: for_each_ok.simps(2))

lemma for_each_long_subset:
  "set (fst (for_each_ok (freeLongTimeVCjob e) js s)) \<subseteq>
     {m. m \<in> jb_jobName ` set js \<and> calls_ok e m \<and> find_vcjob (cl_ns e) m s \<noteq> None}"
proof (induction js arbitrary: s)
  case (Cons j js)
  show ?case
    using Cons.IH [of "snd (freeLongTimeVCjob e j s)"] free_long_cluster(1) [of e _ j s] free_long_cluster(2) [of e j s]
    by (auto simp: for_each_ok_Cons simp del: for_each_ok.simps(2) split: if_splits)
qed simp

lemma CleanLong_cluster:
  "find_vcjob (cl_ns e) m (snd (cleanLongTimeRunningJobs e bt it rt s)) =
     (if m \<in> jb_jobName ` set (getLongTimeVCjobs e 0 bt it s) \<and> calls_ok e m then None else find_vcjob (cl_ns e) m s)"
proof -
  define s1 where "s1 = snd (for_each_ok (freeLongTimeVCjob e) (getLongTimeVCjobs e 0 bt it s) s)"
  have "pf_vcjobs (snd (cleanLongTimeRunningJobs e bt it rt s)) = pf_vcjobs s1"
    by (simp add: cleanLongTimeRunningJobs_def classifyLongTimeJobs_def Let_def split_def s1_def for_each_same_cluster)
  then have "find_vcjob (cl_ns e) m (snd (cleanLongTimeRunningJobs e bt it rt s)) = find_vcjob (cl_ns e) m s1"
    by (rule find_vcjob_cong)
  then show ?thesis by (simp add: s1_def for_each_deletes [OF free_long_cluster(1)])
qed

lemma CleanLow_cluster:
  "find_vcjob (cl_ns e) m (snd (cleanLowGPUUsageJobs e tr wt u s)) =
     (if m \<in> jb_jobName ` set (getLowGPUUsageVCjobs e 0 (int64 (tr + wt)) u s) \<and> calls_ok e m then None
      else find_vcjob (cl_ns e) m s)"
proof -
  define s1 where "s1 = snd (for_each_ok (freeLowGPUUsageVCjob e) (getLowGPUUsageVCjobs e 0 (int64 (tr + wt)) u s) s)"
  have "pf_vcjobs (snd (cleanLowGPUUsageJobs e tr wt u s)) = pf_vcjobs s1"
    by (simp add: cleanLowGPUUsageJobs_def classifyLowGPUUsageJobs_def Let_def split_def s1_def for_each_same_cluster)
  then have "find_vcjob (cl_ns e) m (snd (cleanLowGPUUsageJobs e tr wt u s)) = find_vcjob (cl_ns e) m s1"
    by (rule find_vcjob_cong)
  then show ?thesis by (simp add: s1_def for_each_deletes [OF free_low_cluster(1)])
qed

text \<open>What a policy did to the cluster.  Both policies remove exactly the jobs they chose whose
  cluster calls succeed.  The low-usage policy reports as deleted exactly those that were there; the
  long-running policy reports only jobs it removed.\<close>

theorem policies_delete_chosen:
  "find_vcjob (cl_ns e) m (snd (cleanLowGPUUsageJobs e tr wt u s)) =
     (if m \<in> jb_jobName ` set (getLowGPUUsageVCjobs e 0 (int64 (tr + wt)) u s) \<and> calls_ok e m then None
      else find_vcjob (cl_ns e) m s) \<and>
   (m \<in> set (snd (fst (cleanLowGPUUsageJobs e tr wt u s))) \<longleftrightarrow>
     m \<in> jb_jobName ` set (getLowGPUUsageVCjobs e 0 (int64 (tr + wt)) u s) \<and> calls_ok e m \<and> find_vcjob (cl_ns e) m s \<noteq> None) \<and>
   find_vcjob (cl_ns e) m (snd (cleanLongTimeRunningJobs e bt it rt s)) =
     (if m \<in> jb_jobName ` set (getLongTimeVCjobs e 0 bt it s) \<and> calls_ok e m then None else find_vcjob (cl_ns e) m s) \<and>
   set (snd (fst (cleanLongTimeRunningJobs e bt it rt s))) \<subseteq>
     {n. find_vcjob (cl_ns e) n s \<noteq> None \<and> find_vcjob (cl_ns e) n (snd (cleanLongTimeRunningJobs e bt it rt s)) = None}"
proof -
  have "snd (fst (cleanLowGPUUsageJobs e tr wt u s)) =
      fst (for_each_ok (freeLowGPUUsageVCjob e) (getLowGPUUsageVCjobs e 0 (int64 (tr + wt)) u s) s)"
    by (simp add: cleanLowGPUUsageJobs_def classifyLowGPUUsageJobs_def Let_def split_def)
  then have low: "m \<in> set (snd (fst (cleanLowGPUUsageJobs e tr wt u s))) \<longleftrightarrow>
     m \<in> jb_jobName ` set (getLowGPUUsageVCjobs e 0 (int64 (tr + wt)) u s) \<and> calls_ok e m \<and> find_vcjob (cl_ns e) m s \<noteq> None"
    using for_each_reported [of e "freeLowGPUUsageVCjob e", OF free_low_cluster] by simp
  have rep: "snd (fst (cleanLongTimeRunningJobs e bt it rt s)) =
      fst (for_each_ok (freeLongTimeVCjob e) (getLongTimeVCjobs e 0 bt it s) s)"
    by (simp add: cleanLongTimeRunningJobs_def classifyLongTimeJobs_def Let_def split_def)
  have "set (snd (fst (cleanLongTimeRunningJobs e bt it rt s))) \<subseteq>
     {n. find_vcjob (cl_ns e) n s \<noteq> None \<and> find_vcjob (cl_ns e) n (snd (cleanLongTimeRunningJobs e bt it rt s)) = None}"
    using for_each_long_subset [of e "getLongTimeVCjobs e 0 bt it s" s] unfolding rep CleanLong_cluster by auto
  with low show ?thesis using CleanLow_cluster CleanLong_cluster by blast
qed

text \<open>A job whose message cannot be sent is deleted and not reported.\<close>

lemma long_time_report_loses_job:
  assumes "calls_ok e (jb_jobName j)" and "find_vcjob (cl_ns e) (jb_jobName j) s \<noteq> None"
    and "jb_alertEnabled j" and "ae_err (cl_alert e (jb_jobName j)) = Some x"
  shows "find_vcjob (cl_ns e) (jb_jobName j) (snd (freeLongTimeVCjob e j s)) = None \<and>
    for_each_ok (freeLongTimeVCjob e) [j] s = ([], snd (freeLongTimeVCjob e j s))"
proof -
  obtain s1 where "deleteVCjobInCluster e (jb_jobName j) s = (None, s1)"
    using deleteVCjob_cluster(2) [of e "jb_jobName j" s] assms(1,2) by (cases "deleteVCjobInCluster e (jb_jobName j) s") auto
  then have "fst (freeLongTimeVCjob e j s) = Some x"
    using assms(3,4) by (simp add: freeLongTimeVCjob_def notify_defs sendJobNotification_def)
  with free_long_cluster(1) [of e "jb_jobName j" j s] assms(1) show ?thesis
    by (simp add: for_each_ok_Cons del: for_each_ok.simps(2))
qed

section \<open>Which jobs a policy chooses\<close>

definition time_limit :: "int \<Rightarrow> int \<Rightarrow> ('q, 'p, 't) job \<Rightarrow> int" where
  "time_limit bt it j = (if jb_jobType j = JobTypeJupyter \<or> jb_jobType j = ''webide'' then it else bt)"

definition locked_at :: "time \<Rightarrow> ('q, 'p, 't) platform \<Rightarrow> string set" where
  "locked_at now s = {jb_jobName j | j. j \<in> set (pf_jobs s) \<and> now < jb_lockedTimestamp j}"

lemma getLongTimeVCjobs_eq:
  "getLongTimeVCjobs e i bt it s =
     (if cl_runningErr e i = None \<and> cl_whiteErr e i = None then
        filter (\<lambda>j. jb_status j = PhaseRunning \<and> jb_jobName j \<notin> locked_at (cl_clock e (2 * i)) s \<and>
          time_limit bt it j < time_sub (cl_clock e (2 * i + 1)) (jb_runningTimestamp j)) (pf_jobs s)
      else [])"
proof -
  have "set (map jb_jobName (tbl_find (\<lambda>j. jb_lockedTimestamp j > now) (pf_jobs s))) = locked_at now s" for now
    by (auto simp: tbl_find_def locked_at_def)
  then show ?thesis
    by (auto simp: getLongTimeVCjobs_def getJobWhiteList_def running_jobs_def tbl_find_def time_limit_def
        intro!: filter_cong split: option.splits)
qed

lemma low_jobs_unlocked:
  "j \<in> set (getLowGPUUsageVCjobs e i d u s) \<Longrightarrow> cl_whiteErr e i = None \<and> jb_jobName j \<notin> locked_at (cl_clock e i) s"
  by (auto simp: getLowGPUUsageVCjobs_def getJobWhiteList_def locked_at_def tbl_find_def job_named_def
      dest!: tbl_first_Some [OF sym] split: option.splits sum.splits list.splits if_splits)

text \<open>The choice of the long-running policy: when its queries succeed it deletes the running,
  unlocked jobs older than the limit of their kind and reminds those within a day of it, in table
  order; when a query fails it chooses no job.  With distinct names no job is in both lists.\<close>

theorem long_time_choice:
  assumes "classifyLongTimeJobs e bt it rt s = (del, rem)"
    and "cl_runningErr e 0 = None" and "cl_whiteErr e 0 = None"
    and "cl_runningErr e 1 = None" and "cl_whiteErr e 1 = None"
    and "\<forall>i < 4. cl_clock e i = now"
    and "distinct (map jb_jobName (pf_jobs s))"
    and "0 \<le> rt" and "rt - 2 ^ 63 \<le> min bt it" and "max bt it < 2 ^ 63"
  defines "age \<equiv> \<lambda>j. time_sub now (jb_runningTimestamp j)"
    and "candidate \<equiv> \<lambda>j. jb_status j = PhaseRunning \<and> jb_jobName j \<notin> locked_at now s"
  shows "del = filter (\<lambda>j. candidate j \<and> time_limit bt it j < age j) (pf_jobs s) \<and>
    rem = filter (\<lambda>j. candidate j \<and> time_limit bt it j - rt < age j \<and> age j \<le> time_limit bt it j) (pf_jobs s)"
proof -
  have clk: "cl_clock e 0 = now" "cl_clock e 1 = now" "cl_clock e 2 = now" "cl_clock e 3 = now" using assms(6) by auto
  have wrap: "int64 (bt - rt) = bt - rt" "int64 (it - rt) = it - rt"
    using assms(8-10) by (simp_all add: int64_def)
  have del: "del = filter (\<lambda>j. candidate j \<and> time_limit bt it j < age j) (pf_jobs s)"
    using assms(1-3) clk by (auto simp: classifyLongTimeJobs_def getLongTimeVCjobs_eq candidate_def age_def Let_def intro: filter_cong)
  have lim: "time_limit (bt - rt) (it - rt) j = time_limit bt it j - rt" for j :: "('a, 'b, 'c) job"
    by (simp add: time_limit_def)
  have "rem = filter (\<lambda>j. jb_jobName j \<notin> jb_jobName ` set del)
      (filter (\<lambda>j. candidate j \<and> time_limit bt it j - rt < age j) (pf_jobs s))"
    using assms(1,4,5) clk by (auto simp: classifyLongTimeJobs_def getLongTimeVCjobs_eq [of e "Suc 0"] candidate_def age_def Let_def
        wrap lim numeral_3_eq_3 intro!: filter_cong)
  also have "\<dots> = filter (\<lambda>j. candidate j \<and> time_limit bt it j - rt < age j \<and> age j \<le> time_limit bt it j) (pf_jobs s)"
  proof -
    have "jb_jobName j \<in> jb_jobName ` set del \<longleftrightarrow> candidate j \<and> time_limit bt it j < age j"
      if "j \<in> set (pf_jobs s)" for j
      using that assms(7) del by (auto simp: distinct_map dest: inj_onD)
    then show ?thesis unfolding filter_filter by (intro filter_cong refl) (simp only: not_less de_Morgan_conj, argo)
  qed
  finally show ?thesis using del by simp
qed

text \<open>Neither policy touches a job it has not chosen: its cluster object stays and no message about it goes out.\<close>

definition untouched :: "string \<Rightarrow> string \<Rightarrow> ('q, 'p, 't) platform \<Rightarrow> ('q, 'p, 't) platform \<Rightarrow> bool" where
  "untouched ns n s s' \<longleftrightarrow> find_vcjob ns n s' = find_vcjob ns n s \<and> (\<forall>t. mails n t s' = mails n t s)"

lemma untouched_refl [simp]: "untouched ns n s s"
  by (simp add: untouched_def)

lemma untouched_trans: "untouched ns n s s' \<Longrightarrow> untouched ns n s' s'' \<Longrightarrow> untouched ns n s s''"
  by (simp add: untouched_def)

lemma untouched_for_each:
  "(\<And>j s. j \<in> set js \<Longrightarrow> untouched ns n s (snd (f j s))) \<Longrightarrow> untouched ns n s (snd (for_each_ok f js s))"
  by (rule for_each_ok_invariant [where I = "untouched ns n s"]) (auto intro: untouched_trans)

lemma untouched_deleteVCjob: "m \<noteq> n \<Longrightarrow> untouched (cl_ns e) n s (snd (deleteVCjobInCluster e m s))"
  by (simp add: untouched_def deleteVCjob_cluster mails_cong [OF deleteVCjob_frame(2)])

lemma untouched_notify: "m \<noteq> n \<Longrightarrow> untouched ns n s (snd (sendJobNotification a now m t c (job_body d) s))"
  by (simp add: untouched_def sendJobNotification_mails find_vcjob_cong [OF sendJobNotification_frame(1)])

lemma untouched_policy_steps:
  assumes "jb_jobName j \<noteq> n"
  shows "untouched (cl_ns e) n s (snd (freeLongTimeVCjob e j s))"
    and "untouched (cl_ns e) n s (snd (remindLongTimeVCjob e d j s))"
    and "untouched (cl_ns e) n s (snd (freeLowGPUUsageVCjob e j s))"
    and "untouched (cl_ns e) n s (snd (remindLowGPUUsageVCjob e d j s))"
proof -
  obtain x s1 where d: "deleteVCjobInCluster e (jb_jobName j) s = (x, s1)" by (cases "deleteVCjobInCluster e (jb_jobName j) s")
  have s1: "untouched (cl_ns e) n s s1" using untouched_deleteVCjob [OF assms, of e s] d by simp
  show "untouched (cl_ns e) n s (snd (freeLongTimeVCjob e j s))" "untouched (cl_ns e) n s (snd (freeLowGPUUsageVCjob e j s))"
    by (simp_all add: freeLongTimeVCjob_def freeLowGPUUsageVCjob_def d notify_defs s1
        untouched_trans [OF s1 untouched_notify [OF assms]] split: option.split)
  show "untouched (cl_ns e) n s (snd (remindLongTimeVCjob e d j s))" "untouched (cl_ns e) n s (snd (remindLowGPUUsageVCjob e d j s))"
    by (simp_all add: remindLongTimeVCjob_def remindLowGPUUsageVCjob_def notify_defs untouched_notify [OF assms])
qed

lemma untouched_allowRepeat: "untouched ns n s (snd (allowRepeatAlert a m t s))"
  by (simp add: untouched_def find_vcjob_cong [OF allowRepeatAlert_frame(1)] mails_cong [OF allowRepeatAlert_frame(3)])

lemma untouched_long:
  assumes "\<And>bt it i j. j \<in> set (getLongTimeVCjobs e i bt it s) \<Longrightarrow> jb_jobName j \<noteq> n"
  shows "untouched (cl_ns e) n s (snd (cleanLongTimeRunningJobs e bt it rt s)) \<and>
    n \<notin> set (fst (fst (cleanLongTimeRunningJobs e bt it rt s))) \<and> n \<notin> set (snd (fst (cleanLongTimeRunningJobs e bt it rt s)))"
proof -
  let ?del = "fst (classifyLongTimeJobs e bt it rt s)" and ?rem = "snd (classifyLongTimeJobs e bt it rt s)"
  have ne: "j \<in> set ?del \<union> set ?rem \<Longrightarrow> jb_jobName j \<noteq> n" for j
    using assms by (auto simp: classifyLongTimeJobs_def Let_def)
  define s1 where "s1 = snd (for_each_ok (freeLongTimeVCjob e) ?del s)"
  have "untouched (cl_ns e) n s s1"
    unfolding s1_def by (rule untouched_for_each) (use ne untouched_policy_steps in blast)
  moreover have "untouched (cl_ns e) n s1 (snd (for_each_ok (remindLongTimeVCjob e (cl_clock e 4 + rt)) ?rem s1))"
    by (rule untouched_for_each) (use ne untouched_policy_steps in blast)
  moreover have "n \<notin> set (fst (for_each_ok f ?del x))" "n \<notin> set (fst (for_each_ok f ?rem x))" for f x
    using for_each_ok_subset [of f ?del x] for_each_ok_subset [of f ?rem x] ne by fastforce+
  ultimately show ?thesis
    by (simp add: cleanLongTimeRunningJobs_def split_def Let_def s1_def untouched_trans)
qed

lemma untouched_low:
  assumes "\<And>i d j. j \<in> set (getLowGPUUsageVCjobs e i d u s) \<Longrightarrow> jb_jobName j \<noteq> n"
  shows "untouched (cl_ns e) n s (snd (cleanLowGPUUsageJobs e tr wt u s)) \<and>
    n \<notin> set (fst (fst (cleanLowGPUUsageJobs e tr wt u s))) \<and> n \<notin> set (snd (fst (cleanLowGPUUsageJobs e tr wt u s)))"
proof -
  obtain del rem norm where cl: "classifyLowGPUUsageJobs e tr wt u s = (del, rem, norm)"
    by (cases "classifyLowGPUUsageJobs e tr wt u s") auto
  have "set del \<subseteq> set (getLowGPUUsageVCjobs e 0 (int64 (tr + wt)) u s)" "set rem \<subseteq> set (getLowGPUUsageVCjobs e 1 tr u s)"
    using cl by (auto simp: classifyLowGPUUsageJobs_def Let_def)
  then have ne: "j \<in> set del \<union> set rem \<Longrightarrow> jb_jobName j \<noteq> n" for j using assms by blast
  define s1 where "s1 = snd (for_each_ok (freeLowGPUUsageVCjob e) del s)"
  define s2 where "s2 = snd (for_each_ok (remindLowGPUUsageVCjob e (cl_clock e 2 + int64 (wt * Minute))) rem s1)"
  have "untouched (cl_ns e) n s s1"
    unfolding s1_def by (intro untouched_for_each untouched_policy_steps(3) ne UnI1)
  moreover have "untouched (cl_ns e) n s1 s2"
    unfolding s2_def by (intro untouched_for_each untouched_policy_steps(4) ne UnI2)
  moreover have "untouched (cl_ns e) n s2 (snd (for_each_ok
      (\<lambda>j. allowRepeatAlert (cl_alert e (jb_jobName j)) (jb_jobName j) LowGPUJobRemindedAlert) norm s2))"
    by (rule untouched_for_each) (rule untouched_allowRepeat)
  moreover have names: "n \<notin> jb_jobName ` set del" "n \<notin> jb_jobName ` set rem" using ne by auto
  moreover have "n \<notin> set (fst (for_each_ok f del x))" "n \<notin> set (fst (for_each_ok f rem x))" for f x
    using names for_each_ok_subset by blast+
  ultimately show ?thesis
    by (simp add: cleanLowGPUUsageJobs_def cl split_def Let_def s1_def s2_def) (meson untouched_trans)
qed

lemma locked_jobs_untouched:
  assumes "j \<in> set (pf_jobs s)" and "jb_jobName j = n" and "\<forall>i. cl_clock e i < jb_lockedTimestamp j"
  shows "untouched (cl_ns e) n s (snd (CleanLongTimeRunningJobs e req s))"
    and "untouched (cl_ns e) n s (snd (CleanLowGPUUsageJobs e req' s))"
    and "fst (CleanLongTimeRunningJobs e req s) = Inr (reminded, deleted) \<Longrightarrow> n \<notin> set reminded \<and> n \<notin> set deleted"
    and "fst (CleanLowGPUUsageJobs e req' s) = Inr (reminded, deleted) \<Longrightarrow> n \<notin> set reminded \<and> n \<notin> set deleted"
proof -
  have locked: "n \<in> locked_at (cl_clock e i) s" for i using assms by (auto simp: locked_at_def)
  have l: "jb_jobName k \<noteq> n" if "k \<in> set (getLongTimeVCjobs e i bt it s)" for k bt it i
    using that locked [of "2 * i"] by (auto simp: getLongTimeVCjobs_eq split: if_splits)
  have g: "jb_jobName k \<noteq> n" if "k \<in> set (getLowGPUUsageVCjobs e i d u s)" for k i d u
    using low_jobs_unlocked [OF that] locked [of i] by auto
  have long: "untouched (cl_ns e) n s (snd (cleanLongTimeRunningJobs e bt it rt s)) \<and>
      n \<notin> set (fst (fst (cleanLongTimeRunningJobs e bt it rt s))) \<and> n \<notin> set (snd (fst (cleanLongTimeRunningJobs e bt it rt s)))"
    for bt it rt by (rule untouched_long) (rule l)
  have low: "untouched (cl_ns e) n s (snd (cleanLowGPUUsageJobs e tr wt u s)) \<and>
      n \<notin> set (fst (fst (cleanLowGPUUsageJobs e tr wt u s))) \<and> n \<notin> set (snd (fst (cleanLowGPUUsageJobs e tr wt u s)))"
    for tr wt u by (rule untouched_low) (rule g)
  show "untouched (cl_ns e) n s (snd (CleanLongTimeRunningJobs e req s))"
    by (simp add: CleanLongTimeRunningJobs_def split_def Let_def long split: option.split)
  show "untouched (cl_ns e) n s (snd (CleanLowGPUUsageJobs e req' s))"
    by (simp add: CleanLowGPUUsageJobs_def split_def Let_def low split: option.split)
  show "fst (CleanLongTimeRunningJobs e req s) = Inr (reminded, deleted) \<Longrightarrow> n \<notin> set reminded \<and> n \<notin> set deleted"
    using long by (fastforce simp: CleanLongTimeRunningJobs_def split_def Let_def prod_eq_iff split: option.splits)
  show "fst (CleanLowGPUUsageJobs e req' s) = Inr (reminded, deleted) \<Longrightarrow> n \<notin> set reminded \<and> n \<notin> set deleted"
    using low by (fastforce simp: CleanLowGPUUsageJobs_def split_def Let_def prod_eq_iff split: option.splits if_splits)
qed

text \<open>Claim C3. A locked job is safe: whatever fails in the database, in the cluster or in the monitoring,
  and whatever the request asks for, a job whose lock is in the future at every reading of the clock
  is neither deleted nor reminded by the two policies, and no message about it is sent.\<close>

theorem locked_jobs_survive:
  assumes "j \<in> set (pf_jobs s)" and "jb_jobName j = n" and "\<forall>i. cl_clock e i < jb_lockedTimestamp j"
  shows "untouched (cl_ns e) n s (snd (CleanLongTimeRunningJobs e req s)) \<and>
    untouched (cl_ns e) n s (snd (CleanLowGPUUsageJobs e req' s)) \<and>
    (\<forall>reminded deleted. fst (CleanLongTimeRunningJobs e req s) = Inr (reminded, deleted) \<or>
        fst (CleanLowGPUUsageJobs e req' s) = Inr (reminded, deleted) \<longrightarrow> n \<notin> set reminded \<and> n \<notin> set deleted)"
  using locked_jobs_untouched [OF assms] by blast

definition quiet_cleaner :: "time \<Rightarrow> cleaner_env" where
  "quiet_cleaner now = \<lparr>cl_ns = ''ns'', cl_clock = \<lambda>_. now, cl_runningErr = \<lambda>_. None, cl_whiteErr = \<lambda>_. None,
     cl_firstErr = \<lambda>_. None, cl_getErr = \<lambda>_. None, cl_deleteErr = \<lambda>_. None, cl_podErr = \<lambda>_. None,
     cl_listPodsErr = \<lambda>_. None, cl_gpuUtilPods = \<lambda>_. [], cl_leastUsed = \<lambda>_ _ _. 1,
     cl_alert = \<lambda>_. quiet_alerts, cl_alertNow = \<lambda>_. now\<rparr>"

lemma locked_jobs_survive_witness:
  "untouched ''ns'' ''job-1'' (sample_platform\<lparr>pf_jobs := [sample_job\<lparr>jb_lockedTimestamp := 2000000000000000\<rparr>]\<rparr>)
     (snd (CleanLongTimeRunningJobs (quiet_cleaner 1000000000000000) (Some \<lparr>lt_batchDays = Some 1, lt_interactiveDays = None\<rparr>)
       (sample_platform\<lparr>pf_jobs := [sample_job\<lparr>jb_lockedTimestamp := 2000000000000000\<rparr>]\<rparr>)))"
  using locked_jobs_survive [of "sample_job\<lparr>jb_lockedTimestamp := 2000000000000000\<rparr>"
      "sample_platform\<lparr>pf_jobs := [sample_job\<lparr>jb_lockedTimestamp := 2000000000000000\<rparr>]\<rparr>" "''job-1''"
      "quiet_cleaner 1000000000000000" "Some \<lparr>lt_batchDays = Some 1, lt_interactiveDays = None\<rparr>" None]
  by (simp add: quiet_cleaner_def sample_job_def)

lemma long_time_choice_witness:
  "classifyLongTimeJobs (quiet_cleaner 1000000000000000) (4 * 24 * Hour) (24 * Hour) (24 * Hour) sample_platform = ([sample_job], [])"
proof -
  obtain del rem where c: "classifyLongTimeJobs (quiet_cleaner 1000000000000000) (4 * 24 * Hour) (24 * Hour) (24 * Hour)
      sample_platform = (del, rem)" by (cases "classifyLongTimeJobs (quiet_cleaner 1000000000000000) (4 * 24 * Hour) (24 * Hour) (24 * Hour) sample_platform") auto
  from long_time_choice [OF c, of 1000000000000000] show ?thesis
    unfolding c by (simp add: quiet_cleaner_def sample_platform_def sample_job_def locked_at_def time_limit_def time_sub_def)
qed

section \<open>Which Jupyter jobs are cancelled\<close>

text \<open>The verdict on a pod is its first \<open>PodScheduled\<close> condition that is true or false.\<close>

definition pod_verdict :: "(string \<times> string) list \<Rightarrow> string option" where
  "pod_verdict cs = map_option snd (find (\<lambda>(ty, st). ty = ''PodScheduled'' \<and> st \<in> {''True'', ''False''}) cs)"

definition job_pods :: "string \<Rightarrow> string \<Rightarrow> ('q, 'p, 't) platform \<Rightarrow> 't vc_pod list" where
  "job_pods ns n s = filter (\<lambda>p. vp_namespace p = ns \<and> gm_get (vp_labels p) ''volcano.sh/job-name'' = Some n) (pf_pods s)"

lemma pod_scheduled_verdict:
  "pod_scheduled cs = (case pod_verdict cs of None \<Rightarrow> Some False | Some st \<Rightarrow> if st = ''True'' then Some True else None)"
  by (induction cs rule: pod_scheduled.induct) (auto simp: pod_verdict_def)

lemma pods_scheduled_all:
  "pods_scheduled ps result \<longleftrightarrow> result \<and> (\<forall>p \<in> set ps. pod_verdict (vp_conditions p) = Some ''True'')"
  by (induction ps arbitrary: result) (auto simp: pod_scheduled_verdict split: option.splits)

lemma isJobscheduled_iff:
  "isJobscheduled e n s \<longleftrightarrow> cl_listPodsErr e n = None \<and> job_pods (cl_ns e) n s \<noteq> [] \<and>
     (\<forall>p \<in> set (job_pods (cl_ns e) n s). pod_verdict (vp_conditions p) = Some ''True'')"
  by (auto simp: isJobscheduled_def job_pods_def pods_scheduled_all Let_def split: option.splits)

lemma isJobscheduled_cong: "pf_pods s' = pf_pods s \<Longrightarrow> isJobscheduled e n s' = isJobscheduled e n s"
  by (simp add: isJobscheduled_iff job_pods_def)

lemma deleteVCjob_pods [simp]: "pf_pods (snd (deleteVCjobInCluster e n s)) = pf_pods s"
  by (auto simp: deleteVCjobInCluster_def remove_vcjob_def split: option.splits)

lemma for_each_unscheduled:
  assumes "\<And>n. isJobscheduled e n s = sched n"
  shows "find_vcjob (cl_ns e) m (snd (for_each_ok (delete_unscheduled e) js s)) =
      (if m \<in> jb_jobName ` set js \<and> calls_ok e m \<and> \<not> sched m then None else find_vcjob (cl_ns e) m s) \<and>
    (m \<in> set (fst (for_each_ok (delete_unscheduled e) js s)) \<longleftrightarrow>
      m \<in> jb_jobName ` set js \<and> calls_ok e m \<and> \<not> sched m \<and> find_vcjob (cl_ns e) m s \<noteq> None)"
  using assms
proof (induction js arbitrary: s)
  case (Cons j js)
  define s1 where "s1 = snd (delete_unscheduled e j s)"
  have "pf_pods s1 = pf_pods s" by (simp add: s1_def delete_unscheduled_def)
  then have "\<And>n. isJobscheduled e n s1 = sched n" using Cons.prems isJobscheduled_cong by metis
  note ih = Cons.IH [OF this]
  have s1: "find_vcjob (cl_ns e) k s1 =
      (if k = jb_jobName j \<and> calls_ok e k \<and> \<not> sched k then None else find_vcjob (cl_ns e) k s)" for k
    using Cons.prems [of "jb_jobName j"] by (auto simp: s1_def delete_unscheduled_def deleteVCjob_cluster)
  have ok: "fst (delete_unscheduled e j s) = None \<longleftrightarrow>
      \<not> sched (jb_jobName j) \<and> calls_ok e (jb_jobName j) \<and> find_vcjob (cl_ns e) (jb_jobName j) s \<noteq> None"
    using Cons.prems [of "jb_jobName j"] by (auto simp: delete_unscheduled_def deleteVCjob_cluster)
  show ?case
    using ih s1 [of m] by (auto simp: for_each_ok_Cons ok s1_def [symmetric] simp del: for_each_ok.simps(2))
qed simp

text \<open>The waiting policy cancels exactly the pending Jupyter jobs created more than the given
  minutes ago that have no pods yet or a pod not reported as scheduled, as far as the cluster lets
  it, and reports exactly those it removed; every other job stays.\<close>

theorem waiting_jupyter_exact:
  assumes "cl_runningErr e 0 = None" and "\<bar>w\<bar> < 2 ^ 26"
    and "CleanWaitingJupyterJobs e (Some \<lparr>wj_waitMinutes = w\<rparr>) s = (Inr deleted, s')"
  defines "chosen \<equiv> \<lambda>m. \<exists>j \<in> set (pf_jobs s). jb_jobName j = m \<and> jb_status j = PhasePending \<and>
      jb_jobType j = JobTypeJupyter \<and> jb_creationTimestamp j < cl_clock e 0 - w * Minute \<and>
      \<not> (cl_listPodsErr e m = None \<and> job_pods (cl_ns e) m s \<noteq> [] \<and>
         (\<forall>p \<in> set (job_pods (cl_ns e) m s). pod_verdict (vp_conditions p) = Some ''True''))"
  shows "find_vcjob (cl_ns e) m s' = (if chosen m \<and> calls_ok e m then None else find_vcjob (cl_ns e) m s) \<and>
    (m \<in> set deleted \<longleftrightarrow> chosen m \<and> calls_ok e m \<and> find_vcjob (cl_ns e) m s \<noteq> None)"
proof -
  have "int64 (- w) = - w" using assms(2) by (simp add: int64_def)
  moreover have "int64 (- w * Minute) = - w * Minute"
    unfolding int64_def by (subst mod_pos_pos_trivial) (use assms(2) in auto)
  ultimately have wrap: "int64 (int64 (- w) * Minute) = - (w * Minute)" by simp
  define js where "js = tbl_find (\<lambda>j. jb_status j = PhasePending \<and> jb_jobType j = JobTypeJupyter \<and>
             jb_creationTimestamp j < cl_clock e 0 - w * Minute) (pf_jobs s)"
  have run: "for_each_ok (delete_unscheduled e) js s = (deleted, s')"
    using assms(1,3) by (simp add: CleanWaitingJupyterJobs_def deleteUnscheduledJupyterJobs_def wrap js_def split_def Let_def prod_eq_iff)
  have "chosen m \<longleftrightarrow> m \<in> jb_jobName ` set js \<and> \<not> isJobscheduled e m s"
    unfolding chosen_def isJobscheduled_iff js_def by (auto simp: tbl_find_def)
  with for_each_unscheduled [of e s "\<lambda>n. isJobscheduled e n s" m js] run show ?thesis by auto
qed

lemma waiting_jupyter_exact_witness:
  "\<exists>deleted s'. CleanWaitingJupyterJobs (quiet_cleaner 1000000000000000) (Some \<lparr>wj_waitMinutes = 5\<rparr>)
     (sample_platform\<lparr>pf_jobs := [sample_job\<lparr>jb_status := PhasePending, jb_jobType := JobTypeJupyter\<rparr>]\<rparr>) = (Inr deleted, s') \<and>
     ''job-1'' \<in> set deleted"
proof -
  let ?s = "sample_platform\<lparr>pf_jobs := [sample_job\<lparr>jb_status := PhasePending, jb_jobType := JobTypeJupyter\<rparr>]\<rparr>"
  obtain deleted s' where r: "CleanWaitingJupyterJobs (quiet_cleaner 1000000000000000) (Some \<lparr>wj_waitMinutes = 5\<rparr>) ?s = (Inr deleted, s')"
    by (simp add: CleanWaitingJupyterJobs_def split_def Let_def)
  from waiting_jupyter_exact [OF _ _ r, of "''job-1''"] have "''job-1'' \<in> set deleted"
    by (simp add: quiet_cleaner_def sample_platform_def sample_job_def job_pods_def calls_ok_def find_vcjob_def)
  with r show ?thesis by blast
qed

end
