(* ===== verification/Approval_Orders.thy ===== *)
theory Approval_Orders imports Cleaner begin

text \<open>
  Requests to keep a job and the locks they set: the handlers of
  \<open>internal/handler/approvalorder.go\<close> and of \<open>internal/handler/operations/lock.go\<close>.  A handler gets
  its bound request (nothing when binding fails) and the token of its caller; it answers with an
  error or a value.  The time of year 9999 that stands for a permanent lock depends on the
  configured zone and is a parameter.
\<close>

record token =
  tk_userID :: nat
  tk_rolePlatform :: role

record approval_env =
  ap_now :: time
  ap_permanent :: time
  ap_ordersErr :: fault
  ap_createErr :: fault
  ap_updateErr :: fault
  ap_deleteErr :: fault
  ap_jobErr :: "string \<Rightarrow> fault"
  ap_lockErr :: fault

definition set_lock :: "string \<Rightarrow> time \<Rightarrow> ('q, 'p, 't) platform \<Rightarrow> ('q, 'p, 't) platform" where
  "set_lock n t s = update_job_named n (\<lambda>j. j\<lparr>jb_lockedTimestamp := t\<rparr>) s"

definition job_by_name :: "approval_env \<Rightarrow> string \<Rightarrow> ('q, 'p, 't) platform \<Rightarrow> ('q, 'p, 't) job result" where
  "job_by_name e n s =
     (case ap_jobErr e n of
        Some x \<Rightarrow> Inl x
      | None \<Rightarrow> (case job_named n s of None \<Rightarrow> Inl ErrRecordNotFound | Some j \<Rightarrow> Inr j))"

section \<open>Locks\<close>

definition SetKeepWhenLowResourceUsage ::
  "approval_env \<Rightarrow> string option \<Rightarrow> ('q, 'p, 't) platform \<Rightarrow> unit result \<times> ('q, 'p, 't) platform" where
  "SetKeepWhenLowResourceUsage e req s =
     (case req of
        None \<Rightarrow> (Inl ''bind'', s)
      | Some n \<Rightarrow> (case job_by_name e n s of
          Inl x \<Rightarrow> (Inl x, s)
        | Inr j \<Rightarrow> (case ap_lockErr e of
            Some x \<Rightarrow> (Inl x, s)
          | None \<Rightarrow> (Inr (), update_job_named n
              (\<lambda>k. k\<lparr>jb_keepWhenLowResourceUsage := \<not> jb_keepWhenLowResourceUsage j\<rparr>) s))))"

record set_lock_time_request =
  sl_name :: string
  sl_isPermanent :: bool
  sl_days :: int
  sl_hours :: int
  sl_minutes :: int

definition lock_duration :: "set_lock_time_request \<Rightarrow> int" where
  "lock_duration r = int64 (int64 (int64 (int64 (sl_days r * 24) * Hour) + int64 (sl_hours r * Hour)) + int64 (sl_minutes r * Minute))"

definition AddLockTime ::
  "approval_env \<Rightarrow> set_lock_time_request option \<Rightarrow> ('q, 'p, 't) platform \<Rightarrow> time result \<times> ('q, 'p, 't) platform" where
  "AddLockTime e req s =
     (case req of
        None \<Rightarrow> (Inl ''bind'', s)
      | Some r \<Rightarrow> (case job_by_name e (sl_name r) s of
          Inl x \<Rightarrow> (Inl x, s)
        | Inr j \<Rightarrow>
            if jb_lockedTimestamp j = ap_permanent e then (Inl ''Job is already permanently locked'', s)
            else
              (let base = (if ap_now e < jb_lockedTimestamp j then jb_lockedTimestamp j else ap_now e);
                   lockTime = (if sl_isPermanent r then ap_permanent e
                     else base + lock_duration r)
               in case ap_lockErr e of
                    Some x \<Rightarrow> (Inl x, s)
                  | None \<Rightarrow> (Inr lockTime, set_lock (sl_name r) lockTime s))))"

definition ClearLockTime ::
  "approval_env \<Rightarrow> string option \<Rightarrow> ('q, 'p, 't) platform \<Rightarrow> unit result \<times> ('q, 'p, 't) platform" where
  "ClearLockTime e req s =
     (case req of
        None \<Rightarrow> (Inl ''bind'', s)
      | Some n \<Rightarrow> (case ap_lockErr e of Some x \<Rightarrow> (Inl x, s) | None \<Rightarrow> (Inr (), set_lock n 0 s)))"

definition GetWhiteList :: "approval_env \<Rightarrow> ('q, 'p, 't) platform \<Rightarrow> string list result" where
  "GetWhiteList e s = getJobWhiteList (ap_ordersErr e) (ap_now e) s"

section \<open>Automatic approval\<close>

text \<open>The note of an automatic approval, with its full-width comma in UTF-8.\<close>

definition autoApprovalReason :: string where
  "autoApprovalReason = ''whitout review'' @ [CHR 0xEF, CHR 0xBC, CHR 0x8C] @ ''approved due to system''"

record approval_order_req =
  rq_name :: string
  rq_type :: approval_order_type
  rq_status :: approval_order_status
  rq_typeID :: nat
  rq_reason :: string
  rq_extensionHours :: nat

definition checkAutoApprovalEligibility ::
  "approval_env \<Rightarrow> nat \<Rightarrow> approval_order_req \<Rightarrow> ('q, 'p, 't) platform \<Rightarrow> bool result" where
  "checkAutoApprovalEligibility e userID req s =
     (if rq_type req \<noteq> ApprovalOrderTypeJob \<or> rq_extensionHours req \<ge> 12 then Inr False
      else (case ap_ordersErr e of
          Some x \<Rightarrow> Inl x
        | None \<Rightarrow> Inr (list_all (\<lambda>ord. ao_reviewNotes ord \<noteq> autoApprovalReason)
            (tbl_find (\<lambda>ord. ao_creatorID ord = userID \<and> ap_now e - 48 * Hour < ao_createdAt ord) (pf_orders s)))))"

definition lockJobForApproval ::
  "approval_env \<Rightarrow> string \<Rightarrow> nat \<Rightarrow> ('q, 'p, 't) platform \<Rightarrow> fault \<times> ('q, 'p, 't) platform" where
  "lockJobForApproval e n extensionHours s =
     (case job_by_name e n s of
        Inl x \<Rightarrow> (Some x, s)
      | Inr j \<Rightarrow>
          if jb_lockedTimestamp j = ap_permanent e then (Some ''already permanently locked'', s)
          else if extensionHours > 1440 then (Some ''extension hours exceeds maximum'', s)
          else
            (let base = (if ap_now e < jb_lockedTimestamp j then jb_lockedTimestamp j else ap_now e)
             in case ap_lockErr e of
                  Some x \<Rightarrow> (Some x, s)
                | None \<Rightarrow> (None, set_lock n (base + int extensionHours * Hour) s)))"

definition CreateApprovalOrder ::
  "approval_env \<Rightarrow> token \<Rightarrow> approval_order_req option \<Rightarrow> ('q, 'p, 't) platform \<Rightarrow> string result \<times> ('q, 'p, 't) platform" where
  "CreateApprovalOrder e tk req s =
     (case req of
        None \<Rightarrow> (Inl ''invalid request parameters'', s)
      | Some r \<Rightarrow>
          if tk_userID tk = 0 then (Inl ''cannot get user id'', s)
          else (case checkAutoApprovalEligibility e (tk_userID tk) r s of
              Inl x \<Rightarrow> (Inl ''failed to check recent orders'', s)
            | Inr canAutoApprove \<Rightarrow>
                (let (autoApproved, s1) =
                      (if canAutoApprove then
                         (case lockJobForApproval e (rq_name r) (rq_extensionHours r) s of (err, s1) \<Rightarrow> (err = None, s1))
                       else (False, s));
                     ord = \<lparr>ao_id = next_id (map ao_id (pf_orders s1)), ao_createdAt = ap_now e, ao_name = rq_name r,
                       ao_type = rq_type r,
                       ao_status = (if autoApproved then ApprovalOrderStatusApproved else ApprovalOrderStatusPending),
                       ao_typeID = rq_typeID r, ao_extensionHours = rq_extensionHours r, ao_reason = rq_reason r,
                       ao_reviewNotes = (if autoApproved then autoApprovalReason else []),
                       ao_creatorID = tk_userID tk, ao_reviewerID = 0\<rparr>
                 in case ap_createErr e of
                      Some x \<Rightarrow> (Inl ''failed to create approval order'', s1)
                    | None \<Rightarrow> (Inr (if autoApproved then ''create approvalorder successfully and auto-approved with job locked''
                                    else ''create approvalorder successfully''),
                               s1\<lparr>pf_orders := pf_orders s1 @ [ord]\<rparr>))))"

section \<open>Changing and deleting orders\<close>

record update_approval_order = approval_order_req +
  rq_reviewerID :: nat
  rq_reviewNotes :: string

text \<open>\<open>Updates\<close> writes the fields of the struct that are not zero; the three parts of the content are one column.\<close>

definition order_patch :: "update_approval_order \<Rightarrow> approval_order \<Rightarrow> approval_order" where
  "order_patch r ord = ord\<lparr>
     ao_name := (if rq_name r = [] then ao_name ord else rq_name r),
     ao_type := (if rq_type r = OtherOrderType [] then ao_type ord else rq_type r),
     ao_status := (if rq_status r = OtherOrderStatus [] then ao_status ord else rq_status r),
     ao_typeID := (if rq_typeID r = 0 \<and> rq_extensionHours r = 0 \<and> rq_reason r = [] then ao_typeID ord else rq_typeID r),
     ao_extensionHours := (if rq_typeID r = 0 \<and> rq_extensionHours r = 0 \<and> rq_reason r = [] then ao_extensionHours ord else rq_extensionHours r),
     ao_reason := (if rq_typeID r = 0 \<and> rq_extensionHours r = 0 \<and> rq_reason r = [] then ao_reason ord else rq_reason r),
     ao_reviewerID := (if rq_reviewerID r = 0 then ao_reviewerID ord else rq_reviewerID r),
     ao_reviewNotes := (if rq_reviewNotes r = [] then ao_reviewNotes ord else rq_reviewNotes r)\<rparr>"

definition UpdateApprovalOrder ::
  "approval_env \<Rightarrow> token \<Rightarrow> update_approval_order option \<Rightarrow> nat option \<Rightarrow> ('q, 'p, 't) platform \<Rightarrow>
   unit result \<times> ('q, 'p, 't) platform" where
  "UpdateApprovalOrder e tk req oid s =
     (case (req, oid) of
        (Some r, Some i) \<Rightarrow>
          if tk_userID tk = 0 then (Inl ''cannot get user id'', s)
          else if rq_status r = ApprovalOrderStatusApproved \<and> tk_rolePlatform tk \<noteq> RoleAdmin
          then (Inl ''permission denied: only admins can approve orders'', s)
          else (case ap_updateErr e of
              Some x \<Rightarrow> (Inl ''failed to update approval order'', s)
            | None \<Rightarrow> (Inr (), s\<lparr>pf_orders := tbl_updates (\<lambda>ord. ao_id ord = i) (order_patch r) (pf_orders s)\<rparr>))
      | _ \<Rightarrow> (Inl ''invalid request parameters'', s))"

definition order_with_id :: "nat \<Rightarrow> ('q, 'p, 't) platform \<Rightarrow> approval_order option" where
  "order_with_id i s = tbl_first (\<lambda>ord. ao_id ord = i) (pf_orders s)"

definition DeleteApprovalOrder ::
  "approval_env \<Rightarrow> token \<Rightarrow> nat option \<Rightarrow> ('q, 'p, 't) platform \<Rightarrow> unit result \<times> ('q, 'p, 't) platform" where
  "DeleteApprovalOrder e tk oid s =
     (if tk_userID tk = 0 then (Inl ''cannot get user id'', s)
      else (case oid of
          None \<Rightarrow> (Inl ''failed to bind request parameters'', s)
        | Some i \<Rightarrow> (case (ap_ordersErr e, order_with_id i s) of
            (None, Some ord) \<Rightarrow>
              if ao_creatorID ord \<noteq> tk_userID tk then (Inl ''permission denied to delete this approval order'', s)
              else (case ap_deleteErr e of
                  Some x \<Rightarrow> (Inl ''failed to delete approval order'', s)
                | None \<Rightarrow>
                    let s' = s\<lparr>pf_orders := tbl_delete (\<lambda>ord. ao_id ord = i) (pf_orders s)\<rparr>
                    in if length (pf_orders s') = length (pf_orders s) then (Inl ''delete failed, record not found'', s')
                       else (Inr (), s'))
          | _ \<Rightarrow> (Inl ''approval order not found'', s))))"

text \<open>An administrator's check of the pending orders about jobs.\<close>

definition cancelApprovalOrder ::
  "approval_env \<Rightarrow> nat \<Rightarrow> string \<Rightarrow> ('q, 'p, 't) platform \<Rightarrow> fault \<times> ('q, 'p, 't) platform" where
  "cancelApprovalOrder e i reason s =
     (case ap_updateErr e of
        Some x \<Rightarrow> (Some x, s)
      | None \<Rightarrow> (None, s\<lparr>pf_orders := tbl_updates (\<lambda>ord. ao_id ord = i)
          (\<lambda>ord. ord\<lparr>ao_status := ApprovalOrderStatusCancelled, ao_reviewNotes := reason\<rparr>) (pf_orders s)\<rparr>))"

definition isJobRunning :: "string \<Rightarrow> bool" where
  "isJobRunning jobStatus \<longleftrightarrow> jobStatus \<in> set [''Running'']"

primrec check_orders ::
  "approval_env \<Rightarrow> approval_order list \<Rightarrow> ('q, 'p, 't) platform \<Rightarrow> nat \<times> ('q, 'p, 't) platform" where
  "check_orders e [] s = (0, s)"
| "check_orders e (ord # ords) s =
     (let (cancelled, s1) =
        (case job_by_name e (ao_name ord) s of
           Inl x \<Rightarrow> (case cancelApprovalOrder e (ao_id ord) ''Job not found'' s of (err, s1) \<Rightarrow> (err = None, s1))
         | Inr j \<Rightarrow>
             if \<not> isJobRunning (jb_status j) then
               (case cancelApprovalOrder e (ao_id ord) (''Job is not running (status: '' @ jb_status j @ '')'') s of (err, s1) \<Rightarrow> (err = None, s1))
             else (False, s));
        (n, s2) = check_orders e ords s1
      in (if cancelled then Suc n else n, s2))"

definition pending_job_orders :: "('q, 'p, 't) platform \<Rightarrow> approval_order list" where
  "pending_job_orders s =
     tbl_find (\<lambda>ord. ao_status ord = ApprovalOrderStatusPending \<and> ao_type ord = ApprovalOrderTypeJob) (pf_orders s)"

definition UpdateApprovalOrderByJobStatus ::
  "approval_env \<Rightarrow> ('q, 'p, 't) platform \<Rightarrow> (nat \<times> nat) result \<times> ('q, 'p, 't) platform" where
  "UpdateApprovalOrderByJobStatus e s =
     (case ap_ordersErr e of
        Some x \<Rightarrow> (Inl ''failed to query pending job orders'', s)
      | None \<Rightarrow>
          let ords = pending_job_orders s
          in if ords = [] then (Inr (0, 0), s)
             else (let (n, s') = check_orders e ords s in (Inr (length ords, n), s')))"

section \<open>Reading orders\<close>

record approval_order_resp =
  ar_order :: approval_order
  ar_creator :: "string \<times> string"
  ar_reviewer :: "string \<times> string"

definition user_info :: "nat \<Rightarrow> ('q, 'p, 't) platform \<Rightarrow> string \<times> string" where
  "user_info uid s =
     (case tbl_first (\<lambda>u. us_id u = uid) (pf_users s) of None \<Rightarrow> ([], []) | Some u \<Rightarrow> (us_name u, us_nickname u))"

definition convertToApprovalOrderResp :: "('q, 'p, 't) platform \<Rightarrow> approval_order \<Rightarrow> approval_order_resp" where
  "convertToApprovalOrderResp s ord =
     \<lparr>ar_order = ord, ar_creator = user_info (ao_creatorID ord) s,
      ar_reviewer = (if ao_reviewerID ord \<noteq> 0 then user_info (ao_reviewerID ord) s else ([], []))\<rparr>"

definition convertToApprovalOrderResps :: "('q, 'p, 't) platform \<Rightarrow> approval_order list \<Rightarrow> approval_order_resp list" where
  "convertToApprovalOrderResps s ords = map (convertToApprovalOrderResp s) ords"

definition newest_first :: "approval_order list \<Rightarrow> approval_order list" where
  "newest_first ords = sort_key (\<lambda>ord. - ao_createdAt ord) ords"

definition GetMyApprovalOrders ::
  "approval_env \<Rightarrow> token \<Rightarrow> ('q, 'p, 't) platform \<Rightarrow> approval_order_resp list result" where
  "GetMyApprovalOrders e tk s =
     (if tk_userID tk = 0 then Inl ''cannot get user id''
      else (case ap_ordersErr e of
          Some x \<Rightarrow> Inl ''failed to get my approval orders''
        | None \<Rightarrow> Inr (convertToApprovalOrderResps s (tbl_find (\<lambda>ord. ao_creatorID ord = tk_userID tk) (pf_orders s)))))"

definition ListAllApprovalOrders :: "approval_env \<Rightarrow> ('q, 'p, 't) platform \<Rightarrow> approval_order_resp list result" where
  "ListAllApprovalOrders e s =
     (case ap_ordersErr e of
        Some x \<Rightarrow> Inl ''failed to list all approval orders''
      | None \<Rightarrow> Inr (convertToApprovalOrderResps s (newest_first (pf_orders s))))"

definition GetApprovalOrder ::
  "approval_env \<Rightarrow> token \<Rightarrow> nat option \<Rightarrow> ('q, 'p, 't) platform \<Rightarrow> approval_order_resp result" where
  "GetApprovalOrder e tk oid s =
     (if tk_userID tk = 0 then Inl ''can not get user ID''
      else (case oid of
          None \<Rightarrow> Inl ''invalid request parameters''
        | Some i \<Rightarrow> (case (ap_ordersErr e, order_with_id i s) of
            (None, Some ord) \<Rightarrow>
              if ao_creatorID ord \<noteq> tk_userID tk then Inl ''permission denied to view this approval order''
              else Inr (convertToApprovalOrderResp s ord)
          | _ \<Rightarrow> Inl ''approval order not found'')))"

definition GetApprovalOrderByName ::
  "approval_env \<Rightarrow> string option \<Rightarrow> ('q, 'p, 't) platform \<Rightarrow> approval_order_resp list result" where
  "GetApprovalOrderByName e name s =
     (case name of
        None \<Rightarrow> Inl ''invalid request parameters''
      | Some n \<Rightarrow> (case ap_ordersErr e of
          Some x \<Rightarrow> Inl ''failed to get approval orders''
        | None \<Rightarrow> Inr (convertToApprovalOrderResps s (newest_first (tbl_find (\<lambda>ord. ao_name ord = n) (pf_orders s))))))"

definition GetApprovalOrderAdmin ::
  "approval_env \<Rightarrow> token \<Rightarrow> nat option \<Rightarrow> ('q, 'p, 't) platform \<Rightarrow> approval_order_resp result" where
  "GetApprovalOrderAdmin e tk oid s =
     (if tk_userID tk = 0 then Inl ''can not get user ID''
      else if tk_rolePlatform tk \<noteq> RoleAdmin then Inl ''permission denied''
      else (case oid of
          None \<Rightarrow> Inl ''uri error''
        | Some i \<Rightarrow> (case (ap_ordersErr e, order_with_id i s) of
            (None, Some ord) \<Rightarrow> Inr (convertToApprovalOrderResp s ord)
          | _ \<Rightarrow> Inl ''approval order not found'')))"

section \<open>What a lock changes\<close>

lemma job_named_update_all:
  "(\<And>j. jb_jobName (f j) = jb_jobName j) \<Longrightarrow>
   job_named m (update_job_named n f s) = (if m = n then map_option f (job_named n s) else job_named m s)"
  using tbl_first_updates_same [of "\<lambda>j. jb_jobName j = n" f "pf_jobs s"]
    tbl_first_updates_other [of "\<lambda>j. jb_jobName j = m" f "\<lambda>j. jb_jobName j = n" "pf_jobs s"]
  by (cases "m = n") (simp_all add: job_named_def update_job_named_def)

lemma job_named_set_lock:
  "job_named m (set_lock n t s) =
     (if m = n then map_option (\<lambda>j. j\<lparr>jb_lockedTimestamp := t\<rparr>) (job_named n s) else job_named m s)"
  by (simp add: set_lock_def job_named_update_all)

lemma set_lock_frame [simp]: "pf_orders (set_lock n t s) = pf_orders s" "pf_users (set_lock n t s) = pf_users s"
  by (simp_all add: set_lock_def update_job_named_def)

definition extended_lock :: "time \<Rightarrow> int \<Rightarrow> ('q, 'p, 't) job \<Rightarrow> time" where
  "extended_lock now d j = max now (jb_lockedTimestamp j) + d"

definition lockable :: "approval_env \<Rightarrow> string \<Rightarrow> ('q, 'p, 't) platform \<Rightarrow> bool" where
  "lockable e n s \<longleftrightarrow> ap_jobErr e n = None \<and> ap_lockErr e = None \<and>
     (\<exists>j. job_named n s = Some j \<and> jb_lockedTimestamp j \<noteq> ap_permanent e)"

lemma lockJobForApproval_eq:
  assumes "h \<le> 1440"
  shows "lockJobForApproval e n h s =
    (if lockable e n s then (None, set_lock n (extended_lock (ap_now e) (int h * Hour) (the (job_named n s))) s)
     else (fst (lockJobForApproval e n h s), s))" and "fst (lockJobForApproval e n h s) = None \<longleftrightarrow> lockable e n s"
  using assms by (auto simp: lockJobForApproval_def lockable_def job_by_name_def extended_lock_def max_def Let_def split: option.splits)

text \<open>The lock handlers never weaken a lock: a permanent lock is refused and kept, and any other
  successful extension by a duration that is not negative sets the lock of that job alone to the
  later of the present and the old lock, plus the duration (to the permanent time when asked for).\<close>

theorem lock_extension:
  assumes "AddLockTime e (Some r) s = (res, s')"
    and "0 \<le> sl_days r" and "sl_days r < 2 ^ 15" and "0 \<le> sl_hours r" and "sl_hours r < 2 ^ 19"
    and "0 \<le> sl_minutes r" and "sl_minutes r < 2 ^ 24"
  defines "d \<equiv> (sl_days r * 24 + sl_hours r) * Hour + sl_minutes r * Minute"
  shows "(\<forall>x. res = Inl x \<longrightarrow> s' = s) \<and>
    (\<forall>j. job_named (sl_name r) s = Some j \<and> jb_lockedTimestamp j = ap_permanent e \<longrightarrow> s' = s \<and> (\<exists>x. res = Inl x)) \<and>
    (\<forall>t. res = Inr t \<longrightarrow> (\<exists>j. job_named (sl_name r) s = Some j \<and>
       t = (if sl_isPermanent r then ap_permanent e else extended_lock (ap_now e) d j) \<and>
       job_named (sl_name r) s' = Some (j\<lparr>jb_lockedTimestamp := t\<rparr>) \<and>
       (\<not> sl_isPermanent r \<longrightarrow> jb_lockedTimestamp j \<le> t \<and> ap_now e \<le> t) \<and>
       (\<forall>m. m \<noteq> sl_name r \<longrightarrow> job_named m s' = job_named m s)))"
proof -
  have small: "int64 x = x" if "0 \<le> x" "x < 2 ^ 63" for x using that by (simp add: int64_def)
  have wrap: "lock_duration r = d"
    using assms(2-7) by (simp add: lock_duration_def small d_def algebra_simps)
  have pos: "0 \<le> d" using assms(2-7) by (simp add: d_def)
  show ?thesis
  proof (cases "job_by_name e (sl_name r) s")
    case (Inl x)
    with assms(1) show ?thesis by (auto simp: AddLockTime_def)
  next
    case (Inr j)
    then have j: "job_named (sl_name r) s = Some j" by (auto simp: job_by_name_def split: option.splits)
    define t where "t = (if sl_isPermanent r then ap_permanent e else extended_lock (ap_now e) d j)"
    have run: "AddLockTime e (Some r) s =
      (if jb_lockedTimestamp j = ap_permanent e then (Inl ''Job is already permanently locked'', s)
       else (case ap_lockErr e of Some x \<Rightarrow> (Inl x, s) | None \<Rightarrow> (Inr t, set_lock (sl_name r) t s)))"
      by (simp add: AddLockTime_def Inr wrap t_def extended_lock_def max_def Let_def split: option.split)
    have "\<not> sl_isPermanent r \<Longrightarrow> jb_lockedTimestamp j \<le> t \<and> ap_now e \<le> t" using pos by (auto simp: t_def extended_lock_def)
    with run assms(1) j show ?thesis
      by (cases "ap_lockErr e") (auto simp: job_named_set_lock t_def [symmetric] split: if_splits)
  qed
qed

section \<open>Automatic approvals\<close>

definition recently_granted :: "approval_env \<Rightarrow> nat \<Rightarrow> ('q, 'p, 't) platform \<Rightarrow> bool" where
  "recently_granted e uid s \<longleftrightarrow> (\<exists>ord \<in> set (pf_orders s). ao_creatorID ord = uid \<and>
     ap_now e - 48 * Hour < ao_createdAt ord \<and> ao_reviewNotes ord = autoApprovalReason)"

definition granted :: "approval_env \<Rightarrow> nat \<Rightarrow> approval_order_req \<Rightarrow> ('q, 'p, 't) platform \<Rightarrow> bool" where
  "granted e uid r s \<longleftrightarrow> rq_type r = ApprovalOrderTypeJob \<and> rq_extensionHours r < 12 \<and>
     \<not> recently_granted e uid s \<and> lockable e (rq_name r) s"

lemma checkAuto_eq:
  "checkAutoApprovalEligibility e uid r s =
     (if rq_type r = ApprovalOrderTypeJob \<and> rq_extensionHours r < 12 then
        (case ap_ordersErr e of Some x \<Rightarrow> Inl x | None \<Rightarrow> Inr (\<not> recently_granted e uid s))
      else Inr False)"
  by (auto simp: checkAutoApprovalEligibility_def recently_granted_def list_all_iff tbl_find_def split: option.split)

definition apply_grant :: "approval_env \<Rightarrow> approval_order_req \<Rightarrow> ('q, 'p, 't) platform \<Rightarrow> ('q, 'p, 't) platform" where
  "apply_grant e r s = set_lock (rq_name r)
     (extended_lock (ap_now e) (int (rq_extensionHours r) * Hour) (the (job_named (rq_name r) s))) s"

definition new_order :: "approval_env \<Rightarrow> nat \<Rightarrow> approval_order_req \<Rightarrow> bool \<Rightarrow> ('q, 'p, 't) platform \<Rightarrow> approval_order" where
  "new_order e uid r ok s = \<lparr>ao_id = next_id (map ao_id (pf_orders s)), ao_createdAt = ap_now e, ao_name = rq_name r,
     ao_type = rq_type r, ao_status = (if ok then ApprovalOrderStatusApproved else ApprovalOrderStatusPending),
     ao_typeID = rq_typeID r, ao_extensionHours = rq_extensionHours r, ao_reason = rq_reason r,
     ao_reviewNotes = (if ok then autoApprovalReason else []), ao_creatorID = uid, ao_reviewerID = 0\<rparr>"

lemma apply_grant_frame [simp]: "pf_orders (apply_grant e r s) = pf_orders s"
  by (simp add: apply_grant_def)

lemma grant_or_not:
  assumes "checkAutoApprovalEligibility e uid r s = Inr can"
  shows "(if can then (case lockJobForApproval e (rq_name r) (rq_extensionHours r) s of (err, s1) \<Rightarrow> (err = None, s1)) else (False, s)) =
    (granted e uid r s, if granted e uid r s then apply_grant e r s else s)"
proof (cases can)
  case True
  then have c: "rq_type r = ApprovalOrderTypeJob" "rq_extensionHours r < 12" "\<not> recently_granted e uid s"
    using assms by (auto simp: checkAuto_eq split: if_splits option.splits)
  then have "rq_extensionHours r \<le> 1440" by simp
  from lockJobForApproval_eq [OF this, of e "rq_name r" s] show ?thesis
    using c True by (auto simp: granted_def apply_grant_def split: prod.split)
next
  case False
  then have "\<not> granted e uid r s"
    using assms by (auto simp: checkAuto_eq granted_def split: if_splits option.splits)
  with False show ?thesis by simp
qed

lemma CreateApprovalOrder_Inr:
  assumes "CreateApprovalOrder e tk (Some r) s = (Inr msg, s')"
  shows "let ok = granted e (tk_userID tk) r s; s1 = (if ok then apply_grant e r s else s)
    in s' = s1\<lparr>pf_orders := pf_orders s @ [new_order e (tk_userID tk) r ok s]\<rparr>"
proof -
  have uid: "tk_userID tk \<noteq> 0"
  proof
    assume "tk_userID tk = 0"
    with assms show False by (simp add: CreateApprovalOrder_def)
  qed
  obtain can where can: "checkAutoApprovalEligibility e (tk_userID tk) r s = Inr can"
    using assms uid by (cases "checkAutoApprovalEligibility e (tk_userID tk) r s") (simp_all add: CreateApprovalOrder_def)
  show ?thesis
  proof (cases "ap_createErr e")
    case None
    with assms uid can show ?thesis
      by (simp add: CreateApprovalOrder_def grant_or_not [OF can] Let_def new_order_def split: if_splits)
  next
    case (Some x)
    with assms uid can show ?thesis by (simp add: CreateApprovalOrder_def grant_or_not [OF can] Let_def)
  qed
qed

text \<open>Claim C25. Creating an order. The order is approved on the spot exactly when it extends a job by less than
  twelve hours, the user has no automatic approval in the last 48 hours and the job can be locked;
  then the job's lock, and nothing else, is extended by those hours.  Otherwise it is pending and no
  job changes.  Either way one row with a new id is appended.\<close>

theorem create_order_outcome:
  assumes "CreateApprovalOrder e tk (Some r) s = (Inr msg, s')"
  defines "ok \<equiv> granted e (tk_userID tk) r s"
  shows "\<exists>ord. pf_orders s' = pf_orders s @ [ord] \<and> ao_id ord \<notin> ao_id ` set (pf_orders s) \<and>
    ao_creatorID ord = tk_userID tk \<and> ao_createdAt ord = ap_now e \<and> ao_name ord = rq_name r \<and> ao_type ord = rq_type r \<and>
    ao_status ord = (if ok then ApprovalOrderStatusApproved else ApprovalOrderStatusPending) \<and>
    ao_reviewNotes ord = (if ok then autoApprovalReason else []) \<and>
    (\<forall>n. job_named n s' = (if ok \<and> n = rq_name r
       then map_option (\<lambda>j. j\<lparr>jb_lockedTimestamp := extended_lock (ap_now e) (int (rq_extensionHours r) * Hour) j\<rparr>) (job_named n s)
       else job_named n s))"
proof -
  define ord where "ord = new_order e (tk_userID tk) r ok s"
  have s': "s' = (if ok then apply_grant e r s else s)\<lparr>pf_orders := pf_orders s @ [ord]\<rparr>"
    using CreateApprovalOrder_Inr [OF assms(1)] by (simp add: ok_def ord_def Let_def)
  have "job_named n s' = (if ok \<and> n = rq_name r
       then map_option (\<lambda>j. j\<lparr>jb_lockedTimestamp := extended_lock (ap_now e) (int (rq_extensionHours r) * Hour) j\<rparr>) (job_named n s)
       else job_named n s)" for n
  proof (cases ok)
    case True
    then obtain j where "job_named (rq_name r) s = Some j" by (auto simp: ok_def granted_def lockable_def)
    then have "job_named n (apply_grant e r s) = (if n = rq_name r
        then map_option (\<lambda>j. j\<lparr>jb_lockedTimestamp := extended_lock (ap_now e) (int (rq_extensionHours r) * Hour) j\<rparr>) (job_named n s)
        else job_named n s)" by (simp add: apply_grant_def job_named_set_lock)
    with True show ?thesis by (simp add: s' job_named_def)
  qed (simp add: s' job_named_def)
  moreover have "pf_orders s' = pf_orders s @ [ord]" by (simp add: s')
  moreover have "ao_id ord \<notin> ao_id ` set (pf_orders s)"
    using next_id_fresh [of "map ao_id (pf_orders s)"] by (simp add: ord_def new_order_def)
  ultimately show ?thesis by (intro exI [of _ ord]) (simp add: ord_def new_order_def)
qed

section \<open>The check of pending orders\<close>

text \<open>Why an order is to be cancelled, if it is.\<close>

definition cancel_reason :: "approval_env \<Rightarrow> ('q, 'p, 't) platform \<Rightarrow> approval_order \<Rightarrow> string option" where
  "cancel_reason e s ord =
     (case job_by_name e (ao_name ord) s of
        Inl x \<Rightarrow> Some ''Job not found''
      | Inr j \<Rightarrow> if jb_status j = PhaseRunning then None else Some (''Job is not running (status: '' @ jb_status j @ '')''))"

definition cancelled :: "string \<Rightarrow> approval_order \<Rightarrow> approval_order" where
  "cancelled reason ord = ord\<lparr>ao_status := ApprovalOrderStatusCancelled, ao_reviewNotes := reason\<rparr>"

lemma cancelled_id [simp]: "ao_id (cancelled r ord) = ao_id ord"
  by (simp add: cancelled_def)

lemma cancelled_eq: "cancelled r = (\<lambda>ord. ord\<lparr>ao_status := ApprovalOrderStatusCancelled, ao_reviewNotes := r\<rparr>)"
  by (rule ext) (simp add: cancelled_def)

lemma check_orders_eq:
  assumes "ap_updateErr e = None" and "distinct (map ao_id ords)"
  shows "check_orders e ords s =
    (length (filter (\<lambda>ord. cancel_reason e s ord \<noteq> None) ords),
     s\<lparr>pf_orders := map (\<lambda>row. case find (\<lambda>ord. ao_id ord = ao_id row \<and> cancel_reason e s ord \<noteq> None) ords of
          None \<Rightarrow> row | Some ord \<Rightarrow> cancelled (the (cancel_reason e s ord)) row) (pf_orders s)\<rparr>)"
  using assms(2)
proof (induction ords arbitrary: s)
  case (Cons ord ords)
  define s1 where "s1 = (case cancel_reason e s ord of None \<Rightarrow> s
      | Some r \<Rightarrow> s\<lparr>pf_orders := tbl_updates (\<lambda>row. ao_id row = ao_id ord) (cancelled r) (pf_orders s)\<rparr>)"
  have step: "check_orders e (ord # ords) s =
      (if cancel_reason e s ord = None then fst (check_orders e ords s1) else Suc (fst (check_orders e ords s1)),
       snd (check_orders e ords s1))"
    using assms(1) by (simp add: s1_def cancel_reason_def cancelApprovalOrder_def isJobRunning_def cancelled_eq split_def Let_def
        split: sum.split)
  have reason: "cancel_reason e s1 p = cancel_reason e s p" for p
    by (simp add: s1_def cancel_reason_def job_by_name_def job_named_def split: option.split)
  have fresh: "find (\<lambda>p. ao_id p = ao_id ord \<and> cancel_reason e s p \<noteq> None) ords = None"
    using Cons.prems by (auto simp: find_None_iff) (metis image_eqI)
  show ?case
  proof (cases "cancel_reason e s ord")
    case None
    then have "s1 = s" by (simp add: s1_def)
    with Cons.IH [of s] Cons.prems None show ?thesis by (simp add: step del: check_orders.simps)
  next
    case (Some r)
    have rows: "map (\<lambda>row. case find (\<lambda>p. ao_id p = ao_id row \<and> cancel_reason e s p \<noteq> None) ords of
            None \<Rightarrow> row | Some p \<Rightarrow> cancelled (the (cancel_reason e s p)) row) (pf_orders s1) =
        map (\<lambda>row. case find (\<lambda>p. ao_id p = ao_id row \<and> cancel_reason e s p \<noteq> None) (ord # ords) of
            None \<Rightarrow> row | Some p \<Rightarrow> cancelled (the (cancel_reason e s p)) row) (pf_orders s)"
      using fresh Some by (auto simp: s1_def tbl_updates_def)
    have "s1\<lparr>pf_orders := x\<rparr> = s\<lparr>pf_orders := x\<rparr>" for x by (simp add: s1_def Some)
    with Cons.IH [of s1, unfolded reason] Cons.prems Some show ?thesis
      unfolding step rows [symmetric] by simp
  qed
qed simp

text \<open>The administrator's check, when the database answers, cancels exactly the pending orders
  about jobs whose job is missing, cannot be read or is not running, with the reason as note, and
  reports how many it looked at and how many it cancelled; every other row and every job stays.\<close>

theorem order_check_exact:
  assumes "ap_ordersErr e = None" and "ap_updateErr e = None" and "distinct (map ao_id (pf_orders s))"
  defines "pending \<equiv> \<lambda>ord. ao_status ord = ApprovalOrderStatusPending \<and> ao_type ord = ApprovalOrderTypeJob"
  shows "UpdateApprovalOrderByJobStatus e s =
    (Inr (length (filter pending (pf_orders s)),
          length (filter (\<lambda>ord. pending ord \<and> cancel_reason e s ord \<noteq> None) (pf_orders s))),
     s\<lparr>pf_orders := map (\<lambda>ord. case cancel_reason e s ord of
          Some r \<Rightarrow> if pending ord then cancelled r ord else ord | None \<Rightarrow> ord) (pf_orders s)\<rparr>)"
proof -
  let ?ords = "filter pending (pf_orders s)"
  have ords: "pending_job_orders s = ?ords" by (simp add: pending_job_orders_def tbl_find_def pending_def)
  have dist: "distinct (map ao_id ?ords)" using assms(3) by (rule distinct_map_filter)
  have found: "(case find (\<lambda>ord. ao_id ord = ao_id row \<and> cancel_reason e s ord \<noteq> None) ?ords of
      None \<Rightarrow> row | Some ord \<Rightarrow> cancelled (the (cancel_reason e s ord)) row) =
    (case cancel_reason e s row of Some r \<Rightarrow> if pending row then cancelled r row else row | None \<Rightarrow> row)"
    if row: "row \<in> set (pf_orders s)" for row
  proof (cases "find (\<lambda>ord. ao_id ord = ao_id row \<and> cancel_reason e s ord \<noteq> None) ?ords")
    case None
    with row have "cancel_reason e s row = None \<or> \<not> pending row" by (auto simp: find_None_iff)
    with None show ?thesis by (auto split: option.split)
  next
    case (Some ord)
    then have ord: "ord \<in> set (pf_orders s)" "pending ord" "ao_id ord = ao_id row" "cancel_reason e s ord \<noteq> None"
      by (auto simp: find_Some_iff) (metis nth_mem set_filter mem_Collect_eq)+
    with row assms(3) have "ord = row" by (auto simp: distinct_map dest: inj_onD)
    with ord Some show ?thesis by auto
  qed
  show ?thesis
  proof (cases "?ords = []")
    case True
    then have "map (\<lambda>ord. case cancel_reason e s ord of
        Some r \<Rightarrow> if pending ord then cancelled r ord else ord | None \<Rightarrow> ord) (pf_orders s) = pf_orders s"
      by (auto simp: filter_empty_conv intro!: map_idI split: option.split)
    moreover have "filter (\<lambda>ord. pending ord \<and> cancel_reason e s ord \<noteq> None) (pf_orders s) = []"
      using True by (auto simp: filter_empty_conv)
    ultimately show ?thesis using assms(1) True by (simp add: UpdateApprovalOrderByJobStatus_def ords)
  next
    case False
    have "map (\<lambda>row. case find (\<lambda>ord. ao_id ord = ao_id row \<and> cancel_reason e s ord \<noteq> None) ?ords of
          None \<Rightarrow> row | Some ord \<Rightarrow> cancelled (the (cancel_reason e s ord)) row) (pf_orders s) =
        map (\<lambda>ord. case cancel_reason e s ord of Some r \<Rightarrow> if pending ord then cancelled r ord else ord | None \<Rightarrow> ord) (pf_orders s)"
      using found by (intro map_cong refl)
    with False assms(1) check_orders_eq [OF assms(2) dist, of s] show ?thesis
      by (simp add: UpdateApprovalOrderByJobStatus_def ords Let_def conj_commute)
  qed
qed

section \<open>Automatic approvals over time\<close>

text \<open>A run of requests and checks; its log has the user and the time of every automatic approval.\<close>

datatype approval_step = Ask approval_env token approval_order_req | Check approval_env

definition ask_grants :: "approval_env \<Rightarrow> token \<Rightarrow> approval_order_req \<Rightarrow> ('q, 'p, 't) platform \<Rightarrow> (nat \<times> time) list" where
  "ask_grants e tk r s =
     (if fst (CreateApprovalOrder e tk (Some r) s) = Inr ''create approvalorder successfully and auto-approved with job locked''
      then [(tk_userID tk, ap_now e)] else [])"

primrec approval_run :: "approval_step list \<Rightarrow> ('q, 'p, 't) platform \<Rightarrow> (nat \<times> time) list \<times> ('q, 'p, 't) platform" where
  "approval_run [] s = ([], s)"
| "approval_run (x # xs) s =
     (case x of
        Ask e tk r \<Rightarrow>
          (let (g, s') = approval_run xs (snd (CreateApprovalOrder e tk (Some r) s)) in (ask_grants e tk r s @ g, s'))
      | Check e \<Rightarrow> approval_run xs (snd (UpdateApprovalOrderByJobStatus e s)))"

primrec step_recorded :: "approval_step \<Rightarrow> bool" where
  "step_recorded (Ask e tk r) = (ap_createErr e = None)"
| "step_recorded (Check e) = (ap_updateErr e = None)"

text \<open>Every approval logged so far is on record, as an approved row with the automatic note.\<close>

definition approved_rows :: "('q, 'p, 't) platform \<Rightarrow> (nat \<times> time) set" where
  "approved_rows s = (\<lambda>ord. (ao_creatorID ord, ao_createdAt ord)) `
     {ord \<in> set (pf_orders s). ao_status ord = ApprovalOrderStatusApproved \<and> ao_reviewNotes ord = autoApprovalReason}"

definition approvals_on_record :: "(nat \<times> time) list \<Rightarrow> ('q, 'p, 't) platform \<Rightarrow> bool" where
  "approvals_on_record L s \<longleftrightarrow> distinct (map ao_id (pf_orders s)) \<and> set L \<subseteq> approved_rows s"

lemma CreateApprovalOrder_recorded:
  assumes "ap_createErr e = None"
  shows "(fst (CreateApprovalOrder e tk (Some r) s) \<noteq> Inr ''create approvalorder successfully and auto-approved with job locked'' \<or>
       granted e (tk_userID tk) r s) \<and>
    (snd (CreateApprovalOrder e tk (Some r) s) = s \<or>
     (\<exists>msg. fst (CreateApprovalOrder e tk (Some r) s) = Inr msg))"
proof (cases "tk_userID tk = 0")
  case False
  show ?thesis
  proof (cases "checkAutoApprovalEligibility e (tk_userID tk) r s")
    case (Inr can)
    with False assms show ?thesis by (simp add: CreateApprovalOrder_def grant_or_not [OF Inr] Let_def)
  qed (simp add: CreateApprovalOrder_def)
qed (simp add: CreateApprovalOrder_def)

lemma ask_keeps_record:
  assumes "approvals_on_record L s" and "ap_createErr e = None"
  shows "approvals_on_record (L @ ask_grants e tk r s) (snd (CreateApprovalOrder e tk (Some r) s)) \<and>
    (\<forall>a \<in> set L. \<forall>b \<in> set (ask_grants e tk r s). fst a = fst b \<longrightarrow> snd a + 48 * Hour \<le> snd b)"
proof (cases "snd (CreateApprovalOrder e tk (Some r) s) = s \<and> ask_grants e tk r s = []")
  case True
  with assms(1) show ?thesis by simp
next
  case False
  obtain msg where msg: "fst (CreateApprovalOrder e tk (Some r) s) = Inr msg"
    using CreateApprovalOrder_recorded [OF assms(2), of tk r s] False by (auto simp: ask_grants_def split: if_splits)
  define s' where "s' = snd (CreateApprovalOrder e tk (Some r) s)"
  from msg have run: "CreateApprovalOrder e tk (Some r) s = (Inr msg, s')" by (simp add: s'_def prod_eq_iff)
  from create_order_outcome [OF run] obtain ord where ord: "pf_orders s' = pf_orders s @ [ord]" "ao_id ord \<notin> ao_id ` set (pf_orders s)"
    "ao_creatorID ord = tk_userID tk" "ao_createdAt ord = ap_now e"
    "ao_status ord = (if granted e (tk_userID tk) r s then ApprovalOrderStatusApproved else ApprovalOrderStatusPending)"
    "ao_reviewNotes ord = (if granted e (tk_userID tk) r s then autoApprovalReason else [])" by blast
  have g: "ask_grants e tk r s \<noteq> [] \<Longrightarrow> granted e (tk_userID tk) r s \<and> ask_grants e tk r s = [(tk_userID tk, ap_now e)]"
    using CreateApprovalOrder_recorded [OF assms(2), of tk r s] by (auto simp: ask_grants_def split: if_splits)
  have "approvals_on_record (L @ ask_grants e tk r s) s'"
    using assms(1) ord g
    by (cases "ask_grants e tk r s = []") (auto simp: approvals_on_record_def approved_rows_def intro: rev_image_eqI [of ord])
  moreover have "t + 48 * Hour \<le> t'" if "(u, t) \<in> set L" "(u', t') \<in> set (ask_grants e tk r s)" "u = u'" for u t u' t'
  proof -
    have L: "(u, t) \<in> set L" and u: "granted e u r s" "t' = ap_now e" using g that by fastforce+
    then have "\<not> recently_granted e u s" by (simp add: granted_def)
    moreover obtain o1 where "o1 \<in> set (pf_orders s)" "ao_creatorID o1 = u" "ao_createdAt o1 = t" "ao_reviewNotes o1 = autoApprovalReason"
      using assms(1) L by (auto simp: approvals_on_record_def approved_rows_def)
    ultimately have "\<not> ap_now e - 48 * Hour < t" by (auto simp: recently_granted_def)
    with u show ?thesis by simp
  qed
  ultimately show ?thesis unfolding s'_def by force
qed

lemma approvals_on_record_mono:
  "approvals_on_record L s \<Longrightarrow> distinct (map ao_id (pf_orders s')) \<Longrightarrow>
   (\<And>ord. ord \<in> set (pf_orders s) \<Longrightarrow> ao_status ord = ApprovalOrderStatusApproved \<Longrightarrow> ord \<in> set (pf_orders s')) \<Longrightarrow>
   approvals_on_record L s'"
  unfolding approvals_on_record_def approved_rows_def by (intro conjI) (simp, force)

lemma check_keeps_record:
  assumes "approvals_on_record L s" and "ap_updateErr e = None"
  shows "approvals_on_record L (snd (UpdateApprovalOrderByJobStatus e s))"
proof (cases "ap_ordersErr e")
  case None
  let ?f = "\<lambda>ord. case cancel_reason e s ord of
      Some r \<Rightarrow> if ao_status ord = ApprovalOrderStatusPending \<and> ao_type ord = ApprovalOrderTypeJob then cancelled r ord else ord
    | None \<Rightarrow> ord"
  have "distinct (map ao_id (pf_orders s))" using assms(1) by (simp add: approvals_on_record_def)
  from order_check_exact [OF None assms(2) this]
  have orders: "pf_orders (snd (UpdateApprovalOrderByJobStatus e s)) = map ?f (pf_orders s)" by simp
  have "ao_id (?f ord) = ao_id ord" for ord by (simp split: option.split)
  then have ids: "map ao_id (map ?f (pf_orders s)) = map ao_id (pf_orders s)" by simp
  show ?thesis
  proof (rule approvals_on_record_mono [OF assms(1)], unfold orders)
    show "distinct (map ao_id (map ?f (pf_orders s)))" unfolding ids using assms(1) by (simp add: approvals_on_record_def)
  next
    fix ord assume ord: "ord \<in> set (pf_orders s)" "ao_status ord = ApprovalOrderStatusApproved"
    then have "?f ord = ord" by (simp split: option.split)
    with ord(1) show "ord \<in> set (map ?f (pf_orders s))" unfolding set_map by (intro rev_image_eqI [of ord]) simp_all
  qed
qed (use assms(1) in \<open>simp add: UpdateApprovalOrderByJobStatus_def\<close>)

text \<open>Over any sequence of requests and checks, in any order and with any users, whose writes
  succeed, a user's automatic approvals are at least 48 hours apart.\<close>

theorem automatic_approvals_spaced:
  assumes "distinct (map ao_id (pf_orders s))" and "list_all step_recorded steps"
  shows "sorted_wrt (\<lambda>a b. fst a = fst b \<longrightarrow> snd a + 48 * Hour \<le> snd b) (fst (approval_run steps s))"
proof -
  have "sorted_wrt (\<lambda>a b. fst a = fst b \<longrightarrow> snd a + 48 * Hour \<le> snd b) (fst (approval_run steps s)) \<and>
      (\<forall>a \<in> set L. \<forall>b \<in> set (fst (approval_run steps s)). fst a = fst b \<longrightarrow> snd a + 48 * Hour \<le> snd b)"
    if "approvals_on_record L s" for L
    using that assms(2)
  proof (induction steps arbitrary: s L)
    case (Cons x steps)
    show ?case
    proof (cases x)
      case (Ask e tk r)
      define s' where "s' = snd (CreateApprovalOrder e tk (Some r) s)"
      have k: "approvals_on_record (L @ ask_grants e tk r s) s'"
        "\<forall>a \<in> set L. \<forall>b \<in> set (ask_grants e tk r s). fst a = fst b \<longrightarrow> snd a + 48 * Hour \<le> snd b"
        using ask_keeps_record [OF Cons.prems(1), of e tk r] Cons.prems(2) Ask by (simp_all add: s'_def)
      have "fst (approval_run (x # steps) s) = ask_grants e tk r s @ fst (approval_run steps s')"
        by (simp add: Ask s'_def split_def Let_def)
      moreover have "sorted_wrt P (ask_grants e tk r s)" for P by (simp add: ask_grants_def)
      ultimately show ?thesis using Cons.IH [OF k(1)] k(2) Cons.prems(2)
        by (simp add: sorted_wrt_append ball_Un del: approval_run.simps)
    next
      case (Check e)
      with Cons.prems check_keeps_record [of L s e] Cons.IH [of L "snd (UpdateApprovalOrderByJobStatus e s)"] show ?thesis by simp
    qed
  qed simp
  from this [of "[]"] show ?thesis using assms(1) by (simp add: approvals_on_record_def)
qed

text \<open>The limit on automatic approvals rests on the orders staying in the table with their note.
  A user who deletes the order of the last automatic approval, or any user who overwrites its note,
  makes the next request eligible again at once, however recent the approval was.\<close>

theorem approval_limit_reopened:
  assumes "ord \<in> set (pf_orders s)" and "distinct (map ao_id (pf_orders s))" and "ao_creatorID ord = uid"
    and "\<forall>o' \<in> set (pf_orders s). ao_id o' \<noteq> ao_id ord \<longrightarrow> ao_reviewNotes o' \<noteq> autoApprovalReason"
    and "uid \<noteq> 0" and "tk_userID tk = uid" and "tk_userID other \<noteq> 0"
    and "ap_ordersErr e = None" and "ap_deleteErr e = None" and "ap_updateErr e = None"
    and "rq_type r = ApprovalOrderTypeJob" and "rq_extensionHours r < 12"
    and "rq_status w \<noteq> ApprovalOrderStatusApproved" and "rq_reviewNotes w \<notin> {[], autoApprovalReason}"
  shows "checkAutoApprovalEligibility e uid r (snd (DeleteApprovalOrder e tk (Some (ao_id ord)) s)) = Inr True \<and>
    checkAutoApprovalEligibility e uid r (snd (UpdateApprovalOrder e other (Some w) (Some (ao_id ord)) s)) = Inr True"
proof -
  have same: "ao_id x = ao_id ord \<Longrightarrow> x \<in> set (pf_orders s) \<Longrightarrow> x = ord" for x
    using assms(1,2) by (auto simp: distinct_map dest: inj_onD)
  obtain x where x: "order_with_id (ao_id ord) s = Some x"
    using assms(1) by (cases "order_with_id (ao_id ord) s") (auto simp: order_with_id_def tbl_first_None)
  then have "x = ord" using same [of x] by (auto simp: order_with_id_def dest: tbl_first_Some)
  then have "pf_orders (snd (DeleteApprovalOrder e tk (Some (ao_id ord)) s)) = tbl_delete (\<lambda>o'. ao_id o' = ao_id ord) (pf_orders s)"
    using assms(3,5,6,8,9) x by (simp add: DeleteApprovalOrder_def Let_def)
  then have "\<not> recently_granted e uid (snd (DeleteApprovalOrder e tk (Some (ao_id ord)) s))"
    using assms(4) by (auto simp: recently_granted_def tbl_delete_def)
  moreover have "\<not> recently_granted e uid (snd (UpdateApprovalOrder e other (Some w) (Some (ao_id ord)) s))"
    using assms(4,7,10,13,14) by (auto simp: UpdateApprovalOrder_def recently_granted_def tbl_updates_def order_patch_def)
  ultimately show ?thesis using assms(8,11,12) by (simp add: checkAuto_eq)
qed

text \<open>Who may do what with an order: only its creator can view or delete it, only administrators
  can read it through the administrator's route or set it to approved; refused requests change
  nothing, and a deletion removes that order alone.\<close>

theorem order_permissions:
  "(GetApprovalOrder e tk (Some i) s = Inr resp \<longrightarrow> (\<exists>ord \<in> set (pf_orders s). ao_id ord = i \<and>
      ao_creatorID ord = tk_userID tk \<and> ar_order resp = ord)) \<and>
   (GetApprovalOrderAdmin e tk (Some i) s = Inr resp \<longrightarrow> tk_rolePlatform tk = RoleAdmin) \<and>
   (GetMyApprovalOrders e tk s = Inr resps \<longrightarrow>
      map ar_order resps = filter (\<lambda>ord. ao_creatorID ord = tk_userID tk) (pf_orders s)) \<and>
   (fst (DeleteApprovalOrder e tk (Some i) s) = Inr () \<longrightarrow>
      (\<exists>ord \<in> set (pf_orders s). ao_id ord = i \<and> ao_creatorID ord = tk_userID tk) \<and>
      snd (DeleteApprovalOrder e tk (Some i) s) = s\<lparr>pf_orders := filter (\<lambda>ord. ao_id ord \<noteq> i) (pf_orders s)\<rparr>) \<and>
   (tk_rolePlatform tk \<noteq> RoleAdmin \<and> rq_status w = ApprovalOrderStatusApproved \<longrightarrow>
      (\<exists>err. UpdateApprovalOrder e tk (Some w) (Some i) s = (Inl err, s)))"
proof (intro conjI impI)
  assume "GetApprovalOrder e tk (Some i) s = Inr resp"
  then show "\<exists>ord \<in> set (pf_orders s). ao_id ord = i \<and> ao_creatorID ord = tk_userID tk \<and> ar_order resp = ord"
    by (auto simp: GetApprovalOrder_def order_with_id_def convertToApprovalOrderResp_def
        dest: tbl_first_Some split: if_splits option.splits)
next
  assume "GetApprovalOrderAdmin e tk (Some i) s = Inr resp"
  then show "tk_rolePlatform tk = RoleAdmin" by (auto simp: GetApprovalOrderAdmin_def split: if_splits)
next
  assume "GetMyApprovalOrders e tk s = Inr resps"
  then show "map ar_order resps = filter (\<lambda>ord. ao_creatorID ord = tk_userID tk) (pf_orders s)"
    by (auto simp: GetMyApprovalOrders_def convertToApprovalOrderResps_def convertToApprovalOrderResp_def tbl_find_def comp_def
        split: if_splits option.splits)
next
  assume d: "fst (DeleteApprovalOrder e tk (Some i) s) = Inr ()"
  then show "\<exists>ord \<in> set (pf_orders s). ao_id ord = i \<and> ao_creatorID ord = tk_userID tk"
    by (auto simp: DeleteApprovalOrder_def order_with_id_def dest!: tbl_first_Some split: if_splits option.splits)
  from d show "snd (DeleteApprovalOrder e tk (Some i) s) = s\<lparr>pf_orders := filter (\<lambda>ord. ao_id ord \<noteq> i) (pf_orders s)\<rparr>"
    by (auto simp: DeleteApprovalOrder_def Let_def tbl_delete_def split: if_splits option.splits)
next
  assume "tk_rolePlatform tk \<noteq> RoleAdmin \<and> rq_status w = ApprovalOrderStatusApproved"
  then show "\<exists>err. UpdateApprovalOrder e tk (Some w) (Some i) s = (Inl err, s)" by (auto simp: UpdateApprovalOrder_def)
qed

section \<open>Witnesses\<close>

definition quiet_approvals :: "time \<Rightarrow> approval_env" where
  "quiet_approvals now = \<lparr>ap_now = now, ap_permanent = 10 ^ 20, ap_ordersErr = None, ap_createErr = None, ap_updateErr = None,
     ap_deleteErr = None, ap_jobErr = \<lambda>_. None, ap_lockErr = None\<rparr>"

definition sample_request :: approval_order_req where
  "sample_request = \<lparr>rq_name = ''job-1'', rq_type = ApprovalOrderTypeJob, rq_status = ApprovalOrderStatusPending,
     rq_typeID = 0, rq_reason = ''long run'', rq_extensionHours = 5\<rparr>"

definition sample_order :: approval_order where
  "sample_order = \<lparr>ao_id = 4, ao_createdAt = 100, ao_name = ''job-9'', ao_type = ApprovalOrderTypeJob,
     ao_status = ApprovalOrderStatusPending, ao_typeID = 0, ao_extensionHours = 5, ao_reason = [], ao_reviewNotes = autoApprovalReason,
     ao_creatorID = 3, ao_reviewerID = 0\<rparr>"

lemma lock_extension_witness:
  "\<exists>t j. fst (AddLockTime (quiet_approvals 1000) (Some \<lparr>sl_name = ''job-1'', sl_isPermanent = False, sl_days = 1, sl_hours = 2, sl_minutes = 3\<rparr>)
     sample_platform) = Inr t \<and> t = extended_lock 1000 (26 * Hour + 3 * Minute) j \<and> j = sample_job"
proof -
  let ?r = "\<lparr>sl_name = ''job-1'', sl_isPermanent = False, sl_days = 1, sl_hours = 2, sl_minutes = 3\<rparr>"
  have j: "job_named ''job-1'' sample_platform = Some sample_job"
    by (simp add: job_named_def sample_platform_def tbl_first_Cons sample_job_def)
  obtain t s' where r: "AddLockTime (quiet_approvals 1000) (Some ?r) sample_platform = (Inr t, s')"
    by (simp add: AddLockTime_def job_by_name_def quiet_approvals_def j Let_def) (simp add: sample_job_def Let_def)
  from lock_extension [OF r] have "t = extended_lock 1000 (26 * Hour + 3 * Minute) sample_job"
    by (simp add: j) (simp add: quiet_approvals_def)
  with r show ?thesis by simp
qed

lemma sample_approval:
  "\<exists>msg s'. CreateApprovalOrder (quiet_approvals 1000) \<lparr>tk_userID = 3, tk_rolePlatform = RoleUser\<rparr> (Some sample_request) sample_platform = (Inr msg, s')"
proof -
  have can: "checkAutoApprovalEligibility (quiet_approvals 1000) 3 sample_request sample_platform = Inr True"
    by (simp add: checkAuto_eq sample_request_def quiet_approvals_def recently_granted_def sample_platform_def)
  show ?thesis by (simp add: CreateApprovalOrder_def can Let_def split_def) (simp add: quiet_approvals_def)
qed

lemma create_order_outcome_witness:
  "\<exists>msg s' ord. CreateApprovalOrder (quiet_approvals 1000) \<lparr>tk_userID = 3, tk_rolePlatform = RoleUser\<rparr> (Some sample_request) sample_platform = (Inr msg, s') \<and>
     pf_orders s' = [ord] \<and> ao_status ord = ApprovalOrderStatusApproved"
proof -
  obtain msg s' where r: "CreateApprovalOrder (quiet_approvals 1000) \<lparr>tk_userID = 3, tk_rolePlatform = RoleUser\<rparr> (Some sample_request)
      sample_platform = (Inr msg, s')" using sample_approval by blast
  have "granted (quiet_approvals 1000) 3 sample_request sample_platform"
    by (simp add: granted_def recently_granted_def lockable_def sample_request_def quiet_approvals_def sample_platform_def
        job_named_def tbl_first_Cons sample_job_def)
  with create_order_outcome [OF r] r show ?thesis by (auto simp: sample_platform_def)
qed

lemma order_check_exact_witness:
  "fst (UpdateApprovalOrderByJobStatus (quiet_approvals 1000) (sample_platform\<lparr>pf_orders := [sample_order]\<rparr>)) = Inr (1, 1)"
  using order_check_exact [of "quiet_approvals 1000" "sample_platform\<lparr>pf_orders := [sample_order]\<rparr>"]
  by (simp add: quiet_approvals_def sample_order_def cancel_reason_def job_by_name_def job_named_def sample_platform_def
      tbl_first_Cons sample_job_def)

lemma automatic_approvals_spaced_witness:
  "sorted_wrt (\<lambda>a b. fst a = fst b \<longrightarrow> snd a + 48 * Hour \<le> snd b)
     (fst (approval_run [Ask (quiet_approvals 1000) \<lparr>tk_userID = 3, tk_rolePlatform = RoleUser\<rparr> sample_request,
        Check (quiet_approvals 2000), Ask (quiet_approvals 3000) \<lparr>tk_userID = 3, tk_rolePlatform = RoleUser\<rparr> sample_request] sample_platform))"
  by (rule automatic_approvals_spaced) (simp_all add: sample_platform_def quiet_approvals_def)

lemma approval_limit_reopened_witness:
  "checkAutoApprovalEligibility (quiet_approvals 1000) 3 sample_request
     (snd (DeleteApprovalOrder (quiet_approvals 1000) \<lparr>tk_userID = 3, tk_rolePlatform = RoleUser\<rparr> (Some 4)
       (sample_platform\<lparr>pf_orders := [sample_order]\<rparr>))) = Inr True"
  using approval_limit_reopened [of sample_order "sample_platform\<lparr>pf_orders := [sample_order]\<rparr>" 3
      "\<lparr>tk_userID = 3, tk_rolePlatform = RoleUser\<rparr>" "\<lparr>tk_userID = 9, tk_rolePlatform = RoleGuest\<rparr>" "quiet_approvals 1000" sample_request
      "\<lparr>rq_name = [], rq_type = OtherOrderType [], rq_status = ApprovalOrderStatusPending, rq_typeID = 0, rq_reason = [],
        rq_extensionHours = 0, rq_reviewerID = 0, rq_reviewNotes = ''x''\<rparr>"]
  by (simp add: quiet_approvals_def sample_order_def sample_request_def autoApprovalReason_def)

lemma order_permissions_witness:
  "\<exists>err. UpdateApprovalOrder (quiet_approvals 1000) \<lparr>tk_userID = 3, tk_rolePlatform = RoleUser\<rparr>
     (Some \<lparr>rq_name = ''n'', rq_type = ApprovalOrderTypeJob, rq_status = ApprovalOrderStatusApproved, rq_typeID = 0, rq_reason = [],
        rq_extensionHours = 0, rq_reviewerID = 0, rq_reviewNotes = []\<rparr>) (Some 4) sample_platform = (Inl err, sample_platform)"
  using order_permissions [of "quiet_approvals 1000" "\<lparr>tk_userID = 3, tk_rolePlatform = RoleUser\<rparr>" 4 sample_platform _ _
      "\<lparr>rq_name = ''n'', rq_type = ApprovalOrderTypeJob, rq_status = ApprovalOrderStatusApproved, rq_typeID = 0, rq_reason = [],
        rq_extensionHours = 0, rq_reviewerID = 0, rq_reviewNotes = []\<rparr>"]
  by simp

end
