(* ===== verification/Cron_Jobs.thy ===== *)
theory Cron_Jobs imports Cleaner begin

text \<open>
  The schedule of the clean-up policies: \<open>pkg/cleaner/cleaner.go\<close> turns a configuration row into a
  function and records its runs, \<open>pkg/cronjob\<close> keeps the rows and the scheduler in step and answers
  questions about the records, \<open>internal/handler/operations/cronjob.go\<close> is its web interface.

  The scheduler is the library \<open>robfig/cron\<close>: its state is a type variable and its calls are the
  parameter \<open>cron_ops\<close>, of which \<open>cron_laws\<close> says what the documentation promises.  Decoding a
  policy's request from JSON is a parameter too.  A function handed to the scheduler is the value
  \<open>cleaner_job\<close>: the name it records its runs under and the policy with its request.
\<close>

section \<open>The scheduler\<close>

datatype cleaner_func =
    LongTimeFunc clean_long_time_request
  | LowGPUFunc clean_low_gpu_request
  | WaitingJupyterFunc cancel_waiting_jupyter_request

type_synonym cleaner_job = "string \<times> cleaner_func"

record 'c cron_ops =
  co_add :: "string \<Rightarrow> cleaner_job \<Rightarrow> 'c \<Rightarrow> int result \<times> 'c"
  co_remove :: "int \<Rightarrow> 'c \<Rightarrow> 'c"
  co_start :: "'c \<Rightarrow> 'c"
  co_stop :: "'c \<Rightarrow> 'c"
  co_entries :: "'c \<Rightarrow> int \<Rightarrow> (string \<times> cleaner_job) option"

text \<open>
  Adding a function gives it a new positive identifier or fails and changes no entry (the schedule
  does not parse); removing an entry takes that entry out; starting and stopping keep the entries.
\<close>

definition cron_laws :: "'c cron_ops \<Rightarrow> bool" where
  "cron_laws S \<longleftrightarrow>
     (\<forall>spec f c i c'. co_add S spec f c = (Inr i, c') \<longrightarrow>
        0 < i \<and> co_entries S c i = None \<and> co_entries S c' = (co_entries S c)(i \<mapsto> (spec, f))) \<and>
     (\<forall>spec f c x c'. co_add S spec f c = (Inl x, c') \<longrightarrow> co_entries S c' = co_entries S c) \<and>
     (\<forall>i c. co_entries S (co_remove S i c) = (co_entries S c)(i := None)) \<and>
     (\<forall>c. co_entries S (co_start S c) = co_entries S c \<and> co_entries S (co_stop S c) = co_entries S c)"

text \<open>What \<open>json.Unmarshal\<close> makes of a configuration, for each of the three request types.\<close>

record json_requests =
  jr_long :: "string \<Rightarrow> clean_long_time_request result"
  jr_low :: "string \<Rightarrow> clean_low_gpu_request result"
  jr_waiting :: "string \<Rightarrow> cancel_waiting_jupyter_request result"

section \<open>Dispatch and records\<close>

text \<open>
  The result of a policy is a Go map from the words \<open>reminded\<close> and \<open>deleted\<close> to job names, the nil
  map beside an error.  \<open>WrapCleanerFunc\<close> receives it as \<open>any\<close>, where a nil map is not nil, so it
  is always written: the nil map as the JSON text \<open>null\<close>, here \<open>Some None\<close>.
\<close>

type_synonym job_result = "(string, string list) gomap option"

record cron_record =
  cr_id :: nat
  cr_name :: string
  cr_executeTime :: time
  cr_status :: string
  cr_message :: string
  cr_jobData :: "job_result option"

abbreviation (input) CronJobRecordStatusSuccess :: string where "CronJobRecordStatusSuccess \<equiv> ''success''"
abbreviation (input) CronJobRecordStatusFailed :: string where "CronJobRecordStatusFailed \<equiv> ''failed''"
abbreviation (input) CronJobTypeCleanerFunc :: string where "CronJobTypeCleanerFunc \<equiv> ''cleaner_function''"

record ('q, 'p, 't, 'c) cron_world =
  cw_platform :: "('q, 'p, 't) platform"
  cw_configs :: "cron_job_config table"
  cw_records :: "cron_record table"
  cw_cron :: 'c

definition GetCleanerFunc :: "json_requests \<Rightarrow> string \<Rightarrow> string \<Rightarrow> cleaner_func result" where
  "GetCleanerFunc J jobName jobConfig =
     (if jobName = ''clean-long-time-job'' then go_bind (jr_long J jobConfig) (\<lambda>r. Inr (LongTimeFunc r))
      else if jobName = ''clean-low-gpu-util-job'' then go_bind (jr_low J jobConfig) (\<lambda>r. Inr (LowGPUFunc r))
      else if jobName = ''clean-waiting-jupyter-job'' then go_bind (jr_waiting J jobConfig) (\<lambda>r. Inr (WaitingJupyterFunc r))
      else Inl (''unsupported cleaner job name: '' @ jobName))"

definition GetWrapCleanerFunc :: "json_requests \<Rightarrow> string \<Rightarrow> string \<Rightarrow> cleaner_job result" where
  "GetWrapCleanerFunc J jobName jobConfig = go_bind (GetCleanerFunc J jobName jobConfig) (\<lambda>f. Inr (jobName, f))"

fun run_cleaner ::
  "cleaner_env \<Rightarrow> cleaner_func \<Rightarrow> ('q, 'p, 't) platform \<Rightarrow> job_result \<times> fault \<times> ('q, 'p, 't) platform" where
  "run_cleaner e (LongTimeFunc r) s =
     (case CleanLongTimeRunningJobs e (Some r) s of
        (Inl x, s') \<Rightarrow> (None, Some x, s')
      | (Inr (reminded, deleted), s') \<Rightarrow> (Some [(''reminded'', reminded), (''deleted'', deleted)], None, s'))"
| "run_cleaner e (LowGPUFunc r) s =
     (case CleanLowGPUUsageJobs e (Some r) s of
        (Inl x, s') \<Rightarrow> (None, Some x, s')
      | (Inr (reminded, deleted), s') \<Rightarrow> (Some [(''reminded'', reminded), (''deleted'', deleted)], None, s'))"
| "run_cleaner e (WaitingJupyterFunc r) s =
     (case CleanWaitingJupyterJobs e (Some r) s of
        (Inl x, s') \<Rightarrow> (None, Some x, s')
      | (Inr deleted, s') \<Rightarrow> (Some [(''deleted'', deleted)], None, s'))"

definition WrapCleanerFunc ::
  "cleaner_env \<Rightarrow> fault \<Rightarrow> time \<Rightarrow> cleaner_job \<Rightarrow> ('q, 'p, 't, 'c) cron_world \<Rightarrow> ('q, 'p, 't, 'c) cron_world" where
  "WrapCleanerFunc e createErr now j w =
     (let (jobResult, err, s') = run_cleaner e (snd j) (cw_platform w);
          rec = \<lparr>cr_id = next_id (map cr_id (cw_records w)), cr_name = fst j, cr_executeTime = now,
            cr_status = (if err = None then CronJobRecordStatusSuccess else CronJobRecordStatusFailed),
            cr_message = [], cr_jobData = Some jobResult\<rparr>
      in w\<lparr>cw_platform := s',
           cw_records := (if createErr = None then cw_records w @ [rec] else cw_records w)\<rparr>)"

section \<open>Keeping rows and scheduler in step\<close>

text \<open>The calls of one update that may fail: the read, the write and the commit of the transaction.\<close>

record cron_update_env =
  cu_getErr :: fault
  cu_updateErr :: fault
  cu_commitErr :: fault

definition newCronJobFunc :: "json_requests \<Rightarrow> string \<Rightarrow> string \<Rightarrow> string \<Rightarrow> cleaner_job result" where
  "newCronJobFunc J jobName jobType jobConfig =
     (if jobType = CronJobTypeCleanerFunc then GetWrapCleanerFunc J jobName jobConfig
      else Inl (''unsupported cron job type: '' @ jobType))"

definition AddCronJob ::
  "'c cron_ops \<Rightarrow> json_requests \<Rightarrow> string \<Rightarrow> string \<Rightarrow> string \<Rightarrow> string \<Rightarrow> 'c \<Rightarrow> int result \<times> 'c" where
  "AddCronJob S J jobName jobSpec jobType jobConfig c =
     (case newCronJobFunc J jobName jobType jobConfig of
        Inl x \<Rightarrow> (Inl x, c)
      | Inr f \<Rightarrow> co_add S jobSpec f c)"

definition getCurrentJobConfigFromDB ::
  "cron_update_env \<Rightarrow> string \<Rightarrow> ('q, 'p, 't, 'c) cron_world \<Rightarrow> cron_job_config result" where
  "getCurrentJobConfigFromDB e name w =
     (case cu_getErr e of
        Some x \<Rightarrow> Inl (''CronJobManager.getCurrentJobConfigFromDB failed: '' @ x)
      | None \<Rightarrow> (case tbl_first (\<lambda>r. cj_name r = name) (cw_configs w) of
          None \<Rightarrow> Inl ''CronJobManager.getCurrentJobConfigFromDB failed: record not found''
        | Some cur \<Rightarrow> Inr cur))"

definition prepareUpdateConfig ::
  "cron_job_config \<Rightarrow> string option \<Rightarrow> string option \<Rightarrow> bool option \<Rightarrow> string option \<Rightarrow> cron_job_config" where
  "prepareUpdateConfig cur jobType spec suspend config =
     \<lparr>cj_name = cj_name cur,
      cj_type = (case jobType of Some t \<Rightarrow> t | None \<Rightarrow> cj_type cur),
      cj_spec = (case spec of Some p \<Rightarrow> (if p \<noteq> [] then p else cj_spec cur) | None \<Rightarrow> cj_spec cur),
      cj_suspend = (case suspend of Some b \<Rightarrow> Some b | None \<Rightarrow> cj_suspend cur),
      cj_config = (case config of Some d \<Rightarrow> (if d \<noteq> [] then d else cj_config cur) | None \<Rightarrow> cj_config cur),
      cj_entryID = 0\<rparr>"

definition shouldSuspendJob :: "bool \<Rightarrow> bool \<Rightarrow> bool" where
  "shouldSuspendJob wasSuspended shouldSuspend \<longleftrightarrow> \<not> wasSuspended \<and> shouldSuspend"

text \<open>
  \<open>Updates\<close> writes the fields of the update that are not zero.  The column of the configuration is
  never the nil slice: a null column is read as the text \<open>null\<close>.
\<close>

definition write_config :: "cron_job_config \<Rightarrow> cron_job_config \<Rightarrow> cron_job_config" where
  "write_config u r =
     r\<lparr>cj_name := (if cj_name u = [] then cj_name r else cj_name u),
       cj_type := (if cj_type u = [] then cj_type r else cj_type u),
       cj_spec := (if cj_spec u = [] then cj_spec r else cj_spec u),
       cj_suspend := (case cj_suspend u of None \<Rightarrow> cj_suspend r | Some b \<Rightarrow> Some b),
       cj_config := cj_config u,
       cj_entryID := (if cj_entryID u = 0 then cj_entryID r else cj_entryID u)\<rparr>"

definition write_row ::
  "cron_update_env \<Rightarrow> string \<Rightarrow> cron_job_config \<Rightarrow> ('q, 'p, 't, 'c) cron_world \<Rightarrow> fault \<times> ('q, 'p, 't, 'c) cron_world" where
  "write_row e name u w =
     (case cu_updateErr e of
        Some x \<Rightarrow> (Some x, w)
      | None \<Rightarrow> (None, w\<lparr>cw_configs := tbl_updates (\<lambda>r. cj_name r = name) (write_config u) (cw_configs w)\<rparr>))"

definition updateSuspendedJobConfig ::
  "'c cron_ops \<Rightarrow> cron_update_env \<Rightarrow> string \<Rightarrow> cron_job_config \<Rightarrow> cron_job_config \<Rightarrow>
   ('q, 'p, 't, 'c) cron_world \<Rightarrow> fault \<times> ('q, 'p, 't, 'c) cron_world" where
  "updateSuspendedJobConfig S e name cur update w =
     (case write_row e name (update\<lparr>cj_entryID := -1\<rparr>) w of
        (Some x, w1) \<Rightarrow> (Some (''CronJobManager.updateSuspendedJobConfig failed to update cron job config for job '' @ name @ '': '' @ x), w1)
      | (None, w1) \<Rightarrow> (None, w1\<lparr>cw_cron := co_remove S (cj_entryID cur) (cw_cron w1)\<rparr>))"

definition jobNeedsUpdate :: "cron_job_config \<Rightarrow> cron_job_config \<Rightarrow> bool" where
  "jobNeedsUpdate cur update \<longleftrightarrow>
     cj_type cur \<noteq> cj_type update \<or> cj_spec cur \<noteq> cj_spec update \<or> cj_config cur \<noteq> cj_config update"

definition updateActiveJobConfig ::
  "'c cron_ops \<Rightarrow> json_requests \<Rightarrow> cron_update_env \<Rightarrow> string \<Rightarrow> cron_job_config \<Rightarrow> cron_job_config \<Rightarrow>
   ('q, 'p, 't, 'c) cron_world \<Rightarrow> fault \<times> ('q, 'p, 't, 'c) cron_world" where
  "updateActiveJobConfig S J e name cur update w =
     (let c1 = (if GetSuspend cur \<and> jobNeedsUpdate cur update then co_remove S (cj_entryID cur) (cw_cron w) else cw_cron w)
      in (case AddCronJob S J name (cj_spec update) (cj_type update) (cj_config update) c1 of
            (Inl x, c2) \<Rightarrow> (Some (''addCronJob failed: '' @ x), w\<lparr>cw_cron := c2\<rparr>)
          | (Inr entryID, c2) \<Rightarrow>
              (case write_row e name (update\<lparr>cj_entryID := entryID\<rparr>) (w\<lparr>cw_cron := c2\<rparr>) of
                 (Some x, w1) \<Rightarrow> (Some (''DB failed to update cron job config for job '' @ name @ '': '' @ x),
                                 w1\<lparr>cw_cron := co_remove S entryID (cw_cron w1)\<rparr>)
               | (None, w1) \<Rightarrow> (None, w1))))"

text \<open>An error inside the transaction, or of its commit, takes the rows back but not the scheduler.\<close>

definition transaction ::
  "fault \<Rightarrow> (('q, 'p, 't, 'c) cron_world \<Rightarrow> fault \<times> ('q, 'p, 't, 'c) cron_world) \<Rightarrow>
   ('q, 'p, 't, 'c) cron_world \<Rightarrow> fault \<times> ('q, 'p, 't, 'c) cron_world" where
  "transaction commitErr body w =
     (case body w of
        (Some x, w1) \<Rightarrow> (Some x, w1\<lparr>cw_configs := cw_configs w\<rparr>)
      | (None, w1) \<Rightarrow> (case commitErr of Some x \<Rightarrow> (Some x, w1\<lparr>cw_configs := cw_configs w\<rparr>) | None \<Rightarrow> (None, w1)))"

definition update_body ::
  "'c cron_ops \<Rightarrow> json_requests \<Rightarrow> cron_update_env \<Rightarrow> string \<Rightarrow> string option \<Rightarrow> string option \<Rightarrow> bool option \<Rightarrow> string option \<Rightarrow>
   ('q, 'p, 't, 'c) cron_world \<Rightarrow> fault \<times> ('q, 'p, 't, 'c) cron_world" where
  "update_body S J e name jobType spec suspend config w =
     (case getCurrentJobConfigFromDB e name w of
        Inl x \<Rightarrow> (Some x, w)
      | Inr cur \<Rightarrow>
          let update = prepareUpdateConfig cur jobType spec suspend config
          in (case suspend of
                None \<Rightarrow> write_row e name update w
              | Some b \<Rightarrow>
                  if shouldSuspendJob (GetSuspend cur) b then updateSuspendedJobConfig S e name cur update w
                  else if \<not> b then updateActiveJobConfig S J e name cur update w
                  else write_row e name update w))"

definition UpdateJobConfig ::
  "'c cron_ops \<Rightarrow> json_requests \<Rightarrow> cron_update_env \<Rightarrow> string \<Rightarrow> string option \<Rightarrow> string option \<Rightarrow> bool option \<Rightarrow> string option \<Rightarrow>
   ('q, 'p, 't, 'c) cron_world \<Rightarrow> fault \<times> ('q, 'p, 't, 'c) cron_world" where
  "UpdateJobConfig S J e name jobType spec suspend config =
     transaction (cu_commitErr e) (update_body S J e name jobType spec suspend config)"

text \<open>The start of the scheduler: every row that is not suspended is added, and its entry recorded.\<close>

record cron_sync_env =
  cs_findErr :: fault
  cs_entryErr :: "string \<Rightarrow> fault"
  cs_commitErr :: fault

definition sync_one ::
  "'c cron_ops \<Rightarrow> json_requests \<Rightarrow> cron_sync_env \<Rightarrow> cron_job_config \<Rightarrow> ('q, 'p, 't, 'c) cron_world \<Rightarrow> ('q, 'p, 't, 'c) cron_world" where
  "sync_one S J e conf w =
     (case AddCronJob S J (cj_name conf) (cj_spec conf) (cj_type conf) (cj_config conf) (cw_cron w) of
        (Inl x, c) \<Rightarrow> w\<lparr>cw_cron := c\<rparr>
      | (Inr entryID, c) \<Rightarrow>
          if entryID \<noteq> cj_entryID conf \<and> cs_entryErr e (cj_name conf) = None
          then w\<lparr>cw_cron := c, cw_configs := tbl_updates (\<lambda>r. cj_name r = cj_name conf) (cj_entryID_update (\<lambda>_. entryID)) (cw_configs w)\<rparr>
          else w\<lparr>cw_cron := c\<rparr>)"

definition SyncCronJob ::
  "'c cron_ops \<Rightarrow> json_requests \<Rightarrow> cron_sync_env \<Rightarrow> ('q, 'p, 't, 'c) cron_world \<Rightarrow> ('q, 'p, 't, 'c) cron_world" where
  "SyncCronJob S J e w =
     snd (transaction (cs_commitErr e)
       (\<lambda>w1. case cs_findErr e of
          Some x \<Rightarrow> (None, w1)
        | None \<Rightarrow> (None, fold (sync_one S J e) (tbl_find (\<lambda>r. cj_suspend r = Some False) (cw_configs w1)) w1))
       (w\<lparr>cw_cron := co_start S (cw_cron w)\<rparr>))"

definition StopCron :: "'c cron_ops \<Rightarrow> ('q, 'p, 't, 'c) cron_world \<Rightarrow> ('q, 'p, 't, 'c) cron_world" where
  "StopCron S w = w\<lparr>cw_cron := co_stop S (cw_cron w)\<rparr>"

section \<open>Questions about rows and records\<close>

definition GetAllCronJobs :: "fault \<Rightarrow> ('q, 'p, 't, 'c) cron_world \<Rightarrow> cron_job_config list result" where
  "GetAllCronJobs err w = (case err of Some x \<Rightarrow> Inl x | None \<Rightarrow> Inr (cw_configs w))"

definition GetCronjobNames :: "fault \<Rightarrow> ('q, 'p, 't, 'c) cron_world \<Rightarrow> string list result" where
  "GetCronjobNames err w =
     (case err of
        Some x \<Rightarrow> Inl (''CronJobManager.GetCronjobNames: '' @ x)
      | None \<Rightarrow> Inr (map cj_name (cw_configs w)))"

text \<open>
  The time range: the database's \<open>min\<close> and \<open>max\<close>, null on an empty table and then read as the zero
  time, moved by one day of 24 hours (the configured zone has no daylight saving).
\<close>

definition GetCronjobRecordTimeRange :: "fault \<Rightarrow> ('q, 'p, 't, 'c) cron_world \<Rightarrow> (time \<times> time) result" where
  "GetCronjobRecordTimeRange err w =
     (case err of
        Some x \<Rightarrow> Inl (''CronJobManager.GetCronjobRecordTimeRange: '' @ x)
      | None \<Rightarrow>
          let ts = map cr_executeTime (cw_records w);
              (lo, hi) = (case ts of [] \<Rightarrow> (0, 0) | t # ts' \<Rightarrow> (fold min ts' t, fold max ts' t))
          in Inr (lo - 24 * Hour, hi + 24 * Hour))"

definition in_range :: "time option \<Rightarrow> time option \<Rightarrow> cron_record \<Rightarrow> bool" where
  "in_range startTime endTime r \<longleftrightarrow>
     (case startTime of None \<Rightarrow> True | Some a \<Rightarrow> a \<le> cr_executeTime r) \<and>
     (case endTime of None \<Rightarrow> True | Some b \<Rightarrow> cr_executeTime r \<le> b)"

definition record_wanted :: "string list \<Rightarrow> time option \<Rightarrow> time option \<Rightarrow> string option \<Rightarrow> cron_record \<Rightarrow> bool" where
  "record_wanted names startTime endTime st r \<longleftrightarrow>
     (names \<noteq> [] \<longrightarrow> cr_name r \<in> set names) \<and> in_range startTime endTime r \<and>
     (case st of None \<Rightarrow> True | Some x \<Rightarrow> cr_status r = x)"

text \<open>The listing and the counting are two queries that run side by side; an error of either ends both.\<close>

definition GetCronjobRecords ::
  "fault \<Rightarrow> fault \<Rightarrow> string list \<Rightarrow> time option \<Rightarrow> time option \<Rightarrow> string option \<Rightarrow> ('q, 'p, 't, 'c) cron_world \<Rightarrow>
   (cron_record list \<times> nat) result" where
  "GetCronjobRecords findErr countErr names startTime endTime st w =
     (case (findErr, countErr) of
        (None, None) \<Rightarrow>
          Inr (tbl_find (record_wanted names startTime endTime st) (cw_records w),
               length (tbl_find (record_wanted names startTime endTime st) (cw_records w)))
      | (Some x, _) \<Rightarrow> Inl (''CronJobManager.GetCronjobRecords: '' @ x)
      | (None, Some x) \<Rightarrow> Inl (''CronJobManager.GetCronjobRecords: '' @ x))"

text \<open>A deletion without any condition is refused by \<open>gorm\<close>.\<close>

definition DeleteCronjobRecords ::
  "fault \<Rightarrow> nat list \<Rightarrow> time option \<Rightarrow> time option \<Rightarrow> ('q, 'p, 't, 'c) cron_world \<Rightarrow> nat result \<times> ('q, 'p, 't, 'c) cron_world" where
  "DeleteCronjobRecords err ids startTime endTime w =
     (if ids = [] \<and> startTime = None \<and> endTime = None then (Inl ''WHERE conditions required'', w)
      else (case err of
        Some x \<Rightarrow> (Inl (''CronJobManager.DeleteCronjobRecords: '' @ x), w)
      | None \<Rightarrow>
          let chosen = (\<lambda>r. (ids \<noteq> [] \<longrightarrow> cr_id r \<in> set ids) \<and> in_range startTime endTime r)
          in (Inr (length (tbl_find chosen (cw_records w))), w\<lparr>cw_records := tbl_delete chosen (cw_records w)\<rparr>)))"

section \<open>The web interface\<close>

text \<open>
  The handlers of \<open>operations/cronjob.go\<close>; a request that does not bind is \<open>None\<close>.  The request's
  configuration object is a Go map, its JSON text and back are parameters.
\<close>

record 'j cronjob_configs =
  cc_name :: string
  cc_type :: string
  cc_schedule :: string
  cc_suspend :: bool
  cc_configs :: "(string, 'j) gomap"

definition UpdateCronjobConfig ::
  "'c cron_ops \<Rightarrow> json_requests \<Rightarrow> ((string, 'j) gomap \<Rightarrow> string) \<Rightarrow> cron_update_env \<Rightarrow> 'j cronjob_configs option \<Rightarrow>
   ('q, 'p, 't, 'c) cron_world \<Rightarrow> fault \<times> ('q, 'p, 't, 'c) cron_world" where
  "UpdateCronjobConfig S J marshal e req w =
     (case req of
        None \<Rightarrow> (Some ''invalid request'', w)
      | Some r \<Rightarrow>
          UpdateJobConfig S J e (cc_name r)
            (if cc_type r \<noteq> [] then Some (cc_type r) else None)
            (if cc_schedule r \<noteq> [] then Some (cc_schedule r) else None)
            (Some (cc_suspend r))
            (if cc_configs r \<noteq> [] then Some (marshal (cc_configs r)) else None) w)"

definition GetCronjobConfigs ::
  "(string \<Rightarrow> (string, 'j) gomap option) \<Rightarrow> fault \<Rightarrow> ('q, 'p, 't, 'c) cron_world \<Rightarrow> 'j cronjob_configs list result" where
  "GetCronjobConfigs unmarshal err w =
     go_bind (GetAllCronJobs err w) (\<lambda>jobs. Inr (map (\<lambda>job.
       \<lparr>cc_name = cj_name job, cc_type = cj_type job, cc_schedule = cj_spec job, cc_suspend = GetSuspend job,
        cc_configs = (case unmarshal (cj_config job) of None \<Rightarrow> [] | Some m \<Rightarrow> m)\<rparr>) jobs))"

record cron_records_req =
  gr_name :: "string list"
  gr_startTime :: "time option"
  gr_endTime :: "time option"
  gr_status :: "string option"

definition handle_GetCronjobRecords ::
  "fault \<Rightarrow> fault \<Rightarrow> cron_records_req option \<Rightarrow> ('q, 'p, 't, 'c) cron_world \<Rightarrow> (cron_record list \<times> nat) result" where
  "handle_GetCronjobRecords findErr countErr req w =
     (case req of
        None \<Rightarrow> Inl ''bad request''
      | Some r \<Rightarrow> GetCronjobRecords findErr countErr (gr_name r) (gr_startTime r) (gr_endTime r) (gr_status r) w)"

record delete_records_req =
  dr_id :: "nat list"
  dr_startTime :: "time option"
  dr_endTime :: "time option"

definition handle_DeleteCronjobRecords ::
  "fault \<Rightarrow> delete_records_req option \<Rightarrow> ('q, 'p, 't, 'c) cron_world \<Rightarrow> string result \<times> ('q, 'p, 't, 'c) cron_world" where
  "handle_DeleteCronjobRecords err req w =
     (case req of
        None \<Rightarrow> (Inl ''invalid request'', w)
      | Some r \<Rightarrow>
          if dr_id r = [] \<and> dr_startTime r = None \<and> dr_endTime r = None
          then (Inl ''id or startTime or endTime is required'', w)
          else (case DeleteCronjobRecords err (dr_id r) (dr_startTime r) (dr_endTime r) w of
             (Inl x, w') \<Rightarrow> (Inl x, w')
           | (Inr n, w') \<Rightarrow> (Inr (fmt_uint n), w')))"

section \<open>Rows and scheduler in step\<close>

text \<open>
  \<open>in_step_for S J D w\<close>: of the rows whose names are in \<open>D\<close>, the active ones have exactly one entry
  each in the scheduler, under the recorded identifier, with their schedule and their policy; there
  are no other entries, and the identifier of a suspended row is none of an entry.
\<close>

definition scheduled_as :: "'c cron_ops \<Rightarrow> json_requests \<Rightarrow> 'c \<Rightarrow> cron_job_config \<Rightarrow> bool" where
  "scheduled_as S J c r \<longleftrightarrow> (\<exists>f. newCronJobFunc J (cj_name r) (cj_type r) (cj_config r) = Inr f \<and>
     co_entries S c (cj_entryID r) = Some (cj_spec r, f))"

definition in_step_for ::
  "'c cron_ops \<Rightarrow> json_requests \<Rightarrow> string set \<Rightarrow> ('q, 'p, 't, 'c) cron_world \<Rightarrow> bool" where
  "in_step_for S J D w \<longleftrightarrow> distinct (map cj_name (cw_configs w)) \<and>
     (\<forall>r \<in> set (cw_configs w). if GetSuspend r then cj_entryID r \<le> 0 else cj_name r \<in> D \<longrightarrow> scheduled_as S J (cw_cron w) r) \<and>
     (\<forall>i. co_entries S (cw_cron w) i \<noteq> None \<longrightarrow>
        0 < i \<and> (\<exists>r \<in> set (cw_configs w). \<not> GetSuspend r \<and> cj_name r \<in> D \<and> cj_entryID r = i))"

abbreviation in_step :: "'c cron_ops \<Rightarrow> json_requests \<Rightarrow> ('q, 'p, 't, 'c) cron_world \<Rightarrow> bool" where
  "in_step S J w \<equiv> in_step_for S J UNIV w"

lemma in_step_entry:
  "in_step_for S J D w \<Longrightarrow> co_entries S (cw_cron w) i \<noteq> None \<Longrightarrow>
   0 < i \<and> (\<exists>r \<in> set (cw_configs w). \<not> GetSuspend r \<and> cj_name r \<in> D \<and> cj_entryID r = i)"
  unfolding in_step_for_def by blast

lemma no_entry: "in_step_for S J D w \<Longrightarrow> i \<le> 0 \<Longrightarrow> co_entries S (cw_cron w) i = None"
  using in_step_entry [of S J D w i] by (cases "co_entries S (cw_cron w) i = None") simp_all

lemma newCronJobFunc_name: "newCronJobFunc J n t d = Inr f \<Longrightarrow> fst f = n"
  by (auto simp: newCronJobFunc_def GetWrapCleanerFunc_def go_bind_Inr_iff split: if_splits)

lemma scheduled_name:
  "scheduled_as S J c r \<Longrightarrow> scheduled_as S J c r' \<Longrightarrow> cj_entryID r = cj_entryID r' \<Longrightarrow> cj_name r = cj_name r'"
  by (auto simp: scheduled_as_def dest!: newCronJobFunc_name)

lemma names_determine: "distinct (map cj_name rs) \<Longrightarrow> r \<in> set rs \<Longrightarrow> r' \<in> set rs \<Longrightarrow> cj_name r = cj_name r' \<Longrightarrow> r = r'"
  by (auto simp: distinct_map inj_on_def)

lemma row_named:
  assumes "distinct (map cj_name rs)" and "r \<in> set rs"
  shows "tbl_first (\<lambda>x. cj_name x = cj_name r) rs = Some r"
proof (cases "tbl_first (\<lambda>x. cj_name x = cj_name r) rs")
  case None
  with assms(2) show ?thesis by (auto simp: tbl_first_None)
next
  case (Some x)
  with names_determine [OF assms(1) _ assms(2), of x] show ?thesis by (auto dest: tbl_first_Some)
qed

lemma set_row_updates:
  assumes "distinct (map cj_name rs)" and "cur \<in> set rs"
  shows "set (tbl_updates (\<lambda>r. cj_name r = cj_name cur) g rs) = insert (g cur) (set rs - {cur})"
proof -
  have "set (tbl_updates (\<lambda>r. cj_name r = cj_name cur) g rs) = (\<lambda>r. if cj_name r = cj_name cur then g r else r) ` set rs"
    by (simp add: tbl_updates_def)
  also have "\<dots> = (\<lambda>r. if r = cur then g r else r) ` set rs"
    using names_determine [OF assms(1) _ assms(2)] by (auto intro!: image_cong)
  finally show ?thesis using assms(2) by auto
qed

lemma names_row_updates:
  "(\<And>r. P r \<Longrightarrow> cj_name (g r) = cj_name r) \<Longrightarrow> map cj_name (tbl_updates P g rs) = map cj_name rs"
  by (simp add: tbl_updates_def)

text \<open>A row that had no entry gets one.\<close>

lemma in_step_adopt:
  assumes I: "in_step_for S J D w" and cur: "cur \<in> set (cw_configs w)" "GetSuspend cur \<or> cj_name cur \<notin> D"
    and new: "0 < i" "co_entries S (cw_cron w) i = None"
    and f: "newCronJobFunc J (cj_name cur) (cj_type (g cur)) (cj_config (g cur)) = Inr f"
    and g: "\<And>r. cj_name r = cj_name cur \<Longrightarrow> cj_name (g r) = cj_name r" "\<not> GetSuspend (g cur)" "cj_entryID (g cur) = i"
    and w': "cw_configs w' = tbl_updates (\<lambda>r. cj_name r = cj_name cur) g (cw_configs w)"
      "co_entries S (cw_cron w') = (co_entries S (cw_cron w))(i \<mapsto> (cj_spec (g cur), f))"
  shows "in_step_for S J (insert (cj_name cur) D) w'"
proof -
  have d: "distinct (map cj_name (cw_configs w))" using I by (simp add: in_step_for_def)
  have rows: "set (cw_configs w') = insert (g cur) (set (cw_configs w) - {cur})"
    unfolding w' by (rule set_row_updates [OF d cur(1)])
  have sched: "scheduled_as S J (cw_cron w') (g cur)" using f g by (simp add: scheduled_as_def w'(2))
  have old: "if GetSuspend r then cj_entryID r \<le> 0 else cj_name r \<in> insert (cj_name cur) D \<longrightarrow> scheduled_as S J (cw_cron w') r"
    if "r \<in> set (cw_configs w)" "r \<noteq> cur" for r
  proof -
    have "cj_name r \<noteq> cj_name cur" using that names_determine [OF d that(1) cur(1)] by blast
    moreover have "if GetSuspend r then cj_entryID r \<le> 0 else cj_name r \<in> D \<longrightarrow> scheduled_as S J (cw_cron w) r"
      using I that(1) by (simp add: in_step_for_def)
    ultimately show ?thesis using new(2) by (auto simp: scheduled_as_def w'(2) split: if_splits)
  qed
  have entry_row: "\<exists>r \<in> set (cw_configs w'). \<not> GetSuspend r \<and> cj_name r \<in> insert (cj_name cur) D \<and> cj_entryID r = k"
    if k: "co_entries S (cw_cron w') k \<noteq> None" for k
  proof (cases "k = i")
    case True then show ?thesis using g by (auto simp: rows)
  next
    case False
    then have "co_entries S (cw_cron w) k \<noteq> None" using k by (simp add: w'(2))
    from in_step_entry [OF I this]
    obtain r where "r \<in> set (cw_configs w)" "\<not> GetSuspend r" "cj_name r \<in> D" "cj_entryID r = k" by blast
    then show ?thesis using cur(2) by (auto simp: rows)
  qed
  have pos: "0 < k" if "co_entries S (cw_cron w') k \<noteq> None" for k
    using I that new(1) by (auto simp: in_step_for_def w'(2) split: if_splits)
  have rows_ok: "\<forall>r \<in> set (cw_configs w'). if GetSuspend r then cj_entryID r \<le> 0
      else cj_name r \<in> insert (cj_name cur) D \<longrightarrow> scheduled_as S J (cw_cron w') r"
  proof
    fix r assume "r \<in> set (cw_configs w')"
    then consider "r = g cur" | "r \<in> set (cw_configs w)" "r \<noteq> cur" unfolding rows by blast
    then show "if GetSuspend r then cj_entryID r \<le> 0
      else cj_name r \<in> insert (cj_name cur) D \<longrightarrow> scheduled_as S J (cw_cron w') r"
      by cases (use sched g in simp, rule old)
  qed
  have "distinct (map cj_name (cw_configs w'))" using d by (simp add: w'(1) names_row_updates g(1))
  with rows_ok entry_row pos show ?thesis unfolding in_step_for_def by blast
qed

text \<open>A row is suspended, its entry, if it had one, is removed.\<close>

lemma in_step_drop:
  assumes I: "in_step S J w" and cur: "cur \<in> set (cw_configs w)"
    and g: "\<And>r. cj_name r = cj_name cur \<Longrightarrow> cj_name (g r) = cj_name r" "GetSuspend (g cur)" "cj_entryID (g cur) \<le> 0"
    and w': "cw_configs w' = tbl_updates (\<lambda>r. cj_name r = cj_name cur) g (cw_configs w)"
      "co_entries S (cw_cron w') = (co_entries S (cw_cron w))(cj_entryID cur := None)"
  shows "in_step S J w'"
proof -
  have d: "distinct (map cj_name (cw_configs w))" using I by (simp add: in_step_for_def)
  have rows: "set (cw_configs w') = insert (g cur) (set (cw_configs w) - {cur})"
    unfolding w' by (rule set_row_updates [OF d cur])
  have old: "scheduled_as S J (cw_cron w') r"
    if r: "r \<in> set (cw_configs w)" "r \<noteq> cur" "\<not> GetSuspend r" for r
  proof -
    have sr: "scheduled_as S J (cw_cron w) r" using I r by (auto simp: in_step_for_def split: if_splits)
    have "cj_entryID r \<noteq> cj_entryID cur"
    proof
      assume eq: "cj_entryID r = cj_entryID cur"
      have "co_entries S (cw_cron w) (cj_entryID r) \<noteq> None" using sr by (auto simp: scheduled_as_def)
      then have "0 < cj_entryID cur" using I eq by (auto simp: in_step_for_def)
      then have "scheduled_as S J (cw_cron w) cur" using I cur by (auto simp: in_step_for_def split: if_splits)
      then have "cj_name r = cj_name cur" by (rule scheduled_name [OF sr _ eq])
      then show False using names_determine [OF d r(1) cur] r(2) by blast
    qed
    with sr show ?thesis by (simp add: scheduled_as_def w'(2))
  qed
  have entry_row: "0 < k \<and> (\<exists>r \<in> set (cw_configs w'). \<not> GetSuspend r \<and> cj_entryID r = k)"
    if k: "co_entries S (cw_cron w') k \<noteq> None" for k
  proof -
    have "k \<noteq> cj_entryID cur" "co_entries S (cw_cron w) k \<noteq> None" using k by (auto simp: w'(2) split: if_splits)
    with in_step_entry [OF I this(2)]
    obtain r where "0 < k" "r \<in> set (cw_configs w)" "\<not> GetSuspend r" "cj_entryID r = k" "r \<noteq> cur" by blast
    then show ?thesis by (auto simp: rows)
  qed
  have "distinct (map cj_name (cw_configs w'))" using d by (simp add: w'(1) names_row_updates g(1))
  moreover have "\<forall>r \<in> set (cw_configs w'). if GetSuspend r then cj_entryID r \<le> 0 else scheduled_as S J (cw_cron w') r"
  proof
    fix r assume "r \<in> set (cw_configs w')"
    then consider "r = g cur" | "r \<in> set (cw_configs w)" "r \<noteq> cur" unfolding rows by blast
    then show "if GetSuspend r then cj_entryID r \<le> 0 else scheduled_as S J (cw_cron w') r"
      using I g old by cases (auto simp: in_step_for_def split: if_splits)
  qed
  ultimately show ?thesis using entry_row unfolding in_step_for_def by simp
qed

lemma in_step_cong:
  "cw_configs w' = cw_configs w \<Longrightarrow> co_entries S (cw_cron w') = co_entries S (cw_cron w) \<Longrightarrow>
   in_step_for S J D w' = in_step_for S J D w"
  by (simp add: in_step_for_def scheduled_as_def)

lemma write_prepared:
  fixes cur cfg b ty spec i
  defines "u \<equiv> prepareUpdateConfig cur ty spec (Some b) cfg"
  shows "cj_name r = cj_name cur \<Longrightarrow> cj_name (write_config (u\<lparr>cj_entryID := i\<rparr>) r) = cj_name r"
    "GetSuspend (write_config (u\<lparr>cj_entryID := i\<rparr>) r) = b"
    "cj_entryID (write_config (u\<lparr>cj_entryID := i\<rparr>) r) = (if i = 0 then cj_entryID r else i)"
    "cj_config (write_config (u\<lparr>cj_entryID := i\<rparr>) r) = cj_config u"
    "cj_type u \<noteq> [] \<Longrightarrow> cj_type (write_config (u\<lparr>cj_entryID := i\<rparr>) r) = cj_type u"
    "cj_spec (write_config (u\<lparr>cj_entryID := i\<rparr>) cur) = cj_spec u"
  by (auto simp: write_config_def u_def prepareUpdateConfig_def GetSuspend_def split: option.splits)

lemma prepared_entry: "(prepareUpdateConfig cur ty spec sus cfg)\<lparr>cj_entryID := 0\<rparr> = prepareUpdateConfig cur ty spec sus cfg"
  by (simp add: prepareUpdateConfig_def)

lemma AddCronJob_Inr:
  assumes "cron_laws S" and "AddCronJob S J n spec ty d c = (Inr i, c')"
  shows "\<exists>f. newCronJobFunc J n ty d = Inr f \<and> 0 < i \<and> co_entries S c i = None \<and>
    co_entries S c' = (co_entries S c)(i \<mapsto> (spec, f))"
proof -
  from assms(2) obtain f where f: "newCronJobFunc J n ty d = Inr f" "co_add S spec f c = (Inr i, c')"
    by (auto simp: AddCronJob_def split: sum.splits)
  with assms(1) show ?thesis unfolding cron_laws_def by blast
qed

lemma AddCronJob_Inl:
  assumes "cron_laws S" and "AddCronJob S J n spec ty d c = (Inl x, c')"
  shows "co_entries S c' = co_entries S c"
proof (cases "newCronJobFunc J n ty d")
  case (Inl y)
  with assms(2) show ?thesis by (simp add: AddCronJob_def)
next
  case (Inr f)
  with assms(2) have "co_add S spec f c = (Inl x, c')" by (simp add: AddCronJob_def)
  with assms(1) show ?thesis unfolding cron_laws_def by blast
qed

lemma remove_entries: "cron_laws S \<Longrightarrow> co_entries S (co_remove S i c) = (co_entries S c)(i := None)"
  by (simp add: cron_laws_def)

lemma cleaner_type: "newCronJobFunc J n ty d = Inr f \<Longrightarrow> ty = CronJobTypeCleanerFunc"
  by (simp add: newCronJobFunc_def split: if_splits)

text \<open>The three cases of an update, for a row of a world in step.\<close>

lemma suspend_in_step:
  assumes L: "cron_laws S" and I: "in_step S J w" and cur: "cur \<in> set (cw_configs w)"
    and u: "u = prepareUpdateConfig cur ty spec (Some True) cfg"
    and U: "updateSuspendedJobConfig S e (cj_name cur) cur u w = (err, w')"
  shows "(err = None \<longrightarrow> in_step S J w') \<and> (err \<noteq> None \<longrightarrow> w' = w)"
proof (cases "cu_updateErr e")
  case None
  have "in_step S J w'"
    by (rule in_step_drop [OF I cur, where g = "write_config (u\<lparr>cj_entryID := -1\<rparr>)"])
      (use U None in \<open>auto simp: u write_prepared updateSuspendedJobConfig_def write_row_def remove_entries [OF L]\<close>)
  then show ?thesis using U None by (auto simp: updateSuspendedJobConfig_def write_row_def)
qed (use U in \<open>auto simp: updateSuspendedJobConfig_def write_row_def\<close>)

lemma plain_in_step:
  assumes I: "in_step S J w" and cur: "cur \<in> set (cw_configs w)" "GetSuspend cur"
    and U: "write_row e (cj_name cur) (prepareUpdateConfig cur ty spec (Some True) cfg) w = (err, w')"
  shows "(err = None \<longrightarrow> in_step S J w') \<and> (err \<noteq> None \<longrightarrow> w' = w)"
proof (cases "cu_updateErr e")
  case None
  define g where "g = write_config (prepareUpdateConfig cur ty spec (Some True) cfg)"
  have id: "cj_entryID cur \<le> 0" using I cur by (auto simp: in_step_for_def)
  then have "co_entries S (cw_cron w) (cj_entryID cur) = None" by (rule no_entry [OF I])
  then have eq: "(co_entries S (cw_cron w))(cj_entryID cur := None) = co_entries S (cw_cron w)" by auto
  have w': "err = None" "w' = w\<lparr>cw_configs := tbl_updates (\<lambda>r. cj_name r = cj_name cur) g (cw_configs w)\<rparr>"
    using U None by (auto simp: write_row_def g_def)
  have g: "cj_name r = cj_name cur \<Longrightarrow> cj_name (g r) = cj_name r" "GetSuspend (g r)" "cj_entryID (g r) = cj_entryID r" for r
    unfolding g_def by (simp_all add: write_prepared(1-3) [where i = 0, unfolded prepared_entry])
  have "in_step S J w'"
    by (rule in_step_drop [OF I cur(1), where g = g]) (simp_all add: g id w' eq)
  with w'(1) show ?thesis by simp
qed (use U in \<open>auto simp: write_row_def\<close>)

lemma resume_in_step:
  assumes L: "cron_laws S" and I: "in_step S J w" and cur: "cur \<in> set (cw_configs w)" "GetSuspend cur"
    and u: "u = prepareUpdateConfig cur ty spec (Some False) cfg"
    and U: "updateActiveJobConfig S J e (cj_name cur) cur u w = (err, w')"
  shows "(err = None \<longrightarrow> in_step S J w') \<and>
    (err \<noteq> None \<longrightarrow> cw_configs w' = cw_configs w \<and> co_entries S (cw_cron w') = co_entries S (cw_cron w))"
proof -
  define c1 where "c1 = (if GetSuspend cur \<and> jobNeedsUpdate cur u then co_remove S (cj_entryID cur) (cw_cron w) else cw_cron w)"
  have id: "cj_entryID cur \<le> 0" using I cur by (auto simp: in_step_for_def)
  then have "co_entries S (cw_cron w) (cj_entryID cur) = None" by (rule no_entry [OF I])
  then have c1: "co_entries S c1 = co_entries S (cw_cron w)" using L by (auto simp: c1_def remove_entries)
  obtain res c2 where add: "AddCronJob S J (cj_name cur) (cj_spec u) (cj_type u) (cj_config u) c1 = (res, c2)"
    by (cases "AddCronJob S J (cj_name cur) (cj_spec u) (cj_type u) (cj_config u) c1")
  show ?thesis
  proof (cases res)
    case (Inl x)
    with U add AddCronJob_Inl [OF L, of J "cj_name cur"] c1 show ?thesis
      by (auto simp: updateActiveJobConfig_def c1_def [symmetric])
  next
    case (Inr i)
    obtain f where f: "newCronJobFunc J (cj_name cur) (cj_type u) (cj_config u) = Inr f"
      "0 < i" "co_entries S (cw_cron w) i = None" "co_entries S c2 = (co_entries S (cw_cron w))(i \<mapsto> (cj_spec u, f))"
      using AddCronJob_Inr [OF L add [unfolded Inr]] unfolding c1 by blast
    define g where "g = write_config (u\<lparr>cj_entryID := i\<rparr>)"
    have ty: "cj_type u \<noteq> []" using cleaner_type [OF f(1)] by simp
    have g: "cj_name r = cj_name cur \<Longrightarrow> cj_name (g r) = cj_name r" "\<not> GetSuspend (g r)" "cj_entryID (g r) = i"
      "cj_type (g r) = cj_type u" "cj_config (g r) = cj_config u" "cj_spec (g cur) = cj_spec u" for r
      using ty f(2) unfolding g_def u by (simp_all add: write_prepared)
    show ?thesis
    proof (cases "cu_updateErr e")
      case None
      with U add Inr have w': "err = None" "cw_cron w' = c2"
          "cw_configs w' = tbl_updates (\<lambda>r. cj_name r = cj_name cur) g (cw_configs w)"
        by (auto simp: updateActiveJobConfig_def c1_def [symmetric] write_row_def g_def)
      have "in_step_for S J (insert (cj_name cur) UNIV) w'"
        by (rule in_step_adopt [OF I cur(1) _ f(2,3) _ g(1) _ _ w'(3)]) (use cur f g w' in auto)
      with w'(1) show ?thesis by simp
    next
      case (Some x)
      with U add Inr f show ?thesis
        by (auto simp: updateActiveJobConfig_def c1_def [symmetric] write_row_def remove_entries [OF L])
    qed
  qed
qed

lemma UpdateJobConfig_cases:
  assumes "UpdateJobConfig S J e name ty spec (Some b) cfg w = (err, w')" and "cu_commitErr e = None"
  shows "(\<exists>x. err = Some x \<and> w' = w \<and> getCurrentJobConfigFromDB e name w = Inl x) \<or>
    (\<exists>cur u w1. cur \<in> set (cw_configs w) \<and> cj_name cur = name \<and> u = prepareUpdateConfig cur ty spec (Some b) cfg \<and>
       (if \<not> GetSuspend cur \<and> b then updateSuspendedJobConfig S e name cur u w = (err, w1)
        else if \<not> b then updateActiveJobConfig S J e name cur u w = (err, w1)
        else write_row e name u w = (err, w1)) \<and>
       w' = (if err = None then w1 else w1\<lparr>cw_configs := cw_configs w\<rparr>))"
proof (cases "getCurrentJobConfigFromDB e name w")
  case (Inl x)
  then show ?thesis using assms by (auto simp: UpdateJobConfig_def transaction_def update_body_def)
next
  case (Inr cur)
  then have cur: "cur \<in> set (cw_configs w)" "cj_name cur = name"
    by (auto simp: getCurrentJobConfigFromDB_def dest: tbl_first_Some split: option.splits)
  obtain err1 w1 where body: "update_body S J e name ty spec (Some b) cfg w = (err1, w1)"
    by (cases "update_body S J e name ty spec (Some b) cfg w")
  have "err = err1" "w' = (if err = None then w1 else w1\<lparr>cw_configs := cw_configs w\<rparr>)"
    using assms body by (auto simp: UpdateJobConfig_def transaction_def split: option.splits)
  moreover have "if \<not> GetSuspend cur \<and> b then updateSuspendedJobConfig S e name cur (prepareUpdateConfig cur ty spec (Some b) cfg) w = (err1, w1)
      else if \<not> b then updateActiveJobConfig S J e name cur (prepareUpdateConfig cur ty spec (Some b) cfg) w = (err1, w1)
      else write_row e name (prepareUpdateConfig cur ty spec (Some b) cfg) w = (err1, w1)"
    using body by (simp add: update_body_def Inr Let_def shouldSuspendJob_def split: if_splits)
  ultimately show ?thesis using cur by blast
qed

text \<open>An update whose transaction is committed.\<close>

lemma committed_update_in_step:
  assumes L: "cron_laws S" and I: "in_step S J w" and commit: "cu_commitErr e = None"
    and keep: "\<forall>r \<in> set (cw_configs w). cj_name r = name \<and> \<not> GetSuspend r \<longrightarrow> b"
    and U: "UpdateJobConfig S J e name ty spec (Some b) cfg w = (err, w')"
  shows "in_step S J w' \<and>
    (err \<noteq> None \<longrightarrow> cw_configs w' = cw_configs w \<and> co_entries S (cw_cron w') = co_entries S (cw_cron w))"
  using UpdateJobConfig_cases [OF U commit]
proof (elim disjE exE conjE)
  fix x assume "w' = w" then show ?thesis using I by simp
next
  fix cur u w1
  assume cur: "cur \<in> set (cw_configs w)" "cj_name cur = name" and u: "u = prepareUpdateConfig cur ty spec (Some b) cfg"
    and step: "if \<not> GetSuspend cur \<and> b then updateSuspendedJobConfig S e name cur u w = (err, w1)
        else if \<not> b then updateActiveJobConfig S J e name cur u w = (err, w1)
        else write_row e name u w = (err, w1)"
    and w': "w' = (if err = None then w1 else w1\<lparr>cw_configs := cw_configs w\<rparr>)"
  have "(err = None \<longrightarrow> in_step S J w1) \<and>
    (err \<noteq> None \<longrightarrow> cw_configs w1 = cw_configs w \<and> co_entries S (cw_cron w1) = co_entries S (cw_cron w))"
  proof (cases b)
    case True
    then show ?thesis
      using step u cur suspend_in_step [OF L I cur(1), of u ty spec cfg e err w1] plain_in_step [OF I cur(1), of e ty spec cfg err w1]
      by (cases "GetSuspend cur") auto
  next
    case False
    then have "GetSuspend cur" using keep cur by blast
    then show ?thesis using False step u cur resume_in_step [OF L I cur(1) _, of u ty spec cfg e err w1] by auto
  qed
  then show ?thesis using w' in_step_cong [of w' w S J UNIV] I by (cases "err = None") auto
qed

text \<open>The commit decides over the rows only.\<close>

lemma commit_not_read_rows:
  "write_row (e\<lparr>cu_commitErr := None\<rparr>) n u v = write_row e n u v"
  "getCurrentJobConfigFromDB (e\<lparr>cu_commitErr := None\<rparr>) n v = getCurrentJobConfigFromDB e n v"
  by (simp_all add: write_row_def getCurrentJobConfigFromDB_def)

lemma commit_not_read:
  "write_row (e\<lparr>cu_commitErr := None\<rparr>) n u v = write_row e n u v"
  "getCurrentJobConfigFromDB (e\<lparr>cu_commitErr := None\<rparr>) n v = getCurrentJobConfigFromDB e n v"
  "updateSuspendedJobConfig S (e\<lparr>cu_commitErr := None\<rparr>) n c u v = updateSuspendedJobConfig S e n c u v"
  "updateActiveJobConfig S J (e\<lparr>cu_commitErr := None\<rparr>) n c u v = updateActiveJobConfig S J e n c u v"
  by (simp_all only: updateSuspendedJobConfig_def updateActiveJobConfig_def commit_not_read_rows)

lemma uncommitted_update:
  assumes "cu_commitErr e \<noteq> None" and "UpdateJobConfig S J e name ty spec sus cfg w = (err, w')"
  shows "err \<noteq> None \<and> cw_configs w' = cw_configs w \<and>
    cw_cron w' = cw_cron (snd (UpdateJobConfig S J (e\<lparr>cu_commitErr := None\<rparr>) name ty spec sus cfg w))"
proof -
  obtain x where x: "cu_commitErr e = Some x" using assms(1) by blast
  obtain b w1 where b: "update_body S J e name ty spec sus cfg w = (b, w1)" by fastforce
  then have "update_body S J (e\<lparr>cu_commitErr := None\<rparr>) name ty spec sus cfg w = (b, w1)"
    by (simp only: update_body_def commit_not_read)
  then show ?thesis using assms(2) by (cases b) (auto simp: UpdateJobConfig_def transaction_def x b)
qed

lemma failed_update_rows:
  "UpdateJobConfig S J e name ty spec sus cfg w = (Some x, w') \<Longrightarrow> cw_configs w' = cw_configs w"
  by (auto simp: UpdateJobConfig_def transaction_def split: option.splits prod.splits)

lemma suspension_removes_entry:
  assumes L: "cron_laws S" and d: "distinct (map cj_name (cw_configs w))" and r: "r \<in> set (cw_configs w)" "\<not> GetSuspend r"
    and e: "cu_getErr e = None" "cu_updateErr e = None"
  shows "co_entries S (cw_cron (snd (UpdateJobConfig S J e (cj_name r) ty spec (Some True) cfg w))) (cj_entryID r) = None"
proof -
  obtain c where c: "tbl_first (\<lambda>x. cj_name x = cj_name r) (cw_configs w) = Some c"
    using r(1) by (cases "tbl_first (\<lambda>x. cj_name x = cj_name r) (cw_configs w)") (auto simp: tbl_first_None)
  then have "c = r" using names_determine [OF d _ r(1)] by (auto dest: tbl_first_Some)
  with c have "getCurrentJobConfigFromDB e (cj_name r) w = Inr r" by (simp add: getCurrentJobConfigFromDB_def e)
  then show ?thesis
    by (auto simp: UpdateJobConfig_def transaction_def update_body_def shouldSuspendJob_def r(2) updateSuspendedJobConfig_def write_row_def e
        remove_entries [OF L] split: option.split)
qed

text \<open>Claim C5. Updates of the cron jobs, with whatever errors of the database, except an update of an active row that is to stay
  active.  One that is answered with success leaves the scheduler in step with the rows: each active row has exactly one entry, under
  its recorded identifier, with its schedule and its policy, and no suspended row has any.  One that fails leaves the rows as they
  were, and the entries too unless it is the commit that fails: then the scheduler is as a committed update leaves it, so an
  active row that was to be suspended stays active without an entry.
\<close>

theorem cron_updates_in_step:
  assumes L: "cron_laws S" and I: "in_step S J w"
    and keep: "\<forall>r \<in> set (cw_configs w). cj_name r = name \<and> \<not> GetSuspend r \<longrightarrow> b"
    and U: "UpdateJobConfig S J e name ty spec (Some b) cfg w = (err, w')"
  shows "(err = None \<longrightarrow> in_step S J w') \<and> (err \<noteq> None \<longrightarrow> cw_configs w' = cw_configs w) \<and>
    (err \<noteq> None \<and> cu_commitErr e = None \<longrightarrow> in_step S J w' \<and> co_entries S (cw_cron w') = co_entries S (cw_cron w)) \<and>
    (cu_commitErr e \<noteq> None \<longrightarrow> err \<noteq> None \<and>
       cw_cron w' = cw_cron (snd (UpdateJobConfig S J (e\<lparr>cu_commitErr := None\<rparr>) name ty spec (Some b) cfg w)) \<and>
       (cu_getErr e = None \<and> cu_updateErr e = None \<longrightarrow>
          (\<forall>r \<in> set (cw_configs w'). cj_name r = name \<and> \<not> GetSuspend r \<longrightarrow> co_entries S (cw_cron w') (cj_entryID r) = None)))"
proof (cases "cu_commitErr e")
  case None
  from committed_update_in_step [OF L I None keep U] None show ?thesis by auto
next
  case (Some x)
  from uncommitted_update [OF _ U] Some
  have u: "err \<noteq> None" "cw_configs w' = cw_configs w"
    "cw_cron w' = cw_cron (snd (UpdateJobConfig S J (e\<lparr>cu_commitErr := None\<rparr>) name ty spec (Some b) cfg w))" by auto
  have d: "distinct (map cj_name (cw_configs w))" using I by (simp add: in_step_for_def)
  have "co_entries S (cw_cron w') (cj_entryID r) = None"
    if "cu_getErr e = None" "cu_updateErr e = None" "r \<in> set (cw_configs w)" "cj_name r = name" "\<not> GetSuspend r" for r
  proof -
    have "b" using keep that by blast
    with suspension_removes_entry [OF L d that(3,5), of "e\<lparr>cu_commitErr := None\<rparr>"] that show ?thesis unfolding u(3) by simp
  qed
  with u Some show ?thesis by auto
qed

text \<open>What the excepted update does.\<close>

lemma active_update_adds:
  assumes L: "cron_laws S" and d: "distinct (map cj_name (cw_configs w))"
    and cur: "cur \<in> set (cw_configs w)" "\<not> GetSuspend cur"
    and U: "UpdateJobConfig S J e (cj_name cur) ty spec (Some False) cfg w = (None, w1)" and "cu_commitErr e = None"
  obtains i f g where "0 < i" "co_entries S (cw_cron w) i = None"
    "co_entries S (cw_cron w1) = (co_entries S (cw_cron w))(i \<mapsto> f)"
    "set (cw_configs w1) = insert (g cur) (set (cw_configs w) - {cur})" "distinct (map cj_name (cw_configs w1))"
    "cj_name (g cur) = cj_name cur" "cj_entryID (g cur) = i" "\<not> GetSuspend (g cur)"
proof -
  define u where "u = prepareUpdateConfig cur ty spec (Some False) cfg"
  from UpdateJobConfig_cases [OF U assms(6)] cur names_determine [OF d _ cur(1)]
  have act: "updateActiveJobConfig S J e (cj_name cur) cur u w = (None, w1)" by (auto simp: u_def)
  then obtain i c where add: "AddCronJob S J (cj_name cur) (cj_spec u) (cj_type u) (cj_config u) (cw_cron w) = (Inr i, c)"
      and "cu_updateErr e = None"
    using cur(2) by (auto simp: updateActiveJobConfig_def write_row_def split: sum.splits option.splits prod.splits)
  define g where "g = write_config (u\<lparr>cj_entryID := i\<rparr>)"
  from act add cur(2) \<open>cu_updateErr e = None\<close>
  have w1: "cw_cron w1 = c" "cw_configs w1 = tbl_updates (\<lambda>r. cj_name r = cj_name cur) g (cw_configs w)"
    by (auto simp: updateActiveJobConfig_def write_row_def g_def)
  from AddCronJob_Inr [OF L add] obtain f where f: "0 < i" "co_entries S (cw_cron w) i = None"
    "co_entries S c = (co_entries S (cw_cron w))(i \<mapsto> f)" by blast
  have g: "cj_name r = cj_name cur \<Longrightarrow> cj_name (g r) = cj_name r" "cj_entryID (g r) = i" "\<not> GetSuspend (g r)" for r
    unfolding g_def u_def using f(1) by (simp_all add: write_prepared)
  have "set (cw_configs w1) = insert (g cur) (set (cw_configs w) - {cur})"
    unfolding w1 by (rule set_row_updates [OF d cur(1)])
  moreover have "distinct (map cj_name (cw_configs w1))" using d by (simp add: w1(2) names_row_updates g(1))
  ultimately show thesis using that f g w1(1) by blast
qed

text \<open>The excepted update loses an entry.  When an administrator changes an active row
  and leaves it active, the old entry stays in the scheduler beside the new one, under the old
  schedule and request; when the row is then suspended, the old entry still runs.\<close>

theorem active_update_leaks_entry:
  assumes L: "cron_laws S" and I: "in_step S J w" and cur: "cur \<in> set (cw_configs w)" "\<not> GetSuspend cur"
    and U: "UpdateJobConfig S J e (cj_name cur) ty spec (Some False) cfg w = (None, w1)"
    and V: "UpdateJobConfig S J e' (cj_name cur) ty' spec' (Some True) cfg' w1 = (None, w2)"
    and commits: "cu_commitErr e = None" "cu_commitErr e' = None"
  shows "co_entries S (cw_cron w1) (cj_entryID cur) = co_entries S (cw_cron w) (cj_entryID cur) \<and>
    (\<exists>r \<in> set (cw_configs w1). cj_name r = cj_name cur \<and> cj_entryID r \<noteq> cj_entryID cur \<and> co_entries S (cw_cron w1) (cj_entryID r) \<noteq> None) \<and>
    (\<forall>r \<in> set (cw_configs w2). cj_name r = cj_name cur \<longrightarrow> GetSuspend r) \<and>
    co_entries S (cw_cron w2) (cj_entryID cur) = co_entries S (cw_cron w) (cj_entryID cur) \<and>
    co_entries S (cw_cron w2) (cj_entryID cur) \<noteq> None"
proof -
  have d: "distinct (map cj_name (cw_configs w))" using I by (simp add: in_step_for_def)
  have old: "co_entries S (cw_cron w) (cj_entryID cur) \<noteq> None"
    using I cur by (auto simp: in_step_for_def scheduled_as_def split: if_splits)
  obtain i f g where f: "co_entries S (cw_cron w) i = None" "co_entries S (cw_cron w1) = (co_entries S (cw_cron w))(i \<mapsto> f)"
    and rows: "set (cw_configs w1) = insert (g cur) (set (cw_configs w) - {cur})" and d1: "distinct (map cj_name (cw_configs w1))"
    and g: "cj_name (g cur) = cj_name cur" "cj_entryID (g cur) = i" "\<not> GetSuspend (g cur)"
    by (rule active_update_adds [OF L d cur U commits(1)])
  have ne: "i \<noteq> cj_entryID cur" using old f(1) by auto
  have new: "r = g cur" if "r \<in> set (cw_configs w1)" "cj_name r = cj_name cur" for r
    by (rule names_determine [OF d1 that(1)]) (simp_all add: rows that(2) g(1))
  define v where "v = prepareUpdateConfig (g cur) ty' spec' (Some True) cfg'"
  obtain cur1 where "cur1 = g cur"
    and "updateSuspendedJobConfig S e' (cj_name cur) cur1 (prepareUpdateConfig cur1 ty' spec' (Some True) cfg') w1 = (None, w2)"
    using UpdateJobConfig_cases [OF V commits(2)] new g(3) by (auto split: if_splits)
  then have susp: "updateSuspendedJobConfig S e' (cj_name cur) (g cur) v w1 = (None, w2)" by (simp add: v_def)
  define h where "h = write_config (v\<lparr>cj_entryID := -1\<rparr>)"
  from susp have w2: "cw_cron w2 = co_remove S i (cw_cron w1)"
      "cw_configs w2 = tbl_updates (\<lambda>r. cj_name r = cj_name (g cur)) h (cw_configs w1)"
    by (auto simp: updateSuspendedJobConfig_def write_row_def h_def g split: option.splits)
  have "set (cw_configs w2) = insert (h (g cur)) (set (cw_configs w1) - {g cur})"
    unfolding w2 by (rule set_row_updates [OF d1]) (simp add: rows)
  moreover have "GetSuspend (h (g cur))" unfolding h_def v_def by (simp add: write_prepared)
  ultimately have susp_all: "\<forall>r \<in> set (cw_configs w2). cj_name r = cj_name cur \<longrightarrow> GetSuspend r" using new by auto
  have "\<exists>r \<in> set (cw_configs w1). cj_name r = cj_name cur \<and> cj_entryID r \<noteq> cj_entryID cur \<and> co_entries S (cw_cron w1) (cj_entryID r) \<noteq> None"
    by (rule bexI [where x = "g cur"]) (use g ne in \<open>auto simp: rows f(2)\<close>)
  with susp_all old ne show ?thesis by (simp add: w2(1) f(2) remove_entries [OF L])
qed

section \<open>The start of the scheduler\<close>

definition schedulable :: "'c cron_ops \<Rightarrow> json_requests \<Rightarrow> cron_job_config \<Rightarrow> bool" where
  "schedulable S J r \<longleftrightarrow> (\<exists>f. newCronJobFunc J (cj_name r) (cj_type r) (cj_config r) = Inr f \<and>
     (\<forall>c. \<exists>i c'. co_add S (cj_spec r) f c = (Inr i, c')))"

abbreviation strip_entry :: "cron_job_config \<Rightarrow> cron_job_config" where
  "strip_entry r \<equiv> r\<lparr>cj_entryID := 0\<rparr>"

lemma tbl_updates_same: "(\<And>r. r \<in> set t \<Longrightarrow> P r \<Longrightarrow> g r = r) \<Longrightarrow> tbl_updates P g t = t"
  by (induction t) auto

lemma sync_one_adopts:
  assumes L: "cron_laws S" and I: "in_step_for S J D w" and conf: "conf \<in> set (cw_configs w)" "cj_name conf \<notin> D"
    and a: "\<not> GetSuspend conf" "schedulable S J conf" and e: "cs_entryErr e (cj_name conf) = None"
  obtains i where "in_step_for S J (insert (cj_name conf) D) (sync_one S J e conf w)"
    "cw_configs (sync_one S J e conf w) =
       tbl_updates (\<lambda>r. cj_name r = cj_name conf) (cj_entryID_update (\<lambda>_. i)) (cw_configs w)"
proof -
  obtain f i c where f: "newCronJobFunc J (cj_name conf) (cj_type conf) (cj_config conf) = Inr f"
    and add: "AddCronJob S J (cj_name conf) (cj_spec conf) (cj_type conf) (cj_config conf) (cw_cron w) = (Inr i, c)"
    using a(2) by (auto simp: schedulable_def AddCronJob_def) metis
  have added: "0 < i" "co_entries S (cw_cron w) i = None" "co_entries S c = (co_entries S (cw_cron w))(i \<mapsto> (cj_spec conf, f))"
    using AddCronJob_Inr [OF L add] f by auto
  have d: "distinct (map cj_name (cw_configs w))" using I by (simp add: in_step_for_def)
  define g :: "cron_job_config \<Rightarrow> cron_job_config" where "g = cj_entryID_update (\<lambda>_. i)"
  have g: "cj_name (g r) = cj_name r" "GetSuspend (g r) = GetSuspend r" "cj_entryID (g r) = i" "cj_type (g r) = cj_type r"
    "cj_spec (g r) = cj_spec r" "cj_config (g r) = cj_config r" for r
    by (simp_all add: g_def GetSuspend_def)
  have same: "tbl_updates (\<lambda>r. cj_name r = cj_name conf) g (cw_configs w) = cw_configs w" if "cj_entryID conf = i"
  proof (rule tbl_updates_same)
    fix r assume "r \<in> set (cw_configs w)" and "cj_name r = cj_name conf"
    then have "r = conf" by (rule names_determine [OF d _ conf(1)])
    with that show "g r = r" by (cases conf) (simp add: g_def)
  qed
  have rows: "cw_configs (sync_one S J e conf w) = tbl_updates (\<lambda>r. cj_name r = cj_name conf) g (cw_configs w)"
    using same by (auto simp: sync_one_def add e g_def)
  have cron: "cw_cron (sync_one S J e conf w) = c" by (simp add: sync_one_def add)
  have "in_step_for S J (insert (cj_name conf) D) (sync_one S J e conf w)"
    by (rule in_step_adopt [OF I conf(1) _ added(1,2) _ _ _ _ rows]) (simp_all add: conf a f g cron added)
  with rows show thesis using that unfolding g_def by blast
qed

lemma sync_fold:
  assumes L: "cron_laws S" and e: "\<forall>n. cs_entryErr e n = None"
  shows "in_step_for S J D w \<Longrightarrow> distinct (map cj_name cs) \<Longrightarrow>
    (\<And>conf. conf \<in> set cs \<Longrightarrow> conf \<in> set (cw_configs w) \<and> cj_name conf \<notin> D \<and> \<not> GetSuspend conf \<and> schedulable S J conf) \<Longrightarrow>
    in_step_for S J (D \<union> cj_name ` set cs) (fold (sync_one S J e) cs w) \<and>
    map strip_entry (cw_configs (fold (sync_one S J e) cs w)) = map strip_entry (cw_configs w)"
proof (induction cs arbitrary: D w)
  case (Cons conf cs)
  have c: "conf \<in> set (cw_configs w)" "cj_name conf \<notin> D" "\<not> GetSuspend conf" "schedulable S J conf"
    using Cons.prems(3) by auto
  obtain i where w1: "in_step_for S J (insert (cj_name conf) D) (sync_one S J e conf w)"
    "cw_configs (sync_one S J e conf w) =
       tbl_updates (\<lambda>r. cj_name r = cj_name conf) (cj_entryID_update (\<lambda>_. i)) (cw_configs w)"
    using sync_one_adopts [OF L Cons.prems(1) c] e by blast
  have strip: "map strip_entry (cw_configs (sync_one S J e conf w)) = map strip_entry (cw_configs w)"
    by (simp add: w1(2) tbl_updates_def)
  have d: "distinct (map cj_name (cw_configs w))" using Cons.prems(1) by (simp add: in_step_for_def)
  have rows: "set (cw_configs (sync_one S J e conf w)) =
      insert (cj_entryID_update (\<lambda>_. i) conf) (set (cw_configs w) - {conf})"
    unfolding w1(2) by (rule set_row_updates [OF d c(1)])
  have other: "cj_name k \<noteq> cj_name conf" if "k \<in> set cs" for k
  proof -
    have "cj_name k \<in> cj_name ` set cs" using that by (rule imageI)
    with Cons.prems(2) show ?thesis by auto
  qed
  have "in_step_for S J (insert (cj_name conf) D \<union> cj_name ` set cs) (fold (sync_one S J e) cs (sync_one S J e conf w)) \<and>
      map strip_entry (cw_configs (fold (sync_one S J e) cs (sync_one S J e conf w))) =
        map strip_entry (cw_configs (sync_one S J e conf w))"
    by (rule Cons.IH [OF w1(1)]) (use Cons.prems rows other in auto)
  then show ?case by (simp add: strip)
qed simp

text \<open>The start of the scheduler puts it in step with the rows: from a scheduler without
  entries, when the database answers, every active row's policy can be built and its schedule
  parses, each active row gets its entry and the rows change in their entry identifiers only.\<close>

theorem sync_puts_in_step:
  assumes L: "cron_laws S" and empty: "\<forall>i. co_entries S (cw_cron w) i = None"
    and d: "distinct (map cj_name (cw_configs w))"
    and e: "cs_findErr e = None" "\<forall>n. cs_entryErr e n = None" "cs_commitErr e = None"
    and rows: "\<forall>r \<in> set (cw_configs w). cj_suspend r = Some True \<and> cj_entryID r \<le> 0 \<or>
      cj_suspend r = Some False \<and> schedulable S J r"
  shows "in_step S J (SyncCronJob S J e w) \<and>
    map strip_entry (cw_configs (SyncCronJob S J e w)) = map strip_entry (cw_configs w)"
proof -
  define w0 where "w0 = w\<lparr>cw_cron := co_start S (cw_cron w)\<rparr>"
  define cs where "cs = tbl_find (\<lambda>r. cj_suspend r = Some False) (cw_configs w)"
  define w' where "w' = SyncCronJob S J e w"
  have w': "w' = fold (sync_one S J e) cs w0"
    by (simp add: w'_def SyncCronJob_def transaction_def e w0_def cs_def)
  have "in_step_for S J {} w0" using L empty d rows by (auto simp: in_step_for_def w0_def cron_laws_def GetSuspend_def)
  moreover have "distinct (map cj_name cs)" using d by (simp add: cs_def tbl_find_def distinct_map_filter)
  moreover have "conf \<in> set (cw_configs w0) \<and> cj_name conf \<notin> {} \<and> \<not> GetSuspend conf \<and> schedulable S J conf"
    if "conf \<in> set cs" for conf
    using that rows by (auto simp: cs_def w0_def tbl_find_def GetSuspend_def)
  ultimately have "in_step_for S J ({} \<union> cj_name ` set cs) (fold (sync_one S J e) cs w0) \<and>
      map strip_entry (cw_configs (fold (sync_one S J e) cs w0)) = map strip_entry (cw_configs w0)"
    by (rule sync_fold [OF L e(2)])
  then have fold: "in_step_for S J (cj_name ` set cs) w' \<and> map strip_entry (cw_configs w') = map strip_entry (cw_configs w)"
    by (simp add: w' w0_def)
  have active: "cj_name r \<in> cj_name ` set cs" if r: "r \<in> set (cw_configs w')" "\<not> GetSuspend r" for r
  proof -
    have "strip_entry r \<in> set (map strip_entry (cw_configs w))" using fold r(1) by (metis image_eqI list.set_map)
    then obtain r0 where r0: "r0 \<in> set (cw_configs w)" "strip_entry r = strip_entry r0" by auto
    have "cj_name r0 = cj_name (strip_entry r0)" "cj_suspend r0 = cj_suspend (strip_entry r0)" by simp_all
    then have "cj_name r0 = cj_name r" "cj_suspend r0 = cj_suspend r" unfolding r0(2) [symmetric] by simp_all
    then have "r0 \<in> set cs" using bspec [OF rows r0(1)] r0(1) r(2) by (auto simp: cs_def tbl_find_def GetSuspend_def)
    from imageI [OF this, of cj_name] show ?thesis unfolding \<open>cj_name r0 = cj_name r\<close> .
  qed
  have "in_step S J w'"
    using fold active unfolding in_step_for_def by simp blast
  with fold show ?thesis by (simp add: w'_def)
qed

section \<open>Runs of the policies\<close>

text \<open>No policy changes the job table.\<close>

lemma for_each_same_rows:
  "(\<And>j s. pf_jobs (snd (f j s)) = pf_jobs s) \<Longrightarrow> pf_jobs (snd (for_each_ok f js s)) = pf_jobs s"
  by (rule for_each_ok_invariant [where I = "\<lambda>x. pf_jobs x = pf_jobs s"]) simp_all

lemma policy_steps_rows [simp]:
  "pf_jobs (snd (freeLongTimeVCjob e j s)) = pf_jobs s"
  "pf_jobs (snd (freeLowGPUUsageVCjob e j s)) = pf_jobs s"
  "pf_jobs (snd (remindLongTimeVCjob e d j s)) = pf_jobs s"
  "pf_jobs (snd (remindLowGPUUsageVCjob e d j s)) = pf_jobs s"
  "pf_jobs (snd (delete_unscheduled e j s)) = pf_jobs s"
proof -
  obtain x s1 where d: "deleteVCjobInCluster e (jb_jobName j) s = (x, s1)" by (cases "deleteVCjobInCluster e (jb_jobName j) s")
  have s1: "pf_jobs s1 = pf_jobs s" using deleteVCjob_frame(1) [of e "jb_jobName j" s] d by simp
  show "pf_jobs (snd (freeLongTimeVCjob e j s)) = pf_jobs s" "pf_jobs (snd (freeLowGPUUsageVCjob e j s)) = pf_jobs s"
    by (simp_all add: freeLongTimeVCjob_def freeLowGPUUsageVCjob_def d notify_defs s1 split: option.split)
  show "pf_jobs (snd (remindLongTimeVCjob e d j s)) = pf_jobs s" "pf_jobs (snd (remindLowGPUUsageVCjob e d j s)) = pf_jobs s"
    "pf_jobs (snd (delete_unscheduled e j s)) = pf_jobs s" for d
    by (simp_all add: remindLongTimeVCjob_def remindLowGPUUsageVCjob_def notify_defs delete_unscheduled_def)
qed

lemma run_cleaner_rows [simp]: "pf_jobs (snd (snd (run_cleaner e f s))) = pf_jobs s"
proof (cases f)
  case (LongTimeFunc r)
  then show ?thesis
    by (simp add: CleanLongTimeRunningJobs_def cleanLongTimeRunningJobs_def Let_def split_def for_each_same_rows)
next
  case (LowGPUFunc r)
  then show ?thesis
    by (simp add: CleanLowGPUUsageJobs_def cleanLowGPUUsageJobs_def Let_def split_def for_each_same_rows)
next
  case (WaitingJupyterFunc r)
  then show ?thesis
    by (simp add: CleanWaitingJupyterJobs_def deleteUnscheduledJupyterJobs_def Let_def split_def for_each_same_rows split: option.split)
qed

text \<open>A job that is locked and whose row is not pending is out of reach of all three policies.\<close>

definition out_of_reach :: "time \<Rightarrow> string \<Rightarrow> ('q, 'p, 't) job table \<Rightarrow> bool" where
  "out_of_reach until n rows \<longleftrightarrow>
     (\<exists>j \<in> set rows. jb_jobName j = n \<and> until \<le> jb_lockedTimestamp j) \<and>
     (\<forall>j \<in> set rows. jb_jobName j = n \<longrightarrow> jb_status j \<noteq> PhasePending)"

lemma run_cleaner_untouched:
  assumes reach: "out_of_reach until n (pf_jobs s)" and clock: "\<forall>i. cl_clock e i < until"
  shows "untouched (cl_ns e) n s (snd (snd (run_cleaner e f s)))"
proof (cases f)
  case (WaitingJupyterFunc r)
  have step: "untouched (cl_ns e) n s (snd (delete_unscheduled e j s))" if "jb_jobName j \<noteq> n" for j s
    using that by (simp add: delete_unscheduled_def untouched_deleteVCjob)
  have ne: "jb_jobName j \<noteq> n" if "j \<in> set (pf_jobs s)" "jb_status j = PhasePending" for j
    using reach that by (auto simp: out_of_reach_def)
  have "untouched (cl_ns e) n s (snd (deleteUnscheduledJupyterJobs e (wj_waitMinutes r) s))"
  proof (cases "cl_runningErr e 0")
    case None
    have pend: "untouched (cl_ns e) n s (snd (for_each_ok (delete_unscheduled e) js s))" if "set js \<subseteq> {j \<in> set (pf_jobs s). jb_status j = PhasePending}" for js
      using that ne by (intro untouched_for_each step) auto
    show ?thesis by (simp add: deleteUnscheduledJupyterJobs_def tbl_find_def None) (rule pend, auto)
  qed (simp add: deleteUnscheduledJupyterJobs_def)
  then show ?thesis by (simp add: WaitingJupyterFunc CleanWaitingJupyterJobs_def split_def Let_def)
next
  case (LongTimeFunc r)
  obtain j where j: "j \<in> set (pf_jobs s)" "jb_jobName j = n" "until \<le> jb_lockedTimestamp j"
    using reach by (auto simp: out_of_reach_def)
  then have "\<forall>i. cl_clock e i < jb_lockedTimestamp j" using clock by (auto intro: less_le_trans)
  from locked_jobs_untouched(1) [OF j(1,2) this, of "Some r"] show ?thesis
    by (simp add: LongTimeFunc split_def split: sum.split)
next
  case (LowGPUFunc r)
  obtain j where j: "j \<in> set (pf_jobs s)" "jb_jobName j = n" "until \<le> jb_lockedTimestamp j"
    using reach by (auto simp: out_of_reach_def)
  then have "\<forall>i. cl_clock e i < jb_lockedTimestamp j" using clock by (auto intro: less_le_trans)
  from locked_jobs_untouched(2) [OF j(1,2) this, of "Some r"] show ?thesis
    by (simp add: LowGPUFunc split_def split: sum.split)
qed

text \<open>The runs the scheduler starts, in order, each with its failures and its clock.\<close>

type_synonym policy_run = "cleaner_env \<times> fault \<times> time \<times> cleaner_job"

definition cron_runs :: "policy_run list \<Rightarrow> ('q, 'p, 't, 'c) cron_world \<Rightarrow> ('q, 'p, 't, 'c) cron_world" where
  "cron_runs = fold (\<lambda>(e, createErr, now, j). WrapCleanerFunc e createErr now j)"

lemma WrapCleanerFunc_parts [simp]:
  "cw_platform (WrapCleanerFunc e c now j w) = snd (snd (run_cleaner e (snd j) (cw_platform w)))"
  "cw_configs (WrapCleanerFunc e c now j w) = cw_configs w"
  "cw_cron (WrapCleanerFunc e c now j w) = cw_cron w"
  by (simp_all add: WrapCleanerFunc_def Let_def split_def)

lemma WrapCleanerFunc_record:
  "\<exists>r. cw_records (WrapCleanerFunc e c now j w) = (if c = None then cw_records w @ [r] else cw_records w) \<and>
     cr_id r \<notin> cr_id ` set (cw_records w) \<and> cr_name r = fst j \<and> cr_executeTime r = now \<and>
     cr_status r = (if cr_jobData r = Some None then CronJobRecordStatusFailed else CronJobRecordStatusSuccess)"
proof -
  obtain res err s1 where run: "run_cleaner e (snd j) (cw_platform w) = (res, err, s1)"
    by (cases "run_cleaner e (snd j) (cw_platform w)") auto
  define r where "r = \<lparr>cr_id = next_id (map cr_id (cw_records w)), cr_name = fst j, cr_executeTime = now,
    cr_status = (if err = None then CronJobRecordStatusSuccess else CronJobRecordStatusFailed), cr_message = [], cr_jobData = Some res\<rparr>"
  have "err = None \<longleftrightarrow> res \<noteq> None" using run by (cases "snd j") (auto split: sum.splits prod.splits)
  then have "cw_records (WrapCleanerFunc e c now j w) = (if c = None then cw_records w @ [r] else cw_records w) \<and>
     cr_id r \<notin> cr_id ` set (cw_records w) \<and> cr_name r = fst j \<and> cr_executeTime r = now \<and>
     cr_status r = (if cr_jobData r = Some None then CronJobRecordStatusFailed else CronJobRecordStatusSuccess)"
    using next_id_fresh [of "map cr_id (cw_records w)"] by (simp add: WrapCleanerFunc_def run r_def)
  then show ?thesis by blast
qed

definition recorded_runs :: "policy_run list \<Rightarrow> cron_record list \<Rightarrow> bool" where
  "recorded_runs runs new \<longleftrightarrow>
     map (\<lambda>r. (cr_name r, cr_executeTime r)) new =
       map (\<lambda>(e, c, now, j). (fst j, now)) (filter (\<lambda>(e, c, now, j). c = None) runs) \<and>
     (\<forall>r \<in> set new. cr_status r = (if cr_jobData r = Some None then CronJobRecordStatusFailed else CronJobRecordStatusSuccess))"

lemma cron_runs_Cons: "cron_runs ((e, c, now, j) # runs) w = cron_runs runs (WrapCleanerFunc e c now j w)"
  by (simp add: cron_runs_def)

lemma cron_runs_recorded:
  "distinct (map cr_id (cw_records w)) \<Longrightarrow> distinct (map cr_id (cw_records (cron_runs runs w))) \<and>
   (\<exists>new. cw_records (cron_runs runs w) = cw_records w @ new \<and> recorded_runs runs new)"
proof (induction runs arbitrary: w)
  case (Cons x runs)
  obtain e c now j where x: "x = (e, c, now, j)" by (cases x) auto
  define w1 where "w1 = WrapCleanerFunc e c now j w"
  obtain r where r: "cw_records w1 = (if c = None then cw_records w @ [r] else cw_records w)"
     "cr_id r \<notin> cr_id ` set (cw_records w)" "cr_name r = fst j" "cr_executeTime r = now"
     "cr_status r = (if cr_jobData r = Some None then CronJobRecordStatusFailed else CronJobRecordStatusSuccess)"
    using WrapCleanerFunc_record [of e c now j w] unfolding w1_def by blast
  have "distinct (map cr_id (cw_records w1))" using Cons.prems r(1,2) by simp
  from Cons.IH [OF this] obtain new where new: "distinct (map cr_id (cw_records (cron_runs runs w1)))"
    "cw_records (cron_runs runs w1) = cw_records w1 @ new" "recorded_runs runs new" by blast
  have "cw_records (cron_runs runs w1) = cw_records w @ (if c = None then r # new else new) \<and>
    recorded_runs (x # runs) (if c = None then r # new else new)"
    using new(2,3) r by (auto simp: recorded_runs_def x)
  then show ?case using new(1) by (auto simp: x cron_runs_Cons w1_def [symmetric])
qed (simp add: cron_runs_def recorded_runs_def)

lemma cron_runs_keep:
  "out_of_reach until n (pf_jobs (cw_platform w)) \<Longrightarrow>
   \<forall>(e, c, now, j) \<in> set runs. cl_ns e = ns \<and> (\<forall>i. cl_clock e i < until) \<Longrightarrow>
   untouched ns n (cw_platform w) (cw_platform (cron_runs runs w)) \<and>
   pf_jobs (cw_platform (cron_runs runs w)) = pf_jobs (cw_platform w) \<and>
   cw_configs (cron_runs runs w) = cw_configs w \<and> cw_cron (cron_runs runs w) = cw_cron w"
proof (induction runs arbitrary: w)
  case (Cons x runs)
  obtain e c now j where x: "x = (e, c, now, j)" by (cases x) auto
  define w1 where "w1 = WrapCleanerFunc e c now j w"
  have e: "cl_ns e = ns" "\<forall>i. cl_clock e i < until" using Cons.prems(2) by (auto simp: x)
  have first: "untouched ns n (cw_platform w) (cw_platform w1)"
    using run_cleaner_untouched [OF Cons.prems(1) e(2), of "snd j"] by (simp add: w1_def e(1))
  have same: "pf_jobs (cw_platform w1) = pf_jobs (cw_platform w)" "cw_configs w1 = cw_configs w" "cw_cron w1 = cw_cron w"
    by (simp_all add: w1_def)
  have "\<forall>(e, c, now, j) \<in> set runs. cl_ns e = ns \<and> (\<forall>i. cl_clock e i < until)" using Cons.prems(2) by simp
  from Cons.IH [OF _ this, of w1] Cons.prems(1) first same show ?case
    by (auto simp: x cron_runs_Cons w1_def [symmetric] intro: untouched_trans)
qed (simp add: cron_runs_def)

text \<open>Whatever the scheduler runs: over any sequence of runs of the three policies with any
  requests, in any order and with any failures, a job whose row is locked beyond every reading of
  the clock and is not pending is neither deleted nor written about.  Each run whose record can be
  written adds exactly one, with a new key, the run's name and time, and the word success if and
  only if the policy reported no error; the job table and the schedule are left alone.\<close>

theorem scheduled_runs:
  assumes "out_of_reach until n (pf_jobs (cw_platform w))" and "distinct (map cr_id (cw_records w))"
    and "\<forall>(e, c, now, j) \<in> set runs. cl_ns e = ns \<and> (\<forall>i. cl_clock e i < until)"
  shows "untouched ns n (cw_platform w) (cw_platform (cron_runs runs w)) \<and>
    pf_jobs (cw_platform (cron_runs runs w)) = pf_jobs (cw_platform w) \<and>
    cw_configs (cron_runs runs w) = cw_configs w \<and> cw_cron (cron_runs runs w) = cw_cron w \<and>
    distinct (map cr_id (cw_records (cron_runs runs w))) \<and>
    (\<exists>new. cw_records (cron_runs runs w) = cw_records w @ new \<and> recorded_runs runs new)"
  using cron_runs_keep [OF assms(1,3)] cron_runs_recorded [OF assms(2)] by blast

section \<open>The records\<close>

text \<open>A deletion of records through the web interface that succeeds removes exactly the
  records a listing with the same range and, where identifiers are given, one of these identifiers
  would show, reports their number, and leaves the others in order; without any condition it
  removes nothing.\<close>

theorem deleted_records_exact:
  assumes "handle_DeleteCronjobRecords None (Some r) w = (res, w')"
  shows "(dr_id r = [] \<and> dr_startTime r = None \<and> dr_endTime r = None \<longrightarrow> w' = w \<and> (\<exists>x. res = Inl x)) \<and>
    (\<not> (dr_id r = [] \<and> dr_startTime r = None \<and> dr_endTime r = None) \<longrightarrow>
      (\<exists>listed. GetCronjobRecords None None [] (dr_startTime r) (dr_endTime r) None w = Inr (listed, length listed) \<and>
        (let gone = filter (\<lambda>x. dr_id r = [] \<or> cr_id x \<in> set (dr_id r)) listed
         in res = Inr (fmt_uint (length gone)) \<and> w' = w\<lparr>cw_records := filter (\<lambda>x. x \<notin> set gone) (cw_records w)\<rparr>)))"
proof (cases "dr_id r = [] \<and> dr_startTime r = None \<and> dr_endTime r = None")
  case True
  then show ?thesis using assms by (auto simp: handle_DeleteCronjobRecords_def)
next
  case False
  define P where "P = record_wanted [] (dr_startTime r) (dr_endTime r) None"
  define Q where "Q = (\<lambda>x. (dr_id r \<noteq> [] \<longrightarrow> cr_id x \<in> set (dr_id r)) \<and> in_range (dr_startTime r) (dr_endTime r) x)"
  have PQ: "Q x \<longleftrightarrow> P x \<and> (dr_id r = [] \<or> cr_id x \<in> set (dr_id r))" for x
    by (auto simp: P_def Q_def record_wanted_def)
  have list: "GetCronjobRecords None None [] (dr_startTime r) (dr_endTime r) None w = Inr (filter P (cw_records w), length (filter P (cw_records w)))"
    by (simp add: GetCronjobRecords_def P_def tbl_find_def)
  have gone: "filter (\<lambda>x. dr_id r = [] \<or> cr_id x \<in> set (dr_id r)) (filter P (cw_records w)) = filter Q (cw_records w)"
    unfolding filter_filter by (rule filter_cong) (auto simp: PQ)
  have "res = Inr (fmt_uint (length (filter Q (cw_records w))))" "w' = w\<lparr>cw_records := filter (\<lambda>x. \<not> Q x) (cw_records w)\<rparr>"
    using assms False by (auto simp: handle_DeleteCronjobRecords_def DeleteCronjobRecords_def Let_def tbl_find_def tbl_delete_def Q_def)
  moreover have "filter (\<lambda>x. x \<notin> set (filter Q (cw_records w))) (cw_records w) = filter (\<lambda>x. \<not> Q x) (cw_records w)"
    by (rule filter_cong) auto
  ultimately have "GetCronjobRecords None None [] (dr_startTime r) (dr_endTime r) None w = Inr (filter P (cw_records w), length (filter P (cw_records w))) \<and>
    (let gone = filter (\<lambda>x. dr_id r = [] \<or> cr_id x \<in> set (dr_id r)) (filter P (cw_records w))
     in res = Inr (fmt_uint (length gone)) \<and> w' = w\<lparr>cw_records := filter (\<lambda>x. x \<notin> set gone) (cw_records w)\<rparr>)"
    unfolding gone Let_def using list by metis
  then show ?thesis using False by blast
qed

section \<open>The rows of the migration\<close>

text \<open>The rows that the database migration of \<open>cmd/gorm-gen/models/migrate.go\<close> puts into the table.\<close>

definition initial_cron_configs :: "cron_job_config list" where
  "initial_cron_configs =
     [\<lparr>cj_name = ''clean-long-time-job'', cj_type = CronJobTypeCleanerFunc, cj_spec = ''*/5 * * * *'', cj_suspend = Some True,
       cj_config = ''{\"batchDays\": \"4\", \"interactiveDays\": 4}'', cj_entryID = -1\<rparr>,
      \<lparr>cj_name = ''clean-low-gpu-util-job'', cj_type = CronJobTypeCleanerFunc, cj_spec = ''*/5 * * * *'', cj_suspend = Some True,
       cj_config = ''{\"util\": 0, \"waitTime\": 30, \"timeRange\": 90}'', cj_entryID = -1\<rparr>,
      \<lparr>cj_name = ''clean-waiting-jupyter'', cj_type = CronJobTypeCleanerFunc, cj_spec = ''*/5 * * * *'', cj_suspend = Some True,
       cj_config = ''{\"waitMinitues\": 5}'', cj_entryID = -1\<rparr>]"

text \<open>The policy for waiting Jupyter jobs can never be switched on: the row of the migration
  is named \<open>clean-waiting-jupyter\<close>, which the dispatch does not know, so every request to activate
  it, with any type, schedule and configuration, is answered by an error and leaves all rows as
  they were.\<close>

theorem waiting_policy_never_active:
  "\<exists>r \<in> set initial_cron_configs. cj_name r = ''clean-waiting-jupyter'' \<and>
     fst (UpdateJobConfig S J e (cj_name r) ty spec (Some False) cfg w) \<noteq> None \<and>
     cw_configs (snd (UpdateJobConfig S J e (cj_name r) ty spec (Some False) cfg w)) = cw_configs w"
proof -
  have f: "newCronJobFunc J ''clean-waiting-jupyter'' t d \<noteq> Inr y" for t d y
    by (auto simp: newCronJobFunc_def GetWrapCleanerFunc_def GetCleanerFunc_def)
  have add: "\<exists>x. AddCronJob S J ''clean-waiting-jupyter'' p t d c = (Inl x, c)" for p t d c
    using f [of t d] by (auto simp: AddCronJob_def split: sum.split)
  have act: "\<exists>x w1. updateActiveJobConfig S J e ''clean-waiting-jupyter'' cur u w = (Some x, w1)" for cur u
    using add [of "cj_spec u" "cj_type u" "cj_config u"
        "if GetSuspend cur \<and> jobNeedsUpdate cur u then co_remove S (cj_entryID cur) (cw_cron w) else cw_cron w"]
    by (auto simp: updateActiveJobConfig_def)
  have body: "\<exists>x w1. update_body S J e ''clean-waiting-jupyter'' ty spec (Some False) cfg w = (Some x, w1)"
    using act by (auto simp: update_body_def shouldSuspendJob_def Let_def split: sum.split)
  then have "fst (UpdateJobConfig S J e ''clean-waiting-jupyter'' ty spec (Some False) cfg w) \<noteq> None \<and>
     cw_configs (snd (UpdateJobConfig S J e ''clean-waiting-jupyter'' ty spec (Some False) cfg w)) = cw_configs w"
    by (auto simp: UpdateJobConfig_def transaction_def)
  then show ?thesis by (auto simp: initial_cron_configs_def)
qed

section \<open>Witnesses\<close>

text \<open>A scheduler that meets the laws: a list of entries, an empty schedule does not parse.\<close>

definition list_cron :: "(int \<times> string \<times> cleaner_job) list cron_ops" where
  "list_cron = \<lparr>co_add = (\<lambda>spec f c. if spec = [] then (Inl ''empty spec'', c)
       else (let i = 1 + fold max (map fst c) 0 in (Inr i, (i, spec, f) # c))),
     co_remove = (\<lambda>i c. filter (\<lambda>x. fst x \<noteq> i) c), co_start = (\<lambda>c. c), co_stop = (\<lambda>c. c), co_entries = map_of\<rparr>"

lemma fold_max_int: "(x :: int) \<in> set xs \<or> x \<le> m \<Longrightarrow> x \<le> fold max xs m"
proof (induction xs arbitrary: m)
  case (Cons a xs)
  show ?case using Cons.prems Cons.IH [of "max a m"] by (auto simp: le_max_iff_disj)
qed simp

lemma list_cron_laws: "cron_laws list_cron"
proof -
  have "0 < 1 + fold max (map fst c) 0 \<and> map_of c (1 + fold max (map fst c) 0) = None"
    for c :: "(int \<times> string \<times> cleaner_job) list"
    using fold_max_int [of 0 "map fst c" 0] fold_max_int [of "1 + fold max (map fst c) 0" "map fst c" 0]
    by (auto simp: map_of_eq_None_iff)
  moreover have "map_of (filter (\<lambda>x. fst x \<noteq> i) c) = (map_of c)(i := None)" for i and c :: "(int \<times> string \<times> cleaner_job) list"
    by (induction c) auto
  ultimately show ?thesis by (auto simp: cron_laws_def list_cron_def Let_def split: if_splits)
qed

definition sample_json :: json_requests where
  "sample_json = \<lparr>jr_long = \<lambda>_. Inr \<lparr>lt_batchDays = Some 4, lt_interactiveDays = Some 4\<rparr>,
     jr_low = \<lambda>_. Inr \<lparr>lg_timeRange = 90, lg_waitTime = 30, lg_util = 0\<rparr>,
     jr_waiting = \<lambda>_. Inr \<lparr>wj_waitMinutes = 5\<rparr>\<rparr>"

definition sample_config :: "bool \<Rightarrow> int \<Rightarrow> cron_job_config" where
  "sample_config b i = \<lparr>cj_name = ''clean-waiting-jupyter-job'', cj_type = CronJobTypeCleanerFunc, cj_spec = ''*/5 * * * *'',
     cj_suspend = Some b, cj_config = ''{}'', cj_entryID = i\<rparr>"

definition sample_job_func :: cleaner_job where
  "sample_job_func = (''clean-waiting-jupyter-job'', WaitingJupyterFunc \<lparr>wj_waitMinutes = 5\<rparr>)"

definition sample_cron_world :: "bool \<Rightarrow> int \<Rightarrow> (int \<times> string \<times> cleaner_job) list \<Rightarrow>
    (int, unit, unit, (int \<times> string \<times> cleaner_job) list) cron_world" where
  "sample_cron_world b i c = \<lparr>cw_platform = sample_platform, cw_configs = [sample_config b i], cw_records = [], cw_cron = c\<rparr>"

definition quiet_update :: cron_update_env where
  "quiet_update = \<lparr>cu_getErr = None, cu_updateErr = None, cu_commitErr = None\<rparr>"

lemma sample_func: "newCronJobFunc sample_json ''clean-waiting-jupyter-job'' CronJobTypeCleanerFunc d = Inr sample_job_func"
  by (simp add: newCronJobFunc_def GetWrapCleanerFunc_def GetCleanerFunc_def sample_json_def sample_job_func_def)

lemma sample_suspended: "in_step list_cron sample_json (sample_cron_world True (-1) [])"
  by (simp add: in_step_for_def sample_cron_world_def sample_config_def GetSuspend_def list_cron_def)

lemma sample_active:
  "in_step list_cron sample_json (sample_cron_world False 1 [(1, ''*/5 * * * *'', sample_job_func)])"
  by (simp add: in_step_for_def sample_cron_world_def sample_config_def GetSuspend_def list_cron_def scheduled_as_def sample_func)

lemma cron_updates_in_step_witness:
  "in_step list_cron sample_json (snd (UpdateJobConfig list_cron sample_json quiet_update ''clean-waiting-jupyter-job''
     None (Some ''0 1 * * *'') (Some False) None (sample_cron_world True (-1) []))) \<and>
   \<not> in_step list_cron sample_json (snd (UpdateJobConfig list_cron sample_json (quiet_update\<lparr>cu_commitErr := Some ''commit''\<rparr>)
     ''clean-waiting-jupyter-job'' None None (Some True) None (sample_cron_world False 1 [(1, ''*/5 * * * *'', sample_job_func)])))"
proof
  obtain err w' where U: "UpdateJobConfig list_cron sample_json quiet_update ''clean-waiting-jupyter-job''
     None (Some ''0 1 * * *'') (Some False) None (sample_cron_world True (-1) []) = (err, w')" by fastforce
  have "\<forall>r \<in> set (cw_configs (sample_cron_world True (-1) [])). cj_name r = ''clean-waiting-jupyter-job'' \<and> \<not> GetSuspend r \<longrightarrow> False"
    by (simp add: sample_cron_world_def sample_config_def GetSuspend_def)
  from cron_updates_in_step [OF list_cron_laws sample_suspended this U]
  have "in_step list_cron sample_json w'" by (cases err) (auto simp: quiet_update_def)
  then show "in_step list_cron sample_json (snd (UpdateJobConfig list_cron sample_json quiet_update ''clean-waiting-jupyter-job''
     None (Some ''0 1 * * *'') (Some False) None (sample_cron_world True (-1) [])))" unfolding U by simp
next
  let ?w = "sample_cron_world False 1 [(1, ''*/5 * * * *'', sample_job_func)]" and ?e = "quiet_update\<lparr>cu_commitErr := Some ''commit''\<rparr>"
  obtain err w' where U: "UpdateJobConfig list_cron sample_json ?e ''clean-waiting-jupyter-job'' None None (Some True) None ?w = (err, w')"
    by fastforce
  have "\<forall>r \<in> set (cw_configs ?w). cj_name r = ''clean-waiting-jupyter-job'' \<and> \<not> GetSuspend r \<longrightarrow> True" by simp
  note upd = cron_updates_in_step [OF list_cron_laws sample_active this U]
  have c: "cu_commitErr ?e \<noteq> None" "cu_getErr ?e = None" "cu_updateErr ?e = None" by (simp_all add: quiet_update_def)
  from upd c have rows: "cw_configs w' = cw_configs ?w"
    and gone: "\<forall>r \<in> set (cw_configs w'). cj_name r = ''clean-waiting-jupyter-job'' \<and> \<not> GetSuspend r \<longrightarrow>
      co_entries list_cron (cw_cron w') (cj_entryID r) = None"
    by blast+
  have "co_entries list_cron (cw_cron w') 1 = None"
    using gone unfolding rows by (simp add: sample_cron_world_def sample_config_def GetSuspend_def)
  then have "\<not> in_step list_cron sample_json w'"
    by (simp add: in_step_for_def rows sample_cron_world_def sample_config_def GetSuspend_def scheduled_as_def)
  then show "\<not> in_step list_cron sample_json (snd (UpdateJobConfig list_cron sample_json ?e
     ''clean-waiting-jupyter-job'' None None (Some True) None ?w))" unfolding U by simp
qed

lemma active_update_leaks_entry_witness:
  "\<exists>w1 w2. UpdateJobConfig list_cron sample_json quiet_update ''clean-waiting-jupyter-job'' None (Some ''0 1 * * *'') (Some False) None
      (sample_cron_world False 1 [(1, ''*/5 * * * *'', sample_job_func)]) = (None, w1) \<and>
    UpdateJobConfig list_cron sample_json quiet_update ''clean-waiting-jupyter-job'' None None (Some True) None w1 = (None, w2) \<and>
    co_entries list_cron (cw_cron w2) 1 = Some (''*/5 * * * *'', sample_job_func)"
proof -
  let ?w = "sample_cron_world False 1 [(1, ''*/5 * * * *'', sample_job_func)]"
  have cur: "sample_config False 1 \<in> set (cw_configs ?w)" "\<not> GetSuspend (sample_config False 1)"
    by (simp_all add: sample_cron_world_def sample_config_def GetSuspend_def)
  have name: "cj_name (sample_config False 1) = ''clean-waiting-jupyter-job''" by (simp add: sample_config_def)
  let ?u = "UpdateJobConfig list_cron sample_json quiet_update ''clean-waiting-jupyter-job''"
  have "\<exists>w1 w2. ?u None (Some ''0 1 * * *'') (Some False) None ?w = (None, w1) \<and> ?u None None (Some True) None w1 = (None, w2)"
    by (simp add: UpdateJobConfig_def transaction_def update_body_def getCurrentJobConfigFromDB_def quiet_update_def sample_cron_world_def
        tbl_first_Cons sample_config_def prepareUpdateConfig_def GetSuspend_def shouldSuspendJob_def updateActiveJobConfig_def
        AddCronJob_def sample_func write_row_def write_config_def updateSuspendedJobConfig_def list_cron_def Let_def)
  then obtain w1 w2 where U: "?u None (Some ''0 1 * * *'') (Some False) None ?w = (None, w1)"
    and V: "?u None None (Some True) None w1 = (None, w2)" by blast
  from active_update_leaks_entry [OF list_cron_laws sample_active cur U [folded name] V [folded name]]
  have "co_entries list_cron (cw_cron w2) 1 = co_entries list_cron (cw_cron ?w) 1"
    by (simp add: quiet_update_def sample_config_def)
  then have "co_entries list_cron (cw_cron w2) 1 = Some (''*/5 * * * *'', sample_job_func)"
    by (simp add: sample_cron_world_def list_cron_def)
  with U V show ?thesis by blast
qed

lemma sync_puts_in_step_witness:
  "in_step list_cron sample_json (SyncCronJob list_cron sample_json \<lparr>cs_findErr = None, cs_entryErr = (\<lambda>_. None), cs_commitErr = None\<rparr>
     (sample_cron_world False 7 []))"
  using sync_puts_in_step [OF list_cron_laws, of "sample_cron_world False 7 []" "\<lparr>cs_findErr = None, cs_entryErr = (\<lambda>_. None), cs_commitErr = None\<rparr>" sample_json]
  by (simp add: sample_cron_world_def sample_config_def schedulable_def sample_func list_cron_def Let_def)

lemma scheduled_runs_witness:
  "untouched ''ns'' ''job-1'' (sample_platform\<lparr>pf_jobs := [sample_job\<lparr>jb_lockedTimestamp := 9000\<rparr>]\<rparr>)
     (cw_platform (cron_runs [(quiet_cleaner 2000, None, 2000, sample_job_func)]
       ((sample_cron_world False 1 [])\<lparr>cw_platform := sample_platform\<lparr>pf_jobs := [sample_job\<lparr>jb_lockedTimestamp := 9000\<rparr>]\<rparr>\<rparr>)))"
  using scheduled_runs [of 9000 "''job-1''" "(sample_cron_world False 1 [])\<lparr>cw_platform := sample_platform\<lparr>pf_jobs := [sample_job\<lparr>jb_lockedTimestamp := 9000\<rparr>]\<rparr>\<rparr>"
      "[(quiet_cleaner 2000, None, 2000, sample_job_func)]" "''ns''"]
  by (simp add: out_of_reach_def sample_cron_world_def sample_job_def quiet_cleaner_def)

lemma deleted_records_exact_witness:
  "\<exists>listed. GetCronjobRecords None None [] (Some 5) None None ((sample_cron_world False 1 [])\<lparr>cw_records :=
     [\<lparr>cr_id = 1, cr_name = ''a'', cr_executeTime = 3, cr_status = ''success'', cr_message = [], cr_jobData = None\<rparr>,
      \<lparr>cr_id = 2, cr_name = ''a'', cr_executeTime = 7, cr_status = ''success'', cr_message = [], cr_jobData = None\<rparr>]\<rparr>) = Inr (listed, length listed)"
proof -
  let ?w = "(sample_cron_world False 1 [])\<lparr>cw_records :=
     [\<lparr>cr_id = 1, cr_name = ''a'', cr_executeTime = 3, cr_status = ''success'', cr_message = [], cr_jobData = None\<rparr>,
      \<lparr>cr_id = 2, cr_name = ''a'', cr_executeTime = 7, cr_status = ''success'', cr_message = [], cr_jobData = None\<rparr>]\<rparr>"
  obtain res w' where "handle_DeleteCronjobRecords None (Some \<lparr>dr_id = [], dr_startTime = Some 5, dr_endTime = None\<rparr>) ?w = (res, w')"
    by fastforce
  from deleted_records_exact [OF this] show ?thesis by auto
qed

end
