(* ===== verification/Exec_Engine.thy ===== *)
theory Exec_Engine imports Prelude "HOL-Library.Word" begin

text \<open>
  The execution engine of \<open>pkg/aitaskctl/linklist.go\<close>: tasks in a doubly linked list that ends in a
  sentinel cell, submitted at the end, moved by their identifiers and run from the head.  Cells and
  tasks are objects that share references, so the engine carries a store for each; a pointer is
  \<open>None\<close> when nil and otherwise the address of an object.  Identifiers are 32-bit and wrap.
\<close>

type_synonym addr = nat

record link_list =
  ll_prev :: "addr option"
  ll_next :: "addr option"
  ll_task :: "addr option"

record internal_task =
  it_link :: "addr option"
  it_id :: "32 word"

record engine =
  en_head :: "addr option"
  en_tail :: "addr option"
  en_uniqueID :: "32 word"
  en_id2task :: "(32 word, addr) gomap"
  en_links :: "addr \<Rightarrow> link_list"
  en_tasks :: "addr \<Rightarrow> internal_task"
  en_fresh :: addr

definition set_prev :: "addr \<Rightarrow> addr option \<Rightarrow> engine \<Rightarrow> engine" where
  "set_prev a p e = e\<lparr>en_links := (en_links e)(a := (en_links e a)\<lparr>ll_prev := p\<rparr>)\<rparr>"

definition set_next :: "addr \<Rightarrow> addr option \<Rightarrow> engine \<Rightarrow> engine" where
  "set_next a p e = e\<lparr>en_links := (en_links e)(a := (en_links e a)\<lparr>ll_next := p\<rparr>)\<rparr>"

section \<open>The operations\<close>

definition InsertBefore :: "addr option \<Rightarrow> addr option \<Rightarrow> engine \<Rightarrow> engine go" where
  "InsertBefore dst src e =
     (case dst of
        None \<Rightarrow> Inl NilDereference
      | Some d \<Rightarrow>
          let prev = ll_prev (en_links e d);
              e1 = (case prev of None \<Rightarrow> e | Some p \<Rightarrow> set_next p src e);
              e2 = set_prev d src e1
          in (case src of
                None \<Rightarrow> Inl NilDereference
              | Some s \<Rightarrow> Inr (set_next s dst (set_prev s prev e2))))"

definition CutOut :: "addr option \<Rightarrow> engine \<Rightarrow> engine go" where
  "CutOut src e =
     (case src of
        None \<Rightarrow> Inl NilDereference
      | Some s \<Rightarrow>
          let prev = ll_prev (en_links e s);
              e1 = (case prev of None \<Rightarrow> e | Some p \<Rightarrow> set_next p (ll_next (en_links e s)) e);
              next_link = ll_next (en_links e1 s)
          in Inr (case next_link of None \<Rightarrow> e1 | Some n \<Rightarrow> set_prev n (ll_prev (en_links e1 s)) e1))"

text \<open>A new cell is stored at the next free address; the store of an engine not yet set up is empty.\<close>

definition new_link :: "addr option \<Rightarrow> engine \<Rightarrow> addr \<times> engine" where
  "new_link task e =
     (en_fresh e, e\<lparr>en_links := (en_links e)(en_fresh e := \<lparr>ll_prev = None, ll_next = None, ll_task = task\<rparr>),
                    en_fresh := Suc (en_fresh e)\<rparr>)"

definition engine_Init :: "engine \<Rightarrow> engine" where
  "engine_Init e =
     (let (a, e1) = new_link None e
      in e1\<lparr>en_head := Some a, en_tail := Some a, en_uniqueID := 0, en_id2task := []\<rparr>)"

definition SubmitTask :: "engine \<Rightarrow> (32 word \<times> engine) go" where
  "SubmitTask e =
     (let uniqueID = en_uniqueID e;
          e0 = e\<lparr>en_uniqueID := en_uniqueID e + 1\<rparr>;
          task = en_fresh e0;
          e1 = e0\<lparr>en_tasks := (en_tasks e0)(task := \<lparr>it_link = None, it_id = uniqueID\<rparr>), en_fresh := Suc (en_fresh e0)\<rparr>;
          (link, e2) = new_link (Some task) e1;
          e3 = e2\<lparr>en_tasks := (en_tasks e2)(task := (en_tasks e2 task)\<lparr>it_link := Some link\<rparr>)\<rparr>
      in go_bind (InsertBefore (en_tail e3) (Some link) e3) (\<lambda>e4.
           let e5 = (if en_head e4 = en_tail e4 then e4\<lparr>en_head := Some link\<rparr> else e4)
           in Inr (uniqueID, e5\<lparr>en_id2task := gm_put uniqueID task (en_id2task e5)\<rparr>)))"

definition task_link :: "32 word \<Rightarrow> engine \<Rightarrow> addr option go" where
  "task_link i e =
     (case gm_get (en_id2task e) i of
        None \<Rightarrow> Inl NilDereference
      | Some t \<Rightarrow> Inr (it_link (en_tasks e t)))"

definition AdjustTask :: "32 word \<Rightarrow> 32 word \<Rightarrow> engine \<Rightarrow> engine go" where
  "AdjustTask srcID dstID e =
     go_bind (task_link srcID e) (\<lambda>src.
     go_bind (task_link dstID e) (\<lambda>dst.
     go_bind (CutOut src e) (\<lambda>e1. InsertBefore dst src e1)))"

text \<open>
  The loop of \<open>Run\<close>: the identifiers of the tasks started, in order.  It need not end, so its value
  is an option: \<open>None\<close> when it runs for ever.
\<close>

partial_function (option) run_loop ::
  "(addr \<Rightarrow> link_list) \<Rightarrow> (addr \<Rightarrow> internal_task) \<Rightarrow> addr option \<Rightarrow> addr option \<Rightarrow> 32 word option list go option" where
  "run_loop links tasks head tail =
     (if head = tail then Some (Inr [])
      else (case head of
        None \<Rightarrow> Some (Inl NilDereference)
      | Some a \<Rightarrow>
          Option.bind (run_loop links tasks (ll_next (links a)) tail) (\<lambda>r.
            Some (go_bind r (\<lambda>ts. Inr (map_option (\<lambda>t. it_id (tasks t)) (ll_task (links a)) # ts))))))"

definition engine_Run :: "engine \<Rightarrow> (32 word option list \<times> engine) go option" where
  "engine_Run e =
     (case run_loop (en_links e) (en_tasks e) (en_head e) (en_tail e) of
        None \<Rightarrow> None
      | Some (Inl x) \<Rightarrow> Some (Inl x)
      | Some (Inr ts) \<Rightarrow> Some (Inr (ts, e\<lparr>en_head := en_tail e\<rparr>)))"

section \<open>The pending tasks\<close>

text \<open>
  \<open>dll links p xs t\<close>: the cells \<open>xs\<close> are doubly linked in this order and end in the cell \<open>t\<close>; the
  first cell's \<open>Prev\<close> is \<open>p\<close>.
\<close>

primrec dll :: "(addr \<Rightarrow> link_list) \<Rightarrow> addr option \<Rightarrow> addr list \<Rightarrow> addr \<Rightarrow> bool" where
  "dll links p [] t \<longleftrightarrow> ll_prev (links t) = p"
| "dll links p (x # xs) t \<longleftrightarrow> ll_prev (links x) = p \<and> ll_next (links x) = Some (hd (xs @ [t])) \<and> dll links (Some x) xs t"

definition cell_id :: "engine \<Rightarrow> addr \<Rightarrow> 32 word option" where
  "cell_id e x = map_option (\<lambda>t. it_id (en_tasks e t)) (ll_task (en_links e x))"

lemma dll_cong:
  "(\<And>x. x \<in> set xs \<Longrightarrow> ll_prev (l' x) = ll_prev (l x) \<and> ll_next (l' x) = ll_next (l x)) \<Longrightarrow>
   ll_prev (l' t) = ll_prev (l t) \<Longrightarrow> dll l' p xs t = dll l p xs t"
  by (induction xs arbitrary: p) auto

lemma dll_append:
  "dll l p (xs @ ys) t \<longleftrightarrow>
     (if ys = [] then dll l p xs t
      else dll l p xs (hd ys) \<and> dll l (if xs = [] then p else Some (last xs)) ys t)"
  by (induction xs arbitrary: p) (auto simp: neq_Nil_conv)

text \<open>The last cell before \<open>t\<close>, or the stale pointer when there is none.\<close>

lemma dll_end: "dll l p xs t \<Longrightarrow> ll_prev (l t) = (if xs = [] then p else Some (last xs))"
proof (induction xs arbitrary: p)
  case (Cons x xs)
  from Cons.prems have "dll l (Some x) xs t" by simp
  from Cons.IH [OF this] show ?case by simp
qed simp

lemma run_loop_end [simp]: "run_loop links tasks p p = Some (Inr [])"
  by (subst run_loop.simps) simp

lemma run_loop_step:
  "Some a \<noteq> tail \<Longrightarrow> run_loop links tasks (Some a) tail =
     Option.bind (run_loop links tasks (ll_next (links a)) tail) (\<lambda>r.
       Some (go_bind r (\<lambda>ts. Inr (map_option (\<lambda>t. it_id (tasks t)) (ll_task (links a)) # ts))))"
  by (subst run_loop.simps) simp

lemma run_loop_dll:
  "dll l p xs t \<Longrightarrow> t \<notin> set xs \<Longrightarrow>
   run_loop l tasks (Some (hd (xs @ [t]))) (Some t) = Some (Inr (map (\<lambda>x. map_option (\<lambda>k. it_id (tasks k)) (ll_task (l x))) xs))"
  by (induction xs arbitrary: p) (auto simp: run_loop_step)

text \<open>
  \<open>engine_list e p xs t\<close>: the head points to the first of the cells \<open>xs\<close>, the tail to the sentinel
  \<open>t\<close>; \<open>p\<close> is what the first cell's \<open>Prev\<close> still points to, a cell run before.  Each cell has its
  task, and the map of identifiers leads to it.  \<open>represents e q\<close>: \<open>q\<close> are the identifiers of the
  tasks that wait, in order.
\<close>

definition engine_list :: "engine \<Rightarrow> addr option \<Rightarrow> addr list \<Rightarrow> addr \<Rightarrow> bool" where
  "engine_list e p xs t \<longleftrightarrow> en_tail e = Some t \<and> en_head e = Some (hd (xs @ [t])) \<and> dll (en_links e) p xs t \<and>
     distinct (xs @ [t]) \<and> (\<forall>q. p = Some q \<longrightarrow> q \<notin> set (xs @ [t]) \<and> q < en_fresh e) \<and>
     (\<forall>x \<in> set (xs @ [t]). x < en_fresh e) \<and>
     (\<forall>x \<in> set xs. \<exists>k < en_fresh e. ll_task (en_links e x) = Some k \<and> it_link (en_tasks e k) = Some x \<and>
        gm_get (en_id2task e) (it_id (en_tasks e k)) = Some k)"

definition represents :: "engine \<Rightarrow> 32 word list \<Rightarrow> bool" where
  "represents e q \<longleftrightarrow> (\<exists>p xs t. engine_list e p xs t \<and> map (cell_id e) xs = map Some q)"

lemma engine_listD:
  assumes "engine_list e p xs t"
  shows "en_tail e = Some t" "en_head e = Some (hd (xs @ [t]))" "dll (en_links e) p xs t" "distinct (xs @ [t])"
    "\<And>q. p = Some q \<Longrightarrow> q \<notin> set (xs @ [t]) \<and> q < en_fresh e" "\<And>x. x \<in> set (xs @ [t]) \<Longrightarrow> x < en_fresh e"
    "\<And>x. x \<in> set xs \<Longrightarrow> \<exists>k < en_fresh e. ll_task (en_links e x) = Some k \<and> it_link (en_tasks e k) = Some x \<and>
        gm_get (en_id2task e) (it_id (en_tasks e k)) = Some k"
  using assms unfolding engine_list_def by blast+

text \<open>Running ends, starts the waiting tasks in order and leaves nothing waiting.\<close>

lemma engine_Run_list:
  assumes "engine_list e p xs t"
  shows "engine_Run e = Some (Inr (map (cell_id e) xs, e\<lparr>en_head := en_tail e\<rparr>)) \<and>
    engine_list (e\<lparr>en_head := en_tail e\<rparr>) (ll_prev (en_links e t)) [] t"
proof -
  note l = engine_listD [OF assms]
  have "run_loop (en_links e) (en_tasks e) (en_head e) (en_tail e) = Some (Inr (map (cell_id e) xs))"
    using run_loop_dll [OF l(3), of "en_tasks e"] l(1,2,4) by (simp add: cell_id_def [abs_def])
  moreover have "engine_list (e\<lparr>en_head := en_tail e\<rparr>) (ll_prev (en_links e t)) [] t"
  proof -
    have "q \<noteq> t \<and> q < en_fresh e" if "ll_prev (en_links e t) = Some q" for q
    proof (cases "xs = []")
      case False
      with that dll_end [OF l(3)] have "q = last xs" by simp
      with False last_in_set [of xs] l(4,6) show ?thesis by auto
    qed (use that dll_end [OF l(3)] l(5) in auto)
    then show ?thesis using l(1,6) by (simp add: engine_list_def)
  qed
  ultimately show ?thesis by (simp add: engine_Run_def)
qed

lemma represents_Run:
  assumes "represents e q"
  shows "\<exists>e'. engine_Run e = Some (Inr (map Some q, e')) \<and> represents e' [] \<and> en_uniqueID e' = en_uniqueID e"
proof -
  obtain p xs t where xs: "engine_list e p xs t" "map (cell_id e) xs = map Some q" using assms by (auto simp: represents_def)
  with engine_Run_list [OF xs(1)] show ?thesis by (auto simp: represents_def)
qed

lemma represents_Init: "represents (engine_Init e) [] \<and> en_uniqueID (engine_Init e) = 0"
  by (auto simp: represents_def engine_Init_def new_link_def engine_list_def intro!: exI [where x = None])

section \<open>What the two pointer operations do\<close>

lemma InsertBefore_ok:
  obtains e' where "InsertBefore (Some d) (Some s) e = Inr e'" "e' = e\<lparr>en_links := en_links e'\<rparr>"
    "\<And>x. ll_prev (en_links e' x) = (if x = s then ll_prev (en_links e d) else if x = d then Some s else ll_prev (en_links e x))"
    "\<And>x. ll_next (en_links e' x) = (if x = s then Some d else if ll_prev (en_links e d) = Some x then Some s else ll_next (en_links e x))"
    "\<And>x. ll_task (en_links e' x) = ll_task (en_links e x)"
proof -
  obtain e' where e': "InsertBefore (Some d) (Some s) e = Inr e'" by (simp add: InsertBefore_def Let_def)
  then have eq: "e' = set_next s (Some d) (set_prev s (ll_prev (en_links e d)) (set_prev d (Some s)
      (case ll_prev (en_links e d) of None \<Rightarrow> e | Some p \<Rightarrow> set_next p (Some s) e)))"
    by (simp add: InsertBefore_def Let_def)
  show thesis
    by (rule that [OF e']) (auto simp: eq set_prev_def set_next_def split: option.splits)
qed

lemma CutOut_ok:
  obtains e' where "CutOut (Some s) e = Inr e'" "e' = e\<lparr>en_links := en_links e'\<rparr>"
    "\<And>x. ll_prev (en_links e' x) = (if ll_next (en_links e s) = Some x then ll_prev (en_links e s) else ll_prev (en_links e x))"
    "\<And>x. ll_next (en_links e' x) = (if ll_prev (en_links e s) = Some x then ll_next (en_links e s) else ll_next (en_links e x))"
    "\<And>x. ll_task (en_links e' x) = ll_task (en_links e x)"
proof -
  obtain e' where e': "CutOut (Some s) e = Inr e'" by (simp add: CutOut_def Let_def)
  show thesis
    by (rule that [OF e']) (use e' in \<open>auto simp: CutOut_def Let_def set_prev_def set_next_def split: option.splits if_splits\<close>)
qed

lemma dll_retarget:
  "dll l p xs d \<Longrightarrow> \<forall>x \<in> set xs. ll_prev (l' x) = ll_prev (l x) \<Longrightarrow>
   \<forall>x \<in> set (butlast xs). ll_next (l' x) = ll_next (l x) \<Longrightarrow> xs \<noteq> [] \<longrightarrow> ll_next (l' (last xs)) = Some s \<Longrightarrow>
   ll_prev (l' s) = (if xs = [] then p else Some (last xs)) \<Longrightarrow> dll l' p xs s"
proof (induction xs arbitrary: p)
  case (Cons x xs)
  have "dll l' (Some x) xs s"
    by (rule Cons.IH) (use Cons.prems in \<open>auto split: if_splits\<close>)
  with Cons.prems show ?case by (cases xs) auto
qed simp

lemma dll_rehead:
  "dll l p ys t \<Longrightarrow> ll_prev (l' (hd (ys @ [t]))) = p' \<Longrightarrow> \<forall>x \<in> set ys. ll_next (l' x) = ll_next (l x) \<Longrightarrow>
   \<forall>x \<in> set (tl (ys @ [t])). ll_prev (l' x) = ll_prev (l x) \<Longrightarrow> dll l' p' ys t"
proof (cases ys)
  case (Cons y zs)
  assume "dll l p ys t" "ll_prev (l' (hd (ys @ [t]))) = p'" "\<forall>x \<in> set ys. ll_next (l' x) = ll_next (l x)"
    "\<forall>x \<in> set (tl (ys @ [t])). ll_prev (l' x) = ll_prev (l x)"
  then have d: "dll l (Some y) zs t" "ll_next (l' y) = Some (hd (zs @ [t]))" "ll_prev (l' y) = p'"
    "\<forall>x \<in> set zs. ll_next (l' x) = ll_next (l x)" "\<forall>x \<in> set (zs @ [t]). ll_prev (l' x) = ll_prev (l x)"
    by (simp_all add: Cons)
  then have "dll l' (Some y) zs t = dll l (Some y) zs t" by (intro dll_cong) auto
  with d show ?thesis by (simp add: Cons)
qed simp

lemma dll_split: "dll l p (xs @ ys) t \<longleftrightarrow> dll l p xs (hd (ys @ [t])) \<and> dll l (if xs = [] then p else Some (last xs)) ys t"
  by (cases ys) (use dll_end in \<open>auto simp: dll_append\<close>)

text \<open>A cell outside the list goes in before the cell \<open>hd (ys @ [t])\<close>.\<close>

lemma dll_insert:
  assumes d: "dll l p (xs @ ys) t" "distinct (xs @ ys @ [t])" and s: "s \<notin> set (xs @ ys @ [t])"
    and p: "\<forall>q. p = Some q \<longrightarrow> q \<notin> set (xs @ ys @ [t])"
    and l': "\<And>x. ll_prev (l' x) = (if x = s then ll_prev (l (hd (ys @ [t]))) else if x = hd (ys @ [t]) then Some s else ll_prev (l x))"
      "\<And>x. ll_next (l' x) = (if x = s then Some (hd (ys @ [t])) else if ll_prev (l (hd (ys @ [t]))) = Some x then Some s else ll_next (l x))"
  shows "dll l' p (xs @ s # ys) t"
proof -
  define h where "h = hd (ys @ [t])"
  have h: "h \<notin> set xs" "h \<in> set (ys @ [t])" using d(2) by (cases ys; auto simp: h_def)+
  have xs: "dll l p xs h" and ys: "dll l (if xs = [] then p else Some (last xs)) ys t" using d(1) by (simp_all add: dll_split h_def)
  have prev: "ll_prev (l h) = (if xs = [] then p else Some (last xs))" by (rule dll_end [OF xs])
  have lasty: "last xs \<notin> set ys" if "xs \<noteq> []" using last_in_set [OF that] d(2) by auto
  have last: "last xs \<notin> set (butlast xs)" if "xs \<noteq> []" using that d(2) by (cases xs rule: rev_cases) auto
  have "dll l' p xs s"
    by (rule dll_retarget [OF xs]) (use s h prev last p in \<open>auto simp: l' h_def [symmetric] dest: in_set_butlastD\<close>)
  moreover have "dll l' (Some s) ys t"
  proof (rule dll_rehead [OF ys])
    show "ll_prev (l' (hd (ys @ [t]))) = Some s" using s h by (auto simp: l' h_def [symmetric])
    have "\<forall>x \<in> set ys. ll_prev (l h) \<noteq> Some x" using prev p lasty by (auto split: if_splits)
    then show "\<forall>x \<in> set ys. ll_next (l' x) = ll_next (l x)" using s by (auto simp: l' h_def [symmetric])
    have "h \<notin> set (tl (ys @ [t]))" "s \<notin> set (tl (ys @ [t]))" using d(2) s by (cases ys; auto simp: h_def)+
    then show "\<forall>x \<in> set (tl (ys @ [t])). ll_prev (l' x) = ll_prev (l x)" by (auto simp: l' h_def [symmetric])
  qed
  moreover have "ll_next (l' s) = Some h" "ll_prev (l' s) = (if xs = [] then p else Some (last xs))"
    using prev by (simp_all add: l' h_def [symmetric])
  ultimately show ?thesis by (simp add: dll_split h_def)
qed

text \<open>A cell is taken out of the list.\<close>

lemma dll_cut:
  assumes d: "dll l p (xs @ s # ys) t" "distinct (xs @ s # ys @ [t])"
    and p: "\<forall>q. p = Some q \<longrightarrow> q \<notin> set (xs @ s # ys @ [t])"
    and l': "\<And>x. ll_prev (l' x) = (if ll_next (l s) = Some x then ll_prev (l s) else ll_prev (l x))"
      "\<And>x. ll_next (l' x) = (if ll_prev (l s) = Some x then ll_next (l s) else ll_next (l x))"
  shows "dll l' p (xs @ ys) t"
proof -
  define h where "h = hd (ys @ [t])"
  have h: "h \<notin> set xs" "h \<noteq> s" using d(2) by (cases ys; auto simp: h_def)+
  have xs: "dll l p xs s" and ys: "dll l (Some s) ys t" and s: "ll_next (l s) = Some h"
      "ll_prev (l s) = (if xs = [] then p else Some (last xs))"
    using d(1) by (simp_all add: dll_split h_def)
  have lasty: "last xs \<notin> set ys" if "xs \<noteq> []" using last_in_set [OF that] d(2) by auto
  have last: "last xs \<notin> set (butlast xs)" if "xs \<noteq> []" using that d(2) by (cases xs rule: rev_cases) auto
  have "dll l' p xs h"
    by (rule dll_retarget [OF xs]) (use h s last p in \<open>auto simp: l' dest: in_set_butlastD\<close>)
  moreover have "dll l' (if xs = [] then p else Some (last xs)) ys t"
  proof (rule dll_rehead [OF ys])
    show "ll_prev (l' (hd (ys @ [t]))) = (if xs = [] then p else Some (last xs))" using s by (simp add: l' h_def)
    have "\<forall>x \<in> set ys. ll_prev (l s) \<noteq> Some x" using s p lasty by (auto split: if_splits)
    then show "\<forall>x \<in> set ys. ll_next (l' x) = ll_next (l x)" by (auto simp: l')
    have "h \<notin> set (tl (ys @ [t]))" using d(2) by (cases ys; auto simp: h_def)
    then show "\<forall>x \<in> set (tl (ys @ [t])). ll_prev (l' x) = ll_prev (l x)" using s by (auto simp: l')
  qed
  ultimately show ?thesis by (simp add: dll_split h_def)
qed

section \<open>Submission\<close>

definition new_cells :: "engine \<Rightarrow> engine" where
  "new_cells e = e\<lparr>en_uniqueID := en_uniqueID e + 1,
     en_links := (en_links e)(Suc (en_fresh e) := \<lparr>ll_prev = None, ll_next = None, ll_task = Some (en_fresh e)\<rparr>),
     en_fresh := Suc (Suc (en_fresh e)),
     en_tasks := (en_tasks e)(en_fresh e := \<lparr>it_link = Some (Suc (en_fresh e)), it_id = en_uniqueID e\<rparr>)\<rparr>"

lemma SubmitTask_eq:
  "SubmitTask e = go_bind (InsertBefore (en_tail e) (Some (Suc (en_fresh e))) (new_cells e)) (\<lambda>e4.
     Inr (en_uniqueID e, (if en_head e4 = en_tail e4 then e4\<lparr>en_head := Some (Suc (en_fresh e))\<rparr> else e4)
       \<lparr>en_id2task := gm_put (en_uniqueID e) (en_fresh e) (en_id2task e4)\<rparr>))"
  by (simp add: SubmitTask_def new_link_def new_cells_def Let_def if_distrib [of en_id2task] cong: if_cong)

lemma SubmitTask_cells:
  assumes "engine_list e p xs t" and "task = en_fresh e" and "link = Suc (en_fresh e)"
  obtains e' where "SubmitTask e = Inr (en_uniqueID e, e')" "dll (en_links e') p (xs @ [link]) t"
    "\<And>x. ll_task (en_links e' x) = (if x = link then Some task else ll_task (en_links e x))"
    "\<And>k. en_tasks e' k = (if k = task then \<lparr>it_link = Some link, it_id = en_uniqueID e\<rparr> else en_tasks e k)"
    "en_fresh e' = Suc link" "en_id2task e' = gm_put (en_uniqueID e) task (en_id2task e)" "en_tail e' = Some t"
    "en_head e' = Some (hd (xs @ [link]))" "en_uniqueID e' = en_uniqueID e + 1"
proof -
  note l = engine_listD [OF assms(1)] and task_def = assms(2) and link_def = assms(3)
  define e3 where "e3 = new_cells e"
  note e3 = e3_def [unfolded new_cells_def task_def [symmetric] link_def [unfolded task_def [symmetric], symmetric]]
  have fresh: "link \<notin> set (xs @ [] @ [t])" "task \<notin> set (xs @ [t])" "link \<noteq> task" "p \<noteq> Some link"
    using l(5,6) by (fastforce simp: link_def task_def)+
  have "dll (en_links e3) p xs t = dll (en_links e) p xs t" by (rule dll_cong) (use fresh(1) in \<open>auto simp: e3\<close>)
  with l(3) have d3: "dll (en_links e3) p (xs @ []) t" by simp
  obtain e4 where e4: "InsertBefore (Some t) (Some link) e3 = Inr e4" "e4 = e3\<lparr>en_links := en_links e4\<rparr>"
    and links: "\<And>x. ll_prev (en_links e4 x) = (if x = link then ll_prev (en_links e3 t) else if x = t then Some link else ll_prev (en_links e3 x))"
      "\<And>x. ll_next (en_links e4 x) = (if x = link then Some t else if ll_prev (en_links e3 t) = Some x then Some link else ll_next (en_links e3 x))"
      "\<And>x. ll_task (en_links e4 x) = ll_task (en_links e3 x)"
    using InsertBefore_ok [of t link e3] by blast
  have d4: "dll (en_links e4) p (xs @ [link]) t"
    by (rule dll_insert [OF d3, of link "en_links e4"]) (use l(4,5) fresh(1) links in auto)
  define e' where "e' = e4\<lparr>en_head := Some (hd (xs @ [link])), en_id2task := gm_put (en_uniqueID e) task (en_id2task e)\<rparr>"
  have same: "en_tail e4 = Some t" "en_head e4 = Some (hd (xs @ [t]))" "en_tasks e4 = en_tasks e3" "en_fresh e4 = en_fresh e3"
    "en_id2task e4 = en_id2task e" "en_uniqueID e4 = en_uniqueID e + 1"
    by (subst e4(2), simp add: e3 l(1,2))+
  have "hd (xs @ [t]) = t \<longleftrightarrow> xs = []" using l(4) by (cases xs) auto
  then have sub: "SubmitTask e = Inr (en_uniqueID e, e')"
    using e4(1) same by (cases xs) (simp_all add: SubmitTask_eq l(1) e3_def [symmetric] task_def link_def e'_def)
  have tasks: "ll_task (en_links e' x) = (if x = link then Some task else ll_task (en_links e x))"
    "en_tasks e' k = (if k = task then \<lparr>it_link = Some link, it_id = en_uniqueID e\<rparr> else en_tasks e k)" for x k
    by (simp_all add: e'_def links same e3)
  have parts: "en_fresh e' = Suc link" "en_id2task e' = gm_put (en_uniqueID e) task (en_id2task e)" "en_tail e' = Some t"
    "en_head e' = Some (hd (xs @ [link]))" "en_uniqueID e' = en_uniqueID e + 1"
    using same by (simp_all add: e'_def e3)
  have d: "dll (en_links e') p (xs @ [link]) t" using d4 by (simp add: e'_def)
  show thesis by (rule that [OF sub d tasks parts])
qed

lemma represents_Submit:
  assumes "represents e q" and new: "en_uniqueID e \<notin> set q"
  shows "\<exists>e'. SubmitTask e = Inr (en_uniqueID e, e') \<and> represents e' (q @ [en_uniqueID e]) \<and> en_uniqueID e' = en_uniqueID e + 1"
proof -
  obtain p xs t where xs: "engine_list e p xs t" and ids: "map (cell_id e) xs = map Some q"
    using assms(1) by (auto simp: represents_def)
  note l = engine_listD [OF xs]
  define task link where "task = en_fresh e" and "link = Suc (en_fresh e)"
  have fresh: "link \<notin> set (xs @ [] @ [t])" "task \<notin> set (xs @ [t])" "link \<noteq> task" "p \<noteq> Some link"
    using l(5,6) by (fastforce simp: link_def task_def)+
  obtain e' where sub: "SubmitTask e = Inr (en_uniqueID e, e')" and d4: "dll (en_links e') p (xs @ [link]) t"
    and tasks: "\<And>x. ll_task (en_links e' x) = (if x = link then Some task else ll_task (en_links e x))"
      "\<And>k. en_tasks e' k = (if k = task then \<lparr>it_link = Some link, it_id = en_uniqueID e\<rparr> else en_tasks e k)"
    and parts: "en_fresh e' = Suc link" "en_id2task e' = gm_put (en_uniqueID e) task (en_id2task e)" "en_tail e' = Some t"
      "en_head e' = Some (hd (xs @ [link]))" "en_uniqueID e' = en_uniqueID e + 1"
    using SubmitTask_cells [OF xs task_def link_def] by blast
  have old: "cell_id e' x = cell_id e x \<and> (\<exists>k < en_fresh e'. ll_task (en_links e' x) = Some k \<and> it_link (en_tasks e' k) = Some x \<and>
        gm_get (en_id2task e') (it_id (en_tasks e' k)) = Some k)" if x: "x \<in> set xs" for x
  proof -
    obtain k where k: "k < en_fresh e" "ll_task (en_links e x) = Some k" "it_link (en_tasks e k) = Some x"
      "gm_get (en_id2task e) (it_id (en_tasks e k)) = Some k" using l(7) [OF x] by blast
    have "cell_id e x \<in> set (map Some q)" using x ids by (metis image_eqI list.set_map)
    then have "it_id (en_tasks e k) \<noteq> en_uniqueID e" using new k(2) by (auto simp: cell_id_def)
    moreover have "x \<noteq> link" "k \<noteq> task" "k < Suc link" using k(1) x fresh(1) by (auto simp: task_def link_def)
    ultimately show ?thesis using k by (simp add: cell_id_def tasks parts(1,2))
  qed
  have "engine_list e' p (xs @ [link]) t"
    unfolding engine_list_def
  proof (intro conjI)
    show "en_tail e' = Some t" "en_head e' = Some (hd ((xs @ [link]) @ [t]))" "dll (en_links e') p (xs @ [link]) t"
      using d4 by (simp_all add: parts hd_append)
    show "distinct ((xs @ [link]) @ [t])" using l(4) fresh(1) by auto
    show "\<forall>q. p = Some q \<longrightarrow> q \<notin> set ((xs @ [link]) @ [t]) \<and> q < en_fresh e'"
      using l(5) fresh(4) by (auto simp: parts link_def less_SucI)
    show "\<forall>x \<in> set ((xs @ [link]) @ [t]). x < en_fresh e'" using l(6) by (auto simp: parts link_def less_SucI)
    show "\<forall>x \<in> set (xs @ [link]). \<exists>k < en_fresh e'. ll_task (en_links e' x) = Some k \<and> it_link (en_tasks e' k) = Some x \<and>
        gm_get (en_id2task e') (it_id (en_tasks e' k)) = Some k"
    proof
      fix x assume "x \<in> set (xs @ [link])"
      then consider "x \<in> set xs" | "x = link" by auto
      then show "\<exists>k < en_fresh e'. ll_task (en_links e' x) = Some k \<and> it_link (en_tasks e' k) = Some x \<and>
        gm_get (en_id2task e') (it_id (en_tasks e' k)) = Some k"
        by cases (use old in blast, simp add: tasks parts(1,2) task_def link_def)
    qed
  qed
  moreover have "map (cell_id e') (xs @ [link]) = map Some (q @ [en_uniqueID e])"
    using old ids by (auto simp: cell_id_def tasks cong: map_cong)
  ultimately show ?thesis using sub parts(5) unfolding represents_def by blast
qed

section \<open>Moves\<close>

lemma task_link_of:
  assumes "engine_list e p xs t" and "x \<in> set xs" and "cell_id e x = Some i"
  shows "task_link i e = Inr (Some x)"
  using engine_listD(7) [OF assms(1,2)] assms(3) by (auto simp: task_link_def cell_id_def)

text \<open>What a move does to the cells: the cell \<open>s\<close> leaves its place and goes in before \<open>d\<close>.\<close>

lemma AdjustTask_cells:
  assumes L: "engine_list e p (us @ s # vs) t" and d: "us @ vs = ys @ d # zs"
    and ids: "cell_id e s = Some i" "cell_id e d = Some j"
  obtains e' where "AdjustTask i j e = Inr e'" "e' = e\<lparr>en_links := en_links e'\<rparr>"
    "\<And>x. ll_task (en_links e' x) = ll_task (en_links e x)" "dll (en_links e') p (ys @ s # d # zs) t"
proof -
  note l = engine_listD [OF L]
  have sets: "set us \<union> set vs = set ys \<union> insert d (set zs)" using arg_cong [OF d, of set] by simp
  have "distinct ((us @ vs) @ [t])" "s \<notin> set ((us @ vs) @ [t])" using l(4) by auto
  then have dist: "distinct ((ys @ d # zs) @ [t])" "s \<notin> set ((ys @ d # zs) @ [t])" unfolding d .
  have "d \<in> set (us @ s # vs)" using sets by auto
  then have links: "task_link i e = Inr (Some s)" "task_link j e = Inr (Some d)"
    using task_link_of [OF L] ids by auto
  obtain e1 where e1: "CutOut (Some s) e = Inr e1" "e1 = e\<lparr>en_links := en_links e1\<rparr>"
    "\<And>x. ll_prev (en_links e1 x) = (if ll_next (en_links e s) = Some x then ll_prev (en_links e s) else ll_prev (en_links e x))"
    "\<And>x. ll_next (en_links e1 x) = (if ll_prev (en_links e s) = Some x then ll_next (en_links e s) else ll_next (en_links e x))"
    "\<And>x. ll_task (en_links e1 x) = ll_task (en_links e x)"
    using CutOut_ok [of s e] by blast
  have d1: "dll (en_links e1) p (ys @ d # zs) t" unfolding d [symmetric]
    by (rule dll_cut [OF l(3) _ _ e1(3,4)]) (use l(4,5) in auto)
  obtain e2 where e2: "InsertBefore (Some d) (Some s) e1 = Inr e2" "e2 = e1\<lparr>en_links := en_links e2\<rparr>"
    "\<And>x. ll_prev (en_links e2 x) = (if x = s then ll_prev (en_links e1 d) else if x = d then Some s else ll_prev (en_links e1 x))"
    "\<And>x. ll_next (en_links e2 x) = (if x = s then Some d else if ll_prev (en_links e1 d) = Some x then Some s else ll_next (en_links e1 x))"
    "\<And>x. ll_task (en_links e2 x) = ll_task (en_links e1 x)"
    using InsertBefore_ok [of d s e1] by blast
  have d2: "dll (en_links e2) p (ys @ s # d # zs) t"
  proof (rule dll_insert [OF d1])
    show "distinct (ys @ (d # zs) @ [t])" "s \<notin> set (ys @ (d # zs) @ [t])" using dist by auto
    show "\<forall>q. p = Some q \<longrightarrow> q \<notin> set (ys @ (d # zs) @ [t])"
      using l(5) sets by fastforce
  qed (simp_all add: e2(3,4))
  have "AdjustTask i j e = Inr e2" by (simp add: AdjustTask_def links e1(1) e2(1))
  moreover have "e2 = e\<lparr>en_links := en_links e2\<rparr>"
    by (subst e2(2), subst e1(2)) simp
  ultimately show thesis using that e1(5) e2(5) d2 by auto
qed

text \<open>An engine with other links and the same tasks.\<close>

lemma engine_list_relinked:
  assumes L: "engine_list e p xs t" and e': "e' = e\<lparr>en_links := en_links e'\<rparr>"
    and tasks: "\<And>x. ll_task (en_links e' x) = ll_task (en_links e x)"
    and d: "dll (en_links e') p' xs' t" and hd: "hd (xs' @ [t]) = hd (xs @ [t])"
    and xs': "set xs' \<subseteq> set xs" "distinct xs'" and p': "\<And>q. p' = Some q \<Longrightarrow> q \<notin> set (xs' @ [t]) \<and> q < en_fresh e"
  shows "engine_list e' p' xs' t" and "cell_id e' x = cell_id e x"
proof -
  note l = engine_listD [OF L]
  have same: "en_tail e' = en_tail e" "en_head e' = en_head e" "en_tasks e' = en_tasks e" "en_fresh e' = en_fresh e"
    "en_id2task e' = en_id2task e" by (subst e', simp)+
  show "engine_list e' p' xs' t" unfolding engine_list_def
    using l(1,2,4,6,7) d hd xs' p' by (auto simp: same tasks)
  show "cell_id e' x = cell_id e x" by (simp add: cell_id_def same tasks)
qed

lemma map_eq_split:
  assumes "map f xs = ys @ y # zs"
  obtains us u vs where "xs = us @ u # vs" "map f us = ys" "f u = y" "map f vs = zs"
proof -
  from assms obtain us ws where "xs = us @ ws" "map f us = ys" "map f ws = y # zs" by (metis append_eq_map_conv)
  moreover from this(3) obtain u vs where "ws = u # vs" "f u = y" "map f vs = zs" by (auto simp: map_eq_Cons_conv)
  ultimately show thesis using that by blast
qed

section \<open>Properties\<close>

primrec submit_many :: "nat \<Rightarrow> engine \<Rightarrow> (32 word list \<times> engine) go" where
  "submit_many 0 e = Inr ([], e)"
| "submit_many (Suc n) e = go_bind (SubmitTask e) (\<lambda>(i, e1). go_bind (submit_many n e1) (\<lambda>(is, e2). Inr (i # is, e2)))"

lemma of_nat_word_inj: "a < 2 ^ 32 \<Longrightarrow> b < 2 ^ 32 \<Longrightarrow> (of_nat a :: 32 word) = of_nat b \<Longrightarrow> a = b"
  by (simp add: word_of_nat_eq_iff take_bit_eq_mod)

lemma represents_submit_many:
  "represents e (map of_nat [0..<k]) \<Longrightarrow> en_uniqueID e = of_nat k \<Longrightarrow> k + n \<le> 2 ^ 32 \<Longrightarrow>
   \<exists>e'. submit_many n e = Inr (map of_nat [k..<k + n], e') \<and> represents e' (map of_nat [0..<k + n])"
proof (induction n arbitrary: e k)
  case (Suc n)
  have "en_uniqueID e \<notin> set (map of_nat [0..<k])"
  proof
    assume "en_uniqueID e \<in> set (map of_nat [0..<k])"
    then obtain m where m: "m < k" "en_uniqueID e = of_nat m" by auto
    have "k = m" by (rule of_nat_word_inj) (use m Suc.prems in auto)
    with m(1) show False by simp
  qed
  from represents_Submit [OF Suc.prems(1) this] obtain e1 where e1: "SubmitTask e = Inr (of_nat k, e1)"
    "represents e1 (map of_nat [0..<k] @ [of_nat k])" "en_uniqueID e1 = of_nat (Suc k)"
    by (auto simp: Suc.prems(2) add.commute)
  then have "represents e1 (map of_nat [0..<Suc k])" by simp
  from Suc.IH [OF this e1(3)] Suc.prems(3) obtain e2 where "submit_many n e1 = Inr (map of_nat [Suc k..<Suc k + n], e2)"
    "represents e2 (map of_nat [0..<Suc k + n])" by auto
  moreover have "[k..<k + Suc n] = k # [Suc k..<Suc k + n]" by (simp add: upt_conv_Cons del: upt_Suc)
  ultimately show ?case using e1(1) by (simp del: upt_Suc)
qed simp

text \<open>Claim C6. The engine runs what is submitted, in order, and its run ends: after up to four billion (two to the 32nd) submissions
  to a fresh engine, numbered from zero, \<open>Run\<close> returns, having started exactly these tasks in the
  order of submission, and nothing waits.\<close>

theorem engine_runs_submitted:
  assumes "n \<le> 2 ^ 32"
  shows "\<exists>e1 e2. submit_many n (engine_Init e) = Inr (map of_nat [0..<n], e1) \<and>
    engine_Run e1 = Some (Inr (map (Some \<circ> of_nat) [0..<n], e2)) \<and> represents e2 []"
proof -
  have "represents (engine_Init e) (map of_nat [0..<0])" "en_uniqueID (engine_Init e) = of_nat 0"
    using represents_Init by simp_all
  from represents_submit_many [OF this, of n] assms obtain e1 where e1: "submit_many n (engine_Init e) = Inr (map of_nat [0..<n], e1)"
    "represents e1 (map of_nat [0..<n])" by auto
  from represents_Run [OF e1(2)] e1(1) show ?thesis by auto
qed

text \<open>A move among the tasks behind the head does what it says: the task leaves its place and
  stands right before the other, which may be anywhere behind the head; the rest keeps its order.
  A move that names an unknown task panics.\<close>

theorem interior_move:
  assumes "represents e (a # us @ i # vs)" and "us @ vs = ys @ j # zs"
  shows "(\<exists>e'. AdjustTask i j e = Inr e' \<and> represents e' (a # ys @ i # j # zs)) \<and>
    (gm_get (en_id2task e) k = None \<longrightarrow> AdjustTask k j e = Inl NilDereference \<and> AdjustTask i k e = Inl NilDereference)"
proof -
  obtain p xs t where L: "engine_list e p xs t" and ids: "map (cell_id e) xs = (Some a # map Some us) @ Some i # map Some vs"
    using assms(1) by (auto simp: represents_def)
  obtain us0 s vs0 where xs: "xs = us0 @ s # vs0" "map (cell_id e) us0 = Some a # map Some us" "cell_id e s = Some i"
    "map (cell_id e) vs0 = map Some vs" by (rule map_eq_split [OF ids])
  obtain b us1 where us0: "us0 = b # us1" "cell_id e b = Some a" "map (cell_id e) us1 = map Some us" using xs(2) by (cases us0) auto
  have "map (cell_id e) (us1 @ vs0) = map Some ys @ Some j # map Some zs"
    using xs(4) us0(3) arg_cong [OF assms(2), of "map Some"] by simp
  then obtain ys1 d zs1 where d: "us1 @ vs0 = ys1 @ d # zs1" "map (cell_id e) ys1 = map Some ys"
    "cell_id e d = Some j" "map (cell_id e) zs1 = map Some zs" by (rule map_eq_split)
  have L': "engine_list e p (us0 @ s # vs0) t" using L xs(1) by simp
  have "us0 @ vs0 = (b # ys1) @ d # zs1" using d(1) us0(1) by simp
  from AdjustTask_cells [OF L' this xs(3) d(3)] obtain e' where e': "AdjustTask i j e = Inr e'" "e' = e\<lparr>en_links := en_links e'\<rparr>"
    "\<And>x. ll_task (en_links e' x) = ll_task (en_links e x)" "dll (en_links e') p ((b # ys1) @ s # d # zs1) t" by blast
  have set: "set us1 \<union> set vs0 = set ys1 \<union> insert d (set zs1)" using arg_cong [OF d(1), of set] by simp
  have "distinct (us1 @ vs0)" "b \<notin> set (us1 @ vs0)" "s \<notin> set (us1 @ vs0)" "b \<noteq> s"
    using engine_listD(4) [OF L'] by (auto simp: us0(1))
  then have dist: "distinct ((b # ys1) @ s # d # zs1)" unfolding d(1) by auto
  have sub: "set ((b # ys1) @ s # d # zs1) \<subseteq> set (us0 @ s # vs0)" using set by (auto simp: us0(1))
  have pq: "q \<notin> set (((b # ys1) @ s # d # zs1) @ [t]) \<and> q < en_fresh e" if "p = Some q" for q
    using engine_listD(5) [OF L' that] sub by auto
  note r = engine_list_relinked [OF L' e'(2,3,4) _ sub dist pq]
  have "engine_list e' p ((b # ys1) @ s # d # zs1) t" by (rule r(1)) (simp add: us0(1))
  moreover have "cell_id e' = cell_id e" by (rule ext, rule r(2)) (simp add: us0(1))
  then have "map (cell_id e') ((b # ys1) @ s # d # zs1) = map Some (a # ys @ i # j # zs)"
    using us0(2) d(2-4) xs(3) by simp
  ultimately have "represents e' (a # ys @ i # j # zs)" unfolding represents_def by blast
  moreover have "task_link i e = Inr (Some s)" using task_link_of [OF L', of s] xs(3) by simp
  ultimately show ?thesis using e'(1) by (auto simp: AdjustTask_def task_link_def)
qed

text \<open>The cells of an engine whose waiting tasks have a known first one and a known other one.\<close>

lemma represents_split:
  assumes "represents e (a # us @ i # vs)"
  obtains p b us1 s vs1 t where "engine_list e p (b # us1 @ s # vs1) t" "cell_id e b = Some a" "cell_id e s = Some i"
    "map (cell_id e) us1 = map Some us" "map (cell_id e) vs1 = map Some vs"
proof -
  obtain p xs t where L: "engine_list e p xs t" and ids: "map (cell_id e) xs = (Some a # map Some us) @ Some i # map Some vs"
    using assms by (auto simp: represents_def)
  obtain us0 s vs0 where xs: "xs = us0 @ s # vs0" "map (cell_id e) us0 = Some a # map Some us" "cell_id e s = Some i"
    "map (cell_id e) vs0 = map Some vs" by (rule map_eq_split [OF ids])
  obtain b us1 where "us0 = b # us1" "cell_id e b = Some a" "map (cell_id e) us1 = map Some us" using xs(2) by (cases us0) auto
  with that L xs show thesis by simp
qed

lemma move_before_head:
  assumes "represents e (a # us @ i # vs)"
  shows "\<exists>e'. AdjustTask i a e = Inr e' \<and> represents e' (a # us @ vs)"
proof -
  from represents_split [OF assms] obtain p b us1 s vs1 t where L: "engine_list e p ((b # us1) @ s # vs1) t"
    and c: "cell_id e b = Some a" "cell_id e s = Some i" "map (cell_id e) us1 = map Some us" "map (cell_id e) vs1 = map Some vs"
    by (metis append_Cons)
  note l = engine_listD [OF L]
  obtain e' where e': "AdjustTask i a e = Inr e'" "e' = e\<lparr>en_links := en_links e'\<rparr>"
    "\<And>x. ll_task (en_links e' x) = ll_task (en_links e x)" "dll (en_links e') p ([] @ s # b # us1 @ vs1) t"
    by (rule AdjustTask_cells [OF L _ c(2,1), of "[]" "us1 @ vs1"]) auto
  have d: "dll (en_links e') (Some s) (b # us1 @ vs1) t" using e'(4) by simp
  have "s \<notin> set ((b # us1 @ vs1) @ [t]) \<and> s < en_fresh e" using l(4,6) by auto
  then have pq: "q \<notin> set ((b # us1 @ vs1) @ [t]) \<and> q < en_fresh e" if "Some s = Some q" for q using that by simp
  have dist: "distinct (b # us1 @ vs1)" using l(4) by auto
  note r = engine_list_relinked [OF L e'(2,3) d _ _ dist pq]
  have "engine_list e' (Some s) (b # us1 @ vs1) t" by (rule r(1)) auto
  moreover have "cell_id e' = cell_id e" by (rule ext, rule r(2)) auto
  then have "map (cell_id e') (b # us1 @ vs1) = map Some (a # us @ vs)" using c by simp
  ultimately show ?thesis using e'(1) unfolding represents_def by blast
qed

lemma move_head:
  assumes "represents e (a # us @ i # vs)"
  shows "\<exists>e'. AdjustTask a i e = Inr e' \<and> represents e' (a # i # vs)"
proof -
  from represents_split [OF assms] obtain p b us1 s vs1 t where L: "engine_list e p ([] @ b # us1 @ s # vs1) t"
    and c: "cell_id e b = Some a" "cell_id e s = Some i" "map (cell_id e) vs1 = map Some vs" by (metis append_Nil)
  note l = engine_listD [OF L]
  obtain e' where e': "AdjustTask a i e = Inr e'" "e' = e\<lparr>en_links := en_links e'\<rparr>"
    "\<And>x. ll_task (en_links e' x) = ll_task (en_links e x)" "dll (en_links e') p (us1 @ b # s # vs1) t"
    by (rule AdjustTask_cells [OF L _ c(1,2), of us1 vs1]) auto
  define p' where "p' = (if us1 = [] then p else Some (last us1))"
  have d: "dll (en_links e') p' (b # s # vs1) t" using e'(4) by (simp add: dll_split p'_def)
  have pq: "q \<notin> set ((b # s # vs1) @ [t]) \<and> q < en_fresh e" if "p' = Some q" for q
  proof (cases "us1 = []")
    case True then show ?thesis using that l(5) by (simp add: p'_def)
  next
    case False
    then have "q \<in> set us1" using that last_in_set [OF False] by (simp add: p'_def)
    then show ?thesis using l(4,6) by auto
  qed
  have dist: "distinct (b # s # vs1)" using l(4) by auto
  note r = engine_list_relinked [OF L e'(2,3) d _ _ dist pq]
  have "engine_list e' p' (b # s # vs1) t" by (rule r(1)) auto
  moreover have "cell_id e' = cell_id e" by (rule ext, rule r(2)) auto
  then have "map (cell_id e') (b # s # vs1) = map Some (a # i # vs)" using c by simp
  ultimately show ?thesis using e'(1) unfolding represents_def by blast
qed

text \<open>A cell that points to itself makes the loop run for ever.\<close>

lemma run_loop_self:
  assumes "ll_next (links s) = Some s" and "tail \<noteq> Some s"
  shows "run_loop links tasks (Some s) tail = None"
proof (cases "run_loop links tasks (Some s) tail")
  case (Some r)
  have "links = links \<longrightarrow> Some s = Some s \<longrightarrow> tail = tail \<longrightarrow> False"
  proof (rule run_loop.raw_induct [where P = "\<lambda>l ts h t r. l = links \<longrightarrow> h = Some s \<longrightarrow> t = tail \<longrightarrow> False", OF _ Some])
    fix f l ts h t r
    assume IH: "\<And>l ts h t r. f l ts h t = Some r \<Longrightarrow> l = links \<longrightarrow> h = Some s \<longrightarrow> t = tail \<longrightarrow> False"
      and step: "(if h = t then Some (Inr []) else case h of None \<Rightarrow> Some (Inl NilDereference)
        | Some a \<Rightarrow> Option.bind (f l ts (ll_next (l a)) t) (\<lambda>r. Some (go_bind r (\<lambda>us. Inr (map_option (\<lambda>t. it_id (ts t)) (ll_task (l a)) # us))))) = Some r"
    show "l = links \<longrightarrow> h = Some s \<longrightarrow> t = tail \<longrightarrow> False"
    proof (intro impI)
      assume eq: "l = links" "h = Some s" "t = tail"
      then obtain r' where "f links ts (Some s) tail = Some r'"
        using step assms by (cases "f links ts (Some s) tail") auto
      from IH [OF this] show False by simp
    qed
  qed
  then show ?thesis by simp
qed

lemma run_loop_prefix:
  "dll l p xs s \<Longrightarrow> t \<notin> set xs \<Longrightarrow> run_loop l tasks (Some s) (Some t) = None \<Longrightarrow>
   run_loop l tasks (Some (hd (xs @ [s]))) (Some t) = None"
proof (induction xs arbitrary: p)
  case (Cons x xs)
  have "run_loop l tasks (Some (hd (xs @ [s]))) (Some t) = None" by (rule Cons.IH) (use Cons.prems in auto)
  with Cons.prems show ?case by (auto simp: run_loop_step)
qed simp

lemma move_before_itself:
  assumes "represents e q" and "i \<in> set q"
  shows "\<exists>e'. AdjustTask i i e = Inr e' \<and> engine_Run e' = None"
proof -
  obtain q1 q2 where q: "q = q1 @ i # q2" using assms(2) by (auto simp: in_set_conv_decomp)
  obtain p xs t where L0: "engine_list e p xs t" and ids: "map (cell_id e) xs = map Some q1 @ Some i # map Some q2"
    using assms(1) by (auto simp: represents_def q)
  obtain us s vs where xs: "xs = us @ s # vs" and s: "cell_id e s = Some i" by (rule map_eq_split [OF ids])
  have L: "engine_list e p (us @ s # vs) t" using L0 xs by simp
  note l = engine_listD [OF L]
  have link: "task_link i e = Inr (Some s)" using task_link_of [OF L _ s] by simp
  have us: "dll (en_links e) p us s" "ll_next (en_links e s) = Some (hd (vs @ [t]))" using l(3) unfolding dll_split by simp_all
  obtain e1 where e1: "CutOut (Some s) e = Inr e1" "e1 = e\<lparr>en_links := en_links e1\<rparr>"
    "\<And>x. ll_prev (en_links e1 x) = (if ll_next (en_links e s) = Some x then ll_prev (en_links e s) else ll_prev (en_links e x))"
    "\<And>x. ll_next (en_links e1 x) = (if ll_prev (en_links e s) = Some x then ll_next (en_links e s) else ll_next (en_links e x))"
    "\<And>x. ll_task (en_links e1 x) = ll_task (en_links e x)"
    using CutOut_ok [of s e] by blast
  obtain e2 where e2: "InsertBefore (Some s) (Some s) e1 = Inr e2" "e2 = e1\<lparr>en_links := en_links e2\<rparr>"
    "\<And>x. ll_prev (en_links e2 x) = (if x = s then ll_prev (en_links e1 s) else if x = s then Some s else ll_prev (en_links e1 x))"
    "\<And>x. ll_next (en_links e2 x) = (if x = s then Some s else if ll_prev (en_links e1 s) = Some x then Some s else ll_next (en_links e1 x))"
    "\<And>x. ll_task (en_links e2 x) = ll_task (en_links e1 x)"
    using InsertBefore_ok [of s s e1] by blast
  have prev: "ll_prev (en_links e s) = (if us = [] then p else Some (last us))" by (rule dll_end [OF us(1)])
  have h: "hd (vs @ [t]) \<notin> set us" "hd (vs @ [t]) \<noteq> s" "s \<notin> set us" using l(4) by (cases vs; auto)+
  have last: "last us \<notin> set (butlast us)" if "us \<noteq> []" using that l(4) by (cases us rule: rev_cases) auto
  have "dll (en_links e2) p us s"
    by (rule dll_retarget [OF us(1)])
      (use h prev last l(5) us(2) in \<open>auto simp: e1(3,4) e2(3,4) dest: in_set_butlastD\<close>)
  moreover have same: "en_tail e2 = Some t" "en_head e2 = Some (hd (us @ [s]))"
    by (subst e2(2), subst e1(2), use l(1,2) in \<open>simp add: hd_append\<close>)+
  moreover have "t \<notin> set us" "t \<noteq> s" using l(4) by auto
  ultimately have "run_loop (en_links e2) (en_tasks e2) (en_head e2) (en_tail e2) = None"
    using run_loop_prefix run_loop_self [of "en_links e2" s "Some t"] e2(4) by simp
  then have "engine_Run e2 = None" by (simp add: engine_Run_def)
  then show ?thesis by (simp add: AdjustTask_def link e1(1) e2(1))
qed

text \<open>Other moves go wrong, because \<open>AdjustTask\<close> leaves the head pointer alone.  A task moved
  before the first one never runs; a first task moved before another takes the head with it, and
  all tasks in between never run; and after a task has been moved before itself, \<open>Run\<close> never
  returns.\<close>

theorem moves_that_go_wrong:
  assumes "represents e (a # us @ i # vs)"
  shows "(\<exists>e'. AdjustTask i a e = Inr e' \<and> represents e' (a # us @ vs)) \<and>
    (\<exists>e'. AdjustTask a i e = Inr e' \<and> represents e' (a # i # vs)) \<and>
    (\<exists>e'. AdjustTask i i e = Inr e' \<and> engine_Run e' = None)"
  using move_before_head [OF assms] move_head [OF assms] move_before_itself [OF assms, of i] by simp

section \<open>Witnesses\<close>

definition blank_engine :: engine where
  "blank_engine = \<lparr>en_head = None, en_tail = None, en_uniqueID = 0, en_id2task = [],
     en_links = \<lambda>_. \<lparr>ll_prev = None, ll_next = None, ll_task = None\<rparr>, en_tasks = \<lambda>_. \<lparr>it_link = None, it_id = 0\<rparr>, en_fresh = 0\<rparr>"

lemma sample_engine: "\<exists>e. submit_many 3 (engine_Init blank_engine) = Inr ([0, 1, 2], e) \<and> represents e (0 # [1] @ 2 # [])"
proof -
  have "represents (engine_Init blank_engine) (map of_nat [0..<0])" "en_uniqueID (engine_Init blank_engine) = of_nat 0"
    using represents_Init by simp_all
  from represents_submit_many [OF this, of 3] show ?thesis by (simp add: upt_rec)
qed

lemma engine_runs_submitted_witness:
  "\<exists>e1 e2. submit_many 2 (engine_Init blank_engine) = Inr ([0, 1], e1) \<and> engine_Run e1 = Some (Inr ([Some 0, Some 1], e2))"
  using engine_runs_submitted [of 2 blank_engine] by (auto simp: upt_rec)

lemma interior_move_witness:
  "\<exists>e e'. submit_many 3 (engine_Init blank_engine) = Inr ([0, 1, 2], e) \<and> AdjustTask 2 1 e = Inr e' \<and> represents e' [0, 2, 1]"
proof -
  obtain e where e: "submit_many 3 (engine_Init blank_engine) = Inr ([0, 1, 2], e)" "represents e (0 # [1] @ 2 # [])"
    using sample_engine by blast
  with interior_move [of e 0 "[1]" 2 "[]" "[]" 1 "[]"] show ?thesis by auto
qed

lemma moves_that_go_wrong_witness:
  "\<exists>e e'. submit_many 3 (engine_Init blank_engine) = Inr ([0, 1, 2], e) \<and> AdjustTask 2 0 e = Inr e' \<and> represents e' [0, 1]"
proof -
  obtain e where e: "submit_many 3 (engine_Init blank_engine) = Inr ([0, 1, 2], e)" "represents e (0 # [1] @ 2 # [])"
    using sample_engine by blast
  with moves_that_go_wrong [OF e(2)] show ?thesis by auto
qed

end
