(* ===== verification/Image_Builds.thy ===== *)
theory Image_Builds imports Data_Model begin

text \<open>
  Image builds: the tables of \<open>dao/model/image.go\<close>, the reconciler of
  \<open>pkg/reconciler/build-reconciler.go\<close> that follows the build jobs of the cluster in them, and the
  handlers of \<open>internal/handler/image/buildmgr.go\<close> that cancel and delete builds.  The column
  \<open>ImagePackName\<close> is unique in both tables, and a soft-deleted row keeps its value, so the world
  holds the names ever used beside the rows.  The image registry is a list of links with an
  artifact; its answer to a size query, like every failure, is a parameter.
\<close>

section \<open>Data\<close>

abbreviation (input) BuildJobInitial :: string where "BuildJobInitial \<equiv> ''Initial''"
abbreviation (input) BuildJobPending :: string where "BuildJobPending \<equiv> ''Pending''"
abbreviation (input) BuildJobRunning :: string where "BuildJobRunning \<equiv> ''Running''"
abbreviation (input) BuildJobFinished :: string where "BuildJobFinished \<equiv> ''Finished''"
abbreviation (input) BuildJobFailed :: string where "BuildJobFailed \<equiv> ''Failed''"
abbreviation (input) BuildJobCanceled :: string where "BuildJobCanceled \<equiv> ''Canceled''"

datatype image_source = NoImageSource | ImageCreateType | ImageUploadType

text \<open>A nil slice of strings is \<open>None\<close>.\<close>

record kaniko =
  kn_id :: nat
  kn_createdAt :: time
  kn_userID :: nat
  kn_imagePackName :: string
  kn_imageLink :: string
  kn_nameSpace :: string
  kn_status :: string
  kn_description :: "string option"
  kn_size :: int
  kn_dockerfile :: "string option"
  kn_buildSource :: string
  kn_tags :: "string list option"
  kn_template :: string
  kn_archs :: "string list option"

record image =
  im_id :: nat
  im_createdAt :: time
  im_userID :: nat
  im_imageLink :: string
  im_imagePackName :: "string option"
  im_description :: "string option"
  im_isPublic :: bool
  im_taskType :: string
  im_imageSource :: image_source
  im_size :: int
  im_tags :: "string list option"
  im_archs :: "string list option"

record cuda_base_image =
  cb_id :: nat
  cb_label :: string
  cb_imageLabel :: string
  cb_value :: string

text \<open>What the reconciler reads of a \<open>batch/v1\<close> job and of its pods.\<close>

record batch_job =
  bj_name :: string
  bj_namespace :: string
  bj_annotations :: "(string, string) gomap"
  bj_active :: int
  bj_succeeded :: int
  bj_failed :: int
  bj_terminating :: "int option"

record build_pod =
  bp_namespace :: string
  bp_jobName :: string
  bp_phase :: string

record image_world =
  iw_kanikos :: "kaniko table"
  iw_kanikoNames :: "string list"
  iw_images :: "image table"
  iw_imageNames :: "string list"
  iw_users :: "user table"
  iw_jobs :: "batch_job list"
  iw_pods :: "build_pod list"
  iw_registry :: "string list"

definition find_build_job :: "string \<Rightarrow> string \<Rightarrow> image_world \<Rightarrow> batch_job option" where
  "find_build_job ns n w = find (\<lambda>j. bj_name j = n \<and> bj_namespace j = ns) (iw_jobs w)"

definition kaniko_named :: "string \<Rightarrow> image_world \<Rightarrow> kaniko option" where
  "kaniko_named n w = tbl_first (\<lambda>k. kn_imagePackName k = n) (iw_kanikos w)"

definition image_of_pack :: "string \<Rightarrow> image_world \<Rightarrow> image option" where
  "image_of_pack n w = tbl_first (\<lambda>i. im_imagePackName i = Some n) (iw_images w)"

section \<open>The reconciler\<close>

record build_env =
  be_imageSpace :: string
  be_now :: time
  be_jobErr :: fault
  be_podErr :: fault
  be_kanikoErr :: fault
  be_userErr :: fault
  be_createErr :: fault
  be_sizeErr :: fault
  be_imageErr :: fault
  be_imageCreateErr :: fault
  be_statusErr :: fault
  be_registrySize :: "string \<Rightarrow> int result"
  be_strings :: "string \<Rightarrow> string list option"

text \<open>The result of a reconcile call: whether the job is queued again, and the error.\<close>

type_synonym reconcile_result = "bool \<times> fault"

definition getJobBuildStatus :: "build_env \<Rightarrow> batch_job \<Rightarrow> image_world \<Rightarrow> string" where
  "getJobBuildStatus e j w =
     (if bj_succeeded j = 1 then BuildJobFinished
      else if bj_failed j = 1 then BuildJobFailed
      else if (case bj_terminating j of None \<Rightarrow> False | Some n \<Rightarrow> 0 < n) then BuildJobCanceled
      else if 0 < bj_active j then
        (case be_podErr e of
           Some x \<Rightarrow> BuildJobPending
         | None \<Rightarrow>
             if \<exists>p \<in> set (iw_pods w). bp_namespace p = bj_namespace j \<and> bp_jobName p = bj_name j \<and> bp_phase p = ''Running''
             then BuildJobRunning else BuildJobPending)
      else BuildJobPending)"

definition updateKanikoStatus :: "build_env \<Rightarrow> kaniko \<Rightarrow> string \<Rightarrow> image_world \<Rightarrow> fault \<times> image_world" where
  "updateKanikoStatus e k st w =
     (case be_statusErr e of
        Some x \<Rightarrow> (Some x, w)
      | None \<Rightarrow> (None, w\<lparr>iw_kanikos := tbl_updates (\<lambda>r. kn_imagePackName r = kn_imagePackName k) (kn_status_update (\<lambda>_. st)) (iw_kanikos w)\<rparr>))"

definition updateKanikoSize :: "build_env \<Rightarrow> kaniko \<Rightarrow> int \<Rightarrow> image_world \<Rightarrow> fault \<times> image_world" where
  "updateKanikoSize e k sz w =
     (case be_sizeErr e of
        Some x \<Rightarrow> (Some x, w)
      | None \<Rightarrow> (None, w\<lparr>iw_kanikos := tbl_updates (\<lambda>r. kn_imagePackName r = kn_imagePackName k) (kn_size_update (\<lambda>_. sz)) (iw_kanikos w)\<rparr>))"

definition image_of_kaniko :: "build_env \<Rightarrow> kaniko \<Rightarrow> image_world \<Rightarrow> image" where
  "image_of_kaniko e k w =
     \<lparr>im_id = next_id (map im_id (iw_images w)), im_createdAt = be_now e, im_userID = kn_userID k, im_imageLink = kn_imageLink k,
      im_imagePackName = Some (kn_imagePackName k), im_description = kn_description k, im_isPublic = False,
      im_taskType = (if kn_buildSource k = ''Snapshot'' then ''jupyter'' else ''custom''),
      im_imageSource = ImageCreateType, im_size = kn_size k, im_tags = kn_tags k, im_archs = kn_archs k\<rparr>"

definition createImageRecord :: "build_env \<Rightarrow> kaniko \<Rightarrow> image_world \<Rightarrow> fault \<times> image_world" where
  "createImageRecord e k w =
     (case be_imageErr e of
        Some x \<Rightarrow> (Some x, w)
      | None \<Rightarrow> (case image_of_pack (kn_imagePackName k) w of
          Some i \<Rightarrow> (None, w)
        | None \<Rightarrow> (case be_imageCreateErr e of
            Some x \<Rightarrow> (Some x, w)
          | None \<Rightarrow>
              if kn_imagePackName k \<in> set (iw_imageNames w) then (Some ''duplicate key'', w)
              else (None, w\<lparr>iw_images := iw_images w @ [image_of_kaniko e k w],
                             iw_imageNames := kn_imagePackName k # iw_imageNames w\<rparr>))))"

definition handleJobNotFound :: "build_env \<Rightarrow> string \<Rightarrow> image_world \<Rightarrow> reconcile_result \<times> image_world" where
  "handleJobNotFound e n w =
     (case be_kanikoErr e of
        Some x \<Rightarrow> ((True, Some x), w)
      | None \<Rightarrow> (case kaniko_named n w of
          None \<Rightarrow> ((False, None), w)
        | Some k \<Rightarrow>
            if kn_status k \<in> {BuildJobFinished, BuildJobFailed, BuildJobCanceled} then ((False, None), w)
            else (case updateKanikoStatus e k BuildJobCanceled w of
                    (Some x, w1) \<Rightarrow> ((True, Some x), w1)
                  | (None, w1) \<Rightarrow> ((False, None), w1))))"

text \<open>A row for a job that has none, from the job's annotations; a failed creation is only logged.\<close>

definition annotation :: "batch_job \<Rightarrow> string \<Rightarrow> string" where
  "annotation j key = (case gm_get (bj_annotations j) key of None \<Rightarrow> [] | Some v \<Rightarrow> v)"

text \<open>The column of the source has a default, which the database stores for an empty value.\<close>

definition stored_source :: "string \<Rightarrow> string" where
  "stored_source src = (if src = [] then ''buildkit'' else src)"

definition kaniko_of_job :: "build_env \<Rightarrow> batch_job \<Rightarrow> image_world \<Rightarrow> kaniko" where
  "kaniko_of_job e j w =
     \<lparr>kn_id = next_id (map kn_id (iw_kanikos w)), kn_createdAt = be_now e,
      kn_userID = uint_of_int (atoi_value (annotation j ''build-data/UserID'')), kn_imagePackName = bj_name j,
      kn_imageLink = annotation j ''build-data/ImageLink'', kn_nameSpace = bj_namespace j, kn_status = BuildJobInitial,
      kn_description = Some (annotation j ''build-data/Description''), kn_size = 0,
      kn_dockerfile = Some (annotation j ''build-data/Script''), kn_buildSource = stored_source (annotation j ''build-data/Source''),
      kn_tags = be_strings e (annotation j ''build-data/Tags''), kn_template = annotation j ''build-data/Template'',
      kn_archs = be_strings e (annotation j ''build-data/Archs'')\<rparr>"

definition handleRecordNotFound :: "build_env \<Rightarrow> batch_job \<Rightarrow> image_world \<Rightarrow> reconcile_result \<times> image_world" where
  "handleRecordNotFound e j w =
     (let k = kaniko_of_job e j w
      in (case be_userErr e of
            Some x \<Rightarrow> ((False, Some x), w)
          | None \<Rightarrow> (case tbl_first (\<lambda>u. us_id u = kn_userID k) (iw_users w) of
              None \<Rightarrow> ((False, Some ''record not found''), w)
            | Some u \<Rightarrow>
                if be_createErr e = None \<and> bj_name j \<notin> set (iw_kanikoNames w)
                then ((False, None), w\<lparr>iw_kanikos := iw_kanikos w @ [k], iw_kanikoNames := bj_name j # iw_kanikoNames w\<rparr>)
                else ((False, None), w))))"

text \<open>A build that has just finished: the size is fetched and stored, then the image row is created.\<close>

definition finish_build :: "build_env \<Rightarrow> kaniko \<Rightarrow> image_world \<Rightarrow> fault \<times> image_world" where
  "finish_build e k w =
     (case be_registrySize e (kn_imageLink k) of
        Inl x \<Rightarrow> (Some x, w)
      | Inr sz \<Rightarrow> (case updateKanikoSize e k sz w of
          (Some x, w1) \<Rightarrow> (Some x, w1)
        | (None, w1) \<Rightarrow> createImageRecord e k w1))"

definition build_Reconcile :: "build_env \<Rightarrow> string \<Rightarrow> string \<Rightarrow> image_world \<Rightarrow> reconcile_result \<times> image_world" where
  "build_Reconcile e ns n w =
     (if ns \<noteq> be_imageSpace e then ((False, None), w)
      else (case be_jobErr e of
        Some x \<Rightarrow> ((True, Some x), w)
      | None \<Rightarrow> (case find_build_job ns n w of
          None \<Rightarrow> handleJobNotFound e n w
        | Some j \<Rightarrow> (case be_kanikoErr e of
            Some x \<Rightarrow> ((True, Some x), w)
          | None \<Rightarrow> (case kaniko_named n w of
              None \<Rightarrow> handleRecordNotFound e j w
            | Some k \<Rightarrow>
                let jobStatus = getJobBuildStatus e j w;
                    (err, w1) = (if jobStatus = BuildJobFinished \<and> kn_status k \<noteq> BuildJobFinished
                                 then finish_build e k w else (None, w))
                in (case err of
                      Some x \<Rightarrow> ((True, Some x), w1)
                    | None \<Rightarrow> (case updateKanikoStatus e k jobStatus w1 of
                        (Some x, w2) \<Rightarrow> ((True, Some x), w2)
                      | (None, w2) \<Rightarrow> ((False, None), w2))))))))"

section \<open>Cancelling and deleting builds\<close>

record remove_env =
  re_kanikoErr :: "nat \<Rightarrow> fault"
  re_againErr :: "nat \<Rightarrow> fault"
  re_jobErr :: "nat \<Rightarrow> fault"
  re_imageErr :: "nat \<Rightarrow> fault"
  re_deleteErr :: "nat \<Rightarrow> fault"
  re_registryErr :: "nat \<Rightarrow> fault"
  re_userNameSpace :: string

text \<open>The row of an identifier as the handlers see it: any row for an administrator, an own one for others.\<close>

definition own_kaniko :: "bool \<Rightarrow> nat \<Rightarrow> nat \<Rightarrow> image_world \<Rightarrow> kaniko option" where
  "own_kaniko isAdminMode i userID w =
     tbl_first (\<lambda>k. (isAdminMode \<or> kn_userID k = userID) \<and> kn_id k = i) (iw_kanikos w)"

definition DeleteJob :: "string \<Rightarrow> string \<Rightarrow> image_world \<Rightarrow> image_world" where
  "DeleteJob ns n w = w\<lparr>iw_jobs := filter (\<lambda>j. \<not> (bj_name j = n \<and> bj_namespace j = ns)) (iw_jobs w)\<rparr>"

definition deleteKanikoByID :: "remove_env \<Rightarrow> bool \<Rightarrow> nat \<Rightarrow> nat \<Rightarrow> image_world \<Rightarrow> bool \<times> image_world" where
  "deleteKanikoByID e isAdminMode i userID w =
     (case re_againErr e i of
        Some x \<Rightarrow> (False, w)
      | None \<Rightarrow> (case own_kaniko isAdminMode i userID w of
          None \<Rightarrow> (False, w)
        | Some k \<Rightarrow>
            let w1 = (if kn_status k = BuildJobFinished \<and> re_imageErr e i = None
                      then w\<lparr>iw_images := tbl_delete (\<lambda>m. im_imagePackName m = Some (kn_imagePackName k)) (iw_images w)\<rparr> else w)
            in (case re_deleteErr e i of
                  Some x \<Rightarrow> (False, w1)
                | None \<Rightarrow>
                    let w2 = w1\<lparr>iw_kanikos := tbl_delete (\<lambda>r. kn_id r = i) (iw_kanikos w1)\<rparr>
                    in (True, if kn_status k = BuildJobFinished \<and> re_registryErr e i = None
                              then w2\<lparr>iw_registry := filter (\<lambda>l. l \<noteq> kn_imageLink k) (iw_registry w2)\<rparr> else w2))))"

definition removeKanikoByID :: "remove_env \<Rightarrow> bool \<Rightarrow> nat \<Rightarrow> nat \<Rightarrow> image_world \<Rightarrow> bool \<times> image_world" where
  "removeKanikoByID e isAdminMode i userID w =
     (case re_kanikoErr e i of
        Some x \<Rightarrow> (False, w)
      | None \<Rightarrow> (case own_kaniko isAdminMode i userID w of
          None \<Rightarrow> (False, w)
        | Some k \<Rightarrow>
            if kn_status k \<in> {BuildJobFinished, BuildJobFailed, BuildJobCanceled} then deleteKanikoByID e isAdminMode i userID w
            else (True, if re_jobErr e i = None then DeleteJob (re_userNameSpace e) (kn_imagePackName k) w else w)))"

primrec removeKanikoByIDList :: "remove_env \<Rightarrow> bool \<Rightarrow> nat \<Rightarrow> nat list \<Rightarrow> image_world \<Rightarrow> bool \<times> image_world" where
  "removeKanikoByIDList e isAdminMode userID [] w = (True, w)"
| "removeKanikoByIDList e isAdminMode userID (i # is) w =
     (let (ok, w1) = removeKanikoByID e isAdminMode i userID w;
          (flag, w2) = removeKanikoByIDList e isAdminMode userID is w1
      in (ok \<and> flag, w2))"

definition UserRemoveKanikoByID :: "remove_env \<Rightarrow> nat \<Rightarrow> nat list option \<Rightarrow> image_world \<Rightarrow> string result \<times> image_world" where
  "UserRemoveKanikoByID e userID req w =
     (case req of
        None \<Rightarrow> (Inl ''validate remove parameters failed'', w)
      | Some ids \<Rightarrow> (case removeKanikoByIDList e False userID ids w of
          (True, w1) \<Rightarrow> (Inr [], w1)
        | (False, w1) \<Rightarrow> (Inl ''failed to remove kaniko'', w1)))"

definition AdminRemoveKanikoByIDList :: "remove_env \<Rightarrow> nat \<Rightarrow> nat list option \<Rightarrow> image_world \<Rightarrow> string result \<times> image_world" where
  "AdminRemoveKanikoByIDList e userID req w =
     (case req of
        None \<Rightarrow> (Inl ''validate remove parameters failed'', w)
      | Some ids \<Rightarrow> (case removeKanikoByIDList e True userID ids w of
          (True, w1) \<Rightarrow> (Inr [], w1)
        | (False, w1) \<Rightarrow> (Inr ''remove kaniko encountered some errors'', w1)))"

section \<open>What a call may change\<close>

text \<open>Both tables hold one row per build name, of the names ever used.\<close>

definition pack_names :: "image table \<Rightarrow> string list" where
  "pack_names t = concat (map (\<lambda>i. case im_imagePackName i of None \<Rightarrow> [] | Some n \<Rightarrow> [n]) t)"

definition builds_ok :: "image_world \<Rightarrow> bool" where
  "builds_ok w \<longleftrightarrow> distinct (map kn_imagePackName (iw_kanikos w)) \<and> kn_imagePackName ` set (iw_kanikos w) \<subseteq> set (iw_kanikoNames w) \<and>
     distinct (pack_names (iw_images w)) \<and> set (pack_names (iw_images w)) \<subseteq> set (iw_imageNames w) \<and>
     distinct (map kn_id (iw_kanikos w))"

text \<open>A build name that was used and has no row any more stays without one.\<close>

definition stays_gone :: "string \<Rightarrow> image_world \<Rightarrow> bool" where
  "stays_gone n w \<longleftrightarrow> n \<in> set (iw_kanikoNames w) \<and> kaniko_named n w = None"

lemma pack_names_simps [simp]:
  "pack_names [] = []"
  "pack_names (t @ u) = pack_names t @ pack_names u"
  "pack_names (i # t) = (case im_imagePackName i of None \<Rightarrow> [] | Some n \<Rightarrow> [n]) @ pack_names t"
  by (simp_all add: pack_names_def)

lemma pack_names_iff: "n \<in> set (pack_names t) \<longleftrightarrow> tbl_first (\<lambda>i. im_imagePackName i = Some n) t \<noteq> None"
  by (induction t) (auto simp: tbl_first_Cons split: option.splits)

lemma pack_names_filter_subset: "set (pack_names (filter P t)) \<subseteq> set (pack_names t)"
  by (induction t) auto

lemma pack_names_filter: "distinct (pack_names t) \<Longrightarrow> distinct (pack_names (filter P t))"
proof (induction t)
  case (Cons i t)
  with pack_names_filter_subset [of P t] show ?case by (auto split: option.splits)
qed simp

lemma map_row_updates: "(\<And>r. P r \<Longrightarrow> h (g r) = h r) \<Longrightarrow> map h (tbl_updates P g t) = map h t"
  by (simp add: tbl_updates_def)

lemma kaniko_named_None: "kaniko_named n w = None \<longleftrightarrow> n \<notin> set (map kn_imagePackName (iw_kanikos w))"
  by (auto simp: kaniko_named_def tbl_first_None)

text \<open>A step that keeps the keys of both tables keeps everything; the others add or delete one row.\<close>

definition same_keys :: "image_world \<Rightarrow> image_world \<Rightarrow> bool" where
  "same_keys w w' \<longleftrightarrow> map kn_imagePackName (iw_kanikos w') = map kn_imagePackName (iw_kanikos w) \<and>
     map kn_id (iw_kanikos w') = map kn_id (iw_kanikos w) \<and> iw_kanikoNames w' = iw_kanikoNames w"

lemma same_keys_trans: "same_keys w w1 \<Longrightarrow> same_keys w1 w2 \<Longrightarrow> same_keys w w2"
  by (simp add: same_keys_def)

lemma same_keys_updates:
  "same_keys w (snd (updateKanikoStatus e k st w))" "same_keys w (snd (updateKanikoSize e k sz w))"
  "same_keys w (snd (createImageRecord e k w))"
  by (auto simp: same_keys_def updateKanikoStatus_def updateKanikoSize_def createImageRecord_def map_row_updates split: option.splits)

lemma images_updates [simp]:
  "iw_images (snd (updateKanikoStatus e k st w)) = iw_images w" "iw_imageNames (snd (updateKanikoStatus e k st w)) = iw_imageNames w"
  "iw_images (snd (updateKanikoSize e k sz w)) = iw_images w" "iw_imageNames (snd (updateKanikoSize e k sz w)) = iw_imageNames w"
  by (auto simp: updateKanikoStatus_def updateKanikoSize_def split: option.splits)

definition images_ok :: "image_world \<Rightarrow> bool" where
  "images_ok w \<longleftrightarrow> distinct (pack_names (iw_images w)) \<and> set (pack_names (iw_images w)) \<subseteq> set (iw_imageNames w)"

lemma images_ok_create: "images_ok w \<Longrightarrow> images_ok (snd (createImageRecord e k w))"
  by (auto simp: images_ok_def createImageRecord_def image_of_kaniko_def split: option.splits)

lemma finish_build_keeps: "images_ok w \<Longrightarrow> images_ok (snd (finish_build e k w)) \<and> same_keys w (snd (finish_build e k w))"
proof (cases "be_registrySize e (kn_imageLink k)")
  case (Inr sz)
  assume ok: "images_ok w"
  obtain f w1 where u: "updateKanikoSize e k sz w = (f, w1)" by (cases "updateKanikoSize e k sz w")
  have w1: "images_ok w1" "same_keys w w1"
    using images_updates(3,4) [of e k sz w] same_keys_updates(2) [of w e k sz] ok by (auto simp: u images_ok_def)
  show ?thesis using w1 images_ok_create [OF w1(1), of e k] same_keys_updates(3) [of w1 e k]
    by (auto simp: finish_build_def Inr u intro: same_keys_trans split: option.split)
qed (simp add: finish_build_def same_keys_def)

lemma build_Reconcile_cases:
  "images_ok w \<Longrightarrow> images_ok (snd (build_Reconcile e ns n w)) \<and>
     (same_keys w (snd (build_Reconcile e ns n w)) \<or>
      (\<exists>k. kn_id k = next_id (map kn_id (iw_kanikos w)) \<and> kn_imagePackName k \<notin> set (iw_kanikoNames w) \<and>
         iw_kanikos (snd (build_Reconcile e ns n w)) = iw_kanikos w @ [k] \<and>
         iw_kanikoNames (snd (build_Reconcile e ns n w)) = kn_imagePackName k # iw_kanikoNames w))"
proof -
  assume ok: "images_ok w"
  have refl: "same_keys w w" by (simp add: same_keys_def)
  have gone: "images_ok (snd (handleJobNotFound e n w)) \<and> same_keys w (snd (handleJobNotFound e n w))"
    using ok refl by (auto simp: handleJobNotFound_def updateKanikoStatus_def images_ok_def same_keys_def map_row_updates split: option.splits)
  have new: "images_ok (snd (handleRecordNotFound e j w)) \<and> (same_keys w (snd (handleRecordNotFound e j w)) \<or>
      (\<exists>k. kn_id k = next_id (map kn_id (iw_kanikos w)) \<and> kn_imagePackName k \<notin> set (iw_kanikoNames w) \<and>
         iw_kanikos (snd (handleRecordNotFound e j w)) = iw_kanikos w @ [k] \<and>
         iw_kanikoNames (snd (handleRecordNotFound e j w)) = kn_imagePackName k # iw_kanikoNames w))" for j
    using ok refl by (auto simp: handleRecordNotFound_def Let_def images_ok_def kaniko_of_job_def split: option.splits)
  have status: "images_ok (snd (updateKanikoStatus e k st w1)) \<and> same_keys w (snd (updateKanikoStatus e k st w1))"
    if "images_ok w1" "same_keys w w1" for k st w1
    using that same_keys_trans [OF that(2) same_keys_updates(1)] by (simp add: images_ok_def)
  have main: "images_ok w1 \<and> same_keys w w1"
    if "(if b then finish_build e k w else (None, w)) = (f, w1)" for b k f w1
    using that ok refl finish_build_keeps [OF ok, of e k] by (cases b) auto
  have tail: "images_ok (snd (case f of Some x \<Rightarrow> ((True, Some x), w1)
        | None \<Rightarrow> (case updateKanikoStatus e k st w1 of (Some x, w2) \<Rightarrow> ((True, Some x), w2) | (None, w2) \<Rightarrow> ((False, None), w2)))) \<and>
      same_keys w (snd (case f of Some x \<Rightarrow> ((True, Some x), w1)
        | None \<Rightarrow> (case updateKanikoStatus e k st w1 of (Some x, w2) \<Rightarrow> ((True, Some x), w2) | (None, w2) \<Rightarrow> ((False, None), w2))))"
    if "images_ok w1" "same_keys w w1" for f w1 k st
    using that status [OF that, of k st] by (auto split: option.splits prod.splits)
  show ?thesis
  proof (cases "ns = be_imageSpace e \<and> be_jobErr e = None")
    case False
    with ok refl show ?thesis by (cases "ns = be_imageSpace e") (auto simp: build_Reconcile_def)
  next
    case True
    show ?thesis
    proof (cases "find_build_job ns n w")
      case None
      with True gone show ?thesis by (simp add: build_Reconcile_def)
    next
      case (Some j)
      show ?thesis
      proof (cases "be_kanikoErr e")
        case None
        show ?thesis
        proof (cases "kaniko_named n w")
          case None
          with True Some \<open>be_kanikoErr e = None\<close> new show ?thesis by (simp add: build_Reconcile_def)
        next
          case (Some k)
          let ?st = "getJobBuildStatus e j w"
          obtain f w1 where fw: "(if ?st = BuildJobFinished \<and> kn_status k \<noteq> BuildJobFinished
              then finish_build e k w else (None, w)) = (f, w1)" by (meson surj_pair)
          show ?thesis using tail [of w1 k ?st f] main [OF fw] True \<open>find_build_job ns n w = Some j\<close> \<open>be_kanikoErr e = None\<close> Some
            by (simp add: build_Reconcile_def Let_def fw)
        qed
      qed (use True Some ok refl in \<open>simp add: build_Reconcile_def\<close>)
    qed
  qed
qed


text \<open>A removal only deletes rows.\<close>

definition filtered :: "'r table \<Rightarrow> 'r table \<Rightarrow> bool" where
  "filtered t t' \<longleftrightarrow> (\<exists>P. t' = filter P t)"

lemma filtered_refl [simp]: "filtered t t"
  unfolding filtered_def by (rule exI [of _ "\<lambda>r. True"]) simp

lemma filtered_delete [simp]: "filtered t (tbl_delete P t)"
  by (auto simp: filtered_def tbl_delete_def)

lemma filtered_trans: "filtered t t1 \<Longrightarrow> filtered t1 t2 \<Longrightarrow> filtered t t2"
  by (auto simp: filtered_def)

definition fewer_rows :: "image_world \<Rightarrow> image_world \<Rightarrow> bool" where
  "fewer_rows w w' \<longleftrightarrow> filtered (iw_kanikos w) (iw_kanikos w') \<and> filtered (iw_images w) (iw_images w') \<and>
     iw_kanikoNames w' = iw_kanikoNames w \<and> iw_imageNames w' = iw_imageNames w"

lemma fewer_rows_refl [simp]: "fewer_rows w w"
  by (simp add: fewer_rows_def)

lemma fewer_rows_trans: "fewer_rows w w1 \<Longrightarrow> fewer_rows w1 w2 \<Longrightarrow> fewer_rows w w2"
  by (auto simp: fewer_rows_def intro: filtered_trans)

lemma fewer_rows_jobs [simp]: "fewer_rows w (DeleteJob ns n w)"
  by (simp add: fewer_rows_def DeleteJob_def)

lemma fewer_rows_intros:
  "fewer_rows w (w\<lparr>iw_images := tbl_delete P (iw_images w)\<rparr>)" "fewer_rows w (w\<lparr>iw_kanikos := tbl_delete Q (iw_kanikos w)\<rparr>)"
  "fewer_rows w (w\<lparr>iw_registry := ls\<rparr>)"
  by (simp_all add: fewer_rows_def)

lemma fewer_rows_if:
  "fewer_rows w w1 \<Longrightarrow> fewer_rows w (if b then w1 else w)"
  by simp

lemma fewer_rows_delete: "fewer_rows w (snd (deleteKanikoByID e adm i u w))"
proof (cases "re_againErr e i = None \<and> (\<exists>k. own_kaniko adm i u w = Some k)")
  case True
  then obtain k where k: "re_againErr e i = None" "own_kaniko adm i u w = Some k" by blast
  define w1 where "w1 = (if kn_status k = BuildJobFinished \<and> re_imageErr e i = None
                      then w\<lparr>iw_images := tbl_delete (\<lambda>m. im_imagePackName m = Some (kn_imagePackName k)) (iw_images w)\<rparr> else w)"
  define w2 where "w2 = w1\<lparr>iw_kanikos := tbl_delete (\<lambda>r. kn_id r = i) (iw_kanikos w1)\<rparr>"
  have a: "fewer_rows w w1" unfolding w1_def by (rule fewer_rows_if) (rule fewer_rows_intros)
  have b: "fewer_rows w w2" unfolding w2_def by (rule fewer_rows_trans [OF a fewer_rows_intros(2)])
  have c: "fewer_rows w (w2\<lparr>iw_registry := ls\<rparr>)" for ls by (rule fewer_rows_trans [OF b fewer_rows_intros(3)])
  have "deleteKanikoByID e adm i u w = (case re_deleteErr e i of Some x \<Rightarrow> (False, w1) | None \<Rightarrow>
      (True, if kn_status k = BuildJobFinished \<and> re_registryErr e i = None
             then w2\<lparr>iw_registry := filter (\<lambda>l. l \<noteq> kn_imageLink k) (iw_registry w2)\<rparr> else w2))"
    unfolding w2_def w1_def Let_def deleteKanikoByID_def k by (simp only: option.case)
  with a b c show ?thesis by (simp split: option.split)
qed (auto simp: deleteKanikoByID_def split: option.split)

lemma fewer_rows_remove: "fewer_rows w (snd (removeKanikoByID e adm i u w))"
  using fewer_rows_delete by (auto simp: removeKanikoByID_def split: option.split)

lemma fewer_rows_remove_list: "fewer_rows w (snd (removeKanikoByIDList e adm u is w))"
proof (induction "is" arbitrary: w)
  case (Cons i "is")
  show ?case using fewer_rows_trans [OF fewer_rows_remove Cons.IH] by (simp add: split_beta)
qed simp

lemma filtered_keeps:
  assumes "filtered t t'"
  shows "set t' \<subseteq> set t" and "distinct (map f t) \<Longrightarrow> distinct (map f t')"
  using assms by (auto simp: filtered_def distinct_map_filter)

lemma filtered_packs:
  assumes "filtered t t'"
  shows "set (pack_names t') \<subseteq> set (pack_names t)" and "distinct (pack_names t) \<Longrightarrow> distinct (pack_names t')"
  using assms by (auto simp: filtered_def intro: pack_names_filter dest: subsetD [OF pack_names_filter_subset])

lemma fewer_rows_keeps:
  assumes "fewer_rows w w'"
  shows "builds_ok w \<Longrightarrow> builds_ok w'" and "stays_gone n w \<Longrightarrow> stays_gone n w'"
proof -
  from assms have f: "filtered (iw_kanikos w) (iw_kanikos w')" "filtered (iw_images w) (iw_images w')"
      "iw_kanikoNames w' = iw_kanikoNames w" "iw_imageNames w' = iw_imageNames w"
    unfolding fewer_rows_def by auto
  show "builds_ok w'" if "builds_ok w"
    using that filtered_keeps(2) [OF f(1), of kn_imagePackName] filtered_keeps(2) [OF f(1), of kn_id]
      image_mono [OF filtered_keeps(1) [OF f(1)], of kn_imagePackName] filtered_packs [OF f(2)]
    unfolding builds_ok_def f(3,4) by (meson subset_trans)
  show "stays_gone n w'" if "stays_gone n w"
    using that filtered_keeps(1) [OF f(1)] unfolding stays_gone_def kaniko_named_None f(3) by auto
qed

lemma builds_ok_images: "builds_ok w \<Longrightarrow> images_ok w"
  by (simp add: builds_ok_def images_ok_def)

lemma build_Reconcile_keeps:
  assumes ok: "builds_ok w"
  shows "builds_ok (snd (build_Reconcile e ns m w))" and "stays_gone n w \<Longrightarrow> stays_gone n (snd (build_Reconcile e ns m w))"
proof -
  let ?w = "snd (build_Reconcile e ns m w)"
  have im: "images_ok ?w" using build_Reconcile_cases [OF builds_ok_images [OF ok]] by blast
  consider (same) "same_keys w ?w"
    | (new) k where "kn_id k = next_id (map kn_id (iw_kanikos w))" "kn_imagePackName k \<notin> set (iw_kanikoNames w)"
        "iw_kanikos ?w = iw_kanikos w @ [k]" "iw_kanikoNames ?w = kn_imagePackName k # iw_kanikoNames w"
    using build_Reconcile_cases [OF builds_ok_images [OF ok]] by blast
  note cases = this
  show "builds_ok ?w"
  proof (cases rule: cases)
    case same
    then have "kn_imagePackName ` set (iw_kanikos ?w) = kn_imagePackName ` set (iw_kanikos w)"
      unfolding same_keys_def by (metis set_map)
    with same ok im show ?thesis unfolding builds_ok_def images_ok_def same_keys_def by (elim conjE) (intro conjI; simp only:)
  next
    case new
    with ok next_id_fresh [of "map kn_id (iw_kanikos w)"]
    have "distinct (map kn_imagePackName (iw_kanikos ?w)) \<and> kn_imagePackName ` set (iw_kanikos ?w) \<subseteq> set (iw_kanikoNames ?w) \<and>
        distinct (map kn_id (iw_kanikos ?w))"
      unfolding builds_ok_def by auto
    with im show ?thesis unfolding builds_ok_def images_ok_def by blast
  qed
  show "stays_gone n ?w" if "stays_gone n w"
  proof (cases rule: cases)
    case same
    then have "set (map kn_imagePackName (iw_kanikos ?w)) = set (map kn_imagePackName (iw_kanikos w))"
      by (simp add: same_keys_def)
    with same that show ?thesis by (simp add: stays_gone_def kaniko_named_None same_keys_def)
  next
    case new
    with that show ?thesis by (auto simp: stays_gone_def kaniko_named_None)
  qed
qed


text \<open>An image row is only added for a build that has a row.\<close>

definition adds_image :: "string \<Rightarrow> image_world \<Rightarrow> image_world \<Rightarrow> bool" where
  "adds_image n w w' \<longleftrightarrow> iw_images w' = iw_images w \<or>
     (kaniko_named n w \<noteq> None \<and> (\<exists>i. iw_images w' = iw_images w @ [i] \<and> im_imagePackName i = Some n))"

lemma adds_image_eq: "iw_images w' = iw_images w \<Longrightarrow> adds_image n w w'"
  by (simp add: adds_image_def)

lemma adds_image_finish:
  assumes "kaniko_named n w = Some k"
  shows "adds_image n w (snd (finish_build e k w))"
proof -
  from assms have n: "kn_imagePackName k = n" by (auto simp: kaniko_named_def dest: tbl_first_Some)
  have c: "adds_image n w (snd (createImageRecord e k w1))" if "iw_images w1 = iw_images w" for w1
    using that assms n by (auto simp: createImageRecord_def adds_image_def image_of_kaniko_def split: option.splits)
  show ?thesis
  proof (cases "be_registrySize e (kn_imageLink k)")
    case (Inr sz)
    obtain f w1 where u: "updateKanikoSize e k sz w = (f, w1)" by (cases "updateKanikoSize e k sz w")
    have "iw_images w1 = iw_images w" using images_updates(3) [of e k sz w] by (simp add: u)
    with c show ?thesis by (auto simp: finish_build_def Inr u adds_image_eq split: option.split)
  qed (simp add: finish_build_def adds_image_eq)
qed

lemma build_Reconcile_adds: "adds_image n w (snd (build_Reconcile e ns n w))"
proof -
  have gone: "adds_image n w (snd (handleJobNotFound e n w))"
    by (rule adds_image_eq) (auto simp: handleJobNotFound_def updateKanikoStatus_def split: option.splits)
  have new: "adds_image n w (snd (handleRecordNotFound e j w))" for j
    by (rule adds_image_eq) (auto simp: handleRecordNotFound_def Let_def split: option.splits)
  have tail: "adds_image n w (snd (case f of Some x \<Rightarrow> ((True, Some x), w1)
        | None \<Rightarrow> (case updateKanikoStatus e k st w1 of (Some x, w2) \<Rightarrow> ((True, Some x), w2) | (None, w2) \<Rightarrow> ((False, None), w2))))"
    if "adds_image n w w1" for f w1 k st
    using that by (auto simp: updateKanikoStatus_def adds_image_def split: option.splits)
  show ?thesis
  proof (cases "ns = be_imageSpace e \<and> be_jobErr e = None \<and> find_build_job ns n w \<noteq> None \<and> be_kanikoErr e = None \<and> kaniko_named n w \<noteq> None")
    case False
    then show ?thesis using gone new by (auto simp: build_Reconcile_def adds_image_eq split: option.split)
  next
    case True
    then obtain j k where jk: "find_build_job ns n w = Some j" "kaniko_named n w = Some k" by blast
    let ?st = "getJobBuildStatus e j w"
    obtain f w1 where fw: "(if ?st = BuildJobFinished \<and> kn_status k \<noteq> BuildJobFinished
        then finish_build e k w else (None, w)) = (f, w1)" by (meson surj_pair)
    have "adds_image n w w1" using fw adds_image_finish [OF jk(2), of e] by (auto simp: adds_image_eq split: if_splits)
    from tail [OF this, of k ?st f] True jk show ?thesis by (simp add: build_Reconcile_def Let_def fw)
  qed
qed

definition gone_for_good :: "string \<Rightarrow> image_world \<Rightarrow> bool" where
  "gone_for_good n w \<longleftrightarrow> stays_gone n w \<and> image_of_pack n w = None"

lemma gone_fewer_rows: "fewer_rows w w' \<Longrightarrow> gone_for_good n w \<Longrightarrow> gone_for_good n w'"
  using fewer_rows_keeps(2) [of w w' n] filtered_keeps(1) [of "iw_images w" "iw_images w'"]
  by (auto simp: gone_for_good_def image_of_pack_def tbl_first_None fewer_rows_def)

lemma gone_reconcile:
  assumes "builds_ok w" "gone_for_good n w"
  shows "gone_for_good n (snd (build_Reconcile e ns m w))"
proof -
  have "stays_gone n (snd (build_Reconcile e ns m w))"
    using build_Reconcile_keeps(2) [OF assms(1)] assms(2) by (simp add: gone_for_good_def)
  moreover have "image_of_pack n (snd (build_Reconcile e ns m w)) = None"
    using build_Reconcile_adds [of m w e ns] assms(2)
    by (auto simp: adds_image_def gone_for_good_def stays_gone_def image_of_pack_def tbl_first_None)
  ultimately show ?thesis by (simp add: gone_for_good_def)
qed

section \<open>Runs\<close>

datatype build_step =
    BuildReconcile build_env string string
  | UserRemove remove_env nat "nat list option"
  | AdminRemove remove_env nat "nat list option"
  | ClusterChange "batch_job list" "build_pod list"

primrec apply_build_step :: "build_step \<Rightarrow> image_world \<Rightarrow> image_world" where
  "apply_build_step (BuildReconcile e ns n) w = snd (build_Reconcile e ns n w)"
| "apply_build_step (UserRemove e u req) w = snd (UserRemoveKanikoByID e u req w)"
| "apply_build_step (AdminRemove e u req) w = snd (AdminRemoveKanikoByIDList e u req w)"
| "apply_build_step (ClusterChange js ps) w = w\<lparr>iw_jobs := js, iw_pods := ps\<rparr>"

definition build_run :: "build_step list \<Rightarrow> image_world \<Rightarrow> image_world" where
  "build_run ss w = fold apply_build_step ss w"

lemma fewer_rows_handlers:
  "fewer_rows w (snd (UserRemoveKanikoByID e u req w))" "fewer_rows w (snd (AdminRemoveKanikoByIDList e u req w))"
  using fewer_rows_remove_list [of w e False u] fewer_rows_remove_list [of w e True u]
  by (auto simp: UserRemoveKanikoByID_def AdminRemoveKanikoByIDList_def split: option.split prod.split bool.split)
     (metis snd_conv)+

lemma apply_build_step_keeps:
  "builds_ok w \<Longrightarrow> builds_ok (apply_build_step s w) \<and> (gone_for_good n w \<longrightarrow> gone_for_good n (apply_build_step s w))"
proof (cases s)
  case (ClusterChange js ps)
  then show "builds_ok w \<Longrightarrow> ?thesis"
    by (simp add: builds_ok_def gone_for_good_def stays_gone_def kaniko_named_def image_of_pack_def)
qed (auto intro: build_Reconcile_keeps(1) gone_reconcile fewer_rows_keeps(1) gone_fewer_rows fewer_rows_handlers)

lemma build_run_keeps:
  "builds_ok w \<Longrightarrow> builds_ok (build_run ss w) \<and> (gone_for_good n w \<longrightarrow> gone_for_good n (build_run ss w))"
proof (induction ss arbitrary: w)
  case (Cons s ss)
  from apply_build_step_keeps [OF Cons.prems, of s n] Cons.IH [of "apply_build_step s w"] show ?case by (simp add: build_run_def)
qed (simp add: build_run_def)


section \<open>A finished build\<close>

text \<open>
  The column the image's size is taken from is the one read before the size was stored, so the
  new image has the size of the old row.
\<close>

definition quiet_build_env :: "build_env \<Rightarrow> bool" where
  "quiet_build_env e \<longleftrightarrow> be_jobErr e = None \<and> be_kanikoErr e = None \<and> be_sizeErr e = None \<and> be_imageErr e = None \<and>
     be_imageCreateErr e = None \<and> be_statusErr e = None"

lemma tbl_updates_twice:
  "(\<And>r. P r \<Longrightarrow> P (f r)) \<Longrightarrow> tbl_updates P g (tbl_updates P f t) = tbl_updates P (\<lambda>r. g (f r)) t"
  by (simp add: tbl_updates_def)

lemma finish_reconcile_eq:
  assumes q: "quiet_build_env e" and j: "find_build_job (be_imageSpace e) n w = Some j" "bj_succeeded j = 1"
      and k: "kaniko_named n w = Some k" "kn_status k \<noteq> BuildJobFinished"
      and sz: "be_registrySize e (kn_imageLink k) = Inr sz" and i: "image_of_pack n w = None" "n \<notin> set (iw_imageNames w)"
  shows "build_Reconcile e (be_imageSpace e) n w =
    ((False, None), w\<lparr>iw_kanikos := tbl_updates (\<lambda>r. kn_imagePackName r = n) (\<lambda>r. r\<lparr>kn_size := sz, kn_status := BuildJobFinished\<rparr>) (iw_kanikos w),
                      iw_images := iw_images w @ [image_of_kaniko e k w], iw_imageNames := n # iw_imageNames w\<rparr>)"
proof -
  from k have n: "kn_imagePackName k = n" by (auto simp: kaniko_named_def dest: tbl_first_Some)
  define w1 where "w1 = w\<lparr>iw_kanikos := tbl_updates (\<lambda>r. kn_imagePackName r = n) (kn_size_update (\<lambda>_. sz)) (iw_kanikos w)\<rparr>"
  have st: "getJobBuildStatus e j w = BuildJobFinished" using j by (simp add: getJobBuildStatus_def)
  have u: "updateKanikoSize e k sz w = (None, w1)" using q n by (simp add: updateKanikoSize_def quiet_build_env_def w1_def)
  have im: "image_of_pack n w1 = None" "iw_imageNames w1 = iw_imageNames w" "image_of_kaniko e k w1 = image_of_kaniko e k w"
    using i by (simp_all add: image_of_pack_def w1_def image_of_kaniko_def)
  have c: "finish_build e k w = (None, w1\<lparr>iw_images := iw_images w @ [image_of_kaniko e k w], iw_imageNames := n # iw_imageNames w\<rparr>)"
    using q n i(2) by (simp add: finish_build_def sz u createImageRecord_def quiet_build_env_def im) (simp add: w1_def)
  show ?thesis using q j(1) k n
    by (simp add: build_Reconcile_def quiet_build_env_def st c updateKanikoStatus_def w1_def tbl_updates_twice)
qed

text \<open>When the job of a build has succeeded and nothing fails, one reconcile call stores the
  size the registry answers and the status Finished in the row of the build, and creates one image
  with the build's link, owner, tags and platforms; its size is the one the row had before.  A second call
  changes nothing.
\<close>

theorem finished_build_recorded:
  assumes "quiet_build_env e" and "find_build_job (be_imageSpace e) n w = Some j" "bj_succeeded j = 1"
      and "kaniko_named n w = Some k" "kn_status k \<noteq> BuildJobFinished"
      and "be_registrySize e (kn_imageLink k) = Inr sz" and "image_of_pack n w = None" "n \<notin> set (iw_imageNames w)"
  defines "r \<equiv> build_Reconcile e (be_imageSpace e) n w"
  shows "fst r = (False, None) \<and> kaniko_named n (snd r) = Some (k\<lparr>kn_size := sz, kn_status := BuildJobFinished\<rparr>) \<and>
     (\<exists>i. iw_images (snd r) = iw_images w @ [i] \<and> im_imagePackName i = Some n \<and> im_imageLink i = kn_imageLink k \<and>
          im_userID i = kn_userID k \<and> im_tags i = kn_tags k \<and> im_archs i = kn_archs k \<and> im_size i = kn_size k) \<and>
     build_Reconcile e (be_imageSpace e) n (snd r) = ((False, None), snd r)"
proof -
  from assms(4) have n: "kn_imagePackName k = n" by (auto simp: kaniko_named_def dest: tbl_first_Some)
  have r: "r = ((False, None), w\<lparr>iw_kanikos := tbl_updates (\<lambda>r. kn_imagePackName r = n) (\<lambda>r. r\<lparr>kn_size := sz, kn_status := BuildJobFinished\<rparr>) (iw_kanikos w),
                      iw_images := iw_images w @ [image_of_kaniko e k w], iw_imageNames := n # iw_imageNames w\<rparr>)"
    unfolding r_def by (rule finish_reconcile_eq [OF assms(1-8)])
  have k': "kaniko_named n (snd r) = Some (k\<lparr>kn_size := sz, kn_status := BuildJobFinished\<rparr>)"
    using assms(4) by (simp add: r kaniko_named_def tbl_first_updates_same)
  have j': "find_build_job (be_imageSpace e) n (snd r) = Some j" using assms(2) by (simp add: r find_build_job_def)
  have st: "getJobBuildStatus e j (snd r) = BuildJobFinished" using assms(3) by (simp add: getJobBuildStatus_def)
  have idem: "tbl_updates (\<lambda>r. kn_imagePackName r = n) (kn_status_update (\<lambda>_. BuildJobFinished)) (iw_kanikos (snd r)) = iw_kanikos (snd r)"
    by (simp add: r tbl_updates_twice)
  have "build_Reconcile e (be_imageSpace e) n (snd r) = ((False, None), snd r)"
    using assms(1) k' n by (simp add: build_Reconcile_def quiet_build_env_def j' st updateKanikoStatus_def idem)
  then show ?thesis using k' by (simp add: r image_of_kaniko_def n)
qed

definition sample_kaniko :: "nat \<Rightarrow> nat \<Rightarrow> string \<Rightarrow> string \<Rightarrow> kaniko" where
  "sample_kaniko i u n st = \<lparr>kn_id = i, kn_createdAt = 5, kn_userID = u, kn_imagePackName = n, kn_imageLink = ''reg/img'',
     kn_nameSpace = ''images'', kn_status = st, kn_description = Some ''d'', kn_size = 0, kn_dockerfile = None,
     kn_buildSource = ''Dockerfile'', kn_tags = Some [], kn_template = [], kn_archs = None\<rparr>"

definition sample_build_job :: "string \<Rightarrow> int \<Rightarrow> batch_job" where
  "sample_build_job n s = \<lparr>bj_name = n, bj_namespace = ''images'', bj_annotations = [], bj_active = 1 - s, bj_succeeded = s, bj_failed = 0, bj_terminating = None\<rparr>"

definition sample_builds :: "kaniko list \<Rightarrow> batch_job list \<Rightarrow> image_world" where
  "sample_builds ks js = \<lparr>iw_kanikos = ks, iw_kanikoNames = map kn_imagePackName ks, iw_images = [], iw_imageNames = [], iw_users = [], iw_jobs = js, iw_pods = [], iw_registry = []\<rparr>"

definition sample_build_env :: build_env where
  "sample_build_env = \<lparr>be_imageSpace = ''images'', be_now = 9, be_jobErr = None, be_podErr = None, be_kanikoErr = None, be_userErr = None,
     be_createErr = None, be_sizeErr = None, be_imageErr = None, be_imageCreateErr = None, be_statusErr = None,
     be_registrySize = (\<lambda>l. Inr 77), be_strings = (\<lambda>s. None)\<rparr>"

definition sample_remove_env :: remove_env where
  "sample_remove_env = \<lparr>re_kanikoErr = (\<lambda>i. None), re_againErr = (\<lambda>i. None), re_jobErr = (\<lambda>i. None), re_imageErr = (\<lambda>i. None),
     re_deleteErr = (\<lambda>i. None), re_registryErr = (\<lambda>i. None), re_userNameSpace = ''images''\<rparr>"

lemmas sample_build_defs = sample_kaniko_def sample_build_job_def sample_builds_def sample_build_env_def sample_remove_env_def

theorem finished_build_recorded_witness:
  "(\<exists>i. iw_images (snd (build_Reconcile sample_build_env ''images'' ''pack''
      (sample_builds [sample_kaniko 3 1 ''pack'' ''Running''] [sample_build_job ''pack'' 1]))) = [i] \<and> im_size i = 0)"
proof -
  let ?w = "sample_builds [sample_kaniko 3 1 ''pack'' ''Running''] [sample_build_job ''pack'' 1]"
  show ?thesis
    using finished_build_recorded [of sample_build_env "''pack''" ?w "sample_build_job ''pack'' 1" "sample_kaniko 3 1 ''pack'' ''Running''" 77]
    by (auto simp: sample_build_defs quiet_build_env_def find_build_job_def kaniko_named_def image_of_pack_def tbl_first_Cons)
qed


section \<open>Cancelling, deleting, and who may\<close>

definition quiet_remove_env :: "remove_env \<Rightarrow> nat \<Rightarrow> bool" where
  "quiet_remove_env e i \<longleftrightarrow> re_kanikoErr e i = None \<and> re_againErr e i = None \<and> re_jobErr e i = None \<and> re_imageErr e i = None \<and>
     re_deleteErr e i = None \<and> re_registryErr e i = None"

abbreviation (input) ended :: "kaniko \<Rightarrow> bool" where
  "ended k \<equiv> kn_status k \<in> {BuildJobFinished, BuildJobFailed, BuildJobCanceled}"

lemma own_kaniko_facts:
  "own_kaniko adm i u w = Some k \<Longrightarrow> k \<in> set (iw_kanikos w) \<and> kn_id k = i \<and> (adm \<or> kn_userID k = u)"
  by (auto simp: own_kaniko_def dest: tbl_first_Some)

lemma pack_unique: "builds_ok w \<Longrightarrow> k \<in> set (iw_kanikos w) \<Longrightarrow> r \<in> set (iw_kanikos w) \<Longrightarrow> kn_imagePackName r = kn_imagePackName k \<Longrightarrow> r = k"
  unfolding builds_ok_def by (elim conjE) (rule map_unique)

lemma kaniko_id_unique: "builds_ok w \<Longrightarrow> k \<in> set (iw_kanikos w) \<Longrightarrow> r \<in> set (iw_kanikos w) \<Longrightarrow> kn_id r = kn_id k \<Longrightarrow> r = k"
  unfolding builds_ok_def by (elim conjE) (rule map_unique)

lemma own_kaniko_named: "builds_ok w \<Longrightarrow> own_kaniko adm i u w = Some k \<Longrightarrow> kaniko_named (kn_imagePackName k) w = Some k"
  using own_kaniko_facts [of adm i u w k] distinct_first [of kn_imagePackName "iw_kanikos w" k] by (simp add: builds_ok_def kaniko_named_def)

lemma deleted_rows:
  assumes "quiet_remove_env e i" "own_kaniko adm i u w = Some k" "ended k"
  shows "iw_kanikos (snd (removeKanikoByID e adm i u w)) = tbl_delete (\<lambda>r. kn_id r = i) (iw_kanikos w) \<and>
     iw_images (snd (removeKanikoByID e adm i u w)) =
       (if kn_status k = BuildJobFinished then tbl_delete (\<lambda>m. im_imagePackName m = Some (kn_imagePackName k)) (iw_images w) else iw_images w)"
  using assms by (auto simp: removeKanikoByID_def deleteKanikoByID_def quiet_remove_env_def Let_def)

lemma user_remove_one: "snd (UserRemoveKanikoByID e u (Some [i]) w) = snd (removeKanikoByID e False i u w)"
  by (cases "removeKanikoByID e False i u w") (simp add: UserRemoveKanikoByID_def split: bool.split)

text \<open>Claim C32.  A finished build that its owner deletes never comes back: after any later reconcile calls, removals
  and changes of the cluster, even while its job still exists there, it has no row and its image has none.
\<close>

theorem deleted_build_never_returns:
  assumes "builds_ok w" and "quiet_remove_env e i" and "own_kaniko False i u w = Some k" and "kn_status k = BuildJobFinished"
  shows "kaniko_named (kn_imagePackName k) (build_run ss (snd (UserRemoveKanikoByID e u (Some [i]) w))) = None \<and>
     image_of_pack (kn_imagePackName k) (build_run ss (snd (UserRemoveKanikoByID e u (Some [i]) w))) = None"
proof -
  let ?w = "snd (UserRemoveKanikoByID e u (Some [i]) w)"
  have ok: "builds_ok ?w" by (rule fewer_rows_keeps(1) [OF fewer_rows_handlers(1) assms(1)])
  from own_kaniko_facts [OF assms(3)] have k: "k \<in> set (iw_kanikos w)" "kn_id k = i" by auto
  have rows: "iw_kanikos ?w = tbl_delete (\<lambda>r. kn_id r = i) (iw_kanikos w)"
      "iw_images ?w = tbl_delete (\<lambda>m. im_imagePackName m = Some (kn_imagePackName k)) (iw_images w)"
    using deleted_rows [OF assms(2,3)] assms(4) by (simp_all add: user_remove_one)
  have names: "iw_kanikoNames ?w = iw_kanikoNames w" using fewer_rows_handlers(1) [of w e u "Some [i]"] by (simp add: fewer_rows_def)
  from pack_unique [OF assms(1) k(1)] have "gone_for_good (kn_imagePackName k) ?w" using k assms(1)
    by (auto simp: gone_for_good_def stays_gone_def names kaniko_named_None rows tbl_delete_def image_of_pack_def tbl_first_None builds_ok_def)
  with build_run_keeps [OF ok] show ?thesis by (simp add: gone_for_good_def stays_gone_def)
qed

theorem deleted_build_never_returns_witness:
  "kaniko_named ''pack'' (build_run [BuildReconcile sample_build_env ''images'' ''pack'']
     (snd (UserRemoveKanikoByID sample_remove_env 1 (Some [3])
       (sample_builds [sample_kaniko 3 1 ''pack'' ''Finished''] [sample_build_job ''pack'' 1])))) = None"
  using deleted_build_never_returns [of "sample_builds [sample_kaniko 3 1 ''pack'' ''Finished''] [sample_build_job ''pack'' 1]" sample_remove_env 3 1
      "sample_kaniko 3 1 ''pack'' ''Finished''" "[BuildReconcile sample_build_env ''images'' ''pack'']"]
  by (simp add: sample_build_defs quiet_remove_env_def own_kaniko_def tbl_first_Cons builds_ok_def)

text \<open>The life of a cancelled build: the owner's first removal of a build that has not ended leaves every
  row and takes its job out of the cluster; the next reconcile call sets the row to Canceled; the second removal deletes the
  row, and no image is touched.
\<close>

theorem cancel_then_delete:
  assumes "builds_ok w" and "quiet_remove_env e i" and "own_kaniko False i u w = Some k" and "\<not> ended k"
      and "quiet_build_env b" and "re_userNameSpace e = be_imageSpace b"
  defines "w1 \<equiv> snd (UserRemoveKanikoByID e u (Some [i]) w)"
  defines "w2 \<equiv> snd (build_Reconcile b (be_imageSpace b) (kn_imagePackName k) w1)"
  defines "w3 \<equiv> snd (UserRemoveKanikoByID e u (Some [i]) w2)"
  shows "iw_kanikos w1 = iw_kanikos w \<and> find_build_job (be_imageSpace b) (kn_imagePackName k) w1 = None \<and>
     kaniko_named (kn_imagePackName k) w2 = Some (k\<lparr>kn_status := BuildJobCanceled\<rparr>) \<and>
     iw_kanikos w3 = tbl_delete (\<lambda>r. kn_id r = i) (iw_kanikos w) \<and> iw_images w3 = iw_images w"
proof -
  let ?n = "kn_imagePackName k"
  from own_kaniko_facts [OF assms(3)] have k: "k \<in> set (iw_kanikos w)" "kn_id k = i" "kn_userID k = u" by auto
  have w1: "w1 = DeleteJob (be_imageSpace b) ?n w"
    using assms(2-4,6) by (simp add: w1_def user_remove_one removeKanikoByID_def quiet_remove_env_def)
  have gone: "find_build_job (be_imageSpace b) ?n w1 = None" by (auto simp: w1 DeleteJob_def find_build_job_def find_None_iff)
  have named: "kaniko_named ?n w1 = Some k" using own_kaniko_named [OF assms(1,3)] by (simp add: w1 DeleteJob_def kaniko_named_def)
  have w2: "w2 = w1\<lparr>iw_kanikos := tbl_updates (\<lambda>r. kn_imagePackName r = ?n) (kn_status_update (\<lambda>_. BuildJobCanceled)) (iw_kanikos w)\<rparr>"
    using assms(4,5) gone named
    by (simp add: w2_def build_Reconcile_def quiet_build_env_def handleJobNotFound_def updateKanikoStatus_def) (simp add: w1 DeleteJob_def)
  have named2: "kaniko_named ?n w2 = Some (k\<lparr>kn_status := BuildJobCanceled\<rparr>)"
    using named by (simp add: w2 kaniko_named_def tbl_first_updates_same) (simp add: w1 DeleteJob_def)
  have ok2: "builds_ok w2"
    unfolding w2_def w1_def by (rule build_Reconcile_keeps(1)) (rule fewer_rows_keeps(1) [OF fewer_rows_handlers(1) assms(1)])
  have in2: "k\<lparr>kn_status := BuildJobCanceled\<rparr> \<in> set (iw_kanikos w2)"
    using named2 by (auto simp: kaniko_named_def dest: tbl_first_Some)
  have own2: "own_kaniko False i u w2 = Some (k\<lparr>kn_status := BuildJobCanceled\<rparr>)"
    unfolding own_kaniko_def by (rule tbl_first_unique [OF in2]) (use k kaniko_id_unique [OF ok2 in2] in auto)
  have same: "tbl_delete (\<lambda>r. kn_id r = i) (iw_kanikos w2) = tbl_delete (\<lambda>r. kn_id r = i) (iw_kanikos w)"
    using pack_unique [OF assms(1) k(1)] k by (simp add: w2) (rule tbl_delete_updates, auto)
  show ?thesis using gone named2 deleted_rows [OF assms(2) own2] same
    by (simp add: w3_def user_remove_one) (simp add: w2 w1 DeleteJob_def)
qed


theorem cancel_then_delete_witness:
  "iw_kanikos (snd (UserRemoveKanikoByID sample_remove_env 1 (Some [3])
     (snd (build_Reconcile sample_build_env ''images'' ''pack'' (snd (UserRemoveKanikoByID sample_remove_env 1 (Some [3])
       (sample_builds [sample_kaniko 3 1 ''pack'' ''Running'', sample_kaniko 4 1 ''other'' ''Failed''] [sample_build_job ''pack'' 0])))))))
   = [sample_kaniko 4 1 ''other'' ''Failed'']"
  using cancel_then_delete [of "sample_builds [sample_kaniko 3 1 ''pack'' ''Running'', sample_kaniko 4 1 ''other'' ''Failed''] [sample_build_job ''pack'' 0]"
      sample_remove_env 3 1 "sample_kaniko 3 1 ''pack'' ''Running''" sample_build_env]
  by (simp add: sample_build_defs quiet_remove_env_def quiet_build_env_def own_kaniko_def tbl_first_Cons builds_ok_def tbl_delete_def)

lemma remove_keeps_foreign:
  assumes "k \<in> set (iw_kanikos w)" "kn_userID k \<noteq> u" "builds_ok w"
  shows "k \<in> set (iw_kanikos (snd (removeKanikoByID e False i u w)))"
proof -
  have "i \<noteq> kn_id k" if "own_kaniko False i u w = Some r" for r
    using own_kaniko_facts [OF that] kaniko_id_unique [OF assms(3,1)] assms(2) by auto
  then show ?thesis using assms(1)
    by (auto simp: removeKanikoByID_def deleteKanikoByID_def DeleteJob_def Let_def tbl_delete_def split: option.split)
qed

lemma remove_list_keeps_foreign:
  "k \<in> set (iw_kanikos w) \<Longrightarrow> kn_userID k \<noteq> u \<Longrightarrow> builds_ok w \<Longrightarrow> k \<in> set (iw_kanikos (snd (removeKanikoByIDList e False u is w)))"
proof (induction "is" arbitrary: w)
  case (Cons i "is")
  have "builds_ok (snd (removeKanikoByID e False i u w))" by (rule fewer_rows_keeps(1) [OF fewer_rows_remove Cons.prems(3)])
  with Cons.IH [OF remove_keeps_foreign [OF Cons.prems] Cons.prems(2)] show ?case by (simp add: split_beta)
qed simp

text \<open>The user's removal of builds never deletes the row of a build of another user, whatever identifiers
  the request names and whatever fails.
\<close>

theorem foreign_builds_kept:
  assumes "builds_ok w" and "k \<in> set (iw_kanikos w)" and "kn_userID k \<noteq> u"
  shows "k \<in> set (iw_kanikos (snd (UserRemoveKanikoByID e u req w)))"
proof (cases req)
  case (Some ids)
  show ?thesis using remove_list_keeps_foreign [OF assms(2,3,1), of e ids]
    by (cases "removeKanikoByIDList e False u ids w") (simp add: UserRemoveKanikoByID_def Some split: bool.split)
qed (simp add: UserRemoveKanikoByID_def assms(2))

theorem foreign_builds_kept_witness:
  "sample_kaniko 4 2 ''other'' ''Failed'' \<in> set (iw_kanikos (snd (UserRemoveKanikoByID sample_remove_env 1 (Some [3, 4])
     (sample_builds [sample_kaniko 3 1 ''pack'' ''Failed'', sample_kaniko 4 2 ''other'' ''Failed''] []))))"
  by (rule foreign_builds_kept) (simp_all add: sample_build_defs builds_ok_def)

end
