(* ===== verification/Accounts.thy ===== *)
theory Accounts imports Data_Model begin

text \<open>
  Accounts and their members: the administrator's handlers of \<open>internal/handler/account.go\<close> over the
  tables of accounts, users and memberships and the Volcano queues of the cluster.  An account has the queue of
  its name.  The primary keys come from sequences, which never go back, not even when a
  transaction is rolled back; the cluster does not take part in a transaction.  A membership row is identified by its
  own key, the user and the account together, so the database allows several rows for one
  user in one account.  A request that does not bind is \<open>None\<close>, and so is a nil map in a request.
\<close>

section \<open>The directory\<close>

record 'q vqueue =
  vq_name :: string
  vq_createdBy :: string
  vq_guarantee :: "'q resource_list"
  vq_deserved :: "'q resource_list"
  vq_capability :: "'q resource_list"
  vq_allocated :: "'q resource_list"
  vq_running :: int

record 'q directory =
  dr_users :: "user table"
  dr_userSeq :: nat
  dr_userNames :: "string list"
  dr_accounts :: "'q account table"
  dr_accountSeq :: nat
  dr_members :: "'q user_account table"
  dr_memberSeq :: nat
  dr_queues :: "'q vqueue list"

definition find_account :: "nat \<Rightarrow> 'q directory \<Rightarrow> 'q account option" where
  "find_account i s = tbl_first (\<lambda>a. ac_id a = i) (dr_accounts s)"

definition find_user :: "nat \<Rightarrow> 'q directory \<Rightarrow> user option" where
  "find_user i s = tbl_first (\<lambda>u. us_id u = i) (dr_users s)"

definition find_member :: "nat \<Rightarrow> nat \<Rightarrow> 'q directory \<Rightarrow> 'q user_account option" where
  "find_member aid uid s = tbl_first (\<lambda>m. ua_accountID m = aid \<and> ua_userID m = uid) (dr_members s)"

definition find_queue :: "string \<Rightarrow> 'q directory \<Rightarrow> 'q vqueue option" where
  "find_queue n s = find (\<lambda>q. vq_name q = n) (dr_queues s)"

text \<open>The answers of the database and the cluster that are failures.\<close>

record account_env =
  ax_findAccountErr :: fault
  ax_findUserErr :: fault
  ax_findMemberErr :: fault
  ax_againErr :: fault
  ax_createAccountErr :: fault
  ax_createMemberErr :: "nat \<Rightarrow> fault"
  ax_updateAccountErr :: fault
  ax_deleteAccountErr :: fault
  ax_updateMemberErr :: fault
  ax_deleteMemberErr :: fault
  ax_queueGetErr :: fault
  ax_queueCreateErr :: fault
  ax_queueUpdateErr :: fault
  ax_queueDeleteErr :: fault
  ax_commitErr :: fault

text \<open>A transaction whose body or commit fails leaves the sequences and the cluster as the body left them.\<close>

definition roll_back :: "'q directory \<Rightarrow> 'q directory \<Rightarrow> 'q directory" where
  "roll_back s s1 = s\<lparr>dr_userSeq := dr_userSeq s1, dr_accountSeq := dr_accountSeq s1, dr_memberSeq := dr_memberSeq s1, dr_queues := dr_queues s1\<rparr>"

definition in_transaction :: "fault \<Rightarrow> ('q directory \<Rightarrow> 'a result \<times> 'q directory) \<Rightarrow> 'q directory \<Rightarrow> 'a result \<times> 'q directory" where
  "in_transaction commitErr body s =
     (case body s of
        (Inl x, s1) \<Rightarrow> (Inl x, roll_back s s1)
      | (Inr v, s1) \<Rightarrow> (case commitErr of Some x \<Rightarrow> (Inl x, roll_back s s1) | None \<Rightarrow> (Inr v, s1)))"

section \<open>Creating and changing accounts\<close>

record 'q account_req =
  aq_nickname :: string
  aq_guaranteed :: "'q resource_list option"
  aq_deserved :: "'q resource_list option"
  aq_capability :: "'q resource_list option"
  aq_withoutVolcano :: bool
  aq_admins :: "nat list"
  aq_expiredAt :: time

definition or_empty :: "'q resource_list option \<Rightarrow> 'q resource_list" where
  "or_empty r = (case r of None \<Rightarrow> [] | Some l \<Rightarrow> l)"

definition quota_of_req :: "'q account_req \<Rightarrow> 'q queue_quota" where
  "quota_of_req r = \<lparr>qq_guaranteed = or_empty (aq_guaranteed r), qq_deserved = or_empty (aq_deserved r), qq_capability = or_empty (aq_capability r)\<rparr>"

text \<open>The zero value of a quota, three nil maps, is skipped when a structure is written.\<close>

definition zero_quota :: "'q account_req \<Rightarrow> bool" where
  "zero_quota r \<longleftrightarrow> aq_guaranteed r = None \<and> aq_deserved r = None \<and> aq_capability r = None"

definition add_member :: "account_env \<Rightarrow> 'q user_account \<Rightarrow> 'q directory \<Rightarrow> fault \<times> 'q directory" where
  "add_member e m s =
     (case ax_createMemberErr e (ua_userID m) of
        Some x \<Rightarrow> (Some x, s)
      | None \<Rightarrow> (None, s\<lparr>dr_members := dr_members s @ [m\<lparr>ua_id := Suc (dr_memberSeq s)\<rparr>], dr_memberSeq := Suc (dr_memberSeq s)\<rparr>))"

definition no_quota :: "'q queue_quota" where
  "no_quota = \<lparr>qq_guaranteed = [], qq_deserved = [], qq_capability = []\<rparr>"

primrec add_admins :: "account_env \<Rightarrow> nat \<Rightarrow> nat list \<Rightarrow> 'q directory \<Rightarrow> fault \<times> 'q directory" where
  "add_admins e aid [] s = (None, s)"
| "add_admins e aid (adminID # ids) s =
     (case add_member e \<lparr>ua_id = 0, ua_userID = adminID, ua_accountID = aid, ua_role = RoleAdmin, ua_accessMode = AccessModeRW, ua_quota = no_quota\<rparr> s of
        (Some x, s1) \<Rightarrow> (Some x, s1)
      | (None, s1) \<Rightarrow> add_admins e aid ids s1)"

definition CreateVolcanoQueue :: "account_env \<Rightarrow> string \<Rightarrow> 'q account \<Rightarrow> 'q account_req \<Rightarrow> 'q directory \<Rightarrow> fault \<times> 'q directory" where
  "CreateVolcanoQueue e username a r s =
     (case ax_queueCreateErr e of
        Some x \<Rightarrow> (Some x, s)
      | None \<Rightarrow>
          if find_queue (ac_name a) s \<noteq> None then (Some ''already exists'', s)
          else (None, s\<lparr>dr_queues := dr_queues s @ [\<lparr>vq_name = ac_name a, vq_createdBy = username,
             vq_guarantee = or_empty (aq_guaranteed r), vq_deserved = or_empty (aq_deserved r), vq_capability = or_empty (aq_capability r),
             vq_allocated = [], vq_running = 0\<rparr>]\<rparr>))"

definition new_account :: "nat \<Rightarrow> 'q account_req \<Rightarrow> 'q account" where
  "new_account i r = \<lparr>ac_id = i, ac_name = ''q-'' @ fmt_uint i, ac_nickname = aq_nickname r, ac_space = ''q-'' @ fmt_uint i,
     ac_expiredAt = (if aq_expiredAt r = 0 then None else Some (aq_expiredAt r)), ac_quota = quota_of_req r, ac_userDefaultQuota = None\<rparr>"

definition create_body :: "account_env \<Rightarrow> string \<Rightarrow> 'q account_req \<Rightarrow> 'q directory \<Rightarrow> nat result \<times> 'q directory" where
  "create_body e username r s =
     (case ax_createAccountErr e of
        Some x \<Rightarrow> (Inl x, s)
      | None \<Rightarrow>
          let i = Suc (dr_accountSeq s);
              queue = \<lparr>ac_id = i, ac_name = [], ac_nickname = aq_nickname r, ac_space = [], ac_expiredAt = None,
                       ac_quota = no_quota, ac_userDefaultQuota = None\<rparr>;
              s1 = s\<lparr>dr_accountSeq := i\<rparr>
          in if list_ex (\<lambda>a. ac_name a = [] \<or> ac_space a = []) (dr_accounts s) then (Inl ''duplicate key'', s1)
             else (case add_admins e i (aq_admins r) (s1\<lparr>dr_accounts := dr_accounts s1 @ [queue]\<rparr>) of
               (Some x, s2) \<Rightarrow> (Inl x, s2)
             | (None, s2) \<Rightarrow> (case ax_updateAccountErr e of
                 Some x \<Rightarrow> (Inl x, s2)
               | None \<Rightarrow>
                   let queue' = new_account i r;
                       s3 = s2\<lparr>dr_accounts := tbl_updates (\<lambda>a. ac_id a = i) (\<lambda>_. queue') (dr_accounts s2)\<rparr>
                   in if list_ex (\<lambda>a. ac_id a \<noteq> i \<and> (ac_name a = ac_name queue' \<or> ac_space a = ac_space queue')) (dr_accounts s2)
                      then (Inl ''duplicate key'', s2)
                      else if aq_withoutVolcano r then (Inr i, s3)
                      else (case CreateVolcanoQueue e username queue' r s3 of
                          (Some x, s4) \<Rightarrow> (Inl x, s4)
                        | (None, s4) \<Rightarrow> (Inr i, s4)))))"

definition CreateAccount :: "account_env \<Rightarrow> string \<Rightarrow> 'q account_req option \<Rightarrow> 'q directory \<Rightarrow> nat result \<times> 'q directory" where
  "CreateAccount e username req s =
     (case req of
        None \<Rightarrow> (Inl ''bad request'', s)
      | Some r \<Rightarrow>
          if aq_nickname r = [] then (Inl ''bad request'', s)
          else if aq_admins r = [] then (Inl ''Admins is empty'', s)
          else in_transaction (ax_commitErr e) (create_body e username r) s)"

definition updateVolcanoQueue :: "account_env \<Rightarrow> 'q account \<Rightarrow> 'q account_req \<Rightarrow> 'q directory \<Rightarrow> fault \<times> 'q directory" where
  "updateVolcanoQueue e a r s =
     (case ax_queueGetErr e of
        Some x \<Rightarrow> (Some x, s)
      | None \<Rightarrow> (case find_queue (ac_name a) s of
          None \<Rightarrow> (Some ''not found'', s)
        | Some q \<Rightarrow> (case ax_queueUpdateErr e of
            Some x \<Rightarrow> (Some x, s)
          | None \<Rightarrow> (None, s\<lparr>dr_queues := map (\<lambda>q. if vq_name q = ac_name a
              then q\<lparr>vq_guarantee := or_empty (aq_guaranteed r), vq_deserved := or_empty (aq_deserved r),
                     vq_capability := or_empty (aq_capability r)\<rparr> else q) (dr_queues s)\<rparr>))))"

definition update_row :: "'q account_req \<Rightarrow> 'q account \<Rightarrow> 'q account" where
  "update_row r a = a\<lparr>ac_nickname := aq_nickname r,
     ac_expiredAt := (if aq_expiredAt r = 0 then ac_expiredAt a else Some (aq_expiredAt r)),
     ac_quota := (if zero_quota r then ac_quota a else quota_of_req r)\<rparr>"

definition UpdateAccount :: "account_env \<Rightarrow> 'q account_req option \<Rightarrow> nat option \<Rightarrow> 'q directory \<Rightarrow> string result \<times> 'q directory" where
  "UpdateAccount e req uri s =
     (case (req, uri) of
        (Some r, Some aid) \<Rightarrow>
          if aq_nickname r = [] then (Inl ''validate update parameters failed'', s)
          else (case ax_findAccountErr e of
            Some x \<Rightarrow> (Inl (''find project failed, detail: '' @ x), s)
          | None \<Rightarrow> (case find_account aid s of
              None \<Rightarrow> (Inl (''find project failed, detail: record not found''), s)
            | Some a \<Rightarrow> (case ax_updateAccountErr e of
                Some x \<Rightarrow> (Inl (''update project failed, detail: '' @ x), s)
              | None \<Rightarrow>
                  let s1 = s\<lparr>dr_accounts := tbl_updates (\<lambda>b. ac_id b = ac_id a) (\<lambda>_. update_row r a) (dr_accounts s)\<rparr>
                  in if aq_withoutVolcano r then (Inr (''update capability of '' @ ac_name a), s1)
                     else (case updateVolcanoQueue e a r s1 of
                         (Some x, s2) \<Rightarrow> (Inl (''update capability failed, detail: '' @ x), s2)
                       | (None, s2) \<Rightarrow> (Inr (''update capability of '' @ ac_name a), s2)))))
      | _ \<Rightarrow> (Inl ''validate update parameters failed'', s))"

section \<open>Deleting accounts\<close>

definition DeleteQueue :: "account_env \<Rightarrow> string \<Rightarrow> 'q directory \<Rightarrow> fault \<times> 'q directory" where
  "DeleteQueue e n s =
     (case ax_queueGetErr e of
        Some x \<Rightarrow> (Some x, s)
      | None \<Rightarrow> (case find_queue n s of
          None \<Rightarrow> (Some ''not found'', s)
        | Some q \<Rightarrow>
            if vq_running q \<noteq> 0 then (Some ''queue still have running pod'', s)
            else (case ax_queueDeleteErr e of
                Some x \<Rightarrow> (Some x, s)
              | None \<Rightarrow> (None, s\<lparr>dr_queues := filter (\<lambda>q. vq_name q \<noteq> n) (dr_queues s)\<rparr>))))"

definition delete_body :: "account_env \<Rightarrow> nat \<Rightarrow> 'q directory \<Rightarrow> string result \<times> 'q directory" where
  "delete_body e aid s =
     (case ax_findAccountErr e of
        Some x \<Rightarrow> (Inl x, s)
      | None \<Rightarrow> (case find_account aid s of
          None \<Rightarrow> (Inl ''record not found'', s)
        | Some a \<Rightarrow> (case ax_againErr e of
            Some x \<Rightarrow> (Inl x, s)
          | None \<Rightarrow>
              let userQueues = tbl_find (\<lambda>m. ua_accountID m = ac_id a) (dr_members s)
              in (case (if userQueues = [] then None else ax_deleteMemberErr e) of
                    Some x \<Rightarrow> (Inl x, s)
                  | None \<Rightarrow>
                      let s1 = s\<lparr>dr_members := tbl_delete (\<lambda>m. ua_accountID m = ac_id a) (dr_members s)\<rparr>
                      in (case ax_deleteAccountErr e of
                          Some x \<Rightarrow> (Inl x, s1)
                        | None \<Rightarrow> (case DeleteQueue e (ac_name a) (s1\<lparr>dr_accounts := tbl_delete (\<lambda>b. ac_id b = ac_id a) (dr_accounts s1)\<rparr>) of
                            (Some x, s2) \<Rightarrow> (Inl x, s2)
                          | (None, s2) \<Rightarrow> (Inr (ac_nickname a), s2)))))))"

definition DeleteAccount :: "account_env \<Rightarrow> nat option \<Rightarrow> 'q directory \<Rightarrow> string result \<times> 'q directory" where
  "DeleteAccount e uri s =
     (case uri of
        None \<Rightarrow> (Inl ''validate delete parameters failed'', s)
      | Some aid \<Rightarrow> (case ax_findMemberErr e of
          Some x \<Rightarrow> (Inl x, s)
        | None \<Rightarrow>
            if tbl_find (\<lambda>m. ua_accountID m = aid) (dr_members s) \<noteq> [] then (Inl ''Still have members'', s)
            else in_transaction (ax_commitErr e) (delete_body e aid) s))"

section \<open>Members\<close>

record 'q member_req =
  mq_accessMode :: string
  mq_role :: string
  mq_quota :: "'q resource_list option"

text \<open>The two numbers of a request, parsed at 64 bits.\<close>

definition parse_rights :: "'q member_req \<Rightarrow> (nat \<times> nat) option" where
  "parse_rights r =
     (case parse_uint (mq_role r) of
        Inl x \<Rightarrow> None
      | Inr role \<Rightarrow> (case parse_uint (mq_accessMode r) of Inl x \<Rightarrow> None | Inr access \<Rightarrow> Some (role, access)))"

definition member_request_error :: string where
  "member_request_error = ''validate UserProject parameters failed''"

definition with_account_and_user ::
  "account_env \<Rightarrow> (nat \<times> nat) option \<Rightarrow> ('q account \<Rightarrow> user \<Rightarrow> 'q directory \<Rightarrow> string result \<times> 'q directory) \<Rightarrow>
   'q directory \<Rightarrow> string result \<times> 'q directory" where
  "with_account_and_user e uri k s =
     (case uri of
        None \<Rightarrow> (Inl member_request_error, s)
      | Some (aid, uid) \<Rightarrow> (case ax_findAccountErr e of
          Some x \<Rightarrow> (Inl (''Get Project failed, detail: '' @ x), s)
        | None \<Rightarrow> (case find_account aid s of
            None \<Rightarrow> (Inl ''Get Project failed, detail: record not found'', s)
          | Some a \<Rightarrow> (case ax_findUserErr e of
              Some x \<Rightarrow> (Inl (''Get Project failed, detail: '' @ x), s)
            | None \<Rightarrow> (case find_user uid s of
                None \<Rightarrow> (Inl ''Get Project failed, detail: record not found'', s)
              | Some u \<Rightarrow> k a u s)))))"

definition member_row :: "'q account \<Rightarrow> user \<Rightarrow> 'q member_req \<Rightarrow> nat \<Rightarrow> nat \<Rightarrow> 'q user_account" where
  "member_row queue user r role access =
     \<lparr>ua_id = 0, ua_userID = us_id user, ua_accountID = ac_id queue, ua_role = role_of_nat role,
      ua_accessMode = access_mode_of_nat access, ua_quota = no_quota\<lparr>qq_capability := or_empty (mq_quota r)\<rparr>\<rparr>"

definition AddUserProject :: "account_env \<Rightarrow> (nat \<times> nat) option \<Rightarrow> 'q member_req option \<Rightarrow> 'q directory \<Rightarrow> string result \<times> 'q directory" where
  "AddUserProject e uri body =
     with_account_and_user e uri (\<lambda>queue user s.
       case ax_findMemberErr e of
         Some x \<Rightarrow> (Inl (''Get UserProject failed, detail: '' @ x), s)
       | None \<Rightarrow> (case body of
           None \<Rightarrow> (Inl member_request_error, s)
         | Some r \<Rightarrow> (case parse_rights r of
             None \<Rightarrow> (Inl member_request_error, s)
           | Some (role, access) \<Rightarrow>
               (case add_member e (member_row queue user r role access) s of
                  (Some x, s1) \<Rightarrow> (Inl (''create UserProject failed, detail: '' @ x), s1)
                | (None, s1) \<Rightarrow> (Inr (''Add User '' @ us_name user @ '' for '' @ ac_nickname queue), s1)))))"

text \<open>Zero fields of the structure are skipped.\<close>

definition update_member :: "'q member_req \<Rightarrow> nat \<Rightarrow> nat \<Rightarrow> 'q user_account \<Rightarrow> 'q user_account" where
  "update_member r role access m = m\<lparr>
     ua_role := (if role_of_nat role = NoRole then ua_role m else role_of_nat role),
     ua_accessMode := (if access_mode_of_nat access = NoAccessMode then ua_accessMode m else access_mode_of_nat access),
     ua_quota := (case mq_quota r of None \<Rightarrow> ua_quota m | Some l \<Rightarrow> no_quota\<lparr>qq_capability := l\<rparr>)\<rparr>"

definition UpdateUserProject :: "account_env \<Rightarrow> (nat \<times> nat) option \<Rightarrow> 'q member_req option \<Rightarrow> 'q directory \<Rightarrow> string result \<times> 'q directory" where
  "UpdateUserProject e uri body =
     with_account_and_user e uri (\<lambda>queue user s.
       case ax_findMemberErr e of
         Some x \<Rightarrow> (Inl (''Get UserProject failed, detail: '' @ x), s)
       | None \<Rightarrow> (case find_member (ac_id queue) (us_id user) s of
           None \<Rightarrow> (Inl ''Get UserProject failed, detail: record not found'', s)
         | Some m \<Rightarrow> (case body of
             None \<Rightarrow> (Inl member_request_error, s)
           | Some r \<Rightarrow> (case parse_rights r of
               None \<Rightarrow> (Inl member_request_error, s)
             | Some (role, access) \<Rightarrow> (case ax_updateMemberErr e of
                 Some x \<Rightarrow> (Inl (''update UserProject failed, detail: '' @ x), s)
               | None \<Rightarrow> (Inr (''Update User '' @ us_name user @ '' for '' @ ac_nickname queue),
                   s\<lparr>dr_members := tbl_updates (\<lambda>m. ua_accountID m = ac_id queue \<and> ua_userID m = us_id user)
                       (update_member r role access) (dr_members s)\<rparr>))))))"

definition DeleteUserProject :: "account_env \<Rightarrow> (nat \<times> nat) option \<Rightarrow> 'q directory \<Rightarrow> string result \<times> 'q directory" where
  "DeleteUserProject e uri =
     with_account_and_user e uri (\<lambda>queue user s.
       case ax_findMemberErr e of
         Some x \<Rightarrow> (Inl (''delete UserProject failed, detail: '' @ x), s)
       | None \<Rightarrow> (case find_member (ac_id queue) (us_id user) s of
           None \<Rightarrow> (Inl ''delete UserProject failed, detail: record not found'', s)
         | Some m \<Rightarrow> (case ax_deleteMemberErr e of
             Some x \<Rightarrow> (Inl (''delete UserProject failed, detail: '' @ x), s)
           | None \<Rightarrow> (Inr (''delete User '' @ us_name user @ '' for '' @ ac_nickname queue),
               s\<lparr>dr_members := tbl_delete (\<lambda>r. ua_id r = ua_id m \<and> ua_userID r = ua_userID m \<and> ua_accountID r = ua_accountID m) (dr_members s)\<rparr>))))"


text \<open>The rights and the quota of a member, each only when the request has it; numbers are parsed at 8 bits.\<close>

record 'q put_member_req =
  pq_userID :: nat
  pq_role :: "string option"
  pq_accessMode :: "string option"
  pq_quota :: "'q queue_quota option"

definition parse_uint8 :: "string \<Rightarrow> parse_error + nat" where
  "parse_uint8 s = (case parse_uint s of Inl x \<Rightarrow> Inl x | Inr n \<Rightarrow> if 255 < n then Inl RangeError else Inr n)"

definition parse_opt8 :: "string option \<Rightarrow> parse_error + nat option" where
  "parse_opt8 x = (case x of None \<Rightarrow> Inr None | Some s \<Rightarrow> (case parse_uint8 s of Inl y \<Rightarrow> Inl y | Inr n \<Rightarrow> Inr (Some n)))"

text \<open>\<open>AsInt64\<close> of a quantity is a parameter: its value, if it is an integer of 64 bits.\<close>

definition checkResource :: "('q \<Rightarrow> int option) \<Rightarrow> 'q resource_list \<Rightarrow> bool" where
  "checkResource asInt64 ls = list_all (\<lambda>(k, v). case asInt64 v of None \<Rightarrow> True | Some i \<Rightarrow> 0 \<le> i) ls"

definition put_member_request_error :: string where
  "put_member_request_error = ''validate PutUserInProject parameters failed''"

definition put_member :: "nat option \<Rightarrow> nat option \<Rightarrow> 'q queue_quota option \<Rightarrow> 'q user_account \<Rightarrow> 'q user_account" where
  "put_member role access quota m = m\<lparr>
     ua_role := (case role of None \<Rightarrow> ua_role m | Some n \<Rightarrow> role_of_nat n),
     ua_accessMode := (case access of None \<Rightarrow> ua_accessMode m | Some n \<Rightarrow> access_mode_of_nat n),
     ua_quota := (case quota of None \<Rightarrow> ua_quota m | Some q \<Rightarrow> q)\<rparr>"

definition PutUserInProject ::
  "('q \<Rightarrow> int option) \<Rightarrow> account_env \<Rightarrow> nat option \<Rightarrow> 'q put_member_req option \<Rightarrow> 'q directory \<Rightarrow> (nat \<times> nat) result \<times> 'q directory" where
  "PutUserInProject asInt64 e uri req s =
     (case (uri, req) of
        (Some aid, Some r) \<Rightarrow>
          (case parse_opt8 (pq_role r) of
             Inl x \<Rightarrow> (Inl put_member_request_error, s)
           | Inr role \<Rightarrow> (case parse_opt8 (pq_accessMode r) of
               Inl x \<Rightarrow> (Inl put_member_request_error, s)
             | Inr access \<Rightarrow>
                 if (case pq_quota r of None \<Rightarrow> False
                     | Some q \<Rightarrow> \<not> checkResource asInt64 (qq_guaranteed q) \<or> \<not> checkResource asInt64 (qq_deserved q) \<or>
                                 \<not> checkResource asInt64 (qq_capability q))
                 then (Inl put_member_request_error, s)
                 else (case ax_updateMemberErr e of
                     Some x \<Rightarrow> (Inl (''failed to create or update user in project, detail: '' @ x), s)
                   | None \<Rightarrow> (Inr (aid, pq_userID r),
                       s\<lparr>dr_members := tbl_updates (\<lambda>m. ua_accountID m = aid \<and> ua_userID m = pq_userID r)
                           (put_member role access (pq_quota r)) (dr_members s)\<rparr>))))
      | _ \<Rightarrow> (Inl put_member_request_error, s))"

section \<open>Listings\<close>

record account_resp =
  rp_name :: string
  rp_nickname :: string
  rp_role :: role
  rp_accessMode :: access_mode
  rp_expiredAt :: "time option"

text \<open>One row for every membership row, the newest account first.\<close>

definition ListForUser :: "fault \<Rightarrow> nat \<Rightarrow> 'q directory \<Rightarrow> account_resp list result" where
  "ListForUser err uid s =
     (case err of
        Some x \<Rightarrow> Inl x
      | None \<Rightarrow> Inr (concat (map (\<lambda>a. map (\<lambda>m. \<lparr>rp_name = ac_name a, rp_nickname = ac_nickname a, rp_role = ua_role m,
            rp_accessMode = ua_accessMode m, rp_expiredAt = ac_expiredAt a\<rparr>)
          (tbl_find (\<lambda>m. ua_userID m = uid \<and> ua_accountID m = ac_id a) (dr_members s))) (rev (dr_accounts s)))))"

record 'q list_all_resp =
  la_id :: nat
  la_name :: string
  la_nickname :: string
  la_space :: string
  la_quota :: "'q queue_quota"
  la_expiredAt :: "time option"

definition list_all_resp_of :: "'q account \<Rightarrow> 'q list_all_resp" where
  "list_all_resp_of a = \<lparr>la_id = ac_id a, la_name = ac_name a, la_nickname = ac_nickname a, la_space = ac_space a,
     la_quota = ac_quota a, la_expiredAt = ac_expiredAt a\<rparr>"

definition ListForAdmin :: "fault \<Rightarrow> 'q directory \<Rightarrow> 'q list_all_resp list result" where
  "ListForAdmin err s = (case err of Some x \<Rightarrow> Inl x | None \<Rightarrow> Inr (map list_all_resp_of (dr_accounts s)))"

definition GetAccountByID :: "fault \<Rightarrow> nat option \<Rightarrow> 'q directory \<Rightarrow> 'q list_all_resp result" where
  "GetAccountByID err uri s =
     (case uri of
        None \<Rightarrow> Inl ''invalid request''
      | Some aid \<Rightarrow> (case err of
          Some x \<Rightarrow> Inl (''find project failed, detail: '' @ x)
        | None \<Rightarrow> (case find_account aid s of
            None \<Rightarrow> Inl ''find project failed, detail: record not found''
          | Some a \<Rightarrow> Inr (list_all_resp_of a))))"

definition GetAccountByName :: "fault \<Rightarrow> string option \<Rightarrow> 'q directory \<Rightarrow> 'q list_all_resp result" where
  "GetAccountByName err uri s =
     (case uri of
        None \<Rightarrow> Inl ''invalid request''
      | Some n \<Rightarrow> (case err of
          Some x \<Rightarrow> Inl (''find project failed, detail: '' @ x)
        | None \<Rightarrow> (case tbl_first (\<lambda>a. ac_name a = n) (dr_accounts s) of
            None \<Rightarrow> Inl ''find project failed, detail: record not found''
          | Some a \<Rightarrow> Inr (list_all_resp_of a))))"

record 'q member_resp =
  mr_id :: nat
  mr_name :: string
  mr_role :: role
  mr_accessMode :: access_mode
  mr_attributes :: user_attribute
  mr_quota :: "'q queue_quota"

definition GetUserInProject :: "fault \<Rightarrow> fault \<Rightarrow> nat option \<Rightarrow> 'q directory \<Rightarrow> 'q member_resp list result" where
  "GetUserInProject findErr scanErr uri s =
     (case uri of
        None \<Rightarrow> Inl member_request_error
      | Some aid \<Rightarrow> (case findErr of
          Some x \<Rightarrow> Inl (''Get Project failed, detail: '' @ x)
        | None \<Rightarrow> (case find_account aid s of
            None \<Rightarrow> Inl ''Get Project failed, detail: record not found''
          | Some a \<Rightarrow> (case scanErr of
              Some x \<Rightarrow> Inl (''Get UserProject failed, detail: '' @ x)
            | None \<Rightarrow> Inr (remdups (concat (map (\<lambda>u. map (\<lambda>m. \<lparr>mr_id = us_id u, mr_name = us_name u, mr_role = ua_role m,
                  mr_accessMode = ua_accessMode m, mr_attributes = us_attributes u, mr_quota = ua_quota m\<rparr>)
                (tbl_find (\<lambda>m. ua_userID m = us_id u \<and> ua_accountID m = ac_id a) (dr_members s))) (dr_users s))))))))"

text \<open>The users outside an account, with the columns of the user table alone: the role is the platform's.\<close>

definition GetUserOutOfProject :: "fault \<Rightarrow> fault \<Rightarrow> fault \<Rightarrow> nat option \<Rightarrow> 'q directory \<Rightarrow> 'q member_resp list result" where
  "GetUserOutOfProject findErr idsErr scanErr uri s =
     (case uri of
        None \<Rightarrow> Inl member_request_error
      | Some aid \<Rightarrow> (case findErr of
          Some x \<Rightarrow> Inl (''Get Project failed, detail: '' @ x)
        | None \<Rightarrow> (case find_account aid s of
            None \<Rightarrow> Inl ''Get Project failed, detail: record not found''
          | Some a \<Rightarrow> (case idsErr of
              Some x \<Rightarrow> Inl (''Failed to scan user IDs: '' @ x)
            | None \<Rightarrow> (case scanErr of
                Some x \<Rightarrow> Inl (''Get UserProject failed, detail: '' @ x)
              | None \<Rightarrow>
                  let uids = map ua_userID (tbl_find (\<lambda>m. ua_accountID m = ac_id a) (dr_members s))
                  in Inr (remdups (map (\<lambda>u. \<lparr>mr_id = us_id u, mr_name = us_name u, mr_role = us_role u, mr_accessMode = NoAccessMode,
                       mr_attributes = us_attributes u, mr_quota = no_quota\<rparr>)
                     (tbl_find (\<lambda>u. us_id u \<notin> set uids) (dr_users s))))))))) "


section \<open>Runs of the handlers\<close>

datatype 'q account_call =
    CallCreate account_env string "'q account_req option"
  | CallUpdate account_env "'q account_req option" "nat option"
  | CallDelete account_env "nat option"
  | CallAddMember account_env "(nat \<times> nat) option" "'q member_req option"
  | CallUpdateMember account_env "(nat \<times> nat) option" "'q member_req option"
  | CallPutMember account_env "nat option" "'q put_member_req option"
  | CallDeleteMember account_env "(nat \<times> nat) option"

primrec account_step :: "('q \<Rightarrow> int option) \<Rightarrow> 'q account_call \<Rightarrow> 'q directory \<Rightarrow> 'q directory" where
  "account_step ai (CallCreate e username req) s = snd (CreateAccount e username req s)"
| "account_step ai (CallUpdate e req uri) s = snd (UpdateAccount e req uri s)"
| "account_step ai (CallDelete e uri) s = snd (DeleteAccount e uri s)"
| "account_step ai (CallAddMember e uri body) s = snd (AddUserProject e uri body s)"
| "account_step ai (CallUpdateMember e uri body) s = snd (UpdateUserProject e uri body s)"
| "account_step ai (CallPutMember e uri req) s = snd (PutUserInProject ai e uri req s)"
| "account_step ai (CallDeleteMember e uri) s = snd (DeleteUserProject e uri s)"

definition account_run :: "('q \<Rightarrow> int option) \<Rightarrow> 'q account_call list \<Rightarrow> 'q directory \<Rightarrow> 'q directory" where
  "account_run ai cs s = fold (account_step ai) cs s"

text \<open>
  Keys are unique and below their sequence; every membership row belongs to an account of the table or to
  the default account, which new users join without a look at the table.
\<close>

definition directory_ok :: "'q directory \<Rightarrow> bool" where
  "directory_ok s \<longleftrightarrow> distinct (map ac_id (dr_accounts s)) \<and> (\<forall>a \<in> set (dr_accounts s). ac_id a \<le> dr_accountSeq s) \<and>
     distinct (map ua_id (dr_members s)) \<and> (\<forall>m \<in> set (dr_members s). ua_id m \<le> dr_memberSeq s) \<and>
     (\<forall>m \<in> set (dr_members s). ua_accountID m \<in> insert DefaultAccountID (ac_id ` set (dr_accounts s)))"

lemma map_key_updates: "(\<And>r. r \<in> set t \<Longrightarrow> P r \<Longrightarrow> h (g r) = h r) \<Longrightarrow> map h (tbl_updates P g t) = map h t"
  by (simp add: tbl_updates_def)

lemma directory_ok_keys:
  "directory_ok s \<longleftrightarrow> distinct (map ac_id (dr_accounts s)) \<and> (\<forall>i \<in> set (map ac_id (dr_accounts s)). i \<le> dr_accountSeq s) \<and>
     distinct (map ua_id (dr_members s)) \<and> (\<forall>i \<in> set (map ua_id (dr_members s)). i \<le> dr_memberSeq s) \<and>
     (\<forall>i \<in> set (map ua_accountID (dr_members s)). i \<in> insert DefaultAccountID (set (map ac_id (dr_accounts s))))"
  by (simp add: directory_ok_def)

lemma directory_ok_cong:
  assumes "map ac_id (dr_accounts s1) = map ac_id (dr_accounts s)" "map ua_id (dr_members s1) = map ua_id (dr_members s)"
    "map ua_accountID (dr_members s1) = map ua_accountID (dr_members s)"
    "dr_accountSeq s \<le> dr_accountSeq s1" "dr_memberSeq s \<le> dr_memberSeq s1" "directory_ok s"
  shows "directory_ok s1"
  using assms(4-6) unfolding directory_ok_keys assms(1-3) by (blast intro: order_trans)

lemma directory_ok_add_member:
  "directory_ok s \<Longrightarrow> ua_accountID m \<in> insert DefaultAccountID (ac_id ` set (dr_accounts s)) \<Longrightarrow> directory_ok (snd (add_member e m s))"
  by (auto simp: directory_ok_def add_member_def le_Suc_eq split: option.split)

lemma add_member_accounts [simp]: "dr_accounts (snd (add_member e m s)) = dr_accounts s"
  by (auto simp: add_member_def split: option.split)

lemma directory_ok_add_admins:
  "directory_ok s \<Longrightarrow> aid \<in> ac_id ` set (dr_accounts s) \<Longrightarrow> directory_ok (snd (add_admins e aid ids s)) \<and> dr_accounts (snd (add_admins e aid ids s)) = dr_accounts s"
proof (induction ids arbitrary: s)
  case (Cons i ids)
  let ?m = "\<lparr>ua_id = 0, ua_userID = i, ua_accountID = aid, ua_role = RoleAdmin, ua_accessMode = AccessModeRW, ua_quota = no_quota\<rparr> :: 'a user_account"
  obtain f s1 where s1: "add_member e ?m s = (f, s1)" by (cases "add_member e ?m s")
  have "directory_ok s1" "dr_accounts s1 = dr_accounts s"
    using directory_ok_add_member [of s ?m e] add_member_accounts [of e ?m s] Cons.prems s1 by auto
  with Cons s1 show ?case by (auto split: option.split)
qed simp


primrec admin_rows :: "nat \<Rightarrow> nat \<Rightarrow> nat list \<Rightarrow> 'q user_account list" where
  "admin_rows aid n [] = []"
| "admin_rows aid n (i # ids) = \<lparr>ua_id = Suc n, ua_userID = i, ua_accountID = aid, ua_role = RoleAdmin,
     ua_accessMode = AccessModeRW, ua_quota = no_quota\<rparr> # admin_rows aid (Suc n) ids"

lemma add_admins_frame:
  "dr_accounts (snd (add_admins e aid ids s)) = dr_accounts s \<and> dr_users (snd (add_admins e aid ids s)) = dr_users s \<and>
   dr_queues (snd (add_admins e aid ids s)) = dr_queues s \<and> dr_accountSeq (snd (add_admins e aid ids s)) = dr_accountSeq s \<and>
   dr_memberSeq s \<le> dr_memberSeq (snd (add_admins e aid ids s))"
proof (induction ids arbitrary: s)
  case (Cons i ids)
  have "dr_memberSeq s \<le> dr_memberSeq s1" if "Suc (dr_memberSeq s) \<le> dr_memberSeq s1" for s1 :: "'a directory" using that by simp
  moreover note Cons.IH [of "snd (add_member e \<lparr>ua_id = 0, ua_userID = i, ua_accountID = aid, ua_role = RoleAdmin, ua_accessMode = AccessModeRW, ua_quota = no_quota\<rparr> s)"]
  ultimately show ?case by (auto simp: add_member_def split: option.splits)
qed simp

lemma add_admins_None:
  "add_admins e aid ids s = (None, s2) \<Longrightarrow> dr_members s2 = dr_members s @ admin_rows aid (dr_memberSeq s) ids"
proof (induction ids arbitrary: s)
  case (Cons i ids)
  let ?m = "\<lparr>ua_id = 0, ua_userID = i, ua_accountID = aid, ua_role = RoleAdmin, ua_accessMode = AccessModeRW, ua_quota = no_quota\<rparr> :: 'a user_account"
  let ?s1 = "s\<lparr>dr_members := dr_members s @ [?m\<lparr>ua_id := Suc (dr_memberSeq s)\<rparr>], dr_memberSeq := Suc (dr_memberSeq s)\<rparr>"
  have "ax_createMemberErr e i = None" "add_admins e aid ids ?s1 = (None, s2)"
    using Cons.prems by (auto simp: add_member_def split: option.splits)
  with Cons.IH [of ?s1] show ?case by simp
qed simp

definition new_queue :: "string \<Rightarrow> nat \<Rightarrow> 'q account_req \<Rightarrow> 'q vqueue" where
  "new_queue username i r = \<lparr>vq_name = ''q-'' @ fmt_uint i, vq_createdBy = username, vq_guarantee = qq_guaranteed (quota_of_req r),
     vq_deserved = qq_deserved (quota_of_req r), vq_capability = qq_capability (quota_of_req r), vq_allocated = [], vq_running = 0\<rparr>"

lemma fresh_account_rows:
  assumes "directory_ok s"
  shows "tbl_updates (\<lambda>a. ac_id a = Suc (dr_accountSeq s)) f (dr_accounts s @ [a]) = dr_accounts s @ [if ac_id a = Suc (dr_accountSeq s) then f a else a]"
proof -
  have "map (\<lambda>r. if ac_id r = Suc (dr_accountSeq s) then f r else r) (dr_accounts s) = dr_accounts s"
    using assms by (intro map_idI) (auto simp: directory_ok_def)
  then show ?thesis by (simp add: tbl_updates_def)
qed

definition created :: "string \<Rightarrow> 'q account_req \<Rightarrow> 'q directory \<Rightarrow> 'q directory \<Rightarrow> bool" where
  "created username r s s1 \<longleftrightarrow> dr_accounts s1 = dr_accounts s @ [new_account (Suc (dr_accountSeq s)) r] \<and>
     dr_members s1 = dr_members s @ admin_rows (Suc (dr_accountSeq s)) (dr_memberSeq s) (aq_admins r) \<and> dr_users s1 = dr_users s \<and>
     dr_queues s1 = dr_queues s @ (if aq_withoutVolcano r then [] else [new_queue username (Suc (dr_accountSeq s)) r])"

lemma create_body_cases:
  assumes ok: "directory_ok s" and r: "create_body e username r s = (res, s1)"
  shows "(case res of Inl x \<Rightarrow> dr_queues s1 = dr_queues s | Inr i \<Rightarrow> i = Suc (dr_accountSeq s) \<and> created username r s s1) \<and>
    dr_accountSeq s \<le> dr_accountSeq s1 \<and> dr_memberSeq s \<le> dr_memberSeq s1 \<and> (\<forall>i. res = Inr i \<longrightarrow> directory_ok s1)"
proof (cases "ax_createAccountErr e = None \<and> \<not> list_ex (\<lambda>a. ac_name a = [] \<or> ac_space a = []) (dr_accounts s)")
  case False
  with r show ?thesis by (auto simp: create_body_def Let_def split: option.splits)
next
  case True
  let ?i = "Suc (dr_accountSeq s)"
  define q where "q = \<lparr>ac_id = ?i, ac_name = [], ac_nickname = aq_nickname r, ac_space = [], ac_expiredAt = None,
                       ac_quota = no_quota, ac_userDefaultQuota = None :: 'a queue_quota option\<rparr>"
  define s0 where "s0 = s\<lparr>dr_accountSeq := ?i, dr_accounts := dr_accounts s @ [q]\<rparr>"
  have ok0: "directory_ok s0" using ok by (auto simp: s0_def q_def directory_ok_def le_Suc_eq)
  obtain f s2 where s2: "add_admins e ?i (aq_admins r) s0 = (f, s2)" by (cases "add_admins e ?i (aq_admins r) s0")
  have ok2: "directory_ok s2" using directory_ok_add_admins [OF ok0, of ?i e "aq_admins r"] s2 by (simp add: s0_def q_def)
  have fr: "dr_accounts s2 = dr_accounts s @ [q]" "dr_users s2 = dr_users s" "dr_queues s2 = dr_queues s"
      "dr_accountSeq s2 = ?i" "dr_memberSeq s \<le> dr_memberSeq s2"
    using add_admins_frame [of e ?i "aq_admins r" s0] s2 by (simp_all add: s0_def)
  have mem: "f = None \<Longrightarrow> dr_members s2 = dr_members s @ admin_rows ?i (dr_memberSeq s) (aq_admins r)"
    using add_admins_None [of e ?i "aq_admins r" s0 s2] s2 by (simp add: s0_def)
  define s3 where "s3 = s2\<lparr>dr_accounts := dr_accounts s @ [new_account ?i r]\<rparr>"
  have ok3: "directory_ok s3"
    by (rule directory_ok_cong [OF _ _ _ _ _ ok2]) (simp_all add: s3_def fr q_def new_account_def)
  have ok4: "directory_ok (s3\<lparr>dr_queues := qs\<rparr>)" for qs
    by (rule directory_ok_cong [OF _ _ _ _ _ ok3]) simp_all
  have upd: "tbl_updates (\<lambda>a. ac_id a = ?i) (\<lambda>_. new_account ?i r) (dr_accounts s2) = dr_accounts s @ [new_account ?i r]"
    using fresh_account_rows [OF ok, of "\<lambda>_. new_account ?i r" q] by (simp add: fr q_def)
  have body: "create_body e username r s = (case add_admins e ?i (aq_admins r) s0 of (Some x, s2) \<Rightarrow> (Inl x, s2) | (None, s2) \<Rightarrow> (case ax_updateAccountErr e of
       Some x \<Rightarrow> (Inl x, s2)
     | None \<Rightarrow> if list_ex (\<lambda>a. ac_id a \<noteq> ?i \<and> (ac_name a = ac_name (new_account ?i r) \<or> ac_space a = ac_space (new_account ?i r))) (dr_accounts s2)
               then (Inl ''duplicate key'', s2)
               else if aq_withoutVolcano r then (Inr ?i, s2\<lparr>dr_accounts := tbl_updates (\<lambda>a. ac_id a = ?i) (\<lambda>_. new_account ?i r) (dr_accounts s2)\<rparr>)
               else (case CreateVolcanoQueue e username (new_account ?i r) r (s2\<lparr>dr_accounts := tbl_updates (\<lambda>a. ac_id a = ?i) (\<lambda>_. new_account ?i r) (dr_accounts s2)\<rparr>) of
                  (Some x, s4) \<Rightarrow> (Inl x, s4) | (None, s4) \<Rightarrow> (Inr ?i, s4))))"
    using True unfolding create_body_def Let_def s0_def q_def by simp
  have vq: "CreateVolcanoQueue e username (new_account ?i r) r s3 = (None, s4) \<Longrightarrow> s4 = s3\<lparr>dr_queues := dr_queues s3 @ [new_queue username ?i r]\<rparr>"
    "CreateVolcanoQueue e username (new_account ?i r) r s3 = (Some x, s4) \<Longrightarrow> s4 = s3" for x s4
    by (auto simp: CreateVolcanoQueue_def new_queue_def new_account_def quota_of_req_def split: option.splits if_splits)
  have fin: "created username r s s3'" if "s3' = s3\<lparr>dr_queues := dr_queues s3 @ (if aq_withoutVolcano r then [] else [new_queue username ?i r])\<rparr>" "f = None" for s3'
    using that mem by (auto simp: created_def s3_def fr)
  have tail: "create_body e username r s = (case f of Some x \<Rightarrow> (Inl x, s2) | None \<Rightarrow> (case ax_updateAccountErr e of
       Some x \<Rightarrow> (Inl x, s2)
     | None \<Rightarrow> if list_ex (\<lambda>a. ac_id a \<noteq> ?i \<and> (ac_name a = ac_name (new_account ?i r) \<or> ac_space a = ac_space (new_account ?i r))) (dr_accounts s2)
               then (Inl ''duplicate key'', s2)
               else if aq_withoutVolcano r then (Inr ?i, s3)
               else (case CreateVolcanoQueue e username (new_account ?i r) r s3 of (Some x, s4) \<Rightarrow> (Inl x, s4) | (None, s4) \<Rightarrow> (Inr ?i, s4))))"
    unfolding body s2 s3_def by (cases f; cases "ax_updateAccountErr e") (simp_all add: upd)
  have seqs: "dr_accountSeq s \<le> dr_accountSeq s3" "dr_memberSeq s \<le> dr_memberSeq s3" "dr_queues s3 = dr_queues s"
    by (simp_all add: s3_def fr)
  consider (early) x where "create_body e username r s = (Inl x, s2)" | (plain) "f = None" "aq_withoutVolcano r" "create_body e username r s = (Inr ?i, s3)"
    | (queue) "f = None" "\<not> aq_withoutVolcano r" "create_body e username r s =
        (case CreateVolcanoQueue e username (new_account ?i r) r s3 of (Some x, s4) \<Rightarrow> (Inl x, s4) | (None, s4) \<Rightarrow> (Inr ?i, s4))"
    unfolding tail by (cases f; cases "ax_updateAccountErr e"; cases "aq_withoutVolcano r") (simp_all, metis+)
  then show ?thesis
  proof cases
    case early
    with r fr show ?thesis by auto
  next
    case plain
    with r seqs ok3 fin [of s3] show ?thesis by auto
  next
    case queue
    obtain g s4 where s4: "CreateVolcanoQueue e username (new_account ?i r) r s3 = (g, s4)" by (cases "CreateVolcanoQueue e username (new_account ?i r) r s3")
    show ?thesis
    proof (cases g)
      case None
      with s4 vq(1) have s4': "s4 = s3\<lparr>dr_queues := dr_queues s3 @ [new_queue username ?i r]\<rparr>" by blast
      with queue r s4 None fin [of s4] ok4 seqs show ?thesis by auto
    next
      case (Some x)
      with s4 vq(2) have "s4 = s3" by blast
      with queue r s4 Some seqs show ?thesis by auto
    qed
  qed
qed


lemma directory_ok_roll_back:
  "directory_ok s \<Longrightarrow> dr_accountSeq s \<le> dr_accountSeq s1 \<Longrightarrow> dr_memberSeq s \<le> dr_memberSeq s1 \<Longrightarrow> directory_ok (roll_back s s1)"
  by (rule directory_ok_cong [of _ s]) (simp_all add: roll_back_def)

text \<open>A transaction keeps an invariant of the tables that its body keeps when it succeeds.\<close>

lemma directory_ok_transaction:
  assumes "directory_ok s" "body s = (res, s1)" "\<And>v. res = Inr v \<Longrightarrow> directory_ok s1"
    "dr_accountSeq s \<le> dr_accountSeq s1" "dr_memberSeq s \<le> dr_memberSeq s1"
  shows "directory_ok (snd (in_transaction c body s))"
  using assms directory_ok_roll_back [OF assms(1,4,5)] by (auto simp: in_transaction_def split: sum.split option.split)

lemma find_account_in: "find_account i s = Some a \<Longrightarrow> a \<in> set (dr_accounts s) \<and> ac_id a = i"
  by (auto simp: find_account_def dest: tbl_first_Some)

lemma find_user_in: "find_user i s = Some u \<Longrightarrow> u \<in> set (dr_users s) \<and> us_id u = i"
  by (auto simp: find_user_def dest: tbl_first_Some)

lemma find_member_in: "find_member aid uid s = Some m \<Longrightarrow> m \<in> set (dr_members s) \<and> ua_accountID m = aid \<and> ua_userID m = uid"
  by (auto simp: find_member_def dest: tbl_first_Some)

lemma directory_ok_create: "directory_ok s \<Longrightarrow> directory_ok (snd (CreateAccount e username req s))"
proof (cases req)
  case (Some r)
  assume ok: "directory_ok s"
  obtain res s1 where b: "create_body e username r s = (res, s1)" by (cases "create_body e username r s")
  have "directory_ok (snd (in_transaction (ax_commitErr e) (create_body e username r) s))"
    by (rule directory_ok_transaction [where body = "create_body e username r", OF ok b]) (use create_body_cases [OF ok b] in auto)
  with ok Some show ?thesis by (simp add: CreateAccount_def)
qed (simp add: CreateAccount_def)

lemma directory_ok_rows:
  "directory_ok s \<Longrightarrow> (\<And>a. a \<in> set (dr_accounts s) \<Longrightarrow> P a \<Longrightarrow> ac_id (f a) = ac_id a) \<Longrightarrow>
   directory_ok (s\<lparr>dr_accounts := tbl_updates P f (dr_accounts s)\<rparr>)"
  by (erule directory_ok_cong [rotated -1]) (simp_all add: map_key_updates)

lemma directory_ok_member_rows:
  "directory_ok s \<Longrightarrow> (\<And>m. ua_id (f m) = ua_id m \<and> ua_accountID (f m) = ua_accountID m) \<Longrightarrow>
   directory_ok (s\<lparr>dr_members := tbl_updates P f (dr_members s)\<rparr>)"
  by (erule directory_ok_cong [rotated -1]) (simp_all add: map_key_updates)

lemma directory_ok_queues [simp]: "directory_ok (s\<lparr>dr_queues := qs\<rparr>) = directory_ok s"
  by (simp add: directory_ok_def)

lemma updateVolcanoQueue_queues: "\<exists>qs. snd (updateVolcanoQueue e a r s) = s\<lparr>dr_queues := qs\<rparr>"
  by (auto simp: updateVolcanoQueue_def split: option.split intro: exI [of _ "dr_queues s"])

lemma DeleteQueue_queues: "\<exists>qs. snd (DeleteQueue e n s) = s\<lparr>dr_queues := qs\<rparr>"
  by (auto simp: DeleteQueue_def split: option.split intro: exI [of _ "dr_queues s"])

lemma directory_ok_update: "directory_ok s \<Longrightarrow> directory_ok (snd (UpdateAccount e req uri s))"
proof (cases "\<exists>r aid a. req = Some r \<and> uri = Some aid \<and> find_account aid s = Some a")
  case True
  assume ok: "directory_ok s"
  obtain r aid a where h: "req = Some r" "uri = Some aid" "find_account aid s = Some a" using True by blast
  define s1 where "s1 = s\<lparr>dr_accounts := tbl_updates (\<lambda>b. ac_id b = ac_id a) (\<lambda>_. update_row r a) (dr_accounts s)\<rparr>"
  have ok1: "directory_ok s1" unfolding s1_def by (rule directory_ok_rows [OF ok]) (simp add: update_row_def)
  obtain qs where "snd (updateVolcanoQueue e a r s1) = s1\<lparr>dr_queues := qs\<rparr>" using updateVolcanoQueue_queues by blast
  then have ok2: "directory_ok (snd (updateVolcanoQueue e a r s1))" using ok1 by simp
  obtain f s2 where s2: "updateVolcanoQueue e a r s1 = (f, s2)" by (cases "updateVolcanoQueue e a r s1")
  with ok2 have ok2': "directory_ok s2" by simp
  have "snd (UpdateAccount e req uri s) \<in> {s, s1, s2}"
    by (auto simp: UpdateAccount_def h s1_def [symmetric] s2 Let_def split: option.split)
  with ok ok1 ok2' show ?thesis by auto
qed (auto simp: UpdateAccount_def split: option.split)

lemma delete_body_ok:
  assumes ok: "directory_ok s"
  shows "directory_ok (snd (delete_body e aid s)) \<and> dr_accountSeq (snd (delete_body e aid s)) = dr_accountSeq s \<and>
     dr_memberSeq (snd (delete_body e aid s)) = dr_memberSeq s"
proof (cases "find_account aid s")
  case (Some a)
  define s1 where "s1 = s\<lparr>dr_members := tbl_delete (\<lambda>m. ua_accountID m = ac_id a) (dr_members s)\<rparr>"
  define s2 where "s2 = s1\<lparr>dr_accounts := tbl_delete (\<lambda>b. ac_id b = ac_id a) (dr_accounts s1)\<rparr>"
  have ok12: "directory_ok s1" "directory_ok s2"
    using ok by (auto simp: s1_def s2_def directory_ok_def tbl_delete_def distinct_map_filter)
  have seqs: "dr_accountSeq s1 = dr_accountSeq s" "dr_memberSeq s1 = dr_memberSeq s" "dr_accountSeq s2 = dr_accountSeq s" "dr_memberSeq s2 = dr_memberSeq s"
    by (simp_all add: s1_def s2_def)
  obtain f s3 where s3: "DeleteQueue e (ac_name a) s2 = (f, s3)" by (cases "DeleteQueue e (ac_name a) s2")
  obtain qs where qs: "s3 = s2\<lparr>dr_queues := qs\<rparr>" using DeleteQueue_queues [of e "ac_name a" s2] s3 by auto
  have "snd (delete_body e aid s) \<in> {s, s1, s3}"
    by (auto simp: delete_body_def Some s1_def [symmetric] s2_def [symmetric] s3 Let_def split: option.split)
  with ok ok12 seqs qs show ?thesis by auto
qed (auto simp: delete_body_def ok split: option.split)

lemma directory_ok_delete: "directory_ok s \<Longrightarrow> directory_ok (snd (DeleteAccount e uri s))"
proof (cases uri)
  case (Some aid)
  assume ok: "directory_ok s"
  obtain res s1 where b: "delete_body e aid s = (res, s1)" by (cases "delete_body e aid s")
  have "directory_ok (snd (in_transaction (ax_commitErr e) (delete_body e aid) s))"
    by (rule directory_ok_transaction [where body = "delete_body e aid", OF ok b]) (use delete_body_ok [OF ok, of e aid] b in auto)
  with ok Some show ?thesis by (simp add: DeleteAccount_def split: option.split)
qed (simp add: DeleteAccount_def)


lemma case_add_result: "snd (case p of (None, s1) \<Rightarrow> (Inr y, s1) | (Some x, s1) \<Rightarrow> (Inl (f x), s1)) = snd p"
  by (cases p) (simp split: option.split)

lemma AddUserProject_cases:
  "snd (AddUserProject e uri body s) = s \<or>
   (\<exists>aid a u r role access. find_account aid s = Some a \<and> snd (AddUserProject e uri body s) = snd (add_member e (member_row a u r role access) s))"
  by (cases uri; cases body) (simp_all add: AddUserProject_def with_account_and_user_def case_add_result split: option.split prod.split, blast)

lemma directory_ok_members:
  assumes ok: "directory_ok s"
  shows "directory_ok (snd (AddUserProject e uri body s))" and "directory_ok (snd (UpdateUserProject e uri body s))"
    and "directory_ok (snd (PutUserInProject ai e aid req s))" and "directory_ok (snd (DeleteUserProject e uri s))"
proof -
  have add: "directory_ok (snd (add_member e (member_row a u r role access) s))" if "find_account i s = Some a" for i a u r role access
    by (rule directory_ok_add_member [OF ok]) (use find_account_in [OF that] in \<open>auto simp: member_row_def\<close>)
  have rows: "directory_ok (s\<lparr>dr_members := tbl_updates P (update_member r x y) (dr_members s)\<rparr>)"
    "directory_ok (s\<lparr>dr_members := tbl_updates P (put_member b c d) (dr_members s)\<rparr>)" for P r x y b c d
    by (rule directory_ok_member_rows [OF ok], simp add: update_member_def put_member_def)+
  have del: "directory_ok (s\<lparr>dr_members := tbl_delete P (dr_members s)\<rparr>)" for P
    using ok by (auto simp: directory_ok_def tbl_delete_def distinct_map_filter)
  show "directory_ok (snd (AddUserProject e uri body s))"
    using AddUserProject_cases [of e uri body s] add ok by (elim disjE exE conjE) simp_all
  show "directory_ok (snd (UpdateUserProject e uri body s))"
    using ok rows by (auto simp: UpdateUserProject_def with_account_and_user_def split: option.split)
  show "directory_ok (snd (PutUserInProject ai e aid req s))"
    using ok rows by (auto simp: PutUserInProject_def split: option.split sum.split)
  show "directory_ok (snd (DeleteUserProject e uri s))"
    using ok del by (auto simp: DeleteUserProject_def with_account_and_user_def split: option.split)
qed

text \<open>Claim C8. Whatever the administrators do, in any order and with any failures, keys stay unique and no membership row is left
  without its account: every row belongs to an account of the table or to the default account.
\<close>

theorem members_have_accounts:
  assumes "directory_ok s"
  shows "directory_ok (account_run ai cs s)"
  using assms
proof (induction cs arbitrary: s)
  case (Cons c cs)
  have "directory_ok (account_step ai c s)"
    by (cases c) (simp_all add: directory_ok_create directory_ok_update directory_ok_delete directory_ok_members Cons.prems)
  from Cons.IH [OF this] show ?case by (simp add: account_run_def)
qed (simp add: account_run_def)


section \<open>What the handlers do\<close>

lemma created_row:
  assumes "directory_ok s" "created username r s s1"
  shows "find_account (Suc (dr_accountSeq s)) s1 = Some (new_account (Suc (dr_accountSeq s)) r)"
proof -
  have "tbl_first (\<lambda>a. ac_id a = Suc (dr_accountSeq s)) (dr_accounts s) = None"
    using assms(1) by (auto simp: directory_ok_def tbl_first_None)
  with assms(2) show ?thesis by (simp add: created_def find_account_def tbl_first_append tbl_first_Cons new_account_def)
qed

lemma created_found:
  assumes ok: "directory_ok s" and c: "CreateAccount e username (Some r) s = (Inr i, s1)"
  shows "find_account i s1 = Some (new_account i r)"
proof -
  obtain res s' where b: "create_body e username r s = (res, s')" by (cases "create_body e username r s")
  have "res = Inr i" "s' = s1" using c by (auto simp: CreateAccount_def in_transaction_def b split: if_splits sum.splits option.splits)
  with create_body_cases [OF ok b] created_row [OF ok] show ?thesis by auto
qed

text \<open>Creating an account is all or nothing in the tables: a call that fails leaves accounts, members and users as they were,
  and the cluster too unless only the commit failed; a call that succeeds adds one account with a new key and the name
  \<open>q-\<close> followed by the key, one administrator row per user of the request, and the account's queue unless the
  request asks for none.
\<close>

theorem create_account_outcome:
  assumes "directory_ok s"
  shows "case CreateAccount e username req s of
      (Inl x, s1) \<Rightarrow> dr_accounts s1 = dr_accounts s \<and> dr_members s1 = dr_members s \<and> dr_users s1 = dr_users s \<and>
        (ax_commitErr e = None \<longrightarrow> dr_queues s1 = dr_queues s)
    | (Inr i, s1) \<Rightarrow> (\<exists>r. req = Some r \<and> i = Suc (dr_accountSeq s) \<and> created username r s s1 \<and> find_account i s1 = Some (new_account i r))"
proof (cases "\<exists>r. req = Some r \<and> aq_nickname r \<noteq> [] \<and> aq_admins r \<noteq> []")
  case True
  then obtain r where r: "req = Some r" "aq_nickname r \<noteq> []" "aq_admins r \<noteq> []" by blast
  obtain res s1 where b: "create_body e username r s = (res, s1)" by (cases "create_body e username r s")
  note c = create_body_cases [OF assms b]
  note found = created_row [OF assms]
  show ?thesis using c found r
    by (cases res; cases "ax_commitErr e") (auto simp: CreateAccount_def in_transaction_def b roll_back_def)
qed (auto simp: CreateAccount_def split: option.split)


text \<open>Updating an account: when the call succeeds with a queue, the row has the request's name and expiry and the queue of the account
  has the request's three resource lists. The row's quota is the request's too, unless the request has none of the
  three: then the row keeps the old quota while the queue's lists are emptied, so the two disagree.
\<close>

theorem update_account_outcome:
  assumes "directory_ok s" and "UpdateAccount e (Some r) (Some aid) s = (Inr x, s1)" and "\<not> aq_withoutVolcano r"
  shows "\<exists>a q. find_account aid s = Some a \<and> find_account aid s1 = Some (update_row r a) \<and> find_queue (ac_name a) s1 = Some q \<and>
    vq_guarantee q = qq_guaranteed (quota_of_req r) \<and> vq_deserved q = qq_deserved (quota_of_req r) \<and> vq_capability q = qq_capability (quota_of_req r) \<and>
    ac_quota (update_row r a) = (if zero_quota r then ac_quota a else quota_of_req r)"
proof -
  obtain a where a: "find_account aid s = Some a" "aq_nickname r \<noteq> []" "ax_findAccountErr e = None" "ax_updateAccountErr e = None"
    using assms(2) by (auto simp: UpdateAccount_def split: if_splits option.splits)
  have "ac_id a = aid" using find_account_in [OF a(1)] by simp
  then have row: "tbl_first (\<lambda>b. ac_id b = aid) (tbl_updates (\<lambda>b. ac_id b = aid) (\<lambda>_. update_row r a) (dr_accounts s)) = Some (update_row r a)"
    using a(1) by (simp add: tbl_first_updates_same update_row_def find_account_def)
  define s' where "s' = s\<lparr>dr_accounts := tbl_updates (\<lambda>b. ac_id b = ac_id a) (\<lambda>_. update_row r a) (dr_accounts s)\<rparr>"
  have u: "updateVolcanoQueue e a r s' = (None, s1)"
    using assms(2,3) a by (auto simp: UpdateAccount_def Let_def s'_def split: prod.splits option.splits)
  then obtain q0 where q0: "find_queue (ac_name a) s' = Some q0"
    and s1: "s1 = s'\<lparr>dr_queues := map (\<lambda>q. if vq_name q = ac_name a
              then q\<lparr>vq_guarantee := or_empty (aq_guaranteed r), vq_deserved := or_empty (aq_deserved r),
                     vq_capability := or_empty (aq_capability r)\<rparr> else q) (dr_queues s')\<rparr>"
    by (auto simp: updateVolcanoQueue_def split: option.splits)
  have "find (\<lambda>q. vq_name q = n) (map (\<lambda>q. if vq_name q = n then q\<lparr>vq_guarantee := g, vq_deserved := d, vq_capability := c\<rparr> else q) qs)
      = map_option (\<lambda>q. q\<lparr>vq_guarantee := g, vq_deserved := d, vq_capability := c\<rparr>) (find (\<lambda>q. vq_name q = n) qs)" for n g d c and qs :: "'a vqueue list"
    by (induction qs) auto
  with q0 have "find_queue (ac_name a) s1 = Some (q0\<lparr>vq_guarantee := or_empty (aq_guaranteed r), vq_deserved := or_empty (aq_deserved r), vq_capability := or_empty (aq_capability r)\<rparr>)"
    by (simp add: s1 find_queue_def)
  moreover have "find_account aid s1 = Some (update_row r a)" using row \<open>ac_id a = aid\<close> by (simp add: s1 s'_def find_account_def)
  ultimately show ?thesis using a(1) by (auto simp: quota_of_req_def update_row_def)
qed

text \<open>An account that was created without a Volcano queue cannot be deleted: as long as no queue of its name exists, every deletion fails and the
  account stays, with its row unchanged.
\<close>

theorem queueless_account_undeletable:
  assumes "directory_ok s" and "CreateAccount e username (Some r) s = (Inr i, s1)"
    and "find_queue (''q-'' @ fmt_uint i) s1 = None"
  shows "\<exists>x s2. DeleteAccount e' (Some i) s1 = (Inl x, s2) \<and> find_account i s2 = Some (new_account i r)"
proof -
  have found: "find_account i s1 = Some (new_account i r)"
    using created_found [OF assms(1,2)] .
  have "\<exists>x s2. delete_body e' i s1 = (Inl x, s2)"
    using found assms(3) by (auto simp: delete_body_def DeleteQueue_def find_queue_def new_account_def Let_def split: option.splits)
  with found show ?thesis
    by (auto simp: DeleteAccount_def in_transaction_def roll_back_def find_account_def split: option.split)
qed


section \<open>Members twice, and rights as bytes\<close>

lemma add_member_Inr:
  "AddUserProject e (Some (aid, uid)) (Some r) s = (Inr x, s1) \<Longrightarrow>
   \<exists>a u n k. find_account aid s = Some a \<and> find_user uid s = Some u \<and> parse_uint (mq_role r) = Inr n \<and> parse_uint (mq_accessMode r) = Inr k \<and>
     s1 = s\<lparr>dr_members := dr_members s @ [member_row a u r n k\<lparr>ua_id := Suc (dr_memberSeq s)\<rparr>], dr_memberSeq := Suc (dr_memberSeq s)\<rparr>"
  by (auto simp: AddUserProject_def with_account_and_user_def parse_rights_def add_member_def split: option.splits sum.splits)

lemma delete_member_Inr:
  assumes "DeleteUserProject e (Some (aid, uid)) s = (Inr x, s1)"
  shows "\<exists>m. find_member aid uid s = Some m \<and>
     s1 = s\<lparr>dr_members := tbl_delete (\<lambda>r. ua_id r = ua_id m \<and> ua_userID r = ua_userID m \<and> ua_accountID r = ua_accountID m) (dr_members s)\<rparr>"
proof -
  obtain a u where au: "find_account aid s = Some a" "find_user uid s = Some u"
    using assms by (auto simp: DeleteUserProject_def with_account_and_user_def split: option.splits)
  with find_account_in [OF au(1)] find_user_in [OF au(2)] assms show ?thesis
    by (auto simp: DeleteUserProject_def with_account_and_user_def split: option.splits)
qed

lemma add_member_body: "AddUserProject e uri body s = (Inr x, s1) \<Longrightarrow> \<exists>aid uid r. uri = Some (aid, uid) \<and> body = Some r"
  by (auto simp: AddUserProject_def with_account_and_user_def split: option.splits)

text \<open>The rights of a new member are bytes: a role and an access mode that parse as 64-bit numbers are stored modulo 256, so that
  259 makes an administrator, while the other handler that sets rights refuses every number above 255 and changes nothing.
\<close>

theorem member_rights_wrap:
  assumes "AddUserProject e (Some (aid, uid)) (Some r) s = (Inr x, s1)"
    and "parse_uint (mq_role r) = Inr n" and "parse_uint (mq_accessMode r) = Inr k"
  shows "(\<exists>m. dr_members s1 = dr_members s @ [m] \<and> ua_accountID m = aid \<and> ua_userID m = uid \<and>
      ua_role m = role_of_nat (n mod 256) \<and> ua_accessMode m = access_mode_of_nat (k mod 256)) \<and>
    (255 < n \<longrightarrow> (\<exists>y. PutUserInProject ai e' (Some aid) (Some \<lparr>pq_userID = uid, pq_role = Some (mq_role r), pq_accessMode = None, pq_quota = None\<rparr>) s1 = (Inl y, s1)))"
proof -
  obtain a u where h: "find_account aid s = Some a" "find_user uid s = Some u"
      "s1 = s\<lparr>dr_members := dr_members s @ [member_row a u r n k\<lparr>ua_id := Suc (dr_memberSeq s)\<rparr>], dr_memberSeq := Suc (dr_memberSeq s)\<rparr>"
    using add_member_Inr [OF assms(1)] assms(2,3) by auto
  have "role_of_nat (n mod 256) = role_of_nat n" "access_mode_of_nat (k mod 256) = access_mode_of_nat k"
    by (simp_all add: role_of_nat_def access_mode_of_nat_def)
  then show ?thesis using find_account_in [OF h(1)] find_user_in [OF h(2)] assms(2)
    by (simp add: h(3) member_row_def PutUserInProject_def parse_opt8_def parse_uint8_def)
qed

text \<open>
  Nothing stops a user from being added to an account twice, and one removal takes one row: after two additions that succeed, the user is still a
  member of the account when a removal has succeeded.
\<close>

theorem added_twice_removed_once:
  assumes "directory_ok s" and "AddUserProject e uri b s = (Inr x, s1)" and "AddUserProject e' uri b' s1 = (Inr y, s2)"
    and "DeleteUserProject d uri s2 = (Inr z, s3)"
  shows "\<exists>aid uid. uri = Some (aid, uid) \<and> find_member aid uid s3 \<noteq> None"
proof -
  obtain aid uid r r' where u: "uri = Some (aid, uid)" "b = Some r" "b' = Some r'"
    using add_member_body [OF assms(2)] add_member_body [OF assms(3)] by auto
  obtain a w n k where h1: "find_account aid s = Some a" "find_user uid s = Some w"
      "s1 = s\<lparr>dr_members := dr_members s @ [member_row a w r n k\<lparr>ua_id := Suc (dr_memberSeq s)\<rparr>], dr_memberSeq := Suc (dr_memberSeq s)\<rparr>"
    using add_member_Inr assms(2) unfolding u by blast
  obtain a' w' n' k' where h2: "find_account aid s1 = Some a'" "find_user uid s1 = Some w'"
      "s2 = s1\<lparr>dr_members := dr_members s1 @ [member_row a' w' r' n' k'\<lparr>ua_id := Suc (dr_memberSeq s1)\<rparr>], dr_memberSeq := Suc (dr_memberSeq s1)\<rparr>"
    using add_member_Inr assms(3) unfolding u by blast
  obtain m :: "'a user_account" where s3: "s3 = s2\<lparr>dr_members := tbl_delete (\<lambda>r. ua_id r = ua_id m \<and> ua_userID r = ua_userID m \<and> ua_accountID r = ua_accountID m) (dr_members s2)\<rparr>"
    using delete_member_Inr [OF assms(4) [unfolded u]] by blast
  have keys: "ac_id a = aid" "us_id w = uid" "ac_id a' = aid" "us_id w' = uid"
    using find_account_in [OF h1(1)] find_user_in [OF h1(2)] find_account_in [OF h2(1)] find_user_in [OF h2(2)] by auto
  let ?m1 = "member_row a w r n k\<lparr>ua_id := Suc (dr_memberSeq s)\<rparr>" and ?m2 = "member_row a' w' r' n' k'\<lparr>ua_id := Suc (Suc (dr_memberSeq s))\<rparr>"
  have "?m1 \<in> set (dr_members s3) \<or> ?m2 \<in> set (dr_members s3)"
    by (cases "ua_id m = Suc (dr_memberSeq s)") (simp_all add: s3 h2(3) h1(3) tbl_delete_def)
  moreover have "ua_accountID ?m1 = aid \<and> ua_userID ?m1 = uid" "ua_accountID ?m2 = aid \<and> ua_userID ?m2 = uid"
    by (simp_all add: member_row_def keys)
  ultimately have "find_member aid uid s3 \<noteq> None" unfolding find_member_def tbl_first_None by blast
  with u(1) show ?thesis by blast
qed


section \<open>A small directory\<close>

definition quiet_accounts :: account_env where
  "quiet_accounts = \<lparr>ax_findAccountErr = None, ax_findUserErr = None, ax_findMemberErr = None, ax_againErr = None, ax_createAccountErr = None,
     ax_createMemberErr = (\<lambda>i. None), ax_updateAccountErr = None, ax_deleteAccountErr = None, ax_updateMemberErr = None,
     ax_deleteMemberErr = None, ax_queueGetErr = None, ax_queueCreateErr = None, ax_queueUpdateErr = None, ax_queueDeleteErr = None,
     ax_commitErr = None\<rparr>"

definition sample_user :: "nat \<Rightarrow> string \<Rightarrow> user" where
  "sample_user i n = \<lparr>us_id = i, us_createdAt = 0, us_name = n, us_nickname = n, us_password = None, us_role = RoleUser, us_status = StatusActive,
     us_space = n, us_imageQuota = -1, us_lastEmailVerifiedAt = None, us_attributes = no_attributes\<rparr>"

definition sample_account_req :: "bool \<Rightarrow> int account_req" where
  "sample_account_req without = \<lparr>aq_nickname = ''lab'', aq_guaranteed = None, aq_deserved = None, aq_capability = Some [(''cpu'', 8)],
     aq_withoutVolcano = without, aq_admins = [4], aq_expiredAt = 0\<rparr>"

definition sample_directory :: "int directory" where
  "sample_directory = \<lparr>dr_users = [sample_user 4 ''ann'', sample_user 5 ''bob''], dr_userSeq = 5, dr_userNames = [''ann'', ''bob''],
     dr_accounts = [\<lparr>ac_id = 1, ac_name = ''default'', ac_nickname = ''default'', ac_space = ''d'', ac_expiredAt = None, ac_quota = no_quota, ac_userDefaultQuota = None\<rparr>],
     dr_accountSeq = 1,
     dr_members = [\<lparr>ua_id = 1, ua_userID = 4, ua_accountID = 1, ua_role = RoleUser, ua_accessMode = AccessModeRO, ua_quota = no_quota\<rparr>],
     dr_memberSeq = 1,
     dr_queues = [\<lparr>vq_name = ''default'', vq_createdBy = ''x'', vq_guarantee = [], vq_deserved = [], vq_capability = [], vq_allocated = [], vq_running = 0\<rparr>]\<rparr>"

definition sample_member_req :: "string \<Rightarrow> int member_req" where
  "sample_member_req role = \<lparr>mq_accessMode = fmt_uint 3, mq_role = role, mq_quota = None\<rparr>"

lemma sample_directory_ok: "directory_ok sample_directory"
  by (simp add: sample_directory_def directory_ok_def)

lemmas sample_account_defs = sample_directory_def quiet_accounts_def sample_account_req_def sample_member_req_def sample_user_def

theorem members_have_accounts_witness:
  "directory_ok (account_run (\<lambda>v. Some v) [CallCreate quiet_accounts ''root'' (Some (sample_account_req False)), CallDelete quiet_accounts (Some 2)] sample_directory)"
  using members_have_accounts [OF sample_directory_ok] .

theorem create_account_outcome_witness:
  "\<exists>r. Some (sample_account_req False) = Some r \<and> find_account 2 (snd (CreateAccount quiet_accounts ''root'' (Some (sample_account_req False)) sample_directory)) = Some (new_account 2 r)"
proof -
  have "\<exists>s1. CreateAccount quiet_accounts ''root'' (Some (sample_account_req False)) sample_directory = (Inr 2, s1)"
    by (simp add: CreateAccount_def in_transaction_def create_body_def Let_def add_member_def CreateVolcanoQueue_def find_queue_def
        sample_account_defs new_account_def tbl_updates_def)
  with create_account_outcome [OF sample_directory_ok, where e = quiet_accounts and username = "''root''" and req = "Some (sample_account_req False)"]
  show ?thesis by auto
qed

theorem update_account_outcome_witness:
  "\<exists>q. find_queue ''default'' (snd (UpdateAccount quiet_accounts (Some (sample_account_req False)) (Some 1) sample_directory)) = Some q \<and> vq_capability q = [(''cpu'', 8)]"
proof -
  obtain x s1 where u: "UpdateAccount quiet_accounts (Some (sample_account_req False)) (Some 1) sample_directory = (Inr x, s1)"
    by (simp add: UpdateAccount_def updateVolcanoQueue_def find_queue_def find_account_def tbl_first_Cons Let_def sample_account_defs)
  have "find_account 1 sample_directory = Some a \<Longrightarrow> ac_name a = ''default''" for a
    by (auto simp: find_account_def tbl_first_Cons sample_directory_def)
  with update_account_outcome [OF sample_directory_ok u] u show ?thesis
    by (auto simp: sample_account_req_def quota_of_req_def or_empty_def)
qed

theorem queueless_account_undeletable_witness:
  "\<exists>s1 x s2. CreateAccount quiet_accounts ''root'' (Some (sample_account_req True)) sample_directory = (Inr 2, s1) \<and>
     DeleteAccount quiet_accounts (Some 2) s1 = (Inl x, s2)"
proof -
  obtain s1 where c: "CreateAccount quiet_accounts ''root'' (Some (sample_account_req True)) sample_directory = (Inr 2, s1)"
      "dr_queues s1 = dr_queues sample_directory"
    by (simp add: CreateAccount_def in_transaction_def create_body_def Let_def add_member_def sample_account_defs new_account_def tbl_updates_def)
  have "find_queue (''q-'' @ fmt_uint 2) s1 = None"
    by (simp add: find_queue_def c(2) sample_directory_def)
  with queueless_account_undeletable [OF sample_directory_ok c(1)] c(1) show ?thesis by blast
qed

theorem member_rights_wrap_witness:
  "\<exists>m. dr_members (snd (AddUserProject quiet_accounts (Some (1, 5)) (Some (sample_member_req (fmt_uint 259))) sample_directory)) = dr_members sample_directory @ [m] \<and> ua_role m = RoleAdmin"
proof -
  note p = parse_uint_fmt
  obtain x s1 where a: "AddUserProject quiet_accounts (Some (1, 5)) (Some (sample_member_req (fmt_uint 259))) sample_directory = (Inr x, s1)"
    by (simp add: AddUserProject_def with_account_and_user_def find_account_def find_user_def tbl_first_Cons parse_rights_def p add_member_def member_row_def sample_account_defs)
  have "role_of_nat (259 mod 256) = RoleAdmin" by (simp add: role_of_nat_def)
  with member_rights_wrap [OF a, of 259 3 "\<lambda>v. Some v" quiet_accounts] a show ?thesis by (auto simp: sample_member_req_def p)
qed

theorem added_twice_removed_once_witness:
  "\<exists>x y z s1 s2 s3. AddUserProject quiet_accounts (Some (1, 5)) (Some (sample_member_req (fmt_uint 2))) sample_directory = (Inr x, s1) \<and>
     AddUserProject quiet_accounts (Some (1, 5)) (Some (sample_member_req (fmt_uint 2))) s1 = (Inr y, s2) \<and>
     DeleteUserProject quiet_accounts (Some (1, 5)) s2 = (Inr z, s3) \<and> find_member 1 5 s3 \<noteq> None"
proof -
  note p = parse_uint_fmt
  have "\<exists>x y z s1 s2 s3. AddUserProject quiet_accounts (Some (1, 5)) (Some (sample_member_req (fmt_uint 2))) sample_directory = (Inr x, s1) \<and>
     AddUserProject quiet_accounts (Some (1, 5)) (Some (sample_member_req (fmt_uint 2))) s1 = (Inr y, s2) \<and>
     DeleteUserProject quiet_accounts (Some (1, 5)) s2 = (Inr z, s3)"
    by (simp add: AddUserProject_def DeleteUserProject_def with_account_and_user_def find_account_def find_user_def find_member_def tbl_first_Cons
        parse_rights_def p add_member_def member_row_def sample_account_defs)
  then obtain x y z s1 s2 s3 where r: "AddUserProject quiet_accounts (Some (1, 5)) (Some (sample_member_req (fmt_uint 2))) sample_directory = (Inr x, s1)"
    "AddUserProject quiet_accounts (Some (1, 5)) (Some (sample_member_req (fmt_uint 2))) s1 = (Inr y, s2)"
    "DeleteUserProject quiet_accounts (Some (1, 5)) s2 = (Inr z, s3)" by blast
  from added_twice_removed_once [OF sample_directory_ok r] have "find_member 1 5 s3 \<noteq> None" by simp
  with r show ?thesis by blast
qed

end
