(* ===== verification/Auth.thy ===== *)
theory Auth imports Accounts begin

text \<open>
  Users and authentication: the tokens of \<open>internal/util/token.go\<close>, the guards of
  \<open>internal/middleware/jwt.go\<close> in front of every protected and administrator route, login, registration, renewal and
  change of account in \<open>internal/handler/auth.go\<close>, and the handlers on users in \<open>user.go\<close> and \<open>context.go\<close>.
  The JWT library, bcrypt, the directory server and the other servers the login asks are parameters; what is assumed
  of the first two is \<open>jwt_laws\<close> and \<open>bcrypt_law\<close>.  The message a token carries is what \<open>SetJWTContext\<close> stores in a request
  and \<open>GetToken\<close> reads back.
\<close>

section \<open>Tokens\<close>

record jwt_message =
  jm_userID :: nat
  jm_accountID :: nat
  jm_username :: string
  jm_accountName :: string
  jm_roleAccount :: role
  jm_accountAccessMode :: access_mode
  jm_publicAccessMode :: access_mode
  jm_rolePlatform :: role

record jwt_claims =
  jc_userID :: nat
  jc_queueID :: nat
  jc_username :: string
  jc_queueName :: string
  jc_roleQueue :: role
  jc_rolePlatform :: role
  jc_accessMode :: access_mode
  jc_publicAccessMode :: access_mode
  jc_expiresAt :: time

record token_manager =
  tm_secretKey :: string
  tm_accessTokenTTL :: int
  tm_refreshTokenTTL :: int

record jwt_ops =
  jo_sign :: "string \<Rightarrow> jwt_claims \<Rightarrow> string result"
  jo_parse :: "string \<Rightarrow> time \<Rightarrow> string \<Rightarrow> jwt_claims result"

text \<open>A signed token has no space in it, and is read back as what was signed until it expires.\<close>

definition jwt_laws :: "jwt_ops \<Rightarrow> bool" where
  "jwt_laws J \<longleftrightarrow>
     (\<forall>key c s. jo_sign J key c = Inr s \<longrightarrow> CHR '' '' \<notin> set s \<and>
        (\<forall>now. now < jc_expiresAt c \<longrightarrow> jo_parse J key now s = Inr c) \<and>
        (\<forall>now. jc_expiresAt c \<le> now \<longrightarrow> (\<exists>x. jo_parse J key now s = Inl x)))"

text \<open>Expiry dates have a precision of one second.\<close>

definition token_expiry :: "time \<Rightarrow> int \<Rightarrow> time" where
  "token_expiry now ttl = (now + int64 (Hour * ttl)) div 1000000000 * 1000000000"

definition createToken :: "jwt_ops \<Rightarrow> token_manager \<Rightarrow> time \<Rightarrow> jwt_message \<Rightarrow> int \<Rightarrow> string result" where
  "createToken J tm now msg ttl =
     jo_sign J (tm_secretKey tm)
       \<lparr>jc_userID = jm_userID msg, jc_queueID = jm_accountID msg, jc_username = jm_username msg, jc_queueName = jm_accountName msg,
        jc_roleQueue = jm_roleAccount msg, jc_rolePlatform = jm_rolePlatform msg, jc_accessMode = jm_accountAccessMode msg,
        jc_publicAccessMode = jm_publicAccessMode msg, jc_expiresAt = token_expiry now ttl\<rparr>"

text \<open>The clock is read once for each token.\<close>

definition CreateTokens :: "jwt_ops \<Rightarrow> token_manager \<Rightarrow> (nat \<Rightarrow> time) \<Rightarrow> jwt_message \<Rightarrow> (string \<times> string) result" where
  "CreateTokens J tm clock msg =
     (case createToken J tm (clock 0) msg (tm_accessTokenTTL tm) of
        Inl x \<Rightarrow> Inl x
      | Inr accessToken \<Rightarrow> (case createToken J tm (clock 1) msg (tm_refreshTokenTTL tm) of
          Inl x \<Rightarrow> Inl x
        | Inr refreshToken \<Rightarrow> Inr (accessToken, refreshToken)))"

definition CheckToken :: "jwt_ops \<Rightarrow> token_manager \<Rightarrow> time \<Rightarrow> string \<Rightarrow> jwt_message result" where
  "CheckToken J tm now requestToken =
     (case jo_parse J (tm_secretKey tm) now requestToken of
        Inl x \<Rightarrow> Inl x
      | Inr c \<Rightarrow> Inr \<lparr>jm_userID = jc_userID c, jm_accountID = jc_queueID c, jm_username = jc_username c, jm_accountName = jc_queueName c,
          jm_roleAccount = jc_roleQueue c, jm_accountAccessMode = jc_accessMode c, jm_publicAccessMode = jc_publicAccessMode c,
          jm_rolePlatform = jc_rolePlatform c\<rparr>)"

lemma token_roundtrip:
  assumes "jwt_laws J" "createToken J tm now msg ttl = Inr s"
  shows "t < token_expiry now ttl \<Longrightarrow> CheckToken J tm t s = Inr msg"
    and "token_expiry now ttl \<le> t \<Longrightarrow> \<exists>x. CheckToken J tm t s = Inl x" and "CHR '' '' \<notin> set s"
  using assms unfolding jwt_laws_def createToken_def CheckToken_def by fastforce+

section \<open>The guards of the routes\<close>

record http_request =
  hr_method :: string
  hr_upgrade :: string
  hr_queryToken :: string
  hr_authorization :: string

record guard_env =
  ge_userErr :: fault
  ge_memberErr :: fault

definition bearer :: "string \<Rightarrow> string option" where
  "bearer authHeader = (case split_on CHR '' '' authHeader of
      b # t # ts \<Rightarrow> if b = ''Bearer'' then Some t else None
    | _ \<Rightarrow> None)"

definition AuthProtected ::
  "jwt_ops \<Rightarrow> token_manager \<Rightarrow> guard_env \<Rightarrow> time \<Rightarrow> http_request \<Rightarrow> 'q directory \<Rightarrow> jwt_message result" where
  "AuthProtected J tm e now req s =
     (case (if hr_upgrade req = ''websocket'' then Some (hr_queryToken req) else bearer (hr_authorization req)) of
        None \<Rightarrow> Inl ''Invalid token''
      | Some authToken \<Rightarrow> (case CheckToken J tm now authToken of
          Inl x \<Rightarrow> Inl x
        | Inr token \<Rightarrow>
            if hr_method req \<noteq> ''GET'' then
              (case (if ge_userErr e = None then find_user (jm_userID token) s else None) of
                 None \<Rightarrow> Inl ''User not found''
               | Some user \<Rightarrow>
                   if us_role user \<noteq> jm_rolePlatform token then Inl ''Platform token not match''
                   else (case (if ge_memberErr e = None then find_member (jm_accountID token) (us_id user) s else None) of
                       None \<Rightarrow> Inl ''UserQueue not found''
                     | Some userQueue \<Rightarrow>
                         if ua_role userQueue \<noteq> jm_roleAccount token \<or> ua_accessMode userQueue \<noteq> jm_accountAccessMode token
                         then Inl ''Queue role not match'' else Inr token))
            else Inr token))"

definition AuthAdmin :: "jwt_message \<Rightarrow> jwt_message result" where
  "AuthAdmin token = (if jm_rolePlatform token \<noteq> RoleAdmin then Inl ''Not Admin'' else Inr token)"

text \<open>The guards of the three groups of routes.\<close>

datatype route_group = PublicRoute | ProtectedRoute | AdminRoute

definition guard_route ::
  "jwt_ops \<Rightarrow> token_manager \<Rightarrow> guard_env \<Rightarrow> time \<Rightarrow> route_group \<Rightarrow> http_request \<Rightarrow> 'q directory \<Rightarrow> jwt_message option result" where
  "guard_route J tm e now g req s =
     (case g of
        PublicRoute \<Rightarrow> Inr None
      | ProtectedRoute \<Rightarrow> (case AuthProtected J tm e now req s of Inl x \<Rightarrow> Inl x | Inr token \<Rightarrow> Inr (Some token))
      | AdminRoute \<Rightarrow> (case AuthProtected J tm e now req s of
            Inl x \<Rightarrow> Inl x
          | Inr token \<Rightarrow> (case AuthAdmin token of Inl x \<Rightarrow> Inl x | Inr t \<Rightarrow> Inr (Some t))))"

section \<open>Registration and login\<close>

datatype login_error = ErrorMustRegister | ErrorUIDServerConnect | ErrorUIDServerNotFound | OtherLoginError string

datatype uid_answer = UIDUnreachable | UIDError string | UIDFound string string

record act_user =
  act_account :: string
  act_name :: string
  act_email :: string
  act_teacher :: string
  act_group :: string
  act_adExpire :: string

record auth_env =
  au_raidsEnabled :: bool
  au_isDNSLabel :: "string \<Rightarrow> bool"
  au_actAPI :: "string \<Rightarrow> act_user result"
  au_ldapDial :: fault
  au_ldapAdminBind :: fault
  au_ldapSearch :: "string \<Rightarrow> string list result"
  au_ldapBind :: "string \<Rightarrow> string \<Rightarrow> fault"
  au_uidServer :: "string \<Rightarrow> uid_answer"
  au_hash :: "string \<Rightarrow> string result"
  au_compareHash :: "string \<Rightarrow> string \<Rightarrow> bool"
  au_now :: time
  au_findUserErr :: fault
  au_againErr :: fault
  au_createUserErr :: fault
  au_createMemberErr :: fault
  au_updateUserErr :: fault
  au_memberErr :: fault
  au_accountErr :: fault
  au_defaultErr :: fault

text \<open>bcrypt accepts the password a hash was made from.\<close>

definition bcrypt_law :: "auth_env \<Rightarrow> bool" where
  "bcrypt_law e \<longleftrightarrow> (\<forall>p h. au_hash e p = Inr h \<longrightarrow> au_compareHash e h p)"

definition user_named :: "string \<Rightarrow> 'q directory \<Rightarrow> user option" where
  "user_named n s = tbl_first (\<lambda>u. us_name u = n) (dr_users s)"

definition insert_member :: "'q user_account \<Rightarrow> 'q directory \<Rightarrow> 'q directory" where
  "insert_member m s = s\<lparr>dr_members := dr_members s @ [m\<lparr>ua_id := Suc (dr_memberSeq s)\<rparr>], dr_memberSeq := Suc (dr_memberSeq s)\<rparr>"

definition new_user_attributes :: "auth_env \<Rightarrow> string \<Rightarrow> login_error + user_attribute" where
  "new_user_attributes e name =
     (if au_raidsEnabled e then
        (case au_uidServer e name of
           UIDUnreachable \<Rightarrow> Inl ErrorUIDServerConnect
         | UIDError x \<Rightarrow> Inl ErrorUIDServerNotFound
         | UIDFound uid gid \<Rightarrow> Inr (no_attributes\<lparr>at_email := Some (name @ ''@act.buaa.edu.cn''), at_uid := Some uid, at_gid := Some gid\<rparr>))
      else Inr (no_attributes\<lparr>at_uid := Some ''1001'', at_gid := Some ''1001''\<rparr>))"

text \<open>
  Two insertions outside any transaction.  The name of a user is unique among all users that ever were; the personal
  space is named like the user.
\<close>

definition createUser :: "auth_env \<Rightarrow> string \<Rightarrow> string option \<Rightarrow> 'q directory \<Rightarrow> (login_error + user) \<times> 'q directory" where
  "createUser e name password s =
     (case new_user_attributes e name of
        Inl x \<Rightarrow> (Inl x, s)
      | Inr attr \<Rightarrow> (case (case password of None \<Rightarrow> Inr None | Some p \<Rightarrow> (case au_hash e p of Inl x \<Rightarrow> Inl x | Inr h \<Rightarrow> Inr (Some h))) of
          Inl x \<Rightarrow> (Inl (OtherLoginError x), s)
        | Inr hashedPassword \<Rightarrow> (case au_createUserErr e of
            Some x \<Rightarrow> (Inl (OtherLoginError x), s)
          | None \<Rightarrow>
              let i = Suc (dr_userSeq s);
                  user = \<lparr>us_id = i, us_createdAt = au_now e, us_name = name, us_nickname = name, us_password = hashedPassword,
                          us_role = RoleUser, us_status = StatusActive, us_space = name, us_imageQuota = -1,
                          us_lastEmailVerifiedAt = None, us_attributes = attr\<rparr>
              in if name \<in> set (dr_userNames s) then (Inl (OtherLoginError ''duplicate key''), s\<lparr>dr_userSeq := i\<rparr>)
                 else
                   let s1 = s\<lparr>dr_users := dr_users s @ [user], dr_userSeq := i, dr_userNames := name # dr_userNames s\<rparr>
                   in (case au_createMemberErr e of
                       Some x \<Rightarrow> (Inl (OtherLoginError x), s1)
                     | None \<Rightarrow> (Inr user, insert_member \<lparr>ua_id = 0, ua_userID = i, ua_accountID = DefaultAccountID, ua_role = RoleUser,
                                            ua_accessMode = AccessModeRO, ua_quota = no_quota\<rparr> s1)))))"

definition getOrCreateUser ::
  "auth_env \<Rightarrow> string option \<Rightarrow> user_attribute \<Rightarrow> bool \<Rightarrow> 'q directory \<Rightarrow> user_attribute \<times> (login_error + user) \<times> 'q directory" where
  "getOrCreateUser e username attr allowCreate s =
     (let attr1 = (case username of None \<Rightarrow> attr | Some n \<Rightarrow>
            attr\<lparr>at_name := (if at_name attr = [] then n else at_name attr),
                 at_nickname := (if at_nickname attr = [] then n else at_nickname attr)\<rparr>)
      in (attr1,
          (case au_findUserErr e of
             Some x \<Rightarrow> (Inl (OtherLoginError x), s)
           | None \<Rightarrow> (case user_named (at_name attr1) s of
               Some user \<Rightarrow> (Inr user, s)
             | None \<Rightarrow> if allowCreate then createUser e (at_name attr1) None s else (Inl ErrorMustRegister, s)))))"

text \<open>
  The second test of the function compares with a copy taken before the address was put back, and the copy is what
  the caller goes on with.
\<close>

definition updateUserIfNeeded :: "auth_env \<Rightarrow> user \<Rightarrow> user_attribute \<Rightarrow> 'q directory \<Rightarrow> (err + user) \<times> 'q directory" where
  "updateUserIfNeeded e user attr s =
     (let currentAttr = us_attributes user;
          newAttr = attr\<lparr>at_id := us_id user, at_avatar := at_avatar currentAttr, at_uid := at_uid currentAttr, at_gid := at_gid currentAttr\<rparr>
      in if at_id currentAttr \<noteq> 0 \<and> (at_email newAttr = None \<or> currentAttr = newAttr) then (Inr user, s)
         else
           let attr2 = (if at_email currentAttr \<noteq> None then newAttr\<lparr>at_email := at_email currentAttr\<rparr> else newAttr)
           in if at_id currentAttr \<noteq> 0 \<and> (at_email attr2 = None \<or> currentAttr = newAttr) then (Inr user, s)
              else (case au_updateUserErr e of
                  Some x \<Rightarrow> (Inl x, s)
                | None \<Rightarrow> (Inr (user\<lparr>us_attributes := newAttr\<rparr>),
                    s\<lparr>dr_users := tbl_updates (\<lambda>u. us_id u = us_id user)
                        (\<lambda>u. u\<lparr>us_nickname := at_nickname attr2, us_attributes := attr2\<rparr>) (dr_users s)\<rparr>)))"

definition normalAuth :: "auth_env \<Rightarrow> string \<Rightarrow> string \<Rightarrow> 'q directory \<Rightarrow> fault" where
  "normalAuth e username password s =
     (case (if au_findUserErr e = None then user_named username s else None) of
        None \<Rightarrow> Some ''user not found''
      | Some user \<Rightarrow> (case us_password user of
          None \<Rightarrow> Some ''user does not have a password''
        | Some p \<Rightarrow> if au_compareHash e p password then None else Some ''wrong username or password''))"

definition actLDAPAuth :: "auth_env \<Rightarrow> string \<Rightarrow> string \<Rightarrow> fault" where
  "actLDAPAuth e username password =
     (case au_ldapDial e of
        Some x \<Rightarrow> Some x
      | None \<Rightarrow> (case au_ldapAdminBind e of
          Some x \<Rightarrow> Some x
        | None \<Rightarrow> (case au_ldapSearch e (''(sAMAccountName='' @ username @ '')'') of
            Inl x \<Rightarrow> Some x
          | Inr [dn] \<Rightarrow> au_ldapBind e dn password
          | Inr _ \<Rightarrow> Some ''user not found or too many entries returned'')))"

definition actAPIAuth :: "auth_env \<Rightarrow> string \<Rightarrow> user_attribute result" where
  "actAPIAuth e token =
     (case au_actAPI e token of
        Inl x \<Rightarrow> Inl x
      | Inr d \<Rightarrow> Inr (no_attributes\<lparr>at_name := act_account d, at_nickname := act_name d, at_email := Some (act_email d),
          at_teacher := Some (act_teacher d), at_group := Some (act_group d), at_expiredAt := Some (act_adExpire d)\<rparr>))"

record login_req =
  lq_authMethod :: string
  lq_username :: "string option"
  lq_password :: "string option"
  lq_token :: "string option"

record account_context =
  cx_queue :: string
  cx_roleQueue :: role
  cx_rolePlatform :: role
  cx_accessQueue :: access_mode
  cx_accessPublic :: access_mode
  cx_space :: string

record login_resp =
  lr_accessToken :: string
  lr_refreshToken :: string
  lr_context :: account_context
  lr_user :: user_attribute

text \<open>
  Who the request says it is, checked by the method it names: the attributes so far, and whether a new user may be
  created.
\<close>

definition authenticate :: "auth_env \<Rightarrow> login_req \<Rightarrow> 'q directory \<Rightarrow> (user_attribute \<times> bool) result" where
  "authenticate e req s =
     (if lq_authMethod req = ''act-api'' then
        (case lq_token req of
           None \<Rightarrow> Inl ''Token not provided''
         | Some token \<Rightarrow> (case actAPIAuth e token of Inl x \<Rightarrow> Inl ''Invalid token'' | Inr attr \<Rightarrow> Inr (attr, True)))
      else if lq_authMethod req = ''act-ldap'' \<or> lq_authMethod req = ''normal'' then
        (case (lq_username req, lq_password req) of
           (Some username, Some password) \<Rightarrow>
             if \<not> au_isDNSLabel e username then Inl ''Invalid username''
             else if lq_authMethod req = ''act-ldap'' then
               (case actLDAPAuth e username password of
                  Some x \<Rightarrow> Inl ''Invalid credentials'' | None \<Rightarrow> Inr (no_attributes, \<not> au_raidsEnabled e))
             else
               (case normalAuth e username password s of
                  Some x \<Rightarrow> Inl ''Invalid credentials'' | None \<Rightarrow> Inr (no_attributes, False))
         | _ \<Rightarrow> Inl ''Username or password not provided'')
      else Inl ''Invalid auth method'')"

definition login_error_text :: "login_error \<Rightarrow> string" where
  "login_error_text x = (case x of
      ErrorMustRegister \<Rightarrow> ''User must register before login''
    | ErrorUIDServerConnect \<Rightarrow> ''Can't connect to UID server''
    | ErrorUIDServerNotFound \<Rightarrow> ''UID not found''
    | OtherLoginError m \<Rightarrow> ''Create or update user failed'')"

definition public_access :: "fault \<Rightarrow> nat \<Rightarrow> 'q directory \<Rightarrow> access_mode" where
  "public_access err uid s =
     (case (if err = None then find_member DefaultAccountID uid s else None) of None \<Rightarrow> AccessModeNA | Some m \<Rightarrow> ua_accessMode m)"

text \<open>The session of a user who has been identified: the account of the newest membership row.\<close>

definition open_session :: "jwt_ops \<Rightarrow> token_manager \<Rightarrow> auth_env \<Rightarrow> (nat \<Rightarrow> time) \<Rightarrow> user \<Rightarrow> 'q directory \<Rightarrow> login_resp result" where
  "open_session J tm e clock user s =
     (if us_status user \<noteq> StatusActive then Inl ''User is not active''
      else (case (if au_memberErr e = None then tbl_last (\<lambda>m. ua_userID m = us_id user) (dr_members s) else None) of
        None \<Rightarrow> Inl ''User must has at least one queue''
      | Some lastUserQueue \<Rightarrow> (case (if au_accountErr e = None then find_account (ua_accountID lastUserQueue) s else None) of
          None \<Rightarrow> Inl ''User must has at least one queue''
        | Some lastQueue \<Rightarrow>
            let publicAccessMode = public_access (au_defaultErr e) (us_id user) s;
                msg = \<lparr>jm_userID = us_id user, jm_accountID = ac_id lastQueue, jm_username = us_name user, jm_accountName = ac_name lastQueue,
                       jm_roleAccount = ua_role lastUserQueue, jm_accountAccessMode = ua_accessMode lastUserQueue,
                       jm_publicAccessMode = publicAccessMode, jm_rolePlatform = us_role user\<rparr>
            in (case CreateTokens J tm clock msg of
                Inl x \<Rightarrow> Inl x
              | Inr (accessToken, refreshToken) \<Rightarrow> Inr \<lparr>lr_accessToken = accessToken, lr_refreshToken = refreshToken,
                  lr_context = \<lparr>cx_queue = ac_name lastQueue, cx_roleQueue = ua_role lastUserQueue, cx_rolePlatform = us_role user,
                    cx_accessQueue = ua_accessMode lastUserQueue, cx_accessPublic = publicAccessMode, cx_space = us_space user\<rparr>,
                  lr_user = us_attributes user\<rparr>))))"

definition Login ::
  "jwt_ops \<Rightarrow> token_manager \<Rightarrow> auth_env \<Rightarrow> (nat \<Rightarrow> time) \<Rightarrow> login_req option \<Rightarrow> 'q directory \<Rightarrow> login_resp result \<times> 'q directory" where
  "Login J tm e clock body s =
     (case body of
        None \<Rightarrow> (Inl ''bad request'', s)
      | Some req \<Rightarrow> (case authenticate e req s of
          Inl x \<Rightarrow> (Inl x, s)
        | Inr (attributes, allowRegister) \<Rightarrow> (case getOrCreateUser e (lq_username req) attributes allowRegister s of
            (attr, Inl x, s1) \<Rightarrow> (Inl (login_error_text x), s1)
          | (attr, Inr user, s1) \<Rightarrow> (case updateUserIfNeeded e user attr s1 of
              (Inl x, s2) \<Rightarrow> (Inl ''Create or update user failed'', s2)
            | (Inr user2, s2) \<Rightarrow> (open_session J tm e clock user2 s2, s2)))))"

record signup_req =
  sg_username :: string
  sg_password :: string

definition Signup :: "auth_env \<Rightarrow> signup_req option \<Rightarrow> 'q directory \<Rightarrow> string result \<times> 'q directory" where
  "Signup e body s =
     (case body of
        None \<Rightarrow> (Inl ''bad request'', s)
      | Some req \<Rightarrow>
          if sg_username req = [] \<or> sg_password req = [] then (Inl ''bad request'', s)
          else if au_raidsEnabled e then (Inl ''User must sign up with token'', s)
          else (case au_findUserErr e of
              Some x \<Rightarrow> (Inl x, s)
            | None \<Rightarrow> (case user_named (sg_username req) s of
                Some u \<Rightarrow> (Inl ''User already exists'', s)
              | None \<Rightarrow> (case createUser e (sg_username req) (Some (sg_password req)) s of
                  (Inl ErrorUIDServerConnect, s1) \<Rightarrow> (Inl ''Can't connect to UID server'', s1)
                | (Inl ErrorUIDServerNotFound, s1) \<Rightarrow> (Inl ''UID not found'', s1)
                | (Inl _, s1) \<Rightarrow> (Inl ''Create user failed'', s1)
                | (Inr u, s1) \<Rightarrow> (Inr ''Signup successful'', s1)))))"


section \<open>Sessions\<close>

record check_env =
  ck_userErr :: fault
  ck_accountErr :: fault
  ck_memberErr :: fault
  ck_defaultErr :: fault

text \<open>The session a token stands for, read afresh from the tables; a success with nothing if there is none any more.\<close>

definition Check ::
  "jwt_ops \<Rightarrow> token_manager \<Rightarrow> check_env \<Rightarrow> time \<Rightarrow> string \<Rightarrow> 'q directory \<Rightarrow> (account_context \<times> user_attribute) option result" where
  "Check J tm e now authHeader s =
     (case bearer authHeader of
        None \<Rightarrow> Inr None
      | Some token \<Rightarrow> (case CheckToken J tm now token of
          Inl x \<Rightarrow> Inl x
        | Inr msg \<Rightarrow> (case (if ck_userErr e = None then find_user (jm_userID msg) s else None) of
            None \<Rightarrow> Inr None
          | Some user \<Rightarrow>
              if us_status user \<noteq> StatusActive then Inr None
              else (case (if ck_accountErr e = None then find_account (jm_accountID msg) s else None) of
                None \<Rightarrow> Inr None
              | Some currentQueue \<Rightarrow> (case (if ck_memberErr e = None then find_member (jm_accountID msg) (us_id user) s else None) of
                  None \<Rightarrow> Inr None
                | Some userQueue \<Rightarrow> Inr (Some
                    (\<lparr>cx_queue = ac_name currentQueue, cx_roleQueue = ua_role userQueue, cx_rolePlatform = us_role user,
                      cx_accessQueue = ua_accessMode userQueue, cx_accessPublic = public_access (ck_defaultErr e) (us_id user) s,
                      cx_space = us_space user\<rparr>, us_attributes user)))))))"

text \<open>Renewal looks at the token alone.\<close>

definition RefreshToken :: "jwt_ops \<Rightarrow> token_manager \<Rightarrow> time \<Rightarrow> (nat \<Rightarrow> time) \<Rightarrow> string option \<Rightarrow> (string \<times> string) result" where
  "RefreshToken J tm now clock body =
     (case body of
        None \<Rightarrow> Inl ''bad request''
      | Some refreshToken \<Rightarrow> (case CheckToken J tm now refreshToken of
          Inl x \<Rightarrow> Inl ''User not found''
        | Inr claims \<Rightarrow> CreateTokens J tm clock claims))"

definition SwitchQueue ::
  "jwt_ops \<Rightarrow> token_manager \<Rightarrow> fault \<Rightarrow> fault \<Rightarrow> (nat \<Rightarrow> time) \<Rightarrow> jwt_message \<Rightarrow> string option \<Rightarrow> 'q directory \<Rightarrow>
   (string \<times> string \<times> account_context) result" where
  "SwitchQueue J tm accountErr memberErr clock token body s =
     (case body of
        None \<Rightarrow> Inl ''bad request''
      | Some queueName \<Rightarrow>
          if queueName = [] then Inl ''Queue not specified''
          else (case (if accountErr = None then tbl_first (\<lambda>a. ac_name a = queueName) (dr_accounts s) else None) of
            None \<Rightarrow> Inl ''Queue not found''
          | Some queue \<Rightarrow> (case (if memberErr = None then find_member (ac_id queue) (jm_userID token) s else None) of
              None \<Rightarrow> Inl ''Queue not found''
            | Some userQueue \<Rightarrow>
                (case CreateTokens J tm clock
                    \<lparr>jm_userID = jm_userID token, jm_accountID = ua_accountID userQueue, jm_username = jm_username token, jm_accountName = queueName,
                     jm_roleAccount = ua_role userQueue, jm_accountAccessMode = ua_accessMode userQueue,
                     jm_publicAccessMode = jm_publicAccessMode token, jm_rolePlatform = jm_rolePlatform token\<rparr> of
                   Inl x \<Rightarrow> Inl x
                 | Inr (accessToken, refreshToken) \<Rightarrow> Inr (accessToken, refreshToken,
                     \<lparr>cx_queue = queueName, cx_roleQueue = ua_role userQueue, cx_rolePlatform = jm_rolePlatform token,
                      cx_accessQueue = ua_accessMode userQueue, cx_accessPublic = jm_publicAccessMode token, cx_space = []\<rparr>)))))"

section \<open>Users\<close>

text \<open>A deleted user leaves the table; the membership rows stay.\<close>

definition DeleteUser :: "fault \<Rightarrow> string \<Rightarrow> 'q directory \<Rightarrow> string result \<times> 'q directory" where
  "DeleteUser err name s =
     (case err of
        Some x \<Rightarrow> (Inl (''delete user failed, detail: '' @ x), s)
      | None \<Rightarrow> (Inr [], s\<lparr>dr_users := tbl_delete (\<lambda>u. us_name u = name) (dr_users s)\<rparr>))"

record user_resp =
  ur_id :: nat
  ur_name :: string
  ur_role :: role
  ur_status :: status
  ur_attributes :: user_attribute

definition ListUser :: "fault \<Rightarrow> 'q directory \<Rightarrow> user_resp list result" where
  "ListUser err s =
     (case err of
        Some x \<Rightarrow> Inl (''list users failed, detail: '' @ x)
      | None \<Rightarrow> Inr (map (\<lambda>u. \<lparr>ur_id = us_id u, ur_name = us_name u, ur_role = us_role u, ur_status = us_status u, ur_attributes = us_attributes u\<rparr>)
          (rev (dr_users s))))"

definition ListUserBaseInfo :: "fault \<Rightarrow> 'q directory \<Rightarrow> (string \<times> string \<times> string) list result" where
  "ListUserBaseInfo err s =
     (case err of
        Some x \<Rightarrow> Inl (''list users failed, detail: '' @ x)
      | None \<Rightarrow> Inr (map (\<lambda>u. (us_name u, us_nickname u, us_space u)) (dr_users s)))"

record user_detail_resp =
  ud_id :: nat
  ud_name :: string
  ud_nickname :: string
  ud_role :: role
  ud_status :: status
  ud_createdAt :: time
  ud_teacher :: "string option"
  ud_group :: "string option"
  ud_avatar :: "string option"

definition GetUser :: "fault \<Rightarrow> string \<Rightarrow> 'q directory \<Rightarrow> user_detail_resp result" where
  "GetUser err name s =
     (case (if err = None then user_named name s else None) of
        None \<Rightarrow> Inl ''get user failed''
      | Some u \<Rightarrow> Inr \<lparr>ud_id = us_id u, ud_name = us_name u, ud_nickname = us_nickname u, ud_role = us_role u, ud_status = us_status u,
          ud_createdAt = us_createdAt u, ud_teacher = at_teacher (us_attributes u), ud_group = at_group (us_attributes u),
          ud_avatar = at_avatar (us_attributes u)\<rparr>)"

definition UpdateRole :: "fault \<Rightarrow> nat option \<Rightarrow> string option \<Rightarrow> 'q directory \<Rightarrow> string result \<times> 'q directory" where
  "UpdateRole err req nameReq s =
     (case (req, nameReq) of
        (Some role, Some name) \<Rightarrow>
          if role < 1 \<or> role > 3 then (Inl ''role value exceeds the allowed range 1-3'', s)
          else (case err of
              Some x \<Rightarrow> (Inl (''update user role failed, detail: '' @ x), s)
            | None \<Rightarrow> (Inr [], s\<lparr>dr_users := tbl_updates (\<lambda>u. us_name u = name) (us_role_update (\<lambda>_. role_of_nat role)) (dr_users s)\<rparr>))
      | _ \<Rightarrow> (Inl ''validate update parameters failed'', s))"

text \<open>An address counts as verified for 180 days.\<close>

definition CheckEmailVerified :: "time \<Rightarrow> time option \<Rightarrow> bool \<times> time option" where
  "CheckEmailVerified now lastVerified =
     (case lastVerified of
        None \<Rightarrow> (False, None)
      | Some t \<Rightarrow> if t = 0 then (False, None) else (t + 180 * 24 * Hour > now, Some t))"

definition CheckUserEmail :: "fault \<Rightarrow> time \<Rightarrow> nat \<Rightarrow> 'q directory \<Rightarrow> bool" where
  "CheckUserEmail err now userID s =
     (case (if err = None then find_user userID s else None) of
        None \<Rightarrow> False | Some u \<Rightarrow> fst (CheckEmailVerified now (us_lastEmailVerifiedAt u)))"

definition CheckIfEmailVerified :: "fault \<Rightarrow> time \<Rightarrow> jwt_message \<Rightarrow> 'q directory \<Rightarrow> (bool \<times> time option) result" where
  "CheckIfEmailVerified err now token s =
     (case (if err = None then find_user (jm_userID token) s else None) of
        None \<Rightarrow> Inl ''get user failed''
      | Some u \<Rightarrow> Inr (CheckEmailVerified now (us_lastEmailVerifiedAt u)))"

text \<open>\<open>Save\<close> writes back every column of the row that was read.\<close>

definition save_user :: "user \<Rightarrow> 'q directory \<Rightarrow> 'q directory" where
  "save_user user s = s\<lparr>dr_users := tbl_updates (\<lambda>u. us_id u = us_id user) (\<lambda>_. user) (dr_users s)\<rparr>"

definition UpdateUserAttributesByAdmin ::
  "fault \<Rightarrow> fault \<Rightarrow> string option \<Rightarrow> user_attribute option \<Rightarrow> 'q directory \<Rightarrow> string result \<times> 'q directory" where
  "UpdateUserAttributesByAdmin findErr saveErr nameReq body s =
     (case (nameReq, body) of
        (Some name, Some attributes) \<Rightarrow>
          (case (if findErr = None then user_named name s else None) of
             None \<Rightarrow> (Inl ''User not found'', s)
           | Some user \<Rightarrow> (case saveErr of
               Some x \<Rightarrow> (Inl (''Failed to update user attributes: '' @ x), s)
             | None \<Rightarrow> (Inr ''updated'', save_user (user\<lparr>us_nickname := at_nickname attributes, us_attributes := attributes\<rparr>) s)))
      | _ \<Rightarrow> (Inl ''Invalid request body'', s))"

definition UpdateUserAttributes ::
  "fault \<Rightarrow> fault \<Rightarrow> jwt_message \<Rightarrow> user_attribute option \<Rightarrow> 'q directory \<Rightarrow> string result \<times> 'q directory" where
  "UpdateUserAttributes findErr saveErr token body s =
     (case body of
        None \<Rightarrow> (Inl ''Invalid request body'', s)
      | Some attributes \<Rightarrow> (case (if findErr = None then find_user (jm_userID token) s else None) of
          None \<Rightarrow> (Inl ''User not found'', s)
        | Some user \<Rightarrow>
            let old = us_attributes user;
                attributes' = attributes\<lparr>at_id := at_id old, at_uid := at_uid old, at_gid := at_gid old\<rparr>
            in (case saveErr of
                Some x \<Rightarrow> (Inl (''Failed to update user attributes: '' @ x), s)
              | None \<Rightarrow> (Inr ''User attributes updated successfully'', save_user (user\<lparr>us_attributes := attributes'\<rparr>) s))))"

section \<open>Verification codes\<close>

text \<open>
  The codes that have been made, by address, live in a map of the process that is never cleaned; the messages that
  have been sent are kept in the order of sending.  \<open>random\<close> is what \<open>rand.Intn\<close> returns.
\<close>

record code_store =
  cs_codes :: "(string, string) gomap"
  cs_mails :: "(string \<times> string) list"

definition code_text :: "nat \<Rightarrow> string" where
  "code_text n = replicate (6 - length (fmt_uint n)) CHR ''0'' @ fmt_uint n"

definition SendUserVerificationCode ::
  "fault \<Rightarrow> fault \<Rightarrow> nat \<Rightarrow> jwt_message \<Rightarrow> string option \<Rightarrow> 'q directory \<Rightarrow> code_store \<Rightarrow> string result \<times> code_store" where
  "SendUserVerificationCode findErr mailErr random token body s v =
     (case (if findErr = None then find_user (jm_userID token) s else None) of
        None \<Rightarrow> (Inl ''User not found'', v)
      | Some user \<Rightarrow> (case body of
          None \<Rightarrow> (Inl ''bad request'', v)
        | Some email \<Rightarrow>
            let verifyCode = code_text random;
                v1 = v\<lparr>cs_codes := gm_put email verifyCode (cs_codes v)\<rparr>
            in (case mailErr of
                Some x \<Rightarrow> (Inl x, v1)
              | None \<Rightarrow> (Inr ''Successfully send email verification code to user'', v1\<lparr>cs_mails := cs_mails v1 @ [(email, verifyCode)]\<rparr>))))"

text \<open>A map read of an address without a code is the empty string.\<close>

definition UpdateUserEmail ::
  "fault \<Rightarrow> fault \<Rightarrow> time \<Rightarrow> jwt_message \<Rightarrow> (string \<times> string) option \<Rightarrow> code_store \<Rightarrow> 'q directory \<Rightarrow> string result \<times> 'q directory" where
  "UpdateUserEmail findErr updateErr now token body v s =
     (case (if findErr = None then find_user (jm_userID token) s else None) of
        None \<Rightarrow> (Inl ''User not found'', s)
      | Some user \<Rightarrow> (case body of
          None \<Rightarrow> (Inl ''bad request'', s)
        | Some (email, code) \<Rightarrow>
            if code \<noteq> (case gm_get (cs_codes v) email of None \<Rightarrow> [] | Some c \<Rightarrow> c) then (Inl ''Wrong verification Code'', s)
            else (Inr ''User email updated successfully'',
                  if updateErr = None
                  then s\<lparr>dr_users := tbl_updates (\<lambda>u. us_id u = jm_userID token) (us_lastEmailVerifiedAt_update (\<lambda>_. Some now)) (dr_users s)\<rparr>
                  else s)))"


section \<open>What the guards ensure\<close>

text \<open>The text of the token a request carries, and what the tables say now about the rights that a token names.\<close>

definition carried_token :: "http_request \<Rightarrow> string option" where
  "carried_token req = (if hr_upgrade req = ''websocket'' then Some (hr_queryToken req) else bearer (hr_authorization req))"

definition current_rights :: "jwt_message \<Rightarrow> 'q directory \<Rightarrow> bool" where
  "current_rights token s \<longleftrightarrow>
     (case find_user (jm_userID token) s of
        None \<Rightarrow> False
      | Some u \<Rightarrow> us_role u = jm_rolePlatform token \<and>
          (case find_member (jm_accountID token) (jm_userID token) s of
             None \<Rightarrow> False
           | Some m \<Rightarrow> ua_role m = jm_roleAccount token \<and> ua_accessMode m = jm_accountAccessMode token))"

lemma AuthProtected_iff:
  "AuthProtected J tm e now req s = Inr token \<longleftrightarrow>
   (\<exists>t. carried_token req = Some t \<and> CheckToken J tm now t = Inr token) \<and>
   (hr_method req = ''GET'' \<or> ge_userErr e = None \<and> ge_memberErr e = None \<and> current_rights token s)"
proof -
  have u: "us_id x = i" if "find_user i s = Some x" for i x using that find_user_in by auto
  show ?thesis
  proof (cases "carried_token req")
    case None
    then show ?thesis by (simp add: AuthProtected_def carried_token_def)
  next
    case t: (Some t)
    show ?thesis
    proof (cases "CheckToken J tm now t")
      case (Inl x)
      with t show ?thesis by (simp add: AuthProtected_def carried_token_def)
    next
      case c: (Inr tk)
      show ?thesis
      proof (cases "ge_userErr e = None \<and> ge_memberErr e = None")
        case True
        with t c show ?thesis
          by (cases "find_user (jm_userID tk) s"; cases "find_member (jm_accountID tk) (jm_userID tk) s")
            (auto simp: AuthProtected_def carried_token_def current_rights_def u)
      next
        case False
        with t c show ?thesis
          by (cases "find_user (jm_userID tk) s"; cases "find_member (jm_accountID tk) (jm_userID tk) s")
            (auto simp: AuthProtected_def carried_token_def u)
      qed
    qed
  qed
qed

text \<open>Claim C4. What the guards let pass, exactly: a request reaches a protected or administrator route with a token if and only if
  the token it carries is signed and has not expired, the token names an administrator where the route asks for one, and, unless its
  method is GET, the tables can be read and say that the user of the token has the platform role the token names and is a member of
  its account with the role and the access mode it names.  A request with any other method so acts with rights its user has
  at that time; a GET request, including those that write (two GET routes annotate jobs), acts with the rights the token names.
\<close>

theorem guards_pass_exactly:
  "guard_route J tm e now g req s = Inr (Some token) \<longleftrightarrow>
     g \<noteq> PublicRoute \<and> (g = AdminRoute \<longrightarrow> jm_rolePlatform token = RoleAdmin) \<and>
     (\<exists>t. carried_token req = Some t \<and> CheckToken J tm now t = Inr token) \<and>
     (hr_method req \<noteq> ''GET'' \<longrightarrow> ge_userErr e = None \<and> ge_memberErr e = None \<and> current_rights token s)"
proof -
  have "guard_route J tm e now g req s = Inr (Some token) \<longleftrightarrow>
      g \<noteq> PublicRoute \<and> (g = AdminRoute \<longrightarrow> jm_rolePlatform token = RoleAdmin) \<and> AuthProtected J tm e now req s = Inr token"
    by (cases g) (auto simp: guard_route_def AuthAdmin_def split: sum.splits if_splits)
  then show ?thesis by (auto simp: AuthProtected_iff)
qed

text \<open>The header a client sends with an access token.\<close>

definition request_with :: "string \<Rightarrow> string \<Rightarrow> http_request" where
  "request_with meth token = \<lparr>hr_method = meth, hr_upgrade = [], hr_queryToken = [], hr_authorization = ''Bearer '' @ token\<rparr>"

lemma bearer_of_token: "CHR '' '' \<notin> set t \<Longrightarrow> bearer (''Bearer '' @ t) = Some t"
  using split_on_append [of "CHR '' ''" "''Bearer''" t] by (simp add: bearer_def split_on_free)

lemma AuthProtected_with:
  assumes "jwt_laws J" "createToken J tm t0 msg ttl = Inr tok" "t < token_expiry t0 ttl"
  shows "AuthProtected J tm e t (request_with meth tok) s =
     (if meth = ''GET'' then Inr msg
      else case (if ge_userErr e = None then find_user (jm_userID msg) s else None) of
             None \<Rightarrow> Inl ''User not found''
           | Some user \<Rightarrow>
               if us_role user \<noteq> jm_rolePlatform msg then Inl ''Platform token not match''
               else (case (if ge_memberErr e = None then find_member (jm_accountID msg) (us_id user) s else None) of
                   None \<Rightarrow> Inl ''UserQueue not found''
                 | Some userQueue \<Rightarrow>
                     if ua_role userQueue \<noteq> jm_roleAccount msg \<or> ua_accessMode userQueue \<noteq> jm_accountAccessMode msg
                     then Inl ''Queue role not match'' else Inr msg))"
  using bearer_of_token [OF token_roundtrip(3) [OF assms(1,2)]] token_roundtrip(1) [OF assms]
  by (simp add: AuthProtected_def request_with_def)

text \<open>A chain of renewals: the times at which the newest refresh token is handed in, with the clock readings of each call.\<close>

primrec refresh_chain :: "jwt_ops \<Rightarrow> token_manager \<Rightarrow> (time \<times> (nat \<Rightarrow> time)) list \<Rightarrow> string \<Rightarrow> (string \<times> string) result" where
  "refresh_chain J tm [] tok = Inl ''no renewal''"
| "refresh_chain J tm (r # rs) tok =
     (case RefreshToken J tm (fst r) (snd r) (Some tok) of
        Inl x \<Rightarrow> Inl x
      | Inr (access, refresh) \<Rightarrow> if rs = [] then Inr (access, refresh) else refresh_chain J tm rs refresh)"

text \<open>Each renewal comes before the token of the one before has expired.\<close>

primrec renewed_in_time :: "int \<Rightarrow> time \<Rightarrow> (time \<times> (nat \<Rightarrow> time)) list \<Rightarrow> bool" where
  "renewed_in_time ttl t0 [] = True"
| "renewed_in_time ttl t0 (r # rs) \<longleftrightarrow> fst r < token_expiry t0 ttl \<and> renewed_in_time ttl (snd r 1) rs"

definition signs_all :: "jwt_ops \<Rightarrow> bool" where
  "signs_all J \<longleftrightarrow> (\<forall>key c. \<exists>s. jo_sign J key c = Inr s)"

lemma CreateTokens_signs:
  assumes "signs_all J"
  obtains a r where "CreateTokens J tm clock msg = Inr (a, r)" "createToken J tm (clock 0) msg (tm_accessTokenTTL tm) = Inr a"
    "createToken J tm (clock 1) msg (tm_refreshTokenTTL tm) = Inr r"
proof -
  from assms obtain a r where "createToken J tm (clock 0) msg (tm_accessTokenTTL tm) = Inr a" "createToken J tm (clock 1) msg (tm_refreshTokenTTL tm) = Inr r"
    unfolding signs_all_def createToken_def by meson
  then show ?thesis using that by (simp add: CreateTokens_def)
qed

lemma CreateTokens_Inr:
  assumes "CreateTokens J tm clock msg = Inr (a, r)"
  shows "createToken J tm (clock 0) msg (tm_accessTokenTTL tm) = Inr a" and "createToken J tm (clock 1) msg (tm_refreshTokenTTL tm) = Inr r"
  using assms by (auto simp: CreateTokens_def split: sum.splits)

lemma refresh_chain_keeps:
  assumes J: "jwt_laws J" "signs_all J" and "createToken J tm t0 msg (tm_refreshTokenTTL tm) = Inr tok"
    and "renewed_in_time (tm_refreshTokenTTL tm) t0 rs" "rs \<noteq> []"
  shows "\<exists>a r. refresh_chain J tm rs tok = Inr (a, r) \<and> createToken J tm (snd (last rs) 0) msg (tm_accessTokenTTL tm) = Inr a"
  using assms(3-)
proof (induction rs arbitrary: t0 tok)
  case (Cons r rs)
  have c: "CheckToken J tm (fst r) tok = Inr msg" using token_roundtrip(1) [OF J(1) Cons.prems(1)] Cons.prems(2) by simp
  obtain a b where ab: "CreateTokens J tm (snd r) msg = Inr (a, b)" "createToken J tm (snd r 0) msg (tm_accessTokenTTL tm) = Inr a"
      "createToken J tm (snd r 1) msg (tm_refreshTokenTTL tm) = Inr b"
    using CreateTokens_signs [OF J(2)] by metis
  show ?case
  proof (cases "rs = []")
    case False
    with Cons.IH [OF ab(3) _ False] Cons.prems c ab show ?thesis by (simp add: RefreshToken_def)
  qed (use c ab in \<open>simp add: RefreshToken_def\<close>)
qed simp

text \<open>Claim C37. Rights that were taken away live on in tokens: from one refresh token of an administrator, renewals in time give access
  tokens for ever, and each of them passes the guards of the administrator's GET routes whatever the tables hold by then,
  be the user demoted or deleted.
\<close>

theorem renewal_outlives_rights:
  assumes "jwt_laws J" and "signs_all J" and "createToken J tm t0 msg (tm_refreshTokenTTL tm) = Inr tok"
    and "renewed_in_time (tm_refreshTokenTTL tm) t0 rs" and "rs \<noteq> []" and "jm_rolePlatform msg = RoleAdmin"
    and "t < token_expiry (snd (last rs) 0) (tm_accessTokenTTL tm)"
  shows "\<exists>access refresh. refresh_chain J tm rs tok = Inr (access, refresh) \<and>
    guard_route J tm e t AdminRoute (request_with ''GET'' access) s = Inr (Some msg)"
proof -
  from refresh_chain_keeps [OF assms(1-5)] obtain a r where ar: "refresh_chain J tm rs tok = Inr (a, r)"
      "createToken J tm (snd (last rs) 0) msg (tm_accessTokenTTL tm) = Inr a" by blast
  with assms(6) show ?thesis by (simp add: guard_route_def AuthAdmin_def AuthProtected_with [OF assms(1) ar(2) assms(7)])
qed


section \<open>From login to the guards\<close>

text \<open>No user has two rows in one account, and the keys of users and accounts are unique.\<close>

definition single_members :: "'q directory \<Rightarrow> bool" where
  "single_members s \<longleftrightarrow> distinct (map us_id (dr_users s)) \<and> distinct (map (\<lambda>m. (ua_accountID m, ua_userID m)) (dr_members s))"

lemma find_member_single:
  assumes "single_members s" "m \<in> set (dr_members s)"
  shows "find_member (ua_accountID m) (ua_userID m) s = Some m"
  unfolding find_member_def
proof (rule tbl_first_unique [OF assms(2)])
  fix x assume "x \<in> set (dr_members s)" "ua_accountID x = ua_accountID m \<and> ua_userID x = ua_userID m"
  then show "x = m"
    using map_unique [of "\<lambda>m. (ua_accountID m, ua_userID m)" "dr_members s" m x] assms by (simp add: single_members_def)
qed simp

lemma find_user_single: "single_members s \<Longrightarrow> u \<in> set (dr_users s) \<Longrightarrow> find_user (us_id u) s = Some u"
  using distinct_first [of us_id "dr_users s" u] by (simp add: single_members_def find_user_def)

lemma open_session_Inr:
  assumes "open_session J tm e clock user s = Inr r"
  shows "\<exists>m a msg. m \<in> set (dr_members s) \<and> tbl_last (\<lambda>m. ua_userID m = us_id user) (dr_members s) = Some m \<and> ua_userID m = us_id user \<and>
     find_account (ua_accountID m) s = Some a \<and> us_status user = StatusActive \<and>
     CreateTokens J tm clock msg = Inr (lr_accessToken r, lr_refreshToken r) \<and>
     jm_userID msg = us_id user \<and> jm_rolePlatform msg = us_role user \<and> jm_accountID msg = ua_accountID m \<and> jm_accountName msg = ac_name a \<and>
     jm_roleAccount msg = ua_role m \<and> jm_accountAccessMode msg = ua_accessMode m \<and> cx_queue (lr_context r) = ac_name a"
proof -
  from assms obtain m a where m: "tbl_last (\<lambda>m. ua_userID m = us_id user) (dr_members s) = Some m" "find_account (ua_accountID m) s = Some a"
      "us_status user = StatusActive" "au_memberErr e = None" "au_accountErr e = None"
    by (auto simp: open_session_def split: if_splits option.splits)
  let ?msg = "\<lparr>jm_userID = us_id user, jm_accountID = ac_id a, jm_username = us_name user, jm_accountName = ac_name a,
     jm_roleAccount = ua_role m, jm_accountAccessMode = ua_accessMode m,
     jm_publicAccessMode = public_access (au_defaultErr e) (us_id user) s, jm_rolePlatform = us_role user\<rparr>"
  obtain x y where t: "CreateTokens J tm clock ?msg = Inr (x, y)" "lr_accessToken r = x" "lr_refreshToken r = y" "cx_queue (lr_context r) = ac_name a"
    using assms m by (auto simp: open_session_def Let_def split: sum.splits)
  show ?thesis using m t tbl_last_Some [OF m(1)] find_account_in [OF m(2)]
    by (intro exI [of _ m] exI [of _ a] exI [of _ ?msg]) simp
qed

text \<open>Who is logged in: the row of the user in the table that the login leaves, attributes aside.\<close>

lemma Login_Inr:
  assumes "Login J tm e clock (Some req) s = (Inr r, s2)"
  shows "\<exists>user s1 user2 attr b attr1. authenticate e req s = Inr (attr, b) \<and> getOrCreateUser e (lq_username req) attr b s = (attr1, Inr user, s1) \<and>
     updateUserIfNeeded e user attr1 s1 = (Inr user2, s2) \<and> open_session J tm e clock user2 s2 = Inr r"
proof -
  obtain attr b where a: "authenticate e req s = Inr (attr, b)" using assms by (auto simp: Login_def split: sum.splits)
  obtain attr1 res s1 where g: "getOrCreateUser e (lq_username req) attr b s = (attr1, res, s1)" by (cases "getOrCreateUser e (lq_username req) attr b s")
  obtain user where u: "res = Inr user" using assms a g by (auto simp: Login_def split: sum.splits)
  obtain res2 s2' where v: "updateUserIfNeeded e user attr1 s1 = (res2, s2')" by (cases "updateUserIfNeeded e user attr1 s1")
  show ?thesis using assms a g u v by (auto simp: Login_def split: sum.splits)
qed

lemma createUser_Inr:
  assumes "createUser e name p s = (Inr user, s1)"
  shows "\<exists>h a. (case p of None \<Rightarrow> h = None | Some q \<Rightarrow> \<exists>x. au_hash e q = Inr x \<and> h = Some x) \<and> new_user_attributes e name = Inr a \<and>
     user = \<lparr>us_id = Suc (dr_userSeq s), us_createdAt = au_now e, us_name = name, us_nickname = name, us_password = h, us_role = RoleUser,
       us_status = StatusActive, us_space = name, us_imageQuota = -1, us_lastEmailVerifiedAt = None, us_attributes = a\<rparr> \<and>
     s1 = insert_member \<lparr>ua_id = 0, ua_userID = Suc (dr_userSeq s), ua_accountID = DefaultAccountID, ua_role = RoleUser,
            ua_accessMode = AccessModeRO, ua_quota = no_quota\<rparr>
          (s\<lparr>dr_users := dr_users s @ [user], dr_userSeq := Suc (dr_userSeq s), dr_userNames := name # dr_userNames s\<rparr>)"
  using assms by (auto simp: createUser_def Let_def split: sum.splits option.splits if_splits)

lemma getOrCreateUser_row: "getOrCreateUser e n attr b s = (attr1, Inr user, s1) \<Longrightarrow> user \<in> set (dr_users s1)"
  by (auto simp: getOrCreateUser_def Let_def user_named_def insert_member_def dest!: createUser_Inr tbl_first_Some split: option.splits if_splits)

lemma updateUserIfNeeded_row:
  assumes "updateUserIfNeeded e user attr s1 = (Inr user2, s2)" and "user \<in> set (dr_users s1)"
  shows "us_id user2 = us_id user \<and> us_role user2 = us_role user \<and> us_status user2 = us_status user \<and> us_name user2 = us_name user \<and>
     dr_members s2 = dr_members s1 \<and> dr_accounts s2 = dr_accounts s1 \<and>
     (\<exists>row \<in> set (dr_users s2). us_id row = us_id user \<and> us_role row = us_role user) \<and> map us_id (dr_users s2) = map us_id (dr_users s1)"
proof -
  have id: "map us_id (tbl_updates P (\<lambda>u. u\<lparr>us_nickname := n, us_attributes := a\<rparr>) t) = map us_id t" for P n a t
    by (simp add: tbl_updates_def)
  have row: "\<exists>row \<in> set (tbl_updates (\<lambda>u. us_id u = us_id user) (\<lambda>u. u\<lparr>us_nickname := n, us_attributes := a\<rparr>) (dr_users s1)).
      us_id row = us_id user \<and> us_role row = us_role user" for n a
  proof -
    have "user\<lparr>us_nickname := n, us_attributes := a\<rparr> \<in> set (tbl_updates (\<lambda>u. us_id u = us_id user) (\<lambda>u. u\<lparr>us_nickname := n, us_attributes := a\<rparr>) (dr_users s1))"
      using assms(2) by (simp add: tbl_updates_def image_iff) (rule bexI [of _ user], simp_all)
    then show ?thesis by (rule rev_bexI) simp
  qed
  have "(user2 = user \<and> s2 = s1) \<or> (\<exists>a n b. user2 = user\<lparr>us_attributes := a\<rparr> \<and>
      s2 = s1\<lparr>dr_users := tbl_updates (\<lambda>u. us_id u = us_id user) (\<lambda>u. u\<lparr>us_nickname := n, us_attributes := b\<rparr>) (dr_users s1)\<rparr>)"
    using assms(1) by (auto simp: updateUserIfNeeded_def Let_def split: if_splits option.splits)
  with assms(2) id row show ?thesis by auto
qed

text \<open>Claim C31. A login works: the access token that a successful login returns passes the guards of every protected route, with any method, until it
  expires, as long as the tables stay as the login left them and no user has two rows in one account there.
\<close>

theorem login_token_accepted:
  fixes s :: "'q directory"
  assumes "jwt_laws J" and "Login J tm e clock (Some req) s = (Inr r, s2)" and "single_members s2"
    and "ge_userErr g = None" and "ge_memberErr g = None" and "t < token_expiry (clock 0) (tm_accessTokenTTL tm)"
  shows "\<exists>token. guard_route J tm g t ProtectedRoute (request_with meth (lr_accessToken r)) s2 = Inr (Some token) \<and>
     jm_accountName token = cx_queue (lr_context r)"
proof -
  obtain user s1 user2 attr b attr1 where l: "getOrCreateUser e (lq_username req) attr b s = (attr1, Inr user, s1)"
      "updateUserIfNeeded e user attr1 s1 = (Inr user2, s2)" "open_session J tm e clock user2 s2 = Inr r"
    using Login_Inr [OF assms(2)] by blast
  note row = updateUserIfNeeded_row [OF l(2) getOrCreateUser_row [OF l(1)]]
  obtain m :: "'q user_account" and a :: "'q account" and msg :: jwt_message
    where m: "m \<in> set (dr_members s2)" "ua_userID m = us_id user2" "CreateTokens J tm clock msg = Inr (lr_accessToken r, lr_refreshToken r)"
      "jm_userID msg = us_id user2" "jm_rolePlatform msg = us_role user2" "jm_accountID msg = ua_accountID m" "jm_accountName msg = ac_name a"
      "jm_roleAccount msg = ua_role m" "jm_accountAccessMode msg = ua_accessMode m" "cx_queue (lr_context r) = ac_name a"
    using open_session_Inr [OF l(3)] by blast
  obtain w where w: "w \<in> set (dr_users s2)" "us_id w = us_id user" "us_role w = us_role user" using row by blast
  have fu: "find_user (us_id user2) s2 = Some w" using find_user_single [OF assms(3) w(1)] w(2) row by simp
  have fm: "find_member (ua_accountID m) (us_id user2) s2 = Some m" using find_member_single [OF assms(3) m(1)] m(2) by simp
  show ?thesis using m w row assms(4,5) fu fm
    by (simp add: guard_route_def AuthProtected_with [OF assms(1) CreateTokens_Inr(1) [OF m(3)] assms(6)])
qed


text \<open>
  Two rows of one user in one account with different roles lock the user out: the token of a login, which takes the last
  row, is refused for every request other than a GET, because the guard compares with the first row.
\<close>

theorem duplicate_member_locked_out:
  assumes "jwt_laws J" and "open_session J tm e clock user s = Inr r"
    and "tbl_last (\<lambda>m. ua_userID m = us_id user) (dr_members s) = Some m" and "find_member (ua_accountID m) (us_id user) s = Some m1"
    and "ua_role m1 \<noteq> ua_role m" and "meth \<noteq> ''GET''" and "t < token_expiry (clock 0) (tm_accessTokenTTL tm)"
  shows "\<exists>x. guard_route J tm g t ProtectedRoute (request_with meth (lr_accessToken r)) s = Inl x"
proof -
  obtain msg where msg: "CreateTokens J tm clock msg = Inr (lr_accessToken r, lr_refreshToken r)" "jm_userID msg = us_id user"
      "jm_accountID msg = ua_accountID m" "jm_roleAccount msg = ua_role m"
    using open_session_Inr [OF assms(2)] assms(3) by auto
  show ?thesis
  proof (cases "ge_userErr g = None \<and> (\<exists>u. find_user (us_id user) s = Some u)")
    case True
    then obtain u where u: "find_user (us_id user) s = Some u" "us_id u = us_id user" using find_user_in by blast
    show ?thesis
      using True u assms(4,5,6) msg(2-4)
      by (simp add: guard_route_def AuthProtected_with [OF assms(1) CreateTokens_Inr(1) [OF msg(1)] assms(7)])
  next
    case False
    then have "ge_userErr g \<noteq> None \<or> find_user (us_id user) s = None" by auto
    then show ?thesis using assms(6) msg(2)
      by (auto simp: guard_route_def AuthProtected_with [OF assms(1) CreateTokens_Inr(1) [OF msg(1)] assms(7)])
  qed
qed

section \<open>Registration\<close>

lemma signup_user:
  assumes "Signup e (Some q) s = (Inr x, s1)"
  shows "\<exists>user h a. user_named (sg_username q) s = None \<and> au_hash e (sg_password q) = Inr h \<and> us_password user = Some h \<and> us_name user = sg_username q \<and>
    us_role user = RoleUser \<and> us_status user = StatusActive \<and> us_attributes user = a \<and> at_id a = 0 \<and> us_id user = Suc (dr_userSeq s) \<and>
    s1 = insert_member \<lparr>ua_id = 0, ua_userID = us_id user, ua_accountID = DefaultAccountID, ua_role = RoleUser,
            ua_accessMode = AccessModeRO, ua_quota = no_quota\<rparr>
          (s\<lparr>dr_users := dr_users s @ [user], dr_userSeq := Suc (dr_userSeq s), dr_userNames := sg_username q # dr_userNames s\<rparr>)"
proof -
  obtain user where u: "createUser e (sg_username q) (Some (sg_password q)) s = (Inr user, s1)" "user_named (sg_username q) s = None"
    using assms by (auto simp: Signup_def split: if_splits option.splits prod.splits sum.splits login_error.splits)
  obtain h a where ha: "au_hash e (sg_password q) = Inr h" "new_user_attributes e (sg_username q) = Inr a"
      "user = \<lparr>us_id = Suc (dr_userSeq s), us_createdAt = au_now e, us_name = sg_username q, us_nickname = sg_username q, us_password = Some h, us_role = RoleUser,
       us_status = StatusActive, us_space = sg_username q, us_imageQuota = -1, us_lastEmailVerifiedAt = None, us_attributes = a\<rparr>"
      "s1 = insert_member \<lparr>ua_id = 0, ua_userID = Suc (dr_userSeq s), ua_accountID = DefaultAccountID, ua_role = RoleUser,
            ua_accessMode = AccessModeRO, ua_quota = no_quota\<rparr>
          (s\<lparr>dr_users := dr_users s @ [user], dr_userSeq := Suc (dr_userSeq s), dr_userNames := sg_username q # dr_userNames s\<rparr>)"
    using createUser_Inr [OF u(1)] by auto
  have "at_id a = 0"
    using ha(2) by (auto simp: new_user_attributes_def no_attributes_def split: if_splits uid_answer.splits)
  with ha u(2) show ?thesis by (intro exI [of _ user] exI [of _ h] exI [of _ a]) simp
qed

text \<open>Registration and login fit together: a user who has just signed up can log in with the same name and password, and the session is an ordinary
  user's in the default account with read-only access.
\<close>

theorem signup_then_login:
  assumes "Signup e (Some q) s = (Inr x, s1)" and "bcrypt_law e" and "au_isDNSLabel e (sg_username q)" and "signs_all J"
    and "au_updateUserErr e = None" "au_memberErr e = None" "au_accountErr e = None" and "find_account DefaultAccountID s = Some a"
  shows "\<exists>r s2. Login J tm e clock (Some \<lparr>lq_authMethod = ''normal'', lq_username = Some (sg_username q), lq_password = Some (sg_password q), lq_token = None\<rparr>) s1 = (Inr r, s2) \<and>
    cx_queue (lr_context r) = ac_name a \<and> cx_roleQueue (lr_context r) = RoleUser \<and> cx_rolePlatform (lr_context r) = RoleUser \<and>
    cx_accessQueue (lr_context r) = AccessModeRO"
proof -
  obtain user h where u: "user_named (sg_username q) s = None" "au_hash e (sg_password q) = Inr h" "us_password user = Some h" "us_name user = sg_username q"
      "us_role user = RoleUser" "us_status user = StatusActive" "at_id (us_attributes user) = 0" "us_id user = Suc (dr_userSeq s)"
    and s1: "s1 = insert_member \<lparr>ua_id = 0, ua_userID = us_id user, ua_accountID = DefaultAccountID, ua_role = RoleUser,
            ua_accessMode = AccessModeRO, ua_quota = no_quota\<rparr>
          (s\<lparr>dr_users := dr_users s @ [user], dr_userSeq := Suc (dr_userSeq s), dr_userNames := sg_username q # dr_userNames s\<rparr>)"
    using signup_user [OF assms(1)] by blast
  have q: "sg_username q \<noteq> []" "au_findUserErr e = None" using assms(1) by (auto simp: Signup_def split: if_splits option.splits)
  have named: "user_named (sg_username q) s1 = Some user"
    using u(1,4) by (simp add: s1 insert_member_def user_named_def tbl_first_append tbl_first_Cons)
  let ?req = "\<lparr>lq_authMethod = ''normal'', lq_username = Some (sg_username q), lq_password = Some (sg_password q), lq_token = None\<rparr>"
  have auth: "authenticate e ?req s1 = Inr (no_attributes, False)"
    using assms(2,3) q named u(2,3) by (simp add: authenticate_def normalAuth_def bcrypt_law_def)
  obtain attr1 where g: "getOrCreateUser e (Some (sg_username q)) no_attributes False s1 = (attr1, Inr user, s1)"
    using q named by (simp add: getOrCreateUser_def no_attributes_def)
  obtain user2 s2 where v: "updateUserIfNeeded e user attr1 s1 = (Inr user2, s2)"
    using u(7) assms(5) by (simp add: updateUserIfNeeded_def Let_def)
  have row: "us_id user2 = us_id user" "us_role user2 = us_role user" "us_status user2 = us_status user" "dr_members s2 = dr_members s1" "dr_accounts s2 = dr_accounts s1"
    using updateUserIfNeeded_row [OF v getOrCreateUser_row [OF g]] by auto
  have last: "tbl_last (\<lambda>m. ua_userID m = us_id user) (dr_members s2) =
      Some \<lparr>ua_id = Suc (dr_memberSeq s), ua_userID = us_id user, ua_accountID = 1, ua_role = RoleUser, ua_accessMode = AccessModeRO, ua_quota = no_quota\<rparr>"
    by (simp add: row s1 insert_member_def tbl_last_def tbl_first_Cons)
  have acc: "find_account DefaultAccountID s2 = Some a" using assms(8) by (simp add: find_account_def row s1 insert_member_def)
  let ?m = "\<lparr>ua_id = Suc (dr_memberSeq s), ua_userID = us_id user, ua_accountID = 1, ua_role = RoleUser, ua_accessMode = AccessModeRO, ua_quota = no_quota\<rparr>"
  let ?msg = "\<lparr>jm_userID = us_id user, jm_accountID = ac_id a, jm_username = us_name user2, jm_accountName = ac_name a,
     jm_roleAccount = RoleUser, jm_accountAccessMode = AccessModeRO,
     jm_publicAccessMode = public_access (au_defaultErr e) (us_id user) s2, jm_rolePlatform = RoleUser\<rparr>"
  obtain x y where t: "CreateTokens J tm clock ?msg = Inr (x, y)" using CreateTokens_signs [OF assms(4)] by metis
  have acc1: "find_account (Suc 0) s2 = Some a" using acc by simp
  have "\<exists>r. open_session J tm e clock user2 s2 = Inr r \<and> cx_queue (lr_context r) = ac_name a \<and> cx_roleQueue (lr_context r) = RoleUser \<and>
      cx_rolePlatform (lr_context r) = RoleUser \<and> cx_accessQueue (lr_context r) = AccessModeRO"
    using t by (simp add: open_session_def Let_def last acc1 assms(6,7) row(1,2,3) u(5,6))
  with auth g v show ?thesis by (auto simp: Login_def)
qed

text \<open>A registration that breaks off between its two insertions leaves a user who can neither register again nor log in: every later registration of the name
  fails, and every login that identifies the user ends without a session.
\<close>

theorem half_created_user_stuck:
  assumes "Signup e (Some q) s = (Inl x, s1)" and "user_named (sg_username q) s = None" and "user_named (sg_username q) s1 = Some user"
    and "\<forall>m \<in> set (dr_members s). ua_userID m \<le> dr_userSeq s"
  shows "(\<exists>y s2. Signup e' (Some q) s1 = (Inl y, s2)) \<and> (\<exists>y. open_session J tm e' clock user s1 = Inl y)"
proof -
  have "snd (createUser e (sg_username q) (Some (sg_password q)) s) = s1"
    using assms(1-3) by (auto simp: Signup_def split: if_splits option.splits prod.splits sum.splits login_error.splits)
  moreover have "\<exists>y. fst (createUser e (sg_username q) (Some (sg_password q)) s) = Inl y"
    using assms(1-3) by (auto simp: Signup_def split: if_splits option.splits prod.splits sum.splits login_error.splits)
  ultimately obtain y where c: "createUser e (sg_username q) (Some (sg_password q)) s = (Inl y, s1)" by (metis prod.collapse)
  then have "dr_members s1 = dr_members s \<and> us_id user = Suc (dr_userSeq s)"
    using assms(2,3) by (auto simp: createUser_def Let_def user_named_def tbl_first_append tbl_first_Cons split: sum.splits option.splits if_splits)
  with assms(4) have "tbl_last (\<lambda>m. ua_userID m = us_id user) (dr_members s1) = None"
    by (auto simp: tbl_last_def tbl_first_None)
  with assms(3) show ?thesis by (auto simp: open_session_def Signup_def split: option.splits)
qed

section \<open>E-mail addresses and attributes\<close>

text \<open>An address can be verified without any code: for an address no code was ever made for, the empty code is accepted, and from then on the
  user counts as verified, on every later day up to the 180th.
\<close>

theorem empty_code_verifies:
  assumes "find_user (jm_userID token) s = Some u" and "gm_get (cs_codes v) email = None" and "now \<noteq> 0"
    and "later < now + 180 * 24 * Hour"
  shows "\<exists>s1. UpdateUserEmail None None now token (Some (email, [])) v s = (Inr ''User email updated successfully'', s1) \<and>
    CheckUserEmail None later (jm_userID token) s1"
proof -
  have "us_id u = jm_userID token" using find_user_in [OF assms(1)] by simp
  then have "find_user (jm_userID token) (s\<lparr>dr_users := tbl_updates (\<lambda>u. us_id u = jm_userID token) (us_lastEmailVerifiedAt_update (\<lambda>_. Some now)) (dr_users s)\<rparr>)
      = Some (u\<lparr>us_lastEmailVerifiedAt := Some now\<rparr>)"
    using assms(1) by (simp add: find_user_def tbl_first_updates_same)
  with assms show ?thesis by (simp add: UpdateUserEmail_def CheckUserEmail_def CheckEmailVerified_def)
qed

text \<open>
  What an administrator writes into the attributes of a user without their identifier is lost at the next login by name and password:
  teacher, group, telephone and expiry date are gone, and the nickname is the name again.
\<close>

theorem admin_edit_lost_at_login:
  assumes "UpdateUserAttributesByAdmin None None (Some name) (Some attributes) s = (Inr x, s1)" and "at_id attributes = 0"
    and "distinct (map us_id (dr_users s))"
    and "Login J tm e clock (Some \<lparr>lq_authMethod = ''normal'', lq_username = Some name, lq_password = Some pw, lq_token = None\<rparr>) s1 = (Inr r, s2)"
  shows "\<exists>u. user_named name s2 = Some u \<and> us_nickname u = name \<and> at_teacher (us_attributes u) = None \<and>
    at_group (us_attributes u) = None \<and> at_phone (us_attributes u) = None \<and> at_expiredAt (us_attributes u) = None"
proof -
  let ?req = "\<lparr>lq_authMethod = ''normal'', lq_username = Some name, lq_password = Some pw, lq_token = None\<rparr>"
  obtain user where u: "user_named name s = Some user" and s1: "s1 = save_user (user\<lparr>us_nickname := at_nickname attributes, us_attributes := attributes\<rparr>) s"
    using assms(1) by (auto simp: UpdateUserAttributesByAdmin_def split: option.splits)
  let ?u1 = "user\<lparr>us_nickname := at_nickname attributes, us_attributes := attributes\<rparr>"
  have n: "us_name user = name" using u tbl_first_Some unfolding user_named_def by fastforce
  have named: "user_named name s1 = Some ?u1"
    using tbl_first_updates_key [OF assms(3) u [unfolded user_named_def], of "\<lambda>_. ?u1"] n by (simp add: s1 save_user_def user_named_def)
  have ids: "distinct (map us_id (dr_users s1))"
  proof -
    have "map us_id (dr_users s1) = map us_id (dr_users s)" by (simp add: s1 save_user_def tbl_updates_def)
    with assms(3) show ?thesis by simp
  qed
  obtain user1 s1' user2 attr b attr1 where l: "authenticate e ?req s1 = Inr (attr, b)"
      "getOrCreateUser e (Some name) attr b s1 = (attr1, Inr user1, s1')" "updateUserIfNeeded e user1 attr1 s1' = (Inr user2, s2)"
    using Login_Inr [OF assms(4)] by auto
  have attr: "attr = no_attributes" using l(1) by (auto simp: authenticate_def split: if_splits option.splits)
  have g: "attr1 = no_attributes\<lparr>at_name := name, at_nickname := name\<rparr>" "user1 = ?u1" "s1' = s1"
    using l(2) named by (auto simp: getOrCreateUser_def Let_def attr no_attributes_def split: option.splits)
  define f where "f a = (\<lambda>w :: user. w\<lparr>us_nickname := name, us_attributes := a\<rparr>)" for a
  obtain a where a: "s2 = s1\<lparr>dr_users := tbl_updates (\<lambda>w. us_id w = us_id ?u1) (f a) (dr_users s1)\<rparr>"
      "at_teacher a = None" "at_group a = None" "at_phone a = None" "at_expiredAt a = None"
    using l(3) assms(2) by (auto simp: g updateUserIfNeeded_def Let_def no_attributes_def f_def split: if_splits option.splits)
  have "user_named name s2 = Some (f a ?u1)"
    using tbl_first_updates_key [OF ids named [unfolded user_named_def], of "f a"] n by (simp add: a(1) user_named_def f_def)
  with a(2-) show ?thesis by (simp add: f_def)
qed

section \<open>The table of users\<close>

text \<open>The handlers that touch the table of users, each with any request and any faults.\<close>

inductive user_step :: "'q directory \<Rightarrow> 'q directory \<Rightarrow> bool" where
  step_login: "user_step s (snd (Login J tm e clock body s))"
| step_signup: "user_step s (snd (Signup e body s))"
| step_delete: "user_step s (snd (DeleteUser err name s))"
| step_role: "user_step s (snd (UpdateRole err req nameReq s))"
| step_admin: "user_step s (snd (UpdateUserAttributesByAdmin findErr saveErr nameReq attrs s))"
| step_attributes: "user_step s (snd (UpdateUserAttributes findErr saveErr token attrs s))"
| step_email: "user_step s (snd (UpdateUserEmail findErr updateErr now token codes v s))"

definition users_ok :: "'q directory \<Rightarrow> bool" where
  "users_ok s \<longleftrightarrow> distinct (map us_id (dr_users s)) \<and> distinct (map us_name (dr_users s)) \<and>
     (\<forall>u \<in> set (dr_users s). us_id u \<le> dr_userSeq s \<and> us_name u \<in> set (dr_userNames s) \<and> us_role u \<in> {RoleGuest, RoleUser, RoleAdmin})"

definition user_key :: "user \<Rightarrow> nat \<times> string" where
  "user_key u = (us_id u, us_name u)"

lemma users_ok_map:
  assumes "users_ok s" and "map user_key (dr_users s1) = map user_key (dr_users s)" and "dr_userSeq s1 = dr_userSeq s" "dr_userNames s1 = dr_userNames s"
    and "\<forall>u \<in> set (dr_users s1). us_role u \<in> {RoleGuest, RoleUser, RoleAdmin}"
  shows "users_ok s1"
proof -
  have i: "map us_id (dr_users s1) = map us_id (dr_users s)" and n: "map us_name (dr_users s1) = map us_name (dr_users s)"
    using arg_cong [OF assms(2), of "map fst"] arg_cong [OF assms(2), of "map snd"] by (simp_all add: user_key_def comp_def)
  have "\<forall>u \<in> set (dr_users s1). us_id u \<in> us_id ` set (dr_users s) \<and> us_name u \<in> us_name ` set (dr_users s)"
    using arg_cong [OF i, of set] arg_cong [OF n, of set] by auto
  with assms i n show ?thesis by (auto simp: users_ok_def)
qed

lemma users_ok_updates:
  assumes "users_ok s" and "\<And>u. user_key (f u) = user_key u" and "\<And>u. us_role u \<in> {RoleGuest, RoleUser, RoleAdmin} \<Longrightarrow> us_role (f u) \<in> {RoleGuest, RoleUser, RoleAdmin}"
  shows "users_ok (s\<lparr>dr_users := tbl_updates P f (dr_users s)\<rparr>)"
  by (rule users_ok_map [OF assms(1)]) (use assms in \<open>auto simp: tbl_updates_def users_ok_def\<close>)

lemma users_ok_save:
  assumes "users_ok s" and "u \<in> set (dr_users s)" and "user_key w = user_key u" and "us_role w = us_role u"
  shows "users_ok (save_user w s)"
proof -
  have eq: "x = u" if "x \<in> set (dr_users s)" "us_id x = us_id w" for x
    using map_unique [of us_id "dr_users s" x u] that assms by (simp add: users_ok_def user_key_def)
  have "map user_key (dr_users (save_user w s)) = map user_key (dr_users s)"
    using eq assms(3) by (auto simp: save_user_def tbl_updates_def)
  then show ?thesis
    by (rule users_ok_map [OF assms(1)]) (use assms in \<open>auto simp: save_user_def tbl_updates_def users_ok_def\<close>)
qed

lemma users_ok_members [simp]: "users_ok (insert_member m s) = users_ok s"
  by (simp add: users_ok_def insert_member_def)

lemma users_ok_seq: "users_ok s \<Longrightarrow> users_ok (s\<lparr>dr_userSeq := Suc (dr_userSeq s)\<rparr>)"
  by (auto simp: users_ok_def)

lemma users_ok_insert:
  assumes "users_ok s" and "name \<notin> set (dr_userNames s)" and "us_id u = Suc (dr_userSeq s)" "us_name u = name" "us_role u = RoleUser"
  shows "users_ok (s\<lparr>dr_users := dr_users s @ [u], dr_userSeq := Suc (dr_userSeq s), dr_userNames := name # dr_userNames s\<rparr>)"
  using assms by (fastforce simp: users_ok_def)

lemma createUser_users_ok: "users_ok s \<Longrightarrow> users_ok (snd (createUser e name p s))"
  using users_ok_insert [of s name] users_ok_seq [of s] by (simp add: createUser_def Let_def split: sum.split option.split)

lemma getOrCreateUser_users_ok: "users_ok s \<Longrightarrow> users_ok (snd (snd (getOrCreateUser e n attr b s)))"
  using createUser_users_ok [of s] by (simp add: getOrCreateUser_def Let_def split: option.split)

lemma updateUserIfNeeded_users_ok: "users_ok s \<Longrightarrow> users_ok (snd (updateUserIfNeeded e user attr s))"
  by (auto simp: updateUserIfNeeded_def Let_def user_key_def intro!: users_ok_updates split: option.split)

text \<open>The state a login leaves comes from at most two writes, so a property both keep is kept.\<close>

lemma Login_state:
  assumes "P s" and "\<And>n attr b. P (snd (snd (getOrCreateUser e n attr b s)))" and "\<And>t user attr. P t \<Longrightarrow> P (snd (updateUserIfNeeded e user attr t))"
  shows "P (snd (Login J tm e clock body s))"
proof -
  have g: "P s1" if "getOrCreateUser e n attr b s = (a, r, s1)" for n attr b a r s1 using assms(2) [of n attr b] that by simp
  have u: "P s2" if "getOrCreateUser e n attr b s = (a, r, s1)" "updateUserIfNeeded e user attr1 s1 = (r', s2)" for n attr b a r s1 user attr1 r' s2
    using assms(3) [OF g [OF that(1)], of user attr1] that(2) by simp
  from assms(1) show ?thesis by (auto simp: Login_def split: option.split sum.split prod.split) (use g u in blast)+
qed

lemma Login_users_ok: "users_ok s \<Longrightarrow> users_ok (snd (Login J tm e clock body s))"
  by (rule Login_state) (simp_all add: getOrCreateUser_users_ok updateUserIfNeeded_users_ok)

lemma Signup_users_ok:
  assumes "users_ok s" shows "users_ok (snd (Signup e body s))"
proof -
  have "users_ok s1" if "createUser e n p s = (r, s1)" for n p r s1 using createUser_users_ok [OF assms, of e n p] that by simp
  with assms show ?thesis by (auto simp: Signup_def split: option.split sum.split prod.split login_error.split)
qed

lemma role_of_nat_named: "\<not> (n < 1 \<or> 3 < n) \<Longrightarrow> role_of_nat n \<in> {RoleGuest, RoleUser, RoleAdmin}"
proof -
  assume "\<not> (n < 1 \<or> 3 < n)"
  then have "n = 1 \<or> n = 2 \<or> n = 3" by linarith
  then show ?thesis by (auto simp: role_of_nat_def)
qed

lemma user_step_ok: "user_step s s1 \<Longrightarrow> users_ok s \<Longrightarrow> users_ok s1"
proof (induction rule: user_step.induct)
  case (step_delete s err name)
  then show ?case by (auto simp: DeleteUser_def tbl_delete_def users_ok_def distinct_map inj_on_def split: option.split)
next
  case (step_role s err req nameReq)
  show ?case
  proof (cases "UpdateRole err req nameReq s = (fst (UpdateRole err req nameReq s), s)")
    case False
    then obtain r n where "\<not> (r < 1 \<or> 3 < r)" and
        "snd (UpdateRole err req nameReq s) = s\<lparr>dr_users := tbl_updates (\<lambda>u. us_name u = n) (us_role_update (\<lambda>_. role_of_nat r)) (dr_users s)\<rparr>"
      by (auto simp: UpdateRole_def split: option.splits if_splits)
    with step_role role_of_nat_named [of r] show ?thesis
      by (auto simp: user_key_def intro!: users_ok_updates)
  qed (use step_role in \<open>metis snd_conv\<close>)
next
  case (step_admin s findErr saveErr nameReq attrs)
  have "u \<in> set (dr_users s)" if "user_named n s = Some u" for n u using that tbl_first_Some by (fastforce simp: user_named_def)
  with step_admin show ?case
    by (auto simp: UpdateUserAttributesByAdmin_def user_key_def intro!: users_ok_save split: option.split)
next
  case (step_attributes s findErr saveErr token attrs)
  have "u \<in> set (dr_users s)" if "find_user i s = Some u" for i u using that find_user_in by fastforce
  with step_attributes show ?case
    by (auto simp: UpdateUserAttributes_def Let_def user_key_def intro!: users_ok_save split: option.split)
next
  case (step_email s findErr updateErr now token codes v)
  then show ?case by (auto simp: UpdateUserEmail_def user_key_def intro!: users_ok_updates split: option.split prod.split)
qed (simp_all add: Login_users_ok Signup_users_ok)

text \<open>Claim C27. The table of users stays well formed whatever is asked of it: after any number of logins, registrations, renewals of attributes, changes of role, verifications
  and deletions, identifiers and names are still unique, every name is registered as taken, and every platform role is one of guest, user and
  administrator; the zero and the unnamed roles never get in.
\<close>

theorem users_well_formed:
  assumes "user_step\<^sup>*\<^sup>* s s1" and "users_ok s"
  shows "users_ok s1"
  using assms by (induction rule: rtranclp_induct) (auto intro: user_step_ok)

lemma createUser_names: "set (dr_userNames s) \<subseteq> set (dr_userNames (snd (createUser e name p s)))"
  by (auto simp: createUser_def Let_def insert_member_def split: sum.split option.split)

lemma getOrCreateUser_names: "set (dr_userNames s) \<subseteq> set (dr_userNames (snd (snd (getOrCreateUser e n attr b s))))"
  using createUser_names [of s] by (simp add: getOrCreateUser_def Let_def split: option.split)

lemma updateUserIfNeeded_names: "dr_userNames (snd (updateUserIfNeeded e user attr s)) = dr_userNames s"
  by (simp add: updateUserIfNeeded_def Let_def split: option.split)

lemma Login_names: "set (dr_userNames s) \<subseteq> set (dr_userNames (snd (Login J tm e clock body s)))"
  by (rule Login_state [of "\<lambda>t. set (dr_userNames s) \<subseteq> set (dr_userNames t)"]) (simp_all add: getOrCreateUser_names updateUserIfNeeded_names)

lemma Signup_names: "set (dr_userNames s) \<subseteq> set (dr_userNames (snd (Signup e body s)))"
proof -
  have "set (dr_userNames s) \<subseteq> set (dr_userNames s1)" if "createUser e n p s = (r, s1)" for n p r s1 using createUser_names [of s e n p] that by simp
  then show ?thesis by (auto simp: Signup_def split: option.split sum.split prod.split login_error.split)
qed

lemma user_step_names: "user_step s s1 \<Longrightarrow> set (dr_userNames s) \<subseteq> set (dr_userNames s1)"
proof (induction rule: user_step.induct)
  case (step_role s err req nameReq)
  then show ?case by (simp add: UpdateRole_def split: option.split)
next
  case (step_admin s findErr saveErr nameReq attrs)
  then show ?case by (simp add: UpdateUserAttributesByAdmin_def save_user_def split: option.split)
next
  case (step_email s findErr updateErr now token codes v)
  then show ?case by (simp add: UpdateUserEmail_def split: option.split prod.split)
qed (simp_all add: Login_names Signup_names DeleteUser_def UpdateUserAttributes_def save_user_def Let_def split: option.split)

text \<open>
  A name is used up for ever: once a user of the name has been registered, no later registration of that name succeeds, even after the user
  has been deleted.
\<close>

theorem deleted_name_blocked:
  assumes "user_step\<^sup>*\<^sup>* s s1" and "users_ok s" and "user_named (sg_username q) s = Some u"
  shows "\<nexists>x s2. Signup e (Some q) s1 = (Inr x, s2)"
proof -
  have "set (dr_userNames s) \<subseteq> set (dr_userNames s1)"
    using assms(1) by (induction rule: rtranclp_induct) (use user_step_names in blast)+
  moreover have "sg_username q \<in> set (dr_userNames s)"
    using assms(2,3) tbl_first_Some unfolding users_ok_def user_named_def by fastforce
  ultimately show ?thesis
    by (auto simp: Signup_def createUser_def Let_def split: if_splits option.splits sum.splits login_error.splits prod.splits)
qed

section \<open>Examples\<close>

text \<open>A signature scheme that satisfies the laws: the claims as a list of numbers, in unary, each ended by a comma.\<close>

definition encode_nats :: "nat list \<Rightarrow> string" where
  "encode_nats ns = concat (map (\<lambda>n. replicate n CHR ''1'' @ [CHR '','']) ns)"

definition decode_nats :: "string \<Rightarrow> nat list" where
  "decode_nats s = map length (butlast (split_on CHR '','' s))"

lemma decode_encode: "decode_nats (encode_nats ns) = ns"
proof -
  have "split_on CHR '','' (encode_nats ns) = map (\<lambda>n. replicate n CHR ''1'') ns @ [[]]"
    by (induction ns) (simp_all add: encode_nats_def split_on_append)
  then show ?thesis by (simp add: decode_nats_def map_idI)
qed

lemma encode_nats_set: "set (encode_nats ns) \<subseteq> {CHR ''1'', CHR '',''}"
  by (auto simp: encode_nats_def)

definition nat_of_role :: "role \<Rightarrow> nat" where
  "nat_of_role r = (case r of NoRole \<Rightarrow> 0 | RoleGuest \<Rightarrow> 1 | RoleUser \<Rightarrow> 2 | RoleAdmin \<Rightarrow> 3 | OtherRole n \<Rightarrow> n + 4)"

definition role_at :: "nat \<Rightarrow> role" where
  "role_at n = (if n = 0 then NoRole else if n = 1 then RoleGuest else if n = 2 then RoleUser else if n = 3 then RoleAdmin else OtherRole (n - 4))"

definition nat_of_access :: "access_mode \<Rightarrow> nat" where
  "nat_of_access a = (case a of NoAccessMode \<Rightarrow> 0 | AccessModeNA \<Rightarrow> 1 | AccessModeRO \<Rightarrow> 2 | AccessModeRW \<Rightarrow> 3 | AccessModeAO \<Rightarrow> 4 | OtherAccessMode n \<Rightarrow> n + 5)"

definition access_at :: "nat \<Rightarrow> access_mode" where
  "access_at n = (if n = 0 then NoAccessMode else if n = 1 then AccessModeNA else if n = 2 then AccessModeRO else if n = 3 then AccessModeRW
     else if n = 4 then AccessModeAO else OtherAccessMode (n - 5))"

lemma role_at_nat [simp]: "role_at (nat_of_role r) = r" by (cases r) (simp_all add: role_at_def nat_of_role_def)

lemma access_at_nat [simp]: "access_at (nat_of_access a) = a" by (cases a) (simp_all add: access_at_def nat_of_access_def)

definition encode_claims :: "jwt_claims \<Rightarrow> string" where
  "encode_claims c = encode_nats
     ([jc_userID c, jc_queueID c, nat_of_role (jc_roleQueue c), nat_of_role (jc_rolePlatform c), nat_of_access (jc_accessMode c),
       nat_of_access (jc_publicAccessMode c), if jc_expiresAt c < 0 then 1 else 0, nat \<bar>jc_expiresAt c\<bar>, length (jc_username c)]
      @ map of_char (jc_username c) @ map of_char (jc_queueName c))"

definition decode_claims :: "string \<Rightarrow> jwt_claims" where
  "decode_claims s = (let ns = decode_nats s; n = ns ! 8; cs = map char_of (drop 9 ns) in
     \<lparr>jc_userID = ns ! 0, jc_queueID = ns ! 1, jc_username = take n cs, jc_queueName = drop n cs,
      jc_roleQueue = role_at (ns ! 2), jc_rolePlatform = role_at (ns ! 3), jc_accessMode = access_at (ns ! 4), jc_publicAccessMode = access_at (ns ! 5),
      jc_expiresAt = (if ns ! 6 = 1 then - int (ns ! 7) else int (ns ! 7))\<rparr>)"

lemma decode_encode_claims: "decode_claims (encode_claims c) = c"
proof -
  have m: "map (char_of \<circ> (of_char :: char \<Rightarrow> nat)) xs = xs" for xs by (simp add: map_idI)
  show ?thesis by (simp add: decode_claims_def encode_claims_def decode_encode Let_def m)
qed

definition unary_jwt :: jwt_ops where
  "unary_jwt = \<lparr>jo_sign = (\<lambda>key c. Inr (encode_claims c)),
     jo_parse = (\<lambda>key now s. if now < jc_expiresAt (decode_claims s) then Inr (decode_claims s) else Inl ''expired'')\<rparr>"

lemma unary_jwt_laws: "jwt_laws unary_jwt"
proof -
  have "CHR '' '' \<notin> set (encode_claims c)" for c using encode_nats_set by (fastforce simp: encode_claims_def)
  then show ?thesis by (simp add: jwt_laws_def unary_jwt_def decode_encode_claims)
qed

lemma unary_jwt_signs: "signs_all unary_jwt"
  by (simp add: signs_all_def unary_jwt_def)

definition sample_tm :: token_manager where
  "sample_tm = \<lparr>tm_secretKey = ''key'', tm_accessTokenTTL = 1, tm_refreshTokenTTL = 168\<rparr>"

definition sample_message :: "role \<Rightarrow> jwt_message" where
  "sample_message r = \<lparr>jm_userID = 4, jm_accountID = 1, jm_username = ''ann'', jm_accountName = ''default'', jm_roleAccount = RoleUser,
     jm_accountAccessMode = AccessModeRO, jm_publicAccessMode = AccessModeRO, jm_rolePlatform = r\<rparr>"

definition sample_auth :: auth_env where
  "sample_auth = \<lparr>au_raidsEnabled = False, au_isDNSLabel = (\<lambda>n. True), au_actAPI = (\<lambda>t. Inl ''no''), au_ldapDial = Some ''no'', au_ldapAdminBind = None,
     au_ldapSearch = (\<lambda>f. Inr []), au_ldapBind = (\<lambda>d p. None), au_uidServer = (\<lambda>n. UIDUnreachable), au_hash = (\<lambda>p. Inr (rev p)),
     au_compareHash = (\<lambda>h p. rev h = p), au_now = 7, au_findUserErr = None, au_againErr = None, au_createUserErr = None, au_createMemberErr = None,
     au_updateUserErr = None, au_memberErr = None, au_accountErr = None, au_defaultErr = None\<rparr>"

definition quiet_guard :: guard_env where
  "quiet_guard = \<lparr>ge_userErr = None, ge_memberErr = None\<rparr>"

definition password_directory :: "int directory" where
  "password_directory = sample_directory\<lparr>dr_users := [sample_user 4 ''ann''\<lparr>us_password := Some ''wp''\<rparr>]\<rparr>"

definition sample_login :: "string \<Rightarrow> login_req" where
  "sample_login n = \<lparr>lq_authMethod = ''normal'', lq_username = Some n, lq_password = Some ''pw'', lq_token = None\<rparr>"

lemmas sample_auth_defs = sample_tm_def sample_message_def sample_auth_def quiet_guard_def password_directory_def sample_login_def
  sample_directory_def sample_user_def

lemma sample_token: "\<exists>tok. createToken unary_jwt sample_tm t0 msg ttl = Inr tok"
  by (simp add: createToken_def unary_jwt_def)

lemma expiry_1: "token_expiry 0 1 = 3600000000000"
  by (simp add: token_expiry_def int64_def)

lemma expiry_168: "token_expiry 0 168 = 604800000000000"
  by (simp add: token_expiry_def int64_def)

lemma guards_pass_exactly_witness:
  "\<exists>tok. createToken unary_jwt sample_tm 0 (sample_message RoleUser) 1 = Inr tok \<and>
     guard_route unary_jwt sample_tm quiet_guard 5 ProtectedRoute (request_with ''POST'' tok) sample_directory = Inr (Some (sample_message RoleUser)) \<and>
     current_rights (sample_message RoleUser) sample_directory \<and>
     \<not> (\<exists>m. guard_route unary_jwt sample_tm quiet_guard 5 AdminRoute (request_with m tok) sample_directory = Inr (Some (sample_message RoleUser)))"
proof -
  obtain tok where tok: "createToken unary_jwt sample_tm 0 (sample_message RoleUser) 1 = Inr tok" using sample_token by blast
  have g: "guard_route unary_jwt sample_tm quiet_guard 5 ProtectedRoute (request_with ''POST'' tok) sample_directory = Inr (Some (sample_message RoleUser))"
    by (simp add: guard_route_def AuthProtected_with [OF unary_jwt_laws tok] expiry_1 find_user_def find_member_def tbl_first_Cons)
      (simp add: sample_auth_defs find_user_def find_member_def tbl_first_Cons)
  then have "current_rights (sample_message RoleUser) sample_directory"
    unfolding guards_pass_exactly by (simp add: request_with_def)
  with tok g show ?thesis by (auto simp: guards_pass_exactly sample_message_def)
qed

lemma renewal_outlives_rights_witness:
  "\<exists>tok access refresh. createToken unary_jwt sample_tm 0 (sample_message RoleAdmin) 168 = Inr tok \<and>
     refresh_chain unary_jwt sample_tm [(5, \<lambda>i. 0)] tok = Inr (access, refresh) \<and>
     guard_route unary_jwt sample_tm quiet_guard 6 AdminRoute (request_with ''GET'' access) sample_directory = Inr (Some (sample_message RoleAdmin))"
proof -
  obtain tok where tok: "createToken unary_jwt sample_tm 0 (sample_message RoleAdmin) (tm_refreshTokenTTL sample_tm) = Inr tok" using sample_token by blast
  have "\<exists>access refresh. refresh_chain unary_jwt sample_tm [(5, \<lambda>i. 0)] tok = Inr (access, refresh) \<and>
     guard_route unary_jwt sample_tm quiet_guard 6 AdminRoute (request_with ''GET'' access) sample_directory = Inr (Some (sample_message RoleAdmin))"
    by (rule renewal_outlives_rights [OF unary_jwt_laws unary_jwt_signs tok]) (simp_all add: sample_tm_def expiry_168 expiry_1 sample_message_def)
  with tok show ?thesis by (auto simp: sample_tm_def)
qed

lemma login_token_accepted_witness:
  "\<exists>r s2 token. Login unary_jwt sample_tm sample_auth (\<lambda>i. 0) (Some (sample_login ''ann'')) password_directory = (Inr r, s2) \<and>
     guard_route unary_jwt sample_tm quiet_guard 5 ProtectedRoute (request_with ''PUT'' (lr_accessToken r)) s2 = Inr (Some token) \<and>
     jm_accountName token = cx_queue (lr_context r)"
proof -
  obtain r s2 where l: "Login unary_jwt sample_tm sample_auth (\<lambda>i. 0) (Some (sample_login ''ann'')) password_directory = (Inr r, s2)" "single_members s2"
    by (simp add: Login_def authenticate_def normalAuth_def user_named_def getOrCreateUser_def updateUserIfNeeded_def open_session_def
        CreateTokens_def createToken_def unary_jwt_def no_attributes_def tbl_first_Cons tbl_last_def find_account_def Let_def single_members_def sample_auth_defs)
  from login_token_accepted [OF unary_jwt_laws l, of quiet_guard 5 "''PUT''"] l show ?thesis
    by (simp add: expiry_1 quiet_guard_def sample_tm_def)
qed

lemma duplicate_member_locked_out_witness:
  "\<exists>r x. let s = password_directory\<lparr>dr_members := dr_members password_directory @
       [\<lparr>ua_id = 2, ua_userID = 4, ua_accountID = 1, ua_role = RoleAdmin, ua_accessMode = AccessModeRW, ua_quota = no_quota\<rparr>]\<rparr> in
     open_session unary_jwt sample_tm sample_auth (\<lambda>i. 0) (sample_user 4 ''ann'') s = Inr r \<and>
     guard_route unary_jwt sample_tm quiet_guard 5 ProtectedRoute (request_with ''POST'' (lr_accessToken r)) s = Inl x"
proof -
  let ?s = "password_directory\<lparr>dr_members := dr_members password_directory @
       [\<lparr>ua_id = 2, ua_userID = 4, ua_accountID = 1, ua_role = RoleAdmin, ua_accessMode = AccessModeRW, ua_quota = no_quota\<rparr>]\<rparr>"
  obtain r where r: "open_session unary_jwt sample_tm sample_auth (\<lambda>i. 0) (sample_user 4 ''ann'') ?s = Inr r"
    by (simp add: open_session_def CreateTokens_def createToken_def unary_jwt_def tbl_last_def tbl_first_Cons find_account_def Let_def sample_auth_defs)
  let ?m = "\<lparr>ua_id = 2, ua_userID = 4, ua_accountID = 1, ua_role = RoleAdmin, ua_accessMode = AccessModeRW, ua_quota = no_quota\<rparr> :: int user_account"
  let ?m1 = "\<lparr>ua_id = 1, ua_userID = 4, ua_accountID = 1, ua_role = RoleUser, ua_accessMode = AccessModeRO, ua_quota = no_quota\<rparr> :: int user_account"
  have m: "tbl_last (\<lambda>m. ua_userID m = us_id (sample_user 4 ''ann'')) (dr_members ?s) = Some ?m"
    "find_member (ua_accountID ?m) (us_id (sample_user 4 ''ann'')) ?s = Some ?m1"
    by (simp_all add: tbl_last_def tbl_first_Cons find_member_def sample_auth_defs)
  have "\<exists>x. guard_route unary_jwt sample_tm quiet_guard 5 ProtectedRoute (request_with ''POST'' (lr_accessToken r)) ?s = Inl x"
    by (rule duplicate_member_locked_out [OF unary_jwt_laws r m]) (simp_all add: sample_tm_def expiry_1)
  with r show ?thesis by (simp add: Let_def)
qed

lemma signup_then_login_witness:
  "\<exists>x s1 r s2. Signup sample_auth (Some \<lparr>sg_username = ''cat'', sg_password = ''pw''\<rparr>) sample_directory = (Inr x, s1) \<and>
     Login unary_jwt sample_tm sample_auth (\<lambda>i. 0) (Some (sample_login ''cat'')) s1 = (Inr r, s2) \<and> cx_queue (lr_context r) = ''default''"
proof -
  let ?q = "\<lparr>sg_username = ''cat'', sg_password = ''pw''\<rparr>"
  obtain x s1 where s1: "Signup sample_auth (Some ?q) sample_directory = (Inr x, s1)"
    by (simp add: Signup_def createUser_def new_user_attributes_def user_named_def tbl_first_Cons Let_def sample_auth_defs)
  have b: "bcrypt_law sample_auth" by (simp add: bcrypt_law_def sample_auth_def)
  obtain a where a: "find_account DefaultAccountID sample_directory = Some a" "ac_name a = ''default''"
    by (simp add: find_account_def sample_directory_def tbl_first_Cons)
  from signup_then_login [OF s1 b _ unary_jwt_signs _ _ _ a(1), of sample_tm "\<lambda>i. 0"] a(2) s1 show ?thesis
    by (auto simp: sample_auth_def sample_login_def)
qed

lemma half_created_user_stuck_witness:
  "\<exists>x s1 y s2. Signup (sample_auth\<lparr>au_createMemberErr := Some ''lost''\<rparr>) (Some \<lparr>sg_username = ''cat'', sg_password = ''pw''\<rparr>) sample_directory = (Inl x, s1) \<and>
     Signup sample_auth (Some \<lparr>sg_username = ''cat'', sg_password = ''pw''\<rparr>) s1 = (Inl y, s2)"
proof -
  let ?q = "\<lparr>sg_username = ''cat'', sg_password = ''pw''\<rparr>"
  obtain x s1 user where s1: "Signup (sample_auth\<lparr>au_createMemberErr := Some ''lost''\<rparr>) (Some ?q) sample_directory = (Inl x, s1)"
      "user_named ''cat'' sample_directory = None" "user_named ''cat'' s1 = Some user"
    by (simp add: Signup_def createUser_def new_user_attributes_def user_named_def tbl_first_Cons tbl_first_append Let_def sample_auth_defs)
  have "\<forall>m \<in> set (dr_members sample_directory). ua_userID m \<le> dr_userSeq sample_directory" by (simp add: sample_directory_def)
  with half_created_user_stuck [OF s1(1), of user sample_auth] s1 show ?thesis by fastforce
qed

lemma empty_code_verifies_witness:
  "\<exists>s1. UpdateUserEmail None None 9 (sample_message RoleUser) (Some (''a@b'', [])) \<lparr>cs_codes = [], cs_mails = []\<rparr> sample_directory =
       (Inr ''User email updated successfully'', s1) \<and> CheckUserEmail None 10 4 s1"
proof -
  obtain u where "find_user (jm_userID (sample_message RoleUser)) sample_directory = Some u"
    by (simp add: find_user_def tbl_first_Cons sample_auth_defs)
  from empty_code_verifies [OF this, of "\<lparr>cs_codes = [], cs_mails = []\<rparr>" "''a@b''" 9 10] show ?thesis by (simp add: sample_message_def)
qed

lemma admin_edit_lost_at_login_witness:
  "\<exists>x s1 r s2 u. UpdateUserAttributesByAdmin None None (Some ''ann'') (Some (no_attributes\<lparr>at_teacher := Some ''lee''\<rparr>)) password_directory = (Inr x, s1) \<and>
     Login unary_jwt sample_tm sample_auth (\<lambda>i. 0) (Some (sample_login ''ann'')) s1 = (Inr r, s2) \<and>
     user_named ''ann'' s2 = Some u \<and> at_teacher (us_attributes u) = None"
proof -
  obtain x s1 r s2 where l: "UpdateUserAttributesByAdmin None None (Some ''ann'') (Some (no_attributes\<lparr>at_teacher := Some ''lee''\<rparr>)) password_directory = (Inr x, s1)"
      "Login unary_jwt sample_tm sample_auth (\<lambda>i. 0) (Some (sample_login ''ann'')) s1 = (Inr r, s2)"
    by (simp add: UpdateUserAttributesByAdmin_def save_user_def Login_def authenticate_def normalAuth_def user_named_def getOrCreateUser_def
        updateUserIfNeeded_def open_session_def CreateTokens_def createToken_def unary_jwt_def no_attributes_def tbl_first_Cons tbl_last_def
        find_account_def Let_def sample_auth_defs)
  have "distinct (map us_id (dr_users password_directory))" by (simp add: password_directory_def)
  with admin_edit_lost_at_login [OF l(1) _ _ l(2) [unfolded sample_login_def]] l show ?thesis by (fastforce simp: no_attributes_def)
qed

lemma sample_users_ok: "users_ok sample_directory"
  by (simp add: users_ok_def sample_directory_def sample_user_def)

lemma users_well_formed_witness:
  "users_ok (snd (UpdateRole None (Some 3) (Some ''ann'') (snd (DeleteUser None ''bob'' sample_directory))))"
  by (rule users_well_formed [OF _ sample_users_ok])
    (meson rtranclp.rtrancl_into_rtrancl rtranclp.rtrancl_refl step_delete step_role)

lemma deleted_name_blocked_witness:
  "\<nexists>x s2. Signup sample_auth (Some \<lparr>sg_username = ''bob'', sg_password = ''pw''\<rparr>) (snd (DeleteUser None ''bob'' sample_directory)) = (Inr x, s2)"
proof (rule deleted_name_blocked [OF _ sample_users_ok])
  show "user_step\<^sup>*\<^sup>* sample_directory (snd (DeleteUser None ''bob'' sample_directory))" by (rule r_into_rtranclp) (rule step_delete)
  show "user_named (sg_username \<lparr>sg_username = ''bob'', sg_password = ''pw''\<rparr>) sample_directory = Some (sample_user 5 ''bob'')"
    by (simp add: user_named_def sample_directory_def sample_user_def tbl_first_Cons)
qed

end
