(* ===== verification/Sharing.thy ===== *)
theory Sharing imports Prelude begin

text \<open>
  Tables of shares: which user, or which account, an item was shared with.  The tables \<open>user_datasets\<close>,
  \<open>account_datasets\<close>, \<open>image_users\<close> and \<open>image_accounts\<close> have this shape, and the handlers of
  \<open>internal/handler/dataset.go\<close> and \<open>internal/handler/image/image.go\<close> share and take back in the same steps.  What
  those handlers need of such a table is the interface \<open>grants\<close>, interpreted here on the table itself.
\<close>

section \<open>The interface\<close>

locale grants =
  fixes ok :: "'s \<Rightarrow> bool"
    and granted :: "'s \<Rightarrow> nat \<Rightarrow> nat \<Rightarrow> bool"
    and grant :: "nat \<Rightarrow> nat \<Rightarrow> 's \<Rightarrow> 's"
    and revoke :: "nat \<Rightarrow> nat \<Rightarrow> 's \<Rightarrow> 's"
  assumes ok_grant: "ok s \<Longrightarrow> \<not> granted s g i \<Longrightarrow> ok (grant g i s)"
    and ok_revoke: "ok s \<Longrightarrow> ok (revoke g i s)"
    and granted_grant: "granted (grant g i s) h j \<longleftrightarrow> (h = g \<and> j = i) \<or> granted s h j"
    and granted_revoke: "ok s \<Longrightarrow> granted (revoke g i s) h j \<longleftrightarrow> granted s h j \<and> \<not> (h = g \<and> j = i)"
begin

lemma granted_fold: "granted (fold (\<lambda>g. grant g i) gs s) h j \<longleftrightarrow> (h \<in> set gs \<and> j = i) \<or> granted s h j"
  by (induction gs arbitrary: s) (auto simp: granted_grant)

lemma ok_fold: "ok s \<Longrightarrow> distinct gs \<Longrightarrow> \<forall>g \<in> set gs. \<not> granted s g i \<Longrightarrow> ok (fold (\<lambda>g. grant g i) gs s)"
proof (induction gs arbitrary: s)
  case (Cons g gs)
  then have "\<forall>x \<in> set gs. \<not> granted (grant g i s) x i" "ok (grant g i s)" by (auto simp: granted_grant intro: ok_grant)
  with Cons.IH Cons.prems show ?case by simp
qed simp

lemma granted_fold_revoke: "ok s \<Longrightarrow> granted (fold (\<lambda>g. revoke g i) gs s) h j \<longleftrightarrow> granted s h j \<and> \<not> (h \<in> set gs \<and> j = i)"
  by (induction gs arbitrary: s) (auto simp: granted_revoke ok_revoke)

text \<open>Taking back what was granted to newcomers leaves everybody with what they had.\<close>

lemma grant_then_revoke:
  assumes "ok s" "distinct gs" "\<forall>g \<in> set gs. \<not> granted s g i"
  shows "granted (fold (\<lambda>g. revoke g i) gs (fold (\<lambda>g. grant g i) gs s)) = granted s"
  using assms by (auto simp: fun_eq_iff granted_fold granted_fold_revoke ok_fold)

end

section \<open>Rows\<close>

record share =
  sh_id :: nat
  sh_grantee :: nat
  sh_item :: nat

record share_table =
  st_rows :: "share table"
  st_seq :: nat

definition has_share :: "share_table \<Rightarrow> nat \<Rightarrow> nat \<Rightarrow> bool" where
  "has_share t g i \<longleftrightarrow> tbl_first (\<lambda>r. sh_grantee r = g \<and> sh_item r = i) (st_rows t) \<noteq> None"

definition add_share :: "nat \<Rightarrow> nat \<Rightarrow> share_table \<Rightarrow> share_table" where
  "add_share g i t = \<lparr>st_rows = st_rows t @ [\<lparr>sh_id = Suc (st_seq t), sh_grantee = g, sh_item = i\<rparr>], st_seq = Suc (st_seq t)\<rparr>"

text \<open>The first row of a grantee and an item is deleted by its key.\<close>

definition drop_share :: "nat \<Rightarrow> nat \<Rightarrow> share_table \<Rightarrow> share_table" where
  "drop_share g i t =
     (case tbl_first (\<lambda>r. sh_grantee r = g \<and> sh_item r = i) (st_rows t) of
        None \<Rightarrow> t
      | Some r \<Rightarrow> t\<lparr>st_rows := tbl_delete (\<lambda>x. sh_id x = sh_id r) (st_rows t)\<rparr>)"

definition drop_item :: "nat \<Rightarrow> share_table \<Rightarrow> share_table" where
  "drop_item i t = t\<lparr>st_rows := tbl_delete (\<lambda>r. sh_item r = i) (st_rows t)\<rparr>"

definition share_key :: "share \<Rightarrow> nat \<times> nat" where
  "share_key r = (sh_grantee r, sh_item r)"

definition shares_ok :: "share_table \<Rightarrow> bool" where
  "shares_ok t \<longleftrightarrow> distinct (map sh_id (st_rows t)) \<and> distinct (map share_key (st_rows t)) \<and> (\<forall>r \<in> set (st_rows t). sh_id r \<le> st_seq t)"

lemma has_share_iff: "has_share t g i \<longleftrightarrow> (\<exists>r \<in> set (st_rows t). share_key r = (g, i))"
  by (auto simp: has_share_def share_key_def tbl_first_None simp del: not_None_eq)

lemma has_share_add [simp]: "has_share (add_share g i t) h j \<longleftrightarrow> (h = g \<and> j = i) \<or> has_share t h j"
  by (auto simp: has_share_iff add_share_def share_key_def)

lemma shares_ok_add: "shares_ok t \<Longrightarrow> \<not> has_share t g i \<Longrightarrow> shares_ok (add_share g i t)"
  by (fastforce simp: shares_ok_def add_share_def has_share_iff share_key_def)

lemma shares_ok_sub:
  assumes "shares_ok t" and "st_seq t1 = st_seq t" and "st_rows t1 = filter P (st_rows t)"
  shows "shares_ok t1"
  using assms by (auto simp: shares_ok_def distinct_map intro: inj_on_subset)

lemma drop_share_rows:
  assumes "shares_ok t"
  shows "st_rows (drop_share g i t) = filter (\<lambda>r. share_key r \<noteq> (g, i)) (st_rows t)"
proof (cases "tbl_first (\<lambda>r. sh_grantee r = g \<and> sh_item r = i) (st_rows t)")
  case None
  then have "\<forall>r \<in> set (st_rows t). share_key r \<noteq> (g, i)" by (auto simp: tbl_first_None share_key_def)
  then show ?thesis using None by (simp add: drop_share_def filter_id_conv)
next
  case (Some r)
  note r = tbl_first_Some [OF Some]
  have "(sh_id x = sh_id r) = (share_key x = (g, i))" if "x \<in> set (st_rows t)" for x
    using that r assms map_unique [of sh_id "st_rows t" r x] map_unique [of share_key "st_rows t" r x]
    by (auto simp: shares_ok_def share_key_def)
  with Some show ?thesis by (auto simp: drop_share_def tbl_delete_def intro: filter_cong)
qed

lemma drop_share_seq [simp]: "st_seq (drop_share g i t) = st_seq t"
  by (simp add: drop_share_def split: option.split)

lemma shares_ok_drop: "shares_ok t \<Longrightarrow> shares_ok (drop_share g i t)"
  by (rule shares_ok_sub [OF _ _ drop_share_rows]) simp_all

lemma shares_ok_drop_item: "shares_ok t \<Longrightarrow> shares_ok (drop_item i t)"
  by (rule shares_ok_sub) (simp_all add: drop_item_def tbl_delete_def)

lemma has_share_drop: "shares_ok t \<Longrightarrow> has_share (drop_share g i t) h j \<longleftrightarrow> has_share t h j \<and> \<not> (h = g \<and> j = i)"
  by (auto simp: has_share_iff drop_share_rows)

lemma has_share_drop_item [simp]: "has_share (drop_item i t) h j \<longleftrightarrow> has_share t h j \<and> j \<noteq> i"
  by (auto simp: has_share_iff drop_item_def tbl_delete_def share_key_def)

interpretation st: grants shares_ok has_share add_share drop_share
  by unfold_locales (simp_all add: shares_ok_add shares_ok_drop has_share_drop)

section \<open>Sharing and taking back\<close>

text \<open>The failures of the database at each grantee of a request: reading the grantee, reading the share, writing it.\<close>

record share_faults =
  sf_findErr :: "nat \<Rightarrow> fault"
  sf_lookErr :: "nat \<Rightarrow> fault"
  sf_writeErr :: "nat \<Rightarrow> fault"

text \<open>
  One grantee: it has to exist and must not have the item yet; a share that cannot be read counts as one that is not
  there.
\<close>

definition share_one :: "share_faults \<Rightarrow> nat \<Rightarrow> (nat \<Rightarrow> bool) \<Rightarrow> err \<Rightarrow> err \<Rightarrow> nat \<Rightarrow> nat \<Rightarrow> share_table \<Rightarrow> fault \<times> share_table" where
  "share_one f n exists missing already item g t =
     (if sf_findErr f n \<noteq> None \<or> \<not> exists g then (Some missing, t)
      else if sf_lookErr f n = None \<and> has_share t g item then (Some already, t)
      else (case sf_writeErr f n of Some x \<Rightarrow> (Some x, t) | None \<Rightarrow> (None, add_share g item t)))"

text \<open>All grantees of a request one after the other, each in a transaction of its own; the first failure ends the loop.\<close>

fun share_all :: "share_faults \<Rightarrow> nat \<Rightarrow> (nat \<Rightarrow> bool) \<Rightarrow> err \<Rightarrow> err \<Rightarrow> nat \<Rightarrow> nat list \<Rightarrow> share_table \<Rightarrow> fault \<times> share_table" where
  "share_all f n exists missing already item [] t = (None, t)"
| "share_all f n exists missing already item (g # gs) t =
     (case share_one f n exists missing already item g t of
        (Some x, t1) \<Rightarrow> (Some x, t1)
      | (None, t1) \<Rightarrow> share_all f (Suc n) exists missing already item gs t1)"

definition unshare_one :: "fault \<Rightarrow> fault \<Rightarrow> err \<Rightarrow> nat \<Rightarrow> nat \<Rightarrow> share_table \<Rightarrow> fault \<times> share_table" where
  "unshare_one lookErr deleteErr absent item g t =
     (if lookErr \<noteq> None \<or> \<not> has_share t g item then (Some absent, t)
      else (case deleteErr of Some x \<Rightarrow> (Some x, t) | None \<Rightarrow> (None, drop_share g item t)))"

text \<open>What a request shares in the end is a beginning of its list, all of it exactly if it succeeds.\<close>

lemma share_all_prefix:
  "share_all f n exists missing already item gs t = (r, t1) \<Longrightarrow>
   \<exists>k \<le> length gs. t1 = fold (\<lambda>g. add_share g item) (take k gs) t \<and> (\<forall>g \<in> set (take k gs). exists g) \<and> (r = None \<longleftrightarrow> k = length gs)"
proof (induction gs arbitrary: n t)
  case (Cons g gs)
  obtain r0 t0 where o: "share_one f n exists missing already item g t = (r0, t0)" by (cases "share_one f n exists missing already item g t")
  show ?case
  proof (cases r0)
    case None
    then have t0: "t0 = add_share g item t" "exists g" using o by (auto simp: share_one_def split: if_splits option.splits)
    have "share_all f (Suc n) exists missing already item gs t0 = (r, t1)" using Cons.prems o None by simp
    from Cons.IH [OF this] obtain k where k: "k \<le> length gs" "t1 = fold (\<lambda>g. add_share g item) (take k gs) t0"
      "\<forall>g \<in> set (take k gs). exists g" "r = None \<longleftrightarrow> k = length gs" by blast
    then show ?thesis using t0 by (intro exI [of _ "Suc k"]) simp
  next
    case (Some x)
    then have "t0 = t" using o by (auto simp: share_one_def split: if_splits option.splits)
    with Cons.prems o Some show ?thesis by (intro exI [of _ 0]) auto
  qed
qed simp

definition no_share_faults :: "share_faults \<Rightarrow> bool" where
  "no_share_faults f \<longleftrightarrow> (\<forall>n. sf_findErr f n = None \<and> sf_lookErr f n = None \<and> sf_writeErr f n = None)"

text \<open>With a database that answers, a request succeeds exactly if its grantees exist, are new and are named once.\<close>

lemma share_all_None:
  assumes "no_share_faults f"
  shows "fst (share_all f n exists missing already item gs t) = None \<longleftrightarrow>
    distinct gs \<and> (\<forall>g \<in> set gs. exists g \<and> \<not> has_share t g item)"
proof (induction gs arbitrary: n t)
  case (Cons g gs)
  have "share_one f n exists missing already item g t =
      (if \<not> exists g then (Some missing, t) else if has_share t g item then (Some already, t) else (None, add_share g item t))"
    using assms by (simp add: share_one_def no_share_faults_def)
  with Cons show ?case by auto
qed simp

lemma share_all_ok:
  assumes "\<forall>n. sf_lookErr f n = None" "shares_ok t"
  shows "shares_ok (snd (share_all f n exists missing already item gs t))"
  using assms(2)
proof (induction gs arbitrary: n t)
  case (Cons g gs)
  then have "shares_ok (snd (share_one f n exists missing already item g t))"
    using assms(1) by (auto simp: share_one_def intro: shares_ok_add split: option.split)
  with Cons.IH [OF this] Cons show ?case by (auto split: prod.split option.split)
qed simp

lemma share_all_keeps:
  "has_share (snd (share_all f n exists missing already item gs t)) h j \<Longrightarrow> has_share t h j \<or> (j = item \<and> h \<in> set gs \<and> exists h)"
proof -
  obtain r t1 where a: "share_all f n exists missing already item gs t = (r, t1)" by (cases "share_all f n exists missing already item gs t")
  from share_all_prefix [OF a] obtain k where "t1 = fold (\<lambda>g. add_share g item) (take k gs) t" "\<forall>g \<in> set (take k gs). exists g" by blast
  then show "has_share (snd (share_all f n exists missing already item gs t)) h j \<Longrightarrow> has_share t h j \<or> (j = item \<and> h \<in> set gs \<and> exists h)"
    using set_take_subset [of k gs] by (auto simp: a st.granted_fold)
qed

lemma share_all_monotone: "has_share t h j \<Longrightarrow> has_share (snd (share_all f n exists missing already item gs t)) h j"
proof -
  obtain r t1 where a: "share_all f n exists missing already item gs t = (r, t1)" by (cases "share_all f n exists missing already item gs t")
  from share_all_prefix [OF a] show "has_share t h j \<Longrightarrow> ?thesis" by (auto simp: a st.granted_fold)
qed

lemma unshare_ok: "shares_ok t \<Longrightarrow> shares_ok (snd (unshare_one lookErr deleteErr absent item g t))"
  by (auto simp: unshare_one_def shares_ok_drop split: option.split)

lemma unshare_keeps:
  "shares_ok t \<Longrightarrow> has_share t h j \<Longrightarrow> \<not> (h = g \<and> j = item) \<Longrightarrow> has_share (snd (unshare_one lookErr deleteErr absent item g t)) h j"
  by (auto simp: unshare_one_def has_share_drop split: option.split)

lemma unshare_sub: "shares_ok t \<Longrightarrow> has_share (snd (unshare_one lookErr deleteErr absent item g t)) h j \<Longrightarrow> has_share t h j"
  by (auto simp: unshare_one_def has_share_drop split: option.splits if_splits)

end
