(* ===== verification/Datasets.thy ===== *)
theory Datasets imports Auth Sharing begin

text \<open>
  Datasets, \<open>internal/handler/dataset.go\<close>: rows that point at a directory of the storage and may be shared with users and
  accounts.  Creation and update translate the address a user writes into a path of the storage; \<open>path_clean\<close> is
  \<open>filepath.Clean\<close>.  The prefixes of the storage are parameters (the configuration).
\<close>

section \<open>Rows and state\<close>

record extra_content =
  ec_tags :: "string list"
  ec_webURL :: "string option"
  ec_editable :: bool

record dataset =
  ds_id :: nat
  ds_createdAt :: time
  ds_name :: string
  ds_url :: string
  ds_describe :: string
  ds_type :: string
  ds_extra :: extra_content
  ds_userID :: nat

record 'q dataset_store =
  dst_dir :: "'q directory"
  dst_datasets :: "dataset table"
  dst_seq :: nat
  dst_userShares :: share_table
  dst_accountShares :: share_table

record storage_prefix =
  sp_public :: string
  sp_account :: string
  sp_user :: string

text \<open>
  The failures: the lookup of the dataset, of the user, of the account; the shares; the tables of shares, by account for the
  listings; the writes, numbered where a handler does several.
\<close>

record dataset_env =
  dx_now :: time
  dx_prefix :: storage_prefix
  dx_findDatasetErr :: "nat \<Rightarrow> fault"
  dx_findUserErr :: "nat \<Rightarrow> fault"
  dx_findAccountErr :: fault
  dx_creatorErr :: fault
  dx_share :: share_faults
  dx_userSharesErr :: fault
  dx_accountSharesErr :: "nat \<Rightarrow> fault"
  dx_lookErr :: fault
  dx_deleteErr :: "nat \<Rightarrow> fault"
  dx_createErr :: fault
  dx_createShareErr :: fault
  dx_publicErr :: fault
  dx_commitErr :: fault
  dx_updateErr :: "nat \<Rightarrow> fault"

definition find_dataset :: "nat \<Rightarrow> 'q dataset_store \<Rightarrow> dataset option" where
  "find_dataset i s = tbl_first (\<lambda>d. ds_id d = i) (dst_datasets s)"

text \<open>The dataset, if it belongs to the user.\<close>

definition find_own_dataset :: "nat \<Rightarrow> nat \<Rightarrow> 'q dataset_store \<Rightarrow> dataset option" where
  "find_own_dataset uid i s = tbl_first (\<lambda>d. ds_userID d = uid \<and> ds_id d = i) (dst_datasets s)"

definition user_exists :: "'q dataset_store \<Rightarrow> nat \<Rightarrow> bool" where
  "user_exists s g \<longleftrightarrow> find_user g (dst_dir s) \<noteq> None"

definition account_exists :: "'q dataset_store \<Rightarrow> nat \<Rightarrow> bool" where
  "account_exists s g \<longleftrightarrow> find_account g (dst_dir s) \<noteq> None"

definition set_users :: "share_table \<Rightarrow> 'q dataset_store \<Rightarrow> 'q dataset_store" where
  "set_users t s = s\<lparr>dst_userShares := t\<rparr>"

definition set_accounts :: "share_table \<Rightarrow> 'q dataset_store \<Rightarrow> 'q dataset_store" where
  "set_accounts t s = s\<lparr>dst_accountShares := t\<rparr>"

section \<open>Addresses\<close>

text \<open>
  \<open>filepath.Clean\<close>: empty and single-dot elements vanish, a double dot takes away the element before it, or
  vanishes at the root, or stays at the beginning of a relative path.
\<close>

fun clean_parts :: "bool \<Rightarrow> string list \<Rightarrow> string list \<Rightarrow> string list" where
  "clean_parts rooted [] out = rev out"
| "clean_parts rooted (p # ps) out =
     (if p = [] \<or> p = ''.'' then clean_parts rooted ps out
      else if p = ''..'' then
        (case out of
           [] \<Rightarrow> clean_parts rooted ps (if rooted then [] else [''..''])
         | x # xs \<Rightarrow> clean_parts rooted ps (if x = ''..'' then ''..'' # out else xs))
      else clean_parts rooted ps (p # out))"

fun join_parts :: "string list \<Rightarrow> string" where
  "join_parts [] = []"
| "join_parts [p] = p"
| "join_parts (p # ps) = p @ CHR ''/'' # join_parts ps"

definition path_clean :: "string \<Rightarrow> string" where
  "path_clean path =
     (let rooted = (path \<noteq> [] \<and> hd path = CHR ''/'');
          body = join_parts (clean_parts rooted (split_on CHR ''/'' path) [])
      in if rooted then CHR ''/'' # body else if body = [] then ''.'' else body)"

definition has_prefix :: "string \<Rightarrow> string \<Rightarrow> bool" where
  "has_prefix p s \<longleftrightarrow> take (length p) s = p"

definition trim_prefix :: "string \<Rightarrow> string \<Rightarrow> string" where
  "trim_prefix p s = (if has_prefix p s then drop (length p) s else s)"

definition strip_slashes :: "string \<Rightarrow> string" where
  "strip_slashes s = dropWhile (\<lambda>c. c = CHR ''/'') s"

definition redirectDatasetURL :: "dataset_env \<Rightarrow> string \<Rightarrow> jwt_message \<Rightarrow> 'q directory \<Rightarrow> string result" where
  "redirectDatasetURL e url token s =
     (if has_prefix ''public'' url then Inr (path_clean (sp_public (dx_prefix e) @ trim_prefix ''public'' url))
      else if has_prefix ''account'' url then
        (case (if dx_findAccountErr e = None then find_account (jm_accountID token) s else None) of
           None \<Rightarrow> Inl ''record not found''
         | Some account \<Rightarrow> Inr (path_clean (sp_account (dx_prefix e) @ ''/'' @ ac_space account @ trim_prefix ''account'' url)))
      else if has_prefix ''user'' url then
        (case (if dx_findUserErr e 0 = None then find_user (jm_userID token) s else None) of
           None \<Rightarrow> Inl ''record not found''
         | Some user \<Rightarrow> Inr (sp_user (dx_prefix e) @ ''/'' @ us_space user @ trim_prefix ''user'' url))
      else Inl ''dataset url err'')"

section \<open>Creation, update and deletion\<close>

record dataset_req =
  dq_name :: string
  dq_url :: string
  dq_describe :: string
  dq_type :: string
  dq_isPublic :: bool
  dq_tags :: "string list"
  dq_webURL :: "string option"
  dq_editable :: bool

definition new_dataset :: "dataset_env \<Rightarrow> nat \<Rightarrow> jwt_message \<Rightarrow> string \<Rightarrow> dataset_req \<Rightarrow> dataset" where
  "new_dataset e i token realURL r =
     \<lparr>ds_id = i, ds_createdAt = dx_now e, ds_name = dq_name r, ds_url = realURL, ds_describe = dq_describe r,
      ds_type = (if dq_type r = [] then ''dataset'' else dq_type r),
      ds_extra = \<lparr>ec_tags = dq_tags r, ec_webURL = dq_webURL r, ec_editable = dq_editable r\<rparr>, ds_userID = jm_userID token\<rparr>"

text \<open>The rows of a transaction that fails are gone; the numbers it drew are not given out again.\<close>

definition undo_rows :: "'q dataset_store \<Rightarrow> 'q dataset_store \<Rightarrow> 'q dataset_store" where
  "undo_rows s s1 = s\<lparr>dst_seq := dst_seq s1, dst_userShares := (dst_userShares s)\<lparr>st_seq := st_seq (dst_userShares s1)\<rparr>\<rparr>"

definition create_dataset_body :: "dataset_env \<Rightarrow> jwt_message \<Rightarrow> string \<Rightarrow> dataset_req \<Rightarrow> 'q dataset_store \<Rightarrow> nat result \<times> 'q dataset_store" where
  "create_dataset_body e token realURL r s =
     (case dx_createErr e of
        Some x \<Rightarrow> (Inl x, s)
      | None \<Rightarrow>
          let i = Suc (dst_seq s);
              s1 = s\<lparr>dst_datasets := dst_datasets s @ [new_dataset e i token realURL r], dst_seq := i\<rparr>
          in (case dx_createShareErr e of
              Some x \<Rightarrow> (Inl x, s1)
            | None \<Rightarrow> (Inr i, set_users (add_share (jm_userID token) i (dst_userShares s1)) s1)))"

definition CreateDataset :: "dataset_env \<Rightarrow> jwt_message \<Rightarrow> dataset_req option \<Rightarrow> 'q dataset_store \<Rightarrow> string result \<times> 'q dataset_store" where
  "CreateDataset e token body s =
     (case body of
        None \<Rightarrow> (Inl ''bad request'', s)
      | Some r \<Rightarrow>
          if dq_name r = [] \<or> dq_url r = [] \<or> dq_describe r = [] then (Inl ''bad request'', s)
          else (case redirectDatasetURL e (strip_slashes (dq_url r)) token (dst_dir s) of
            Inl x \<Rightarrow> (Inl x, s)
          | Inr realURL \<Rightarrow> (case create_dataset_body e token realURL r s of
              (Inl x, s1) \<Rightarrow> (Inl x, undo_rows s s1)
            | (Inr i, s1) \<Rightarrow> (case dx_commitErr e of
                Some x \<Rightarrow> (Inl x, undo_rows s s1)
              | None \<Rightarrow>
                  if dq_isPublic r then
                    (case dx_publicErr e of
                       Some x \<Rightarrow> (Inl x, s1)
                     | None \<Rightarrow> (Inr ''created dataset successfully'', set_accounts (add_share DefaultAccountID i (dst_accountShares s1)) s1))
                  else (Inr ''created dataset successfully'', s1)))))"

record update_dataset_req =
  uq_datasetID :: nat
  uq_name :: string
  uq_describe :: string
  uq_url :: string
  uq_tags :: "string list"
  uq_webURL :: string

definition change_dataset :: "nat \<Rightarrow> (dataset \<Rightarrow> dataset) \<Rightarrow> 'q dataset_store \<Rightarrow> 'q dataset_store" where
  "change_dataset i f s = s\<lparr>dst_datasets := tbl_updates (\<lambda>d. ds_id d = i) f (dst_datasets s)\<rparr>"

text \<open>Four updates one after the other, each of which may fail.\<close>

definition update_dataset_rows :: "dataset_env \<Rightarrow> update_dataset_req \<Rightarrow> string \<Rightarrow> 'q dataset_store \<Rightarrow> string result \<times> 'q dataset_store" where
  "update_dataset_rows e r realURL s =
     (let i = uq_datasetID r
      in (case dx_updateErr e 0 of
          Some x \<Rightarrow> (Inl (''failed to update name: '' @ x), s)
        | None \<Rightarrow> let s1 = change_dataset i (ds_name_update (\<lambda>_. uq_name r)) s in (case dx_updateErr e 1 of
            Some x \<Rightarrow> (Inl (''failed to update describe: '' @ x), s1)
          | None \<Rightarrow> let s2 = change_dataset i (ds_describe_update (\<lambda>_. uq_describe r)) s1 in (case dx_updateErr e 2 of
              Some x \<Rightarrow> (Inl (''failed to update URL: '' @ x), s2)
            | None \<Rightarrow> let s3 = change_dataset i (ds_url_update (\<lambda>_. realURL)) s2 in (case dx_updateErr e 3 of
                Some x \<Rightarrow> (Inl (''failed to update Extra: '' @ x), s3)
              | None \<Rightarrow> (Inr ''Successfully update dataset describe'',
                  change_dataset i (ds_extra_update (\<lambda>_. \<lparr>ec_tags = uq_tags r, ec_webURL = Some (uq_webURL r), ec_editable = False\<rparr>)) s3))))))"

text \<open>An address that begins with none of the three words is taken as it is.\<close>

definition updated_url :: "dataset_env \<Rightarrow> string \<Rightarrow> jwt_message \<Rightarrow> 'q directory \<Rightarrow> string result" where
  "updated_url e url token s =
     (if has_prefix ''public'' url \<or> has_prefix ''user'' url \<or> has_prefix ''account'' url then redirectDatasetURL e url token s else Inr url)"

definition UpdateDataset :: "dataset_env \<Rightarrow> jwt_message \<Rightarrow> update_dataset_req option \<Rightarrow> 'q dataset_store \<Rightarrow> string result \<times> 'q dataset_store" where
  "UpdateDataset e token body s =
     (case body of
        None \<Rightarrow> (Inl ''bad request'', s)
      | Some r \<Rightarrow>
          if uq_datasetID r = 0 \<or> uq_name r = [] \<or> uq_describe r = [] \<or> uq_url r = [] then (Inl ''bad request'', s)
          else (case updated_url e (strip_slashes (uq_url r)) token (dst_dir s) of
            Inl x \<Rightarrow> (Inl x, s)
          | Inr realURL \<Rightarrow> (case (if dx_findDatasetErr e 0 = None then find_dataset (uq_datasetID r) s else None) of
              None \<Rightarrow> (Inl ''this dataset not exist'', s)
            | Some d \<Rightarrow>
                if ds_userID d \<noteq> jm_userID token \<and> jm_rolePlatform token \<noteq> RoleAdmin
                then (Inl ''you has no permission to update describe'', s)
                else update_dataset_rows e r realURL s)))"

definition delete_dataset_body :: "dataset_env \<Rightarrow> jwt_message \<Rightarrow> nat \<Rightarrow> 'q dataset_store \<Rightarrow> unit result \<times> 'q dataset_store" where
  "delete_dataset_body e token i s =
     (case (if dx_findDatasetErr e 0 = None then find_dataset i s else None) of
        None \<Rightarrow> (Inl ''record not found'', s)
      | Some d \<Rightarrow>
          if ds_userID d \<noteq> jm_userID token \<and> jm_rolePlatform token \<noteq> RoleAdmin then (Inl ''you has no permission'', s)
          else (case dx_userSharesErr e of
            Some x \<Rightarrow> (Inl x, s)
          | None \<Rightarrow> (case dx_accountSharesErr e 0 of
              Some x \<Rightarrow> (Inl x, s)
            | None \<Rightarrow> (case (if tbl_find (\<lambda>r. sh_item r = i) (st_rows (dst_userShares s)) = [] then None else dx_deleteErr e 0) of
                Some x \<Rightarrow> (Inl x, s)
              | None \<Rightarrow>
                  let s1 = set_users (drop_item i (dst_userShares s)) s
                  in (case (if tbl_find (\<lambda>r. sh_item r = i) (st_rows (dst_accountShares s)) = [] then None else dx_deleteErr e 1) of
                      Some x \<Rightarrow> (Inl x, s1)
                    | None \<Rightarrow>
                        let s2 = set_accounts (drop_item i (dst_accountShares s1)) s1
                        in (case dx_deleteErr e 2 of
                            Some x \<Rightarrow> (Inl x, s2)
                          | None \<Rightarrow> (Inr (), s2\<lparr>dst_datasets := tbl_delete (\<lambda>x. ds_id x = ds_id d) (dst_datasets s2)\<rparr>)))))))"

definition DeleteDataset :: "dataset_env \<Rightarrow> jwt_message \<Rightarrow> nat option \<Rightarrow> 'q dataset_store \<Rightarrow> string result \<times> 'q dataset_store" where
  "DeleteDataset e token req s =
     (case req of
        None \<Rightarrow> (Inl ''bad request'', s)
      | Some i \<Rightarrow> (case delete_dataset_body e token i s of
          (Inl x, s1) \<Rightarrow> (Inl x, s)
        | (Inr u, s1) \<Rightarrow> (case dx_commitErr e of Some x \<Rightarrow> (Inl x, s) | None \<Rightarrow> (Inr ''Deleted successfully'', s1))))"

section \<open>Sharing\<close>

record shared_req =
  sq_datasetID :: nat
  sq_ids :: "nat list"

text \<open>The list may be empty but not missing.\<close>

definition shareWithUser :: "dataset_env \<Rightarrow> shared_req \<Rightarrow> 'q dataset_store \<Rightarrow> fault \<times> 'q dataset_store" where
  "shareWithUser e r s =
     (if sq_ids r = [] then (Some ''need to choose users to share'', s)
      else (case share_all (dx_share e) 0 (user_exists s) ''user not exist'' ''user has shared dataset'' (sq_datasetID r) (sq_ids r) (dst_userShares s) of
        (x, t) \<Rightarrow> (x, set_users t s)))"

definition shareWithQueue :: "dataset_env \<Rightarrow> shared_req \<Rightarrow> 'q dataset_store \<Rightarrow> fault \<times> 'q dataset_store" where
  "shareWithQueue e r s =
     (if sq_ids r = [] then (Some ''need to choose queues to share'', s)
      else (case share_all (dx_share e) 0 (account_exists s) ''queue not exist'' ''queue has shared dataset'' (sq_datasetID r) (sq_ids r) (dst_accountShares s) of
        (x, t) \<Rightarrow> (x, set_accounts t s)))"

text \<open>The frame of all eight handlers: the request, the dataset that has to be found, the work, the answer.\<close>

definition with_dataset ::
  "('r \<Rightarrow> bool) \<Rightarrow> ('r \<Rightarrow> nat) \<Rightarrow> (nat \<Rightarrow> dataset option) \<Rightarrow> err \<Rightarrow> string \<Rightarrow> ('r \<Rightarrow> 'q dataset_store \<Rightarrow> fault \<times> 'q dataset_store) \<Rightarrow>
   'r option \<Rightarrow> 'q dataset_store \<Rightarrow> string result \<times> 'q dataset_store" where
  "with_dataset valid item lookup denied done_text work body s =
     (case body of
        None \<Rightarrow> (Inl ''bad request'', s)
      | Some r \<Rightarrow>
          if \<not> valid r then (Inl ''bad request'', s)
          else (case lookup (item r) of
            None \<Rightarrow> (Inl denied, s)
          | Some d \<Rightarrow> (case work r s of (Some x, s1) \<Rightarrow> (Inl x, s1) | (None, s1) \<Rightarrow> (Inr done_text, s1))))"

definition lookup_own :: "dataset_env \<Rightarrow> jwt_message \<Rightarrow> 'q dataset_store \<Rightarrow> nat \<Rightarrow> dataset option" where
  "lookup_own e token s i = (if dx_findDatasetErr e 0 = None then find_own_dataset (jm_userID token) i s else None)"

definition lookup_any :: "dataset_env \<Rightarrow> 'q dataset_store \<Rightarrow> nat \<Rightarrow> dataset option" where
  "lookup_any e s i = (if dx_findDatasetErr e 0 = None then find_dataset i s else None)"

definition share_valid :: "shared_req \<Rightarrow> bool" where
  "share_valid r \<longleftrightarrow> sq_datasetID r \<noteq> 0"

definition ShareDatasetWithUser :: "dataset_env \<Rightarrow> jwt_message \<Rightarrow> shared_req option \<Rightarrow> 'q dataset_store \<Rightarrow> string result \<times> 'q dataset_store" where
  "ShareDatasetWithUser e token body s =
     with_dataset share_valid sq_datasetID (lookup_own e token s) ''you has no permission or this dataset not exist'' ''Shared successfully'' (shareWithUser e) body s"

definition AdminShareDatasetWithUser :: "dataset_env \<Rightarrow> shared_req option \<Rightarrow> 'q dataset_store \<Rightarrow> string result \<times> 'q dataset_store" where
  "AdminShareDatasetWithUser e body s =
     with_dataset share_valid sq_datasetID (lookup_any e s) ''this dataset not exist'' ''Shared with user successfully'' (shareWithUser e) body s"

definition ShareDatasetWithQueue :: "dataset_env \<Rightarrow> jwt_message \<Rightarrow> shared_req option \<Rightarrow> 'q dataset_store \<Rightarrow> string result \<times> 'q dataset_store" where
  "ShareDatasetWithQueue e token body s =
     with_dataset share_valid sq_datasetID (lookup_own e token s) ''you has no permission or this dataset not exist'' ''Shared successfully'' (shareWithQueue e) body s"

definition AdminShareDatasetWithQueue :: "dataset_env \<Rightarrow> shared_req option \<Rightarrow> 'q dataset_store \<Rightarrow> string result \<times> 'q dataset_store" where
  "AdminShareDatasetWithQueue e body s =
     with_dataset share_valid sq_datasetID (lookup_any e s) ''can't find this dataset'' ''Shared with queue successfully'' (shareWithQueue e) body s"

text \<open>
  Taking back: the request names one grantee.  The creator of a dataset cannot be cut off, if the test for the creator can
  be answered.
\<close>

definition cancelShareWithUser :: "dataset_env \<Rightarrow> nat \<Rightarrow> nat \<Rightarrow> 'q dataset_store \<Rightarrow> fault \<times> 'q dataset_store" where
  "cancelShareWithUser e i uid s =
     (if dx_findUserErr e 0 \<noteq> None \<or> \<not> user_exists s uid then (Some ''can't find user'', s)
      else if dx_creatorErr e = None \<and> find_own_dataset uid i s \<noteq> None then (Some ''can't cancel share with creator'', s)
      else (case unshare_one (dx_lookErr e) (dx_deleteErr e 0) ''user doesn't shared dataset'' i uid (dst_userShares s) of
        (x, t) \<Rightarrow> (x, set_users t s)))"

definition cancelShareWithQueue :: "dataset_env \<Rightarrow> nat \<Rightarrow> nat \<Rightarrow> 'q dataset_store \<Rightarrow> fault \<times> 'q dataset_store" where
  "cancelShareWithQueue e i qid s =
     (if dx_findAccountErr e \<noteq> None \<or> \<not> account_exists s qid then (Some ''queue not exist'', s)
      else (case unshare_one (dx_lookErr e) (dx_deleteErr e 0) ''the dataset was not shared with the queue'' i qid (dst_accountShares s) of
        (x, t) \<Rightarrow> (x, set_accounts t s)))"

record cancel_req =
  cq_datasetID :: nat
  cq_id :: nat

definition cancel_valid :: "cancel_req \<Rightarrow> bool" where
  "cancel_valid r \<longleftrightarrow> cq_datasetID r \<noteq> 0 \<and> cq_id r \<noteq> 0"

definition cancel_user_work :: "dataset_env \<Rightarrow> cancel_req \<Rightarrow> 'q dataset_store \<Rightarrow> fault \<times> 'q dataset_store" where
  "cancel_user_work e r s = cancelShareWithUser e (cq_datasetID r) (cq_id r) s"

definition cancel_queue_work :: "dataset_env \<Rightarrow> cancel_req \<Rightarrow> 'q dataset_store \<Rightarrow> fault \<times> 'q dataset_store" where
  "cancel_queue_work e r s = cancelShareWithQueue e (cq_datasetID r) (cq_id r) s"

definition CancelShareDatasetWithUser :: "dataset_env \<Rightarrow> jwt_message \<Rightarrow> cancel_req option \<Rightarrow> 'q dataset_store \<Rightarrow> string result \<times> 'q dataset_store" where
  "CancelShareDatasetWithUser e token body s =
     with_dataset cancel_valid cq_datasetID (lookup_own e token s) ''you has no permission to cancel share with user'' ''cancel share with user successfully''
       (cancel_user_work e) body s"

definition AdminCancelShareDatasetWithUser :: "dataset_env \<Rightarrow> cancel_req option \<Rightarrow> 'q dataset_store \<Rightarrow> string result \<times> 'q dataset_store" where
  "AdminCancelShareDatasetWithUser e body s =
     with_dataset cancel_valid cq_datasetID (lookup_any e s) ''this dataset not exist'' ''Shared with user successfully'' (cancel_user_work e) body s"

definition CancelShareDatasetWithQueue :: "dataset_env \<Rightarrow> jwt_message \<Rightarrow> cancel_req option \<Rightarrow> 'q dataset_store \<Rightarrow> string result \<times> 'q dataset_store" where
  "CancelShareDatasetWithQueue e token body s =
     with_dataset cancel_valid cq_datasetID (lookup_own e token s) ''you can't cancel share with queue'' ''cancel successfully'' (cancel_queue_work e) body s"

definition AdmincancelShareDatasetWithQueue :: "dataset_env \<Rightarrow> cancel_req option \<Rightarrow> 'q dataset_store \<Rightarrow> string result \<times> 'q dataset_store" where
  "AdmincancelShareDatasetWithQueue e body s =
     with_dataset cancel_valid cq_datasetID (lookup_any e s) ''dataset does not exist'' ''cancel successfully'' (cancel_queue_work e) body s"

section \<open>Listings\<close>

record dataset_resp =
  dp_name :: string
  dp_id :: nat
  dp_url :: string
  dp_describe :: string
  dp_createdAt :: time
  dp_type :: string
  dp_extra :: extra_content
  dp_username :: string
  dp_nickname :: string

text \<open>The row of a deleted owner is not loaded, which leaves the names empty.\<close>

definition convertDataset :: "'q dataset_store \<Rightarrow> dataset \<Rightarrow> dataset_resp" where
  "convertDataset s d =
     \<lparr>dp_name = ds_name d, dp_id = ds_id d, dp_url = ds_url d, dp_describe = ds_describe d, dp_createdAt = ds_createdAt d,
      dp_type = ds_type d, dp_extra = ds_extra d,
      dp_username = (case find_user (ds_userID d) (dst_dir s) of None \<Rightarrow> [] | Some u \<Rightarrow> us_name u),
      dp_nickname = (case find_user (ds_userID d) (dst_dir s) of None \<Rightarrow> [] | Some u \<Rightarrow> us_nickname u)\<rparr>"

text \<open>
  Both loops of the listing: each share looks up its dataset and enters it into the map; the lookups are numbered.
\<close>

fun collect_datasets ::
  "(nat \<Rightarrow> fault) \<Rightarrow> nat \<Rightarrow> nat list \<Rightarrow> 'q dataset_store \<Rightarrow> (nat, dataset_resp) gomap \<Rightarrow> (nat, dataset_resp) gomap result" where
  "collect_datasets findErr n [] s m = Inr m"
| "collect_datasets findErr n (i # is) s m =
     (case findErr n of
        Some x \<Rightarrow> Inl x
      | None \<Rightarrow> (case find_dataset i s of
          None \<Rightarrow> Inl ''record not found''
        | Some d \<Rightarrow> collect_datasets findErr (Suc n) is s (gm_put (ds_id d) (convertDataset s d) m)))"

definition shared_items :: "nat \<Rightarrow> share_table \<Rightarrow> nat list" where
  "shared_items g t = map sh_item (tbl_find (\<lambda>r. sh_grantee r = g) (st_rows t))"

definition generateQueueDataseResponse ::
  "dataset_env \<Rightarrow> nat \<Rightarrow> nat \<Rightarrow> nat \<Rightarrow> 'q dataset_store \<Rightarrow> (nat, dataset_resp) gomap \<Rightarrow> (nat, dataset_resp) gomap result" where
  "generateQueueDataseResponse e k n queueid s m =
     (case dx_accountSharesErr e k of
        Some x \<Rightarrow> Inl x
      | None \<Rightarrow> collect_datasets (dx_findDatasetErr e) n (shared_items queueid (dst_accountShares s)) s m)"

definition GetDatasets :: "dataset_env \<Rightarrow> jwt_message \<Rightarrow> 'q dataset_store \<Rightarrow> dataset_resp list result" where
  "GetDatasets e token s =
     (case dx_userSharesErr e of
        Some x \<Rightarrow> Inl ''Can't get mydatasets''
      | None \<Rightarrow>
          let own = shared_items (jm_userID token) (dst_userShares s);
              n1 = length own; n2 = n1 + length (shared_items DefaultAccountID (dst_accountShares s))
          in (case collect_datasets (dx_findDatasetErr e) 0 own s [] of
              Inl x \<Rightarrow> Inl (''Get user's dataset failed, err '' @ x)
            | Inr m1 \<Rightarrow> (case generateQueueDataseResponse e 0 n1 DefaultAccountID s m1 of
                Inl x \<Rightarrow> Inl ''Can't get public datasets''
              | Inr m2 \<Rightarrow>
                  if jm_accountID token \<noteq> DefaultAccountID then
                    (case generateQueueDataseResponse e 1 n2 (jm_accountID token) s m2 of
                       Inl x \<Rightarrow> Inl ''Can't get queue datasets''
                     | Inr m3 \<Rightarrow> Inr (map snd m3))
                  else Inr (map snd m2))))"

definition GetDatasetByID :: "dataset_env \<Rightarrow> nat option \<Rightarrow> 'q dataset_store \<Rightarrow> dataset_resp list result" where
  "GetDatasetByID e req s =
     (case req of
        None \<Rightarrow> Inl ''bad request''
      | Some i \<Rightarrow> (case lookup_any e s i of None \<Rightarrow> Inl ''this dataset not exist'' | Some d \<Rightarrow> Inr [convertDataset s d]))"

definition GetAllDataset :: "dataset_env \<Rightarrow> 'q dataset_store \<Rightarrow> dataset_resp list result" where
  "GetAllDataset e s =
     (case dx_findDatasetErr e 0 of
        Some x \<Rightarrow> Inl ''Can't get datasets''
      | None \<Rightarrow> Inr (map snd (fold (\<lambda>d m. gm_put (ds_id d) (convertDataset s d) m) (dst_datasets s) [])))"

text \<open>Who has a dataset and who could still get it.\<close>

definition item_grantees :: "nat \<Rightarrow> share_table \<Rightarrow> nat list" where
  "item_grantees i t = map sh_grantee (tbl_find (\<lambda>r. sh_item r = i) (st_rows t))"

definition ListUsersOutOfDataset :: "dataset_env \<Rightarrow> nat option \<Rightarrow> 'q dataset_store \<Rightarrow> user_attribute list result" where
  "ListUsersOutOfDataset e req s =
     (case req of
        None \<Rightarrow> Inl ''bad request''
      | Some i \<Rightarrow> (case lookup_any e s i of
          None \<Rightarrow> Inl ''this dataset not exist''
        | Some d \<Rightarrow> (case dx_userSharesErr e of
            Some x \<Rightarrow> Inl (''Failed to scan user IDs: '' @ x)
          | None \<Rightarrow> (case dx_findUserErr e 0 of
              Some x \<Rightarrow> Inl (''Get UserDataset failed, detail: '' @ x)
            | None \<Rightarrow> Inr (remdups (map us_attributes
                (tbl_find (\<lambda>u. us_status u = StatusActive \<and> us_id u \<notin> set (item_grantees (ds_id d) (dst_userShares s))) (dr_users (dst_dir s)))))))))"

text \<open>The answer to a missing user does not end the loop of this handler, which then reads the user that is not there.\<close>

fun users_of_dataset :: "dataset_env \<Rightarrow> nat \<Rightarrow> dataset \<Rightarrow> nat list \<Rightarrow> 'q dataset_store \<Rightarrow> (nat \<times> string \<times> bool \<times> user_attribute) list go" where
  "users_of_dataset e n d [] s = Inr []"
| "users_of_dataset e n d (i # is) s =
     (case (if dx_findUserErr e n = None then find_user i (dst_dir s) else None) of
        None \<Rightarrow> Inl NilDereference
      | Some u \<Rightarrow> go_bind (users_of_dataset e (Suc n) d is s) (\<lambda>rs. Inr ((i, us_name u, i = ds_userID d, us_attributes u) # rs)))"

definition ListUserOfDataset :: "dataset_env \<Rightarrow> nat option \<Rightarrow> 'q dataset_store \<Rightarrow> (nat \<times> string \<times> bool \<times> user_attribute) list result go" where
  "ListUserOfDataset e req s =
     (case req of
        None \<Rightarrow> Inr (Inl ''bad request'')
      | Some i \<Rightarrow> (case lookup_any e s i of
          None \<Rightarrow> Inr (Inl ''this dataset not exist'')
        | Some d \<Rightarrow> (case dx_userSharesErr e of
            Some x \<Rightarrow> Inr (Inl (''Failed to scan user IDs: '' @ x))
          | None \<Rightarrow> go_bind (users_of_dataset e 0 d (remdups (item_grantees (ds_id d) (dst_userShares s))) s) (\<lambda>rs. Inr (Inr rs)))))"

definition list_queues :: "dataset_env \<Rightarrow> (nat \<Rightarrow> nat list \<Rightarrow> bool) \<Rightarrow> nat option \<Rightarrow> 'q dataset_store \<Rightarrow> (nat \<times> string) list result" where
  "list_queues e wanted req s =
     (case req of
        None \<Rightarrow> Inl ''bad request''
      | Some i \<Rightarrow> (case lookup_any e s i of
          None \<Rightarrow> Inl ''this dataset not exist''
        | Some d \<Rightarrow> (case dx_accountSharesErr e 0 of
            Some x \<Rightarrow> Inl (''Failed to scan queue IDs: '' @ x)
          | None \<Rightarrow> (case dx_findAccountErr e of
              Some x \<Rightarrow> Inl (''Get QueueDataset failed, detail: '' @ x)
            | None \<Rightarrow> Inr (map (\<lambda>a. (ac_id a, ac_nickname a))
                (tbl_find (\<lambda>a. wanted (ac_id a) (item_grantees (ds_id d) (dst_accountShares s))) (dr_accounts (dst_dir s))))))))"

definition ListQueuesOutOfDataset :: "dataset_env \<Rightarrow> nat option \<Rightarrow> 'q dataset_store \<Rightarrow> (nat \<times> string) list result" where
  "ListQueuesOutOfDataset e req s = list_queues e (\<lambda>i qids. i \<notin> set qids) req s"

definition ListQueueOfDataset :: "dataset_env \<Rightarrow> nat option \<Rightarrow> 'q dataset_store \<Rightarrow> (nat \<times> string) list result" where
  "ListQueueOfDataset e req s = list_queues e (\<lambda>i qids. i \<in> set qids) req s"

section \<open>Consistent tables\<close>

text \<open>
  Identifiers are unique, shares are unique and name datasets that exist, and every owner has the share of the creation.
\<close>

definition dataset_ids :: "'q dataset_store \<Rightarrow> nat set" where
  "dataset_ids s = ds_id ` set (dst_datasets s)"

definition datasets_ok :: "'q dataset_store \<Rightarrow> bool" where
  "datasets_ok s \<longleftrightarrow> distinct (map ds_id (dst_datasets s)) \<and> (\<forall>i \<in> dataset_ids s. i \<le> dst_seq s) \<and>
     shares_ok (dst_userShares s) \<and> shares_ok (dst_accountShares s) \<and>
     (\<forall>g i. has_share (dst_userShares s) g i \<or> has_share (dst_accountShares s) g i \<longrightarrow> i \<in> dataset_ids s) \<and>
     (\<forall>d \<in> set (dst_datasets s). has_share (dst_userShares s) (ds_userID d) (ds_id d))"

text \<open>The reads on which a write depends are answered: whether a share is there already, and who created a dataset.\<close>

definition reads_answered :: "dataset_env \<Rightarrow> bool" where
  "reads_answered e \<longleftrightarrow> (\<forall>n. sf_lookErr (dx_share e) n = None) \<and> dx_creatorErr e = None"

lemma find_dataset_in: "find_dataset i s = Some d \<Longrightarrow> d \<in> set (dst_datasets s) \<and> ds_id d = i"
  unfolding find_dataset_def by (rule tbl_first_Some)

lemma find_dataset_iff: "datasets_ok s \<Longrightarrow> find_dataset i s = Some d \<longleftrightarrow> d \<in> set (dst_datasets s) \<and> ds_id d = i"
  using find_dataset_in distinct_first [of ds_id "dst_datasets s" d] by (auto simp: datasets_ok_def find_dataset_def)

lemma lookup_any_in: "lookup_any e s i = Some d \<Longrightarrow> i \<in> dataset_ids s"
  using find_dataset_in [of i s d] by (auto simp: lookup_any_def dataset_ids_def split: if_splits)

lemma lookup_own_in: "lookup_own e token s i = Some d \<Longrightarrow> d \<in> set (dst_datasets s) \<and> ds_id d = i \<and> ds_userID d = jm_userID token"
  by (auto simp: lookup_own_def find_own_dataset_def dest: tbl_first_Some split: if_splits)

lemma find_own_None: "find_own_dataset uid i s = None \<longleftrightarrow> (\<forall>d \<in> set (dst_datasets s). \<not> (ds_userID d = uid \<and> ds_id d = i))"
  by (simp add: find_own_dataset_def tbl_first_None)

lemma datasets_ok_users:
  assumes "datasets_ok s" "shares_ok t" and "\<And>g i. has_share t g i \<Longrightarrow> i \<in> dataset_ids s"
    and "\<forall>d \<in> set (dst_datasets s). has_share t (ds_userID d) (ds_id d)"
  shows "datasets_ok (set_users t s)"
  using assms by (auto simp: datasets_ok_def set_users_def dataset_ids_def)

lemma datasets_ok_accounts:
  assumes "datasets_ok s" "shares_ok t" and "\<And>g i. has_share t g i \<Longrightarrow> i \<in> dataset_ids s"
  shows "datasets_ok (set_accounts t s)"
  using assms by (auto simp: datasets_ok_def set_accounts_def dataset_ids_def)

lemma datasets_ok_change:
  assumes "datasets_ok s" and "\<And>d. ds_id (f d) = ds_id d \<and> ds_userID (f d) = ds_userID d"
  shows "datasets_ok (change_dataset i f s)"
proof -
  have m: "map ds_id (dst_datasets (change_dataset i f s)) = map ds_id (dst_datasets s)"
    using assms(2) by (simp add: change_dataset_def tbl_updates_def)
  have "dataset_ids (change_dataset i f s) = dataset_ids s"
    by (simp add: dataset_ids_def m flip: set_map)
  moreover have "distinct (map ds_id (dst_datasets (change_dataset i f s)))" using m assms(1) by (simp add: datasets_ok_def)
  moreover have "\<forall>d \<in> set (dst_datasets (change_dataset i f s)). has_share (dst_userShares s) (ds_userID d) (ds_id d)"
    using assms by (auto simp: datasets_ok_def change_dataset_def tbl_updates_def)
  ultimately show ?thesis using assms(1) by (simp add: datasets_ok_def) (simp add: change_dataset_def)
qed

lemma datasets_ok_has:
  assumes "datasets_ok s"
  shows "has_share (dst_userShares s) g i \<Longrightarrow> i \<in> dataset_ids s" and "has_share (dst_accountShares s) g i \<Longrightarrow> i \<in> dataset_ids s"
    and "d \<in> set (dst_datasets s) \<Longrightarrow> has_share (dst_userShares s) (ds_userID d) (ds_id d)"
    and "shares_ok (dst_userShares s)" and "shares_ok (dst_accountShares s)"
  using assms by (auto simp: datasets_ok_def)

lemma shareWithUser_ok:
  assumes "datasets_ok s" "reads_answered e" "sq_datasetID r \<in> dataset_ids s"
  shows "datasets_ok (snd (shareWithUser e r s))"
proof -
  have "datasets_ok (set_users (snd (share_all (dx_share e) 0 (user_exists s) m a (sq_datasetID r) (sq_ids r) (dst_userShares s))) s)" for m a
    using assms datasets_ok_has [OF assms(1)]
    by (intro datasets_ok_users) (auto intro: share_all_ok share_all_monotone dest!: share_all_keeps simp: reads_answered_def)
  with assms(1) show ?thesis by (simp add: shareWithUser_def split: prod.split) (metis snd_conv)
qed

lemma shareWithQueue_ok:
  assumes "datasets_ok s" "reads_answered e" "sq_datasetID r \<in> dataset_ids s"
  shows "datasets_ok (snd (shareWithQueue e r s))"
proof -
  have "datasets_ok (set_accounts (snd (share_all (dx_share e) 0 (account_exists s) m a (sq_datasetID r) (sq_ids r) (dst_accountShares s))) s)" for m a
    using assms datasets_ok_has [OF assms(1)]
    by (intro datasets_ok_accounts) (auto intro: share_all_ok dest!: share_all_keeps simp: reads_answered_def)
  with assms(1) show ?thesis by (simp add: shareWithQueue_def split: prod.split) (metis snd_conv)
qed

lemma cancelShareWithUser_ok:
  assumes "datasets_ok s" "reads_answered e"
  shows "datasets_ok (snd (cancelShareWithUser e i uid s))"
proof (cases "find_own_dataset uid i s")
  case None
  note has = datasets_ok_has [OF assms(1)]
  have "datasets_ok (set_users (snd (unshare_one l x a i uid (dst_userShares s))) s)" for l x a
    using has None by (intro datasets_ok_users assms unshare_ok) (auto intro: unshare_keeps dest: unshare_sub simp: find_own_None)
  with assms(1) show ?thesis by (simp add: cancelShareWithUser_def split: prod.split) (metis snd_conv)
qed (use assms in \<open>simp add: cancelShareWithUser_def reads_answered_def\<close>)

lemma cancelShareWithQueue_ok:
  assumes "datasets_ok s"
  shows "datasets_ok (snd (cancelShareWithQueue e i qid s))"
proof -
  note has = datasets_ok_has [OF assms(1)]
  have "datasets_ok (set_accounts (snd (unshare_one l x a i qid (dst_accountShares s))) s)" for l x a
    using has by (intro datasets_ok_accounts assms unshare_ok) (auto dest: unshare_sub)
  with assms(1) show ?thesis by (simp add: cancelShareWithQueue_def split: prod.split) (metis snd_conv)
qed

text \<open>A handler in the frame keeps what its work keeps on the dataset it found.\<close>

lemma with_dataset_state:
  assumes "P s" and "\<And>r d. body = Some r \<Longrightarrow> valid r \<Longrightarrow> lookup (item r) = Some d \<Longrightarrow> P (snd (work r s))"
  shows "P (snd (with_dataset valid item lookup denied t work body s))"
  using assms by (auto simp: with_dataset_def split: option.split prod.split) (metis snd_conv)+

lemma undo_rows_ok:
  assumes "datasets_ok s" "dst_seq s \<le> dst_seq s1" "st_seq (dst_userShares s) \<le> st_seq (dst_userShares s1)"
  shows "datasets_ok (undo_rows s s1)"
proof -
  have "has_share ((dst_userShares s)\<lparr>st_seq := n\<rparr>) = has_share (dst_userShares s)" for n by (simp add: fun_eq_iff has_share_def)
  with assms show ?thesis by (fastforce simp: datasets_ok_def undo_rows_def dataset_ids_def shares_ok_def)
qed

lemma create_dataset_body_ok:
  assumes "datasets_ok s" "create_dataset_body e token realURL r s = (Inr i, s1)"
  shows "datasets_ok s1 \<and> i = Suc (dst_seq s) \<and> i \<in> dataset_ids s1 \<and> dst_accountShares s1 = dst_accountShares s \<and>
    dst_datasets s1 = dst_datasets s @ [new_dataset e i token realURL r] \<and> dst_userShares s1 = add_share (jm_userID token) i (dst_userShares s)"
proof -
  have i: "Suc (dst_seq s) \<notin> dataset_ids s" using assms(1) by (fastforce simp: datasets_ok_def)
  then have n: "\<not> has_share (dst_userShares s) g (Suc (dst_seq s))" for g using datasets_ok_has(1) [OF assms(1)] by blast
  have b: "i = Suc (dst_seq s)" "s1 = set_users (add_share (jm_userID token) i (dst_userShares s))
      (s\<lparr>dst_datasets := dst_datasets s @ [new_dataset e i token realURL r], dst_seq := i\<rparr>)"
    using assms(2) by (auto simp: create_dataset_body_def Let_def split: option.splits)
  have "datasets_ok s1"
    using assms(1) i n unfolding b datasets_ok_def
    by (auto simp: set_users_def dataset_ids_def new_dataset_def shares_ok_add le_SucI)
  then show ?thesis by (simp add: b set_users_def dataset_ids_def new_dataset_def)
qed

lemma CreateDataset_ok:
  assumes "datasets_ok s"
  shows "datasets_ok (snd (CreateDataset e token body s))"
proof -
  have undo: "datasets_ok (undo_rows s s1)" if "create_dataset_body e token u r s = (x, s1)" for u r x s1
    using that by (intro undo_rows_ok assms) (auto simp: create_dataset_body_def Let_def set_users_def add_share_def split: option.splits)
  have pub: "datasets_ok (set_accounts (add_share DefaultAccountID i (dst_accountShares s1)) s1)"
    if b: "create_dataset_body e token u r s = (Inr i, s1)" for u r i s1
  proof -
    note k = create_dataset_body_ok [OF assms b]
    have "i \<notin> dataset_ids s" using assms k by (fastforce simp: datasets_ok_def)
    then have "\<not> has_share (dst_accountShares s1) g i" for g using datasets_ok_has(2) [OF assms] k by auto
    moreover have "datasets_ok s1" using k by blast
    moreover note datasets_ok_has(2,5) [OF this]
    ultimately show ?thesis using k by (intro datasets_ok_accounts shares_ok_add) auto
  qed
  from assms create_dataset_body_ok [OF assms] undo pub show ?thesis
    by (auto simp: CreateDataset_def split: option.split sum.split prod.split)
qed

lemma update_dataset_rows_ok: "datasets_ok s \<Longrightarrow> datasets_ok (snd (update_dataset_rows e r u s))"
  by (simp add: update_dataset_rows_def Let_def datasets_ok_change split: option.split)

lemma UpdateDataset_ok: "datasets_ok s \<Longrightarrow> datasets_ok (snd (UpdateDataset e token body s))"
  using update_dataset_rows_ok [of s] by (simp add: UpdateDataset_def split: option.split sum.split)

lemma DeleteDataset_ok:
  assumes "datasets_ok s"
  shows "datasets_ok (snd (DeleteDataset e token req s))"
proof -
  have "datasets_ok s1" if b: "delete_dataset_body e token i s = (Inr u, s1)" for i u s1
  proof -
    obtain d where d: "find_dataset i s = Some d"
      and s1: "s1 = (set_accounts (drop_item i (dst_accountShares s)) (set_users (drop_item i (dst_userShares s)) s))
         \<lparr>dst_datasets := tbl_delete (\<lambda>x. ds_id x = ds_id d) (dst_datasets s)\<rparr>"
      using b by (auto simp: delete_dataset_body_def Let_def set_users_def set_accounts_def split: option.splits if_splits)
    have i: "ds_id d = i" using find_dataset_in [OF d] by simp
    have ids: "dataset_ids s1 = dataset_ids s - {i}" by (auto simp: dataset_ids_def s1 i tbl_delete_def)
    show ?thesis unfolding datasets_ok_def ids
      using assms by (auto simp: datasets_ok_def s1 i set_users_def set_accounts_def tbl_delete_def shares_ok_drop_item distinct_map inj_on_def)
  qed
  with assms show ?thesis by (auto simp: DeleteDataset_def split: option.split sum.split prod.split)
qed

inductive dataset_step :: "'q dataset_store \<Rightarrow> 'q dataset_store \<Rightarrow> bool" where
  ds_create: "dataset_step s (snd (CreateDataset e token creq s))"
| ds_update: "dataset_step s (snd (UpdateDataset e token ureq s))"
| ds_delete: "dataset_step s (snd (DeleteDataset e token dreq s))"
| ds_share_user: "reads_answered e \<Longrightarrow> dataset_step s (snd (ShareDatasetWithUser e token sreq s))"
| ds_share_queue: "reads_answered e \<Longrightarrow> dataset_step s (snd (ShareDatasetWithQueue e token sreq s))"
| ds_admin_share_user: "reads_answered e \<Longrightarrow> dataset_step s (snd (AdminShareDatasetWithUser e sreq s))"
| ds_admin_share_queue: "reads_answered e \<Longrightarrow> dataset_step s (snd (AdminShareDatasetWithQueue e sreq s))"
| ds_cancel_user: "reads_answered e \<Longrightarrow> dataset_step s (snd (CancelShareDatasetWithUser e token xreq s))"
| ds_cancel_queue: "dataset_step s (snd (CancelShareDatasetWithQueue e token xreq s))"
| ds_admin_cancel_user: "reads_answered e \<Longrightarrow> dataset_step s (snd (AdminCancelShareDatasetWithUser e xreq s))"
| ds_admin_cancel_queue: "dataset_step s (snd (AdmincancelShareDatasetWithQueue e xreq s))"
| ds_directory: "dataset_step s (s\<lparr>dst_dir := d\<rparr>)"

lemma lookup_own_ids: "lookup_own e token s i = Some d \<Longrightarrow> i \<in> dataset_ids s"
  using lookup_own_in [of e token s i d] by (auto simp: dataset_ids_def)

lemmas dataset_work_ok = shareWithUser_ok shareWithQueue_ok cancelShareWithUser_ok cancelShareWithQueue_ok

lemma dataset_step_ok: "dataset_step s s1 \<Longrightarrow> datasets_ok s \<Longrightarrow> datasets_ok s1"
proof (induction rule: dataset_step.induct)
  case (ds_directory s d)
  then show ?case by (simp add: datasets_ok_def dataset_ids_def)
qed (auto simp: CreateDataset_ok UpdateDataset_ok DeleteDataset_ok ShareDatasetWithUser_def ShareDatasetWithQueue_def AdminShareDatasetWithUser_def
    AdminShareDatasetWithQueue_def CancelShareDatasetWithUser_def CancelShareDatasetWithQueue_def AdminCancelShareDatasetWithUser_def
    AdmincancelShareDatasetWithQueue_def cancel_user_work_def cancel_queue_work_def
    intro!: with_dataset_state [where P = datasets_ok] dataset_work_ok dest: lookup_own_ids lookup_any_in)

text \<open>Claim C22. The tables of datasets stay consistent: after any sequence of creations, updates, deletions, shares and cancellations by users and administrators, with changes of
  the users and accounts in between, every share names a dataset that exists, nobody has the same dataset twice, and every owner
  still has his own; provided that the two reads that guard a write are answered by the database.
\<close>

theorem datasets_stay_consistent:
  assumes "dataset_step\<^sup>*\<^sup>* s s1" and "datasets_ok s"
  shows "datasets_ok s1"
  using assms by (induction rule: rtranclp_induct) (auto intro: dataset_step_ok)

section \<open>What a user sees\<close>

lemma shared_items_iff: "i \<in> set (shared_items g t) \<longleftrightarrow> has_share t g i"
  by (auto simp: shared_items_def tbl_find_def has_share_iff share_key_def)

definition may_use :: "jwt_message \<Rightarrow> 'q dataset_store \<Rightarrow> nat \<Rightarrow> bool" where
  "may_use token s i \<longleftrightarrow> has_share (dst_userShares s) (jm_userID token) i \<or> has_share (dst_accountShares s) DefaultAccountID i \<or>
     has_share (dst_accountShares s) (jm_accountID token) i"

text \<open>What the map holds while the loops run: converted datasets under their own identifiers.\<close>

definition collected :: "'q dataset_store \<Rightarrow> nat set \<Rightarrow> (nat, dataset_resp) gomap \<Rightarrow> bool" where
  "collected s I m \<longleftrightarrow> gm_ok m \<and> set m = (\<lambda>d. (ds_id d, convertDataset s d)) ` {d \<in> set (dst_datasets s). ds_id d \<in> I}"

lemma collected_put:
  assumes "datasets_ok s" "collected s I m" "d \<in> set (dst_datasets s)"
  shows "collected s (insert (ds_id d) I) (gm_put (ds_id d) (convertDataset s d) m)"
proof -
  have u: "x = d" if "x \<in> set (dst_datasets s)" "ds_id x = ds_id d" for x
    using map_unique [of ds_id "dst_datasets s" d x] that assms(1,3) by (simp add: datasets_ok_def)
  have g: "gm_ok (gm_put (ds_id d) (convertDataset s d) m)" using assms(2) by (simp add: collected_def)
  have in_m: "(k, v) \<in> set m \<longleftrightarrow> (\<exists>x \<in> set (dst_datasets s). ds_id x \<in> I \<and> k = ds_id x \<and> v = convertDataset s x)" for k v
    using assms(2) by (auto simp: collected_def)
  have get: "gm_get m k = Some v \<longleftrightarrow> (k, v) \<in> set m" for k v using assms(2) by (simp add: collected_def gm_get_in_set)
  have "(k, v) \<in> set (gm_put (ds_id d) (convertDataset s d) m) \<longleftrightarrow>
      (\<exists>x \<in> set (dst_datasets s). ds_id x \<in> insert (ds_id d) I \<and> k = ds_id x \<and> v = convertDataset s x)" for k v
  proof (cases "k = ds_id d")
    case True
    then have "(k, v) \<in> set (gm_put (ds_id d) (convertDataset s d) m) \<longleftrightarrow> v = convertDataset s d"
      by (simp add: gm_get_in_set [OF g, symmetric] eq_commute)
    with True assms(3) u show ?thesis by blast
  next
    case False
    then have "(k, v) \<in> set (gm_put (ds_id d) (convertDataset s d) m) \<longleftrightarrow> (k, v) \<in> set m"
      by (simp add: gm_get_in_set [OF g, symmetric] get)
    with False in_m show ?thesis by auto
  qed
  then have "set (gm_put (ds_id d) (convertDataset s d) m) = (\<lambda>d. (ds_id d, convertDataset s d)) ` {x \<in> set (dst_datasets s). ds_id x \<in> insert (ds_id d) I}"
    by (intro set_eqI) (simp add: split_paired_all image_iff Bex_def)
  with g show ?thesis by (simp add: collected_def)
qed

lemma collect_datasets_all:
  assumes "datasets_ok s" "\<forall>n. f n = None"
  shows "collected s I m \<Longrightarrow> set is \<subseteq> dataset_ids s \<Longrightarrow> \<exists>m'. collect_datasets f n is s m = Inr m' \<and> collected s (I \<union> set is) m'"
proof (induction "is" arbitrary: n I m)
  case (Cons i "is")
  then obtain d where d: "d \<in> set (dst_datasets s)" "ds_id d = i" by (auto simp: dataset_ids_def)
  then have "find_dataset i s = Some d" using find_dataset_iff [OF assms(1)] by blast
  with Cons.IH [OF collected_put [OF assms(1) Cons.prems(1) d(1)]] Cons.prems(2) assms(2) d(2) show ?case by simp
qed simp

text \<open>Claim C26. The list of datasets a user gets is exact: with a database that answers and consistent tables, it holds each dataset
  that is shared with the user, with everybody or with the account he works in, once, and no other.
\<close>

theorem my_datasets_exact:
  assumes "datasets_ok s" and "\<forall>n. dx_findDatasetErr e n = None \<and> dx_accountSharesErr e n = None" and "dx_userSharesErr e = None"
  shows "\<exists>rs. GetDatasets e token s = Inr rs \<and> distinct (map dp_id rs) \<and>
    set rs = convertDataset s ` {d \<in> set (dst_datasets s). may_use token s (ds_id d)}"
proof -
  have f: "\<forall>n. dx_findDatasetErr e n = None" using assms(2) by blast
  have sub: "set (shared_items g (dst_userShares s)) \<subseteq> dataset_ids s" "set (shared_items g (dst_accountShares s)) \<subseteq> dataset_ids s" for g
    using datasets_ok_has(1,2) [OF assms(1)] by (auto simp: shared_items_iff)
  have "collected s {} []" by (simp add: collected_def)
  from collect_datasets_all [OF assms(1) f this sub(1) [of "jm_userID token"], of 0] obtain m1
    where m1: "collect_datasets (dx_findDatasetErr e) 0 (shared_items (jm_userID token) (dst_userShares s)) s [] = Inr m1"
      "collected s ({} \<union> set (shared_items (jm_userID token) (dst_userShares s))) m1" by blast
  have step: "\<exists>m'. generateQueueDataseResponse e k n g s m = Inr m' \<and> collected s (I \<union> set (shared_items g (dst_accountShares s))) m'"
    if "collected s I m" for k n g m I
    using collect_datasets_all [OF assms(1) f that sub(2) [of g], of n] spec [OF assms(2), of k] unfolding generateQueueDataseResponse_def by simp
  let ?n1 = "length (shared_items (jm_userID token) (dst_userShares s))"
  let ?n2 = "?n1 + length (shared_items 1 (dst_accountShares s))"
  from step [OF m1(2)] obtain m2 where m2: "generateQueueDataseResponse e 0 ?n1 1 s m1 = Inr m2"
      "collected s ({} \<union> set (shared_items (jm_userID token) (dst_userShares s)) \<union> set (shared_items 1 (dst_accountShares s))) m2" by blast
  from step [OF m2(2)] obtain m3 where m3: "generateQueueDataseResponse e 1 ?n2 (jm_accountID token) s m2 = Inr m3"
      "collected s ({} \<union> set (shared_items (jm_userID token) (dst_userShares s)) \<union> set (shared_items 1 (dst_accountShares s)) \<union> set (shared_items (jm_accountID token) (dst_accountShares s))) m3" by blast
  obtain m where m: "GetDatasets e token s = Inr (map snd m)" "collected s {i. may_use token s i} m"
  proof (cases "jm_accountID token = DefaultAccountID")
    case True
    have "GetDatasets e token s = Inr (map snd m2)" using m1(1) m2(1) assms(3) True by (simp add: GetDatasets_def Let_def)
    moreover have "{} \<union> set (shared_items (jm_userID token) (dst_userShares s)) \<union> set (shared_items 1 (dst_accountShares s)) = {i. may_use token s i}"
      using True by (auto simp: may_use_def shared_items_iff)
    ultimately show ?thesis using that m2(2) by simp
  next
    case False
    have "GetDatasets e token s = Inr (map snd m3)" using m1(1) m2(1) m3(1) assms(3) False by (simp add: GetDatasets_def Let_def)
    moreover have "{} \<union> set (shared_items (jm_userID token) (dst_userShares s)) \<union> set (shared_items 1 (dst_accountShares s)) \<union> set (shared_items (jm_accountID token) (dst_accountShares s)) = {i. may_use token s i}"
      by (auto simp: may_use_def shared_items_iff)
    ultimately show ?thesis using that m3(2) by simp
  qed
  have ids: "map dp_id (map snd m) = map fst m" using m(2) by (auto simp: collected_def convertDataset_def)
  have "distinct (map dp_id (map snd m))" unfolding ids using m(2) by (simp add: collected_def gm_ok_def)
  moreover have "set (map snd m) = convertDataset s ` {d \<in> set (dst_datasets s). may_use token s (ds_id d)}"
    using m(2) by (simp add: collected_def image_image)
  ultimately show ?thesis using m(1) by blast
qed

lemma lookup_own_hit:
  assumes "d \<in> set (dst_datasets s)" "ds_userID d = jm_userID token" "dx_findDatasetErr e 0 = None"
  shows "\<exists>d'. lookup_own e token s (ds_id d) = Some d'"
  using assms by (auto simp: lookup_own_def find_own_dataset_def not_None_eq [symmetric] tbl_first_None)

text \<open>Sharing works: when the owner shares a dataset with a list of users and the database answers, the request succeeds
  exactly if the users exist, have not got it yet and are named once; and then every one of them, whatever account he works in,
  finds it in his list.
\<close>

theorem shared_dataset_visible:
  assumes "datasets_ok s" and "ds_userID d = jm_userID token" and "d \<in> set (dst_datasets s)" and "ds_id d \<noteq> 0" and "us \<noteq> []"
    and "no_share_faults (dx_share e)" and "\<forall>n. dx_findDatasetErr e n = None \<and> dx_accountSharesErr e n = None"
    and "dx_userSharesErr e = None" and "dx_creatorErr e = None"
  shows "case ShareDatasetWithUser e token (Some \<lparr>sq_datasetID = ds_id d, sq_ids = us\<rparr>) s of
      (Inl x, s1) \<Rightarrow> \<not> (distinct us \<and> (\<forall>u \<in> set us. user_exists s u \<and> \<not> has_share (dst_userShares s) u (ds_id d)))
    | (Inr x, s1) \<Rightarrow> distinct us \<and> (\<forall>u \<in> set us. user_exists s u \<and> \<not> has_share (dst_userShares s) u (ds_id d)) \<and>
        (\<forall>token'. jm_userID token' \<in> set us \<longrightarrow> (\<exists>rs r. GetDatasets e token' s1 = Inr rs \<and> r \<in> set rs \<and> dp_id r = ds_id d))"
proof -
  let ?r = "\<lparr>sq_datasetID = ds_id d, sq_ids = us\<rparr>"
  obtain x t where a: "share_all (dx_share e) 0 (user_exists s) ''user not exist'' ''user has shared dataset'' (ds_id d) us (dst_userShares s) = (x, t)"
    by fastforce
  note none = share_all_None [OF assms(6), of 0 "user_exists s" "''user not exist''" "''user has shared dataset''" "ds_id d" us "dst_userShares s"]
  have "\<exists>d'. lookup_own e token s (ds_id d) = Some d'" using lookup_own_hit [OF assms(3,2)] assms(7) by blast
  then have res: "ShareDatasetWithUser e token (Some ?r) s =
      (case x of None \<Rightarrow> (Inr ''Shared successfully'', set_users t s) | Some y \<Rightarrow> (Inl y, set_users t s))"
    using assms(4,5) a by (auto simp: ShareDatasetWithUser_def with_dataset_def share_valid_def shareWithUser_def split: option.split)
  show ?thesis
  proof (cases x)
    case None
    obtain k where "x = None \<longleftrightarrow> k = length us" "t = fold (\<lambda>g. add_share g (ds_id d)) (take k us) (dst_userShares s)"
      using share_all_prefix [OF a] by blast
    then have t: "has_share t u (ds_id d)" if "u \<in> set us" for u using None that by (simp add: st.granted_fold)
    have ok: "datasets_ok (set_users t s)"
      using shareWithUser_ok [OF assms(1), of e ?r] assms(3,5,6,9) a
      by (force simp: shareWithUser_def reads_answered_def no_share_faults_def dataset_ids_def)
    have "\<exists>rs r. GetDatasets e token' (set_users t s) = Inr rs \<and> r \<in> set rs \<and> dp_id r = ds_id d" if "jm_userID token' \<in> set us" for token'
    proof -
      obtain rs where rs: "GetDatasets e token' (set_users t s) = Inr rs"
          "set rs = convertDataset (set_users t s) ` {d \<in> set (dst_datasets (set_users t s)). may_use token' (set_users t s) (ds_id d)}"
        using my_datasets_exact [OF ok assms(7,8)] by blast
      have "convertDataset (set_users t s) d \<in> set rs" using rs(2) assms(3) t [OF that] by (simp add: may_use_def set_users_def)
      with rs(1) show ?thesis by (metis convertDataset_def dataset_resp.select_convs(2))
    qed
    with None res none a show ?thesis by simp
  qed (use res none a in simp)
qed

section \<open>Whose datasets\<close>

text \<open>
  The handlers an ordinary user can call, each with whatever token, request and failures of the database, and changes of users and
  accounts in between.
\<close>

inductive user_dataset_step :: "(jwt_message \<Rightarrow> bool) \<Rightarrow> 'q dataset_store \<Rightarrow> 'q dataset_store \<Rightarrow> bool" for allowed where
  us_create: "allowed token \<Longrightarrow> user_dataset_step allowed s (snd (CreateDataset e token creq s))"
| us_update: "allowed token \<Longrightarrow> user_dataset_step allowed s (snd (UpdateDataset e token ureq s))"
| us_delete: "allowed token \<Longrightarrow> user_dataset_step allowed s (snd (DeleteDataset e token dreq s))"
| us_share_user: "allowed token \<Longrightarrow> user_dataset_step allowed s (snd (ShareDatasetWithUser e token sreq s))"
| us_share_queue: "allowed token \<Longrightarrow> user_dataset_step allowed s (snd (ShareDatasetWithQueue e token sreq s))"
| us_cancel_user: "allowed token \<Longrightarrow> user_dataset_step allowed s (snd (CancelShareDatasetWithUser e token xreq s))"
| us_cancel_queue: "allowed token \<Longrightarrow> user_dataset_step allowed s (snd (CancelShareDatasetWithQueue e token xreq s))"
| us_directory: "user_dataset_step allowed s (s\<lparr>dst_dir := dir\<rparr>)"

text \<open>
  What holds of the tables even if the reads that guard a write are not answered, when the same share may come to be twice: the keys of
  the rows are unique and no greater than the last that was given.
\<close>

definition keyed_shares :: "share_table \<Rightarrow> bool" where
  "keyed_shares t \<longleftrightarrow> distinct (map sh_id (st_rows t)) \<and> (\<forall>r \<in> set (st_rows t). sh_id r \<le> st_seq t)"

definition keyed_datasets :: "'q dataset_store \<Rightarrow> bool" where
  "keyed_datasets s \<longleftrightarrow> distinct (map ds_id (dst_datasets s)) \<and> (\<forall>i \<in> dataset_ids s. i \<le> dst_seq s) \<and>
     keyed_shares (dst_userShares s) \<and> keyed_shares (dst_accountShares s)"

lemma datasets_ok_keyed: "datasets_ok s \<Longrightarrow> keyed_datasets s"
  by (simp add: datasets_ok_def keyed_datasets_def shares_ok_def keyed_shares_def)

lemma keyed_add: "keyed_shares t \<Longrightarrow> keyed_shares (add_share g i t)"
  by (fastforce simp: keyed_shares_def add_share_def)

lemma keyed_fold_add: "keyed_shares t \<Longrightarrow> keyed_shares (fold (\<lambda>g. add_share g i) gs t)"
  by (induction gs arbitrary: t) (simp_all add: keyed_add)

lemma keyed_filter: "keyed_shares t \<Longrightarrow> keyed_shares (t\<lparr>st_rows := filter P (st_rows t)\<rparr>)"
  by (auto simp: keyed_shares_def distinct_map intro: inj_on_subset)

lemma keyed_drop: "keyed_shares t \<Longrightarrow> keyed_shares (drop_share g i t)"
  by (simp add: drop_share_def tbl_delete_def keyed_filter split: option.split)

lemma keyed_drop_item: "keyed_shares t \<Longrightarrow> keyed_shares (drop_item i t)"
  by (simp add: drop_item_def tbl_delete_def keyed_filter)

lemma keyed_share_all: "keyed_shares t \<Longrightarrow> keyed_shares (snd (share_all f n exists missing already item gs t))"
  using share_all_prefix [of f n exists missing already item gs t] keyed_fold_add
  by (cases "share_all f n exists missing already item gs t") fastforce

lemma keyed_unshare: "keyed_shares t \<Longrightarrow> keyed_shares (snd (unshare_one l x a item g t))"
  by (simp add: unshare_one_def keyed_drop split: option.split)

lemma has_share_drop_other:
  assumes "keyed_shares t" and "j \<noteq> i"
  shows "has_share (drop_share g i t) h j = has_share t h j"
proof (cases "tbl_first (\<lambda>r. sh_grantee r = g \<and> sh_item r = i) (st_rows t)")
  case None
  then show ?thesis by (simp add: drop_share_def)
next
  case (Some r)
  note r = tbl_first_Some [OF Some]
  have "sh_id x \<noteq> sh_id r" if "x \<in> set (st_rows t)" "sh_item x = j" for x
    using map_unique [of sh_id "st_rows t" r x] that r assms by (auto simp: keyed_shares_def)
  then show ?thesis using Some by (auto simp: drop_share_def tbl_delete_def has_share_iff share_key_def)
qed

text \<open>A dataset with its row and all its shares is as it was.\<close>

definition dataset_kept :: "dataset \<Rightarrow> 'q dataset_store \<Rightarrow> 'q dataset_store \<Rightarrow> bool" where
  "dataset_kept d s s1 \<longleftrightarrow> d \<in> set (dst_datasets s1) \<and>
     (\<forall>g. has_share (dst_userShares s1) g (ds_id d) = has_share (dst_userShares s) g (ds_id d)) \<and>
     (\<forall>g. has_share (dst_accountShares s1) g (ds_id d) = has_share (dst_accountShares s) g (ds_id d))"

lemma share_all_other: "j \<noteq> item \<Longrightarrow> has_share (snd (share_all f n exists missing already item gs t)) h j = has_share t h j"
  using share_all_keeps [of f n exists missing already item gs t h j] share_all_monotone [of t h j] by blast

lemma unshare_other: "keyed_shares t \<Longrightarrow> j \<noteq> item \<Longrightarrow> has_share (snd (unshare_one l x a item g t)) h j = has_share t h j"
  by (simp add: unshare_one_def has_share_drop_other split: option.split)

lemma dataset_kept_refl: "d \<in> set (dst_datasets s) \<Longrightarrow> dataset_kept d s s"
  by (simp add: dataset_kept_def)

lemma kept_shareWithUser:
  assumes "d \<in> set (dst_datasets s)" "sq_datasetID r \<noteq> ds_id d"
  shows "dataset_kept d s (snd (shareWithUser e r s))"
  using assms share_all_other [of "ds_id d" "sq_datasetID r"]
  by (auto simp: shareWithUser_def dataset_kept_def set_users_def split: prod.split) (metis snd_conv)+

lemma kept_shareWithQueue:
  assumes "d \<in> set (dst_datasets s)" "sq_datasetID r \<noteq> ds_id d"
  shows "dataset_kept d s (snd (shareWithQueue e r s))"
  using assms share_all_other [of "ds_id d" "sq_datasetID r"]
  by (auto simp: shareWithQueue_def dataset_kept_def set_accounts_def split: prod.split) (metis snd_conv)+

lemma kept_cancelShareWithUser:
  assumes "d \<in> set (dst_datasets s)" "i \<noteq> ds_id d" "keyed_shares (dst_userShares s)"
  shows "dataset_kept d s (snd (cancelShareWithUser e i uid s))"
  using assms unshare_other [OF assms(3), of "ds_id d" i]
  by (auto simp: cancelShareWithUser_def dataset_kept_def set_users_def split: prod.split) (metis snd_conv)+

lemma kept_cancelShareWithQueue:
  assumes "d \<in> set (dst_datasets s)" "i \<noteq> ds_id d" "keyed_shares (dst_accountShares s)"
  shows "dataset_kept d s (snd (cancelShareWithQueue e i qid s))"
  using assms unshare_other [OF assms(3), of "ds_id d" i]
  by (auto simp: cancelShareWithQueue_def dataset_kept_def set_accounts_def split: prod.split) (metis snd_conv)+

lemma kept_change: "d \<in> set (dst_datasets s) \<Longrightarrow> i \<noteq> ds_id d \<Longrightarrow> dataset_kept d s (change_dataset i f s)"
  by (auto simp: dataset_kept_def change_dataset_def tbl_updates_def image_iff)

lemma kept_trans: "dataset_kept d s s1 \<Longrightarrow> dataset_kept d s1 s2 \<Longrightarrow> dataset_kept d s s2"
  by (simp add: dataset_kept_def)

lemma kept_update_rows:
  assumes "d \<in> set (dst_datasets s)" "uq_datasetID r \<noteq> ds_id d"
  shows "dataset_kept d s (snd (update_dataset_rows e r u s))"
proof -
  have c: "dataset_kept d s t \<Longrightarrow> dataset_kept d s (change_dataset (uq_datasetID r) f t)" for f t
    using kept_trans kept_change [OF _ assms(2), of t f] by (fastforce simp: dataset_kept_def)
  then show ?thesis using dataset_kept_refl [OF assms(1)] by (simp add: update_dataset_rows_def Let_def split: option.split)
qed

lemma dataset_unique: "keyed_datasets s \<Longrightarrow> d \<in> set (dst_datasets s) \<Longrightarrow> x \<in> set (dst_datasets s) \<Longrightarrow> ds_id x = ds_id d \<Longrightarrow> x = d"
  using map_unique [of ds_id "dst_datasets s" d x] by (simp add: keyed_datasets_def)

text \<open>The keys stay unique.\<close>

lemma create_dataset_body_keyed:
  assumes "keyed_datasets s" "create_dataset_body e token realURL r s = (x, s1)"
  shows "keyed_datasets (undo_rows s s1) \<and>
    (\<forall>i. x = Inr i \<longrightarrow> i = Suc (dst_seq s) \<and> i \<notin> dataset_ids s \<and> keyed_datasets s1 \<and> dst_accountShares s1 = dst_accountShares s \<and>
       dst_datasets s1 = dst_datasets s @ [new_dataset e i token realURL r] \<and> dst_userShares s1 = add_share (jm_userID token) i (dst_userShares s))"
proof -
  have seq: "dst_seq s \<le> dst_seq s1" "st_seq (dst_userShares s) \<le> st_seq (dst_userShares s1)"
    using assms(2) by (auto simp: create_dataset_body_def Let_def set_users_def add_share_def split: option.splits)
  have "keyed_datasets (undo_rows s s1)"
    using assms(1) seq by (fastforce simp: keyed_datasets_def undo_rows_def dataset_ids_def keyed_shares_def)
  moreover have "i = Suc (dst_seq s) \<and> i \<notin> dataset_ids s \<and> keyed_datasets s1 \<and> dst_accountShares s1 = dst_accountShares s \<and>
      dst_datasets s1 = dst_datasets s @ [new_dataset e i token realURL r] \<and> dst_userShares s1 = add_share (jm_userID token) i (dst_userShares s)"
    if "x = Inr i" for i
  proof -
    have b: "i = Suc (dst_seq s)" "s1 = set_users (add_share (jm_userID token) i (dst_userShares s))
        (s\<lparr>dst_datasets := dst_datasets s @ [new_dataset e i token realURL r], dst_seq := i\<rparr>)"
      using assms(2) that by (auto simp: create_dataset_body_def Let_def split: option.splits)
    have fresh: "i \<notin> dataset_ids s" using assms(1) b(1) by (fastforce simp: keyed_datasets_def)
    have "keyed_datasets s1" using assms(1) b(1) fresh unfolding b(2) keyed_datasets_def
      by (auto simp: set_users_def dataset_ids_def new_dataset_def keyed_add le_SucI)
    with b(1) fresh show ?thesis by (simp add: b(2) set_users_def)
  qed
  ultimately show ?thesis by blast
qed

lemma keyed_change: "(\<And>d. ds_id (f d) = ds_id d) \<Longrightarrow> keyed_datasets s \<Longrightarrow> keyed_datasets (change_dataset i f s)"
proof -
  assume f: "\<And>d. ds_id (f d) = ds_id d" and k: "keyed_datasets s"
  have "map ds_id (dst_datasets (change_dataset i f s)) = map ds_id (dst_datasets s)" by (simp add: change_dataset_def tbl_updates_def f)
  moreover from this have "dataset_ids (change_dataset i f s) = dataset_ids s" unfolding dataset_ids_def by (metis list.set_map)
  ultimately show ?thesis using k unfolding keyed_datasets_def by (simp add: change_dataset_def)
qed

lemma keyed_tables:
  "keyed_datasets s \<Longrightarrow> keyed_shares t \<Longrightarrow> keyed_datasets (set_users t s)" "keyed_datasets s \<Longrightarrow> keyed_shares t \<Longrightarrow> keyed_datasets (set_accounts t s)"
  by (simp_all add: keyed_datasets_def set_users_def set_accounts_def dataset_ids_def)

lemma keyed_parts: "keyed_datasets s \<Longrightarrow> keyed_shares (dst_userShares s)" "keyed_datasets s \<Longrightarrow> keyed_shares (dst_accountShares s)"
  by (simp_all add: keyed_datasets_def)

lemma keyed_CreateDataset:
  assumes "keyed_datasets s"
  shows "keyed_datasets (snd (CreateDataset e token body s))"
proof -
  have "keyed_datasets (undo_rows s s1) \<and> (\<forall>i. x = Inr i \<longrightarrow> keyed_datasets s1 \<and>
      keyed_datasets (set_accounts (add_share DefaultAccountID i (dst_accountShares s1)) s1))"
    if "create_dataset_body e token u r s = (x, s1)" for u r x s1
    using create_dataset_body_keyed [OF assms that] keyed_tables(2) keyed_add keyed_parts(2) by blast
  with assms show ?thesis by (auto simp: CreateDataset_def split: option.split sum.split prod.split)
qed

lemma keyed_UpdateDataset: "keyed_datasets s \<Longrightarrow> keyed_datasets (snd (UpdateDataset e token body s))"
  by (simp add: UpdateDataset_def update_dataset_rows_def Let_def keyed_change split: option.split sum.split)

lemma keyed_DeleteDataset:
  assumes "keyed_datasets s"
  shows "keyed_datasets (snd (DeleteDataset e token req s))"
proof -
  have "keyed_datasets s1" if b: "delete_dataset_body e token i s = (Inr u, s1)" for i u s1
  proof -
    obtain d where "find_dataset i s = Some d" and s1: "s1 = (set_accounts (drop_item i (dst_accountShares s)) (set_users (drop_item i (dst_userShares s)) s))
         \<lparr>dst_datasets := tbl_delete (\<lambda>x. ds_id x = ds_id d) (dst_datasets s)\<rparr>"
      using b by (auto simp: delete_dataset_body_def Let_def set_users_def set_accounts_def split: option.splits if_splits)
    show ?thesis using assms by (auto simp: s1 keyed_datasets_def dataset_ids_def set_users_def set_accounts_def tbl_delete_def keyed_drop_item
          distinct_map intro: inj_on_subset)
  qed
  with assms show ?thesis by (auto simp: DeleteDataset_def split: option.split sum.split prod.split)
qed

lemma keyed_work:
  assumes "keyed_datasets s"
  shows "keyed_datasets (snd (shareWithUser e r s))" "keyed_datasets (snd (shareWithQueue e r s))"
    "keyed_datasets (snd (cancelShareWithUser e i uid s))" "keyed_datasets (snd (cancelShareWithQueue e i qid s))"
proof -
  note k = keyed_tables(1) [OF assms keyed_share_all [OF keyed_parts(1) [OF assms]]] keyed_tables(2) [OF assms keyed_share_all [OF keyed_parts(2) [OF assms]]]
    keyed_tables(1) [OF assms keyed_unshare [OF keyed_parts(1) [OF assms]]] keyed_tables(2) [OF assms keyed_unshare [OF keyed_parts(2) [OF assms]]]
  show "keyed_datasets (snd (shareWithUser e r s))" "keyed_datasets (snd (shareWithQueue e r s))"
    "keyed_datasets (snd (cancelShareWithUser e i uid s))" "keyed_datasets (snd (cancelShareWithQueue e i qid s))"
    using assms k by (simp_all add: shareWithUser_def shareWithQueue_def cancelShareWithUser_def cancelShareWithQueue_def split_beta)
qed

lemma keyed_step: "user_dataset_step allowed s s1 \<Longrightarrow> keyed_datasets s \<Longrightarrow> keyed_datasets s1"
proof (induction rule: user_dataset_step.induct)
  case (us_directory s dir)
  then show ?case by (simp add: keyed_datasets_def dataset_ids_def)
qed (auto simp: keyed_CreateDataset keyed_UpdateDataset keyed_DeleteDataset ShareDatasetWithUser_def ShareDatasetWithQueue_def
    CancelShareDatasetWithUser_def CancelShareDatasetWithQueue_def cancel_user_work_def cancel_queue_work_def
    intro!: with_dataset_state [where P = keyed_datasets] keyed_work)

text \<open>What is another user's stays.\<close>

lemma kept_create:
  assumes "keyed_datasets s" "d \<in> set (dst_datasets s)"
  shows "dataset_kept d s (snd (CreateDataset e token creq s))"
proof -
  have i: "dataset_kept d s s' \<and> dataset_kept d s (set_accounts (add_share 1 i (dst_accountShares s')) s')"
    if "create_dataset_body e token u r s = (Inr i, s')" for u r i s'
  proof -
    note k = create_dataset_body_keyed [OF assms(1) that]
    then have "i \<notin> dataset_ids s" by blast
    then have "ds_id d \<noteq> i" using assms(2) by (auto simp: dataset_ids_def)
    with k assms(2) show ?thesis by (simp add: dataset_kept_def set_accounts_def)
  qed
  have "dataset_kept d s (undo_rows s s')" for s'
    using assms(2) by (simp add: dataset_kept_def undo_rows_def has_share_def)
  with i show ?thesis using dataset_kept_refl [OF assms(2)] by (auto simp: CreateDataset_def split: option.split sum.split prod.split)
qed

lemma kept_update:
  assumes "keyed_datasets s" "d \<in> set (dst_datasets s)" "ds_userID d \<noteq> jm_userID token" "jm_rolePlatform token \<noteq> RoleAdmin"
  shows "dataset_kept d s (snd (UpdateDataset e token ureq s))"
proof -
  have "ds_id d \<noteq> i" if "find_dataset i s = Some x" "ds_userID x = jm_userID token" for i x
    using find_dataset_in [OF that(1)] that(2) dataset_unique [OF assms(1,2)] assms(3) by metis
  then show ?thesis using dataset_kept_refl [OF assms(2)] kept_update_rows [OF assms(2)] assms(4)
    by (simp add: UpdateDataset_def split: option.split sum.split) metis
qed

lemma kept_delete:
  assumes "keyed_datasets s" "d \<in> set (dst_datasets s)" "ds_userID d \<noteq> jm_userID token" "jm_rolePlatform token \<noteq> RoleAdmin"
  shows "dataset_kept d s (snd (DeleteDataset e token dreq s))"
proof -
  have "dataset_kept d s s'" if b: "delete_dataset_body e token i s = (Inr u, s')" for i u s'
  proof -
    obtain x where x: "find_dataset i s = Some x" "ds_userID x = jm_userID token"
      and s': "s' = (set_accounts (drop_item i (dst_accountShares s)) (set_users (drop_item i (dst_userShares s)) s))
         \<lparr>dst_datasets := tbl_delete (\<lambda>y. ds_id y = ds_id x) (dst_datasets s)\<rparr>"
      using b assms(4) by (auto simp: delete_dataset_body_def Let_def set_users_def set_accounts_def split: option.splits if_splits)
    have "ds_id x = i" "ds_id d \<noteq> i" using find_dataset_in [OF x(1)] x(2) dataset_unique [OF assms(1,2)] assms(3) by metis+
    then show ?thesis using assms(2) by (simp add: s' dataset_kept_def set_users_def set_accounts_def tbl_delete_def)
  qed
  with dataset_kept_refl [OF assms(2)] show ?thesis by (auto simp: DeleteDataset_def split: option.split sum.split prod.split)
qed

lemma lookup_foreign:
  assumes "keyed_datasets s" "d \<in> set (dst_datasets s)" "ds_userID d \<noteq> jm_userID token" "lookup_own e token s i = Some x"
  shows "i \<noteq> ds_id d"
  using lookup_own_in [OF assms(4)] dataset_unique [OF assms(1,2)] assms(3) by metis

lemma dataset_kept_step:
  assumes "user_dataset_step allowed s s1" and "keyed_datasets s"
    and "\<And>token. allowed token \<Longrightarrow> jm_rolePlatform token \<noteq> RoleAdmin \<and> ds_userID d \<noteq> jm_userID token"
    and "d \<in> set (dst_datasets s)"
  shows "dataset_kept d s s1"
proof -
  note frame = with_dataset_state [where P = "dataset_kept d s", OF dataset_kept_refl [OF assms(4)]]
  note has = keyed_parts [OF assms(2)]
  have foreign: "lookup_own e token s (ds_id d) \<noteq> Some x" if "allowed token" for e token x
    using lookup_foreign [OF assms(2,4)] assms(3) [OF that] by blast
  from assms(1) show ?thesis
  proof cases
    case (us_share_user token e sreq)
    then show ?thesis using foreign unfolding ShareDatasetWithUser_def by (auto intro!: frame kept_shareWithUser assms(4))
  next
    case (us_share_queue token e sreq)
    then show ?thesis using foreign unfolding ShareDatasetWithQueue_def by (auto intro!: frame kept_shareWithQueue assms(4))
  next
    case (us_cancel_user token e xreq)
    then show ?thesis using foreign unfolding CancelShareDatasetWithUser_def cancel_user_work_def
      by (auto intro!: frame kept_cancelShareWithUser assms(4) has)
  next
    case (us_cancel_queue token e xreq)
    then show ?thesis using foreign unfolding CancelShareDatasetWithQueue_def cancel_queue_work_def
      by (auto intro!: frame kept_cancelShareWithQueue assms(4) has)
  next
    case (us_directory dir)
    then show ?thesis using assms(4) by (simp add: dataset_kept_def)
  qed (use kept_create [OF assms(2,4)] kept_update [OF assms(2,4)] kept_delete [OF assms(2,4)] assms(3) in simp_all)
qed

text \<open>Claim C30. Nobody touches the datasets of others: whatever sequence of requests of users who are no administrators, with whatever failures of
  the database (those of the reads that guard a write included) and with changes of users and accounts in between, the row and all the
  shares of a dataset that belongs to none of them stay as they are.
\<close>

theorem foreign_datasets_kept:
  assumes "(user_dataset_step allowed)\<^sup>*\<^sup>* s s1" and "datasets_ok s" and "d \<in> set (dst_datasets s)"
    and "\<And>token. allowed token \<Longrightarrow> jm_rolePlatform token \<noteq> RoleAdmin \<and> ds_userID d \<noteq> jm_userID token"
  shows "dataset_kept d s s1"
proof -
  from assms(1) have "dataset_kept d s s1 \<and> keyed_datasets s1"
  proof (induction rule: rtranclp_induct)
    case base
    then show ?case using dataset_kept_refl assms(2,3) datasets_ok_keyed by blast
  next
    case (step y z)
    then have "d \<in> set (dst_datasets y)" by (simp add: dataset_kept_def)
    with step dataset_kept_step [OF step(2) _ assms(4)] keyed_step [OF step(2)] show ?case
      using kept_trans by blast
  qed
  then show ?thesis ..
qed

section \<open>Where addresses lead\<close>

definition plain_part :: "string \<Rightarrow> bool" where
  "plain_part x \<longleftrightarrow> x \<noteq> [] \<and> x \<noteq> ''.'' \<and> x \<noteq> ''..'' \<and> CHR ''/'' \<notin> set x"

lemma split_on_at: "split_on c (a @ c # b) = split_on c a @ split_on c b"
  by (induction a) (auto split: list.split)

lemma clean_parts_back: "plain_part x \<Longrightarrow> clean_parts rooted (ps @ x # ''..'' # qs) out = clean_parts rooted (ps @ qs) out"
  by (induction ps arbitrary: out) (auto simp: plain_part_def split: list.split)

text \<open>A step down and up again is no step.\<close>

lemma path_clean_back:
  assumes "plain_part x"
  shows "path_clean (p @ CHR ''/'' # x @ ''/../'' @ q) = path_clean (p @ CHR ''/'' # q)"
proof -
  have x: "split_on CHR ''/'' (x @ CHR ''/'' # r) = x # split_on CHR ''/'' r" for r
    using assms split_on_append [of "CHR ''/''" x r] by (simp add: plain_part_def)
  have "split_on CHR ''/'' (''../'' @ q) = ''..'' # split_on CHR ''/'' q"
    using split_on_append [of "CHR ''/''" "''..''" q] by simp
  then have "split_on CHR ''/'' (p @ CHR ''/'' # x @ ''/../'' @ q) = split_on CHR ''/'' p @ x # ''..'' # split_on CHR ''/'' q"
    using x [of "''../'' @ q"] by (simp add: split_on_at)
  then have "clean_parts r (split_on CHR ''/'' (p @ CHR ''/'' # x @ ''/../'' @ q)) [] = clean_parts r (split_on CHR ''/'' (p @ CHR ''/'' # q)) []" for r
    by (simp add: clean_parts_back [OF assms] split_on_at)
  moreover have "(p @ CHR ''/'' # x @ ''/../'' @ q \<noteq> [] \<and> hd (p @ CHR ''/'' # x @ ''/../'' @ q) = CHR ''/'') =
      (p @ CHR ''/'' # q \<noteq> [] \<and> hd (p @ CHR ''/'' # q) = CHR ''/'')" by (cases p) simp_all
  ultimately show ?thesis unfolding path_clean_def Let_def by simp
qed

lemma redirect_account:
  assumes "dx_findAccountErr e = None" "find_account (jm_accountID token) dir = Some a"
  shows "redirectDatasetURL e (''account'' @ rest) token dir = Inr (path_clean (sp_account (dx_prefix e) @ CHR ''/'' # ac_space a @ rest))"
  using assms by (simp add: redirectDatasetURL_def has_prefix_def trim_prefix_def)

text \<open>The address of a dataset can leave the space of the account: a user of one account creates a dataset that points at the space of any other account, at
  the very path the members of that account get.
\<close>

theorem dataset_leaves_account:
  assumes "find_account (jm_accountID token) (dst_dir s) = Some mine" and "plain_part (ac_space mine)"
    and "find_account (jm_accountID other) (dst_dir s) = Some theirs" and "dq_url r = ''account/../'' @ ac_space theirs"
    and "dx_findAccountErr e = None" "dx_createErr e = None" "dx_createShareErr e = None" "dx_commitErr e = None"
    and "dq_name r \<noteq> []" "dq_describe r \<noteq> []" "\<not> dq_isPublic r"
  shows "\<exists>x s1 d. CreateDataset e token (Some r) s = (Inr x, s1) \<and> d \<in> set (dst_datasets s1) \<and> ds_userID d = jm_userID token \<and>
    redirectDatasetURL e ''account'' other (dst_dir s) = Inr (ds_url d)"
proof -
  let ?u = "path_clean (sp_account (dx_prefix e) @ CHR ''/'' # ac_space theirs)"
  have "redirectDatasetURL e (''account'' @ (''/../'' @ ac_space theirs)) token (dst_dir s) = Inr ?u"
    unfolding redirect_account [OF assms(5,1)] using path_clean_back [OF assms(2), of "sp_account (dx_prefix e)" "ac_space theirs"] by simp
  then have u: "redirectDatasetURL e (strip_slashes (dq_url r)) token (dst_dir s) = Inr ?u" by (simp add: assms(4) strip_slashes_def)
  have o: "redirectDatasetURL e ''account'' other (dst_dir s) = Inr ?u" using redirect_account [OF assms(5,3), of "[]"] by simp
  have "dq_url r \<noteq> []" using assms(4) by simp
  let ?d = "new_dataset e (Suc (dst_seq s)) token ?u r"
  obtain x s1 where c: "CreateDataset e token (Some r) s = (Inr x, s1)" "dst_datasets s1 = dst_datasets s @ [?d]"
    using u assms(6-) \<open>dq_url r \<noteq> []\<close> by (simp add: CreateDataset_def create_dataset_body_def Let_def set_users_def)
  have "?d \<in> set (dst_datasets s1) \<and> ds_userID ?d = jm_userID token \<and> ?u = ds_url ?d" by (simp add: c(2) new_dataset_def)
  with c(1) show ?thesis unfolding o by (metis (no_types))
qed

text \<open>An update points a dataset anywhere: the owner may store as its path any text that does not begin with a slash or one of the three words, the directory of another user
  included; and every update makes the dataset one that cannot be edited any more.
\<close>

theorem update_points_anywhere:
  assumes "datasets_ok s" and "d \<in> set (dst_datasets s)" and "ds_userID d = jm_userID token" and "ds_id d = uq_datasetID r" and "uq_datasetID r \<noteq> 0"
    and "uq_name r \<noteq> []" "uq_describe r \<noteq> []" "uq_url r \<noteq> []" "hd (uq_url r) \<noteq> CHR ''/''"
    and "\<not> has_prefix ''public'' (uq_url r)" "\<not> has_prefix ''user'' (uq_url r)" "\<not> has_prefix ''account'' (uq_url r)"
    and "dx_findDatasetErr e 0 = None" "\<forall>n. dx_updateErr e n = None"
  shows "\<exists>x s1 d1. UpdateDataset e token (Some r) s = (Inr x, s1) \<and> find_dataset (uq_datasetID r) s1 = Some d1 \<and>
    ds_url d1 = uq_url r \<and> ds_userID d1 = ds_userID d \<and> \<not> ec_editable (ds_extra d1)"
proof -
  have "strip_slashes (uq_url r) = uq_url r" using assms(8,9) by (cases "uq_url r") (simp_all add: strip_slashes_def)
  moreover have f: "find_dataset (uq_datasetID r) s = Some d" using find_dataset_iff [OF assms(1)] assms(2,4) by blast
  moreover have c: "find_dataset i (change_dataset i g t) = map_option g (find_dataset i t)" if "\<And>x. ds_id (g x) = ds_id x" for i g and t :: "'a dataset_store"
    using that unfolding find_dataset_def change_dataset_def by (simp add: tbl_first_updates_same)
  ultimately show ?thesis
    using assms(3,5-) by (simp add: UpdateDataset_def updated_url_def update_dataset_rows_def Let_def)
qed

text \<open>
  A dataset that was shared with a user who has been deleted cannot show its users any more: the handler reads a
  user that is not there and panics.
\<close>

theorem deleted_sharer_panics:
  assumes "datasets_ok s" and "has_share (dst_userShares s) u i" and "find_user u (dst_dir s) = None"
    and "dx_findDatasetErr e 0 = None" "dx_userSharesErr e = None"
  shows "ListUserOfDataset e (Some i) s = Inl NilDereference"
proof -
  have stop: "u \<in> set is \<Longrightarrow> users_of_dataset e n d is s = Inl NilDereference" for "is" n d
    using assms(3) by (induction "is" arbitrary: n) (auto split: option.split)
  obtain d where d: "d \<in> set (dst_datasets s)" "ds_id d = i" using datasets_ok_has(1) [OF assms(1,2)] by (auto simp: dataset_ids_def)
  have "find_dataset i s = Some d" using find_dataset_iff [OF assms(1)] d by blast
  moreover have "u \<in> set (remdups (item_grantees i (dst_userShares s)))"
    using assms(2) by (auto simp: item_grantees_def tbl_find_def has_share_iff share_key_def)
  ultimately show ?thesis using assms(4,5) d(2) stop by (simp add: ListUserOfDataset_def lookup_any_def)
qed

section \<open>Examples\<close>

definition quiet_datasets :: dataset_env where
  "quiet_datasets = \<lparr>dx_now = 9, dx_prefix = \<lparr>sp_public = ''pub'', sp_account = ''acc'', sp_user = ''usr''\<rparr>, dx_findDatasetErr = (\<lambda>n. None),
     dx_findUserErr = (\<lambda>n. None), dx_findAccountErr = None, dx_creatorErr = None,
     dx_share = \<lparr>sf_findErr = (\<lambda>n. None), sf_lookErr = (\<lambda>n. None), sf_writeErr = (\<lambda>n. None)\<rparr>, dx_userSharesErr = None,
     dx_accountSharesErr = (\<lambda>n. None), dx_lookErr = None, dx_deleteErr = (\<lambda>n. None), dx_createErr = None, dx_createShareErr = None,
     dx_publicErr = None, dx_commitErr = None, dx_updateErr = (\<lambda>n. None)\<rparr>"

definition sample_dataset :: dataset where
  "sample_dataset = \<lparr>ds_id = 3, ds_createdAt = 1, ds_name = ''cats'', ds_url = ''usr/ann/cats'', ds_describe = ''pictures'', ds_type = ''dataset'',
     ds_extra = \<lparr>ec_tags = [], ec_webURL = None, ec_editable = True\<rparr>, ds_userID = 4\<rparr>"

definition sample_datasets :: "int dataset_store" where
  "sample_datasets = \<lparr>dst_dir = sample_directory, dst_datasets = [sample_dataset], dst_seq = 3,
     dst_userShares = \<lparr>st_rows = [\<lparr>sh_id = 1, sh_grantee = 4, sh_item = 3\<rparr>], st_seq = 1\<rparr>,
     dst_accountShares = \<lparr>st_rows = [], st_seq = 0\<rparr>\<rparr>"

lemmas sample_dataset_defs = quiet_datasets_def sample_dataset_def sample_datasets_def sample_message_def

lemma sample_datasets_ok: "datasets_ok sample_datasets"
  by (simp add: datasets_ok_def dataset_ids_def shares_ok_def has_share_iff share_key_def sample_datasets_def sample_dataset_def)

lemma datasets_stay_consistent_witness:
  "datasets_ok (snd (ShareDatasetWithUser quiet_datasets (sample_message RoleUser) (Some \<lparr>sq_datasetID = 3, sq_ids = [5]\<rparr>) sample_datasets))"
  by (rule datasets_stay_consistent [OF r_into_rtranclp sample_datasets_ok], rule ds_share_user) (simp add: reads_answered_def quiet_datasets_def)

lemma my_datasets_exact_witness:
  "\<exists>rs. GetDatasets quiet_datasets (sample_message RoleUser) sample_datasets = Inr rs \<and> set rs = {convertDataset sample_datasets sample_dataset}"
proof -
  have "{d \<in> set (dst_datasets sample_datasets). may_use (sample_message RoleUser) sample_datasets (ds_id d)} = {sample_dataset}"
    by (auto simp: may_use_def has_share_iff share_key_def sample_dataset_defs)
  with my_datasets_exact [OF sample_datasets_ok, of quiet_datasets "sample_message RoleUser"] show ?thesis
    by (auto simp: quiet_datasets_def)
qed

lemma shared_dataset_visible_witness:
  "case ShareDatasetWithUser quiet_datasets (sample_message RoleUser) (Some \<lparr>sq_datasetID = 3, sq_ids = [5]\<rparr>) sample_datasets of
     (Inl x, s1) \<Rightarrow> False
   | (Inr x, s1) \<Rightarrow> \<exists>rs r. GetDatasets quiet_datasets ((sample_message RoleUser)\<lparr>jm_userID := 5\<rparr>) s1 = Inr rs \<and> r \<in> set rs \<and> dp_id r = 3"
proof -
  have d: "sample_dataset \<in> set (dst_datasets sample_datasets)" "ds_userID sample_dataset = jm_userID (sample_message RoleUser)" "ds_id sample_dataset = 3"
    by (simp_all add: sample_dataset_defs)
  have "user_exists sample_datasets 5 \<and> \<not> has_share (dst_userShares sample_datasets) 5 3"
    by (simp add: user_exists_def find_user_def tbl_first_Cons has_share_iff share_key_def sample_datasets_def sample_directory_def sample_user_def)
  with shared_dataset_visible [OF sample_datasets_ok d(2,1), of "[5]" quiet_datasets] d(3) show ?thesis
    by (auto simp: no_share_faults_def quiet_datasets_def split: sum.splits)
qed

lemma foreign_datasets_kept_witness:
  "dataset_kept sample_dataset sample_datasets
     (snd (DeleteDataset quiet_datasets ((sample_message RoleUser)\<lparr>jm_userID := 5\<rparr>) (Some 3) sample_datasets))"
proof -
  let ?A = "\<lambda>t. t = (sample_message RoleUser)\<lparr>jm_userID := 5\<rparr>"
  have "user_dataset_step ?A sample_datasets (snd (DeleteDataset quiet_datasets ((sample_message RoleUser)\<lparr>jm_userID := 5\<rparr>) (Some 3) sample_datasets))"
    by (rule us_delete) simp
  then have "(user_dataset_step ?A)\<^sup>*\<^sup>* sample_datasets (snd (DeleteDataset quiet_datasets ((sample_message RoleUser)\<lparr>jm_userID := 5\<rparr>) (Some 3) sample_datasets))"
    by (rule r_into_rtranclp)
  from foreign_datasets_kept [OF this sample_datasets_ok] show ?thesis by (simp add: sample_dataset_defs)
qed

definition two_accounts :: "int dataset_store" where
  "two_accounts = sample_datasets\<lparr>dst_dir := sample_directory\<lparr>dr_accounts := dr_accounts sample_directory @
     [\<lparr>ac_id = 2, ac_name = ''lab'', ac_nickname = ''lab'', ac_space = ''l'', ac_expiredAt = None, ac_quota = no_quota, ac_userDefaultQuota = None\<rparr>]\<rparr>\<rparr>"

definition sample_dataset_req :: "string \<Rightarrow> dataset_req" where
  "sample_dataset_req url = \<lparr>dq_name = ''x'', dq_url = url, dq_describe = ''y'', dq_type = [], dq_isPublic = False, dq_tags = [], dq_webURL = None, dq_editable = False\<rparr>"

lemma dataset_leaves_account_witness:
  "\<exists>x s1 d. CreateDataset quiet_datasets (sample_message RoleUser) (Some (sample_dataset_req ''account/../l'')) two_accounts = (Inr x, s1) \<and>
     d \<in> set (dst_datasets s1) \<and> redirectDatasetURL quiet_datasets ''account'' ((sample_message RoleUser)\<lparr>jm_accountID := 2\<rparr>) (dst_dir two_accounts) = Inr (ds_url d)"
proof -
  obtain mine where m: "find_account (jm_accountID (sample_message RoleUser)) (dst_dir two_accounts) = Some mine" "ac_space mine = ''d''"
    by (simp add: find_account_def tbl_first_Cons two_accounts_def sample_directory_def sample_message_def)
  obtain theirs where t: "find_account (jm_accountID ((sample_message RoleUser)\<lparr>jm_accountID := 2\<rparr>)) (dst_dir two_accounts) = Some theirs" "ac_space theirs = ''l''"
    by (simp add: find_account_def tbl_first_Cons two_accounts_def sample_directory_def sample_message_def)
  have "plain_part (ac_space mine)" by (simp add: plain_part_def m(2))
  from dataset_leaves_account [OF m(1) this t(1), of "sample_dataset_req ''account/../l''" quiet_datasets] t(2) show ?thesis
    by (auto simp: sample_dataset_req_def quiet_datasets_def)
qed

lemma update_points_anywhere_witness:
  "\<exists>x s1 d1. UpdateDataset quiet_datasets (sample_message RoleUser)
       (Some \<lparr>uq_datasetID = 3, uq_name = ''x'', uq_describe = ''y'', uq_url = ''usr/bob'', uq_tags = [], uq_webURL = []\<rparr>) sample_datasets = (Inr x, s1) \<and>
     find_dataset 3 s1 = Some d1 \<and> ds_url d1 = ''usr/bob''"
proof -
  have d: "sample_dataset \<in> set (dst_datasets sample_datasets)" "ds_userID sample_dataset = jm_userID (sample_message RoleUser)" "ds_id sample_dataset = 3"
    by (simp_all add: sample_dataset_defs)
  from update_points_anywhere [OF sample_datasets_ok d(1,2), of "\<lparr>uq_datasetID = 3, uq_name = ''x'', uq_describe = ''y'', uq_url = ''usr/bob'', uq_tags = [], uq_webURL = []\<rparr>"
      quiet_datasets] d(3) show ?thesis
    by (auto simp: has_prefix_def quiet_datasets_def)
qed

lemma deleted_sharer_panics_witness:
  "ListUserOfDataset quiet_datasets (Some 3) (sample_datasets\<lparr>dst_dir := sample_directory\<lparr>dr_users := []\<rparr>\<rparr>) = Inl NilDereference"
  by (rule deleted_sharer_panics [of _ 4])
    (use sample_datasets_ok in \<open>simp_all add: datasets_ok_def dataset_ids_def has_share_iff share_key_def find_user_def sample_dataset_defs\<close>)

end
