(* ===== verification/Images.thy ===== *)
theory Images imports Image_Builds Datasets begin

text \<open>
  The images users work with, \<open>internal/handler/image/image.go\<close>: who sees which image, sharing with users and accounts, the
  public images, changes and deletion, and the base images for CUDA.  Rows are the ones of \<open>Image_Builds\<close>; the tables
  \<open>image_users\<close> and \<open>image_accounts\<close> are share tables.  Where a handler writes an answer and goes on to write a
  second one, its result is the list of answers.
\<close>

section \<open>State\<close>

record 'q image_store =
  gs_dir :: "'q directory"
  gs_images :: "image table"
  gs_seq :: nat
  gs_userShares :: share_table
  gs_accountShares :: share_table
  gs_cuda :: "cuda_base_image table"
  gs_cudaSeq :: nat

record image_env =
  gx_now :: time
  gx_userErr :: fault
  gx_accountErr :: fault
  gx_imagesErr :: "nat \<Rightarrow> fault"
  gx_sharesErr :: "nat \<Rightarrow> fault"
  gx_share :: share_faults
  gx_lookErr :: fault
  gx_createErr :: fault
  gx_updateErr :: fault
  gx_deleteErr :: fault

definition find_image :: "nat \<Rightarrow> 'q image_store \<Rightarrow> image option" where
  "find_image i s = tbl_first (\<lambda>m. im_id m = i) (gs_images s)"

section \<open>Listing\<close>

datatype image_share_type = SharePrivate | SharePublic | ShareUser | ShareAccount

record image_info =
  ii_id :: nat
  ii_imageLink :: string
  ii_description :: "string option"
  ii_createdAt :: time
  ii_taskType :: string
  ii_isPublic :: bool
  ii_username :: string
  ii_nickname :: string
  ii_tags :: "string list option"
  ii_source :: image_source
  ii_packName :: "string option"
  ii_shareStatus :: image_share_type
  ii_archs :: "string list"

definition image_info_of :: "'q image_store \<Rightarrow> image_share_type \<Rightarrow> image \<Rightarrow> image_info" where
  "image_info_of s status m =
     \<lparr>ii_id = im_id m, ii_imageLink = im_imageLink m, ii_description = im_description m, ii_createdAt = im_createdAt m,
      ii_taskType = im_taskType m, ii_isPublic = im_isPublic m,
      ii_username = (case find_user (im_userID m) (gs_dir s) of None \<Rightarrow> [] | Some u \<Rightarrow> us_name u),
      ii_nickname = (case find_user (im_userID m) (gs_dir s) of None \<Rightarrow> [] | Some u \<Rightarrow> us_nickname u),
      ii_tags = im_tags m, ii_source = im_imageSource m, ii_packName = im_imagePackName m, ii_shareStatus = status,
      ii_archs = (case im_archs m of None \<Rightarrow> [''linux/amd64''] | Some a \<Rightarrow> a)\<rparr>"

text \<open>Rows without a key or a link are skipped.\<close>

definition processImageListResponse :: "'q image_store \<Rightarrow> image list \<Rightarrow> image_share_type \<Rightarrow> image_info list \<Rightarrow> image_info list" where
  "processImageListResponse s images status infos =
     infos @ map (image_info_of s status) (filter (\<lambda>m. \<not> (im_id m = 0 \<or> im_imageLink m = [])) images)"

text \<open>The image of a share that is gone is not loaded; the empty row it leaves is among those that are skipped.\<close>

definition empty_image :: image where
  "empty_image = \<lparr>im_id = 0, im_createdAt = 0, im_userID = 0, im_imageLink = [], im_imagePackName = None, im_description = None, im_isPublic = False,
     im_taskType = [], im_imageSource = NoImageSource, im_size = 0, im_tags = None, im_archs = None\<rparr>"

definition shared_images :: "nat \<Rightarrow> share_table \<Rightarrow> 'q image_store \<Rightarrow> image list" where
  "shared_images g t s = map (\<lambda>i. case find_image i s of None \<Rightarrow> empty_image | Some m \<Rightarrow> m) (shared_items g t)"

definition getUserSharedImages :: "fault \<Rightarrow> nat \<Rightarrow> 'q image_store \<Rightarrow> image list" where
  "getUserSharedImages err userID s = (if err = None then shared_images userID (gs_userShares s) s else [])"

definition getPublicImages :: "fault \<Rightarrow> 'q image_store \<Rightarrow> image list" where
  "getPublicImages err s = (if err = None then shared_images DefaultAccountID (gs_accountShares s) s else [])"

definition getAccountSharedImages :: "fault \<Rightarrow> nat \<Rightarrow> 'q image_store \<Rightarrow> image list" where
  "getAccountSharedImages err accountID s = (if err = None then shared_images accountID (gs_accountShares s) s else [])"

text \<open>The first of several entries of one image stays.\<close>

fun dedup_loop :: "nat list \<Rightarrow> image_info list \<Rightarrow> image_info list" where
  "dedup_loop seen [] = []"
| "dedup_loop seen (x # xs) = (if ii_id x \<in> set seen then dedup_loop seen xs else x # dedup_loop (ii_id x # seen) xs)"

definition deduplicate :: "image_info list \<Rightarrow> image_info list" where
  "deduplicate xs = dedup_loop [] xs"

text \<open>Newest first, for queries and for the sorting at the end.\<close>

definition newest_images :: "('r \<Rightarrow> time) \<Rightarrow> 'r list \<Rightarrow> 'r list" where
  "newest_images stamp = sort_key (\<lambda>r. - stamp r)"

definition query_images :: "fault \<Rightarrow> (image \<Rightarrow> bool) \<Rightarrow> 'q image_store \<Rightarrow> image list" where
  "query_images err P s = (if err = None then newest_images im_createdAt (tbl_find P (gs_images s)) else [])"

text \<open>The five sources of the list; a source that cannot be read is left out.\<close>

definition getImages :: "image_env \<Rightarrow> jwt_message \<Rightarrow> 'q image_store \<Rightarrow> image_info list" where
  "getImages e token s =
     (let l1 = processImageListResponse s (query_images (gx_imagesErr e 0) im_isPublic s) SharePublic [];
          l2 = processImageListResponse s (getPublicImages (gx_sharesErr e 0) s) SharePublic l1;
          l3 = processImageListResponse s (getAccountSharedImages (gx_sharesErr e 1) (jm_accountID token) s) ShareAccount l2;
          l4 = processImageListResponse s (query_images (gx_imagesErr e 1) (\<lambda>m. im_userID m = jm_userID token) s) SharePrivate l3;
          l5 = processImageListResponse s (getUserSharedImages (gx_sharesErr e 2) (jm_userID token) s) ShareUser l4
      in newest_images ii_createdAt (deduplicate l5))"

definition UserListImage :: "image_env \<Rightarrow> jwt_message \<Rightarrow> 'q image_store \<Rightarrow> image_info list" where
  "UserListImage e token s = getImages e token s"

definition ListAvailableImages :: "image_env \<Rightarrow> jwt_message \<Rightarrow> 'q image_store \<Rightarrow> image_info list" where
  "ListAvailableImages e token s = getImages e token s"

definition AdminListImage :: "image_env \<Rightarrow> 'q image_store \<Rightarrow> image_info list result" where
  "AdminListImage e s =
     (case gx_sharesErr e 0 of
        Some x \<Rightarrow> Inl ''get public account ids failed''
      | None \<Rightarrow> (case gx_imagesErr e 0 of
          Some x \<Rightarrow> Inl ''get old public account ids failed''
        | None \<Rightarrow>
            let publicImageIDs = shared_items DefaultAccountID (gs_accountShares s) @ map im_id (tbl_find im_isPublic (gs_images s))
            in (case gx_imagesErr e 1 of
                Some x \<Rightarrow> Inl ''fetch public image entity failed''
              | None \<Rightarrow>
                  let l1 = processImageListResponse s (tbl_find (\<lambda>m. im_id m \<in> set publicImageIDs) (gs_images s)) SharePublic []
                  in (case gx_imagesErr e 2 of
                      Some x \<Rightarrow> Inl ''fetch public image entity failed''
                    | None \<Rightarrow> Inr (newest_images ii_createdAt
                        (processImageListResponse s (tbl_find (\<lambda>m. im_id m \<notin> set publicImageIDs) (gs_images s)) SharePrivate l1))))))"

section \<open>Upload, change and deletion\<close>

record upload_req =
  ur_imageLink :: string
  ur_taskType :: string
  ur_description :: string
  ur_tags :: "string list option"
  ur_archs :: "string list option"

text \<open>A user who cannot be read gets no answer at all; a row that cannot be written is answered like one that was.\<close>

definition UserUploadImage :: "image_env \<Rightarrow> jwt_message \<Rightarrow> upload_req option \<Rightarrow> 'q image_store \<Rightarrow> string result list \<times> 'q image_store" where
  "UserUploadImage e token body s =
     (case body of
        None \<Rightarrow> ([Inl ''bad request''], s)
      | Some r \<Rightarrow> (case (if gx_userErr e = None then find_user (jm_userID token) (gs_dir s) else None) of
          None \<Rightarrow> ([], s)
        | Some user \<Rightarrow>
            let m = \<lparr>im_id = Suc (gs_seq s), im_createdAt = gx_now e, im_userID = jm_userID token, im_imageLink = ur_imageLink r,
                     im_imagePackName = None, im_description = Some (ur_description r), im_isPublic = False, im_taskType = ur_taskType r,
                     im_imageSource = ImageUploadType, im_size = 0, im_tags = ur_tags r, im_archs = ur_archs r\<rparr>
            in ([Inr []], if gx_createErr e = None then s\<lparr>gs_images := gs_images s @ [m], gs_seq := Suc (gs_seq s)\<rparr> else s)))"

definition delete_images :: "(image \<Rightarrow> bool) \<Rightarrow> 'q image_store \<Rightarrow> 'q image_store" where
  "delete_images P s = s\<lparr>gs_images := tbl_delete P (gs_images s)\<rparr>"

definition DeleteImageByID :: "image_env \<Rightarrow> nat option \<Rightarrow> 'q image_store \<Rightarrow> string result list \<times> 'q image_store" where
  "DeleteImageByID e req s =
     (case req of
        None \<Rightarrow> ([Inl ''bad request''], s)
      | Some i \<Rightarrow> (case gx_deleteErr e of
          Some x \<Rightarrow> ([Inl ''failed to delete image'', Inr []], s)
        | None \<Rightarrow> ([Inr []], delete_images (\<lambda>m. im_id m = i) s)))"

text \<open>An administrator reaches every row, a user his own.\<close>

definition in_reach :: "bool \<Rightarrow> jwt_message \<Rightarrow> image \<Rightarrow> bool" where
  "in_reach isAdminMode token m \<longleftrightarrow> isAdminMode \<or> im_userID m = jm_userID token"

definition deleteImageByIDList :: "image_env \<Rightarrow> bool \<Rightarrow> jwt_message \<Rightarrow> nat list \<Rightarrow> 'q image_store \<Rightarrow> bool \<times> 'q image_store" where
  "deleteImageByIDList e isAdminMode token ids s =
     (if gx_deleteErr e = None then (True, delete_images (\<lambda>m. in_reach isAdminMode token m \<and> im_id m \<in> set ids) s) else (False, s))"

definition delete_list_answer :: "bool \<times> 'q image_store \<Rightarrow> string result list \<times> 'q image_store" where
  "delete_list_answer r = ([if fst r then Inr [] else Inl ''failed to delete image''], snd r)"

definition UserDeleteImageByIDList :: "image_env \<Rightarrow> jwt_message \<Rightarrow> nat list option \<Rightarrow> 'q image_store \<Rightarrow> string result list \<times> 'q image_store" where
  "UserDeleteImageByIDList e token body s =
     (case body of None \<Rightarrow> ([Inl ''bad request''], s) | Some ids \<Rightarrow> delete_list_answer (deleteImageByIDList e False token ids s))"

definition AdminDeleteImageByIDList :: "image_env \<Rightarrow> jwt_message \<Rightarrow> nat list option \<Rightarrow> 'q image_store \<Rightarrow> string result list \<times> 'q image_store" where
  "AdminDeleteImageByIDList e token body s =
     (case body of None \<Rightarrow> ([Inl ''bad request''], s) | Some ids \<Rightarrow> delete_list_answer (deleteImageByIDList e True token ids s))"

definition update_images :: "(image \<Rightarrow> bool) \<Rightarrow> (image \<Rightarrow> image) \<Rightarrow> 'q image_store \<Rightarrow> 'q image_store" where
  "update_images P f s = s\<lparr>gs_images := tbl_updates P f (gs_images s)\<rparr>"

text \<open>The answer to a failed update is followed by the answer to a successful one.\<close>

definition change_image :: "image_env \<Rightarrow> (image \<Rightarrow> bool) \<Rightarrow> (image \<Rightarrow> image) \<Rightarrow> err \<Rightarrow> 'q image_store \<Rightarrow> string result list \<times> 'q image_store" where
  "change_image e P f failed s =
     (if gx_updateErr e = None then ([Inr []], update_images P f s) else ([Inl failed, Inr []], s))"

definition changeImageDescription ::
  "image_env \<Rightarrow> bool \<Rightarrow> jwt_message \<Rightarrow> nat \<Rightarrow> string \<Rightarrow> 'q image_store \<Rightarrow> string result list \<times> 'q image_store" where
  "changeImageDescription e isAdminMode token imageID new s =
     change_image e (\<lambda>m. in_reach isAdminMode token m \<and> im_id m = imageID) (im_description_update (\<lambda>_. Some new)) ''update description failed'' s"

definition changeImageTaskType ::
  "image_env \<Rightarrow> bool \<Rightarrow> jwt_message \<Rightarrow> nat \<Rightarrow> string \<Rightarrow> 'q image_store \<Rightarrow> string result list \<times> 'q image_store" where
  "changeImageTaskType e isAdminMode token imageID new s =
     change_image e (\<lambda>m. in_reach isAdminMode token m \<and> im_id m = imageID) (im_taskType_update (\<lambda>_. new)) ''update task type failed'' s"

text \<open>The tags of any image, whoever asks.\<close>

definition changeImageTags :: "image_env \<Rightarrow> nat \<Rightarrow> string list option \<Rightarrow> 'q image_store \<Rightarrow> string result list \<times> 'q image_store" where
  "changeImageTags e imageID new s = change_image e (\<lambda>m. im_id m = imageID) (im_tags_update (\<lambda>_. new)) ''update tags failed'' s"

definition updateImageArch ::
  "image_env \<Rightarrow> bool \<Rightarrow> jwt_message \<Rightarrow> nat \<Rightarrow> string list \<Rightarrow> 'q image_store \<Rightarrow> string result list \<times> 'q image_store" where
  "updateImageArch e isAdminMode token imageID new s =
     (if gx_updateErr e = None
      then ([Inr ''image archs updated successfully''],
            update_images (\<lambda>m. in_reach isAdminMode token m \<and> im_id m = imageID) (im_archs_update (\<lambda>_. Some new)) s)
      else ([Inl ''update image archs failed''], s))"

definition UserChangeImageDescription :: "image_env \<Rightarrow> jwt_message \<Rightarrow> (nat \<times> string) option \<Rightarrow> 'q image_store \<Rightarrow> string result list \<times> 'q image_store" where
  "UserChangeImageDescription e token body s =
     (case body of None \<Rightarrow> ([Inl ''validate failed''], s) | Some (i, new) \<Rightarrow> changeImageDescription e False token i new s)"

definition UserChangeImageTaskType :: "image_env \<Rightarrow> jwt_message \<Rightarrow> (nat \<times> string) option \<Rightarrow> 'q image_store \<Rightarrow> string result list \<times> 'q image_store" where
  "UserChangeImageTaskType e token body s =
     (case body of None \<Rightarrow> ([Inl ''validate failed''], s) | Some (i, new) \<Rightarrow> changeImageTaskType e False token i new s)"

definition UserChangeImageTags :: "image_env \<Rightarrow> (nat \<times> string list option) option \<Rightarrow> 'q image_store \<Rightarrow> string result list \<times> 'q image_store" where
  "UserChangeImageTags e body s = (case body of None \<Rightarrow> ([Inl ''validate failed''], s) | Some (i, new) \<Rightarrow> changeImageTags e i new s)"

definition UserUpdateImageArch :: "image_env \<Rightarrow> jwt_message \<Rightarrow> (nat \<times> string list) option \<Rightarrow> 'q image_store \<Rightarrow> string result list \<times> 'q image_store" where
  "UserUpdateImageArch e token body s =
     (case body of None \<Rightarrow> ([Inl ''validate failed''], s) | Some (i, new) \<Rightarrow> updateImageArch e False token i new s)"

definition AdminChangeImageDescription :: "image_env \<Rightarrow> jwt_message \<Rightarrow> (nat \<times> string) option \<Rightarrow> 'q image_store \<Rightarrow> string result list \<times> 'q image_store" where
  "AdminChangeImageDescription e token body s =
     (case body of None \<Rightarrow> ([Inl ''validate failed''], s) | Some (i, new) \<Rightarrow> changeImageDescription e True token i new s)"

definition AdminChangeImageTaskType :: "image_env \<Rightarrow> jwt_message \<Rightarrow> (nat \<times> string) option \<Rightarrow> 'q image_store \<Rightarrow> string result list \<times> 'q image_store" where
  "AdminChangeImageTaskType e token body s =
     (case body of None \<Rightarrow> ([Inl ''validate failed''], s) | Some (i, new) \<Rightarrow> changeImageTaskType e True token i new s)"

definition AdminChangeImageTags :: "image_env \<Rightarrow> (nat \<times> string list option) option \<Rightarrow> 'q image_store \<Rightarrow> string result list \<times> 'q image_store" where
  "AdminChangeImageTags e body s = (case body of None \<Rightarrow> ([Inl ''validate failed''], s) | Some (i, new) \<Rightarrow> changeImageTags e i new s)"

definition AdminUpdateImageArch :: "image_env \<Rightarrow> jwt_message \<Rightarrow> (nat \<times> string list) option \<Rightarrow> 'q image_store \<Rightarrow> string result list \<times> 'q image_store" where
  "AdminUpdateImageArch e token body s =
     (case body of None \<Rightarrow> ([Inl ''validate failed''], s) | Some (i, new) \<Rightarrow> updateImageArch e True token i new s)"

text \<open>
  The switch between public and not public: the share with the default account and, as long as old rows have it, the flag.  A share that
  cannot be read counts as one that is not there; what the update of the flag answers is dropped.
\<close>

definition AdminUpdateImagePublicStatus :: "image_env \<Rightarrow> nat option \<Rightarrow> 'q image_store \<Rightarrow> string result \<times> 'q image_store" where
  "AdminUpdateImagePublicStatus e req s =
     (case req of
        None \<Rightarrow> (Inl ''validate params'', s)
      | Some i \<Rightarrow>
          let flag = (\<lambda>b t. if gx_updateErr e = None then update_images (\<lambda>m. im_id m = i) (im_isPublic_update (\<lambda>_. b)) t else t)
          in if gx_lookErr e \<noteq> None \<or> \<not> has_share (gs_accountShares s) DefaultAccountID i then
               (case gx_createErr e of
                  Some x \<Rightarrow> (Inl x, s)
                | None \<Rightarrow> (Inr [], flag True (s\<lparr>gs_accountShares := add_share DefaultAccountID i (gs_accountShares s)\<rparr>)))
             else
               (case gx_deleteErr e of
                  Some x \<Rightarrow> (Inl x, s)
                | None \<Rightarrow> (Inr [], flag False (s\<lparr>gs_accountShares := (gs_accountShares s)\<lparr>st_rows :=
                    tbl_delete (\<lambda>r. sh_item r = i \<and> sh_grantee r = DefaultAccountID) (st_rows (gs_accountShares s))\<rparr>\<rparr>))))"

section \<open>Sharing\<close>

text \<open>The message for a missing user or account is the one of the database.\<close>

definition createImageUserEntity :: "image_env \<Rightarrow> nat \<Rightarrow> nat \<Rightarrow> nat \<Rightarrow> 'q image_store \<Rightarrow> fault \<times> 'q image_store" where
  "createImageUserEntity e n imageID userID s =
     (case share_one (gx_share e) n (\<lambda>g. find_user g (gs_dir s) \<noteq> None) ''record not found'' ''image has been shared to this user'' imageID userID
             (gs_userShares s) of (x, t) \<Rightarrow> (x, s\<lparr>gs_userShares := t\<rparr>))"

definition createImageAccountEntity :: "image_env \<Rightarrow> nat \<Rightarrow> nat \<Rightarrow> nat \<Rightarrow> 'q image_store \<Rightarrow> fault \<times> 'q image_store" where
  "createImageAccountEntity e n imageID accountID s =
     (case share_one (gx_share e) n (\<lambda>g. find_account g (gs_dir s) \<noteq> None) ''record not found'' ''image has been shared to this account'' imageID accountID
             (gs_accountShares s) of (x, t) \<Rightarrow> (x, s\<lparr>gs_accountShares := t\<rparr>))"

record share_image_req =
  hq_ids :: "nat list"
  hq_imageID :: nat
  hq_type :: string

fun share_image_loop :: "image_env \<Rightarrow> nat \<Rightarrow> share_image_req \<Rightarrow> nat list \<Rightarrow> 'q image_store \<Rightarrow> fault \<times> 'q image_store" where
  "share_image_loop e n r [] s = (None, s)"
| "share_image_loop e n r (i # is) s =
     (case (if hq_type r = ''user'' then createImageUserEntity e n (hq_imageID r) i s else createImageAccountEntity e n (hq_imageID r) i s) of
        (Some x, s1) \<Rightarrow> (Some x, s1)
      | (None, s1) \<Rightarrow> share_image_loop e (Suc n) r is s1)"

definition UserShareImage :: "image_env \<Rightarrow> share_image_req option \<Rightarrow> 'q image_store \<Rightarrow> string result \<times> 'q image_store" where
  "UserShareImage e body s =
     (case body of
        None \<Rightarrow> (Inl ''validate failed'', s)
      | Some r \<Rightarrow> (case share_image_loop e 0 r (hq_ids r) s of (Some x, s1) \<Rightarrow> (Inl x, s1) | (None, s1) \<Rightarrow> (Inr [], s1)))"

definition cancelShareImageWithUser :: "image_env \<Rightarrow> nat \<Rightarrow> nat \<Rightarrow> 'q image_store \<Rightarrow> fault \<times> 'q image_store" where
  "cancelShareImageWithUser e imageID userID s =
     (if gx_userErr e \<noteq> None \<or> find_user userID (gs_dir s) = None then (Some ''user does not exist'', s)
      else (case unshare_one (gx_lookErr e) (gx_deleteErr e) ''image hasn't been shared to this user'' imageID userID (gs_userShares s) of
        (x, t) \<Rightarrow> (x, s\<lparr>gs_userShares := t\<rparr>)))"

text \<open>The existence of the account is looked up among the users.\<close>

definition cancelShareImageWithAccount :: "image_env \<Rightarrow> nat \<Rightarrow> nat \<Rightarrow> 'q image_store \<Rightarrow> fault \<times> 'q image_store" where
  "cancelShareImageWithAccount e imageID accountID s =
     (if gx_userErr e \<noteq> None \<or> find_user accountID (gs_dir s) = None then (Some ''account does not exist'', s)
      else (case unshare_one (gx_lookErr e) (gx_deleteErr e) ''image hasn't been shared to this account'' imageID accountID (gs_accountShares s) of
        (x, t) \<Rightarrow> (x, s\<lparr>gs_accountShares := t\<rparr>)))"

record cancel_image_req =
  cq_target :: nat
  cq_imageID :: nat
  cq_type :: string

definition UserCancelShareImage :: "image_env \<Rightarrow> cancel_image_req option \<Rightarrow> 'q image_store \<Rightarrow> string result \<times> 'q image_store" where
  "UserCancelShareImage e body s =
     (case body of
        None \<Rightarrow> (Inl ''validate failed'', s)
      | Some r \<Rightarrow> (case (if cq_type r = ''user'' then cancelShareImageWithUser e (cq_imageID r) (cq_target r) s
                         else cancelShareImageWithAccount e (cq_imageID r) (cq_target r) s) of
          (Some x, s1) \<Rightarrow> (Inl x, s1) | (None, s1) \<Rightarrow> (Inr [], s1)))"

text \<open>The account or user of a share that is gone is an empty row here, not skipped.\<close>

definition GetImageGrantedUserOrAccount ::
  "image_env \<Rightarrow> nat option \<Rightarrow> 'q image_store \<Rightarrow> ((nat \<times> string \<times> string) list \<times> (nat \<times> string) list) result" where
  "GetImageGrantedUserOrAccount e req s =
     (case req of
        None \<Rightarrow> Inl ''validate failed''
      | Some i \<Rightarrow> (case gx_sharesErr e 0 of
          Some x \<Rightarrow> Inl ''fetch image share with account failed''
        | None \<Rightarrow> (case gx_sharesErr e 1 of
            Some x \<Rightarrow> Inl ''fetch image share with user failed''
          | None \<Rightarrow> Inr
              (map (\<lambda>g. case find_user g (gs_dir s) of None \<Rightarrow> (0, [], []) | Some u \<Rightarrow> (us_id u, us_name u, us_nickname u)) (item_grantees i (gs_userShares s)),
               map (\<lambda>g. case find_account g (gs_dir s) of None \<Rightarrow> (0, []) | Some a \<Rightarrow> (ac_id a, ac_nickname a)) (item_grantees i (gs_accountShares s))))))"

text \<open>A failure to read the accounts of the caller is answered, and the handler goes on with none.\<close>

definition UserGetImageUngrantedAccounts ::
  "image_env \<Rightarrow> jwt_message \<Rightarrow> nat option \<Rightarrow> 'q image_store \<Rightarrow> (nat \<times> string) list result list" where
  "UserGetImageUngrantedAccounts e token req s =
     (case req of
        None \<Rightarrow> [Inl ''validate failed'']
      | Some i \<Rightarrow> (case gx_sharesErr e 0 of
          Some x \<Rightarrow> [Inl ''query shared account ids failed'']
        | None \<Rightarrow>
            let sharedAccountIDs = item_grantees i (gs_accountShares s) @ [DefaultAccountID];
                accountIDs = (if gx_sharesErr e 1 = None then map ua_accountID (tbl_find (\<lambda>m. ua_userID m = jm_userID token) (dr_members (gs_dir s))) else []);
                answered = (if gx_sharesErr e 1 = None then [] else [Inl ''get user current account failed''])
            in answered @ (case gx_accountErr e of
                Some x \<Rightarrow> [Inl ''fetch account failed'']
              | None \<Rightarrow> [Inr (map (\<lambda>a. (ac_id a, ac_nickname a))
                  (tbl_find (\<lambda>a. ac_id a \<in> set accountIDs \<and> ac_id a \<notin> set sharedAccountIDs) (dr_accounts (gs_dir s))))])))"

text \<open>
  SQL's \<open>LIKE\<close>: a percent sign stands for any text, an underscore for any character, a backslash makes the next character plain.
\<close>

fun sql_like :: "string \<Rightarrow> string \<Rightarrow> bool" where
  "sql_like [] s = (s = [])"
| "sql_like (p # ps) s =
     (if p = CHR ''%'' then (case s of [] \<Rightarrow> sql_like ps [] | c # cs \<Rightarrow> sql_like ps s \<or> sql_like (p # ps) cs)
      else if p = CHR ''_'' then (case s of [] \<Rightarrow> False | c # cs \<Rightarrow> sql_like ps cs)
      else if p = CHR 0x5C then (case ps of [] \<Rightarrow> False | q # qs \<Rightarrow> (case s of [] \<Rightarrow> False | c # cs \<Rightarrow> c = q \<and> sql_like qs cs))
      else (case s of [] \<Rightarrow> False | c # cs \<Rightarrow> c = p \<and> sql_like ps cs))"

text \<open>The conditions are joined without brackets, so the exclusion of those who have the image binds to the second one alone.\<close>

definition UserSearchUngrantedUsers ::
  "image_env \<Rightarrow> jwt_message \<Rightarrow> (nat \<times> string) option \<Rightarrow> 'q image_store \<Rightarrow> (nat \<times> string \<times> string) list result" where
  "UserSearchUngrantedUsers e token body s =
     (case body of
        None \<Rightarrow> Inl ''validate failed''
      | Some (i, name) \<Rightarrow> (case gx_sharesErr e 0 of
          Some x \<Rightarrow> Inl ''query shared user ids failed''
        | None \<Rightarrow>
            let sharedUserIDs = item_grantees i (gs_userShares s) @ [jm_userID token];
                pattern = ''%'' @ name @ ''%''
            in (case gx_userErr e of
                Some x \<Rightarrow> Inl ''fetch user failed''
              | None \<Rightarrow> Inr (map (\<lambda>u. (us_id u, us_name u, us_nickname u))
                  (tbl_find (\<lambda>u. sql_like pattern (us_name u) \<or> (sql_like pattern (us_nickname u) \<and> us_id u \<notin> set sharedUserIDs))
                    (dr_users (gs_dir s)))))))"

section \<open>Base images for CUDA\<close>

record cuda_req =
  cr_imageLabel :: string
  cr_label :: string
  cr_value :: string

definition UserGetCudaBaseImages :: "image_env \<Rightarrow> 'q image_store \<Rightarrow> cuda_base_image list result" where
  "UserGetCudaBaseImages e s = (case gx_imagesErr e 0 of Some x \<Rightarrow> Inl ''fetch cuda base images failed'' | None \<Rightarrow> Inr (gs_cuda s))"

text \<open>The label is unique in the table; rows are deleted for good.\<close>

definition UserAddCudaBaseImage :: "image_env \<Rightarrow> cuda_req option \<Rightarrow> 'q image_store \<Rightarrow> string result \<times> 'q image_store" where
  "UserAddCudaBaseImage e body s =
     (case body of
        None \<Rightarrow> (Inl ''validate failed'', s)
      | Some r \<Rightarrow>
          let taken = (\<exists>c \<in> set (gs_cuda s). cb_imageLabel c = cr_imageLabel r)
          in if cr_imageLabel r = [] \<or> cr_label r = [] \<or> cr_value r = [] then (Inl ''validate failed'', s)
             else if gx_lookErr e = None \<and> taken then (Inl ''image label already exists'', s)
             else if gx_createErr e \<noteq> None \<or> taken then (Inl ''create cuda base image failed'', s)
             else (Inr ''cuda base image created successfully'',
                   s\<lparr>gs_cuda := gs_cuda s @ [\<lparr>cb_id = Suc (gs_cudaSeq s), cb_label = cr_label r, cb_imageLabel = cr_imageLabel r, cb_value = cr_value r\<rparr>],
                     gs_cudaSeq := Suc (gs_cudaSeq s)\<rparr>))"

definition UserDeleteCudaBaseImage :: "image_env \<Rightarrow> nat option \<Rightarrow> 'q image_store \<Rightarrow> string result \<times> 'q image_store" where
  "UserDeleteCudaBaseImage e req s =
     (case req of
        None \<Rightarrow> (Inl ''validate failed'', s)
      | Some i \<Rightarrow>
          if gx_lookErr e \<noteq> None \<or> tbl_first (\<lambda>c. cb_id c = i) (gs_cuda s) = None then (Inl ''cuda base image not found'', s)
          else if gx_deleteErr e \<noteq> None then (Inl ''delete cuda base image failed'', s)
          else (Inr ''cuda base image deleted successfully'', s\<lparr>gs_cuda := tbl_delete (\<lambda>c. cb_id c = i) (gs_cuda s)\<rparr>))"

section \<open>Who sees which image\<close>

text \<open>The class an image is listed under for a user, if it is listed at all: the first that applies.\<close>

definition image_class :: "jwt_message \<Rightarrow> 'q image_store \<Rightarrow> image \<Rightarrow> image_share_type option" where
  "image_class token s m =
     (if im_isPublic m \<or> has_share (gs_accountShares s) DefaultAccountID (im_id m) then Some SharePublic
      else if has_share (gs_accountShares s) (jm_accountID token) (im_id m) then Some ShareAccount
      else if im_userID m = jm_userID token then Some SharePrivate
      else if has_share (gs_userShares s) (jm_userID token) (im_id m) then Some ShareUser
      else None)"

definition usable :: "image \<Rightarrow> bool" where
  "usable m \<longleftrightarrow> im_id m \<noteq> 0 \<and> im_imageLink m \<noteq> []"

definition infos :: "'q image_store \<Rightarrow> image_share_type \<Rightarrow> (image \<Rightarrow> bool) \<Rightarrow> image_info set" where
  "infos s status P = image_info_of s status ` {m \<in> set (gs_images s). usable m \<and> P m}"

lemma dedup_loop_cong: "set seen = set seen' \<Longrightarrow> dedup_loop seen xs = dedup_loop seen' xs"
proof (induction xs arbitrary: seen seen')
  case (Cons x xs)
  from Cons.prems have "set (ii_id x # seen) = set (ii_id x # seen')" by simp
  from Cons.IH [OF this] Cons.IH [OF Cons.prems] Cons.prems show ?case by simp
qed simp

lemma dedup_loop_append: "dedup_loop seen (xs @ ys) = dedup_loop seen xs @ dedup_loop (map ii_id xs @ seen) ys"
proof (induction xs arbitrary: seen)
  case (Cons x xs)
  have "dedup_loop (map ii_id xs @ seen) ys = dedup_loop (map ii_id (x # xs) @ seen) ys" if "ii_id x \<in> set seen"
    by (rule dedup_loop_cong) (use that in auto)
  moreover have "dedup_loop (map ii_id xs @ ii_id x # seen) ys = dedup_loop (map ii_id (x # xs) @ seen) ys"
    by (rule dedup_loop_cong) auto
  ultimately show ?case using Cons.IH [of seen] Cons.IH [of "ii_id x # seen"] by simp
qed simp

lemma dedup_loop_ids: "distinct (map ii_id (dedup_loop seen xs)) \<and> ii_id ` set (dedup_loop seen xs) \<inter> set seen = {}"
proof (induction xs arbitrary: seen)
  case (Cons x xs)
  from Cons.IH [of seen] Cons.IH [of "ii_id x # seen"] show ?case by auto
qed simp

lemma dedup_loop_set:
  "\<forall>x \<in> set xs. \<forall>y \<in> set xs. ii_id x = ii_id y \<longrightarrow> x = y \<Longrightarrow> set (dedup_loop seen xs) = {x \<in> set xs. ii_id x \<notin> set seen}"
proof (induction xs arbitrary: seen)
  case (Cons x xs)
  then have "set (dedup_loop sn xs) = {y \<in> set xs. ii_id y \<notin> set sn}" for sn by simp
  with Cons.prems show ?case by auto
qed simp

lemma infos_inj: "distinct (map im_id (gs_images s)) \<Longrightarrow> \<forall>x \<in> infos s st P. \<forall>y \<in> infos s st P. ii_id x = ii_id y \<longrightarrow> x = y"
proof (intro ballI impI)
  fix x y assume d: "distinct (map im_id (gs_images s))" and "x \<in> infos s st P" "y \<in> infos s st P" "ii_id x = ii_id y"
  then obtain m n where "x = image_info_of s st m" "y = image_info_of s st n" "m \<in> set (gs_images s)" "n \<in> set (gs_images s)" "im_id m = im_id n"
    by (auto simp: infos_def image_info_of_def)
  with map_unique [OF d, of n m] show "x = y" by simp
qed

lemma infos_ids: "ii_id ` infos s st P = im_id ` {m \<in> set (gs_images s). usable m \<and> P m}"
  by (simp add: infos_def image_image image_info_of_def)

lemma infos_outside: "{x \<in> infos s st P. ii_id x \<notin> J} = infos s st (\<lambda>m. P m \<and> im_id m \<notin> J)"
  by (auto simp: infos_def image_info_of_def)

lemma infos_cong: "(\<And>m. m \<in> set (gs_images s) \<Longrightarrow> usable m \<Longrightarrow> P m = Q m) \<Longrightarrow> infos s st P = infos s st Q"
  unfolding infos_def by (rule arg_cong [of _ _ "image (image_info_of s st)"]) auto

lemma infos_Un: "infos s st P \<union> infos s st Q = infos s st (\<lambda>m. P m \<or> Q m)"
  unfolding infos_def by blast

lemma infos_classes:
  "{image_info_of s st m | m st. m \<in> set (gs_images s) \<and> usable m \<and> C m = Some st} =
   infos s SharePublic (\<lambda>m. C m = Some SharePublic) \<union> (infos s ShareAccount (\<lambda>m. C m = Some ShareAccount) \<union>
     (infos s SharePrivate (\<lambda>m. C m = Some SharePrivate) \<union> infos s ShareUser (\<lambda>m. C m = Some ShareUser)))"
  (is "?L = ?R")
proof
  show "?L \<subseteq> ?R"
  proof
    fix x assume "x \<in> ?L"
    then obtain m st where "x = image_info_of s st m" "m \<in> set (gs_images s)" "usable m" "C m = Some st" by blast
    then show "x \<in> ?R" by (cases st) (auto simp: infos_def)
  qed
  show "?R \<subseteq> ?L" unfolding infos_def by blast
qed

text \<open>What each of the five sources adds.\<close>

lemma process_split: "processImageListResponse s ms st l = l @ processImageListResponse s ms st []"
  by (simp add: processImageListResponse_def)

lemma process_query: "set (processImageListResponse s (query_images None P s) st []) = infos s st P"
  by (auto simp: processImageListResponse_def query_images_def newest_images_def tbl_find_def infos_def usable_def)

lemma process_shared:
  assumes "distinct (map im_id (gs_images s))"
  shows "set (processImageListResponse s (shared_images g t s) st []) = infos s st (\<lambda>m. has_share t g (im_id m))"
proof -
  have f: "find_image i s = Some m \<longleftrightarrow> m \<in> set (gs_images s) \<and> im_id m = i" for i m
    using distinct_first [OF assms, of m] by (auto simp: find_image_def dest: tbl_first_Some)
  have "m \<in> set (shared_images g t s) \<and> usable m \<longleftrightarrow> m \<in> set (gs_images s) \<and> usable m \<and> has_share t g (im_id m)" for m
  proof
    assume "m \<in> set (shared_images g t s) \<and> usable m"
    then obtain i where i: "has_share t g i" "m = (case find_image i s of None \<Rightarrow> empty_image | Some m \<Rightarrow> m)" "usable m"
      by (auto simp: shared_images_def shared_items_iff)
    then have "find_image i s = Some m" by (auto simp: usable_def empty_image_def split: option.splits)
    with i f show "m \<in> set (gs_images s) \<and> usable m \<and> has_share t g (im_id m)" by auto
  next
    assume m: "m \<in> set (gs_images s) \<and> usable m \<and> has_share t g (im_id m)"
    then have "find_image (im_id m) s = Some m" using f by blast
    with m show "m \<in> set (shared_images g t s) \<and> usable m" by (force simp: shared_images_def shared_items_iff)
  qed
  then show ?thesis by (auto simp: processImageListResponse_def infos_def usable_def)
qed

definition no_image_faults :: "image_env \<Rightarrow> bool" where
  "no_image_faults e \<longleftrightarrow> (\<forall>n. gx_imagesErr e n = None \<and> gx_sharesErr e n = None)"

lemma newest_images_set [simp]: "set (newest_images f xs) = set xs"
  by (simp add: newest_images_def)

text \<open>Claim C28. The list of images is exact: with a database that answers, a user gets every usable image that is public, shared with his account, his own or shared with him, each
  once, under the first class that applies, newest first, and no other.
\<close>

theorem image_list_exact:
  assumes "distinct (map im_id (gs_images s))" and "no_image_faults e"
  shows "set (UserListImage e token s) = {image_info_of s st m | m st. m \<in> set (gs_images s) \<and> usable m \<and> image_class token s m = Some st} \<and>
    distinct (map ii_id (UserListImage e token s)) \<and> sorted (map (\<lambda>r. - ii_createdAt r) (UserListImage e token s))"
proof -
  let ?P1 = "im_isPublic" and ?P2 = "\<lambda>m. has_share (gs_accountShares s) 1 (im_id m)"
  let ?P3 = "\<lambda>m. has_share (gs_accountShares s) (jm_accountID token) (im_id m)" and ?P4 = "\<lambda>m. im_userID m = jm_userID token"
  let ?P5 = "\<lambda>m. has_share (gs_userShares s) (jm_userID token) (im_id m)"
  define A1 where "A1 = processImageListResponse s (query_images None ?P1 s) SharePublic []"
  define A2 where "A2 = processImageListResponse s (shared_images 1 (gs_accountShares s) s) SharePublic []"
  define A3 where "A3 = processImageListResponse s (shared_images (jm_accountID token) (gs_accountShares s) s) ShareAccount []"
  define A4 where "A4 = processImageListResponse s (query_images None ?P4 s) SharePrivate []"
  define A5 where "A5 = processImageListResponse s (shared_images (jm_userID token) (gs_userShares s) s) ShareUser []"
  have e: "gx_imagesErr e n = None" "gx_sharesErr e n = None" for n using assms(2) by (simp_all add: no_image_faults_def)
  have l: "UserListImage e token s = newest_images ii_createdAt (dedup_loop [] (A1 @ A2 @ A3 @ A4 @ A5))"
    unfolding UserListImage_def getImages_def Let_def deduplicate_def e getPublicImages_def getAccountSharedImages_def getUserSharedImages_def
    by (simp add: A1_def A2_def A3_def A4_def A5_def processImageListResponse_def)
  note sets = process_query [of s] process_shared [OF assms(1)]
  have A: "set A1 = infos s SharePublic ?P1" "set A2 = infos s SharePublic ?P2" "set A3 = infos s ShareAccount ?P3"
      "set A4 = infos s SharePrivate ?P4" "set A5 = infos s ShareUser ?P5"
    unfolding A1_def A2_def A3_def A4_def A5_def by (rule sets)+
  have d: "set (dedup_loop seen A) = {x \<in> infos s st P. ii_id x \<notin> set seen}" if "set A = infos s st P" for seen A st P
    using dedup_loop_set [of A seen] infos_inj [OF assms(1), of st P] that by simp
  let ?I = "\<lambda>P. im_id ` {m \<in> set (gs_images s). usable m \<and> P m}"
  have u: "im_id m \<in> ?I P \<longleftrightarrow> usable m \<and> P m" if "m \<in> set (gs_images s)" for m P
    using map_unique [OF assms(1)] that by blast
  have seen: "ii_id ` set A1 = ?I ?P1" "ii_id ` set A2 = ?I ?P2" "ii_id ` set A3 = ?I ?P3" "ii_id ` set A4 = ?I ?P4"
    unfolding A by (rule infos_ids)+
  have parts: "set (dedup_loop [] (A1 @ A2 @ A3 @ A4 @ A5)) =
      infos s SharePublic ?P1 \<union> {x \<in> infos s SharePublic ?P2. ii_id x \<notin> ?I ?P1} \<union>
      {x \<in> infos s ShareAccount ?P3. ii_id x \<notin> ?I ?P1 \<union> ?I ?P2} \<union>
      {x \<in> infos s SharePrivate ?P4. ii_id x \<notin> ?I ?P1 \<union> ?I ?P2 \<union> ?I ?P3} \<union>
      {x \<in> infos s ShareUser ?P5. ii_id x \<notin> ?I ?P1 \<union> ?I ?P2 \<union> ?I ?P3 \<union> ?I ?P4}"
    by (simp only: dedup_loop_append set_append set_map d [OF A(1)] d [OF A(2)] d [OF A(3)] d [OF A(4)] d [OF A(5)] seen) auto
  have "infos s SharePublic (\<lambda>m. image_class token s m = Some SharePublic) = infos s SharePublic ?P1 \<union> infos s SharePublic (\<lambda>m. ?P2 m \<and> im_id m \<notin> ?I ?P1)"
    "infos s ShareAccount (\<lambda>m. image_class token s m = Some ShareAccount) = infos s ShareAccount (\<lambda>m. ?P3 m \<and> im_id m \<notin> ?I ?P1 \<union> ?I ?P2)"
    "infos s SharePrivate (\<lambda>m. image_class token s m = Some SharePrivate) = infos s SharePrivate (\<lambda>m. ?P4 m \<and> im_id m \<notin> ?I ?P1 \<union> ?I ?P2 \<union> ?I ?P3)"
    "infos s ShareUser (\<lambda>m. image_class token s m = Some ShareUser) = infos s ShareUser (\<lambda>m. ?P5 m \<and> im_id m \<notin> ?I ?P1 \<union> ?I ?P2 \<union> ?I ?P3 \<union> ?I ?P4)"
    unfolding infos_Un by (rule infos_cong, simp add: u image_class_def)+
  then have "set (dedup_loop [] (A1 @ A2 @ A3 @ A4 @ A5)) = {image_info_of s st m | m st. m \<in> set (gs_images s) \<and> usable m \<and> image_class token s m = Some st}"
    unfolding infos_classes parts infos_outside by (simp only: Un_assoc)
  moreover have "distinct (map ii_id (dedup_loop [] (A1 @ A2 @ A3 @ A4 @ A5)))" using dedup_loop_ids by blast
  ultimately show ?thesis unfolding l by (simp add: newest_images_def distinct_map)
qed

section \<open>Changes by others\<close>

text \<open>The requests of a user in which the owner counts.\<close>

inductive own_image_step :: "jwt_message \<Rightarrow> 'q image_store \<Rightarrow> 'q image_store \<Rightarrow> bool" for token where
  oi_upload: "own_image_step token s (snd (UserUploadImage e token ureq s))"
| oi_delete: "own_image_step token s (snd (UserDeleteImageByIDList e token ids s))"
| oi_description: "own_image_step token s (snd (UserChangeImageDescription e token dreq s))"
| oi_type: "own_image_step token s (snd (UserChangeImageTaskType e token dreq s))"
| oi_arch: "own_image_step token s (snd (UserUpdateImageArch e token areq s))"

lemma update_images_keeps: "m \<in> set (gs_images s) \<Longrightarrow> \<not> P m \<Longrightarrow> m \<in> set (gs_images (update_images P f s))"
  by (auto simp: update_images_def tbl_updates_def image_iff)

lemma change_image_keeps: "m \<in> set (gs_images s) \<Longrightarrow> \<not> P m \<Longrightarrow> m \<in> set (gs_images (snd (change_image e P f x s)))"
  by (simp add: change_image_def update_images_keeps)

lemma own_image_step_keeps:
  assumes "own_image_step token s s1" "m \<in> set (gs_images s)" "im_userID m \<noteq> jm_userID token"
  shows "m \<in> set (gs_images s1)"
  using assms
proof cases
  case (oi_upload e ureq)
  then show ?thesis using assms by (auto simp: UserUploadImage_def Let_def split: option.split)
next
  case (oi_delete e ids)
  then show ?thesis using assms
    by (auto simp: UserDeleteImageByIDList_def delete_list_answer_def deleteImageByIDList_def delete_images_def tbl_delete_def in_reach_def split: option.split)
next
  case (oi_description e dreq)
  then show ?thesis using assms
    by (auto simp: UserChangeImageDescription_def changeImageDescription_def in_reach_def intro!: change_image_keeps split: option.split)
next
  case (oi_type e dreq)
  then show ?thesis using assms
    by (auto simp: UserChangeImageTaskType_def changeImageTaskType_def in_reach_def intro!: change_image_keeps split: option.split)
next
  case (oi_arch e areq)
  then show ?thesis using assms
    by (auto simp: UserUpdateImageArch_def updateImageArch_def in_reach_def intro!: update_images_keeps split: option.split)
qed

text \<open>
  The requests that look at the owner keep the images of others: after any sequence of uploads, deletions by list and changes of description, type and
  architecture by one user, every image of another user is as it was.
\<close>

theorem foreign_images_kept:
  assumes "(own_image_step token)\<^sup>*\<^sup>* s s1" and "m \<in> set (gs_images s)" and "im_userID m \<noteq> jm_userID token"
  shows "m \<in> set (gs_images s1)"
  using assms by (induction rule: rtranclp_induct) (auto intro: own_image_step_keeps)

text \<open>The other requests do not look at the owner: any user can make a private image of somebody else his own to see by sharing it with himself, overwrite its tags,
  and delete it by its number.
\<close>

theorem private_image_taken:
  fixes s :: "'q image_store"
  assumes "distinct (map im_id (gs_images s))" and "m \<in> set (gs_images s)" and "usable m" and "image_class token s m = None"
    and "find_user (jm_userID token) (gs_dir s) = Some u" and "no_image_faults e" and "no_share_faults (gx_share e)"
    and "gx_updateErr e = None" "gx_deleteErr e = None"
  shows "\<exists>s1. UserShareImage e (Some \<lparr>hq_ids = [jm_userID token], hq_imageID = im_id m, hq_type = ''user''\<rparr>) s = (Inr [], s1) \<and>
      (\<exists>r \<in> set (UserListImage e token s1). ii_id r = im_id m \<and> ii_shareStatus r = ShareUser) \<and>
      find_image (im_id m) (snd (UserChangeImageTags e (Some (im_id m, tags)) s1)) = Some (m\<lparr>im_tags := tags\<rparr>) \<and>
      find_image (im_id m) (snd (DeleteImageByID e (Some (im_id m)) s1)) = None"
proof -
  let ?s1 = "s\<lparr>gs_userShares := add_share (jm_userID token) (im_id m) (gs_userShares s)\<rparr>"
  have c: "\<not> im_isPublic m" "\<not> has_share (gs_accountShares s) 1 (im_id m)" "\<not> has_share (gs_accountShares s) (jm_accountID token) (im_id m)"
      "im_userID m \<noteq> jm_userID token" "\<not> has_share (gs_userShares s) (jm_userID token) (im_id m)"
    using assms(4) by (auto simp: image_class_def split: if_splits)
  have share: "UserShareImage e (Some \<lparr>hq_ids = [jm_userID token], hq_imageID = im_id m, hq_type = ''user''\<rparr>) s = (Inr [], ?s1)"
    using assms(5,7) c(5) by (simp add: UserShareImage_def createImageUserEntity_def share_one_def no_share_faults_def)
  have "image_class token ?s1 m = Some ShareUser" using c by (simp add: image_class_def)
  then have "image_info_of ?s1 ShareUser m \<in> set (UserListImage e token ?s1)"
    using image_list_exact [of ?s1 e token] assms(1,2,3,6) by fastforce
  then have list: "\<exists>r \<in> set (UserListImage e token ?s1). ii_id r = im_id m \<and> ii_shareStatus r = ShareUser"
    by (rule rev_bexI) (simp add: image_info_of_def)
  have "find_image (im_id m) s = Some m" unfolding find_image_def using distinct_first [OF assms(1,2)] .
  then have "find_image (im_id m) (snd (UserChangeImageTags e (Some (im_id m, tags)) ?s1)) = Some (m\<lparr>im_tags := tags\<rparr>)"
    using assms(8) by (simp add: UserChangeImageTags_def changeImageTags_def change_image_def update_images_def find_image_def tbl_first_updates_same)
  moreover have "find_image (im_id m) (snd (DeleteImageByID e (Some (im_id m)) ?s1)) = None"
    using assms(9) by (simp add: DeleteImageByID_def delete_images_def find_image_def tbl_first_None tbl_delete_def)
  ultimately show ?thesis using share list by blast
qed

text \<open>
  A share with an account can be stuck: an image is shared with an account, but while no user has the number of that account as his own, the
  share cannot be taken back, whoever asks, and the members of the account keep seeing the image.
\<close>

theorem account_share_stuck:
  assumes "UserShareImage e (Some \<lparr>hq_ids = [a], hq_imageID = im_id m, hq_type = ''account''\<rparr>) s = (Inr x, s1)"
    and "find_user a (gs_dir s) = None" and "distinct (map im_id (gs_images s))" and "m \<in> set (gs_images s)" and "usable m"
    and "no_image_faults f" and "jm_accountID token = a"
  shows "(\<exists>y. UserCancelShareImage e' (Some \<lparr>cq_target = a, cq_imageID = im_id m, cq_type = ''account''\<rparr>) s1 = (Inl y, s1)) \<and>
    (\<exists>r \<in> set (UserListImage f token s1). ii_id r = im_id m)"
proof -
  have s1: "s1 = s\<lparr>gs_accountShares := add_share a (im_id m) (gs_accountShares s)\<rparr>"
    using assms(1) by (auto simp: UserShareImage_def createImageAccountEntity_def share_one_def split: prod.splits option.splits if_splits)
  have "\<exists>st. image_class token s1 m = Some st" using assms(7) by (simp add: image_class_def s1)
  then obtain st where "image_class token s1 m = Some st" ..
  then have "image_info_of s1 st m \<in> set (UserListImage f token s1)"
    using image_list_exact [of s1 f token] assms(3-6) s1 by fastforce
  then have "\<exists>r \<in> set (UserListImage f token s1). ii_id r = im_id m" by (rule rev_bexI) (simp add: image_info_of_def)
  then show ?thesis using assms(2) by (simp add: UserCancelShareImage_def cancelShareImageWithAccount_def s1)
qed

text \<open>
  The switch of the administrator is a switch: pressed twice with a database that answers, it leaves the images and everybody's shares as they were.
\<close>

theorem public_switch_twice:
  assumes "gx_lookErr e = None" "gx_createErr e = None" "gx_deleteErr e = None" "gx_updateErr e = None"
    and "\<forall>m \<in> set (gs_images s). im_id m = i \<longrightarrow> im_isPublic m = has_share (gs_accountShares s) DefaultAccountID i"
  shows "gs_images (snd (AdminUpdateImagePublicStatus e (Some i) (snd (AdminUpdateImagePublicStatus e (Some i) s)))) = gs_images s \<and>
    has_share (gs_accountShares (snd (AdminUpdateImagePublicStatus e (Some i) (snd (AdminUpdateImagePublicStatus e (Some i) s))))) = has_share (gs_accountShares s)"
proof -
  have flags: "tbl_updates (\<lambda>m. im_id m = i) (im_isPublic_update (\<lambda>_. b)) (tbl_updates (\<lambda>m. im_id m = i) (im_isPublic_update (\<lambda>_. c)) t) = t"
    if "\<forall>m \<in> set t. im_id m = i \<longrightarrow> im_isPublic m = b" for b c and t :: "image table"
    using that by (induction t) auto
  have off: "has_share (t\<lparr>st_rows := tbl_delete (\<lambda>r. sh_item r = i \<and> sh_grantee r = 1) (st_rows t)\<rparr>) g j \<longleftrightarrow> has_share t g j \<and> \<not> (g = 1 \<and> j = i)" for t g j
    by (auto simp: has_share_iff share_key_def tbl_delete_def)
  show ?thesis
  proof (cases "has_share (gs_accountShares s) 1 i")
    case True
    with assms off show ?thesis
      by (simp add: AdminUpdateImagePublicStatus_def Let_def update_images_def flags) (auto simp: fun_eq_iff)
  next
    case False
    with assms off show ?thesis
      by (simp add: AdminUpdateImagePublicStatus_def Let_def update_images_def flags) (auto simp: fun_eq_iff)
  qed
qed

text \<open>
  The search for users an image could be shared with also finds those who have it: everybody whose name matches is in the answer, the caller and the
  ones who have the image included.
\<close>

theorem search_finds_granted:
  assumes "u \<in> set (dr_users (gs_dir s))" and "sql_like (''%'' @ name @ ''%'') (us_name u)" and "gx_sharesErr e 0 = None" "gx_userErr e = None"
  shows "\<exists>rs. UserSearchUngrantedUsers e token (Some (i, name)) s = Inr rs \<and> (us_id u, us_name u, us_nickname u) \<in> set rs"
  using assms by (auto simp: UserSearchUngrantedUsers_def Let_def tbl_find_def)

section \<open>Examples\<close>

definition quiet_images :: image_env where
  "quiet_images = \<lparr>gx_now = 9, gx_userErr = None, gx_accountErr = None, gx_imagesErr = (\<lambda>n. None), gx_sharesErr = (\<lambda>n. None),
     gx_share = \<lparr>sf_findErr = (\<lambda>n. None), sf_lookErr = (\<lambda>n. None), sf_writeErr = (\<lambda>n. None)\<rparr>, gx_lookErr = None, gx_createErr = None,
     gx_updateErr = None, gx_deleteErr = None\<rparr>"

definition sample_image :: image where
  "sample_image = \<lparr>im_id = 7, im_createdAt = 1, im_userID = 5, im_imageLink = ''reg/bob:1'', im_imagePackName = None, im_description = None,
     im_isPublic = False, im_taskType = ''custom'', im_imageSource = ImageUploadType, im_size = 0, im_tags = None, im_archs = None\<rparr>"

definition sample_images :: "int image_store" where
  "sample_images = \<lparr>gs_dir = sample_directory, gs_images = [sample_image], gs_seq = 7, gs_userShares = \<lparr>st_rows = [], st_seq = 0\<rparr>,
     gs_accountShares = \<lparr>st_rows = [], st_seq = 0\<rparr>, gs_cuda = [], gs_cudaSeq = 0\<rparr>"

lemmas sample_image_defs = quiet_images_def sample_image_def sample_images_def sample_message_def

lemma sample_images_facts:
  "distinct (map im_id (gs_images sample_images))" "sample_image \<in> set (gs_images sample_images)" "usable sample_image"
  "no_image_faults quiet_images" "no_share_faults (gx_share quiet_images)"
  "image_class (sample_message RoleUser) sample_images sample_image = None"
  by (simp_all add: usable_def no_image_faults_def no_share_faults_def image_class_def has_share_iff sample_image_defs)

lemma image_list_exact_witness:
  "set (UserListImage quiet_images ((sample_message RoleUser)\<lparr>jm_userID := 5\<rparr>) sample_images) = {image_info_of sample_images SharePrivate sample_image}"
proof -
  have "image_class ((sample_message RoleUser)\<lparr>jm_userID := 5\<rparr>) sample_images sample_image = Some SharePrivate"
    by (simp add: image_class_def has_share_iff sample_image_defs)
  moreover have "gs_images sample_images = [sample_image]" by (simp add: sample_images_def)
  ultimately show ?thesis
    using image_list_exact [OF sample_images_facts(1,4), of "(sample_message RoleUser)\<lparr>jm_userID := 5\<rparr>"] sample_images_facts(3) by auto
qed

lemma foreign_images_kept_witness:
  "sample_image \<in> set (gs_images (snd (UserDeleteImageByIDList quiet_images (sample_message RoleUser) (Some [7]) sample_images)))"
  by (rule foreign_images_kept [OF r_into_rtranclp sample_images_facts(2), OF oi_delete]) (simp add: sample_image_defs)

lemma private_image_taken_witness:
  "\<exists>s1. UserShareImage quiet_images (Some \<lparr>hq_ids = [4], hq_imageID = 7, hq_type = ''user''\<rparr>) sample_images = (Inr [], s1) \<and>
     find_image 7 (snd (DeleteImageByID quiet_images (Some 7) s1)) = None"
proof -
  obtain u where "find_user (jm_userID (sample_message RoleUser)) (gs_dir sample_images) = Some u"
    by (simp add: find_user_def tbl_first_Cons sample_images_def sample_directory_def sample_message_def sample_user_def)
  from private_image_taken [OF sample_images_facts(1,2,3,6) this sample_images_facts(4,5)] show ?thesis
    by (auto simp: quiet_images_def sample_image_def sample_message_def)
qed

lemma account_share_stuck_witness:
  "\<exists>s1 y. UserShareImage quiet_images (Some \<lparr>hq_ids = [1], hq_imageID = 7, hq_type = ''account''\<rparr>) sample_images = (Inr [], s1) \<and>
     UserCancelShareImage quiet_images (Some \<lparr>cq_target = 1, cq_imageID = 7, cq_type = ''account''\<rparr>) s1 = (Inl y, s1)"
proof -
  obtain s1 where s1: "UserShareImage quiet_images (Some \<lparr>hq_ids = [1], hq_imageID = im_id sample_image, hq_type = ''account''\<rparr>) sample_images = (Inr [], s1)"
    by (simp add: UserShareImage_def createImageAccountEntity_def share_one_def find_account_def tbl_first_Cons has_share_iff sample_image_defs sample_directory_def)
  have "find_user 1 (gs_dir sample_images) = None" by (simp add: find_user_def tbl_first_Cons sample_images_def sample_directory_def sample_user_def)
  from account_share_stuck [OF s1 this sample_images_facts(1,2,3,4), of "sample_message RoleUser" quiet_images] s1 show ?thesis
    by (auto simp: sample_image_def sample_message_def)
qed

lemma public_switch_twice_witness:
  "gs_images (snd (AdminUpdateImagePublicStatus quiet_images (Some 7) (snd (AdminUpdateImagePublicStatus quiet_images (Some 7) sample_images)))) = [sample_image]"
  using public_switch_twice [of quiet_images sample_images 7] by (simp add: has_share_iff sample_image_defs)

lemma search_finds_granted_witness:
  "\<exists>rs. UserSearchUngrantedUsers quiet_images (sample_message RoleUser) (Some (7, ''an'')) sample_images = Inr rs \<and> (4, ''ann'', ''ann'') \<in> set rs"
proof -
  have "sample_user 4 ''ann'' \<in> set (dr_users (gs_dir sample_images))" by (simp add: sample_images_def sample_directory_def)
  from search_finds_granted [OF this, of "''an''" quiet_images] show ?thesis by (simp add: sample_user_def quiet_images_def)
qed

end
