(* ===== verification/Volume_Mounts.thy ===== *)
theory Volume_Mounts imports Datasets begin

text \<open>
  The storage a job mounts, \<open>internal/handler/vcjob/util.go\<close>: every request names a dataset or an address in the public, the
  account's or the user's space; it is resolved to a path of the shared volume, through the claim that may be
  written or the one that may only be read.  The names of the claims and the prefixes are the configuration.
\<close>

section \<open>Requests, volumes and mounts\<close>

text \<open>The type of a request is a number: 1 a file, 2 a dataset; any other is treated as a file.\<close>

record volume_request =
  vr_type :: nat
  vr_datasetID :: nat
  vr_subPath :: string
  vr_mountPath :: string

abbreviation (input) FileType :: nat where "FileType \<equiv> 1"
abbreviation (input) DataType :: nat where "DataType \<equiv> 2"

datatype volume_source = EmptyDirMemory | ConfigMapSource string int | ClaimSource string

record volume =
  vo_name :: string
  vo_source :: volume_source

record volume_mount =
  mt_name :: string
  mt_subPath :: string
  mt_mountPath :: string
  mt_readOnly :: bool

record storage_config =
  sc_prefix :: storage_prefix
  sc_readWriteMany :: string
  sc_readOnlyMany :: "string option"

text \<open>The failures of the queries: the dataset, its shares, the membership in an account, the two owners of spaces.\<close>

record mount_env =
  me_storage :: storage_config
  me_datasetErr :: "nat \<Rightarrow> fault"
  me_accountSharesErr :: "nat \<Rightarrow> fault"
  me_memberErr :: "nat \<Rightarrow> fault"
  me_userShareErr :: "nat \<Rightarrow> fault"
  me_accountErr :: fault
  me_userErr :: fault

abbreviation (input) VolumeCache :: string where "VolumeCache \<equiv> ''crater-cache''"
abbreviation (input) StartScript :: string where "StartScript \<equiv> ''start-bash-script-volume''"

definition rwxPVCName :: "mount_env \<Rightarrow> string" where
  "rwxPVCName e = sc_readWriteMany (me_storage e)"

definition roxPVCName :: "mount_env \<Rightarrow> string" where
  "roxPVCName e = (case sc_readOnlyMany (me_storage e) of None \<Rightarrow> sc_readWriteMany (me_storage e) | Some n \<Rightarrow> n)"

section \<open>Resolving a request\<close>

definition isReadOnly :: "access_mode \<Rightarrow> bool" where
  "isReadOnly accessMode =
     (case accessMode of
        AccessModeRO \<Rightarrow> True
      | AccessModeAO \<Rightarrow> True
      | AccessModeRW \<Rightarrow> False
      | _ \<Rightarrow> True)"

text \<open>A membership that cannot be read counts as none.\<close>

definition GetSubPathByDatasetVolume :: "mount_env \<Rightarrow> nat \<Rightarrow> nat \<Rightarrow> 'q dataset_store \<Rightarrow> (string \<times> bool) result" where
  "GetSubPathByDatasetVolume e userID datasetID s =
     (case me_datasetErr e datasetID of
        Some x \<Rightarrow> Inl x
      | None \<Rightarrow> (case find_dataset datasetID s of
          None \<Rightarrow> Inl ''record not found''
        | Some dataset \<Rightarrow> (case me_accountSharesErr e datasetID of
            Some x \<Rightarrow> Inl x
          | None \<Rightarrow>
              if list_ex (\<lambda>a. me_memberErr e a = None \<and> find_member a userID (dst_dir s) \<noteq> None)
                   (item_grantees datasetID (dst_accountShares s))
              then Inr (ds_url dataset, ec_editable (ds_extra dataset))
              else (case me_userShareErr e datasetID of
                  Some x \<Rightarrow> Inl x
                | None \<Rightarrow> if has_share (dst_userShares s) userID datasetID
                    then Inr (ds_url dataset, ec_editable (ds_extra dataset)) else Inl ''record not found''))))"

definition mount_at :: "mount_env \<Rightarrow> bool \<Rightarrow> string \<Rightarrow> string \<Rightarrow> volume_mount" where
  "mount_at e ro subPath mountPath =
     \<lparr>mt_name = (if ro then roxPVCName e else rwxPVCName e), mt_subPath = subPath, mt_mountPath = mountPath, mt_readOnly = ro\<rparr>"

definition resolveVolumeMount :: "mount_env \<Rightarrow> jwt_message \<Rightarrow> 'q dataset_store \<Rightarrow> volume_request \<Rightarrow> volume_mount result" where
  "resolveVolumeMount e token s vm =
     (let prefix = sc_prefix (me_storage e) in
      if vr_type vm = DataType then
        (case GetSubPathByDatasetVolume e (jm_userID token) (vr_datasetID vm) s of
           Inl x \<Rightarrow> Inl x
         | Inr (datasetPath, editable) \<Rightarrow> Inr (mount_at e (\<not> editable) datasetPath (vr_mountPath vm)))
      else if has_prefix ''public'' (vr_subPath vm) then
        Inr (mount_at e (isReadOnly (jm_publicAccessMode token))
               (path_clean (sp_public prefix @ trim_prefix ''public'' (vr_subPath vm))) (vr_mountPath vm))
      else if has_prefix ''account'' (vr_subPath vm) then
        (case me_accountErr e of
           Some x \<Rightarrow> Inl x
         | None \<Rightarrow> (case find_account (jm_accountID token) (dst_dir s) of
             None \<Rightarrow> Inl ''record not found''
           | Some account \<Rightarrow>
               Inr (mount_at e (isReadOnly (jm_accountAccessMode token))
                 (path_clean (sp_account prefix @ ''/'' @ ac_space account @ trim_prefix ''account'' (vr_subPath vm))) (vr_mountPath vm))))
      else if has_prefix ''user'' (vr_subPath vm) then
        (case me_userErr e of
           Some x \<Rightarrow> Inl x
         | None \<Rightarrow> (case find_user (jm_userID token) (dst_dir s) of
             None \<Rightarrow> Inl ''record not found''
           | Some user \<Rightarrow>
               Inr (mount_at e False
                 (path_clean (sp_user prefix @ ''/'' @ us_space user @ trim_prefix ''user'' (vr_subPath vm))) (vr_mountPath vm))))
      else Inl (''invalid mount path format: '' @ vr_subPath vm))"

section \<open>The volumes of a pod\<close>

definition createVolume :: "string \<Rightarrow> volume" where
  "createVolume volumeName = \<lparr>vo_name = volumeName, vo_source = ClaimSource volumeName\<rparr>"

text \<open>The loop over the requests: the map of the claims already added is the list of their names.\<close>

fun add_mounts ::
  "mount_env \<Rightarrow> jwt_message \<Rightarrow> 'q dataset_store \<Rightarrow> volume_request list \<Rightarrow> string list \<Rightarrow> volume list \<Rightarrow> volume_mount list \<Rightarrow>
   (volume list \<times> volume_mount list) result" where
  "add_mounts e token s [] pvcMap pvc volumeMounts = Inr (pvc, volumeMounts)"
| "add_mounts e token s (vm # volumes) pvcMap pvc volumeMounts =
     (case resolveVolumeMount e token s vm of
        Inl x \<Rightarrow> Inl x
      | Inr m \<Rightarrow>
          if mt_name m \<in> set pvcMap then add_mounts e token s volumes pvcMap pvc (volumeMounts @ [m])
          else add_mounts e token s volumes (mt_name m # pvcMap) (pvc @ [createVolume (mt_name m)]) (volumeMounts @ [m]))"

definition GenerateVolumeMounts ::
  "mount_env \<Rightarrow> volume_request list \<Rightarrow> jwt_message \<Rightarrow> 'q dataset_store \<Rightarrow> (volume list \<times> volume_mount list) result" where
  "GenerateVolumeMounts e volumes token s =
     (case add_mounts e token s volumes []
         [\<lparr>vo_name = VolumeCache, vo_source = EmptyDirMemory\<rparr>]
         [\<lparr>mt_name = VolumeCache, mt_subPath = [], mt_mountPath = ''/dev/shm'', mt_readOnly = False\<rparr>] of
        Inl x \<Rightarrow> Inl x
      | Inr (pvc, volumeMounts) \<Rightarrow>
          Inr (pvc @ [\<lparr>vo_name = StartScript, vo_source = ConfigMapSource ''custom-start-configmap'' 493\<rparr>],
               volumeMounts @ [\<lparr>mt_name = StartScript, mt_subPath = ''start.sh'', mt_mountPath = ''/crater-start.sh'', mt_readOnly = True\<rparr>]))"

section \<open>Plain paths\<close>

definition plain_path :: "string \<Rightarrow> bool" where
  "plain_path p \<longleftrightarrow> (\<forall>x \<in> set (split_on CHR ''/'' p). plain_part x)"

lemma join_parts_Cons: "ps \<noteq> [] \<Longrightarrow> join_parts (p # ps) = p @ CHR ''/'' # join_parts ps"
  by (cases ps) simp_all

lemma join_head: "join_parts ((c # y) # ys) = c # join_parts (y # ys)"
  by (cases ys) simp_all

lemma join_split: "join_parts (split_on CHR ''/'' p) = p"
proof (induction p)
  case (Cons c p)
  obtain y ys where s: "split_on CHR ''/'' p = y # ys" by (meson list.exhaust split_on_not_Nil)
  with Cons show ?case by (cases "c = CHR ''/''") (simp_all add: join_parts_Cons join_head)
qed simp

lemma clean_parts_plain: "\<forall>x \<in> set ps. plain_part x \<Longrightarrow> clean_parts r ps out = rev out @ ps"
proof (induction ps arbitrary: out)
  case (Cons p ps)
  then have "p \<noteq> [] \<and> p \<noteq> ''.'' \<and> p \<noteq> ''..''" by (simp add: plain_part_def)
  then show ?case using Cons.IH [of "p # out"] Cons.prems by simp
qed simp

lemma plain_path_start: "plain_path p \<Longrightarrow> p \<noteq> [] \<and> hd p \<noteq> CHR ''/''"
proof (cases p)
  case (Cons c q)
  assume "plain_path p"
  then have "c \<noteq> CHR ''/''" by (auto simp: Cons plain_path_def plain_part_def split: if_splits)
  with Cons show ?thesis by simp
qed (simp add: plain_path_def plain_part_def)

lemma path_clean_plain: "plain_path p \<Longrightarrow> path_clean p = p"
  using plain_path_start [of p] clean_parts_plain [of "split_on CHR ''/'' p" False "[]"]
  by (simp add: path_clean_def plain_path_def join_split)

text \<open>A step down and up again at the beginning of a path.\<close>

lemma path_clean_back_first:
  assumes "plain_part x" and "q \<noteq> []" and "hd q \<noteq> CHR ''/''"
  shows "path_clean (x @ ''/../'' @ q) = path_clean q"
proof -
  have "hd (x @ ''/../'' @ q) \<noteq> CHR ''/''" using assms(1) by (cases x) (auto simp: plain_part_def)
  moreover have "split_on CHR ''/'' (x @ ''/../'' @ q) = x # ''..'' # split_on CHR ''/'' q"
    using assms(1) split_on_append [of "CHR ''/''" x "''../'' @ q"] split_on_append [of "CHR ''/''" "''..''" q]
    by (simp add: plain_part_def)
  ultimately show ?thesis
    using assms clean_parts_back [OF assms(1), of False "[]"] by (simp add: path_clean_def)
qed

section \<open>Which storage a job gets\<close>

text \<open>The three spaces of a token: where they lie, and whether they may only be read.\<close>

definition space_of :: "mount_env \<Rightarrow> jwt_message \<Rightarrow> 'q dataset_store \<Rightarrow> string \<Rightarrow> (string \<times> bool) option" where
  "space_of e token s w =
     (let prefix = sc_prefix (me_storage e) in
      if w = ''public'' then Some (sp_public prefix, jm_publicAccessMode token \<noteq> AccessModeRW)
      else if w = ''account'' then
        map_option (\<lambda>a. (sp_account prefix @ ''/'' @ ac_space a, jm_accountAccessMode token \<noteq> AccessModeRW)) (find_account (jm_accountID token) (dst_dir s))
      else if w = ''user'' then map_option (\<lambda>u. (sp_user prefix @ ''/'' @ us_space u, False)) (find_user (jm_userID token) (dst_dir s))
      else None)"

definition mounts_answered :: "mount_env \<Rightarrow> bool" where
  "mounts_answered e \<longleftrightarrow> (\<forall>i. me_datasetErr e i = None \<and> me_accountSharesErr e i = None \<and> me_memberErr e i = None \<and> me_userShareErr e i = None) \<and>
     me_accountErr e = None \<and> me_userErr e = None"

lemma isReadOnly_iff: "isReadOnly m \<longleftrightarrow> m \<noteq> AccessModeRW"
  by (cases m) (simp_all add: isReadOnly_def)

text \<open>An address in a space is that space's path with the rest of the address.\<close>

lemma resolve_in_space:
  assumes "vr_type vm \<noteq> DataType" and "vr_subPath vm = w @ rest" and "space_of e token s w = Some (base, ro)" and "mounts_answered e"
  shows "resolveVolumeMount e token s vm = Inr (mount_at e ro (path_clean (base @ rest)) (vr_mountPath vm))"
  using assms
  by (auto simp: resolveVolumeMount_def space_of_def isReadOnly_iff has_prefix_def trim_prefix_def mounts_answered_def Let_def split: if_splits)

text \<open>Claim C12. A plain address stays in its space: it is mounted at the path of the space with the rest of the address below it, to be read
  only exactly when the access mode of the space is not read-write, and then through the claim that can only be read.
\<close>

theorem mount_stays_in_space:
  assumes "vr_type vm \<noteq> DataType" and "vr_subPath vm = w @ rest" and "rest = [] \<or> hd rest = CHR ''/''"
    and "space_of e token s w = Some (base, ro)" and "plain_path (base @ rest)" and "mounts_answered e"
  shows "resolveVolumeMount e token s vm =
    Inr \<lparr>mt_name = (if ro then roxPVCName e else rwxPVCName e), mt_subPath = base @ rest, mt_mountPath = vr_mountPath vm, mt_readOnly = ro\<rparr>"
  using resolve_in_space [OF assms(1,2,4,6)] path_clean_plain [OF assms(5)] by (simp add: mount_at_def)

definition file_request :: "string \<Rightarrow> string \<Rightarrow> volume_request" where
  "file_request a m = \<lparr>vr_type = FileType, vr_datasetID = 0, vr_subPath = a, vr_mountPath = m\<rparr>"

lemma resolve_file:
  assumes "space_of e token s w = Some (base, ro)" and "mounts_answered e"
  shows "resolveVolumeMount e token s (file_request (w @ rest) m) = Inr (mount_at e ro (path_clean (base @ rest)) m)"
  using resolve_in_space [OF _ _ assms, of "file_request (w @ rest) m" rest] by (simp add: file_request_def)

text \<open>Claim C16. The home directory is a way out of every restriction: an address that leaves it upwards, or that continues its name,
  mounts the home of another user, to be written like the owner's own mount, and an address with two steps up mounts the
  public space to be written although the token may only read it.
\<close>

theorem user_mount_leaves_home:
  assumes "find_user (jm_userID token) (dst_dir s) = Some mine" and "find_user (jm_userID other) (dst_dir s) = Some theirs"
    and "plain_part (us_space mine)" and "plain_part (sp_user (sc_prefix (me_storage e)))"
    and "sp_public (sc_prefix (me_storage e)) \<noteq> []" "hd (sp_public (sc_prefix (me_storage e))) \<noteq> CHR ''/''"
    and "mounts_answered e"
  shows "\<exists>home pub. resolveVolumeMount e other s (file_request ''user'' m) = Inr home \<and> \<not> mt_readOnly home \<and>
    resolveVolumeMount e token s (file_request (''user/../'' @ us_space theirs) m) = Inr home \<and>
    (us_space theirs = us_space mine @ suffix \<longrightarrow> resolveVolumeMount e token s (file_request (''user'' @ suffix) m) = Inr home) \<and>
    resolveVolumeMount e token s (file_request (''user/../../'' @ sp_public (sc_prefix (me_storage e))) m) = Inr pub \<and> \<not> mt_readOnly pub \<and>
    resolveVolumeMount e token s (file_request ''public'' m) = Inr (mount_at e (jm_publicAccessMode token \<noteq> AccessModeRW) (mt_subPath pub) m)"
proof -
  let ?p = "sc_prefix (me_storage e)" let ?u = "sp_user ?p @ ''/''"
  let ?home = "mount_at e False (path_clean (?u @ us_space theirs)) m" let ?pub = "mount_at e False (path_clean (sp_public ?p)) m"
  have space: "space_of e token s ''user'' = Some (?u @ us_space mine, False)" "space_of e other s ''user'' = Some (?u @ us_space theirs, False)"
    "space_of e token s ''public'' = Some (sp_public ?p, jm_publicAccessMode token \<noteq> AccessModeRW)"
    using assms(1,2) by (simp_all add: space_of_def)
  note user = resolve_file [OF space(1) assms(7), of _ m] and home = resolve_file [OF space(2) assms(7), of "[]" m]
    and pub = resolve_file [OF space(3) assms(7), of "[]" m]
  have up: "path_clean (?u @ us_space mine @ ''/../'' @ q) = path_clean (?u @ q)" for q
    using path_clean_back [OF assms(3), of "sp_user ?p" q] by simp
  have "path_clean (?u @ ''../'' @ sp_public ?p) = path_clean (sp_public ?p)"
    using path_clean_back_first [OF assms(4-6)] by simp
  then have "resolveVolumeMount e token s (file_request (''user/../../'' @ sp_public ?p) m) = Inr ?pub"
    using user [of "''/../../'' @ sp_public ?p"] up [of "''../'' @ sp_public ?p"] by simp
  moreover have "resolveVolumeMount e token s (file_request (''user/../'' @ us_space theirs) m) = Inr ?home"
    using user [of "''/../'' @ us_space theirs"] up by simp
  moreover have "us_space theirs = us_space mine @ suffix \<Longrightarrow> resolveVolumeMount e token s (file_request (''user'' @ suffix) m) = Inr ?home"
    using user [of suffix] by simp
  ultimately show ?thesis using home pub by (intro exI [of _ ?home] exI [of _ ?pub]) (simp add: mount_at_def)
qed

lemma item_grantees_iff: "g \<in> set (item_grantees i t) \<longleftrightarrow> has_share t g i"
  by (auto simp: item_grantees_def tbl_find_def has_share_iff share_key_def)

text \<open>A dataset is mounted exactly for those it is shared with, directly or through an account they are a member of, and it can be
  written exactly when it is marked editable.
\<close>

theorem dataset_mount_exact:
  assumes "vr_type vm = DataType" and "mounts_answered e"
  shows "resolveVolumeMount e token s vm = Inr m \<longleftrightarrow>
    (\<exists>d. find_dataset (vr_datasetID vm) s = Some d \<and>
       (has_share (dst_userShares s) (jm_userID token) (vr_datasetID vm) \<or>
        (\<exists>a. has_share (dst_accountShares s) a (vr_datasetID vm) \<and> find_member a (jm_userID token) (dst_dir s) \<noteq> None)) \<and>
       m = mount_at e (\<not> ec_editable (ds_extra d)) (ds_url d) (vr_mountPath vm))"
  using assms
  by (auto simp: resolveVolumeMount_def GetSubPathByDatasetVolume_def mounts_answered_def list_ex_iff item_grantees_iff
      split: option.splits if_splits)

section \<open>Volumes and mounts fit together\<close>

lemma resolved_claim: "resolveVolumeMount e token s vm = Inr m \<Longrightarrow> mt_name m = (if mt_readOnly m then roxPVCName e else rwxPVCName e)"
  by (auto simp: resolveVolumeMount_def mount_at_def Let_def split: if_splits sum.splits option.splits prod.splits)

lemma add_mounts_Inr:
  "add_mounts e token s vs P pvc ms = Inr (pvc1, ms1) \<Longrightarrow>
   \<exists>new ms2. pvc1 = pvc @ map createVolume new \<and> ms1 = ms @ ms2 \<and> list_all2 (\<lambda>v m. resolveVolumeMount e token s v = Inr m) vs ms2 \<and>
     distinct new \<and> set new \<inter> set P = {} \<and> set new \<union> set P = set (map mt_name ms2) \<union> set P"
proof (induction vs arbitrary: P pvc ms)
  case (Cons v vs)
  then obtain m where m: "resolveVolumeMount e token s v = Inr m" by (auto split: sum.splits)
  show ?case
  proof (cases "mt_name m \<in> set P")
    case True
    with Cons.prems m have "add_mounts e token s vs P pvc (ms @ [m]) = Inr (pvc1, ms1)" by simp
    from Cons.IH [OF this] obtain new ms2 where n: "pvc1 = pvc @ map createVolume new" "ms1 = (ms @ [m]) @ ms2"
      "list_all2 (\<lambda>v m. resolveVolumeMount e token s v = Inr m) vs ms2" "distinct new" "set new \<inter> set P = {}"
      "set new \<union> set P = set (map mt_name ms2) \<union> set P" by blast
    with True m show ?thesis by (intro exI [of _ new] exI [of _ "m # ms2"]) auto
  next
    case False
    with Cons.prems m have "add_mounts e token s vs (mt_name m # P) (pvc @ [createVolume (mt_name m)]) (ms @ [m]) = Inr (pvc1, ms1)" by simp
    from Cons.IH [OF this] obtain new ms2 where n: "pvc1 = (pvc @ [createVolume (mt_name m)]) @ map createVolume new" "ms1 = (ms @ [m]) @ ms2"
      "list_all2 (\<lambda>v m. resolveVolumeMount e token s v = Inr m) vs ms2" "distinct new" "set new \<inter> set (mt_name m # P) = {}"
      "set new \<union> set (mt_name m # P) = set (map mt_name ms2) \<union> set (mt_name m # P)" by blast
    with False m show ?thesis by (intro exI [of _ "mt_name m # new"] exI [of _ "m # ms2"]) auto
  qed
qed auto

lemma generated_parts:
  assumes "GenerateVolumeMounts e vs token s = Inr (volumes, mounts)"
  shows "\<exists>new ms2. map vo_name volumes = VolumeCache # new @ [StartScript] \<and>
    mt_name ` set mounts = {VolumeCache, StartScript} \<union> mt_name ` set ms2 \<and> butlast (tl mounts) = ms2 \<and>
    list_all2 (\<lambda>v m. resolveVolumeMount e token s v = Inr m) vs ms2 \<and> distinct new \<and> set new = mt_name ` set ms2"
proof -
  let ?cache = "\<lparr>vo_name = VolumeCache, vo_source = EmptyDirMemory\<rparr>"
  let ?shm = "\<lparr>mt_name = VolumeCache, mt_subPath = [], mt_mountPath = ''/dev/shm'', mt_readOnly = False\<rparr>"
  obtain pvc1 ms1 where a: "add_mounts e token s vs [] [?cache] [?shm] = Inr (pvc1, ms1)"
    using assms by (auto simp: GenerateVolumeMounts_def split: sum.splits)
  obtain new ms2 where n: "pvc1 = [?cache] @ map createVolume new" "ms1 = [?shm] @ ms2" "distinct new" "set new \<union> set [] = set (map mt_name ms2) \<union> set []"
    "list_all2 (\<lambda>v m. resolveVolumeMount e token s v = Inr m) vs ms2"
    using add_mounts_Inr [OF a] by blast
  obtain script sm where v: "volumes = pvc1 @ [script]" "mounts = ms1 @ [sm]" "vo_name script = StartScript" "mt_name sm = StartScript"
    using assms a by (auto simp: GenerateVolumeMounts_def)
  have "map vo_name (map createVolume new) = new" by (induction new) (simp_all add: createVolume_def)
  then have "map vo_name volumes = VolumeCache # new @ [StartScript]" using n(1) v(1,3) by simp
  moreover have "mt_name ` set mounts = {VolumeCache, StartScript} \<union> mt_name ` set ms2" "butlast (tl mounts) = ms2"
    using n(2) v(2,4) by auto
  moreover have "set new = mt_name ` set ms2" using n(4) by simp
  moreover note n(3,5)
  ultimately show ?thesis by (intro exI [of _ new] exI [of _ ms2] conjI)
qed

text \<open>Claim C13. The volumes of a pod and its mounts fit together, which is what the cluster asks of a pod: no two volumes share a name,
  and exactly the volumes that exist are mounted.  There is one mount per request, in order, between the two every pod has.
\<close>

theorem volumes_match_mounts:
  assumes "GenerateVolumeMounts e vs token s = Inr (volumes, mounts)"
    and "{rwxPVCName e, roxPVCName e} \<inter> {VolumeCache, StartScript} = {}"
  shows "distinct (map vo_name volumes) \<and> mt_name ` set mounts = vo_name ` set volumes \<and>
    list_all2 (\<lambda>v m. resolveVolumeMount e token s v = Inr m) vs (butlast (tl mounts)) \<and>
    (\<forall>m \<in> set (butlast (tl mounts)). mt_name m = (if mt_readOnly m then roxPVCName e else rwxPVCName e))"
proof -
  obtain new ms2 where n: "map vo_name volumes = VolumeCache # new @ [StartScript]" "mt_name ` set mounts = {VolumeCache, StartScript} \<union> mt_name ` set ms2"
    "butlast (tl mounts) = ms2" "list_all2 (\<lambda>v m. resolveVolumeMount e token s v = Inr m) vs ms2" "distinct new" "set new = mt_name ` set ms2"
    using generated_parts [OF assms(1)] by metis
  have claims: "\<forall>m \<in> set ms2. mt_name m = (if mt_readOnly m then roxPVCName e else rwxPVCName e)"
    using n(4) resolved_claim by (fastforce simp: list_all2_conv_all_nth in_set_conv_nth)
  then have used: "\<And>x. x \<in> set new \<Longrightarrow> x = rwxPVCName e \<or> x = roxPVCName e" using n(6) by auto
  have "VolumeCache \<noteq> rwxPVCName e" "VolumeCache \<noteq> roxPVCName e" "StartScript \<noteq> rwxPVCName e" "StartScript \<noteq> roxPVCName e"
    using assms(2) by auto
  then have free: "VolumeCache \<notin> set new" "StartScript \<notin> set new" using used by metis+
  have "vo_name ` set volumes = set (map vo_name volumes)" by simp
  also have "\<dots> = {VolumeCache, StartScript} \<union> set new" unfolding n(1) by auto
  finally have "mt_name ` set mounts = vo_name ` set volumes" using n(2,6) by simp
  moreover have "distinct (map vo_name volumes)" unfolding n(1) using free n(5) by simp
  ultimately show ?thesis using n(3,4) claims by simp
qed

section \<open>Examples\<close>

definition quiet_mounts :: mount_env where
  "quiet_mounts = \<lparr>me_storage = \<lparr>sc_prefix = \<lparr>sp_public = ''public'', sp_account = ''accounts'', sp_user = ''users''\<rparr>,
     sc_readWriteMany = ''crater-rw'', sc_readOnlyMany = Some ''crater-ro''\<rparr>, me_datasetErr = (\<lambda>n. None), me_accountSharesErr = (\<lambda>n. None),
     me_memberErr = (\<lambda>n. None), me_userShareErr = (\<lambda>n. None), me_accountErr = None, me_userErr = None\<rparr>"

lemma quiet_mounts_answered: "mounts_answered quiet_mounts"
  by (simp add: mounts_answered_def quiet_mounts_def)

lemma quiet_claims: "rwxPVCName quiet_mounts = ''crater-rw''" "roxPVCName quiet_mounts = ''crater-ro''"
  by (simp_all add: rwxPVCName_def roxPVCName_def quiet_mounts_def)

lemma sample_spaces:
  "find_user 4 (dst_dir sample_datasets) = Some (sample_user 4 ''ann'')" "find_user 5 (dst_dir sample_datasets) = Some (sample_user 5 ''bob'')"
  "space_of quiet_mounts (sample_message RoleUser) sample_datasets ''account'' = Some (''accounts/d'', True)"
  by (simp_all add: find_user_def find_account_def space_of_def tbl_first_Cons sample_datasets_def sample_directory_def sample_user_def
      sample_message_def quiet_mounts_def)

lemma mount_stays_in_space_witness:
  "resolveVolumeMount quiet_mounts (sample_message RoleUser) sample_datasets (file_request ''account/data'' ''/data'') =
     Inr \<lparr>mt_name = ''crater-ro'', mt_subPath = ''accounts/d/data'', mt_mountPath = ''/data'', mt_readOnly = True\<rparr>"
  using mount_stays_in_space [of "file_request ''account/data'' ''/data''" "''account''" "''/data''" quiet_mounts, OF _ _ _ sample_spaces(3) _ quiet_mounts_answered]
  by (simp add: file_request_def plain_path_def plain_part_def quiet_mounts_def roxPVCName_def)

lemma user_mount_leaves_home_witness:
  "\<exists>home. resolveVolumeMount quiet_mounts (sample_message RoleUser) sample_datasets (file_request ''user/../bob'' ''/x'') = Inr home \<and> \<not> mt_readOnly home \<and>
     resolveVolumeMount quiet_mounts ((sample_message RoleUser)\<lparr>jm_userID := 5\<rparr>) sample_datasets (file_request ''user'' ''/x'') = Inr home"
  using user_mount_leaves_home [of "sample_message RoleUser" sample_datasets _ "(sample_message RoleUser)\<lparr>jm_userID := 5\<rparr>" _ quiet_mounts "''/x''",
      OF _ _ _ _ _ _ quiet_mounts_answered, of "sample_user 4 ''ann''" "sample_user 5 ''bob''"] sample_spaces(1,2)
  by (auto simp: sample_message_def sample_user_def plain_part_def quiet_mounts_def)

lemma sample_data: "find_dataset 3 sample_datasets = Some sample_dataset" "has_share (dst_userShares sample_datasets) 4 3"
  by (simp_all add: find_dataset_def tbl_first_Cons has_share_iff share_key_def sample_datasets_def sample_dataset_def)

definition data_request :: volume_request where
  "data_request = \<lparr>vr_type = DataType, vr_datasetID = 3, vr_subPath = [], vr_mountPath = ''/cats''\<rparr>"

lemma dataset_mount_exact_witness:
  "resolveVolumeMount quiet_mounts (sample_message RoleUser) sample_datasets data_request =
     Inr \<lparr>mt_name = ''crater-rw'', mt_subPath = ''usr/ann/cats'', mt_mountPath = ''/cats'', mt_readOnly = False\<rparr>"
  using dataset_mount_exact [of data_request quiet_mounts "sample_message RoleUser" sample_datasets, OF _ quiet_mounts_answered] sample_data
  by (simp add: data_request_def mount_at_def quiet_claims sample_dataset_def sample_message_def)

lemma sample_resolved_data:
  "resolveVolumeMount quiet_mounts (sample_message RoleUser) sample_datasets data_request = Inr (mount_at quiet_mounts False ''usr/ann/cats'' ''/cats'')"
  using quiet_mounts_answered sample_data
  by (simp add: resolveVolumeMount_def GetSubPathByDatasetVolume_def mounts_answered_def data_request_def sample_message_def sample_dataset_def)

lemma sample_resolved_file:
  "resolveVolumeMount quiet_mounts (sample_message RoleUser) sample_datasets (file_request ''account/data'' ''/data'') =
     Inr (mount_at quiet_mounts True (path_clean ''accounts/d/data'') ''/data'')"
  using resolve_file [OF sample_spaces(3) quiet_mounts_answered, of "''/data''" "''/data''"] by simp

lemma volumes_match_mounts_witness:
  "\<exists>volumes mounts. GenerateVolumeMounts quiet_mounts [data_request, file_request ''account/data'' ''/data''] (sample_message RoleUser) sample_datasets = Inr (volumes, mounts) \<and>
     distinct (map vo_name volumes) \<and> length volumes = 4"
proof -
  obtain volumes mounts where g: "GenerateVolumeMounts quiet_mounts [data_request, file_request ''account/data'' ''/data''] (sample_message RoleUser) sample_datasets = Inr (volumes, mounts)"
    "length volumes = 4"
    by (simp add: GenerateVolumeMounts_def sample_resolved_data sample_resolved_file mount_at_def quiet_claims)
  have "{rwxPVCName quiet_mounts, roxPVCName quiet_mounts} \<inter> {VolumeCache, StartScript} = {}"
    by (simp add: quiet_claims)
  from volumes_match_mounts [OF g(1) this] g show ?thesis by (intro exI [of _ volumes] exI [of _ mounts]) simp
qed

end
