(* ===== verification/Pod_Specs.thy ===== *)
theory Pod_Specs imports Volume_Mounts Vcjob_Reconciler begin

text \<open>
  How a job's pods are placed and described, \<open>internal/handler/vcjob/util.go\<close> with \<open>GenerateCustomPodSpec\<close> of
  \<open>custom.go\<close>: node affinity from the user's selectors, the GPUs and the architectures of the image, the toleration of the
  account's nodes, the environment, the labels, and the pod specification itself.  How the cluster reads one requirement
  on the labels of a node is a parameter.
\<close>

section \<open>Placement\<close>

record node_requirement =
  nr_key :: string
  nr_operator :: string
  nr_values :: "string list"

text \<open>
  What the backend sets of \<open>v1.Affinity\<close>: the required terms of the node selector and the weighted preferences, each a list
  of requirements.
\<close>

record node_affinity =
  na_required :: "node_requirement list list option"
  na_preferred :: "(int \<times> node_requirement list) list"

record affinity =
  af_nodeAffinity :: "node_affinity option"

record toleration =
  tl_key :: string
  tl_operator :: string
  tl_value :: string
  tl_effect :: string

definition GenerateTaintTolerationsForAccount :: "jwt_message \<Rightarrow> toleration list" where
  "GenerateTaintTolerationsForAccount token =
     (if jm_accountID token = DefaultAccountID then []
      else [\<lparr>tl_key = ''crater.raids.io/account'', tl_operator = ''Equal'', tl_value = jm_accountName token, tl_effect = ''NoSchedule''\<rparr>])"

record image_base_info =
  ib_imageLink :: string
  ib_archs :: "string list"

datatype architecture_type = ArchTypeAMD | ArchTypeARM | ArchTypeMulti

definition arch_step :: "string \<Rightarrow> bool \<times> bool \<Rightarrow> bool \<times> bool" where
  "arch_step arch flags =
     (let a = to_lower arch; (hasARM, hasAMD) = flags in
      if str_contains a ''arm'' then (True, hasAMD)
      else if str_contains a ''amd'' \<or> str_contains a ''x86'' then (hasARM, True)
      else (hasARM, hasAMD))"

definition DetermineArchitectureType :: "string list \<Rightarrow> architecture_type" where
  "DetermineArchitectureType archs =
     (let (hasARM, hasAMD) = fold arch_step archs (False, False) in
      if hasARM \<and> hasAMD then ArchTypeMulti else if hasARM then ArchTypeARM else ArchTypeAMD)"

definition arch_selector :: "architecture_type \<Rightarrow> node_requirement" where
  "arch_selector t = \<lparr>nr_key = ''kubernetes.io/arch'', nr_operator = ''In'', nr_values = [if t = ArchTypeARM then ''arm64'' else ''amd64'']\<rparr>"

text \<open>\<open>None\<close> is the null pointer, of the whole affinity and of its parts.\<close>

definition GenerateArchitectureNodeAffinity :: "image_base_info \<Rightarrow> affinity option \<Rightarrow> affinity option" where
  "GenerateArchitectureNodeAffinity imageInfo baseAffinity =
     (let archType = DetermineArchitectureType (ib_archs imageInfo) in
      if archType = ArchTypeMulti then baseAffinity
      else
        (let sel = arch_selector archType;
             newAffinity = (case baseAffinity of None \<Rightarrow> \<lparr>af_nodeAffinity = None\<rparr> | Some a \<Rightarrow> a);
             na = (case af_nodeAffinity newAffinity of None \<Rightarrow> \<lparr>na_required = None, na_preferred = []\<rparr> | Some n \<Rightarrow> n);
             required = (case na_required na of None \<Rightarrow> [[sel]] | Some terms \<Rightarrow> map (\<lambda>t. t @ [sel]) terms)
         in Some (newAffinity\<lparr>af_nodeAffinity := Some (na\<lparr>na_required := Some required\<rparr>)\<rparr>)))"

text \<open>The first key in the order of the map that begins with the vendor's name.\<close>

definition GetGPUCountFromResource :: "'q quantity_ops \<Rightarrow> 'q resource_list \<Rightarrow> int" where
  "GetGPUCountFromResource Q resources =
     (case find (\<lambda>(k, v). has_prefix ''nvidia.com'' k) resources of None \<Rightarrow> 0 | Some (k, v) \<Rightarrow> q_value Q v)"

definition absent :: "string \<Rightarrow> node_requirement" where
  "absent k = \<lparr>nr_key = k, nr_operator = ''DoesNotExist'', nr_values = []\<rparr>"

abbreviation (input) GPULabel :: string where "GPULabel \<equiv> ''nvidia.com/gpu.present''"
abbreviation (input) InfiniBandLabel :: string where "InfiniBandLabel \<equiv> ''feature.node.kubernetes.io/pci-15b3.present''"

definition GenerateNodeAffinity :: "'q quantity_ops \<Rightarrow> node_requirement list \<Rightarrow> 'q resource_list option \<Rightarrow> affinity option" where
  "GenerateNodeAffinity Q expressions totalRequests =
     (if expressions \<noteq> [] then
        Some \<lparr>af_nodeAffinity = Some \<lparr>na_required = Some [expressions], na_preferred = []\<rparr>\<rparr>
      else (case totalRequests of
          None \<Rightarrow> None
        | Some requests \<Rightarrow>
            let gpuCount = GetGPUCountFromResource Q requests in
            if gpuCount = 0 then
              Some \<lparr>af_nodeAffinity = Some \<lparr>na_required = None, na_preferred = [(40, [absent GPULabel, absent InfiniBandLabel])]\<rparr>\<rparr>
            else if gpuCount = 1 then
              Some \<lparr>af_nodeAffinity = Some \<lparr>na_required = None, na_preferred = [(50, [absent InfiniBandLabel])]\<rparr>\<rparr>
            else None))"

section \<open>Environment and labels\<close>

text \<open>A variable has a value of its own, or the text of a reference to one.\<close>

record env_var =
  en_name :: string
  en_value :: string
  en_valueFrom :: "string option"

definition env_value :: "string \<Rightarrow> string \<Rightarrow> env_var" where
  "env_value n v = \<lparr>en_name = n, en_value = v, en_valueFrom = None\<rparr>"

definition GenerateEnvs :: "fault \<Rightarrow> jwt_message \<Rightarrow> 'q directory \<Rightarrow> env_var list \<Rightarrow> env_var list" where
  "GenerateEnvs userErr token s customEnvs =
     (case (if userErr = None then find_user (jm_userID token) s else None) of
        None \<Rightarrow> customEnvs
      | Some user \<Rightarrow>
          let uid = (case at_uid (us_attributes user) of None \<Rightarrow> ''1001'' | Some n \<Rightarrow> n);
              gid = (case at_gid (us_attributes user) of None \<Rightarrow> ''1001'' | Some n \<Rightarrow> n)
          in customEnvs @ [env_value ''NB_USER'' (jm_username token), env_value ''NB_GID'' gid, env_value ''NB_UID'' uid])"

abbreviation (input) LabelKeyTaskType :: string where "LabelKeyTaskType \<equiv> ''crater.raids.io/task-type''"
abbreviation (input) LabelKeyTaskUser :: string where "LabelKeyTaskUser \<equiv> ''crater.raids.io/task-user''"
abbreviation (input) LabelKeyBaseURL :: string where "LabelKeyBaseURL \<equiv> ''crater.raids.io/base-url''"
abbreviation (input) AnnotationKeyTaskName :: string where "AnnotationKeyTaskName \<equiv> ''crater.raids.io/task-name''"
abbreviation (input) AnnotationKeyTaskTemplate :: string where "AnnotationKeyTaskTemplate \<equiv> ''crater.raids.io/task-template''"
abbreviation (input) AnnotationKeyAlertEnabled :: string where "AnnotationKeyAlertEnabled \<equiv> ''crater.raids.io/alert-enabled''"
abbreviation (input) AnnotationKeyUser :: string where "AnnotationKeyUser \<equiv> ''crater.raids.io/user''"

definition format_bool :: "bool \<Rightarrow> string" where
  "format_bool b = (if b then ''true'' else ''false'')"

type_synonym string_map = "(string, string) gomap"

definition getLabelAndAnnotations ::
  "string \<Rightarrow> jwt_message \<Rightarrow> string \<Rightarrow> string \<Rightarrow> string \<Rightarrow> bool \<Rightarrow> string_map \<times> string_map \<times> string_map" where
  "getLabelAndAnnotations jobType token baseURL taskName template alertEnabled =
     ([(LabelKeyTaskType, jobType), (LabelKeyTaskUser, jm_username token), (LabelKeyBaseURL, baseURL)],
      [(AnnotationKeyTaskName, taskName), (AnnotationKeyTaskTemplate, template), (AnnotationKeyAlertEnabled, format_bool alertEnabled)],
      [(AnnotationKeyTaskName, taskName), (AnnotationKeyUser, jm_username token)])"

section \<open>Pods\<close>

text \<open>Ports are TCP; the limits of a container are its requests; the user and the group it runs as are root's.\<close>

record container_port =
  cp_name :: string
  cp_port :: int

record 'q container =
  ct_name :: string
  ct_image :: string
  ct_command :: "string list"
  ct_workingDir :: string
  ct_resources :: "'q resource_list"
  ct_env :: "env_var list"
  ct_ports :: "container_port list"
  ct_capabilities :: "string list"
  ct_volumeMounts :: "volume_mount list"

record 'q job_pod =
  pd_affinity :: "affinity option"
  pd_tolerations :: "toleration list"
  pd_volumes :: "volume list"
  pd_imagePullSecrets :: "string list"
  pd_containers :: "'q container list"
  pd_restartPolicy :: string

definition pull_secrets :: "string \<Rightarrow> string list" where
  "pull_secrets imagePullSecretName = (if imagePullSecretName = [] then [] else [imagePullSecretName])"

text \<open>The command of a container: the shell is \<open>sh\<close> unless the request names another.\<close>

definition shell_command :: "string option \<Rightarrow> string option \<Rightarrow> string list" where
  "shell_command shell command =
     (case command of
        None \<Rightarrow> []
      | Some cmd \<Rightarrow> if cmd = [] then [] else [case shell of None \<Rightarrow> ''sh'' | Some sh \<Rightarrow> sh, ''-c'', cmd])"

record 'q task_req =
  tr_name :: string
  tr_replicas :: int
  tr_resource :: "'q resource_list option"
  tr_image :: image_base_info
  tr_shell :: "string option"
  tr_command :: "string option"
  tr_workingDir :: "string option"
  tr_ports :: "container_port list"

definition generatePodSpecForParallelJob ::
  "string \<Rightarrow> 'q task_req \<Rightarrow> affinity option \<Rightarrow> toleration list \<Rightarrow> volume list \<Rightarrow> volume_mount list \<Rightarrow> env_var list \<Rightarrow>
   container_port list \<Rightarrow> 'q job_pod" where
  "generatePodSpecForParallelJob secret task aff tolerations volumes volumeMounts envs ports =
     \<lparr>pd_affinity = aff, pd_tolerations = tolerations, pd_volumes = volumes, pd_imagePullSecrets = pull_secrets secret,
      pd_containers = [\<lparr>ct_name = tr_name task, ct_image = ib_imageLink (tr_image task),
        ct_command = shell_command (tr_shell task) (tr_command task),
        ct_workingDir = (case tr_workingDir task of None \<Rightarrow> [] | Some d \<Rightarrow> d), ct_resources = or_empty (tr_resource task),
        ct_env = envs, ct_ports = ports, ct_capabilities = [''IPC_LOCK''], ct_volumeMounts = volumeMounts\<rparr>],
      pd_restartPolicy = ''Never''\<rparr>"

text \<open>What every request to create a job carries.\<close>

record forward =
  fw_type :: nat
  fw_name :: string
  fw_port :: int

record job_common =
  cm_name :: string
  cm_volumeMounts :: "volume_request list"
  cm_envs :: "env_var list"
  cm_selectors :: "node_requirement list"
  cm_template :: string
  cm_alertEnabled :: bool
  cm_forwards :: "forward list"

record 'q custom_req =
  cq_common :: job_common
  cq_resource :: "'q resource_list option"
  cq_image :: image_base_info
  cq_shell :: "string option"
  cq_command :: "string option"
  cq_workingDir :: string

record pod_env =
  pe_mounts :: mount_env
  pe_envUserErr :: fault
  pe_imagePullSecretName :: string

definition GenerateCustomPodSpec ::
  "'q quantity_ops \<Rightarrow> pod_env \<Rightarrow> jwt_message \<Rightarrow> 'q custom_req \<Rightarrow> 'q dataset_store \<Rightarrow> 'q job_pod result" where
  "GenerateCustomPodSpec Q e token custom s =
     (case GenerateVolumeMounts (pe_mounts e) (cm_volumeMounts (cq_common custom)) token s of
        Inl x \<Rightarrow> Inl x
      | Inr (volumes, volumeMounts) \<Rightarrow>
          Inr \<lparr>pd_affinity = GenerateArchitectureNodeAffinity (cq_image custom)
                 (GenerateNodeAffinity Q (cm_selectors (cq_common custom)) (cq_resource custom)),
               pd_tolerations = GenerateTaintTolerationsForAccount token, pd_volumes = volumes,
               pd_imagePullSecrets = pull_secrets (pe_imagePullSecretName e),
               pd_containers = [\<lparr>ct_name = ''custom'', ct_image = ib_imageLink (cq_image custom),
                 ct_command = shell_command (cq_shell custom) (cq_command custom), ct_workingDir = cq_workingDir custom,
                 ct_resources = or_empty (cq_resource custom),
                 ct_env = GenerateEnvs (pe_envUserErr e) token (dst_dir s) (cm_envs (cq_common custom)), ct_ports = [],
                 ct_capabilities = [], ct_volumeMounts = volumeMounts\<rparr>],
               pd_restartPolicy = ''Never''\<rparr>)"

section \<open>On which nodes a pod may run\<close>

text \<open>
  A pod may run on a node if it names no required terms, or if some term has requirements, all of which the node's labels
  meet.  \<open>meets\<close> says when the labels meet one.
\<close>

definition allows :: "('n \<Rightarrow> node_requirement \<Rightarrow> bool) \<Rightarrow> affinity option \<Rightarrow> 'n \<Rightarrow> bool" where
  "allows meets aff node =
     (case aff of
        None \<Rightarrow> True
      | Some a \<Rightarrow> (case af_nodeAffinity a of
          None \<Rightarrow> True
        | Some na \<Rightarrow> (case na_required na of
            None \<Rightarrow> True
          | Some terms \<Rightarrow> list_ex (\<lambda>t. t \<noteq> [] \<and> list_all (meets node) t) terms)))"

definition runs_arm :: "string list \<Rightarrow> bool" where
  "runs_arm archs \<longleftrightarrow> (\<exists>a \<in> set archs. str_contains (to_lower a) ''arm'')"

definition runs_amd :: "string list \<Rightarrow> bool" where
  "runs_amd archs \<longleftrightarrow> (\<exists>a \<in> set archs. \<not> str_contains (to_lower a) ''arm'' \<and> (str_contains (to_lower a) ''amd'' \<or> str_contains (to_lower a) ''x86''))"

lemma arch_fold: "fold arch_step archs (p, q) = (p \<or> runs_arm archs, q \<or> runs_amd archs)"
  by (induction archs arbitrary: p q) (auto simp: arch_step_def runs_arm_def runs_amd_def Let_def)

lemma arch_type: "DetermineArchitectureType archs =
    (if runs_arm archs then if runs_amd archs then ArchTypeMulti else ArchTypeARM else ArchTypeAMD)"
  by (simp add: DetermineArchitectureType_def arch_fold)

lemma terms_with_arch:
  "[] \<notin> set terms \<Longrightarrow>
   list_ex (\<lambda>t. t \<noteq> [] \<and> list_all P t) (map (\<lambda>t. t @ [x]) terms) \<longleftrightarrow> list_ex (\<lambda>t. t \<noteq> [] \<and> list_all P t) terms \<and> P x"
  by (induction terms) auto

lemma allows_arch:
  "\<lbrakk>\<forall>a na terms. base = Some a \<and> af_nodeAffinity a = Some na \<and> na_required na = Some terms \<longrightarrow> [] \<notin> set terms\<rbrakk> \<Longrightarrow>
   allows meets (GenerateArchitectureNodeAffinity img base) node \<longleftrightarrow>
     allows meets base node \<and> (DetermineArchitectureType (ib_archs img) = ArchTypeMulti \<or> meets node (arch_selector (DetermineArchitectureType (ib_archs img))))"
  by (auto simp: GenerateArchitectureNodeAffinity_def allows_def Let_def terms_with_arch split: option.splits)

text \<open>Claim C14. The nodes a job may run on are those that meet every selector of the request and whose architecture the image has: the ARM
  nodes for an image with ARM builds only, all nodes for one with both, and the AMD64 nodes for any other, an
  image of no known architecture included.  The GPUs of the request only weigh, they exclude no node.
\<close>

theorem placement_exact:
  "allows meets (GenerateArchitectureNodeAffinity img (GenerateNodeAffinity Q selectors requests)) node \<longleftrightarrow>
     (\<forall>r \<in> set selectors. meets node r) \<and>
     (runs_arm (ib_archs img) \<and> runs_amd (ib_archs img) \<or>
      meets node \<lparr>nr_key = ''kubernetes.io/arch'', nr_operator = ''In'', nr_values = [if runs_arm (ib_archs img) then ''arm64'' else ''amd64'']\<rparr>)"
proof -
  have base: "\<forall>a na terms. GenerateNodeAffinity Q selectors requests = Some a \<and> af_nodeAffinity a = Some na \<and> na_required na = Some terms \<longrightarrow> [] \<notin> set terms"
    by (auto simp: GenerateNodeAffinity_def Let_def split: if_splits option.splits)
  have "allows meets (GenerateNodeAffinity Q selectors requests) node \<longleftrightarrow> (\<forall>r \<in> set selectors. meets node r)"
    by (auto simp: GenerateNodeAffinity_def allows_def Let_def list_all_iff split: option.splits)
  then show ?thesis using allows_arch [OF base, of meets img node] by (auto simp: arch_type arch_selector_def)
qed

text \<open>An image for ARM and a selector of a zone, on a node of that zone with an ARM processor, and on one without.\<close>

definition labels_meet :: "(string, string) gomap \<Rightarrow> node_requirement \<Rightarrow> bool" where
  "labels_meet labels r \<longleftrightarrow> (case gm_get labels (nr_key r) of None \<Rightarrow> False | Some v \<Rightarrow> v \<in> set (nr_values r))"

lemma runs_arm_only: "runs_arm [''linux/ARM64''] \<and> \<not> runs_amd [''linux/ARM64'']"
  by code_simp

lemma placement_exact_witness:
  "let zone = \<lparr>nr_key = ''zone'', nr_operator = ''In'', nr_values = [''a'']\<rparr>;
       aff = GenerateArchitectureNodeAffinity \<lparr>ib_imageLink = ''l'', ib_archs = [''linux/ARM64'']\<rparr> (GenerateNodeAffinity int_quantity [zone] None)
   in allows labels_meet aff [(''zone'', ''a''), (''kubernetes.io/arch'', ''arm64'')] \<and>
      \<not> allows labels_meet aff [(''zone'', ''a''), (''kubernetes.io/arch'', ''amd64'')]"
  by (simp add: Let_def placement_exact) (simp add: labels_meet_def runs_arm_only)

text \<open>
  A container reads the last value of a variable.  Whatever variables a request brings, the name and the numbers of the user
  it runs as are those of the token and of the user's row, as long as the row can be read.
\<close>

definition env_get :: "env_var list \<Rightarrow> string \<Rightarrow> string option" where
  "env_get envs n = map_option en_value (find (\<lambda>v. en_name v = n) (rev envs))"

theorem request_cannot_change_identity:
  assumes "find_user (jm_userID token) s = Some u"
  shows "env_get (GenerateEnvs None token s custom) ''NB_USER'' = Some (jm_username token) \<and>
    env_get (GenerateEnvs None token s custom) ''NB_UID'' = Some (case at_uid (us_attributes u) of None \<Rightarrow> ''1001'' | Some n \<Rightarrow> n) \<and>
    env_get (GenerateEnvs None token s custom) ''NB_GID'' = Some (case at_gid (us_attributes u) of None \<Rightarrow> ''1001'' | Some n \<Rightarrow> n)"
  using assms by (simp add: env_get_def GenerateEnvs_def env_value_def Let_def)

lemma request_cannot_change_identity_witness:
  "env_get (GenerateEnvs None (sample_message RoleUser) sample_directory [env_value ''NB_UID'' ''0'']) ''NB_UID'' = Some ''1001''"
proof -
  have "find_user (jm_userID (sample_message RoleUser)) sample_directory = Some (sample_user 4 ''ann'')"
    by (simp add: find_user_def tbl_first_Cons sample_directory_def sample_message_def sample_user_def)
  from request_cannot_change_identity [OF this, of "[env_value ''NB_UID'' ''0'']"] show ?thesis
    by (simp add: sample_user_def no_attributes_def)
qed

end
