(* ===== verification/Services.thy ===== *)
theory Services imports Data_Model "HOL-Library.Word" begin

text \<open>
  The services and ingresses through which a job is reached, \<open>pkg/crclient/service.go\<close>: a service on a port of the nodes,
  whose number is a hash of the user's name if it is free, and services behind an ingress.  The cluster refuses two
  services of one name and two services on one node port; which free port it gives, its failures and the addresses of the nodes
  are parameters.
\<close>

unbundle bit_operations_syntax

section \<open>Services, ingresses and pods\<close>

text \<open>A node port of 0 asks the cluster to choose.\<close>

record service_port =
  po_name :: string
  po_protocol :: string
  po_port :: int
  po_targetPort :: int
  po_nodePort :: int

record service =
  sv_name :: string
  sv_namespace :: string
  sv_owners :: "owner_reference list"
  sv_labels :: "(string, string) gomap"
  sv_annotations :: "(string, string) gomap"
  sv_port :: service_port
  sv_type :: string
  sv_selector :: "(string, string) gomap"

text \<open>One rule with one path of type prefix, and the secret of the host's certificate.\<close>

record ingress =
  ig_name :: string
  ig_namespace :: string
  ig_owners :: "owner_reference list"
  ig_labels :: "(string, string) gomap"
  ig_annotations :: "(string, string) gomap"
  ig_class :: string
  ig_host :: string
  ig_path :: string
  ig_service :: string
  ig_port :: int
  ig_tlsSecret :: string

record 'q pod_container =
  pc_name :: string
  pc_image :: string
  pc_requests :: "(string \<times> 'q) list"
  pc_ports :: "(string \<times> int) list"

record 'q live_pod =
  lp_name :: string
  lp_namespace :: string
  lp_labels :: "(string, string) gomap"
  lp_annotations :: "(string, string) gomap option"
  lp_nodeName :: string
  lp_phase :: string
  lp_podIP :: string
  lp_containers :: "'q pod_container list"

record 'q network =
  nw_services :: "service list"
  nw_ingresses :: "ingress list"
  nw_pods :: "'q live_pod list"

text \<open>
  The failures: of the creation of a service, by attempt, of an ingress, of reading the service back, of listing the pods.
\<close>

record service_env =
  sx_ns :: string
  sx_uuid :: string
  sx_serviceErr :: "nat \<Rightarrow> fault"
  sx_ingressErr :: fault
  sx_readErr :: fault
  sx_listErr :: fault
  sx_pickPort :: "int list \<Rightarrow> int option"
  sx_nodeAddresses :: "string \<Rightarrow> (string \<times> string) list result"
  sx_tlsSecretName :: string
  sx_tlsForwardSecretName :: string

definition used_ports :: "'q network \<Rightarrow> int list" where
  "used_ports nw = filter (\<lambda>p. p \<noteq> 0) (map (po_nodePort \<circ> sv_port) (nw_services nw))"

definition has_service :: "string \<Rightarrow> string \<Rightarrow> 'q network \<Rightarrow> bool" where
  "has_service ns n nw \<longleftrightarrow> list_ex (\<lambda>v. sv_name v = n \<and> sv_namespace v = ns) (nw_services nw)"

definition has_ingress :: "string \<Rightarrow> string \<Rightarrow> 'q network \<Rightarrow> bool" where
  "has_ingress ns n nw \<longleftrightarrow> list_ex (\<lambda>i. ig_name i = n \<and> ig_namespace i = ns) (nw_ingresses nw)"

text \<open>What the cluster does with a request to create a service or an ingress.\<close>

abbreviation (input) PortTaken :: string where "PortTaken \<equiv> ''provided port is already allocated''"

definition port_given :: "service_env \<Rightarrow> service \<Rightarrow> 'q network \<Rightarrow> int option" where
  "port_given e svc nw =
     (if sv_type svc = ''NodePort'' \<and> po_nodePort (sv_port svc) = 0 then sx_pickPort e (used_ports nw) else Some (po_nodePort (sv_port svc)))"

definition client_create_service :: "service_env \<Rightarrow> nat \<Rightarrow> service \<Rightarrow> 'q network \<Rightarrow> fault \<times> 'q network" where
  "client_create_service e n svc nw =
     (case sx_serviceErr e n of
        Some x \<Rightarrow> (Some x, nw)
      | None \<Rightarrow>
          if has_service (sv_namespace svc) (sv_name svc) nw then (Some ''services already exists'', nw)
          else if po_nodePort (sv_port svc) \<in> set (used_ports nw) then (Some PortTaken, nw)
          else (case port_given e svc nw of
              None \<Rightarrow> (Some ''failed to allocate a nodePort'', nw)
            | Some p \<Rightarrow> (None, nw\<lparr>nw_services := nw_services nw @ [svc\<lparr>sv_port := (sv_port svc)\<lparr>po_nodePort := p\<rparr>\<rparr>]\<rparr>)))"

definition client_create_ingress :: "service_env \<Rightarrow> ingress \<Rightarrow> 'q network \<Rightarrow> fault \<times> 'q network" where
  "client_create_ingress e ing nw =
     (case sx_ingressErr e of
        Some x \<Rightarrow> (Some x, nw)
      | None \<Rightarrow> if has_ingress (ig_namespace ing) (ig_name ing) nw then (Some ''ingresses already exists'', nw)
          else (None, nw\<lparr>nw_ingresses := nw_ingresses nw @ [ing]\<rparr>))"

section \<open>Labels\<close>

abbreviation (input) SvcLabelBaseURL :: string where "SvcLabelBaseURL \<equiv> ''crater.raids.io/base-url''"
abbreviation (input) SvcLabelTaskType :: string where "SvcLabelTaskType \<equiv> ''crater.raids.io/task-type''"
abbreviation (input) SvcLabelTaskUser :: string where "SvcLabelTaskUser \<equiv> ''crater.raids.io/task-user''"
abbreviation (input) LabelKeyTaskIndex :: string where "LabelKeyTaskIndex \<equiv> ''volcano.sh/task-index''"
abbreviation (input) LabelKeyTaskSpec :: string where "LabelKeyTaskSpec \<equiv> ''volcano.sh/task-spec''"
abbreviation (input) AnnotationKeyPortName :: string where "AnnotationKeyPortName \<equiv> ''crater.raids.io/port-name''"

text \<open>A key that a Go map does not have reads as the empty string.\<close>

definition label_or_empty :: "(string, string) gomap \<Rightarrow> string \<Rightarrow> string" where
  "label_or_empty m k = (case gm_get m k of None \<Rightarrow> [] | Some v \<Rightarrow> v)"

definition copy_label :: "(string, string) gomap \<Rightarrow> string \<Rightarrow> (string, string) gomap \<Rightarrow> (string, string) gomap" where
  "copy_label src k m = (case gm_get src k of None \<Rightarrow> m | Some v \<Rightarrow> gm_put k v m)"

definition GenerateLabels :: "(string, string) gomap \<Rightarrow> (string, string) gomap" where
  "GenerateLabels podSelector =
     (let labels = [(SvcLabelBaseURL, label_or_empty podSelector SvcLabelBaseURL),
                    (SvcLabelTaskType, label_or_empty podSelector SvcLabelTaskType),
                    (SvcLabelTaskUser, label_or_empty podSelector SvcLabelTaskUser)];
          taskType = label_or_empty podSelector SvcLabelTaskType
      in if taskType = ''tensorflow'' \<or> taskType = ''pytorch''
         then copy_label podSelector LabelKeyTaskSpec (copy_label podSelector LabelKeyTaskIndex labels)
         else labels)"

section \<open>Node ports\<close>

text \<open>The 32-bit FNV-1a hash of the bytes of a text.\<close>

definition fnv_step :: "char \<Rightarrow> 32 word \<Rightarrow> 32 word" where
  "fnv_step c h = (h XOR of_char c) * 16777619"

definition fnv32a :: "string \<Rightarrow> 32 word" where
  "fnv32a s = fold fnv_step s 2166136261"

abbreviation (input) nodePortStart :: int where "nodePortStart \<equiv> 30000"
abbreviation (input) nodePortEnd :: int where "nodePortEnd \<equiv> 32767"

definition userPort :: "string \<Rightarrow> int" where
  "userPort username = nodePortStart + uint (fnv32a username mod 2768)"

definition node_port_service ::
  "service_env \<Rightarrow> string \<Rightarrow> owner_reference list \<Rightarrow> (string, string) gomap \<Rightarrow> service_port \<Rightarrow> int \<Rightarrow> service" where
  "node_port_service e serviceName owners podSelector port nodePort =
     \<lparr>sv_name = serviceName, sv_namespace = sx_ns e, sv_owners = owners, sv_labels = GenerateLabels podSelector,
      sv_annotations = [(AnnotationKeyPortName, po_name port)], sv_port = port\<lparr>po_nodePort := nodePort\<rparr>,
      sv_type = ''NodePort'', sv_selector = podSelector\<rparr>"

text \<open>
  The loop runs at most twice: it tries the user's port first and, if the cluster answers that the port is taken, asks for any.
\<close>

definition create_node_port_service ::
  "service_env \<Rightarrow> string \<Rightarrow> (int \<Rightarrow> service) \<Rightarrow> 'q network \<Rightarrow> fault \<times> 'q network" where
  "create_node_port_service e username svc nw =
     (case client_create_service e 0 (svc (userPort username)) nw of
        (None, nw1) \<Rightarrow> (None, nw1)
      | (Some x, nw1) \<Rightarrow> if str_contains x PortTaken then client_create_service e 1 (svc 0) nw1 else (Some x, nw1))"

definition matching_pods :: "string \<Rightarrow> (string, string) gomap \<Rightarrow> 'q network \<Rightarrow> 'q live_pod list" where
  "matching_pods ns sel nw =
     filter (\<lambda>p. lp_namespace p = ns \<and> list_all (\<lambda>(k, v). gm_get (lp_labels p) k = Some v) sel) (nw_pods nw)"

definition address_of_type :: "string \<Rightarrow> (string \<times> string) list \<Rightarrow> string option" where
  "address_of_type ty addrs = map_option snd (find (\<lambda>(t, a). t = ty) addrs)"

text \<open>What is answered once the service is there: the address of the node that runs the first matching pod, and the port.\<close>

definition node_port_answer :: "service_env \<Rightarrow> string \<Rightarrow> (string, string) gomap \<Rightarrow> 'q network \<Rightarrow> (string \<times> int) result" where
  "node_port_answer e serviceName podSelector nw =
     (case (if sx_readErr e = None
            then find (\<lambda>v. sv_name v = serviceName \<and> sv_namespace v = sx_ns e) (nw_services nw) else None) of
        None \<Rightarrow> Inl ''failed to get created service after retries''
      | Some createdSvc \<Rightarrow>
          let nodePort = po_nodePort (sv_port createdSvc)
          in (case sx_listErr e of
               Some x \<Rightarrow> Inl (''failed to list pods: '' @ x)
             | None \<Rightarrow> (case matching_pods (sx_ns e) podSelector nw of
                 [] \<Rightarrow> Inl ''no pods found matching selector''
               | pod # _ \<Rightarrow>
                   if lp_nodeName pod = [] then Inl ''pod not assigned to a node yet''
                   else (case sx_nodeAddresses e (lp_nodeName pod) of
                       Inl x \<Rightarrow> Inl (''failed to get node '' @ lp_nodeName pod @ '': '' @ x)
                     | Inr addrs \<Rightarrow> (case address_of_type ''ExternalIP'' addrs of
                         Some a \<Rightarrow> Inr (a, nodePort)
                       | None \<Rightarrow> (case address_of_type ''InternalIP'' addrs of
                           Some a \<Rightarrow> Inr (a, nodePort)
                         | None \<Rightarrow> Inl (''no suitable host IP found for node '' @ lp_nodeName pod)))))))"

definition np_name :: "service_env \<Rightarrow> string \<Rightarrow> string" where
  "np_name e username = ''np-'' @ username @ ''-'' @ take 5 (sx_uuid e)"

definition CreateNodePort ::
  "service_env \<Rightarrow> owner_reference list \<Rightarrow> (string, string) gomap \<Rightarrow> service_port option \<Rightarrow> string \<Rightarrow> 'q network \<Rightarrow>
   (string \<times> int) result \<times> 'q network" where
  "CreateNodePort e owners podSelector port username nw =
     (case port of
        None \<Rightarrow> (Inl ''port and ownerRef cannot be nil'', nw)
      | Some port \<Rightarrow>
          (case create_node_port_service e username (node_port_service e (np_name e username) owners podSelector port) nw of
             (Some x, nw1) \<Rightarrow> (Inl (''failed to create NodePort service: '' @ x), nw1)
           | (None, nw1) \<Rightarrow> (node_port_answer e (np_name e username) podSelector nw1, nw1)))"

section \<open>Ingresses\<close>

definition nginx_annotations :: "string \<Rightarrow> (string, string) gomap" where
  "nginx_annotations portName =
     [(''nginx.ingress.kubernetes.io/ssl-redirect'', ''true''), (''nginx.ingress.kubernetes.io/proxy-body-size'', ''20480m''),
      (''nginx.ingress.kubernetes.io/proxy-connect-timeout'', ''300''), (''nginx.ingress.kubernetes.io/proxy-send-timeout'', ''300''),
      (''nginx.ingress.kubernetes.io/proxy-read-timeout'', ''300''), (AnnotationKeyPortName, portName)]"

definition cluster_ip_service ::
  "service_env \<Rightarrow> string \<Rightarrow> owner_reference list \<Rightarrow> (string, string) gomap \<Rightarrow> (string, string) gomap \<Rightarrow> service_port \<Rightarrow> service" where
  "cluster_ip_service e serviceName owners podSelector annotations port =
     \<lparr>sv_name = serviceName, sv_namespace = sx_ns e, sv_owners = owners, sv_labels = GenerateLabels podSelector,
      sv_annotations = annotations, sv_port = port, sv_type = ''ClusterIP'', sv_selector = podSelector\<rparr>"

definition service_ingress ::
  "service_env \<Rightarrow> string \<Rightarrow> owner_reference list \<Rightarrow> (string, string) gomap \<Rightarrow> string \<Rightarrow> string \<Rightarrow> string \<Rightarrow> service_port \<Rightarrow> string \<Rightarrow> ingress" where
  "service_ingress e ingressName owners podSelector host path serviceName port secret =
     \<lparr>ig_name = ingressName, ig_namespace = sx_ns e, ig_owners = owners, ig_labels = GenerateLabels podSelector,
      ig_annotations = nginx_annotations (po_name port), ig_class = ''nginx'', ig_host = host, ig_path = path,
      ig_service = serviceName, ig_port = po_port port, ig_tlsSecret = secret\<rparr>"

text \<open>The two steps of both operations: the service, then the ingress; a failure of the second leaves the first.\<close>

definition create_behind_ingress :: "service_env \<Rightarrow> service \<Rightarrow> ingress \<Rightarrow> string \<Rightarrow> 'q network \<Rightarrow> string result \<times> 'q network" where
  "create_behind_ingress e svc ing url nw =
     (case client_create_service e 0 svc nw of
        (Some x, nw1) \<Rightarrow> (Inl (''failed to create service: '' @ x), nw1)
      | (None, nw1) \<Rightarrow> (case client_create_ingress e ing nw1 of
          (Some x, nw2) \<Rightarrow> (Inl (''failed to create ingress: '' @ x), nw2)
        | (None, nw2) \<Rightarrow> (Inr url, nw2)))"

definition CreateIngressWithPrefix ::
  "service_env \<Rightarrow> owner_reference list \<Rightarrow> (string, string) gomap \<Rightarrow> service_port option \<Rightarrow> string \<Rightarrow> string \<Rightarrow> 'q network \<Rightarrow>
   string result \<times> 'q network" where
  "CreateIngressWithPrefix e owners podSelector port host prefix nw =
     (case port of
        None \<Rightarrow> (Inl ''port and ownerRef cannot be nil'', nw)
      | Some port \<Rightarrow>
          let serviceName = ''svc-'' @ prefix @ ''-'' @ po_name port;
              ingressName = ''ing-'' @ prefix @ ''-'' @ po_name port;
              path = ''/ingress'' @ (if prefix \<noteq> [] \<and> hd prefix = CHR ''/'' then prefix else ''/'' @ prefix)
          in create_behind_ingress e (cluster_ip_service e serviceName owners podSelector [] port)
               (service_ingress e ingressName owners podSelector host path serviceName port (sx_tlsSecretName e))
               (''https://'' @ host @ path) nw)"

definition CreateIngress ::
  "service_env \<Rightarrow> owner_reference list \<Rightarrow> (string, string) gomap \<Rightarrow> service_port option \<Rightarrow> string \<Rightarrow> string \<Rightarrow> 'q network \<Rightarrow>
   string result \<times> 'q network" where
  "CreateIngress e owners podSelector port host username nw =
     (case port of
        None \<Rightarrow> (Inl ''port and ownerRef cannot be nil'', nw)
      | Some port \<Rightarrow>
          let randomPrefix = take 5 (sx_uuid e);
              subdomain = randomPrefix @ ''.'' @ host;
              serviceName = ''svc-'' @ username @ ''-'' @ randomPrefix @ ''-'' @ po_name port;
              ingressName = ''ing-'' @ username @ ''-'' @ randomPrefix @ ''-'' @ po_name port
          in create_behind_ingress e
               (cluster_ip_service e serviceName owners podSelector [(AnnotationKeyPortName, po_name port)] port)
               (service_ingress e ingressName owners podSelector subdomain ''/'' serviceName port (sx_tlsForwardSecretName e))
               (''https://'' @ subdomain @ ''/'') nw)"

text \<open>An ingress that cannot be created fails the operation.\<close>

lemma behind_fails: "sx_ingressErr e = Some x \<Longrightarrow> \<exists>y nw1. create_behind_ingress e svc ing url nw = (Inl y, nw1)"
  by (cases "client_create_service e 0 svc nw"; cases "fst (client_create_service e 0 svc nw)")
    (simp_all add: create_behind_ingress_def client_create_ingress_def)

lemma ingress_failure: "sx_ingressErr e = Some x \<Longrightarrow> \<exists>y nw1. CreateIngressWithPrefix e ow sel (Some port) host prefix nw = (Inl y, nw1)"
  by (simp add: CreateIngressWithPrefix_def Let_def behind_fails)

section \<open>Node ports\<close>

text \<open>What the cluster promises of the port it chooses.\<close>

definition picks_free :: "service_env \<Rightarrow> bool" where
  "picks_free e \<longleftrightarrow> (\<forall>used p. sx_pickPort e used = Some p \<longrightarrow> p \<notin> set used \<and> nodePortStart \<le> p \<and> p \<le> nodePortEnd)"

lemma userPort_range: "nodePortStart \<le> userPort n \<and> userPort n \<le> nodePortEnd"
proof -
  have "uint (fnv32a n mod 2768) < 2768" by (simp add: uint_mod)
  then show ?thesis by (simp add: userPort_def)
qed

lemma client_create_service_None:
  "client_create_service e n svc nw = (None, nw1) \<Longrightarrow>
   \<not> has_service (sv_namespace svc) (sv_name svc) nw \<and> po_nodePort (sv_port svc) \<notin> set (used_ports nw) \<and>
   (\<exists>p. port_given e svc nw = Some p \<and> nw1 = nw\<lparr>nw_services := nw_services nw @ [svc\<lparr>sv_port := (sv_port svc)\<lparr>po_nodePort := p\<rparr>\<rparr>]\<rparr>)"
  by (auto simp: client_create_service_def split: option.splits if_splits)

lemma client_create_service_Some: "client_create_service e n svc nw = (Some x, nw1) \<Longrightarrow> nw1 = nw"
  by (auto simp: client_create_service_def split: option.splits if_splits)

lemma node_port_fields [simp]:
  "po_nodePort (sv_port (node_port_service e n ow sel p np)) = np" "sv_type (node_port_service e n ow sel p np) = ''NodePort''"
  "sv_name (node_port_service e n ow sel p np) = n" "sv_namespace (node_port_service e n ow sel p np) = sx_ns e"
  "sv_selector (node_port_service e n ow sel p np) = sel"
  by (simp_all add: node_port_service_def)

lemma CreateNodePort_network:
  "snd (CreateNodePort e ow sel port u nw) =
     (case port of None \<Rightarrow> nw | Some p \<Rightarrow> snd (create_node_port_service e u (node_port_service e (np_name e u) ow sel p) nw))"
  by (simp add: CreateNodePort_def split: prod.split option.split)

lemma cluster_ip_port [simp]: "sv_port (cluster_ip_service e n ow sel an p) = p"
  by (simp add: cluster_ip_service_def)

lemma answer_found: "node_port_answer e n sel nw = Inr (host, p) \<Longrightarrow>
    \<exists>v. find (\<lambda>v. sv_name v = n \<and> sv_namespace v = sx_ns e) (nw_services nw) = Some v \<and> p = po_nodePort (sv_port v)"
  by (auto simp: node_port_answer_def Let_def split: if_splits option.splits list.splits sum.splits)

lemma find_added: "\<not> list_ex P xs \<Longrightarrow> P x \<Longrightarrow> find P (xs @ [x]) = Some x"
  by (induction xs) auto

text \<open>
  The port a request should get, from what the cluster answers to it: the port of the user, the hash of the name, while no other
  service holds it and the first attempt is not refused as if one did; then the port the cluster chooses; none when the name of the service
  is in use, another failure meets either attempt or no port is left.
\<close>

definition chosen_port :: "service_env \<Rightarrow> 'q network \<Rightarrow> int option" where
  "chosen_port e nw = (if sx_serviceErr e 1 = None then sx_pickPort e (used_ports nw) else None)"

definition port_for :: "service_env \<Rightarrow> string \<Rightarrow> 'q network \<Rightarrow> int option" where
  "port_for e u nw =
     (if has_service (sx_ns e) (np_name e u) nw then None
      else (case sx_serviceErr e 0 of
          Some x \<Rightarrow> if str_contains x PortTaken then chosen_port e nw else None
        | None \<Rightarrow> if userPort u \<in> set (used_ports nw) then chosen_port e nw else Some (userPort u)))"

lemma used_nonzero: "0 \<notin> set (used_ports nw)"
  by (simp add: used_ports_def)

lemma create_service_first:
  assumes "p \<noteq> 0"
  shows "client_create_service e n (node_port_service e m ow sel port p) nw =
    (case sx_serviceErr e n of
       Some x \<Rightarrow> (Some x, nw)
     | None \<Rightarrow> if has_service (sx_ns e) m nw then (Some ''services already exists'', nw)
         else if p \<in> set (used_ports nw) then (Some PortTaken, nw)
         else (None, nw\<lparr>nw_services := nw_services nw @ [node_port_service e m ow sel port p]\<rparr>))"
  using assms by (simp add: client_create_service_def port_given_def node_port_service_def split: option.split)

lemma create_service_any:
  "client_create_service e n (node_port_service e m ow sel port 0) nw =
    (case sx_serviceErr e n of
       Some x \<Rightarrow> (Some x, nw)
     | None \<Rightarrow> if has_service (sx_ns e) m nw then (Some ''services already exists'', nw)
         else (case sx_pickPort e (used_ports nw) of
             None \<Rightarrow> (Some ''failed to allocate a nodePort'', nw)
           | Some p \<Rightarrow> (None, nw\<lparr>nw_services := nw_services nw @ [node_port_service e m ow sel port p]\<rparr>)))"
  by (simp add: client_create_service_def port_given_def node_port_service_def used_nonzero split: option.split)

lemma create_node_port_service_port:
  "case port_for e u nw of
     None \<Rightarrow> fst (create_node_port_service e u (node_port_service e (np_name e u) ow sel port) nw) \<noteq> None \<and>
       snd (create_node_port_service e u (node_port_service e (np_name e u) ow sel port) nw) = nw
   | Some p \<Rightarrow> create_node_port_service e u (node_port_service e (np_name e u) ow sel port) nw =
       (None, nw\<lparr>nw_services := nw_services nw @ [node_port_service e (np_name e u) ow sel port p]\<rparr>)"
proof -
  have ne: "userPort u \<noteq> 0" using userPort_range [of u] by simp
  note defs = str_contains_self create_node_port_service_def create_service_first [OF ne] create_service_any port_for_def chosen_port_def
  have other: "\<not> str_contains ''services already exists'' PortTaken"
    using str_contains_length [of "''services already exists''" PortTaken] by fastforce
  show ?thesis
    by (cases "has_service (sx_ns e) (np_name e u) nw"; cases "sx_serviceErr e 0"; cases "sx_serviceErr e 1"; cases "sx_pickPort e (used_ports nw)")
      (simp_all add: defs other del: str_contains.simps)
qed

lemma port_for_free: "port_for e u nw = Some p \<Longrightarrow> picks_free e \<Longrightarrow>
    \<not> has_service (sx_ns e) (np_name e u) nw \<and> nodePortStart \<le> p \<and> p \<le> nodePortEnd \<and> p \<notin> set (used_ports nw)"
  using userPort_range [of u] by (auto simp: port_for_def chosen_port_def picks_free_def split: if_splits option.splits)

lemma answer_host:
  assumes "node_port_answer e n sel nw = Inr (host, p)"
  shows "\<exists>pod \<in> set (nw_pods nw). lp_namespace pod = sx_ns e \<and> (\<forall>(k, v) \<in> set sel. gm_get (lp_labels pod) k = Some v) \<and>
    (\<exists>ty addrs. sx_nodeAddresses e (lp_nodeName pod) = Inr addrs \<and> (ty, host) \<in> set addrs \<and> (ty = ''ExternalIP'' \<or> ty = ''InternalIP''))"
proof -
  obtain pod pods addrs ty where pod: "matching_pods (sx_ns e) sel nw = pod # pods" "sx_nodeAddresses e (lp_nodeName pod) = Inr addrs"
    "address_of_type ty addrs = Some host" "ty = ''ExternalIP'' \<or> ty = ''InternalIP''"
    using assms by (auto simp: node_port_answer_def Let_def split: if_splits option.splits list.splits sum.splits)
  have "pod \<in> set (matching_pods (sx_ns e) sel nw)" by (simp add: pod(1))
  moreover have "(ty, host) \<in> set addrs" using pod(3) by (auto simp: address_of_type_def find_Some_iff) (metis nth_mem)
  ultimately show ?thesis using pod(2,4) by (auto simp: matching_pods_def list_all_iff)
qed

text \<open>Claim C15. The node port of a request, on every branch.  A service is created exactly when a port can be had (\<open>port_for\<close>: the hash of the
  user's name while it is free, then any port the cluster gives), selects the pods asked for and stays whatever is answered
  then; its port was free and lies in the range of node ports.  A success names that port, and an address of the node
  that runs a pod of the job; without a port the answer is an error and nothing changes.
\<close>

theorem node_port_outcome:
  assumes "picks_free e" and "CreateNodePort e ow sel (Some port) u nw = (r, nw1)"
  shows "case port_for e u nw of
       None \<Rightarrow> (\<exists>x. r = Inl x) \<and> nw1 = nw
     | Some p \<Rightarrow> nw1 = nw\<lparr>nw_services := nw_services nw @ [node_port_service e (np_name e u) ow sel port p]\<rparr> \<and>
         p \<notin> set (used_ports nw) \<and> nodePortStart \<le> p \<and> p \<le> nodePortEnd \<and>
         (\<forall>host q. r = Inr (host, q) \<longrightarrow> q = p \<and>
            (\<exists>pod \<in> set (nw_pods nw). lp_namespace pod = sx_ns e \<and> (\<forall>(k, v) \<in> set sel. gm_get (lp_labels pod) k = Some v) \<and>
               (\<exists>ty addrs. sx_nodeAddresses e (lp_nodeName pod) = Inr addrs \<and> (ty, host) \<in> set addrs \<and> (ty = ''ExternalIP'' \<or> ty = ''InternalIP''))))"
proof -
  obtain x nw2 where c: "create_node_port_service e u (node_port_service e (np_name e u) ow sel port) nw = (x, nw2)" by fastforce
  note made = create_node_port_service_port [where e = e and u = u and nw = nw and ow = ow and sel = sel and port = port, unfolded c]
  show ?thesis
  proof (cases "port_for e u nw")
    case None
    with made assms(2) c show ?thesis by (auto simp: CreateNodePort_def)
  next
    case (Some p)
    let ?svc = "node_port_service e (np_name e u) ow sel port p"
    from Some made have x: "x = None" and nw2: "nw2 = nw\<lparr>nw_services := nw_services nw @ [?svc]\<rparr>" by simp_all
    have r: "r = node_port_answer e (np_name e u) sel nw2" "nw1 = nw2" using assms(2) c x by (auto simp: CreateNodePort_def)
    note free = port_for_free [OF Some assms(1)]
    have f: "find (\<lambda>v. sv_name v = np_name e u \<and> sv_namespace v = sx_ns e) (nw_services nw2) = Some ?svc"
      unfolding nw2 using free by (simp add: find_added has_service_def)
    have "q = p" if "r = Inr (host, q)" for host q using answer_found [OF that [unfolded r(1)]] f by auto
    moreover have "nw_pods nw2 = nw_pods nw" by (simp add: nw2)
    ultimately show ?thesis using Some r nw2 free answer_host [of e "np_name e u" sel nw2] by auto
  qed
qed

text \<open>The hash agrees with the published test vectors of FNV-1a.\<close>

lemma fnv32a_vectors: "fnv32a [] = 0x811c9dc5" "fnv32a ''a'' = 0xe40c292c" "fnv32a ''foobar'' = 0xbf9cf968"
  by (simp_all add: fnv32a_def fnv_step_def)

text \<open>
  A node port that cannot be announced is not given back: when the service exists but no pod is found or placed yet, the request
  fails and the service, with its port, stays.
\<close>

theorem failed_node_port_leaves_service:
  assumes "create_node_port_service e u (node_port_service e (np_name e u) ow sel port) nw = (None, nw1)"
    and "matching_pods (sx_ns e) sel nw = []"
  shows "\<exists>x. CreateNodePort e ow sel (Some port) u nw = (Inl x, nw1) \<and> length (nw_services nw1) = Suc (length (nw_services nw))"
proof -
  let ?svc = "node_port_service e (np_name e u) ow sel port"
  have added: "client_create_service e n (?svc q) nw = (None, nw1) \<Longrightarrow> \<exists>v. nw1 = nw\<lparr>nw_services := nw_services nw @ [v]\<rparr>" for n q
    using client_create_service_None by blast
  have "\<exists>v. nw1 = nw\<lparr>nw_services := nw_services nw @ [v]\<rparr>"
  proof (cases "client_create_service e 0 (?svc (userPort u)) nw")
    case (Pair x nw2)
    show ?thesis
    proof (cases x)
      case None
      with Pair assms(1) added [of 0 "userPort u"] show ?thesis by (simp add: create_node_port_service_def)
    next
      case (Some y)
      with Pair client_create_service_Some [of e 0 "?svc (userPort u)" nw y nw2] have "nw2 = nw" by simp
      with Some Pair assms(1) added [of 1 0] show ?thesis by (simp add: create_node_port_service_def split: if_splits)
    qed
  qed
  then obtain v where v: "nw1 = nw\<lparr>nw_services := nw_services nw @ [v]\<rparr>" ..
  then have "matching_pods (sx_ns e) sel nw1 = []" using assms(2) by (simp add: matching_pods_def)
  then have "\<exists>x. node_port_answer e (np_name e u) sel nw1 = Inl x" by (simp add: node_port_answer_def Let_def split: option.split)
  with assms(1) v show ?thesis by (auto simp: CreateNodePort_def)
qed

section \<open>Where an address leads\<close>

text \<open>A request to an address reaches the pods that the service behind the ingress selects, on the service's port.\<close>

definition reaches :: "string \<Rightarrow> string \<Rightarrow> (string, string) gomap \<Rightarrow> int \<Rightarrow> 'q network \<Rightarrow> bool" where
  "reaches host path sel port nw \<longleftrightarrow>
     (\<exists>i \<in> set (nw_ingresses nw). ig_host i = host \<and> ig_path i = path \<and>
        (\<exists>v. find (\<lambda>v. sv_name v = ig_service i \<and> sv_namespace v = ig_namespace i) (nw_services nw) = Some v \<and>
           sv_selector v = sel \<and> po_port (sv_port v) = port \<and> ig_port i = port))"

lemma behind_reaches:
  assumes "create_behind_ingress e (cluster_ip_service e n ow sel an p) (service_ingress e m ow sel host path n p secret) url nw = (Inr x, nw1)"
  shows "x = url \<and> reaches host path sel (po_port p) nw1"
proof -
  let ?svc = "cluster_ip_service e n ow sel an p" let ?ing = "service_ingress e m ow sel host path n p secret"
  obtain nw2 where c: "client_create_service e 0 ?svc nw = (None, nw2)" "client_create_ingress e ?ing nw2 = (None, nw1)" "x = url"
    using assms by (auto simp: create_behind_ingress_def split: prod.splits option.splits)
  from client_create_service_None [OF c(1)] have s: "\<not> has_service (sx_ns e) n nw" "nw_services nw2 = nw_services nw @ [?svc]"
    by (auto simp: cluster_ip_service_def port_given_def)
  have f: "find (\<lambda>v. sv_name v = n \<and> sv_namespace v = sx_ns e) (nw_services nw2) = Some ?svc"
    unfolding s(2) using s(1) by (intro find_added) (simp_all add: has_service_def cluster_ip_service_def)
  have i: "nw_ingresses nw1 = nw_ingresses nw2 @ [?ing]" "nw_services nw1 = nw_services nw2"
    using c(2) by (auto simp: client_create_ingress_def split: option.splits if_splits)
  have "reaches host path sel (po_port p) nw1"
    unfolding reaches_def using f i by (intro bexI [of _ ?ing]) (simp_all add: service_ingress_def cluster_ip_service_def)
  with c(3) show ?thesis by simp
qed

text \<open>
  An address that is announced leads to the job: the answer names the host and the path of an ingress whose service selects
  exactly the job's pods, on the port asked for.
\<close>

theorem announced_address_reaches_pods:
  assumes "CreateIngressWithPrefix e ow sel (Some port) host prefix nw = (Inr url, nw1)"
    and "prefix \<noteq> []" "hd prefix \<noteq> CHR ''/''"
  shows "url = ''https://'' @ host @ ''/ingress/'' @ prefix \<and> reaches host (''/ingress/'' @ prefix) sel (po_port port) nw1"
proof -
  let ?n = "''svc-'' @ prefix @ ''-'' @ po_name port"
  have "create_behind_ingress e (cluster_ip_service e ?n ow sel [] port)
      (service_ingress e (''ing-'' @ prefix @ ''-'' @ po_name port) ow sel host (''/ingress/'' @ prefix) ?n port (sx_tlsSecretName e))
      (''https://'' @ host @ ''/ingress/'' @ prefix) nw = (Inr url, nw1)"
    using assms by (simp add: CreateIngressWithPrefix_def Let_def)
  from behind_reaches [OF this] show ?thesis by simp
qed

text \<open>A forwarded port has a host of its own, a random name below the platform's.\<close>

theorem forwarded_port_reaches_pods:
  assumes "CreateIngress e ow sel (Some port) host u nw = (Inr url, nw1)"
  shows "url = ''https://'' @ take 5 (sx_uuid e) @ ''.'' @ host @ ''/'' \<and>
    reaches (take 5 (sx_uuid e) @ ''.'' @ host) ''/'' sel (po_port port) nw1"
proof -
  let ?r = "take 5 (sx_uuid e)"
  let ?n = "''svc-'' @ u @ ''-'' @ ?r @ ''-'' @ po_name port"
  have "create_behind_ingress e (cluster_ip_service e ?n ow sel [(AnnotationKeyPortName, po_name port)] port)
      (service_ingress e (''ing-'' @ u @ ''-'' @ ?r @ ''-'' @ po_name port) ow sel (?r @ ''.'' @ host) ''/'' ?n port (sx_tlsForwardSecretName e))
      (''https://'' @ ?r @ ''.'' @ host @ ''/'') nw = (Inr url, nw1)"
    using assms by (simp add: CreateIngress_def Let_def)
  from behind_reaches [OF this] show ?thesis by simp
qed

section \<open>Examples\<close>

definition sample_network :: "int network" where
  "sample_network = \<lparr>nw_services = [], nw_ingresses = [], nw_pods = [\<lparr>lp_name = ''p'', lp_namespace = ''jobs'', lp_labels = [(''k'', ''v'')],
     lp_annotations = Some [], lp_nodeName = ''n1'', lp_phase = ''Running'', lp_podIP = ''10.0.0.1'', lp_containers = []\<rparr>]\<rparr>"

definition quiet_services :: service_env where
  "quiet_services = \<lparr>sx_ns = ''jobs'', sx_uuid = ''abcdef'', sx_serviceErr = (\<lambda>n. None), sx_ingressErr = None, sx_readErr = None, sx_listErr = None,
     sx_pickPort = (\<lambda>used. if 30000 \<in> set used then None else Some 30000), sx_nodeAddresses = (\<lambda>n. Inr [(''InternalIP'', ''10.0.0.9'')]),
     sx_tlsSecretName = ''tls'', sx_tlsForwardSecretName = ''tlsf''\<rparr>"

definition ssh_port :: service_port where
  "ssh_port = \<lparr>po_name = ''ssh'', po_protocol = ''TCP'', po_port = 22, po_targetPort = 22, po_nodePort = 0\<rparr>"

lemmas sample_network_defs = sample_network_def quiet_services_def ssh_port_def

lemma sample_node_port:
  "CreateNodePort quiet_services [] [(''k'', ''v'')] (Some ssh_port) ''ann'' sample_network =
     (Inr (''10.0.0.9'', userPort ''ann''), sample_network\<lparr>nw_services := [node_port_service quiet_services (np_name quiet_services ''ann'') [] [(''k'', ''v'')] ssh_port (userPort ''ann'')]\<rparr>)"
proof -
  have "userPort ''ann'' \<noteq> 0" using userPort_range [of "''ann''"] by simp
  then show ?thesis
    by (simp add: CreateNodePort_def create_node_port_service_def client_create_service_def port_given_def has_service_def used_ports_def node_port_answer_def
        matching_pods_def address_of_type_def node_port_service_def np_name_def sample_network_defs Let_def)
qed

lemma quiet_picks_free: "picks_free quiet_services"
  by (simp add: picks_free_def quiet_services_def)

lemma node_port_outcome_witness:
  "\<exists>nw1. CreateNodePort quiet_services [] [(''k'', ''v'')] (Some ssh_port) ''ann'' sample_network = (Inr (''10.0.0.9'', userPort ''ann''), nw1) \<and>
     nw_services nw1 = [node_port_service quiet_services (np_name quiet_services ''ann'') [] [(''k'', ''v'')] ssh_port (userPort ''ann'')]"
proof -
  have "port_for quiet_services ''ann'' sample_network = Some (userPort ''ann'')"
    by (simp add: port_for_def has_service_def used_ports_def quiet_services_def sample_network_def)
  with node_port_outcome [OF quiet_picks_free sample_node_port] sample_node_port show ?thesis by (simp add: sample_network_def)
qed

lemma failed_node_port_leaves_service_witness:
  "\<exists>x nw1. CreateNodePort quiet_services [] [(''k'', ''other'')] (Some ssh_port) ''ann'' sample_network = (Inl x, nw1) \<and> length (nw_services nw1) = 1"
proof -
  let ?nw1 = "sample_network\<lparr>nw_services := [node_port_service quiet_services (np_name quiet_services ''ann'') [] [(''k'', ''other'')] ssh_port (userPort ''ann'')]\<rparr>"
  have "userPort ''ann'' \<noteq> 0" using userPort_range [of "''ann''"] by simp
  then have "create_node_port_service quiet_services ''ann'' (node_port_service quiet_services (np_name quiet_services ''ann'') [] [(''k'', ''other'')] ssh_port) sample_network =
      (None, ?nw1)"
    by (simp add: create_node_port_service_def client_create_service_def port_given_def has_service_def used_ports_def node_port_service_def sample_network_defs Let_def)
  from failed_node_port_leaves_service [OF this] show ?thesis by (auto simp: matching_pods_def sample_network_defs)
qed

lemma announced_address_reaches_pods_witness:
  "\<exists>nw1. CreateIngressWithPrefix quiet_services [] [(''k'', ''v'')] (Some ssh_port) ''host'' ''ann-1'' sample_network = (Inr ''https://host/ingress/ann-1'', nw1) \<and>
     reaches ''host'' ''/ingress/ann-1'' [(''k'', ''v'')] 22 nw1"
proof -
  obtain url nw1 where c: "CreateIngressWithPrefix quiet_services [] [(''k'', ''v'')] (Some ssh_port) ''host'' ''ann-1'' sample_network = (Inr url, nw1)"
    by (simp add: CreateIngressWithPrefix_def create_behind_ingress_def client_create_service_def client_create_ingress_def has_service_def has_ingress_def
        port_given_def used_ports_def cluster_ip_service_def service_ingress_def sample_network_defs Let_def)
  from announced_address_reaches_pods [OF this] c show ?thesis by (simp add: ssh_port_def)
qed

lemma forwarded_port_reaches_pods_witness:
  "\<exists>nw1. CreateIngress quiet_services [] [(''k'', ''v'')] (Some ssh_port) ''host'' ''ann'' sample_network = (Inr ''https://abcde.host/'', nw1) \<and>
     reaches ''abcde.host'' ''/'' [(''k'', ''v'')] 22 nw1"
proof -
  obtain url nw1 where c: "CreateIngress quiet_services [] [(''k'', ''v'')] (Some ssh_port) ''host'' ''ann'' sample_network = (Inr url, nw1)"
    by (simp add: CreateIngress_def create_behind_ingress_def client_create_service_def client_create_ingress_def has_service_def has_ingress_def
        port_given_def used_ports_def cluster_ip_service_def service_ingress_def sample_network_defs Let_def)
  from forwarded_port_reaches_pods [OF this] c show ?thesis by (simp add: ssh_port_def quiet_services_def)
qed

end
