(* ===== verification/Job_Submission.thy ===== *)
theory Job_Submission imports Pod_Specs Services Quota begin

text \<open>
  The creation of Volcano jobs, \<open>internal/handler/vcjob/jupyter.go\<close>, \<open>custom.go\<close>, \<open>tensorflow.go\<close> and \<open>pytorch.go\<close>: the
  checks before, the specification of the job, its creation in the cluster and the addresses it is given.  The
  handlers write no row; the reconciler files the job when it sees it.
\<close>

section \<open>Jobs\<close>

text \<open>A policy is an action and the event that calls for it.\<close>

record 'q batch_task =
  bt_name :: string
  bt_replicas :: int
  bt_labels :: string_map
  bt_annotations :: string_map
  bt_spec :: "'q job_pod"
  bt_policies :: "(string \<times> string) list"

record 'q volcano_job =
  bj_name :: string
  bj_namespace :: string
  bj_labels :: string_map
  bj_annotations :: string_map
  bj_ttlSecondsAfterFinished :: int
  bj_minAvailable :: int
  bj_maxRetry :: int
  bj_schedulerName :: string
  bj_queue :: string
  bj_policies :: "(string \<times> string) list"
  bj_plugins :: "(string \<times> string list) list"
  bj_tasks :: "'q batch_task list"

text \<open>What the reconciler reads of a job that has just been created: it has no status yet.\<close>

definition vc_view :: "time \<Rightarrow> 'q volcano_job \<Rightarrow> 'q vc_job" where
  "vc_view t0 job =
     \<lparr>vj_name = bj_name job, vj_namespace = bj_namespace job, vj_labels = bj_labels job, vj_annotations = bj_annotations job,
      vj_creationTimestamp = t0, vj_queue = bj_queue job,
      vj_tasks = map (\<lambda>t. \<lparr>vt_name = bt_name t, vt_replicas = bt_replicas t, vt_labels = bt_labels t,
        vt_containers = map ct_resources (pd_containers (bt_spec t))\<rparr>) (bj_tasks job),
      vj_phase = [], vj_conditions = []\<rparr>"

record ('q, 'p, 't) job_site =
  js_platform :: "('q, 'p, 't) platform"
  js_store :: "'q dataset_store"
  js_network :: "'q network"

text \<open>
  The failures of the checks, in their order, and of the creation; the random text of the name, the namespace and host, and the
  environment of every address that is made.
\<close>

record 'q submit_env =
  su_Q :: "'q quantity_ops"
  su_pod :: pod_env
  su_limitErr :: "nat \<Rightarrow> fault"
  su_quotaErr :: "nat \<Rightarrow> fault"
  su_emailErr :: fault
  su_now :: time
  su_uuid :: string
  su_ns :: string
  su_host :: string
  su_createErr :: fault
  su_service :: "nat \<Rightarrow> service_env"

abbreviation (input) ThreeDaySeconds :: int where "ThreeDaySeconds \<equiv> 259200"
abbreviation (input) VolcanoSchedulerName :: string where "VolcanoSchedulerName \<equiv> ''volcano''"

text \<open>A list of names printed with \<open>%v\<close>.\<close>

fun spaced :: "string list \<Rightarrow> string" where
  "spaced [] = []"
| "spaced [n] = n"
| "spaced (n # ns) = n @ '' '' @ spaced ns"

definition fmt_names :: "string list \<Rightarrow> string" where
  "fmt_names ns = ''['' @ spaced ns @ '']''"

section \<open>The checks\<close>

definition limit_check :: "'q submit_env \<Rightarrow> jwt_message \<Rightarrow> ('q, 'p, 't) job_site \<Rightarrow> fault" where
  "limit_check e token st =
     (let dir = dst_dir (js_store st)
      in CheckJupyterLimitBeforeCreateJupyter (su_Q e) (su_limitErr e 0) (su_limitErr e 1) (su_limitErr e 2)
           (dr_members dir) (pf_jobs (js_platform st)) (dr_accounts dir) (jm_userID token) (jm_accountID token))"

definition quota_check :: "'q submit_env \<Rightarrow> jwt_message \<Rightarrow> 'q resource_list \<Rightarrow> ('q, 'p, 't) job_site \<Rightarrow> string list" where
  "quota_check e token resources st =
     CheckResourcesBeforeCreateJob (su_Q e) (su_quotaErr e 0) (su_quotaErr e 1) (dr_members (dst_dir (js_store st)))
       (pf_jobs (js_platform st)) (jm_userID token) (jm_accountID token) resources"

text \<open>The quota, then the address for alerts.\<close>

definition admission :: "'q submit_env \<Rightarrow> jwt_message \<Rightarrow> 'q resource_list \<Rightarrow> bool \<Rightarrow> ('q, 'p, 't) job_site \<Rightarrow> fault" where
  "admission e token resources alertEnabled st =
     (let exceededResources = quota_check e token resources st
      in if exceededResources \<noteq> [] then Some (fmt_names exceededResources)
         else if alertEnabled \<and> \<not> CheckUserEmail (su_emailErr e) (su_now e) (jm_userID token) (dst_dir (js_store st))
         then Some ''Email not verified'' else None)"

section \<open>In the cluster\<close>

definition client_create_job :: "'q submit_env \<Rightarrow> 'q volcano_job \<Rightarrow> ('q, 'p, 't) job_site \<Rightarrow> fault \<times> ('q, 'p, 't) job_site" where
  "client_create_job e job st =
     (case su_createErr e of
        Some x \<Rightarrow> (Some x, st)
      | None \<Rightarrow>
          let pf = js_platform st
          in if find_vcjob (bj_namespace job) (bj_name job) pf \<noteq> None then (Some ''jobs already exists'', st)
             else (None, st\<lparr>js_platform := pf\<lparr>pf_vcjobs := pf_vcjobs pf @ [vc_view (su_now e) job]\<rparr>\<rparr>))"

definition owner_of :: "'q volcano_job \<Rightarrow> owner_reference list" where
  "owner_of job = [\<lparr>or_apiVersion = ''batch.volcano.sh/v1alpha1'', or_kind = ''Job'', or_name = bj_name job\<rparr>]"

definition tcp_port :: "string \<Rightarrow> int \<Rightarrow> service_port" where
  "tcp_port n p = \<lparr>po_name = n, po_protocol = ''TCP'', po_port = p, po_targetPort = p, po_nodePort = 0\<rparr>"

text \<open>The loop over the forwards of a request; the number of an address selects its environment.\<close>

fun create_forwards ::
  "'q submit_env \<Rightarrow> jwt_message \<Rightarrow> 'q volcano_job \<Rightarrow> nat \<Rightarrow> forward list \<Rightarrow> ('q, 'p, 't) job_site \<Rightarrow> fault \<times> ('q, 'p, 't) job_site" where
  "create_forwards e token job n [] st = (None, st)"
| "create_forwards e token job n (f # fs) st =
     (case CreateIngress (su_service e n) (owner_of job) (bj_labels job) (Some (tcp_port (fw_name f) (fw_port f)))
         (su_host e) (jm_username token) (js_network st) of
        (Inl x, nw) \<Rightarrow> (Some (''failed to create ingress for '' @ fw_name f @ '': '' @ x), st\<lparr>js_network := nw\<rparr>)
      | (Inr path, nw) \<Rightarrow> create_forwards e token job (Suc n) fs (st\<lparr>js_network := nw\<rparr>))"

definition base_url :: "'q submit_env \<Rightarrow> nat \<Rightarrow> jwt_message \<Rightarrow> string" where
  "base_url e n token = jm_username token @ ''-'' @ take n (su_uuid e)"

text \<open>What the four kinds of jobs have in common.\<close>

abbreviation (input) RestartOnEviction :: "(string \<times> string) list" where
  "RestartOnEviction \<equiv> [(''RestartJob'', ''PodEvicted'')]"

definition with_metadata :: "'q submit_env \<Rightarrow> jwt_message \<Rightarrow> string \<Rightarrow> job_common \<Rightarrow> string \<Rightarrow> string \<Rightarrow>
    (string_map \<Rightarrow> string_map \<Rightarrow> 'q batch_task list) \<Rightarrow> 'q volcano_job" where
  "with_metadata e token kind cm baseURL jobName tasks =
     (let (labels, jobAnnotations, podAnnotations) =
        getLabelAndAnnotations kind token baseURL (cm_name cm) (cm_template cm) (cm_alertEnabled cm)
      in \<lparr>bj_name = jobName, bj_namespace = su_ns e, bj_labels = labels, bj_annotations = jobAnnotations,
          bj_ttlSecondsAfterFinished = ThreeDaySeconds, bj_minAvailable = 1, bj_maxRetry = 1, bj_schedulerName = VolcanoSchedulerName,
          bj_queue = jm_accountName token, bj_policies = RestartOnEviction, bj_plugins = [], bj_tasks = tasks labels podAnnotations\<rparr>)"

section \<open>Custom jobs\<close>

definition custom_job :: "'q submit_env \<Rightarrow> jwt_message \<Rightarrow> 'q custom_req \<Rightarrow> 'q job_pod \<Rightarrow> 'q volcano_job" where
  "custom_job e token req spec =
     (let baseURL = base_url e 5 token
      in with_metadata e token ''custom'' (cq_common req) baseURL (''single-'' @ baseURL)
           (\<lambda>labels podAnnotations. [\<lparr>bt_name = [], bt_replicas = 1, bt_labels = labels, bt_annotations = podAnnotations, bt_spec = spec,
              bt_policies = [(''CompleteJob'', ''TaskCompleted'')]\<rparr>]))"

definition CreateTrainingJob ::
  "'q submit_env \<Rightarrow> jwt_message \<Rightarrow> 'q custom_req option \<Rightarrow> ('q, 'p, 't) job_site \<Rightarrow> 'q volcano_job result \<times> ('q, 'p, 't) job_site" where
  "CreateTrainingJob e token body st =
     (case body of
        None \<Rightarrow> (Inl ''bad request'', st)
      | Some req \<Rightarrow> (case admission e token (or_empty (cq_resource req)) (cm_alertEnabled (cq_common req)) st of
          Some x \<Rightarrow> (Inl x, st)
        | None \<Rightarrow> (case GenerateCustomPodSpec (su_Q e) (su_pod e) token req (js_store st) of
            Inl x \<Rightarrow> (Inl x, st)
          | Inr spec \<Rightarrow>
              let job = custom_job e token req spec
              in (case client_create_job e job st of
                  (Some x, st1) \<Rightarrow> (Inl x, st1)
                | (None, st1) \<Rightarrow> (case create_forwards e token job 0 (cm_forwards (cq_common req)) st1 of
                    (Some x, st2) \<Rightarrow> (Inl x, st2)
                  | (None, st2) \<Rightarrow> (Inr job, st2))))))"

section \<open>Jupyter\<close>

record 'q jupyter_req =
  jq_common :: job_common
  jq_resource :: "'q resource_list option"
  jq_image :: image_base_info

abbreviation (input) JupyterPort :: int where "JupyterPort \<equiv> 8888"

text \<open>
  The command that starts the notebook, and the script it needs in an image that is not made for notebooks; the name of the
  image decides.
\<close>

definition jupyter_command :: "string \<Rightarrow> jwt_message \<Rightarrow> string \<Rightarrow> string" where
  "jupyter_command imageLink token baseURL =
     (if str_contains imageLink ''jupyter'' then
        ''start.sh jupyter lab --allow-root --notebook-dir=/home/'' @ jm_username token @
        '' --NotebookApp.base_url=/ingress/'' @ baseURL @ ''/ --ResourceUseDisplay.track_cpu_percent=True''
      else ''/usr/bin/start.sh '' @ (if str_contains imageLink ''envd'' then ''/opt/conda/envs/envd/bin/jupyter'' else ''jupyter'') @
        '' lab --ip=0.0.0.0 --no-browser --allow-root --notebook-dir=/home/'' @ jm_username token @
        '' --NotebookApp.base_url=/ingress/'' @ baseURL @ ''/ '')"

definition jupyter_volumes :: "string \<Rightarrow> volume list \<Rightarrow> volume list" where
  "jupyter_volumes imageLink volumes =
     (if str_contains imageLink ''jupyter'' then volumes
      else volumes @ [\<lparr>vo_name = ''bash-script-volume'', vo_source = ConfigMapSource
        (if str_contains imageLink ''envd'' then ''envd-jupyter-start-configmap'' else ''jupyter-start-configmap'') 493\<rparr>])"

definition jupyter_mounts :: "string \<Rightarrow> volume_mount list \<Rightarrow> volume_mount list" where
  "jupyter_mounts imageLink mounts =
     (if str_contains imageLink ''jupyter'' then mounts
      else mounts @ [\<lparr>mt_name = ''bash-script-volume'', mt_subPath = ''start.sh'', mt_mountPath = ''/usr/bin/start.sh'', mt_readOnly = True\<rparr>])"

definition jupyter_spec ::
  "'q submit_env \<Rightarrow> jwt_message \<Rightarrow> 'q jupyter_req \<Rightarrow> string \<Rightarrow> volume list \<Rightarrow> volume_mount list \<Rightarrow> 'q directory \<Rightarrow> 'q job_pod" where
  "jupyter_spec e token req baseURL volumes mounts dir =
     (let cm = jq_common req; image = ib_imageLink (jq_image req); p = su_pod e in
      \<lparr>pd_affinity = GenerateArchitectureNodeAffinity (jq_image req) (GenerateNodeAffinity (su_Q e) (cm_selectors cm) (jq_resource req)),
       pd_tolerations = GenerateTaintTolerationsForAccount token, pd_volumes = jupyter_volumes image volumes,
       pd_imagePullSecrets = pull_secrets (pe_imagePullSecretName p),
       pd_containers = [\<lparr>ct_name = ''jupyter'', ct_image = image, ct_command = [''bash'', ''-c'', jupyter_command image token baseURL],
         ct_workingDir = ''/home/'' @ jm_username token, ct_resources = or_empty (jq_resource req),
         ct_env = GenerateEnvs (pe_envUserErr p) token dir (cm_envs cm) @ [env_value ''GRANT_SUDO'' ''1'', env_value ''CHOWN_HOME'' ''1''],
         ct_ports = [\<lparr>cp_name = ''notebook'', cp_port = JupyterPort\<rparr>], ct_capabilities = [],
         ct_volumeMounts = jupyter_mounts image mounts\<rparr>],
       pd_restartPolicy = ''Never''\<rparr>)"

definition jupyter_job :: "'q submit_env \<Rightarrow> jwt_message \<Rightarrow> 'q jupyter_req \<Rightarrow> volume list \<Rightarrow> volume_mount list \<Rightarrow> 'q directory \<Rightarrow> 'q volcano_job" where
  "jupyter_job e token req volumes mounts dir =
     (let baseURL = base_url e 5 token
      in with_metadata e token ''jupyter'' (jq_common req) baseURL (''jupyter-'' @ baseURL)
           (\<lambda>labels podAnnotations. [\<lparr>bt_name = [], bt_replicas = 1, bt_labels = labels, bt_annotations = podAnnotations,
              bt_spec = jupyter_spec e token req baseURL volumes mounts dir, bt_policies = []\<rparr>]))"

definition CreateJupyterJob ::
  "'q submit_env \<Rightarrow> jwt_message \<Rightarrow> 'q jupyter_req option \<Rightarrow> ('q, 'p, 't) job_site \<Rightarrow> 'q volcano_job result \<times> ('q, 'p, 't) job_site" where
  "CreateJupyterJob e token body st =
     (case body of
        None \<Rightarrow> (Inl ''bad request'', st)
      | Some req \<Rightarrow> (case limit_check e token st of
          Some x \<Rightarrow> (Inl x, st)
        | None \<Rightarrow> (case admission e token (or_empty (jq_resource req)) (cm_alertEnabled (jq_common req)) st of
            Some x \<Rightarrow> (Inl x, st)
          | None \<Rightarrow> (case GenerateVolumeMounts (pe_mounts (su_pod e)) (cm_volumeMounts (jq_common req)) token (js_store st) of
              Inl x \<Rightarrow> (Inl x, st)
            | Inr (volumes, mounts) \<Rightarrow>
                let job = jupyter_job e token req volumes mounts (dst_dir (js_store st))
                in (case client_create_job e job st of
                    (Some x, st1) \<Rightarrow> (Inl x, st1)
                  | (None, st1) \<Rightarrow>
                      (case CreateIngressWithPrefix (su_service e 0) (owner_of job) (bj_labels job) (Some (tcp_port ''notebook'' JupyterPort))
                          (su_host e) (base_url e 5 token) (js_network st1) of
                         (Inl x, nw) \<Rightarrow> (Inl (''failed to create ingress: '' @ x), st1\<lparr>js_network := nw\<rparr>)
                       | (Inr path, nw) \<Rightarrow>
                           (case create_forwards e token job 1 (cm_forwards (jq_common req)) (st1\<lparr>js_network := nw\<rparr>) of
                              (Some x, st2) \<Rightarrow> (Inl x, st2)
                            | (None, st2) \<Rightarrow> (Inr job, st2))))))))"

section \<open>Parallel jobs\<close>

record 'q parallel_req =
  lr_common :: job_common
  lr_tasks :: "'q task_req list"

text \<open>The resources that are checked: those of each task, once.\<close>

definition parallel_resources :: "'q quantity_ops \<Rightarrow> 'q task_req list \<Rightarrow> 'q resource_list" where
  "parallel_resources Q tasks = fold (\<lambda>t a. AddResourceList Q a (or_empty (tr_resource t))) tasks []"

definition int32 :: "int \<Rightarrow> int" where
  "int32 i = (i + 2 ^ 31) mod 2 ^ 32 - 2 ^ 31"

definition min_available :: "'q task_req list \<Rightarrow> int" where
  "min_available tasks = fold (\<lambda>t m. int32 (m + tr_replicas t)) tasks 0"

definition parallel_spec ::
  "'q submit_env \<Rightarrow> jwt_message \<Rightarrow> 'q parallel_req \<Rightarrow> volume list \<Rightarrow> volume_mount list \<Rightarrow> 'q directory \<Rightarrow> 'q task_req \<Rightarrow> 'q job_pod" where
  "parallel_spec e token req volumes mounts dir task =
     generatePodSpecForParallelJob (pe_imagePullSecretName (su_pod e)) task
       (GenerateArchitectureNodeAffinity (tr_image task)
          (GenerateNodeAffinity (su_Q e) (cm_selectors (lr_common req)) (Some (parallel_resources (su_Q e) (lr_tasks req)))))
       (GenerateTaintTolerationsForAccount token) volumes mounts
       (GenerateEnvs (pe_envUserErr (su_pod e)) token dir (cm_envs (lr_common req))) (tr_ports task)"

definition tensorflow_job :: "'q submit_env \<Rightarrow> jwt_message \<Rightarrow> 'q parallel_req \<Rightarrow> volume list \<Rightarrow> volume_mount list \<Rightarrow> 'q directory \<Rightarrow> 'q volcano_job" where
  "tensorflow_job e token req volumes mounts dir =
     (let baseURL = base_url e 6 token
      in (with_metadata e token ''tensorflow'' (lr_common req) baseURL (''tf-'' @ baseURL)
           (\<lambda>labels podAnnotations. map (\<lambda>task. \<lparr>bt_name = tr_name task, bt_replicas = tr_replicas task, bt_labels = labels,
              bt_annotations = podAnnotations, bt_spec = parallel_spec e token req volumes mounts dir task,
              bt_policies = (if tr_name task = ''worker'' then [(''CompleteJob'', ''TaskCompleted'')] else [])\<rparr>) (lr_tasks req)))
         \<lparr>bj_minAvailable := min_available (lr_tasks req), bj_maxRetry := 0, bj_plugins := [(''env'', []), (''svc'', [])]\<rparr>)"

definition pytorch_job :: "'q submit_env \<Rightarrow> jwt_message \<Rightarrow> 'q parallel_req \<Rightarrow> volume list \<Rightarrow> volume_mount list \<Rightarrow> 'q directory \<Rightarrow> 'q volcano_job" where
  "pytorch_job e token req volumes mounts dir =
     (let baseURL = base_url e 5 token
      in (with_metadata e token ''pytorch'' (lr_common req) baseURL (''py-'' @ baseURL)
           (\<lambda>labels podAnnotations. map (\<lambda>task.
              (let spec = parallel_spec e token req volumes mounts dir task
               in \<lparr>bt_name = tr_name task, bt_replicas = tr_replicas task, bt_labels = labels, bt_annotations = podAnnotations,
                   bt_spec = (if tr_name task = ''worker'' then spec\<lparr>pd_restartPolicy := ''OnFailure''\<rparr> else spec),
                   bt_policies = (if tr_name task = ''master''
                     then [(''CompleteJob'', ''TaskCompleted''), (''TerminateJob'', ''PodFailed'')] else [])\<rparr>)) (lr_tasks req)))
         \<lparr>bj_minAvailable := min_available (lr_tasks req), bj_maxRetry := 0,
           bj_plugins := [(''pytorch'', [''--master=master'', ''--worker=worker'', ''--port=23456''])]\<rparr>)"

text \<open>The two handlers differ in the job they build.\<close>

definition create_parallel ::
  "(volume list \<Rightarrow> volume_mount list \<Rightarrow> 'q volcano_job) \<Rightarrow> 'q submit_env \<Rightarrow> jwt_message \<Rightarrow> 'q parallel_req \<Rightarrow> ('q, 'p, 't) job_site \<Rightarrow>
   'q volcano_job result \<times> ('q, 'p, 't) job_site" where
  "create_parallel build e token req st =
     (case admission e token (parallel_resources (su_Q e) (lr_tasks req)) (cm_alertEnabled (lr_common req)) st of
        Some x \<Rightarrow> (Inl x, st)
      | None \<Rightarrow> (case GenerateVolumeMounts (pe_mounts (su_pod e)) (cm_volumeMounts (lr_common req)) token (js_store st) of
          Inl x \<Rightarrow> (Inl x, st)
        | Inr (volumes, mounts) \<Rightarrow>
            (case client_create_job e (build volumes mounts) st of
               (Some x, st1) \<Rightarrow> (Inl x, st1)
             | (None, st1) \<Rightarrow> (Inr (build volumes mounts), st1))))"

definition CreateTensorflowJob ::
  "'q submit_env \<Rightarrow> jwt_message \<Rightarrow> 'q parallel_req option \<Rightarrow> ('q, 'p, 't) job_site \<Rightarrow> 'q volcano_job result \<times> ('q, 'p, 't) job_site" where
  "CreateTensorflowJob e token body st =
     (case body of
        None \<Rightarrow> (Inl ''bad request'', st)
      | Some req \<Rightarrow> create_parallel (\<lambda>vs ms. tensorflow_job e token req vs ms (dst_dir (js_store st))) e token req st)"

definition CreatePytorchJob ::
  "'q submit_env \<Rightarrow> jwt_message \<Rightarrow> 'q parallel_req option \<Rightarrow> ('q, 'p, 't) job_site \<Rightarrow> 'q volcano_job result \<times> ('q, 'p, 't) job_site" where
  "CreatePytorchJob e token body st =
     (case body of
        None \<Rightarrow> (Inl ''bad request'', st)
      | Some req \<Rightarrow> create_parallel (\<lambda>vs ms. pytorch_job e token req vs ms (dst_dir (js_store st))) e token req st)"

section \<open>Accepted requests\<close>

text \<open>A request of one of the four kinds was accepted: its handler answered with the job.\<close>

inductive submission ::
  "'q submit_env \<Rightarrow> jwt_message \<Rightarrow> string \<Rightarrow> job_common \<Rightarrow> ('q, 'p, 't) job_site \<Rightarrow> 'q volcano_job \<Rightarrow> ('q, 'p, 't) job_site \<Rightarrow> bool"
  for e token where
  sub_custom: "CreateTrainingJob e token (Some creq) st = (Inr job, st1) \<Longrightarrow> submission e token ''custom'' (cq_common creq) st job st1"
| sub_jupyter: "CreateJupyterJob e token (Some jreq) st = (Inr job, st1) \<Longrightarrow> submission e token ''jupyter'' (jq_common jreq) st job st1"
| sub_tensorflow: "CreateTensorflowJob e token (Some req) st = (Inr job, st1) \<Longrightarrow> submission e token ''tensorflow'' (lr_common req) st job st1"
| sub_pytorch: "CreatePytorchJob e token (Some req) st = (Inr job, st1) \<Longrightarrow> submission e token ''pytorch'' (lr_common req) st job st1"

text \<open>What every job says of its request, whichever handler built it.\<close>

definition describes :: "'q submit_env \<Rightarrow> jwt_message \<Rightarrow> string \<Rightarrow> job_common \<Rightarrow> 'q volcano_job \<Rightarrow> bool" where
  "describes e token kind cm job \<longleftrightarrow>
     bj_namespace job = su_ns e \<and> bj_queue job = jm_accountName token \<and>
     map_value (bj_labels job) LabelKeyTaskUser = jm_username token \<and> map_value (bj_labels job) LabelKeyTaskType = kind \<and>
     map_value (bj_annotations job) AnnotationKeyTaskName = cm_name cm \<and>
     map_value (bj_annotations job) AnnotationKeyTaskTemplate = cm_template cm \<and>
     map_value (bj_annotations job) AnnotationKeyAlertEnabled = format_bool (cm_alertEnabled cm)"

lemma with_metadata_describes: "describes e token kind cm (with_metadata e token kind cm url n tasks)"
  by (simp add: describes_def with_metadata_def getLabelAndAnnotations_def map_value_def)

lemma jobs_describe:
  "describes e token ''custom'' (cq_common creq) (custom_job e token creq spec)"
  "describes e token ''jupyter'' (jq_common jreq) (jupyter_job e token jreq vs ms dir)"
  "describes e token ''tensorflow'' (lr_common req) (tensorflow_job e token req vs ms dir)"
  "describes e token ''pytorch'' (lr_common req) (pytorch_job e token req vs ms dir)"
  using with_metadata_describes [of e token]
  by (simp_all add: custom_job_def jupyter_job_def tensorflow_job_def pytorch_job_def Let_def describes_def)

text \<open>The cluster and the rows after a job was created.\<close>

definition in_cluster :: "'q submit_env \<Rightarrow> 'q volcano_job \<Rightarrow> ('q, 'p, 't) job_site \<Rightarrow> ('q, 'p, 't) job_site \<Rightarrow> bool" where
  "in_cluster e job st st1 \<longleftrightarrow>
     find_vcjob (bj_namespace job) (bj_name job) (js_platform st) = None \<and> js_store st1 = js_store st \<and>
     js_platform st1 = (js_platform st)\<lparr>pf_vcjobs := pf_vcjobs (js_platform st) @ [vc_view (su_now e) job]\<rparr>"

lemma client_create_job_None: "client_create_job e job st = (None, st1) \<Longrightarrow> in_cluster e job st st1"
  by (auto simp: client_create_job_def in_cluster_def Let_def split: option.splits if_splits)

lemma in_cluster_network: "in_cluster e job st (st1\<lparr>js_network := nw\<rparr>) = in_cluster e job st st1"
  by (simp add: in_cluster_def)

lemma create_forwards_keeps:
  "create_forwards e token job n fs st1 = (x, st2) \<Longrightarrow> \<exists>nw. st2 = st1\<lparr>js_network := nw\<rparr>"
proof (induction fs arbitrary: n st1)
  case Nil
  then have "st2 = st1\<lparr>js_network := js_network st1\<rparr>" by simp
  then show ?case ..
next
  case (Cons f fs)
  obtain a nw where c: "CreateIngress (su_service e n) (owner_of job) (bj_labels job) (Some (tcp_port (fw_name f) (fw_port f)))
      (su_host e) (jm_username token) (js_network st1) = (a, nw)" by fastforce
  show ?case
  proof (cases a)
    case (Inl y)
    with Cons.prems c show ?thesis by auto
  next
    case (Inr y)
    with Cons.prems c have "create_forwards e token job (Suc n) fs (st1\<lparr>js_network := nw\<rparr>) = (x, st2)" by simp
    from Cons.IH [OF this] show ?thesis by simp
  qed
qed

lemma custom_created:
  assumes "CreateTrainingJob e token (Some req) st = (Inr job, st1)"
  shows "\<exists>spec. GenerateCustomPodSpec (su_Q e) (su_pod e) token req (js_store st) = Inr spec \<and> job = custom_job e token req spec \<and>
    in_cluster e job st st1 \<and> admission e token (or_empty (cq_resource req)) (cm_alertEnabled (cq_common req)) st = None"
proof -
  obtain spec st2 where a: "admission e token (or_empty (cq_resource req)) (cm_alertEnabled (cq_common req)) st = None"
    "GenerateCustomPodSpec (su_Q e) (su_pod e) token req (js_store st) = Inr spec"
    "client_create_job e (custom_job e token req spec) st = (None, st2)"
    "create_forwards e token (custom_job e token req spec) 0 (cm_forwards (cq_common req)) st2 = (None, st1)" "job = custom_job e token req spec"
    using assms by (auto simp: CreateTrainingJob_def Let_def split: option.splits sum.splits prod.splits)
  with create_forwards_keeps [OF a(4)] client_create_job_None [OF a(3)] show ?thesis by (auto simp: in_cluster_network)
qed

lemma jupyter_created:
  assumes "CreateJupyterJob e token (Some req) st = (Inr job, st1)"
  shows "\<exists>vs ms. job = jupyter_job e token req vs ms (dst_dir (js_store st)) \<and> in_cluster e job st st1"
proof -
  obtain vs ms st2 nw path where a: "client_create_job e (jupyter_job e token req vs ms (dst_dir (js_store st))) st = (None, st2)"
    "CreateIngressWithPrefix (su_service e 0) (owner_of (jupyter_job e token req vs ms (dst_dir (js_store st))))
       (bj_labels (jupyter_job e token req vs ms (dst_dir (js_store st)))) (Some (tcp_port ''notebook'' JupyterPort))
       (su_host e) (base_url e 5 token) (js_network st2) = (Inr path, nw)"
    "create_forwards e token (jupyter_job e token req vs ms (dst_dir (js_store st))) 1 (cm_forwards (jq_common req)) (st2\<lparr>js_network := nw\<rparr>) = (None, st1)"
    "job = jupyter_job e token req vs ms (dst_dir (js_store st))"
    using assms by (auto simp: CreateJupyterJob_def Let_def split: option.splits sum.splits prod.splits)
  with create_forwards_keeps [OF a(3)] client_create_job_None [OF a(1)] show ?thesis by (auto simp: in_cluster_network)
qed

lemma parallel_created:
  assumes "create_parallel build e token req st = (Inr job, st1)"
  shows "\<exists>vs ms. GenerateVolumeMounts (pe_mounts (su_pod e)) (cm_volumeMounts (lr_common req)) token (js_store st) = Inr (vs, ms) \<and>
    job = build vs ms \<and> in_cluster e job st st1 \<and> su_createErr e = None \<and>
    admission e token (parallel_resources (su_Q e) (lr_tasks req)) (cm_alertEnabled (lr_common req)) st = None"
proof -
  obtain vs ms where a: "admission e token (parallel_resources (su_Q e) (lr_tasks req)) (cm_alertEnabled (lr_common req)) st = None"
    "GenerateVolumeMounts (pe_mounts (su_pod e)) (cm_volumeMounts (lr_common req)) token (js_store st) = Inr (vs, ms)"
    "client_create_job e (build vs ms) st = (None, st1)" "job = build vs ms"
    using assms by (auto simp: create_parallel_def split: option.splits sum.splits prod.splits)
  then have "su_createErr e = None" by (simp add: client_create_job_def split: option.splits)
  with a client_create_job_None [OF a(3)] show ?thesis by blast
qed

lemma submission_created:
  assumes "submission e token kind cm st job st1"
  shows "describes e token kind cm job \<and> in_cluster e job st st1"
  using assms
proof cases
  case (sub_custom creq)
  with custom_created [OF sub_custom(3)] jobs_describe(1) show ?thesis by blast
next
  case (sub_jupyter jreq)
  with jupyter_created [OF sub_jupyter(3)] jobs_describe(2) show ?thesis by blast
next
  case (sub_tensorflow req)
  then have "create_parallel (\<lambda>vs ms. tensorflow_job e token req vs ms (dst_dir (js_store st))) e token req st = (Inr job, st1)"
    by (simp add: CreateTensorflowJob_def)
  from parallel_created [OF this] sub_tensorflow jobs_describe(3) show ?thesis by blast
next
  case (sub_pytorch req)
  then have "create_parallel (\<lambda>vs ms. pytorch_job e token req vs ms (dst_dir (js_store st))) e token req st = (Inr job, st1)"
    by (simp add: CreatePytorchJob_def)
  from parallel_created [OF this] sub_pytorch jobs_describe(4) show ?thesis by blast
qed

section \<open>From the request to the row\<close>

lemma parse_format_bool: "parse_bool (format_bool b) = Some b"
  by (simp add: parse_bool_def format_bool_def)

lemma find_after: "find P xs = None \<Longrightarrow> P x \<Longrightarrow> find P (xs @ [x]) = Some x"
  by (induction xs) (auto split: if_splits)

text \<open>Claim C9. An accepted request becomes a row of the requester: whichever of the four kinds it is, the reconciler that next looks at the job
  files it under the user and the account of the token, with the kind, the name, the template and the wish for alerts of the
  request, and nothing else in the tables changes.
\<close>

theorem submitted_job_filed:
  assumes "submission e token kind cm st job st1"
    and "u \<in> set (pf_users (js_platform st))" "us_id u = jm_userID token" "us_name u = jm_username token"
    and "distinct (map us_name (pf_users (js_platform st)))"
    and "a \<in> set (pf_accounts (js_platform st))" "ac_id a = jm_accountID token" "ac_name a = jm_accountName token"
    and "distinct (map ac_name (pf_accounts (js_platform st)))"
    and "job_named (bj_name job) (js_platform st) = None"
    and "rc_getErr rc = None" "rc_firstErr rc = None" "rc_userErr rc = None" "rc_queueErr rc = None" "rc_createErr rc = None"
  shows "\<exists>row. Reconcile (su_Q e) rc (su_ns e) (bj_name job) (js_platform st1) =
      ((False, None), (js_platform st1)\<lparr>pf_jobs := pf_jobs (js_platform st) @ [row]\<rparr>) \<and>
    jb_jobName row = bj_name job \<and> jb_userID row = jm_userID token \<and> jb_accountID row = jm_accountID token \<and> jb_jobType row = kind \<and>
    jb_name row = cm_name cm \<and> jb_template row = cm_template cm \<and> jb_alertEnabled row = cm_alertEnabled cm \<and>
    jb_resources row = job_resources (su_Q e) (vj_tasks (vc_view (su_now e) job))"
proof -
  let ?v = "vc_view (su_now e) job" and ?p1 = "js_platform st1"
  from submission_created [OF assms(1)] have d: "describes e token kind cm job" and c: "in_cluster e job st st1" by simp_all
  have view: "vj_name ?v = bj_name job" "vj_namespace ?v = su_ns e" "vj_labels ?v = bj_labels job" "vj_annotations ?v = bj_annotations job"
    "vj_queue ?v = jm_accountName token"
    using d by (simp_all add: vc_view_def describes_def)
  have "find_vcjob (su_ns e) (bj_name job) ?p1 = Some ?v"
    using c d view by (simp add: in_cluster_def find_vcjob_def describes_def find_after)
  moreover have rows: "pf_users ?p1 = pf_users (js_platform st)" "pf_accounts ?p1 = pf_accounts (js_platform st)" "pf_jobs ?p1 = pf_jobs (js_platform st)"
    using c by (simp_all add: in_cluster_def)
  moreover have "job_named (bj_name job) ?p1 = None" using assms(10) rows by (simp add: job_named_def)
  moreover obtain row where r: "generateCreateJobModel (su_Q e) rc ?v ?p1 = Inr row" "jb_jobName row = bj_name job" "jb_userID row = us_id u" "jb_accountID row = ac_id a"
    "jb_jobType row = kind" "jb_name row = cm_name cm" "jb_template row = cm_template cm" "jb_alertEnabled row = cm_alertEnabled cm"
    "jb_resources row = job_resources (su_Q e) (vj_tasks ?v)"
    using distinct_first [OF assms(5,2)] distinct_first [OF assms(9,6)] d assms(4,8,13,14)
    by (simp add: generateCreateJobModel_def view rows describes_def parse_format_bool Let_def)
  ultimately show ?thesis
    using assms(3,7,11,12,15) by (intro exI [of _ row]) (simp add: Reconcile_def view)
qed

text \<open>The checks count rows only.  After an accepted request, of any kind, every check answers as it did before it: a user
  who is faster than the reconciler submits the same request again, under another random name, and it is accepted again.
\<close>

theorem unfiled_jobs_not_counted:
  assumes "submission e token kind cm st job st1"
    and "CreateTrainingJob e token (Some req) st = (Inr job0, st0)" and "cm_forwards (cq_common req) = []"
    and "find_vcjob (su_ns e) (''single-'' @ jm_username token @ ''-'' @ take 5 uuid) (js_platform st1) = None"
  shows "limit_check e token st1 = limit_check e token st \<and> admission e token resources alerts st1 = admission e token resources alerts st \<and>
    (\<exists>job2 st2. CreateTrainingJob (e\<lparr>su_uuid := uuid\<rparr>) token (Some req) st1 = (Inr job2, st2) \<and>
       pf_jobs (js_platform st2) = pf_jobs (js_platform st))"
proof -
  from submission_created [OF assms(1)] have c: "in_cluster e job st st1" by simp
  then have same: "js_store st1 = js_store st" "pf_jobs (js_platform st1) = pf_jobs (js_platform st)" by (simp_all add: in_cluster_def)
  have limit: "limit_check f token st1 = limit_check f token st" for f by (simp add: limit_check_def same)
  have adm: "admission f token r al st1 = admission f token r al st" for f r al by (simp add: admission_def quota_check_def same Let_def)
  have adm2: "admission (e\<lparr>su_uuid := uuid\<rparr>) token r al st1 = admission e token r al st" for r al
    by (simp add: admission_def quota_check_def same Let_def)
  from custom_created [OF assms(2)] obtain spec where s: "GenerateCustomPodSpec (su_Q e) (su_pod e) token req (js_store st) = Inr spec"
    "admission e token (or_empty (cq_resource req)) (cm_alertEnabled (cq_common req)) st = None" by blast
  have noerr: "su_createErr e = None"
    using assms(2) by (auto simp: CreateTrainingJob_def client_create_job_def Let_def split: option.splits sum.splits)
  let ?e = "e\<lparr>su_uuid := uuid\<rparr>" let ?job = "custom_job ?e token req spec"
  have name: "bj_name ?job = ''single-'' @ jm_username token @ ''-'' @ take 5 uuid" "bj_namespace ?job = su_ns e"
    by (simp_all add: custom_job_def with_metadata_def getLabelAndAnnotations_def base_url_def Let_def)
  then have "client_create_job ?e ?job st1 =
      (None, st1\<lparr>js_platform := (js_platform st1)\<lparr>pf_vcjobs := pf_vcjobs (js_platform st1) @ [vc_view (su_now e) ?job]\<rparr>\<rparr>)"
    using assms(4) noerr by (simp add: client_create_job_def Let_def)
  then have "\<exists>job2 st2. CreateTrainingJob ?e token (Some req) st1 = (Inr job2, st2) \<and> pf_jobs (js_platform st2) = pf_jobs (js_platform st)"
    using s assms(3) by (simp add: CreateTrainingJob_def adm2 same Let_def)
  with limit adm show ?thesis by simp
qed

section \<open>Replicas\<close>

lemma parallel_resources_ok: "gm_ok (parallel_resources Q tasks)"
proof -
  have "gm_ok a \<Longrightarrow> gm_ok (fold (\<lambda>t a. AddResourceList Q a (or_empty (tr_resource t))) ts a)" for a and ts :: "'a task_req list"
    by (induction ts arbitrary: a) simp_all
  then show ?thesis by (simp add: parallel_resources_def)
qed

lemma parallel_amount:
  assumes "quantity_laws Q val" and "\<forall>t \<in> set tasks. gm_ok (or_empty (tr_resource t))"
  shows "amount val (parallel_resources Q tasks) k = (\<Sum>t \<leftarrow> tasks. amount val (or_empty (tr_resource t)) k)"
proof -
  have "amount val (fold (\<lambda>t a. AddResourceList Q a (or_empty (tr_resource t))) ts a) k =
      amount val a k + (\<Sum>t \<leftarrow> ts. amount val (or_empty (tr_resource t)) k)"
    if "\<forall>t \<in> set ts. gm_ok (or_empty (tr_resource t))" for a and ts :: "'a task_req list"
    using that by (induction ts arbitrary: a) (simp_all add: amount_add [OF assms(1)])
  from this [OF assms(2), of "[]"] show ?thesis by (simp add: parallel_resources_def amount_def)
qed

definition with_replicas :: "int \<Rightarrow> 'q parallel_req \<Rightarrow> 'q parallel_req" where
  "with_replicas n req = req\<lparr>lr_tasks := map (\<lambda>t. t\<lparr>tr_replicas := n\<rparr>) (lr_tasks req)\<rparr>"

lemma with_replicas_resources: "parallel_resources Q (map (\<lambda>t. t\<lparr>tr_replicas := n\<rparr>) ts) = parallel_resources Q ts"
  by (simp add: parallel_resources_def fold_map comp_def)

lemma sum_list_scale: "(\<Sum>x \<leftarrow> xs. (n :: int) * f x) = n * (\<Sum>x \<leftarrow> xs. f x)"
  by (induction xs) (simp_all add: distrib_left)

lemma parallel_accepts_replicas:
  assumes "create_parallel (build req) e token req st = (Inr job, st1)" and Q: "quantity_laws (su_Q e) val"
    and ok: "\<forall>t \<in> set (lr_tasks req). gm_ok (or_empty (tr_resource t))"
    and same: "\<And>vs ms. bj_name (build (with_replicas n req) vs ms) = bj_name (build req vs ms) \<and>
      bj_namespace (build (with_replicas n req) vs ms) = bj_namespace (build req vs ms)"
    and tasks: "\<And>vs ms. map (\<lambda>t. (vt_replicas t, vt_containers t)) (vj_tasks (vc_view (su_now e) (build (with_replicas n req) vs ms))) =
      map (\<lambda>t. (n, [or_empty (tr_resource t)])) (lr_tasks req)"
  shows "\<exists>job2 st2. create_parallel (build (with_replicas n req)) e token (with_replicas n req) st = (Inr job2, st2) \<and>
    quota_check e token (parallel_resources (su_Q e) (lr_tasks (with_replicas n req))) st = [] \<and>
    amount val (job_resources (su_Q e) (vj_tasks (vc_view (su_now e) job2))) k =
      n * amount val (parallel_resources (su_Q e) (lr_tasks (with_replicas n req))) k"
proof -
  from parallel_created [OF assms(1)] obtain vs ms where p: "GenerateVolumeMounts (pe_mounts (su_pod e)) (cm_volumeMounts (lr_common req)) token (js_store st) = Inr (vs, ms)"
    "job = build req vs ms" "in_cluster e job st st1" "su_createErr e = None"
    "admission e token (parallel_resources (su_Q e) (lr_tasks req)) (cm_alertEnabled (lr_common req)) st = None" by blast
  let ?req = "with_replicas n req" let ?job = "build ?req vs ms"
  have common: "lr_common ?req = lr_common req" by (simp add: with_replicas_def)
  have res: "parallel_resources (su_Q e) (lr_tasks ?req) = parallel_resources (su_Q e) (lr_tasks req)"
    by (simp add: with_replicas_def with_replicas_resources)
  have "find_vcjob (bj_namespace ?job) (bj_name ?job) (js_platform st) = None" using p(2,3) by (simp add: in_cluster_def same)
  then obtain st2 where made: "create_parallel (build ?req) e token ?req st = (Inr ?job, st2)"
    using p(1,4,5) by (simp add: create_parallel_def client_create_job_def res common Let_def)
  have quota: "quota_check e token (parallel_resources (su_Q e) (lr_tasks ?req)) st = []"
    using p(5) by (simp add: admission_def res Let_def split: if_splits)
  let ?vt = "vj_tasks (vc_view (su_now e) ?job)"
  have "(\<Sum>t \<leftarrow> ?vt. vt_replicas t * (\<Sum>r \<leftarrow> vt_containers t. amount val r k)) =
      sum_list (map (\<lambda>(i, cs). i * (\<Sum>r \<leftarrow> cs. amount val r k)) (map (\<lambda>t. (vt_replicas t, vt_containers t)) ?vt))"
    by (simp add: comp_def)
  also have "\<dots> = n * (\<Sum>t \<leftarrow> lr_tasks req. amount val (or_empty (tr_resource t)) k)"
    unfolding tasks by (simp add: comp_def sum_list_scale)
  finally have sum: "(\<Sum>t \<leftarrow> ?vt. vt_replicas t * (\<Sum>r \<leftarrow> vt_containers t. amount val r k)) =
      n * (\<Sum>t \<leftarrow> lr_tasks req. amount val (or_empty (tr_resource t)) k)" .
  have "(vt_replicas t, vt_containers t) \<in> set (map (\<lambda>t. (n, [or_empty (tr_resource t)])) (lr_tasks req))" if "t \<in> set ?vt" for t
    unfolding tasks [of vs ms, symmetric] using that by (simp add: image_iff) blast
  then have "\<forall>t \<in> set ?vt. \<forall>r \<in> set (vt_containers t). gm_ok r" using ok by fastforce
  from amount_job_resources [OF Q this, of k] have
    "amount val (job_resources (su_Q e) ?vt) k = n * amount val (parallel_resources (su_Q e) (lr_tasks ?req)) k"
    unfolding sum res parallel_amount [OF Q ok] .
  with made quota show ?thesis by blast
qed

lemma tensorflow_replicas:
  "bj_name (tensorflow_job e token (with_replicas n req) vs ms dir) = bj_name (tensorflow_job e token req vs ms dir) \<and>
   bj_namespace (tensorflow_job e token (with_replicas n req) vs ms dir) = bj_namespace (tensorflow_job e token req vs ms dir)"
  "map (\<lambda>t. (vt_replicas t, vt_containers t)) (vj_tasks (vc_view t0 (tensorflow_job e token (with_replicas n req) vs ms dir))) =
   map (\<lambda>t. (n, [or_empty (tr_resource t)])) (lr_tasks req)"
  by (simp_all add: vc_view_def tensorflow_job_def with_metadata_def getLabelAndAnnotations_def with_replicas_def parallel_spec_def
      generatePodSpecForParallelJob_def comp_def Let_def)

lemma pytorch_replicas:
  "bj_name (pytorch_job e token (with_replicas n req) vs ms dir) = bj_name (pytorch_job e token req vs ms dir) \<and>
   bj_namespace (pytorch_job e token (with_replicas n req) vs ms dir) = bj_namespace (pytorch_job e token req vs ms dir)"
  "map (\<lambda>t. (vt_replicas t, vt_containers t)) (vj_tasks (vc_view t0 (pytorch_job e token (with_replicas n req) vs ms dir))) =
   map (\<lambda>t. (n, [or_empty (tr_resource t)])) (lr_tasks req)"
  by (simp_all add: vc_view_def pytorch_job_def with_metadata_def getLabelAndAnnotations_def with_replicas_def parallel_spec_def
      generatePodSpecForParallelJob_def comp_def Let_def)

text \<open>Claim C17. The quota of a parallel job, of Tensorflow or PyTorch, does not see its replicas.  When a request is accepted, the same request
  with any other number of replicas (32 bits, not negative) passes the same check, and with the same answer of the cluster to the
  creation it is accepted too; the resources the reconciler then computes for the row of the job are that number times those that
  were checked.
\<close>

theorem replicas_escape_quota:
  assumes "create = CreateTensorflowJob \<or> create = CreatePytorchJob"
    and "create e token (Some req) st = (Inr job, st1)" and "quantity_laws (su_Q e) val"
    and "\<forall>t \<in> set (lr_tasks req). gm_ok (or_empty (tr_resource t))" and "0 \<le> n" and "n < 2 ^ 31"
  shows "\<exists>job2 st2. create e token (Some (with_replicas n req)) st = (Inr job2, st2) \<and>
    quota_check e token (parallel_resources (su_Q e) (lr_tasks (with_replicas n req))) st = [] \<and>
    amount val (job_resources (su_Q e) (vj_tasks (vc_view (su_now e) job2))) k =
      n * amount val (parallel_resources (su_Q e) (lr_tasks (with_replicas n req))) k"
  using assms(1)
proof
  let ?build = "\<lambda>r vs ms. tensorflow_job e token r vs ms (dst_dir (js_store st))"
  assume c: "create = CreateTensorflowJob"
  then have "create_parallel (?build req) e token req st = (Inr job, st1)" using assms(2) by (simp add: CreateTensorflowJob_def)
  from parallel_accepts_replicas [where build = ?build, OF this assms(3,4) tensorflow_replicas] show ?thesis
    by (simp add: c CreateTensorflowJob_def)
next
  let ?build = "\<lambda>r vs ms. pytorch_job e token r vs ms (dst_dir (js_store st))"
  assume c: "create = CreatePytorchJob"
  then have "create_parallel (?build req) e token req st = (Inr job, st1)" using assms(2) by (simp add: CreatePytorchJob_def)
  from parallel_accepts_replicas [where build = ?build, OF this assms(3,4) pytorch_replicas] show ?thesis
    by (simp add: c CreatePytorchJob_def)
qed

lemma int32_range: "- (2 ^ 31) \<le> int32 i \<and> int32 i < 2 ^ 31"
  by (simp add: int32_def)

lemma int32_add: "int32 (int32 a + b) = int32 (a + b)"
  by (simp add: int32_def mod_simps algebra_simps)

lemma int32_id: "- (2 ^ 31) \<le> i \<Longrightarrow> i < 2 ^ 31 \<Longrightarrow> int32 i = i"
  by (simp add: int32_def)

text \<open>
  The number of pods that must start together is the sum of the replicas, kept at 32 bits: it is that sum as long as it fits,
  and wraps otherwise.
\<close>

theorem min_available_exact:
  "min_available tasks = int32 (\<Sum>t \<leftarrow> tasks. tr_replicas t) \<and> - (2 ^ 31) \<le> min_available tasks \<and> min_available tasks < 2 ^ 31 \<and>
   (0 \<le> (\<Sum>t \<leftarrow> tasks. tr_replicas t) \<and> (\<Sum>t \<leftarrow> tasks. tr_replicas t) < 2 ^ 31 \<longrightarrow> min_available tasks = (\<Sum>t \<leftarrow> tasks. tr_replicas t))"
proof -
  have "fold (\<lambda>t m. int32 (m + tr_replicas t)) ts (int32 a) = int32 (a + (\<Sum>t \<leftarrow> ts. tr_replicas t))" for a and ts :: "'a task_req list"
    by (induction ts arbitrary: a) (simp_all add: int32_add algebra_simps)
  from this [of tasks 0] have sum: "min_available tasks = int32 (\<Sum>t \<leftarrow> tasks. tr_replicas t)" by (simp add: min_available_def int32_def)
  with int32_range int32_id show ?thesis by simp
qed

lemma min_available_exact_witness:
  "min_available [\<lparr>tr_name = ''ps'', tr_replicas = 2, tr_resource = None, tr_image = \<lparr>ib_imageLink = [], ib_archs = []\<rparr>, tr_shell = None,
      tr_command = None, tr_workingDir = None, tr_ports = []\<rparr> :: int task_req] = 2"
  by (subst min_available_exact [THEN conjunct2, THEN conjunct2, THEN conjunct2, THEN mp]) simp_all

section \<open>A job without an address\<close>

text \<open>
  A notebook whose address cannot be made is reported as an error, but its job is in the cluster and stays there.
\<close>

theorem notebook_without_address_runs:
  assumes "limit_check e token st = None" and "admission e token (or_empty (jq_resource req)) (cm_alertEnabled (jq_common req)) st = None"
    and "GenerateVolumeMounts (pe_mounts (su_pod e)) (cm_volumeMounts (jq_common req)) token (js_store st) = Inr (vs, ms)"
    and "client_create_job e (jupyter_job e token req vs ms (dst_dir (js_store st))) st = (None, st1)"
    and "sx_ingressErr (su_service e 0) = Some x"
  shows "\<exists>y st2. CreateJupyterJob e token (Some req) st = (Inl y, st2) \<and> in_cluster e (jupyter_job e token req vs ms (dst_dir (js_store st))) st st2"
proof -
  let ?job = "jupyter_job e token req vs ms (dst_dir (js_store st))"
  obtain y nw where "CreateIngressWithPrefix (su_service e 0) (owner_of ?job) (bj_labels ?job) (Some (tcp_port ''notebook'' JupyterPort))
      (su_host e) (base_url e 5 token) (js_network st1) = (Inl y, nw)"
    using ingress_failure [OF assms(5)] by blast
  then have "CreateJupyterJob e token (Some req) st = (Inl (''failed to create ingress: '' @ y), st1\<lparr>js_network := nw\<rparr>)"
    using assms(1-4) by (simp add: CreateJupyterJob_def Let_def)
  with client_create_job_None [OF assms(4)] show ?thesis by (simp add: in_cluster_network)
qed

section \<open>Examples\<close>

definition sample_common :: job_common where
  "sample_common = \<lparr>cm_name = ''train'', cm_volumeMounts = [], cm_envs = [], cm_selectors = [], cm_template = ''{}'', cm_alertEnabled = False, cm_forwards = []\<rparr>"

definition sample_image_info :: image_base_info where
  "sample_image_info = \<lparr>ib_imageLink = ''img'', ib_archs = []\<rparr>"

definition sample_custom :: "int custom_req" where
  "sample_custom = \<lparr>cq_common = sample_common, cq_resource = Some [(''cpu'', 1)], cq_image = sample_image_info, cq_shell = None, cq_command = None,
     cq_workingDir = ''/''\<rparr>"

definition sample_jupyter :: "int jupyter_req" where
  "sample_jupyter = \<lparr>jq_common = sample_common, jq_resource = Some [(''cpu'', 1)], jq_image = sample_image_info\<rparr>"

definition sample_parallel :: "int parallel_req" where
  "sample_parallel = \<lparr>lr_common = sample_common, lr_tasks = [\<lparr>tr_name = ''ps'', tr_replicas = 1, tr_resource = Some [(''cpu'', 2)],
     tr_image = sample_image_info, tr_shell = None, tr_command = None, tr_workingDir = None, tr_ports = []\<rparr>]\<rparr>"

definition sample_submit :: "int submit_env" where
  "sample_submit = \<lparr>su_Q = int_quantity, su_pod = \<lparr>pe_mounts = quiet_mounts, pe_envUserErr = None, pe_imagePullSecretName = []\<rparr>,
     su_limitErr = (\<lambda>n. None), su_quotaErr = (\<lambda>n. None), su_emailErr = None, su_now = 7, su_uuid = ''abcdef'', su_ns = ''jobs'', su_host = ''h'',
     su_createErr = None, su_service = (\<lambda>n. quiet_services\<lparr>sx_ingressErr := Some ''down''\<rparr>)\<rparr>"

definition sample_site :: "(int, unit, unit) job_site" where
  "sample_site = \<lparr>js_platform = sample_platform\<lparr>pf_jobs := [], pf_users := dr_users sample_directory, pf_accounts := dr_accounts sample_directory, pf_vcjobs := []\<rparr>,
     js_store = sample_datasets, js_network = sample_network\<rparr>"

lemma sample_admitted: "admission sample_submit (sample_message RoleUser) r False sample_site = None"
  by (simp add: admission_def quota_check_def CheckResourcesBeforeCreateJob_def active_jobs_def tbl_find_def scan_member_capability_def tbl_first_Cons
      sample_submit_def sample_site_def sample_platform_def sample_datasets_def sample_directory_def sample_message_def no_quota_def)

lemma sample_limit: "limit_check sample_submit (sample_message RoleUser) sample_site = None"
  by (simp add: limit_check_def CheckJupyterLimitBeforeCreateJupyter_def active_jobs_def tbl_find_def scan_member_capability_def tbl_first_Cons
      sample_submit_def sample_site_def sample_platform_def sample_datasets_def sample_directory_def sample_message_def no_quota_def Let_def)

lemma sample_mounts:
  "\<exists>vs ms. GenerateVolumeMounts (pe_mounts (su_pod sample_submit)) (cm_volumeMounts sample_common) (sample_message RoleUser) (js_store sample_site) = Inr (vs, ms)"
  by (simp add: GenerateVolumeMounts_def sample_common_def)

lemma sample_free: "client_create_job sample_submit job sample_site =
    (None, sample_site\<lparr>js_platform := (js_platform sample_site)\<lparr>pf_vcjobs := [vc_view 7 job]\<rparr>\<rparr>)"
  by (simp add: client_create_job_def find_vcjob_def sample_submit_def sample_site_def)

lemma sample_custom_created:
  "\<exists>job st1. CreateTrainingJob sample_submit (sample_message RoleUser) (Some sample_custom) sample_site = (Inr job, st1) \<and>
     bj_name job = ''single-ann-abcde'' \<and> js_platform st1 = (js_platform sample_site)\<lparr>pf_vcjobs := [vc_view 7 job]\<rparr>"
proof -
  obtain vs ms where m: "GenerateVolumeMounts (pe_mounts (su_pod sample_submit)) (cm_volumeMounts sample_common) (sample_message RoleUser) (js_store sample_site) = Inr (vs, ms)"
    using sample_mounts by blast
  obtain spec where s: "GenerateCustomPodSpec (su_Q sample_submit) (su_pod sample_submit) (sample_message RoleUser) sample_custom (js_store sample_site) = Inr spec"
    using m by (simp add: GenerateCustomPodSpec_def sample_custom_def)
  have f: "cm_alertEnabled (cq_common sample_custom) = False" "cm_forwards (cq_common sample_custom) = []"
    by (simp_all add: sample_custom_def sample_common_def)
  let ?job = "custom_job sample_submit (sample_message RoleUser) sample_custom spec"
  have "CreateTrainingJob sample_submit (sample_message RoleUser) (Some sample_custom) sample_site =
      (Inr ?job, sample_site\<lparr>js_platform := (js_platform sample_site)\<lparr>pf_vcjobs := [vc_view 7 ?job]\<rparr>\<rparr>)"
    using sample_admitted s f by (simp add: CreateTrainingJob_def sample_free Let_def)
  moreover have "bj_name ?job = ''single-ann-abcde''"
    by (simp add: custom_job_def with_metadata_def getLabelAndAnnotations_def base_url_def sample_submit_def sample_message_def Let_def)
  ultimately show ?thesis by (intro exI [of _ ?job]) simp
qed

lemma submitted_job_filed_witness:
  "\<exists>job st1 row. CreateTrainingJob sample_submit (sample_message RoleUser) (Some sample_custom) sample_site = (Inr job, st1) \<and>
     pf_jobs (snd (Reconcile int_quantity quiet_reconcile ''jobs'' ''single-ann-abcde'' (js_platform st1))) = [row] \<and>
     jb_userID row = 4 \<and> jb_accountID row = 1 \<and> jb_jobType row = ''custom''"
proof -
  obtain job st1 where c: "CreateTrainingJob sample_submit (sample_message RoleUser) (Some sample_custom) sample_site = (Inr job, st1)"
    "bj_name job = ''single-ann-abcde''" using sample_custom_created by blast
  obtain a where a: "a \<in> set (pf_accounts (js_platform sample_site))" "ac_id a = 1" "ac_name a = ''default''"
    by (simp add: sample_site_def sample_directory_def)
  have "sample_user 4 ''ann'' \<in> set (pf_users (js_platform sample_site))" "us_id (sample_user 4 ''ann'') = jm_userID (sample_message RoleUser)"
    "us_name (sample_user 4 ''ann'') = jm_username (sample_message RoleUser)" "distinct (map us_name (pf_users (js_platform sample_site)))"
    "ac_id a = jm_accountID (sample_message RoleUser)" "ac_name a = jm_accountName (sample_message RoleUser)"
    "distinct (map ac_name (pf_accounts (js_platform sample_site)))" "job_named (bj_name job) (js_platform sample_site) = None"
    "pf_jobs (js_platform sample_site) = []"
    using a by (simp_all add: sample_site_def sample_directory_def sample_user_def sample_message_def job_named_def)
  with submitted_job_filed [OF sub_custom [OF c(1)], of "sample_user 4 ''ann''" a quiet_reconcile] a(1) c show ?thesis
    by (auto simp: quiet_reconcile_def sample_submit_def sample_message_def)
qed

lemma unfiled_jobs_not_counted_witness:
  "\<exists>job st1 job2 st2. CreateTrainingJob sample_submit (sample_message RoleUser) (Some sample_custom) sample_site = (Inr job, st1) \<and>
     CreateTrainingJob (sample_submit\<lparr>su_uuid := ''uvwxyz''\<rparr>) (sample_message RoleUser) (Some sample_custom) st1 = (Inr job2, st2) \<and> pf_jobs (js_platform st2) = []"
proof -
  obtain job st1 where c: "CreateTrainingJob sample_submit (sample_message RoleUser) (Some sample_custom) sample_site = (Inr job, st1)"
    "bj_name job = ''single-ann-abcde''" "js_platform st1 = (js_platform sample_site)\<lparr>pf_vcjobs := [vc_view 7 job]\<rparr>" using sample_custom_created by blast
  have "cm_forwards (cq_common sample_custom) = []" by (simp add: sample_custom_def sample_common_def)
  moreover have "find_vcjob (su_ns sample_submit) (''single-'' @ jm_username (sample_message RoleUser) @ ''-'' @ take 5 ''uvwxyz'') (js_platform st1) = None"
    using c(2) by (simp add: c(3) find_vcjob_def vc_view_def sample_message_def)
  ultimately show ?thesis
    using unfiled_jobs_not_counted [OF sub_custom [OF c(1)] c(1), of "''uvwxyz''"] c(1) by (auto simp: sample_site_def)
qed

lemma replicas_escape_quota_witness:
  "\<exists>job2 st2. CreateTensorflowJob sample_submit (sample_message RoleUser) (Some (with_replicas 50 sample_parallel)) sample_site = (Inr job2, st2) \<and>
     amount (\<lambda>x. x) (job_resources int_quantity (vj_tasks (vc_view 7 job2))) ''cpu'' = 100"
proof -
  obtain vs ms where m: "GenerateVolumeMounts (pe_mounts (su_pod sample_submit)) (cm_volumeMounts sample_common) (sample_message RoleUser) (js_store sample_site) = Inr (vs, ms)"
    using sample_mounts by blast
  have f: "cm_alertEnabled (lr_common sample_parallel) = False" "lr_common sample_parallel = sample_common"
    by (simp_all add: sample_parallel_def sample_common_def)
  obtain job st1 where c: "CreateTensorflowJob sample_submit (sample_message RoleUser) (Some sample_parallel) sample_site = (Inr job, st1)"
    using m sample_admitted [of "parallel_resources (su_Q sample_submit) (lr_tasks sample_parallel)"]
    using f by (simp add: CreateTensorflowJob_def create_parallel_def sample_free)
  have "amount (\<lambda>x. x) (parallel_resources int_quantity (lr_tasks (with_replicas 50 sample_parallel))) ''cpu'' = 2"
    by (simp add: with_replicas_def with_replicas_resources sample_parallel_def parallel_resources_def AddResourceList_def or_empty_def amount_def)
  with replicas_escape_quota [OF disjI1 [OF refl] c, of "\<lambda>x. x" 50 "''cpu''"] show ?thesis
    by (auto simp: sample_submit_def sample_parallel_def or_empty_def gm_ok_def)
qed

lemma notebook_without_address_runs_witness:
  "\<exists>y st2 job. CreateJupyterJob sample_submit (sample_message RoleUser) (Some sample_jupyter) sample_site = (Inl y, st2) \<and>
     pf_vcjobs (js_platform st2) = [vc_view 7 job]"
proof -
  obtain vs ms where m: "GenerateVolumeMounts (pe_mounts (su_pod sample_submit)) (cm_volumeMounts sample_common) (sample_message RoleUser) (js_store sample_site) = Inr (vs, ms)"
    using sample_mounts by blast
  have f: "cm_alertEnabled (jq_common sample_jupyter) = False" "jq_common sample_jupyter = sample_common"
    by (simp_all add: sample_jupyter_def sample_common_def)
  have x: "sx_ingressErr (su_service sample_submit 0) = Some ''down''" by (simp add: sample_submit_def)
  have a: "admission sample_submit (sample_message RoleUser) (or_empty (jq_resource sample_jupyter)) (cm_alertEnabled (jq_common sample_jupyter)) sample_site = None"
    using sample_admitted f(1) by simp
  from notebook_without_address_runs [OF sample_limit a m [folded f(2)] sample_free x] show ?thesis
    by (auto simp: in_cluster_def sample_site_def sample_submit_def)
qed

end
