(* ===== verification/Image_Links.thy ===== *)
theory Image_Links imports Volume_Mounts begin

text \<open>
  Links of images, \<open>pkg/utils/image.go\<close>: taking a link apart with two regular expressions, and the link a build is
  stored under.  The server of the registry, the random part and the time are parameters.
\<close>

section \<open>Taking links apart\<close>

text \<open>
  The expression \<open>^([^/]+)/([^/]+)/(.+):([^/:]+)$\<close>: two parts that are not empty, then, after the second slash, everything up to the
  last colon, on one line, and a tag without slash or colon.
\<close>

definition before_last :: "char \<Rightarrow> string \<Rightarrow> string" where
  "before_last c s = rev (tl (dropWhile (\<lambda>x. x \<noteq> c) (rev s)))"

definition after_last :: "char \<Rightarrow> string \<Rightarrow> string" where
  "after_last c s = rev (takeWhile (\<lambda>x. x \<noteq> c) (rev s))"

definition SplitImageLink :: "string \<Rightarrow> (string \<times> string \<times> string \<times> string) result" where
  "SplitImageLink imageLink =
     (case split_on CHR ''/'' imageLink of
        ip # project # p # ps \<Rightarrow>
          let rest = join_parts (p # ps); repository = before_last CHR '':'' rest; tag = after_last CHR '':'' rest
          in if ip \<noteq> [] \<and> project \<noteq> [] \<and> CHR '':'' \<in> set rest \<and> repository \<noteq> [] \<and> CHR 0x0A \<notin> set repository \<and>
                tag \<noteq> [] \<and> CHR ''/'' \<notin> set tag
             then Inr (ip, project, repository, tag) else Inl (''invalid image link: '' @ imageLink)
      | _ \<Rightarrow> Inl (''invalid image link: '' @ imageLink))"

text \<open>
  The expression \<open>([^/]+/){2}([^:]+):([^/]+)$\<close> is not anchored at the beginning: it may skip leading parts.  After two
  parts that are not empty, the name is everything up to the first colon and the tag the rest, without a slash.
\<close>

definition name_tag_of :: "string \<Rightarrow> (string \<times> string) option" where
  "name_tag_of s =
     (let name = takeWhile (\<lambda>c. c \<noteq> CHR '':'') s; tag = tl (dropWhile (\<lambda>c. c \<noteq> CHR '':'') s)
      in if CHR '':'' \<in> set s \<and> name \<noteq> [] \<and> tag \<noteq> [] \<and> CHR ''/'' \<notin> set tag then Some (name, tag) else None)"

fun search_name_tag :: "string list \<Rightarrow> (string \<times> string) option" where
  "search_name_tag (a # b # r # rs) =
     (case (if a \<noteq> [] \<and> b \<noteq> [] then name_tag_of (join_parts (r # rs)) else None) of
        Some m \<Rightarrow> Some m
      | None \<Rightarrow> search_name_tag (b # r # rs))"
| "search_name_tag _ = None"

definition GetImageNameAndTag :: "string \<Rightarrow> (string \<times> string) result" where
  "GetImageNameAndTag imageLink =
     (case search_name_tag (split_on CHR ''/'' imageLink) of
        None \<Rightarrow> Inl (''invalid image link: '' @ imageLink)
      | Some m \<Rightarrow> Inr m)"

section \<open>Links of builds\<close>

record link_env =
  li_server :: string
  li_uuid :: string
  li_stamp :: string

text \<open>\<open>li_stamp\<close> is the month, the day, the hour and the minute, two digits each.\<close>

definition registry_link :: "link_env \<Rightarrow> string \<Rightarrow> string \<Rightarrow> string \<Rightarrow> string" where
  "registry_link e username imageName imageTag =
     li_server e @ ''/'' @ (''user-'' @ username) @ ''/'' @ imageName @ '':'' @ imageTag"

definition GenerateNewImageLinkForEnvdBuild :: "link_env \<Rightarrow> string \<Rightarrow> string \<Rightarrow> string \<Rightarrow> string \<Rightarrow> string \<Rightarrow> string" where
  "GenerateNewImageLinkForEnvdBuild e username python base imageName imageTag =
     registry_link e username (if imageName = [] then ''envd'' else imageName)
       (if imageTag \<noteq> [] then imageTag
        else if base = [] then ''py'' @ python @ ''-'' @ take 4 (li_uuid e)
        else ''py'' @ python @ ''-'' @ base @ ''-'' @ take 4 (li_uuid e))"

definition GenerateNewImageLinkForDockerfileBuild :: "link_env \<Rightarrow> string \<Rightarrow> string \<Rightarrow> string \<Rightarrow> string \<Rightarrow> string result" where
  "GenerateNewImageLinkForDockerfileBuild e imageLink username imageName imageTag =
     (case (if imageName \<noteq> [] then Inr imageName else map_sum id fst (GetImageNameAndTag imageLink)) of
        Inl x \<Rightarrow> Inl x
      | Inr name \<Rightarrow> Inr (registry_link e username name (if imageTag \<noteq> [] then imageTag else li_stamp e @ ''-'' @ take 4 (li_uuid e))))"

section \<open>Links read back\<close>

definition plain_name :: "string \<Rightarrow> bool" where
  "plain_name s \<longleftrightarrow> s \<noteq> [] \<and> CHR ''/'' \<notin> set s \<and> CHR '':'' \<notin> set s \<and> CHR 0x0A \<notin> set s"

lemma split_link:
  assumes "CHR ''/'' \<notin> set a" "CHR ''/'' \<notin> set b" "CHR ''/'' \<notin> set r"
  shows "split_on CHR ''/'' (a @ ''/'' @ b @ ''/'' @ r) = [a, b, r]"
  using assms split_on_append [of "CHR ''/''" a "b @ ''/'' @ r"] split_on_append [of "CHR ''/''" b r] split_on_free [of "CHR ''/''" r] by simp

lemma until_first:
  assumes "c \<notin> set p"
  shows "takeWhile (\<lambda>x. x \<noteq> c) (p @ c # q) = p" "dropWhile (\<lambda>x. x \<noteq> c) (p @ c # q) = c # q"
  using assms by (induction p) auto

lemma last_colon:
  assumes "CHR '':'' \<notin> set t"
  shows "before_last CHR '':'' (n @ '':'' @ t) = n" "after_last CHR '':'' (n @ '':'' @ t) = t"
  using until_first [of "CHR '':''" "rev t" "rev n"] assms by (simp_all add: before_last_def after_last_def)

text \<open>A link reads back: both parsers take it apart into the server, the project of the user, the name and the tag.\<close>

definition reads_back :: "link_env \<Rightarrow> string \<Rightarrow> string \<Rightarrow> string \<Rightarrow> string \<Rightarrow> bool" where
  "reads_back e link username n t \<longleftrightarrow>
     SplitImageLink link = Inr (li_server e, ''user-'' @ username, n, t) \<and> GetImageNameAndTag link = Inr (n, t)"

definition readable_parts :: "string \<Rightarrow> string \<Rightarrow> bool" where
  "readable_parts n t \<longleftrightarrow> n \<noteq> [] \<and> CHR '':'' \<notin> set n \<and> CHR 0x0A \<notin> set n \<and> t \<noteq> [] \<and> CHR '':'' \<notin> set t \<and> CHR ''/'' \<notin> set t"

lemma split_registry_link:
  assumes "CHR ''/'' \<notin> set (li_server e)" "CHR ''/'' \<notin> set username"
  shows "split_on CHR ''/'' (registry_link e username n t) = li_server e # (''user-'' @ username) # split_on CHR ''/'' (n @ '':'' @ t)"
  using assms split_on_append [of "CHR ''/''" "li_server e"] split_on_append [of "CHR ''/''" "''user-'' @ username"] by (simp add: registry_link_def)

lemma split_Cons: "\<exists>p ps. split_on c s = p # ps"
  using split_on_not_Nil [of c s] by (cases "split_on c s") auto

lemma colon_inside: "CHR '':'' \<in> set n \<Longrightarrow> takeWhile (\<lambda>c. c \<noteq> CHR '':'') (n @ r) \<noteq> n"
  by (metis (mono_tags, lifting) set_takeWhileD)

text \<open>What is found has a colon between its parts and is no longer than what was searched.\<close>

lemma name_tag_length: "name_tag_of s = Some (n, t) \<Longrightarrow> Suc (length n + length t) = length s"
proof -
  assume a: "name_tag_of s = Some (n, t)"
  then have c: "CHR '':'' \<in> set s" and n: "n = takeWhile (\<lambda>c. c \<noteq> CHR '':'') s" and t: "t = tl (dropWhile (\<lambda>c. c \<noteq> CHR '':'') s)"
    by (auto simp: name_tag_of_def Let_def split: if_splits)
  from c have "dropWhile (\<lambda>c. c \<noteq> CHR '':'') s \<noteq> []" by (simp add: dropWhile_eq_Nil_conv)
  then have "length (dropWhile (\<lambda>c. c \<noteq> CHR '':'') s) = Suc (length t)" by (simp add: t)
  moreover have "length s = length (takeWhile (\<lambda>c. c \<noteq> CHR '':'') s) + length (dropWhile (\<lambda>c. c \<noteq> CHR '':'') s)"
    by (metis length_append takeWhile_dropWhile_id)
  ultimately show ?thesis by (simp add: n)
qed

lemma search_length:
  "search_name_tag ps = Some (n, t) \<Longrightarrow> \<exists>a b rs. ps = a # b # rs \<and> rs \<noteq> [] \<and> Suc (length n + length t) \<le> length (join_parts rs)"
proof (induction ps rule: search_name_tag.induct)
  case (1 a b r rs)
  show ?case
  proof (cases "if a \<noteq> [] \<and> b \<noteq> [] then name_tag_of (join_parts (r # rs)) else None")
    case None
    with 1 obtain rs1 where rs: "r # rs = r # rs1" "rs1 \<noteq> []" "Suc (length n + length t) \<le> length (join_parts rs1)" by auto
    with join_parts_Cons [of rs1 r] show ?thesis by simp
  next
    case (Some m)
    with 1(2) have "name_tag_of (join_parts (r # rs)) = Some (n, t)" by (auto split: if_splits)
    from name_tag_length [OF this] show ?thesis by simp
  qed
qed simp_all

lemma split_link_iff:
  assumes "li_server e \<noteq> []" "CHR ''/'' \<notin> set (li_server e)" "CHR ''/'' \<notin> set username"
  shows "SplitImageLink (registry_link e username n t) = Inr (li_server e, ''user-'' @ username, n, t) \<longleftrightarrow>
    n \<noteq> [] \<and> CHR 0x0A \<notin> set n \<and> t \<noteq> [] \<and> CHR '':'' \<notin> set t \<and> CHR ''/'' \<notin> set t"
proof -
  let ?r = "n @ '':'' @ t"
  obtain p ps where ps: "split_on CHR ''/'' ?r = p # ps" using split_Cons by blast
  have join: "join_parts (p # ps) = ?r" using join_split [of ?r] unfolding ps .
  have split: "SplitImageLink (registry_link e username n t) = Inr (li_server e, ''user-'' @ username, n, t) \<longleftrightarrow>
      before_last CHR '':'' ?r = n \<and> after_last CHR '':'' ?r = t \<and> n \<noteq> [] \<and> CHR 0x0A \<notin> set n \<and> t \<noteq> [] \<and> CHR ''/'' \<notin> set t"
    unfolding SplitImageLink_def split_registry_link [OF assms(2,3)] ps
    using assms(1) by (auto simp: join Let_def simp del: join_parts.simps)
  have "CHR '':'' \<notin> set (after_last CHR '':'' ?r)" by (auto simp: after_last_def dest: set_takeWhileD)
  with last_colon [of t n] show ?thesis unfolding split by auto
qed

lemma name_tag_iff:
  assumes "li_server e \<noteq> []" "CHR ''/'' \<notin> set (li_server e)" "CHR ''/'' \<notin> set username"
  shows "GetImageNameAndTag (registry_link e username n t) = Inr (n, t) \<longleftrightarrow> n \<noteq> [] \<and> CHR '':'' \<notin> set n \<and> t \<noteq> [] \<and> CHR ''/'' \<notin> set t"
proof -
  let ?r = "n @ '':'' @ t"
  obtain p ps where ps: "split_on CHR ''/'' ?r = p # ps" using split_Cons by blast
  have join: "join_parts (p # ps) = ?r" using join_split [of ?r] unfolding ps .
  have get: "GetImageNameAndTag (registry_link e username n t) = Inr (n, t) \<longleftrightarrow>
      (case name_tag_of ?r of Some m \<Rightarrow> Some m | None \<Rightarrow> search_name_tag ((''user-'' @ username) # p # ps)) = Some (n, t)"
    unfolding GetImageNameAndTag_def split_registry_link [OF assms(2,3)] ps
    using assms(1) by (simp add: join del: join_parts.simps split: option.split)
  have longer: "search_name_tag ((''user-'' @ username) # p # ps) \<noteq> Some (n, t)"
  proof
    assume "search_name_tag ((''user-'' @ username) # p # ps) = Some (n, t)"
    from search_length [OF this] have "ps \<noteq> []" "Suc (length n + length t) \<le> length (join_parts ps)" by auto
    with join_parts_Cons [of ps p] arg_cong [OF join, of length] show False by simp
  qed
  show ?thesis
  proof (cases "CHR '':'' \<in> set n")
    case True
    with colon_inside [OF True, of "'':'' @ t"] longer show ?thesis unfolding get by (auto simp: name_tag_of_def Let_def split: option.split)
  next
    case False
    have nt: "takeWhile (\<lambda>c. c \<noteq> CHR '':'') ?r = n" "dropWhile (\<lambda>c. c \<noteq> CHR '':'') ?r = CHR '':'' # t"
      using until_first [OF False, of t] by simp_all
    with False longer show ?thesis unfolding get by (auto simp: name_tag_of_def Let_def split: option.split)
  qed
qed

lemma reads_back_iff:
  assumes "li_server e \<noteq> []" "CHR ''/'' \<notin> set (li_server e)" "CHR ''/'' \<notin> set username"
  shows "reads_back e (registry_link e username n t) username n t \<longleftrightarrow> readable_parts n t"
  using split_link_iff [OF assms] name_tag_iff [OF assms] by (auto simp: reads_back_def readable_parts_def)

text \<open>Claim C21. The links of builds, of both kinds: a link has the server, the project of the user, the name the request gives and the
  tag it gives; without a name, that of the base image (for Envd the word envd), and without a tag one the code makes up.  Both parsers
  take the link apart into exactly these parts if and only if name and tag are not empty, neither has a colon, the name has no
  line break and the tag no slash, which no handler checks; and building from such a link without a new name keeps the name.
\<close>

theorem build_link_roundtrip:
  assumes "li_server e \<noteq> []" "CHR ''/'' \<notin> set (li_server e)" "CHR ''/'' \<notin> set username"
  shows "(\<exists>tag. GenerateNewImageLinkForEnvdBuild e username python base n t = registry_link e username (if n = [] then ''envd'' else n) tag \<and>
      (t \<noteq> [] \<longrightarrow> tag = t) \<and>
      (reads_back e (GenerateNewImageLinkForEnvdBuild e username python base n t) username (if n = [] then ''envd'' else n) tag \<longleftrightarrow>
         readable_parts (if n = [] then ''envd'' else n) tag)) \<and>
    (GenerateNewImageLinkForDockerfileBuild e src username n t = Inr link \<longrightarrow>
      (\<exists>name tag. link = registry_link e username name tag \<and> (t \<noteq> [] \<longrightarrow> tag = t) \<and>
        (if n \<noteq> [] then name = n else \<exists>old. GetImageNameAndTag src = Inr (name, old)) \<and>
        (reads_back e link username name tag \<longleftrightarrow> readable_parts name tag) \<and>
        (readable_parts name tag \<and> t2 \<noteq> [] \<longrightarrow>
           GenerateNewImageLinkForDockerfileBuild e link username [] t2 = Inr (registry_link e username name t2))))"
proof (intro conjI impI)
  show "\<exists>tag. GenerateNewImageLinkForEnvdBuild e username python base n t = registry_link e username (if n = [] then ''envd'' else n) tag \<and>
      (t \<noteq> [] \<longrightarrow> tag = t) \<and>
      (reads_back e (GenerateNewImageLinkForEnvdBuild e username python base n t) username (if n = [] then ''envd'' else n) tag \<longleftrightarrow>
         readable_parts (if n = [] then ''envd'' else n) tag)"
    unfolding GenerateNewImageLinkForEnvdBuild_def reads_back_iff [OF assms, symmetric] by auto
next
  assume "GenerateNewImageLinkForDockerfileBuild e src username n t = Inr link"
  then obtain name tag where l: "link = registry_link e username name tag" "t \<noteq> [] \<longrightarrow> tag = t"
    "if n \<noteq> [] then name = n else \<exists>old. GetImageNameAndTag src = Inr (name, old)"
    by (cases "GetImageNameAndTag src") (auto simp: GenerateNewImageLinkForDockerfileBuild_def split: if_splits)
  have rb: "reads_back e link username name tag \<longleftrightarrow> readable_parts name tag" unfolding l(1) by (rule reads_back_iff [OF assms])
  have "GenerateNewImageLinkForDockerfileBuild e link username [] t2 = Inr (registry_link e username name t2)"
    if "readable_parts name tag" "t2 \<noteq> []"
    using that rb by (simp add: reads_back_def GenerateNewImageLinkForDockerfileBuild_def)
  with l rb show "\<exists>name tag. link = registry_link e username name tag \<and> (t \<noteq> [] \<longrightarrow> tag = t) \<and>
        (if n \<noteq> [] then name = n else \<exists>old. GetImageNameAndTag src = Inr (name, old)) \<and>
        (reads_back e link username name tag \<longleftrightarrow> readable_parts name tag) \<and>
        (readable_parts name tag \<and> t2 \<noteq> [] \<longrightarrow>
           GenerateNewImageLinkForDockerfileBuild e link username [] t2 = Inr (registry_link e username name t2))" by blast
qed

definition sample_links :: link_env where
  "sample_links = \<lparr>li_server = ''harbor'', li_uuid = ''abcdef'', li_stamp = ''01021530''\<rparr>"

lemma build_link_roundtrip_witness:
  "reads_back sample_links (GenerateNewImageLinkForEnvdBuild sample_links ''ann'' ''3'' [] [] ''v1'') ''ann'' ''envd'' ''v1'' \<and>
   \<not> reads_back sample_links (registry_link sample_links ''ann'' ''a:b'' ''v1'') ''ann'' ''a:b'' ''v1''"
proof -
  have s: "li_server sample_links \<noteq> []" "CHR ''/'' \<notin> set (li_server sample_links)" "CHR ''/'' \<notin> set ''ann''" by (simp_all add: sample_links_def)
  have g: "GenerateNewImageLinkForDockerfileBuild sample_links [] ''ann'' ''a:b'' ''v1'' = Inr (registry_link sample_links ''ann'' ''a:b'' ''v1'')"
    by (simp add: GenerateNewImageLinkForDockerfileBuild_def)
  note r = build_link_roundtrip [OF s, where src = "[]" and n = "''a:b''" and t = "''v1''" and link = "registry_link sample_links ''ann'' ''a:b'' ''v1''"]
  show ?thesis
    using build_link_roundtrip [OF s, THEN conjunct1, of "''3''" "[]" "[]" "''v1''"] r g by (auto simp: readable_parts_def)
qed

end
