(* ===== verification/Job_Requests.thy ===== *)
theory Job_Requests imports Job_Submission Image_Links Approval_Orders begin

text \<open>
  The requests on an existing job, \<open>internal/handler/vcjob/vcjob.go\<close> and the rest of \<open>jupyter.go\<close> and \<open>util.go\<close>: deletion, the
  listings, the details, SSH, the notebook's token and its snapshot.  Every one of them first looks the job up: an administrator
  finds every job, anyone else those of the own user in the account of the token.
\<close>

section \<open>Looking a job up\<close>

text \<open>
  The failures of the calls, the clock, what the cluster keeps elsewhere (logs, events) and the services behind the packing of
  images.
\<close>

record request_env =
  jr_now :: time
  jr_ns :: string
  jr_host :: string
  jr_permanent :: time
  jr_findErr :: fault
  jr_listErr :: fault
  jr_clusterGetErr :: fault
  jr_deleteRowErr :: fault
  jr_updateRowErr :: fault
  jr_deleteJobErr :: fault
  jr_updateJobErr :: fault
  jr_podGetErr :: fault
  jr_podUpdateErr :: fault
  jr_podListErr :: fault
  jr_execErr :: fault
  jr_service :: service_env
  jr_logs :: "string \<Rightarrow> string result"
  jr_events :: "string \<Rightarrow> string \<Rightarrow> event list result"
  jr_projectErr :: fault
  jr_link :: link_env
  jr_packErr :: fault

definition getJob :: "request_env \<Rightarrow> string \<Rightarrow> jwt_message \<Rightarrow> ('q, 'p, 't) platform \<Rightarrow> ('q, 'p, 't) job result" where
  "getJob e n token pf =
     (case jr_findErr e of
        Some x \<Rightarrow> Inl x
      | None \<Rightarrow>
          (case (if jm_rolePlatform token = RoleAdmin then job_named n pf
                 else tbl_first (\<lambda>j. jb_jobName j = n \<and> jb_accountID j = jm_accountID token \<and> jb_userID j = jm_userID token) (pf_jobs pf)) of
             None \<Rightarrow> Inl ''record not found''
           | Some j \<Rightarrow> Inr j))"

text \<open>The first task of a job.\<close>

definition getPodNameAndLabelFromJob :: "'q vc_job \<Rightarrow> string \<times> (string, string) gomap" where
  "getPodNameAndLabelFromJob vcjob =
     (case vj_tasks vcjob of
        [] \<Rightarrow> ([], [])
      | task # _ \<Rightarrow> (vj_name vcjob @ ''-'' @ vt_name task @ ''-0'', vt_labels task))"

text \<open>The user and the account of a row; one that is not there any more reads as zero values.\<close>

definition user_names :: "('q, 'p, 't) platform \<Rightarrow> nat \<Rightarrow> string \<times> string" where
  "user_names pf uid = (case tbl_first (\<lambda>u. us_id u = uid) (pf_users pf) of None \<Rightarrow> ([], []) | Some u \<Rightarrow> (us_name u, us_nickname u))"

definition account_nickname :: "('q, 'p, 't) platform \<Rightarrow> nat \<Rightarrow> string" where
  "account_nickname pf aid = (case tbl_first (\<lambda>a. ac_id a = aid) (pf_accounts pf) of None \<Rightarrow> [] | Some a \<Rightarrow> ac_nickname a)"

section \<open>Deletion\<close>

definition finished_phase :: "string \<Rightarrow> bool" where
  "finished_phase ph \<longleftrightarrow> ph = PhaseFailed \<or> ph = PhaseCompleted \<or> ph = PhaseAborted \<or> ph = PhaseTerminated"

text \<open>First the row, then the job in the cluster.\<close>

definition delete_row :: "request_env \<Rightarrow> bool \<Rightarrow> string \<Rightarrow> ('q, 'p, 't) platform \<Rightarrow> fault \<times> ('q, 'p, 't) platform" where
  "delete_row e shouldDeleteRecord n pf =
     (if shouldDeleteRecord then
        (case jr_deleteRowErr e of
           Some x \<Rightarrow> (Some x, pf)
         | None \<Rightarrow> (None, pf\<lparr>pf_jobs := tbl_delete (\<lambda>j. jb_jobName j = n) (pf_jobs pf)\<rparr>))
      else (case jr_updateRowErr e of
           Some x \<Rightarrow> (Some x, pf)
         | None \<Rightarrow> (None, update_job_named n (\<lambda>j. j\<lparr>jb_status := PhaseDeleted,
             jb_completedTimestamp := (if jr_now e = 0 then jb_completedTimestamp j else jr_now e)\<rparr>) pf)))"

definition deleteJob :: "request_env \<Rightarrow> jwt_message \<Rightarrow> string option \<Rightarrow> ('q, 'p, 't) platform \<Rightarrow> unit result \<times> ('q, 'p, 't) platform" where
  "deleteJob e token uri pf =
     (case uri of
        None \<Rightarrow> (Inl ''bad request'', pf)
      | Some n \<Rightarrow> (case getJob e n token pf of
          Inl x \<Rightarrow> (Inl x, pf)
        | Inr _ \<Rightarrow> (case jr_clusterGetErr e of
            Some x \<Rightarrow> (Inl x, pf)
          | None \<Rightarrow>
              let found = find_vcjob (jr_ns e) n pf;
                  shouldDeleteRecord = (case found of None \<Rightarrow> True | Some job \<Rightarrow> finished_phase (vj_phase job))
              in (case delete_row e shouldDeleteRecord n pf of
                  (Some x, pf1) \<Rightarrow> (Inl x, pf1)
                | (None, pf1) \<Rightarrow>
                    if found = None then (Inr (), pf1)
                    else (case jr_deleteJobErr e of
                        Some x \<Rightarrow> (Inl x, pf1)
                      | None \<Rightarrow> (Inr (), remove_vcjob (jr_ns e) n pf1))))))"

text \<open>The route of administrators runs the same handler.\<close>

definition UserDeleteJob :: "request_env \<Rightarrow> jwt_message \<Rightarrow> string option \<Rightarrow> ('q, 'p, 't) platform \<Rightarrow> unit result \<times> ('q, 'p, 't) platform" where
  "UserDeleteJob e token uri pf = deleteJob e token uri pf"

definition DeleteJobForAdmin :: "request_env \<Rightarrow> jwt_message \<Rightarrow> string option \<Rightarrow> ('q, 'p, 't) platform \<Rightarrow> unit result \<times> ('q, 'p, 't) platform" where
  "DeleteJobForAdmin e token uri pf = deleteJob e token uri pf"

section \<open>Listings\<close>

record 'q job_resp =
  jp_name :: string
  jp_jobName :: string
  jp_owner :: string
  jp_username :: string
  jp_jobType :: string
  jp_queue :: string
  jp_phase :: string
  jp_createdAt :: time
  jp_startedAt :: time
  jp_completedAt :: time
  jp_nodeNames :: "string list"
  jp_resources :: "'q resource_list"
  jp_locked :: bool
  jp_permanentLocked :: bool
  jp_lockedAt :: time

definition job_resp_of :: "request_env \<Rightarrow> ('q, 'p, 't) platform \<Rightarrow> ('q, 'p, 't) job \<Rightarrow> 'q job_resp" where
  "job_resp_of e pf job =
     \<lparr>jp_name = jb_name job, jp_jobName = jb_jobName job, jp_owner = snd (user_names pf (jb_userID job)),
      jp_username = fst (user_names pf (jb_userID job)), jp_jobType = jb_jobType job, jp_queue = account_nickname pf (jb_accountID job),
      jp_phase = jb_status job, jp_createdAt = jb_creationTimestamp job, jp_startedAt = jb_runningTimestamp job,
      jp_completedAt = jb_completedTimestamp job, jp_nodeNames = jb_nodes job, jp_resources = jb_resources job,
      jp_locked = (jr_now e < jb_lockedTimestamp job), jp_permanentLocked = (jb_lockedTimestamp job = jr_permanent e),
      jp_lockedAt = jb_lockedTimestamp job\<rparr>"

definition convertJobResp :: "request_env \<Rightarrow> ('q, 'p, 't) platform \<Rightarrow> ('q, 'p, 't) job list \<Rightarrow> 'q job_resp list" where
  "convertJobResp e pf jobs = sort_key (\<lambda>r. - jp_createdAt r) (map (job_resp_of e pf) jobs)"

definition GetUserJobs :: "request_env \<Rightarrow> jwt_message \<Rightarrow> ('q, 'p, 't) platform \<Rightarrow> 'q job_resp list result" where
  "GetUserJobs e token pf =
     (case jr_listErr e of
        Some x \<Rightarrow> Inl x
      | None \<Rightarrow> Inr (convertJobResp e pf
          (tbl_find (\<lambda>j. jb_userID j = jm_userID token \<and> jb_accountID j = jm_accountID token) (pf_jobs pf))))"

text \<open>
  The days are subtracted from the clock on the calendar; \<open>days_before\<close> is that subtraction.  The filter is on the creation of
  the row, which the model keeps with the job's own.
\<close>

definition GetAllJobsInDays ::
  "request_env \<Rightarrow> (time \<Rightarrow> int \<Rightarrow> time) \<Rightarrow> (('q, 'p, 't) job \<Rightarrow> time) \<Rightarrow> int option \<Rightarrow> ('q, 'p, 't) platform \<Rightarrow> 'q job_resp list result" where
  "GetAllJobsInDays e days_before rowCreatedAt body pf =
     (case body of
        None \<Rightarrow> Inl ''bad request''
      | Some reqDays \<Rightarrow>
          let days = (if 0 < reqDays then reqDays else 7);
              selected = (if reqDays \<noteq> -1 then tbl_find (\<lambda>j. days_before (jr_now e) days \<le> rowCreatedAt j) (pf_jobs pf) else pf_jobs pf)
          in (case jr_listErr e of
               Some x \<Rightarrow> Inl x
             | None \<Rightarrow> Inr (convertJobResp e pf selected)))"

section \<open>Details\<close>

record ('q, 'p, 't) job_detail =
  jd_resp :: "'q job_resp"
  jd_namespace :: string
  jd_profileData :: "'p option"
  jd_scheduleData :: "schedule_data option"
  jd_events :: "event list"
  jd_terminatedStates :: "'t list"

text \<open>The fields it shares with the listing are those of \<open>jd_resp\<close>; the detail has no locks and no nodes.\<close>

definition GetJobDetail :: "request_env \<Rightarrow> jwt_message \<Rightarrow> string option \<Rightarrow> ('q, 'p, 't) platform \<Rightarrow> ('q, 'p, 't) job_detail result" where
  "GetJobDetail e token uri pf =
     (case uri of
        None \<Rightarrow> Inl ''bad request''
      | Some n \<Rightarrow> (case getJob e n token pf of
          Inl x \<Rightarrow> Inl x
        | Inr job \<Rightarrow>
            Inr \<lparr>jd_resp = job_resp_of e pf job, jd_namespace = vj_namespace (jb_attributes job),
                 jd_profileData = (case jb_profileData job of None \<Rightarrow> None | Some d \<Rightarrow> d), jd_scheduleData = jb_scheduleData job,
                 jd_events = (case jb_events job of None \<Rightarrow> [] | Some es \<Rightarrow> es),
                 jd_terminatedStates = (case jb_terminatedStates job of None \<Rightarrow> [] | Some ts \<Rightarrow> ts)\<rparr>))"

definition GetJobTemplate :: "request_env \<Rightarrow> jwt_message \<Rightarrow> string option \<Rightarrow> ('q, 'p, 't) platform \<Rightarrow> string result" where
  "GetJobTemplate e token uri pf =
     (case uri of None \<Rightarrow> Inl ''bad request'' | Some n \<Rightarrow> map_sum id jb_template (getJob e n token pf))"

text \<open>The pods of a job are those with its base URL as a label.\<close>

definition pods_of_job :: "request_env \<Rightarrow> 'q vc_job \<Rightarrow> 'q network \<Rightarrow> 'q live_pod list result" where
  "pods_of_job e vcjob nw =
     (case gm_get (vj_labels vcjob) LabelKeyBaseURL of
        None \<Rightarrow> Inl ''label not found''
      | Some v \<Rightarrow> (case jr_podListErr e of
          Some x \<Rightarrow> Inl x
        | None \<Rightarrow> Inr (matching_pods (vj_namespace vcjob) [(LabelKeyBaseURL, v)] nw)))"

record 'q pod_detail =
  pt_name :: string
  pt_namespace :: string
  pt_nodeName :: string
  pt_ip :: string
  pt_port :: string
  pt_resource :: "'q resource_list"
  pt_phase :: string

definition port_text :: "(string \<times> int) list \<Rightarrow> string" where
  "port_text ports = butlast (concat (map (\<lambda>(n, p). n @ '':'' @ itoa p @ '','') ports))"

text \<open>The ports are those of the first container; a pod without one is an index out of range.\<close>

fun pod_details :: "('q, 'm) quantity_ops_scheme \<Rightarrow> 'q live_pod list \<Rightarrow> 'q pod_detail list go" where
  "pod_details Q [] = Inr []"
| "pod_details Q (pod # pods) =
     (case lp_containers pod of
        [] \<Rightarrow> Inl IndexOutOfRange
      | c # cs \<Rightarrow> go_bind (pod_details Q pods) (\<lambda>ds.
          Inr (\<lparr>pt_name = lp_name pod, pt_namespace = lp_namespace pod, pt_nodeName = lp_nodeName pod, pt_ip = lp_podIP pod,
                pt_port = port_text (pc_ports c), pt_resource = CalculateRequsetsByContainers Q (map pc_requests (lp_containers pod)),
                pt_phase = lp_phase pod\<rparr> # ds)))"

definition GetJobPods ::
  "('q, 'm) quantity_ops_scheme \<Rightarrow> request_env \<Rightarrow> jwt_message \<Rightarrow> string option \<Rightarrow> ('q, 'p, 't) job_site \<Rightarrow> 'q pod_detail list result go" where
  "GetJobPods Q e token uri st =
     (case uri of
        None \<Rightarrow> Inr (Inl ''bad request'')
      | Some n \<Rightarrow> (case getJob e n token (js_platform st) of
          Inl x \<Rightarrow> Inr (Inl x)
        | Inr job \<Rightarrow> (case pods_of_job e (jb_attributes job) (js_network st) of
            Inl x \<Rightarrow> Inr (Inl x)
          | Inr pods \<Rightarrow> go_bind (pod_details Q pods) (\<lambda>ds. Inr (Inr ds)))))"

text \<open>The events of the pods, or of the job as long as no pod has any.\<close>

fun collect_events :: "request_env \<Rightarrow> bool \<Rightarrow> event list \<Rightarrow> string list \<Rightarrow> event list result" where
  "collect_events e containsPodEvents events [] = Inr events"
| "collect_events e containsPodEvents events (n # ns) =
     (case jr_events e ''Pod'' n of
        Inl x \<Rightarrow> Inl x
      | Inr podEvents \<Rightarrow>
          if podEvents \<noteq> [] \<and> \<not> containsPodEvents then collect_events e True podEvents ns
          else collect_events e containsPodEvents (events @ podEvents) ns)"

definition GetJobEvents :: "request_env \<Rightarrow> jwt_message \<Rightarrow> string option \<Rightarrow> ('q, 'p, 't) job_site \<Rightarrow> event list result" where
  "GetJobEvents e token uri st =
     (case uri of
        None \<Rightarrow> Inl ''bad request''
      | Some n \<Rightarrow> (case getJob e n token (js_platform st) of
          Inl x \<Rightarrow> Inl x
        | Inr job \<Rightarrow> (case jr_events e ''Job'' (vj_name (jb_attributes job)) of
            Inl x \<Rightarrow> Inl x
          | Inr events \<Rightarrow> (case pods_of_job e (jb_attributes job) (js_network st) of
              Inl x \<Rightarrow> Inl x
            | Inr pods \<Rightarrow> collect_events e False events (map lp_name pods)))))"

section \<open>Alerts\<close>

definition ToggleAlertState :: "request_env \<Rightarrow> jwt_message \<Rightarrow> string option \<Rightarrow> ('q, 'p, 't) platform \<Rightarrow> string result \<times> ('q, 'p, 't) platform" where
  "ToggleAlertState e token uri pf =
     (case uri of
        None \<Rightarrow> (Inl ''bad request'', pf)
      | Some n \<Rightarrow> (case getJob e n token pf of
          Inl x \<Rightarrow> (Inl x, pf)
        | Inr job \<Rightarrow> (case jr_updateRowErr e of
            Some x \<Rightarrow> (Inl x, pf)
          | None \<Rightarrow> (Inr (''Set '' @ n @ '' AlertEnabled to '' @ format_bool (\<not> jb_alertEnabled job)),
                     update_job_named n (\<lambda>j. j\<lparr>jb_alertEnabled := \<not> jb_alertEnabled job\<rparr>) pf))))"

section \<open>SSH\<close>

abbreviation (input) AnnotationKeySSHEnabled :: string where "AnnotationKeySSHEnabled \<equiv> ''crater.raids.io/ssh-enabled''"
abbreviation (input) SSHPort :: int where "SSHPort \<equiv> 22"

record ssh_info =
  sh_ip :: string
  sh_port :: string

definition live_pod_named :: "string \<Rightarrow> string \<Rightarrow> 'q network \<Rightarrow> 'q live_pod option" where
  "live_pod_named ns n nw = find (\<lambda>p. lp_name p = n \<and> lp_namespace p = ns) (nw_pods nw)"

definition annotate_pod :: "string \<Rightarrow> string \<Rightarrow> (string, string) gomap \<Rightarrow> 'q network \<Rightarrow> 'q network" where
  "annotate_pod ns n m nw =
     nw\<lparr>nw_pods := map (\<lambda>p. if lp_name p = n \<and> lp_namespace p = ns then p\<lparr>lp_annotations := Some m\<rparr> else p) (nw_pods nw)\<rparr>"

text \<open>The address that is already written on the pod.\<close>

definition stored_ssh :: "string \<Rightarrow> ssh_info result" where
  "stored_ssh v =
     (case split_on CHR '':'' v of
        [ip, port] \<Rightarrow> Inr \<lparr>sh_ip = ip, sh_port = port\<rparr>
      | _ \<Rightarrow> Inl ''invalid ssh enabled value'')"

text \<open>
  The address is written on the pod after the service exists.  Writing into the annotations of a pod that has none is a panic;
  an update that fails is only logged.
\<close>

definition start_ssh :: "request_env \<Rightarrow> string \<Rightarrow> 'q vc_job \<Rightarrow> 'q live_pod \<Rightarrow> 'q network \<Rightarrow> ssh_info result go \<times> 'q network" where
  "start_ssh e username vcjob pod nw =
     (case jr_execErr e of
        Some x \<Rightarrow> (Inr (Inl (''failed to setup and start ssh service in pod: '' @ x)), nw)
      | None \<Rightarrow>
          (case CreateNodePort (jr_service e)
              [\<lparr>or_apiVersion = ''batch.volcano.sh/v1alpha1'', or_kind = ''Job'', or_name = vj_name vcjob\<rparr>]
              (snd (getPodNameAndLabelFromJob vcjob)) (Some (tcp_port ''ssh'' SSHPort)) username nw of
             (Inl x, nw1) \<Rightarrow> (Inr (Inl (''failed to create ssh service: '' @ x)), nw1)
           | (Inr (ip, port), nw1) \<Rightarrow>
               (case lp_annotations pod of
                  None \<Rightarrow> (Inl NilDereference, nw1)
                | Some m \<Rightarrow>
                    (Inr (Inr \<lparr>sh_ip = ip, sh_port = itoa port\<rparr>),
                     if jr_podUpdateErr e = None
                     then annotate_pod (lp_namespace pod) (lp_name pod) (gm_put AnnotationKeySSHEnabled (ip @ '':'' @ itoa port) m) nw1
                     else nw1))))"

definition OpenSSH :: "request_env \<Rightarrow> jwt_message \<Rightarrow> string option \<Rightarrow> ('q, 'p, 't) job_site \<Rightarrow> ssh_info result go \<times> ('q, 'p, 't) job_site" where
  "OpenSSH e token uri st =
     (case uri of
        None \<Rightarrow> (Inr (Inl ''bad request''), st)
      | Some n \<Rightarrow> (case getJob e n token (js_platform st) of
          Inl x \<Rightarrow> (Inr (Inl x), st)
        | Inr job \<Rightarrow>
            if jb_status job \<noteq> PhaseRunning then (Inr (Inl ''job is not running''), st)
            else
              (let vcjob = jb_attributes job
               in case (if jr_podGetErr e = None
                        then live_pod_named (vj_namespace vcjob) (fst (getPodNameAndLabelFromJob vcjob)) (js_network st) else None) of
                    None \<Rightarrow> (Inr (Inl ''pod not found''), st)
                  | Some pod \<Rightarrow>
                      if lp_containers pod = [] then (Inl IndexOutOfRange, st)
                      else (case (case lp_annotations pod of None \<Rightarrow> None | Some m \<Rightarrow> gm_get m AnnotationKeySSHEnabled) of
                          Some v \<Rightarrow> (Inr (stored_ssh v), st)
                        | None \<Rightarrow>
                            (case start_ssh e (fst (user_names (js_platform st) (jb_userID job))) vcjob pod (js_network st) of
                               (r, nw1) \<Rightarrow> (r, st\<lparr>js_network := nw1\<rparr>))))))"

section \<open>The token of a notebook\<close>

abbreviation (input) AnnotationKeyJupyter :: string where "AnnotationKeyJupyter \<equiv> ''crater.raids.io/jupyter-token''"

record job_token =
  jt_baseURL :: string
  jt_token :: string
  jt_podName :: string
  jt_namespace :: string
  jt_fullURL :: string

text \<open>The expression \<open>\?token=([a-zA-Z0-9]+)\<close>: the first group of the leftmost match.\<close>

definition is_alnum :: "char \<Rightarrow> bool" where
  "is_alnum c \<longleftrightarrow> is_digit c \<or> (65 :: nat) \<le> of_char c \<and> of_char c \<le> (90 :: nat) \<or> (97 :: nat) \<le> of_char c \<and> of_char c \<le> (122 :: nat)"

fun match_token :: "string \<Rightarrow> string option" where
  "match_token [] = None"
| "match_token (c # s) =
     (let group = takeWhile is_alnum (drop 7 (c # s))
      in if has_prefix ''?token='' (c # s) \<and> group \<noteq> [] then Some group else match_token s)"

definition annotate_job :: "string \<Rightarrow> string \<Rightarrow> (string, string) gomap \<Rightarrow> ('q, 'p, 't) platform \<Rightarrow> ('q, 'p, 't) platform" where
  "annotate_job ns n m pf =
     pf\<lparr>pf_vcjobs := map (\<lambda>j. if vj_name j = n \<and> vj_namespace j = ns then j\<lparr>vj_annotations := m\<rparr> else j) (pf_vcjobs pf)\<rparr>"

definition GetJobToken :: "request_env \<Rightarrow> jwt_message \<Rightarrow> string option \<Rightarrow> ('q, 'p, 't) platform \<Rightarrow> job_token result \<times> ('q, 'p, 't) platform" where
  "GetJobToken e token uri pf =
     (case uri of
        None \<Rightarrow> (Inl ''bad request'', pf)
      | Some n \<Rightarrow> (case getJob e n token pf of
          Inl x \<Rightarrow> (Inl x, pf)
        | Inr job \<Rightarrow>
            if jb_jobType job \<noteq> JobTypeJupyter then (Inl ''Job type is not Jupyter'', pf)
            else (case (if jr_clusterGetErr e = None then find_vcjob (jr_ns e) n pf else None) of
                None \<Rightarrow> (Inl ''job not found'', pf)
              | Some vcjob \<Rightarrow>
                  if vj_phase vcjob \<noteq> PhaseRunning then (Inl ''Job not running'', pf)
                  else
                    (let baseURL = map_value (vj_labels vcjob) LabelKeyBaseURL;
                         podName = fst (getPodNameAndLabelFromJob vcjob);
                         answer = (\<lambda>t. \<lparr>jt_baseURL = baseURL, jt_token = t, jt_podName = podName, jt_namespace = jr_ns e,
                                        jt_fullURL = ''https://'' @ jr_host e @ ''/ingress/'' @ baseURL\<rparr>)
                     in case gm_get (vj_annotations vcjob) AnnotationKeyJupyter of
                          Some t \<Rightarrow> (Inr (answer t), pf)
                        | None \<Rightarrow> (case jr_logs e podName of
                            Inl x \<Rightarrow> (Inl x, pf)
                          | Inr logs \<Rightarrow> (case match_token logs of
                              None \<Rightarrow> (Inl ''Jupyter token not found'', pf)
                            | Some t \<Rightarrow> (case jr_updateJobErr e of
                                Some x \<Rightarrow> (Inl x, pf)
                              | None \<Rightarrow> (Inr (answer t), annotate_job (jr_ns e) n (gm_put AnnotationKeyJupyter t (vj_annotations vcjob)) pf))))))))"

section \<open>Snapshots\<close>

record snapshot_req =
  sr_userID :: nat
  sr_namespace :: string
  sr_podName :: string
  sr_containerName :: string
  sr_nodeName :: string
  sr_description :: string
  sr_imageLink :: string

text \<open>What is handed to the image packer; its own failure is the last one.\<close>

definition CreateJupyterSnapshot :: "request_env \<Rightarrow> jwt_message \<Rightarrow> string option \<Rightarrow> ('q, 'p, 't) job_site \<Rightarrow> snapshot_req result" where
  "CreateJupyterSnapshot e token uri st =
     (case uri of
        None \<Rightarrow> Inl ''bad request''
      | Some n \<Rightarrow> (case getJob e n token (js_platform st) of
          Inl x \<Rightarrow> Inl x
        | Inr job \<Rightarrow> (case jb_nodes job of
            [nodeName] \<Rightarrow> (case pods_of_job e (jb_attributes job) (js_network st) of
                Inl x \<Rightarrow> Inl x
              | Inr [pod] \<Rightarrow>
                  if lp_phase pod \<noteq> PhaseRunning then Inl ''pod not running''
                  else (case lp_containers pod of
                      [c] \<Rightarrow>
                        if jr_projectErr e \<noteq> None then Inl ''create harbor project failed''
                        else (case GenerateNewImageLinkForDockerfileBuild (jr_link e) (pc_image c) (jm_username token) [] [] of
                            Inl x \<Rightarrow> Inl ''generate new image link failed''
                          | Inr imageLink \<Rightarrow> (case jr_packErr e of
                              Some x \<Rightarrow> Inl x
                            | None \<Rightarrow> Inr \<lparr>sr_userID = jm_userID token, sr_namespace = vj_namespace (jb_attributes job), sr_podName = lp_name pod,
                                sr_containerName = pc_name c, sr_nodeName = nodeName,
                                sr_description = ''Snapshot of '' @ jb_jobName job, sr_imageLink = imageLink\<rparr>))
                    | _ \<Rightarrow> Inl ''invalid container'')
              | Inr _ \<Rightarrow> Inl ''invalid pod'')
          | _ \<Rightarrow> Inl ''invalid node'')))"

section \<open>What a request may touch\<close>

definition jobs_ok :: "('q, 'p, 't) platform \<Rightarrow> bool" where
  "jobs_ok pf \<longleftrightarrow> distinct (map jb_jobName (pf_jobs pf))"

lemma job_named_in: "job_named n pf = Some j \<Longrightarrow> j \<in> set (pf_jobs pf) \<and> jb_jobName j = n"
  by (auto simp: job_named_def dest: tbl_first_Some)

lemma job_named_iff: "jobs_ok pf \<Longrightarrow> job_named n pf = Some j \<longleftrightarrow> j \<in> set (pf_jobs pf) \<and> jb_jobName j = n"
  using job_named_in [of n pf j] distinct_first [of jb_jobName "pf_jobs pf" j] by (auto simp: jobs_ok_def job_named_def)

text \<open>Who finds which job.\<close>

lemma getJob_exact:
  assumes "jobs_ok pf" and "getJob e n token pf = Inr j"
  shows "job_named n pf = Some j \<and>
    (jm_rolePlatform token = RoleAdmin \<or> jb_userID j = jm_userID token \<and> jb_accountID j = jm_accountID token)"
proof (cases "jm_rolePlatform token = RoleAdmin")
  case True
  with assms(2) show ?thesis by (simp add: getJob_def split: option.splits)
next
  case False
  let ?P = "\<lambda>j. jb_jobName j = n \<and> jb_accountID j = jm_accountID token \<and> jb_userID j = jm_userID token"
  have "tbl_first ?P (pf_jobs pf) = Some j" using assms(2) False by (simp add: getJob_def split: option.splits)
  with tbl_first_Some [of ?P] have "j \<in> set (pf_jobs pf) \<and> ?P j" by blast
  with False job_named_iff [OF assms(1)] show ?thesis by simp
qed

lemma job_named_delete: "job_named m (pf\<lparr>pf_jobs := tbl_delete (\<lambda>j. jb_jobName j = n) (pf_jobs pf)\<rparr>) = (if m = n then None else job_named m pf)"
proof -
  have "find (\<lambda>j. jb_jobName j = m) (filter (\<lambda>j. jb_jobName j \<noteq> n) js) = (if m = n then None else find (\<lambda>j. jb_jobName j = m) js)"
    for js :: "('a, 'b, 'c) job list" by (induction js) auto
  then show ?thesis by (simp add: job_named_def tbl_first_def tbl_delete_def)
qed

lemma find_vcjob_remove: "find_vcjob ns m (remove_vcjob k n pf) = (if m = n \<and> ns = k then None else find_vcjob ns m pf)"
proof -
  have "find (\<lambda>j. vj_name j = m \<and> vj_namespace j = ns) (filter (\<lambda>j. \<not> (vj_name j = n \<and> vj_namespace j = k)) js) =
      (if m = n \<and> ns = k then None else find (\<lambda>j. vj_name j = m \<and> vj_namespace j = ns) js)" for js :: "'a vc_job list"
    by (induction js) auto
  then show ?thesis by (simp add: find_vcjob_def remove_vcjob_def)
qed

lemma platform_frames [simp]:
  "find_vcjob ns m (pf\<lparr>pf_jobs := x\<rparr>) = find_vcjob ns m pf" "find_vcjob ns m (update_job_named n f pf) = find_vcjob ns m pf"
  "pf_jobs (remove_vcjob ns n pf) = pf_jobs pf" "job_named m (remove_vcjob ns n pf) = job_named m pf"
  "pf_jobs (annotate_job ns n a pf) = pf_jobs pf" "job_named m (annotate_job ns n a pf) = job_named m pf"
  by (simp_all add: find_vcjob_def update_job_named_def remove_vcjob_def job_named_def annotate_job_def)

lemma find_vcjob_annotate: "m \<noteq> n \<Longrightarrow> find_vcjob ns m (annotate_job k n a pf) = find_vcjob ns m pf"
proof -
  assume "m \<noteq> n"
  then have "find (\<lambda>j. vj_name j = m \<and> vj_namespace j = ns) (map (\<lambda>j. if vj_name j = n \<and> vj_namespace j = k then j\<lparr>vj_annotations := a\<rparr> else j) js) =
      find (\<lambda>j. vj_name j = m \<and> vj_namespace j = ns) js" for js :: "'a vc_job list"
    by (induction js) auto
  then show ?thesis by (simp add: find_vcjob_def annotate_job_def)
qed

definition marked_deleted :: "request_env \<Rightarrow> ('q, 'p, 't) job \<Rightarrow> ('q, 'p, 't) job" where
  "marked_deleted e j = j\<lparr>jb_status := PhaseDeleted, jb_completedTimestamp := (if jr_now e = 0 then jb_completedTimestamp j else jr_now e)\<rparr>"

lemma delete_row_named:
  "delete_row e del n pf = (None, pf1) \<Longrightarrow>
   job_named m pf1 = (if m = n then if del then None else map_option (marked_deleted e) (job_named n pf) else job_named m pf) \<and>
   find_vcjob ns m pf1 = find_vcjob ns m pf"
  using job_named_update [of "marked_deleted e" m n pf]
  by (auto simp: delete_row_def job_named_delete marked_deleted_def [abs_def] split: if_splits option.splits)

lemma delete_row_fails: "delete_row e del n pf = (Some x, pf1) \<Longrightarrow> pf1 = pf"
  by (auto simp: delete_row_def split: if_splits option.splits)

text \<open>Whether the row goes with the job, and what the write of the row answers.\<close>

definition row_goes :: "request_env \<Rightarrow> string \<Rightarrow> ('q, 'p, 't) platform \<Rightarrow> bool" where
  "row_goes e n pf = (case find_vcjob (jr_ns e) n pf of None \<Rightarrow> True | Some vc \<Rightarrow> finished_phase (vj_phase vc))"

definition row_fault :: "request_env \<Rightarrow> string \<Rightarrow> ('q, 'p, 't) platform \<Rightarrow> fault" where
  "row_fault e n pf = (if row_goes e n pf then jr_deleteRowErr e else jr_updateRowErr e)"

lemma delete_row_fault: "fst (delete_row e (row_goes e n pf) m pf) = row_fault e n pf"
  by (simp add: delete_row_def row_fault_def split: option.split)

lemma deleteJob_found:
  assumes "getJob e n token pf = Inr job"
  shows "deleteJob e token (Some n) pf =
    (case jr_clusterGetErr e of
       Some x \<Rightarrow> (Inl x, pf)
     | None \<Rightarrow> (case delete_row e (row_goes e n pf) n pf of
         (Some x, pf1) \<Rightarrow> (Inl x, pf1)
       | (None, pf1) \<Rightarrow>
           if find_vcjob (jr_ns e) n pf = None then (Inr (), pf1)
           else (case jr_deleteJobErr e of Some x \<Rightarrow> (Inl x, pf1) | None \<Rightarrow> (Inr (), remove_vcjob (jr_ns e) n pf1))))"
  unfolding deleteJob_def Let_def row_goes_def by (simp add: assms)

text \<open>Claim C11. Deletion, on every branch.  A job that the lookup does not find, and every other job and row, stay as they are.  The row of
  the job changes exactly when the cluster can be asked and the row can be written: it leaves the table if the job was gone or had
  finished, and is otherwise kept as deleted, with the time.  The job leaves the cluster exactly when the handler answers success;
  it answers an error when the cluster cannot be asked, the row cannot be written or the job cannot be deleted, and in this last case
  the row has changed although the job stays.
\<close>

theorem delete_job_outcome:
  assumes "jobs_ok pf" and "deleteJob e token (Some n) pf = (r, pf1)"
  shows "(case getJob e n token pf of
       Inl x \<Rightarrow> r = Inl x \<and> pf1 = pf
     | Inr job \<Rightarrow>
         job_named n pf1 = (if jr_clusterGetErr e \<noteq> None \<or> row_fault e n pf \<noteq> None then Some job
                            else if row_goes e n pf then None else Some (marked_deleted e job)) \<and>
         (r = Inr () \<longleftrightarrow> jr_clusterGetErr e = None \<and> row_fault e n pf = None \<and>
            (find_vcjob (jr_ns e) n pf = None \<or> jr_deleteJobErr e = None)) \<and>
         (\<forall>ns. find_vcjob ns n pf1 = (if r = Inr () \<and> ns = jr_ns e then None else find_vcjob ns n pf))) \<and>
    (\<forall>m ns. m \<noteq> n \<longrightarrow> job_named m pf1 = job_named m pf \<and> find_vcjob ns m pf1 = find_vcjob ns m pf)"
proof (cases "getJob e n token pf")
  case (Inl x)
  with assms(2) show ?thesis by (auto simp: deleteJob_def)
next
  case (Inr job)
  note d = assms(2) [unfolded deleteJob_found [OF Inr]]
  have j: "job_named n pf = Some job" using getJob_exact [OF assms(1) Inr] by simp
  obtain x pf2 where row: "delete_row e (row_goes e n pf) n pf = (x, pf2)" by fastforce
  have x: "x = row_fault e n pf" using delete_row_fault [of e n pf n] row by simp
  show ?thesis
  proof (cases "jr_clusterGetErr e")
    case None
    show ?thesis
    proof (cases x)
      case (Some y)
      with d row None x j delete_row_fails [of e "row_goes e n pf" n pf y pf2] show ?thesis by (auto simp: Inr)
    next
      case n2: None
      note rows = delete_row_named [OF row [unfolded n2]]
      show ?thesis
      proof (cases "find_vcjob (jr_ns e) n pf = None \<or> jr_deleteJobErr e = None")
        case True
        with d row None n2 x [symmetric] rows j show ?thesis
          by (cases "find_vcjob (jr_ns e) n pf") (auto simp: Inr find_vcjob_remove)
      next
        case False
        with d row None n2 x [symmetric] rows j show ?thesis by (auto simp: Inr)
      qed
    qed
  next
    case (Some y)
    with d have "r = Inl y" "pf1 = pf" by simp_all
    with j Some show ?thesis by (simp add: Inr)
  qed
qed

text \<open>
  The requests on jobs, each with whatever its caller sends and whatever fails: those of every user, on \<open>/vcjobs\<close> and on
  \<open>/approvalorder\<close>, and those behind the guard of administrators.
\<close>

definition order_token :: "jwt_message \<Rightarrow> token" where
  "order_token token = \<lparr>tk_userID = jm_userID token, tk_rolePlatform = jm_rolePlatform token\<rparr>"

abbreviation (input) on_platform :: "('q, 'p, 't) job_site \<Rightarrow> 'r \<times> ('q, 'p, 't) platform \<Rightarrow> ('q, 'p, 't) job_site" where
  "on_platform st x \<equiv> st\<lparr>js_platform := snd x\<rparr>"

inductive job_step :: "(jwt_message \<Rightarrow> bool) \<Rightarrow> ('q, 'p, 't) job_site \<Rightarrow> ('q, 'p, 't) job_site \<Rightarrow> bool" for allowed where
  st_delete: "allowed token \<Longrightarrow> job_step allowed st (on_platform st (UserDeleteJob e token uri (js_platform st)))"
| st_toggle: "allowed token \<Longrightarrow> job_step allowed st (on_platform st (ToggleAlertState e token uri (js_platform st)))"
| st_token: "allowed token \<Longrightarrow> job_step allowed st (on_platform st (GetJobToken e token uri (js_platform st)))"
| st_ssh: "allowed token \<Longrightarrow> job_step allowed st (snd (OpenSSH e token uri st))"
| st_custom: "allowed token \<Longrightarrow> job_step allowed st (snd (CreateTrainingJob se token creq st))"
| st_jupyter: "allowed token \<Longrightarrow> job_step allowed st (snd (CreateJupyterJob se token jreq st))"
| st_tensorflow: "allowed token \<Longrightarrow> job_step allowed st (snd (CreateTensorflowJob se token preq st))"
| st_pytorch: "allowed token \<Longrightarrow> job_step allowed st (snd (CreatePytorchJob se token preq st))"
| st_order: "allowed token \<Longrightarrow> job_step allowed st (on_platform st (CreateApprovalOrder ae (order_token token) oreq (js_platform st)))"
| st_order_update: "allowed token \<Longrightarrow> job_step allowed st (on_platform st (UpdateApprovalOrder ae (order_token token) ureq oid (js_platform st)))"
| st_order_delete: "allowed token \<Longrightarrow> job_step allowed st (on_platform st (DeleteApprovalOrder ae (order_token token) oid (js_platform st)))"
| st_admin_delete: "allowed token \<Longrightarrow> AuthAdmin token = Inr token \<Longrightarrow> job_step allowed st (on_platform st (DeleteJobForAdmin e token uri (js_platform st)))"
| st_admin_check: "allowed token \<Longrightarrow> AuthAdmin token = Inr token \<Longrightarrow> job_step allowed st (on_platform st (UpdateApprovalOrderByJobStatus ae (js_platform st)))"
| st_admin_keep: "allowed token \<Longrightarrow> AuthAdmin token = Inr token \<Longrightarrow> job_step allowed st (on_platform st (SetKeepWhenLowResourceUsage ae uri (js_platform st)))"
| st_admin_lock: "allowed token \<Longrightarrow> AuthAdmin token = Inr token \<Longrightarrow> job_step allowed st (on_platform st (AddLockTime ae lreq (js_platform st)))"
| st_admin_unlock: "allowed token \<Longrightarrow> AuthAdmin token = Inr token \<Longrightarrow> job_step allowed st (on_platform st (ClearLockTime ae uri (js_platform st)))"

text \<open>
  A job is kept: the job in the cluster and the row stay as they are, but for the lock of the row, which may be moved to a later
  time.
\<close>

definition job_kept :: "string \<Rightarrow> ('q, 'p, 't) platform \<Rightarrow> ('q, 'p, 't) platform \<Rightarrow> bool" where
  "job_kept n pf pf1 \<longleftrightarrow>
     (\<forall>j. job_named n pf = Some j \<longrightarrow> (\<exists>t. jb_lockedTimestamp j \<le> t \<and> job_named n pf1 = Some (j\<lparr>jb_lockedTimestamp := t\<rparr>))) \<and>
     (\<forall>ns v. find_vcjob ns n pf = Some v \<longrightarrow> find_vcjob ns n pf1 = Some v)"

lemma job_keptI:
  assumes "job_named n pf1 = job_named n pf" and "\<And>ns v. find_vcjob ns n pf = Some v \<Longrightarrow> find_vcjob ns n pf1 = Some v"
  shows "job_kept n pf pf1"
proof -
  have "j = j\<lparr>jb_lockedTimestamp := jb_lockedTimestamp j\<rparr>" for j :: "('a, 'b, 'c) job" by simp
  with assms show ?thesis unfolding job_kept_def by (metis order_refl)
qed

lemma job_kept_refl [simp]: "job_kept m pf pf"
  by (rule job_keptI) simp_all

lemma job_kept_trans:
  assumes "job_kept n pf pf1" and "job_kept n pf1 pf2"
  shows "job_kept n pf pf2"
  unfolding job_kept_def
proof (intro conjI allI impI)
  fix j assume "job_named n pf = Some j"
  then obtain t where t: "jb_lockedTimestamp j \<le> t" "job_named n pf1 = Some (j\<lparr>jb_lockedTimestamp := t\<rparr>)" using assms(1) unfolding job_kept_def by blast
  then obtain u where "t \<le> u" "job_named n pf2 = Some (j\<lparr>jb_lockedTimestamp := u\<rparr>)" using assms(2) unfolding job_kept_def by fastforce
  then show "\<exists>t. jb_lockedTimestamp j \<le> t \<and> job_named n pf2 = Some (j\<lparr>jb_lockedTimestamp := t\<rparr>)" using t(1) by (meson order_trans)
next
  fix ns v assume "find_vcjob ns n pf = Some v"
  then show "find_vcjob ns n pf2 = Some v" using assms unfolding job_kept_def by blast
qed

lemma delete_frame:
  "m \<noteq> n \<Longrightarrow> job_named m (snd (deleteJob e token (Some n) pf)) = job_named m pf \<and>
     find_vcjob ns m (snd (deleteJob e token (Some n) pf)) = find_vcjob ns m pf"
proof -
  assume m: "m \<noteq> n"
  let ?del = "case find_vcjob (jr_ns e) n pf of None \<Rightarrow> True | Some vc \<Rightarrow> finished_phase (vj_phase vc)"
  obtain x pf2 where row: "delete_row e ?del n pf = (x, pf2)" by fastforce
  have "job_named m pf2 = job_named m pf \<and> find_vcjob ns m pf2 = find_vcjob ns m pf"
    using row delete_row_named [of e ?del n pf pf2 m ns] delete_row_fails [of e ?del n pf _ pf2] m by (cases x) auto
  with m row show ?thesis by (cases x) (auto simp: deleteJob_def Let_def find_vcjob_remove split: sum.split option.split)
qed

lemma delete_rejected: "getJob e n token pf = Inl x \<Longrightarrow> snd (deleteJob e token (Some n) pf) = pf"
  by (simp add: deleteJob_def)

lemma toggle_frame:
  "m \<noteq> n \<Longrightarrow> job_named m (snd (ToggleAlertState e token (Some n) pf)) = job_named m pf \<and>
     find_vcjob ns m (snd (ToggleAlertState e token (Some n) pf)) = find_vcjob ns m pf"
  using job_named_update [of "\<lambda>j. j\<lparr>jb_alertEnabled := b\<rparr>" m n pf for b]
  by (auto simp: ToggleAlertState_def split: sum.split option.split)

lemma token_frame:
  "job_named m (snd (GetJobToken e token (Some n) pf)) = job_named m pf \<and>
   (m \<noteq> n \<longrightarrow> find_vcjob ns m (snd (GetJobToken e token (Some n) pf)) = find_vcjob ns m pf)"
  by (auto simp: GetJobToken_def Let_def find_vcjob_annotate split: sum.split option.split)

lemma ssh_frame: "js_platform (snd (OpenSSH e token uri st)) = js_platform st"
  by (auto simp: OpenSSH_def Let_def split: option.split sum.split prod.split)

text \<open>A creation adds a job to the cluster at most, under a name that is free; an order changes a lock at most.\<close>

definition adds_job :: "('q, 'p, 't) platform \<Rightarrow> ('q, 'p, 't) platform \<Rightarrow> bool" where
  "adds_job pf pf1 \<longleftrightarrow> pf1 = pf \<or>
     (\<exists>v. find_vcjob (vj_namespace v) (vj_name v) pf = None \<and> pf1 = pf\<lparr>pf_vcjobs := pf_vcjobs pf @ [v]\<rparr>)"

lemma adds_job_refl [simp]: "adds_job pf pf"
  by (simp add: adds_job_def)

lemma find_vcjob_append:
  "find_vcjob ns n pf = Some v \<Longrightarrow> find_vcjob ns n (pf\<lparr>pf_vcjobs := pf_vcjobs pf @ vs\<rparr>) = Some v"
proof -
  have "find P xs = Some v \<Longrightarrow> find P (xs @ vs) = Some v" for P and xs :: "'a vc_job list" by (induction xs) (auto split: if_splits)
  then show "find_vcjob ns n pf = Some v \<Longrightarrow> find_vcjob ns n (pf\<lparr>pf_vcjobs := pf_vcjobs pf @ vs\<rparr>) = Some v" by (simp add: find_vcjob_def)
qed

lemma adds_job_kept: "adds_job pf pf1 \<Longrightarrow> pf_jobs pf1 = pf_jobs pf \<and> job_kept n pf pf1"
  by (auto simp: adds_job_def job_named_def find_vcjob_append intro!: job_keptI)

lemma client_create_adds:
  assumes "client_create_job e job st = (x, st1)"
  shows "adds_job (js_platform st) (js_platform st1)"
proof (cases "st1 = st")
  case False
  let ?v = "vc_view (su_now e) job"
  have "find_vcjob (vj_namespace ?v) (vj_name ?v) (js_platform st) = None \<and>
      js_platform st1 = (js_platform st)\<lparr>pf_vcjobs := pf_vcjobs (js_platform st) @ [?v]\<rparr>"
    using False assms by (auto simp: client_create_job_def Let_def vc_view_def split: option.splits if_splits)
  then show ?thesis unfolding adds_job_def by blast
qed simp

lemma forwards_platform: "create_forwards e token job k fs st = (x, st1) \<Longrightarrow> js_platform st1 = js_platform st"
  using create_forwards_keeps [of e token job k fs st x st1] by auto

lemma creations_add:
  "adds_job (js_platform st) (js_platform (snd (CreateTrainingJob e token creq st)))"
  "adds_job (js_platform st) (js_platform (snd (CreateJupyterJob e token jreq st)))"
  "adds_job (js_platform st) (js_platform (snd (CreateTensorflowJob e token preq st)))"
  "adds_job (js_platform st) (js_platform (snd (CreatePytorchJob e token preq st)))"
proof -
  show "adds_job (js_platform st) (js_platform (snd (CreateTrainingJob e token creq st)))"
    by (auto simp: CreateTrainingJob_def Let_def dest!: client_create_adds forwards_platform split: option.split sum.split prod.split)
  show "adds_job (js_platform st) (js_platform (snd (CreateJupyterJob e token jreq st)))"
    by (auto simp: CreateJupyterJob_def Let_def dest!: client_create_adds forwards_platform split: option.split sum.split prod.split)
  have par: "adds_job (js_platform st) (js_platform (snd (create_parallel b e token r st)))" for b r
    by (auto simp: create_parallel_def dest!: client_create_adds split: option.split sum.split prod.split)
  show "adds_job (js_platform st) (js_platform (snd (CreateTensorflowJob e token preq st)))"
    "adds_job (js_platform st) (js_platform (snd (CreatePytorchJob e token preq st)))"
    by (simp_all add: CreateTensorflowJob_def CreatePytorchJob_def par split: option.split)
qed

lemma set_lock_platform: "find_vcjob ns m (set_lock n t pf) = find_vcjob ns m pf" "jobs_ok (set_lock n t pf) = jobs_ok pf"
  by (simp_all add: set_lock_def jobs_ok_def names_update)

lemma set_lock_kept:
  assumes "job_named n pf = Some j" and "jb_lockedTimestamp j \<le> t"
  shows "job_kept m pf (set_lock n t pf)"
proof (cases "m = n")
  case True
  have "job_named n (set_lock n t pf) = Some (j\<lparr>jb_lockedTimestamp := t\<rparr>)" by (simp add: job_named_set_lock assms(1))
  with assms True show ?thesis unfolding job_kept_def by (simp add: set_lock_platform) blast
next
  case False
  then show ?thesis by (simp add: set_lock_platform job_named_set_lock job_keptI)
qed

lemma lockJobForApproval_cases:
  assumes "lockJobForApproval e n h pf = (x, pf1)"
  obtains "pf1 = pf" | j t where "job_named n pf = Some j" "jb_lockedTimestamp j \<le> t" "pf1 = set_lock n t pf"
proof (cases "job_by_name e n pf")
  case (Inr j)
  let ?t = "(if ap_now e < jb_lockedTimestamp j then jb_lockedTimestamp j else ap_now e) + int h * Hour"
  have j: "job_named n pf = Some j" using Inr by (simp add: job_by_name_def split: option.splits)
  have "0 \<le> int h * Hour" by simp
  then have later: "jb_lockedTimestamp j \<le> ?t" by (simp only: split: if_split) linarith
  show thesis
  proof (cases "pf1 = pf")
    case False
    then have "pf1 = set_lock n ?t pf" using assms Inr by (simp add: lockJobForApproval_def Let_def split: if_splits option.splits)
    with that(2) j later show thesis by blast
  qed (rule that(1))
next
  case (Inl y)
  with assms have "pf1 = pf" by (simp add: lockJobForApproval_def)
  then show thesis by (rule that(1))
qed

lemma lock_for_approval:
  assumes "lockJobForApproval e n h pf = (x, pf1)"
  shows "(jobs_ok pf \<longrightarrow> jobs_ok pf1) \<and> job_kept m pf pf1"
  using assms by (rule lockJobForApproval_cases) (simp_all add: set_lock_kept set_lock_platform)

lemma orders_platform [simp]:
  "jobs_ok (pf\<lparr>pf_orders := ords\<rparr>) = jobs_ok pf" "job_kept m pf (pf1\<lparr>pf_orders := ords\<rparr>) = job_kept m pf pf1"
  by (simp_all add: jobs_ok_def job_kept_def job_named_def find_vcjob_def)

lemma orders_keep:
  "(jobs_ok pf \<longrightarrow> jobs_ok (snd (CreateApprovalOrder ae tk oreq pf))) \<and> job_kept m pf (snd (CreateApprovalOrder ae tk oreq pf))"
  "(jobs_ok pf \<longrightarrow> jobs_ok (snd (UpdateApprovalOrder ae tk ureq oid pf))) \<and> job_kept m pf (snd (UpdateApprovalOrder ae tk ureq oid pf))"
  "(jobs_ok pf \<longrightarrow> jobs_ok (snd (DeleteApprovalOrder ae tk oid pf))) \<and> job_kept m pf (snd (DeleteApprovalOrder ae tk oid pf))"
proof -
  show "(jobs_ok pf \<longrightarrow> jobs_ok (snd (CreateApprovalOrder ae tk oreq pf))) \<and> job_kept m pf (snd (CreateApprovalOrder ae tk oreq pf))"
  proof (cases oreq)
    case (Some r)
    obtain x pf1 where l: "lockJobForApproval ae (rq_name r) (rq_extensionHours r) pf = (x, pf1)" by fastforce
    from lock_for_approval [OF l, of m] show ?thesis
      by (simp add: CreateApprovalOrder_def Some l Let_def split: sum.split option.split)
  qed (simp add: CreateApprovalOrder_def)
  show "(jobs_ok pf \<longrightarrow> jobs_ok (snd (UpdateApprovalOrder ae tk ureq oid pf))) \<and> job_kept m pf (snd (UpdateApprovalOrder ae tk ureq oid pf))"
    by (simp add: UpdateApprovalOrder_def split: option.split)
  show "(jobs_ok pf \<longrightarrow> jobs_ok (snd (DeleteApprovalOrder ae tk oid pf))) \<and> job_kept m pf (snd (DeleteApprovalOrder ae tk oid pf))"
    by (simp add: DeleteApprovalOrder_def Let_def split: option.split)
qed

text \<open>The names of the rows stay distinct.\<close>

lemma jobs_ok_frames [simp]:
  "jobs_ok (pf\<lparr>pf_vcjobs := v\<rparr>) = jobs_ok pf" "jobs_ok (remove_vcjob ns n pf) = jobs_ok pf" "jobs_ok (annotate_job ns n a pf) = jobs_ok pf"
  by (simp_all add: jobs_ok_def)

lemma jobs_ok_filter: "jobs_ok pf \<Longrightarrow> jobs_ok (pf\<lparr>pf_jobs := tbl_delete P (pf_jobs pf)\<rparr>)"
  by (simp add: jobs_ok_def tbl_delete_def distinct_map_filter)

lemma jobs_ok_update: "(\<And>j. jb_jobName (f j) = jb_jobName j) \<Longrightarrow> jobs_ok (update_job_named n f pf) = jobs_ok pf"
  by (simp add: jobs_ok_def names_update)

lemma jobs_ok_delete_row: "jobs_ok pf \<Longrightarrow> jobs_ok (snd (delete_row e del n pf))"
  by (auto simp: delete_row_def jobs_ok_filter jobs_ok_update split: option.split)

lemma jobs_ok_rows:
  assumes "jobs_ok pf"
  shows "jobs_ok (snd (deleteJob e token uri pf))" "jobs_ok (snd (ToggleAlertState e token uri pf))" "jobs_ok (snd (GetJobToken e token uri pf))"
proof -
  show "jobs_ok (snd (deleteJob e token uri pf))"
  proof (cases uri)
    case (Some n)
    let ?del = "case find_vcjob (jr_ns e) n pf of None \<Rightarrow> True | Some vc \<Rightarrow> finished_phase (vj_phase vc)"
    obtain x pf2 where row: "delete_row e ?del n pf = (x, pf2)" by fastforce
    with jobs_ok_delete_row [OF assms, of e ?del n] have "jobs_ok pf2" by simp
    with row assms Some show ?thesis by (cases x) (auto simp: deleteJob_def Let_def split: sum.split option.split)
  qed (simp add: deleteJob_def assms)
  show "jobs_ok (snd (ToggleAlertState e token uri pf))"
    using assms by (auto simp: ToggleAlertState_def jobs_ok_update split: option.split sum.split)
  show "jobs_ok (snd (GetJobToken e token uri pf))"
    using assms by (auto simp: GetJobToken_def Let_def split: option.split sum.split)
qed

text \<open>A request names the job only if it finds it.\<close>

lemma foreign_name:
  assumes "jobs_ok pf" "job_named n pf = Some j" "jm_rolePlatform token \<noteq> RoleAdmin" "(jb_userID j, jb_accountID j) \<noteq> (jm_userID token, jm_accountID token)"
    and "getJob e m token pf = Inr k"
  shows "n \<noteq> m"
  using getJob_exact [OF assms(1,5)] assms(2-4) by auto

lemma own_requests_keep:
  assumes "jobs_ok pf" "job_named n pf = Some j" "jm_rolePlatform token \<noteq> RoleAdmin" "(jb_userID j, jb_accountID j) \<noteq> (jm_userID token, jm_accountID token)"
  shows "job_kept n pf (snd (deleteJob e token uri pf))" "job_kept n pf (snd (ToggleAlertState e token uri pf))"
    "job_kept n pf (snd (GetJobToken e token uri pf))"
proof -
  have "job_kept n pf (snd (deleteJob e token uri pf)) \<and> job_kept n pf (snd (ToggleAlertState e token uri pf)) \<and>
      job_kept n pf (snd (GetJobToken e token uri pf))"
  proof (cases uri)
    case (Some m)
    show ?thesis
    proof (cases "getJob e m token pf")
      case (Inr k)
      have "n \<noteq> m" by (rule foreign_name [OF assms Inr])
      with delete_frame [of n m e token pf] toggle_frame [of n m e token pf] token_frame [of n e token m pf] show ?thesis
        by (simp add: Some job_keptI)
    qed (simp add: Some delete_rejected ToggleAlertState_def GetJobToken_def)
  qed (simp add: deleteJob_def ToggleAlertState_def GetJobToken_def)
  then show "job_kept n pf (snd (deleteJob e token uri pf))" "job_kept n pf (snd (ToggleAlertState e token uri pf))"
    "job_kept n pf (snd (GetJobToken e token uri pf))" by simp_all
qed

lemma adds_job_ok: "adds_job pf pf1 \<Longrightarrow> jobs_ok pf \<Longrightarrow> jobs_ok pf1 \<and> job_kept n pf pf1"
  using adds_job_kept [of pf pf1 n] by (simp add: jobs_ok_def)

lemma job_kept_step:
  assumes "job_step allowed st st1" and "jobs_ok (js_platform st)" "job_named n (js_platform st) = Some j"
    and "\<And>token. allowed token \<Longrightarrow> jm_rolePlatform token \<noteq> RoleAdmin \<and> (jb_userID j, jb_accountID j) \<noteq> (jm_userID token, jm_accountID token)"
  shows "jobs_ok (js_platform st1) \<and> job_kept n (js_platform st) (js_platform st1)"
proof -
  have no_admin: "AuthAdmin token \<noteq> Inr token" if "allowed token" for token using assms(4) [OF that] by (simp add: AuthAdmin_def)
  note own = own_requests_keep [OF assms(2,3)] and add = creations_add [THEN adds_job_ok, OF assms(2)]
  from assms(1) show ?thesis
    by cases (use no_admin assms(2,4) in \<open>simp_all add: own add UserDeleteJob_def jobs_ok_rows ssh_frame orders_keep\<close>)
qed

text \<open>Claim C10. A user's job is safe from everybody but administrators and the user: whatever others who are no administrators ask of the
  handlers of jobs and of approval orders, with whatever tokens, in whatever order and with whatever failures (deletions, switches of
  alerts, tokens, SSH, creations of all four kinds, orders), the job in the cluster stays, and so does the row, but for
  its lock: an order of anyone may be approved on the spot and then moves the lock of the job it names to a later time, never to an earlier.
\<close>

theorem foreign_jobs_kept:
  assumes "(job_step allowed)\<^sup>*\<^sup>* st st1" and "jobs_ok (js_platform st)" and "job_named n (js_platform st) = Some j"
    and "\<And>token. allowed token \<Longrightarrow> jm_rolePlatform token \<noteq> RoleAdmin \<and> (jb_userID j, jb_accountID j) \<noteq> (jm_userID token, jm_accountID token)"
  shows "(\<exists>t. jb_lockedTimestamp j \<le> t \<and> job_named n (js_platform st1) = Some (j\<lparr>jb_lockedTimestamp := t\<rparr>)) \<and>
    (\<forall>ns v. find_vcjob ns n (js_platform st) = Some v \<longrightarrow> find_vcjob ns n (js_platform st1) = Some v)"
proof -
  have "jobs_ok (js_platform st1) \<and> job_kept n (js_platform st) (js_platform st1)" using assms(1)
  proof (induction rule: rtranclp_induct)
    case base
    then show ?case using assms(2) by simp
  next
    case (step st2 st3)
    then obtain t where j2: "job_named n (js_platform st2) = Some (j\<lparr>jb_lockedTimestamp := t\<rparr>)" using assms(3) unfolding job_kept_def by blast
    have "jobs_ok (js_platform st3) \<and> job_kept n (js_platform st2) (js_platform st3)"
      by (rule job_kept_step [OF step(2) _ j2]) (use step.IH assms(4) in auto)
    with step.IH job_kept_trans show ?case by blast
  qed
  with assms(3) show ?thesis unfolding job_kept_def by blast
qed

section \<open>Deletion and the reconciler\<close>

text \<open>The row is written before the job is removed.  If the removal fails, the user is told so, and the reconciler undoes the mark: the
  row of a running job runs again, but it keeps a time of completion, which nothing takes away.
\<close>

theorem failed_deletion_undone:
  assumes "jobs_ok pf" and "getJob e n token pf = Inr job" and "find_vcjob (jr_ns e) n pf = Some vc" and "vj_phase vc = PhaseRunning"
    and "jr_updateRowErr e = None" "jr_clusterGetErr e = None" "jr_deleteJobErr e = Some x" "jr_now e \<noteq> 0"
    and "rc_getErr rc = None" "rc_firstErr rc = None" "rc_updateErr rc = None"
  shows "\<exists>pf1 pf2 j1 j2. deleteJob e token (Some n) pf = (Inl x, pf1) \<and> job_named n pf1 = Some j1 \<and> jb_status j1 = PhaseDeleted \<and>
    Reconcile Q rc (jr_ns e) n pf1 = ((False, None), pf2) \<and> job_named n pf2 = Some j2 \<and> jb_status j2 = PhaseRunning \<and> jb_completedTimestamp j2 \<noteq> 0"
proof -
  have j: "job_named n pf = Some job" using getJob_exact [OF assms(1,2)] by simp
  let ?pf1 = "update_job_named n (marked_deleted e) pf"
  have "\<not> finished_phase PhaseRunning" by (simp add: finished_phase_def)
  then have d: "deleteJob e token (Some n) pf = (Inl x, ?pf1)"
    using assms(2-8) by (simp add: deleteJob_def delete_row_def marked_deleted_def [abs_def])
  have n1: "job_named n ?pf1 = Some (marked_deleted e job)"
    using job_named_update [of "marked_deleted e" n n pf] j by (simp add: marked_deleted_def [abs_def])
  have vc: "find_vcjob (jr_ns e) n ?pf1 = Some vc" "vj_name vc = n" using assms(3) find_vcjob_name by auto
  let ?s1 = "if jb_alertEnabled (marked_deleted e job) then send_transition_alerts rc n PhaseRunning (jb_status (marked_deleted e job)) ?pf1 else ?pf1"
  let ?p = "generateUpdateJobModel rc vc (marked_deleted e job) ?s1"
  have r: "Reconcile Q rc (jr_ns e) n ?pf1 = ((False, None), update_job_named n (apply_patch ?p) ?s1)"
    using assms(4,9-11) vc n1 by (simp add: Reconcile_def Let_def)
  have "job_named n ?s1 = Some (marked_deleted e job)" using n1 by (simp add: job_named_def)
  then have n2: "job_named n (update_job_named n (apply_patch ?p) ?s1) = Some (apply_patch ?p (marked_deleted e job))"
    using job_named_update [of "apply_patch ?p" n n ?s1] by simp
  have "jp_status ?p = PhaseRunning"
    using assms(4) by (simp add: generateUpdateJobModel_def no_patch_def Let_def split: prod.split)
  then have "jb_status (apply_patch ?p (marked_deleted e job)) = PhaseRunning" "jb_completedTimestamp (apply_patch ?p (marked_deleted e job)) \<noteq> 0"
    using assms(8) by (simp_all add: apply_patch_def marked_deleted_def)
  moreover have "jb_status (marked_deleted e job) = PhaseDeleted" by (simp add: marked_deleted_def)
  ultimately show ?thesis using d n1 r n2 by blast
qed

section \<open>Listings\<close>

text \<open>A user's listing shows exactly the own jobs in the account of the token, the newest first.\<close>

theorem user_jobs_exact:
  assumes "jr_listErr e = None"
  shows "\<exists>rs. GetUserJobs e token pf = Inr rs \<and>
    set rs = job_resp_of e pf ` {j \<in> set (pf_jobs pf). jb_userID j = jm_userID token \<and> jb_accountID j = jm_accountID token} \<and>
    sorted_wrt (\<lambda>a b. jp_createdAt b \<le> jp_createdAt a) rs \<and>
    length rs = length (filter (\<lambda>j. jb_userID j = jm_userID token \<and> jb_accountID j = jm_accountID token) (pf_jobs pf))"
proof -
  let ?js = "tbl_find (\<lambda>j. jb_userID j = jm_userID token \<and> jb_accountID j = jm_accountID token) (pf_jobs pf)"
  have "sorted (map (\<lambda>r. - jp_createdAt r) (convertJobResp e pf ?js))" by (simp add: convertJobResp_def)
  then have "sorted_wrt (\<lambda>a b. jp_createdAt b \<le> jp_createdAt a) (convertJobResp e pf ?js)"
    by (simp add: sorted_map)
  with assms show ?thesis by (simp add: GetUserJobs_def convertJobResp_def tbl_find_def image_def conj_commute)
qed

text \<open>
  The listing of all jobs looks back seven days unless it is asked for more, not fourteen; -1 lifts the limit, and every
  other number that is not positive means seven days as well.
\<close>

theorem all_jobs_window:
  assumes "jr_listErr e = None"
  shows "\<exists>rs. GetAllJobsInDays e days_before rowCreatedAt (Some d) pf = Inr rs \<and>
    set rs = job_resp_of e pf ` {j \<in> set (pf_jobs pf). d = -1 \<or> days_before (jr_now e) (if 0 < d then d else 7) \<le> rowCreatedAt j}"
  using assms by (auto simp: GetAllJobsInDays_def convertJobResp_def tbl_find_def Let_def)

section \<open>Asking twice\<close>

text \<open>Toggling the alerts of a job twice is no change.\<close>

theorem toggle_twice:
  assumes "jobs_ok pf" and "getJob e n token pf = Inr job" and "jr_updateRowErr e = None"
  shows "\<exists>a b pf1. ToggleAlertState e token (Some n) pf = (Inr a, pf1) \<and> job_named n pf1 = Some (job\<lparr>jb_alertEnabled := \<not> jb_alertEnabled job\<rparr>) \<and>
    ToggleAlertState e token (Some n) pf1 = (Inr b, pf)"
proof -
  have found: "jr_findErr e = None" using assms(2) by (simp add: getJob_def split: option.splits)
  have j: "job_named n pf = Some job" "jm_rolePlatform token = RoleAdmin \<or> jb_userID job = jm_userID token \<and> jb_accountID job = jm_accountID token"
    using getJob_exact [OF assms(1,2)] by simp_all
  let ?set = "\<lambda>b. update_job_named n (\<lambda>j. j\<lparr>jb_alertEnabled := b\<rparr>)" let ?pf1 = "?set (\<not> jb_alertEnabled job) pf"
  have n1: "job_named n ?pf1 = Some (job\<lparr>jb_alertEnabled := \<not> jb_alertEnabled job\<rparr>)"
    using job_named_update [of "\<lambda>j. j\<lparr>jb_alertEnabled := \<not> jb_alertEnabled job\<rparr>" n n pf] j by simp
  have ok1: "jobs_ok ?pf1" using assms(1) by (simp add: jobs_ok_update)
  have "getJob e n token ?pf1 = Inr (job\<lparr>jb_alertEnabled := \<not> jb_alertEnabled job\<rparr>)"
  proof (cases "jm_rolePlatform token = RoleAdmin")
    case True
    with n1 found show ?thesis by (simp add: getJob_def)
  next
    case False
    let ?P = "\<lambda>k. jb_jobName k = n \<and> jb_accountID k = jm_accountID token \<and> jb_userID k = jm_userID token"
    from n1 job_named_iff [OF ok1] have in1: "job\<lparr>jb_alertEnabled := \<not> jb_alertEnabled job\<rparr> \<in> set (pf_jobs ?pf1)" "jb_jobName job = n" by auto
    have "tbl_first ?P (pf_jobs ?pf1) = Some (job\<lparr>jb_alertEnabled := \<not> jb_alertEnabled job\<rparr>)"
    proof (rule tbl_first_unique [OF in1(1)])
      show "?P (job\<lparr>jb_alertEnabled := \<not> jb_alertEnabled job\<rparr>)" using False j(2) in1(2) by simp
      fix k assume "k \<in> set (pf_jobs ?pf1)" "?P k"
      with n1 job_named_iff [OF ok1, of n k] show "k = job\<lparr>jb_alertEnabled := \<not> jb_alertEnabled job\<rparr>" by simp
    qed
    with False found show ?thesis by (simp add: getJob_def)
  qed
  then obtain b where second: "ToggleAlertState e token (Some n) ?pf1 = (Inr b, ?set (jb_alertEnabled job) ?pf1)"
    using assms(3) by (simp add: ToggleAlertState_def)
  have "map (\<lambda>k. if jb_jobName k = n then k\<lparr>jb_alertEnabled := jb_alertEnabled job\<rparr> else k)
      (map (\<lambda>k. if jb_jobName k = n then k\<lparr>jb_alertEnabled := \<not> jb_alertEnabled job\<rparr> else k) (pf_jobs pf)) = pf_jobs pf"
  proof (rule map_idI [THEN trans [OF map_map]])
    fix k assume k: "k \<in> set (pf_jobs pf)"
    show "((\<lambda>k. if jb_jobName k = n then k\<lparr>jb_alertEnabled := jb_alertEnabled job\<rparr> else k) \<circ>
        (\<lambda>k. if jb_jobName k = n then k\<lparr>jb_alertEnabled := \<not> jb_alertEnabled job\<rparr> else k)) k = k"
    proof (cases "jb_jobName k = n")
      case True
      with job_named_iff [OF assms(1), of n k] j(1) k have "k = job" by simp
      then show ?thesis by simp
    qed simp
  qed
  then have "?set (jb_alertEnabled job) ?pf1 = pf" by (simp add: update_job_named_def tbl_updates_def)
  with second have again: "ToggleAlertState e token (Some n) ?pf1 = (Inr b, pf)" by simp
  obtain a where "ToggleAlertState e token (Some n) pf = (Inr a, ?pf1)" using assms(2,3) by (simp add: ToggleAlertState_def)
  with again n1 show ?thesis by (intro exI [of _ a] exI [of _ b] exI [of _ ?pf1]) simp
qed

lemma digits_no_colon: "0 \<le> i \<Longrightarrow> CHR '':'' \<notin> set (itoa i)"
proof
  assume "0 \<le> i" "CHR '':'' \<in> set (itoa i)"
  then have "is_digit CHR '':''" using fmt_uint_digits by (simp add: itoa_def)
  then show False by (simp add: is_digit_def)
qed

lemma stored_ssh_exact:
  assumes "0 \<le> port"
  shows "stored_ssh (ip @ '':'' @ itoa port) =
    (if CHR '':'' \<in> set ip then Inl ''invalid ssh enabled value'' else Inr \<lparr>sh_ip = ip, sh_port = itoa port\<rparr>)"
proof (cases "CHR '':'' \<in> set ip")
  case True
  then obtain a b where "ip = a @ CHR '':'' # b" by (auto dest: split_list)
  then have s: "split_on CHR '':'' (ip @ '':'' @ itoa port) = split_on CHR '':'' a @ split_on CHR '':'' b @ split_on CHR '':'' (itoa port)"
    by (simp add: split_on_at)
  obtain x xs y ys z zs where "split_on CHR '':'' a = x # xs" "split_on CHR '':'' b = y # ys" "split_on CHR '':'' (itoa port) = z # zs"
    by (meson list.exhaust split_on_not_Nil)
  with s True show ?thesis by (cases xs; cases "tl xs"; cases ys) (simp_all add: stored_ssh_def)
next
  case False
  then show ?thesis using split_on_append [OF False, of "itoa port"] split_on_free [OF digits_no_colon [OF assms]]
    by (simp add: stored_ssh_def)
qed

text \<open>The second request reads the pod as the first one left it.\<close>

lemma find_pod_annotate:
  "live_pod_named ns n (annotate_pod ns n m nw) = map_option (\<lambda>p. p\<lparr>lp_annotations := Some m\<rparr>) (live_pod_named ns n nw)"
proof -
  have "find (\<lambda>p. lp_name p = n \<and> lp_namespace p = ns) (map (\<lambda>p. if lp_name p = n \<and> lp_namespace p = ns then p\<lparr>lp_annotations := Some m\<rparr> else p) ps) =
      map_option (\<lambda>p. p\<lparr>lp_annotations := Some m\<rparr>) (find (\<lambda>p. lp_name p = n \<and> lp_namespace p = ns) ps)" for ps :: "'a live_pod list"
    by (induction ps) auto
  then show ?thesis by (simp add: live_pod_named_def annotate_pod_def)
qed

lemma find_pod_name: "live_pod_named ns n nw = Some p \<Longrightarrow> lp_name p = n \<and> lp_namespace p = ns"
  by (auto simp: live_pod_named_def find_Some_iff)

lemma node_port_pods: "nw_pods (snd (CreateNodePort e ow sel port u nw)) = nw_pods nw"
proof -
  have c: "nw_pods (snd (client_create_service e n svc nw)) = nw_pods nw" for n svc and nw :: "'a network"
    by (simp add: client_create_service_def split: option.split)
  show ?thesis
  proof (cases port)
    case (Some p)
    let ?svc = "node_port_service e (np_name e u) ow sel p"
    have "nw_pods (snd (create_node_port_service e u ?svc nw)) = nw_pods nw"
      using c [of 0 "?svc (userPort u)" nw] c [of 1 "?svc 0"] by (auto simp: create_node_port_service_def split: prod.split option.split)
    with Some show ?thesis by (simp add: CreateNodePort_network)
  qed (simp add: CreateNodePort_def)
qed

text \<open>
  An address that was given out is given out again, without a second service, as long as it was written on the pod.  An address
  with a colon in it, as one of IPv6 has, is given out once and is an error ever after.
\<close>

theorem ssh_asked_again:
  assumes "getJob e n token (js_platform st) = Inr job" and "jb_status job = PhaseRunning"
    and "live_pod_named (vj_namespace (jb_attributes job)) (fst (getPodNameAndLabelFromJob (jb_attributes job))) (js_network st) = Some pod"
    and "lp_containers pod \<noteq> []" and "lp_annotations pod = Some m" "gm_get m AnnotationKeySSHEnabled = None"
    and "jr_podGetErr e = None" "jr_execErr e = None" "jr_podUpdateErr e = None"
    and "CreateNodePort (jr_service e) [\<lparr>or_apiVersion = ''batch.volcano.sh/v1alpha1'', or_kind = ''Job'', or_name = vj_name (jb_attributes job)\<rparr>]
      (snd (getPodNameAndLabelFromJob (jb_attributes job))) (Some (tcp_port ''ssh'' SSHPort))
      (fst (user_names (js_platform st) (jb_userID job))) (js_network st) = (Inr (ip, port), nw)" and "0 \<le> port"
  shows "\<exists>st1. OpenSSH e token (Some n) st = (Inr (Inr \<lparr>sh_ip = ip, sh_port = itoa port\<rparr>), st1) \<and>
    OpenSSH e token (Some n) st1 =
      (Inr (if CHR '':'' \<in> set ip then Inl ''invalid ssh enabled value'' else Inr \<lparr>sh_ip = ip, sh_port = itoa port\<rparr>), st1)"
proof -
  let ?vc = "jb_attributes job" let ?pn = "fst (getPodNameAndLabelFromJob ?vc)" let ?ns = "vj_namespace ?vc"
  have pod: "lp_name pod = ?pn" "lp_namespace pod = ?ns" using find_pod_name [OF assms(3)] by simp_all
  have "nw_pods nw = nw_pods (js_network st)" using node_port_pods assms(10) by (metis snd_conv)
  then have nw: "live_pod_named ?ns ?pn nw = Some pod" using assms(3) by (simp add: live_pod_named_def)
  let ?m = "gm_put AnnotationKeySSHEnabled (ip @ '':'' @ itoa port) m"
  let ?st1 = "st\<lparr>js_network := annotate_pod ?ns ?pn ?m nw\<rparr>"
  have first: "OpenSSH e token (Some n) st = (Inr (Inr \<lparr>sh_ip = ip, sh_port = itoa port\<rparr>), ?st1)"
    using assms pod by (simp add: OpenSSH_def start_ssh_def Let_def)
  have pod1: "live_pod_named ?ns ?pn (js_network ?st1) = Some (pod\<lparr>lp_annotations := Some ?m\<rparr>)" using nw by (simp add: find_pod_annotate)
  have "OpenSSH e token (Some n) ?st1 = (Inr (stored_ssh (ip @ '':'' @ itoa port)), ?st1)"
    using assms(1,2,4,7) pod1 by (simp add: OpenSSH_def Let_def)
  with first stored_ssh_exact [OF assms(11), of ip] show ?thesis by (intro exI [of _ ?st1]) simp
qed

text \<open>
  The token of a notebook is read from its log once; from then on it comes from the job's annotations, whatever the log says.
\<close>

theorem notebook_token_cached:
  assumes "GetJobToken e token (Some n) pf = (Inr t, pf1)" and "getJob f n token pf1 = getJob e n token pf"
    and "jr_clusterGetErr f = None" "jr_ns f = jr_ns e" "jr_host f = jr_host e"
  shows "GetJobToken f token (Some n) pf1 = (Inr t, pf1)"
proof -
  obtain job vc where job: "getJob e n token pf = Inr job" "jb_jobType job = JobTypeJupyter"
    and vc: "find_vcjob (jr_ns e) n pf = Some vc" "vj_phase vc = PhaseRunning" "jr_clusterGetErr e = None"
    using assms(1) by (auto simp: GetJobToken_def Let_def split: sum.splits option.splits if_splits)
  show ?thesis
  proof (cases "gm_get (vj_annotations vc) AnnotationKeyJupyter")
    case (Some u)
    then show ?thesis using assms job vc by (simp add: GetJobToken_def Let_def)
  next
    case None
    then obtain u where u: "pf1 = annotate_job (jr_ns e) n (gm_put AnnotationKeyJupyter u (vj_annotations vc)) pf"
      "t = \<lparr>jt_baseURL = map_value (vj_labels vc) LabelKeyBaseURL, jt_token = u, jt_podName = fst (getPodNameAndLabelFromJob vc), jt_namespace = jr_ns e,
         jt_fullURL = ''https://'' @ jr_host e @ ''/ingress/'' @ map_value (vj_labels vc) LabelKeyBaseURL\<rparr>"
      using assms(1) job vc by (auto simp: GetJobToken_def Let_def split: sum.splits option.splits if_splits)
    have "find (\<lambda>j. vj_name j = n \<and> vj_namespace j = ns) (map (\<lambda>j. if vj_name j = n \<and> vj_namespace j = ns then j\<lparr>vj_annotations := a\<rparr> else j) js) =
        map_option (\<lambda>j. j\<lparr>vj_annotations := a\<rparr>) (find (\<lambda>j. vj_name j = n \<and> vj_namespace j = ns) js)" for ns a and js :: "'a vc_job list"
      by (induction js) auto
    then have "find_vcjob (jr_ns e) n pf1 = Some (vc\<lparr>vj_annotations := gm_put AnnotationKeyJupyter u (vj_annotations vc)\<rparr>)"
      using vc(1) u(1) by (simp add: find_vcjob_def annotate_job_def)
    moreover have "getPodNameAndLabelFromJob (vc\<lparr>vj_annotations := a\<rparr>) = getPodNameAndLabelFromJob vc" for a
      by (simp add: getPodNameAndLabelFromJob_def split: list.split)
    ultimately show ?thesis using assms(2-5) job vc(2) u(2) by (simp add: GetJobToken_def Let_def)
  qed
qed

text \<open>The events shown are those of all pods, in their order, or the job's own when no pod has any.\<close>

lemma collect_events_from:
  "\<forall>n \<in> set ns. jr_events e ''Pod'' n = Inr (f n) \<Longrightarrow> collect_events e b evs ns =
     Inr (if b \<or> concat (map f ns) = [] then evs @ concat (map f ns) else concat (map f ns))"
  by (induction ns arbitrary: b evs) auto

theorem job_events_shown:
  assumes "getJob e n token (js_platform st) = Inr job" and "jr_events e ''Job'' (vj_name (jb_attributes job)) = Inr evs"
    and "pods_of_job e (jb_attributes job) (js_network st) = Inr pods" and "\<forall>p \<in> set pods. jr_events e ''Pod'' (lp_name p) = Inr (f (lp_name p))"
  shows "GetJobEvents e token (Some n) st =
    Inr (if \<forall>p \<in> set pods. f (lp_name p) = [] then evs else concat (map (f \<circ> lp_name) pods))"
  using assms collect_events_from [of "map lp_name pods" e f False evs] by (auto simp: GetJobEvents_def comp_def)

section \<open>Examples\<close>

definition quiet_requests :: request_env where
  "quiet_requests = \<lparr>jr_now = 77, jr_ns = ''jobs'', jr_host = ''h'', jr_permanent = 10 ^ 20, jr_findErr = None, jr_listErr = None, jr_clusterGetErr = None,
     jr_deleteRowErr = None, jr_updateRowErr = None, jr_deleteJobErr = None, jr_updateJobErr = None, jr_podGetErr = None, jr_podUpdateErr = None,
     jr_podListErr = None, jr_execErr = None, jr_service = quiet_services, jr_logs = (\<lambda>p. Inr ''x?token=ab1&''), jr_events = (\<lambda>k n. Inr []),
     jr_projectErr = None, jr_link = sample_links, jr_packErr = None\<rparr>"

definition notebook :: "int vc_job" where
  "notebook = \<lparr>vj_name = ''jupyter-ann-1'', vj_namespace = ''jobs'', vj_labels = [(LabelKeyBaseURL, ''ann-1'')], vj_annotations = [(''a'', ''b'')],
     vj_creationTimestamp = 1, vj_queue = ''default'', vj_tasks = [\<lparr>vt_name = ''default0'', vt_replicas = 1, vt_labels = [(''k'', ''v'')], vt_containers = []\<rparr>],
     vj_phase = PhaseRunning, vj_conditions = []\<rparr>"

definition notebook_row :: "(int, unit, unit) job" where
  "notebook_row = \<lparr>jb_id = 1, jb_name = ''nb'', jb_jobName = ''jupyter-ann-1'', jb_userID = 4, jb_accountID = 1, jb_jobType = JobTypeJupyter,
     jb_status = PhaseRunning, jb_creationTimestamp = 1, jb_runningTimestamp = 2, jb_completedTimestamp = 0, jb_nodes = [], jb_resources = [],
     jb_attributes = notebook, jb_template = [], jb_alertEnabled = False, jb_reminded = False, jb_keepWhenLowResourceUsage = False,
     jb_lockedTimestamp = 0, jb_profileData = None, jb_scheduleData = None, jb_events = None, jb_terminatedStates = None\<rparr>"

definition notebook_platform :: "(int, unit, unit) platform" where
  "notebook_platform = sample_platform\<lparr>pf_jobs := [notebook_row], pf_users := dr_users sample_directory, pf_vcjobs := [notebook]\<rparr>"

definition notebook_site :: "(int, unit, unit) job_site" where
  "notebook_site = \<lparr>js_platform = notebook_platform, js_store = sample_datasets,
     js_network = sample_network\<lparr>nw_pods := [\<lparr>lp_name = ''jupyter-ann-1-default0-0'', lp_namespace = ''jobs'', lp_labels = [(''k'', ''v'')],
       lp_annotations = Some [], lp_nodeName = ''n1'', lp_phase = ''Running'', lp_podIP = [],
       lp_containers = [\<lparr>pc_name = ''c'', pc_image = ''i'', pc_requests = [], pc_ports = []\<rparr>]\<rparr>]\<rparr>\<rparr>"

abbreviation (input) ann :: jwt_message where "ann \<equiv> sample_message RoleUser"

lemma notebook_facts:
  "jobs_ok notebook_platform" "getJob quiet_requests ''jupyter-ann-1'' ann notebook_platform = Inr notebook_row"
  "find_vcjob ''jobs'' ''jupyter-ann-1'' notebook_platform = Some notebook" "job_named ''jupyter-ann-1'' notebook_platform = Some notebook_row"
  by (simp_all add: jobs_ok_def getJob_def tbl_first_Cons find_vcjob_def job_named_def notebook_platform_def notebook_row_def notebook_def quiet_requests_def
      sample_message_def)

lemma delete_job_outcome_witness:
  "\<exists>pf1 pf2. deleteJob quiet_requests ann (Some ''jupyter-ann-1'') notebook_platform = (Inr (), pf1) \<and>
     job_named ''jupyter-ann-1'' pf1 = Some (marked_deleted quiet_requests notebook_row) \<and> find_vcjob ''jobs'' ''jupyter-ann-1'' pf1 = None \<and>
     deleteJob (quiet_requests\<lparr>jr_deleteJobErr := Some ''down''\<rparr>) ann (Some ''jupyter-ann-1'') notebook_platform = (Inl ''down'', pf2) \<and>
     find_vcjob ''jobs'' ''jupyter-ann-1'' pf2 = Some notebook"
proof -
  have e: "jr_ns quiet_requests = ''jobs''" "jr_clusterGetErr quiet_requests = None" "jr_updateRowErr quiet_requests = None" "jr_deleteJobErr quiet_requests = None"
    by (simp_all add: quiet_requests_def)
  have p: "\<not> finished_phase (vj_phase notebook)" by (simp add: notebook_def finished_phase_def)
  let ?f = "quiet_requests\<lparr>jr_deleteJobErr := Some ''down''\<rparr>"
  have f: "getJob ?f ''jupyter-ann-1'' ann notebook_platform = Inr notebook_row" using notebook_facts(2) by (simp add: getJob_def)
  have g: "row_goes quiet_requests ''jupyter-ann-1'' notebook_platform = False" "row_goes ?f ''jupyter-ann-1'' notebook_platform = False"
    by (simp_all add: row_goes_def e notebook_facts p)
  obtain r1 pf1 where d1: "deleteJob quiet_requests ann (Some ''jupyter-ann-1'') notebook_platform = (r1, pf1)" by fastforce
  obtain pf2 where d2: "deleteJob ?f ann (Some ''jupyter-ann-1'') notebook_platform = (Inl ''down'', pf2)"
    by (simp add: deleteJob_found [OF f] g delete_row_def e notebook_facts)
  from delete_job_outcome [OF notebook_facts(1) d1] delete_job_outcome [OF notebook_facts(1) d2] d1 d2 show ?thesis
    by (auto simp: e notebook_facts f g row_fault_def)
qed

lemma foreign_jobs_kept_witness:
  "find_vcjob ''jobs'' ''jupyter-ann-1'' (snd (UserDeleteJob quiet_requests (ann\<lparr>jm_userID := 5\<rparr>) (Some ''jupyter-ann-1'') notebook_platform)) = Some notebook"
proof -
  let ?A = "\<lambda>t. t = ann\<lparr>jm_userID := 5\<rparr>"
  have site: "js_platform notebook_site = notebook_platform" by (simp add: notebook_site_def)
  have "job_step ?A notebook_site (notebook_site\<lparr>js_platform := snd (UserDeleteJob quiet_requests (ann\<lparr>jm_userID := 5\<rparr>) (Some ''jupyter-ann-1'') (js_platform notebook_site))\<rparr>)"
    by (rule st_delete) simp
  then have "(job_step ?A)\<^sup>*\<^sup>* notebook_site (notebook_site\<lparr>js_platform := snd (UserDeleteJob quiet_requests (ann\<lparr>jm_userID := 5\<rparr>) (Some ''jupyter-ann-1'') (js_platform notebook_site))\<rparr>)"
    by (rule r_into_rtranclp)
  from foreign_jobs_kept [OF this, of "''jupyter-ann-1''" notebook_row] show ?thesis
    by (auto simp: site notebook_facts notebook_row_def sample_message_def)
qed

lemma failed_deletion_undone_witness:
  "\<exists>pf1 pf2 j2. deleteJob (quiet_requests\<lparr>jr_deleteJobErr := Some ''down''\<rparr>) ann (Some ''jupyter-ann-1'') notebook_platform = (Inl ''down'', pf1) \<and>
     Reconcile int_quantity quiet_reconcile ''jobs'' ''jupyter-ann-1'' pf1 = ((False, None), pf2) \<and>
     job_named ''jupyter-ann-1'' pf2 = Some j2 \<and> jb_status j2 = PhaseRunning \<and> jb_completedTimestamp j2 \<noteq> 0"
proof -
  let ?e = "quiet_requests\<lparr>jr_deleteJobErr := Some ''down''\<rparr>"
  have "getJob ?e ''jupyter-ann-1'' ann notebook_platform = Inr notebook_row" using notebook_facts(2) by (simp add: getJob_def)
  from failed_deletion_undone [OF notebook_facts(1) this, of notebook "''down''" quiet_reconcile int_quantity] show ?thesis
    using notebook_facts(3) by (auto simp: quiet_requests_def quiet_reconcile_def notebook_def)
qed

lemma user_jobs_exact_witness:
  "\<exists>rs. GetUserJobs quiet_requests ann notebook_platform = Inr rs \<and> set rs = {job_resp_of quiet_requests notebook_platform notebook_row}"
proof -
  have "{j \<in> set (pf_jobs notebook_platform). jb_userID j = jm_userID ann \<and> jb_accountID j = jm_accountID ann} = {notebook_row}"
    by (auto simp: notebook_platform_def notebook_row_def sample_message_def)
  with user_jobs_exact [of quiet_requests ann notebook_platform] show ?thesis by (auto simp: quiet_requests_def)
qed

lemma all_jobs_window_witness:
  "\<exists>rs. GetAllJobsInDays quiet_requests (\<lambda>t d. t - d) (\<lambda>j. 68) (Some 0) notebook_platform = Inr rs \<and> rs = []"
proof -
  obtain rs where "GetAllJobsInDays quiet_requests (\<lambda>t d. t - d) (\<lambda>j. 68) (Some 0) notebook_platform = Inr rs \<and>
      set rs = job_resp_of quiet_requests notebook_platform ` {j \<in> set (pf_jobs notebook_platform). (0 :: int) = -1 \<or> jr_now quiet_requests - (if 0 < (0 :: int) then 0 else 7) \<le> 68}"
    using all_jobs_window [of quiet_requests "\<lambda>t d. t - d" "\<lambda>j. 68" 0 notebook_platform] by (auto simp: quiet_requests_def)
  then show ?thesis by (simp add: quiet_requests_def)
qed

lemma toggle_twice_witness:
  "\<exists>a b pf1. ToggleAlertState quiet_requests ann (Some ''jupyter-ann-1'') notebook_platform = (Inr a, pf1) \<and>
     ToggleAlertState quiet_requests ann (Some ''jupyter-ann-1'') pf1 = (Inr b, notebook_platform)"
  using toggle_twice [OF notebook_facts(1,2)] by (auto simp: quiet_requests_def)

lemma ssh_asked_again_witness:
  "\<exists>st1 i. OpenSSH quiet_requests ann (Some ''jupyter-ann-1'') notebook_site = (Inr (Inr i), st1) \<and>
     OpenSSH quiet_requests ann (Some ''jupyter-ann-1'') st1 = (Inr (Inr i), st1) \<and> sh_ip i = ''10.0.0.9''"
proof -
  let ?pod = "hd (nw_pods (js_network notebook_site))" let ?vc = "jb_attributes notebook_row"
  have st: "js_platform notebook_site = notebook_platform" by (simp add: notebook_site_def)
  have pod: "live_pod_named (vj_namespace ?vc) (fst (getPodNameAndLabelFromJob ?vc)) (js_network notebook_site) = Some ?pod" "lp_containers ?pod \<noteq> []" "lp_annotations ?pod = Some []"
    by (simp_all add: live_pod_named_def getPodNameAndLabelFromJob_def notebook_site_def notebook_row_def notebook_def)
  have "0 \<le> userPort u" "userPort u \<noteq> 0" for u using userPort_range [of u] by simp_all
  then obtain port nw where np: "CreateNodePort (jr_service quiet_requests) [\<lparr>or_apiVersion = ''batch.volcano.sh/v1alpha1'', or_kind = ''Job'', or_name = vj_name ?vc\<rparr>]
      (snd (getPodNameAndLabelFromJob ?vc)) (Some (tcp_port ''ssh'' SSHPort)) (fst (user_names (js_platform notebook_site) (jb_userID notebook_row))) (js_network notebook_site) =
      (Inr (''10.0.0.9'', port), nw)" "0 \<le> port"
    by (simp add: CreateNodePort_def create_node_port_service_def client_create_service_def port_given_def has_service_def used_ports_def node_port_answer_def
        matching_pods_def address_of_type_def node_port_service_def np_name_def sample_network_def quiet_services_def quiet_requests_def notebook_site_def
        notebook_row_def notebook_def getPodNameAndLabelFromJob_def tcp_port_def Let_def)
  have "jr_podGetErr quiet_requests = None" "jr_execErr quiet_requests = None" "jr_podUpdateErr quiet_requests = None" "jb_status notebook_row = PhaseRunning"
    by (simp_all add: quiet_requests_def notebook_row_def)
  with ssh_asked_again [of quiet_requests "''jupyter-ann-1''" ann notebook_site notebook_row ?pod "[]" "''10.0.0.9''" port nw] notebook_facts(2) pod np
  show ?thesis by (auto simp: st)
qed

lemma notebook_token_cached_witness:
  "\<exists>t pf1. GetJobToken quiet_requests ann (Some ''jupyter-ann-1'') notebook_platform = (Inr t, pf1) \<and> jt_token t = ''ab1'' \<and>
     GetJobToken (quiet_requests\<lparr>jr_logs := (\<lambda>p. Inl ''gone'')\<rparr>) ann (Some ''jupyter-ann-1'') pf1 = (Inr t, pf1)"
proof -
  have e: "jr_ns quiet_requests = ''jobs''" "jr_clusterGetErr quiet_requests = None" "jr_updateJobErr quiet_requests = None"
    "jr_logs quiet_requests p = Inr ''x?token=ab1&''" for p by (simp_all add: quiet_requests_def)
  have v: "vj_phase notebook = PhaseRunning" "gm_get (vj_annotations notebook) AnnotationKeyJupyter = None" "jb_jobType notebook_row = JobTypeJupyter"
    by (simp_all add: notebook_def notebook_row_def)
  have m: "match_token ''x?token=ab1&'' = Some ''ab1''"
    by (simp add: has_prefix_def is_alnum_def is_digit_def)
  let ?t = "\<lparr>jt_baseURL = map_value (vj_labels notebook) LabelKeyBaseURL, jt_token = ''ab1'', jt_podName = fst (getPodNameAndLabelFromJob notebook),
      jt_namespace = ''jobs'', jt_fullURL = ''https://'' @ jr_host quiet_requests @ ''/ingress/'' @ map_value (vj_labels notebook) LabelKeyBaseURL\<rparr>"
  have g: "GetJobToken quiet_requests ann (Some ''jupyter-ann-1'') notebook_platform =
      (Inr ?t, annotate_job ''jobs'' ''jupyter-ann-1'' (gm_put AnnotationKeyJupyter ''ab1'' (vj_annotations notebook)) notebook_platform)"
    by (simp only: GetJobToken_def notebook_facts e v m Let_def option.case sum.case if_True if_False simp_thms)
  let ?f = "quiet_requests\<lparr>jr_logs := (\<lambda>p. Inl ''gone'')\<rparr>"
  have "getJob ?f ''jupyter-ann-1'' ann (annotate_job ''jobs'' ''jupyter-ann-1'' a notebook_platform) = getJob quiet_requests ''jupyter-ann-1'' ann notebook_platform" for a
    by (simp add: getJob_def split: option.split)
  from notebook_token_cached [OF g this] have "GetJobToken ?f ann (Some ''jupyter-ann-1'')
      (annotate_job ''jobs'' ''jupyter-ann-1'' (gm_put AnnotationKeyJupyter ''ab1'' (vj_annotations notebook)) notebook_platform) =
      (Inr ?t, annotate_job ''jobs'' ''jupyter-ann-1'' (gm_put AnnotationKeyJupyter ''ab1'' (vj_annotations notebook)) notebook_platform)" by (simp add: e)
  with g show ?thesis by (intro exI [of _ ?t] exI) simp
qed

lemma job_events_shown_witness:
  "GetJobEvents quiet_requests ann (Some ''jupyter-ann-1'') notebook_site = Inr []"
  using job_events_shown [of quiet_requests "''jupyter-ann-1''" ann notebook_site notebook_row "[]" "[]" "\<lambda>n. []"] notebook_facts(2)
  by (simp add: notebook_site_def quiet_requests_def pods_of_job_def matching_pods_def notebook_row_def notebook_def)

end
