(* ===== verification/Resource_Catalog.thy ===== *)
theory Resource_Catalog imports Resource_List Data_Model begin

text \<open>
  The catalogue of resources, \<open>internal/handler/resource.go\<close> over the tables of \<open>dao/model/resource.go\<close>: what the cluster
  offers, and which networks and which parts of a GPU belong to a GPU.

  The name of a resource is unique and a soft-deleted row keeps its name, so the catalogue holds the soft-deleted rows beside the
  others.  The rows of the two link tables refer to resources with \<open>ON DELETE CASCADE\<close>.  Whether the database refuses a pair that is
  linked already depends on how the table was made, so it is left to the fault of the insertion.  Quantities are values, which
  those of a node are as long as they fit the machine integers of the library.  One that does not is a pointer to a decimal, which the
  first node of a resource puts in both the total and the maximum, so that the addition would write both; this case is not modelled.
\<close>

section \<open>Tables\<close>

record resource_row =
  rs_id :: nat
  rs_resourceName :: string
  rs_vendorDomain :: "string option"
  rs_resourceType :: string
  rs_amount :: int
  rs_amountSingleMax :: int
  rs_format :: string
  rs_priority :: int
  rs_label :: string
  rs_type :: "string option"

abbreviation (input) ResourceTypeGPU :: string where "ResourceTypeGPU \<equiv> ''gpu''"
abbreviation (input) ResourceTypeRDMA :: string where "ResourceTypeRDMA \<equiv> ''rdma''"
abbreviation (input) ResourceTypeVGPU :: string where "ResourceTypeVGPU \<equiv> ''vgpu''"

record resource_network =
  rn_id :: nat
  rn_resourceID :: nat
  rn_networkID :: nat

record resource_vgpu =
  rv_id :: nat
  rv_gpuResourceID :: nat
  rv_vgpuResourceID :: nat
  rv_min :: "int option"
  rv_max :: "int option"
  rv_description :: "string option"

text \<open>The counters are those of the keys, which are never given twice.\<close>

record catalog =
  rc_resources :: "resource_row table"
  rc_deleted :: "resource_row list"
  rc_resourceSeq :: nat
  rc_networks :: "resource_network table"
  rc_networkSeq :: nat
  rc_vgpus :: "resource_vgpu table"
  rc_vgpuSeq :: nat

record catalog_env =
  cx_nodesErr :: fault
  cx_updateErr :: "string \<Rightarrow> fault"
  cx_createErr :: "string \<Rightarrow> fault"
  cx_listErr :: fault
  cx_deleteErr :: "nat \<Rightarrow> fault"
  cx_findErr :: "nat \<Rightarrow> fault"
  cx_linkErr :: fault
  cx_writeErr :: fault

text \<open>Quantities with the format they are printed in.\<close>

record 'q formatted_ops = "'q quantity_ops" +
  q_format :: "'q \<Rightarrow> string"

section \<open>Synchronisation with the cluster\<close>

record 'q total_max =
  tm_total :: 'q
  tm_max :: 'q

definition add_capacity :: "('q, 'm) quantity_ops_scheme \<Rightarrow> string \<times> 'q \<Rightarrow> (string, 'q total_max) gomap \<Rightarrow> (string, 'q total_max) gomap" where
  "add_capacity Q kv m =
     (let (resourceName, v) = kv in
      case gm_get m resourceName of
        Some q \<Rightarrow> gm_put resourceName \<lparr>tm_total = q_add Q (tm_total q) v, tm_max = (if 0 < q_cmp Q v (tm_max q) then v else tm_max q)\<rparr> m
      | None \<Rightarrow> gm_put resourceName \<lparr>tm_total = v, tm_max = v\<rparr> m)"

definition resourceQuantities :: "('q, 'm) quantity_ops_scheme \<Rightarrow> 'q resource_list list \<Rightarrow> (string, 'q total_max) gomap" where
  "resourceQuantities Q nodes = fold (fold (add_capacity Q)) nodes []"

definition split_name :: "string \<Rightarrow> string option \<times> string" where
  "split_name resourceName =
     (case split_on (CHR ''/'') resourceName of
        [vendor, kind] \<Rightarrow> (Some vendor, kind)
      | kind # _ \<Rightarrow> (None, kind)
      | [] \<Rightarrow> (None, []))"

definition new_resource :: "('q, 'm) formatted_ops_scheme \<Rightarrow> nat \<Rightarrow> string \<Rightarrow> 'q total_max \<Rightarrow> resource_row" where
  "new_resource Q i resourceName q =
     (let (vendorDomain, resourceType) = split_name resourceName
      in \<lparr>rs_id = i, rs_resourceName = resourceName, rs_vendorDomain = vendorDomain, rs_resourceType = resourceType,
          rs_amount = q_value Q (tm_total q), rs_amountSingleMax = q_value Q (tm_max q), rs_format = q_format Q (tm_max q),
          rs_priority = 0, rs_label = resourceType, rs_type = None\<rparr>)"

definition with_amounts :: "('q, 'm) formatted_ops_scheme \<Rightarrow> 'q total_max \<Rightarrow> resource_row \<Rightarrow> resource_row" where
  "with_amounts Q q r = r\<lparr>rs_amount := q_value Q (tm_total q), rs_amountSingleMax := q_value Q (tm_max q)\<rparr>"

definition create_resource :: "resource_row \<Rightarrow> catalog \<Rightarrow> fault \<times> catalog" where
  "create_resource r c =
     (if list_ex (\<lambda>d. rs_resourceName d = rs_resourceName r) (rc_resources c @ rc_deleted c) then (Some ''duplicate key'', c)
      else (None, c\<lparr>rc_resources := rc_resources c @ [r], rc_resourceSeq := rs_id r\<rparr>))"

text \<open>An update that meets no row makes one.\<close>

definition sync_row :: "('q, 'm) formatted_ops_scheme \<Rightarrow> catalog_env \<Rightarrow> string \<Rightarrow> 'q total_max \<Rightarrow> catalog \<Rightarrow> fault \<times> catalog" where
  "sync_row Q e resourceName q c =
     (case cx_updateErr e resourceName of
        Some x \<Rightarrow> (Some x, c)
      | None \<Rightarrow>
          if list_ex (\<lambda>r. rs_resourceName r = resourceName) (rc_resources c)
          then (None, c\<lparr>rc_resources := tbl_updates (\<lambda>r. rs_resourceName r = resourceName) (with_amounts Q q) (rc_resources c)\<rparr>)
          else (case cx_createErr e resourceName of
              Some x \<Rightarrow> (Some x, c)
            | None \<Rightarrow> create_resource (new_resource Q (Suc (rc_resourceSeq c)) resourceName q) c))"

fun sync_rows :: "('q, 'm) formatted_ops_scheme \<Rightarrow> catalog_env \<Rightarrow> (string \<times> 'q total_max) list \<Rightarrow> catalog \<Rightarrow> fault \<times> catalog" where
  "sync_rows Q e [] c = (None, c)"
| "sync_rows Q e ((resourceName, q) # qs) c =
     (case sync_row Q e resourceName q c of
        (Some x, c1) \<Rightarrow> (Some x, c1)
      | (None, c1) \<Rightarrow> sync_rows Q e qs c1)"

text \<open>A row that is deleted for good takes its links along.\<close>

definition purge_resource :: "nat \<Rightarrow> catalog \<Rightarrow> catalog" where
  "purge_resource i c =
     c\<lparr>rc_resources := tbl_delete (\<lambda>r. rs_id r = i) (rc_resources c),
       rc_networks := tbl_delete (\<lambda>l. rn_resourceID l = i \<or> rn_networkID l = i) (rc_networks c),
       rc_vgpus := tbl_delete (\<lambda>l. rv_gpuResourceID l = i \<or> rv_vgpuResourceID l = i) (rc_vgpus c)\<rparr>"

fun purge_rows :: "catalog_env \<Rightarrow> string list \<Rightarrow> resource_row list \<Rightarrow> catalog \<Rightarrow> fault \<times> catalog" where
  "purge_rows e ns [] c = (None, c)"
| "purge_rows e ns (r # rs) c =
     (if rs_resourceName r \<in> set ns then purge_rows e ns rs c
      else (case cx_deleteErr e (rs_id r) of
          Some x \<Rightarrow> (Some x, c)
        | None \<Rightarrow> purge_rows e ns rs (purge_resource (rs_id r) c)))"

definition SyncResource :: "('q, 'm) formatted_ops_scheme \<Rightarrow> catalog_env \<Rightarrow> 'q resource_list list \<Rightarrow> catalog \<Rightarrow> fault \<times> catalog" where
  "SyncResource Q e nodes c =
     (case cx_nodesErr e of
        Some x \<Rightarrow> (Some x, c)
      | None \<Rightarrow>
          let quantities = resourceQuantities Q nodes
          in (case sync_rows Q e quantities c of
              (Some x, c1) \<Rightarrow> (Some x, c1)
            | (None, c1) \<Rightarrow> (case cx_listErr e of
                Some x \<Rightarrow> (Some x, c1)
              | None \<Rightarrow> purge_rows e (map fst quantities) (rc_resources c1) c1)))"

section \<open>The other handlers\<close>

text \<open>The listing, by priority, of all resources or of those that are GPUs.\<close>

definition ListResource :: "catalog_env \<Rightarrow> bool option \<Rightarrow> catalog \<Rightarrow> resource_row list result" where
  "ListResource e withVendorDomain c =
     (case withVendorDomain of
        None \<Rightarrow> Inl ''bad request''
      | Some w \<Rightarrow> (case cx_listErr e of
          Some x \<Rightarrow> Inl x
        | None \<Rightarrow> Inr (sort_key (\<lambda>r. - rs_priority r)
            (if w then tbl_find (\<lambda>r. rs_type r = Some ResourceTypeGPU) (rc_resources c) else rc_resources c))))"

definition UpdateResource :: "catalog_env \<Rightarrow> nat option \<Rightarrow> (string option \<times> string option) option \<Rightarrow> catalog \<Rightarrow> fault \<times> catalog" where
  "UpdateResource e uri body c =
     (case body of
        None \<Rightarrow> (Some ''bad request'', c)
      | Some (label, type) \<Rightarrow> (case uri of
          None \<Rightarrow> (Some ''bad request'', c)
        | Some i \<Rightarrow>
            if label = None \<and> type = None then (Some ''no fields to update'', c)
            else (case cx_writeErr e of
                Some x \<Rightarrow> (Some x, c)
              | None \<Rightarrow> (None, c\<lparr>rc_resources := tbl_updates (\<lambda>r. rs_id r = i)
                  (\<lambda>r. r\<lparr>rs_label := (case label of None \<Rightarrow> rs_label r | Some l \<Rightarrow> l),
                         rs_type := (case type of None \<Rightarrow> rs_type r | Some t \<Rightarrow> Some t)\<rparr>) (rc_resources c)\<rparr>))))"

definition DeleteResource :: "catalog_env \<Rightarrow> nat option \<Rightarrow> catalog \<Rightarrow> fault \<times> catalog" where
  "DeleteResource e uri c =
     (case uri of
        None \<Rightarrow> (Some ''bad request'', c)
      | Some i \<Rightarrow> (case cx_writeErr e of
          Some x \<Rightarrow> (Some x, c)
        | None \<Rightarrow> (None, c\<lparr>rc_resources := tbl_delete (\<lambda>r. rs_id r = i) (rc_resources c),
                           rc_deleted := rc_deleted c @ tbl_find (\<lambda>r. rs_id r = i) (rc_resources c)\<rparr>)))"

definition find_resource :: "catalog_env \<Rightarrow> nat \<Rightarrow> catalog \<Rightarrow> resource_row result" where
  "find_resource e i c =
     (case cx_findErr e i of
        Some x \<Rightarrow> Inl x
      | None \<Rightarrow> (case tbl_first (\<lambda>r. rs_id r = i) (rc_resources c) of None \<Rightarrow> Inl ''record not found'' | Some r \<Rightarrow> Inr r))"

text \<open>A resource of a type, or the answer the handlers give when there is none.\<close>

definition resource_of_type :: "catalog_env \<Rightarrow> string \<Rightarrow> string \<Rightarrow> nat \<Rightarrow> catalog \<Rightarrow> resource_row result" where
  "resource_of_type e type complaint i c =
     (case find_resource e i c of
        Inl x \<Rightarrow> Inl x
      | Inr r \<Rightarrow> if rs_type r \<noteq> Some type then Inl complaint else Inr r)"

text \<open>Whatever is wrong with the GPU, its networks are answered to be none.\<close>

definition GetGPUNetworks :: "catalog_env \<Rightarrow> nat option \<Rightarrow> catalog \<Rightarrow> resource_row list result" where
  "GetGPUNetworks e uri c =
     (case uri of
        None \<Rightarrow> Inr []
      | Some i \<Rightarrow> (case resource_of_type e ResourceTypeGPU [] i c of
          Inl x \<Rightarrow> Inr []
        | Inr gpu \<Rightarrow> (case cx_linkErr e of
            Some x \<Rightarrow> Inr []
          | None \<Rightarrow>
              let rdmaIDs = map rn_networkID (tbl_find (\<lambda>l. rn_resourceID l = i) (rc_networks c))
              in if rdmaIDs = [] then Inr []
                 else (case cx_listErr e of
                     Some x \<Rightarrow> Inl x
                   | None \<Rightarrow> Inr (tbl_find (\<lambda>r. rs_id r \<in> set rdmaIDs) (rc_resources c))))))"

definition LinkGPUToRDMA :: "catalog_env \<Rightarrow> nat option \<Rightarrow> nat option \<Rightarrow> catalog \<Rightarrow> fault \<times> catalog" where
  "LinkGPUToRDMA e uri body c =
     (case (uri, body) of
        (Some i, Some rdmaID) \<Rightarrow> (case resource_of_type e ResourceTypeGPU ''specified resource is not a GPU'' i c of
          Inl x \<Rightarrow> (Some x, c)
        | Inr gpuResource \<Rightarrow> (case resource_of_type e ResourceTypeRDMA ''specified resource is not an RDMA'' rdmaID c of
            Inl x \<Rightarrow> (Some x, c)
          | Inr rdmaResource \<Rightarrow> (case cx_writeErr e of
              Some x \<Rightarrow> (Some x, c)
            | None \<Rightarrow> let n = Suc (rc_networkSeq c)
                in (None, c\<lparr>rc_networks := rc_networks c @ [\<lparr>rn_id = n, rn_resourceID = rs_id gpuResource, rn_networkID = rs_id rdmaResource\<rparr>],
                           rc_networkSeq := n\<rparr>))))
      | _ \<Rightarrow> (Some ''bad request'', c))"

definition DeleteResourceLink :: "catalog_env \<Rightarrow> (nat \<times> nat) option \<Rightarrow> catalog \<Rightarrow> fault \<times> catalog" where
  "DeleteResourceLink e uri c =
     (case uri of
        None \<Rightarrow> (Some ''bad request'', c)
      | Some (i, networkID) \<Rightarrow> (case resource_of_type e ResourceTypeGPU ''specified resource is not a GPU'' i c of
          Inl x \<Rightarrow> (Some x, c)
        | Inr gpuResource \<Rightarrow> (case cx_writeErr e of
            Some x \<Rightarrow> (Some x, c)
          | None \<Rightarrow> (None, c\<lparr>rc_networks := tbl_delete (\<lambda>l. rn_resourceID l = i \<and> rn_networkID l = networkID) (rc_networks c)\<rparr>))))"

section \<open>Parts of a GPU\<close>

record vgpu_req =
  vg_vgpuResourceID :: nat
  vg_min :: "int option"
  vg_max :: "int option"
  vg_description :: "string option"

definition range_bad :: "vgpu_req \<Rightarrow> bool" where
  "range_bad r = (case (vg_min r, vg_max r) of (Some a, Some b) \<Rightarrow> b < a | _ \<Rightarrow> False)"

text \<open>A pair that cannot be read counts as not linked.\<close>

definition LinkGPUToVGPU :: "catalog_env \<Rightarrow> nat option \<Rightarrow> vgpu_req option \<Rightarrow> catalog \<Rightarrow> resource_vgpu result \<times> catalog" where
  "LinkGPUToVGPU e uri body c =
     (case (uri, body) of
        (Some i, Some req) \<Rightarrow>
          if range_bad req then (Inl ''min cannot be greater than max'', c)
          else (case resource_of_type e ResourceTypeGPU ''specified resource is not a GPU'' i c of
              Inl x \<Rightarrow> (Inl x, c)
            | Inr gpuResource \<Rightarrow> (case resource_of_type e ResourceTypeVGPU ''specified resource is not a VGPU resource'' (vg_vgpuResourceID req) c of
                Inl x \<Rightarrow> (Inl x, c)
              | Inr vgpuResource \<Rightarrow>
                  if cx_linkErr e = None \<and> list_ex (\<lambda>l. rv_gpuResourceID l = i \<and> rv_vgpuResourceID l = vg_vgpuResourceID req) (rc_vgpus c)
                  then (Inl ''relationship already exists between these resources'', c)
                  else (case cx_writeErr e of
                      Some x \<Rightarrow> (Inl x, c)
                    | None \<Rightarrow>
                        let n = Suc (rc_vgpuSeq c);
                            link = \<lparr>rv_id = n, rv_gpuResourceID = rs_id gpuResource, rv_vgpuResourceID = vg_vgpuResourceID req,
                                    rv_min = vg_min req, rv_max = vg_max req, rv_description = vg_description req\<rparr>
                        in (Inr link, c\<lparr>rc_vgpus := rc_vgpus c @ [link], rc_vgpuSeq := n\<rparr>))))
      | _ \<Rightarrow> (Inl ''bad request'', c))"

text \<open>Each link comes with the resource it names, if that is not deleted.\<close>

definition GetGPUVGPUResources :: "catalog_env \<Rightarrow> nat option \<Rightarrow> catalog \<Rightarrow> (resource_vgpu \<times> resource_row option) list result" where
  "GetGPUVGPUResources e uri c =
     (case uri of
        None \<Rightarrow> Inr []
      | Some i \<Rightarrow> (case resource_of_type e ResourceTypeGPU [] i c of
          Inl x \<Rightarrow> Inr []
        | Inr gpu \<Rightarrow> (case cx_linkErr e of
            Some x \<Rightarrow> Inl x
          | None \<Rightarrow> Inr (map (\<lambda>l. (l, tbl_first (\<lambda>r. rs_id r = rv_vgpuResourceID l) (rc_resources c)))
              (tbl_find (\<lambda>l. rv_gpuResourceID l = i) (rc_vgpus c))))))"

definition with_vgpu_fields :: "vgpu_req \<Rightarrow> resource_vgpu \<Rightarrow> resource_vgpu" where
  "with_vgpu_fields r l =
     l\<lparr>rv_vgpuResourceID := (if vg_vgpuResourceID r = 0 then rv_vgpuResourceID l else vg_vgpuResourceID r),
       rv_min := (case vg_min r of None \<Rightarrow> rv_min l | Some a \<Rightarrow> Some a),
       rv_max := (case vg_max r of None \<Rightarrow> rv_max l | Some b \<Rightarrow> Some b),
       rv_description := (case vg_description r of None \<Rightarrow> rv_description l | Some d \<Rightarrow> Some d)\<rparr>"

definition UpdateGPUVGPULink :: "catalog_env \<Rightarrow> (nat \<times> nat) option \<Rightarrow> vgpu_req option \<Rightarrow> catalog \<Rightarrow> fault \<times> catalog" where
  "UpdateGPUVGPULink e uri body c =
     (case (uri, body) of
        (Some (i, linkID), Some req) \<Rightarrow>
          if range_bad req then (Some ''min cannot be greater than max'', c)
          else (case (if vg_vgpuResourceID req = 0 then None
                      else (case resource_of_type e ResourceTypeVGPU ''specified resource is not a VGPU resource'' (vg_vgpuResourceID req) c of
                          Inl x \<Rightarrow> Some x | Inr r \<Rightarrow> None)) of
              Some x \<Rightarrow> (Some x, c)
            | None \<Rightarrow>
                if vg_vgpuResourceID req = 0 \<and> vg_min req = None \<and> vg_max req = None \<and> vg_description req = None
                then (Some ''no fields to update'', c)
                else (case cx_writeErr e of
                    Some x \<Rightarrow> (Some x, c)
                  | None \<Rightarrow> (None, c\<lparr>rc_vgpus := tbl_updates (\<lambda>l. rv_id l = linkID \<and> rv_gpuResourceID l = i) (with_vgpu_fields req) (rc_vgpus c)\<rparr>)))
      | _ \<Rightarrow> (Some ''bad request'', c))"

definition DeleteGPUVGPULink :: "catalog_env \<Rightarrow> (nat \<times> nat) option \<Rightarrow> catalog \<Rightarrow> fault \<times> catalog" where
  "DeleteGPUVGPULink e uri c =
     (case uri of
        None \<Rightarrow> (Some ''bad request'', c)
      | Some (i, linkID) \<Rightarrow> (case cx_writeErr e of
          Some x \<Rightarrow> (Some x, c)
        | None \<Rightarrow> (None, c\<lparr>rc_vgpus := tbl_delete (\<lambda>l. rv_id l = linkID \<and> rv_gpuResourceID l = i) (rc_vgpus c)\<rparr>)))"

section \<open>The totals of the cluster\<close>

lemma add_capacity_get:
  "gm_get (add_capacity Q (n, v) m) k = (if k = n then Some (case gm_get m n of None \<Rightarrow> \<lparr>tm_total = v, tm_max = v\<rparr>
     | Some q \<Rightarrow> \<lparr>tm_total = q_add Q (tm_total q) v, tm_max = (if 0 < q_cmp Q v (tm_max q) then v else tm_max q)\<rparr>) else gm_get m k)"
  by (auto simp: add_capacity_def split: option.split)

lemma add_capacity_ok: "gm_ok m \<Longrightarrow> gm_ok (add_capacity Q kv m)"
  by (auto simp: add_capacity_def Let_def split: prod.split option.split)

lemma node_capacity_get:
  "gm_ok a \<Longrightarrow> gm_get (fold (add_capacity Q) a m) k =
     (case gm_get a k of None \<Rightarrow> gm_get m k | Some v \<Rightarrow> gm_get (add_capacity Q (k, v) m) k)"
proof (induction a arbitrary: m)
  case (Cons p a)
  obtain n v where p: "p = (n, v)" by (cases p)
  from Cons.prems have a: "gm_ok a" and n: "gm_get a n = None" by (auto simp: gm_ok_Cons p gm_get_None_iff)
  show ?case using Cons.IH [OF a] n by (auto simp: p add_capacity_get split: option.split)
qed simp

lemma node_capacity_ok: "gm_ok m \<Longrightarrow> gm_ok (fold (add_capacity Q) a m)"
  by (induction a arbitrary: m) (auto intro: add_capacity_ok)

text \<open>What the totals say of a resource after some nodes.\<close>

definition totals_of :: "('q \<Rightarrow> int) \<Rightarrow> 'q resource_list list \<Rightarrow> string \<Rightarrow> 'q total_max \<Rightarrow> bool" where
  "totals_of val nodes n q \<longleftrightarrow>
     val (tm_total q) = (\<Sum>a \<leftarrow> nodes. amount val a n) \<and> (\<exists>a \<in> set nodes. gm_get a n = Some (tm_max q)) \<and>
     (\<forall>a \<in> set nodes. \<forall>v. gm_get a n = Some v \<longrightarrow> val v \<le> val (tm_max q))"

lemma totals_first:
  "\<forall>b \<in> set nodes. gm_get b n = None \<Longrightarrow> gm_get a n = Some v \<Longrightarrow> totals_of val (nodes @ [a]) n \<lparr>tm_total = v, tm_max = v\<rparr>"
proof -
  assume none: "\<forall>b \<in> set nodes. gm_get b n = None" and v: "gm_get a n = Some v"
  from none have "(\<Sum>b \<leftarrow> nodes. amount val b n) = 0" by (induction nodes) (simp_all add: amount_def)
  with none v show ?thesis by (auto simp: totals_of_def amount_def)
qed

lemma totals_next:
  "quantity_laws Q val \<Longrightarrow> totals_of val nodes n q \<Longrightarrow> gm_get a n = Some v \<Longrightarrow> 0 < q_cmp Q v (tm_max q) \<Longrightarrow>
   totals_of val (nodes @ [a]) n \<lparr>tm_total = q_add Q (tm_total q) v, tm_max = v\<rparr>"
  "quantity_laws Q val \<Longrightarrow> totals_of val nodes n q \<Longrightarrow> gm_get a n = Some v \<Longrightarrow> \<not> 0 < q_cmp Q v (tm_max q) \<Longrightarrow>
   totals_of val (nodes @ [a]) n \<lparr>tm_total = q_add Q (tm_total q) v, tm_max = tm_max q\<rparr>"
  by (auto simp: totals_of_def amount_def quantity_laws_def cmp_pos order.strict_implies_order intro: order_trans)

lemma totals_skip: "totals_of val nodes n q \<Longrightarrow> gm_get a n = None \<Longrightarrow> totals_of val (nodes @ [a]) n q"
  by (auto simp: totals_of_def amount_def)

lemma resourceQuantities_spec:
  assumes "quantity_laws Q val" and "\<forall>a \<in> set nodes. gm_ok a"
  shows "gm_ok (resourceQuantities Q nodes) \<and>
    (\<forall>n. case gm_get (resourceQuantities Q nodes) n of None \<Rightarrow> \<forall>a \<in> set nodes. gm_get a n = None | Some q \<Rightarrow> totals_of val nodes n q)"
  using assms(2)
proof (induction nodes rule: rev_induct)
  case Nil
  then show ?case by (simp add: resourceQuantities_def)
next
  case (snoc a nodes)
  let ?m = "resourceQuantities Q nodes"
  have ok: "gm_ok ?m" and IH: "case gm_get ?m n of None \<Rightarrow> \<forall>a \<in> set nodes. gm_get a n = None | Some q \<Rightarrow> totals_of val nodes n q" for n
    using snoc by simp_all
  have a: "gm_ok a" using snoc.prems by simp
  have step: "resourceQuantities Q (nodes @ [a]) = fold (add_capacity Q) a ?m" by (simp add: resourceQuantities_def)
  have "case gm_get (fold (add_capacity Q) a ?m) n of None \<Rightarrow> \<forall>b \<in> set (nodes @ [a]). gm_get b n = None | Some q \<Rightarrow> totals_of val (nodes @ [a]) n q" for n
    using IH [of n] totals_first [of nodes n a _ val] totals_next [OF assms(1), of nodes n _ a] totals_skip [of val nodes n _ a]
    by (auto simp: node_capacity_get [OF a] add_capacity_get split: option.splits)
  then show ?case using node_capacity_ok [OF ok] by (simp only: step) blast
qed

section \<open>What a synchronisation does\<close>

abbreviation resource_names :: "resource_row list \<Rightarrow> string list" where "resource_names rs \<equiv> map rs_resourceName rs"

definition sync_answered :: "catalog_env \<Rightarrow> bool" where
  "sync_answered e \<longleftrightarrow> cx_nodesErr e = None \<and> cx_updateErr e = (\<lambda>_. None) \<and> cx_createErr e = (\<lambda>_. None) \<and> cx_listErr e = None \<and>
     cx_deleteErr e = (\<lambda>_. None)"

definition refreshed :: "('q, 'm) formatted_ops_scheme \<Rightarrow> (string, 'q total_max) gomap \<Rightarrow> resource_row \<Rightarrow> resource_row" where
  "refreshed Q qs r = (case gm_get qs (rs_resourceName r) of None \<Rightarrow> r | Some q \<Rightarrow> with_amounts Q q r)"

lemma refreshed_fields [simp]:
  "rs_resourceName (refreshed Q qs r) = rs_resourceName r" "rs_id (refreshed Q qs r) = rs_id r" "rs_type (refreshed Q qs r) = rs_type r"
  "rs_label (refreshed Q qs r) = rs_label r" "rs_priority (refreshed Q qs r) = rs_priority r" "rs_format (refreshed Q qs r) = rs_format r"
  by (simp_all add: refreshed_def with_amounts_def split: option.split)

lemma new_resource_fields [simp]:
  "rs_resourceName (new_resource Q i n q) = n" "rs_id (new_resource Q i n q) = i"
  "rs_amount (new_resource Q i n q) = q_value Q (tm_total q)" "rs_amountSingleMax (new_resource Q i n q) = q_value Q (tm_max q)"
  by (simp_all add: new_resource_def split: prod.split)

definition catalog_names :: "catalog \<Rightarrow> string list" where
  "catalog_names c = resource_names (rc_resources c @ rc_deleted c)"

definition catalog_ids :: "catalog \<Rightarrow> nat list" where
  "catalog_ids c = map rs_id (rc_resources c @ rc_deleted c)"

definition catalog_ok :: "catalog \<Rightarrow> bool" where
  "catalog_ok c \<longleftrightarrow>
     distinct (catalog_names c) \<and> distinct (catalog_ids c) \<and> (\<forall>i \<in> set (catalog_ids c). i \<le> rc_resourceSeq c) \<and>
     (\<forall>l \<in> set (rc_networks c). rn_resourceID l \<in> set (catalog_ids c) \<and> rn_networkID l \<in> set (catalog_ids c)) \<and>
     (\<forall>l \<in> set (rc_vgpus c). rv_gpuResourceID l \<in> set (catalog_ids c) \<and> rv_vgpuResourceID l \<in> set (catalog_ids c))"

lemma catalog_ok_same:
  "\<lbrakk>catalog_ok c; mset (catalog_names c1) = mset (catalog_names c); mset (catalog_ids c1) = mset (catalog_ids c);
    rc_resourceSeq c1 = rc_resourceSeq c;
    \<forall>l \<in> set (rc_networks c1). l \<in> set (rc_networks c) \<or> rn_resourceID l \<in> set (catalog_ids c) \<and> rn_networkID l \<in> set (catalog_ids c);
    \<forall>l \<in> set (rc_vgpus c1). l \<in> set (rc_vgpus c) \<or> rv_gpuResourceID l \<in> set (catalog_ids c) \<and> rv_vgpuResourceID l \<in> set (catalog_ids c)\<rbrakk> \<Longrightarrow> catalog_ok c1"
  unfolding catalog_ok_def by (metis mset_eq_imp_distinct_iff mset_eq_setD)

lemma tbl_updates_map: "(\<And>r. f (g r) = f r) \<Longrightarrow> map f (tbl_updates P g t) = map f t"
  by (induction t) simp_all

lemma catalog_ok_update:
  "\<lbrakk>catalog_ok c; \<And>r. rs_resourceName (g r) = rs_resourceName r; \<And>r. rs_id (g r) = rs_id r\<rbrakk> \<Longrightarrow>
   catalog_ok (c\<lparr>rc_resources := tbl_updates P g (rc_resources c)\<rparr>)"
  by (rule catalog_ok_same) (auto simp: catalog_names_def catalog_ids_def tbl_updates_map)

lemma catalog_ok_create:
  assumes "catalog_ok c" and "rs_resourceName r \<notin> set (catalog_names c)" and "rs_id r = Suc (rc_resourceSeq c)"
  shows "catalog_ok (c\<lparr>rc_resources := rc_resources c @ [r], rc_resourceSeq := rs_id r\<rparr>)"
proof -
  let ?c = "c\<lparr>rc_resources := rc_resources c @ [r], rc_resourceSeq := rs_id r\<rparr>"
  have "mset (catalog_names ?c) = mset (rs_resourceName r # catalog_names c)" "mset (catalog_ids ?c) = mset (rs_id r # catalog_ids c)"
    by (simp_all add: catalog_names_def catalog_ids_def)
  then have names: "distinct (catalog_names ?c) = distinct (rs_resourceName r # catalog_names c)"
    and ids: "distinct (catalog_ids ?c) = distinct (rs_id r # catalog_ids c)" "set (catalog_ids ?c) = set (rs_id r # catalog_ids c)"
    by (metis mset_eq_imp_distinct_iff mset_eq_setD)+
  have "Suc (rc_resourceSeq c) \<notin> set (catalog_ids c)" using assms(1) by (fastforce simp: catalog_ok_def)
  with assms names ids show ?thesis by (auto simp: catalog_ok_def)
qed

lemma create_resource_ok: "catalog_ok c \<Longrightarrow> rs_id r = Suc (rc_resourceSeq c) \<Longrightarrow> catalog_ok (snd (create_resource r c))"
  using catalog_ok_create [of c r] by (auto simp: create_resource_def catalog_names_def list_ex_iff image_iff ball_Un eq_commute)

lemma sync_row_ok: "catalog_ok c \<Longrightarrow> catalog_ok (snd (sync_row Q e n q c))"
  by (auto simp: sync_row_def catalog_ok_update with_amounts_def create_resource_ok split: option.split)

lemma sync_rows_ok: "catalog_ok c \<Longrightarrow> catalog_ok (snd (sync_rows Q e qs c))"
proof (induction qs arbitrary: c)
  case (Cons p qs)
  obtain n q where p: "p = (n, q)" by (cases p)
  from Cons.IH sync_row_ok [OF Cons.prems, of Q e n q] show ?case by (auto simp: p Cons.prems split: prod.split option.split)
qed simp

lemma purge_ids:
  "catalog_ok c \<Longrightarrow> i \<in> set (map rs_id (rc_resources c)) \<Longrightarrow> set (catalog_ids (purge_resource i c)) = set (catalog_ids c) - {i}"
  by (auto simp: catalog_ok_def catalog_ids_def purge_resource_def tbl_delete_def)

lemma purge_distinct:
  "distinct (map f (xs @ ys)) \<Longrightarrow> distinct (map f (tbl_delete P xs @ ys))"
  by (induction xs) (auto simp: tbl_delete_def)

lemma purge_resource_ok:
  assumes ok: "catalog_ok c" and i: "i \<in> set (map rs_id (rc_resources c))"
  shows "catalog_ok (purge_resource i c)"
proof -
  let ?c = "purge_resource i c"
  have parts: "rc_networks ?c = tbl_delete (\<lambda>l. rn_resourceID l = i \<or> rn_networkID l = i) (rc_networks c)"
    "rc_vgpus ?c = tbl_delete (\<lambda>l. rv_gpuResourceID l = i \<or> rv_vgpuResourceID l = i) (rc_vgpus c)"
    "rc_resourceSeq ?c = rc_resourceSeq c" by (simp_all add: purge_resource_def)
  have "distinct (catalog_names c)" "distinct (catalog_ids c)" using ok by (simp_all add: catalog_ok_def)
  then have d: "distinct (catalog_names ?c)" "distinct (catalog_ids ?c)"
    unfolding catalog_names_def catalog_ids_def by (simp_all add: purge_resource_def del: map_append distinct_append add: purge_distinct)
  have n: "\<forall>l \<in> set (rc_networks ?c). rn_resourceID l \<in> set (catalog_ids c) - {i} \<and> rn_networkID l \<in> set (catalog_ids c) - {i}"
    using ok unfolding parts by (simp add: catalog_ok_def tbl_delete_def)
  have v: "\<forall>l \<in> set (rc_vgpus ?c). rv_gpuResourceID l \<in> set (catalog_ids c) - {i} \<and> rv_vgpuResourceID l \<in> set (catalog_ids c) - {i}"
    using ok unfolding parts by (simp add: catalog_ok_def tbl_delete_def)
  have "\<forall>k \<in> set (catalog_ids c) - {i}. k \<le> rc_resourceSeq c" using ok by (simp add: catalog_ok_def)
  with d n v show ?thesis unfolding catalog_ok_def purge_ids [OF assms] parts(3) by blast
qed

text \<open>The rows that are purged are rows of the table, each once.\<close>

lemma purge_rows_ok:
  "catalog_ok c \<Longrightarrow> distinct (map rs_id rs) \<Longrightarrow> set (map rs_id rs) \<subseteq> set (map rs_id (rc_resources c)) \<Longrightarrow> catalog_ok (snd (purge_rows e ns rs c))"
proof (induction rs arbitrary: c)
  case (Cons r rs)
  have r: "rs_id r \<in> set (map rs_id (rc_resources c))" using Cons.prems(3) by simp
  have "set (map rs_id rs) \<subseteq> set (map rs_id (rc_resources (purge_resource (rs_id r) c)))"
    using Cons.prems(2,3) by (auto simp: purge_resource_def tbl_delete_def image_iff subset_iff) metis
  with Cons.IH [OF purge_resource_ok [OF Cons.prems(1) r]] Cons.IH [OF Cons.prems(1)] Cons.prems show ?case
    by (auto split: option.split)
qed simp

lemma SyncResource_ok: "catalog_ok c \<Longrightarrow> catalog_ok (snd (SyncResource Q e nodes c))"
proof -
  assume ok: "catalog_ok c"
  obtain x c1 where r: "sync_rows Q e (resourceQuantities Q nodes) c = (x, c1)" by fastforce
  from sync_rows_ok [OF ok, of Q e "resourceQuantities Q nodes"] have ok1: "catalog_ok c1" by (simp add: r)
  then have "distinct (map rs_id (rc_resources c1))" by (simp add: catalog_ok_def catalog_ids_def)
  from purge_rows_ok [OF ok1 this] show ?thesis by (auto simp: SyncResource_def Let_def r ok ok1 split: option.split)
qed

section \<open>Every handler keeps the catalogue\<close>

inductive catalog_step :: "('q, 'm) formatted_ops_scheme \<Rightarrow> catalog \<Rightarrow> catalog \<Rightarrow> bool" for Q where
  cs_sync: "catalog_step Q c (snd (SyncResource Q e nodes c))"
| cs_update: "catalog_step Q c (snd (UpdateResource e uri body c))"
| cs_delete: "catalog_step Q c (snd (DeleteResource e uri c))"
| cs_link: "catalog_step Q c (snd (LinkGPUToRDMA e uri rdma c))"
| cs_unlink: "catalog_step Q c (snd (DeleteResourceLink e pair c))"
| cs_vgpu: "catalog_step Q c (snd (LinkGPUToVGPU e uri req c))"
| cs_vgpu_update: "catalog_step Q c (snd (UpdateGPUVGPULink e pair req c))"
| cs_vgpu_delete: "catalog_step Q c (snd (DeleteGPUVGPULink e pair c))"

lemma resource_of_type_Inr:
  "resource_of_type e t msg i c = Inr r \<Longrightarrow> rs_id r = i \<and> rs_type r = Some t \<and> r \<in> set (rc_resources c)"
  by (auto simp: resource_of_type_def find_resource_def dest: tbl_first_Some split: sum.splits option.splits if_splits)

lemma resource_id:
  "resource_of_type e t msg i c = Inr r \<Longrightarrow> i \<in> set (catalog_ids c)"
  "resource_of_type e t msg i c = Inr r \<Longrightarrow> rs_id r \<in> set (catalog_ids c)"
  by (auto simp: catalog_ids_def dest: resource_of_type_Inr)

lemma delete_mset: "image_mset f (mset (tbl_delete P xs)) + image_mset f (mset (tbl_find P xs)) = image_mset f (mset xs)"
  by (induction xs) (simp_all add: tbl_delete_def tbl_find_def)

lemma DeleteResource_ok:
  assumes "catalog_ok c"
  shows "catalog_ok (snd (DeleteResource e uri c))"
proof -
  have "catalog_ok (c\<lparr>rc_resources := tbl_delete (\<lambda>r. rs_id r = i) (rc_resources c),
      rc_deleted := rc_deleted c @ tbl_find (\<lambda>r. rs_id r = i) (rc_resources c)\<rparr>)" for i
    by (rule catalog_ok_same [OF assms]) (auto simp: catalog_names_def catalog_ids_def delete_mset)
  with assms show ?thesis by (auto simp: DeleteResource_def split: option.split)
qed

lemma links_ok:
  assumes "catalog_ok c"
  shows "catalog_ok (snd (LinkGPUToRDMA e uri rdma c))" "catalog_ok (snd (DeleteResourceLink e pair c))"
    "catalog_ok (snd (DeleteGPUVGPULink e pair c))" "catalog_ok (snd (UpdateResource e uri body c))"
proof -
  have "catalog_ok (c\<lparr>rc_networks := rc_networks c @ [\<lparr>rn_id = n, rn_resourceID = i, rn_networkID = k\<rparr>], rc_networkSeq := n\<rparr>)"
    if "i \<in> set (catalog_ids c)" "k \<in> set (catalog_ids c)" for n i k
    by (rule catalog_ok_same [OF assms]) (use that in \<open>auto simp: catalog_names_def catalog_ids_def\<close>)
  then show "catalog_ok (snd (LinkGPUToRDMA e uri rdma c))"
    by (auto simp: LinkGPUToRDMA_def Let_def assms resource_id split: option.split sum.split)
  have "catalog_ok (c\<lparr>rc_networks := tbl_delete P (rc_networks c)\<rparr>)" for P
    by (rule catalog_ok_same [OF assms]) (auto simp: catalog_names_def catalog_ids_def tbl_delete_def)
  then show "catalog_ok (snd (DeleteResourceLink e pair c))"
    by (auto simp: DeleteResourceLink_def assms split: option.split sum.split)
  have "catalog_ok (c\<lparr>rc_vgpus := tbl_delete P (rc_vgpus c)\<rparr>)" for P
    by (rule catalog_ok_same [OF assms]) (auto simp: catalog_names_def catalog_ids_def tbl_delete_def)
  then show "catalog_ok (snd (DeleteGPUVGPULink e pair c))"
    by (auto simp: DeleteGPUVGPULink_def assms split: option.split)
  show "catalog_ok (snd (UpdateResource e uri body c))"
    by (auto simp: UpdateResource_def assms intro: catalog_ok_update split: option.split)
qed

lemma vgpus_ok:
  assumes "catalog_ok c"
  shows "catalog_ok (snd (LinkGPUToVGPU e uri req c))" "catalog_ok (snd (UpdateGPUVGPULink e pair req c))"
proof -
  have "catalog_ok (c\<lparr>rc_vgpus := rc_vgpus c @ [l], rc_vgpuSeq := n\<rparr>)"
    if "rv_gpuResourceID l \<in> set (catalog_ids c)" "rv_vgpuResourceID l \<in> set (catalog_ids c)" for l n
    by (rule catalog_ok_same [OF assms]) (use that in \<open>auto simp: catalog_names_def catalog_ids_def\<close>)
  then show "catalog_ok (snd (LinkGPUToVGPU e uri req c))"
    by (auto simp: LinkGPUToVGPU_def Let_def assms resource_id split: option.split sum.split)
  have "catalog_ok (c\<lparr>rc_vgpus := tbl_updates P (with_vgpu_fields r) (rc_vgpus c)\<rparr>)"
    if "vg_vgpuResourceID r = 0 \<or> vg_vgpuResourceID r \<in> set (catalog_ids c)" for P r
  proof (rule catalog_ok_same [OF assms], goal_cases)
    case 5
    have "rv_gpuResourceID l \<in> set (catalog_ids c) \<and> rv_vgpuResourceID l \<in> set (catalog_ids c)"
      if "l \<in> set (tbl_updates P (with_vgpu_fields r) (rc_vgpus c))" for l
      using that \<open>vg_vgpuResourceID r = 0 \<or> _\<close> assms by (auto simp: tbl_updates_def with_vgpu_fields_def catalog_ok_def)
    then show ?case by (simp add: catalog_ids_def)
  qed (simp_all add: catalog_names_def catalog_ids_def)
  then show "catalog_ok (snd (UpdateGPUVGPULink e pair req c))"
    by (auto simp: UpdateGPUVGPULink_def assms resource_id split: option.splits sum.splits if_splits)
qed

text \<open>The links whose resources are in a set, which is that of the resources the lookups find or those that were deleted
  since a moment.\<close>

definition live_ids :: "catalog \<Rightarrow> nat set" where
  "live_ids c = rs_id ` set (rc_resources c)"

definition links_in :: "nat set \<Rightarrow> catalog \<Rightarrow> bool" where
  "links_in A c \<longleftrightarrow> (\<forall>l \<in> set (rc_networks c). rn_resourceID l \<in> A \<and> rn_networkID l \<in> A) \<and>
     (\<forall>l \<in> set (rc_vgpus c). rv_gpuResourceID l \<in> A \<and> rv_vgpuResourceID l \<in> A)"

lemma live_type: "resource_of_type e t msg i c = Inr r \<Longrightarrow> i \<in> live_ids c \<and> rs_id r = i"
  by (auto simp: live_ids_def dest: resource_of_type_Inr)

lemma links_in_mono: "links_in A c \<Longrightarrow> A \<subseteq> B \<Longrightarrow> links_in B c"
  by (auto simp: links_in_def subset_iff)

text \<open>A run keeps the links at the resources that are found, those that it deletes aside.\<close>

definition links_follow :: "catalog \<Rightarrow> catalog \<Rightarrow> bool" where
  "links_follow c c1 \<longleftrightarrow> (\<exists>ds. rc_deleted c1 = rc_deleted c @ ds \<and>
     (\<forall>D. links_in (live_ids c \<union> D) c \<longrightarrow> links_in (live_ids c1 \<union> rs_id ` set ds \<union> D) c1))"

lemma links_follow_refl [simp]: "links_follow c c"
  by (simp add: links_follow_def)

lemma links_follow_trans:
  assumes "links_follow a b" and "links_follow b c"
  shows "links_follow a c"
proof -
  from assms obtain ds es where d: "rc_deleted b = rc_deleted a @ ds" "rc_deleted c = rc_deleted b @ es"
    and l: "\<And>D. links_in (live_ids a \<union> D) a \<Longrightarrow> links_in (live_ids b \<union> rs_id ` set ds \<union> D) b"
      "\<And>D. links_in (live_ids b \<union> D) b \<Longrightarrow> links_in (live_ids c \<union> rs_id ` set es \<union> D) c"
    unfolding links_follow_def by blast
  have "links_in (live_ids c \<union> rs_id ` set (ds @ es) \<union> D) c" if "links_in (live_ids a \<union> D) a" for D
    using l(2) [of "rs_id ` set ds \<union> D"] l(1) [OF that] by (simp add: Un_ac image_Un)
  with d show ?thesis unfolding links_follow_def by (intro exI [of _ "ds @ es"]) simp
qed

lemma links_followI:
  assumes d: "rc_deleted c1 = rc_deleted c @ ds" and live: "live_ids c \<subseteq> live_ids c1 \<union> rs_id ` set ds"
    and n: "\<forall>l \<in> set (rc_networks c1). l \<in> set (rc_networks c) \<or> rn_resourceID l \<in> live_ids c \<and> rn_networkID l \<in> live_ids c"
    and v: "\<forall>l \<in> set (rc_vgpus c1). rv_gpuResourceID l \<in> live_ids c \<union> rv_gpuResourceID ` set (rc_vgpus c) \<and>
      rv_vgpuResourceID l \<in> live_ids c \<union> rv_vgpuResourceID ` set (rc_vgpus c)"
  shows "links_follow c c1"
proof -
  have "links_in (live_ids c1 \<union> rs_id ` set ds \<union> D) c1" if l: "links_in (live_ids c \<union> D) c" for D
  proof -
    have n0: "rn_resourceID l \<in> live_ids c \<union> D \<and> rn_networkID l \<in> live_ids c \<union> D" if "l \<in> set (rc_networks c1)" for l
      using n l that unfolding links_in_def by blast
    have v0: "rv_gpuResourceID l \<in> live_ids c \<union> D \<and> rv_vgpuResourceID l \<in> live_ids c \<union> D" if "l \<in> set (rc_vgpus c1)" for l
      using v l that unfolding links_in_def by fastforce
    have "links_in (live_ids c \<union> D) c1" unfolding links_in_def using n0 v0 by blast
    then show ?thesis by (rule links_in_mono) (use live in blast)
  qed
  with d show ?thesis unfolding links_follow_def by blast
qed

lemmas links_follow_kept = links_followI [where ds = "[]", simplified]

lemma live_updates [simp]:
  "(\<And>r. rs_id (g r) = rs_id r) \<Longrightarrow> live_ids (c\<lparr>rc_resources := tbl_updates P g (rc_resources c)\<rparr>) = live_ids c"
  by (simp add: live_ids_def tbl_updates_map flip: set_map)

lemma links_follow_purge: "links_follow c (purge_resource i c)"
  unfolding links_follow_def
  by (intro exI [of _ "[]"]) (auto simp: links_in_def live_ids_def purge_resource_def tbl_delete_def image_iff)

lemma links_follow_purge_rows: "links_follow c (snd (purge_rows e ns rs c))"
  by (induction rs arbitrary: c) (auto intro: links_follow_trans [OF links_follow_purge] split: option.split)

lemma links_follow_sync_row: "links_follow c (snd (sync_row Q e n q c))"
  by (auto simp: sync_row_def create_resource_def with_amounts_def live_ids_def [of "c\<lparr>rc_resources := rc_resources c @ r,
      rc_resourceSeq := i\<rparr>" for r i] live_ids_def [of c] intro!: links_follow_kept split: option.split)

lemma links_follow_sync_rows: "links_follow c (snd (sync_rows Q e qs c))"
proof (induction qs arbitrary: c)
  case (Cons p qs)
  obtain n q where p: "p = (n, q)" by (cases p)
  from Cons.IH links_follow_sync_row [of c Q e n q] show ?case
    by (auto simp: p intro: links_follow_trans split: prod.split option.split)
qed simp

lemma links_follow_sync: "links_follow c (snd (SyncResource Q e nodes c))"
proof -
  obtain x c1 where r: "sync_rows Q e (resourceQuantities Q nodes) c = (x, c1)" by fastforce
  from links_follow_sync_rows [of c Q e "resourceQuantities Q nodes"] have "links_follow c c1" by (simp add: r)
  then show ?thesis
    by (auto simp: SyncResource_def Let_def r intro: links_follow_trans [OF _ links_follow_purge_rows] split: option.split)
qed

lemma links_follow_delete: "links_follow c (snd (DeleteResource e uri c))"
proof -
  have "links_follow c (c\<lparr>rc_resources := tbl_delete (\<lambda>r. rs_id r = i) (rc_resources c),
      rc_deleted := rc_deleted c @ tbl_find (\<lambda>r. rs_id r = i) (rc_resources c)\<rparr>)" for i
    by (rule links_followI [where ds = "tbl_find (\<lambda>r. rs_id r = i) (rc_resources c)"])
      (auto simp: live_ids_def tbl_delete_def tbl_find_def)
  then show ?thesis by (auto simp: DeleteResource_def split: option.split)
qed

lemma links_follow_network:
  "i \<in> live_ids c \<Longrightarrow> k \<in> live_ids c \<Longrightarrow>
   links_follow c (c\<lparr>rc_networks := rc_networks c @ [\<lparr>rn_id = n, rn_resourceID = i, rn_networkID = k\<rparr>], rc_networkSeq := n\<rparr>)"
  by (rule links_follow_kept) (auto simp: live_ids_def)

lemma links_follow_vgpu:
  "rv_gpuResourceID l \<in> live_ids c \<Longrightarrow> rv_vgpuResourceID l \<in> live_ids c \<Longrightarrow>
   links_follow c (c\<lparr>rc_vgpus := rc_vgpus c @ [l], rc_vgpuSeq := n\<rparr>)"
  by (rule links_follow_kept) (auto simp: live_ids_def)

lemma links_follow_vgpus:
  "vg_vgpuResourceID r = 0 \<or> vg_vgpuResourceID r \<in> live_ids c \<Longrightarrow>
   links_follow c (c\<lparr>rc_vgpus := tbl_updates P (with_vgpu_fields r) (rc_vgpus c)\<rparr>)"
  by (rule links_follow_kept) (auto simp: live_ids_def tbl_updates_def with_vgpu_fields_def)

lemma links_follow_step:
  assumes "catalog_step Q c c1"
  shows "links_follow c c1"
  using assms
proof cases
  case (cs_update e uri body)
  then show ?thesis by (auto simp: UpdateResource_def intro!: links_follow_kept split: option.split)
next
  case (cs_link e uri rdma)
  then show ?thesis
    by (auto simp: LinkGPUToRDMA_def Let_def dest: live_type intro!: links_follow_network split: option.split sum.split)
next
  case (cs_unlink e pair)
  then show ?thesis
    by (auto simp: DeleteResourceLink_def tbl_delete_def live_ids_def intro!: links_follow_kept split: option.split sum.split)
next
  case (cs_vgpu e uri req)
  then show ?thesis
    by (auto simp: LinkGPUToVGPU_def Let_def dest: live_type intro!: links_follow_vgpu split: option.split sum.split)
next
  case (cs_vgpu_update e pair req)
  then show ?thesis
    by (auto simp: UpdateGPUVGPULink_def dest: live_type intro!: links_follow_vgpus split: option.splits sum.splits if_splits)
next
  case (cs_vgpu_delete e pair)
  then show ?thesis
    by (auto simp: DeleteGPUVGPULink_def tbl_delete_def live_ids_def intro!: links_follow_kept split: option.split)
qed (simp_all add: links_follow_sync links_follow_delete)

lemma catalog_ok_step: "catalog_step Q c c1 \<Longrightarrow> catalog_ok c \<Longrightarrow> catalog_ok c1"
  by (cases rule: catalog_step.cases) (auto intro: SyncResource_ok DeleteResource_ok links_ok vgpus_ok)

text \<open>A lookup of a resource that was deleted fails, while a deletion leaves the links that name it.\<close>

theorem deleted_resource_keeps_links:
  assumes "cx_writeErr e = None"
  shows "\<exists>c1. DeleteResource e (Some i) c = (None, c1) \<and> rc_networks c1 = rc_networks c \<and> rc_vgpus c1 = rc_vgpus c \<and>
    (\<forall>e1. find_resource e1 i c1 = Inl (case cx_findErr e1 i of None \<Rightarrow> ''record not found'' | Some x \<Rightarrow> x))"
proof -
  have "tbl_first (\<lambda>r. rs_id r = i) (tbl_delete (\<lambda>r. rs_id r = i) (rc_resources c)) = None"
    by (auto simp: tbl_first_def tbl_delete_def find_None_iff)
  with assms show ?thesis by (auto simp: DeleteResource_def find_resource_def split: option.split)
qed

text \<open>Claim C40. The catalogue stays consistent whatever is requested in whatever order and whatever fails: no two resources share a name or
  a number, the soft-deleted rows counted with the others, and every link names rows of the resource table.  A resource that a
  link names may be soft-deleted, but only when it was deleted meanwhile: if at the start every link names resources that the
  lookups find, then whatever a link names afterwards is found, or is one of the resources that were soft-deleted since.
\<close>

theorem catalog_stays_consistent:
  assumes "catalog_ok c" and "links_in (live_ids c) c" and "(catalog_step Q)\<^sup>*\<^sup>* c c1"
  shows "catalog_ok c1 \<and> (\<exists>ds. rc_deleted c1 = rc_deleted c @ ds \<and> links_in (live_ids c1 \<union> rs_id ` set ds) c1)"
proof -
  from assms(3) have "catalog_ok c1 \<and> links_follow c c1"
  proof induction
    case (step c2 c3)
    with links_follow_trans [OF _ links_follow_step] show ?case by (auto intro: catalog_ok_step)
  qed (simp add: assms(1))
  with assms(2) show ?thesis unfolding links_follow_def by (metis Un_empty_right)
qed

section \<open>The catalogue after a synchronisation\<close>

lemma refreshed_other: "gm_get qs (rs_resourceName r) = None \<Longrightarrow> refreshed Q qs r = r"
  by (simp add: refreshed_def)

lemma refreshed_update:
  "gm_get qs n = None \<Longrightarrow>
   map (refreshed Q qs) (tbl_updates (\<lambda>r. rs_resourceName r = n) (with_amounts Q q) rs) = map (refreshed Q ((n, q) # qs)) rs"
  by (induction rs) (auto simp: refreshed_def with_amounts_def)

lemma refreshed_absent:
  "n \<notin> rs_resourceName ` set rs \<Longrightarrow> map (refreshed Q qs) rs = map (refreshed Q ((n, q) # qs)) rs"
  by (induction rs) (auto simp: refreshed_def)

text \<open>The rows that were there with new amounts, and new rows for the other names.\<close>

lemma sync_rows_spec:
  assumes "sync_answered e" and "gm_ok qs" and "\<forall>n \<in> fst ` set qs. n \<notin> rs_resourceName ` set (rc_deleted c)"
  shows "\<exists>c1 news. sync_rows Q e qs c = (None, c1) \<and> rc_resources c1 = map (refreshed Q qs) (rc_resources c) @ news \<and>
    rs_resourceName ` set news = fst ` set qs - rs_resourceName ` set (rc_resources c) \<and>
    (\<forall>r \<in> set news. \<exists>i q. gm_get qs (rs_resourceName r) = Some q \<and> r = new_resource Q i (rs_resourceName r) q) \<and>
    rc_deleted c1 = rc_deleted c \<and> rc_networks c1 = rc_networks c \<and> rc_vgpus c1 = rc_vgpus c"
  using assms(2,3)
proof (induction qs arbitrary: c)
  case Nil
  then show ?case by (simp add: refreshed_def [abs_def])
next
  case (Cons p qs)
  obtain n q where p: "p = (n, q)" by (cases p)
  from Cons.prems(1) have ok: "gm_ok qs" and n: "gm_get qs n = None" "n \<notin> fst ` set qs" by (auto simp: p gm_ok_Cons gm_get_None_iff)
  show ?case
  proof (cases "n \<in> rs_resourceName ` set (rc_resources c)")
    case True
    let ?c = "c\<lparr>rc_resources := tbl_updates (\<lambda>r. rs_resourceName r = n) (with_amounts Q q) (rc_resources c)\<rparr>"
    have step: "sync_row Q e n q c = (None, ?c)" using True assms(1) by (auto simp: sync_row_def sync_answered_def list_ex_iff)
    have "map rs_resourceName (rc_resources ?c) = map rs_resourceName (rc_resources c)" by (simp add: tbl_updates_map with_amounts_def)
    then have names: "rs_resourceName ` set (rc_resources ?c) = rs_resourceName ` set (rc_resources c)" by (metis set_map)
    have "\<forall>k \<in> fst ` set qs. k \<notin> rs_resourceName ` set (rc_deleted ?c)" using Cons.prems(2) by (simp add: p)
    from Cons.IH [OF ok this] obtain c1 news where c1: "sync_rows Q e qs ?c = (None, c1)"
      "rc_resources c1 = map (refreshed Q qs) (rc_resources ?c) @ news"
      "rs_resourceName ` set news = fst ` set qs - rs_resourceName ` set (rc_resources c)"
      "\<forall>r \<in> set news. \<exists>i q. gm_get qs (rs_resourceName r) = Some q \<and> r = new_resource Q i (rs_resourceName r) q"
      "rc_deleted c1 = rc_deleted c" "rc_networks c1 = rc_networks c" "rc_vgpus c1 = rc_vgpus c"
      unfolding names by auto
    have "\<forall>r \<in> set news. \<exists>i q'. gm_get (p # qs) (rs_resourceName r) = Some q' \<and> r = new_resource Q i (rs_resourceName r) q'"
      using c1(3,4) True by (auto simp: p)
    with c1 True show ?thesis
      by (intro exI [of _ c1] exI [of _ news]) (auto simp: p step refreshed_update [OF n(1)])
  next
    case False
    let ?r = "new_resource Q (Suc (rc_resourceSeq c)) n q"
    let ?c = "c\<lparr>rc_resources := rc_resources c @ [?r], rc_resourceSeq := rs_id ?r\<rparr>"
    have step: "sync_row Q e n q c = (None, ?c)"
      using False assms(1) Cons.prems(2) by (auto simp: p sync_row_def sync_answered_def list_ex_iff create_resource_def image_iff)
    have "\<forall>k \<in> fst ` set qs. k \<notin> rs_resourceName ` set (rc_deleted ?c)" using Cons.prems(2) by (simp add: p)
    from Cons.IH [OF ok this] obtain c1 news where c1: "sync_rows Q e qs ?c = (None, c1)"
      "rc_resources c1 = map (refreshed Q qs) (rc_resources c) @ refreshed Q qs ?r # news"
      "rs_resourceName ` set news = fst ` set qs - insert n (rs_resourceName ` set (rc_resources c))"
      "\<forall>r \<in> set news. \<exists>i q. gm_get qs (rs_resourceName r) = Some q \<and> r = new_resource Q i (rs_resourceName r) q"
      "rc_deleted c1 = rc_deleted c" "rc_networks c1 = rc_networks c" "rc_vgpus c1 = rc_vgpus c"
      by auto
    have r: "refreshed Q qs ?r = ?r" using n(1) by (simp add: refreshed_def)
    have "\<forall>r \<in> set (?r # news). \<exists>i q'. gm_get (p # qs) (rs_resourceName r) = Some q' \<and> r = new_resource Q i (rs_resourceName r) q'"
      using c1(3,4) by (auto simp: p)
    with c1 False n(2) show ?thesis
      by (intro exI [of _ c1] exI [of _ "?r # news"]) (auto simp: p step r refreshed_absent [OF False, of Q qs q])
  qed
qed

lemma purge_rows_spec:
  assumes "sync_answered e"
  defines "gone \<equiv> \<lambda>ns rs. rs_id ` {r \<in> set rs. rs_resourceName r \<notin> set ns}"
  shows "\<exists>c1. purge_rows e ns rs c = (None, c1) \<and> rc_resources c1 = filter (\<lambda>r. rs_id r \<notin> gone ns rs) (rc_resources c) \<and>
    rc_deleted c1 = rc_deleted c \<and>
    rc_networks c1 = filter (\<lambda>l. rn_resourceID l \<notin> gone ns rs \<and> rn_networkID l \<notin> gone ns rs) (rc_networks c) \<and>
    rc_vgpus c1 = filter (\<lambda>l. rv_gpuResourceID l \<notin> gone ns rs \<and> rv_vgpuResourceID l \<notin> gone ns rs) (rc_vgpus c)"
proof (induction rs arbitrary: c)
  case Nil
  then show ?case by (simp add: gone_def)
next
  case (Cons r rs)
  show ?case
  proof (cases "rs_resourceName r \<in> set ns")
    case True
    then have "gone ns (r # rs) = gone ns rs" by (auto simp: gone_def)
    with Cons [of c] True show ?thesis by simp
  next
    case False
    then have g: "gone ns (r # rs) = insert (rs_id r) (gone ns rs)" by (auto simp: gone_def)
    from assms(1) False have step: "purge_rows e ns (r # rs) c = purge_rows e ns rs (purge_resource (rs_id r) c)"
      by (simp add: sync_answered_def)
    from Cons [of "purge_resource (rs_id r) c"] show ?thesis unfolding step g
      by (auto simp: purge_resource_def tbl_delete_def intro!: filter_cong)
  qed
qed

lemma links_to_rows:
  assumes "\<forall>l \<in> set ls. f l \<in> A \<and> g l \<in> A"
  shows "filter (\<lambda>l. f l \<notin> G \<and> g l \<notin> G) ls = filter (\<lambda>l. f l \<in> A - G \<and> g l \<in> A - G) ls"
  using assms by (auto intro!: filter_cong)

lemma offered_names:
  assumes "quantity_laws Q val" and "\<forall>a \<in> set nodes. gm_ok a"
  shows "n \<in> fst ` set (resourceQuantities Q nodes) \<longleftrightarrow> (\<exists>a \<in> set nodes. gm_get a n \<noteq> None)"
proof -
  have "n \<in> fst ` set (resourceQuantities Q nodes) \<longleftrightarrow> gm_get (resourceQuantities Q nodes) n \<noteq> None" by (simp add: gm_get_None_iff)
  moreover have "case gm_get (resourceQuantities Q nodes) n of None \<Rightarrow> \<forall>a \<in> set nodes. gm_get a n = None | Some q \<Rightarrow> totals_of val nodes n q"
    using resourceQuantities_spec [OF assms] by blast
  ultimately show ?thesis by (cases "gm_get (resourceQuantities Q nodes) n") (auto simp: totals_of_def)
qed

lemma synced_amounts:
  assumes "\<forall>r \<in> set news. \<exists>i q. gm_get qs (rs_resourceName r) = Some q \<and> r = new_resource Q i (rs_resourceName r) q"
    and "r \<in> set (map (refreshed Q qs) rs @ news)" and "gm_get qs (rs_resourceName r) = Some q"
  shows "rs_amount r = q_value Q (tm_total q) \<and> rs_amountSingleMax r = q_value Q (tm_max q)"
proof (cases "r \<in> set news")
  case True
  with assms(1,3) obtain i where "r = new_resource Q i (rs_resourceName r) q" by auto
  then show ?thesis by (metis new_resource_fields(3,4))
next
  case False
  with assms(2,3) show ?thesis by (auto simp: refreshed_def with_amounts_def split: option.splits)
qed

text \<open>The rows and the links that the purge leaves.\<close>

lemma purge_exact:
  assumes ok: "catalog_ok c1" and e: "sync_answered e"
  obtains c2 where "purge_rows e ns (rc_resources c1) c1 = (None, c2)"
    and "set (rc_resources c2) = {r \<in> set (rc_resources c1). rs_resourceName r \<in> set ns}"
    and "rc_networks c2 = filter (\<lambda>l. rn_resourceID l \<in> set (catalog_ids c2) \<and> rn_networkID l \<in> set (catalog_ids c2)) (rc_networks c1)"
    and "rc_vgpus c2 = filter (\<lambda>l. rv_gpuResourceID l \<in> set (catalog_ids c2) \<and> rv_vgpuResourceID l \<in> set (catalog_ids c2)) (rc_vgpus c1)"
proof -
  define gone where "gone = rs_id ` {r \<in> set (rc_resources c1). rs_resourceName r \<notin> set ns}"
  from purge_rows_spec [OF e, of ns "rc_resources c1" c1] obtain c2 where c2:
    "purge_rows e ns (rc_resources c1) c1 = (None, c2)" "rc_resources c2 = filter (\<lambda>r. rs_id r \<notin> gone) (rc_resources c1)"
    "rc_deleted c2 = rc_deleted c1" "rc_networks c2 = filter (\<lambda>l. rn_resourceID l \<notin> gone \<and> rn_networkID l \<notin> gone) (rc_networks c1)"
    "rc_vgpus c2 = filter (\<lambda>l. rv_gpuResourceID l \<notin> gone \<and> rv_vgpuResourceID l \<notin> gone) (rc_vgpus c1)"
    unfolding gone_def [symmetric] by auto
  have inj: "inj_on rs_id (set (rc_resources c1))" and apart: "rs_id ` set (rc_resources c1) \<inter> rs_id ` set (rc_deleted c1) = {}"
    using ok by (auto simp: catalog_ok_def catalog_ids_def distinct_map)
  have sub: "gone \<subseteq> rs_id ` set (rc_resources c1)" by (auto simp: gone_def)
  have ids: "set (catalog_ids c2) = set (catalog_ids c1) - gone"
    using apart c2(3) sub by (auto simp: catalog_ids_def c2(2))
  have "\<forall>l \<in> set (rc_networks c1). rn_resourceID l \<in> set (catalog_ids c1) \<and> rn_networkID l \<in> set (catalog_ids c1)"
    "\<forall>l \<in> set (rc_vgpus c1). rv_gpuResourceID l \<in> set (catalog_ids c1) \<and> rv_vgpuResourceID l \<in> set (catalog_ids c1)"
    using ok by (simp_all add: catalog_ok_def)
  note links = links_to_rows [OF this(1), of gone] links_to_rows [OF this(2), of gone]
  show ?thesis
  proof (rule that [OF c2(1)])
    show "set (rc_resources c2) = {r \<in> set (rc_resources c1). rs_resourceName r \<in> set ns}"
      using inj by (auto simp: c2(2) gone_def inj_on_def)
  qed (simp_all add: c2(4,5) ids links)
qed

text \<open>Claim C39. A synchronisation that meets no failure, and no resource that was deleted while the cluster offers it, brings the catalogue in
  step with the cluster: exactly the resources of its nodes are listed, each with the sum over the nodes and the
  most one node has; those that were listed keep their number, label, type and priority; those that are gone take their links
  along, and no other link is touched.
\<close>

theorem sync_exact:
  assumes laws: "quantity_laws Q val" and ok: "catalog_ok c" and e: "sync_answered e" and nodes: "\<forall>a \<in> set nodes. gm_ok a"
    and del: "\<forall>d \<in> set (rc_deleted c). \<forall>a \<in> set nodes. gm_get a (rs_resourceName d) = None"
  shows "\<exists>c1. SyncResource Q e nodes c = (None, c1) \<and>
    (\<forall>n. n \<in> rs_resourceName ` set (rc_resources c1) \<longleftrightarrow> (\<exists>a \<in> set nodes. gm_get a n \<noteq> None)) \<and>
    (\<forall>r \<in> set (rc_resources c1). \<exists>q. totals_of val nodes (rs_resourceName r) q \<and>
       rs_amount r = q_value Q (tm_total q) \<and> rs_amountSingleMax r = q_value Q (tm_max q)) \<and>
    (\<forall>r \<in> set (rc_resources c). (\<exists>a \<in> set nodes. gm_get a (rs_resourceName r) \<noteq> None) \<longrightarrow>
       (\<exists>r1 \<in> set (rc_resources c1). rs_resourceName r1 = rs_resourceName r \<and> rs_id r1 = rs_id r \<and> rs_label r1 = rs_label r \<and>
          rs_type r1 = rs_type r \<and> rs_priority r1 = rs_priority r)) \<and>
    rc_networks c1 = filter (\<lambda>l. rn_resourceID l \<in> set (catalog_ids c1) \<and> rn_networkID l \<in> set (catalog_ids c1)) (rc_networks c) \<and>
    rc_vgpus c1 = filter (\<lambda>l. rv_gpuResourceID l \<in> set (catalog_ids c1) \<and> rv_vgpuResourceID l \<in> set (catalog_ids c1)) (rc_vgpus c)"
proof -
  let ?qs = "resourceQuantities Q nodes"
  note offered = offered_names [OF laws nodes]
  from resourceQuantities_spec [OF laws nodes] have qs: "gm_ok ?qs"
    and tot: "\<And>n. case gm_get ?qs n of None \<Rightarrow> \<forall>a \<in> set nodes. gm_get a n = None | Some q \<Rightarrow> totals_of val nodes n q" by blast+
  have "\<forall>n \<in> fst ` set ?qs. n \<notin> rs_resourceName ` set (rc_deleted c)"
  proof (intro ballI notI)
    fix n assume "n \<in> fst ` set ?qs" "n \<in> rs_resourceName ` set (rc_deleted c)"
    with offered [of n] del show False by auto
  qed
  from sync_rows_spec [OF e qs this, of Q] obtain c1 news where c1: "sync_rows Q e ?qs c = (None, c1)"
    "rc_resources c1 = map (refreshed Q ?qs) (rc_resources c) @ news"
    "rs_resourceName ` set news = fst ` set ?qs - rs_resourceName ` set (rc_resources c)"
    "\<forall>r \<in> set news. \<exists>i q. gm_get ?qs (rs_resourceName r) = Some q \<and> r = new_resource Q i (rs_resourceName r) q"
    "rc_networks c1 = rc_networks c" "rc_vgpus c1 = rc_vgpus c" by blast
  have ok1: "catalog_ok c1" using sync_rows_ok [OF ok, of Q e ?qs] by (simp add: c1(1))
  obtain c2 where c2: "purge_rows e (map fst ?qs) (rc_resources c1) c1 = (None, c2)"
    and kept: "set (rc_resources c2) = {r \<in> set (rc_resources c1). rs_resourceName r \<in> set (map fst ?qs)}"
    and links: "rc_networks c2 = filter (\<lambda>l. rn_resourceID l \<in> set (catalog_ids c2) \<and> rn_networkID l \<in> set (catalog_ids c2)) (rc_networks c1)"
      "rc_vgpus c2 = filter (\<lambda>l. rv_gpuResourceID l \<in> set (catalog_ids c2) \<and> rv_vgpuResourceID l \<in> set (catalog_ids c2)) (rc_vgpus c1)"
    by (rule purge_exact [OF ok1 e, of "map fst ?qs"])
  have run: "SyncResource Q e nodes c = (None, c2)"
    using e c1(1) c2 by (simp add: SyncResource_def sync_answered_def Let_def)
  have "rs_resourceName ` set (rc_resources c1) = rs_resourceName ` set (rc_resources c) \<union> rs_resourceName ` set news"
    by (simp add: c1(2) image_Un image_image)
  with c1(3) have "fst ` set ?qs \<subseteq> rs_resourceName ` set (rc_resources c1)" by blast
  moreover have "rs_resourceName ` set (rc_resources c2) = rs_resourceName ` set (rc_resources c1) \<inter> fst ` set ?qs"
    unfolding kept set_map by blast
  ultimately have names: "n \<in> rs_resourceName ` set (rc_resources c2) \<longleftrightarrow> (\<exists>a \<in> set nodes. gm_get a n \<noteq> None)" for n
    using offered [of n] by blast
  have amounts: "\<exists>q. totals_of val nodes (rs_resourceName r) q \<and>
       rs_amount r = q_value Q (tm_total q) \<and> rs_amountSingleMax r = q_value Q (tm_max q)" if "r \<in> set (rc_resources c2)" for r
  proof -
    from that obtain q where q: "gm_get ?qs (rs_resourceName r) = Some q"
      by (cases "gm_get ?qs (rs_resourceName r)") (auto simp: kept gm_get_None_iff)
    with tot [of "rs_resourceName r"] synced_amounts [OF c1(4) _ q] that show ?thesis by (auto simp: kept c1(2))
  qed
  have "\<exists>r1 \<in> set (rc_resources c2). rs_resourceName r1 = rs_resourceName r \<and> rs_id r1 = rs_id r \<and> rs_label r1 = rs_label r \<and>
          rs_type r1 = rs_type r \<and> rs_priority r1 = rs_priority r"
    if "r \<in> set (rc_resources c)" "\<exists>a \<in> set nodes. gm_get a (rs_resourceName r) \<noteq> None" for r
  proof -
    from that(2) have "rs_resourceName r \<in> fst ` set ?qs" unfolding offered .
    with that(1) have "refreshed Q ?qs r \<in> set (rc_resources c2)" by (simp add: kept c1(2))
    then show ?thesis by (intro bexI [of _ "refreshed Q ?qs r"]) simp_all
  qed
  with run names amounts links c1(5,6) show ?thesis by (intro exI [of _ c2]) simp
qed

section \<open>Defects\<close>

lemma sync_row_frame:
  "sync_row Q e n q c = (x, c1) \<Longrightarrow> rc_deleted c1 = rc_deleted c \<and> rc_networks c1 = rc_networks c \<and> rc_vgpus c1 = rc_vgpus c \<and>
     set (map rs_id (rc_resources c)) \<subseteq> set (map rs_id (rc_resources c1))"
proof -
  assume "sync_row Q e n q c = (x, c1)"
  moreover have "map rs_id (tbl_updates P (with_amounts Q q) rs) = map rs_id rs" for P rs by (simp add: tbl_updates_map with_amounts_def)
  ultimately show ?thesis
    by (auto simp del: set_map map_map simp: sync_row_def create_resource_def split: option.splits if_splits)
qed

lemma sync_row_blocked:
  "catalog_ok c \<Longrightarrow> d \<in> set (rc_deleted c) \<Longrightarrow> fst (sync_row Q e (rs_resourceName d) q c) \<noteq> None"
  by (auto simp: sync_row_def create_resource_def catalog_ok_def catalog_names_def list_ex_iff split: option.split)

lemma sync_rows_blocked:
  "\<lbrakk>catalog_ok c; d \<in> set (rc_deleted c); rs_resourceName d \<in> fst ` set qs\<rbrakk> \<Longrightarrow>
   \<exists>x c1. sync_rows Q e qs c = (Some x, c1) \<and> rc_networks c1 = rc_networks c \<and> rc_vgpus c1 = rc_vgpus c \<and>
     set (map rs_id (rc_resources c)) \<subseteq> set (map rs_id (rc_resources c1))"
proof (induction qs arbitrary: c)
  case (Cons p qs)
  obtain n q where p: "p = (n, q)" by (cases p)
  obtain x c1 where r: "sync_row Q e n q c = (x, c1)" by fastforce
  note frame = sync_row_frame [OF r]
  show ?case
  proof (cases x)
    case None
    with sync_row_blocked [OF Cons.prems(1,2), of Q e q] r have "n \<noteq> rs_resourceName d" by auto
    moreover have "catalog_ok c1" using sync_row_ok [OF Cons.prems(1), of Q e n q] by (simp add: r)
    ultimately obtain y c2 where "sync_rows Q e qs c1 = (Some y, c2)" "rc_networks c2 = rc_networks c1" "rc_vgpus c2 = rc_vgpus c1"
      "set (map rs_id (rc_resources c1)) \<subseteq> set (map rs_id (rc_resources c2))"
      using Cons.IH [of c1] Cons.prems(2,3) frame by (auto simp: p)
    with frame show ?thesis by (simp add: p r None del: set_map) (blast intro: order_trans)
  qed (use frame in \<open>simp add: p r\<close>)
qed simp

text \<open>
  A resource that an administrator deletes while the cluster offers it stops the synchronisation for good: every later call
  fails, because the name of a deleted row is still taken, and the resources that are gone from the cluster stay listed.
\<close>

theorem deleted_resource_stops_sync:
  assumes "quantity_laws Q val" and "catalog_ok c" and "\<forall>a \<in> set nodes. gm_ok a"
    and "d \<in> set (rc_deleted c)" and "a \<in> set nodes" and "gm_get a (rs_resourceName d) \<noteq> None"
  shows "fst (SyncResource Q e nodes c) \<noteq> None \<and>
    set (map rs_id (rc_resources c)) \<subseteq> set (map rs_id (rc_resources (snd (SyncResource Q e nodes c))))"
proof -
  from assms(5,6) have "rs_resourceName d \<in> fst ` set (resourceQuantities Q nodes)" unfolding offered_names [OF assms(1,3)] by blast
  from sync_rows_blocked [OF assms(2,4) this, of Q e] show ?thesis by (auto simp: SyncResource_def Let_def split: option.split)
qed

text \<open>
  The range of a part of a GPU is checked within one request only: an update of its minimum alone is accepted above the maximum.
\<close>

theorem vgpu_range_inverts:
  assumes "LinkGPUToVGPU e (Some i) (Some req) c = (Inr l, c1)" and "vg_max req = Some b" and "b < a" and "cx_writeErr e1 = None"
  shows "\<exists>c2 l2. UpdateGPUVGPULink e1 (Some (i, rv_id l)) (Some \<lparr>vg_vgpuResourceID = 0, vg_min = Some a, vg_max = None, vg_description = None\<rparr>) c1
      = (None, c2) \<and> l2 \<in> set (rc_vgpus c2) \<and> rv_id l2 = rv_id l \<and> rv_min l2 = Some a \<and> rv_max l2 = Some b"
proof -
  from assms(1) have l: "l \<in> set (rc_vgpus c1)" "rv_gpuResourceID l = i" "rv_max l = vg_max req"
    by (auto simp: LinkGPUToVGPU_def Let_def dest: resource_of_type_Inr split: if_splits sum.splits option.splits)
  let ?r = "\<lparr>vg_vgpuResourceID = 0, vg_min = Some a, vg_max = None, vg_description = None\<rparr> :: vgpu_req"
  let ?P = "\<lambda>x. rv_id x = rv_id l \<and> rv_gpuResourceID x = i"
  have "UpdateGPUVGPULink e1 (Some (i, rv_id l)) (Some ?r) c1 = (None, c1\<lparr>rc_vgpus := tbl_updates ?P (with_vgpu_fields ?r) (rc_vgpus c1)\<rparr>)"
    using assms(4) by (simp add: UpdateGPUVGPULink_def range_bad_def)
  moreover have "with_vgpu_fields ?r l \<in> set (tbl_updates ?P (with_vgpu_fields ?r) (rc_vgpus c1))"
    using l by (auto simp: tbl_updates_def intro!: image_eqI [of _ _ l])
  ultimately show ?thesis using l(3) assms(2) by (intro exI [of _ "with_vgpu_fields ?r l"] exI) (auto simp: with_vgpu_fields_def)
qed

section \<open>A cluster of two nodes\<close>

definition int_formatted :: "int formatted_ops" where
  "int_formatted = \<lparr>q_add = (+), q_sub = (-), q_mul = (*), q_cmp = (\<lambda>a b. sgn (a - b)), q_zero = 0, q_value = id, q_unmarshal = (\<lambda>_. None),
     q_format = (\<lambda>_. ''DecimalSI'')\<rparr>"

lemma int_formatted_laws: "quantity_laws int_formatted id"
  by (simp add: quantity_laws_def int_formatted_def)

definition sample_gpu :: resource_row where
  "sample_gpu = \<lparr>rs_id = 1, rs_resourceName = ''nvidia.com/v100'', rs_vendorDomain = Some ''nvidia.com'', rs_resourceType = ''v100'', rs_amount = 8,
     rs_amountSingleMax = 8, rs_format = ''DecimalSI'', rs_priority = 5, rs_label = ''V100'', rs_type = Some ''gpu''\<rparr>"

definition sample_part :: resource_row where
  "sample_part = sample_gpu\<lparr>rs_id := 2, rs_resourceName := ''nvidia.com/gpucores'', rs_type := Some ''vgpu''\<rparr>"

definition sample_catalog :: catalog where
  "sample_catalog = \<lparr>rc_resources = [sample_gpu, sample_part], rc_deleted = [], rc_resourceSeq = 2, rc_networks = [], rc_networkSeq = 0,
     rc_vgpus = [], rc_vgpuSeq = 0\<rparr>"

definition quiet_catalog :: catalog_env where
  "quiet_catalog = \<lparr>cx_nodesErr = None, cx_updateErr = (\<lambda>_. None), cx_createErr = (\<lambda>_. None), cx_listErr = None, cx_deleteErr = (\<lambda>_. None),
     cx_findErr = (\<lambda>_. None), cx_linkErr = None, cx_writeErr = None\<rparr>"

definition two_nodes :: "int resource_list list" where
  "two_nodes = [[(''cpu'', 16), (''nvidia.com/v100'', 2)], [(''cpu'', 32)]]"

lemma sample_catalog_ok: "catalog_ok sample_catalog"
  by (simp add: catalog_ok_def catalog_names_def catalog_ids_def sample_catalog_def sample_gpu_def sample_part_def)

lemma two_nodes_ok: "\<forall>a \<in> set two_nodes. gm_ok a"
  by (simp add: two_nodes_def gm_ok_def)

lemma sync_exact_witness:
  "\<exists>c1. SyncResource int_formatted quiet_catalog two_nodes sample_catalog = (None, c1) \<and>
    ''cpu'' \<in> rs_resourceName ` set (rc_resources c1) \<and> ''nvidia.com/gpucores'' \<notin> rs_resourceName ` set (rc_resources c1)"
proof -
  have "sync_answered quiet_catalog" "\<forall>d \<in> set (rc_deleted sample_catalog). \<forall>a \<in> set two_nodes. gm_get a (rs_resourceName d) = None"
    by (simp_all add: sync_answered_def quiet_catalog_def sample_catalog_def)
  from sync_exact [OF int_formatted_laws sample_catalog_ok this(1) two_nodes_ok this(2)] show ?thesis
    by (auto simp: two_nodes_def)
qed

lemma deleted_resource_stops_sync_witness:
  "fst (SyncResource int_formatted quiet_catalog two_nodes (sample_catalog\<lparr>rc_resources := [sample_part], rc_deleted := [sample_gpu]\<rparr>)) \<noteq> None"
  by (rule deleted_resource_stops_sync [THEN conjunct1, OF int_formatted_laws _ two_nodes_ok, of _ sample_gpu "[(''cpu'', 16), (''nvidia.com/v100'', 2)]"])
    (simp_all add: catalog_ok_def catalog_names_def catalog_ids_def sample_catalog_def sample_gpu_def sample_part_def two_nodes_def)

definition cores_req :: vgpu_req where
  "cores_req = \<lparr>vg_vgpuResourceID = 2, vg_min = Some 1, vg_max = Some 50, vg_description = None\<rparr>"

lemma vgpu_range_inverts_witness:
  "\<exists>l c1 c2 l2. LinkGPUToVGPU quiet_catalog (Some 1) (Some cores_req) sample_catalog = (Inr l, c1) \<and>
     UpdateGPUVGPULink quiet_catalog (Some (1, rv_id l)) (Some \<lparr>vg_vgpuResourceID = 0, vg_min = Some 90, vg_max = None, vg_description = None\<rparr>) c1
       = (None, c2) \<and> l2 \<in> set (rc_vgpus c2) \<and> rv_min l2 = Some 90 \<and> rv_max l2 = Some 50"
proof -
  have "\<exists>l c1. LinkGPUToVGPU quiet_catalog (Some 1) (Some cores_req) sample_catalog = (Inr l, c1)"
    by (simp add: LinkGPUToVGPU_def Let_def cores_req_def range_bad_def quiet_catalog_def resource_of_type_def find_resource_def sample_catalog_def
        sample_gpu_def sample_part_def tbl_first_Cons)
  then obtain l c1 where link: "LinkGPUToVGPU quiet_catalog (Some 1) (Some cores_req) sample_catalog = (Inr l, c1)" by blast
  have "vg_max cores_req = Some 50" "(50::int) < 90" "cx_writeErr quiet_catalog = None" by (simp_all add: cores_req_def quiet_catalog_def)
  from vgpu_range_inverts [OF link this] link show ?thesis by blast
qed

lemma catalog_stays_consistent_witness:
  "\<exists>c1. c1 = snd (DeleteResource quiet_catalog (Some 1) (snd (LinkGPUToVGPU quiet_catalog (Some 1) (Some cores_req) sample_catalog))) \<and>
    rc_vgpus c1 \<noteq> [] \<and> catalog_ok c1 \<and>
    (\<exists>ds. rc_deleted c1 = rc_deleted sample_catalog @ ds \<and> links_in (live_ids c1 \<union> rs_id ` set ds) c1)"
proof -
  let ?c = "snd (LinkGPUToVGPU quiet_catalog (Some 1) (Some cores_req) sample_catalog)"
  let ?c1 = "snd (DeleteResource quiet_catalog (Some 1) ?c)"
  have run: "(catalog_step int_formatted)\<^sup>*\<^sup>* sample_catalog ?c1"
    by (rule converse_rtranclp_into_rtranclp, rule cs_vgpu, rule r_into_rtranclp, rule cs_delete)
  have "links_in (live_ids sample_catalog) sample_catalog" by (simp add: links_in_def sample_catalog_def)
  from catalog_stays_consistent [OF sample_catalog_ok this run] have "catalog_ok ?c1"
    "\<exists>ds. rc_deleted ?c1 = rc_deleted sample_catalog @ ds \<and> links_in (live_ids ?c1 \<union> rs_id ` set ds) ?c1" by blast+
  moreover have "rc_vgpus ?c1 \<noteq> []"
    by (simp add: DeleteResource_def LinkGPUToVGPU_def Let_def cores_req_def range_bad_def quiet_catalog_def resource_of_type_def
        find_resource_def sample_catalog_def sample_gpu_def sample_part_def tbl_first_Cons)
  ultimately show ?thesis by blast
qed

end
