(* ===== verification/Quota_Views.thy ===== *)
theory Quota_Views imports Resource_Catalog Accounts Quota Alerts "HOL-Library.List_Lexorder" "HOL-Library.Char_ord" begin

text \<open>
  The three views of a quota: of a user (\<open>internal/handler/context.go\<close>), of the queue of an account
  (\<open>internal/handler/account.go\<close>) and of an account of the AI jobs (\<open>internal/handler/aijob/emias.go\<close>).  All answer
  one list of resources with what is in use and up to three limits, over \<open>internal/payload/response.go\<close>.
\<close>

section \<open>One resource\<close>

record resource_base =
  rb_amount :: int
  rb_format :: string

record resource_resp =
  rr_label :: string
  rr_allocated :: "resource_base option"
  rr_guarantee :: "resource_base option"
  rr_deserved :: "resource_base option"
  rr_capability :: "resource_base option"

record quota_resp =
  qr_cpu :: resource_resp
  qr_memory :: resource_resp
  qr_gpus :: "resource_resp list"

definition base_of :: "('q, 'm) formatted_ops_scheme \<Rightarrow> 'q \<Rightarrow> resource_base" where
  "base_of Q v = \<lparr>rb_amount = q_value Q v, rb_format = q_format Q v\<rparr>"

definition no_resource :: resource_resp where
  "no_resource = \<lparr>rr_label = [], rr_allocated = None, rr_guarantee = None, rr_deserved = None, rr_capability = None\<rparr>"

text \<open>The processor, the memory and whatever has a vendor.\<close>

definition listed_name :: "string \<Rightarrow> bool" where
  "listed_name n \<longleftrightarrow> n = ''cpu'' \<or> n = ''memory'' \<or> CHR ''/'' \<in> set n"

text \<open>The first list of a view decides which resources are in it; the others fill in fields.\<close>

definition list_resources ::
  "('q, 'm) formatted_ops_scheme \<Rightarrow> (resource_base \<Rightarrow> resource_resp \<Rightarrow> resource_resp) \<Rightarrow> 'q resource_list \<Rightarrow> (string, resource_resp) gomap" where
  "list_resources Q put xs =
     fold (\<lambda>(n, v) m. if listed_name n then gm_put n (put (base_of Q v) (no_resource\<lparr>rr_label := n\<rparr>)) m else m) xs []"

definition fill_resources ::
  "('q, 'm) formatted_ops_scheme \<Rightarrow> (resource_base \<Rightarrow> resource_resp \<Rightarrow> resource_resp) \<Rightarrow> 'q resource_list \<Rightarrow> (string, resource_resp) gomap \<Rightarrow>
   (string, resource_resp) gomap" where
  "fill_resources Q put xs m =
     fold (\<lambda>(n, v) m. case gm_get m n of None \<Rightarrow> m | Some r \<Rightarrow> gm_put n (put (base_of Q v) r) m) xs m"

abbreviation put_allocated :: "resource_base \<Rightarrow> resource_resp \<Rightarrow> resource_resp" where "put_allocated b r \<equiv> r\<lparr>rr_allocated := Some b\<rparr>"
abbreviation put_guarantee :: "resource_base \<Rightarrow> resource_resp \<Rightarrow> resource_resp" where "put_guarantee b r \<equiv> r\<lparr>rr_guarantee := Some b\<rparr>"
abbreviation put_deserved :: "resource_base \<Rightarrow> resource_resp \<Rightarrow> resource_resp" where "put_deserved b r \<equiv> r\<lparr>rr_deserved := Some b\<rparr>"
abbreviation put_capability :: "resource_base \<Rightarrow> resource_resp \<Rightarrow> resource_resp" where "put_capability b r \<equiv> r\<lparr>rr_capability := Some b\<rparr>"

text \<open>A resource without a limit of its own has what the catalogue lists; one that cannot be read has none.\<close>

definition read_max :: "(string \<Rightarrow> fault) \<Rightarrow> catalog \<Rightarrow> (string, resource_resp) gomap \<Rightarrow> (string, resource_resp) gomap" where
  "read_max err c m =
     map (\<lambda>(n, r). (n, if rr_capability r \<noteq> None \<or> err n \<noteq> None then r
        else (case tbl_first (\<lambda>x. rs_resourceName x = n) (rc_resources c) of
            None \<Rightarrow> r
          | Some x \<Rightarrow> put_capability \<lparr>rb_amount = rs_amount x, rb_format = rs_format x\<rparr> r))) m"

definition resource_or_none :: "(string, resource_resp) gomap \<Rightarrow> string \<Rightarrow> resource_resp" where
  "resource_or_none m n = (case gm_get m n of None \<Rightarrow> no_resource | Some r \<Rightarrow> r)"

text \<open>A name of two parts is shown by its second one.\<close>

definition short_label :: "string \<times> resource_resp \<Rightarrow> resource_resp" where
  "short_label nr = (case split_on (CHR ''/'') (fst nr) of [vendor, kind] \<Rightarrow> (snd nr)\<lparr>rr_label := kind\<rparr> | _ \<Rightarrow> snd nr)"

definition quota_answer :: "(string, resource_resp) gomap \<Rightarrow> quota_resp" where
  "quota_answer m =
     \<lparr>qr_cpu = (resource_or_none m ''cpu'')\<lparr>rr_label := ''cpu''\<rparr>, qr_memory = (resource_or_none m ''memory'')\<lparr>rr_label := ''mem''\<rparr>,
      qr_gpus = sort_key rr_label (map short_label (filter (\<lambda>nr. CHR ''/'' \<in> set (fst nr)) m))\<rparr>"

section \<open>The view of a user\<close>

record view_env =
  vw_jobsErr :: fault
  vw_memberErr :: fault
  vw_accountErr :: fault
  vw_queueErr :: fault
  vw_resourceErr :: "string \<Rightarrow> fault"

definition quota_jobs :: "nat \<Rightarrow> nat \<Rightarrow> ('q, 'p, 't) job table \<Rightarrow> ('q, 'p, 't) job list" where
  "quota_jobs userID accountID jobs =
     tbl_find (\<lambda>j. jb_userID j = userID \<and> jb_accountID j = accountID \<and> (jb_status j = PhaseRunning \<or> jb_status j = PhasePending)) jobs"

text \<open>The loop over the names of the list reads the limit of each.\<close>

definition user_capability ::
  "('q, 'm) formatted_ops_scheme \<Rightarrow> 'q resource_list \<Rightarrow> (string, resource_resp) gomap \<Rightarrow> (string, resource_resp) gomap" where
  "user_capability Q capability m =
     map (\<lambda>(n, r). (n, case gm_get capability n of None \<Rightarrow> r | Some v \<Rightarrow> put_capability (base_of Q v) r)) m"

definition user_GetQuota ::
  "('q, 'm) formatted_ops_scheme \<Rightarrow> view_env \<Rightarrow> nat \<Rightarrow> nat \<Rightarrow> ('q, 'p, 't) job table \<Rightarrow> 'q directory \<Rightarrow> quota_resp result" where
  "user_GetQuota Q e userID accountID jobs dir =
     (case vw_jobsErr e of
        Some x \<Rightarrow> Inl ''Failed to query jobs''
      | None \<Rightarrow>
          let allocated = SumResources Q (map jb_resources (quota_jobs userID accountID jobs));
              resources = list_resources Q put_allocated allocated
          in (case (if vw_memberErr e = None then find_member accountID userID dir else None) of
              None \<Rightarrow> Inl ''Failed to query user account''
            | Some userAccount \<Rightarrow> Inr (quota_answer (user_capability Q (qq_capability (ua_quota userAccount)) resources))))"

section \<open>The view of an account\<close>

definition account_GetQuota ::
  "('q, 'm) formatted_ops_scheme \<Rightarrow> view_env \<Rightarrow> nat option \<Rightarrow> 'q directory \<Rightarrow> catalog \<Rightarrow> quota_resp result" where
  "account_GetQuota Q e uri dir c =
     (case uri of
        None \<Rightarrow> Inl ''invalid request''
      | Some i \<Rightarrow> (case (if vw_accountErr e = None then find_account i dir else None) of
          None \<Rightarrow> Inl ''Account not found''
        | Some account \<Rightarrow> (case (if vw_queueErr e = None then find_queue (ac_name account) dir else None) of
            None \<Rightarrow> Inl ''Queue not found''
          | Some queue \<Rightarrow> Inr (quota_answer (read_max (vw_resourceErr e) c
              (fill_resources Q put_capability (vq_capability queue)
                (fill_resources Q put_deserved (vq_deserved queue)
                  (fill_resources Q put_guarantee (vq_guarantee queue)
                    (list_resources Q put_allocated (vq_allocated queue))))))))))"

section \<open>The view of an account of the AI jobs\<close>

text \<open>What is used softly is added to what is used hard.\<close>

definition put_soft :: "resource_base \<Rightarrow> resource_resp \<Rightarrow> resource_resp" where
  "put_soft b r = put_allocated (case rr_allocated r of None \<Rightarrow> b | Some hard \<Rightarrow> \<lparr>rb_amount = rb_amount hard + rb_amount b, rb_format = rb_format b\<rparr>) r"

text \<open>The snapshot of an account that the controller does not know is the null pointer.\<close>

definition ai_GetQuota ::
  "('q, 'm) formatted_ops_scheme \<Rightarrow> view_env \<Rightarrow> string \<Rightarrow> 'q quota_map \<Rightarrow> 'q directory \<Rightarrow> catalog \<Rightarrow> quota_resp result go" where
  "ai_GetQuota Q e accountName quotas dir c =
     (case (if vw_accountErr e = None then tbl_first (\<lambda>a. ac_name a = accountName) (dr_accounts dir) else None) of
        None \<Rightarrow> Inr (Inl ''Queue not found'')
      | Some queue \<Rightarrow> (case GetQuotaInfoSnapshotByUsername accountName quotas of
          None \<Rightarrow> Inl NilDereference
        | Some usedQuota \<Rightarrow>
            let quota = ac_quota queue
            in Inr (Inr (quota_answer (read_max (vw_resourceErr e) c
              (fill_resources Q put_capability (qq_capability quota)
                (fill_resources Q put_guarantee (qq_guaranteed quota)
                  (fill_resources Q put_soft (qi_softUsed usedQuota)
                    (fill_resources Q put_allocated (qi_hardUsed usedQuota)
                      (list_resources Q put_deserved (qq_deserved quota)))))))))))"

section \<open>Lemmas\<close>

lemma list_resources_get:
  assumes "gm_ok xs"
  shows "gm_get (list_resources Q put xs) n =
    (if listed_name n then map_option (\<lambda>v. put (base_of Q v) (no_resource\<lparr>rr_label := n\<rparr>)) (gm_get xs n) else None)"
proof -
  let ?f = "\<lambda>(n, v) m. if listed_name n then gm_put n (put (base_of Q v) (no_resource\<lparr>rr_label := n\<rparr>)) m else m"
  have "gm_ok ys \<Longrightarrow> gm_get (fold ?f ys m) n =
    (case (if listed_name n then gm_get ys n else None) of None \<Rightarrow> gm_get m n | Some v \<Rightarrow> Some (put (base_of Q v) (no_resource\<lparr>rr_label := n\<rparr>)))"
    for ys m
  proof (induction ys arbitrary: m)
    case (Cons p ys)
    obtain k v where p: "p = (k, v)" by (cases p)
    from Cons.prems have ok: "gm_ok ys" and k: "gm_get ys k = None" by (auto simp: gm_ok_Cons p gm_get_None_iff)
    show ?case using Cons.IH [OF ok] k by (auto simp: p split: option.split)
  qed simp
  from this [OF assms, of "[]"] show ?thesis by (auto simp: list_resources_def split: option.split)
qed

lemma list_resources_ok: "gm_ok (list_resources Q put xs)"
proof -
  have "gm_ok m \<Longrightarrow> gm_ok (fold (\<lambda>(n, v) m. if listed_name n then gm_put n (put (base_of Q v) (no_resource\<lparr>rr_label := n\<rparr>)) m else m) xs m)" for m
    by (induction xs arbitrary: m) auto
  then show ?thesis by (simp add: list_resources_def)
qed

lemma map_get: "gm_get (map (\<lambda>(n, r). (n, f n r)) m) k = map_option (f k) (gm_get m k)"
  by (induction m) auto

lemma fill_resources_get:
  assumes "gm_ok xs"
  shows "gm_get (fill_resources Q put xs m) n =
    map_option (\<lambda>r. case gm_get xs n of None \<Rightarrow> r | Some v \<Rightarrow> put (base_of Q v) r) (gm_get m n)"
  using assms unfolding fill_resources_def
proof (induction xs arbitrary: m)
  case (Cons p xs)
  obtain k v where p: "p = (k, v)" by (cases p)
  from Cons.prems have ok: "gm_ok xs" and k: "gm_get xs k = None" by (auto simp: gm_ok_Cons p gm_get_None_iff)
  show ?case using Cons.IH [OF ok] k by (cases "gm_get m k") (auto simp: p split: option.split)
qed (auto simp: option.map_ident)

lemma SumResources_names: "gm_get (SumResources Q rs) n \<noteq> None \<longleftrightarrow> (\<exists>r \<in> set rs. gm_get r n \<noteq> None)"
proof -
  let ?g = "\<lambda>(name, quantity) result. case gm_get result name of None \<Rightarrow> gm_put name quantity result
      | Some v \<Rightarrow> gm_put name (q_add Q v quantity) result"
  have inner: "gm_get (fold ?g res result) n = None \<longleftrightarrow> gm_get result n = None \<and> gm_get res n = None" for res result
  proof (induction res arbitrary: result)
    case (Cons p res)
    obtain k v where p: "p = (k, v)" by (cases p)
    from Cons show ?case by (cases "gm_get result k") (auto simp: p)
  qed simp
  have "gm_get (fold (fold ?g) rs result) n = None \<longleftrightarrow> gm_get result n = None \<and> (\<forall>r \<in> set rs. gm_get r n = None)" for result
    by (induction rs arbitrary: result) (simp_all add: inner)
  from this [of "[]"] show ?thesis by (simp add: SumResources_def del: not_None_eq)
qed

text \<open>
  The view of a user: what the running and the pending jobs in the account ask for together, with the limit of the
  membership where there is one; a resource of which no such job asks is not shown at all, whatever its limit.
\<close>

theorem user_quota_exact:
  assumes "quantity_laws Q val" and "\<forall>j \<in> set jobs. gm_ok (jb_resources j)"
    and "user_GetQuota Q e userID accountID jobs dir = Inr resp"
  shows "\<exists>ua m. find_member accountID userID dir = Some ua \<and> resp = quota_answer m \<and>
    (\<forall>n. (gm_get m n \<noteq> None \<longleftrightarrow> listed_name n \<and> (\<exists>j \<in> set (quota_jobs userID accountID jobs). gm_get (jb_resources j) n \<noteq> None)) \<and>
      (\<forall>r. gm_get m n = Some r \<longrightarrow>
         (\<exists>q. val q = (\<Sum>j \<leftarrow> quota_jobs userID accountID jobs. amount val (jb_resources j) n) \<and> rr_allocated r = Some (base_of Q q)) \<and>
         rr_capability r = map_option (base_of Q) (gm_get (qq_capability (ua_quota ua)) n)))"
proof -
  let ?js = "quota_jobs userID accountID jobs"
  let ?sum = "SumResources Q (map jb_resources ?js)"
  from assms(3) obtain ua where ua: "find_member accountID userID dir = Some ua"
    and resp: "resp = quota_answer (user_capability Q (qq_capability (ua_quota ua)) (list_resources Q put_allocated ?sum))"
    by (auto simp: user_GetQuota_def Let_def split: option.splits if_splits)
  have ok: "gm_ok ?sum" by (rule gm_ok_SumResources)
  have "\<forall>r \<in> set (map jb_resources ?js). gm_ok r" using assms(2) by (auto simp: quota_jobs_def tbl_find_def)
  note total = amount_SumResources [OF assms(1) this]
  let ?m = "user_capability Q (qq_capability (ua_quota ua)) (list_resources Q put_allocated ?sum)"
  have get: "gm_get ?m n = (if listed_name n then map_option (\<lambda>v. \<lparr>rr_label = n, rr_allocated = Some (base_of Q v), rr_guarantee = None,
      rr_deserved = None, rr_capability = map_option (base_of Q) (gm_get (qq_capability (ua_quota ua)) n)\<rparr>) (gm_get ?sum n) else None)" for n
    by (cases "gm_get ?sum n"; cases "gm_get (qq_capability (ua_quota ua)) n")
      (simp_all add: user_capability_def map_get list_resources_get [OF ok] no_resource_def)
  have val: "val q = (\<Sum>j \<leftarrow> ?js. amount val (jb_resources j) n)" if "gm_get ?sum n = Some q" for n q
    using total [of n] that by (simp add: amount_def o_def)
  have names: "gm_get ?m n \<noteq> None \<longleftrightarrow> listed_name n \<and> (\<exists>j \<in> set ?js. gm_get (jb_resources j) n \<noteq> None)" for n
    using SumResources_names [of Q "map jb_resources ?js" n] by (auto simp: get simp del: not_None_eq)
  have row: "\<exists>q. gm_get ?sum n = Some q \<and> rr_allocated r = Some (base_of Q q) \<and>
      rr_capability r = map_option (base_of Q) (gm_get (qq_capability (ua_quota ua)) n)" if "gm_get ?m n = Some r" for n r
    using that by (auto simp: get split: if_splits)
  show ?thesis
  proof (intro exI [of _ ua] exI [of _ ?m] conjI allI impI)
    fix n r assume "gm_get ?m n = Some r"
    with row [of n r] val [of n] show "\<exists>q. val q = (\<Sum>j \<leftarrow> ?js. amount val (jb_resources j) n) \<and> rr_allocated r = Some (base_of Q q)"
      and "rr_capability r = map_option (base_of Q) (gm_get (qq_capability (ua_quota ua)) n)" by blast+
  qed (use ua resp names in \<open>simp_all only:\<close>)
qed

text \<open>
  The view of an account: the resources its queue has allocated, with the three limits of the queue; where the queue sets no
  capability, the catalogue's amount takes its place.
\<close>

theorem account_quota_exact:
  assumes "gm_ok (vq_allocated queue)" "gm_ok (vq_guarantee queue)" "gm_ok (vq_deserved queue)" "gm_ok (vq_capability queue)"
    and "find_account i dir = Some account" and "find_queue (ac_name account) dir = Some queue"
    and "account_GetQuota Q e (Some i) dir c = Inr resp"
  shows "\<exists>m. resp = quota_answer m \<and>
    (\<forall>n. gm_get m n = (if listed_name n then map_option (\<lambda>v.
       \<lparr>rr_label = n, rr_allocated = Some (base_of Q v), rr_guarantee = map_option (base_of Q) (gm_get (vq_guarantee queue) n),
        rr_deserved = map_option (base_of Q) (gm_get (vq_deserved queue) n),
        rr_capability = (case gm_get (vq_capability queue) n of
            Some w \<Rightarrow> Some (base_of Q w)
          | None \<Rightarrow> if vw_resourceErr e n = None
              then map_option (\<lambda>x. \<lparr>rb_amount = rs_amount x, rb_format = rs_format x\<rparr>) (tbl_first (\<lambda>x. rs_resourceName x = n) (rc_resources c))
              else None)\<rparr>) (gm_get (vq_allocated queue) n) else None))"
proof -
  let ?m = "read_max (vw_resourceErr e) c (fill_resources Q put_capability (vq_capability queue) (fill_resources Q put_deserved (vq_deserved queue)
      (fill_resources Q put_guarantee (vq_guarantee queue) (list_resources Q put_allocated (vq_allocated queue)))))"
  from assms(5-7) have "resp = quota_answer ?m" by (auto simp: account_GetQuota_def split: option.splits if_splits)
  moreover have "gm_get ?m n = (if listed_name n then map_option (\<lambda>v.
       \<lparr>rr_label = n, rr_allocated = Some (base_of Q v), rr_guarantee = map_option (base_of Q) (gm_get (vq_guarantee queue) n),
        rr_deserved = map_option (base_of Q) (gm_get (vq_deserved queue) n),
        rr_capability = (case gm_get (vq_capability queue) n of
            Some w \<Rightarrow> Some (base_of Q w)
          | None \<Rightarrow> if vw_resourceErr e n = None
              then map_option (\<lambda>x. \<lparr>rb_amount = rs_amount x, rb_format = rs_format x\<rparr>) (tbl_first (\<lambda>x. rs_resourceName x = n) (rc_resources c))
              else None)\<rparr>) (gm_get (vq_allocated queue) n) else None)" for n
    by (cases "gm_get (vq_allocated queue) n"; cases "gm_get (vq_guarantee queue) n"; cases "gm_get (vq_deserved queue) n";
        cases "gm_get (vq_capability queue) n"; cases "tbl_first (\<lambda>x. rs_resourceName x = n) (rc_resources c)")
      (simp_all add: read_max_def map_get list_resources_get fill_resources_get assms(1-4) no_resource_def)
  ultimately show ?thesis by blast
qed

text \<open>
  The view of the AI jobs panics for an account the controller does not know, such as one made after the start of the server for
  which no task was admitted yet.
\<close>

theorem ai_quota_panics:
  assumes "vw_accountErr e = None" and "tbl_first (\<lambda>a. ac_name a = n) (dr_accounts dir) \<noteq> None" and "gm_get quotas n = None"
  shows "ai_GetQuota Q e n quotas dir c = Inl NilDereference"
  using assms by (auto simp: ai_GetQuota_def GetQuotaInfoSnapshotByUsername_def)

section \<open>A user with one job\<close>

definition quiet_view :: view_env where
  "quiet_view = \<lparr>vw_jobsErr = None, vw_memberErr = None, vw_accountErr = None, vw_queueErr = None, vw_resourceErr = (\<lambda>_. None)\<rparr>"

definition anns_job :: "(int, unit, unit) job" where
  "anns_job = sample_job\<lparr>jb_userID := 4, jb_accountID := 1, jb_resources := [(''cpu'', 2), (''pods'', 1)]\<rparr>"

lemma user_quota_exact_witness:
  "\<exists>resp m. user_GetQuota int_formatted quiet_view 4 1 [anns_job] sample_directory = Inr resp \<and> resp = quota_answer m \<and>
     gm_get m ''cpu'' \<noteq> None \<and> gm_get m ''memory'' = None \<and> gm_get m ''pods'' = None"
proof -
  have "\<exists>resp. user_GetQuota int_formatted quiet_view 4 1 [anns_job] sample_directory = Inr resp"
    by (simp add: user_GetQuota_def quiet_view_def Let_def find_member_def sample_directory_def tbl_first_Cons)
  then obtain resp where r: "user_GetQuota int_formatted quiet_view 4 1 [anns_job] sample_directory = Inr resp" by blast
  have ok: "\<forall>j \<in> set [anns_job]. gm_ok (jb_resources j)" by (simp add: anns_job_def gm_ok_def)
  have js: "quota_jobs 4 1 [anns_job] = [anns_job]" by (simp add: quota_jobs_def tbl_find_def anns_job_def sample_job_def)
  from user_quota_exact [OF int_formatted_laws ok r] obtain m where m: "resp = quota_answer m"
    "\<And>n. gm_get m n \<noteq> None \<longleftrightarrow> listed_name n \<and> gm_get (jb_resources anns_job) n \<noteq> None" unfolding js by auto
  have "gm_get m ''cpu'' \<noteq> None" unfolding m(2) by (simp add: anns_job_def listed_name_def)
  moreover have "\<not> gm_get m ''memory'' \<noteq> None" unfolding m(2) by (simp add: anns_job_def)
  moreover have "\<not> gm_get m ''pods'' \<noteq> None" unfolding m(2) by (simp add: listed_name_def)
  ultimately show ?thesis using r m(1) by (intro exI [of _ resp] exI [of _ m] conjI) simp_all
qed

definition busy_queue :: "int vqueue" where
  "busy_queue = \<lparr>vq_name = ''default'', vq_createdBy = ''x'', vq_guarantee = [], vq_deserved = [], vq_capability = [],
     vq_allocated = [(''nvidia.com/v100'', 2)], vq_running = 1\<rparr>"

lemma account_quota_exact_witness:
  "\<exists>resp m. account_GetQuota int_formatted quiet_view (Some 1) (sample_directory\<lparr>dr_queues := [busy_queue]\<rparr>) sample_catalog = Inr resp \<and>
     resp = quota_answer m \<and> map_option rr_capability (gm_get m ''nvidia.com/v100'') = Some (Some \<lparr>rb_amount = 8, rb_format = ''DecimalSI''\<rparr>)"
proof -
  let ?dir = "sample_directory\<lparr>dr_queues := [busy_queue]\<rparr>"
  have acc: "\<exists>a. find_account 1 ?dir = Some a \<and> find_queue (ac_name a) ?dir = Some busy_queue"
    by (simp add: find_account_def find_queue_def sample_directory_def busy_queue_def tbl_first_Cons)
  then obtain a where a: "find_account 1 ?dir = Some a" "find_queue (ac_name a) ?dir = Some busy_queue" by blast
  then have "\<exists>resp. account_GetQuota int_formatted quiet_view (Some 1) ?dir sample_catalog = Inr resp"
    by (simp add: account_GetQuota_def quiet_view_def)
  then obtain resp where r: "account_GetQuota int_formatted quiet_view (Some 1) ?dir sample_catalog = Inr resp" by blast
  have "gm_ok (vq_allocated busy_queue)" "gm_ok (vq_guarantee busy_queue)" "gm_ok (vq_deserved busy_queue)" "gm_ok (vq_capability busy_queue)"
    by (simp_all add: busy_queue_def gm_ok_def)
  from account_quota_exact [OF this a r] obtain m where m: "resp = quota_answer m" and get: "gm_get m ''nvidia.com/v100'' =
      Some \<lparr>rr_label = ''nvidia.com/v100'', rr_allocated = Some (base_of int_formatted 2), rr_guarantee = None, rr_deserved = None,
        rr_capability = Some \<lparr>rb_amount = 8, rb_format = ''DecimalSI''\<rparr>\<rparr>"
    by (auto simp: busy_queue_def listed_name_def quiet_view_def sample_catalog_def sample_gpu_def tbl_first_Cons)
  have "map_option rr_capability (gm_get m ''nvidia.com/v100'') = Some (Some \<lparr>rb_amount = 8, rb_format = ''DecimalSI''\<rparr>)" by (simp add: get)
  with r m show ?thesis by blast
qed

lemma ai_quota_panics_witness:
  "ai_GetQuota int_formatted quiet_view ''default'' [] sample_directory sample_catalog = Inl NilDereference"
  by (rule ai_quota_panics) (simp_all add: quiet_view_def sample_directory_def tbl_first_Cons)

end
