(* ===== verification/AI_Requests.thy ===== *)
theory AI_Requests imports Job_Requests Task_Controller begin

text \<open>
  The requests on AI jobs, \<open>internal/handler/aijob\<close> (\<open>emias.go\<close>, \<open>new.go\<close>, \<open>util.go\<close>) with \<open>FormatTaskAttrToModel\<close> of
  \<open>dao/model/emias.go\<close>: a request writes a row of the task table and tells the task controller of \<open>Task_Controller\<close>.  The
  controller takes the message before the next request (one step of the interleaving).
\<close>

section \<open>State\<close>

text \<open>
  The task controller with its table and cluster, the datasets and users that mounts and names are read from, and the counter of
  the table's keys.
\<close>

record ('q, 'u) ai_site =
  as_ctl :: "('q, 'u) ctl"
  as_store :: "'q dataset_store"
  as_seq :: nat

text \<open>
  The environment of the controller, of pods and of the table; the writing of resources as JSON and of a duration as text; what the
  cluster keeps elsewhere (pods, logs, events); the time of the last write of a row, which the rows of the model do not keep.
\<close>

record ('q, 'u) ai_env =
  ar_ctl :: "('q, 'u) ctl_env"
  ar_pod :: pod_env
  ar_json :: "'q resource_list option \<Rightarrow> string"
  ar_duration :: "time \<Rightarrow> string"
  ar_createErr :: fault
  ar_updateErr :: fault
  ar_createdAt :: time
  ar_now :: time
  ar_updatedAt :: "ai_task \<Rightarrow> time"
  ar_ns :: string
  ar_host :: string
  ar_userErr :: "string \<Rightarrow> fault"
  ar_pods :: "string \<Rightarrow> string \<Rightarrow> 'q live_pod result"
  ar_logs :: "string \<Rightarrow> string \<Rightarrow> string result"
  ar_events :: "string \<Rightarrow> string \<Rightarrow> event list result"
  ar_jobUpdateErr :: fault

abbreviation ar_db :: "('q, 'u) ai_env \<Rightarrow> task_db_env" where "ar_db e \<equiv> te_db (ar_ctl e)"
abbreviation as_db :: "('q, 'u) ai_site \<Rightarrow> task_db" where "as_db st \<equiv> tc_db (as_ctl st)"
abbreviation as_queue :: "('q, 'u) ai_site \<Rightarrow> task_queue" where "as_queue st \<equiv> tc_taskQueue (as_ctl st)"

section \<open>Submission\<close>

text \<open>What a request says of a task; the handlers set no other attribute.\<close>

record 'q task_attr =
  ta_taskName :: string
  ta_userName :: string
  ta_slo :: nat
  ta_taskType :: string
  ta_image :: string
  ta_resourceRequest :: "'q resource_list option"
  ta_command :: string
  ta_workingDir :: string
  ta_namespace :: string

definition no_template :: pod_spec where
  "no_template = \<lparr>ps_requests = [], ps_affinity = False, ps_priorityClass = [], ps_scheduler = [], ps_nodeSelector = [], ps_tolerations = []\<rparr>"

definition FormatTaskAttrToModel :: "('q resource_list option \<Rightarrow> string) \<Rightarrow> 'q task_attr \<Rightarrow> ai_task" where
  "FormatTaskAttrToModel json task =
     \<lparr>t_id = 0, t_createdAt = 0, t_taskName = ta_taskName task, t_userName = ta_userName task, t_owner = [],
      t_namespace = ta_namespace task, t_taskType = ta_taskType task, t_admittedAt = None, t_startedAt = None, t_finishAt = None,
      t_duration = 0, t_jct = 0, t_resourceRequest = json (ta_resourceRequest task), t_command = ta_command task, t_slo = ta_slo task,
      t_status = EmiasTaskQueueingStatus, t_statusReason = [], t_jobName = [], t_isDeleted = False, t_profileStatus = EmiasUnProfiled,
      t_profileStat = [], t_estimatedTime = 0, t_token = [], t_nodePort = 0, t_podTemplate = no_template, t_node = []\<rparr>"

text \<open>The columns of a pod that the task table keeps.\<close>

definition template_of :: "('q resource_list option \<Rightarrow> string) \<Rightarrow> 'q job_pod \<Rightarrow> pod_spec" where
  "template_of json spec =
     \<lparr>ps_requests = map (\<lambda>c. json (Some (ct_resources c))) (pd_containers spec), ps_affinity = (pd_affinity spec \<noteq> None),
      ps_priorityClass = [], ps_scheduler = [], ps_nodeSelector = [], ps_tolerations = map tl_key (pd_tolerations spec)\<rparr>"

text \<open>The database gives the key and the time; the message to the controller follows.\<close>

definition submit_task :: "('q, 'u) ai_env \<Rightarrow> ai_task \<Rightarrow> ('q, 'u) ai_site \<Rightarrow> nat result \<times> ('q, 'u) ai_site" where
  "submit_task e taskModel st =
     (let task = taskModel\<lparr>t_id := Suc (as_seq st), t_createdAt := ar_createdAt e\<rparr> in
      case svc_Create (ar_createErr e) task (as_db st) of
        (Some x, db) \<Rightarrow> (Inl (''create task failed, err '' @ x), st)
      | (None, db) \<Rightarrow>
          (Inr (t_id task),
           st\<lparr>as_seq := t_id task,
              as_ctl := TaskUpdated (ar_ctl e) \<lparr>tu_taskID = t_id task, tu_userName = t_userName task, tu_operation = CreateTask\<rparr>
                          ((as_ctl st)\<lparr>tc_db := db\<rparr>)\<rparr>))"

record 'q ai_custom_req =
  qc_custom :: "'q custom_req"
  qc_slo :: nat

text \<open>The placement is computed again, without the GPUs of the request.\<close>

definition ai_custom_pod :: "('q, 'u) ai_env \<Rightarrow> 'q ai_custom_req \<Rightarrow> 'q job_pod \<Rightarrow> 'q job_pod" where
  "ai_custom_pod e req spec =
     spec\<lparr>pd_affinity := GenerateArchitectureNodeAffinity (cq_image (qc_custom req))
            (GenerateNodeAffinity (te_Q (ar_ctl e)) (cm_selectors (cq_common (qc_custom req))) None)\<rparr>"

definition ai_custom_attr :: "('q, 'u) ai_env \<Rightarrow> jwt_message \<Rightarrow> 'q ai_custom_req \<Rightarrow> 'q task_attr" where
  "ai_custom_attr e token req =
     (let vcReq = qc_custom req in
      \<lparr>ta_taskName = cm_name (cq_common vcReq), ta_userName = jm_accountName token, ta_slo = qc_slo req,
       ta_taskType = EmiasTrainingTask, ta_image = ib_imageLink (cq_image vcReq), ta_resourceRequest = cq_resource vcReq,
       ta_command = (case cq_command vcReq of None \<Rightarrow> [] | Some c \<Rightarrow> c), ta_workingDir = cq_workingDir vcReq, ta_namespace = ar_ns e\<rparr>)"

definition CreateCustom ::
  "('q, 'u) ai_env \<Rightarrow> jwt_message \<Rightarrow> 'q ai_custom_req option \<Rightarrow> ('q, 'u) ai_site \<Rightarrow> nat result \<times> ('q, 'u) ai_site" where
  "CreateCustom e token body st =
     (case body of
        None \<Rightarrow> (Inl ''bad request'', st)
      | Some req \<Rightarrow> (case GenerateCustomPodSpec (te_Q (ar_ctl e)) (ar_pod e) token (qc_custom req) (as_store st) of
          Inl x \<Rightarrow> (Inl (''generate pod spec failed, err '' @ x), st)
        | Inr podSpec \<Rightarrow>
            submit_task e ((FormatTaskAttrToModel (ar_json e) (ai_custom_attr e token req))
              \<lparr>t_podTemplate := template_of (ar_json e) (ai_custom_pod e req podSpec), t_owner := jm_username token\<rparr>) st))"

text \<open>A notebook always has the high service level and no toleration of its account's nodes.\<close>

definition ai_jupyter_command :: "string \<Rightarrow> jwt_message \<Rightarrow> string" where
  "ai_jupyter_command imageLink token =
     (if str_contains imageLink ''jupyter'' then ''start.sh jupyter lab --allow-root --notebook-dir=/home/'' @ jm_username token
      else ''/usr/bin/start.sh jupyter lab --allow-root --notebook-dir=/home/'' @ jm_username token)"

definition ai_jupyter_pod ::
  "('q, 'u) ai_env \<Rightarrow> jwt_message \<Rightarrow> 'q jupyter_req \<Rightarrow> volume list \<Rightarrow> volume_mount list \<Rightarrow> 'q directory \<Rightarrow> 'q job_pod" where
  "ai_jupyter_pod e token req volumes mounts dir =
     (let imageLink = ib_imageLink (jq_image req); plain = str_contains imageLink ''jupyter'' in
      \<lparr>pd_affinity = GenerateArchitectureNodeAffinity (jq_image req)
         (GenerateNodeAffinity (te_Q (ar_ctl e)) (cm_selectors (jq_common req)) None),
       pd_tolerations = [],
       pd_volumes = (if plain then volumes
         else volumes @ [\<lparr>vo_name = ''bash-script-volume'', vo_source = ConfigMapSource ''jupyter-start-configmap'' 493\<rparr>]),
       pd_imagePullSecrets = pull_secrets (pe_imagePullSecretName (ar_pod e)),
       pd_containers = [\<lparr>ct_name = ''jupyter-notebook'', ct_image = imageLink, ct_command = [''bash'', ''-c'', ai_jupyter_command imageLink token],
         ct_workingDir = ''/home/'' @ jm_username token, ct_resources = or_empty (jq_resource req),
         ct_env = GenerateEnvs (pe_envUserErr (ar_pod e)) token dir (cm_envs (jq_common req)) @
           [env_value ''GRANT_SUDO'' ''1'', env_value ''CHOWN_HOME'' ''1''],
         ct_ports = [\<lparr>cp_name = ''notebook-port'', cp_port = JupyterPort\<rparr>], ct_capabilities = [],
         ct_volumeMounts = (if plain then mounts
           else mounts @ [\<lparr>mt_name = ''bash-script-volume'', mt_subPath = ''start.sh'', mt_mountPath = ''/usr/bin/start.sh'', mt_readOnly = False\<rparr>])\<rparr>],
       pd_restartPolicy = []\<rparr>)"

definition ai_jupyter_attr :: "('q, 'u) ai_env \<Rightarrow> jwt_message \<Rightarrow> 'q jupyter_req \<Rightarrow> 'q task_attr" where
  "ai_jupyter_attr e token req =
     \<lparr>ta_taskName = cm_name (jq_common req), ta_userName = jm_accountName token, ta_slo = 1, ta_taskType = EmiasJupyterTask,
      ta_image = ib_imageLink (jq_image req), ta_resourceRequest = jq_resource req, ta_command = [], ta_workingDir = [],
      ta_namespace = ar_ns e\<rparr>"

definition ai_CreateJupyterJob ::
  "('q, 'u) ai_env \<Rightarrow> jwt_message \<Rightarrow> 'q jupyter_req option \<Rightarrow> ('q, 'u) ai_site \<Rightarrow> nat result \<times> ('q, 'u) ai_site" where
  "ai_CreateJupyterJob e token body st =
     (case body of
        None \<Rightarrow> (Inl ''bad request'', st)
      | Some req \<Rightarrow> (case GenerateVolumeMounts (pe_mounts (ar_pod e)) (cm_volumeMounts (jq_common req)) token (as_store st) of
          Inl x \<Rightarrow> (Inl x, st)
        | Inr (volumes, mounts) \<Rightarrow>
            submit_task e ((FormatTaskAttrToModel (ar_json e) (ai_jupyter_attr e token req))
              \<lparr>t_podTemplate := template_of (ar_json e) (ai_jupyter_pod e token req volumes mounts (dst_dir (as_store st))),
               t_owner := jm_username token\<rparr>) st))"

section \<open>Changes\<close>

text \<open>The controller acts before the row is marked.\<close>

definition ai_Delete :: "('q, 'u) ai_env \<Rightarrow> jwt_message \<Rightarrow> nat option \<Rightarrow> ('q, 'u) ai_site \<Rightarrow> unit result \<times> ('q, 'u) ai_site" where
  "ai_Delete e token uri st =
     (case uri of
        None \<Rightarrow> (Inl ''bad request'', st)
      | Some i \<Rightarrow> (case svc_GetByQueueAndID (ar_db e) (jm_accountName token) i (as_db st) of
          Inl x \<Rightarrow> (Inl (''get task failed, err '' @ x), st)
        | Inr _ \<Rightarrow>
            let ctl = TaskUpdated (ar_ctl e) \<lparr>tu_taskID = i, tu_userName = jm_accountName token, tu_operation = DeleteTask\<rparr> (as_ctl st)
            in (case svc_DeleteByQueueAndID (ar_db e) (jm_accountName token) i (tc_db ctl) of
                (Some x, db) \<Rightarrow> (Inl (''delete task failed, err '' @ x), st\<lparr>as_ctl := ctl\<rparr>)
              | (None, db) \<Rightarrow> (Inr (), st\<lparr>as_ctl := ctl\<lparr>tc_db := db\<rparr>\<rparr>))))"

definition UpdateSLO :: "('q, 'u) ai_env \<Rightarrow> jwt_message \<Rightarrow> (nat \<times> nat) option \<Rightarrow> ('q, 'u) ai_site \<Rightarrow> unit result \<times> ('q, 'u) ai_site" where
  "UpdateSLO e token body st =
     (case body of
        None \<Rightarrow> (Inl ''validate update parameters failed'', st)
      | Some (taskID, slo) \<Rightarrow> (case svc_GetByQueueAndID (ar_db e) (jm_accountName token) taskID (as_db st) of
          Inl x \<Rightarrow> (Inl (''get task failed, err '' @ x), st)
        | Inr task \<Rightarrow> (case svc_Update (ar_updateErr e) (task\<lparr>t_slo := slo\<rparr>) (as_db st) of
            (Some x, db) \<Rightarrow> (Inl (''update task failed, err '' @ x), st)
          | (None, db) \<Rightarrow>
              (Inr (), st\<lparr>as_ctl := TaskUpdated (ar_ctl e) \<lparr>tu_taskID = taskID, tu_userName = jm_username token, tu_operation = UpdateTask\<rparr>
                            ((as_ctl st)\<lparr>tc_db := db\<rparr>)\<rparr>))))"

section \<open>Listings and details\<close>

abbreviation (input) EmiasProfileSkipped :: nat where "EmiasProfileSkipped \<equiv> 5"

text \<open>A task that waits, was only created, or was freed is shown as pending.\<close>

definition convertJobPhase :: "ai_task \<Rightarrow> string" where
  "convertJobPhase aijob =
     (if t_isDeleted aijob then PhaseDeleted
      else if t_status aijob = ''Pending'' then PhasePending
      else if t_status aijob = ''Running'' then PhaseRunning
      else if t_status aijob = ''Succeeded'' then PhaseCompleted
      else if t_status aijob = ''Failed'' then PhaseFailed
      else if t_status aijob = ''Preempted'' then PhaseAborted
      else PhasePending)"

record 'q ai_job_resp =
  xr_id :: nat
  xr_priority :: string
  xr_profileStatus :: string
  xr_name :: string
  xr_jobName :: string
  xr_owner :: string
  xr_nickname :: string
  xr_username :: string
  xr_jobType :: string
  xr_queue :: string
  xr_status :: string
  xr_createdAt :: time
  xr_startedAt :: time
  xr_completedAt :: time
  xr_nodes :: "string list"
  xr_resources :: "'q resource_list"

definition no_ai_resp :: "'q ai_job_resp" where
  "no_ai_resp = \<lparr>xr_id = 0, xr_priority = [], xr_profileStatus = [], xr_name = [], xr_jobName = [], xr_owner = [], xr_nickname = [],
     xr_username = [], xr_jobType = [], xr_queue = [], xr_status = [], xr_createdAt = 0, xr_startedAt = 0, xr_completedAt = 0,
     xr_nodes = [], xr_resources = []\<rparr>"

definition or_zero_time :: "time option \<Rightarrow> time" where
  "or_zero_time t = (case t of None \<Rightarrow> 0 | Some x \<Rightarrow> x)"

definition task_priority :: "ai_task \<Rightarrow> string" where
  "task_priority t = (if 0 < t_slo t then ''high'' else ''low'')"

definition owner_named :: "('q, 'u) ai_env \<Rightarrow> ('q, 'u) ai_site \<Rightarrow> string \<Rightarrow> user result" where
  "owner_named e st n =
     (case ar_userErr e n of
        Some x \<Rightarrow> Inl x
      | None \<Rightarrow> (case tbl_first (\<lambda>u. us_name u = n) (dr_users (dst_dir (as_store st))) of
          None \<Rightarrow> Inl ''record not found'' | Some u \<Rightarrow> Inr u))"

text \<open>An answer without its owner is the empty one, beside the error.\<close>

definition convertToAIJobResp :: "('q, 'u) ai_env \<Rightarrow> ('q, 'u) ai_site \<Rightarrow> ai_task \<Rightarrow> 'q ai_job_resp \<times> fault" where
  "convertToAIJobResp e st aiTask =
     (case owner_named e st (t_owner aiTask) of
        Inl x \<Rightarrow> (no_ai_resp, Some x)
      | Inr user \<Rightarrow>
          (\<lparr>xr_id = t_id aiTask, xr_priority = task_priority aiTask,
            xr_profileStatus = fmt_uint (if t_isDeleted aiTask \<and> t_profileStatus aiTask \<noteq> EmiasProfileFinish
                                         then EmiasProfileSkipped else t_profileStatus aiTask),
            xr_name = t_taskName aiTask, xr_jobName = fmt_uint (t_id aiTask), xr_owner = t_owner aiTask,
            xr_nickname = us_nickname user, xr_username = us_name user, xr_jobType = t_taskType aiTask, xr_queue = t_userName aiTask,
            xr_status = convertJobPhase aiTask, xr_createdAt = t_createdAt aiTask, xr_startedAt = or_zero_time (t_startedAt aiTask),
            xr_completedAt = or_zero_time (t_finishAt aiTask), xr_nodes = [t_node aiTask],
            xr_resources = request_list (te_Q (ar_ctl e)) (t_resourceRequest aiTask)\<rparr>, None))"

text \<open>The listings drop the error and keep the empty answer.\<close>

definition ListUserJob :: "('q, 'u) ai_env \<Rightarrow> jwt_message \<Rightarrow> ('q, 'u) ai_site \<Rightarrow> 'q ai_job_resp list result" where
  "ListUserJob e token st =
     (case svc_ListByQueue (ar_db e) (jm_accountName token) (as_db st) of
        Inl x \<Rightarrow> Inl (''list task failed, err '' @ x)
      | Inr taskModels \<Rightarrow> Inr (map (\<lambda>t. fst (convertToAIJobResp e st t)) taskModels))"

definition ListAllJob :: "('q, 'u) ai_env \<Rightarrow> ('q, 'u) ai_site \<Rightarrow> 'q ai_job_resp list result" where
  "ListAllJob e st =
     (case svc_ListAll (ar_db e) (as_db st) of
        Inl x \<Rightarrow> Inl (''list task failed, err '' @ x)
      | Inr taskModels \<Rightarrow> Inr (map (\<lambda>t. fst (convertToAIJobResp e st t)) taskModels))"

text \<open>The profile is decoded from the text that is kept here.\<close>

record ai_job_detail =
  xd_name :: string
  xd_namespace :: string
  xd_owner :: string
  xd_nickname :: string
  xd_username :: string
  xd_jobName :: string
  xd_queue :: string
  xd_status :: string
  xd_createdAt :: time
  xd_startedAt :: time
  xd_completedAt :: time
  xd_profileData :: "string option"
  xd_retry :: string
  xd_duration :: string
  xd_priority :: string
  xd_profileStat :: string
  xd_profileStatus :: string

text \<open>\<open>Truncate\<close> rounds towards zero.\<close>

definition whole_seconds :: "int \<Rightarrow> int" where
  "whole_seconds d = sgn d * (\<bar>d\<bar> div 1000000000) * 1000000000"

definition ai_GetDetail :: "('q, 'u) ai_env \<Rightarrow> jwt_message \<Rightarrow> nat option \<Rightarrow> ('q, 'u) ai_site \<Rightarrow> ai_job_detail result" where
  "ai_GetDetail e token uri st =
     (case uri of
        None \<Rightarrow> Inl ''bad request''
      | Some i \<Rightarrow> (case svc_GetByQueueAndID (ar_db e) (jm_accountName token) i (as_db st) of
          Inl x \<Rightarrow> Inl (''get task failed, err '' @ x)
        | Inr t \<Rightarrow> (case owner_named e st (t_owner t) of
            Inl x \<Rightarrow> Inl (''get user failed, err '' @ x)
          | Inr user \<Rightarrow>
              Inr \<lparr>xd_name = t_taskName t, xd_namespace = t_namespace t, xd_owner = t_owner t, xd_nickname = us_nickname user,
                   xd_username = us_name user, xd_jobName = t_jobName t, xd_queue = t_userName t, xd_status = convertJobPhase t,
                   xd_createdAt = t_createdAt t, xd_startedAt = or_zero_time (t_startedAt t),
                   xd_completedAt = (if t_isDeleted t then ar_updatedAt e t else 0),
                   xd_profileData = (if t_profileStat t \<noteq> [] then Some (t_profileStat t) else None), xd_retry = ''0'',
                   xd_duration = (case t_startedAt t of None \<Rightarrow> ''0s'' | Some s \<Rightarrow> ar_duration e (whole_seconds (time_sub (ar_now e) s))),
                   xd_priority = task_priority t, xd_profileStat = t_profileStat t, xd_profileStatus = fmt_uint (t_profileStatus t)\<rparr>)))"

definition ai_pod_name :: "ai_task \<Rightarrow> string" where
  "ai_pod_name t = t_jobName t @ ''-0''"

text \<open>The resources are those of the first container; no pod is no answer.\<close>

definition ai_GetJobPods :: "('q, 'u) ai_env \<Rightarrow> jwt_message \<Rightarrow> nat option \<Rightarrow> ('q, 'u) ai_site \<Rightarrow> 'q pod_detail list result go" where
  "ai_GetJobPods e token uri st =
     (case uri of
        None \<Rightarrow> Inr (Inl ''bad request'')
      | Some i \<Rightarrow> (case svc_GetByQueueAndID (ar_db e) (jm_accountName token) i (as_db st) of
          Inl x \<Rightarrow> Inr (Inl (''get task failed, err '' @ x))
        | Inr t \<Rightarrow> (case ar_pods e (t_namespace t) (ai_pod_name t) of
            Inl x \<Rightarrow> Inr (Inr [])
          | Inr pod \<Rightarrow> (case lp_containers pod of
              [] \<Rightarrow> Inl IndexOutOfRange
            | c # cs \<Rightarrow> Inr (Inr [\<lparr>pt_name = lp_name pod, pt_namespace = lp_namespace pod, pt_nodeName = lp_nodeName pod,
                pt_ip = lp_podIP pod, pt_port = [], pt_resource = pc_requests c, pt_phase = lp_phase pod\<rparr>])))))"

text \<open>A task without a job waits, which is told by an event that is made up; the events of the pod replace those of the job.\<close>

definition ai_GetJobEvents :: "('q, 'u) ai_env \<Rightarrow> jwt_message \<Rightarrow> nat option \<Rightarrow> ('q, 'u) ai_site \<Rightarrow> event list result" where
  "ai_GetJobEvents e token uri st =
     (case uri of
        None \<Rightarrow> Inl ''bad request''
      | Some i \<Rightarrow> (case svc_GetByQueueAndID (ar_db e) (jm_accountName token) i (as_db st) of
          Inl x \<Rightarrow> Inl (''get task failed, err '' @ x)
        | Inr t \<Rightarrow>
            if t_jobName t = [] then
              Inr [\<lparr>ev_uid = [], ev_reason = ''Queueing'', ev_message = ''Job '' @ t_taskName t @ '' is queueing'', ev_lastTimestamp = t_createdAt t\<rparr>]
            else (case ar_events e (t_namespace t) (t_jobName t) of
                Inl x \<Rightarrow> Inl x
              | Inr jobEvents \<Rightarrow> (case ar_events e (t_namespace t) (ai_pod_name t) of
                  Inl x \<Rightarrow> Inl x
                | Inr podEvents \<Rightarrow> Inr (sort_key (\<lambda>v. - ev_lastTimestamp v) (if podEvents \<noteq> [] then podEvents else jobEvents))))))"

section \<open>The token of a notebook\<close>

definition annotate_ai_job :: "string \<Rightarrow> string \<Rightarrow> string_map \<Rightarrow> cluster \<Rightarrow> cluster" where
  "annotate_ai_job ns n m cl =
     cl\<lparr>cl_jobs := map (\<lambda>j. if aj_namespace j = ns \<and> aj_name j = n then j\<lparr>aj_annotations := m\<rparr> else j) (cl_jobs cl)\<rparr>"

definition GetJupyterToken :: "('q, 'u) ai_env \<Rightarrow> jwt_message \<Rightarrow> nat option \<Rightarrow> ('q, 'u) ai_site \<Rightarrow> job_token result \<times> ('q, 'u) ai_site" where
  "GetJupyterToken e token uri st =
     (case uri of
        None \<Rightarrow> (Inl ''bad request'', st)
      | Some i \<Rightarrow> (case svc_GetByQueueAndID (ar_db e) (jm_accountName token) i (as_db st) of
          Inl x \<Rightarrow> (Inl (''get task failed, err '' @ x), st)
        | Inr t \<Rightarrow>
            if t_userName t \<noteq> jm_accountName token then (Inl ''Job not found'', st)
            else (case (if ce_job (te_cl (ar_ctl e)) (ar_ns e) (t_jobName t) = None then find_job (ar_ns e) (t_jobName t) (tc_cl (as_ctl st)) else None) of
                None \<Rightarrow> (Inl ''not found'', st)
              | Some job \<Rightarrow>
                  (let baseURL = map_value (aj_labels job) LabelKeyBaseURL;
                       answer = (\<lambda>jupyterToken. \<lparr>jt_baseURL = baseURL, jt_token = jupyterToken, jt_podName = ai_pod_name t, jt_namespace = ar_ns e,
                                  jt_fullURL = ''https://'' @ ar_host e @ ''/ingress/'' @ baseURL\<rparr>)
                   in case gm_get (aj_annotations job) ''jupyter.token'' of
                        Some v \<Rightarrow> (Inr (answer v), st)
                      | None \<Rightarrow> (case ar_logs e (ar_ns e) (ai_pod_name t) of
                          Inl x \<Rightarrow> (Inl x, st)
                        | Inr logs \<Rightarrow> (case match_token logs of
                            None \<Rightarrow> (Inl ''Jupyter token not found'', st)
                          | Some v \<Rightarrow>
                              (Inr (answer v),
                               if ar_jobUpdateErr e = None
                               then st\<lparr>as_ctl := (as_ctl st)\<lparr>tc_cl := annotate_ai_job (ar_ns e) (t_jobName t)
                                      (gm_put ''jupyter.token'' v (aj_annotations job)) (tc_cl (as_ctl st))\<rparr>\<rparr>
                               else st)))))))"

section \<open>The table and the controller's messages\<close>

lemma TaskUpdated_db [simp]: "tc_db (TaskUpdated env ev s) = tc_db s"
proof -
  have p: "tc_db (with_profiler (DeleteProfilePodFromTask env i) s) = tc_db s" for env i and s :: "('q, 'u) ctl"
    by (auto simp: with_profiler_def DeleteProfilePodFromTask_def Let_def split: option.split sum.split)
  show ?thesis by (auto simp: TaskUpdated_def Let_def p split: sum.split task_operation.split)
qed

lemma task_row_other: "k \<noteq> i \<Longrightarrow> (\<And>t. t_id (f t) = t_id t) \<Longrightarrow> task_row (tbl_updates (\<lambda>t. t_id t = i) f db) k = task_row db k"
  by (simp add: task_row_update)

definition keys_fresh :: "('q, 'u) ai_site \<Rightarrow> bool" where
  "keys_fresh st \<longleftrightarrow> db_ok (as_db st) \<and> (\<forall>t \<in> set (as_db st). t_id t \<le> as_seq st)"

lemma task_row_append: "\<forall>t \<in> set db. t_id t \<noteq> t_id r \<Longrightarrow> task_row (db @ [r]) = (task_row db)(t_id r \<mapsto> r)"
  unfolding task_row_def by (rule ext) (induction db, auto simp: tbl_first_Cons)

text \<open>A row by its account and its key.\<close>

lemma queue_and_id:
  assumes "db_ok db"
  shows "svc_GetByQueueAndID env u i db = Inr t \<longleftrightarrow> get_fault env i = None \<and> task_row db i = Some t \<and> t_userName t = u"
proof -
  have row: "task_row db i = Some t \<longleftrightarrow> t \<in> set db \<and> t_id t = i" for t
    using distinct_first [of t_id db t] assms by (auto simp: task_row_def db_ok_def dest: tbl_first_Some)
  let ?P = "\<lambda>t. t_userName t = u \<and> t_id t = i"
  have "tbl_first ?P db = Some t \<longleftrightarrow> task_row db i = Some t \<and> t_userName t = u"
  proof
    assume "tbl_first ?P db = Some t"
    then show "task_row db i = Some t \<and> t_userName t = u" using row by (auto dest: tbl_first_Some)
  next
    assume t: "task_row db i = Some t \<and> t_userName t = u"
    then obtain t1 where t1: "tbl_first ?P db = Some t1" using row by (cases "tbl_first ?P db") (auto simp: tbl_first_def find_None_iff)
    then have "task_row db i = Some t1" using row by (auto dest: tbl_first_Some)
    with t t1 show "tbl_first ?P db = Some t" by simp
  qed
  then show ?thesis by (auto simp: svc_GetByQueueAndID_def split: option.split)
qed

section \<open>Accepted submissions\<close>

text \<open>The row that a submission leaves, of either kind.\<close>

definition submitted_row :: "('q, 'u) ai_env \<Rightarrow> jwt_message \<Rightarrow> 'q task_attr \<Rightarrow> 'q job_pod \<Rightarrow> nat \<Rightarrow> ai_task" where
  "submitted_row e token attr spec i =
     (FormatTaskAttrToModel (ar_json e) attr)\<lparr>t_podTemplate := template_of (ar_json e) spec, t_owner := jm_username token,
        t_id := i, t_createdAt := ar_createdAt e\<rparr>"

inductive ai_submission ::
  "('q, 'u) ai_env \<Rightarrow> jwt_message \<Rightarrow> 'q task_attr \<Rightarrow> 'q job_pod \<Rightarrow> ('q, 'u) ai_site \<Rightarrow> nat \<Rightarrow> ('q, 'u) ai_site \<Rightarrow> bool"
  for e token where
  custom: "CreateCustom e token (Some req) st = (Inr i, st1) \<Longrightarrow>
    GenerateCustomPodSpec (te_Q (ar_ctl e)) (ar_pod e) token (qc_custom req) (as_store st) = Inr spec \<Longrightarrow>
    ai_submission e token (ai_custom_attr e token req) (ai_custom_pod e req spec) st i st1"
| jupyter: "ai_CreateJupyterJob e token (Some jreq) st = (Inr i, st1) \<Longrightarrow>
    GenerateVolumeMounts (pe_mounts (ar_pod e)) (cm_volumeMounts (jq_common jreq)) token (as_store st) = Inr (vs, ms) \<Longrightarrow>
    ai_submission e token (ai_jupyter_attr e token jreq) (ai_jupyter_pod e token jreq vs ms (dst_dir (as_store st))) st i st1"

lemma submit_task_Inr:
  assumes "submit_task e t st = (Inr i, st1)"
  shows "i = Suc (as_seq st) \<and> as_seq st1 = i \<and> as_store st1 = as_store st \<and>
    as_ctl st1 = TaskUpdated (ar_ctl e) \<lparr>tu_taskID = i, tu_userName = t_userName t, tu_operation = CreateTask\<rparr>
      ((as_ctl st)\<lparr>tc_db := as_db st @ [t\<lparr>t_id := i, t_createdAt := ar_createdAt e\<rparr>]\<rparr>)"
  using assms by (auto simp: submit_task_def svc_Create_def Let_def split: option.splits)

lemma submitted:
  assumes "ai_submission e token attr spec st i st1"
  shows "ta_userName attr = jm_accountName token \<and> i = Suc (as_seq st) \<and> as_seq st1 = i \<and> as_store st1 = as_store st \<and>
    as_ctl st1 = TaskUpdated (ar_ctl e) \<lparr>tu_taskID = i, tu_userName = jm_accountName token, tu_operation = CreateTask\<rparr>
      ((as_ctl st)\<lparr>tc_db := as_db st @ [submitted_row e token attr spec i]\<rparr>)"
  using assms
proof cases
  case (custom req spec')
  from custom(3,4) have "submit_task e ((FormatTaskAttrToModel (ar_json e) attr)
      \<lparr>t_podTemplate := template_of (ar_json e) spec, t_owner := jm_username token\<rparr>) st = (Inr i, st1)"
    by (simp add: CreateCustom_def custom(1,2))
  from submit_task_Inr [OF this] show ?thesis
    by (simp add: submitted_row_def FormatTaskAttrToModel_def custom(1) ai_custom_attr_def Let_def)
next
  case (jupyter jreq vs ms)
  from jupyter(3,4) have "submit_task e ((FormatTaskAttrToModel (ar_json e) attr)
      \<lparr>t_podTemplate := template_of (ar_json e) spec, t_owner := jm_username token\<rparr>) st = (Inr i, st1)"
    by (simp add: ai_CreateJupyterJob_def jupyter(1,2))
  from submit_task_Inr [OF this] show ?thesis
    by (simp add: submitted_row_def FormatTaskAttrToModel_def jupyter(1) ai_jupyter_attr_def)
qed

lemma submitted_row_fields [simp]:
  "t_id (submitted_row e token attr spec i) = i" "t_userName (submitted_row e token attr spec i) = ta_userName attr"
  "t_owner (submitted_row e token attr spec i) = jm_username token" "t_slo (submitted_row e token attr spec i) = ta_slo attr"
  "t_status (submitted_row e token attr spec i) = ''Queueing''" "t_isDeleted (submitted_row e token attr spec i) = False"
  "t_jobName (submitted_row e token attr spec i) = []" "t_taskType (submitted_row e token attr spec i) = ta_taskType attr"
  "t_profileStatus (submitted_row e token attr spec i) = 0"
  "t_resourceRequest (submitted_row e token attr spec i) = ar_json e (ta_resourceRequest attr)"
  "t_podTemplate (submitted_row e token attr spec i) = template_of (ar_json e) spec"
  by (simp_all add: submitted_row_def FormatTaskAttrToModel_def)

lemma submitted_parts:
  assumes s: "ai_submission e token attr spec st i st1" and fresh: "keys_fresh st" and get: "get_fault (ar_db e) i = None"
  shows "as_db st1 = as_db st @ [submitted_row e token attr spec i]" "task_row (as_db st) i = None"
    "task_row (as_db st1) = (task_row (as_db st))(i \<mapsto> submitted_row e token attr spec i)"
    "as_queue st1 = tq_AddTask (submitted_row e token attr spec i) (as_queue st)"
    "tc_quotas (as_ctl st1) = tc_quotas (as_ctl st)" "tc_cl (as_ctl st1) = tc_cl (as_ctl st)"
    "tc_profiler (as_ctl st1) = tc_profiler (as_ctl st)" "keys_fresh st1"
proof -
  let ?r = "submitted_row e token attr spec i"
  from submitted [OF s] have i: "i = Suc (as_seq st)" and seq: "as_seq st1 = i"
    and c: "as_ctl st1 = TaskUpdated (ar_ctl e) \<lparr>tu_taskID = i, tu_userName = jm_accountName token, tu_operation = CreateTask\<rparr>
      ((as_ctl st)\<lparr>tc_db := as_db st @ [?r]\<rparr>)" by auto
  show db: "as_db st1 = as_db st @ [?r]" by (simp add: c)
  from fresh i have new: "\<forall>t \<in> set (as_db st). t_id t \<noteq> i" by (auto simp: keys_fresh_def)
  show "task_row (as_db st) i = None" using new by (auto simp: task_row_def tbl_first_def find_None_iff)
  show row: "task_row (as_db st1) = (task_row (as_db st))(i \<mapsto> ?r)" using task_row_append [of "as_db st" ?r] new by (simp add: db)
  then have g: "svc_GetByID (ar_db e) (as_db st @ [?r]) i = Inr ?r" using get by (simp add: svc_GetByID_Inr db)
  show "as_queue st1 = tq_AddTask ?r (as_queue st)" "tc_quotas (as_ctl st1) = tc_quotas (as_ctl st)"
    "tc_cl (as_ctl st1) = tc_cl (as_ctl st)" "tc_profiler (as_ctl st1) = tc_profiler (as_ctl st)"
    by (simp_all add: c TaskUpdated_def g)
  show "keys_fresh st1" using fresh new by (auto simp: keys_fresh_def db seq db_ok_def i le_SucI)
qed

text \<open>The controller, which cannot read the row of a task back, leaves everything else as it is.\<close>

lemma submitted_unread:
  assumes "ai_submission e token attr spec st i st1" and "get_fault (ar_db e) i = Some x"
  shows "as_ctl st1 = (as_ctl st)\<lparr>tc_db := as_db st @ [submitted_row e token attr spec i]\<rparr>"
proof -
  obtain y where "svc_GetByID (ar_db e) (as_db st @ [submitted_row e token attr spec i]) i = Inl y"
    using assms(2) by (auto simp: svc_GetByID_def)
  with submitted [OF assms(1)] show ?thesis by (simp add: TaskUpdated_def)
qed

text \<open>Claim C20. A request to run a task, of either kind, that is answered with a number: the table has one more row, under that number, of the
  account and the user of the token, and neither the quotas nor the cluster change before the controller admits it.  The task waits in
  the queue of its account for its service level exactly when the account has a queue, the service level is zero or one and the
  controller can read the row back; otherwise it waits nowhere (C36 shows what becomes of it).  No other task moves.
\<close>

theorem submitted_task_waits:
  assumes "ai_submission e token attr spec st i st1" and "keys_fresh st" and "tq_inv (as_queue st)"
  shows "\<exists>row. as_db st1 = as_db st @ [row] \<and> task_row (as_db st) i = None \<and> t_id row = i \<and>
    t_userName row = jm_accountName token \<and> t_owner row = jm_username token \<and> t_status row = ''Queueing'' \<and> t_slo row = ta_slo attr \<and>
    (\<forall>u k. guaranteed (as_queue st1) u k =
       (if ta_slo attr = 1 \<and> get_fault (ar_db e) i = None \<and> gm_get (as_queue st) (jm_accountName token) \<noteq> None \<and>
           u = jm_accountName token \<and> k = fmt_uint i then Some row else guaranteed (as_queue st) u k)) \<and>
    (\<forall>u k. besteffort (as_queue st1) u k =
       (if ta_slo attr = 0 \<and> get_fault (ar_db e) i = None \<and> gm_get (as_queue st) (jm_accountName token) \<noteq> None \<and>
           u = jm_accountName token \<and> k = fmt_uint i then Some row else besteffort (as_queue st) u k)) \<and>
    tc_quotas (as_ctl st1) = tc_quotas (as_ctl st) \<and> tc_cl (as_ctl st1) = tc_cl (as_ctl st)"
proof -
  let ?r = "submitted_row e token attr spec i"
  from submitted [OF assms(1)] have u: "ta_userName attr = jm_accountName token" and i: "i = Suc (as_seq st)" by simp_all
  have new: "task_row (as_db st) i = None" using assms(2) i by (auto simp: keys_fresh_def task_row_def tbl_first_def find_None_iff)
  have row: "t_id ?r = i \<and> t_userName ?r = jm_accountName token \<and> t_owner ?r = jm_username token \<and> t_status ?r = ''Queueing'' \<and> t_slo ?r = ta_slo attr"
    by (simp add: u)
  show ?thesis
  proof (cases "get_fault (ar_db e) i")
    case (Some x)
    with submitted_unread [OF assms(1) Some] new row show ?thesis by (intro exI [of _ ?r]) simp
  next
    case get: None
    note p = submitted_parts [OF assms(1,2) get]
    show ?thesis
    proof (cases "gm_get (as_queue st) (jm_accountName token)")
      case None
      then have "as_queue st1 = as_queue st" by (simp add: p(4) tq_AddTask_def with_user_queue_def u)
      with p(1,5,6) new row None show ?thesis by (intro exI [of _ ?r]) simp
    next
      case q: (Some q)
      from tq_inv_uq [OF assms(3) q] have inv: "queue_of (jm_accountName token) EmiasHighSLO (uq_gauranteed q)"
        "queue_of (jm_accountName token) EmiasLowSLO (uq_bestEffort q)" by (simp_all add: uq_inv_def)
      have key: "keyFunc ?r = fmt_uint i" by (simp add: keyFunc_def)
      have "guaranteed (as_queue st1) v k =
          (if ta_slo attr = 1 \<and> v = jm_accountName token \<and> k = fmt_uint i then Some ?r else guaranteed (as_queue st) v k)" for v k
        using q look_put [OF inv(1), of ?r] by (auto simp: p(4) tq_AddTask_def guaranteed_def with_user_queue_get u key)
      moreover have "besteffort (as_queue st1) v k =
          (if ta_slo attr = 0 \<and> v = jm_accountName token \<and> k = fmt_uint i then Some ?r else besteffort (as_queue st) v k)" for v k
        using q look_put [OF inv(2), of ?r] by (auto simp: p(4) tq_AddTask_def besteffort_def with_user_queue_get u key)
      ultimately show ?thesis using p(1,5,6) new row get q by (intro exI [of _ ?r]) simp
    qed
  qed
qed

section \<open>Tasks that no queue holds\<close>

text \<open>A row whose key is in no queue: what the controller does to the others leaves it as it is.\<close>

definition avoids :: "nat \<Rightarrow> user_queue \<Rightarrow> bool" where
  "avoids i q \<longleftrightarrow> q_GetByKey (uq_gauranteed q) (fmt_uint i) = None \<and> q_GetByKey (uq_bestEffort q) (fmt_uint i) = None"

definition unqueued :: "nat \<Rightarrow> task_queue \<Rightarrow> bool" where
  "unqueued i tq \<longleftrightarrow> (\<forall>(u, q) \<in> set tq. uq_inv u q \<and> avoids i q)"

lemma gm_get_set: "gm_get m k = Some v \<Longrightarrow> (k, v) \<in> set m"
  by (induction m) (auto split: if_splits)

lemma gm_put_set: "set (gm_put k v m) \<subseteq> insert (k, v) (set m)"
  by (induction m) auto

lemma unqueued_with:
  assumes "unqueued i tq" and "\<And>q. uq_inv u q \<Longrightarrow> avoids i q \<Longrightarrow> uq_inv u (f q) \<and> avoids i (f q)"
  shows "unqueued i (with_user_queue u f tq)"
proof (cases "gm_get tq u")
  case None
  with assms(1) show ?thesis by (simp add: with_user_queue_def)
next
  case (Some q)
  from gm_get_set [OF this] assms(1) have "uq_inv u q \<and> avoids i q" by (auto simp: unqueued_def)
  then have "\<forall>(u, q) \<in> insert (u, f q) (set tq). uq_inv u q \<and> avoids i q" using assms by (auto simp: unqueued_def)
  then have "\<forall>(u, q) \<in> set (gm_put u (f q) tq). uq_inv u q \<and> avoids i q" using gm_put_set [of u "f q" tq] by blast
  with Some show ?thesis by (simp add: with_user_queue_def unqueued_def)
qed

lemma avoids_parts:
  "uq_inv u q \<Longrightarrow> avoids i q \<Longrightarrow> avoids i (q\<lparr>uq_gauranteed := snd (q_Delete t (uq_gauranteed q))\<rparr>)"
  "uq_inv u q \<Longrightarrow> avoids i q \<Longrightarrow> avoids i (q\<lparr>uq_bestEffort := snd (q_Delete t (uq_bestEffort q))\<rparr>)"
  "uq_inv u q \<Longrightarrow> avoids i q \<Longrightarrow> t_id t \<noteq> i \<Longrightarrow> avoids i (q\<lparr>uq_bestEffort := q_PushOrUpdate t (uq_bestEffort q)\<rparr>)"
  by (auto simp: avoids_def uq_inv_def look_Delete look_put keyFunc_def fmt_uint_inj)

lemma unqueued_Delete: "unqueued i tq \<Longrightarrow> unqueued i (tq_DeleteTask t tq)"
  unfolding tq_DeleteTask_def
  by (rule unqueued_with) (auto simp: avoids_parts uq_inv_def intro: queue_of_Delete)

text \<open>The members of a queue that avoids a key have other keys.\<close>

lemma avoids_elems:
  assumes "uq_inv u q" and "avoids i q"
  shows "\<forall>t \<in> set (queue_elems (uq_gauranteed q)). t_id t \<noteq> i" "\<forall>t \<in> set (queue_elems (uq_bestEffort q)). t_id t \<noteq> i"
proof -
  have "t_id t \<noteq> i" if "queue_of u s r" "q_GetByKey r (fmt_uint i) = None" "t \<in> set (queue_elems r)" for s r t
    using that gq.elems_look [OF queue_ofD [OF that(1)]] by (auto simp: keyFunc_def)
  with assms show "\<forall>t \<in> set (queue_elems (uq_gauranteed q)). t_id t \<noteq> i" "\<forall>t \<in> set (queue_elems (uq_bestEffort q)). t_id t \<noteq> i"
    by (auto simp: uq_inv_def avoids_def)
qed

lemma select_subset: "set (fst (select_within Q ts info)) \<subseteq> set ts"
proof (induction ts arbitrary: info)
  case (Cons t ts)
  from Cons [of info] Cons [of "qs_AddTask Q t info"] show ?case by (auto simp: Let_def split: prod.splits)
qed simp

lemma guaranteed_candidates_avoid:
  "guaranteed_candidates env uqs m = Inr cs \<Longrightarrow> \<forall>(u, q) \<in> set uqs. uq_inv u q \<and> avoids i q \<Longrightarrow> \<forall>t \<in> set cs. t_id t \<noteq> i"
proof (induction uqs arbitrary: cs)
  case (Cons p uqs)
  obtain u q where p: "p = (u, q)" by (cases p)
  with Cons.prems have uq: "uq_inv u q" "avoids i q" and rest: "\<forall>(u, q) \<in> set uqs. uq_inv u q \<and> avoids i q" by auto
  have inv: "queue_inv (uq_gauranteed q)" using uq(1) by (simp add: uq_inv_def queue_of_def)
  show ?case
  proof (cases "GetQuotaInfoSnapshotByUsername u m")
    case None
    with Cons.prems(1) have "guaranteed_candidates env uqs m = Inr cs" by (simp add: p)
    from Cons.IH [OF this rest] show ?thesis .
  next
    case (Some info)
    with Cons.prems(1) obtain cs1 where r: "guaranteed_candidates env uqs m = Inr cs1"
      "cs = fst (select_within (te_Q env) (queue_elems (uq_gauranteed q)) info) @ cs1"
      by (auto simp: p q_List_ok [OF inv] go_bind_def split: sum.splits)
    from Cons.IH [OF r(1) rest] select_subset [of "te_Q env" "queue_elems (uq_gauranteed q)" info] avoids_elems(1) [OF uq]
    show ?thesis by (auto simp: r(2))
  qed
qed simp

lemma submit_profile_row: "j \<noteq> i \<Longrightarrow> task_row (tc_db (with_profiler (SubmitProfileTask env j) s)) i = task_row (tc_db s) i"
proof -
  assume "j \<noteq> i"
  then have "task_row (snd (svc_UpdateProfilingStat (pe_db env) j p t u db)) i = task_row db i" for p t u db
    using task_row_other [of i j "profiling_update p t u" db] by (simp add: svc_UpdateProfilingStat_def split: option.split)
  then have "task_row (pw_db (SubmitProfileTask env j w)) i = task_row (pw_db w) i" for w
    by (auto simp: SubmitProfileTask_def set_profiling_def Let_def svc_GetByID_Inr dest: task_row_id split: sum.split option.split)
  then show ?thesis by (simp add: with_profiler_def Let_def split: option.split)
qed

lemma besteffort_tasks_avoid:
  "besteffort_tasks env u ts s = (cs, s1) \<Longrightarrow> \<forall>t \<in> set ts. t_id t \<noteq> i \<and> t_userName t = u \<and> t_slo t = EmiasLowSLO \<Longrightarrow>
   unqueued i (tc_taskQueue s) \<Longrightarrow>
   set cs \<subseteq> set ts \<and> unqueued i (tc_taskQueue s1) \<and> task_row (tc_db s1) i = task_row (tc_db s) i"
proof (induction ts arbitrary: s cs s1)
  case (Cons t ts)
  show ?case
  proof (cases "tc_profiler s \<noteq> None \<and> t_status t = EmiasTaskQueueingStatus \<and> t_profileStatus t = EmiasUnProfiled")
    case True
    let ?s1 = "with_profiler (SubmitProfileTask (te_prof env) (t_id t)) s"
    let ?s2 = "?s1\<lparr>tc_taskQueue := with_user_queue u
                 (\<lambda>q. q\<lparr>uq_bestEffort := q_PushOrUpdate (t\<lparr>t_profileStatus := EmiasProfileQueued\<rparr>) (uq_bestEffort q)\<rparr>)
                 (tc_taskQueue ?s1)\<rparr>"
    from True Cons.prems(1) have r: "besteffort_tasks env u ts ?s2 = (cs, s1)" by (simp add: Let_def)
    have "unqueued i (tc_taskQueue s)" by (rule Cons.prems(3))
    then have "unqueued i (tc_taskQueue ?s2)"
      using Cons.prems(2) by (auto simp: uq_inv_def intro!: unqueued_with queue_of_put avoids_parts(3))
    from Cons.IH [OF r _ this] Cons.prems(2) submit_profile_row [of "t_id t" i "te_prof env" s] show ?thesis by auto
  next
    case False
    then obtain cs' where "besteffort_tasks env u ts s = (cs', s1)" "cs = t # cs'"
      using Cons.prems(1) by (auto simp: Let_def split: prod.splits)
    with Cons.IH [OF this(1)] Cons.prems(2,3) show ?thesis by auto
  qed
qed simp

lemma besteffort_candidates_avoid:
  "besteffort_candidates env uqs s = Inr (cs, s1) \<Longrightarrow> \<forall>(u, q) \<in> set uqs. uq_inv u q \<and> avoids i q \<Longrightarrow> unqueued i (tc_taskQueue s) \<Longrightarrow>
   (\<forall>t \<in> set cs. t_id t \<noteq> i) \<and> unqueued i (tc_taskQueue s1) \<and> task_row (tc_db s1) i = task_row (tc_db s) i"
proof (induction uqs arbitrary: s cs s1)
  case (Cons p uqs)
  obtain u q where p: "p = (u, q)" by (cases p)
  with Cons.prems have uq: "uq_inv u q" "avoids i q" and rest: "\<forall>(u, q) \<in> set uqs. uq_inv u q \<and> avoids i q" by auto
  have inv: "queue_of u EmiasLowSLO (uq_bestEffort q)" using uq(1) by (simp add: uq_inv_def)
  obtain cs2 s2 where b: "besteffort_tasks env u (queue_elems (uq_bestEffort q)) s = (cs2, s2)" by fastforce
  have q: "queue_inv (uq_bestEffort q)" using inv by (simp add: queue_of_def)
  from Cons.prems(1) obtain cs3 where r: "besteffort_candidates env uqs s2 = Inr (cs3, s1)" "cs = cs2 @ cs3"
    by (auto simp: p b q_List_ok [OF q] go_bind_def split: sum.splits prod.splits)
  have "\<forall>t \<in> set (queue_elems (uq_bestEffort q)). t_id t \<noteq> i \<and> t_userName t = u \<and> t_slo t = EmiasLowSLO"
    using avoids_elems(2) [OF uq] queue_of_elems [OF inv] by blast
  from besteffort_tasks_avoid [OF b this Cons.prems(3)] avoids_elems(2) [OF uq] Cons.IH [OF r(1) rest] show ?case
    by (auto simp: r(2))
qed simp

lemma admit_row: "t_id t \<noteq> i \<Longrightarrow> task_row (tc_db (snd (admitTask env t s))) i = task_row (tc_db s) i"
proof -
  assume t: "t_id t \<noteq> i"
  then have st: "svc_UpdateStatus (te_db env) (t_id t) a b db = (f, db1) \<Longrightarrow> task_row db1 i = task_row db i" for a b db f db1
    using svc.other_rows_kept [of "te_db env" "t_id t" a b db f db1 i] by simp
  have jn: "svc_UpdateJobName (te_db env) (t_id t) a db = (f, db1) \<Longrightarrow> task_row db1 i = task_row db i" for a db f db1
    using t task_row_other [of i "t_id t" "\<lambda>t. t\<lparr>t_jobName := a\<rparr>" db] by (auto simp: svc_UpdateJobName_def split: option.splits)
  show ?thesis
    by (auto simp: admitTask_def Let_def split: option.split sum.split prod.split) (metis st jn)+
qed

lemma process_candidate_avoid:
  assumes "t_id c \<noteq> i" and "unqueued i (tc_taskQueue s)"
  shows "unqueued i (tc_taskQueue (process_candidate env c s)) \<and> task_row (tc_db (process_candidate env c s)) i = task_row (tc_db s) i"
proof (cases "svc_GetByID (te_db env) (tc_db s) (t_id c)")
  case (Inl x)
  with assms show ?thesis by (simp add: process_candidate_def)
next
  case (Inr t)
  then have "t_id t = t_id c" by (auto simp: svc_GetByID_Inr dest: task_row_id)
  with assms(1) have t: "t_id t \<noteq> i" by simp
  have "unqueued i (tc_taskQueue (snd (admitTask env t s)))"
    using admit_queue [of env t s] assms(2) unqueued_Delete [OF assms(2), of t] by auto
  with Inr assms(2) admit_row [OF t, of env s] unqueued_Delete show ?thesis by (simp add: process_candidate_def)
qed

lemma schedule_avoid:
  assumes "schedule env s = Inr s1" and "unqueued i (tc_taskQueue s)"
  shows "unqueued i (tc_taskQueue s1) \<and> task_row (tc_db s1) i = task_row (tc_db s) i"
proof -
  from assms(1) obtain cs1 cs2 s2 where r: "guaranteed_candidates env (tc_taskQueue s) (tc_quotas s) = Inr cs1"
    "besteffort_candidates env (tc_taskQueue s) s = Inr (cs2, s2)" "s1 = fold (process_candidate env) (sort_key t_createdAt (cs1 @ cs2)) s2"
    by (auto simp: schedule_def go_bind_def split: sum.splits)
  have q: "\<forall>(u, q) \<in> set (tc_taskQueue s). uq_inv u q \<and> avoids i q" using assms(2) by (simp add: unqueued_def)
  from guaranteed_candidates_avoid [OF r(1) q] besteffort_candidates_avoid [OF r(2) q assms(2)]
  have cs: "\<forall>c \<in> set (sort_key t_createdAt (cs1 @ cs2)). t_id c \<noteq> i" and s2: "unqueued i (tc_taskQueue s2)" "task_row (tc_db s2) i = task_row (tc_db s) i"
    by auto
  have "\<forall>c \<in> set cs. t_id c \<noteq> i \<Longrightarrow> unqueued i (tc_taskQueue s) \<Longrightarrow>
      unqueued i (tc_taskQueue (fold (process_candidate env) cs s)) \<and> task_row (tc_db (fold (process_candidate env) cs s)) i = task_row (tc_db s) i" for cs s
  proof (induction cs arbitrary: s)
    case (Cons c cs)
    from Cons.IH [of "process_candidate env c s"] process_candidate_avoid [of c i s env] Cons.prems show ?case by simp
  qed simp
  from this [OF cs s2(1)] s2(2) show ?thesis by (simp add: r(3))
qed

text \<open>Any number of scheduling rounds, each in an environment of its own.\<close>

inductive rounds :: "('q, 'u) ctl \<Rightarrow> ('q, 'u) ctl \<Rightarrow> bool" for s where
  none: "rounds s s"
| one: "rounds s s1 \<Longrightarrow> schedule env s1 = Inr s2 \<Longrightarrow> rounds s s2"

lemma rounds_avoid: "rounds s s1 \<Longrightarrow> unqueued i (tc_taskQueue s) \<Longrightarrow> unqueued i (tc_taskQueue s1) \<and> task_row (tc_db s1) i = task_row (tc_db s) i"
  by (induction rule: rounds.induct) (auto dest: schedule_avoid)

text \<open>Claim C36. A task is accepted although no queue takes it: the account has no queue in the controller, as every account that was created
  after the start, or the service level of the request is above one.  The request is answered with a number, the row says
  \<open>Queueing\<close>, and no number of scheduling rounds ever admits it.
\<close>

theorem accepted_task_starves:
  assumes "ai_submission e token attr spec st i st1" and "keys_fresh st" and "get_fault (ar_db e) i = None"
    and "unqueued i (as_queue st)" and "gm_get (as_queue st) (jm_accountName token) = None \<or> 1 < ta_slo attr"
    and "rounds (as_ctl st1) s2"
  shows "as_queue st1 = as_queue st \<and> (\<exists>row. task_row (tc_db s2) i = Some row \<and> t_status row = ''Queueing'' \<and> t_jobName row = [])"
proof -
  let ?r = "submitted_row e token attr spec i"
  note p = submitted_parts [OF assms(1-3)]
  have u: "ta_userName attr = jm_accountName token" using submitted [OF assms(1)] by simp
  have put: "gm_get m k = Some v \<Longrightarrow> gm_put k v m = m" for m :: task_queue and k v by (induction m) (auto split: if_splits)
  have same: "as_queue st1 = as_queue st"
    using assms(5) by (auto simp: p(4) tq_AddTask_def with_user_queue_def u put split: option.split)
  with rounds_avoid [OF assms(6), of i] assms(4) have "task_row (tc_db s2) i = task_row (as_db st1) i" by simp
  with same show ?thesis by (simp add: p(3))
qed

section \<open>Deletion\<close>

lemma task_row_queue_update:
  "(\<And>t. t_id (f t) = t_id t) \<Longrightarrow>
   task_row (tbl_updates (\<lambda>t. t_userName t = u \<and> t_id t = i) f db) =
     (task_row db)(i := map_option (\<lambda>t. if t_userName t = u then f t else t) (task_row db i))"
  unfolding task_row_def by (rule ext) (induction db, auto simp: tbl_first_Cons)

text \<open>
  The deletion of a task by any member of its account: the row stays and is marked, the task leaves both queues, what it was
  charged is given back, its job leaves the cluster, and no other row changes.
\<close>

theorem ai_delete_outcome:
  assumes "quantity_laws (te_Q (ar_ctl e)) val" and "keys_fresh st" and "tq_inv (as_queue st)"
    and "task_row (as_db st) i = Some t" and "t_userName t = jm_accountName token"
    and "get_fault (ar_db e) i = None" and "upd_fault (ar_db e) ''is_deleted'' i = None"
    and "gm_get (tc_quotas (as_ctl st)) (t_userName t) = Some info" and "quota_ok (te_Q (ar_ctl e)) val info"
    and "ce_job (te_cl (ar_ctl e)) (t_namespace t) (t_jobName t) = None"
  shows "\<exists>st1 info1. ai_Delete e token (Some i) st = (Inr (), st1) \<and>
    task_row (as_db st1) = (task_row (as_db st))(i \<mapsto> t\<lparr>t_isDeleted := True\<rparr>) \<and> convertJobPhase (t\<lparr>t_isDeleted := True\<rparr>) = ''Deleted'' \<and>
    guaranteed (as_queue st1) (t_userName t) (fmt_uint i) = None \<and> besteffort (as_queue st1) (t_userName t) (fmt_uint i) = None \<and>
    gm_get (tc_quotas (as_ctl st1)) = (gm_get (tc_quotas (as_ctl st)))(t_userName t \<mapsto> info1) \<and>
    gm_get (qi_usedTasks info1) = (gm_get (qi_usedTasks info))(fmt_uint i := None) \<and> quota_ok (te_Q (ar_ctl e)) val info1 \<and>
    find_job (t_namespace t) (t_jobName t) (tc_cl (as_ctl st1)) = None"
proof -
  let ?c = "TaskUpdated (ar_ctl e) \<lparr>tu_taskID = i, tu_userName = t_userName t, tu_operation = DeleteTask\<rparr> (as_ctl st)"
  let ?db = "tbl_updates (\<lambda>t. t_userName t = jm_accountName token \<and> t_id t = i) (\<lambda>t. t\<lparr>t_isDeleted := True\<rparr>) (as_db st)"
  have db: "db_ok (as_db st)" using assms(2) by (simp add: keys_fresh_def)
  have "svc_GetByQueueAndID (ar_db e) (jm_accountName token) i (as_db st) = Inr t" using assms(4-6) by (simp add: queue_and_id [OF db])
  then have del: "ai_Delete e token (Some i) st = (Inr (), st\<lparr>as_ctl := ?c\<lparr>tc_db := ?db\<rparr>\<rparr>)"
    using assms(5,7) by (simp add: ai_Delete_def svc_DeleteByQueueAndID_def Let_def)
  have row: "task_row ?db = (task_row (as_db st))(i \<mapsto> t\<lparr>t_isDeleted := True\<rparr>)" using assms(4,5) by (subst task_row_queue_update) auto
  from delete_event_effects [OF assms(1,3,4,6,8-10)] obtain info1 where
    "guaranteed (tc_taskQueue ?c) (t_userName t) (fmt_uint i) = None \<and> besteffort (tc_taskQueue ?c) (t_userName t) (fmt_uint i) = None \<and>
     gm_get (tc_quotas ?c) = (gm_get (tc_quotas (as_ctl st)))(t_userName t \<mapsto> info1) \<and> quota_ok (te_Q (ar_ctl e)) val info1 \<and>
     gm_get (qi_usedTasks info1) = (gm_get (qi_usedTasks info))(fmt_uint i := None) \<and> find_job (t_namespace t) (t_jobName t) (tc_cl ?c) = None"
    unfolding Let_def by blast
  with del row show ?thesis
    by (intro exI [of _ "st\<lparr>as_ctl := ?c\<lparr>tc_db := ?db\<rparr>\<rparr>"] exI [of _ info1]) (simp add: convertJobPhase_def)
qed

section \<open>Tasks of other accounts\<close>

text \<open>What a request of an account leaves alone.\<close>

definition own_change :: "string \<Rightarrow> ('q, 'u) ai_site \<Rightarrow> ('q, 'u) ai_site \<Rightarrow> bool" where
  "own_change acct st st1 \<longleftrightarrow>
     (\<forall>i t. task_row (as_db st) i = Some t \<and> t_userName t \<noteq> acct \<longrightarrow> task_row (as_db st1) i = Some t) \<and>
     (\<forall>u. u \<noteq> acct \<longrightarrow> gm_get (as_queue st1) u = gm_get (as_queue st) u) \<and>
     (\<forall>u x. u \<noteq> acct \<and> gm_get (tc_quotas (as_ctl st)) u = Some x \<longrightarrow> gm_get (tc_quotas (as_ctl st1)) u = Some x) \<and>
     (\<forall>n. n \<noteq> [] \<and> (\<forall>a \<in> set (as_db st). t_userName a = acct \<longrightarrow> t_jobName a \<noteq> n) \<longrightarrow>
        (\<forall>a \<in> set (as_db st1). t_userName a = acct \<longrightarrow> t_jobName a \<noteq> n) \<and>
        (\<forall>ns. find_job ns n (tc_cl (as_ctl st1)) = find_job ns n (tc_cl (as_ctl st)))) \<and>
     keys_fresh st1"

lemma keys_fresh_same:
  fixes st st1 :: "('q, 'u) ai_site"
  assumes "keys_fresh st" and "map t_id (as_db st1) = map t_id (as_db st)" and "as_seq st1 = as_seq st"
  shows "keys_fresh st1"
proof -
  have k: "keys_fresh x \<longleftrightarrow> distinct (map t_id (as_db x)) \<and> (\<forall>k \<in> set (map t_id (as_db x)). k \<le> as_seq x)" for x :: "('q, 'u) ai_site"
    by (simp add: keys_fresh_def db_ok_def)
  from assms(1) show ?thesis unfolding k assms(2,3) .
qed

lemma task_row_save:
  "task_row db i \<noteq> None \<Longrightarrow> t_id t = i \<Longrightarrow>
   task_row (tbl_updates (\<lambda>a. t_id a = i) (\<lambda>_. t) db) k = (if k = i then Some t else task_row db k)"
proof -
  assume i: "task_row db i \<noteq> None" "t_id t = i"
  have "k \<noteq> i \<Longrightarrow> tbl_first (\<lambda>a. t_id a = k) (tbl_updates (\<lambda>a. t_id a = i) (\<lambda>_. t) xs) = tbl_first (\<lambda>a. t_id a = k) xs" for xs
    using i(2) by (induction xs) (auto simp: tbl_first_Cons)
  moreover have "\<exists>a \<in> set xs. t_id a = i \<Longrightarrow> tbl_first (\<lambda>a. t_id a = i) (tbl_updates (\<lambda>a. t_id a = i) (\<lambda>_. t) xs) = Some t" for xs
    using i(2) by (induction xs) (auto simp: tbl_first_Cons)
  moreover have "\<exists>a \<in> set db. t_id a = i" using i(1) by (auto dest: task_row_in task_row_id)
  ultimately show ?thesis by (simp add: task_row_def)
qed

lemma own_change_refl: "keys_fresh st \<Longrightarrow> own_change acct st st"
  by (simp add: own_change_def)

lemma own_change_trans: "own_change acct a b \<Longrightarrow> own_change acct b c \<Longrightarrow> own_change acct a c"
proof -
  assume ab: "own_change acct a b" and bc: "own_change acct b c"
  show "own_change acct a c" unfolding own_change_def
  proof (intro conjI)
    show "\<forall>i t. task_row (as_db a) i = Some t \<and> t_userName t \<noteq> acct \<longrightarrow> task_row (as_db c) i = Some t"
      using ab bc unfolding own_change_def by (elim conjE) simp
    show "\<forall>u. u \<noteq> acct \<longrightarrow> gm_get (as_queue c) u = gm_get (as_queue a) u"
      using ab bc unfolding own_change_def by (elim conjE) simp
    show "\<forall>u x. u \<noteq> acct \<and> gm_get (tc_quotas (as_ctl a)) u = Some x \<longrightarrow> gm_get (tc_quotas (as_ctl c)) u = Some x"
      using ab bc unfolding own_change_def by (elim conjE) simp
    show "\<forall>n. n \<noteq> [] \<and> (\<forall>x \<in> set (as_db a). t_userName x = acct \<longrightarrow> t_jobName x \<noteq> n) \<longrightarrow>
        (\<forall>x \<in> set (as_db c). t_userName x = acct \<longrightarrow> t_jobName x \<noteq> n) \<and>
        (\<forall>ns. find_job ns n (tc_cl (as_ctl c)) = find_job ns n (tc_cl (as_ctl a)))"
      using ab bc unfolding own_change_def by (elim conjE) simp
    show "keys_fresh c" using bc by (simp add: own_change_def)
  qed
qed

lemma find_job_filter:
  "n \<noteq> m \<Longrightarrow> find_job ns n (cl\<lparr>cl_jobs := filter (\<lambda>j. \<not> (aj_namespace j = k \<and> aj_name j = m)) (cl_jobs cl)\<rparr>) = find_job ns n cl"
proof -
  assume "n \<noteq> m"
  then have "find (\<lambda>j. aj_namespace j = ns \<and> aj_name j = n) (filter (\<lambda>j. \<not> (aj_namespace j = k \<and> aj_name j = m)) js) =
      find (\<lambda>j. aj_namespace j = ns \<and> aj_name j = n) js" for js by (induction js) auto
  then show ?thesis by (simp add: find_job_def)
qed

lemma delete_other_job: "n \<noteq> t_jobName t \<Longrightarrow> find_job ns n (snd (DeleteJobFromTask env t cl)) = find_job ns n cl"
  by (auto simp: DeleteJobFromTask_def k8s_delete_job_def find_job_filter [simplified] split: option.split)

lemma annotate_other_job: "n \<noteq> m \<Longrightarrow> find_job ns n (annotate_ai_job k m a cl) = find_job ns n cl"
proof -
  assume "n \<noteq> m"
  then have "find (\<lambda>j. aj_namespace j = ns \<and> aj_name j = n)
      (map (\<lambda>j. if aj_namespace j = k \<and> aj_name j = m then j\<lparr>aj_annotations := a\<rparr> else j) js) =
      find (\<lambda>j. aj_namespace j = ns \<and> aj_name j = n) js" for js by (induction js) auto
  then show ?thesis by (simp add: find_job_def annotate_ai_job_def)
qed

lemma refund_other: "u \<noteq> t_userName t \<Longrightarrow> gm_get (tc_quotas s) u = Some x \<Longrightarrow> gm_get (tc_quotas (refund_task env t s)) u = Some x"
  by (cases "GetQuotaInfo (te_quota env) (tc_db s) (t_userName t) (tc_quotas s)")
    (auto simp: refund_task_def dest: GetQuotaInfo_cached split: option.split)

lemma TaskUpdated_own:
  assumes "\<And>t. task_row (tc_db s) (tu_taskID ev) = Some t \<Longrightarrow> t_userName t = acct" and "tu_userName ev = acct \<or> tu_operation ev \<noteq> DeleteTask"
  shows "(u \<noteq> acct \<longrightarrow> gm_get (tc_taskQueue (TaskUpdated env ev s)) u = gm_get (tc_taskQueue s) u) \<and>
    (u \<noteq> acct \<and> gm_get (tc_quotas s) u = Some x \<longrightarrow> gm_get (tc_quotas (TaskUpdated env ev s)) u = Some x) \<and>
    ((\<forall>t. task_row (tc_db s) (tu_taskID ev) = Some t \<longrightarrow> t_jobName t \<noteq> n) \<longrightarrow> find_job ns n (tc_cl (TaskUpdated env ev s)) = find_job ns n (tc_cl s))"
proof (cases "svc_GetByID (te_db env) (tc_db s) (tu_taskID ev)")
  case (Inl x)
  then show ?thesis by (simp add: TaskUpdated_def)
next
  case (Inr t)
  then have row: "task_row (tc_db s) (tu_taskID ev) = Some t" by (simp add: svc_GetByID_Inr)
  with assms(1) have own: "t_userName t = acct" by blast
  have prof: "find_job ns n (tc_cl (with_profiler (DeleteProfilePodFromTask env1 i) s1)) = find_job ns n (tc_cl s1)"
    for env1 i and s1 :: "('a, 'b) ctl" by (rule with_profiler_delete_jobs)
  show ?thesis
  proof (cases "tu_operation ev")
    case DeleteTask
    with assms(2) have ev: "tu_userName ev = acct" by simp
    show ?thesis using DeleteTask Inr row own ev
      by (simp add: TaskUpdated_def Let_def prof delete_other_job refund_other tq_DeleteTaskByUserNameAndTaskID_def with_user_queue_get)
  qed (use Inr own in \<open>simp_all add: TaskUpdated_def tq_AddTask_def tq_UpdateTask_def with_user_queue_get\<close>)
qed

lemma submit_own:
  assumes fresh: "keys_fresh st" and own: "t_userName t = acct" and job: "t_jobName t = []"
  shows "own_change acct st (snd (submit_task e t st))"
proof (cases "ar_createErr e")
  case (Some x)
  with fresh show ?thesis by (simp add: submit_task_def svc_Create_def Let_def own_change_refl)
next
  case None
  let ?i = "Suc (as_seq st)" let ?r = "t\<lparr>t_id := ?i, t_createdAt := ar_createdAt e\<rparr>"
  let ?s = "(as_ctl st)\<lparr>tc_db := as_db st @ [?r]\<rparr>" let ?ev = "\<lparr>tu_taskID = ?i, tu_userName = acct, tu_operation = CreateTask\<rparr>"
  let ?st = "snd (submit_task e t st)"
  have c: "as_ctl ?st = TaskUpdated (ar_ctl e) ?ev ?s" "as_seq ?st = ?i" using None own by (simp_all add: submit_task_def svc_Create_def Let_def)
  have new: "\<forall>a \<in> set (as_db st). t_id a \<noteq> ?i" using fresh by (auto simp: keys_fresh_def)
  then have row: "task_row (tc_db ?s) = (task_row (as_db st))(?i \<mapsto> ?r)" using task_row_append [of "as_db st" ?r] by simp
  then have o: "task_row (tc_db ?s) (tu_taskID ?ev) = Some a \<Longrightarrow> t_userName a = acct" for a using own by auto
  have cl: "tc_cl (TaskUpdated (ar_ctl e) ?ev ?s) = tc_cl (as_ctl st)" by (simp add: TaskUpdated_def split: sum.split)
  have old: "task_row (as_db st) i = Some a \<Longrightarrow> i \<noteq> ?i" for i a using new by (auto dest: task_row_id task_row_in)
  have "keys_fresh ?st" using fresh new by (auto simp: keys_fresh_def c db_ok_def le_SucI)
  with row old TaskUpdated_own [of ?s ?ev acct _ "ar_ctl e", OF o] job show ?thesis
    by (auto simp: own_change_def c cl)
qed

lemma delete_own:
  assumes fresh: "keys_fresh st" shows "own_change (jm_accountName token) st (snd (ai_Delete e token uri st))"
proof (cases "\<exists>i t. uri = Some i \<and> svc_GetByQueueAndID (ar_db e) (jm_accountName token) i (as_db st) = Inr t")
  case False
  then show ?thesis using fresh by (auto simp: ai_Delete_def own_change_refl split: option.split sum.split)
next
  case True
  then obtain i t where it: "uri = Some i" "svc_GetByQueueAndID (ar_db e) (jm_accountName token) i (as_db st) = Inr t" by blast
  let ?u = "jm_accountName token" let ?ev = "\<lparr>tu_taskID = i, tu_userName = ?u, tu_operation = DeleteTask\<rparr>"
  let ?c = "TaskUpdated (ar_ctl e) ?ev (as_ctl st)"
  let ?db = "tbl_updates (\<lambda>t. t_userName t = ?u \<and> t_id t = i) (\<lambda>t. t\<lparr>t_isDeleted := True\<rparr>) (as_db st)"
  from it(2) fresh have t: "task_row (as_db st) i = Some t" "t_userName t = ?u" by (simp_all add: queue_and_id keys_fresh_def)
  then have tin: "t \<in> set (as_db st)" by (auto dest: task_row_in)
  have o: "task_row (tc_db (as_ctl st)) (tu_taskID ?ev) = Some a \<Longrightarrow> t_userName a = ?u" for a using t by simp
  note c = TaskUpdated_own [of "as_ctl st" ?ev ?u _ "ar_ctl e", OF o]
  obtain db where st1: "snd (ai_Delete e token uri st) = st\<lparr>as_ctl := ?c\<lparr>tc_db := db\<rparr>\<rparr>" and db: "db = as_db st \<or> db = ?db"
  proof (cases "upd_fault (ar_db e) ''is_deleted'' i")
    case None
    with it show thesis by (intro that [of ?db]) (simp_all add: ai_Delete_def svc_DeleteByQueueAndID_def Let_def)
  next
    case (Some x)
    with it show thesis by (intro that [of "as_db st"]) (simp_all add: ai_Delete_def svc_DeleteByQueueAndID_def Let_def)
  qed
  have row: "task_row db k = Some a" if "task_row (as_db st) k = Some a" "t_userName a \<noteq> ?u" for k a
    using db that by (auto simp: task_row_queue_update)
  have ids: "map t_id db = map t_id (as_db st)" using db by (auto simp: tbl_updates_ids)
  have "keys_fresh (st\<lparr>as_ctl := ?c\<lparr>tc_db := db\<rparr>\<rparr>)" by (rule keys_fresh_same [OF fresh]) (simp_all add: ids)
  moreover have names: "\<forall>a \<in> set db. t_userName a = ?u \<longrightarrow> t_jobName a \<noteq> n"
    if "\<forall>a \<in> set (as_db st). t_userName a = ?u \<longrightarrow> t_jobName a \<noteq> n" for n
    using db that by (fastforce simp: tbl_updates_def)
  ultimately show ?thesis using row c t tin unfolding own_change_def st1 by simp
qed

lemma slo_own:
  assumes fresh: "keys_fresh st" shows "own_change (jm_accountName token) st (snd (UpdateSLO e token body st))"
proof (cases "\<exists>i n t. body = Some (i, n) \<and> svc_GetByQueueAndID (ar_db e) (jm_accountName token) i (as_db st) = Inr t \<and> ar_updateErr e = None")
  case False
  then show ?thesis using fresh
    by (auto simp: UpdateSLO_def svc_Update_def own_change_refl split: option.split sum.split)
next
  case True
  then obtain i n t where it: "body = Some (i, n)" "svc_GetByQueueAndID (ar_db e) (jm_accountName token) i (as_db st) = Inr t" "ar_updateErr e = None"
    by blast
  let ?u = "jm_accountName token" let ?ev = "\<lparr>tu_taskID = i, tu_userName = jm_username token, tu_operation = UpdateTask\<rparr>"
  let ?db = "tbl_updates (\<lambda>a. t_id a = i) (\<lambda>_. t\<lparr>t_slo := n\<rparr>) (as_db st)" let ?s = "(as_ctl st)\<lparr>tc_db := ?db\<rparr>"
  from it(2) fresh have t: "task_row (as_db st) i = Some t" "t_userName t = ?u" by (simp_all add: queue_and_id keys_fresh_def)
  then have tin: "t \<in> set (as_db st)" "t_id t = i" by (auto dest: task_row_in task_row_id)
  have st1: "snd (UpdateSLO e token body st) = st\<lparr>as_ctl := TaskUpdated (ar_ctl e) ?ev ?s\<rparr>"
    using it t(1) tin(2) by (simp add: UpdateSLO_def svc_Update_def task_row_def)
  have ids: "map t_id ?db = map t_id (as_db st)" using tin(2) by (simp add: tbl_updates_def)
  have row: "task_row ?db k = (if k = i then Some (t\<lparr>t_slo := n\<rparr>) else task_row (as_db st) k)" for k
    using task_row_save [of "as_db st" i "t\<lparr>t_slo := n\<rparr>" k] t tin(2) by simp
  have o: "task_row (tc_db ?s) (tu_taskID ?ev) = Some a \<Longrightarrow> t_userName a = ?u" for a using t row by auto
  have cl: "tc_cl (TaskUpdated (ar_ctl e) ?ev ?s) = tc_cl (as_ctl st)" by (simp add: TaskUpdated_def split: sum.split)
  have "keys_fresh (st\<lparr>as_ctl := TaskUpdated (ar_ctl e) ?ev ?s\<rparr>)" by (rule keys_fresh_same [OF fresh]) (simp_all add: ids)
  moreover have "\<forall>a \<in> set ?db. t_userName a = ?u \<longrightarrow> t_jobName a \<noteq> m"
    if "\<forall>a \<in> set (as_db st). t_userName a = ?u \<longrightarrow> t_jobName a \<noteq> m" for m
    using that t tin by (auto simp: tbl_updates_def)
  ultimately show ?thesis using row t TaskUpdated_own [of ?s ?ev ?u _ "ar_ctl e", OF o] unfolding own_change_def st1 by (auto simp: cl)
qed

lemma token_own:
  assumes fresh: "keys_fresh st" shows "own_change (jm_accountName token) st (snd (GetJupyterToken e token uri st))"
proof -
  let ?u = "jm_accountName token"
  obtain n m where r: "snd (GetJupyterToken e token uri st) = st \<or>
      (\<exists>t \<in> set (as_db st). t_userName t = ?u \<and>
        snd (GetJupyterToken e token uri st) = st\<lparr>as_ctl := (as_ctl st)\<lparr>tc_cl := annotate_ai_job n (t_jobName t) m (tc_cl (as_ctl st))\<rparr>\<rparr>)"
  proof -
    have "svc_GetByQueueAndID (ar_db e) ?u i (as_db st) = Inr t \<Longrightarrow> t \<in> set (as_db st) \<and> t_userName t = ?u" for i t
      using fresh by (auto simp: queue_and_id keys_fresh_def dest: task_row_in)
    then have "\<exists>n m. snd (GetJupyterToken e token uri st) = st \<or>
      (\<exists>t \<in> set (as_db st). t_userName t = ?u \<and>
        snd (GetJupyterToken e token uri st) = st\<lparr>as_ctl := (as_ctl st)\<lparr>tc_cl := annotate_ai_job n (t_jobName t) m (tc_cl (as_ctl st))\<rparr>\<rparr>)"
      by (cases uri) (fastforce simp: GetJupyterToken_def Let_def split: option.split sum.split)+
    then show thesis using that by blast
  qed
  have k: "keys_fresh (st\<lparr>as_ctl := (as_ctl st)\<lparr>tc_cl := x\<rparr>\<rparr>)" for x using fresh by (simp add: keys_fresh_def)
  from r show ?thesis
  proof
    assume "snd (GetJupyterToken e token uri st) = st"
    with fresh show ?thesis by (simp add: own_change_refl)
  next
    assume "\<exists>t \<in> set (as_db st). t_userName t = ?u \<and>
        snd (GetJupyterToken e token uri st) = st\<lparr>as_ctl := (as_ctl st)\<lparr>tc_cl := annotate_ai_job n (t_jobName t) m (tc_cl (as_ctl st))\<rparr>\<rparr>"
    then obtain t where t: "t \<in> set (as_db st)" "t_userName t = ?u"
      "snd (GetJupyterToken e token uri st) = st\<lparr>as_ctl := (as_ctl st)\<lparr>tc_cl := annotate_ai_job n (t_jobName t) m (tc_cl (as_ctl st))\<rparr>\<rparr>" by blast
    then show ?thesis using k by (auto simp: own_change_def annotate_other_job)
  qed
qed

text \<open>A request of some account: the token may be of any of its members.\<close>

inductive ai_step :: "string \<Rightarrow> ('q, 'u) ai_site \<Rightarrow> ('q, 'u) ai_site \<Rightarrow> bool" for acct st where
  s_custom: "jm_accountName token = acct \<Longrightarrow> ai_step acct st (snd (CreateCustom e token creq st))"
| s_jupyter: "jm_accountName token = acct \<Longrightarrow> ai_step acct st (snd (ai_CreateJupyterJob e token jreq st))"
| s_delete: "jm_accountName token = acct \<Longrightarrow> ai_step acct st (snd (ai_Delete e token uri st))"
| s_slo: "jm_accountName token = acct \<Longrightarrow> ai_step acct st (snd (UpdateSLO e token body st))"
| s_token: "jm_accountName token = acct \<Longrightarrow> ai_step acct st (snd (GetJupyterToken e token uri st))"

lemma ai_step_own: "ai_step acct st st1 \<Longrightarrow> keys_fresh st \<Longrightarrow> own_change acct st st1"
proof (induction rule: ai_step.induct)
  case (s_custom token e creq)
  show ?case
  proof (cases "\<exists>req spec. creq = Some req \<and> GenerateCustomPodSpec (te_Q (ar_ctl e)) (ar_pod e) token (qc_custom req) (as_store st) = Inr spec")
    case True
    then obtain req spec where r: "creq = Some req"
      "GenerateCustomPodSpec (te_Q (ar_ctl e)) (ar_pod e) token (qc_custom req) (as_store st) = Inr spec" by blast
    show ?thesis unfolding CreateCustom_def r(1) option.case r(2) sum.case
      by (rule submit_own) (use s_custom in \<open>simp_all add: FormatTaskAttrToModel_def ai_custom_attr_def Let_def\<close>)
  qed (use s_custom in \<open>auto simp: CreateCustom_def own_change_refl split: option.split sum.split\<close>)
next
  case (s_jupyter token e jreq)
  show ?case
  proof (cases "\<exists>req vs ms. jreq = Some req \<and> GenerateVolumeMounts (pe_mounts (ar_pod e)) (cm_volumeMounts (jq_common req)) token (as_store st) = Inr (vs, ms)")
    case True
    then obtain req vs ms where r: "jreq = Some req"
      "GenerateVolumeMounts (pe_mounts (ar_pod e)) (cm_volumeMounts (jq_common req)) token (as_store st) = Inr (vs, ms)" by blast
    show ?thesis unfolding ai_CreateJupyterJob_def r(1) option.case r(2) sum.case prod.case
      by (rule submit_own) (use s_jupyter in \<open>simp_all add: FormatTaskAttrToModel_def ai_jupyter_attr_def\<close>)
  qed (use s_jupyter in \<open>auto simp: ai_CreateJupyterJob_def own_change_refl split: option.split sum.split\<close>)
qed (use delete_own slo_own token_own in blast)+

text \<open>Claim C38. Whatever the members of an account request, in whatever order and whatever fails, the tasks of the other accounts keep their
  rows, their queues and the quotas that are known of them; and a job in the cluster that belongs to none of the account's tasks stays
  as it is.
\<close>

theorem foreign_tasks_kept:
  assumes "(ai_step acct)\<^sup>*\<^sup>* st st1" and "keys_fresh st" and "task_row (as_db st) i = Some t" and "t_userName t \<noteq> acct"
  shows "task_row (as_db st1) i = Some t \<and> (\<forall>u. u \<noteq> acct \<longrightarrow> gm_get (as_queue st1) u = gm_get (as_queue st) u) \<and>
    (\<forall>u x. u \<noteq> acct \<and> gm_get (tc_quotas (as_ctl st)) u = Some x \<longrightarrow> gm_get (tc_quotas (as_ctl st1)) u = Some x) \<and>
    (\<forall>ns n. n \<noteq> [] \<and> (\<forall>a \<in> set (as_db st). t_userName a = acct \<longrightarrow> t_jobName a \<noteq> n) \<longrightarrow>
       find_job ns n (tc_cl (as_ctl st1)) = find_job ns n (tc_cl (as_ctl st)))"
proof -
  from assms(1,2) have "own_change acct st st1"
  proof (induction rule: rtranclp_induct)
    case (step a b)
    from step.IH [OF step.prems] have a: "own_change acct st a" .
    then have "keys_fresh a" by (simp add: own_change_def)
    from own_change_trans [OF a ai_step_own [OF step.hyps(2) this]] show ?case .
  qed (rule own_change_refl)
  with assms(3,4) show ?thesis unfolding own_change_def by (elim conjE) blast
qed

section \<open>What is charged\<close>

text \<open>What the code relies on in the JSON form of resources: they are read back with the amounts they were written with.\<close>

definition json_reads :: "('q, 'm) quantity_ops_scheme \<Rightarrow> ('q \<Rightarrow> int) \<Rightarrow> ('q resource_list option \<Rightarrow> string) \<Rightarrow> 'q resource_list option \<Rightarrow> bool" where
  "json_reads Q val json r \<longleftrightarrow> (\<forall>n. amount val (request_list Q (json r)) n = amount val (or_empty r) n)"

lemma submitted_template:
  assumes "ai_submission e token attr spec st i st1"
  shows "ps_requests (template_of (ar_json e) spec) = [ar_json e (Some (or_empty (ta_resourceRequest attr)))]"
  using assms
proof cases
  case (custom req spec0)
  then show ?thesis
    by (auto simp: GenerateCustomPodSpec_def template_of_def ai_custom_pod_def ai_custom_attr_def Let_def split: sum.splits)
next
  case (jupyter jreq vs ms)
  then show ?thesis by (simp add: template_of_def ai_jupyter_pod_def ai_jupyter_attr_def Let_def)
qed

lemma find_new_job: "find_job ns n cl = None \<Longrightarrow> aj_namespace job = ns \<Longrightarrow> aj_name job = n \<Longrightarrow>
    find_job ns n (cl\<lparr>cl_jobs := cl_jobs cl @ [job]\<rparr>) = Some job"
proof -
  assume "find_job ns n cl = None" "aj_namespace job = ns" "aj_name job = n"
  moreover have "find P js = None \<Longrightarrow> P job \<Longrightarrow> find P (js @ [job]) = Some job" for P and js :: "ai_job list"
    by (induction js) (auto split: if_splits)
  ultimately show ?thesis by (simp add: find_job_def)
qed

lemma created_job:
  assumes "CreateJobFromTask env t cl = (Inr n, cl1)"
  shows "\<exists>job. find_job (t_namespace t) n cl1 = Some job \<and> aj_resourceRequest job = hd (ps_requests (t_podTemplate t)) \<and>
    find_job (t_namespace t) n cl = None \<and> n = job_name_of t"
proof -
  have "k8s_create_job env job cl = (None, cl1) \<Longrightarrow> find_job (aj_namespace job) (aj_name job) cl1 = Some job \<and>
      find_job (aj_namespace job) (aj_name job) cl = None" for job cl1
    using find_new_job [of "aj_namespace job" "aj_name job" cl job] by (auto simp: k8s_create_job_def split: option.splits if_splits)
  note new = this
  have ing: "find_job a b (c\<lparr>cl_ingresses := x\<rparr>) = find_job a b c" for a b c x by (simp add: find_job_def)
  have s: "ps_requests (with_scheduler spec) = ps_requests spec" for spec by (simp add: with_scheduler_def)
  show ?thesis
    using assms new [of "build_job t (with_scheduler ((t_podTemplate t)\<lparr>ps_priorityClass := _\<rparr>))"]
    by (auto simp: CreateJobFromTask_def createTrainingJobFromTask_def createJupyterJobFromTask_def Let_def build_job_def s ing
        split: if_splits prod.splits option.splits)
qed

text \<open>Claim C19. What an account is charged for a task is what its job asks the cluster for: when the job of a submitted row is created, of
  either kind, it requests the resources of the submission, and so does the text that the controller counts against the quota.
\<close>

theorem charged_is_requested:
  assumes "ai_submission e token attr spec st i st1"
    and "json_reads (te_Q (ar_ctl e)) val (ar_json e) (ta_resourceRequest attr)"
    and "json_reads (te_Q (ar_ctl e)) val (ar_json e) (Some (or_empty (ta_resourceRequest attr)))"
    and "CreateJobFromTask env (submitted_row e token attr spec i) cl = (Inr n, cl1)"
  shows "\<exists>job. find_job (ta_namespace attr) n cl1 = Some job \<and>
    (\<forall>k. amount val (request_list (te_Q (ar_ctl e)) (aj_resourceRequest job)) k = amount val (or_empty (ta_resourceRequest attr)) k \<and>
       amount val (request_list (te_Q (ar_ctl e)) (t_resourceRequest (submitted_row e token attr spec i))) k =
         amount val (or_empty (ta_resourceRequest attr)) k)"
proof -
  let ?r = "submitted_row e token attr spec i"
  have ns: "t_namespace ?r = ta_namespace attr" by (simp add: submitted_row_def FormatTaskAttrToModel_def)
  from created_job [OF assms(4)] submitted_template [OF assms(1)] ns obtain job where
    "find_job (ta_namespace attr) n cl1 = Some job" "aj_resourceRequest job = ar_json e (Some (or_empty (ta_resourceRequest attr)))" by auto
  moreover have "or_empty (Some r) = r" for r :: "'a resource_list" by (simp add: or_empty_def)
  ultimately show ?thesis using assms(2,3) by (simp add: json_reads_def)
qed

section \<open>Examples\<close>

definition sample_ai_env :: "(int, unit) ai_env" where
  "sample_ai_env =
     \<lparr>ar_ctl = sample_ctl_env, ar_pod = su_pod sample_submit,
      ar_json = (\<lambda>r. replicate (nat (amount (\<lambda>x. x) (or_empty r) ''cpu'')) CHR ''x''), ar_duration = (\<lambda>_. []), ar_createErr = None,
      ar_updateErr = None, ar_createdAt = 5, ar_now = 9, ar_updatedAt = (\<lambda>_. 0), ar_ns = ''n'', ar_host = ''h'', ar_userErr = (\<lambda>_. None),
      ar_pods = (\<lambda>_ _. Inl ''not found''), ar_logs = (\<lambda>_ _. Inl ''no logs''), ar_events = (\<lambda>_ _. Inr []), ar_jobUpdateErr = None\<rparr>"

definition sample_ai_site :: "(int, unit) ai_site" where
  "sample_ai_site = \<lparr>as_ctl = sample_ctl, as_store = sample_datasets, as_seq = 7\<rparr>"

definition ai_message :: "string \<Rightarrow> jwt_message" where
  "ai_message acct = (sample_message RoleUser)\<lparr>jm_accountName := acct\<rparr>"

definition sample_ai_custom :: "nat \<Rightarrow> int ai_custom_req" where
  "sample_ai_custom slo = \<lparr>qc_custom = sample_custom, qc_slo = slo\<rparr>"

lemma sample_ai_fields [simp]:
  "ar_ctl sample_ai_env = sample_ctl_env" "ar_createErr sample_ai_env = None" "ar_updateErr sample_ai_env = None"
  "as_ctl sample_ai_site = sample_ctl" "as_seq sample_ai_site = 7" "as_store sample_ai_site = sample_datasets"
  "jm_accountName (ai_message acct) = acct" "qc_slo (sample_ai_custom n) = n" "qc_custom (sample_ai_custom n) = sample_custom"
  by (simp_all add: sample_ai_env_def sample_ai_site_def ai_message_def sample_ai_custom_def)

lemma sample_ai_fresh: "keys_fresh sample_ai_site"
  by (simp add: keys_fresh_def db_ok_def sample_ctl_def sample_task_fields)

lemma sample_ai_submission:
  "\<exists>spec st1. CreateCustom sample_ai_env (ai_message acct) (Some (sample_ai_custom slo)) sample_ai_site = (Inr 8, st1) \<and>
     ai_submission sample_ai_env (ai_message acct) (ai_custom_attr sample_ai_env (ai_message acct) (sample_ai_custom slo)) spec sample_ai_site 8 st1"
proof -
  obtain spec where g: "GenerateCustomPodSpec int_quantity (ar_pod sample_ai_env) (ai_message acct) sample_custom sample_datasets = Inr spec"
    by (auto simp: GenerateCustomPodSpec_def GenerateVolumeMounts_def sample_custom_def sample_common_def)
  then have "\<exists>st1. CreateCustom sample_ai_env (ai_message acct) (Some (sample_ai_custom slo)) sample_ai_site = (Inr 8, st1)"
    by (simp add: CreateCustom_def submit_task_def svc_Create_def Let_def)
  then obtain st1 where "CreateCustom sample_ai_env (ai_message acct) (Some (sample_ai_custom slo)) sample_ai_site = (Inr 8, st1)" by blast
  with ai_submission.custom [OF this, of spec] g show ?thesis by auto
qed

lemma sample_ai_attr [simp]: "ta_slo (ai_custom_attr sample_ai_env (ai_message acct) (sample_ai_custom slo)) = slo"
  by (simp add: ai_custom_attr_def Let_def)

lemma submitted_task_waits_witness:
  "\<exists>st1 row. CreateCustom sample_ai_env (ai_message ''u'') (Some (sample_ai_custom 1)) sample_ai_site = (Inr 8, st1) \<and>
     guaranteed (as_queue st1) ''u'' (fmt_uint 8) = Some row \<and> t_status row = ''Queueing''"
proof -
  obtain spec st1 where c: "CreateCustom sample_ai_env (ai_message ''u'') (Some (sample_ai_custom 1)) sample_ai_site = (Inr 8, st1)"
    and s: "ai_submission sample_ai_env (ai_message ''u'') (ai_custom_attr sample_ai_env (ai_message ''u'') (sample_ai_custom 1)) spec sample_ai_site 8 st1"
    using sample_ai_submission by blast
  from submitted_task_waits [OF s sample_ai_fresh] sample_queue_ok have
    "\<exists>row. t_status row = ''Queueing'' \<and> guaranteed (as_queue st1) ''u'' (fmt_uint 8) = Some row"
    by (auto simp: sample_ctl_parts sample_task_fields)
  with c show ?thesis by blast
qed

lemma sample_unqueued: "unqueued 8 sample_queue"
proof -
  have p: "sample_queue = [(''u'', init_push (sample_task\<lparr>t_slo := 0\<rparr>) (NewUserQueue ''u''))]"
    by (simp add: sample_queue_def InitUserQueue_def NewTaskQueue_def)
  have "uq_inv ''u'' (init_push (sample_task\<lparr>t_slo := 0\<rparr>) (NewUserQueue ''u''))"
    by (rule uq_inv_init_push) (simp_all add: sample_task_fields)
  moreover have q: "queue_of ''u'' 0 (q_New keyFunc fifoOrdering)" by simp
  have "avoids 8 (init_push (sample_task\<lparr>t_slo := 0\<rparr>) (NewUserQueue ''u''))"
    using gq.look_put_new [of "q_New keyFunc fifoOrdering" keyFunc "sample_task\<lparr>t_slo := 0\<rparr>"] queue_ofD [OF q]
    by (simp add: avoids_def init_push_def NewUserQueue_def q_New_def q_GetByKey_def keyFunc_def sample_task_fields fmt_uint_inj)
  ultimately show ?thesis by (simp add: unqueued_def p)
qed

lemma schedule_returns: "unqueued i (tc_taskQueue s) \<Longrightarrow> tq_inv (tc_taskQueue s) \<Longrightarrow> \<exists>s1. schedule env s = Inr s1"
proof -
  assume u: "unqueued i (tc_taskQueue s)" and inv: "tq_inv (tc_taskQueue s)"
  then have q: "\<forall>(u, q) \<in> set (tc_taskQueue s). uq_inv u q" by (auto simp: unqueued_def)
  from guaranteed_candidates_ok [OF q, of env "tc_quotas s"] besteffort_candidates_ok [OF q inv, of env] show ?thesis
    by (auto simp: schedule_def)
qed

lemma accepted_task_starves_witness:
  "\<exists>st1 s2 row. CreateCustom sample_ai_env (ai_message ''new'') (Some (sample_ai_custom 1)) sample_ai_site = (Inr 8, st1) \<and>
     schedule sample_ctl_env (as_ctl st1) = Inr s2 \<and> task_row (tc_db s2) 8 = Some row \<and> t_status row = ''Queueing''"
proof -
  obtain spec st1 where c: "CreateCustom sample_ai_env (ai_message ''new'') (Some (sample_ai_custom 1)) sample_ai_site = (Inr 8, st1)"
    and s: "ai_submission sample_ai_env (ai_message ''new'') (ai_custom_attr sample_ai_env (ai_message ''new'') (sample_ai_custom 1)) spec sample_ai_site 8 st1"
    using sample_ai_submission by blast
  have none: "gm_get sample_queue ''new'' = None" by (simp add: sample_queue_def InitUserQueue_def NewTaskQueue_def)
  note starve = accepted_task_starves [OF s sample_ai_fresh]
  have st1: "as_queue st1 = sample_queue"
    using starve [OF _ _ _ rounds.none] sample_unqueued none by (simp add: sample_ctl_parts)
  then obtain s2 where s2: "schedule sample_ctl_env (as_ctl st1) = Inr s2"
    using schedule_returns [of 8 "as_ctl st1" sample_ctl_env] sample_unqueued sample_queue_ok by auto
  have "\<exists>row. task_row (tc_db s2) 8 = Some row \<and> t_status row = ''Queueing''"
    using starve [OF _ _ _ rounds.one [OF rounds.none s2]] sample_unqueued none by (auto simp: sample_ctl_parts)
  with c s2 show ?thesis by blast
qed

lemma ai_delete_outcome_witness:
  "\<exists>st1. ai_Delete sample_ai_env (ai_message ''u'') (Some 7) sample_ai_site = (Inr (), st1) \<and>
     task_row (as_db st1) 7 = Some (sample_task\<lparr>t_status := ''Running'', t_isDeleted := True\<rparr>) \<and>
     besteffort (as_queue st1) ''u'' (fmt_uint 7) = None"
proof -
  from ai_delete_outcome [of sample_ai_env "\<lambda>x. x" sample_ai_site 7 "sample_task\<lparr>t_status := ''Running''\<rparr>" "ai_message ''u''" sample_info]
    sample_ai_fresh sample_queue_ok sample_ctl_row sample_info_ok show ?thesis
    by (auto simp: sample_ctl_parts sample_task_fields quiet_cluster_def)
qed

lemma foreign_tasks_kept_witness:
  "task_row (as_db (snd (ai_Delete sample_ai_env (ai_message ''new'') (Some 7) sample_ai_site))) 7 = Some (sample_task\<lparr>t_status := ''Running''\<rparr>)"
proof -
  have "(ai_step ''new'')\<^sup>*\<^sup>* sample_ai_site (snd (ai_Delete sample_ai_env (ai_message ''new'') (Some 7) sample_ai_site))"
    by (rule r_into_rtranclp) (rule s_delete, simp)
  from foreign_tasks_kept [OF this sample_ai_fresh] sample_ctl_row show ?thesis by (simp add: sample_task_fields)
qed

lemma charged_is_requested_witness:
  "\<exists>row n cl1 job. CreateJobFromTask quiet_cluster row empty_cluster = (Inr n, cl1) \<and> find_job ''n'' n cl1 = Some job \<and>
     amount (\<lambda>x. x) (request_list int_quantity (aj_resourceRequest job)) ''cpu'' = 1"
proof -
  let ?attr = "ai_custom_attr sample_ai_env (ai_message ''u'') (sample_ai_custom 0)"
  obtain spec st1 where s: "ai_submission sample_ai_env (ai_message ''u'') ?attr spec sample_ai_site 8 st1"
    using sample_ai_submission by blast
  let ?r = "submitted_row sample_ai_env (ai_message ''u'') ?attr spec 8"
  have attr: "ta_resourceRequest ?attr = Some [(''cpu'', 1)]" "ta_namespace ?attr = ''n''" "ta_taskType ?attr = ''training''"
    by (simp_all add: ai_custom_attr_def sample_custom_def sample_ai_env_def Let_def)
  have json: "json_reads int_quantity (\<lambda>x. x) (ar_json sample_ai_env) (Some [(''cpu'', 1)])"
    by (simp add: json_reads_def sample_ai_env_def or_empty_def amount_def request_list_def JSONToResourceList_def int_quantity_def)
  have "\<exists>n cl1. CreateJobFromTask quiet_cluster ?r empty_cluster = (Inr n, cl1)"
    using submitted_template [OF s]
    by (simp add: CreateJobFromTask_def createTrainingJobFromTask_def k8s_create_job_def find_job_def quiet_cluster_def empty_cluster_def attr Let_def)
  then obtain n cl1 where c: "CreateJobFromTask quiet_cluster ?r empty_cluster = (Inr n, cl1)" by blast
  have "or_empty (Some [(''cpu'', 1)]) = [(''cpu'', 1 :: int)]" "amount (\<lambda>x. x) [(''cpu'', 1 :: int)] ''cpu'' = 1"
    by (simp_all add: or_empty_def amount_def)
  with charged_is_requested [OF s _ _ c, of "\<lambda>x. x"] json attr obtain job where
    "find_job ''n'' n cl1 = Some job" "amount (\<lambda>x. x) (request_list int_quantity (aj_resourceRequest job)) ''cpu'' = 1" by auto
  with c show ?thesis by blast
qed

end
