(* ===== verification/Job_Templates.thy ===== *)
theory Job_Templates imports Data_Model begin

text \<open>
  The templates of jobs that users publish: every handler of \<open>internal/handler/jobtemplate.go\<close> over the rows of
  \<open>dao/model/jobtemplate.go\<close>.  A body or path that is malformed does not bind; the fields with \<open>binding:"required"\<close> do not bind
  when they are zero either.  No handler but the one that creates a template reads the token.
\<close>

section \<open>Rows\<close>

record job_template =
  tp_id :: nat
  tp_createdAt :: time
  tp_name :: string
  tp_describe :: string
  tp_document :: string
  tp_template :: string
  tp_userID :: nat

text \<open>The counter is that of the primary key, which is never given twice.\<close>

record template_store =
  ts_templates :: "job_template table"
  ts_seq :: nat
  ts_users :: "user table"

record template_env =
  te_now :: time
  te_listErr :: fault
  te_findErr :: fault
  te_writeErr :: fault

section \<open>Reading\<close>

record job_template_resp =
  tr_id :: nat
  tr_name :: string
  tr_describe :: string
  tr_document :: string
  tr_template :: string
  tr_createdAt :: time
  tr_userInfo :: "string \<times> string"

text \<open>The preloaded author: the zero user when the row of the author is gone.\<close>

definition template_author :: "template_store \<Rightarrow> job_template \<Rightarrow> string \<times> string" where
  "template_author s t =
     (case tbl_first (\<lambda>u. us_id u = tp_userID t) (ts_users s) of None \<Rightarrow> ([], []) | Some u \<Rightarrow> (us_name u, us_nickname u))"

definition template_resp :: "template_store \<Rightarrow> job_template \<Rightarrow> job_template_resp" where
  "template_resp s t =
     \<lparr>tr_id = tp_id t, tr_name = tp_name t, tr_describe = tp_describe t, tr_document = tp_document t, tr_template = tp_template t,
      tr_createdAt = tp_createdAt t, tr_userInfo = template_author s t\<rparr>"

definition ListJobTemplate :: "template_env \<Rightarrow> template_store \<Rightarrow> job_template_resp list result" where
  "ListJobTemplate e s =
     (case te_listErr e of
        Some x \<Rightarrow> Inl ''Can't get jobtemplates''
      | None \<Rightarrow> Inr (map (template_resp s) (ts_templates s)))"

text \<open>A path binds to a number that is not zero.\<close>

definition bound_id :: "nat option \<Rightarrow> nat option" where
  "bound_id uri = (case uri of Some i \<Rightarrow> if i = 0 then None else Some i | None \<Rightarrow> None)"

definition tm_GetJobTemplate :: "template_env \<Rightarrow> nat option \<Rightarrow> template_store \<Rightarrow> job_template_resp result" where
  "tm_GetJobTemplate e uri s =
     (case bound_id uri of
        None \<Rightarrow> Inl ''bad request''
      | Some i \<Rightarrow>
          if te_findErr e \<noteq> None then Inl ''Failed to get job template''
          else (case tbl_first (\<lambda>t. tp_id t = i) (ts_templates s) of
              None \<Rightarrow> Inl ''Failed to get job template''
            | Some t \<Rightarrow> Inr (template_resp s t)))"

section \<open>Writing\<close>

record job_template_req =
  tq_name :: string
  tq_describe :: string
  tq_document :: string
  tq_template :: string

definition template_bound :: "('m) job_template_req_scheme \<Rightarrow> bool" where
  "template_bound r \<longleftrightarrow> tq_name r \<noteq> [] \<and> tq_template r \<noteq> []"

definition CreateJobTemplate ::
  "template_env \<Rightarrow> nat \<Rightarrow> job_template_req option \<Rightarrow> template_store \<Rightarrow> nat result \<times> template_store" where
  "CreateJobTemplate e userID body s =
     (case body of
        None \<Rightarrow> (Inl ''bad request'', s)
      | Some r \<Rightarrow>
          if \<not> template_bound r then (Inl ''bad request'', s)
          else if te_writeErr e \<noteq> None then (Inl ''Failed to create job template'', s)
          else let i = Suc (ts_seq s);
                   t = \<lparr>tp_id = i, tp_createdAt = te_now e, tp_name = tq_name r, tp_describe = tq_describe r,
                        tp_document = tq_document r, tp_template = tq_template r, tp_userID = userID\<rparr>
               in (Inr i, s\<lparr>ts_templates := ts_templates s @ [t], ts_seq := i\<rparr>))"

definition DeleteJobTemplate :: "template_env \<Rightarrow> nat option \<Rightarrow> template_store \<Rightarrow> unit result \<times> template_store" where
  "DeleteJobTemplate e uri s =
     (case bound_id uri of
        None \<Rightarrow> (Inl ''bad request'', s)
      | Some i \<Rightarrow>
          if te_writeErr e \<noteq> None then (Inl ''Failed to delete job template'', s)
          else (if tbl_find (\<lambda>t. tp_id t = i) (ts_templates s) = [] then Inl ''No job template found to delete'' else Inr (),
                s\<lparr>ts_templates := tbl_delete (\<lambda>t. tp_id t = i) (ts_templates s)\<rparr>))"

record update_template_req = job_template_req +
  tq_id :: nat

text \<open>\<open>Updates\<close> of a struct: the fields that are empty keep what the row has.\<close>

definition with_template_fields :: "('m) job_template_req_scheme \<Rightarrow> job_template \<Rightarrow> job_template" where
  "with_template_fields r t =
     t\<lparr>tp_name := (if tq_name r = [] then tp_name t else tq_name r),
       tp_describe := (if tq_describe r = [] then tp_describe t else tq_describe r),
       tp_document := (if tq_document r = [] then tp_document t else tq_document r),
       tp_template := (if tq_template r = [] then tp_template t else tq_template r)\<rparr>"

text \<open>The row is the one the body names; the number in the path is not read.\<close>

definition UpdateJobTemplate :: "template_env \<Rightarrow> update_template_req option \<Rightarrow> template_store \<Rightarrow> unit result \<times> template_store" where
  "UpdateJobTemplate e body s =
     (case body of
        None \<Rightarrow> (Inl ''bad request'', s)
      | Some r \<Rightarrow>
          if tq_id r = 0 \<or> \<not> template_bound r then (Inl ''bad request'', s)
          else if te_writeErr e \<noteq> None then (Inl ''Failed to update job template'', s)
          else (Inr (), s\<lparr>ts_templates := tbl_updates (\<lambda>t. tp_id t = tq_id r) (with_template_fields r) (ts_templates s)\<rparr>))"

section \<open>The table as a map\<close>

text \<open>What the table promises: a map from numbers to templates, in which a number is given once.\<close>

definition templates_ok :: "template_store \<Rightarrow> bool" where
  "templates_ok s \<longleftrightarrow> distinct (map tp_id (ts_templates s)) \<and> (\<forall>t \<in> set (ts_templates s). 0 < tp_id t \<and> tp_id t \<le> ts_seq s)"

definition templates_map :: "template_store \<Rightarrow> nat \<Rightarrow> job_template option" where
  "templates_map s i = tbl_first (\<lambda>t. tp_id t = i) (ts_templates s)"

inductive template_step :: "template_store \<Rightarrow> template_store \<Rightarrow> bool" where
  tp_create: "template_step s (snd (CreateJobTemplate e userID body s))"
| tp_delete: "template_step s (snd (DeleteJobTemplate e uri s))"
| tp_update: "template_step s (snd (UpdateJobTemplate e upd s))"

lemma with_template_fields_keeps [simp]:
  "tp_id (with_template_fields r t) = tp_id t" "tp_userID (with_template_fields r t) = tp_userID t"
  "tp_createdAt (with_template_fields r t) = tp_createdAt t"
  by (simp_all add: with_template_fields_def)

lemma templates_map_updates:
  "templates_map (s\<lparr>ts_templates := tbl_updates (\<lambda>t. tp_id t = i) (with_template_fields r) (ts_templates s)\<rparr>) =
   (templates_map s)(i := map_option (with_template_fields r) (templates_map s i))"
proof
  fix k
  show "templates_map (s\<lparr>ts_templates := tbl_updates (\<lambda>t. tp_id t = i) (with_template_fields r) (ts_templates s)\<rparr>) k =
    ((templates_map s)(i := map_option (with_template_fields r) (templates_map s i))) k"
  proof (cases "k = i")
    case False
    then have "tbl_first (\<lambda>t. tp_id t = k) (tbl_updates (\<lambda>t. tp_id t = i) (with_template_fields r) ts) = tbl_first (\<lambda>t. tp_id t = k) ts" for ts
      by (intro tbl_first_updates_other) simp_all
    with False show ?thesis by (simp add: templates_map_def)
  qed (simp add: templates_map_def tbl_first_updates_same)
qed

lemma tbl_first_delete_key:
  "tbl_first (\<lambda>t. f t = k) (tbl_delete (\<lambda>t. f t = i) ts) = (if k = i then None else tbl_first (\<lambda>t. f t = k) ts)"
  by (induction ts) (auto simp: tbl_delete_def tbl_first_Cons)

lemma templates_map_delete:
  "templates_map (s\<lparr>ts_templates := tbl_delete (\<lambda>t. tp_id t = i) (ts_templates s)\<rparr>) = (templates_map s)(i := None)"
  by (auto simp: templates_map_def tbl_first_delete_key)

lemma templates_ok_fresh: "templates_ok s \<Longrightarrow> ts_seq s < i \<Longrightarrow> templates_map s i = None"
  by (auto simp: templates_ok_def templates_map_def tbl_first_None)

lemma template_step_ok: "template_step s s1 \<Longrightarrow> templates_ok s \<Longrightarrow> templates_ok s1"
proof (induction rule: template_step.induct)
  case (tp_create s e userID body)
  then show ?case by (force simp: CreateJobTemplate_def Let_def templates_ok_def split: option.split)
next
  case (tp_delete s e uri)
  then show ?case by (auto simp: DeleteJobTemplate_def templates_ok_def tbl_delete_def distinct_map_filter split: option.split)
next
  case (tp_update s e upd)
  have same: "tp_id \<circ> (\<lambda>t. if P t then with_template_fields r t else t) = tp_id" for P and r :: update_template_req
    by (simp add: fun_eq_iff)
  from tp_update show ?case
    by (auto simp: UpdateJobTemplate_def templates_ok_def tbl_updates_def same split: option.split)
qed

text \<open>What every step keeps of one template: its author and its time, and that a number that is gone stays gone.\<close>

definition template_kept :: "nat \<Rightarrow> template_store \<Rightarrow> template_store \<Rightarrow> bool" where
  "template_kept i s s1 \<longleftrightarrow> ts_seq s \<le> ts_seq s1 \<and> ts_users s1 = ts_users s \<and>
     (i \<le> ts_seq s \<longrightarrow> (case templates_map s1 i of None \<Rightarrow> True
        | Some t1 \<Rightarrow> \<exists>t. templates_map s i = Some t \<and> tp_userID t1 = tp_userID t \<and> tp_createdAt t1 = tp_createdAt t))"

lemma templates_map_create:
  "templates_ok s \<Longrightarrow> tp_id t = Suc (ts_seq s) \<Longrightarrow>
   templates_map (s\<lparr>ts_templates := ts_templates s @ [t], ts_seq := n\<rparr>) = (templates_map s)(Suc (ts_seq s) \<mapsto> t)"
  using templates_ok_fresh [of s "Suc (ts_seq s)"]
  by (auto simp: templates_map_def tbl_first_append tbl_first_Cons split: option.split)

lemma template_step_kept: "template_step s s1 \<Longrightarrow> templates_ok s \<Longrightarrow> template_kept i s s1"
proof (induction rule: template_step.induct)
  case (tp_create s e userID body)
  then show ?case
    by (auto simp: CreateJobTemplate_def Let_def template_kept_def templates_map_create split: option.split)
next
  case (tp_delete s e uri)
  then show ?case by (auto simp: DeleteJobTemplate_def template_kept_def templates_map_delete split: option.split)
next
  case (tp_update s e upd)
  then show ?case by (auto simp: UpdateJobTemplate_def template_kept_def templates_map_updates split: option.split)
qed

lemma template_kept_trans: "template_kept i s s1 \<Longrightarrow> template_kept i s1 s2 \<Longrightarrow> template_kept i s s2"
  by (fastforce simp: template_kept_def split: option.splits)

lemma template_steps_kept:
  assumes "template_step\<^sup>*\<^sup>* s s1" and "templates_ok s"
  shows "templates_ok s1 \<and> template_kept i s s1"
  using assms
proof (induction rule: rtranclp_induct)
  case base
  then show ?case by (auto simp: template_kept_def split: option.split)
next
  case (step s1 s2)
  then show ?case using template_step_ok template_step_kept template_kept_trans by blast
qed

section \<open>Properties\<close>

text \<open>
  The handlers are operations of a map from numbers to templates: a new template gets a number that was never used, a deletion
  removes one number and fails when it is not there, an update replaces the fields that are not empty, and reading answers the
  entry with the name of its author.
\<close>

theorem templates_refine_map:
  assumes ok: "templates_ok s" and e: "te_findErr e = None" "te_writeErr e = None" and "0 < i" and r: "template_bound r"
    and u: "tq_id upd = i" "template_bound upd"
  shows "(let n = Suc (ts_seq s); (res, s1) = CreateJobTemplate e user (Some r) s
      in res = Inr n \<and> templates_map s n = None \<and>
         templates_map s1 = (templates_map s)(n \<mapsto>
           \<lparr>tp_id = n, tp_createdAt = te_now e, tp_name = tq_name r, tp_describe = tq_describe r, tp_document = tq_document r,
            tp_template = tq_template r, tp_userID = user\<rparr>)) \<and>
    (let (res, s1) = DeleteJobTemplate e (Some i) s
      in (res = Inr () \<longleftrightarrow> templates_map s i \<noteq> None) \<and> templates_map s1 = (templates_map s)(i := None)) \<and>
    (let (res, s1) = UpdateJobTemplate e (Some upd) s
      in res = Inr () \<and> templates_map s1 = (templates_map s)(i := map_option (with_template_fields upd) (templates_map s i))) \<and>
    (case (templates_map s i, tm_GetJobTemplate e (Some i) s) of
       (None, Inl _) \<Rightarrow> True | (Some t, Inr a) \<Rightarrow> a = template_resp s t | _ \<Rightarrow> False)"
proof -
  have create: "let n = Suc (ts_seq s); (res, s1) = CreateJobTemplate e user (Some r) s
      in res = Inr n \<and> templates_map s n = None \<and>
         templates_map s1 = (templates_map s)(n \<mapsto>
           \<lparr>tp_id = n, tp_createdAt = te_now e, tp_name = tq_name r, tp_describe = tq_describe r, tp_document = tq_document r,
            tp_template = tq_template r, tp_userID = user\<rparr>)"
    using r e templates_ok_fresh [OF ok] by (simp add: CreateJobTemplate_def Let_def templates_map_create [OF ok])
  have "tbl_find (\<lambda>t. tp_id t = i) (ts_templates s) = [] \<longleftrightarrow> templates_map s i = None"
    by (simp add: templates_map_def tbl_first_None tbl_find_def filter_empty_conv)
  with e \<open>0 < i\<close> have "let (res, s1) = DeleteJobTemplate e (Some i) s
      in (res = Inr () \<longleftrightarrow> templates_map s i \<noteq> None) \<and> templates_map s1 = (templates_map s)(i := None)"
    by (simp add: DeleteJobTemplate_def bound_id_def templates_map_delete)
  moreover have "let (res, s1) = UpdateJobTemplate e (Some upd) s
      in res = Inr () \<and> templates_map s1 = (templates_map s)(i := map_option (with_template_fields upd) (templates_map s i))"
    using u e \<open>0 < i\<close> by (simp add: UpdateJobTemplate_def templates_map_updates)
  moreover have "case (templates_map s i, tm_GetJobTemplate e (Some i) s) of
       (None, Inl _) \<Rightarrow> True | (Some t, Inr a) \<Rightarrow> a = template_resp s t | _ \<Rightarrow> False"
    using e \<open>0 < i\<close> by (simp add: tm_GetJobTemplate_def bound_id_def templates_map_def split: option.split)
  ultimately show ?thesis using create by blast
qed

text \<open>
  Whatever is requested in whatever order, a template keeps its author and its time, and its number is never given to another:
  what is stored under a number that has been given is the same template or nothing.
\<close>

theorem template_authors_kept:
  assumes "template_step\<^sup>*\<^sup>* s s1" and "templates_ok s" and "i \<le> ts_seq s" and "templates_map s1 i = Some t1"
  shows "\<exists>t. templates_map s i = Some t \<and> tp_userID t1 = tp_userID t \<and> tp_createdAt t1 = tp_createdAt t"
  using template_steps_kept [OF assms(1,2), of i] assms(3,4) by (simp add: template_kept_def)

text \<open>A description that the author empties stays as it was, and the answer is that the update succeeded.\<close>

theorem emptied_text_stays:
  assumes "templates_map s (tq_id r) = Some t" and "0 < tq_id r" and "template_bound r" and "te_writeErr e = None"
    and "tq_describe r = []" and "tq_document r = []"
  shows "\<exists>s1 t1. UpdateJobTemplate e (Some r) s = (Inr (), s1) \<and> templates_map s1 (tq_id r) = Some t1 \<and>
    tp_describe t1 = tp_describe t \<and> tp_document t1 = tp_document t \<and> tp_name t1 = tq_name r \<and> tp_template t1 = tq_template r"
  using assms by (simp add: UpdateJobTemplate_def templates_map_updates with_template_fields_def template_bound_def)

section \<open>One template\<close>

definition sample_store :: template_store where
  "sample_store = \<lparr>ts_templates = [\<lparr>tp_id = 1, tp_createdAt = 5, tp_name = ''bert'', tp_describe = ''fine tuning'', tp_document = ''readme'',
     tp_template = ''{}'', tp_userID = 7\<rparr>], ts_seq = 2, ts_users = []\<rparr>"

definition quiet_templates :: template_env where
  "quiet_templates = \<lparr>te_now = 9, te_listErr = None, te_findErr = None, te_writeErr = None\<rparr>"

definition rename_req :: update_template_req where
  "rename_req = \<lparr>tq_name = ''gpt'', tq_describe = [], tq_document = [], tq_template = ''{a}'', tq_id = 1\<rparr>"

lemma sample_store_ok: "templates_ok sample_store"
  by (simp add: templates_ok_def sample_store_def)

lemma templates_refine_map_witness:
  "case UpdateJobTemplate quiet_templates (Some rename_req) sample_store of (res, s1) \<Rightarrow>
     res = Inr () \<and> map_option tp_name (templates_map s1 1) = Some ''gpt'' \<and> map_option tp_describe (templates_map s1 1) = Some ''fine tuning''"
proof -
  have req: "template_bound rename_req" "template_bound (job_template_req.truncate rename_req)" "tq_id rename_req = 1"
    and row: "templates_map sample_store 1 = Some (hd (ts_templates sample_store))"
    and new: "tp_name (with_template_fields rename_req (hd (ts_templates sample_store))) = ''gpt''"
      "tp_describe (with_template_fields rename_req (hd (ts_templates sample_store))) = ''fine tuning''"
    by (simp_all add: rename_req_def job_template_req.truncate_def template_bound_def templates_map_def sample_store_def tbl_first_Cons
        with_template_fields_def)
  have quiet: "te_findErr quiet_templates = None" "te_writeErr quiet_templates = None" by (simp_all add: quiet_templates_def)
  from templates_refine_map [OF sample_store_ok quiet _ req(2,3,1)] row new show ?thesis by (auto simp: Let_def)
qed

lemma template_authors_kept_witness:
  "\<exists>t. templates_map sample_store 1 = Some t \<and> tp_userID t = 7"
proof -
  have "template_step\<^sup>*\<^sup>* sample_store (snd (UpdateJobTemplate quiet_templates (Some rename_req) sample_store))"
    by (rule r_into_rtranclp, rule tp_update)
  moreover obtain t1 where "templates_map (snd (UpdateJobTemplate quiet_templates (Some rename_req) sample_store)) 1 = Some t1" "tp_userID t1 = 7"
    by (simp add: UpdateJobTemplate_def quiet_templates_def rename_req_def template_bound_def templates_map_def sample_store_def tbl_first_Cons
        with_template_fields_def)
  ultimately show ?thesis using template_authors_kept [OF _ sample_store_ok, of _ 1 t1] by (auto simp: sample_store_def)
qed

lemma emptied_text_stays_witness:
  "\<exists>s1 t1. UpdateJobTemplate quiet_templates (Some rename_req) sample_store = (Inr (), s1) \<and> templates_map s1 1 = Some t1 \<and>
     tp_describe t1 = ''fine tuning''"
  using emptied_text_stays [of sample_store rename_req "hd (ts_templates sample_store)" quiet_templates]
  by (auto simp: quiet_templates_def rename_req_def template_bound_def templates_map_def sample_store_def tbl_first_Cons)

end
