(* ===== verification/Harbor.thy ===== *)
theory Harbor imports Image_Builds Image_Links begin

text \<open>
  The image registry, \<open>pkg/imageregistry/registry.go\<close>, and the handlers of \<open>internal/handler/image/harbor.go\<close>.  The
  client of Harbor is a library: its calls are a parameter over a state of their own, with the laws of the documented API as
  \<open>harbor_laws\<close>.  Every user has the project \<open>user-<name>\<close> and may ask for an account of the registry, which is made anew each
  time.  Random bytes, the answer of an HTTP request and the failures of the database are parameters.
\<close>

section \<open>The client\<close>

record 'h harbor_ops =
  ho_projectExists :: "'h \<Rightarrow> string \<Rightarrow> bool result"
  ho_newProject :: "string \<Rightarrow> int \<Rightarrow> 'h \<Rightarrow> fault \<times> 'h"
  ho_projectID :: "'h \<Rightarrow> string \<Rightarrow> int result"
  ho_setQuota :: "int \<Rightarrow> int \<Rightarrow> 'h \<Rightarrow> fault \<times> 'h"
  ho_quota :: "'h \<Rightarrow> int \<Rightarrow> (int \<times> int) result"
  ho_userExists :: "'h \<Rightarrow> string \<Rightarrow> bool result"
  ho_userID :: "'h \<Rightarrow> string \<Rightarrow> int result"
  ho_newUser :: "string \<Rightarrow> string \<Rightarrow> string \<Rightarrow> 'h \<Rightarrow> fault \<times> 'h"
  ho_deleteUser :: "int \<Rightarrow> 'h \<Rightarrow> fault \<times> 'h"
  ho_addMember :: "string \<Rightarrow> string \<Rightarrow> 'h \<Rightarrow> fault \<times> 'h"
  ho_deleteArtifact :: "string \<Rightarrow> string \<Rightarrow> string \<Rightarrow> 'h \<Rightarrow> fault \<times> 'h"
  ho_artifactSize :: "'h \<Rightarrow> string \<Rightarrow> string \<Rightarrow> string \<Rightarrow> int result"

definition user_project :: "string \<Rightarrow> string" where
  "user_project userName = ''user-'' @ userName"

section \<open>The registry\<close>

abbreviation (input) DefaultQuotaSize :: int where "DefaultQuotaSize \<equiv> 40 * 2 ^ 30"

text \<open>A project that cannot be asked for counts as missing; the quota in the table is written before the project is made.\<close>

definition CheckOrCreateProjectForUser ::
  "'h harbor_ops \<Rightarrow> fault \<Rightarrow> string \<Rightarrow> user table \<times> 'h \<Rightarrow> fault \<times> user table \<times> 'h" where
  "CheckOrCreateProjectForUser H dbErr userName st =
     (let (users, h) = st in
      if ho_projectExists H h (user_project userName) = Inr True then (None, users, h)
      else (case dbErr of
          Some x \<Rightarrow> (Some x, users, h)
        | None \<Rightarrow>
            let users1 = tbl_updates (\<lambda>u. us_name u = userName) (us_imageQuota_update (\<lambda>_. DefaultQuotaSize)) users;
                (err, h1) = ho_newProject H (user_project userName) DefaultQuotaSize h
            in (err, users1, h1)))"

text \<open>
  The link is read with an expression built from the server's name, in which a dot stands for any character; it is not anchored
  at the beginning.  The parts are the shortest ones: a project up to the first slash, a name up to the first colon after it.
\<close>

fun match_server :: "string \<Rightarrow> string \<Rightarrow> string option" where
  "match_server [] s = Some s"
| "match_server (p # ps) [] = None"
| "match_server (p # ps) (c # s) = (if p = c \<or> p = CHR ''.'' \<and> c \<noteq> CHR 0x0A then match_server ps s else None)"

definition match_artifact :: "string \<Rightarrow> string \<Rightarrow> (string \<times> string \<times> string) option" where
  "match_artifact server s =
     (case match_server server s of
        Some (c # rest) \<Rightarrow>
          (let a = drop (Suc (length (takeWhile (\<lambda>x. x \<noteq> CHR ''/'') rest))) rest
           in if c = CHR ''/'' \<and> CHR 0x0A \<notin> set rest \<and> CHR '':'' \<in> set a
              then Some (takeWhile (\<lambda>x. x \<noteq> CHR ''/'') rest, takeWhile (\<lambda>x. x \<noteq> CHR '':'') a, tl (dropWhile (\<lambda>x. x \<noteq> CHR '':'') a))
              else None)
      | _ \<Rightarrow> None)"

fun search_artifact :: "string \<Rightarrow> string \<Rightarrow> (string \<times> string \<times> string) option" where
  "search_artifact server [] = match_artifact server []"
| "search_artifact server (c # s) =
     (case match_artifact server (c # s) of Some m \<Rightarrow> Some m | None \<Rightarrow> search_artifact server s)"

definition getImageInfo :: "string \<Rightarrow> string \<Rightarrow> (string \<times> string \<times> string) result" where
  "getImageInfo server fullImageURL =
     (if \<not> has_prefix server fullImageURL then Inl (''image is not in inner registry: '' @ fullImageURL)
      else (case search_artifact server fullImageURL of
          None \<Rightarrow> Inl (''invalid full image url: '' @ fullImageURL)
        | Some m \<Rightarrow> Inr m))"

definition DeleteImageFromProject :: "'h harbor_ops \<Rightarrow> string \<Rightarrow> string \<Rightarrow> 'h \<Rightarrow> fault \<times> 'h" where
  "DeleteImageFromProject H server fullImageURL h =
     (case getImageInfo server fullImageURL of
        Inl x \<Rightarrow> (Some x, h)
      | Inr (projectName, imageName, imageTag) \<Rightarrow> ho_deleteArtifact H projectName imageName imageTag h)"

definition GetImageSize :: "'h harbor_ops \<Rightarrow> string \<Rightarrow> 'h \<Rightarrow> string \<Rightarrow> int result" where
  "GetImageSize H server h fullImageName =
     (case getImageInfo server fullImageName of
        Inl x \<Rightarrow> Inl x
      | Inr (projectName, imageName, imageTag) \<Rightarrow> ho_artifactSize H h projectName imageName imageTag)"

definition UpdateQuotaForProject :: "'h harbor_ops \<Rightarrow> string \<Rightarrow> int \<Rightarrow> 'h \<Rightarrow> fault \<times> 'h" where
  "UpdateQuotaForProject H projectName quotaSize h =
     (case ho_projectID H h projectName of
        Inl x \<Rightarrow> (Some x, h)
      | Inr i \<Rightarrow> ho_setQuota H i quotaSize h)"

definition CheckUserExist :: "'h harbor_ops \<Rightarrow> string \<Rightarrow> 'h \<Rightarrow> bool" where
  "CheckUserExist H userName h \<longleftrightarrow> ho_userExists H h userName = Inr True"

text \<open>The password: an encoding of random bytes, cut to their number, or the failure of the source of randomness.\<close>

definition h_CreateUser :: "'h harbor_ops \<Rightarrow> string result \<Rightarrow> string \<Rightarrow> 'h \<Rightarrow> string result \<times> 'h" where
  "h_CreateUser H random userName h =
     (case random of
        Inl x \<Rightarrow> (Inl x, h)
      | Inr password \<Rightarrow> (case ho_newUser H userName (userName @ ''@example.com'') password h of
          (Some x, h1) \<Rightarrow> (Inl x, h1)
        | (None, h1) \<Rightarrow> (Inr password, h1)))"

definition AddProjectMember :: "'h harbor_ops \<Rightarrow> string \<Rightarrow> 'h \<Rightarrow> fault \<times> 'h" where
  "AddProjectMember H userName h = ho_addMember H (user_project userName) userName h"

definition CheckOrCreateUser :: "'h harbor_ops \<Rightarrow> string result \<Rightarrow> string \<Rightarrow> 'h \<Rightarrow> (string \<times> fault) \<times> 'h" where
  "CheckOrCreateUser H random userName h =
     (if CheckUserExist H userName h then (([], None), h)
      else (case h_CreateUser H random userName h of
          (Inl x, h1) \<Rightarrow> (([], Some x), h1)
        | (Inr password, h1) \<Rightarrow> (case AddProjectMember H userName h1 of (err, h2) \<Rightarrow> ((password, err), h2))))"

definition h_DeleteUser :: "'h harbor_ops \<Rightarrow> string \<Rightarrow> 'h \<Rightarrow> fault \<times> 'h" where
  "h_DeleteUser H userName h =
     (case ho_userID H h userName of
        Inl x \<Rightarrow> (Some x, h)
      | Inr i \<Rightarrow> ho_deleteUser H i h)"

definition GetProjectQuota :: "'h harbor_ops \<Rightarrow> string \<Rightarrow> 'h \<Rightarrow> (int \<times> int) result" where
  "GetProjectQuota H projectName h =
     (case ho_projectID H h projectName of
        Inl x \<Rightarrow> Inl x
      | Inr i \<Rightarrow> ho_quota H h i)"

text \<open>Name, used and total size; the zero value beside an error.\<close>

definition GetProjectDetail :: "'h harbor_ops \<Rightarrow> string \<Rightarrow> 'h \<Rightarrow> (string \<times> int \<times> int) \<times> fault" where
  "GetProjectDetail H userName h =
     (if ho_projectExists H h (user_project userName) \<noteq> Inr True then ((user_project userName, 0, DefaultQuotaSize), None)
      else (case GetProjectQuota H (user_project userName) h of
          Inl x \<Rightarrow> (([], 0, 0), Some x)
        | Inr (used, hard) \<Rightarrow> ((user_project userName, used, hard), None)))"

definition GetHarborIP :: "string \<Rightarrow> string" where
  "GetHarborIP server = ''https://'' @ server"

section \<open>Handlers\<close>

text \<open>An error of the registry is only logged; the sizes are in bytes here and in units of 2^30 in the answer.\<close>

definition UserGetProjectDetail :: "'h harbor_ops \<Rightarrow> jwt_message \<Rightarrow> 'h \<Rightarrow> string \<times> int \<times> int" where
  "UserGetProjectDetail H token h = fst (GetProjectDetail H (jm_username token) h)"

definition UserGetProjectCredential ::
  "'h harbor_ops \<Rightarrow> fault \<Rightarrow> string result \<Rightarrow> jwt_message \<Rightarrow> user table \<times> 'h \<Rightarrow> (string \<times> string) result \<times> user table \<times> 'h" where
  "UserGetProjectCredential H dbErr random token st =
     (let n = jm_username token in
      case CheckOrCreateProjectForUser H dbErr n st of
        (Some x, st1) \<Rightarrow> (Inl ''check or create project failed'', st1)
      | (None, users, h) \<Rightarrow>
          (case (if CheckUserExist H n h then h_DeleteUser H n h else (None, h)) of
             (Some x, h1) \<Rightarrow> (Inl ''delete user failed'', users, h1)
           | (None, h1) \<Rightarrow> (case h_CreateUser H random n h1 of
               (Inl x, h2) \<Rightarrow> (Inl ''create user failed'', users, h2)
             | (Inr password, h2) \<Rightarrow> (case AddProjectMember H n h2 of
                 (Some x, h3) \<Rightarrow> (Inl ''add project member failed'', users, h3)
               | (None, h3) \<Rightarrow> (Inr (n, password), users, h3)))))"

text \<open>The size zero does not bind.  After an error the handler goes on and answers a second time.\<close>

definition UpdateProjectQuota :: "'h harbor_ops \<Rightarrow> jwt_message \<Rightarrow> int option \<Rightarrow> 'h \<Rightarrow> string result list \<times> 'h" where
  "UpdateProjectQuota H token body h =
     (case body of
        None \<Rightarrow> ([Inl ''validate failed''], h)
      | Some quota \<Rightarrow>
          if quota = 0 then ([Inl ''validate failed''], h)
          else (case UpdateQuotaForProject H (user_project (jm_username token)) quota h of
              (Some x, h1) \<Rightarrow> ([Inl ''update harbor project quota failed'', Inr []], h1)
            | (None, h1) \<Rightarrow> ([Inr []], h1)))"

text \<open>\<open>url.PathEscape\<close>: letters, digits and some marks are left, every other byte is written in hexadecimal.\<close>

definition path_char :: "char \<Rightarrow> bool" where
  "path_char c \<longleftrightarrow> (let n = of_char c :: nat in 48 \<le> n \<and> n \<le> 57 \<or> 65 \<le> n \<and> n \<le> 90 \<or> 97 \<le> n \<and> n \<le> 122) \<or> c \<in> set ''-_.~$&+=:@''"

definition hex_char :: "nat \<Rightarrow> char" where
  "hex_char d = (if d < 10 then char_of (48 + d) else char_of (55 + d))"

definition path_escape :: "string \<Rightarrow> string" where
  "path_escape s =
     concat (map (\<lambda>c. if path_char c then [c] else [CHR ''%'', hex_char (of_char c div 16), hex_char (of_char c mod 16)]) s)"

record link_pair =
  lk_id :: nat
  lk_imageLink :: string
  lk_description :: string
  lk_creator :: "string \<times> string"

definition checkLinkValidity :: "(string \<Rightarrow> bool result) \<Rightarrow> string \<Rightarrow> bool" where
  "checkLinkValidity get link =
     (case SplitImageLink link of
        Inl x \<Rightarrow> False
      | Inr (ip, project, repository, tag) \<Rightarrow>
          (case get (''https://'' @ ip @ ''/api/v2.0/projects/'' @ project @ ''/repositories/'' @ path_escape repository @ ''/artifacts/'' @ tag) of
             Inl x \<Rightarrow> False
           | Inr success \<Rightarrow> success))"

definition CheckLinkValidity :: "(string \<Rightarrow> bool result) \<Rightarrow> link_pair list option \<Rightarrow> link_pair list result" where
  "CheckLinkValidity get body =
     (case body of
        None \<Rightarrow> Inl ''validate failed''
      | Some pairs \<Rightarrow> Inr (filter (\<lambda>p. \<not> checkLinkValidity get (lk_imageLink p)) pairs))"

section \<open>What the registry promises\<close>

text \<open>A view of the registry: the limit of each project, the password of each user and the members of each project.\<close>

record harbor_view =
  hv_limit :: "string \<Rightarrow> int option"
  hv_password :: "string \<Rightarrow> string option"
  hv_member :: "string \<Rightarrow> string \<Rightarrow> bool"

definition harbor_laws :: "'h harbor_ops \<Rightarrow> ('h \<Rightarrow> harbor_view) \<Rightarrow> bool" where
  "harbor_laws H view \<longleftrightarrow>
     (\<forall>h p. ho_projectExists H h p = Inr True \<longrightarrow> hv_limit (view h) p \<noteq> None) \<and>
     (\<forall>h p q h1. ho_newProject H p q h = (None, h1) \<longrightarrow> view h1 = (view h)\<lparr>hv_limit := (hv_limit (view h))(p \<mapsto> q)\<rparr>) \<and>
     (\<forall>h p i q h1. ho_projectID H h p = Inr i \<longrightarrow> ho_setQuota H i q h = (None, h1) \<longrightarrow>
        view h1 = (view h)\<lparr>hv_limit := (hv_limit (view h))(p \<mapsto> q)\<rparr>) \<and>
     (\<forall>h n i h1. ho_userID H h n = Inr i \<longrightarrow> ho_deleteUser H i h = (None, h1) \<longrightarrow>
        hv_limit (view h1) = hv_limit (view h) \<and> hv_password (view h1) = (hv_password (view h))(n := None)) \<and>
     (\<forall>h n m w h1. ho_newUser H n m w h = (None, h1) \<longrightarrow> view h1 = (view h)\<lparr>hv_password := (hv_password (view h))(n \<mapsto> w)\<rparr>) \<and>
     (\<forall>h n m w x h1. ho_newUser H n m w h = (Some x, h1) \<longrightarrow> view h1 = view h) \<and>
     (\<forall>h p n h1. ho_addMember H p n h = (None, h1) \<longrightarrow>
        view h1 = (view h)\<lparr>hv_member := (hv_member (view h))(p := (hv_member (view h) p)(n := True))\<rparr>)"

lemma harbor_lawsD:
  assumes "harbor_laws H view"
  shows "ho_projectExists H h p = Inr True \<Longrightarrow> hv_limit (view h) p \<noteq> None"
    and "ho_newProject H p q h = (None, h1) \<Longrightarrow> view h1 = (view h)\<lparr>hv_limit := (hv_limit (view h))(p \<mapsto> q)\<rparr>"
    and "ho_projectID H h p = Inr i \<Longrightarrow> ho_setQuota H i q h = (None, h1) \<Longrightarrow> view h1 = (view h)\<lparr>hv_limit := (hv_limit (view h))(p \<mapsto> q)\<rparr>"
    and "ho_userID H h n = Inr i \<Longrightarrow> ho_deleteUser H i h = (None, h1) \<Longrightarrow>
      hv_limit (view h1) = hv_limit (view h) \<and> hv_password (view h1) = (hv_password (view h))(n := None)"
    and "ho_newUser H n m w h = (None, h1) \<Longrightarrow> view h1 = (view h)\<lparr>hv_password := (hv_password (view h))(n \<mapsto> w)\<rparr>"
    and "ho_newUser H n m w h = (Some x, h1) \<Longrightarrow> view h1 = view h"
    and "ho_addMember H p n h = (None, h1) \<Longrightarrow>
      view h1 = (view h)\<lparr>hv_member := (hv_member (view h))(p := (hv_member (view h) p)(n := True))\<rparr>"
  using assms by (simp_all add: harbor_laws_def)

lemma project_after_check:
  assumes "harbor_laws H view" and "CheckOrCreateProjectForUser H dbErr n (users, h) = (None, users1, h1)"
  shows "hv_limit (view h1) (user_project n) \<noteq> None"
  using assms(2) harbor_lawsD(1) [OF assms(1), of h "user_project n"]
    harbor_lawsD(2) [OF assms(1), of "user_project n" DefaultQuotaSize h]
  by (auto simp: CheckOrCreateProjectForUser_def Let_def split: if_splits option.splits prod.splits)

section \<open>Properties\<close>

text \<open>
  A user who is answered credentials can use them: the project exists, the name has the answered password, whatever it had
  before, and is a member of the project.
\<close>

theorem credential_usable:
  assumes laws: "harbor_laws H view" and run: "UserGetProjectCredential H dbErr random token (users, h) = (Inr (n, password), users1, h1)"
  shows "n = jm_username token \<and> random = Inr password \<and> hv_limit (view h1) (user_project n) \<noteq> None \<and>
    hv_password (view h1) n = Some password \<and> hv_member (view h1) (user_project n) n"
proof -
  note laws' = harbor_lawsD [OF laws]
  let ?n = "jm_username token"
  obtain u1 h0 where check: "CheckOrCreateProjectForUser H dbErr ?n (users, h) = (None, u1, h0)"
    using run by (auto simp: UserGetProjectCredential_def Let_def split: prod.splits option.splits)
  define d where "d = (if CheckUserExist H ?n h0 then h_DeleteUser H ?n h0 else (None, h0))"
  from run check obtain h2 where d: "d = (None, h2)"
    by (auto simp: UserGetProjectCredential_def Let_def d_def split: prod.splits option.splits)
  with run check obtain h3 where new: "h_CreateUser H random ?n h2 = (Inr password, h3)"
    by (auto simp: UserGetProjectCredential_def Let_def d_def split: prod.splits option.splits sum.splits)
  with run check d have add: "AddProjectMember H ?n h3 = (None, h1)" and n: "n = ?n"
    by (auto simp: UserGetProjectCredential_def Let_def d_def split: prod.splits option.splits)
  have "hv_limit (view h2) = hv_limit (view h0)"
    using d by (auto simp: d_def h_DeleteUser_def dest: laws'(4) split: if_splits sum.splits)
  moreover from new have "random = Inr password" "view h3 = (view h2)\<lparr>hv_password := (hv_password (view h2))(?n \<mapsto> password)\<rparr>"
    by (auto simp: h_CreateUser_def dest: laws'(5) split: sum.splits prod.splits option.splits)
  moreover from add have "view h1 = (view h3)\<lparr>hv_member := (hv_member (view h3))(user_project ?n := (hv_member (view h3) (user_project ?n))(?n := True))\<rparr>"
    by (auto simp: AddProjectMember_def dest: laws'(7))
  ultimately show ?thesis using project_after_check [OF laws check] n by simp
qed

text \<open>
  The account is deleted before the new one is made: when the new one is refused, the request fails and the user, whose old
  credentials worked before, has none.
\<close>

theorem failed_credential_locks_out:
  assumes "harbor_laws H view" and "ho_projectExists H h (user_project (jm_username token)) = Inr True"
    and "ho_userExists H h (jm_username token) = Inr True" and "ho_userID H h (jm_username token) = Inr i" and "ho_deleteUser H i h = (None, h1)"
    and "random = Inl x \<or> random = Inr w \<and> fst (ho_newUser H (jm_username token) (jm_username token @ ''@example.com'') w h1) \<noteq> None"
  shows "\<exists>h2. UserGetProjectCredential H dbErr random token (users, h) = (Inl ''create user failed'', users, h2) \<and>
    hv_password (view h2) (jm_username token) = None"
proof -
  note laws = harbor_lawsD [OF assms(1)]
  let ?n = "jm_username token"
  have gone: "hv_password (view h1) ?n = None" using laws(4) [OF assms(4,5)] by simp
  have del: "CheckUserExist H ?n h" "h_DeleteUser H ?n h = (None, h1)" using assms(3-5) by (simp_all add: CheckUserExist_def h_DeleteUser_def)
  obtain y h2 where new: "h_CreateUser H random ?n h1 = (Inl y, h2)" "view h2 = view h1"
  proof (cases random)
    case (Inl y)
    then show ?thesis using that [of y h1] by (simp add: h_CreateUser_def)
  next
    case (Inr v)
    with assms(6) obtain y h2 where n: "ho_newUser H ?n (?n @ ''@example.com'') v h1 = (Some y, h2)"
      by (cases "ho_newUser H ?n (?n @ ''@example.com'') v h1") auto
    with that [of y h2] laws(6) [OF n] Inr show ?thesis by (simp add: h_CreateUser_def)
  qed
  with gone assms(2) del show ?thesis
    by (intro exI [of _ h2]) (simp add: UserGetProjectCredential_def Let_def CheckOrCreateProjectForUser_def)
qed

text \<open>Any user sets the limit of the own project to any size but zero, and minus one for none.\<close>

theorem quota_self_service:
  assumes "harbor_laws H view" and "quota \<noteq> 0" and "UpdateProjectQuota H token (Some quota) h = ([Inr []], h1)"
  shows "hv_limit (view h1) (user_project (jm_username token)) = Some quota"
  using assms(2,3) harbor_lawsD(3) [OF assms(1), of h "user_project (jm_username token)" _ quota h1]
  by (auto simp: UpdateProjectQuota_def UpdateQuotaForProject_def split: prod.splits option.splits sum.splits)

section \<open>Links and artifacts\<close>

lemma match_server_self: "match_server p (p @ s) = Some s"
  by (induction p) auto

lemma match_artifact_link:
  assumes "CHR ''/'' \<notin> set p" "CHR '':'' \<notin> set n" "CHR 0x0A \<notin> set (p @ n @ t)"
  shows "match_artifact server (server @ ''/'' @ p @ ''/'' @ n @ '':'' @ t) = Some (p, n, t)"
  using assms until_first [of "CHR ''/''" p "n @ '':'' @ t"] until_first [of "CHR '':''" n t]
  by (simp add: match_artifact_def match_server_self Let_def)

text \<open>
  The link a build is stored under names its artifact: the registry reads the project of the user, the name and the tag back, so
  the size that is stored and the artifact that is deleted with a build are those of this build, in the project of its owner.
\<close>

theorem build_artifact_exact:
  assumes "CHR ''/'' \<notin> set username" "CHR 0x0A \<notin> set username" "plain_name n" "plain_name t"
  shows "getImageInfo (li_server e) (registry_link e username n t) = Inr (user_project username, n, t) \<and>
    DeleteImageFromProject H (li_server e) (registry_link e username n t) h = ho_deleteArtifact H (user_project username) n t h \<and>
    GetImageSize H (li_server e) h (registry_link e username n t) = ho_artifactSize H h (user_project username) n t"
proof -
  have "match_artifact (li_server e) (li_server e @ ''/'' @ user_project username @ ''/'' @ n @ '':'' @ t) = Some (user_project username, n, t)"
    using assms by (intro match_artifact_link) (auto simp: user_project_def plain_name_def)
  then have "search_artifact (li_server e) (registry_link e username n t) = Some (user_project username, n, t)"
    by (cases "registry_link e username n t") (simp_all add: registry_link_def user_project_def)
  moreover have "has_prefix (li_server e) (registry_link e username n t)" by (simp add: has_prefix_def registry_link_def)
  ultimately show ?thesis by (simp add: getImageInfo_def DeleteImageFromProject_def GetImageSize_def)
qed

section \<open>A registry\<close>

text \<open>Projects with their limit, users with a number and a password, members and artifacts.\<close>

record small_harbor =
  sh_projects :: "(string, int) gomap"
  sh_users :: "(string, int \<times> string) gomap"
  sh_members :: "(string \<times> string) list"
  sh_next :: int

definition small_ops :: "small_harbor harbor_ops" where
  "small_ops =
     \<lparr>ho_projectExists = (\<lambda>h p. Inr (gm_get (sh_projects h) p \<noteq> None)),
      ho_newProject = (\<lambda>p q h. (None, h\<lparr>sh_projects := gm_put p q (sh_projects h)\<rparr>)),
      ho_projectID = (\<lambda>h p. if p = ''user-ann'' then Inr 1 else Inl ''not found''),
      ho_setQuota = (\<lambda>i q h. if i = 1 then (None, h\<lparr>sh_projects := gm_put ''user-ann'' q (sh_projects h)\<rparr>) else (Some ''not found'', h)),
      ho_quota = (\<lambda>h i. Inl ''not found''),
      ho_userExists = (\<lambda>h n. Inr (gm_get (sh_users h) n \<noteq> None)),
      ho_userID = (\<lambda>h n. if n = ''ann'' then Inr 7 else Inl ''not found''),
      ho_newUser = (\<lambda>n m w h. (None, h\<lparr>sh_users := gm_put n (7, w) (sh_users h)\<rparr>)),
      ho_deleteUser = (\<lambda>i h. if i = 7 then (None, h\<lparr>sh_users := gm_del ''ann'' (sh_users h)\<rparr>) else (Some ''not found'', h)),
      ho_addMember = (\<lambda>p n h. (None, h\<lparr>sh_members := (p, n) # sh_members h\<rparr>)),
      ho_deleteArtifact = (\<lambda>p n t h. (Some ''not found'', h)),
      ho_artifactSize = (\<lambda>h p n t. Inl ''not found'')\<rparr>"

definition small_view :: "small_harbor \<Rightarrow> harbor_view" where
  "small_view h = \<lparr>hv_limit = gm_get (sh_projects h), hv_password = (\<lambda>n. map_option snd (gm_get (sh_users h) n)),
     hv_member = (\<lambda>p n. (p, n) \<in> set (sh_members h))\<rparr>"

lemma small_harbor_laws: "harbor_laws small_ops small_view"
  by (auto simp: harbor_laws_def small_ops_def small_view_def fun_eq_iff split: if_splits)

definition empty_harbor :: small_harbor where
  "empty_harbor = \<lparr>sh_projects = [], sh_users = [(''ann'', 7, ''old'')], sh_members = [], sh_next = 8\<rparr>"

abbreviation (input) ann_token :: jwt_message where
  "ann_token \<equiv> \<lparr>jm_userID = 4, jm_accountID = 1, jm_username = ''ann'', jm_accountName = ''default'', jm_roleAccount = RoleUser,
     jm_accountAccessMode = AccessModeRO, jm_publicAccessMode = AccessModeRO, jm_rolePlatform = RoleUser\<rparr>"

lemma credential_usable_witness:
  "\<exists>users h. UserGetProjectCredential small_ops None (Inr ''fresh'') ann_token ([], empty_harbor) = (Inr (''ann'', ''fresh''), users, h) \<and>
     hv_password (small_view h) ''ann'' = Some ''fresh''"
proof -
  obtain users h where run: "UserGetProjectCredential small_ops None (Inr ''fresh'') ann_token ([], empty_harbor) = (Inr (''ann'', ''fresh''), users, h)"
    by (simp add: UserGetProjectCredential_def CheckOrCreateProjectForUser_def small_ops_def empty_harbor_def user_project_def CheckUserExist_def
        h_DeleteUser_def h_CreateUser_def AddProjectMember_def Let_def)
  from credential_usable [OF small_harbor_laws run] run show ?thesis by blast
qed

lemma failed_credential_locks_out_witness:
  "\<exists>h. UserGetProjectCredential small_ops None (Inl ''no entropy'') ann_token ([], empty_harbor\<lparr>sh_projects := [(''user-ann'', 5)]\<rparr>) =
      (Inl ''create user failed'', [], h) \<and> hv_password (small_view h) ''ann'' = None"
  using failed_credential_locks_out [OF small_harbor_laws, of "empty_harbor\<lparr>sh_projects := [(''user-ann'', 5)]\<rparr>" ann_token 7 _ "Inl ''no entropy''" _ _ None "[]"]
  by (simp add: small_ops_def empty_harbor_def user_project_def)

lemma quota_self_service_witness:
  "\<exists>h. UpdateProjectQuota small_ops ann_token (Some (- 1)) empty_harbor = ([Inr []], h) \<and> hv_limit (small_view h) ''user-ann'' = Some (- 1)"
proof -
  obtain h where run: "UpdateProjectQuota small_ops ann_token (Some (- 1)) empty_harbor = ([Inr []], h)"
    by (simp add: UpdateProjectQuota_def UpdateQuotaForProject_def small_ops_def user_project_def)
  from quota_self_service [OF small_harbor_laws _ run] run show ?thesis by (simp add: user_project_def)
qed

lemma build_artifact_exact_witness:
  "getImageInfo ''harbor'' (registry_link sample_links ''ann'' ''envd'' ''v1'') = Inr (''user-ann'', ''envd'', ''v1'')"
  using build_artifact_exact [of "''ann''" "''envd''" "''v1''" sample_links small_ops empty_harbor]
  by (simp add: sample_links_def plain_name_def user_project_def)

end
