(* ===== verification/Build_Requests.thy ===== *)
theory Build_Requests imports Harbor Job_Requests Image_Builds begin

text \<open>
  The requests that build images: \<open>internal/handler/image/build.go\<close>, the packer of \<open>pkg/packer\<close> that turns them into jobs of
  the cluster, and the listings of \<open>internal/handler/image/buildmgr.go\<close>.  A request leaves a job whose annotations hold
  everything the reconciler of \<open>Image_Builds\<close> later writes into the row of the build.  The random parts of names, JSON, the
  pods of a job and the failures of the cluster are parameters; strings are ASCII.  What is the same for every build (the
  profile annotations, one completion, no service links) is left out of the specification, and a snapshot has the source its one
  caller gives it.
\<close>

section \<open>What a build consists of\<close>

datatype build_volume_source = BuildEmptyDir | BuildSecret string | BuildConfigMap string | BuildHostSocket string

record build_mount =
  bm_name :: string
  bm_mountPath :: string
  bm_subPath :: string
  bm_readOnly :: bool

record build_container =
  bc_name :: string
  bc_image :: string
  bc_command :: "string list"
  bc_args :: "string list"
  bc_env :: "(string \<times> string) list"
  bc_volumeMounts :: "build_mount list"
  bc_privileged :: bool

record build_spec =
  bt_restartPolicy :: string
  bt_containers :: "build_container list"
  bt_volumes :: "(string \<times> build_volume_source) list"
  bt_runAs :: "(int \<times> int \<times> int) option"
  bt_nodeSelector :: "(string \<times> string) list"
  bt_hostname :: "string option"
  bt_ttl :: int
  bt_backoffLimit :: int

text \<open>The owners of a config map are named by their jobs.\<close>

record config_map =
  cf_name :: string
  cf_namespace :: string
  cf_data :: "(string, string) gomap"
  cf_owners :: "string list"

record 'h build_site =
  bs_world :: image_world
  bs_configMaps :: "config_map list"
  bs_specs :: "(string \<times> string \<times> build_spec) list"
  bs_harbor :: 'h

record packer_env =
  pk_space :: string
  pk_buildx :: string
  pk_envd :: string
  pk_nerdctl :: string
  pk_httpsProxy :: string
  pk_httpProxy :: string
  pk_noProxy :: string
  pk_uuid :: string
  pk_link :: link_env
  pk_json :: "string list option \<Rightarrow> string"
  pk_dbErr :: fault
  pk_configMapErr :: fault
  pk_jobErr :: fault
  pk_ownerErr :: fault

section \<open>Strings\<close>

abbreviation (input) nl :: char where "nl \<equiv> CHR 0x0A"
abbreviation (input) tb :: char where "tb \<equiv> CHR 0x09"
abbreviation (input) bsl :: char where "bsl \<equiv> CHR 0x5C"

definition is_space :: "char \<Rightarrow> bool" where
  "is_space c \<longleftrightarrow> c = CHR '' '' \<or> (9 \<le> (of_char c :: nat) \<and> of_char c \<le> (13 :: nat))"

definition trim_space :: "string \<Rightarrow> string" where
  "trim_space s = rev (dropWhile is_space (rev (dropWhile is_space s)))"

fun fields_from :: "string \<Rightarrow> string \<Rightarrow> string list" where
  "fields_from w [] = (if w = [] then [] else [w])"
| "fields_from w (c # s) =
     (if is_space c then (if w = [] then fields_from [] s else w # fields_from [] s) else fields_from (w @ [c]) s)"

definition str_fields :: "string \<Rightarrow> string list" where
  "str_fields s = fields_from [] s"

fun str_join :: "string \<Rightarrow> string list \<Rightarrow> string" where
  "str_join sep [] = []"
| "str_join sep [x] = x"
| "str_join sep (x # y # ys) = x @ sep @ str_join sep (y # ys)"

section \<open>The packer\<close>

record buildkit_req =
  bk_userID :: nat
  bk_namespace :: string
  bk_jobName :: string
  bk_dockerfile :: string
  bk_requirements :: "string option"
  bk_description :: string
  bk_imageLink :: string
  bk_tags :: "string list option"
  bk_template :: string
  bk_buildSource :: string
  bk_archs :: "string list option"

record envd_req =
  ev_userID :: nat
  ev_namespace :: string
  ev_jobName :: string
  ev_envd :: string
  ev_description :: string
  ev_imageLink :: string
  ev_tags :: "string list option"
  ev_template :: string
  ev_buildSource :: string
  ev_archs :: "string list option"

definition slice :: "'a list option \<Rightarrow> 'a list" where
  "slice xs = (case xs of None \<Rightarrow> [] | Some ys \<Rightarrow> ys)"

abbreviation (input) harborCreditSecretName :: string where "harborCreditSecretName \<equiv> ''buildkit-secret''"
abbreviation (input) JobCleanTime :: int where "JobCleanTime \<equiv> 259200"

definition generateVolumes :: "string \<Rightarrow> (string \<times> build_volume_source) list" where
  "generateVolumes jobName =
     [(''workspace'', BuildEmptyDir), (''harborcredits'', BuildSecret harborCreditSecretName), (''configmap-volume'', BuildConfigMap jobName)]"

text \<open>The command of a build, line by line.\<close>

definition append_arm_command :: "packer_env \<Rightarrow> string \<Rightarrow> string" where
  "append_arm_command e archs =
     (if str_contains archs ''arm'' then
        ''docker buildx create '' @ [bsl, nl, tb, tb] @
        ''--name multi-platform-builder '' @ [bsl, nl, tb, tb] @
        ''--append '' @ [bsl, nl, tb, tb] @
        ''--node arm-node '' @ [bsl, nl, tb, tb] @
        ''--driver remote tcp://'' @ (''buildkitd-arm.'' @ pk_space e) @ '':1234 && '' @ [bsl, nl, tb, tb]
      else [])"

definition buildx_command :: "packer_env \<Rightarrow> string \<Rightarrow> string \<Rightarrow> string" where
  "buildx_command e archs output =
     [nl, tb, tb] @ ''docker buildx create '' @ [bsl, nl, tb, tb] @
     ''--name multi-platform-builder '' @ [bsl, nl, tb, tb] @
     ''--node amd-node '' @ [bsl, nl, tb, tb] @
     ''--driver remote tcp://'' @ (''buildkitd-x86.'' @ pk_space e) @ '':1234 && '' @ [bsl, nl, tb, tb] @
     append_arm_command e archs @ [tb] @ ''docker buildx use multi-platform-builder && '' @ [bsl, nl, tb, tb] @
     ''docker buildx build --progress plain --platform '' @ archs @ '' --file /workspace/Dockerfile --output '' @ output @ '' /workspace'' @
     [nl, tb]"

definition image_output :: "string \<Rightarrow> string" where
  "image_output imageLink = ''type=image,name='' @ imageLink @ '',push=true''"

definition generateBuildKitContainer :: "packer_env \<Rightarrow> buildkit_req \<Rightarrow> build_container list" where
  "generateBuildKitContainer e d =
     [\<lparr>bc_name = ''buildkit'', bc_image = pk_buildx e, bc_command = [],
       bc_args = [''/bin/sh'', ''-c'', buildx_command e (str_join '','' (slice (bk_archs d))) (image_output (bk_imageLink d))],
       bc_env = [(''DOCKER_CONFIG'', ''/.docker'')],
       bc_volumeMounts =
         [\<lparr>bm_name = ''harborcredits'', bm_mountPath = ''/.docker/config.json'', bm_subPath = ''config.json'', bm_readOnly = True\<rparr>,
          \<lparr>bm_name = ''configmap-volume'', bm_mountPath = ''/workspace'', bm_subPath = [], bm_readOnly = True\<rparr>],
       bc_privileged = False\<rparr>]"

definition indent16 :: string where
  "indent16 = replicate 16 (CHR '' '')"

definition envd_command :: "packer_env \<Rightarrow> string \<Rightarrow> string" where
  "envd_command e output =
     [nl] @ indent16 @ ''envd context create '' @ [bsl, nl] @
     indent16 @ ''--name buildkitd '' @ [bsl, nl] @
     indent16 @ ''--builder tcp '' @ [bsl, nl] @
     indent16 @ ''--builder-address '' @ (''buildkitd-x86.'' @ pk_space e) @ '':1234 '' @ [bsl, nl] @
     indent16 @ ''--use && '' @ [bsl, nl] @
     indent16 @ ''envd build --platform linux/amd64 --output '' @ output @ [nl] @ replicate 8 (CHR '' '')"

definition proxy_env :: "packer_env \<Rightarrow> (string \<times> string) list" where
  "proxy_env e =
     (if pk_httpsProxy e \<noteq> [] then [(''HTTPS_PROXY'', pk_httpsProxy e)] else []) @
     (if pk_httpProxy e \<noteq> [] then [(''HTTP_PROXY'', pk_httpProxy e)] else []) @
     (if pk_noProxy e \<noteq> [] then [(''NO_PROXY'', ''$(NO_PROXY),'' @ pk_noProxy e)] else [])"

definition generateEnvdContainer :: "packer_env \<Rightarrow> envd_req \<Rightarrow> build_container list" where
  "generateEnvdContainer e d =
     [\<lparr>bc_name = ''buildkit'', bc_image = pk_envd e, bc_command = [],
       bc_args = [''/bin/sh'', ''-c'', envd_command e (image_output (ev_imageLink d))],
       bc_env = (''DOCKER_CONFIG'', ''/.docker'') # proxy_env e,
       bc_volumeMounts =
         [\<lparr>bm_name = ''harborcredits'', bm_mountPath = ''/.docker'', bm_subPath = [], bm_readOnly = False\<rparr>,
          \<lparr>bm_name = ''configmap-volume'', bm_mountPath = ''/workspace'', bm_subPath = [], bm_readOnly = True\<rparr>],
       bc_privileged = False\<rparr>]"

definition buildkit_spec :: "build_container list \<Rightarrow> (string \<times> build_volume_source) list \<Rightarrow> build_spec" where
  "buildkit_spec cs vs =
     \<lparr>bt_restartPolicy = ''Never'', bt_containers = cs, bt_volumes = vs, bt_runAs = Some (1000, 1000, 1000),
      bt_nodeSelector = [(''kubernetes.io/arch'', ''amd64'')], bt_hostname = None, bt_ttl = JobCleanTime, bt_backoffLimit = 0\<rparr>"

definition envd_spec :: "build_container list \<Rightarrow> (string \<times> build_volume_source) list \<Rightarrow> build_spec" where
  "envd_spec cs vs = (buildkit_spec cs vs)\<lparr>bt_runAs := None\<rparr>"

text \<open>Creating objects in the cluster: a name that is taken in its namespace is refused.\<close>

definition create_config_map :: "packer_env \<Rightarrow> config_map \<Rightarrow> 'h build_site \<Rightarrow> fault \<times> 'h build_site" where
  "create_config_map e c s =
     (case pk_configMapErr e of
        Some x \<Rightarrow> (Some x, s)
      | None \<Rightarrow>
          if \<exists>d \<in> set (bs_configMaps s). cf_name d = cf_name c \<and> cf_namespace d = cf_namespace c then (Some ''already exists'', s)
          else (None, s\<lparr>bs_configMaps := bs_configMaps s @ [c]\<rparr>))"

definition new_batch_job :: "string \<Rightarrow> string \<Rightarrow> (string, string) gomap \<Rightarrow> batch_job" where
  "new_batch_job n ns anns =
     \<lparr>batch_job.bj_name = n, bj_namespace = ns, bj_annotations = anns, bj_active = 0, bj_succeeded = 0, bj_failed = 0, bj_terminating = None\<rparr>"

definition create_batch_job :: "packer_env \<Rightarrow> batch_job \<Rightarrow> build_spec \<Rightarrow> 'h build_site \<Rightarrow> fault \<times> 'h build_site" where
  "create_batch_job e j spec s =
     (case pk_jobErr e of
        Some x \<Rightarrow> (Some x, s)
      | None \<Rightarrow>
          if find_build_job (batch_job.bj_namespace j) (batch_job.bj_name j) (bs_world s) \<noteq> None then (Some ''already exists'', s)
          else (None, s\<lparr>bs_world := (bs_world s)\<lparr>iw_jobs := iw_jobs (bs_world s) @ [j]\<rparr>,
                        bs_specs := (batch_job.bj_namespace j, batch_job.bj_name j, spec) # bs_specs s\<rparr>))"

definition updateOwnerReference :: "packer_env \<Rightarrow> config_map \<Rightarrow> batch_job \<Rightarrow> 'h build_site \<Rightarrow> fault \<times> 'h build_site" where
  "updateOwnerReference e c j s =
     (case pk_ownerErr e of
        Some x \<Rightarrow> (Some x, s)
      | None \<Rightarrow> (None, s\<lparr>bs_configMaps := map (\<lambda>d. if cf_name d = cf_name c \<and> cf_namespace d = cf_namespace c
                                                  then c\<lparr>cf_owners := cf_owners c @ [batch_job.bj_name j]\<rparr> else d) (bs_configMaps s)\<rparr>))"

text \<open>The annotations from which the reconciler makes the row.\<close>

definition build_annotations ::
  "packer_env \<Rightarrow> nat \<Rightarrow> string \<Rightarrow> string \<Rightarrow> string \<Rightarrow> string list option \<Rightarrow> string \<Rightarrow> string \<Rightarrow> string list option \<Rightarrow> (string, string) gomap" where
  "build_annotations e userID imageLink script description tags source template archs =
     [(''build-data/UserID'', fmt_uint userID), (''build-data/ImageLink'', imageLink), (''build-data/Script'', script),
      (''build-data/Description'', description), (''build-data/Tags'', pk_json e tags), (''build-data/Source'', source),
      (''build-data/Template'', template), (''build-data/Archs'', pk_json e archs)]"

definition createDockerfileConfigMap :: "packer_env \<Rightarrow> buildkit_req \<Rightarrow> config_map" where
  "createDockerfileConfigMap e d =
     \<lparr>cf_name = bk_jobName d, cf_namespace = bk_namespace d,
      cf_data = [(''Dockerfile'', bk_dockerfile d), (''requirements.txt'', case bk_requirements d of None \<Rightarrow> [] | Some r \<Rightarrow> r)],
      cf_owners = []\<rparr>"

definition createJob :: "packer_env \<Rightarrow> buildkit_req \<Rightarrow> batch_job" where
  "createJob e d = new_batch_job (bk_jobName d) (bk_namespace d)
     (build_annotations e (bk_userID d) (bk_imageLink d) (bk_dockerfile d) (bk_description d) (bk_tags d) (bk_buildSource d) (bk_template d)
        (bk_archs d))"

definition pack :: "packer_env \<Rightarrow> config_map \<Rightarrow> batch_job \<Rightarrow> build_spec \<Rightarrow> 'h build_site \<Rightarrow> fault \<times> 'h build_site" where
  "pack e c j spec s =
     (case create_config_map e c s of
        (Some x, s1) \<Rightarrow> (Some x, s1)
      | (None, s1) \<Rightarrow> (case create_batch_job e j spec s1 of
          (Some x, s2) \<Rightarrow> (Some x, s2)
        | (None, s2) \<Rightarrow> updateOwnerReference e c j s2))"

definition CreateFromDockerfile :: "packer_env \<Rightarrow> buildkit_req \<Rightarrow> 'h build_site \<Rightarrow> fault \<times> 'h build_site" where
  "CreateFromDockerfile e d s =
     pack e (createDockerfileConfigMap e d) (createJob e d) (buildkit_spec (generateBuildKitContainer e d) (generateVolumes (bk_jobName d))) s"

definition createEnvdConfigMap :: "packer_env \<Rightarrow> envd_req \<Rightarrow> config_map" where
  "createEnvdConfigMap e d =
     \<lparr>cf_name = ev_jobName d, cf_namespace = ev_namespace d, cf_data = [(''build.envd'', ev_envd d)], cf_owners = []\<rparr>"

definition createEnvdJob :: "packer_env \<Rightarrow> envd_req \<Rightarrow> batch_job" where
  "createEnvdJob e d = new_batch_job (ev_jobName d) (ev_namespace d)
     (build_annotations e (ev_userID d) (ev_imageLink d) (ev_envd d) (ev_description d) (ev_tags d) (ev_buildSource d) (ev_template d)
        (ev_archs d))"

definition CreateFromEnvd :: "packer_env \<Rightarrow> envd_req \<Rightarrow> 'h build_site \<Rightarrow> fault \<times> 'h build_site" where
  "CreateFromEnvd e d s =
     pack e (createEnvdConfigMap e d) (createEnvdJob e d) (envd_spec (generateEnvdContainer e d) (generateVolumes (ev_jobName d))) s"

section \<open>Snapshots\<close>

definition generateSnapshotContainer :: "packer_env \<Rightarrow> snapshot_req \<Rightarrow> build_container" where
  "generateSnapshotContainer e d =
     \<lparr>bc_name = ''build-image'', bc_image = pk_nerdctl e,
      bc_command = [''/snapshot.sh'', ''--namespace'', sr_namespace d, ''--pod-name'', sr_podName d, ''--container-name'', sr_containerName d,
        ''--image-url'', sr_imageLink d, ''--size-limit'', ''30''],
      bc_args = [], bc_env = [(''DOCKER_CONFIG'', ''/.docker'')],
      bc_volumeMounts =
        [\<lparr>bm_name = ''containerd-sock'', bm_mountPath = ''/run/containerd/containerd.sock'', bm_subPath = [], bm_readOnly = False\<rparr>,
         \<lparr>bm_name = ''secret'', bm_mountPath = ''/.docker'', bm_subPath = [], bm_readOnly = False\<rparr>],
      bc_privileged = True\<rparr>"

definition generateSnapshotVolumes :: "(string \<times> build_volume_source) list" where
  "generateSnapshotVolumes =
     [(''containerd-sock'', BuildHostSocket ''/run/containerd/containerd.sock''), (''secret'', BuildSecret harborCreditSecretName)]"

definition snapshot_spec :: "packer_env \<Rightarrow> snapshot_req \<Rightarrow> build_spec" where
  "snapshot_spec e d =
     \<lparr>bt_restartPolicy = ''Never'', bt_containers = [generateSnapshotContainer e d], bt_volumes = generateSnapshotVolumes, bt_runAs = None,
      bt_nodeSelector = [], bt_hostname = Some (sr_nodeName d), bt_ttl = JobCleanTime, bt_backoffLimit = 0\<rparr>"

definition CreateFromSnapshot :: "packer_env \<Rightarrow> snapshot_req \<Rightarrow> 'h build_site \<Rightarrow> fault \<times> 'h build_site" where
  "CreateFromSnapshot e d s =
     create_batch_job e (new_batch_job (sr_podName d @ ''-snapshot'' @ take 4 (pk_uuid e)) (pk_space e)
       [(''build-data/UserID'', fmt_uint (sr_userID d)), (''build-data/ImageLink'', sr_imageLink d), (''build-data/Script'', []),
        (''build-data/Description'', sr_description d), (''build-data/Tags'', []), (''build-data/Source'', ''Snapshot''),
        (''build-data/Template'', [])]) (snapshot_spec e d) s"

section \<open>Requests\<close>

record dockerfile_req =
  dq_description :: string
  dq_dockerfile :: string
  dq_name :: string
  dq_tag :: string
  dq_tags :: "string list option"
  dq_template :: string
  dq_archs :: "string list option"

record kaniko_req =
  kq_image :: string
  kq_requirements :: string
  kq_packages :: string
  kq_description :: string
  kq_name :: string
  kq_tag :: string
  kq_tags :: "string list option"
  kq_template :: string
  kq_archs :: "string list option"

record envd_build_req =
  eq_description :: string
  eq_envd :: string
  eq_name :: string
  eq_tag :: string
  eq_python :: string
  eq_base :: string
  eq_tags :: "string list option"
  eq_template :: string
  eq_buildSource :: string
  eq_archs :: "string list option"

record dockerfile_build_data =
  bd_baseImage :: string
  bd_userName :: string
  bd_userID :: nat
  bd_description :: string
  bd_dockerfile :: string
  bd_imageName :: string
  bd_imageTag :: string
  bd_requirements :: "string option"
  bd_tags :: "string list option"
  bd_template :: string
  bd_buildSource :: string
  bd_archs :: "string list option"

record envd_build_data =
  ed_python :: string
  ed_base :: string
  ed_description :: string
  ed_envd :: string
  ed_imageName :: string
  ed_imageTag :: string
  ed_userName :: string
  ed_userID :: nat
  ed_tags :: "string list option"
  ed_template :: string
  ed_buildSource :: string
  ed_archs :: "string list option"

text \<open>The project of the user is made first; what that changes stays when the build fails.\<close>

definition with_project ::
  "'h harbor_ops \<Rightarrow> packer_env \<Rightarrow> string \<Rightarrow> ('h build_site \<Rightarrow> string result \<times> 'h build_site) \<Rightarrow> 'h build_site \<Rightarrow> string result \<times> 'h build_site" where
  "with_project H e userName k s =
     (case CheckOrCreateProjectForUser H (pk_dbErr e) userName (iw_users (bs_world s), bs_harbor s) of
        (err, users, h) \<Rightarrow>
          let s1 = s\<lparr>bs_world := (bs_world s)\<lparr>iw_users := users\<rparr>, bs_harbor := h\<rparr>
          in (case err of Some x \<Rightarrow> (Inl ''create harbor project failed'', s1) | None \<Rightarrow> k s1))"

definition build_name :: "packer_env \<Rightarrow> string \<Rightarrow> string" where
  "build_name e userName = userName @ ''-'' @ take 5 (pk_uuid e)"

definition build_answer :: "fault \<times> 'h build_site \<Rightarrow> string result \<times> 'h build_site" where
  "build_answer r = (case r of (Some x, s) \<Rightarrow> (Inl ''create imagepack failed'', s) | (None, s) \<Rightarrow> (Inr [], s))"

definition buildkit_of :: "packer_env \<Rightarrow> dockerfile_build_data \<Rightarrow> string \<Rightarrow> buildkit_req" where
  "buildkit_of e d imageLink =
     \<lparr>bk_userID = bd_userID d, bk_namespace = pk_space e, bk_jobName = build_name e (bd_userName d), bk_dockerfile = bd_dockerfile d,
      bk_requirements = bd_requirements d, bk_description = bd_description d, bk_imageLink = imageLink, bk_tags = bd_tags d,
      bk_template = bd_template d, bk_buildSource = bd_buildSource d, bk_archs = bd_archs d\<rparr>"

definition buildFromDockerfile ::
  "'h harbor_ops \<Rightarrow> packer_env \<Rightarrow> dockerfile_build_data \<Rightarrow> 'h build_site \<Rightarrow> string result \<times> 'h build_site" where
  "buildFromDockerfile H e d =
     with_project H e (bd_userName d) (\<lambda>s.
       case GenerateNewImageLinkForDockerfileBuild (pk_link e) (bd_baseImage d) (bd_userName d) (bd_imageName d) (bd_imageTag d) of
         Inl x \<Rightarrow> (Inl ''generate new image link failed'', s)
       | Inr imageLink \<Rightarrow> build_answer (CreateFromDockerfile e (buildkit_of e d imageLink) s))"

definition envd_of :: "packer_env \<Rightarrow> envd_build_data \<Rightarrow> string \<Rightarrow> envd_req" where
  "envd_of e d imageLink =
     \<lparr>ev_userID = ed_userID d, ev_namespace = pk_space e, ev_jobName = build_name e (ed_userName d), ev_envd = ed_envd d,
      ev_description = ed_description d, ev_imageLink = imageLink, ev_tags = ed_tags d, ev_template = ed_template d,
      ev_buildSource = ed_buildSource d, ev_archs = ed_archs d\<rparr>"

definition buildFromEnvd ::
  "'h harbor_ops \<Rightarrow> packer_env \<Rightarrow> envd_build_data \<Rightarrow> 'h build_site \<Rightarrow> string result \<times> 'h build_site" where
  "buildFromEnvd H e d =
     with_project H e (ed_userName d) (\<lambda>s.
       build_answer (CreateFromEnvd e (envd_of e d
         (GenerateNewImageLinkForEnvdBuild (pk_link e) (ed_userName d) (ed_python d) (ed_base d) (ed_imageName d) (ed_imageTag d))) s))"

definition apt_section :: "string \<Rightarrow> string" where
  "apt_section packages =
     (if packages = [] then [nl] @ ''# No APT packages specified''
      else [nl] @ ''# Install APT packages'' @ [nl] @ ''RUN apt-get update && apt-get install -y '' @ str_join '' '' (str_fields packages) @
        '' && '' @ [bsl, nl] @ ''    rm -rf /var/lib/apt/lists/*'')"

definition requirements_section :: "string \<Rightarrow> string" where
  "requirements_section requirements =
     (if requirements = [] then [nl] @ ''# No Python dependencies specified''
      else [nl] @ ''# Install Python dependencies'' @ [nl] @ ''COPY requirements.txt /requirements.txt'' @ [nl] @
        ''RUN pip install --extra-index-url https://mirrors.aliyun.com/pypi/simple/ --no-cache-dir -r /requirements.txt'' @ [nl])"

definition generateDockerfile :: "kaniko_req \<Rightarrow> string" where
  "generateDockerfile r =
     ''FROM '' @ kq_image r @ [nl] @ ''USER root'' @ [nl] @ apt_section (kq_packages r) @ [nl] @ requirements_section (kq_requirements r) @ [nl]"

text \<open>
  The base image of a Dockerfile: the second word of the first instruction \<open>FROM\<close>, whose lines are joined where a backslash ends
  them.
\<close>

definition continued :: "string \<Rightarrow> bool" where
  "continued line \<longleftrightarrow> line \<noteq> [] \<and> last line = bsl"

fun join_lines :: "string \<Rightarrow> string list \<Rightarrow> string result" where
  "join_lines line [] =
     (if continued line then Inl (''unexpected end of Dockerfile after line: '' @ trim_space (butlast line)) else Inr line)"
| "join_lines line (n # ns) =
     (if continued line then join_lines (trim_space (butlast line) @ '' '' @ trim_space n) ns else Inr line)"

fun base_image_of :: "string list \<Rightarrow> string result" where
  "base_image_of [] = Inl ''no FROM instruction found in Dockerfile''"
| "base_image_of (l # ls) =
     (let line = trim_space l in
      if has_prefix ''#'' line then base_image_of ls
      else if has_prefix ''FROM'' line then
        (case join_lines line ls of
           Inl x \<Rightarrow> Inl x
         | Inr full \<Rightarrow> (case str_fields full of
             w # p # ps \<Rightarrow> Inr p
           | _ \<Rightarrow> Inl (''invalid FROM instruction: '' @ full)))
      else base_image_of ls)"

definition extractBaseImageFromDockerfile :: "string \<Rightarrow> string result" where
  "extractBaseImageFromDockerfile dockerfile = base_image_of (split_on nl dockerfile)"

definition pip_apt_data :: "jwt_message \<Rightarrow> kaniko_req \<Rightarrow> dockerfile_build_data" where
  "pip_apt_data token r =
     \<lparr>bd_baseImage = kq_image r, bd_userName = jm_username token, bd_userID = jm_userID token, bd_description = kq_description r,
      bd_dockerfile = generateDockerfile r, bd_imageName = kq_name r, bd_imageTag = kq_tag r, bd_requirements = Some (kq_requirements r),
      bd_tags = kq_tags r, bd_template = kq_template r, bd_buildSource = ''PipApt'', bd_archs = kq_archs r\<rparr>"

definition UserCreateByPipApt ::
  "'h harbor_ops \<Rightarrow> packer_env \<Rightarrow> jwt_message \<Rightarrow> kaniko_req option \<Rightarrow> 'h build_site \<Rightarrow> string result \<times> 'h build_site" where
  "UserCreateByPipApt H e token body s =
     (case body of
        None \<Rightarrow> (Inl ''validate create parameters failed'', s)
      | Some r \<Rightarrow> buildFromDockerfile H e (pip_apt_data token r) s)"

definition dockerfile_data :: "jwt_message \<Rightarrow> string \<Rightarrow> dockerfile_req \<Rightarrow> dockerfile_build_data" where
  "dockerfile_data token baseImage r =
     \<lparr>bd_baseImage = baseImage, bd_userName = jm_username token, bd_userID = jm_userID token, bd_description = dq_description r,
      bd_dockerfile = dq_dockerfile r, bd_imageName = dq_name r, bd_imageTag = dq_tag r, bd_requirements = None,
      bd_tags = dq_tags r, bd_template = dq_template r, bd_buildSource = ''Dockerfile'', bd_archs = dq_archs r\<rparr>"

definition UserCreateByDockerfile ::
  "'h harbor_ops \<Rightarrow> packer_env \<Rightarrow> jwt_message \<Rightarrow> dockerfile_req option \<Rightarrow> 'h build_site \<Rightarrow> string result \<times> 'h build_site" where
  "UserCreateByDockerfile H e token body s =
     (case body of
        None \<Rightarrow> (Inl ''validate create parameters failed'', s)
      | Some r \<Rightarrow> (case extractBaseImageFromDockerfile (dq_dockerfile r) of
          Inl x \<Rightarrow> (Inl ''failed to extract base image from Dockerfile'', s)
        | Inr baseImage \<Rightarrow> buildFromDockerfile H e (dockerfile_data token baseImage r) s))"

definition envd_data :: "jwt_message \<Rightarrow> envd_build_req \<Rightarrow> envd_build_data" where
  "envd_data token r =
     \<lparr>ed_python = eq_python r, ed_base = eq_base r, ed_description = eq_description r, ed_envd = eq_envd r, ed_imageName = eq_name r,
      ed_imageTag = eq_tag r, ed_userName = jm_username token, ed_userID = jm_userID token, ed_tags = eq_tags r, ed_template = eq_template r,
      ed_buildSource = eq_buildSource r, ed_archs = eq_archs r\<rparr>"

definition UserCreateByEnvd ::
  "'h harbor_ops \<Rightarrow> packer_env \<Rightarrow> jwt_message \<Rightarrow> envd_build_req option \<Rightarrow> 'h build_site \<Rightarrow> string result \<times> 'h build_site" where
  "UserCreateByEnvd H e token body s =
     (case body of
        None \<Rightarrow> (Inl ''validate create parameters failed'', s)
      | Some r \<Rightarrow> buildFromEnvd H e (envd_data token r) s)"

text \<open>The administrator's request is the user's without the requirements, the architectures and the source it has.\<close>

definition admin_data :: "jwt_message \<Rightarrow> kaniko_req \<Rightarrow> dockerfile_build_data" where
  "admin_data token r =
     \<lparr>bd_baseImage = kq_image r, bd_userName = jm_username token, bd_userID = jm_userID token, bd_description = kq_description r,
      bd_dockerfile = generateDockerfile r, bd_imageName = kq_name r, bd_imageTag = kq_tag r, bd_requirements = None,
      bd_tags = kq_tags r, bd_template = kq_template r, bd_buildSource = ''Dockerfile'', bd_archs = None\<rparr>"

definition AdminCreate ::
  "'h harbor_ops \<Rightarrow> packer_env \<Rightarrow> jwt_message \<Rightarrow> kaniko_req option \<Rightarrow> 'h build_site \<Rightarrow> string result \<times> 'h build_site" where
  "AdminCreate H e token body s =
     (case body of
        None \<Rightarrow> (Inl ''validate create parameters failed'', s)
      | Some r \<Rightarrow> buildFromDockerfile H e (admin_data token r) s)"

section \<open>Listings\<close>

record kaniko_info =
  ki_id :: nat
  ki_imageLink :: string
  ki_status :: string
  ki_createdAt :: time
  ki_size :: int
  ki_description :: string
  ki_userInfo :: "string \<times> string"
  ki_tags :: "string list option"
  ki_imagePackName :: string
  ki_buildSource :: string
  ki_archs :: "string list"

definition kaniko_user :: "user table \<Rightarrow> kaniko \<Rightarrow> string \<times> string" where
  "kaniko_user users k =
     (case tbl_first (\<lambda>u. us_id u = kn_userID k) users of None \<Rightarrow> ([], []) | Some u \<Rightarrow> (us_name u, us_nickname u))"

text \<open>A missing description is dereferenced; missing architectures are taken for the usual one.\<close>

definition kaniko_info_of :: "user table \<Rightarrow> kaniko \<Rightarrow> kaniko_info go" where
  "kaniko_info_of users k =
     (case kn_description k of
        None \<Rightarrow> Inl NilDereference
      | Some d \<Rightarrow> Inr \<lparr>ki_id = kn_id k, ki_imageLink = kn_imageLink k, ki_status = kn_status k, ki_createdAt = kn_createdAt k,
          ki_size = kn_size k, ki_description = d, ki_userInfo = kaniko_user users k, ki_tags = kn_tags k,
          ki_imagePackName = kn_imagePackName k, ki_buildSource = kn_buildSource k,
          ki_archs = (case kn_archs k of None \<Rightarrow> [''linux/amd64''] | Some as \<Rightarrow> as)\<rparr>)"

primrec generateKanikoListResponse :: "user table \<Rightarrow> kaniko list \<Rightarrow> kaniko_info list go" where
  "generateKanikoListResponse users [] = Inr []"
| "generateKanikoListResponse users (k # ks) =
     go_bind (kaniko_info_of users k) (\<lambda>i. go_bind (generateKanikoListResponse users ks) (\<lambda>is. Inr (i # is)))"

text \<open>A listing that fails is answered as an empty one; the newest build comes first.\<close>

definition UserListKaniko :: "fault \<Rightarrow> jwt_message \<Rightarrow> image_world \<Rightarrow> kaniko_info list go" where
  "UserListKaniko err token w =
     generateKanikoListResponse (iw_users w)
       (if err \<noteq> None then [] else sort_key (\<lambda>k. - kn_createdAt k) (tbl_find (\<lambda>k. kn_userID k = jm_userID token) (iw_kanikos w)))"

definition AdminListKaniko :: "fault \<Rightarrow> image_world \<Rightarrow> kaniko_info list go" where
  "AdminListKaniko err w =
     generateKanikoListResponse (iw_users w) (if err \<noteq> None then [] else sort_key (\<lambda>k. - kn_createdAt k) (iw_kanikos w))"

text \<open>
  The name of the pod of a build: the first pod of the job, nothing when there is none or the pods cannot be listed.  A build that
  is not found is answered as an error on the spot, and the caller goes on to answer a second time.
\<close>

record read_env =
  rd_space :: string
  rd_findErr :: fault
  rd_againErr :: fault
  rd_podOf :: "string \<Rightarrow> string option result"

definition getPodName :: "read_env \<Rightarrow> fault \<Rightarrow> nat \<Rightarrow> image_world \<Rightarrow> bool \<times> string \<times> string" where
  "getPodName e err kanikoID w =
     (case (if err \<noteq> None then None else tbl_first (\<lambda>k. kn_id k = kanikoID) (iw_kanikos w)) of
        None \<Rightarrow> (True, [], rd_space e)
      | Some k \<Rightarrow> (case rd_podOf e (kn_imagePackName k) of
          Inr (Some podName) \<Rightarrow> (False, podName, rd_space e)
        | _ \<Rightarrow> (False, [], rd_space e)))"

record kaniko_resp =
  kp_id :: nat
  kp_imageLink :: string
  kp_status :: string
  kp_buildSource :: string
  kp_createdAt :: time
  kp_imagePackName :: string
  kp_description :: string
  kp_dockerfile :: string
  kp_podName :: string
  kp_podNameSpace :: string

definition find_kaniko :: "read_env \<Rightarrow> string option \<Rightarrow> image_world \<Rightarrow> kaniko result" where
  "find_kaniko e uri w =
     (case uri of
        None \<Rightarrow> Inl ''validate image get parameters failed''
      | Some n \<Rightarrow>
          if n = [] then Inl ''validate image get parameters failed''
          else (case (if rd_findErr e \<noteq> None then None else kaniko_named n w) of
              None \<Rightarrow> Inl ''fetch kaniko by name failed''
            | Some k \<Rightarrow> Inr k))"

definition GetKanikoByImagePackName :: "read_env \<Rightarrow> string option \<Rightarrow> image_world \<Rightarrow> kaniko_resp result list go" where
  "GetKanikoByImagePackName e uri w =
     (case find_kaniko e uri w of
        Inl x \<Rightarrow> Inr [Inl x]
      | Inr k \<Rightarrow>
          let (answered, podName, podNameSpace) = getPodName e (rd_againErr e) (kn_id k) w;
              first = (if answered then [Inl ''fetch kaniko by name failed''] else [])
          in (case (kn_description k, kn_dockerfile k) of
                (Some d, Some f) \<Rightarrow> Inr (first @ [Inr \<lparr>kp_id = kn_id k, kp_imageLink = kn_imageLink k, kp_status = kn_status k,
                  kp_buildSource = kn_buildSource k, kp_createdAt = kn_createdAt k, kp_imagePackName = kn_imagePackName k, kp_description = d,
                  kp_dockerfile = f, kp_podName = podName, kp_podNameSpace = podNameSpace\<rparr>])
              | _ \<Rightarrow> Inl NilDereference))"

definition GetKanikoTemplateByImagePackName :: "read_env \<Rightarrow> string option \<Rightarrow> image_world \<Rightarrow> string result" where
  "GetKanikoTemplateByImagePackName e uri w = map_sum id kn_template (find_kaniko e uri w)"

definition GetImagepackPodName :: "read_env \<Rightarrow> nat option \<Rightarrow> image_world \<Rightarrow> (string \<times> string) result list" where
  "GetImagepackPodName e uri w =
     (case uri of
        None \<Rightarrow> [Inl ''validate image get parameters failed'']
      | Some i \<Rightarrow>
          if i = 0 then [Inl ''validate image get parameters failed'']
          else (let (answered, podName, podNameSpace) = getPodName e (rd_findErr e) i w
                in (if answered then [Inl ''fetch kaniko by name failed''] else []) @ [Inr (podName, podNameSpace)]))"

section \<open>From a request to a row\<close>

text \<open>The row the reconciler makes when it sees a job for the first time.\<close>

record build_content =
  ct_userID :: nat
  ct_imageLink :: string
  ct_script :: string
  ct_description :: string
  ct_tags :: "string list option"
  ct_source :: string
  ct_template :: string
  ct_archs :: "string list option"

definition recorded_as :: "build_env \<Rightarrow> string \<Rightarrow> string \<Rightarrow> image_world \<Rightarrow> build_content \<Rightarrow> bool" where
  "recorded_as b ns n w c \<longleftrightarrow>
     (\<exists>k. kaniko_named n (snd (build_Reconcile b ns n w)) = Some k \<and> kn_nameSpace k = ns \<and> kn_status k = BuildJobInitial \<and>
        kn_userID k = ct_userID c \<and> kn_imageLink k = ct_imageLink c \<and> kn_dockerfile k = Some (ct_script c) \<and>
        kn_description k = Some (ct_description c) \<and> kn_tags k = ct_tags c \<and> kn_buildSource k = ct_source c \<and>
        kn_template k = ct_template c \<and> kn_archs k = ct_archs c)"

definition build_answered :: "build_env \<Rightarrow> string \<Rightarrow> bool" where
  "build_answered b ns \<longleftrightarrow> be_imageSpace b = ns \<and> be_jobErr b = None \<and> be_kanikoErr b = None \<and> be_userErr b = None \<and> be_createErr b = None"

lemma first_reconcile:
  assumes "find_build_job ns n w = Some j" and "n \<notin> set (iw_kanikoNames w)" and "builds_ok w" and "build_answered b ns"
    and "kn_userID (kaniko_of_job b j w) \<in> us_id ` set (iw_users w)"
  shows "kaniko_named n (snd (build_Reconcile b ns n w)) = Some (kaniko_of_job b j w)"
proof -
  have new: "kaniko_named n w = None"
    using assms(2,3) by (auto simp: builds_ok_def kaniko_named_def tbl_first_None)
  have j: "batch_job.bj_name j = n" using assms(1) by (auto simp: find_build_job_def find_Some_iff)
  from assms(5) obtain u where "tbl_first (\<lambda>u. us_id u = kn_userID (kaniko_of_job b j w)) (iw_users w) = Some u"
    by (cases "tbl_first (\<lambda>u. us_id u = kn_userID (kaniko_of_job b j w)) (iw_users w)") (auto simp: tbl_first_None)
  with assms(1,2,4) new j have "snd (build_Reconcile b ns n w) =
      w\<lparr>iw_kanikos := iw_kanikos w @ [kaniko_of_job b j w], iw_kanikoNames := n # iw_kanikoNames w\<rparr>"
    by (simp add: build_Reconcile_def build_answered_def handleRecordNotFound_def Let_def)
  with new j show ?thesis
    by (simp add: kaniko_named_def tbl_first_append tbl_first_Cons kaniko_of_job_def)
qed

lemma pack_done:
  assumes "pack e c j spec s = (None, s1)"
  shows "find_build_job (batch_job.bj_namespace j) (batch_job.bj_name j) (bs_world s) = None"
    and "bs_world s1 = (bs_world s)\<lparr>iw_jobs := iw_jobs (bs_world s) @ [j]\<rparr>"
    and "bs_specs s1 = (batch_job.bj_namespace j, batch_job.bj_name j, spec) # bs_specs s"
    and "c\<lparr>cf_owners := cf_owners c @ [batch_job.bj_name j]\<rparr> \<in> set (bs_configMaps s1)"
  using assms
  by (auto simp: pack_def create_config_map_def create_batch_job_def updateOwnerReference_def split: prod.splits option.splits if_splits)

lemma find_snoc: "find P xs = None \<Longrightarrow> P x \<Longrightarrow> find P (xs @ [x]) = Some x"
  by (induction xs) (auto split: if_splits)

lemma with_project_done:
  assumes "with_project H e n k s = (Inr r, s1)"
  obtains s0 where "k s0 = (Inr r, s1)" "bs_configMaps s0 = bs_configMaps s" "bs_specs s0 = bs_specs s"
    "us_id ` set (iw_users (bs_world s0)) = us_id ` set (iw_users (bs_world s))" "iw_kanikos (bs_world s0) = iw_kanikos (bs_world s)"
    "iw_kanikoNames (bs_world s0) = iw_kanikoNames (bs_world s)" "builds_ok (bs_world s0) = builds_ok (bs_world s)"
proof -
  obtain err users h where c: "CheckOrCreateProjectForUser H (pk_dbErr e) n (iw_users (bs_world s), bs_harbor s) = (err, users, h)"
    by (metis prod_cases3)
  let ?s = "s\<lparr>bs_world := (bs_world s)\<lparr>iw_users := users\<rparr>, bs_harbor := h\<rparr>"
  have "us_id ` set users = us_id ` set (iw_users (bs_world s))"
  proof -
    have "map us_id (tbl_updates P (us_imageQuota_update f) t) = map us_id t" for P f t by (induction t) auto
    then have "us_id ` set (tbl_updates P (us_imageQuota_update f) t) = us_id ` set t" for P f t by (metis set_map)
    moreover from c have "users = iw_users (bs_world s) \<or> (\<exists>P f. users = tbl_updates P (us_imageQuota_update f) (iw_users (bs_world s)))"
      by (auto simp: CheckOrCreateProjectForUser_def Let_def split: if_splits option.splits prod.splits)
    ultimately show ?thesis by metis
  qed
  moreover have "k ?s = (Inr r, s1)" using assms c by (auto simp: with_project_def Let_def split: option.splits)
  ultimately show thesis using that [of ?s] by (simp add: builds_ok_def)
qed

lemma packed_recorded:
  assumes ans: "pack e c (new_batch_job n ns (build_annotations e (ct_userID x) (ct_imageLink x) (ct_script x) (ct_description x) (ct_tags x)
      (ct_source x) (ct_template x) (ct_archs x))) spec s = (None, s1)"
    and ok: "builds_ok (bs_world s)" and fresh: "n \<notin> set (iw_kanikoNames (bs_world s))"
    and user: "ct_userID x \<in> us_id ` set (iw_users (bs_world s))" "ct_userID x < 2 ^ 63"
    and json: "\<forall>ts. be_strings b (pk_json e ts) = ts" and b: "build_answered b ns"
  shows "recorded_as b ns n (bs_world s1) (x\<lparr>ct_source := stored_source (ct_source x)\<rparr>)"
proof -
  let ?j = "new_batch_job n ns (build_annotations e (ct_userID x) (ct_imageLink x) (ct_script x) (ct_description x) (ct_tags x)
      (ct_source x) (ct_template x) (ct_archs x))"
  have name: "batch_job.bj_name ?j = n" "batch_job.bj_namespace ?j = ns" by (simp_all add: new_batch_job_def)
  note p = pack_done [OF ans, unfolded name]
  have find: "find_build_job ns n (bs_world s1) = Some ?j"
    using p(1) name unfolding p(2) by (auto simp: find_build_job_def intro!: find_snoc)
  have uid: "uint_of_int (int (ct_userID x)) = ct_userID x" using user(2) by (simp add: uint_of_int_def zmod_trivial_iff)
  have row: "kaniko_of_job b ?j w = \<lparr>kn_id = next_id (map kn_id (iw_kanikos w)), kn_createdAt = be_now b, kn_userID = ct_userID x,
      kn_imagePackName = n, kn_imageLink = ct_imageLink x, kn_nameSpace = ns, kn_status = BuildJobInitial,
      kn_description = Some (ct_description x), kn_size = 0, kn_dockerfile = Some (ct_script x), kn_buildSource = stored_source (ct_source x),
      kn_tags = ct_tags x, kn_template = ct_template x, kn_archs = ct_archs x\<rparr>" for w
    using json atoi_fmt_uint [OF user(2)] uid
    by (simp add: kaniko_of_job_def annotation_def new_batch_job_def build_annotations_def)
  have "kaniko_named n (snd (build_Reconcile b ns n (bs_world s1))) = Some (kaniko_of_job b ?j (bs_world s1))"
    using fresh ok b user(1) by (intro first_reconcile [OF find]) (simp_all add: p(2) builds_ok_def row)
  then show ?thesis by (simp add: recorded_as_def row)
qed

lemma build_answer_done: "build_answer r = (Inr a, s1) \<Longrightarrow> r = (None, s1)"
  by (auto simp: build_answer_def split: prod.splits option.splits)

lemma dockerfile_build_cases:
  assumes "buildFromDockerfile H e d s = (Inr a, s1)"
  obtains s0 link where
    "GenerateNewImageLinkForDockerfileBuild (pk_link e) (bd_baseImage d) (bd_userName d) (bd_imageName d) (bd_imageTag d) = Inr link"
    "CreateFromDockerfile e (buildkit_of e d link) s0 = (None, s1)"
    "us_id ` set (iw_users (bs_world s0)) = us_id ` set (iw_users (bs_world s))"
    "iw_kanikoNames (bs_world s0) = iw_kanikoNames (bs_world s)" "builds_ok (bs_world s0) = builds_ok (bs_world s)"
  using assms unfolding buildFromDockerfile_def
  by (elim with_project_done) (auto split: sum.splits dest: build_answer_done intro: that)

lemma dockerfile_build_recorded:
  assumes ans: "buildFromDockerfile H e d s = (Inr a, s1)" and ok: "builds_ok (bs_world s)"
    and fresh: "build_name e (bd_userName d) \<notin> set (iw_kanikoNames (bs_world s))"
    and user: "bd_userID d \<in> us_id ` set (iw_users (bs_world s))" "bd_userID d < 2 ^ 63"
    and json: "\<forall>ts. be_strings b (pk_json e ts) = ts" and b: "build_answered b (pk_space e)"
  shows "\<exists>link. GenerateNewImageLinkForDockerfileBuild (pk_link e) (bd_baseImage d) (bd_userName d) (bd_imageName d) (bd_imageTag d) = Inr link \<and>
    recorded_as b (pk_space e) (build_name e (bd_userName d)) (bs_world s1)
      \<lparr>ct_userID = bd_userID d, ct_imageLink = link, ct_script = bd_dockerfile d, ct_description = bd_description d, ct_tags = bd_tags d,
       ct_source = stored_source (bd_buildSource d), ct_template = bd_template d, ct_archs = bd_archs d\<rparr>"
proof -
  from ans obtain s0 link where
    link: "GenerateNewImageLinkForDockerfileBuild (pk_link e) (bd_baseImage d) (bd_userName d) (bd_imageName d) (bd_imageTag d) = Inr link"
    and create: "CreateFromDockerfile e (buildkit_of e d link) s0 = (None, s1)"
    and w: "us_id ` set (iw_users (bs_world s0)) = us_id ` set (iw_users (bs_world s))"
      "iw_kanikoNames (bs_world s0) = iw_kanikoNames (bs_world s)" "builds_ok (bs_world s0) = builds_ok (bs_world s)"
    by (rule dockerfile_build_cases)
  let ?d = "buildkit_of e d link"
  have "recorded_as b (pk_space e) (build_name e (bd_userName d)) (bs_world s1)
      \<lparr>ct_userID = bd_userID d, ct_imageLink = link, ct_script = bd_dockerfile d, ct_description = bd_description d, ct_tags = bd_tags d,
       ct_source = stored_source (bd_buildSource d), ct_template = bd_template d, ct_archs = bd_archs d\<rparr>"
    using packed_recorded [where s = s0 and e = e and c = "createDockerfileConfigMap e ?d" and b = b and ?s1.0 = s1 and ns = "pk_space e"
        and n = "build_name e (bd_userName d)" and spec = "buildkit_spec (generateBuildKitContainer e ?d) (generateVolumes (bk_jobName ?d))"
        and x = "\<lparr>ct_userID = bd_userID d, ct_imageLink = link, ct_script = bd_dockerfile d, ct_description = bd_description d, ct_tags = bd_tags d,
          ct_source = bd_buildSource d, ct_template = bd_template d, ct_archs = bd_archs d\<rparr>"]
      create ok fresh user json b
    by (simp add: CreateFromDockerfile_def createJob_def buildkit_of_def w)
  with link show ?thesis by blast
qed

lemma envd_build_recorded:
  assumes ans: "buildFromEnvd H e d s = (Inr a, s1)" and ok: "builds_ok (bs_world s)"
    and fresh: "build_name e (ed_userName d) \<notin> set (iw_kanikoNames (bs_world s))"
    and user: "ed_userID d \<in> us_id ` set (iw_users (bs_world s))" "ed_userID d < 2 ^ 63"
    and json: "\<forall>ts. be_strings b (pk_json e ts) = ts" and b: "build_answered b (pk_space e)"
  shows "recorded_as b (pk_space e) (build_name e (ed_userName d)) (bs_world s1)
      \<lparr>ct_userID = ed_userID d,
       ct_imageLink = GenerateNewImageLinkForEnvdBuild (pk_link e) (ed_userName d) (ed_python d) (ed_base d) (ed_imageName d) (ed_imageTag d),
       ct_script = ed_envd d, ct_description = ed_description d, ct_tags = ed_tags d, ct_source = stored_source (ed_buildSource d),
       ct_template = ed_template d, ct_archs = ed_archs d\<rparr>"
proof -
  let ?link = "GenerateNewImageLinkForEnvdBuild (pk_link e) (ed_userName d) (ed_python d) (ed_base d) (ed_imageName d) (ed_imageTag d)"
  let ?d = "envd_of e d ?link"
  from ans obtain s0 where w: "us_id ` set (iw_users (bs_world s0)) = us_id ` set (iw_users (bs_world s))"
      "iw_kanikoNames (bs_world s0) = iw_kanikoNames (bs_world s)" "builds_ok (bs_world s0) = builds_ok (bs_world s)"
    and k: "build_answer (CreateFromEnvd e ?d s0) = (Inr a, s1)"
    unfolding buildFromEnvd_def by (rule with_project_done) blast
  show ?thesis
    using packed_recorded [where s = s0 and e = e and c = "createEnvdConfigMap e ?d" and b = b and ?s1.0 = s1 and ns = "pk_space e"
        and n = "build_name e (ed_userName d)" and spec = "envd_spec (generateEnvdContainer e ?d) (generateVolumes (ev_jobName ?d))"
        and x = "\<lparr>ct_userID = ed_userID d, ct_imageLink = ?link, ct_script = ed_envd d, ct_description = ed_description d, ct_tags = ed_tags d,
          ct_source = ed_buildSource d, ct_template = ed_template d, ct_archs = ed_archs d\<rparr>"]
      build_answer_done [OF k] ok fresh user json b
    by (simp add: CreateFromEnvd_def createEnvdJob_def envd_of_def w)
qed

section \<open>Properties\<close>

text \<open>Claim C18. A build request that is answered with success reaches the table: when the reconciler first sees the job and its calls are
  answered, it makes one row with the user of the token, the link computed for the request, and its script, description, tags, template
  and architectures as they were sent, for each of the three kinds of request.  The source is the kind of the request; that of an Envd
  request is the one it names, or the column's default, buildkit, if it names none.  The job's name must not have been used before, and
  the JSON of the lists must read back.
\<close>

theorem build_request_recorded:
  assumes "builds_ok (bs_world s)" and "build_name e (jm_username token) \<notin> set (iw_kanikoNames (bs_world s))"
    and "jm_userID token \<in> us_id ` set (iw_users (bs_world s))" and "jm_userID token < 2 ^ 63"
    and "\<forall>ts. be_strings b (pk_json e ts) = ts" and "build_answered b (pk_space e)"
  shows "(UserCreateByPipApt H e token (Some r) s = (Inr a, s1) \<longrightarrow>
      (\<exists>link. GenerateNewImageLinkForDockerfileBuild (pk_link e) (kq_image r) (jm_username token) (kq_name r) (kq_tag r) = Inr link \<and>
        recorded_as b (pk_space e) (build_name e (jm_username token)) (bs_world s1)
          \<lparr>ct_userID = jm_userID token, ct_imageLink = link, ct_script = generateDockerfile r, ct_description = kq_description r,
           ct_tags = kq_tags r, ct_source = ''PipApt'', ct_template = kq_template r, ct_archs = kq_archs r\<rparr>)) \<and>
    (UserCreateByDockerfile H e token (Some f) s = (Inr a, s1) \<longrightarrow>
      (\<exists>base link. extractBaseImageFromDockerfile (dq_dockerfile f) = Inr base \<and>
        GenerateNewImageLinkForDockerfileBuild (pk_link e) base (jm_username token) (dq_name f) (dq_tag f) = Inr link \<and>
        recorded_as b (pk_space e) (build_name e (jm_username token)) (bs_world s1)
          \<lparr>ct_userID = jm_userID token, ct_imageLink = link, ct_script = dq_dockerfile f, ct_description = dq_description f,
           ct_tags = dq_tags f, ct_source = ''Dockerfile'', ct_template = dq_template f, ct_archs = dq_archs f\<rparr>)) \<and>
    (UserCreateByEnvd H e token (Some v) s = (Inr a, s1) \<longrightarrow>
      recorded_as b (pk_space e) (build_name e (jm_username token)) (bs_world s1)
        \<lparr>ct_userID = jm_userID token,
         ct_imageLink = GenerateNewImageLinkForEnvdBuild (pk_link e) (jm_username token) (eq_python v) (eq_base v) (eq_name v) (eq_tag v),
         ct_script = eq_envd v, ct_description = eq_description v, ct_tags = eq_tags v, ct_source = (if eq_buildSource v = [] then ''buildkit'' else eq_buildSource v),
         ct_template = eq_template v, ct_archs = eq_archs v\<rparr>)"
proof (intro conjI impI)
  assume "UserCreateByPipApt H e token (Some r) s = (Inr a, s1)"
  then have "buildFromDockerfile H e (pip_apt_data token r) s = (Inr a, s1)" by (simp add: UserCreateByPipApt_def)
  from dockerfile_build_recorded [OF this _ _ _ _ assms(5,6)] assms(1-4)
  show "\<exists>link. GenerateNewImageLinkForDockerfileBuild (pk_link e) (kq_image r) (jm_username token) (kq_name r) (kq_tag r) = Inr link \<and>
        recorded_as b (pk_space e) (build_name e (jm_username token)) (bs_world s1)
          \<lparr>ct_userID = jm_userID token, ct_imageLink = link, ct_script = generateDockerfile r, ct_description = kq_description r,
           ct_tags = kq_tags r, ct_source = ''PipApt'', ct_template = kq_template r, ct_archs = kq_archs r\<rparr>"
    by (simp add: pip_apt_data_def stored_source_def)
next
  assume "UserCreateByDockerfile H e token (Some f) s = (Inr a, s1)"
  then obtain base where base: "extractBaseImageFromDockerfile (dq_dockerfile f) = Inr base"
    and build: "buildFromDockerfile H e (dockerfile_data token base f) s = (Inr a, s1)"
    by (auto simp: UserCreateByDockerfile_def split: sum.splits)
  from dockerfile_build_recorded [OF build _ _ _ _ assms(5,6)] assms(1-4) base
  show "\<exists>base link. extractBaseImageFromDockerfile (dq_dockerfile f) = Inr base \<and>
        GenerateNewImageLinkForDockerfileBuild (pk_link e) base (jm_username token) (dq_name f) (dq_tag f) = Inr link \<and>
        recorded_as b (pk_space e) (build_name e (jm_username token)) (bs_world s1)
          \<lparr>ct_userID = jm_userID token, ct_imageLink = link, ct_script = dq_dockerfile f, ct_description = dq_description f,
           ct_tags = dq_tags f, ct_source = ''Dockerfile'', ct_template = dq_template f, ct_archs = dq_archs f\<rparr>"
    by (simp add: dockerfile_data_def stored_source_def)
next
  assume "UserCreateByEnvd H e token (Some v) s = (Inr a, s1)"
  then have "buildFromEnvd H e (envd_data token v) s = (Inr a, s1)" by (simp add: UserCreateByEnvd_def)
  from envd_build_recorded [OF this _ _ _ _ assms(5,6)] assms(1-4)
  show "recorded_as b (pk_space e) (build_name e (jm_username token)) (bs_world s1)
        \<lparr>ct_userID = jm_userID token,
         ct_imageLink = GenerateNewImageLinkForEnvdBuild (pk_link e) (jm_username token) (eq_python v) (eq_base v) (eq_name v) (eq_tag v),
         ct_script = eq_envd v, ct_description = eq_description v, ct_tags = eq_tags v, ct_source = (if eq_buildSource v = [] then ''buildkit'' else eq_buildSource v),
         ct_template = eq_template v, ct_archs = eq_archs v\<rparr>"
    by (simp add: envd_data_def stored_source_def)
qed

text \<open>A snapshot is recorded with the user, link and description it was taken with, without tags, script and architectures.\<close>

theorem snapshot_recorded:
  assumes "CreateFromSnapshot e d s = (None, s1)" and "builds_ok (bs_world s)"
    and fresh: "sr_podName d @ ''-snapshot'' @ take 4 (pk_uuid e) \<notin> set (iw_kanikoNames (bs_world s))"
    and user: "sr_userID d \<in> us_id ` set (iw_users (bs_world s))" "sr_userID d < 2 ^ 63"
    and json: "be_strings b [] = None" and b: "build_answered b (pk_space e)"
  shows "recorded_as b (pk_space e) (sr_podName d @ ''-snapshot'' @ take 4 (pk_uuid e)) (bs_world s1)
    \<lparr>ct_userID = sr_userID d, ct_imageLink = sr_imageLink d, ct_script = [], ct_description = sr_description d, ct_tags = None,
     ct_source = ''Snapshot'', ct_template = [], ct_archs = None\<rparr>"
proof -
  let ?n = "sr_podName d @ ''-snapshot'' @ take 4 (pk_uuid e)"
  define anns where "anns = [(''build-data/UserID'', fmt_uint (sr_userID d)), (''build-data/ImageLink'', sr_imageLink d),
        (''build-data/Script'', []), (''build-data/Description'', sr_description d), (''build-data/Tags'', []),
        (''build-data/Source'', ''Snapshot''), (''build-data/Template'', [])]"
  define j where "j = new_batch_job ?n (pk_space e) anns"
  have j: "batch_job.bj_name j = ?n" "batch_job.bj_namespace j = pk_space e" "batch_job.bj_annotations j = anns"
    by (simp_all only: j_def new_batch_job_def batch_job.simps)
  from assms(1) have "create_batch_job e j (snapshot_spec e d) s = (None, s1)" unfolding CreateFromSnapshot_def j_def anns_def .
  then have w: "find_build_job (pk_space e) ?n (bs_world s) = None" "bs_world s1 = (bs_world s)\<lparr>iw_jobs := iw_jobs (bs_world s) @ [j]\<rparr>"
    unfolding create_batch_job_def j by (auto split: option.splits if_splits)
  have find: "find_build_job (pk_space e) ?n (bs_world s1) = Some j"
    using w j by (auto simp: find_build_job_def intro!: find_snoc)
  have uid: "uint_of_int (int (sr_userID d)) = sr_userID d" using user(2) by (simp add: uint_of_int_def zmod_trivial_iff)
  have row: "kn_userID (kaniko_of_job b j w) = sr_userID d" "kn_imageLink (kaniko_of_job b j w) = sr_imageLink d"
    "kn_nameSpace (kaniko_of_job b j w) = pk_space e" "kn_status (kaniko_of_job b j w) = BuildJobInitial"
    "kn_description (kaniko_of_job b j w) = Some (sr_description d)" "kn_dockerfile (kaniko_of_job b j w) = Some []"
    "kn_tags (kaniko_of_job b j w) = None" "kn_buildSource (kaniko_of_job b j w) = ''Snapshot''" "kn_template (kaniko_of_job b j w) = []"
    "kn_archs (kaniko_of_job b j w) = None" for w
    using atoi_fmt_uint [OF user(2)] uid json by (simp_all add: kaniko_of_job_def annotation_def anns_def j stored_source_def)
  have "kaniko_named ?n (snd (build_Reconcile b (pk_space e) ?n (bs_world s1))) = Some (kaniko_of_job b j (bs_world s1))"
    using fresh assms(2) b user(1) by (intro first_reconcile [OF find]) (simp_all add: w(2) builds_ok_def row)
  then show ?thesis by (simp add: recorded_as_def row)
qed

text \<open>
  The config map is made before the job: when the job is refused the request fails, no build exists, and the config map stays
  without an owner, so nothing ever removes it.
\<close>

theorem failed_build_leaves_config_map:
  assumes "GenerateNewImageLinkForDockerfileBuild (pk_link e) (bd_baseImage d) (bd_userName d) (bd_imageName d) (bd_imageTag d) = Inr link"
    and "ho_projectExists H (bs_harbor s) (user_project (bd_userName d)) = Inr True" and "pk_configMapErr e = None" and "pk_jobErr e = Some x"
    and "\<forall>c \<in> set (bs_configMaps s). cf_name c \<noteq> build_name e (bd_userName d)"
  shows "\<exists>s1. buildFromDockerfile H e d s = (Inl ''create imagepack failed'', s1) \<and> iw_jobs (bs_world s1) = iw_jobs (bs_world s) \<and>
    bs_configMaps s1 = bs_configMaps s @ [createDockerfileConfigMap e (buildkit_of e d link)] \<and>
    cf_owners (last (bs_configMaps s1)) = []"
  using assms
  by (auto simp: buildFromDockerfile_def with_project_def CheckOrCreateProjectForUser_def Let_def CreateFromDockerfile_def pack_def
      create_config_map_def create_batch_job_def build_answer_def createDockerfileConfigMap_def buildkit_of_def)

lemma dockerfile_build_objects:
  assumes "buildFromDockerfile H e d s = (Inr a, s1)"
  obtains link where
    "(pk_space e, build_name e (bd_userName d), buildkit_spec (generateBuildKitContainer e (buildkit_of e d link))
       (generateVolumes (build_name e (bd_userName d)))) \<in> set (bs_specs s1)"
    "(createDockerfileConfigMap e (buildkit_of e d link))\<lparr>cf_owners := [build_name e (bd_userName d)]\<rparr> \<in> set (bs_configMaps s1)"
proof -
  from assms obtain s0 link where "CreateFromDockerfile e (buildkit_of e d link) s0 = (None, s1)" by (rule dockerfile_build_cases)
  note p = pack_done(3,4) [OF this [unfolded CreateFromDockerfile_def]]
  from p show thesis
    by (intro that [of link]) (simp_all add: createJob_def new_batch_job_def buildkit_of_def createDockerfileConfigMap_def)
qed

text \<open>
  The request of an administrator that asks for Python packages is answered with success and builds from an empty list of them:
  the Dockerfile installs from a file the config map leaves empty.
\<close>

theorem admin_build_loses_requirements:
  assumes "AdminCreate H e token (Some r) s = (Inr a, s1)" and "kq_requirements r \<noteq> []"
  shows "\<exists>c p q. c \<in> set (bs_configMaps s1) \<and> cf_name c = build_name e (jm_username token) \<and>
    gm_get (cf_data c) ''requirements.txt'' = Some [] \<and>
    gm_get (cf_data c) ''Dockerfile'' = Some (p @ ''COPY requirements.txt /requirements.txt'' @ q)"
proof -
  from assms(1) have "buildFromDockerfile H e (admin_data token r) s = (Inr a, s1)" by (simp add: AdminCreate_def)
  then obtain link where c: "(createDockerfileConfigMap e (buildkit_of e (admin_data token r) link))\<lparr>cf_owners := [build_name e (jm_username token)]\<rparr>
      \<in> set (bs_configMaps s1)"
    by (rule dockerfile_build_objects) (simp add: admin_data_def)
  let ?copy = "''COPY requirements.txt /requirements.txt''"
  have "requirements_section (kq_requirements r) = ([nl] @ ''# Install Python dependencies'' @ [nl]) @ ?copy @
      ([nl] @ ''RUN pip install --extra-index-url https://mirrors.aliyun.com/pypi/simple/ --no-cache-dir -r /requirements.txt'' @ [nl])"
    by (simp only: requirements_section_def if_not_P [OF assms(2)] append_assoc)
  then obtain p q where reqs: "requirements_section (kq_requirements r) = p @ ?copy @ q" by blast
  have "generateDockerfile r = (''FROM '' @ kq_image r @ [nl] @ ''USER root'' @ [nl] @ apt_section (kq_packages r) @ [nl] @ p) @ ?copy @ (q @ [nl])"
    by (simp only: generateDockerfile_def reqs append_assoc)
  then obtain p1 q1 where docker: "generateDockerfile r = p1 @ ?copy @ q1" by blast
  let ?c = "(createDockerfileConfigMap e (buildkit_of e (admin_data token r) link))\<lparr>cf_owners := [build_name e (jm_username token)]\<rparr>"
  have "cf_name ?c = build_name e (jm_username token)" "gm_get (cf_data ?c) ''requirements.txt'' = Some []"
    "gm_get (cf_data ?c) ''Dockerfile'' = Some (generateDockerfile r)"
    by (simp_all add: createDockerfileConfigMap_def buildkit_of_def admin_data_def)
  with c docker show ?thesis by (metis (no_types))
qed

text \<open>
  The architectures of a request are put into a shell command as they are: after a prefix that opens no quotation, whatever the
  user sent is read by the shell of the build's container.
\<close>

theorem archs_reach_shell:
  assumes "UserCreateByPipApt H e token (Some r) s = (Inr a, s1)" and "kq_archs r = Some [text]" and "\<not> str_contains text ''arm''"
    and "CHR 0x22 \<notin> set (pk_space e)" "CHR 0x27 \<notin> set (pk_space e)"
  shows "\<exists>spec pre post. (pk_space e, build_name e (jm_username token), spec) \<in> set (bs_specs s1) \<and>
    map bc_args (bt_containers spec) = [[''/bin/sh'', ''-c'', pre @ text @ post]] \<and> CHR 0x22 \<notin> set pre \<and> CHR 0x27 \<notin> set pre"
proof -
  from assms(1) have "buildFromDockerfile H e (pip_apt_data token r) s = (Inr a, s1)" by (simp add: UserCreateByPipApt_def)
  then obtain link where spec: "(pk_space e, build_name e (jm_username token), buildkit_spec (generateBuildKitContainer e
      (buildkit_of e (pip_apt_data token r) link)) (generateVolumes (build_name e (jm_username token)))) \<in> set (bs_specs s1)"
    by (rule dockerfile_build_objects) (simp add: pip_apt_data_def)
  define pre where "pre = [nl, tb, tb] @ ''docker buildx create '' @ [bsl, nl, tb, tb] @ ''--name multi-platform-builder '' @ [bsl, nl, tb, tb] @
     ''--node amd-node '' @ [bsl, nl, tb, tb] @ ''--driver remote tcp://'' @ (''buildkitd-x86.'' @ pk_space e) @ '':1234 && '' @ [bsl, nl, tb, tb] @
     [tb] @ ''docker buildx use multi-platform-builder && '' @ [bsl, nl, tb, tb] @ ''docker buildx build --progress plain --platform ''"
  define post where "post = '' --file /workspace/Dockerfile --output '' @ image_output link @ '' /workspace'' @ [nl, tb]"
  have "buildx_command e text (image_output link) = pre @ text @ post"
    using assms(3) by (simp add: buildx_command_def append_arm_command_def pre_def post_def)
  with assms(2) have "map bc_args (generateBuildKitContainer e (buildkit_of e (pip_apt_data token r) link)) = [[''/bin/sh'', ''-c'', pre @ text @ post]]"
    by (simp add: generateBuildKitContainer_def buildkit_of_def pip_apt_data_def slice_def)
  moreover have "CHR 0x22 \<notin> set pre" "CHR 0x27 \<notin> set pre" using assms(4,5) by (simp_all add: pre_def)
  ultimately show ?thesis using spec by (intro exI [of _ pre] exI [of _ post] exI conjI) (assumption | simp add: buildkit_spec_def)+
qed

section \<open>Base images\<close>

definition plain_word :: "string \<Rightarrow> bool" where
  "plain_word w \<longleftrightarrow> w \<noteq> [] \<and> (\<forall>c \<in> set w. \<not> is_space c)"

lemma fields_from_word: "\<forall>c \<in> set w. \<not> is_space c \<Longrightarrow> fields_from v (w @ s) = fields_from (v @ w) s"
  by (induction w arbitrary: v) auto

lemma str_fields_word: "plain_word w \<Longrightarrow> is_space c \<Longrightarrow> str_fields (w @ c # s) = w # str_fields s"
  using fields_from_word [of w "[]" "c # s"] by (simp add: plain_word_def str_fields_def)

lemma str_fields_last: "plain_word w \<Longrightarrow> str_fields w = [w]"
  using fields_from_word [of w "[]" "[]"] by (simp add: plain_word_def str_fields_def)

lemma trim_space_plain: "s \<noteq> [] \<Longrightarrow> \<not> is_space (hd s) \<Longrightarrow> \<not> is_space (last s) \<Longrightarrow> trim_space s = s"
proof -
  assume s: "s \<noteq> []" "\<not> is_space (hd s)" "\<not> is_space (last s)"
  then have "dropWhile is_space s = s" by (cases s) auto
  moreover have "dropWhile is_space (rev s) = rev s" using s by (cases "rev s") (auto simp: last_conv_nth hd_rev [symmetric])
  ultimately show ?thesis by (simp add: trim_space_def)
qed

lemma no_name_tag: "CHR '':'' \<notin> set (join_parts ps) \<Longrightarrow> search_name_tag ps = None"
proof (induction ps rule: search_name_tag.induct)
  case (1 a b r rs)
  then have rest: "CHR '':'' \<notin> set (join_parts (b # r # rs))" "CHR '':'' \<notin> set (join_parts (r # rs))" by simp_all
  then have n: "(if a \<noteq> [] \<and> b \<noteq> [] then name_tag_of (join_parts (r # rs)) else None) = None" by (simp add: name_tag_of_def)
  from "1.IH" [OF n rest(1)] show ?case by (simp only: search_name_tag.simps n option.case)
qed simp_all

lemma from_plain: "plain_word ''FROM''" "is_space (CHR '' '')"
  by (simp_all add: plain_word_def is_space_def)

lemma join_lines_plain: "\<not> continued line \<Longrightarrow> join_lines line ls = Inr line"
  by (cases ls) simp_all

lemma plain_word_ends: "plain_word w \<Longrightarrow> w \<noteq> [] \<and> \<not> is_space (hd w) \<and> \<not> is_space (last w) \<and> nl \<notin> set w"
proof -
  assume w: "plain_word w"
  have nl: "is_space nl" by (simp add: is_space_def)
  from w have a: "w \<noteq> []" and b: "c \<in> set w \<Longrightarrow> \<not> is_space c" for c by (simp_all add: plain_word_def)
  from a b [OF hd_in_set [OF a]] b [OF last_in_set [OF a]] b [of nl] nl show ?thesis by metis
qed

lemma base_of_line:
  assumes line: "line = ''FROM'' @ s" and "str_fields line = w # p # ps" and "\<not> is_space (last line)" and "last line \<noteq> bsl"
  shows "base_image_of (line # ls) = Inr p"
proof -
  have "line \<noteq> []" "\<not> is_space (hd line)" by (simp_all add: line is_space_def)
  then have "trim_space line = line" using assms(3) by (intro trim_space_plain)
  moreover have "join_lines line ls = Inr line" using assms(4) by (intro join_lines_plain) (simp add: continued_def)
  moreover have "\<not> has_prefix ''#'' line" "has_prefix ''FROM'' line" by (simp_all add: has_prefix_def line)
  ultimately show ?thesis using assms(2) by (simp add: Let_def)
qed

text \<open>The Dockerfile made for a list of packages is read back as building from the image it was made for.\<close>

theorem generated_base_image:
  assumes "plain_word (kq_image r)" and "last (kq_image r) \<noteq> bsl"
  shows "extractBaseImageFromDockerfile (generateDockerfile r) = Inr (kq_image r)"
proof -
  note ends = plain_word_ends [OF assms(1)]
  define line where "line = ''FROM'' @ CHR '' '' # kq_image r"
  have "generateDockerfile r = line @ nl # (''USER root'' @ [nl] @ apt_section (kq_packages r) @ [nl] @ requirements_section (kq_requirements r) @ [nl])"
    by (simp add: generateDockerfile_def line_def)
  moreover have "nl \<notin> set line" using ends by (simp add: line_def)
  ultimately obtain ls where ls: "split_on nl (generateDockerfile r) = line # ls" by (metis split_on_append)
  have "str_fields line = [''FROM'', kq_image r]"
    unfolding line_def str_fields_word [OF from_plain] str_fields_last [OF assms(1)] ..
  moreover have "last line = last (kq_image r)" using ends by (simp add: line_def)
  ultimately show ?thesis
    unfolding extractBaseImageFromDockerfile_def ls by (intro base_of_line [OF line_def]) (use ends assms(2) in simp_all)
qed

text \<open>
  An option of the instruction is taken for the image: a Dockerfile that names its platform has no base image a link could be
  made from, so without a name of its own the request is refused.
\<close>

theorem platform_option_is_base:
  assumes "plain_word opt" "CHR '':'' \<notin> set opt" and "plain_word img" "last img \<noteq> bsl"
    and "dq_dockerfile f = ''FROM '' @ opt @ '' '' @ img @ nl # rest" and "dq_name f = []"
    and "ho_projectExists H (bs_harbor s) (user_project (jm_username token)) = Inr True"
  shows "extractBaseImageFromDockerfile (dq_dockerfile f) = Inr opt \<and>
    fst (UserCreateByDockerfile H e token (Some f) s) = Inl ''generate new image link failed''"
proof -
  note ends = plain_word_ends [OF assms(3)]
  define line where "line = ''FROM'' @ CHR '' '' # opt @ CHR '' '' # img"
  have "dq_dockerfile f = line @ nl # rest" by (simp add: assms(5) line_def)
  moreover have "nl \<notin> set line" using ends plain_word_ends [OF assms(1)] by (simp add: line_def)
  ultimately have ls: "split_on nl (dq_dockerfile f) = line # split_on nl rest" by (simp add: split_on_append)
  have "str_fields line = [''FROM'', opt, img]"
    unfolding line_def str_fields_word [OF from_plain] str_fields_word [OF assms(1) from_plain(2)] str_fields_last [OF assms(3)] ..
  moreover have "last line = last img" using ends by (simp add: line_def)
  ultimately have base: "extractBaseImageFromDockerfile (dq_dockerfile f) = Inr opt"
    unfolding extractBaseImageFromDockerfile_def ls by (intro base_of_line [OF line_def]) (use ends assms(4) in simp_all)
  have "GetImageNameAndTag opt = Inl (''invalid image link: '' @ opt)"
    using no_name_tag [of "split_on CHR ''/'' opt"] assms(2) by (simp add: GetImageNameAndTag_def join_split)
  then show ?thesis using base assms(6,7)
    by (simp add: UserCreateByDockerfile_def buildFromDockerfile_def with_project_def CheckOrCreateProjectForUser_def Let_def dockerfile_data_def
        GenerateNewImageLinkForDockerfileBuild_def)
qed

section \<open>Listings never panic\<close>

definition described :: "kaniko \<Rightarrow> bool" where
  "described k \<longleftrightarrow> kn_description k \<noteq> None \<and> kn_dockerfile k \<noteq> None"

abbreviation all_described :: "image_world \<Rightarrow> bool" where
  "all_described w \<equiv> list_all described (iw_kanikos w)"

lemma described_updates:
  "(\<And>k. described (f k) = described k) \<Longrightarrow> list_all described (tbl_updates P f t) = list_all described t"
  by (induction t) auto

lemma described_fields [simp]:
  "described (kn_status_update f k) = described k" "described (kn_size_update g k) = described k" "described (kaniko_of_job e j w)"
  by (simp_all add: described_def kaniko_of_job_def)

lemma described_steps:
  "all_described (snd (updateKanikoStatus e k st w)) = all_described w" "all_described (snd (updateKanikoSize e k sz w)) = all_described w"
  by (simp_all add: updateKanikoStatus_def updateKanikoSize_def described_updates split: option.split)

lemma described_image: "all_described (snd (createImageRecord e k w)) = all_described w"
  by (simp add: createImageRecord_def split: option.split)

lemma described_finish: "all_described (snd (finish_build e k w)) = all_described w"
  using described_steps(2) [of e k _ w] described_image [of e k]
  by (auto simp: finish_build_def split: sum.split prod.split option.split) (metis snd_conv)+

lemma described_reconcile: "all_described w \<Longrightarrow> all_described (snd (build_Reconcile e ns n w))"
proof -
  assume ok: "all_described w"
  have tail: "all_described (snd (case updateKanikoStatus e k st w1 of (Some x, w2) \<Rightarrow> ((True, Some x), w2) | (None, w2) \<Rightarrow> ((False, None), w2)))
      = all_described w1" for k st w1
    using described_steps(1) [of e k st w1] by (auto split: prod.split option.split)
  have fin: "all_described w1" if "finish_build e k w = (f, w1)" for k f w1
    using that ok described_finish [of e k w] by simp
  have gone: "all_described (snd (handleJobNotFound e n w))"
    using ok by (auto simp: handleJobNotFound_def tail split: option.split)
  have new: "all_described (snd (handleRecordNotFound e j w))" for j
    using ok by (simp add: handleRecordNotFound_def Let_def split: option.split)
  show ?thesis using ok gone new fin
    by (auto simp: build_Reconcile_def Let_def tail split: option.split prod.split)
qed

lemma described_fewer: "fewer_rows w w1 \<Longrightarrow> all_described w \<Longrightarrow> all_described w1"
  by (auto simp: fewer_rows_def list_all_iff filtered_def)

lemma described_run: "all_described w \<Longrightarrow> all_described (build_run ss w)"
proof (induction ss arbitrary: w)
  case (Cons s ss)
  have "all_described (apply_build_step s w)"
    using Cons.prems by (cases s) (auto intro: described_reconcile described_fewer [OF fewer_rows_handlers(1)] described_fewer [OF fewer_rows_handlers(2)])
  with Cons.IH show ?case by (simp add: build_run_def)
qed (simp add: build_run_def)

lemma list_response:
  "list_all described ks \<Longrightarrow> \<exists>is. generateKanikoListResponse users ks = Inr is \<and>
     list_all2 (\<lambda>k i. kaniko_info_of users k = Inr i) ks is"
proof (induction ks)
  case (Cons k ks)
  then obtain i "is" where "kaniko_info_of users k = Inr i" "generateKanikoListResponse users ks = Inr is"
    "list_all2 (\<lambda>k i. kaniko_info_of users k = Inr i) ks is"
    by (auto simp: described_def kaniko_info_of_def)
  then show ?case by (intro exI [of _ "i # is"]) simp
qed simp

lemma info_fields: "kaniko_info_of users k = Inr i \<Longrightarrow> ki_id i = kn_id k \<and> ki_createdAt i = kn_createdAt k"
  by (auto simp: kaniko_info_of_def split: option.splits)

text \<open>
  Whatever the reconciler, users, administrators and the cluster did before, a listing answers and never dereferences a missing
  description: it holds exactly the builds of the user of the token, each once, the newest first.
\<close>

theorem build_listing_exact:
  assumes "all_described w"
  shows "\<exists>is. UserListKaniko None token (build_run ss w) = Inr is \<and>
    mset (map ki_id is) = image_mset kn_id (filter_mset (\<lambda>k. kn_userID k = jm_userID token) (mset (iw_kanikos (build_run ss w)))) \<and>
    sorted_wrt (\<ge>) (map ki_createdAt is)"
proof -
  let ?w = "build_run ss w"
  let ?ks = "sort_key (\<lambda>k. - kn_createdAt k) (tbl_find (\<lambda>k. kn_userID k = jm_userID token) (iw_kanikos ?w))"
  have "list_all described ?ks" using described_run [OF assms, of ss] by (simp add: list_all_iff tbl_find_def)
  then obtain "is" where run: "generateKanikoListResponse (iw_users ?w) ?ks = Inr is"
    and each: "list_all2 (\<lambda>k i. kaniko_info_of (iw_users ?w) k = Inr i) ?ks is" using list_response by blast
  from each have fields: "map ki_id is = map kn_id ?ks \<and> map ki_createdAt is = map kn_createdAt ?ks"
    by (induction rule: list_all2_induct) (auto dest: info_fields)
  have "sorted (map (\<lambda>k. - kn_createdAt k) ?ks)" by (rule sorted_sort_key)
  then have "sorted_wrt (\<ge>) (map kn_createdAt ?ks)" by (simp add: sorted_wrt_map)
  with run fields show ?thesis by (intro exI [of _ "is"]) (simp add: UserListKaniko_def tbl_find_def)
qed

section \<open>A cluster that builds\<close>

text \<open>An encoding of lists of strings that reads back: a letter before every character and at every end.\<close>

definition write_part :: "string \<Rightarrow> string" where
  "write_part x = concat (map (\<lambda>c. [CHR ''c'', c]) x) @ ''e''"

definition write_strings :: "string list option \<Rightarrow> string" where
  "write_strings ts = (case ts of None \<Rightarrow> ''n'' | Some xs \<Rightarrow> CHR ''s'' # concat (map write_part xs))"

fun read_parts :: "string \<Rightarrow> string \<Rightarrow> string list" where
  "read_parts w [] = []"
| "read_parts w [c] = (if c = CHR ''e'' then [w] else [])"
| "read_parts w (c # d # s) = (if c = CHR ''e'' then w # read_parts [] (d # s) else read_parts (w @ [d]) s)"

definition read_strings :: "string \<Rightarrow> string list option" where
  "read_strings s = (case s of c # r \<Rightarrow> if c = CHR ''s'' then Some (read_parts [] r) else None | [] \<Rightarrow> None)"

lemma read_write_part: "read_parts w (write_part x @ s) = (w @ x) # read_parts [] s"
proof (induction x arbitrary: w)
  case Nil
  then show ?case by (cases s) (simp_all add: write_part_def)
qed (simp add: write_part_def)

lemma read_write_strings: "read_strings (write_strings ts) = ts"
proof -
  have "read_parts [] (concat (map write_part xs)) = xs" for xs
  proof (induction xs)
    case (Cons x xs)
    then show ?case using read_write_part [of "[]" x] by simp
  qed simp
  then show ?thesis by (cases ts) (simp_all add: read_strings_def write_strings_def)
qed

definition sample_packer :: packer_env where
  "sample_packer = \<lparr>pk_space = ''images'', pk_buildx = ''buildx'', pk_envd = ''envd'', pk_nerdctl = ''nerdctl'', pk_httpsProxy = [], pk_httpProxy = [],
     pk_noProxy = [], pk_uuid = ''0a1b2c'', pk_link = sample_links, pk_json = write_strings, pk_dbErr = None, pk_configMapErr = None,
     pk_jobErr = None, pk_ownerErr = None\<rparr>"

definition reading_env :: build_env where
  "reading_env = sample_build_env\<lparr>be_strings := read_strings\<rparr>"

definition sample_build_site :: "small_harbor build_site" where
  "sample_build_site = \<lparr>bs_world = (sample_builds [] [])\<lparr>iw_users := [sample_user 4 ''ann'']\<rparr>, bs_configMaps = [], bs_specs = [],
     bs_harbor = empty_harbor\<lparr>sh_projects := [(''user-ann'', 5)]\<rparr>\<rparr>"

definition sample_kaniko_req :: kaniko_req where
  "sample_kaniko_req = \<lparr>kq_image = ''ubuntu'', kq_requirements = ''numpy'', kq_packages = [], kq_description = ''mine'', kq_name = ''tools'',
     kq_tag = ''v1'', kq_tags = Some [''a'', ''b''], kq_template = ''{}'', kq_archs = Some [''linux/amd64; true'']\<rparr>"

lemma sample_site_facts:
  "builds_ok (bs_world sample_build_site)" "iw_kanikoNames (bs_world sample_build_site) = []"
  "4 \<in> us_id ` set (iw_users (bs_world sample_build_site))" "build_answered reading_env (pk_space sample_packer)"
  "\<forall>ts. be_strings reading_env (pk_json sample_packer ts) = ts" "be_strings reading_env [] = None" "bs_configMaps sample_build_site = []"
  "ho_projectExists small_ops (bs_harbor sample_build_site) (user_project ''ann'') = Inr True"
proof -
  show "\<forall>ts. be_strings reading_env (pk_json sample_packer ts) = ts" by (simp add: reading_env_def sample_packer_def read_write_strings)
  show "be_strings reading_env [] = None" by (simp add: reading_env_def read_strings_def)
qed (simp_all add: sample_build_site_def sample_build_defs builds_ok_def sample_user_def reading_env_def sample_packer_def build_answered_def
      small_ops_def empty_harbor_def user_project_def)

lemma sample_pack: "\<exists>s1. pack sample_packer c (new_batch_job n ns anns) spec sample_build_site = (None, s1)"
  by (simp add: pack_def create_config_map_def create_batch_job_def updateOwnerReference_def sample_build_site_def sample_packer_def
      sample_builds_def find_build_job_def)

lemma sample_same_site: "with_project small_ops sample_packer ''ann'' k sample_build_site = k sample_build_site"
  using sample_site_facts(8) by (simp add: with_project_def CheckOrCreateProjectForUser_def Let_def)

lemma sample_build_succeeds:
  assumes "bd_userName d = ''ann''" "bd_imageName d \<noteq> []"
  shows "\<exists>s1. buildFromDockerfile small_ops sample_packer d sample_build_site = (Inr [], s1)"
proof -
  from assms(2) obtain link where "GenerateNewImageLinkForDockerfileBuild (pk_link sample_packer) (bd_baseImage d) (bd_userName d) (bd_imageName d) (bd_imageTag d) = Inr link"
    by (simp add: GenerateNewImageLinkForDockerfileBuild_def)
  moreover obtain s1 where "CreateFromDockerfile sample_packer (buildkit_of sample_packer d link) sample_build_site = (None, s1)"
    unfolding CreateFromDockerfile_def createJob_def using sample_pack by blast
  ultimately show ?thesis by (simp add: buildFromDockerfile_def assms(1) sample_same_site build_answer_def)
qed

lemma sample_build_name: "build_name sample_packer ''ann'' = ''ann-0a1b2''"
  by (simp add: build_name_def sample_packer_def)

lemma build_request_recorded_witness:
  "\<exists>s1 link. UserCreateByPipApt small_ops sample_packer ann_token (Some sample_kaniko_req) sample_build_site = (Inr [], s1) \<and>
     recorded_as reading_env ''images'' ''ann-0a1b2'' (bs_world s1)
       \<lparr>ct_userID = 4, ct_imageLink = link, ct_script = generateDockerfile sample_kaniko_req, ct_description = ''mine'',
        ct_tags = Some [''a'', ''b''], ct_source = ''PipApt'', ct_template = ''{}'', ct_archs = Some [''linux/amd64; true'']\<rparr>"
proof -
  obtain s1 where run: "UserCreateByPipApt small_ops sample_packer ann_token (Some sample_kaniko_req) sample_build_site = (Inr [], s1)"
    using sample_build_succeeds [of "pip_apt_data ann_token sample_kaniko_req"]
    by (auto simp: UserCreateByPipApt_def pip_apt_data_def sample_kaniko_req_def)
  from build_request_recorded [THEN conjunct1, of sample_build_site sample_packer ann_token reading_env small_ops sample_kaniko_req "[]" s1]
    run sample_site_facts
  have "\<exists>link. recorded_as reading_env (pk_space sample_packer) (build_name sample_packer ''ann'') (bs_world s1)
       \<lparr>ct_userID = 4, ct_imageLink = link, ct_script = generateDockerfile sample_kaniko_req, ct_description = kq_description sample_kaniko_req,
        ct_tags = kq_tags sample_kaniko_req, ct_source = ''PipApt'', ct_template = kq_template sample_kaniko_req,
        ct_archs = kq_archs sample_kaniko_req\<rparr>" by auto
  moreover have "pk_space sample_packer = ''images''" "kq_description sample_kaniko_req = ''mine''" "kq_tags sample_kaniko_req = Some [''a'', ''b'']"
    "kq_template sample_kaniko_req = ''{}''" "kq_archs sample_kaniko_req = Some [''linux/amd64; true'']"
    by (simp_all add: sample_packer_def sample_kaniko_req_def)
  ultimately show ?thesis using run by (simp only: sample_build_name) blast
qed

definition sample_snapshot :: snapshot_req where
  "sample_snapshot = \<lparr>sr_userID = 4, sr_namespace = ''crater'', sr_podName = ''jpt'', sr_containerName = ''main'', sr_nodeName = ''n1'',
     sr_description = ''Snapshot of jpt'', sr_imageLink = ''harbor/user-ann/jpt:1''\<rparr>"

lemma snapshot_recorded_witness:
  "\<exists>s1. CreateFromSnapshot sample_packer sample_snapshot sample_build_site = (None, s1) \<and>
     recorded_as reading_env ''images'' ''jpt-snapshot0a1b'' (bs_world s1)
       \<lparr>ct_userID = 4, ct_imageLink = ''harbor/user-ann/jpt:1'', ct_script = [], ct_description = ''Snapshot of jpt'', ct_tags = None,
        ct_source = ''Snapshot'', ct_template = [], ct_archs = None\<rparr>"
proof -
  obtain s1 where run: "CreateFromSnapshot sample_packer sample_snapshot sample_build_site = (None, s1)"
    by (simp add: CreateFromSnapshot_def create_batch_job_def sample_build_site_def sample_packer_def sample_builds_def find_build_job_def)
  have "sr_userID sample_snapshot = 4" "sr_podName sample_snapshot @ ''-snapshot'' @ take 4 (pk_uuid sample_packer) = ''jpt-snapshot0a1b''"
    "sr_imageLink sample_snapshot = ''harbor/user-ann/jpt:1''" "sr_description sample_snapshot = ''Snapshot of jpt''" "pk_space sample_packer = ''images''"
    by (simp_all add: sample_snapshot_def sample_packer_def)
  with snapshot_recorded [OF run sample_site_facts(1) _ _ _ sample_site_facts(6,4)] run sample_site_facts(2,3) show ?thesis by auto
qed

lemma failed_build_leaves_config_map_witness:
  "\<exists>s1. buildFromDockerfile small_ops (sample_packer\<lparr>pk_jobErr := Some ''refused''\<rparr>) (pip_apt_data ann_token sample_kaniko_req) sample_build_site =
      (Inl ''create imagepack failed'', s1) \<and> iw_jobs (bs_world s1) = [] \<and> map cf_owners (bs_configMaps s1) = [[]]"
proof -
  let ?e = "sample_packer\<lparr>pk_jobErr := Some ''refused''\<rparr>" and ?d = "pip_apt_data ann_token sample_kaniko_req"
  obtain link where link: "GenerateNewImageLinkForDockerfileBuild (pk_link ?e) (bd_baseImage ?d) (bd_userName ?d) (bd_imageName ?d) (bd_imageTag ?d) = Inr link"
    by (simp add: GenerateNewImageLinkForDockerfileBuild_def pip_apt_data_def sample_kaniko_req_def)
  have "bd_userName ?d = ''ann''" "pk_configMapErr ?e = None" "iw_jobs (bs_world sample_build_site) = []"
    by (simp_all add: pip_apt_data_def sample_packer_def sample_build_site_def sample_builds_def)
  with failed_build_leaves_config_map [OF link, of small_ops sample_build_site "''refused''"] sample_site_facts(7,8) show ?thesis by auto
qed

lemma admin_build_loses_requirements_witness:
  "\<exists>s1 c. AdminCreate small_ops sample_packer ann_token (Some sample_kaniko_req) sample_build_site = (Inr [], s1) \<and>
     c \<in> set (bs_configMaps s1) \<and> gm_get (cf_data c) ''requirements.txt'' = Some []"
proof -
  obtain s1 where run: "AdminCreate small_ops sample_packer ann_token (Some sample_kaniko_req) sample_build_site = (Inr [], s1)"
    using sample_build_succeeds [of "admin_data ann_token sample_kaniko_req"] by (auto simp: AdminCreate_def admin_data_def sample_kaniko_req_def)
  have "kq_requirements sample_kaniko_req \<noteq> []" by (simp add: sample_kaniko_req_def)
  from admin_build_loses_requirements [OF run this] run show ?thesis by blast
qed

lemma archs_reach_shell_witness:
  "\<exists>s1 spec pre post. UserCreateByPipApt small_ops sample_packer ann_token (Some sample_kaniko_req) sample_build_site = (Inr [], s1) \<and>
     (''images'', ''ann-0a1b2'', spec) \<in> set (bs_specs s1) \<and>
     map bc_args (bt_containers spec) = [[''/bin/sh'', ''-c'', pre @ ''linux/amd64; true'' @ post]]"
proof -
  obtain s1 where run: "UserCreateByPipApt small_ops sample_packer ann_token (Some sample_kaniko_req) sample_build_site = (Inr [], s1)"
    using sample_build_succeeds [of "pip_apt_data ann_token sample_kaniko_req"]
    by (auto simp: UserCreateByPipApt_def pip_apt_data_def sample_kaniko_req_def)
  have "kq_archs sample_kaniko_req = Some [''linux/amd64; true'']" "\<not> str_contains ''linux/amd64; true'' ''arm''"
    "CHR 0x22 \<notin> set (pk_space sample_packer)" "CHR 0x27 \<notin> set (pk_space sample_packer)" "pk_space sample_packer = ''images''"
    by (simp_all add: sample_kaniko_req_def sample_packer_def starts_with_def)
  note facts = this
  from archs_reach_shell [OF run facts(1-4)] obtain spec pre post where
    spec: "(pk_space sample_packer, build_name sample_packer (jm_username ann_token), spec) \<in> set (bs_specs s1)"
    and args: "map bc_args (bt_containers spec) = [[''/bin/sh'', ''-c'', pre @ ''linux/amd64; true'' @ post]]" by (elim exE conjE)
  from spec have "(''images'', ''ann-0a1b2'', spec) \<in> set (bs_specs s1)" by (simp only: facts(5) jwt_message.simps sample_build_name)
  with run args show ?thesis by (intro exI conjI)
qed

lemma generated_base_image_witness: "extractBaseImageFromDockerfile (generateDockerfile sample_kaniko_req) = Inr ''ubuntu''"
  using generated_base_image [of sample_kaniko_req] by (simp add: sample_kaniko_req_def plain_word_def is_space_def)

definition platform_file :: dockerfile_req where
  "platform_file = \<lparr>dq_description = [], dq_dockerfile = ''FROM '' @ ''--platform=linux/amd64'' @ '' '' @ ''ubuntu:22.04'' @ nl # ''USER root'',
     dq_name = [], dq_tag = [], dq_tags = None, dq_template = [], dq_archs = None\<rparr>"

lemma platform_option_is_base_witness:
  "extractBaseImageFromDockerfile (dq_dockerfile platform_file) = Inr ''--platform=linux/amd64'' \<and>
   fst (UserCreateByDockerfile small_ops sample_packer ann_token (Some platform_file) sample_build_site) = Inl ''generate new image link failed''"
proof (rule platform_option_is_base)
  show "dq_dockerfile platform_file = ''FROM '' @ ''--platform=linux/amd64'' @ '' '' @ ''ubuntu:22.04'' @ nl # ''USER root''"
    by (simp only: platform_file_def dockerfile_req.simps)
qed (use sample_site_facts(8) in \<open>simp_all add: plain_word_def is_space_def platform_file_def\<close>)

lemma build_listing_exact_witness:
  "\<exists>is. UserListKaniko None ann_token (build_run [] (sample_builds [] [])) = Inr is"
  using build_listing_exact [of "sample_builds [] []" ann_token "[]"] by (auto simp: sample_builds_def)

end
