(* ===== verification/Spec2Isabelle.thy ===== *)
theory Spec2Isabelle
  imports Go_Heap Task_Controller Vcjob_Reconciler Approval_Orders Cron_Jobs Exec_Engine Images Job_Requests Quota_Views AI_Requests Job_Templates Build_Requests
begin

text \<open>
  A verification of the core of Crater, a backend that runs deep-learning jobs on a Kubernetes
  cluster.  Users submit jobs over HTTP; accounts have quotas; a task controller admits AI jobs; reconcilers
  follow the jobs of the cluster in the database; scheduled policies remind owners and delete idle
  or overlong jobs; users ask to keep a job, and administrators or a rule approve; images are built by
  jobs of their own.

  Parts, theories and files (paths under \<open>src/\<close>):
   - \<open>Prelude\<close>: result values, Go's maps, database tables, decimal numbers, folds that may panic.
   - \<open>Keyed_Collection\<close>: the interface both containers promise (a locale over key, insert, delete, lookup),
     interpreted in the two theories that follow.
   - \<open>Go_Queue\<close>, \<open>Go_Heap\<close>: \<open>pkg/util/queue\<close>, \<open>pkg/util/heap\<close>, with the sift procedures of \<open>container/heap\<close>;
     both refine a finite map, the heap pops in order.
   - \<open>Resource_List\<close>: \<open>pkg/aitaskctl/utils.go\<close>, \<open>pkg/utils/resource.go\<close>; quantities are a type variable with named laws.
   - \<open>AI_Task\<close>, \<open>Task_Queue\<close>, \<open>Quota\<close>, \<open>Task_Controller\<close>, \<open>Profiler\<close>: the rest of \<open>pkg/aitaskctl\<close>: the task
     table and its service, two queues per account, the quota cache against a ledger of charged tasks, the scheduling round
     and the handlers of job and task events, and the profiling loop.
   - \<open>Exec_Engine\<close>: \<open>pkg/aitaskctl/linklist.go\<close>, a doubly linked list in a store of cells.
   - \<open>Job_Status\<close>, \<open>Job_Control\<close>: \<open>pkg/util/status.go\<close>, \<open>pkg/crclient\<close>, \<open>pkg/reconciler/aijob-reconciler.go\<close>.
   - \<open>Data_Model\<close>: the rows of \<open>dao/model\<close> and the platform state that the components below share.
   - \<open>Vcjob_Reconciler\<close>: \<open>pkg/reconciler/vcjob-*.go\<close> and \<open>ScheduleData.Init\<close>: the row of a Volcano job after any reconcile call.
   - \<open>Alerts\<close>: \<open>pkg/alert\<close>: who is sent what, and how often.
   - \<open>Cleaner\<close>: \<open>pkg/cleaner\<close>: the three policies and which jobs they may touch.
   - \<open>Cron_Jobs\<close>: \<open>pkg/cleaner/cleaner.go\<close>, \<open>pkg/cronjob\<close>, \<open>internal/handler/operations/cronjob.go\<close>: the
     scheduler entries against the rows that name them, and the records of the runs.
   - \<open>Approval_Orders\<close>: \<open>internal/handler/approvalorder.go\<close>, \<open>internal/handler/operations/lock.go\<close>.
   - \<open>Image_Builds\<close>: \<open>pkg/reconciler/build-reconciler.go\<close>, \<open>internal/handler/image/buildmgr.go\<close>, \<open>dao/model/image.go\<close>.
   - \<open>Accounts\<close>: \<open>internal/handler/account.go\<close>: accounts, their members and the Volcano queue of each account.
   - \<open>Auth\<close>: \<open>internal/util/token.go\<close>, \<open>internal/middleware/jwt.go\<close>, \<open>internal/route.go\<close> and the handlers of \<open>auth.go\<close>, \<open>user.go\<close> and
     \<open>context.go\<close>: tokens, the guards of the routes, login and registration, the table of users.
   - \<open>Sharing\<close>: tables of shares and the interface \<open>grants\<close> the next two rest on.
   - \<open>Datasets\<close>: \<open>internal/handler/dataset.go\<close>: datasets, their addresses, their shares and what a user sees.
   - \<open>Images\<close>: \<open>internal/handler/image/image.go\<close>: images, their shares, the list of a user and the changes by others.
   - \<open>Volume_Mounts\<close>, \<open>Pod_Specs\<close>: \<open>internal/handler/vcjob/util.go\<close> and the pods of \<open>custom.go\<close>: what a job may mount and where it may run.
   - \<open>Services\<close>: \<open>pkg/crclient/service.go\<close>: node ports, services and ingresses of jobs.
   - \<open>Image_Links\<close>: \<open>pkg/utils/image.go\<close>: the links of images, taken apart and built.
   - \<open>Job_Submission\<close>: the handlers that create jobs in \<open>internal/handler/vcjob\<close> (\<open>custom.go\<close>, \<open>jupyter.go\<close>,
     \<open>tensorflow.go\<close>, \<open>pytorch.go\<close>), up to the row that the reconciler of \<open>Vcjob_Reconciler\<close> files.
   - \<open>Job_Requests\<close>: \<open>internal/handler/vcjob/vcjob.go\<close> and the rest of \<open>jupyter.go\<close>: deletion, listings, SSH, tokens, snapshots.
   - \<open>Resource_Catalog\<close>: \<open>internal/handler/resource.go\<close>: the resources of the cluster, their synchronisation, the links of GPUs.
   - \<open>Quota_Views\<close>: the three \<open>GetQuota\<close> of \<open>context.go\<close>, \<open>account.go\<close> and \<open>aijob/emias.go\<close>.
   - \<open>AI_Requests\<close>: the rest of \<open>internal/handler/aijob\<close>: AI jobs submitted to, shown from and deleted through \<open>Task_Controller\<close>.
   - \<open>Job_Templates\<close>: \<open>internal/handler/jobtemplate.go\<close>: templates as a map from numbers that are given once.
   - \<open>Harbor\<close>: \<open>pkg/imageregistry/registry.go\<close>, \<open>internal/handler/image/harbor.go\<close>: projects, accounts and artifacts of the image registry.
   - \<open>Build_Requests\<close>: \<open>internal/handler/image/build.go\<close>, \<open>pkg/packer\<close> and the listings of \<open>buildmgr.go\<close>: a request for an image up to
     the row the reconciler of \<open>Image_Builds\<close> makes of it.
   - This theory: what spans components: an approval in \<open>Approval_Orders\<close> against the policies of \<open>Cleaner\<close>.

  State.  Each component's state is a record with the fields of the Go structure; pointers are options, maps are
  association lists with \<open>gm_get\<close> and \<open>gm_put\<close> or functions, a table is the list of its rows in primary-key
  order.  Handlers run atomically one after the other; interleavings are sequences of steps (\<open>cron_runs\<close>,
  \<open>build_run\<close>, the event lists of the controller).  The platform's job, alert, order and user tables, the cluster and
  the outbox are one record, so effects of one component are seen by the others; users, accounts, members and queues are
  the record \<open>directory\<close> of \<open>Accounts\<close> and \<open>Auth\<close>, which the stores of datasets and images contain.

  Failure.  Every call that can fail in the code is decided by a fault argument (\<open>None\<close> is success), so
  a theorem without a hypothesis on the environment holds whatever fails.  A Go panic is a value of the result type.

  Outside code, as parameters with named laws: \<open>quantity_ops\<close> and \<open>quantity_laws\<close> (Kubernetes quantities),
  \<open>cron_ops\<close> and \<open>cron_laws\<close> (the scheduler \<open>robfig/cron\<close>: a fresh entry number per added entry, removal by number),
  \<open>jwt_ops\<close> and \<open>jwt_laws\<close> (signed tokens), \<open>bcrypt_law\<close>, LDAP and UID servers, JSON decoding, Prometheus answers, \<open>harbor_ops\<close> and
  \<open>harbor_laws\<close> (the image registry), \<open>picks_free\<close> (the port the cluster chooses is free and in its range), the meaning of a node requirement.  Concrete instances occur in the witnesses.

  Numbers.  Times are nanoseconds since the zero time, so \<open>IsZero\<close> is 0; durations computed from requests wrap at 64 bits;
  \<open>time.Sub\<close> saturates; task identifiers of the engine are 32-bit words.  Identifiers of rows are natural numbers.

  Loops.  Structural recursion or folds everywhere, but for the heap's sift procedures (a measure) and the engine's run
  (\<open>partial_function\<close>; \<open>None\<close> is a run that never ends, and the theorems state when it ends).  No fuel is used.

  Groups of lemmas.  Refinements: the containers against a map, the quota cache against its ledger.  Invariants: rows are never
  lost by the reconciler, queues stay consistent, approvals keep their distance, the scheduler stays in step.  Safety: quotas
  are kept by admission, locked jobs survive the policies, users delete only their own builds, requests other than GET
  act with current rights.  Behaviour: the outcome of each
  handler on every branch.  Defects: theorems that state what the code does where it looks unintended.

  Assumed of the database.  \<open>Updates\<close> with a structure skips zero fields; \<open>Delete\<close> is soft, so the row leaves every later
  query (its unique name stays reserved, which \<open>Image_Builds\<close> keeps in a list of its own).  The order of Go's map
  iteration is the list order; \<open>sort.Sort\<close> is a stable sort.

  Not modelled.  HTTP binding and response wrappers, generated query objects, build scripts, monitoring queries, log and
  terminal streaming, the connection to Harbor, the YAML of a job, the views of nodes and metrics, start-up and migrations
  (but for the rows of the cron jobs): they construct data for, or pass it on from, code outside the repository.
\<close>

text \<open>Claim C29. An extension granted on the spot protects the job. After a request for a job is approved
  automatically for some hours, no run of the two clean-up policies whose clock stays before the end
  of the extension, whatever fails and whatever the policies ask for, deletes the job in the
  cluster, reminds its owner or sends any message about it.\<close>

theorem approved_extension_protects:
  assumes "CreateApprovalOrder e tk (Some r) s = (Inr msg, s1)" and "granted e (tk_userID tk) r s"
    and "\<forall>i. cl_clock ce i < ap_now e + int (rq_extensionHours r) * Hour"
  shows "untouched (cl_ns ce) (rq_name r) s1 (snd (CleanLongTimeRunningJobs ce req s1)) \<and>
    untouched (cl_ns ce) (rq_name r) s1 (snd (CleanLowGPUUsageJobs ce req' s1))"
proof -
  from CreateApprovalOrder_Inr [OF assms(1)] assms(2)
  have s1: "pf_jobs s1 = pf_jobs (apply_grant e r s)" by (simp add: Let_def)
  obtain j where j: "job_named (rq_name r) s = Some j" using assms(2) by (auto simp: granted_def lockable_def)
  define t where "t = extended_lock (ap_now e) (int (rq_extensionHours r) * Hour) j"
  have "job_named (rq_name r) s1 = Some (j\<lparr>jb_lockedTimestamp := t\<rparr>)"
    using j by (simp add: job_named_cong [OF s1] apply_grant_def job_named_set_lock t_def)
  then have "j\<lparr>jb_lockedTimestamp := t\<rparr> \<in> set (pf_jobs s1)" "jb_jobName (j\<lparr>jb_lockedTimestamp := t\<rparr>) = rq_name r"
    by (auto simp: job_named_def dest: tbl_first_Some)
  moreover have "\<forall>i. cl_clock ce i < jb_lockedTimestamp (j\<lparr>jb_lockedTimestamp := t\<rparr>)"
    using assms(3) by (auto simp: t_def extended_lock_def intro: less_le_trans)
  ultimately have "untouched (cl_ns ce) (rq_name r) s1 (snd (CleanLongTimeRunningJobs ce req s1))"
    "untouched (cl_ns ce) (rq_name r) s1 (snd (CleanLowGPUUsageJobs ce req' s1))"
    using locked_jobs_untouched by blast+
  then show ?thesis by blast
qed

lemma approved_extension_protects_witness:
  "\<exists>msg s1. CreateApprovalOrder (quiet_approvals 1000) \<lparr>tk_userID = 3, tk_rolePlatform = RoleUser\<rparr> (Some sample_request) sample_platform
      = (Inr msg, s1) \<and>
    untouched ''ns'' ''job-1'' s1 (snd (CleanLongTimeRunningJobs (quiet_cleaner 2000) None s1)) \<and>
    untouched ''ns'' ''job-1'' s1 (snd (CleanLowGPUUsageJobs (quiet_cleaner 2000) None s1))"
proof -
  obtain msg s1 where r: "CreateApprovalOrder (quiet_approvals 1000) \<lparr>tk_userID = 3, tk_rolePlatform = RoleUser\<rparr>
      (Some sample_request) sample_platform = (Inr msg, s1)" using sample_approval by blast
  have "granted (quiet_approvals 1000) 3 sample_request sample_platform"
    by (simp add: granted_def recently_granted_def lockable_def sample_request_def quiet_approvals_def sample_platform_def
        job_named_def tbl_first_Cons sample_job_def)
  with approved_extension_protects [OF r, of "quiet_cleaner 2000" None None]
  have "untouched ''ns'' ''job-1'' s1 (snd (CleanLongTimeRunningJobs (quiet_cleaner 2000) None s1)) \<and>
    untouched ''ns'' ''job-1'' s1 (snd (CleanLowGPUUsageJobs (quiet_cleaner 2000) None s1))"
    by (simp add: quiet_cleaner_def quiet_approvals_def sample_request_def)
  with r show ?thesis by blast
qed

end
